(* ===== verification/Prelude.thy ===== *)
theory Prelude
  imports Main "HOL-Library.Word" "HOL-Library.Multiset" "HOL-Library.List_Lexorder"
    "HOL-Library.Char_ord" "HOL-Library.Product_Lexorder" "HOL-Library.Option_ord"
begin

text \<open>
  Shared vocabulary of the development.

  \<^item> Machine integers: the unsigned integers of the Rust code are words of their width.
    The saturating and checked operations of the Rust standard library are defined here, with
    one lemma each that reads the result back as a natural number (collection
    \<open>word_nat\<close>).  The signed \<open>i64\<close> is an integer clamped to its range.
  \<^item> Comparators: Rust's \<open>Ordering\<close>, \<open>cmp\<close>, \<open>then_with\<close>, and the iterator and slice
    operations built on them (\<open>min_by\<close>, \<open>max_by\<close>, \<open>sort_by\<close>), with the locale
    \<open>comparator\<close> that states when a closure is a total preorder.
  \<^item> Strings: a Rust string is the list of its UTF-8 bytes, ordered as Rust orders it.
  \<^item> Time: an instant of the monotonic clock and a duration are natural numbers of nanoseconds.
\<close>

named_theorems word_nat \<open>facts that move word arithmetic to natural numbers\<close>

section \<open>Machine integers\<close>

type_synonym u8 = "8 word"
type_synonym u16 = "16 word"
type_synonym u32 = "32 word"
type_synonym u64 = "64 word"

definition sat_add :: "'a::len word \<Rightarrow> 'a word \<Rightarrow> 'a word" where
  "sat_add a b = (if unat a + unat b < 2 ^ LENGTH('a) then a + b else - 1)"

definition sat_sub :: "'a::len word \<Rightarrow> 'a word \<Rightarrow> 'a word" where
  "sat_sub a b = (if b \<le> a then a - b else 0)"

definition sat_mul :: "'a::len word \<Rightarrow> 'a word \<Rightarrow> 'a word" where
  "sat_mul a b = (if unat a * unat b < 2 ^ LENGTH('a) then a * b else - 1)"

definition checked_add :: "'a::len word \<Rightarrow> 'a word \<Rightarrow> 'a word option" where
  "checked_add a b = (if unat a + unat b < 2 ^ LENGTH('a) then Some (a + b) else None)"

definition checked_sub :: "'a::len word \<Rightarrow> 'a word \<Rightarrow> 'a word option" where
  "checked_sub a b = (if b \<le> a then Some (a - b) else None)"

text \<open>\<open>uN::try_from(n).unwrap_or(uN::MAX)\<close>\<close>

definition sat_of_nat :: "nat \<Rightarrow> 'a::len word" where
  "sat_of_nat n = (if n < 2 ^ LENGTH('a) then of_nat n else - 1)"

text \<open>\<open>u64::from_le_bytes\<close>, on a list of bytes.\<close>

definition from_le_bytes :: "nat list \<Rightarrow> u64" where
  "from_le_bytes bytes = of_nat (foldr (\<lambda>b n. b + 256 * n) bytes 0)"

text \<open>\<open>i64\<close> arithmetic: the exact integer clamped to the range of the type.\<close>

definition i64_clamp :: "int \<Rightarrow> int" where
  "i64_clamp x = max (- (2 ^ 63)) (min (2 ^ 63 - 1) x)"

section \<open>Comparators\<close>

datatype cmp_result = LessThan | EqualTo | GreaterThan

fun cmp_reverse :: "cmp_result \<Rightarrow> cmp_result" where
  "cmp_reverse LessThan = GreaterThan"
| "cmp_reverse EqualTo = EqualTo"
| "cmp_reverse GreaterThan = LessThan"

definition cmp :: "'a::linorder \<Rightarrow> 'a \<Rightarrow> cmp_result" where
  "cmp a b = (if a < b then LessThan else if a = b then EqualTo else GreaterThan)"

fun then_with :: "cmp_result \<Rightarrow> cmp_result \<Rightarrow> cmp_result" where
  "then_with EqualTo r = r"
| "then_with r _ = r"

text \<open>\<open>Iterator::min_by\<close> keeps the first minimum, \<open>Iterator::max_by\<close> the last maximum.\<close>

fun min_by :: "('a \<Rightarrow> 'a \<Rightarrow> cmp_result) \<Rightarrow> 'a list \<Rightarrow> 'a option" where
  "min_by f [] = None"
| "min_by f (x # xs) = Some (fold (\<lambda>y acc. if f acc y = GreaterThan then y else acc) xs x)"

fun max_by :: "('a \<Rightarrow> 'a \<Rightarrow> cmp_result) \<Rightarrow> 'a list \<Rightarrow> 'a option" where
  "max_by f [] = None"
| "max_by f (x # xs) = Some (fold (\<lambda>y acc. if f acc y = GreaterThan then acc else y) xs x)"

definition list_min :: "'a::linorder list \<Rightarrow> 'a option" where
  "list_min xs = min_by cmp xs"

definition list_max :: "'a::linorder list \<Rightarrow> 'a option" where
  "list_max xs = max_by cmp xs"

text \<open>The stable \<open>sort_by\<close>.\<close>

fun insert_by :: "('a \<Rightarrow> 'a \<Rightarrow> cmp_result) \<Rightarrow> 'a \<Rightarrow> 'a list \<Rightarrow> 'a list" where
  "insert_by f x [] = [x]"
| "insert_by f x (y # ys) =
     (if f x y = GreaterThan then y # insert_by f x ys else x # y # ys)"

fun sort_by :: "('a \<Rightarrow> 'a \<Rightarrow> cmp_result) \<Rightarrow> 'a list \<Rightarrow> 'a list" where
  "sort_by f [] = []"
| "sort_by f (x # xs) = insert_by f x (sort_by f xs)"

text \<open>\<open>Iterator::position\<close>\<close>

fun position :: "('a \<Rightarrow> bool) \<Rightarrow> 'a list \<Rightarrow> nat option" where
  "position p [] = None"
| "position p (x # xs) = (if p x then Some 0 else map_option Suc (position p xs))"

section \<open>Options and lists\<close>

definition is_some_and :: "'a option \<Rightarrow> ('a \<Rightarrow> bool) \<Rightarrow> bool" where
  "is_some_and x p = (case x of None \<Rightarrow> False | Some a \<Rightarrow> p a)"

definition is_none_or :: "'a option \<Rightarrow> ('a \<Rightarrow> bool) \<Rightarrow> bool" where
  "is_none_or x p = (case x of None \<Rightarrow> True | Some a \<Rightarrow> p a)"

definition unwrap_or :: "'a option \<Rightarrow> 'a \<Rightarrow> 'a" where
  "unwrap_or x d = (case x of None \<Rightarrow> d | Some a \<Rightarrow> a)"

definition opt_filter :: "('a \<Rightarrow> bool) \<Rightarrow> 'a option \<Rightarrow> 'a option" where
  "opt_filter p x = (case x of None \<Rightarrow> None | Some a \<Rightarrow> if p a then Some a else None)"

definition opt_or :: "'a option \<Rightarrow> 'a option \<Rightarrow> 'a option" where
  "opt_or x y = (case x of None \<Rightarrow> y | Some a \<Rightarrow> Some a)"

section \<open>Strings\<close>

abbreviation byte :: "char \<Rightarrow> nat" where
  "byte c \<equiv> of_char c"

text \<open>
  The UTF-8 encodings of the characters with the Unicode property White_Space, which is what
  \<open>str::trim\<close> removes, by the number of their bytes.
\<close>

definition ws1 :: "char \<Rightarrow> bool" where
  "ws1 a = ((9 \<le> byte a \<and> byte a \<le> 13) \<or> byte a = 32)"

definition ws2 :: "char \<Rightarrow> char \<Rightarrow> bool" where
  "ws2 a b = (byte a = 0xC2 \<and> (byte b = 0x85 \<or> byte b = 0xA0))"

definition ws3 :: "char \<Rightarrow> char \<Rightarrow> char \<Rightarrow> bool" where
  "ws3 a b c =
     ((byte a = 0xE1 \<and> byte b = 0x9A \<and> byte c = 0x80) \<or>
      (byte a = 0xE2 \<and> byte b = 0x80 \<and>
        ((0x80 \<le> byte c \<and> byte c \<le> 0x8A) \<or> byte c = 0xA8 \<or> byte c = 0xA9 \<or> byte c = 0xAF)) \<or>
      (byte a = 0xE2 \<and> byte b = 0x81 \<and> byte c = 0x9F) \<or>
      (byte a = 0xE3 \<and> byte b = 0x80 \<and> byte c = 0x80))"

fun trim_start :: "string \<Rightarrow> string" where
  "trim_start (a # b # c # s) =
     (if ws1 a then trim_start (b # c # s)
      else if ws2 a b then trim_start (c # s)
      else if ws3 a b c then trim_start s
      else a # b # c # s)"
| "trim_start [a, b] = (if ws1 a then trim_start [b] else if ws2 a b then [] else [a, b])"
| "trim_start [a] = (if ws1 a then [] else [a])"
| "trim_start [] = []"

text \<open>The same from the end, on the reversed bytes.\<close>

fun trim_back :: "string \<Rightarrow> string" where
  "trim_back (c # b # a # s) =
     (if ws1 c then trim_back (b # a # s)
      else if ws2 b c then trim_back (a # s)
      else if ws3 a b c then trim_back s
      else c # b # a # s)"
| "trim_back [c, b] = (if ws1 c then trim_back [b] else if ws2 b c then [] else [c, b])"
| "trim_back [c] = (if ws1 c then [] else [c])"
| "trim_back [] = []"

definition trim :: "string \<Rightarrow> string" where
  "trim s = rev (trim_back (rev (trim_start s)))"

text \<open>
  \<open>s.chars().any(char::is_control)\<close>: the control characters are U+0000 to U+001F, U+007F and
  U+0080 to U+009F, the last group encoded as the byte C2 and a byte of 80 to 9F.
\<close>

fun has_control :: "string \<Rightarrow> bool" where
  "has_control [] = False"
| "has_control (a # s) =
     (byte a < 32 \<or> byte a = 127 \<or>
      (byte a = 0xC2 \<and>
        (case s of [] \<Rightarrow> False | b # _ \<Rightarrow> 0x80 \<le> byte b \<and> byte b \<le> 0x9F)) \<or>
      has_control s)"

definition ascii_lower :: "char \<Rightarrow> char" where
  "ascii_lower c = (if 65 \<le> byte c \<and> byte c \<le> 90 then char_of (byte c + 32) else c)"

definition to_ascii_lowercase :: "string \<Rightarrow> string" where
  "to_ascii_lowercase s = map ascii_lower s"

definition eq_ignore_ascii_case :: "string \<Rightarrow> string \<Rightarrow> bool" where
  "eq_ignore_ascii_case a b = (map ascii_lower a = map ascii_lower b)"

definition is_ascii_digit :: "char \<Rightarrow> bool" where
  "is_ascii_digit c = (48 \<le> byte c \<and> byte c \<le> 57)"

definition is_ascii_alphanumeric :: "char \<Rightarrow> bool" where
  "is_ascii_alphanumeric c =
     (is_ascii_digit c \<or> (65 \<le> byte c \<and> byte c \<le> 90) \<or> (97 \<le> byte c \<and> byte c \<le> 122))"

section \<open>Time\<close>

type_synonym instant = nat
type_synonym duration = nat

definition nanos_per_milli :: nat where
  "nanos_per_milli = 1000000"

definition from_millis :: "u64 \<Rightarrow> duration" where
  "from_millis ms = unat ms * nanos_per_milli"

definition duration_max :: duration where
  "duration_max = (2 ^ 64 - 1) * 1000000000 + 999999999"

definition duration_add :: "duration \<Rightarrow> duration \<Rightarrow> duration" where
  "duration_add a b = min (a + b) duration_max"

text \<open>\<open>Instant::elapsed\<close> and the duration between instants stop at zero.\<close>

definition elapsed :: "instant \<Rightarrow> instant \<Rightarrow> duration" where
  "elapsed started now = now - started"

section \<open>Lemmas: machine integers\<close>

lemma unat_lt_bound: "unat (a :: 'a::len word) < 2 ^ LENGTH('a)"
  by (rule unsigned_less)

lemma unat_le_bound: "unat (a :: 'a::len word) \<le> 2 ^ LENGTH('a) - 1"
  using unat_lt_bound [of a] by linarith

lemma unat_max_word [simp]: "unat (- 1 :: 'a::len word) = 2 ^ LENGTH('a) - 1"
  by (simp add: unsigned_minus_1_eq_mask mask_eq_exp_minus_1)

lemma unat_sat_add [word_nat]:
  "unat (sat_add a (b :: 'a::len word)) = min (unat a + unat b) (2 ^ LENGTH('a) - 1)"
  by (auto simp: sat_add_def unat_word_ariths min_def)

lemma unat_sat_sub [word_nat]: "unat (sat_sub a b) = unat a - unat b"
  by (auto simp: sat_sub_def unat_sub word_le_nat_alt)

lemma unat_sat_mul [word_nat]:
  "unat (sat_mul a (b :: 'a::len word)) = min (unat a * unat b) (2 ^ LENGTH('a) - 1)"
proof (cases "unat a * unat b < 2 ^ LENGTH('a)")
  case True
  then have "min (unat a * unat b) (2 ^ LENGTH('a) - 1) = unat a * unat b" by linarith
  with True show ?thesis by (simp add: sat_mul_def unat_word_ariths)
next
  case False
  then have "2 ^ LENGTH('a) - 1 \<le> unat a * unat b" by linarith
  with False show ?thesis by (simp add: sat_mul_def min_absorb2)
qed

lemma unat_sat_of_nat [word_nat]:
  "unat (sat_of_nat n :: 'a::len word) = min n (2 ^ LENGTH('a) - 1)"
  by (auto simp: sat_of_nat_def unat_of_nat min_def)

declare word_le_nat_alt [word_nat] word_less_nat_alt [word_nat]

lemma unat_ucast_up [word_nat]:
  assumes "LENGTH('a) \<le> LENGTH('b)"
  shows "unat (ucast (w :: 'a::len word) :: 'b::len word) = unat w"
proof -
  have "unat w < 2 ^ LENGTH('b)"
    using unat_lt_bound [of w] power_increasing [OF assms, of "2::nat"] by linarith
  then show ?thesis by (simp add: unsigned_ucast_eq take_bit_nat_eq_self)
qed

lemma sat_add_ge: "a \<le> sat_add a b"
  using unat_le_bound [of a] by (simp add: word_nat min_def)

lemma sat_add_mono: "a \<le> a' \<Longrightarrow> sat_add a b \<le> sat_add a' b"
  by (simp add: word_nat min_def)

lemma sat_sub_le: "sat_sub a b \<le> a"
  by (simp add: word_nat)

lemma sat_sub_0 [simp]: "sat_sub a a = 0"
  by (simp add: sat_sub_def)

lemma sat_sub_eq_0: "sat_sub a b = 0 \<longleftrightarrow> a \<le> b"
  by (auto simp: sat_sub_def)

lemma sat_add_1_less: "a < (b :: 'a::len word) \<Longrightarrow> sat_add a 1 \<le> b"
  by (simp add: word_nat min_def)

lemma unat_sat_add_1: "a < (b :: 'a::len word) \<Longrightarrow> unat (sat_add a 1) = Suc (unat a)"
  using unat_le_bound [of b] by (simp add: word_nat min_def)

lemma checked_add_Some:
  "checked_add a (b :: 'a::len word) = Some c \<longleftrightarrow>
     unat a + unat b < 2 ^ LENGTH('a) \<and> c = a + b"
  by (auto simp: checked_add_def)

lemma checked_add_unat:
  "checked_add a (b :: 'a::len word) = Some c \<Longrightarrow> unat c = unat a + unat b"
  by (auto simp: checked_add_def unat_word_ariths split: if_splits)

lemma checked_sub_Some: "checked_sub a b = Some c \<longleftrightarrow> b \<le> a \<and> c = a - b"
  by (auto simp: checked_sub_def)

lemma i64_clamp_range: "- (2 ^ 63) \<le> i64_clamp x \<and> i64_clamp x \<le> 2 ^ 63 - 1"
  by (simp add: i64_clamp_def)

lemma i64_clamp_id: "- (2 ^ 63) \<le> x \<Longrightarrow> x \<le> 2 ^ 63 - 1 \<Longrightarrow> i64_clamp x = x"
  by (simp add: i64_clamp_def)

section \<open>Lemmas: options\<close>

lemma is_some_and_simps [simp]:
  "is_some_and None p = False" "is_some_and (Some a) p = p a"
  by (simp_all add: is_some_and_def)

lemma is_none_or_simps [simp]:
  "is_none_or None p = True" "is_none_or (Some a) p = p a"
  by (simp_all add: is_none_or_def)

lemma unwrap_or_simps [simp]:
  "unwrap_or None d = d" "unwrap_or (Some a) d = a"
  by (simp_all add: unwrap_or_def)

lemma opt_filter_simps [simp]:
  "opt_filter p None = None" "opt_filter p (Some a) = (if p a then Some a else None)"
  by (simp_all add: opt_filter_def)

lemma opt_or_simps [simp]:
  "opt_or None y = y" "opt_or (Some a) y = Some a"
  by (simp_all add: opt_or_def)

lemma opt_filter_Some: "opt_filter p x = Some a \<longleftrightarrow> x = Some a \<and> p a"
  by (cases x) auto

lemma is_some_and_iff: "is_some_and x p \<longleftrightarrow> (\<exists>a. x = Some a \<and> p a)"
  by (cases x) auto

lemma is_none_or_iff: "is_none_or x p \<longleftrightarrow> (\<forall>a. x = Some a \<longrightarrow> p a)"
  by (cases x) auto

lemma position_Some:
  "position p xs = Some i \<longleftrightarrow>
     i < length xs \<and> p (xs ! i) \<and> (\<forall>j < i. \<not> p (xs ! j))"
proof (induction xs arbitrary: i)
  case (Cons x xs)
  then show ?case by (cases i) (auto simp: less_Suc_eq_0_disj)
qed simp

lemma position_None: "position p xs = None \<longleftrightarrow> (\<forall>x \<in> set xs. \<not> p x)"
  by (induction xs) auto

section \<open>Lemmas: comparators\<close>

lemma cmp_simps [simp]:
  "cmp a b = LessThan \<longleftrightarrow> a < b"
  "cmp a b = EqualTo \<longleftrightarrow> a = b"
  "cmp a b = GreaterThan \<longleftrightarrow> b < a"
  "cmp a a = EqualTo"
  by (auto simp: cmp_def)

lemma cmp_not_greater: "cmp a b \<noteq> GreaterThan \<longleftrightarrow> a \<le> b"
  by auto

lemma cmp_reverse_cmp: "cmp_reverse (cmp a b) = cmp b a"
  by (auto simp: cmp_def)

lemma cmp_reverse_then_with:
  "cmp_reverse (then_with a b) = then_with (cmp_reverse a) (cmp_reverse b)"
  by (cases a) auto

lemma then_with_greater:
  "then_with a b = GreaterThan \<longleftrightarrow> a = GreaterThan \<or> (a = EqualTo \<and> b = GreaterThan)"
  by (cases a) auto

lemma then_with_equal: "then_with a b = EqualTo \<longleftrightarrow> a = EqualTo \<and> b = EqualTo"
  by (cases a) auto

lemma fold_choice_in: "fold (\<lambda>y acc. if P acc y then y else acc) xs x \<in> insert x (set xs)"
  by (induction xs arbitrary: x) auto

lemma fold_choice_in': "fold (\<lambda>y acc. if P acc y then acc else y) xs x \<in> insert x (set xs)"
  by (induction xs arbitrary: x) auto

lemma min_by_in: "min_by f xs = Some m \<Longrightarrow> m \<in> set xs"
  using fold_choice_in [of "\<lambda>acc y. f acc y = GreaterThan"] by (cases xs) auto

lemma max_by_in: "max_by f xs = Some m \<Longrightarrow> m \<in> set xs"
  using fold_choice_in' [of "\<lambda>acc y. f acc y = GreaterThan"] by (cases xs) auto

lemma min_by_None [simp]: "min_by f xs = None \<longleftrightarrow> xs = []"
  by (cases xs) auto

lemma max_by_None [simp]: "max_by f xs = None \<longleftrightarrow> xs = []"
  by (cases xs) auto

lemma mset_insert_by [simp]: "mset (insert_by f x xs) = add_mset x (mset xs)"
  by (induction xs) auto

lemma mset_sort_by [simp]: "mset (sort_by f xs) = mset xs"
  by (induction xs) auto

lemma set_sort_by [simp]: "set (sort_by f xs) = set xs"
  by (metis mset_sort_by set_mset_mset)

lemma length_sort_by [simp]: "length (sort_by f xs) = length xs"
  by (metis mset_sort_by size_mset)

lemma sort_by_eq_Nil [simp]: "sort_by f xs = [] \<longleftrightarrow> xs = []"
  by (metis length_0_conv length_sort_by)

lemma distinct_sort_by [simp]: "distinct (sort_by f xs) = distinct xs"
  by (metis mset_eq_imp_distinct_iff mset_sort_by)

text \<open>A closure passed to \<open>min_by\<close>, \<open>max_by\<close> or \<open>sort_by\<close> must be a total preorder.\<close>

locale comparator =
  fixes f :: "'a \<Rightarrow> 'a \<Rightarrow> cmp_result" and S :: "'a set"
  assumes swap: "\<lbrakk>x \<in> S; y \<in> S\<rbrakk> \<Longrightarrow> f y x = cmp_reverse (f x y)"
    and le_trans: "\<lbrakk>x \<in> S; y \<in> S; z \<in> S; f x y \<noteq> GreaterThan; f y z \<noteq> GreaterThan\<rbrakk>
      \<Longrightarrow> f x z \<noteq> GreaterThan"
begin

lemma refl: "x \<in> S \<Longrightarrow> f x x = EqualTo"
  using swap [of x x] by (cases "f x x") auto

lemma total: "\<lbrakk>x \<in> S; y \<in> S; f x y = GreaterThan\<rbrakk> \<Longrightarrow> f y x = LessThan"
  using swap [of x y] by simp

lemma flip_greater: "\<lbrakk>x \<in> S; y \<in> S\<rbrakk> \<Longrightarrow> f x y = GreaterThan \<longleftrightarrow> f y x = LessThan"
  using swap [of x y] by (cases "f x y") auto

lemma fold_min_least:
  "\<lbrakk>x \<in> S; set xs \<subseteq> S; y \<in> insert x (set xs)\<rbrakk> \<Longrightarrow>
   f (fold (\<lambda>y acc. if f acc y = GreaterThan then y else acc) xs x) y \<noteq> GreaterThan"
proof (induction xs arbitrary: x y)
  case Nil
  then show ?case using refl by simp
next
  case (Cons z zs)
  define acc where "acc = (if f x z = GreaterThan then z else x)"
  define m where "m = fold (\<lambda>y acc. if f acc y = GreaterThan then y else acc) zs acc"
  have acc: "acc \<in> S" using Cons.prems by (auto simp: acc_def)
  have m_in: "m \<in> S"
    using fold_choice_in [of "\<lambda>acc y. f acc y = GreaterThan" zs acc] Cons.prems acc
    by (auto simp: m_def)
  have le_acc: "f m acc \<noteq> GreaterThan"
    unfolding m_def by (rule Cons.IH) (use acc Cons.prems in auto)
  have acc_le: "f acc x \<noteq> GreaterThan" "f acc z \<noteq> GreaterThan"
    using Cons.prems refl total [of x z] by (auto simp: acc_def)
  have "f m y \<noteq> GreaterThan"
  proof (cases "y \<in> set zs")
    case True
    then show ?thesis unfolding m_def by (intro Cons.IH) (use acc Cons.prems in auto)
  next
    case False
    then have "y = x \<or> y = z" using Cons.prems by auto
    then show ?thesis
      using le_trans [OF m_in acc _ le_acc] acc_le Cons.prems by auto
  qed
  then show ?case by (simp add: m_def acc_def)
qed

lemma min_by_least:
  "\<lbrakk>min_by f xs = Some m; set xs \<subseteq> S; y \<in> set xs\<rbrakk> \<Longrightarrow> f m y \<noteq> GreaterThan"
  using fold_min_least by (cases xs) auto

lemma fold_max_greatest:
  "\<lbrakk>x \<in> S; set xs \<subseteq> S; y \<in> insert x (set xs)\<rbrakk> \<Longrightarrow>
   f y (fold (\<lambda>y acc. if f acc y = GreaterThan then acc else y) xs x) \<noteq> GreaterThan"
proof (induction xs arbitrary: x y)
  case Nil
  then show ?case using refl by simp
next
  case (Cons z zs)
  define acc where "acc = (if f x z = GreaterThan then x else z)"
  define m where "m = fold (\<lambda>y acc. if f acc y = GreaterThan then acc else y) zs acc"
  have acc: "acc \<in> S" using Cons.prems by (auto simp: acc_def)
  have m_in: "m \<in> S"
    using fold_choice_in' [of "\<lambda>acc y. f acc y = GreaterThan" zs acc] Cons.prems acc
    by (auto simp: m_def)
  have le_m: "f acc m \<noteq> GreaterThan"
    unfolding m_def by (rule Cons.IH) (use acc Cons.prems in auto)
  have le_acc: "f x acc \<noteq> GreaterThan" "f z acc \<noteq> GreaterThan"
    using Cons.prems refl total [of x z] by (auto simp: acc_def)
  have "f y m \<noteq> GreaterThan"
  proof (cases "y \<in> set zs")
    case True
    then show ?thesis unfolding m_def by (intro Cons.IH) (use acc Cons.prems in auto)
  next
    case False
    then have "y = x \<or> y = z" using Cons.prems by auto
    then show ?thesis
      using le_trans [OF _ acc m_in _ le_m] le_acc Cons.prems by auto
  qed
  then show ?case by (simp add: m_def acc_def)
qed

lemma max_by_greatest:
  "\<lbrakk>max_by f xs = Some m; set xs \<subseteq> S; y \<in> set xs\<rbrakk> \<Longrightarrow> f y m \<noteq> GreaterThan"
  using fold_max_greatest by (cases xs) auto

lemma sorted_insert_by:
  "\<lbrakk>x \<in> S; set xs \<subseteq> S; sorted_wrt (\<lambda>a b. f a b \<noteq> GreaterThan) xs\<rbrakk> \<Longrightarrow>
   sorted_wrt (\<lambda>a b. f a b \<noteq> GreaterThan) (insert_by f x xs)"
proof (induction xs)
  case (Cons y ys)
  have set_ins: "set (insert_by f x ys) = insert x (set ys)"
    by (metis mset_insert_by set_mset_add_mset_insert set_mset_mset)
  show ?case
  proof (cases "f x y = GreaterThan")
    case True
    then have "f y x \<noteq> GreaterThan" using total [of x y] Cons.prems by auto
    with True Cons set_ins show ?thesis by auto
  next
    case False
    then have "\<forall>z \<in> set ys. f x z \<noteq> GreaterThan"
      using Cons.prems le_trans [of x y] by auto
    with False Cons show ?thesis by auto
  qed
qed simp

lemma sorted_sort_by:
  "set xs \<subseteq> S \<Longrightarrow> sorted_wrt (\<lambda>a b. f a b \<noteq> GreaterThan) (sort_by f xs)"
  by (induction xs) (auto intro!: sorted_insert_by)

end

interpretation linear: comparator "cmp :: 'a::linorder \<Rightarrow> 'a \<Rightarrow> cmp_result" UNIV
  by unfold_locales (auto simp: cmp_reverse_cmp cmp_not_greater)

lemma list_min_Some: "list_min xs = Some m \<Longrightarrow> m \<in> set xs \<and> (\<forall>x \<in> set xs. m \<le> x)"
  using linear.min_by_least min_by_in by (fastforce simp: list_min_def not_less)

lemma list_max_Some: "list_max xs = Some m \<Longrightarrow> m \<in> set xs \<and> (\<forall>x \<in> set xs. x \<le> m)"
  using linear.max_by_greatest max_by_in by (fastforce simp: list_max_def not_less)

lemma list_min_None [simp]: "list_min xs = None \<longleftrightarrow> xs = []"
  by (simp add: list_min_def)

lemma list_max_None [simp]: "list_max xs = None \<longleftrightarrow> xs = []"
  by (simp add: list_max_def)

lemma eq_ignore_ascii_case_refl [simp]: "eq_ignore_ascii_case a a"
  by (simp add: eq_ignore_ascii_case_def)

lemma elapsed_simps [simp]: "elapsed t t = 0" "now \<le> t \<Longrightarrow> elapsed t now = 0"
  by (simp_all add: elapsed_def)

section \<open>Runs of a state machine\<close>

text \<open>A component driven by events: what one step keeps, a whole run keeps.\<close>

locale event_invariant =
  fixes step :: "'e \<Rightarrow> 's \<Rightarrow> 's" and I :: "'s \<Rightarrow> bool"
  assumes step_inv: "I s \<Longrightarrow> I (step e s)"
begin

lemma run_inv: "I s \<Longrightarrow> I (fold step es s)"
  by (induction es arbitrary: s) (auto intro: step_inv)

end

locale event_order =
  fixes step :: "'e \<Rightarrow> 's \<Rightarrow> 's" and R :: "'s \<Rightarrow> 's \<Rightarrow> bool"
  assumes R_refl: "R s s"
    and R_trans: "R s t \<Longrightarrow> R t u \<Longrightarrow> R s u"
    and step_R: "R s (step e s)"
begin

lemma run_R: "R s (fold step es s)"
  by (induction es arbitrary: s) (auto intro: R_refl R_trans step_R)

lemma run_R_suffix: "R (fold step es s) (fold step (es @ fs) s)"
  using run_R by simp

end

end
