(* ===== verification/BMap.thy ===== *)
theory BMap
  imports Prelude
begin

text \<open>
  Rust's \<open>BTreeMap\<close>: finite maps that iterate in ascending order of their keys.

  A map is a list of entries with strictly increasing keys (a type of its own, so that no
  lemma carries the ordering as a hypothesis).  The operations are the ones the program calls:
  \<open>get\<close>, \<open>insert\<close>, \<open>remove\<close>, \<open>retain\<close>, \<open>get_mut\<close> (\<open>bmodify\<close>), a \<open>retain\<close> that also
  rewrites the values (\<open>bfilter_map\<close>), iteration over keys, values and entries, and \<open>len\<close>.
  The locale \<open>finite_map\<close> is the contract the clients use: what a lookup returns after each
  operation, and that maps with equal lookups are equal.  \<open>bcount\<close> counts the values with a
  property; the accounting invariants of the scheduler are stated with it.
\<close>

fun al_insert :: "'k::linorder \<Rightarrow> 'v \<Rightarrow> ('k \<times> 'v) list \<Rightarrow> ('k \<times> 'v) list" where
  "al_insert k v [] = [(k, v)]"
| "al_insert k v ((a, b) # xs) =
     (if k < a then (k, v) # (a, b) # xs
      else if k = a then (k, v) # xs
      else (a, b) # al_insert k v xs)"

definition al_filter_map ::
  "('k \<Rightarrow> 'v \<Rightarrow> 'w option) \<Rightarrow> ('k \<times> 'v) list \<Rightarrow> ('k \<times> 'w) list" where
  "al_filter_map f xs =
     List.map_filter (\<lambda>(k, v). map_option (\<lambda>w. (k, w)) (f k v)) xs"

lemma keys_al_insert [simp]: "fst ` set (al_insert k v xs) = insert k (fst ` set xs)"
  by (induction k v xs rule: al_insert.induct) auto

lemma sorted_al_insert:
  "sorted_wrt (<) (map fst xs) \<Longrightarrow> sorted_wrt (<) (map fst (al_insert k v xs))"
proof (induction k v xs rule: al_insert.induct)
  case (2 k v a b xs)
  consider "k < a" | "k = a" | "a < k" by fastforce
  then show ?case
  proof cases
    case 3
    have "\<forall>x \<in> fst ` set (al_insert k v xs). a < x"
      using 3 "2.prems" by auto
    with 3 2 show ?thesis by auto
  qed (use "2.prems" in auto)
qed simp

lemma al_filter_map_Cons [simp]:
  "al_filter_map f [] = []"
  "al_filter_map f ((k, v) # xs) =
     (case f k v of None \<Rightarrow> al_filter_map f xs | Some w \<Rightarrow> (k, w) # al_filter_map f xs)"
  by (auto simp: al_filter_map_def map_filter_simps split: option.split)

lemma keys_al_filter_map: "fst ` set (al_filter_map f xs) \<subseteq> fst ` set xs"
proof (induction xs)
  case (Cons x xs)
  then show ?case by (cases x) (auto split: option.split)
qed simp

lemma sorted_al_filter_map:
  "sorted_wrt (<) (map fst xs) \<Longrightarrow> sorted_wrt (<) (map fst (al_filter_map f xs))"
proof (induction xs)
  case (Cons x xs)
  obtain k v where x: "x = (k, v)" by (cases x)
  have "\<forall>y \<in> fst ` set (al_filter_map f xs). k < y"
    using keys_al_filter_map [of f xs] Cons.prems x by (auto simp: image_iff subset_iff) fastforce
  with Cons x show ?case by (auto split: option.split)
qed simp

lemma map_of_al_insert: "map_of (al_insert k v xs) = (map_of xs)(k \<mapsto> v)"
  by (induction k v xs rule: al_insert.induct) (auto simp: fun_eq_iff)

lemma map_of_al_filter_map:
  "distinct (map fst xs) \<Longrightarrow>
   map_of (al_filter_map f xs) k = Option.bind (map_of xs k) (f k)"
proof (induction xs)
  case (Cons x xs)
  obtain a b where x: "x = (a, b)" by (cases x)
  have "a \<notin> fst ` set (al_filter_map f xs)"
    using keys_al_filter_map [of f xs] Cons.prems x by auto
  then have "map_of (al_filter_map f xs) a = None" by (simp add: map_of_eq_None_iff)
  with Cons x show ?case by (auto split: option.split)
qed simp

lemma al_insert_fresh_count:
  "k \<notin> fst ` set xs \<Longrightarrow>
   length (filter P (map snd (al_insert k v xs))) =
   length (filter P (map snd xs)) + (if P v then 1 else 0)"
  by (induction k v xs rule: al_insert.induct) auto

lemma sorted_keys_distinct: "sorted_wrt (<) (xs :: 'k::linorder list) \<Longrightarrow> distinct xs"
  by (induction xs) auto

section \<open>The type and its operations\<close>

typedef (overloaded) ('k::linorder, 'v) bmap =
  "{xs :: ('k \<times> 'v) list. sorted_wrt (<) (map fst xs)}"
  morphisms bentries Abs_bmap
  by (rule exI [of _ "[]"]) simp

setup_lifting type_definition_bmap

lift_definition bempty :: "('k::linorder, 'v) bmap" is "[]"
  by simp

lift_definition bget :: "('k::linorder, 'v) bmap \<Rightarrow> 'k \<Rightarrow> 'v option" is map_of .

lift_definition binsert :: "'k::linorder \<Rightarrow> 'v \<Rightarrow> ('k, 'v) bmap \<Rightarrow> ('k, 'v) bmap"
  is al_insert
  by (rule sorted_al_insert)

lift_definition bfilter_map ::
  "('k::linorder \<Rightarrow> 'v \<Rightarrow> 'w option) \<Rightarrow> ('k, 'v) bmap \<Rightarrow> ('k, 'w) bmap"
  is al_filter_map
  by (rule sorted_al_filter_map)

definition bretain :: "('k::linorder \<Rightarrow> 'v \<Rightarrow> bool) \<Rightarrow> ('k, 'v) bmap \<Rightarrow> ('k, 'v) bmap" where
  "bretain P m = bfilter_map (\<lambda>k v. if P k v then Some v else None) m"

definition bremove :: "'k::linorder \<Rightarrow> ('k, 'v) bmap \<Rightarrow> ('k, 'v) bmap" where
  "bremove k m = bretain (\<lambda>k' _. k' \<noteq> k) m"

text \<open>\<open>if let Some(v) = m.get_mut(k) \<dots>\<close>: nothing happens when the key is absent.\<close>

definition bmodify :: "'k::linorder \<Rightarrow> ('v \<Rightarrow> 'v) \<Rightarrow> ('k, 'v) bmap \<Rightarrow> ('k, 'v) bmap" where
  "bmodify k f m = (case bget m k of None \<Rightarrow> m | Some v \<Rightarrow> binsert k (f v) m)"

definition bkeys :: "('k::linorder, 'v) bmap \<Rightarrow> 'k list" where
  "bkeys m = map fst (bentries m)"

definition bvalues :: "('k::linorder, 'v) bmap \<Rightarrow> 'v list" where
  "bvalues m = map snd (bentries m)"

definition bsize :: "('k::linorder, 'v) bmap \<Rightarrow> nat" where
  "bsize m = length (bentries m)"

definition bcontains :: "('k::linorder, 'v) bmap \<Rightarrow> 'k \<Rightarrow> bool" where
  "bcontains m k = (bget m k \<noteq> None)"

definition bcount :: "('v \<Rightarrow> bool) \<Rightarrow> ('k::linorder, 'v) bmap \<Rightarrow> nat" where
  "bcount P m = length (filter P (bvalues m))"

definition bmap_of :: "('k::linorder \<times> 'v) list \<Rightarrow> ('k, 'v) bmap" where
  "bmap_of xs = fold (\<lambda>(k, v) m. binsert k v m) xs bempty"

instantiation bmap :: (linorder, equal) equal
begin

definition equal_bmap :: "('a, 'b) bmap \<Rightarrow> ('a, 'b) bmap \<Rightarrow> bool" where
  "equal_bmap m n = (bentries m = bentries n)"

instance
  by standard (simp add: equal_bmap_def bentries_inject)

end

section \<open>Lookups\<close>

lemma bget_empty [simp]: "bget bempty k = None"
  by transfer simp

lemma bget_insert [simp]: "bget (binsert k v m) k' = (if k' = k then Some v else bget m k')"
  by transfer (simp add: map_of_al_insert)

lemma bget_filter_map [simp]: "bget (bfilter_map f m) k = Option.bind (bget m k) (f k)"
  by transfer (auto intro: map_of_al_filter_map dest: sorted_keys_distinct)

lemma bget_retain [simp]:
  "bget (bretain P m) k =
     (case bget m k of None \<Rightarrow> None | Some v \<Rightarrow> if P k v then Some v else None)"
  by (simp add: bretain_def split: option.split)

lemma bget_remove [simp]: "bget (bremove k m) k' = (if k' = k then None else bget m k')"
  by (simp add: bremove_def split: option.split)

lemma bget_modify [simp]:
  "bget (bmodify k f m) k' = (if k' = k then map_option f (bget m k) else bget m k')"
  by (auto simp: bmodify_def split: option.split)

lemma bcontains_iff: "bcontains m k \<longleftrightarrow> (\<exists>v. bget m k = Some v)"
  by (simp add: bcontains_def)

lemma bkeys_distinct [simp]: "distinct (bkeys m)"
  unfolding bkeys_def by transfer (rule sorted_keys_distinct)

lemma bkeys_sorted: "sorted_wrt (<) (bkeys m)"
  unfolding bkeys_def by transfer

lemma bget_in_entries: "bget m k = Some v \<longleftrightarrow> (k, v) \<in> set (bentries m)"
  by transfer (simp add: map_of_eq_Some_iff sorted_keys_distinct)

lemma in_bkeys: "k \<in> set (bkeys m) \<longleftrightarrow> (\<exists>v. bget m k = Some v)"
  by (force simp: bkeys_def bget_in_entries)

lemma in_bvalues: "v \<in> set (bvalues m) \<longleftrightarrow> (\<exists>k. bget m k = Some v)"
  by (force simp: bvalues_def bget_in_entries)

lemma bmap_eqI:
  assumes "\<And>k. bget m k = bget n k"
  shows "m = n"
proof -
  have "set (bentries m) = set (bentries n)"
    using assms by (auto simp flip: bget_in_entries)
  moreover have "sorted (map fst (bentries m))" "distinct (map fst (bentries m))"
    "sorted (map fst (bentries n))" "distinct (map fst (bentries n))"
    using bkeys_sorted [of m] bkeys_sorted [of n] bkeys_distinct [of m] bkeys_distinct [of n]
    by (auto simp: bkeys_def sorted_wrt_iff_nth_less sorted_iff_nth_mono_less intro: less_imp_le)
  ultimately have "bentries m = bentries n"
    by (intro map_sorted_distinct_set_unique [of fst])
       (auto simp: inj_on_def bget_in_entries [symmetric])
  then show ?thesis by (simp add: bentries_inject)
qed

lemma bentries_empty [simp]: "bentries bempty = []"
  by (rule bempty.rep_eq)

lemma bsize_empty [simp]: "bsize bempty = 0"
  by (simp add: bsize_def)

lemma bcount_empty [simp]: "bcount P bempty = 0"
  by (simp add: bcount_def bvalues_def)

lemma bvalues_empty [simp]: "bvalues bempty = []" "bkeys bempty = []"
  by (simp_all add: bvalues_def bkeys_def)

lemma bsize_eq_count: "bsize m = bcount (\<lambda>_. True) m"
  by (simp add: bsize_def bcount_def bvalues_def)

lemma bsize_keys: "bsize m = length (bkeys m)"
  by (simp add: bsize_def bkeys_def)

lemma map_bvalues_keys:
  assumes "\<And>k v. bget m k = Some v \<Longrightarrow> f v = k"
  shows "map f (bvalues m) = bkeys m"
  unfolding bvalues_def bkeys_def map_map using assms by (auto simp: bget_in_entries)

section \<open>Counting\<close>

lemma bcount_insert_fresh:
  assumes "bget m k = None"
  shows "bcount P (binsert k v m) = bcount P m + (if P v then 1 else 0)"
  using assms unfolding bcount_def bvalues_def
  by transfer (rule al_insert_fresh_count, simp add: map_of_eq_None_iff)

lemma binsert_remove: "bget m k = Some v \<Longrightarrow> binsert k v (bremove k m) = m"
  by (rule bmap_eqI) auto

lemma binsert_absorb_remove: "binsert k v (bremove k m) = binsert k v m"
  by (rule bmap_eqI) auto

lemma bcount_remove:
  assumes "bget m k = Some v"
  shows "bcount P m = bcount P (bremove k m) + (if P v then 1 else 0)"
  using bcount_insert_fresh [of "bremove k m" k P v] binsert_remove [OF assms] by simp

lemma bcount_remove_diff:
  "bget m k = Some v \<Longrightarrow> bcount P (bremove k m) = bcount P m - (if P v then 1 else 0)"
  using bcount_remove [of m k v P] by simp

lemma bcount_update:
  assumes "bget m k = Some w"
  shows "bcount P (binsert k v m) + (if P w then 1 else 0) =
         bcount P m + (if P v then 1 else 0)"
proof -
  have "bcount P (binsert k v m) = bcount P (bremove k m) + (if P v then 1 else 0)"
    using bcount_insert_fresh [of "bremove k m" k P v] by (simp add: binsert_absorb_remove)
  with bcount_remove [OF assms, of P] show ?thesis by simp
qed

lemma bcount_update_same:
  assumes "bget m k = Some w" and "P v = P w"
  shows "bcount P (binsert k v m) = bcount P m"
  using bcount_update [OF assms(1), of P v] assms(2) by (auto split: if_splits)

lemma bcount_modify_same:
  "(\<And>w. bget m k = Some w \<Longrightarrow> P (f w) = P w) \<Longrightarrow> bcount P (bmodify k f m) = bcount P m"
  by (auto simp: bmodify_def bcount_update_same split: option.split)

lemma bcount_pos: "bget m k = Some v \<Longrightarrow> P v \<Longrightarrow> 0 < bcount P m"
  using bcount_remove [of m k v P] by simp

lemma bcount_eq_0: "bcount P m = 0 \<longleftrightarrow> (\<forall>k v. bget m k = Some v \<longrightarrow> \<not> P v)"
  by (auto simp: bcount_def filter_empty_conv in_bvalues)

lemma bcount_le_size: "bcount P m \<le> bsize m"
  unfolding bcount_def bsize_def bvalues_def by (metis length_filter_le length_map)

lemma bcount_cong:
  "(\<And>k v. bget m k = Some v \<Longrightarrow> P v = Q v) \<Longrightarrow> bcount P m = bcount Q m"
  unfolding bcount_def by (metis (no_types, lifting) filter_cong in_bvalues)

lemma bcount_mono:
  assumes "\<And>k v. bget m k = Some v \<Longrightarrow> P v \<Longrightarrow> Q v"
  shows "bcount P m \<le> bcount Q m"
proof -
  have "filter P (bvalues m) = filter P (filter Q (bvalues m))"
    using assms by (auto simp: in_bvalues intro!: filter_cong [OF refl, symmetric])
  then show ?thesis unfolding bcount_def by (metis length_filter_le)
qed

lemma bsize_insert_fresh: "bget m k = None \<Longrightarrow> bsize (binsert k v m) = Suc (bsize m)"
  by (simp add: bsize_eq_count bcount_insert_fresh)

lemma bsize_insert_present: "bget m k = Some w \<Longrightarrow> bsize (binsert k v m) = bsize m"
  by (simp add: bsize_eq_count bcount_update_same)

lemma bsize_remove: "bget m k = Some v \<Longrightarrow> bsize m = Suc (bsize (bremove k m))"
  using bcount_remove [of m k v "\<lambda>_. True"] by (simp add: bsize_eq_count)

lemma bremove_absent: "bget m k = None \<Longrightarrow> bremove k m = m"
  by (rule bmap_eqI) auto

lemma bsize_filter_map_le: "bsize (bfilter_map f m) \<le> bsize m"
proof -
  have "set (bkeys (bfilter_map f m)) \<subseteq> set (bkeys m)"
    by (auto simp: in_bkeys bind_eq_Some_conv)
  then show ?thesis
    by (metis bkeys_distinct bsize_keys card_mono distinct_card finite_set)
qed

lemma bsize_retain_le: "bsize (bretain P m) \<le> bsize m"
  unfolding bretain_def by (rule bsize_filter_map_le)

lemma bsize_insert_le: "bsize (binsert k v m) \<le> Suc (bsize m)"
  by (cases "bget m k") (simp_all add: bsize_insert_fresh bsize_insert_present)

section \<open>The contract of a map\<close>

locale finite_map =
  fixes empty :: "'m" and lookup :: "'m \<Rightarrow> 'k \<Rightarrow> 'v option"
    and insert_entry :: "'k \<Rightarrow> 'v \<Rightarrow> 'm \<Rightarrow> 'm" and remove_entry :: "'k \<Rightarrow> 'm \<Rightarrow> 'm"
  assumes lookup_empty: "lookup empty k = None"
    and lookup_insert: "lookup (insert_entry k v m) k' = (if k' = k then Some v else lookup m k')"
    and lookup_remove: "lookup (remove_entry k m) k' = (if k' = k then None else lookup m k')"
    and ext: "(\<And>k. lookup m k = lookup n k) \<Longrightarrow> m = n"
begin

lemma insert_overwrites: "insert_entry k v (insert_entry k w m) = insert_entry k v m"
  by (rule ext) (simp add: lookup_insert)

lemma insert_commutes:
  "k \<noteq> l \<Longrightarrow> insert_entry k v (insert_entry l w m) = insert_entry l w (insert_entry k v m)"
  by (rule ext) (simp add: lookup_insert)

lemma remove_insert: "lookup m k = None \<Longrightarrow> remove_entry k (insert_entry k v m) = m"
  by (rule ext) (simp add: lookup_insert lookup_remove)

lemma remove_idem: "remove_entry k (remove_entry k m) = remove_entry k m"
  by (rule ext) (simp add: lookup_remove)

lemma insert_lookup: "lookup m k = Some v \<Longrightarrow> insert_entry k v m = m"
  by (rule ext) (simp add: lookup_insert)

end

interpretation btree: finite_map bempty bget binsert bremove
  by unfold_locales (auto intro: bmap_eqI)

section \<open>Evaluation\<close>

lemma bentries_insert [simp]: "bentries (binsert k v m) = al_insert k v (bentries m)"
  by (rule binsert.rep_eq)

lemma bentries_filter_map: "bentries (bfilter_map f m) = al_filter_map f (bentries m)"
  by (rule bfilter_map.rep_eq)

lemma bget_bmap_of_Nil [simp]: "bmap_of [] = bempty"
  by (simp add: bmap_of_def)

lemmas bmap_eval = bvalues_def bkeys_def bsize_def bcount_def bremove_def bretain_def
  bentries_filter_map bmap_of_def

end
