(* ===== verification/RotationTypes.thy ===== *)
theory RotationTypes
  imports BMap
begin

text \<open>
  The data of the rotation scheduler (\<open>scheduler/rotation/types.rs\<close>): candidates with their
  routes and provider observations, requests, the reasons a candidate is not admitted, leases,
  outcomes and errors; the freshness test of provider observations (\<open>quota.rs\<close>) and the quota
  reference of a linked connection (\<open>scheduler/candidate.rs\<close>).
\<close>

type_synonym request_id = u64
type_synonym attempt_id = u64
type_synonym lease_id = u64

section \<open>Provider observations\<close>

datatype auth_state = AuthReady | AuthNeedsRefresh | AuthStateBlocked

datatype quota_state =
    QUnknown
  | QAvailable
  | QCreditFallback "u64 option"
  | QStale
  | QExhausted "u64 option"

datatype rate_state = RateReady | Limited u64

definition PROVIDER_CREDIT_SWITCH_MARGIN_MICRO_UNITS :: u64 where
  "PROVIDER_CREDIT_SWITCH_MARGIN_MICRO_UNITS = 15000000"

definition QUOTA_SWITCH_MARGIN_BASIS_POINTS :: u64 where
  "QUOTA_SWITCH_MARGIN_BASIS_POINTS = 500"

definition CACHE_AFFINITY_QUOTA_SWITCH_MARGIN_BASIS_POINTS :: u64 where
  "CACHE_AFFINITY_QUOTA_SWITCH_MARGIN_BASIS_POINTS = 1000"

definition CACHE_AFFINITY_EXTRA_REQUESTS :: u32 where
  "CACHE_AFFINITY_EXTRA_REQUESTS = 1"

definition observation_is_fresh :: "u64 option \<Rightarrow> u64 \<Rightarrow> u64 \<Rightarrow> bool" where
  "observation_is_fresh observed_at_ms now_ms stale_after_ms =
     is_some_and (Option.bind observed_at_ms (checked_sub now_ms))
       (\<lambda>age_ms. age_ms \<le> stale_after_ms)"

record candidate_quota_reference =
  source_account_id :: string
  ref_remaining_basis_points :: u64
  ref_observed_at_ms :: u64
  valid_until_ms :: "u64 option"

definition fresh_remaining :: "candidate_quota_reference \<Rightarrow> u64 \<Rightarrow> u64 \<Rightarrow> u64 option" where
  "fresh_remaining r now_ms stale_after_ms =
     (if source_account_id r \<noteq> []
        \<and> 1 \<le> ref_remaining_basis_points r \<and> ref_remaining_basis_points r \<le> 10000
        \<and> observation_is_fresh (Some (ref_observed_at_ms r)) now_ms stale_after_ms
        \<and> is_none_or (valid_until_ms r) (\<lambda>deadline. now_ms < deadline)
      then Some (ref_remaining_basis_points r) else None)"

section \<open>Routes, modes and policies\<close>

datatype rotation_operation = OpText | OpImage | OpCompaction | OpMetadata

record rotation_route =
  route_model :: string
  route_operation :: rotation_operation

datatype rotation_mode = Automatic | RoundRobin | WeightedRoundRobin | Failover

record recovery_policy =
  initial_credits :: u32
  successful_requests_per_credit :: u32
  policy_max_in_flight :: u32

definition default_recovery_policy :: recovery_policy where
  "default_recovery_policy =
     \<lparr>initial_credits = 1, successful_requests_per_credit = 8, policy_max_in_flight = 1\<rparr>"

section \<open>Candidates\<close>

record rotation_candidate =
  rc_id :: string
  capacity_key :: string
  priority :: int
  weight :: u32
  max_concurrency :: u32
  capacity_limit :: u32
  enabled :: bool
  draining :: bool
  routes :: "(string, rotation_route) bmap"
  route_rates :: "(string, rate_state) bmap"
  auth :: auth_state
  quota :: quota_state
  quota_remaining_basis_points :: "u64 option"
  quota_observed_at_ms :: "u64 option"
  quota_reference :: "candidate_quota_reference option"
  provider_credits_micro_units :: "u64 option"
  provider_credits_unlimited :: bool
  provider_credits_observed_at_ms :: "u64 option"
  rate :: rate_state

definition new_candidate :: "string \<Rightarrow> string \<Rightarrow> string \<Rightarrow> rotation_candidate" where
  "new_candidate candidate_id route_key model =
     \<lparr>rc_id = candidate_id, capacity_key = candidate_id, priority = 0, weight = 1,
      max_concurrency = 0, capacity_limit = 0, enabled = True, draining = False,
      routes = binsert route_key \<lparr>route_model = model, route_operation = OpText\<rparr> bempty,
      route_rates = binsert route_key RateReady bempty,
      auth = AuthReady, quota = QUnknown, quota_remaining_basis_points = None,
      quota_observed_at_ms = None, quota_reference = None, provider_credits_micro_units = None,
      provider_credits_unlimited = False, provider_credits_observed_at_ms = None,
      rate = RateReady\<rparr>"

text \<open>The test every identifier of a candidate or route has to pass.\<close>

definition invalid_identifier :: "string \<Rightarrow> bool" where
  "invalid_identifier s =
     (trim s = [] \<or> trim s \<noteq> s \<or> 256 < length s \<or> has_control s)"

definition validate :: "rotation_candidate \<Rightarrow> string + unit" where
  "validate c =
     (if invalid_identifier (rc_id c) then Inl ''rotation candidate id is invalid''
      else if invalid_identifier (capacity_key c) then
        Inl ''rotation candidate capacity key is invalid''
      else if \<not> (1 \<le> weight c \<and> weight c \<le> 100) then
        Inl ''rotation candidate weight is invalid''
      else if bsize (routes c) = 0 \<or> 4096 < bsize (routes c)
        \<or> list_ex (\<lambda>(key, route). invalid_identifier key \<or> invalid_identifier (route_model route))
            (bentries (routes c)) then
        Inl ''rotation candidate route or model is invalid''
      else Inr ())"

definition with_capacity :: "rotation_candidate \<Rightarrow> string \<Rightarrow> u32 \<Rightarrow> rotation_candidate" where
  "with_capacity c key limit = c\<lparr>capacity_key := key, capacity_limit := limit\<rparr>"

definition with_operation :: "rotation_candidate \<Rightarrow> rotation_operation \<Rightarrow> rotation_candidate" where
  "with_operation c operation =
     c\<lparr>routes := bfilter_map (\<lambda>_ route. Some (route\<lparr>route_operation := operation\<rparr>)) (routes c)\<rparr>"

definition add_route ::
  "rotation_candidate \<Rightarrow> string \<Rightarrow> string \<Rightarrow> rotation_operation \<Rightarrow> rotation_candidate" where
  "add_route c route_key model operation =
     c\<lparr>routes := binsert route_key \<lparr>route_model = model, route_operation = operation\<rparr> (routes c),
       route_rates :=
         (case bget (route_rates c) route_key of
            None \<Rightarrow> binsert route_key RateReady (route_rates c)
          | Some _ \<Rightarrow> route_rates c)\<rparr>"

section \<open>Requests and availability\<close>

datatype block_reason =
    AlreadyTried | NotAllowed | OwnerMismatch | Disabled | Draining
  | RouteUnavailable | ModelUnavailable | OperationUnavailable
  | AuthRequired | AuthBlocked | QuotaExhausted | RateLimited
  | CircuitOpen | RecoveryBusy | CapacityBusy

datatype candidate_availability =
    AvReady (recovery_of: bool)
  | AvBusy block_reason
  | AvWaitUntil u64 block_reason
  | AvBlocked block_reason

record rotation_request =
  req_id :: request_id
  req_route_key :: string
  req_model :: string
  req_operation :: rotation_operation
  req_owner :: "string option"
  req_preferred :: "string option"
  warm_fallbacks :: "string list"
  tried :: "string set"
  allowed_candidates :: "string set option"

definition new_request :: "request_id \<Rightarrow> string \<Rightarrow> string \<Rightarrow> rotation_request" where
  "new_request request_id route_key model =
     \<lparr>req_id = request_id, req_route_key = route_key, req_model = model,
      req_operation = OpText, req_owner = None, req_preferred = None, warm_fallbacks = [],
      tried = {}, allowed_candidates = None\<rparr>"

definition request_with_owner :: "rotation_request \<Rightarrow> string \<Rightarrow> rotation_request" where
  "request_with_owner r owner = r\<lparr>req_owner := Some owner\<rparr>"

definition with_allowed_candidates ::
  "rotation_request \<Rightarrow> string set \<Rightarrow> rotation_request" where
  "with_allowed_candidates r candidates = r\<lparr>allowed_candidates := Some candidates\<rparr>"

definition request_with_operation ::
  "rotation_request \<Rightarrow> rotation_operation \<Rightarrow> rotation_request" where
  "request_with_operation r operation = r\<lparr>req_operation := operation\<rparr>"

definition supports :: "rotation_candidate \<Rightarrow> rotation_request \<Rightarrow> block_reason + unit" where
  "supports c request =
     (if \<not> enabled c then Inl Disabled
      else if draining c then Inl Draining
      else (case bget (routes c) (req_route_key request) of
          None \<Rightarrow> Inl RouteUnavailable
        | Some route \<Rightarrow>
            if \<not> eq_ignore_ascii_case (route_model route) (req_model request) then
              Inl ModelUnavailable
            else if route_operation route \<noteq> req_operation request then
              Inl OperationUnavailable
            else Inr ()))"

section \<open>Circuits, selections and outcomes\<close>

datatype circuit_state = Closed | Degraded | Open | HalfOpen

record circuit_snapshot =
  snap_state :: circuit_state
  snap_failure_streak :: u32
  snap_not_before_ms :: "u64 option"
  snap_epoch :: u64

datatype selection_reason =
    HardOwner | ManualPriority | WeightedRotation | Recovery | OnlyEligible | LeastLoaded
  | QuotaHeadroom | ProviderCredits

record rotation_selection =
  sel_candidate_id :: string
  sel_priority :: int
  sel_recovery :: bool
  eligible_candidates :: u32
  sel_reason :: selection_reason

datatype health_observation =
    HealthSuccess
  | CountableTransient "u64 option"
  | HealthBusy
  | HealthCancelled
  | ClientError
  | LocalError
  | MonitoringFailure
  | HealthUnknown

record rotation_lease =
  rl_lease_id :: lease_id
  rl_candidate_id :: string
  rl_request_id :: request_id
  rl_route_key :: string
  rl_recovery :: bool

datatype dispatch_start_error =
    DispatchUnknownLease | DispatchBudgetRequestMismatch | DispatchBudgetExhausted
  | AlreadyStarted | RecoveryBudgetExhausted | DispatchCandidateChanged

datatype admission_error = NoEligibleCandidate | AdmissionCandidateChanged | InvalidCandidate

datatype settlement_error = SettleUnknownLease | SettleBudgetRequestMismatch | NotDispatched

section \<open>Lemmas\<close>

lemma observation_is_fresh_iff:
  "observation_is_fresh observed now_ms stale \<longleftrightarrow>
     (\<exists>t. observed = Some t \<and> t \<le> now_ms \<and> now_ms - t \<le> stale)"
  by (cases observed) (auto simp: observation_is_fresh_def checked_sub_def)

lemma observation_is_fresh_None [simp]: "\<not> observation_is_fresh None now_ms stale"
  by (simp add: observation_is_fresh_def)

lemma fresh_remaining_bounds:
  "fresh_remaining r now_ms stale = Some q \<Longrightarrow>
   1 \<le> q \<and> q \<le> 10000 \<and> is_none_or (valid_until_ms r) (\<lambda>d. now_ms < d)"
  by (auto simp: fresh_remaining_def split: if_splits)

lemma supports_Inr:
  "supports c r = Inr () \<longleftrightarrow>
     enabled c \<and> \<not> draining c \<and>
     (\<exists>route. bget (routes c) (req_route_key r) = Some route \<and>
        eq_ignore_ascii_case (route_model route) (req_model r) \<and>
        route_operation route = req_operation r)"
  by (auto simp: supports_def split: option.splits)

lemma validate_Inr:
  "validate c = Inr () \<longleftrightarrow>
     \<not> invalid_identifier (rc_id c) \<and> \<not> invalid_identifier (capacity_key c) \<and>
     1 \<le> weight c \<and> weight c \<le> 100 \<and> 0 < bsize (routes c) \<and> bsize (routes c) \<le> 4096 \<and>
     (\<forall>key route. bget (routes c) key = Some route \<longrightarrow>
        \<not> invalid_identifier key \<and> \<not> invalid_identifier (route_model route))"
  by (auto simp: validate_def list_ex_iff bget_in_entries)

lemma new_candidate_supports:
  "supports (new_candidate c k m) (new_request n k m) = Inr ()"
  by (simp add: supports_Inr new_candidate_def new_request_def)

end
