(* ===== verification/Budget.thy ===== *)
theory Budget
  imports RotationTypes
begin

text \<open>
  The dispatch budget of one request and the evidence that allows a replay
  (\<open>scheduler/rotation/budget.rs\<close>, \<open>budget/evidence.rs\<close>).

  The record \<open>request_budget\<close> has the fields of \<open>RequestBudget\<close>.  Operations that read the
  clock take the reading as an argument; a method on \<open>&mut self\<close> returns its result and the new
  budget.  An \<open>expect\<close> on an option that may be empty is \<open>None\<close> in the model.
\<close>

section \<open>Evidence\<close>

datatype execution_certainty = CertNotSent | CertAccepted | CertUnknown

datatype commit_stage = BeforeOutput | ResponseCommitted

record execution_observation =
  certainty :: execution_certainty
  commit_stage_of :: commit_stage

definition obs_not_sent :: execution_observation where
  "obs_not_sent = \<lparr>certainty = CertNotSent, commit_stage_of = BeforeOutput\<rparr>"

definition obs_accepted :: execution_observation where
  "obs_accepted = \<lparr>certainty = CertAccepted, commit_stage_of = BeforeOutput\<rparr>"

definition obs_unknown :: execution_observation where
  "obs_unknown = \<lparr>certainty = CertUnknown, commit_stage_of = BeforeOutput\<rparr>"

definition obs_committed :: execution_observation where
  "obs_committed = \<lparr>certainty = CertAccepted, commit_stage_of = ResponseCommitted\<rparr>"

datatype execution_evidence =
    EvNotSent | EvRejectedBeforeExecution | EvAccepted | EvUnknown | EvTerminal

datatype idempotency_contract = NoContract | Proven

record retry_evidence =
  input_repeatable :: bool
  evidence_execution :: execution_evidence
  target_portable :: bool
  idempotency :: idempotency_contract

definition evidence_pre_execution :: retry_evidence where
  "evidence_pre_execution =
     \<lparr>input_repeatable = True, evidence_execution = EvRejectedBeforeExecution,
      target_portable = True, idempotency = NoContract\<rparr>"

definition evidence_unknown :: retry_evidence where
  "evidence_unknown =
     \<lparr>input_repeatable = False, evidence_execution = EvUnknown,
      target_portable = False, idempotency = NoContract\<rparr>"

definition replay_allowed :: "execution_evidence \<Rightarrow> idempotency_contract \<Rightarrow> bool" where
  "replay_allowed e i =
     ((e = EvNotSent \<or> e = EvRejectedBeforeExecution) \<or> (e = EvAccepted \<and> i = Proven))"

datatype retry_stop_reason =
    StopSucceeded | StopTerminalOutcome | StopBudgetExhausted | StopResponseCommitted
  | StopRemoteOutcomeUnknown | StopReplayUnavailable | StopCancelled
  | StopTerminalHealthObservation

datatype retry_decision = Retry u8 | Stop retry_stop_reason

section \<open>The budget\<close>

definition DEFAULT_MAX_DISPATCHES :: u8 where
  "DEFAULT_MAX_DISPATCHES = 3"

record request_budget =
  budget_request_id :: request_id
  max_dispatches :: u8
  dispatches :: u8
  max_wire_attempts :: u16
  wire_attempts :: u16
  replay_stopped :: bool
  admission_stopped :: bool
  retry_started_at :: "instant option"
  retry_deadline :: "instant option"
  persistent_retry :: bool
  budget_rate_limit_deadline :: "instant option"
  budget_http_headers_deadline :: "instant option"
  retry_window_ms :: "u64 option"

definition with_limits :: "request_id \<Rightarrow> u8 \<Rightarrow> u16 \<Rightarrow> request_budget option" where
  "with_limits request_id max_d max_w =
     (if 0 < max_d then
        Some \<lparr>budget_request_id = request_id, max_dispatches = max_d, dispatches = 0,
          max_wire_attempts = max max_w 1, wire_attempts = 0, replay_stopped = False,
          admission_stopped = False, retry_started_at = None, retry_deadline = None,
          persistent_retry = False, budget_rate_limit_deadline = None,
          budget_http_headers_deadline = None, retry_window_ms = None\<rparr>
      else None)"

definition new_budget :: "request_id \<Rightarrow> u8 \<Rightarrow> request_budget option" where
  "new_budget request_id max_d = with_limits request_id max_d (ucast max_d)"

definition default_budget_for :: "request_id \<Rightarrow> request_budget option" where
  "default_budget_for request_id = new_budget request_id DEFAULT_MAX_DISPATCHES"

text \<open>
  The process-wide counter \<open>NEXT_REQUEST_ID\<close> is an argument; \<open>fetch_add\<close> returns it and leaves
  its wrapping successor.  The configured limit is a \<open>usize\<close> of 64 bits.
\<close>

definition for_incoming_request :: "u64 \<Rightarrow> u64 \<Rightarrow> request_budget option \<times> u64" where
  "for_incoming_request next_request_id configured_limit =
     (let limit = sat_of_nat (unat (max configured_limit 1)) :: u8
      in (with_limits next_request_id limit (sat_mul (ucast limit) 2), next_request_id + 1))"

definition retry_window_open :: "request_budget \<Rightarrow> instant \<Rightarrow> bool" where
  "retry_window_open b now =
     (is_none_or (retry_deadline b) (\<lambda>deadline. now < deadline)
      \<and> (persistent_retry b
          \<or> is_none_or (budget_rate_limit_deadline b) (\<lambda>deadline. now < deadline)))"

definition can_start_wire :: "request_budget \<Rightarrow> instant \<Rightarrow> bool" where
  "can_start_wire b now =
     (\<not> replay_stopped b \<and> \<not> admission_stopped b \<and> retry_window_open b now
      \<and> wire_attempts b < max_wire_attempts b)"

definition start_wire_attempt ::
  "request_budget \<Rightarrow> instant \<Rightarrow> u16 option \<times> request_budget" where
  "start_wire_attempt b now =
     (if \<not> can_start_wire b now then (None, b)
      else (let n = sat_add (wire_attempts b) 1 in (Some n, b\<lparr>wire_attempts := n\<rparr>)))"

definition remaining :: "request_budget \<Rightarrow> u8" where
  "remaining b = sat_sub (max_dispatches b) (dispatches b)"

definition can_dispatch :: "request_budget \<Rightarrow> instant \<Rightarrow> bool" where
  "can_dispatch b now =
     (\<not> replay_stopped b \<and> \<not> admission_stopped b \<and> retry_window_open b now
      \<and> dispatches b < max_dispatches b)"

definition observe_execution ::
  "request_budget \<Rightarrow> execution_observation \<Rightarrow> instant \<Rightarrow> request_budget" where
  "observe_execution b observation now =
     (let b1 = b\<lparr>replay_stopped := replay_stopped b
                  \<or> certainty observation \<noteq> CertNotSent
                  \<or> commit_stage_of observation = ResponseCommitted\<rparr>
      in if \<not> replay_stopped b1 then
           (let started = unwrap_or (retry_started_at b1) now
            in b1\<lparr>retry_started_at := Some started,
                  retry_deadline :=
                    map_option (\<lambda>window_ms. started + from_millis window_ms)
                      (retry_window_ms b1)\<rparr>)
         else b1)"

definition configure_retry_window :: "request_budget \<Rightarrow> u64 \<Rightarrow> bool \<Rightarrow> request_budget" where
  "configure_retry_window b window_ms persistent =
     b\<lparr>persistent_retry := persistent,
       retry_window_ms := (if \<not> persistent then Some window_ms else None),
       retry_deadline :=
         map_option (\<lambda>started. started + from_millis window_ms)
           (opt_filter (\<lambda>_. \<not> persistent) (retry_started_at b))\<rparr>"

definition start_dispatch ::
  "request_budget \<Rightarrow> instant \<Rightarrow> attempt_id option \<times> request_budget" where
  "start_dispatch b now =
     (if \<not> can_dispatch b now then (None, b)
      else (let n = sat_add (dispatches b) 1 in (Some (ucast n), b\<lparr>dispatches := n\<rparr>)))"

definition retry_decision_of ::
  "request_budget \<Rightarrow> execution_observation \<Rightarrow> instant \<Rightarrow> retry_decision" where
  "retry_decision_of b observation now =
     (if commit_stage_of observation = ResponseCommitted then Stop StopResponseCommitted
      else if certainty observation = CertUnknown then Stop StopRemoteOutcomeUnknown
      else if certainty observation \<noteq> CertNotSent then Stop StopReplayUnavailable
      else if \<not> can_dispatch b now then Stop StopBudgetExhausted
      else Retry (sat_add (dispatches b) 1))"

fun execution_matches :: "execution_evidence \<Rightarrow> execution_certainty \<Rightarrow> bool" where
  "execution_matches EvNotSent c = (c = CertNotSent)"
| "execution_matches EvRejectedBeforeExecution c = (c = CertNotSent)"
| "execution_matches EvAccepted c = (c = CertAccepted)"
| "execution_matches EvUnknown c = (c = CertUnknown)"
| "execution_matches EvTerminal c = False"

definition retry_decision_with_evidence ::
  "request_budget \<Rightarrow> execution_observation \<Rightarrow> retry_evidence \<Rightarrow> instant \<Rightarrow> retry_decision" where
  "retry_decision_with_evidence b observation evidence now =
     (if commit_stage_of observation = ResponseCommitted then Stop StopResponseCommitted
      else if \<not> input_repeatable evidence
        \<or> \<not> target_portable evidence
        \<or> \<not> execution_matches (evidence_execution evidence) (certainty observation)
        \<or> \<not> replay_allowed (evidence_execution evidence) (idempotency evidence) then
        Stop (case evidence_execution evidence of
                EvUnknown \<Rightarrow> StopRemoteOutcomeUnknown
              | EvTerminal \<Rightarrow> StopTerminalOutcome
              | _ \<Rightarrow> StopReplayUnavailable)
      else if \<not> can_dispatch b now then Stop StopBudgetExhausted
      else Retry (sat_add (dispatches b) 1))"

section \<open>Lemmas\<close>

definition budget_wf :: "request_budget \<Rightarrow> bool" where
  "budget_wf b =
     (dispatches b \<le> max_dispatches b \<and> wire_attempts b \<le> max_wire_attempts b
      \<and> 0 < max_dispatches b \<and> 0 < max_wire_attempts b)"

text \<open>What no operation on a budget may take back.\<close>

definition budget_le :: "request_budget \<Rightarrow> request_budget \<Rightarrow> bool" where
  "budget_le b c =
     (budget_request_id c = budget_request_id b
      \<and> max_dispatches c = max_dispatches b \<and> max_wire_attempts c = max_wire_attempts b
      \<and> dispatches b \<le> dispatches c \<and> wire_attempts b \<le> wire_attempts c
      \<and> (replay_stopped b \<longrightarrow> replay_stopped c)
      \<and> (admission_stopped b \<longrightarrow> admission_stopped c)
      \<and> (\<forall>t. retry_started_at b = Some t \<longrightarrow> retry_started_at c = Some t)
      \<and> (\<forall>t. budget_rate_limit_deadline b = Some t \<longrightarrow>
           is_some_and (budget_rate_limit_deadline c) (\<lambda>u. u \<le> t))
      \<and> (\<forall>t. budget_http_headers_deadline b = Some t \<longrightarrow>
           is_some_and (budget_http_headers_deadline c) (\<lambda>u. u \<le> t)))"

lemma budget_le_refl [simp]: "budget_le b b"
  by (simp add: budget_le_def)

lemma budget_le_trans: "budget_le a b \<Longrightarrow> budget_le b c \<Longrightarrow> budget_le a c"
  by (fastforce simp: budget_le_def is_some_and_iff)

lemma with_limits_wf: "with_limits r d w = Some b \<Longrightarrow> budget_wf b"
  by (auto simp: with_limits_def budget_wf_def max_def not_le
      intro: order.strict_trans [of 0 1] split: if_splits)

lemma start_dispatch_le: "start_dispatch b now = (r, b') \<Longrightarrow> budget_le b b'"
  by (auto simp: start_dispatch_def budget_le_def Let_def is_some_and_iff sat_add_ge
      split: if_splits)

lemma start_wire_le: "start_wire_attempt b now = (r, b') \<Longrightarrow> budget_le b b'"
  by (auto simp: start_wire_attempt_def budget_le_def Let_def is_some_and_iff sat_add_ge
      split: if_splits)

lemma start_dispatch_wf: "budget_wf b \<Longrightarrow> start_dispatch b now = (r, b') \<Longrightarrow> budget_wf b'"
  by (auto simp: start_dispatch_def budget_wf_def Let_def can_dispatch_def sat_add_1_less
      split: if_splits)

lemma start_wire_wf: "budget_wf b \<Longrightarrow> start_wire_attempt b now = (r, b') \<Longrightarrow> budget_wf b'"
  by (auto simp: start_wire_attempt_def budget_wf_def Let_def can_start_wire_def sat_add_1_less
      split: if_splits)

lemma observe_execution_le: "budget_le b (observe_execution b ob now)"
  by (auto simp: observe_execution_def budget_le_def Let_def is_some_and_iff)

lemma observe_execution_wf: "budget_wf b \<Longrightarrow> budget_wf (observe_execution b ob now)"
  by (auto simp: observe_execution_def budget_wf_def Let_def)

lemma configure_retry_window_le: "budget_le b (configure_retry_window b w p)"
  by (auto simp: configure_retry_window_def budget_le_def is_some_and_iff)

lemma configure_retry_window_wf: "budget_wf b \<Longrightarrow> budget_wf (configure_retry_window b w p)"
  by (auto simp: configure_retry_window_def budget_wf_def)

lemma observe_execution_stops:
  "certainty ob \<noteq> CertNotSent \<or> commit_stage_of ob = ResponseCommitted \<Longrightarrow>
   replay_stopped (observe_execution b ob now)"
  by (auto simp: observe_execution_def Let_def)

lemma stopped_no_start:
  assumes "replay_stopped b \<or> admission_stopped b"
  shows "start_dispatch b now = (None, b)" and "start_wire_attempt b now = (None, b)"
    and "\<not> can_dispatch b now"
  using assms
  by (auto simp: start_dispatch_def start_wire_attempt_def can_dispatch_def can_start_wire_def)

lemma start_dispatch_Some:
  "start_dispatch b now = (Some a, b') \<Longrightarrow>
   unat a = Suc (unat (dispatches b)) \<and> unat (dispatches b') = Suc (unat (dispatches b))
   \<and> can_dispatch b now \<and> b' = b\<lparr>dispatches := dispatches b'\<rparr>"
  by (auto simp: start_dispatch_def Let_def can_dispatch_def unat_sat_add_1 unat_ucast_up
      split: if_splits)

end
