(* ===== verification/SharedBudget.thy ===== *)
theory SharedBudget
  imports Budget
begin

text \<open>
  The budget shared by every transport of one request, its accumulated admission wait and the
  wait counters (\<open>budget/shared.rs\<close>, \<open>budget/waiting.rs\<close>, \<open>budget/waiting/diagnostics.rs\<close>).

  \<open>SharedRequestBudget\<close> is a handle on shared cells: every clone reads and writes the same
  budget, wait state and visited members, so one value of \<open>shared_budget\<close> stands for all
  clones.  Each operation locks the cells, reads the clock once and returns the new value; the
  datatype \<open>shared_event\<close> lists the operations that change state, and a request's life is a
  sequence of events in any order.
\<close>

section \<open>State\<close>

datatype admission_stop_reason = QueueFull | WaitExpired

datatype request_wait_kind = WaitCapacity | WaitRecovery u64 | WaitPoolEvent

fun wait_index :: "request_wait_kind \<Rightarrow> nat" where
  "wait_index WaitCapacity = 0"
| "wait_index (WaitRecovery _) = 1"
| "wait_index WaitPoolEvent = 2"

record wait_stats =
  wait_count :: u32
  wait_elapsed :: duration

definition MAX_ACCUMULATED_WAIT :: duration where
  "MAX_ACCUMULATED_WAIT = 30000000000"

record queue_wait_budget =
  wait_persistent :: bool
  retained_bytes :: u64
  waited :: duration
  wait_started :: "instant option"
  wait_stopped :: "admission_stop_reason option"
  wait_kind :: request_wait_kind
  wait_stats_of :: "wait_stats list"
  last_recovery_delay_ms :: "u64 option"

definition default_queue_wait_budget :: queue_wait_budget where
  "default_queue_wait_budget =
     \<lparr>wait_persistent = False, retained_bytes = 0, waited = 0, wait_started = None,
      wait_stopped = None, wait_kind = WaitCapacity,
      wait_stats_of = replicate 3 \<lparr>wait_count = 0, wait_elapsed = 0\<rparr>,
      last_recovery_delay_ms = None\<rparr>"

record shared_budget =
  sb_budget :: request_budget
  waiting :: queue_wait_budget
  attempted_members :: "string set"

definition shared_for_incoming_request :: "u64 \<Rightarrow> u64 \<Rightarrow> shared_budget option \<times> u64" where
  "shared_for_incoming_request next_request_id configured_limit =
     (case for_incoming_request next_request_id configured_limit of
        (b, next) \<Rightarrow>
          (map_option (\<lambda>b. \<lparr>sb_budget = b, waiting = default_queue_wait_budget,
             attempted_members = {}\<rparr>) b, next))"

section \<open>Operations of the shared budget\<close>

definition with_budget ::
  "shared_budget \<Rightarrow> (request_budget \<Rightarrow> 'r \<times> request_budget) \<Rightarrow> 'r \<times> shared_budget" where
  "with_budget s callback =
     (case callback (sb_budget s) of (r, b) \<Rightarrow> (r, s\<lparr>sb_budget := b\<rparr>))"

definition shared_start_wire_attempt ::
  "shared_budget \<Rightarrow> instant \<Rightarrow> u16 option \<times> shared_budget" where
  "shared_start_wire_attempt s now = with_budget s (\<lambda>b. start_wire_attempt b now)"

definition shared_start_dispatch ::
  "shared_budget \<Rightarrow> instant \<Rightarrow> attempt_id option \<times> shared_budget" where
  "shared_start_dispatch s now = with_budget s (\<lambda>b. start_dispatch b now)"

definition http_headers_deadline ::
  "shared_budget \<Rightarrow> duration \<Rightarrow> instant \<Rightarrow> instant \<times> shared_budget" where
  "http_headers_deadline s timeout now =
     with_budget s (\<lambda>b.
       let proposed = now + timeout;
           deadline = (case budget_http_headers_deadline b of
                         None \<Rightarrow> proposed | Some current \<Rightarrow> min current proposed)
       in (deadline, b\<lparr>budget_http_headers_deadline := Some deadline\<rparr>))"

definition shared_configure_retry_window ::
  "shared_budget \<Rightarrow> u64 \<Rightarrow> bool \<Rightarrow> shared_budget" where
  "shared_configure_retry_window s window_ms persistent =
     s\<lparr>sb_budget := configure_retry_window (sb_budget s) window_ms persistent,
       waiting := (waiting s)\<lparr>wait_persistent := persistent\<rparr>\<rparr>"

definition limit_rate_limit_recovery ::
  "shared_budget \<Rightarrow> u64 \<Rightarrow> instant \<Rightarrow> shared_budget" where
  "limit_rate_limit_recovery s window_ms now =
     snd (with_budget s (\<lambda>b.
       let deadline = now + from_millis (min window_ms 30000)
       in ((), b\<lparr>budget_rate_limit_deadline :=
             Some (case budget_rate_limit_deadline b of
                     None \<Rightarrow> deadline | Some old \<Rightarrow> min old deadline)\<rparr>)))"

definition rate_limit_deadline :: "shared_budget \<Rightarrow> instant option" where
  "rate_limit_deadline s =
     opt_filter (\<lambda>_. \<not> persistent_retry (sb_budget s)) (budget_rate_limit_deadline (sb_budget s))"

definition record_member_attempt :: "shared_budget \<Rightarrow> string \<Rightarrow> shared_budget" where
  "record_member_attempt s member = s\<lparr>attempted_members := insert member (attempted_members s)\<rparr>"

definition allow_member_repair :: "shared_budget \<Rightarrow> string \<Rightarrow> shared_budget" where
  "allow_member_repair s member = s\<lparr>attempted_members := attempted_members s - {member}\<rparr>"

definition begin_recovery_pass :: "shared_budget \<Rightarrow> shared_budget" where
  "begin_recovery_pass s = s\<lparr>attempted_members := {}\<rparr>"

definition retry_wait_deadline ::
  "shared_budget \<Rightarrow> u64 \<Rightarrow> instant \<Rightarrow> instant \<times> shared_budget" where
  "retry_wait_deadline s window_ms now =
     with_budget s (\<lambda>b.
       let started = unwrap_or (retry_started_at b) now;
           b1 = b\<lparr>retry_started_at := Some started,
                  retry_deadline :=
                    map_option (\<lambda>window_ms. started + from_millis window_ms) (retry_window_ms b)\<rparr>;
           deadline = started + from_millis window_ms
       in (case opt_filter (\<lambda>_. \<not> persistent_retry b1) (budget_rate_limit_deadline b1) of
             None \<Rightarrow> deadline | Some rate_limit \<Rightarrow> min deadline rate_limit,
           b1))"

definition observe_rejection :: "shared_budget \<Rightarrow> instant \<Rightarrow> shared_budget" where
  "observe_rejection s now =
     s\<lparr>sb_budget := observe_execution (sb_budget s) obs_not_sent now\<rparr>"

section \<open>Admission waits\<close>

definition retain_input_bytes :: "shared_budget \<Rightarrow> u64 \<Rightarrow> shared_budget" where
  "retain_input_bytes s bytes =
     s\<lparr>waiting := (waiting s)\<lparr>retained_bytes := max (retained_bytes (waiting s)) bytes\<rparr>\<rparr>"

definition stop_admission :: "shared_budget \<Rightarrow> admission_stop_reason \<Rightarrow> shared_budget" where
  "stop_admission s reason =
     s\<lparr>sb_budget := (sb_budget s)\<lparr>admission_stopped := True\<rparr>,
       waiting := (waiting s)\<lparr>wait_stopped := Some (unwrap_or (wait_stopped (waiting s)) reason)\<rparr>\<rparr>"

definition begin_queue_wait ::
  "shared_budget \<Rightarrow> request_wait_kind \<Rightarrow> instant \<Rightarrow> bool \<times> shared_budget" where
  "begin_queue_wait s kind now =
     (let w = waiting s
      in if wait_started w \<noteq> None \<or> wait_stopped w \<noteq> None then (False, s)
         else
           (let i = wait_index kind;
                st = wait_stats_of w ! i;
                w1 = w\<lparr>wait_started := Some now, wait_kind := kind,
                       wait_stats_of :=
                         (wait_stats_of w)[i := st\<lparr>wait_count := sat_add (wait_count st) 1\<rparr>]\<rparr>;
                w2 = (case kind of
                        WaitRecovery delay_ms \<Rightarrow> w1\<lparr>last_recovery_delay_ms := Some delay_ms\<rparr>
                      | _ \<Rightarrow> w1)
            in (True, s\<lparr>waiting := w2\<rparr>)))"

definition finish_queue_wait :: "shared_budget \<Rightarrow> instant \<Rightarrow> shared_budget" where
  "finish_queue_wait s now =
     (let w = waiting s
      in case wait_started w of
           None \<Rightarrow> s
         | Some started \<Rightarrow>
             (let e = elapsed started now;
                  i = wait_index (wait_kind w);
                  st = wait_stats_of w ! i
              in s\<lparr>waiting := w\<lparr>wait_started := None,
                     waited := duration_add (waited w) e,
                     wait_stats_of :=
                       (wait_stats_of w)[i := st\<lparr>wait_elapsed := duration_add (wait_elapsed st) e\<rparr>]\<rparr>\<rparr>))"

definition queue_deadline :: "shared_budget \<Rightarrow> bool \<Rightarrow> instant \<Rightarrow> instant option" where
  "queue_deadline s persistent_enabled now =
     (let w = waiting s;
          queue = (if \<not> (wait_persistent w \<and> persistent_enabled) then
                     Some (unwrap_or (wait_started w) now + (MAX_ACCUMULATED_WAIT - waited w))
                   else None)
      in case (queue, retry_deadline (sb_budget s)) of
           (Some a, Some b) \<Rightarrow> Some (min a b)
         | (a, b) \<Rightarrow> opt_or a b)"

section \<open>Diagnostics\<close>

record wait_summary =
  summary_count :: u32
  duration_ms :: u64

record request_wait_diagnostics =
  total_ms :: u64
  diag_capacity :: "wait_summary option"
  diag_recovery :: "wait_summary option"
  diag_pool_event :: "wait_summary option"
  diag_last_recovery_delay_ms :: "u64 option"
  diag_stop_reason :: "admission_stop_reason option"

definition millis :: "duration \<Rightarrow> u64" where
  "millis d = sat_of_nat (d div nanos_per_milli)"

definition wait_summary_of :: "queue_wait_budget \<Rightarrow> duration \<Rightarrow> nat \<Rightarrow> wait_summary option" where
  "wait_summary_of w active i =
     (let st = wait_stats_of w ! i
      in if 0 < wait_count st then
           Some \<lparr>summary_count = wait_count st,
             duration_ms = millis (duration_add (wait_elapsed st)
               (if i = wait_index (wait_kind w) then active else 0))\<rparr>
         else None)"

definition wait_diagnostics :: "shared_budget \<Rightarrow> instant \<Rightarrow> request_wait_diagnostics option" where
  "wait_diagnostics s now =
     (let w = waiting s
      in if list_all (\<lambda>st. wait_count st = 0) (wait_stats_of w) \<and> wait_stopped w = None then None
         else
           (let active = (case wait_started w of None \<Rightarrow> 0 | Some start \<Rightarrow> elapsed start now)
            in Some \<lparr>total_ms = millis (duration_add (waited w) active),
                 diag_capacity = wait_summary_of w active 0,
                 diag_recovery = wait_summary_of w active 1,
                 diag_pool_event = wait_summary_of w active 2,
                 diag_last_recovery_delay_ms = last_recovery_delay_ms w,
                 diag_stop_reason = wait_stopped w\<rparr>))"

section \<open>The life of a request's budget\<close>

datatype shared_event =
    EvStartDispatch instant
  | EvStartWire instant
  | EvObserve execution_observation instant
  | EvObserveRejection instant
  | EvConfigure u64 bool
  | EvLimitRateLimit u64 instant
  | EvHttpHeaders duration instant
  | EvRetryWait u64 instant
  | EvRecordMember string
  | EvAllowRepair string
  | EvRecoveryPass
  | EvRetainBytes u64
  | EvStopAdmission admission_stop_reason
  | EvBeginWait request_wait_kind instant
  | EvFinishWait instant

fun shared_step :: "shared_event \<Rightarrow> shared_budget \<Rightarrow> shared_budget" where
  "shared_step (EvStartDispatch now) s = snd (shared_start_dispatch s now)"
| "shared_step (EvStartWire now) s = snd (shared_start_wire_attempt s now)"
| "shared_step (EvObserve observation now) s =
     s\<lparr>sb_budget := observe_execution (sb_budget s) observation now\<rparr>"
| "shared_step (EvObserveRejection now) s = observe_rejection s now"
| "shared_step (EvConfigure window_ms persistent) s =
     shared_configure_retry_window s window_ms persistent"
| "shared_step (EvLimitRateLimit window_ms now) s = limit_rate_limit_recovery s window_ms now"
| "shared_step (EvHttpHeaders timeout now) s = snd (http_headers_deadline s timeout now)"
| "shared_step (EvRetryWait window_ms now) s = snd (retry_wait_deadline s window_ms now)"
| "shared_step (EvRecordMember member) s = record_member_attempt s member"
| "shared_step (EvAllowRepair member) s = allow_member_repair s member"
| "shared_step EvRecoveryPass s = begin_recovery_pass s"
| "shared_step (EvRetainBytes bytes) s = retain_input_bytes s bytes"
| "shared_step (EvStopAdmission reason) s = stop_admission s reason"
| "shared_step (EvBeginWait kind now) s = snd (begin_queue_wait s kind now)"
| "shared_step (EvFinishWait now) s = finish_queue_wait s now"

definition shared_run :: "shared_event list \<Rightarrow> shared_budget \<Rightarrow> shared_budget" where
  "shared_run = fold shared_step"

text \<open>The attempts a sequence of events starts, in order.\<close>

fun attempts_started :: "shared_event list \<Rightarrow> shared_budget \<Rightarrow> attempt_id list" where
  "attempts_started [] s = []"
| "attempts_started (EvStartDispatch now # es) s =
     (case shared_start_dispatch s now of
        (None, s') \<Rightarrow> attempts_started es s'
      | (Some a, s') \<Rightarrow> a # attempts_started es s')"
| "attempts_started (e # es) s = attempts_started es (shared_step e s)"

section \<open>Invariant and order of a run\<close>

definition shared_wf :: "shared_budget \<Rightarrow> bool" where
  "shared_wf s = (budget_wf (sb_budget s) \<and> length (wait_stats_of (waiting s)) = 3)"

text \<open>What no event may take back: budget counters and stops, the first admission stop reason,
  the retained bytes and the time already waited.\<close>

definition shared_le :: "shared_budget \<Rightarrow> shared_budget \<Rightarrow> bool" where
  "shared_le s t =
     (budget_le (sb_budget s) (sb_budget t)
      \<and> (\<forall>r. wait_stopped (waiting s) = Some r \<longrightarrow> wait_stopped (waiting t) = Some r)
      \<and> retained_bytes (waiting s) \<le> retained_bytes (waiting t)
      \<and> (waited (waiting s) \<le> duration_max \<longrightarrow>
           waited (waiting s) \<le> waited (waiting t) \<and> waited (waiting t) \<le> duration_max))"

lemma shared_le_refl: "shared_le s s"
  by (simp add: shared_le_def)

lemma shared_le_trans: "shared_le s t \<Longrightarrow> shared_le t u \<Longrightarrow> shared_le s u"
  by (auto simp: shared_le_def intro: budget_le_trans order_trans)

lemma shared_le_budget:
  "budget_le (sb_budget s) b \<Longrightarrow> shared_le s (s\<lparr>sb_budget := b\<rparr>)"
  by (simp add: shared_le_def)

lemma with_budget_le:
  "(\<And>r b. f (sb_budget s) = (r, b) \<Longrightarrow> budget_le (sb_budget s) b) \<Longrightarrow>
   shared_le s (snd (with_budget s f))"
  by (auto simp: with_budget_def shared_le_def split: prod.split)

lemma with_budget_wf:
  "(\<And>r b. f (sb_budget s) = (r, b) \<Longrightarrow> budget_wf (sb_budget s) \<Longrightarrow> budget_wf b) \<Longrightarrow>
   shared_wf s \<Longrightarrow> shared_wf (snd (with_budget s f))"
  by (auto simp: with_budget_def shared_wf_def split: prod.split)

lemmas budget_record_simps = budget_le_def budget_wf_def Let_def is_some_and_iff

lemma stop_flag_le: "budget_le b (b\<lparr>admission_stopped := True\<rparr>)"
  by (auto simp: budget_record_simps)

lemma limit_rate_limit_recovery_le: "shared_le s (limit_rate_limit_recovery s w now)"
  unfolding limit_rate_limit_recovery_def
  by (rule with_budget_le) (auto simp: budget_record_simps split: option.splits)

lemma http_headers_deadline_le: "shared_le s (snd (http_headers_deadline s t now))"
  unfolding http_headers_deadline_def
  by (rule with_budget_le) (auto simp: budget_record_simps split: option.splits)

lemma retry_wait_deadline_le: "shared_le s (snd (retry_wait_deadline s w now))"
  unfolding retry_wait_deadline_def
  by (rule with_budget_le) (auto simp: budget_record_simps)

lemma begin_queue_wait_le: "shared_le s (snd (begin_queue_wait s k now))"
  by (auto simp: begin_queue_wait_def Let_def shared_le_def split: request_wait_kind.split)

lemma finish_queue_wait_le: "shared_le s (finish_queue_wait s now)"
  by (auto simp: finish_queue_wait_def Let_def shared_le_def duration_add_def split: option.split)

lemma shared_start_dispatch_le: "shared_le s (snd (shared_start_dispatch s now))"
  unfolding shared_start_dispatch_def by (rule with_budget_le) (rule start_dispatch_le)

lemma shared_start_wire_le: "shared_le s (snd (shared_start_wire_attempt s now))"
  unfolding shared_start_wire_attempt_def by (rule with_budget_le) (rule start_wire_le)

lemmas shared_op_le = limit_rate_limit_recovery_le http_headers_deadline_le retry_wait_deadline_le
  begin_queue_wait_le finish_queue_wait_le shared_start_dispatch_le shared_start_wire_le

lemma shared_step_le: "shared_le s (shared_step e s)"
  by (cases e)
     (simp_all add: shared_op_le,
      simp_all add: shared_le_def observe_execution_le observe_rejection_def
        configure_retry_window_le shared_configure_retry_window_def record_member_attempt_def
        allow_member_repair_def begin_recovery_pass_def retain_input_bytes_def stop_admission_def
        stop_flag_le)

lemma shared_start_dispatch_wf: "shared_wf s \<Longrightarrow> shared_wf (snd (shared_start_dispatch s now))"
  unfolding shared_start_dispatch_def by (rule with_budget_wf) (rule start_dispatch_wf)

lemma shared_start_wire_wf: "shared_wf s \<Longrightarrow> shared_wf (snd (shared_start_wire_attempt s now))"
  unfolding shared_start_wire_attempt_def by (rule with_budget_wf) (rule start_wire_wf)

lemma wait_ops_wf:
  assumes "shared_wf s"
  shows "shared_wf (snd (begin_queue_wait s k now))" and "shared_wf (finish_queue_wait s now)"
  using assms
  by (auto simp: shared_wf_def begin_queue_wait_def finish_queue_wait_def Let_def
      split: request_wait_kind.split option.split)

lemma deadline_ops_wf:
  assumes "shared_wf s"
  shows "shared_wf (limit_rate_limit_recovery s w now)"
    and "shared_wf (snd (http_headers_deadline s t now))"
    and "shared_wf (snd (retry_wait_deadline s w now))"
  using assms
  by (simp_all add: shared_wf_def budget_wf_def limit_rate_limit_recovery_def Let_def
      http_headers_deadline_def retry_wait_deadline_def with_budget_def)

lemma shared_step_wf: "shared_wf s \<Longrightarrow> shared_wf (shared_step e s)"
  by (cases e)
     (simp_all add: shared_start_dispatch_wf shared_start_wire_wf wait_ops_wf deadline_ops_wf,
      simp_all add: shared_wf_def budget_wf_def observe_execution_def Let_def observe_rejection_def
        configure_retry_window_def shared_configure_retry_window_def record_member_attempt_def
        allow_member_repair_def begin_recovery_pass_def retain_input_bytes_def stop_admission_def)

interpretation shared_life: event_invariant shared_step shared_wf
  by unfold_locales (rule shared_step_wf)

interpretation shared_life_order: event_order shared_step shared_le
  by unfold_locales (rule shared_le_refl, erule (1) shared_le_trans, rule shared_step_le)

lemma shared_run_wf: "shared_wf s \<Longrightarrow> shared_wf (shared_run es s)"
  unfolding shared_run_def by (rule shared_life.run_inv)

lemma shared_run_le: "shared_le s (shared_run es s)"
  unfolding shared_run_def by (rule shared_life_order.run_R)

lemma for_incoming_request_Some:
  "\<exists>b. fst (for_incoming_request n l) = Some b \<and> budget_request_id b = n \<and>
     dispatches b = 0 \<and> wire_attempts b = 0 \<and>
     unat (max_dispatches b) = min (max 1 (unat l)) 255 \<and>
     unat (max_wire_attempts b) = 2 * min (max 1 (unat l)) 255 \<and> budget_wf b"
proof -
  let ?limit = "sat_of_nat (unat (max l 1)) :: u8"
  have lim: "unat ?limit = min (max 1 (unat l)) 255"
    by (simp add: word_nat max_def)
  then have pos: "0 < ?limit" by (simp add: word_nat)
  have wire: "unat (sat_mul (ucast ?limit) 2 :: u16) = 2 * min (max 1 (unat l)) 255"
    using lim by (simp add: unat_sat_mul unat_ucast_up)
  have "(1 :: u16) \<le> sat_mul (ucast ?limit) 2"
    using wire by (simp add: word_le_nat_alt)
  then have "max (sat_mul (ucast ?limit) 2) (1 :: u16) = sat_mul (ucast ?limit) 2"
    by (simp add: max_absorb1)
  with lim pos wire show ?thesis
    using with_limits_wf [of n ?limit "sat_mul (ucast ?limit) 2"]
    by (simp add: for_incoming_request_def with_limits_def Let_def)
qed

lemma shared_for_incoming_request_Some:
  "fst (shared_for_incoming_request n l) = Some s \<Longrightarrow>
   shared_wf s \<and> budget_request_id (sb_budget s) = n \<and> dispatches (sb_budget s) = 0 \<and>
   wire_attempts (sb_budget s) = 0 \<and>
   unat (max_dispatches (sb_budget s)) = min (max 1 (unat l)) 255 \<and>
   unat (max_wire_attempts (sb_budget s)) = 2 * min (max 1 (unat l)) 255"
  using for_incoming_request_Some [of n l]
  by (auto simp: shared_for_incoming_request_def shared_wf_def default_queue_wait_budget_def
      split: prod.splits)

lemma wait_ops_budget:
  "sb_budget (snd (begin_queue_wait s k now)) = sb_budget s"
  "sb_budget (finish_queue_wait s now) = sb_budget s"
  by (simp_all add: begin_queue_wait_def finish_queue_wait_def Let_def split: option.split)

lemma attempts_started_not_dispatch:
  "\<forall>now. e \<noteq> EvStartDispatch now \<Longrightarrow>
   dispatches (sb_budget (shared_step e s)) = dispatches (sb_budget s)"
  by (cases e)
     (simp_all add: wait_ops_budget, simp_all add: Let_def observe_execution_def
      observe_rejection_def configure_retry_window_def shared_configure_retry_window_def
      record_member_attempt_def allow_member_repair_def begin_recovery_pass_def
      retain_input_bytes_def stop_admission_def limit_rate_limit_recovery_def
      http_headers_deadline_def retry_wait_deadline_def with_budget_def
      shared_start_wire_attempt_def start_wire_attempt_def)

lemma attempts_started_Cons_other:
  "\<forall>now. e \<noteq> EvStartDispatch now \<Longrightarrow>
   attempts_started (e # es) s = attempts_started es (shared_step e s)"
  by (cases e) auto

lemma dispatch_step_Some:
  assumes "shared_start_dispatch s now = (Some a, s')"
  shows "unat a = Suc (unat (dispatches (sb_budget s)))"
    and "unat (dispatches (sb_budget s')) = Suc (unat (dispatches (sb_budget s)))"
  using assms start_dispatch_Some [of "sb_budget s" now a "sb_budget s'"]
  by (auto simp: shared_start_dispatch_def with_budget_def split: prod.splits)

lemma dispatch_step_None:
  "shared_start_dispatch s now = (None, s') \<Longrightarrow>
   dispatches (sb_budget s') = dispatches (sb_budget s)"
  by (auto simp: shared_start_dispatch_def with_budget_def start_dispatch_def Let_def
      split: prod.splits if_splits)

lemma shared_run_Cons: "shared_run (e # es) s = shared_run es (shared_step e s)"
  by (simp add: shared_run_def)

section \<open>Properties\<close>

text \<open>the budget of an incoming request exists for every configured limit, it allows
  between 1 and 255 dispatches (the configured limit within these bounds) and twice as many wire
  attempts, and no sequence of events of any transport exceeds either bound or changes the
  request it belongs to.\<close>

theorem request_budget_bounds:
  "\<exists>s. fst (shared_for_incoming_request n l) = Some s \<and>
     unat (dispatches (sb_budget (shared_run es s))) \<le> min (max 1 (unat l)) 255 \<and>
     unat (wire_attempts (sb_budget (shared_run es s))) \<le> 2 * min (max 1 (unat l)) 255 \<and>
     budget_request_id (sb_budget (shared_run es s)) = n"
proof -
  obtain s where s: "fst (shared_for_incoming_request n l) = Some s"
    using for_incoming_request_Some [of n l]
    by (fastforce simp: shared_for_incoming_request_def case_prod_unfold)
  note init = shared_for_incoming_request_Some [OF s]
  have "shared_wf (shared_run es s)" using init shared_run_wf by blast
  moreover have "shared_le s (shared_run es s)" by (rule shared_run_le)
  ultimately show ?thesis
    using s init
    by (auto simp: shared_wf_def budget_wf_def shared_le_def budget_le_def word_le_nat_alt)
qed

text \<open>the attempts started over the life of a request are numbered consecutively, from the
  number after the dispatches already used up to the number of dispatches at the end: no number
  is skipped, repeated or handed out twice by two transports.\<close>

theorem attempts_consecutive:
  "map unat (attempts_started es s) =
     [Suc (unat (dispatches (sb_budget s))) ..<
      Suc (unat (dispatches (sb_budget (shared_run es s))))]"
proof (induction es arbitrary: s)
  case Nil
  then show ?case by (simp add: shared_run_def)
next
  case (Cons e es)
  have le: "dispatches (sb_budget t) \<le> dispatches (sb_budget (shared_run es t))" for t
    using shared_run_le [of t es] by (simp add: shared_le_def budget_le_def)
  show ?case
  proof (cases "\<exists>now. e = EvStartDispatch now")
    case True
    then obtain now where e: "e = EvStartDispatch now" by blast
    obtain r s' where r: "shared_start_dispatch s now = (r, s')" by fastforce
    show ?thesis
    proof (cases r)
      case None
      then show ?thesis
        using Cons.IH [of s'] e r dispatch_step_None [of s now s'] by (simp add: shared_run_Cons)
    next
      case (Some a)
      note step = dispatch_step_Some [OF r [unfolded Some]]
      have "Suc (unat (dispatches (sb_budget s))) \<le> unat (dispatches (sb_budget (shared_run es s')))"
        using le [of s'] Some step by (simp add: word_le_nat_alt)
      then show ?thesis
        using Cons.IH [of s'] e r step Some by (simp add: shared_run_Cons upt_conv_Cons)
    qed
  next
    case False
    then show ?thesis
      using Cons.IH [of "shared_step e s"]
      by (simp add: attempts_started_Cons_other attempts_started_not_dispatch shared_run_Cons)
  qed
qed

text \<open>C17: once an attempt was accepted, has an unknown outcome or has committed a response, no
  later event of any transport starts another dispatch or wire attempt of the request, and every
  later retry decision is to stop.\<close>

theorem no_restart_after_execution:
  assumes "certainty ob \<noteq> CertNotSent \<or> commit_stage_of ob = ResponseCommitted"
    and "t = shared_run es (shared_step (EvObserve ob now0) s)"
  shows "fst (shared_start_dispatch t now) = None \<and>
    fst (shared_start_wire_attempt t now) = None \<and>
    (\<exists>why. retry_decision_of (sb_budget t) ob' now = Stop why) \<and>
    (\<exists>why. retry_decision_with_evidence (sb_budget t) ob' ev now = Stop why)"
proof -
  have "shared_le (shared_step (EvObserve ob now0) s) t"
    unfolding assms(2) by (rule shared_run_le)
  then have "replay_stopped (sb_budget t)"
    using observe_execution_stops [OF assms(1)] by (simp add: shared_le_def budget_le_def)
  then show ?thesis
    by (simp add: shared_start_dispatch_def shared_start_wire_attempt_def with_budget_def
        stopped_no_start retry_decision_of_def retry_decision_with_evidence_def)
qed

theorem no_restart_after_execution_witness:
  "\<exists>s. fst (shared_for_incoming_request 7 4) = Some s \<and>
     fst (shared_start_dispatch s 10) = Some 1 \<and>
     fst (shared_start_dispatch
       (shared_run [EvRecoveryPass, EvConfigure 30000 True]
         (shared_step (EvObserve obs_accepted 20) s)) 30) = None"
proof -
  define s where "s = \<lparr>sb_budget = the (with_limits 7 4 8), waiting = default_queue_wait_budget,
    attempted_members = {}\<rparr>"
  have init: "fst (shared_for_incoming_request 7 4) = Some s"
    by (simp add: s_def shared_for_incoming_request_def for_incoming_request_def Let_def
        sat_of_nat_def sat_mul_def with_limits_def max_def word_le_nat_alt)
  have first: "fst (shared_start_dispatch s 10) = Some 1"
    by (simp add: s_def shared_start_dispatch_def with_budget_def start_dispatch_def with_limits_def
        can_dispatch_def retry_window_open_def sat_add_def Let_def)
  have cert: "certainty obs_accepted \<noteq> CertNotSent \<or>
      commit_stage_of obs_accepted = ResponseCommitted"
    by (simp add: obs_accepted_def)
  show ?thesis
    using init first no_restart_after_execution
      [OF cert refl, of "[EvRecoveryPass, EvConfigure 30000 True]" 20 s 30]
    by blast
qed

text \<open>deadlines only tighten.  Over any sequence of events the start of the retry window
  stays the first one, the rate-limit deadline and the header deadline never move later, and
  the bytes charged to the request never shrink.\<close>

theorem deadlines_only_tighten:
  "(\<forall>t. retry_started_at (sb_budget s) = Some t \<longrightarrow>
      retry_started_at (sb_budget (shared_run es s)) = Some t) \<and>
   (\<forall>t. budget_rate_limit_deadline (sb_budget s) = Some t \<longrightarrow>
      (\<exists>u \<le> t. budget_rate_limit_deadline (sb_budget (shared_run es s)) = Some u)) \<and>
   (\<forall>t. budget_http_headers_deadline (sb_budget s) = Some t \<longrightarrow>
      (\<exists>u \<le> t. budget_http_headers_deadline (sb_budget (shared_run es s)) = Some u)) \<and>
   retained_bytes (waiting s) \<le> retained_bytes (waiting (shared_run es s))"
  using shared_run_le [of s es]
  by (auto simp: shared_le_def budget_le_def is_some_and_iff)

theorem deadlines_only_tighten_witness:
  "\<exists>s u. budget_rate_limit_deadline (sb_budget s) = Some 500 \<and> u \<le> 500 \<and>
     budget_rate_limit_deadline (sb_budget
       (shared_run [EvLimitRateLimit 60000 0, EvConfigure 1000 False] s)) = Some u"
proof -
  define s where "s = \<lparr>sb_budget = (the (with_limits 7 4 8))\<lparr>budget_rate_limit_deadline := Some 500\<rparr>,
    waiting = default_queue_wait_budget, attempted_members = {}\<rparr>"
  have "budget_rate_limit_deadline (sb_budget s) = Some 500"
    by (simp add: s_def)
  with deadlines_only_tighten [of s "[EvLimitRateLimit 60000 0, EvConfigure 1000 False]"]
  show ?thesis by blast
qed

text \<open>the first reason for which admission is stopped is the one kept over any later
  events; from then on no queue wait begins and nothing is dispatched.\<close>

theorem admission_stop_is_final:
  assumes "t = shared_run es (stop_admission s reason)"
  shows "wait_stopped (waiting t) = Some (unwrap_or (wait_stopped (waiting s)) reason) \<and>
    fst (begin_queue_wait t kind now) = False \<and>
    fst (shared_start_dispatch t now) = None \<and>
    fst (shared_start_wire_attempt t now) = None"
proof -
  have le: "shared_le (stop_admission s reason) t"
    unfolding assms by (rule shared_run_le)
  then have w: "wait_stopped (waiting t) = Some (unwrap_or (wait_stopped (waiting s)) reason)"
    by (simp add: shared_le_def stop_admission_def)
  have "admission_stopped (sb_budget t)"
    using le by (simp add: shared_le_def budget_le_def stop_admission_def)
  with w show ?thesis
    by (simp add: shared_start_dispatch_def shared_start_wire_attempt_def with_budget_def
        stopped_no_start begin_queue_wait_def Let_def)
qed

theorem admission_stop_is_final_witness:
  "\<exists>s. wait_stopped (waiting (shared_run [EvStopAdmission WaitExpired]
     (stop_admission s QueueFull))) = Some QueueFull"
proof -
  define s where "s = \<lparr>sb_budget = the (with_limits 7 4 8), waiting = default_queue_wait_budget,
    attempted_members = {}\<rparr>"
  have "wait_stopped (waiting s) = None" by (simp add: s_def default_queue_wait_budget_def)
  with admission_stop_is_final [OF refl, of "[EvStopAdmission WaitExpired]" s QueueFull]
  show ?thesis by (metis unwrap_or_simps(1))
qed

text \<open>a request that does not wait persistently and finishes each wait no later than
  its queue deadline accumulates at most thirty seconds of waiting; whatever the deadline, the
  accumulated time grows by exactly the length of the wait (up to the largest duration).\<close>

theorem accumulated_wait_bounded:
  assumes "waited (waiting s) \<le> MAX_ACCUMULATED_WAIT"
    and "wait_started (waiting s) = Some started"
    and "queue_deadline s pe now0 = Some deadline"
    and "\<not> (wait_persistent (waiting s) \<and> pe)"
  shows "(now \<le> deadline \<longrightarrow>
      waited (waiting (finish_queue_wait s now)) \<le> MAX_ACCUMULATED_WAIT) \<and>
    waited (waiting (finish_queue_wait s now)) =
      min (waited (waiting s) + (now - started)) duration_max"
proof -
  have "deadline \<le> started + (MAX_ACCUMULATED_WAIT - waited (waiting s))"
    using assms by (auto simp: queue_deadline_def Let_def split: option.splits)
  then show ?thesis
    using assms by (auto simp: finish_queue_wait_def Let_def duration_add_def elapsed_def)
qed

theorem accumulated_wait_bounded_witness:
  "\<exists>s. wait_started (waiting s) = Some 100 \<and> queue_deadline s True 200 = Some 30000000100 \<and>
     waited (waiting (finish_queue_wait s 30000000100)) \<le> MAX_ACCUMULATED_WAIT"
proof -
  define s where "s = snd (begin_queue_wait \<lparr>sb_budget = the (with_limits 7 4 8),
    waiting = default_queue_wait_budget, attempted_members = {}\<rparr> WaitCapacity 100)"
  have s: "waited (waiting s) \<le> MAX_ACCUMULATED_WAIT" "wait_started (waiting s) = Some 100"
    "queue_deadline s True 200 = Some 30000000100" "\<not> (wait_persistent (waiting s) \<and> True)"
    by (simp_all add: s_def begin_queue_wait_def default_queue_wait_budget_def Let_def
        queue_deadline_def with_limits_def MAX_ACCUMULATED_WAIT_def)
  from s accumulated_wait_bounded [OF s, of 30000000100] show ?thesis by blast
qed

text \<open>the evidence-based retry decision with the evidence of a proven pre-execution
  rejection equals the ordinary one wherever the attempt was not sent, and it never permits a
  retry that the evidence does not prove safe: a retry is the next dispatch number of a budget
  that can dispatch, for repeatable input, a portable target, no committed response, and an
  attempt that was not sent or was accepted under a proven idempotency contract.\<close>

theorem retry_needs_evidence:
  "(certainty ob = CertNotSent \<longrightarrow>
      retry_decision_with_evidence b ob evidence_pre_execution now = retry_decision_of b ob now) \<and>
   (retry_decision_with_evidence b ob ev now = Retry k \<longrightarrow>
      can_dispatch b now \<and> unat k = Suc (unat (dispatches b)) \<and> k \<le> max_dispatches b \<and>
      input_repeatable ev \<and> target_portable ev \<and> commit_stage_of ob = BeforeOutput \<and>
      (certainty ob = CertNotSent \<or> certainty ob = CertAccepted \<and> idempotency ev = Proven))"
proof -
  have "certainty ob = CertNotSent \<longrightarrow>
      retry_decision_with_evidence b ob evidence_pre_execution now = retry_decision_of b ob now"
    by (simp add: retry_decision_with_evidence_def retry_decision_of_def
        evidence_pre_execution_def replay_allowed_def)
  moreover have "retry_decision_with_evidence b ob ev now = Retry k \<longrightarrow>
      can_dispatch b now \<and> unat k = Suc (unat (dispatches b)) \<and> k \<le> max_dispatches b \<and>
      input_repeatable ev \<and> target_portable ev \<and> commit_stage_of ob = BeforeOutput \<and>
      (certainty ob = CertNotSent \<or> certainty ob = CertAccepted \<and> idempotency ev = Proven)"
    by (cases "evidence_execution ev"; cases "commit_stage_of ob")
       (auto simp: retry_decision_with_evidence_def replay_allowed_def can_dispatch_def
        sat_add_1_less unat_sat_add_1 split: if_splits)
  ultimately show ?thesis by blast
qed

theorem retry_needs_evidence_witness:
  "retry_decision_with_evidence (the (with_limits 7 4 8)) obs_not_sent evidence_pre_execution 5
     = Retry 1 \<and> can_dispatch (the (with_limits 7 4 8)) 5"
proof -
  have "retry_decision_with_evidence (the (with_limits 7 4 8)) obs_not_sent evidence_pre_execution 5
     = Retry 1"
    by (simp add: retry_decision_with_evidence_def obs_not_sent_def evidence_pre_execution_def
        replay_allowed_def with_limits_def can_dispatch_def retry_window_open_def sat_add_def)
  with retry_needs_evidence [of obs_not_sent "the (with_limits 7 4 8)" 5 evidence_pre_execution 1]
  show ?thesis by blast
qed

end
