(* ===== verification/Latency.thy ===== *)
theory Latency
  imports RotationTypes
begin

text \<open>
  The bounded window of first-output latencies of one candidate and route
  (\<open>scheduler/rotation/latency.rs\<close>): storage by attempts, a read-time filter by age, and nearest-rank
  quantiles that are reported only from twenty measured samples on.
\<close>

definition MAX_SAMPLES :: nat where
  "MAX_SAMPLES = 64"

definition MIN_MEASURED_SAMPLES :: nat where
  "MIN_MEASURED_SAMPLES = 20"

definition HEALTH_HALF_LIFE_MS :: u64 where
  "HEALTH_HALF_LIFE_MS = 600000"

definition WINDOW_MS :: u64 where
  "WINDOW_MS = HEALTH_HALF_LIFE_MS"

datatype route_latency_state = LatencyUnknown | LatencyInsufficient | LatencyReady | LatencyStale

record latency_sample =
  observed_at_ms :: u64
  latency_ms :: "u64 option"

type_synonym latency_window = "latency_sample list"

record route_latency_diagnostics =
  latency_state :: route_latency_state
  sample_count :: u32
  unknown_count :: u32
  minimum_samples :: u32
  window_ms_of :: u64
  as_of_ms :: u64
  last_observed_at_ms :: "u64 option"
  p50_ms :: "u64 option"
  p90_ms :: "u64 option"
  p95_ms :: "u64 option"

definition latency_observe :: "latency_window \<Rightarrow> u64 option \<Rightarrow> u64 \<Rightarrow> latency_window" where
  "latency_observe samples latency now_ms =
     (let kept = filter (\<lambda>sample. observed_at_ms sample \<le> now_ms
                    \<and> now_ms - observed_at_ms sample \<le> WINDOW_MS) samples;
          room = (if length kept = MAX_SAMPLES then drop 1 kept else kept)
      in room @ [\<lparr>observed_at_ms = now_ms, latency_ms = latency\<rparr>])"

fun latency_scan ::
  "u64 \<Rightarrow> latency_sample list \<Rightarrow> u64 list \<times> u32 \<times> u64 option \<Rightarrow> u64 list \<times> u32 \<times> u64 option" where
  "latency_scan now_ms [] acc = acc"
| "latency_scan now_ms (sample # rest) (vals, unknown, latest) =
     (if now_ms < observed_at_ms sample then latency_scan now_ms rest (vals, unknown, latest)
      else
        (let latest' = Some (max (unwrap_or latest 0) (observed_at_ms sample))
         in if WINDOW_MS < now_ms - observed_at_ms sample then
              latency_scan now_ms rest (vals, unknown, latest')
            else (case latency_ms sample of
                Some latency \<Rightarrow> latency_scan now_ms rest (vals @ [latency], unknown, latest')
              | None \<Rightarrow> latency_scan now_ms rest (vals, unknown + 1, latest'))))"

definition div_ceil :: "nat \<Rightarrow> nat \<Rightarrow> nat" where
  "div_ceil a b = (a + b - 1) div b"

definition quantile :: "u64 list \<Rightarrow> nat \<Rightarrow> u64" where
  "quantile vals percent = vals ! (div_ceil (length vals * percent) 100 - 1)"

definition latency_snapshot :: "latency_window \<Rightarrow> u64 \<Rightarrow> route_latency_diagnostics" where
  "latency_snapshot samples now_ms =
     (case latency_scan now_ms samples ([], 0, None) of
        (measured, unknown, latest) \<Rightarrow>
          (let st = (if MIN_MEASURED_SAMPLES \<le> length measured then LatencyReady
                     else if measured \<noteq> [] then LatencyInsufficient
                     else if 0 < unknown \<or> samples = [] then LatencyUnknown
                     else LatencyStale);
               vals = (if st = LatencyReady then sort measured else measured);
               q = (\<lambda>percent. if st = LatencyReady then Some (quantile vals percent) else None)
           in \<lparr>latency_state = st, sample_count = of_nat (length vals), unknown_count = unknown,
               minimum_samples = of_nat MIN_MEASURED_SAMPLES, window_ms_of = WINDOW_MS,
               as_of_ms = now_ms, last_observed_at_ms = latest,
               p50_ms = q 50, p90_ms = q 90, p95_ms = q 95\<rparr>))"

section \<open>Lemmas\<close>

text \<open>The samples a reading at a time takes into account.\<close>

definition in_window :: "u64 \<Rightarrow> latency_sample \<Rightarrow> bool" where
  "in_window now_ms sample =
     (observed_at_ms sample \<le> now_ms \<and> now_ms - observed_at_ms sample \<le> WINDOW_MS)"

definition measured_values :: "latency_window \<Rightarrow> u64 \<Rightarrow> u64 list" where
  "measured_values samples now_ms =
     List.map_filter latency_ms (filter (in_window now_ms) samples)"

lemma latency_observe_length:
  assumes "length samples \<le> MAX_SAMPLES"
  shows "length (latency_observe samples l now_ms) \<le> MAX_SAMPLES"
proof -
  let ?kept = "filter (\<lambda>sample. observed_at_ms sample \<le> now_ms
    \<and> now_ms - observed_at_ms sample \<le> WINDOW_MS) samples"
  have "length ?kept \<le> MAX_SAMPLES"
    using assms length_filter_le order_trans by blast
  then show ?thesis
    unfolding latency_observe_def Let_def by (simp add: MAX_SAMPLES_def)
qed

lemma latency_scan_measured:
  "fst (latency_scan now_ms samples (vals, unknown, latest)) =
     vals @ measured_values samples now_ms"
  by (induction samples arbitrary: vals unknown latest)
     (auto simp: measured_values_def in_window_def Let_def map_filter_simps
      split: option.split)

lemma quantile_index:
  assumes "0 < n" and "0 < p" and "p \<le> 100"
  shows "div_ceil (n * p) 100 - 1 < n"
proof -
  have "n * p \<le> n * 100" using assms(3) by simp
  moreover have "0 < n * p" using assms by simp
  ultimately show ?thesis unfolding div_ceil_def by linarith
qed

lemma quantile_index_mono: "p \<le> q \<Longrightarrow> div_ceil (n * p) 100 - 1 \<le> div_ceil (n * q) 100 - 1"
  unfolding div_ceil_def by (intro diff_le_mono div_le_mono) simp

lemma quantile_mono:
  assumes "sorted vals" and "vals \<noteq> []" and "0 < p" and "p \<le> q" and "q \<le> 100"
  shows "quantile vals p \<le> quantile vals q"
  unfolding quantile_def using assms
  by (intro sorted_nth_mono quantile_index_mono quantile_index) auto

lemma quantile_rank:
  assumes "sorted vals" and "vals \<noteq> []" and "0 < p" and "p \<le> 100"
  shows "length vals * p \<le> 100 * length (filter (\<lambda>v. v \<le> quantile vals p) vals)"
proof -
  define i where "i = div_ceil (length vals * p) 100 - 1"
  have i: "i < length vals" unfolding i_def by (rule quantile_index) (use assms in auto)
  have "take (Suc i) vals = filter (\<lambda>v. v \<le> vals ! i) (take (Suc i) vals)"
  proof (rule filter_True [symmetric], rule ballI)
    fix v assume "v \<in> set (take (Suc i) vals)"
    then obtain j where "j < Suc i" "v = vals ! j"
      by (auto simp: in_set_conv_nth)
    then show "v \<le> vals ! i" using assms(1) i by (simp add: sorted_nth_mono)
  qed
  then have "Suc i \<le> length (filter (\<lambda>v. v \<le> vals ! i) (take (Suc i) vals))"
    using i by (metis length_take min.absorb2 Suc_leI order_refl)
  also have "\<dots> \<le> length (filter (\<lambda>v. v \<le> vals ! i) vals)"
    by (metis append_take_drop_id filter_append le_add1 length_append)
  finally have "Suc i \<le> length (filter (\<lambda>v. v \<le> quantile vals p) vals)"
    by (simp add: quantile_def i_def)
  moreover have "length vals * p \<le> 100 * Suc i"
    using assms unfolding i_def div_ceil_def by simp
  ultimately show ?thesis by (meson le_trans mult_le_mono2)
qed

section \<open>Properties\<close>

text \<open>the latency window never holds more than 64 samples, whatever latencies and clock
  readings (also readings that go backwards) it observes.\<close>

theorem latency_window_bounded:
  "length (fold (\<lambda>(l, now_ms) w. latency_observe w l now_ms) observations []) \<le> MAX_SAMPLES"
proof -
  have "length w \<le> MAX_SAMPLES \<Longrightarrow>
      length (fold (\<lambda>(l, now_ms) w. latency_observe w l now_ms) observations w) \<le> MAX_SAMPLES" for w
    by (induction observations arbitrary: w) (auto intro: latency_observe_length)
  then show ?thesis by simp
qed

text \<open>the reported quantiles are quantiles of the measured samples of the window: they are
  reported exactly when at least twenty samples of the window are measured, they are measured
  values, they are ordered, and at least half, nine tenths and nineteen twentieths of the measured
  values do not exceed them.\<close>

theorem latency_quantiles_correct:
  assumes "vals = measured_values samples now_ms" and "d = latency_snapshot samples now_ms"
  shows "if 20 \<le> length vals then
      (\<exists>a b c. p50_ms d = Some a \<and> p90_ms d = Some b \<and> p95_ms d = Some c \<and>
         a \<le> b \<and> b \<le> c \<and> {a, b, c} \<subseteq> set vals \<and>
         50 * length vals \<le> 100 * length (filter (\<lambda>v. v \<le> a) vals) \<and>
         90 * length vals \<le> 100 * length (filter (\<lambda>v. v \<le> b) vals) \<and>
         95 * length vals \<le> 100 * length (filter (\<lambda>v. v \<le> c) vals))
    else p50_ms d = None \<and> p90_ms d = None \<and> p95_ms d = None"
proof (cases "20 \<le> length vals")
  case True
  have scan: "fst (latency_scan now_ms samples ([], 0, None)) = vals"
    by (simp add: latency_scan_measured assms(1))
  let ?q = "quantile (sort vals)"
  have len: "0 < length (sort vals)"
    using True by (metis length_sort less_le_trans zero_less_numeral)
  have ne: "sort vals \<noteq> []"
    using True by (metis length_sort list.size(3) not_numeral_le_zero)
  have d: "p50_ms d = Some (?q 50)" "p90_ms d = Some (?q 90)" "p95_ms d = Some (?q 95)"
    using scan True assms(2)
    by (auto simp: latency_snapshot_def MIN_MEASURED_SAMPLES_def Let_def split: prod.splits)
  have mono: "?q 50 \<le> ?q 90" "?q 90 \<le> ?q 95"
    by (auto intro!: quantile_mono ne)
  have "?q p \<in> set (sort vals)" if "0 < p" "p \<le> 100" for p
    unfolding quantile_def
    by (rule nth_mem) (use quantile_index [of "length (sort vals)" p] len that in simp)
  then have elems: "{?q 50, ?q 90, ?q 95} \<subseteq> set vals" by simp
  have count: "length (filter P (sort vals)) = length (filter P vals)" for P
    by (metis mset_filter mset_sort size_mset)
  have rank: "length vals * p \<le> 100 * length (filter (\<lambda>v. v \<le> ?q p) vals)"
    if "0 < p" "p \<le> 100" for p
    using quantile_rank [of "sort vals" p] ne that by (simp add: count)
  show ?thesis
    using True d mono elems rank [of 50] rank [of 90] rank [of 95] by (simp add: mult.commute)
next
  case False
  then show ?thesis
    using latency_scan_measured [of now_ms samples "[]" 0 None] assms
    by (auto simp: latency_snapshot_def MIN_MEASURED_SAMPLES_def Let_def split: prod.splits)
qed

theorem latency_quantiles_correct_witness:
  "\<exists>a. p50_ms (latency_snapshot
     (map (\<lambda>i. \<lparr>observed_at_ms = 5, latency_ms = Some (of_nat i)\<rparr>) [0 ..< 20]) 9) = Some a \<and>
     a \<in> set (map of_nat [0 ..< 20])"
proof -
  let ?w = "map (\<lambda>i. \<lparr>observed_at_ms = 5, latency_ms = Some (of_nat i)\<rparr>) [0 ..< 20]"
  have m: "measured_values ?w 9 = map of_nat [0 ..< 20]"
    by (simp add: measured_values_def in_window_def WINDOW_MS_def HEALTH_HALF_LIFE_MS_def
        map_filter_def o_def filter_map)
  with latency_quantiles_correct [OF m [symmetric] refl] show ?thesis
    by (simp only: length_map length_upt) auto
qed

end
