(* ===== verification/Engine.thy ===== *)
theory Engine
  imports Latency Budget
begin

text \<open>
  The state of the rotation engine (\<open>scheduler/rotation/engine.rs\<close>) and its constants
  (\<open>scheduler/rotation.rs\<close>): candidates with their in-flight counts, circuits and soft health per
  candidate and route, rotation credits, physical capacity counters and the leases.
\<close>

definition CIRCUIT_FAILURE_THRESHOLD :: u32 where
  "CIRCUIT_FAILURE_THRESHOLD = 3"

definition FIRST_TRANSIENT_PACING_MS :: u64 where
  "FIRST_TRANSIENT_PACING_MS = 250"

definition SECOND_TRANSIENT_PACING_MS :: u64 where
  "SECOND_TRANSIENT_PACING_MS = 500"

definition OPEN_BACKOFF_MS :: u64 where
  "OPEN_BACKOFF_MS = 2000"

definition MAX_OPEN_BACKOFF_MS :: u64 where
  "MAX_OPEN_BACKOFF_MS = 60000"

definition FAILURE_WINDOW_MS :: u64 where
  "FAILURE_WINDOW_MS = 60000"

definition HEALTH_EWMA_ALPHA_MILLI :: u32 where
  "HEALTH_EWMA_ALPHA_MILLI = 250"

definition HEALTH_FAILURE_SWITCH_MARGIN_MILLI :: u32 where
  "HEALTH_FAILURE_SWITCH_MARGIN_MILLI = 200"

definition HEALTH_LATENCY_SWITCH_MARGIN_MILLI :: u32 where
  "HEALTH_LATENCY_SWITCH_MARGIN_MILLI = 250"

definition QUOTA_STALE_AFTER_MS :: u64 where
  "QUOTA_STALE_AFTER_MS = 1200000"

datatype circuit_transition =
  TransitionNone | TransitionFailure | TransitionSuccess | TransitionRecoveryAbort

record circuit_runtime =
  circuit_state_of :: circuit_state
  failure_streak :: u32
  counted_requests :: "request_id set"
  not_before_ms :: "u64 option"
  epoch :: u64
  incident :: u64
  last_failure_at_ms :: "u64 option"
  half_open_lease :: "lease_id option"
  last_transition :: circuit_transition

definition default_circuit :: circuit_runtime where
  "default_circuit =
     \<lparr>circuit_state_of = Closed, failure_streak = 0, counted_requests = {}, not_before_ms = None,
      epoch = 0, incident = 0, last_failure_at_ms = None, half_open_lease = None,
      last_transition = TransitionNone\<rparr>"

definition circuit_snapshot_of :: "circuit_runtime \<Rightarrow> circuit_snapshot" where
  "circuit_snapshot_of c =
     \<lparr>snap_state = circuit_state_of c, snap_failure_streak = failure_streak c,
      snap_not_before_ms = not_before_ms c, snap_epoch = epoch c\<rparr>"

record candidate_runtime =
  candidate :: rotation_candidate
  in_flight :: u32

record health_runtime =
  failure_score_milli :: u32
  first_output_latency_ms :: "u64 option"
  latency_observed_at_ms :: "u64 option"
  health_observed_at_ms :: "u64 option"
  latency_window_of :: latency_window

definition default_health :: health_runtime where
  "default_health =
     \<lparr>failure_score_milli = 0, first_output_latency_ms = None, latency_observed_at_ms = None,
      health_observed_at_ms = None, latency_window_of = []\<rparr>"

record lease_runtime =
  lease_id_of :: lease_id
  lease_candidate_id :: string
  lease_generation :: u64
  lease_request_id :: request_id
  lease_route_key :: string
  lease_route :: rotation_route
  lease_capacity_key :: string
  lease_recovery :: bool
  recovery_credit_required :: bool
  lease_attempt_id :: "attempt_id option"
  lease_circuit_epoch :: u64
  lease_circuit_incident :: u64
  lease_quota :: quota_state
  lease_rate :: rate_state
  lease_route_rate :: "rate_state option"

record round_robin_cursor =
  cursor_capacity_key :: string
  cursor_candidate_id :: string
  cursor_priority :: int

type_synonym route_id = "string \<times> string"

record rotation_engine =
  mode :: rotation_mode
  max_in_flight :: u32
  candidates :: "(string, candidate_runtime) bmap"
  candidate_generations :: "(string, u64) bmap"
  quota_revisions :: "(string, u64) bmap"
  circuits :: "(route_id, circuit_runtime) bmap"
  health :: "(route_id, health_runtime) bmap"
  rotation_credit :: "(route_id, int) bmap"
  capacity_in_flight_map :: "(string, u32) bmap"
  capacity_limits :: "(string, u32) bmap"
  leases :: "(lease_id, lease_runtime) bmap"
  next_lease_id :: u64
  next_candidate_generation :: u64
  recovery_policy_of :: recovery_policy
  recovery_credits :: u32
  recovery_in_flight :: u32
  successful_requests_since_recovery :: u32
  quota_stale_after_ms :: u64
  cursors :: "(string, round_robin_cursor) bmap"

definition default_engine :: rotation_engine where
  "default_engine =
     \<lparr>mode = Automatic, max_in_flight = 1024, candidates = bempty,
      candidate_generations = bempty, quota_revisions = bempty, circuits = bempty,
      health = bempty, rotation_credit = bempty, capacity_in_flight_map = bempty,
      capacity_limits = bempty, leases = bempty, next_lease_id = 0,
      next_candidate_generation = 0, recovery_policy_of = default_recovery_policy,
      recovery_credits = initial_credits default_recovery_policy, recovery_in_flight = 0,
      successful_requests_since_recovery = 0, quota_stale_after_ms = QUOTA_STALE_AFTER_MS,
      cursors = bempty\<rparr>"

record ready_candidate =
  ready_id :: string
  ready_capacity_key :: string
  ready_in_flight :: u32
  effective_capacity :: u32
  ready_priority :: int
  ready_weight :: u32
  ready_recovery :: bool
  due_at_ms :: "u64 option"
  ready_failure_score :: u32
  ready_latency_ms :: "u64 option"

text \<open>Read access shared by the parts of the engine.\<close>

definition capacity_in_flight :: "rotation_engine \<Rightarrow> string \<Rightarrow> u32" where
  "capacity_in_flight e key = unwrap_or (bget (capacity_in_flight_map e) key) 0"

definition engine_in_flight :: "rotation_engine \<Rightarrow> string \<Rightarrow> u32" where
  "engine_in_flight e candidate_id =
     (case bget (candidates e) candidate_id of None \<Rightarrow> 0 | Some runtime \<Rightarrow> in_flight runtime)"

definition active_leases :: "rotation_engine \<Rightarrow> nat" where
  "active_leases e = bsize (leases e)"

definition circuit_of :: "rotation_engine \<Rightarrow> string \<Rightarrow> string \<Rightarrow> circuit_snapshot" where
  "circuit_of e candidate_id route_key =
     (case bget (circuits e) (candidate_id, route_key) of
        None \<Rightarrow> circuit_snapshot_of default_circuit
      | Some c \<Rightarrow> circuit_snapshot_of c)"

end
