(* ===== verification/Health.thy ===== *)
theory Health
  imports Engine
begin

text \<open>
  Soft health and the circuit of one candidate and route
  (\<open>scheduler/rotation/engine/health.rs\<close>): the decaying failure score, the first-output latency
  average, and the incident-scoped circuit transitions with their pacing.

  \<open>circuit_transition_of\<close> is the body of \<open>update_circuit\<close> on the circuit entry;
  \<open>update_circuit\<close> looks the entry up (inserting the default one, as \<open>entry().or_default()\<close>
  does) and writes it back.
\<close>

section \<open>Failure score and latency\<close>

definition half_lives :: "u64 option \<Rightarrow> u64 \<Rightarrow> nat" where
  "half_lives observed now_ms =
     unat (min ((case observed of None \<Rightarrow> 0 | Some t \<Rightarrow> sat_sub now_ms t) div HEALTH_HALF_LIFE_MS) 16)"

definition decay_score :: "u32 \<Rightarrow> nat \<Rightarrow> u32" where
  "decay_score score n = ((\<lambda>s. s div 2) ^^ n) score"

definition decayed_failure_score :: "health_runtime \<Rightarrow> u64 \<Rightarrow> u32" where
  "decayed_failure_score h now_ms =
     decay_score (failure_score_milli h) (half_lives (health_observed_at_ms h) now_ms)"

definition health_entry :: "rotation_engine \<Rightarrow> route_id \<Rightarrow> health_runtime" where
  "health_entry e key = unwrap_or (bget (health e) key) default_health"

definition score_failure :: "u32 \<Rightarrow> u32" where
  "score_failure score =
     sat_add (sat_mul score (1000 - HEALTH_EWMA_ALPHA_MILLI)) (sat_mul 1000 HEALTH_EWMA_ALPHA_MILLI)
       div 1000"

definition score_success :: "u32 \<Rightarrow> u32" where
  "score_success score = sat_mul score (1000 - HEALTH_EWMA_ALPHA_MILLI) div 1000"

definition observe_health ::
  "rotation_engine \<Rightarrow> string \<Rightarrow> string \<Rightarrow> health_observation \<Rightarrow> u64 \<Rightarrow> rotation_engine" where
  "observe_health e candidate_id route_key observation now_ms =
     (let key = (candidate_id, route_key);
          h = health_entry e key;
          decayed = decay_score (failure_score_milli h) (half_lives (health_observed_at_ms h) now_ms);
          put = (\<lambda>score. e\<lparr>health := binsert key
                   (h\<lparr>failure_score_milli := score, health_observed_at_ms := Some now_ms\<rparr>) (health e)\<rparr>)
      in case observation of
           CountableTransient _ \<Rightarrow> put (score_failure decayed)
         | HealthSuccess \<Rightarrow> put (score_success decayed)
         | _ \<Rightarrow> e)"

definition latency_average :: "u64 option \<Rightarrow> u64 \<Rightarrow> u64" where
  "latency_average previous latency =
     (case previous of
        Some p \<Rightarrow>
          sat_add (sat_mul p (1000 - ucast HEALTH_EWMA_ALPHA_MILLI))
            (sat_mul latency (ucast HEALTH_EWMA_ALPHA_MILLI)) div 1000
      | None \<Rightarrow> latency)"

definition observe_first_output_latency ::
  "rotation_engine \<Rightarrow> string \<Rightarrow> string \<Rightarrow> u64 option \<Rightarrow> u64 \<Rightarrow> rotation_engine" where
  "observe_first_output_latency e candidate_id route_key latency now_ms =
     (let key = (candidate_id, route_key);
          h = health_entry e key;
          h1 = h\<lparr>latency_window_of := latency_observe (latency_window_of h) latency now_ms\<rparr>;
          h2 = (case latency of
                  None \<Rightarrow> h1
                | Some l \<Rightarrow> h1\<lparr>first_output_latency_ms :=
                      Some (latency_average (first_output_latency_ms h1) l),
                    latency_observed_at_ms := Some now_ms\<rparr>)
      in e\<lparr>health := binsert key h2 (health e)\<rparr>)"

definition latency_diagnostics ::
  "rotation_engine \<Rightarrow> string \<Rightarrow> string \<Rightarrow> u64 \<Rightarrow> route_latency_diagnostics" where
  "latency_diagnostics e candidate_id route_key now_ms =
     (case bget (health e) (candidate_id, route_key) of
        None \<Rightarrow> latency_snapshot [] now_ms
      | Some h \<Rightarrow> latency_snapshot (latency_window_of h) now_ms)"

section \<open>Circuits\<close>

definition failure_backoff_ms :: "u32 \<Rightarrow> u64" where
  "failure_backoff_ms streak =
     (if streak = 0 \<or> streak = 1 then FIRST_TRANSIENT_PACING_MS
      else if streak = 2 then SECOND_TRANSIENT_PACING_MS
      else min (sat_mul OPEN_BACKOFF_MS (sat_of_nat (2 ^ unat (min (sat_sub streak 3) 5))))
             MAX_OPEN_BACKOFF_MS)"

definition count_failure ::
  "circuit_runtime \<Rightarrow> lease_runtime \<Rightarrow> u64 option \<Rightarrow> u64 \<Rightarrow> circuit_runtime \<times> bool" where
  "count_failure circuit lease provider_not_before_ms now_ms =
     (let c0 = (if is_some_and (last_failure_at_ms circuit)
                     (\<lambda>at. FAILURE_WINDOW_MS < sat_sub now_ms at)
                then circuit\<lparr>failure_streak := 0, counted_requests := {}\<rparr> else circuit)
      in if lease_request_id lease \<in> counted_requests c0 then
           (if lease_recovery lease then
              c0\<lparr>circuit_state_of := Open,
                 not_before_ms := Some
                   (max (max (sat_add now_ms FIRST_TRANSIENT_PACING_MS)
                          (unwrap_or provider_not_before_ms 0))
                      (unwrap_or (not_before_ms c0) 0))\<rparr>
            else c0, False)
         else
           (let counted = insert (lease_request_id lease) (counted_requests c0);
                counted = (if 64 < card counted then counted - {Min counted} else counted);
                streak = sat_add (failure_streak c0) 1;
                local_not_before = sat_add now_ms (failure_backoff_ms (max streak 1));
                deadline = max (max (unwrap_or provider_not_before_ms 0) local_not_before)
                  (unwrap_or (not_before_ms c0) 0)
            in (c0\<lparr>counted_requests := counted, failure_streak := streak,
                  last_failure_at_ms := Some now_ms, not_before_ms := Some deadline,
                  epoch := sat_add (epoch c0) 1, last_transition := TransitionFailure,
                  circuit_state_of :=
                    (if lease_recovery lease \<or> CIRCUIT_FAILURE_THRESHOLD \<le> streak then Open
                     else Degraded)\<rparr>, True)))"

definition close_circuit :: "circuit_runtime \<Rightarrow> lease_runtime \<Rightarrow> circuit_runtime \<times> bool" where
  "close_circuit circuit lease =
     (if epoch circuit \<noteq> lease_circuit_epoch lease then
        (if lease_recovery lease then circuit\<lparr>circuit_state_of := Open\<rparr> else circuit, False)
      else
        (circuit\<lparr>circuit_state_of := Closed, failure_streak := 0, counted_requests := {},
           not_before_ms := None, epoch := sat_add (epoch circuit) 1,
           incident := sat_add (incident circuit) 1, last_failure_at_ms := None,
           last_transition := TransitionSuccess\<rparr>, True))"

definition abort_recovery :: "circuit_runtime \<Rightarrow> lease_runtime \<Rightarrow> u64 \<Rightarrow> circuit_runtime \<times> bool" where
  "abort_recovery circuit lease now_ms =
     (if lease_recovery lease then
        circuit\<lparr>circuit_state_of := Open,
          not_before_ms := Some (max (sat_add now_ms FIRST_TRANSIENT_PACING_MS)
                                   (unwrap_or (not_before_ms circuit) 0)),
          epoch := sat_add (epoch circuit) 1, last_transition := TransitionRecoveryAbort\<rparr>
      else circuit, False)"

definition circuit_transition_of ::
  "circuit_runtime \<Rightarrow> lease_runtime \<Rightarrow> health_observation \<Rightarrow> u64 \<Rightarrow> circuit_runtime \<times> bool" where
  "circuit_transition_of circuit lease observation now_ms =
     (if incident circuit \<noteq> lease_circuit_incident lease then (circuit, False)
      else
        (let c = (if half_open_lease circuit = Some (lease_id_of lease)
                  then circuit\<lparr>half_open_lease := None\<rparr> else circuit)
         in case observation of
              HealthSuccess \<Rightarrow> close_circuit c lease
            | CountableTransient provider_not_before_ms \<Rightarrow>
                count_failure c lease provider_not_before_ms now_ms
            | _ \<Rightarrow> abort_recovery c lease now_ms))"

definition update_circuit ::
  "rotation_engine \<Rightarrow> lease_runtime \<Rightarrow> health_observation \<Rightarrow> u64 \<Rightarrow>
   (circuit_snapshot \<times> bool) \<times> rotation_engine" where
  "update_circuit e lease observation now_ms =
     (let key = (lease_candidate_id lease, lease_route_key lease);
          circuit = unwrap_or (bget (circuits e) key) default_circuit
      in case circuit_transition_of circuit lease observation now_ms of
           (c, counted) \<Rightarrow>
             ((circuit_snapshot_of c, counted), e\<lparr>circuits := binsert key c (circuits e)\<rparr>))"

section \<open>Lemmas\<close>

lemma unat_pow2_min5: "unat (sat_of_nat (2 ^ unat (min s 5 :: u32)) :: u64) = 2 ^ unat (min s 5)"
proof -
  have "unat (min s 5) \<le> 5" by (simp add: min_def word_le_nat_alt)
  then have "(2::nat) ^ unat (min s 5) \<le> 2 ^ 5" by (intro power_increasing) auto
  then show ?thesis by (simp add: unat_sat_of_nat)
qed

lemma failure_backoff_value:
  "unat (failure_backoff_ms s) =
     (if unat s \<le> 1 then 250 else if unat s = 2 then 500
      else min (2000 * 2 ^ min (unat s - 3) 5) 60000)"
proof -
  have eq: "s = of_nat k \<longleftrightarrow> unat s = k" if "k < 2 ^ 32" for k
    using that by (auto simp: unat_of_nat take_bit_nat_eq_self word_unat_eq_iff)
  have "unat (min (sat_sub s 3) 5) = min (unat s - 3) 5"
    by (auto simp: min_def word_nat)
  then have p: "unat (sat_of_nat (2 ^ unat (min (sat_sub s 3) 5)) :: u64) = 2 ^ min (unat s - 3) 5"
    using unat_pow2_min5 [of "sat_sub s 3"] by simp
  have "(2::nat) ^ min (unat s - 3) 5 \<le> 2 ^ 5" by (intro power_increasing) auto
  then have m: "unat (sat_mul OPEN_BACKOFF_MS (sat_of_nat (2 ^ unat (min (sat_sub s 3) 5))))
      = 2000 * 2 ^ min (unat s - 3) 5"
    using p by (simp add: unat_sat_mul OPEN_BACKOFF_MS_def)
  have mm: "unat (min x y) = min (unat x) (unat y)" for x y :: u64
    by (simp add: min_def word_le_nat_alt)
  have "s = 0 \<or> s = 1 \<longleftrightarrow> unat s \<le> 1" "s = 2 \<longleftrightarrow> unat s = 2"
    using eq [of 0] eq [of 1] eq [of 2] by auto
  with m show ?thesis
    by (simp add: failure_backoff_ms_def mm MAX_OPEN_BACKOFF_MS_def FIRST_TRANSIENT_PACING_MS_def
        SECOND_TRANSIENT_PACING_MS_def)
qed

lemma score_step_value:
  assumes "s \<le> (1000 :: u32)"
  shows "unat (score_failure s) = (unat s * 750 + 250000) div 1000"
    and "unat (score_success s) = unat s * 750 div 1000"
proof -
  have s: "unat s \<le> 1000" using assms by (simp add: word_le_nat_alt)
  show "unat (score_failure s) = (unat s * 750 + 250000) div 1000"
    "unat (score_success s) = unat s * 750 div 1000"
    using s by (simp_all add: score_failure_def score_success_def HEALTH_EWMA_ALPHA_MILLI_def
        unat_div unat_sat_mul unat_sat_add min_def)
qed

lemma decay_score_le: "decay_score s n \<le> s"
proof (induction n)
  case (Suc n)
  have "decay_score s (Suc n) = decay_score s n div 2" by (simp add: decay_score_def)
  then have "decay_score s (Suc n) \<le> decay_score s n"
    by (simp add: word_le_nat_alt unat_div)
  with Suc show ?case by (meson order_trans)
qed (simp add: decay_score_def)

lemma card_pop_min: "finite A \<Longrightarrow> card A \<le> 65 \<Longrightarrow> 64 < card A \<Longrightarrow> card (A - {Min A}) \<le> (64::nat)"
  by (subst card_Diff_singleton) (auto intro: Min_in)

text \<open>The entry a failure starts from: a streak older than the failure window is forgotten.\<close>

definition window_reset :: "circuit_runtime \<Rightarrow> u64 \<Rightarrow> circuit_runtime" where
  "window_reset circuit now_ms =
     (if is_some_and (last_failure_at_ms circuit) (\<lambda>at. FAILURE_WINDOW_MS < sat_sub now_ms at)
      then circuit\<lparr>failure_streak := 0, counted_requests := {}\<rparr> else circuit)"

definition circuit_ok :: "circuit_runtime \<Rightarrow> bool" where
  "circuit_ok c = (card (counted_requests c) \<le> 64)"

lemma count_failure_new:
  assumes "lease_request_id lease \<notin> counted_requests (window_reset c now_ms)"
    and "count_failure c lease p now_ms = (c', counted)"
  shows "counted" and "failure_streak c' = sat_add (failure_streak (window_reset c now_ms)) 1"
    and "circuit_state_of c' =
      (if lease_recovery lease \<or> CIRCUIT_FAILURE_THRESHOLD \<le> failure_streak c' then Open else Degraded)"
    and "last_failure_at_ms c' = Some now_ms" and "incident c' = incident c"
    and "counted_requests c' \<subseteq> insert (lease_request_id lease) (counted_requests (window_reset c now_ms))"
    and "half_open_lease c' = half_open_lease c"
proof -
  let ?c0 = "window_reset c now_ms"
  have run: "count_failure c lease p now_ms = (c', counted)" by (rule assms(2))
  note run' = run [unfolded count_failure_def window_reset_def [symmetric] Let_def,
    unfolded if_not_P [OF assms(1)] prod.inject]
  note c' = run' [THEN conjunct1, symmetric]
  show "counted" using run' by simp
  show "failure_streak c' = sat_add (failure_streak ?c0) 1" "last_failure_at_ms c' = Some now_ms"
    unfolding c' by simp_all
  show "incident c' = incident c" "half_open_lease c' = half_open_lease c"
    unfolding c' by (simp_all add: window_reset_def)
  show "circuit_state_of c' =
      (if lease_recovery lease \<or> CIRCUIT_FAILURE_THRESHOLD \<le> failure_streak c' then Open else Degraded)"
    unfolding c' by simp
  show "counted_requests c' \<subseteq> insert (lease_request_id lease) (counted_requests ?c0)"
    unfolding c' by auto
qed

text \<open>What every failure does, counted or not: the stored requests stay bounded, a deadline only
  moves later and a circuit that is not closed stays so.\<close>

lemma count_failure_kept:
  assumes "count_failure c lease p now_ms = (c', counted)"
  shows "circuit_ok c \<Longrightarrow> circuit_ok c'"
    and "not_before_ms c = Some t \<Longrightarrow> \<exists>t' \<ge> t. not_before_ms c' = Some t'"
    and "circuit_state_of c \<noteq> Closed \<Longrightarrow> circuit_state_of c' \<noteq> Closed"
proof -
  let ?c0 = "window_reset c now_ms" and ?r = "lease_request_id lease"
  note run = assms [unfolded count_failure_def window_reset_def [symmetric] Let_def]
  have c0: "not_before_ms ?c0 = not_before_ms c" "circuit_state_of ?c0 = circuit_state_of c"
    "circuit_ok c \<Longrightarrow> circuit_ok ?c0"
    by (simp_all add: window_reset_def circuit_ok_def)
  have "(circuit_ok c \<longrightarrow> circuit_ok c') \<and>
      (\<forall>t. not_before_ms c = Some t \<longrightarrow> (\<exists>t' \<ge> t. not_before_ms c' = Some t')) \<and>
      (circuit_state_of c \<noteq> Closed \<longrightarrow> circuit_state_of c' \<noteq> Closed)"
  proof (cases "?r \<in> counted_requests ?c0")
    case True
    note c' = run [unfolded if_P [OF True] prod.inject, THEN conjunct1, symmetric]
    show ?thesis using c0 by (cases "lease_recovery lease") (simp_all add: c' circuit_ok_def)
  next
    case False
    note c' = run [unfolded if_not_P [OF False] prod.inject, THEN conjunct1, symmetric]
    have "circuit_ok c'" if ok: "circuit_ok c"
    proof -
      have small: "card (insert ?r (counted_requests ?c0)) \<le> 65"
        using c0(3) [OF ok] card_insert_le_m1 [of 65 "counted_requests ?c0" ?r]
        by (simp add: circuit_ok_def)
      show ?thesis
      proof (cases "64 < card (insert ?r (counted_requests ?c0))")
        case True
        then have "finite (insert ?r (counted_requests ?c0))"
          by (metis card.infinite not_less_zero)
        from card_pop_min [OF this small True] True show ?thesis by (simp add: c' circuit_ok_def)
      next
        case False
        then show ?thesis by (simp add: c' circuit_ok_def)
      qed
    qed
    moreover have "circuit_state_of c' \<noteq> Closed" by (simp add: c')
    moreover have "\<exists>t' \<ge> t. not_before_ms c' = Some t'" if "not_before_ms c = Some t" for t
      using that c0(1) by (simp add: c' le_max_iff_disj)
    ultimately show ?thesis by blast
  qed
  then show "circuit_ok c \<Longrightarrow> circuit_ok c'"
    "not_before_ms c = Some t \<Longrightarrow> \<exists>t' \<ge> t. not_before_ms c' = Some t'"
    "circuit_state_of c \<noteq> Closed \<Longrightarrow> circuit_state_of c' \<noteq> Closed" by blast+
qed

lemma abort_recovery_kept:
  assumes "abort_recovery c lease now_ms = (c', counted)"
  shows "circuit_ok c \<Longrightarrow> circuit_ok c'"
    and "not_before_ms c = Some t \<Longrightarrow> \<exists>t' \<ge> t. not_before_ms c' = Some t'"
    and "circuit_state_of c \<noteq> Closed \<Longrightarrow> circuit_state_of c' \<noteq> Closed"
  using assms by (auto simp: abort_recovery_def circuit_ok_def le_max_iff_disj split: if_splits)

lemma close_circuit_kept:
  assumes "close_circuit c lease = (c', counted)"
  shows "circuit_ok c \<Longrightarrow> circuit_ok c'"
    and "epoch c \<noteq> lease_circuit_epoch lease \<Longrightarrow>
      not_before_ms c' = not_before_ms c \<and> (circuit_state_of c \<noteq> Closed \<longrightarrow> circuit_state_of c' \<noteq> Closed)"
  using assms by (auto simp: close_circuit_def circuit_ok_def split: if_splits)

text \<open>The transition of the current incident: the trial of the lease ends, then the outcome acts.\<close>

lemma circuit_transition_cases:
  assumes "circuit_transition_of c lease ob now_ms = (c', counted)"
  obtains (stale) "incident c \<noteq> lease_circuit_incident lease" "c' = c" "\<not> counted"
  | (outcome) c1 where "incident c = lease_circuit_incident lease"
    "c1 = c \<or> c1 = c\<lparr>half_open_lease := None\<rparr>"
    "ob = HealthSuccess \<and> close_circuit c1 lease = (c', counted) \<or>
     (\<exists>p. ob = CountableTransient p \<and> count_failure c1 lease p now_ms = (c', counted)) \<or>
     ob \<noteq> HealthSuccess \<and> abort_recovery c1 lease now_ms = (c', counted)"
proof (cases "incident c \<noteq> lease_circuit_incident lease")
  case True
  have "c' = c" "\<not> counted"
    using assms [unfolded circuit_transition_of_def, unfolded if_P [OF True] prod.inject] by simp_all
  with True show ?thesis by (rule stale)
next
  case False
  obtain c1 where c1:
    "c1 = (if half_open_lease c = Some (lease_id_of lease) then c\<lparr>half_open_lease := None\<rparr> else c)"
    by blast
  note step = assms [unfolded circuit_transition_of_def Let_def, unfolded if_not_P [OF False],
    folded c1]
  show ?thesis
  proof (rule outcome [of c1])
    show "ob = HealthSuccess \<and> close_circuit c1 lease = (c', counted) \<or>
        (\<exists>p. ob = CountableTransient p \<and> count_failure c1 lease p now_ms = (c', counted)) \<or>
        ob \<noteq> HealthSuccess \<and> abort_recovery c1 lease now_ms = (c', counted)"
      using step by (cases ob) simp_all
    show "c1 = c \<or> c1 = c\<lparr>half_open_lease := None\<rparr>" using c1 by simp
    show "incident c = lease_circuit_incident lease" using False by simp
  qed
qed

lemma circuit_transition_ok:
  assumes "circuit_ok c" and "circuit_transition_of c lease ob now_ms = (c', counted)"
  shows "circuit_ok c'"
  using assms(2)
proof (cases rule: circuit_transition_cases)
  case stale
  then show ?thesis using assms(1) by simp
next
  case (outcome c1)
  then have "circuit_ok c1" using assms(1) by (auto simp: circuit_ok_def)
  then show ?thesis
    using outcome(3) close_circuit_kept(1) count_failure_kept(1) abort_recovery_kept(1) by blast
qed

section \<open>Properties\<close>

text \<open>the pacing after the n-th failure in a row is 250 ms, 500 ms, then two seconds doubling
  up to one minute: it is bounded, never decreases with the streak and never overflows.\<close>

theorem failure_backoff_bounded_monotone:
  "250 \<le> unat (failure_backoff_ms s) \<and> unat (failure_backoff_ms s) \<le> 60000 \<and>
   unat (failure_backoff_ms s) \<le> unat (failure_backoff_ms (sat_add s 1)) \<and>
   (8 \<le> unat s \<longrightarrow> unat (failure_backoff_ms s) = 60000)"
proof -
  have nxt: "unat (sat_add s 1) = min (unat s + 1) (2 ^ 32 - 1)" by (simp add: unat_sat_add)
  have mono: "(2::nat) ^ min a 5 \<le> 2 ^ min b 5" if "a \<le> b" for a b
    using that by (intro power_increasing) auto
  have ge: "(1::nat) \<le> 2 ^ min a 5" for a by simp
  have "unat s - 3 \<le> unat (sat_add s 1) - 3"
    using nxt unat_lt_bound [of s] by simp
  from mono [OF this]
  have step: "min (2000 * 2 ^ min (unat s - 3) 5) 60000
      \<le> min (2000 * (2::nat) ^ min (unat (sat_add s 1) - 3) 5) 60000"
    by linarith
  have low: "500 \<le> min (2000 * (2::nat) ^ min a 5) 60000" for a using ge [of a] by simp
  have top: "8 \<le> unat s \<longrightarrow> unat (failure_backoff_ms s) = 60000"
    by (auto simp: failure_backoff_value min_absorb2)
  have range: "250 \<le> unat (failure_backoff_ms x) \<and> unat (failure_backoff_ms x) \<le> 60000" for x
    using low by (auto simp: failure_backoff_value)
  have "unat (failure_backoff_ms s) \<le> unat (failure_backoff_ms (sat_add s 1))"
  proof -
    consider "unat s \<le> 1" | "unat s = 2" | "3 \<le> unat s" by linarith
    then show ?thesis
    proof cases
      case 1
      then show ?thesis using range [of "sat_add s 1"] by (simp add: failure_backoff_value)
    next
      case 2
      then show ?thesis using nxt by (simp add: failure_backoff_value)
    next
      case 3
      then have "3 \<le> unat (sat_add s 1)" using nxt by simp
      then have "unat (failure_backoff_ms (sat_add s 1))
          = min (2000 * 2 ^ min (unat (sat_add s 1) - 3) 5) 60000"
        by (simp add: failure_backoff_value)
      moreover have "unat (failure_backoff_ms s) = min (2000 * 2 ^ min (unat s - 3) 5) 60000"
        using 3 by (simp add: failure_backoff_value)
      ultimately show ?thesis using step by (simp only:)
    qed
  qed
  then show ?thesis using top range by simp
qed

theorem failure_backoff_bounded_monotone_witness:
  "unat (failure_backoff_ms 8) = 60000 \<and> unat (8 :: u32) = 8"
  using failure_backoff_bounded_monotone [of 8] by simp

text \<open>a cooldown is never shortened by an outcome that does not close the circuit: unless the
  outcome is a success of the current epoch of the current incident, an existing circuit deadline
  stays or moves later, and the circuit is not closed by it.\<close>

theorem circuit_deadline_never_shortened:
  assumes "circuit_transition_of c lease ob now_ms = (c', counted)"
    and "\<not> (ob = HealthSuccess \<and> epoch c = lease_circuit_epoch lease
             \<and> incident c = lease_circuit_incident lease)"
    and "not_before_ms c = Some t"
  shows "(\<exists>t' \<ge> t. not_before_ms c' = Some t') \<and>
    (circuit_state_of c \<noteq> Closed \<longrightarrow> circuit_state_of c' \<noteq> Closed)"
  using assms(1)
proof (cases rule: circuit_transition_cases)
  case stale
  then show ?thesis using assms(3) by auto
next
  case (outcome c1)
  then have c1: "not_before_ms c1 = Some t" "circuit_state_of c1 = circuit_state_of c"
    "epoch c1 = epoch c" using assms(3) by auto
  from outcome(3) show ?thesis
  proof (elim disjE exE conjE)
    assume "ob = HealthSuccess" "close_circuit c1 lease = (c', counted)"
    then show ?thesis using close_circuit_kept(2) c1 assms(2) outcome(1) by auto
  qed (use count_failure_kept(2,3) abort_recovery_kept(2,3) c1 in metis)+
qed

text \<open>an outcome of an attempt that began in an earlier incident (before a success closed the
  circuit) changes nothing of the circuit and is not counted, whatever it reports.\<close>

theorem stale_incident_ignored:
  assumes "bget (circuits e) (lease_candidate_id lease, lease_route_key lease) = Some c"
    and "incident c \<noteq> lease_circuit_incident lease"
  shows "update_circuit e lease ob now_ms = ((circuit_snapshot_of c, False), e)"
proof -
  have "binsert k c m = m" if "bget m k = Some c" for k and m :: "(route_id, circuit_runtime) bmap"
    using that by (rule btree.insert_lookup)
  with assms show ?thesis
    by (simp add: update_circuit_def circuit_transition_of_def Let_def)
qed

text \<open>The leases of the witnesses and of the failure sequence below.\<close>

definition sample_lease :: "request_id \<Rightarrow> lease_runtime" where
  "sample_lease r =
     \<lparr>lease_id_of = 1, lease_candidate_id = ''a'', lease_generation = 1, lease_request_id = r,
      lease_route_key = ''r'', lease_route = \<lparr>route_model = ''m'', route_operation = OpText\<rparr>,
      lease_capacity_key = ''a'', lease_recovery = False, recovery_credit_required = False,
      lease_attempt_id = Some 1, lease_circuit_epoch = 0, lease_circuit_incident = 0,
      lease_quota = QUnknown, lease_rate = RateReady, lease_route_rate = Some RateReady\<rparr>"

theorem circuit_deadline_never_shortened_witness:
  "\<exists>c'. fst (circuit_transition_of
      (default_circuit\<lparr>circuit_state_of := Degraded, not_before_ms := Some 900, epoch := 1\<rparr>)
      (sample_lease 3) HealthSuccess 100) = c' \<and> (\<exists>t' \<ge> 900. not_before_ms c' = Some t')"
proof -
  let ?c = "default_circuit\<lparr>circuit_state_of := Degraded, not_before_ms := Some 900, epoch := 1\<rparr>"
  obtain c' k where t: "circuit_transition_of ?c (sample_lease 3) HealthSuccess 100 = (c', k)"
    by fastforce
  have n: "\<not> (HealthSuccess = HealthSuccess \<and> epoch ?c = lease_circuit_epoch (sample_lease 3)
      \<and> incident ?c = lease_circuit_incident (sample_lease 3))"
    by (simp add: sample_lease_def default_circuit_def)
  have d: "not_before_ms ?c = Some 900" by (simp add: default_circuit_def)
  from circuit_deadline_never_shortened [OF t n d] t show ?thesis by simp
qed

theorem stale_incident_ignored_witness:
  "update_circuit
     (default_engine\<lparr>circuits := binsert (''a'', ''r'') (default_circuit\<lparr>incident := 2\<rparr>) bempty\<rparr>)
     (sample_lease 3) (CountableTransient None) 50 =
   ((circuit_snapshot_of (default_circuit\<lparr>incident := 2\<rparr>), False),
    default_engine\<lparr>circuits := binsert (''a'', ''r'') (default_circuit\<lparr>incident := 2\<rparr>) bempty\<rparr>)"
  by (rule stale_incident_ignored) (simp_all add: sample_lease_def default_circuit_def)

text \<open>A sequence of transient failures of ordinary attempts on one circuit.\<close>

fun fail_all :: "circuit_runtime \<Rightarrow> (lease_runtime \<times> u64) list \<Rightarrow> circuit_runtime" where
  "fail_all c [] = c"
| "fail_all c ((lease, now_ms) # rest) =
     fail_all (fst (circuit_transition_of c lease (CountableTransient None) now_ms)) rest"

lemma fail_all_snoc:
  "fail_all c (xs @ [(lease, now_ms)]) =
     fst (circuit_transition_of (fail_all c xs) lease (CountableTransient None) now_ms)"
  by (induction xs arbitrary: c) auto

lemma fail_all_streak:
  assumes "circuit_state_of c = Closed" "failure_streak c = 0" "counted_requests c = {}"
    "last_failure_at_ms c = None"
    and "distinct (map (lease_request_id \<circ> fst) xs)" "length xs < 2 ^ 32"
    and "\<forall>(lease, now_ms) \<in> set xs. \<not> lease_recovery lease
           \<and> lease_circuit_incident lease = incident c \<and> start \<le> now_ms \<and> now_ms \<le> start + span"
    and "span \<le> FAILURE_WINDOW_MS" "unat start + unat span < 2 ^ 64" "xs \<noteq> []"
  shows "unat (failure_streak (fail_all c xs)) = length xs \<and>
    incident (fail_all c xs) = incident c \<and>
    counted_requests (fail_all c xs) \<subseteq> (lease_request_id \<circ> fst) ` set xs \<and>
    (\<exists>at \<ge> start. last_failure_at_ms (fail_all c xs) = Some at) \<and>
    circuit_state_of (fail_all c xs) = (if length xs < 3 then Degraded else Open)"
  using assms(5-7,10)
proof (induction xs rule: rev_induct)
  case Nil
  then show ?case by simp
next
  case (snoc x xs)
  obtain lease now_ms where x: "x = (lease, now_ms)" by fastforce
  define d where "d = fail_all c xs"
  have d: "unat (failure_streak d) = length xs" "incident d = incident c"
    "counted_requests d \<subseteq> (lease_request_id \<circ> fst) ` set xs"
    "is_none_or (last_failure_at_ms d) (\<lambda>at. start \<le> at)"
    using snoc.IH snoc.prems assms(1-4) by (cases "xs = []"; auto simp: d_def)+
  have now: "start \<le> now_ms" "now_ms \<le> start + span" using snoc.prems x by auto
  have late: "\<not> is_some_and (last_failure_at_ms d) (\<lambda>at. FAILURE_WINDOW_MS < sat_sub now_ms at)"
  proof -
    have "sat_sub now_ms at \<le> FAILURE_WINDOW_MS" if "start \<le> at" for at
      using that now assms(8,9)
      by (simp add: word_nat FAILURE_WINDOW_MS_def unat_word_ariths)
    then show ?thesis using d(4) by (cases "last_failure_at_ms d") (auto simp: not_less)
  qed
  let ?e = "if half_open_lease d = Some (lease_id_of lease)
            then d\<lparr>half_open_lease := None\<rparr> else d"
  have e: "window_reset ?e now_ms = ?e" using late by (simp add: window_reset_def)
  obtain f k where f: "count_failure ?e lease None now_ms = (f, k)" by fastforce
  have step: "fail_all c (xs @ [x]) = f"
    using f d(2) snoc.prems x
    by (simp add: fail_all_snoc circuit_transition_of_def d_def [symmetric] Let_def)
  have new: "lease_request_id lease \<notin> counted_requests (window_reset ?e now_ms)"
    using d(3) snoc.prems x by (auto simp: e)
  note nf = count_failure_new [OF new f, unfolded e]
  have same: "failure_streak ?e = failure_streak d" "counted_requests ?e = counted_requests d"
    "incident ?e = incident d"
    by simp_all
  have streak: "unat (failure_streak f) = Suc (length xs)"
    using nf(2) d(1) snoc.prems(2) by (simp add: same unat_sat_add)
  have "counted_requests f \<subseteq> (lease_request_id \<circ> fst) ` set (xs @ [x])"
    using nf(6) d(3) x unfolding same by auto
  moreover have "circuit_state_of f = (if length (xs @ [x]) < 3 then Degraded else Open)"
    using nf(3) streak snoc.prems x by (simp add: CIRCUIT_FAILURE_THRESHOLD_def word_le_nat_alt)
  moreover have "incident f = incident c" using nf(5) d(2) unfolding same by simp
  ultimately show ?case
    unfolding step using streak nf(4) now by simp
qed

text \<open>the circuit opens at the third independent failure and not before: after transient
  failures of ordinary attempts of distinct requests within one failure window, a circuit that was
  closed has counted every one of them and is open exactly from the third on, degraded before.\<close>

theorem circuit_opens_at_third_failure:
  assumes "distinct (map (lease_request_id \<circ> fst) xs)" and "xs \<noteq> []" and "length xs < 2 ^ 32"
    and "\<forall>(lease, now_ms) \<in> set xs. \<not> lease_recovery lease
           \<and> lease_circuit_incident lease = 0 \<and> start \<le> now_ms \<and> now_ms \<le> start + span"
    and "span \<le> FAILURE_WINDOW_MS" and "unat start + unat span < 2 ^ 64"
  shows "unat (failure_streak (fail_all default_circuit xs)) = length xs \<and>
    circuit_state_of (fail_all default_circuit xs) = (if length xs < 3 then Degraded else Open)"
  using fail_all_streak [of default_circuit xs start span] assms
  by (simp add: default_circuit_def)

theorem circuit_opens_at_third_failure_witness:
  "circuit_state_of (fail_all default_circuit
     [(sample_lease 1, 100), (sample_lease 2, 150), (sample_lease 3, 200)]) = Open \<and>
   circuit_state_of (fail_all default_circuit
     [(sample_lease 1, 100), (sample_lease 2, 150)]) = Degraded"
  using circuit_opens_at_third_failure
      [of "[(sample_lease 1, 100), (sample_lease 2, 150), (sample_lease 3, 200)]" 100 1000]
    circuit_opens_at_third_failure [of "[(sample_lease 1, 100), (sample_lease 2, 150)]" 100 1000]
  by (simp add: sample_lease_def FAILURE_WINDOW_MS_def word_le_nat_alt)

text \<open>every outcome keeps the failure score of every candidate and route within 0 and 1000
  thousandths; a failure never lowers a decayed score and a success never raises it.\<close>

theorem failure_scores_bounded:
  assumes "\<forall>key h. bget (health e) key = Some h \<longrightarrow> failure_score_milli h \<le> 1000"
  shows "(\<forall>key h. bget (health (observe_health e candidate_id route_key ob now_ms)) key = Some h \<longrightarrow>
      failure_score_milli h \<le> 1000) \<and>
    (\<forall>s \<le> 1000. s \<le> score_failure s \<and> score_success s \<le> s)"
proof -
  have bounds: "s \<le> score_failure s \<and> score_failure s \<le> 1000 \<and> score_success s \<le> s"
    if "s \<le> 1000" for s
    using that score_step_value [OF that] by (simp add: word_le_nat_alt) linarith
  have "failure_score_milli (health_entry e key) \<le> 1000" for key
    using assms
    by (cases key; cases "bget (health e) key") (auto simp: health_entry_def default_health_def)
  then have d: "decay_score (failure_score_milli (health_entry e key)) n \<le> 1000" for key n
    using decay_score_le order_trans by blast
  have "score_success (decay_score (failure_score_milli (health_entry e key)) n) \<le> 1000"
    "score_failure (decay_score (failure_score_milli (health_entry e key)) n) \<le> 1000" for key n
    using bounds [OF d] d by (meson order_trans)+
  then show ?thesis
    using assms bounds
    by (auto simp: observe_health_def Let_def split: health_observation.split if_splits)
qed

theorem failure_scores_bounded_witness:
  "\<exists>h. bget (health (observe_health default_engine ''a'' ''r'' (CountableTransient None) 5))
     (''a'', ''r'') = Some h \<and> failure_score_milli h \<le> 1000"
proof -
  have "\<forall>key h. bget (health default_engine) key = Some h \<longrightarrow> failure_score_milli h \<le> 1000"
    by (simp add: default_engine_def)
  note kept = failure_scores_bounded [OF this, of "''a''" "''r''" "CountableTransient None" 5]
  obtain h where "bget (health (observe_health default_engine ''a'' ''r'' (CountableTransient None) 5))
      (''a'', ''r'') = Some h"
    by (simp add: observe_health_def Let_def)
  with kept show ?thesis by blast
qed

end
