(* ===== verification/Availability.thy ===== *)
theory Availability
  imports Health
begin

text \<open>
  Whether a candidate may take a request now (\<open>scheduler/rotation/engine/admission.rs\<close>): the
  gates of one candidate in the order of the code, the deadlines it waits for and the wake-up of a
  waiting request.  \<open>mutable_availability\<close> is split at the points where the code collects its
  \<open>earliest_wait\<close>: \<open>quota_gate\<close>, \<open>rate_waits\<close> and \<open>circuit_wait\<close>; the capacity and circuit gates
  that follow are \<open>capacity_gate\<close> and \<open>circuit_gate\<close>.
\<close>

section \<open>Deadlines\<close>

type_synonym wait = "(u64 \<times> block_reason) option"

definition auth_gate :: "auth_state \<Rightarrow> block_reason + unit" where
  "auth_gate a =
     (case a of AuthReady \<Rightarrow> Inr ()
      | AuthNeedsRefresh \<Rightarrow> Inl AuthRequired
      | AuthStateBlocked \<Rightarrow> Inl AuthBlocked)"

definition quota_gate :: "rotation_candidate \<Rightarrow> u64 \<Rightarrow> u64 \<Rightarrow> block_reason + wait" where
  "quota_gate c now_ms stale_after_ms =
     (let reset = (\<lambda>at. if is_some_and at (\<lambda>t. now_ms < t)
                        then Inr (Some (the at, QuotaExhausted)) else Inl QuotaExhausted)
      in case quota c of
           QCreditFallback reset_at_ms \<Rightarrow>
             if observation_is_fresh (provider_credits_observed_at_ms c) now_ms stale_after_ms
             then Inr None else reset reset_at_ms
         | QExhausted reset_at_ms \<Rightarrow> reset reset_at_ms
         | _ \<Rightarrow> Inr None)"

definition rate_wait :: "u64 \<Rightarrow> rate_state \<Rightarrow> wait \<Rightarrow> wait" where
  "rate_wait now_ms r earliest_wait =
     (case r of
        RateReady \<Rightarrow> earliest_wait
      | Limited at \<Rightarrow>
          if now_ms < at \<and> is_none_or earliest_wait (\<lambda>(t, _). t < at)
          then Some (at, RateLimited) else earliest_wait)"

definition rate_waits :: "rotation_candidate \<Rightarrow> string \<Rightarrow> u64 \<Rightarrow> wait \<Rightarrow> wait" where
  "rate_waits c route_key now_ms earliest_wait =
     fold (rate_wait now_ms) [rate c, unwrap_or (bget (route_rates c) route_key) (rate c)]
       earliest_wait"

definition circuit_wait :: "circuit_runtime \<Rightarrow> u64 \<Rightarrow> wait \<Rightarrow> wait" where
  "circuit_wait circuit now_ms earliest_wait =
     (case opt_filter (\<lambda>at. now_ms < at) (not_before_ms circuit) of
        None \<Rightarrow> earliest_wait
      | Some at \<Rightarrow>
          if is_none_or earliest_wait (\<lambda>(t, _). t < at) then Some (at, CircuitOpen)
          else earliest_wait)"

section \<open>Capacity and circuit\<close>

definition capacity_limit_of :: "rotation_engine \<Rightarrow> string \<Rightarrow> u32" where
  "capacity_limit_of e key = unwrap_or (bget (capacity_limits e) key) 0"

definition capacity_full :: "rotation_engine \<Rightarrow> string \<Rightarrow> bool" where
  "capacity_full e key =
     (unat (max_in_flight e) \<le> bsize (leases e) \<or>
      (0 < capacity_limit_of e key \<and> capacity_limit_of e key \<le> capacity_in_flight e key))"

definition concurrency_full :: "candidate_runtime \<Rightarrow> bool" where
  "concurrency_full runtime =
     (0 < max_concurrency (candidate runtime) \<and>
      max_concurrency (candidate runtime) \<le> in_flight runtime)"

definition circuit_gate :: "circuit_runtime \<Rightarrow> candidate_runtime \<Rightarrow> candidate_availability" where
  "circuit_gate circuit runtime =
     (case circuit_state_of circuit of
        Closed \<Rightarrow> if concurrency_full runtime then AvBusy CapacityBusy else AvReady False
      | HalfOpen \<Rightarrow> AvBusy RecoveryBusy
      | _ \<Rightarrow>
          if half_open_lease circuit \<noteq> None then AvBusy RecoveryBusy
          else if 0 < in_flight runtime \<and> concurrency_full runtime then AvBusy CapacityBusy
          else AvReady True)"

definition circuit_entry :: "rotation_engine \<Rightarrow> string \<Rightarrow> string \<Rightarrow> circuit_runtime" where
  "circuit_entry e candidate_id route_key =
     unwrap_or (bget (circuits e) (candidate_id, route_key)) default_circuit"

definition mutable_availability ::
  "rotation_engine \<Rightarrow> candidate_runtime \<Rightarrow> string \<Rightarrow> u64 \<Rightarrow> candidate_availability" where
  "mutable_availability e runtime route_key now_ms =
     (let c = candidate runtime; circuit = circuit_entry e (rc_id c) route_key in
      case auth_gate (auth c) of Inl reason \<Rightarrow> AvBlocked reason | Inr _ \<Rightarrow>
      (case quota_gate c now_ms (quota_stale_after_ms e) of Inl reason \<Rightarrow> AvBlocked reason
       | Inr quota_wait \<Rightarrow>
         (case circuit_wait circuit now_ms (rate_waits c route_key now_ms quota_wait) of
            Some (at, reason) \<Rightarrow> AvWaitUntil at reason
          | None \<Rightarrow>
              if capacity_full e (capacity_key c) then AvBusy CapacityBusy
              else circuit_gate circuit runtime)))"

definition candidate_availability ::
  "rotation_engine \<Rightarrow> rotation_request \<Rightarrow> string \<Rightarrow> u64 \<Rightarrow> candidate_availability" where
  "candidate_availability e request candidate_id now_ms =
     (if candidate_id \<in> tried request then AvBlocked AlreadyTried
      else if is_some_and (allowed_candidates request) (\<lambda>allowed. candidate_id \<notin> allowed) then
        AvBlocked NotAllowed
      else if is_some_and (req_owner request) (\<lambda>owner. owner \<noteq> candidate_id) then
        AvBlocked OwnerMismatch
      else (case bget (candidates e) candidate_id of
          None \<Rightarrow> AvBlocked Disabled
        | Some runtime \<Rightarrow>
            (case supports (candidate runtime) request of
               Inl reason \<Rightarrow> AvBlocked reason
             | Inr _ \<Rightarrow> mutable_availability e runtime (req_route_key request) now_ms)))"

definition next_wakeup :: "rotation_engine \<Rightarrow> rotation_request \<Rightarrow> u64 \<Rightarrow> u64 option" where
  "next_wakeup e request now_ms =
     list_min (List.map_filter
       (\<lambda>candidate_id. case candidate_availability e request candidate_id now_ms of
          AvWaitUntil at _ \<Rightarrow> Some at | _ \<Rightarrow> None) (bkeys (candidates e)))"

section \<open>The abstract admission rule\<close>

text \<open>
  What the gates promise, stated without their order: the deadlines of a candidate that lie in the
  future, and the candidate that may take the request.
\<close>

definition quota_deadline :: "rotation_candidate \<Rightarrow> u64 \<Rightarrow> u64 \<Rightarrow> u64 set" where
  "quota_deadline c now_ms stale_after_ms =
     {t. now_ms < t \<and>
        (quota c = QExhausted (Some t) \<or>
         (quota c = QCreditFallback (Some t) \<and>
          \<not> observation_is_fresh (provider_credits_observed_at_ms c) now_ms stale_after_ms))}"

definition rate_deadlines :: "rotation_candidate \<Rightarrow> string \<Rightarrow> u64 \<Rightarrow> u64 set" where
  "rate_deadlines c route_key now_ms =
     {t. now_ms < t \<and> (rate c = Limited t \<or> bget (route_rates c) route_key = Some (Limited t))}"

definition deadlines :: "rotation_engine \<Rightarrow> rotation_candidate \<Rightarrow> string \<Rightarrow> u64 \<Rightarrow> u64 set" where
  "deadlines e c route_key now_ms =
     quota_deadline c now_ms (quota_stale_after_ms e) \<union> rate_deadlines c route_key now_ms \<union>
     {t. now_ms < t \<and> not_before_ms (circuit_entry e (rc_id c) route_key) = Some t}"

definition quota_open :: "rotation_engine \<Rightarrow> rotation_candidate \<Rightarrow> u64 \<Rightarrow> bool" where
  "quota_open e c now_ms =
     (case quota c of
        QExhausted _ \<Rightarrow> False
      | QCreditFallback _ \<Rightarrow>
          observation_is_fresh (provider_credits_observed_at_ms c) now_ms (quota_stale_after_ms e)
      | _ \<Rightarrow> True)"

definition request_scope :: "rotation_request \<Rightarrow> string \<Rightarrow> bool" where
  "request_scope request candidate_id =
     (candidate_id \<notin> tried request \<and>
      is_none_or (allowed_candidates request) (\<lambda>allowed. candidate_id \<in> allowed) \<and>
      is_none_or (req_owner request) (\<lambda>owner. owner = candidate_id))"

definition admissible ::
  "rotation_engine \<Rightarrow> candidate_runtime \<Rightarrow> string \<Rightarrow> u64 \<Rightarrow> bool \<Rightarrow> bool" where
  "admissible e runtime route_key now_ms recovering =
     (let c = candidate runtime; circuit = circuit_entry e (rc_id c) route_key in
      auth c = AuthReady \<and> quota_open e c now_ms \<and> deadlines e c route_key now_ms = {} \<and>
      \<not> capacity_full e (capacity_key c) \<and>
      (if recovering
       then circuit_state_of circuit \<in> {Degraded, Open} \<and> half_open_lease circuit = None \<and>
         (0 < in_flight runtime \<longrightarrow> \<not> concurrency_full runtime)
       else circuit_state_of circuit = Closed \<and> \<not> concurrency_full runtime))"

section \<open>Lemmas\<close>

text \<open>A wait that stands for a set of deadlines: the latest of them, none when there is none.\<close>

definition wait_for :: "u64 set \<Rightarrow> wait \<Rightarrow> bool" where
  "wait_for D w = (case w of None \<Rightarrow> D = {} | Some (t, _) \<Rightarrow> t \<in> D \<and> (\<forall>d \<in> D. d \<le> t))"

lemma wait_for_None [simp]: "wait_for D None \<longleftrightarrow> D = {}"
  by (simp add: wait_for_def)

lemma wait_for_Some [simp]: "wait_for D (Some (t, r)) \<longleftrightarrow> t \<in> D \<and> (\<forall>d \<in> D. d \<le> t)"
  by (simp add: wait_for_def)

lemma quota_gate_waits:
  "quota_gate c now_ms stale = Inr w \<Longrightarrow> wait_for (quota_deadline c now_ms stale) w"
  by (cases "quota c")
    (auto simp: quota_gate_def quota_deadline_def is_some_and_iff Let_def split: if_splits)

lemma quota_gate_open:
  "quota_gate c now_ms (quota_stale_after_ms e) = Inr None \<longleftrightarrow>
   quota_open e c now_ms \<and> quota_deadline c now_ms (quota_stale_after_ms e) = {}"
  by (cases "quota c")
    (auto simp: quota_gate_def quota_deadline_def quota_open_def Let_def split: if_splits)

lemma wait_for_later:
  assumes "wait_for D w"
  shows "wait_for (insert t D) (if is_none_or w (\<lambda>(u, _). u < t) then Some (t, reason) else w)"
proof (cases w)
  case None
  then show ?thesis using assms by simp
next
  case (Some p)
  obtain a r where p: "p = (a, r)" by fastforce
  have a: "a \<in> D" "\<And>d. d \<in> D \<Longrightarrow> d \<le> a" using assms Some p by auto
  show ?thesis
  proof (cases "a < t")
    case True
    have "d \<le> t" if "d \<in> D" for d using a(2) [OF that] True by simp
    then show ?thesis using True Some p by simp
  next
    case False
    then show ?thesis using a Some p by simp
  qed
qed

lemma rate_wait_waits:
  assumes "wait_for D w"
  shows "wait_for (D \<union> {t. now_ms < t \<and> r = Limited t}) (rate_wait now_ms r w)"
proof (cases r)
  case RateReady
  then show ?thesis using assms by (simp add: rate_wait_def)
next
  case (Limited at)
  then have "{t. now_ms < t \<and> r = Limited t} = (if now_ms < at then {at} else {})" by auto
  then show ?thesis
    using Limited assms wait_for_later [OF assms, of at RateLimited]
    by (simp add: rate_wait_def split: if_splits)
qed

lemma rate_waits_waits:
  assumes "wait_for D w"
  shows "wait_for (D \<union> rate_deadlines c route_key now_ms) (rate_waits c route_key now_ms w)"
proof -
  let ?r = "unwrap_or (bget (route_rates c) route_key) (rate c)"
  have "D \<union> rate_deadlines c route_key now_ms =
      D \<union> {t. now_ms < t \<and> rate c = Limited t} \<union> {t. now_ms < t \<and> ?r = Limited t}"
    by (cases "bget (route_rates c) route_key") (auto simp: rate_deadlines_def)
  then show ?thesis
    using rate_wait_waits [OF rate_wait_waits [OF assms, of now_ms "rate c"], of now_ms ?r]
    by (simp add: rate_waits_def)
qed

lemma circuit_wait_waits:
  assumes "wait_for D w"
  shows "wait_for (D \<union> {t. now_ms < t \<and> not_before_ms c = Some t}) (circuit_wait c now_ms w)"
proof (cases "not_before_ms c")
  case None
  then show ?thesis using assms by (simp add: circuit_wait_def)
next
  case (Some at)
  then have "{t. now_ms < t \<and> not_before_ms c = Some t} = (if now_ms < at then {at} else {})"
    by auto
  then show ?thesis
    using Some assms wait_for_later [OF assms, of at CircuitOpen]
    by (simp add: circuit_wait_def split: if_splits)
qed

lemma all_waits:
  assumes "quota_gate c now_ms (quota_stale_after_ms e) = Inr w"
  shows "wait_for (deadlines e c route_key now_ms)
    (circuit_wait (circuit_entry e (rc_id c) route_key) now_ms (rate_waits c route_key now_ms w))"
  unfolding deadlines_def
  by (intro circuit_wait_waits rate_waits_waits quota_gate_waits assms)

lemma circuit_gate_ready:
  "circuit_gate circuit runtime = AvReady b \<longleftrightarrow>
   (if b then circuit_state_of circuit \<in> {Degraded, Open} \<and> half_open_lease circuit = None \<and>
      (0 < in_flight runtime \<longrightarrow> \<not> concurrency_full runtime)
    else circuit_state_of circuit = Closed \<and> \<not> concurrency_full runtime)"
  by (auto simp: circuit_gate_def split: circuit_state.split)

lemma circuit_gate_no_wait: "circuit_gate circuit runtime \<noteq> AvWaitUntil at reason"
  by (simp add: circuit_gate_def split: circuit_state.split)

lemma quota_gate_no_deadline:
  assumes "quota_gate c now_ms (quota_stale_after_ms e) = Inr w"
    and "quota_deadline c now_ms (quota_stale_after_ms e) = {}"
  shows "w = None"
  using quota_gate_waits [OF assms(1)] assms(2) by (cases w) auto

lemma mutable_ready:
  "mutable_availability e runtime route_key now_ms = AvReady b \<longleftrightarrow>
   admissible e runtime route_key now_ms b"
proof -
  let ?c = "candidate runtime" and ?circuit = "circuit_entry e (rc_id (candidate runtime)) route_key"
  show ?thesis
  proof (cases "quota_gate ?c now_ms (quota_stale_after_ms e)")
    case (Inl r)
    then have "\<not> (quota_open e ?c now_ms \<and> quota_deadline ?c now_ms (quota_stale_after_ms e) = {})"
      using quota_gate_open by (metis Inl_Inr_False)
    then have "\<not> admissible e runtime route_key now_ms b"
      by (auto simp: admissible_def deadlines_def Let_def)
    with Inl show ?thesis
      by (simp add: mutable_availability_def Let_def split: sum.split)
  next
    case (Inr w)
    let ?w = "circuit_wait ?circuit now_ms (rate_waits ?c route_key now_ms w)"
    have spec: "wait_for (deadlines e ?c route_key now_ms) ?w" by (rule all_waits [OF Inr])
    have none: "?w = None \<longleftrightarrow> deadlines e ?c route_key now_ms = {}"
      using spec by (cases ?w) auto
    have qopen: "quota_open e ?c now_ms" if "deadlines e ?c route_key now_ms = {}"
      using quota_gate_open [of ?c now_ms e] quota_gate_no_deadline [OF Inr] Inr that
      by (simp add: deadlines_def)
    show ?thesis
    proof (cases ?w)
      case None
      then show ?thesis
        using none qopen Inr
        by (cases "auth ?c") (auto simp: mutable_availability_def admissible_def auth_gate_def
            circuit_gate_ready Let_def)
    next
      case (Some p)
      then show ?thesis
        using none Inr by (cases p; cases "auth ?c")
          (simp_all add: mutable_availability_def admissible_def auth_gate_def Let_def)
    qed
  qed
qed

lemma mutable_waits:
  assumes "mutable_availability e runtime route_key now_ms = AvWaitUntil at reason"
  shows "at \<in> deadlines e (candidate runtime) route_key now_ms"
    and "\<forall>d \<in> deadlines e (candidate runtime) route_key now_ms. d \<le> at"
    and "auth (candidate runtime) = AuthReady"
proof -
  let ?c = "candidate runtime"
  obtain w where w: "quota_gate ?c now_ms (quota_stale_after_ms e) = Inr w"
    using assms by (simp add: mutable_availability_def Let_def split: sum.splits)
  from assms w have
    c: "circuit_wait (circuit_entry e (rc_id ?c) route_key) now_ms (rate_waits ?c route_key now_ms w)
        = Some (at, reason)" and a: "auth_gate (auth ?c) = Inr ()"
    by (auto simp: mutable_availability_def circuit_gate_no_wait Let_def
        split: sum.splits option.splits if_splits)
  from all_waits [OF w] c show "at \<in> deadlines e ?c route_key now_ms"
    and "\<forall>d \<in> deadlines e ?c route_key now_ms. d \<le> at"
    by (metis wait_for_Some)+
  from a show "auth ?c = AuthReady" by (cases "auth ?c") (simp_all add: auth_gate_def)
qed

lemma deadline_later: "d \<in> deadlines e c route_key now_ms \<Longrightarrow> now_ms < d"
  by (auto simp: deadlines_def quota_deadline_def rate_deadlines_def)

lemma stale_stays_stale:
  assumes "\<not> observation_is_fresh observed now_ms stale" and "now_ms \<le> t"
    and "is_none_or observed (\<lambda>at. at \<le> now_ms)"
  shows "\<not> observation_is_fresh observed t stale"
proof
  assume "observation_is_fresh observed t stale"
  then obtain at where at: "observed = Some at" "at \<le> t" "t - at \<le> stale"
    by (auto simp: observation_is_fresh_iff)
  then have "at \<le> now_ms" using assms(3) by simp
  moreover from this have "now_ms - at \<le> t - at"
    using assms(2) by (simp add: word_le_nat_alt unat_sub)
  ultimately have "observation_is_fresh observed now_ms stale"
    using at order_trans by (auto simp: observation_is_fresh_iff)
  with assms(1) show False by simp
qed

lemma deadline_persists:
  assumes "d \<in> deadlines e c route_key now_ms" and "now_ms \<le> t" and "t < d"
    and "is_none_or (provider_credits_observed_at_ms c) (\<lambda>at. at \<le> now_ms)"
  shows "d \<in> deadlines e c route_key t"
  using assms stale_stays_stale [OF _ assms(2,4)]
  by (auto simp: deadlines_def quota_deadline_def rate_deadlines_def)

lemma candidate_availability_scope:
  "request_scope request cid \<Longrightarrow> candidate_availability e request cid now_ms =
     (case bget (candidates e) cid of
        None \<Rightarrow> AvBlocked Disabled
      | Some runtime \<Rightarrow>
          (case supports (candidate runtime) request of
             Inl reason \<Rightarrow> AvBlocked reason
           | Inr _ \<Rightarrow> mutable_availability e runtime (req_route_key request) now_ms))"
  by (auto simp: candidate_availability_def request_scope_def is_some_and_iff is_none_or_iff)

lemma candidate_availability_out_of_scope:
  "\<not> request_scope request cid \<Longrightarrow>
   \<exists>reason. candidate_availability e request cid now_ms = AvBlocked reason"
  by (auto simp: candidate_availability_def request_scope_def is_some_and_iff is_none_or_iff)

lemma candidate_availability_cases:
  assumes "\<And>reason. av \<noteq> AvBlocked reason"
  shows "candidate_availability e request cid now_ms = av \<longleftrightarrow>
    (\<exists>runtime. bget (candidates e) cid = Some runtime \<and> request_scope request cid \<and>
       supports (candidate runtime) request = Inr () \<and>
       mutable_availability e runtime (req_route_key request) now_ms = av)"
proof (cases "request_scope request cid")
  case True
  show ?thesis
    unfolding candidate_availability_scope [OF True] using True assms
    by (auto split: option.splits sum.splits)
next
  case False
  with candidate_availability_out_of_scope [OF False, of e now_ms] assms show ?thesis by auto
qed

lemma candidate_ready_iff:
  "candidate_availability e request cid now_ms = AvReady b \<longleftrightarrow>
    (\<exists>runtime. bget (candidates e) cid = Some runtime \<and> request_scope request cid \<and>
       supports (candidate runtime) request = Inr () \<and>
       admissible e runtime (req_route_key request) now_ms b)"
  by (simp add: candidate_availability_cases mutable_ready)

lemma candidate_wait_iff:
  "candidate_availability e request cid now_ms = AvWaitUntil at r \<longleftrightarrow>
    (\<exists>runtime. bget (candidates e) cid = Some runtime \<and> request_scope request cid \<and>
       supports (candidate runtime) request = Inr () \<and>
       mutable_availability e runtime (req_route_key request) now_ms = AvWaitUntil at r)"
  by (simp add: candidate_availability_cases)

lemma map_filter_set: "b \<in> set (List.map_filter f xs) \<longleftrightarrow> (\<exists>a \<in> set xs. f a = Some b)"
  by (induction xs) (auto split: option.splits)

section \<open>Properties\<close>

text \<open>C15: a registered candidate is ready exactly when the request admits it (not tried, allowed,
  the owner if there is one), it supports the route, model and operation, it is authorised, its
  quota is open, no deadline of quota, rate or circuit lies ahead, its physical capacity and the
  runtime have room, and its circuit is closed (an ordinary attempt) or due for a single trial.\<close>

theorem ready_iff_admissible:
  assumes "bget (candidates e) cid = Some runtime"
  shows "candidate_availability e request cid now_ms = AvReady b \<longleftrightarrow>
    request_scope request cid \<and> supports (candidate runtime) request = Inr () \<and>
    admissible e runtime (req_route_key request) now_ms b"
  using assms by (auto simp: candidate_ready_iff)

text \<open>a candidate that is told to wait is authorised and waits for the latest of its future
  deadlines, and sleeping is safe: at no earlier time does it become ready while the state of the
  engine is the same (its credit observation not being dated in the future).\<close>

theorem wait_until_latest_deadline:
  assumes "bget (candidates e) cid = Some runtime"
    and "candidate_availability e request cid now_ms = AvWaitUntil at reason"
    and "is_none_or (provider_credits_observed_at_ms (candidate runtime)) (\<lambda>o_ms. o_ms \<le> now_ms)"
  shows "now_ms < at \<and>
    at \<in> deadlines e (candidate runtime) (req_route_key request) now_ms \<and>
    (\<forall>d \<in> deadlines e (candidate runtime) (req_route_key request) now_ms. d \<le> at) \<and>
    (\<forall>t b. now_ms \<le> t \<and> t < at \<longrightarrow>
       candidate_availability e request cid t \<noteq> AvReady b)"
proof -
  from assms(1,2) have m:
    "mutable_availability e runtime (req_route_key request) now_ms = AvWaitUntil at reason"
    by (simp add: candidate_wait_iff)
  note w = mutable_waits [OF m]
  have "candidate_availability e request cid t \<noteq> AvReady b" if "now_ms \<le> t" "t < at" for t b
    using deadline_persists [OF w(1) that assms(3)] assms(1)
    by (auto simp: candidate_ready_iff admissible_def Let_def)
  then show ?thesis using w deadline_later by blast
qed

text \<open>the wake-up time of a request is the earliest time some candidate waits for, and there is
  none exactly when no registered candidate waits for a deadline.\<close>

theorem next_wakeup_earliest_wait:
  "(case next_wakeup e request now_ms of
      None \<Rightarrow> \<not> (\<exists>cid at r. candidate_availability e request cid now_ms = AvWaitUntil at r)
    | Some w \<Rightarrow>
        now_ms < w \<and> (\<exists>cid r. candidate_availability e request cid now_ms = AvWaitUntil w r) \<and>
        (\<forall>cid at r. candidate_availability e request cid now_ms = AvWaitUntil at r \<longrightarrow> w \<le> at))"
proof -
  let ?f = "\<lambda>cid. case candidate_availability e request cid now_ms of
          AvWaitUntil at _ \<Rightarrow> Some at | _ \<Rightarrow> None"
  let ?ws = "List.map_filter ?f (bkeys (candidates e))"
  have f: "?f cid = Some at \<longleftrightarrow>
      (\<exists>r. candidate_availability e request cid now_ms = AvWaitUntil at r)" for cid at
    by (auto split: candidate_availability.splits)
  have known: "cid \<in> set (bkeys (candidates e))"
    if "candidate_availability e request cid now_ms = AvWaitUntil at r" for cid at r
    using that by (auto simp: candidate_wait_iff in_bkeys)
  have ws: "at \<in> set ?ws \<longleftrightarrow>
      (\<exists>cid r. candidate_availability e request cid now_ms = AvWaitUntil at r)" for at
    using known f by (auto simp: map_filter_set)
  have later: "now_ms < at" if wait: "candidate_availability e request cid now_ms = AvWaitUntil at r"
    for cid at r
    using wait mutable_waits(1) deadline_later by (fastforce simp: candidate_wait_iff)
  show ?thesis
  proof (cases "next_wakeup e request now_ms")
    case None
    then have "?ws = []" by (simp add: next_wakeup_def)
    with None ws show ?thesis by simp
  next
    case (Some w)
    then have "w \<in> set ?ws \<and> (\<forall>x \<in> set ?ws. w \<le> x)"
      by (auto simp: next_wakeup_def dest: list_min_Some)
    with Some ws later show ?thesis by simp blast
  qed
qed

text \<open>An engine with one candidate that is limited until a given time.\<close>

definition sample_engine :: "rate_state \<Rightarrow> rotation_engine" where
  "sample_engine r =
     default_engine\<lparr>candidates :=
       binsert ''a'' \<lparr>candidate = (new_candidate ''a'' ''r'' ''m'')\<lparr>rate := r\<rparr>, in_flight = 0\<rparr> bempty\<rparr>"

lemmas sample_engine_eval = sample_engine_def new_candidate_def new_request_def default_engine_def
  request_scope_def supports_def admissible_def quota_open_def deadlines_def quota_deadline_def
  rate_deadlines_def capacity_full_def capacity_limit_of_def concurrency_full_def
  circuit_entry_def default_circuit_def

theorem ready_iff_admissible_witness:
  "candidate_availability (sample_engine RateReady) (new_request 1 ''r'' ''m'') ''a'' 5 = AvReady False"
proof -
  have "bget (candidates (sample_engine RateReady)) ''a'' =
      Some \<lparr>candidate = (new_candidate ''a'' ''r'' ''m'')\<lparr>rate := RateReady\<rparr>, in_flight = 0\<rparr>"
    by (simp add: sample_engine_def)
  from ready_iff_admissible [OF this, of "new_request 1 ''r'' ''m''" 5 False] show ?thesis
    by (simp add: sample_engine_eval)
qed

theorem wait_until_latest_deadline_witness:
  "candidate_availability (sample_engine (Limited 90)) (new_request 1 ''r'' ''m'') ''a'' 5 =
     AvWaitUntil 90 RateLimited \<and>
   candidate_availability (sample_engine (Limited 90)) (new_request 1 ''r'' ''m'') ''a'' 89 \<noteq>
     AvReady False"
proof -
  have c: "bget (candidates (sample_engine (Limited 90))) ''a'' =
      Some \<lparr>candidate = (new_candidate ''a'' ''r'' ''m'')\<lparr>rate := Limited 90\<rparr>, in_flight = 0\<rparr>"
    by (simp add: sample_engine_def)
  have a: "candidate_availability (sample_engine (Limited 90)) (new_request 1 ''r'' ''m'') ''a'' 5 =
      AvWaitUntil 90 RateLimited"
    by (simp add: sample_engine_eval candidate_availability_def mutable_availability_def
        auth_gate_def quota_gate_def rate_waits_def rate_wait_def circuit_wait_def)
  from wait_until_latest_deadline [OF c a] have
    "now = (89 :: u64) \<Longrightarrow> candidate_availability (sample_engine (Limited 90))
       (new_request 1 ''r'' ''m'') ''a'' now \<noteq> AvReady False" for now
    by (simp add: sample_engine_eval)
  with a show ?thesis by blast
qed

end
