(* ===== verification/Selection.thy ===== *)
theory Selection
  imports Availability
begin

text \<open>
  The selection of a candidate among the ready ones (\<open>scheduler/rotation/engine/admission.rs\<close>):
  one ready entry per physical capacity, recovery arbitration, the group of the routing mode (load,
  resources, soft health), the choice inside the group and the rotation state it advances.
\<close>

section \<open>Resources of a candidate\<close>

definition fresh_quota_remaining :: "rotation_engine \<Rightarrow> string \<Rightarrow> u64 \<Rightarrow> u64 option" where
  "fresh_quota_remaining e candidate_id now_ms =
     Option.bind (bget (candidates e) candidate_id) (\<lambda>runtime.
       let c = candidate runtime in
       if quota c = QUnknown then
         Option.bind (quota_reference c)
           (\<lambda>reference. fresh_remaining reference now_ms (quota_stale_after_ms e))
       else if quota c \<noteq> QAvailable then None
       else Option.bind (opt_filter (\<lambda>headroom. 0 < headroom) (quota_remaining_basis_points c))
         (\<lambda>headroom.
            if observation_is_fresh (quota_observed_at_ms c) now_ms (quota_stale_after_ms e)
            then Some headroom else None))"

definition fresh_provider_credits :: "rotation_engine \<Rightarrow> string \<Rightarrow> u64 \<Rightarrow> u64 option" where
  "fresh_provider_credits e candidate_id now_ms =
     Option.bind (bget (candidates e) candidate_id) (\<lambda>runtime.
       let c = candidate runtime in
       if \<not> observation_is_fresh (provider_credits_observed_at_ms c) now_ms (quota_stale_after_ms e)
       then None
       else if provider_credits_unlimited c then Some (- 1)
       else opt_filter (\<lambda>credits. 0 < credits) (provider_credits_micro_units c))"

definition quota_switch_margin :: "rotation_engine \<Rightarrow> rotation_request \<Rightarrow> string \<Rightarrow> u64" where
  "quota_switch_margin e request candidate_id =
     (if mode e = Automatic \<and> req_owner request = None \<and> req_preferred request = Some candidate_id
      then CACHE_AFFINITY_QUOTA_SWITCH_MARGIN_BASIS_POINTS
      else QUOTA_SWITCH_MARGIN_BASIS_POINTS)"

definition within_quota_band ::
  "rotation_engine \<Rightarrow> rotation_request \<Rightarrow> string \<Rightarrow> u64 \<Rightarrow> u64 \<Rightarrow> bool" where
  "within_quota_band e request candidate_id best now_ms =
     is_some_and (fresh_quota_remaining e candidate_id now_ms)
       (\<lambda>headroom. sat_sub best headroom < quota_switch_margin e request candidate_id)"

definition has_material_resource_lead ::
  "rotation_engine \<Rightarrow> string \<Rightarrow> string \<Rightarrow> u64 \<Rightarrow> bool" where
  "has_material_resource_lead e candidate_id owner_id now_ms =
     (if mode e \<noteq> Automatic then False
      else (case (fresh_quota_remaining e candidate_id now_ms,
                  fresh_quota_remaining e owner_id now_ms) of
          (Some headroom, Some owner_headroom) \<Rightarrow>
            CACHE_AFFINITY_QUOTA_SWITCH_MARGIN_BASIS_POINTS \<le> sat_sub headroom owner_headroom
        | (Some _, None) \<Rightarrow> True
        | (None, Some _) \<Rightarrow> False
        | (None, None) \<Rightarrow>
            (case (fresh_provider_credits e candidate_id now_ms,
                   fresh_provider_credits e owner_id now_ms) of
               (Some credits, Some owner_credits) \<Rightarrow>
                 PROVIDER_CREDIT_SWITCH_MARGIN_MICRO_UNITS \<le> sat_sub credits owner_credits
             | (Some _, None) \<Rightarrow> True
             | _ \<Rightarrow> False)))"

section \<open>Ready candidates\<close>

definition effective_capacity_of :: "rotation_engine \<Rightarrow> string \<Rightarrow> u32" where
  "effective_capacity_of e key =
     min (unwrap_or (opt_filter (\<lambda>limit. 0 < limit) (bget (capacity_limits e) key)) (max_in_flight e))
       (max_in_flight e)"

definition fresh_latency :: "health_runtime \<Rightarrow> u64 \<Rightarrow> u64 option" where
  "fresh_latency h now_ms =
     (if is_some_and (latency_observed_at_ms h)
           (\<lambda>at. at \<le> now_ms \<and> now_ms - at \<le> HEALTH_HALF_LIFE_MS)
      then first_output_latency_ms h else None)"

definition ready_entry ::
  "rotation_engine \<Rightarrow> rotation_request \<Rightarrow> u64 \<Rightarrow> candidate_runtime \<Rightarrow> ready_candidate option" where
  "ready_entry e request now_ms runtime =
     (let c = candidate runtime; key = (rc_id c, req_route_key request) in
      case candidate_availability e request (rc_id c) now_ms of
        AvReady recovering \<Rightarrow>
          Some \<lparr>ready_id = rc_id c, ready_capacity_key = capacity_key c,
            ready_in_flight = capacity_in_flight e (capacity_key c),
            effective_capacity = effective_capacity_of e (capacity_key c),
            ready_priority = priority c,
            ready_weight = (if mode e = RoundRobin then 1 else weight c),
            ready_recovery = recovering,
            due_at_ms = Option.bind (bget (circuits e) key) not_before_ms,
            ready_failure_score =
              (case bget (health e) key of None \<Rightarrow> 0 | Some h \<Rightarrow> decayed_failure_score h now_ms),
            ready_latency_ms = Option.bind (bget (health e) key) (\<lambda>h. fresh_latency h now_ms)\<rparr>
      | _ \<Rightarrow> None)"

text \<open>One entry per physical member: the first candidate of a capacity key stays.\<close>

definition keep_first ::
  "ready_candidate \<Rightarrow> (string, ready_candidate) bmap \<Rightarrow> (string, ready_candidate) bmap" where
  "keep_first r members =
     (case bget members (ready_capacity_key r) of
        None \<Rightarrow> binsert (ready_capacity_key r) r members
      | Some _ \<Rightarrow> members)"

definition ready_candidates ::
  "rotation_engine \<Rightarrow> rotation_request \<Rightarrow> u64 \<Rightarrow> ready_candidate list" where
  "ready_candidates e request now_ms =
     bvalues (fold keep_first
       (List.map_filter (ready_entry e request now_ms) (bvalues (candidates e))) bempty)"

definition recovery_allowed :: "rotation_engine \<Rightarrow> bool \<Rightarrow> bool" where
  "recovery_allowed e ordinary_alternatives =
     (recovery_in_flight e < policy_max_in_flight (recovery_policy_of e) \<and>
      (\<not> ordinary_alternatives \<or> 0 < recovery_credits e))"

definition selection_candidates ::
  "rotation_engine \<Rightarrow> rotation_request \<Rightarrow> u64 \<Rightarrow> ready_candidate list \<times> bool" where
  "selection_candidates e request now_ms =
     (let ready = ready_candidates e request now_ms;
          ordinary_alternatives = list_ex (\<lambda>r. \<not> ready_recovery r) ready
      in (filter (\<lambda>r. \<not> ready_recovery r \<or> recovery_allowed e ordinary_alternatives) ready,
          ordinary_alternatives))"

section \<open>Groups\<close>

text \<open>In-flight over capacity, compared by cross multiplication of the widened values.\<close>

definition compare_load :: "ready_candidate \<Rightarrow> ready_candidate \<Rightarrow> cmp_result" where
  "compare_load l r =
     cmp (ucast (ready_in_flight l) * ucast (effective_capacity r) :: u64)
       (ucast (ready_in_flight r) * ucast (effective_capacity l))"

definition least_loaded_group :: "ready_candidate list \<Rightarrow> ready_candidate list" where
  "least_loaded_group ready =
     (case min_by compare_load ready of
        None \<Rightarrow> []
      | Some best \<Rightarrow> filter (\<lambda>r. compare_load r best = EqualTo) ready)"

definition cache_aware_load_group ::
  "ready_candidate list \<Rightarrow> rotation_request \<Rightarrow> ready_candidate list" where
  "cache_aware_load_group ready request =
     (let pool = least_loaded_group ready in
      case pool of [] \<Rightarrow> pool
      | least_loaded # _ \<Rightarrow>
        (case req_preferred request of None \<Rightarrow> pool
         | Some preferred_id \<Rightarrow>
           (case find (\<lambda>r. \<not> ready_recovery r \<and> ready_id r = preferred_id) ready of None \<Rightarrow> pool
            | Some preferred \<Rightarrow>
                let preferred_load =
                      (ucast (sat_sub (ready_in_flight preferred) CACHE_AFFINITY_EXTRA_REQUESTS)
                         * ucast (effective_capacity least_loaded) :: u64);
                    baseline_load =
                      ucast (ready_in_flight least_loaded) * ucast (effective_capacity preferred)
                in if preferred_load \<le> baseline_load
                      \<and> \<not> list_ex (\<lambda>r. ready_id r = ready_id preferred) pool
                   then pool @ [preferred] else pool)))"

definition resource_group ::
  "rotation_engine \<Rightarrow> ready_candidate list \<Rightarrow> rotation_request \<Rightarrow> u64 \<Rightarrow> ready_candidate list" where
  "resource_group e pool request now_ms =
     (case list_max (List.map_filter (\<lambda>r. fresh_quota_remaining e (ready_id r) now_ms) pool) of
        Some best_quota \<Rightarrow>
          filter (\<lambda>r. within_quota_band e request (ready_id r) best_quota now_ms) pool
      | None \<Rightarrow>
        (case list_max (List.map_filter (\<lambda>r. fresh_provider_credits e (ready_id r) now_ms) pool) of
           Some best_credits \<Rightarrow>
             filter (\<lambda>r. is_some_and (fresh_provider_credits e (ready_id r) now_ms)
               (\<lambda>credits. credits = best_credits \<or>
                  (req_preferred request = Some (ready_id r) \<and>
                   sat_sub best_credits credits < PROVIDER_CREDIT_SWITCH_MARGIN_MICRO_UNITS))) pool
         | None \<Rightarrow> pool))"

text \<open>The latency comparison is made in 128 bits, so it cannot wrap: natural numbers.\<close>

definition soft_health_group :: "ready_candidate list \<Rightarrow> ready_candidate list" where
  "soft_health_group pool =
     (case list_min (map ready_failure_score pool) of None \<Rightarrow> pool
      | Some best_failure_score \<Rightarrow>
        (let healthy = filter (\<lambda>r. sat_sub (ready_failure_score r) best_failure_score
                                 < HEALTH_FAILURE_SWITCH_MARGIN_MILLI) pool in
         case list_min (map (\<lambda>l. max l 1) (List.map_filter ready_latency_ms healthy)) of
           None \<Rightarrow> healthy
         | Some fastest \<Rightarrow>
             filter (\<lambda>r. is_none_or (ready_latency_ms r)
               (\<lambda>l. unat (max l 1) * 1000
                    < unat fastest * unat (1000 + HEALTH_LATENCY_SWITCH_MARGIN_MILLI))) healthy))"

definition priority_order :: "ready_candidate \<Rightarrow> ready_candidate \<Rightarrow> cmp_result" where
  "priority_order l r =
     then_with (cmp (ready_priority r) (ready_priority l)) (cmp (ready_id l) (ready_id r))"

definition due_order :: "ready_candidate \<Rightarrow> ready_candidate \<Rightarrow> cmp_result" where
  "due_order l r =
     then_with (cmp (due_at_ms l) (due_at_ms r)) (cmp (ready_id l) (ready_id r))"

definition mode_group ::
  "rotation_engine \<Rightarrow> ready_candidate list \<Rightarrow> rotation_request \<Rightarrow> u64 \<Rightarrow> ready_candidate list" where
  "mode_group e ready request now_ms =
     (case mode e of
        Failover \<Rightarrow> (case min_by priority_order ready of None \<Rightarrow> [] | Some r \<Rightarrow> [r])
      | RoundRobin \<Rightarrow> ready
      | WeightedRoundRobin \<Rightarrow> ready
      | Automatic \<Rightarrow>
          soft_health_group
            (resource_group e (cache_aware_load_group ready request) request now_ms))"

definition selection_group ::
  "rotation_engine \<Rightarrow> ready_candidate list \<Rightarrow> rotation_request \<Rightarrow> u64 \<Rightarrow> ready_candidate list" where
  "selection_group e ready request now_ms =
     (case opt_filter (\<lambda>_. mode e \<noteq> Failover) (min_by due_order (filter ready_recovery ready)) of
        Some r \<Rightarrow> [r]
      | None \<Rightarrow> mode_group e ready request now_ms)"

section \<open>The choice in a group\<close>

definition cursor_position :: "rotation_engine \<Rightarrow> round_robin_cursor \<Rightarrow> int \<times> string" where
  "cursor_position e cursor =
     ((case find (\<lambda>runtime. capacity_key (candidate runtime) = cursor_capacity_key cursor)
              (bvalues (candidates e)) of
         None \<Rightarrow> cursor_priority cursor
       | Some runtime \<Rightarrow> priority (candidate runtime)), cursor_candidate_id cursor)"

definition choose_round_robin ::
  "rotation_engine \<Rightarrow> string \<Rightarrow> ready_candidate list \<Rightarrow> ready_candidate option" where
  "choose_round_robin e route_key pool =
     (let ordered = sort_by priority_order pool in
      if ordered = [] then None
      else
        (let next_index =
               unwrap_or (Option.bind (map_option (cursor_position e) (bget (cursors e) route_key))
                 (\<lambda>(prio, candidate_id). position (\<lambda>r. ready_priority r < prio \<or>
                    (ready_priority r = prio \<and> candidate_id < ready_id r)) ordered)) 0
         in if next_index < length ordered then Some (ordered ! next_index) else None))"

definition credit_of :: "rotation_engine \<Rightarrow> string \<Rightarrow> string \<Rightarrow> int" where
  "credit_of e route_key key = unwrap_or (bget (rotation_credit e) (route_key, key)) 0"

definition weight_of :: "ready_candidate \<Rightarrow> int" where
  "weight_of r = int (unat (ready_weight r))"

definition trial_order :: "ready_candidate \<Rightarrow> ready_candidate \<Rightarrow> cmp_result" where
  "trial_order l r =
     then_with (cmp (unwrap_or (due_at_ms l) 0) (unwrap_or (due_at_ms r) 0))
       (cmp (ready_id r) (ready_id l))"

definition credit_order ::
  "rotation_engine \<Rightarrow> string \<Rightarrow> ready_candidate \<Rightarrow> ready_candidate \<Rightarrow> cmp_result" where
  "credit_order e route_key l r =
     then_with
       (then_with
         (cmp (i64_clamp (credit_of e route_key (ready_capacity_key l) + weight_of l))
              (i64_clamp (credit_of e route_key (ready_capacity_key r) + weight_of r)))
         (if mode e = WeightedRoundRobin then cmp (ready_priority l) (ready_priority r) else EqualTo))
       (cmp (ready_id r) (ready_id l))"

definition choose_weighted ::
  "rotation_engine \<Rightarrow> string \<Rightarrow> ready_candidate list \<Rightarrow> ready_candidate option" where
  "choose_weighted e route_key pool =
     (if list_all ready_recovery pool then min_by trial_order pool
      else max_by (credit_order e route_key) pool)"

fun warm_choice :: "string list \<Rightarrow> ready_candidate list \<Rightarrow> ready_candidate option" where
  "warm_choice [] pool = None"
| "warm_choice (alternative # rest) pool =
     (case find (\<lambda>r. \<not> ready_recovery r \<and> ready_id r = alternative) pool of
        Some warm \<Rightarrow> Some warm | None \<Rightarrow> warm_choice rest pool)"

definition preferred_choice ::
  "rotation_engine \<Rightarrow> rotation_request \<Rightarrow> ready_candidate list \<Rightarrow> ready_candidate option" where
  "preferred_choice e request pool =
     (if mode e = Automatic \<and> req_owner request = None then
        opt_or
          (find (\<lambda>r. \<not> ready_recovery r \<and> req_preferred request = Some (ready_id r)) pool)
          (warm_choice (warm_fallbacks request) pool)
      else None)"

definition choose_for_request ::
  "rotation_engine \<Rightarrow> rotation_request \<Rightarrow> ready_candidate list \<Rightarrow> ready_candidate option" where
  "choose_for_request e request pool =
     (case preferred_choice e request pool of
        Some r \<Rightarrow> Some r
      | None \<Rightarrow>
          if mode e = RoundRobin then choose_round_robin e (req_route_key request) pool
          else choose_weighted e (req_route_key request) pool)"

definition selection_reason_of ::
  "rotation_engine \<Rightarrow> rotation_request \<Rightarrow> ready_candidate list \<Rightarrow> ready_candidate \<Rightarrow> u64 \<Rightarrow>
   selection_reason" where
  "selection_reason_of e request ready selected now_ms =
     (if req_owner request \<noteq> None then HardOwner
      else if ready_recovery selected then Recovery
      else if length ready = 1 then OnlyEligible
      else if mode e = Failover \<or> mode e = RoundRobin then ManualPriority
      else if mode e \<noteq> Automatic then WeightedRotation
      else
        (let least_loaded = cache_aware_load_group ready request;
             best_quota = list_max
               (List.map_filter (\<lambda>r. fresh_quota_remaining e (ready_id r) now_ms) least_loaded);
             selected_credits = fresh_provider_credits e (ready_id selected) now_ms
         in if length least_loaded < length ready then LeastLoaded
            else if is_some_and best_quota (\<lambda>best.
                list_ex (\<lambda>r. \<not> within_quota_band e request (ready_id r) best now_ms) least_loaded)
            then QuotaHeadroom
            else if selected_credits \<noteq> None
              \<and> list_all (\<lambda>r. fresh_quota_remaining e (ready_id r) now_ms = None) least_loaded
              \<and> list_ex (\<lambda>r. fresh_provider_credits e (ready_id r) now_ms \<noteq> selected_credits)
                  least_loaded
            then ProviderCredits
            else WeightedRotation))"

definition select :: "rotation_engine \<Rightarrow> rotation_request \<Rightarrow> u64 \<Rightarrow> rotation_selection option" where
  "select e request now_ms =
     (let ready = fst (selection_candidates e request now_ms);
          pool = selection_group e ready request now_ms
      in map_option (\<lambda>r.
           \<lparr>sel_candidate_id = ready_id r, sel_priority = ready_priority r,
            sel_recovery = ready_recovery r, eligible_candidates = sat_of_nat (length ready),
            sel_reason = selection_reason_of e request ready r now_ms\<rparr>)
           (choose_for_request e request pool))"

section \<open>The rotation state\<close>

definition credit_key :: "string \<Rightarrow> ready_candidate \<Rightarrow> route_id" where
  "credit_key route_key r = (route_key, ready_capacity_key r)"

definition add_credit ::
  "string \<Rightarrow> ready_candidate \<Rightarrow> (route_id, int) bmap \<Rightarrow> (route_id, int) bmap" where
  "add_credit route_key r credits =
     binsert (credit_key route_key r)
       (i64_clamp (unwrap_or (bget credits (credit_key route_key r)) 0 + weight_of r)) credits"

definition total_weight :: "ready_candidate list \<Rightarrow> int" where
  "total_weight pool = sum_list (map weight_of pool)"

definition advance_rotation_state ::
  "rotation_engine \<Rightarrow> string \<Rightarrow> ready_candidate list \<Rightarrow> string \<Rightarrow> bool \<Rightarrow> rotation_engine" where
  "advance_rotation_state e route_key pool selected_id advance_cursor =
     (if mode e = RoundRobin then
        (case (if advance_cursor then find (\<lambda>r. ready_id r = selected_id) pool else None) of
           None \<Rightarrow> e
         | Some r \<Rightarrow> e\<lparr>cursors := binsert route_key
             \<lparr>cursor_capacity_key = ready_capacity_key r, cursor_candidate_id = ready_id r,
              cursor_priority = ready_priority r\<rparr> (cursors e)\<rparr>)
      else
        (let keys = ready_capacity_key ` set pool;
             kept = bretain (\<lambda>(route, capacity) _. route \<noteq> route_key \<or> capacity \<in> keys)
                      (rotation_credit e);
             raised = fold (add_credit route_key) pool kept
         in case find (\<lambda>r. ready_id r = selected_id) pool of
              None \<Rightarrow> e\<lparr>rotation_credit := raised\<rparr>
            | Some r \<Rightarrow> e\<lparr>rotation_credit := bmodify (credit_key route_key r)
                (\<lambda>credit. i64_clamp (credit - total_weight pool)) raised\<rparr>))"

section \<open>Lemmas: ready candidates\<close>

lemma fold_keep_first:
  "bget (fold keep_first xs m) k =
     opt_or (bget m k) (find (\<lambda>r. ready_capacity_key r = k) xs)"
proof (induction xs arbitrary: m)
  case Nil
  then show ?case by (cases "bget m k") auto
next
  case (Cons x xs)
  then show ?case by (cases "bget m k") (auto simp: keep_first_def split: option.splits)
qed

lemma in_ready_candidates:
  "r \<in> set (ready_candidates e request now_ms) \<longleftrightarrow>
   find (\<lambda>x. ready_capacity_key x = ready_capacity_key r)
     (List.map_filter (ready_entry e request now_ms) (bvalues (candidates e))) = Some r"
  by (auto simp: ready_candidates_def in_bvalues fold_keep_first find_Some_iff)

lemma ready_entry_Some:
  assumes "ready_entry e request now_ms runtime = Some r"
  shows "ready_id r = rc_id (candidate runtime)"
    and "ready_capacity_key r = capacity_key (candidate runtime)"
    and "candidate_availability e request (ready_id r) now_ms = AvReady (ready_recovery r)"
    and "ready_priority r = priority (candidate runtime)"
    and "ready_weight r = (if mode e = RoundRobin then 1 else weight (candidate runtime))"
    and "effective_capacity r = effective_capacity_of e (ready_capacity_key r)"
    and "ready_in_flight r = capacity_in_flight e (ready_capacity_key r)"
  using assms by (auto simp: ready_entry_def Let_def split: candidate_availability.splits)

lemma ready_candidate_runtime:
  assumes "r \<in> set (ready_candidates e request now_ms)"
  obtains cid runtime where "bget (candidates e) cid = Some runtime"
    "ready_entry e request now_ms runtime = Some r"
proof -
  from assms have
    "r \<in> set (List.map_filter (ready_entry e request now_ms) (bvalues (candidates e)))"
    unfolding in_ready_candidates by (auto simp: find_Some_iff)
  then show ?thesis using that by (auto simp: map_filter_set in_bvalues)
qed

lemma ready_candidates_available:
  "r \<in> set (ready_candidates e request now_ms) \<Longrightarrow>
   candidate_availability e request (ready_id r) now_ms = AvReady (ready_recovery r)"
  by (erule ready_candidate_runtime) (rule ready_entry_Some(3))

text \<open>The registry key of a candidate is its id; every operation of the engine keeps this.\<close>

definition engine_keyed :: "rotation_engine \<Rightarrow> bool" where
  "engine_keyed e \<longleftrightarrow>
     (\<forall>cid runtime. bget (candidates e) cid = Some runtime \<longrightarrow> rc_id (candidate runtime) = cid)"

lemma ready_candidates_complete:
  assumes "engine_keyed e" and "bget (candidates e) cid = Some runtime"
    and "candidate_availability e request cid now_ms = AvReady b"
  shows "\<exists>r \<in> set (ready_candidates e request now_ms).
    ready_capacity_key r = capacity_key (candidate runtime)"
proof -
  let ?xs = "List.map_filter (ready_entry e request now_ms) (bvalues (candidates e))"
  have "rc_id (candidate runtime) = cid" using assms(1,2) by (auto simp: engine_keyed_def)
  then obtain r where r: "ready_entry e request now_ms runtime = Some r"
    using assms(3) by (auto simp: ready_entry_def Let_def)
  moreover have "runtime \<in> set (bvalues (candidates e))"
    using assms(2) by (auto simp: in_bvalues)
  ultimately have "r \<in> set ?xs" by (auto simp: map_filter_set)
  then have "find (\<lambda>x. ready_capacity_key x = ready_capacity_key r) ?xs \<noteq> None"
    by (auto simp: find_None_iff)
  then obtain r' where "find (\<lambda>x. ready_capacity_key x = ready_capacity_key r) ?xs = Some r'"
    by auto
  then have "r' \<in> set (ready_candidates e request now_ms) \<and>
      ready_capacity_key r' = ready_capacity_key r"
    by (simp add: in_ready_candidates) (auto simp: find_Some_iff)
  then show ?thesis using ready_entry_Some(2) [OF r] by auto
qed

lemma ready_candidates_distinct:
  "distinct (map ready_capacity_key (ready_candidates e request now_ms))"
proof -
  let ?m = "fold keep_first
    (List.map_filter (ready_entry e request now_ms) (bvalues (candidates e))) bempty"
  have "map ready_capacity_key (bvalues ?m) = bkeys ?m"
    by (rule map_bvalues_keys) (auto simp: fold_keep_first find_Some_iff)
  then show ?thesis by (simp add: ready_candidates_def)
qed

lemma ready_candidates_ids_distinct:
  assumes "engine_keyed e"
  shows "distinct (map ready_id (ready_candidates e request now_ms))"
proof -
  let ?ready = "ready_candidates e request now_ms"
  have cap: "bget (candidates e) (ready_id r) = Some runtime \<Longrightarrow>
      ready_capacity_key r = capacity_key (candidate runtime)" if r: "r \<in> set ?ready" for r runtime
  proof -
    obtain cid x where "bget (candidates e) cid = Some x"
      "ready_entry e request now_ms x = Some r"
      by (rule ready_candidate_runtime [OF r])
    moreover from this have "cid = ready_id r" using assms ready_entry_Some(1)
      by (metis engine_keyed_def)
    ultimately show "bget (candidates e) (ready_id r) = Some runtime \<Longrightarrow>
      ready_capacity_key r = capacity_key (candidate runtime)"
      using ready_entry_Some(2) by auto
  qed
  have known: "\<exists>x. bget (candidates e) (ready_id r) = Some x" if "r \<in> set ?ready" for r
    using ready_candidates_available [OF that] by (auto simp: candidate_ready_iff)
  have "inj_on ready_capacity_key (set ?ready)" "distinct ?ready"
    using ready_candidates_distinct [of e request now_ms] by (simp_all add: distinct_map)
  then show ?thesis using cap known by (auto simp: distinct_map inj_on_def) metis
qed

section \<open>Lemmas: groups\<close>

text \<open>The comparison closures are total preorders; \<open>min_by\<close>, \<open>max_by\<close> and \<open>sort_by\<close> rely on it.\<close>

lemma then_with_cases:
  "then_with (cmp a b) z =
     (if a < b then LessThan else if a = b then z else GreaterThan)"
  by (simp add: cmp_def)

lemma unat_product: "unat (ucast (a :: u32) * ucast (b :: u32) :: u64) = unat a * unat b"
proof -
  have "unat a \<le> 2 ^ 32 - 1" "unat b \<le> 2 ^ 32 - 1"
    using unat_le_bound [of a] unat_le_bound [of b] by simp_all
  then have "unat a * unat b \<le> (2 ^ 32 - 1) * (2 ^ 32 - 1)" by (rule mult_le_mono)
  then show ?thesis by (simp add: unat_word_ariths unat_ucast_up)
qed

lemma compare_load_nat:
  "compare_load l r =
     cmp (unat (ready_in_flight l) * unat (effective_capacity r))
       (unat (ready_in_flight r) * unat (effective_capacity l))"
  by (simp add: compare_load_def cmp_def word_less_nat_alt word_unat_eq_iff unat_product)

lemma ratio_le_trans:
  fixes a b c x y z :: nat
  assumes "0 < y" "a * y \<le> b * x" "b * z \<le> c * y"
  shows "a * z \<le> c * x"
proof -
  have "a * z * y \<le> b * x * z" using mult_le_mono1 [OF assms(2), of z] by (simp add: mult_ac)
  also have "\<dots> \<le> c * x * y" using mult_le_mono1 [OF assms(3), of x] by (simp add: mult_ac)
  finally show ?thesis using assms(1) by simp
qed

interpretation load: comparator compare_load "{r. 0 < effective_capacity r}"
proof unfold_locales
  fix x y z
  assume "x \<in> {r. 0 < effective_capacity r}" "y \<in> {r. 0 < effective_capacity r}"
    "z \<in> {r. 0 < effective_capacity r}"
    "compare_load x y \<noteq> GreaterThan" "compare_load y z \<noteq> GreaterThan"
  then show "compare_load x z \<noteq> GreaterThan"
    using ratio_le_trans [of "unat (effective_capacity y)"]
    by (simp add: compare_load_nat not_less word_less_nat_alt)
qed (simp add: compare_load_nat cmp_reverse_cmp)

interpretation by_priority: comparator priority_order UNIV
  by unfold_locales
    (auto simp: priority_order_def cmp_reverse_then_with cmp_reverse_cmp then_with_greater not_less)

interpretation by_due: comparator due_order UNIV
  by unfold_locales
    (auto simp: due_order_def cmp_reverse_then_with cmp_reverse_cmp then_with_greater not_less)

interpretation by_trial: comparator trial_order UNIV
  by unfold_locales
    (auto simp: trial_order_def cmp_reverse_then_with cmp_reverse_cmp then_with_greater not_less)

interpretation by_credit: comparator "credit_order e route_key" UNIV for e route_key
  by unfold_locales
    (auto simp: credit_order_def cmp_reverse_then_with cmp_reverse_cmp then_with_greater
      then_with_equal not_less split: if_splits)

section \<open>Lemmas: groups are non-empty parts of the ready candidates\<close>

lemma list_extremes_Nil [simp]: "list_max [] = None" "list_min [] = None"
  by simp_all

lemma least_loaded_part: "set (least_loaded_group ready) \<subseteq> set ready"
  by (auto simp: least_loaded_group_def split: option.splits)

lemma least_loaded_least:
  assumes "\<forall>r \<in> set ready. 0 < effective_capacity r" and "ready \<noteq> []"
  obtains best where "best \<in> set ready" "\<forall>r \<in> set ready. compare_load best r \<noteq> GreaterThan"
    "least_loaded_group ready = filter (\<lambda>r. compare_load r best = EqualTo) ready"
    "best \<in> set (least_loaded_group ready)"
proof -
  obtain best where b: "min_by compare_load ready = Some best"
    using assms(2) by (metis min_by_None not_Some_eq)
  moreover have "best \<in> set ready" by (rule min_by_in [OF b])
  moreover have "compare_load best r \<noteq> GreaterThan" if "r \<in> set ready" for r
    using load.min_by_least [OF b _ that] assms(1) by auto
  ultimately show ?thesis
    using that assms(1) load.refl by (auto simp: least_loaded_group_def)
qed

lemma least_loaded_nonempty:
  "ready \<noteq> [] \<Longrightarrow> least_loaded_group ready \<noteq> []"
proof -
  assume "ready \<noteq> []"
  then obtain best where b: "min_by compare_load ready = Some best"
    by (metis min_by_None not_Some_eq)
  then have "best \<in> set ready" by (rule min_by_in)
  moreover have "compare_load best best = EqualTo" by (simp add: compare_load_nat)
  ultimately have "best \<in> set (least_loaded_group ready)" using b by (simp add: least_loaded_group_def)
  then show ?thesis by auto
qed

lemma cache_aware_part: "set (cache_aware_load_group ready request) \<subseteq> set ready"
  using least_loaded_part [of ready]
  by (auto simp: cache_aware_load_group_def Let_def find_Some_iff split: list.split option.split)

lemma cache_aware_nonempty:
  "ready \<noteq> [] \<Longrightarrow> cache_aware_load_group ready request \<noteq> []"
  using least_loaded_nonempty
  by (auto simp: cache_aware_load_group_def Let_def split: list.split option.split)

lemma resource_part: "set (resource_group e pool request now_ms) \<subseteq> set pool"
  by (auto simp: resource_group_def split: option.split)

lemma switch_margin_pos: "0 < quota_switch_margin e request cid"
  by (simp add: quota_switch_margin_def CACHE_AFFINITY_QUOTA_SWITCH_MARGIN_BASIS_POINTS_def
      QUOTA_SWITCH_MARGIN_BASIS_POINTS_def)

lemma resource_nonempty:
  assumes "pool \<noteq> []"
  shows "resource_group e pool request now_ms \<noteq> []"
proof (cases "list_max (List.map_filter (\<lambda>r. fresh_quota_remaining e (ready_id r) now_ms) pool)")
  case (Some best)
  then obtain r where "r \<in> set pool" "fresh_quota_remaining e (ready_id r) now_ms = Some best"
    by (auto simp: map_filter_set dest!: list_max_Some)
  then have "r \<in> set (resource_group e pool request now_ms)"
    using Some switch_margin_pos by (simp add: resource_group_def within_quota_band_def)
  then show ?thesis by auto
next
  case no_quota: None
  show ?thesis
  proof (cases "list_max (List.map_filter (\<lambda>r. fresh_provider_credits e (ready_id r) now_ms) pool)")
    case (Some best)
    then obtain r where "r \<in> set pool" "fresh_provider_credits e (ready_id r) now_ms = Some best"
      by (auto simp: map_filter_set dest!: list_max_Some)
    then have "r \<in> set (resource_group e pool request now_ms)"
      using Some no_quota by (simp add: resource_group_def)
    then show ?thesis by auto
  next
    case None
    with no_quota show ?thesis using assms by (simp add: resource_group_def)
  qed
qed

lemma soft_health_part: "set (soft_health_group pool) \<subseteq> set pool"
  by (auto simp: soft_health_group_def Let_def split: option.split)

lemma latency_margin_nat: "unat (1000 + HEALTH_LATENCY_SWITCH_MARGIN_MILLI) = 1250"
  by (simp add: HEALTH_LATENCY_SWITCH_MARGIN_MILLI_def)

lemma soft_health_nonempty:
  assumes "pool \<noteq> []"
  shows "soft_health_group pool \<noteq> []"
proof -
  obtain best where best: "list_min (map ready_failure_score pool) = Some best"
    using assms by (metis list_min_None map_is_Nil_conv not_Some_eq)
  let ?healthy = "filter (\<lambda>r. sat_sub (ready_failure_score r) best
    < HEALTH_FAILURE_SWITCH_MARGIN_MILLI) pool"
  obtain h where h: "h \<in> set pool" "ready_failure_score h = best"
    using list_min_Some [OF best] by auto
  then have hh: "h \<in> set ?healthy" by (simp add: HEALTH_FAILURE_SWITCH_MARGIN_MILLI_def)
  show ?thesis
  proof (cases "list_min (map (\<lambda>l. max l 1) (List.map_filter ready_latency_ms ?healthy))")
    case None
    then have "h \<in> set (soft_health_group pool)"
      using best hh by (simp add: soft_health_group_def)
    then show ?thesis by auto
  next
    case (Some fastest)
    then obtain r l where r: "r \<in> set ?healthy" "ready_latency_ms r = Some l" "fastest = max l 1"
      by (auto simp: map_filter_set dest!: list_min_Some)
    have "0 < unat fastest" unfolding r(3) by (auto simp: max_def word_le_nat_alt)
    then have "r \<in> set (soft_health_group pool)"
      using best Some r by (simp add: soft_health_group_def latency_margin_nat)
    then show ?thesis by auto
  qed
qed

lemma mode_group_part: "set (mode_group e ready request now_ms) \<subseteq> set ready"
proof (cases "mode e")
  case Automatic
  then show ?thesis
    using soft_health_part resource_part cache_aware_part
    unfolding mode_group_def Automatic rotation_mode.case by (meson order_trans)
next
  case Failover
  then show ?thesis
    by (cases "min_by priority_order ready") (auto simp: mode_group_def dest: min_by_in)
qed (simp_all add: mode_group_def)

lemma mode_group_nonempty:
  assumes "ready \<noteq> []"
  shows "mode_group e ready request now_ms \<noteq> []"
proof (cases "mode e")
  case Automatic
  show ?thesis
    unfolding mode_group_def Automatic rotation_mode.case
    by (intro soft_health_nonempty resource_nonempty cache_aware_nonempty assms)
next
  case Failover
  obtain r where "min_by priority_order ready = Some r"
    using assms by (metis min_by_None not_Some_eq)
  then show ?thesis by (simp add: mode_group_def Failover)
qed (simp_all add: mode_group_def assms)

lemma selection_group_part: "set (selection_group e ready request now_ms) \<subseteq> set ready"
proof (cases "opt_filter (\<lambda>_. mode e \<noteq> Failover) (min_by due_order (filter ready_recovery ready))")
  case None
  then show ?thesis using mode_group_part by (simp add: selection_group_def)
next
  case (Some r)
  then have "min_by due_order (filter ready_recovery ready) = Some r" by (simp add: opt_filter_Some)
  then have "r \<in> set (filter ready_recovery ready)" by (rule min_by_in)
  with Some show ?thesis by (simp add: selection_group_def)
qed

lemma selection_group_nonempty:
  assumes "ready \<noteq> []"
  shows "selection_group e ready request now_ms \<noteq> []"
proof (cases "opt_filter (\<lambda>_. mode e \<noteq> Failover) (min_by due_order (filter ready_recovery ready))")
  case None
  show ?thesis
    unfolding selection_group_def None option.case by (rule mode_group_nonempty [OF assms])
next
  case (Some r)
  show ?thesis unfolding selection_group_def Some option.case by simp
qed

lemma choose_round_robin_in:
  assumes "choose_round_robin e route_key pool = Some r"
  shows "r \<in> set pool"
proof -
  from assms obtain i where "i < length (sort_by priority_order pool)"
    "r = sort_by priority_order pool ! i"
    by (simp add: choose_round_robin_def Let_def split: if_splits)
  then have "r \<in> set (sort_by priority_order pool)" by (simp only: nth_mem)
  then show ?thesis by simp
qed

lemma choose_round_robin_some:
  assumes "pool \<noteq> []"
  shows "\<exists>r. choose_round_robin e route_key pool = Some r"
proof -
  let ?i = "unwrap_or (Option.bind (map_option (cursor_position e) (bget (cursors e) route_key))
    (\<lambda>(prio, candidate_id). position (\<lambda>r. ready_priority r < prio \<or>
       (ready_priority r = prio \<and> candidate_id < ready_id r)) (sort_by priority_order pool))) 0"
  have "position p (sort_by priority_order pool) = Some i \<Longrightarrow> i < length pool" for p i
    by (simp add: position_Some)
  then have "?i < length pool"
    using assms by (auto simp: unwrap_or_def bind_eq_Some_conv split: option.split)
  then show ?thesis using assms by (simp add: choose_round_robin_def Let_def)
qed

lemma choose_weighted_in: "choose_weighted e route_key pool = Some r \<Longrightarrow> r \<in> set pool"
  by (auto simp: choose_weighted_def dest: min_by_in max_by_in split: if_splits)

lemma warm_choice_in: "warm_choice ids pool = Some r \<Longrightarrow> r \<in> set pool"
  by (induction ids) (auto simp: find_Some_iff split: option.splits)

lemma choose_for_request_in:
  "choose_for_request e request pool = Some r \<Longrightarrow> r \<in> set pool"
  by (auto simp: choose_for_request_def preferred_choice_def opt_or_def find_Some_iff
      dest: choose_round_robin_in choose_weighted_in warm_choice_in split: option.splits if_splits)

lemma choose_for_request_None:
  "choose_for_request e request pool = None \<longleftrightarrow> pool = []"
proof
  assume none: "choose_for_request e request pool = None"
  show "pool = []"
  proof (rule ccontr)
    assume "pool \<noteq> []"
    with none choose_round_robin_some [of pool e "req_route_key request"] show False
      by (auto simp: choose_for_request_def choose_weighted_def split: option.splits if_splits)
  qed
next
  assume p: "pool = []"
  have "choose_for_request e request [] \<noteq> Some r" for r
    using choose_for_request_in [of e request "[]" r] by auto
  with p show "choose_for_request e request pool = None" by auto
qed

lemma eligible_part:
  "r \<in> set (fst (selection_candidates e request now_ms)) \<longleftrightarrow>
   r \<in> set (ready_candidates e request now_ms) \<and>
   (ready_recovery r \<longrightarrow>
      recovery_allowed e (\<exists>x \<in> set (ready_candidates e request now_ms). \<not> ready_recovery x))"
  by (auto simp: selection_candidates_def Let_def list_ex_iff)

lemma select_Some:
  assumes "select e request now_ms = Some s"
  obtains r where
    "choose_for_request e request
       (selection_group e (fst (selection_candidates e request now_ms)) request now_ms) = Some r"
    "r \<in> set (selection_group e (fst (selection_candidates e request now_ms)) request now_ms)"
    "r \<in> set (fst (selection_candidates e request now_ms))"
    "sel_candidate_id s = ready_id r" "sel_priority s = ready_priority r"
    "sel_recovery s = ready_recovery r"
  using assms choose_for_request_in selection_group_part that
  unfolding select_def Let_def by fastforce

lemma select_None:
  "select e request now_ms = None \<longleftrightarrow> fst (selection_candidates e request now_ms) = []"
proof -
  let ?ready = "fst (selection_candidates e request now_ms)"
  have "selection_group e ?ready request now_ms = [] \<longleftrightarrow> ?ready = []"
    using selection_group_nonempty [of ?ready] selection_group_part [of e ?ready] by auto
  then show ?thesis by (simp add: select_def Let_def choose_for_request_None)
qed

lemma choose_singleton: "choose_for_request e request [r] = Some r"
  using choose_for_request_None [of e request "[r]"] choose_for_request_in [of e request "[r]"]
  by (cases "choose_for_request e request [r]") auto

lemma effective_capacity_pos: "0 < max_in_flight e \<Longrightarrow> 0 < effective_capacity_of e key"
  by (auto simp: effective_capacity_of_def min_def unwrap_or_def opt_filter_def split: option.splits)

lemma list_max_upper: "list_max xs = Some m \<Longrightarrow> x \<in> set xs \<Longrightarrow> x \<le> m"
  using list_max_Some by blast

lemma load_le_trans:
  "\<lbrakk>0 < effective_capacity y; compare_load x y \<noteq> GreaterThan; compare_load y z \<noteq> GreaterThan\<rbrakk>
   \<Longrightarrow> compare_load x z \<noteq> GreaterThan"
  using ratio_le_trans [of "unat (effective_capacity y)"]
  by (simp add: compare_load_nat not_less word_less_nat_alt)

lemma cache_aware_load_bound:
  assumes caps: "\<forall>r \<in> set ready. 0 < effective_capacity r"
    and r: "r \<in> set (cache_aware_load_group ready request)" and x: "x \<in> set ready"
  shows "(unat (ready_in_flight r) - 1) * unat (effective_capacity x)
      \<le> unat (ready_in_flight x) * unat (effective_capacity r)"
proof -
  have "ready \<noteq> []" using x by auto
  obtain best where best: "best \<in> set ready" "\<forall>r \<in> set ready. compare_load best r \<noteq> GreaterThan"
    "least_loaded_group ready = filter (\<lambda>r. compare_load r best = EqualTo) ready"
    by (rule least_loaded_least [OF caps \<open>ready \<noteq> []\<close>])
  have light: "compare_load y x \<noteq> GreaterThan" if "y \<in> set (least_loaded_group ready)" for y
    using that best caps x load_le_trans [of best y x] by simp
  show ?thesis
  proof (cases "r \<in> set (least_loaded_group ready)")
    case True
    have "(unat (ready_in_flight r) - 1) * unat (effective_capacity x)
        \<le> unat (ready_in_flight r) * unat (effective_capacity x)"
      by (intro mult_le_mono) auto
    also have "\<dots> \<le> unat (ready_in_flight x) * unat (effective_capacity r)"
      using light [OF True] by (simp add: compare_load_nat not_less)
    finally show ?thesis .
  next
    case False
    with r obtain l where l: "l \<in> set (least_loaded_group ready)"
      "(ucast (sat_sub (ready_in_flight r) CACHE_AFFINITY_EXTRA_REQUESTS)
          * ucast (effective_capacity l) :: u64)
        \<le> ucast (ready_in_flight l) * ucast (effective_capacity r)"
      by (auto simp: cache_aware_load_group_def Let_def split: list.splits option.splits if_splits)
    then have "(unat (ready_in_flight r) - 1) * unat (effective_capacity l)
        \<le> unat (ready_in_flight l) * unat (effective_capacity r)"
      by (simp add: word_le_nat_alt unat_product unat_sat_sub CACHE_AFFINITY_EXTRA_REQUESTS_def)
    moreover have "unat (ready_in_flight l) * unat (effective_capacity x)
        \<le> unat (ready_in_flight x) * unat (effective_capacity l)"
      using light [OF l(1)] by (simp add: compare_load_nat)
    moreover have "0 < unat (effective_capacity l)"
      using l(1) least_loaded_part caps by (metis subsetD word_less_nat_alt unat_0)
    ultimately show ?thesis using ratio_le_trans by blast
  qed
qed

lemma resource_group_quota:
  assumes "r \<in> set (resource_group e pool request now_ms)" and "x \<in> set pool"
    and "fresh_quota_remaining e (ready_id x) now_ms = Some q"
  shows "\<exists>q'. fresh_quota_remaining e (ready_id r) now_ms = Some q' \<and> unat q < unat q' + 1000"
proof -
  let ?qs = "List.map_filter (\<lambda>r. fresh_quota_remaining e (ready_id r) now_ms) pool"
  have q: "q \<in> set ?qs" using assms(2,3) by (auto simp: map_filter_set)
  then obtain best where best: "list_max ?qs = Some best"
    by (metis list.set_cases list_max_None not_Some_eq list.distinct(1))
  with assms(1) obtain q' where q': "fresh_quota_remaining e (ready_id r) now_ms = Some q'"
    "sat_sub best q' < quota_switch_margin e request (ready_id r)"
    by (auto simp: resource_group_def within_quota_band_def is_some_and_iff)
  have "quota_switch_margin e request (ready_id r) \<le> 1000"
    by (simp add: quota_switch_margin_def CACHE_AFFINITY_QUOTA_SWITCH_MARGIN_BASIS_POINTS_def
        QUOTA_SWITCH_MARGIN_BASIS_POINTS_def)
  then have "unat best < unat q' + 1000"
    using q'(2) by (simp add: word_nat)
  moreover have "unat q \<le> unat best"
    using list_max_upper [OF best q] by (simp add: word_le_nat_alt)
  ultimately show ?thesis using q'(1) by auto
qed

lemma soft_health_score:
  assumes "r \<in> set (soft_health_group pool)" and "x \<in> set pool"
  shows "unat (ready_failure_score r) < unat (ready_failure_score x) + 200"
proof -
  from assms obtain best where best: "list_min (map ready_failure_score pool) = Some best"
    by (metis list_min_None map_is_Nil_conv not_Some_eq list.set_cases list.distinct(1))
  with assms(1) have "sat_sub (ready_failure_score r) best < HEALTH_FAILURE_SWITCH_MARGIN_MILLI"
    by (auto simp: soft_health_group_def Let_def split: option.splits)
  moreover have "best \<le> ready_failure_score x" using list_min_Some [OF best] assms(2) by auto
  ultimately show ?thesis by (simp add: word_nat HEALTH_FAILURE_SWITCH_MARGIN_MILLI_def)
qed

section \<open>Properties\<close>

text \<open>the candidates a selection considers are one for each physical member: no two share a
  capacity key, and the capacity keys are those of the candidates that are ready now.\<close>

theorem one_entry_per_physical_member:
  assumes "engine_keyed e"
  shows "distinct (map ready_capacity_key (ready_candidates e request now_ms)) \<and>
    ready_capacity_key ` set (ready_candidates e request now_ms) =
    {capacity_key (candidate runtime) | cid runtime b. bget (candidates e) cid = Some runtime \<and>
       candidate_availability e request cid now_ms = AvReady b}"
proof -
  have "\<exists>cid runtime b. ready_capacity_key r = capacity_key (candidate runtime) \<and>
      bget (candidates e) cid = Some runtime \<and>
      candidate_availability e request cid now_ms = AvReady b"
    if r: "r \<in> set (ready_candidates e request now_ms)" for r
  proof -
    obtain cid runtime where c: "bget (candidates e) cid = Some runtime"
      "ready_entry e request now_ms runtime = Some r"
      by (rule ready_candidate_runtime [OF r])
    then have "ready_id r = cid"
      using assms ready_entry_Some(1) by (metis engine_keyed_def)
    then show ?thesis using c ready_entry_Some(2,3) by metis
  qed
  moreover have "capacity_key (candidate runtime) \<in>
      ready_capacity_key ` set (ready_candidates e request now_ms)"
    if "bget (candidates e) cid = Some runtime"
      "candidate_availability e request cid now_ms = AvReady b" for cid runtime b
    using ready_candidates_complete [OF assms that] by (metis image_eqI)
  ultimately show ?thesis using ready_candidates_distinct by blast
qed

text \<open>what is selected may be dispatched: the request admits the candidate, it is ready, and a
  recovery trial is selected only below the recovery concurrency and, when an ordinary
  alternative is ready, only with a recovery credit left.\<close>

theorem selection_is_admissible:
  assumes "select e request now_ms = Some s"
  shows "request_scope request (sel_candidate_id s) \<and>
    candidate_availability e request (sel_candidate_id s) now_ms = AvReady (sel_recovery s) \<and>
    (sel_recovery s \<longrightarrow> recovery_in_flight e < policy_max_in_flight (recovery_policy_of e) \<and>
       ((\<exists>r \<in> set (ready_candidates e request now_ms). \<not> ready_recovery r) \<longrightarrow>
          0 < recovery_credits e))"
proof -
  obtain r where r: "r \<in> set (fst (selection_candidates e request now_ms))"
    "sel_candidate_id s = ready_id r" "sel_recovery s = ready_recovery r"
    by (rule select_Some [OF assms])
  then have "candidate_availability e request (ready_id r) now_ms = AvReady (ready_recovery r)"
    by (simp add: eligible_part ready_candidates_available)
  moreover from this have "request_scope request (ready_id r)" by (auto simp: candidate_ready_iff)
  ultimately show ?thesis using r by (auto simp: eligible_part recovery_allowed_def)
qed

text \<open>a selection fails only for one of two reasons: no registered candidate is ready, or
  every physical member is represented by a recovery trial and the recovery concurrency is used
  up.\<close>

theorem selection_fails_only_when:
  assumes "engine_keyed e"
  shows "select e request now_ms = None \<longleftrightarrow>
    (\<forall>cid b. candidate_availability e request cid now_ms \<noteq> AvReady b) \<or>
    ((\<forall>r \<in> set (ready_candidates e request now_ms). ready_recovery r) \<and>
     policy_max_in_flight (recovery_policy_of e) \<le> recovery_in_flight e)"
proof -
  let ?ready = "ready_candidates e request now_ms"
  have "?ready = [] \<longleftrightarrow> (\<forall>cid b. candidate_availability e request cid now_ms \<noteq> AvReady b)"
  proof
    assume "?ready = []"
    with ready_candidates_complete [OF assms, of _ _ request now_ms]
    show "\<forall>cid b. candidate_availability e request cid now_ms \<noteq> AvReady b"
      by (fastforce simp: candidate_ready_iff)
  next
    assume none: "\<forall>cid b. candidate_availability e request cid now_ms \<noteq> AvReady b"
    have "r \<notin> set ?ready" for r
      using none ready_candidates_available by blast
    then show "?ready = []" by (metis all_not_in_conv set_empty)
  qed
  moreover have "fst (selection_candidates e request now_ms) = [] \<longleftrightarrow>
      ?ready = [] \<or> ((\<forall>r \<in> set ?ready. ready_recovery r) \<and>
        policy_max_in_flight (recovery_policy_of e) \<le> recovery_in_flight e)"
  proof (cases "\<forall>r \<in> set ?ready. ready_recovery r")
    case True
    then have "list_ex (\<lambda>r. \<not> ready_recovery r) ?ready = False" by (simp add: list_ex_iff)
    with True show ?thesis
      by (cases "?ready = []")
        (auto simp: selection_candidates_def Let_def filter_empty_conv recovery_allowed_def not_less)
  next
    case False
    then obtain r where "r \<in> set ?ready" "\<not> ready_recovery r" by blast
    then have "r \<in> set (fst (selection_candidates e request now_ms))" by (simp add: eligible_part)
    with False show ?thesis by auto
  qed
  ultimately show ?thesis by (simp add: select_None)
qed

text \<open>in failover mode the selected candidate has the highest priority of all eligible ones, and
  the smallest identifier among those of the same priority.\<close>

theorem failover_takes_highest_priority:
  assumes "mode e = Failover" and "select e request now_ms = Some s"
    and "r \<in> set (fst (selection_candidates e request now_ms))"
  shows "ready_priority r \<le> sel_priority s \<and>
    (ready_priority r = sel_priority s \<longrightarrow> sel_candidate_id s \<le> ready_id r)"
proof -
  let ?ready = "fst (selection_candidates e request now_ms)"
  obtain x where x: "x \<in> set (selection_group e ?ready request now_ms)"
    "sel_candidate_id s = ready_id x" "sel_priority s = ready_priority x"
    by (rule select_Some [OF assms(2)])
  then have "min_by priority_order ?ready = Some x"
    using assms(1) by (auto simp: selection_group_def opt_filter_def mode_group_def
        split: option.splits)
  from by_priority.min_by_least [OF this _ assms(3)] show ?thesis
    by (auto simp: priority_order_def then_with_greater x)
qed

text \<open>recovery is not starved: outside failover mode, when recovery trials are eligible the
  selection is one of them, the one that has been due for longest.\<close>

theorem recovery_trial_earliest_due:
  assumes "mode e \<noteq> Failover" and "r \<in> set (fst (selection_candidates e request now_ms))"
    and "ready_recovery r"
  shows "\<exists>s x. select e request now_ms = Some s \<and> sel_recovery s \<and>
    sel_candidate_id s = ready_id x \<and> x \<in> set (fst (selection_candidates e request now_ms)) \<and>
    due_at_ms x \<le> due_at_ms r"
proof -
  let ?ready = "fst (selection_candidates e request now_ms)"
  obtain x where x: "min_by due_order (filter ready_recovery ?ready) = Some x"
    using assms(2,3) by (metis filter_empty_conv min_by_None not_Some_eq)
  have in_x: "x \<in> set ?ready" "ready_recovery x" using min_by_in [OF x] by auto
  have "due_order x r \<noteq> GreaterThan"
    using by_due.min_by_least [OF x] assms(2,3) by simp
  then have "due_at_ms x \<le> due_at_ms r" by (auto simp: due_order_def then_with_greater)
  moreover have "selection_group e ?ready request now_ms = [x]"
    using x assms(1) by (simp add: selection_group_def)
  ultimately show ?thesis
    using in_x by (auto simp: select_def Let_def choose_singleton)
qed

text \<open>an automatic selection stays inside its margins: unless a recovery trial is due, the
  selected member carries at most one request more than the least loaded one (relative to their
  capacities), its fresh quota is within ten percent of the best of the load group, and its
  failure score within 200 thousandths of every member the resources leave.\<close>

theorem automatic_choice_within_margins:
  assumes "mode e = Automatic" and "0 < max_in_flight e"
    and "ready = fst (selection_candidates e request now_ms)"
    and "\<forall>r \<in> set ready. \<not> ready_recovery r" and "select e request now_ms = Some s"
  shows "\<exists>r \<in> set ready. ready_id r = sel_candidate_id s \<and>
    (\<forall>x \<in> set ready. (unat (ready_in_flight r) - 1) * unat (effective_capacity x)
        \<le> unat (ready_in_flight x) * unat (effective_capacity r)) \<and>
    (\<forall>x \<in> set (cache_aware_load_group ready request). \<forall>q.
       fresh_quota_remaining e (ready_id x) now_ms = Some q \<longrightarrow>
       (\<exists>q'. fresh_quota_remaining e (ready_id r) now_ms = Some q' \<and> unat q < unat q' + 1000)) \<and>
    (\<forall>x \<in> set (resource_group e (cache_aware_load_group ready request) request now_ms).
       unat (ready_failure_score r) < unat (ready_failure_score x) + 200)"
proof -
  let ?load = "cache_aware_load_group ready request"
  let ?resources = "resource_group e ?load request now_ms"
  obtain r where r: "r \<in> set (selection_group e ready request now_ms)"
    "sel_candidate_id s = ready_id r" "r \<in> set ready"
    unfolding assms(3) by (rule select_Some [OF assms(5)])
  have "filter ready_recovery ready = []" using assms(4) by (simp add: filter_empty_conv)
  then have h: "r \<in> set (soft_health_group ?resources)"
    using r(1) assms(1) by (simp add: selection_group_def mode_group_def)
  then have q: "r \<in> set ?resources" using soft_health_part by blast
  then have l: "r \<in> set ?load" using resource_part by blast
  have caps: "\<forall>x \<in> set ready. 0 < effective_capacity x"
    using effective_capacity_pos [OF assms(2)] ready_entry_Some(6)
    unfolding assms(3) by (metis eligible_part ready_candidate_runtime)
  show ?thesis
    using r cache_aware_load_bound [OF caps l] resource_group_quota [OF q] soft_health_score [OF h]
    by (intro bexI [of _ r]) auto
qed

text \<open>the lead that moves a durable cache owner is one-sided: two candidates never lead each
  other, and no candidate leads itself, so ownership cannot flip back on the same
  observations.\<close>

theorem material_lead_asymmetric:
  "\<not> (has_material_resource_lead e a b now_ms \<and> has_material_resource_lead e b a now_ms)"
proof -
  have "\<not> (m \<le> sat_sub x y \<and> m \<le> sat_sub y x)" if "0 < m" for m x y :: u64
    using that by (simp add: word_nat)
  from this [of CACHE_AFFINITY_QUOTA_SWITCH_MARGIN_BASIS_POINTS]
    this [of PROVIDER_CREDIT_SWITCH_MARGIN_MICRO_UNITS]
  show ?thesis
    by (auto simp: has_material_resource_lead_def CACHE_AFFINITY_QUOTA_SWITCH_MARGIN_BASIS_POINTS_def
        PROVIDER_CREDIT_SWITCH_MARGIN_MICRO_UNITS_def split: option.splits if_splits)
qed

section \<open>Evaluated instances\<close>

definition sample_request :: rotation_request where
  "sample_request = new_request 1 ''r'' ''m''"

definition sample_ready :: "bool \<Rightarrow> ready_candidate" where
  "sample_ready b =
     \<lparr>ready_id = ''a'', ready_capacity_key = ''a'', ready_in_flight = 0,
      effective_capacity = 1024, ready_priority = 0, ready_weight = 1, ready_recovery = b,
      due_at_ms = None, ready_failure_score = 0, ready_latency_ms = None\<rparr>"

definition trial_engine :: rotation_engine where
  "trial_engine = (sample_engine RateReady)\<lparr>circuits :=
     binsert (''a'', ''r'') (default_circuit\<lparr>circuit_state_of := Degraded\<rparr>) bempty\<rparr>"

lemmas ready_eval = ready_candidates_def bmap_eval keep_first_def ready_entry_def
  capacity_in_flight_def effective_capacity_of_def

lemma sample_available:
  "candidate_availability (sample_engine RateReady) sample_request ''a'' 5 = AvReady False"
  "candidate_availability ((sample_engine RateReady)\<lparr>mode := Failover\<rparr>) sample_request ''a'' 5
     = AvReady False"
  "candidate_availability trial_engine sample_request ''a'' 5 = AvReady True"
  by (simp_all add: candidate_ready_iff sample_request_def trial_engine_def sample_engine_eval)

lemma sample_ready_candidates:
  "ready_candidates (sample_engine RateReady) sample_request 5 = [sample_ready False]"
  "ready_candidates ((sample_engine RateReady)\<lparr>mode := Failover\<rparr>) sample_request 5
     = [sample_ready False]"
  "ready_candidates trial_engine sample_request 5 = [sample_ready True]"
  using sample_available
  by (simp_all add: ready_eval trial_engine_def sample_engine_def new_candidate_def
      default_engine_def sample_ready_def sample_request_def new_request_def default_circuit_def)

lemma sample_keyed: "engine_keyed (sample_engine r)"
  by (simp add: engine_keyed_def sample_engine_def new_candidate_def default_engine_def)

lemma trial_allowed: "recovery_allowed trial_engine False"
  by (simp add: recovery_allowed_def trial_engine_def sample_engine_def default_engine_def
      default_recovery_policy_def)

lemma sample_eligible:
  "fst (selection_candidates (sample_engine RateReady) sample_request 5) = [sample_ready False]"
  "fst (selection_candidates ((sample_engine RateReady)\<lparr>mode := Failover\<rparr>) sample_request 5)
     = [sample_ready False]"
  "fst (selection_candidates trial_engine sample_request 5) = [sample_ready True]"
  by (simp_all add: selection_candidates_def sample_ready_candidates trial_allowed Let_def)
    (simp_all add: sample_ready_def)

lemma sample_selects:
  "\<exists>s. select (sample_engine RateReady) sample_request 5 = Some s"
  "\<exists>s. select ((sample_engine RateReady)\<lparr>mode := Failover\<rparr>) sample_request 5 = Some s"
  using sample_eligible select_None by (metis list.distinct(1) not_Some_eq)+

theorem one_entry_per_physical_member_witness:
  "ready_capacity_key ` set (ready_candidates (sample_engine RateReady) sample_request 5) = {''a''}
   \<and> (\<exists>cid runtime b. bget (candidates (sample_engine RateReady)) cid = Some runtime \<and>
        ''a'' = capacity_key (candidate runtime) \<and>
        candidate_availability (sample_engine RateReady) sample_request cid 5 = AvReady b)"
proof -
  have a: "ready_capacity_key ` set (ready_candidates (sample_engine RateReady) sample_request 5)
      = {''a''}"
    by (simp add: sample_ready_candidates sample_ready_def)
  have "''a'' \<in> {capacity_key (candidate runtime) | cid runtime b.
      bget (candidates (sample_engine RateReady)) cid = Some runtime \<and>
      candidate_availability (sample_engine RateReady) sample_request cid 5 = AvReady b}"
    unfolding a [symmetric]
    one_entry_per_physical_member [OF sample_keyed [of RateReady], of sample_request 5,
      THEN conjunct2, symmetric]
    by (simp add: a)
  with a show ?thesis by blast
qed

theorem selection_is_admissible_witness:
  "\<exists>s. select (sample_engine RateReady) sample_request 5 = Some s \<and>
     request_scope sample_request (sel_candidate_id s)"
  using sample_selects(1) selection_is_admissible by blast

theorem selection_fails_only_when_witness:
  "\<not> (\<forall>cid b. candidate_availability (sample_engine RateReady) sample_request cid 5 \<noteq> AvReady b)
   \<and> select (sample_engine RateReady) sample_request 5 \<noteq> None"
  using selection_fails_only_when [OF sample_keyed [of RateReady], of sample_request 5]
    sample_selects(1) by auto

theorem failover_takes_highest_priority_witness:
  "\<exists>s. select ((sample_engine RateReady)\<lparr>mode := Failover\<rparr>) sample_request 5 = Some s \<and>
     0 \<le> sel_priority s"
proof -
  obtain s where s: "select ((sample_engine RateReady)\<lparr>mode := Failover\<rparr>) sample_request 5 = Some s"
    using sample_selects(2) by blast
  have "ready_priority (sample_ready False) \<le> sel_priority s"
    using failover_takes_highest_priority [OF _ s, of "sample_ready False"]
    by (simp add: sample_eligible)
  with s show ?thesis by (auto simp: sample_ready_def)
qed

theorem recovery_trial_earliest_due_witness:
  "\<exists>s. select trial_engine sample_request 5 = Some s \<and> sel_recovery s"
proof -
  have "mode trial_engine \<noteq> Failover" "ready_recovery (sample_ready True)"
    by (simp_all add: trial_engine_def sample_engine_def default_engine_def sample_ready_def)
  moreover have "sample_ready True \<in> set (fst (selection_candidates trial_engine sample_request 5))"
    by (simp add: sample_eligible)
  ultimately show ?thesis using recovery_trial_earliest_due by blast
qed

theorem automatic_choice_within_margins_witness:
  "\<exists>s. select (sample_engine RateReady) sample_request 5 = Some s \<and> sel_candidate_id s = ''a''"
proof -
  obtain s where s: "select (sample_engine RateReady) sample_request 5 = Some s"
    using sample_selects(1) by blast
  have "mode (sample_engine RateReady) = Automatic" "0 < max_in_flight (sample_engine RateReady)"
    "\<forall>r \<in> set [sample_ready False]. \<not> ready_recovery r"
    by (simp_all add: sample_engine_def default_engine_def sample_ready_def)
  from automatic_choice_within_margins [OF this(1,2) sample_eligible(1) [symmetric] this(3) s] s
  show ?thesis by (auto simp: sample_ready_def)
qed

text \<open>
  Two routes of one physical member: the first one is due for a recovery trial, the second one is
  healthy.  While the recovery concurrency is used up elsewhere, the trial entry stands for the
  member and is then dropped, so nothing is selected although the second route is ready.
\<close>

definition alias_engine :: rotation_engine where
  "alias_engine = default_engine\<lparr>
     candidates :=
       binsert ''b'' \<lparr>candidate = (new_candidate ''b'' ''r'' ''m'')\<lparr>capacity_key := ''k''\<rparr>, in_flight = 0\<rparr>
        (binsert ''a'' \<lparr>candidate = (new_candidate ''a'' ''r'' ''m'')\<lparr>capacity_key := ''k''\<rparr>, in_flight = 0\<rparr>
          bempty),
     circuits := binsert (''a'', ''r'') (default_circuit\<lparr>circuit_state_of := Degraded\<rparr>) bempty,
     recovery_in_flight := 1\<rparr>"

lemma alias_available:
  "candidate_availability alias_engine sample_request ''a'' 5 = AvReady True"
  "candidate_availability alias_engine sample_request ''b'' 5 = AvReady False"
  by (simp_all add: candidate_ready_iff sample_request_def alias_engine_def sample_engine_eval)

lemma trial_hides_ready_alias:
  "candidate_availability alias_engine sample_request ''b'' 5 = AvReady False \<and>
   select alias_engine sample_request 5 = None"
proof -
  have "\<exists>r. ready_candidates alias_engine sample_request 5 = [r] \<and> ready_recovery r"
    using alias_available
    by (simp add: ready_eval alias_engine_def new_candidate_def default_engine_def
        sample_request_def new_request_def)
  moreover have "\<not> recovery_allowed alias_engine b" for b
    by (simp add: recovery_allowed_def alias_engine_def default_engine_def
        default_recovery_policy_def)
  ultimately have "fst (selection_candidates alias_engine sample_request 5) = []"
    by (auto simp: selection_candidates_def Let_def)
  then show ?thesis by (simp add: select_None alias_available)
qed

end
