(* ===== verification/Fairness.thy ===== *)
theory Fairness
  imports Selection
begin

text \<open>
  Repeated selection in one group (\<open>choose_round_robin\<close>, \<open>choose_weighted\<close> and
  \<open>advance_rotation_state\<close> of \<open>scheduler/rotation/engine/admission.rs\<close>): the weighted rotation
  gives every member exactly its weight in each cycle, and the round robin visits every member once
  in each round.
\<close>

definition rotate_choose ::
  "rotation_engine \<Rightarrow> string \<Rightarrow> ready_candidate list \<Rightarrow> ready_candidate option" where
  "rotate_choose e route_key pool =
     (if mode e = RoundRobin then choose_round_robin e route_key pool
      else choose_weighted e route_key pool)"

text \<open>\<open>n\<close> selections in a row from the same group, oldest first, and the engine after them.\<close>

fun rotations ::
  "rotation_engine \<Rightarrow> string \<Rightarrow> ready_candidate list \<Rightarrow> nat \<Rightarrow> ready_candidate list \<times> rotation_engine"
  where
  "rotations e route_key pool 0 = ([], e)"
| "rotations e route_key pool (Suc n) =
     (case rotations e route_key pool n of (chosen, e') \<Rightarrow>
        (case rotate_choose e' route_key pool of
           None \<Rightarrow> (chosen, e')
         | Some r \<Rightarrow> (chosen @ [r], advance_rotation_state e' route_key pool (ready_id r) True)))"

section \<open>Weighted rotation\<close>

lemma fold_add_credit:
  assumes "distinct (map ready_capacity_key pool)"
  shows "bget (fold (add_credit route_key) pool m) (route_key, k) =
    (case find (\<lambda>x. ready_capacity_key x = k) pool of
       None \<Rightarrow> bget m (route_key, k)
     | Some x \<Rightarrow> Some (i64_clamp (unwrap_or (bget m (route_key, k)) 0 + weight_of x)))"
  using assms
proof (induction pool arbitrary: m)
  case (Cons x pool)
  have "find (\<lambda>y. ready_capacity_key y = ready_capacity_key x) pool = None"
    unfolding find_None_iff using Cons.prems by (metis distinct.simps(2) image_eqI list.simps(9) set_map)
  then show ?case
    using Cons.IH [of "add_credit route_key x m"] Cons.prems
    by (auto simp: add_credit_def credit_key_def split: option.split)
qed simp

lemma find_distinct:
  "distinct (map f xs) \<Longrightarrow> x \<in> set xs \<Longrightarrow> find (\<lambda>y. f y = f x) xs = Some x"
  by (induction xs) auto

lemma advance_credit:
  assumes "mode e \<noteq> RoundRobin"
    and "distinct (map ready_capacity_key pool)" "distinct (map ready_id pool)"
    and "r \<in> set pool" "x \<in> set pool"
  shows "credit_of (advance_rotation_state e route_key pool (ready_id r) b) route_key
      (ready_capacity_key x) =
    (if x = r
     then i64_clamp (i64_clamp (credit_of e route_key (ready_capacity_key x) + weight_of x)
            - total_weight pool)
     else i64_clamp (credit_of e route_key (ready_capacity_key x) + weight_of x))"
proof -
  have r: "find (\<lambda>y. ready_id y = ready_id r) pool = Some r"
    and x: "find (\<lambda>y. ready_capacity_key y = ready_capacity_key x) pool = Some x"
    by (rule find_distinct [OF assms(3,4)], rule find_distinct [OF assms(2,5)])
  have same: "ready_capacity_key x = ready_capacity_key r \<longleftrightarrow> x = r"
    using assms by (auto simp: distinct_map inj_on_def)
  let ?kept = "bretain (\<lambda>(route, capacity) _. route \<noteq> route_key \<or>
      capacity \<in> ready_capacity_key ` set pool) (rotation_credit e)"
  let ?raised = "fold (add_credit route_key) pool ?kept"
  have "bget ?kept (route_key, ready_capacity_key x)
      = bget (rotation_credit e) (route_key, ready_capacity_key x)"
    using assms(5) by (auto split: option.split)
  then have raised: "bget ?raised (route_key, ready_capacity_key x)
      = Some (i64_clamp (credit_of e route_key (ready_capacity_key x) + weight_of x))"
    unfolding fold_add_credit [OF assms(2)] by (simp only: x option.case credit_of_def)
  have "rotation_credit (advance_rotation_state e route_key pool (ready_id r) b)
      = bmodify (credit_key route_key r) (\<lambda>credit. i64_clamp (credit - total_weight pool)) ?raised"
    using assms(1) by (simp add: advance_rotation_state_def Let_def r)
  then have "bget (rotation_credit (advance_rotation_state e route_key pool (ready_id r) b))
      (route_key, ready_capacity_key x)
    = (if x = r then map_option (\<lambda>credit. i64_clamp (credit - total_weight pool))
         (bget ?raised (route_key, ready_capacity_key x))
       else bget ?raised (route_key, ready_capacity_key x))"
    using same by (simp only: bget_modify credit_key_def prod.inject simp_thms) auto
  then show ?thesis
    unfolding raised by (simp add: credit_of_def)
qed

lemma advance_mode [simp]:
  "mode (advance_rotation_state e route_key pool cid b) = mode e"
  by (simp add: advance_rotation_state_def Let_def split: option.split)

lemma rotations_mode [simp]: "mode (snd (rotations e route_key pool n)) = mode e"
  by (induction n) (auto split: prod.splits option.splits)

lemma rotate_choose_nonempty: "pool \<noteq> [] \<Longrightarrow> \<exists>r. rotate_choose e route_key pool = Some r"
  using choose_round_robin_some [of pool e route_key]
  by (auto simp: rotate_choose_def choose_weighted_def simp flip: not_None_eq)

lemma choose_weighted_greatest:
  assumes "choose_weighted e route_key pool = Some r" "\<not> list_all ready_recovery pool"
    "x \<in> set pool"
  shows "i64_clamp (credit_of e route_key (ready_capacity_key x) + weight_of x)
    \<le> i64_clamp (credit_of e route_key (ready_capacity_key r) + weight_of r)"
proof -
  have "max_by (credit_order e route_key) pool = Some r"
    using assms(1,2) by (simp add: choose_weighted_def)
  from by_credit.max_by_greatest [OF this _ assms(3)] show ?thesis
    by (auto simp: credit_order_def then_with_greater)
qed

lemma weight_of_nonneg: "0 \<le> weight_of x"
  by (simp add: weight_of_def)

lemma weight_of_pos: "0 < weight_of x \<longleftrightarrow> 0 < ready_weight x"
  by (simp only: weight_of_def word_less_nat_alt of_nat_0_less_iff unat_0)

lemma total_weight_nonneg: "0 \<le> total_weight pool"
  unfolding total_weight_def by (rule sum_list_nonneg) (auto simp: weight_of_nonneg)

lemma total_weight_sum: "distinct pool \<Longrightarrow> total_weight pool = sum weight_of (set pool)"
  by (simp add: total_weight_def sum.distinct_set_conv_list)

text \<open>
  The credits of a group during the rotation, as a function: the invariant is that they are the
  difference of what is due and what was given, and that none falls to minus the total weight.
\<close>

definition balanced ::
  "ready_candidate list \<Rightarrow> (ready_candidate \<Rightarrow> int) \<Rightarrow> nat \<Rightarrow> ready_candidate list \<Rightarrow> bool" where
  "balanced pool c n chosen \<longleftrightarrow>
     length chosen = n \<and> set chosen \<subseteq> set pool \<and>
     (\<forall>x \<in> set pool. c x = int n * weight_of x - total_weight pool * int (count_list chosen x) \<and>
        - total_weight pool < c x)"

lemma sum_count_list: "set xs \<subseteq> A \<Longrightarrow> finite A \<Longrightarrow> (\<Sum>x\<in>A. count_list xs x) = length xs"
proof (induction xs)
  case (Cons y ys)
  have "(\<Sum>x\<in>A. count_list (y # ys) x) = (\<Sum>x\<in>A. count_list ys x + (if y = x then 1 else 0))"
    by (intro sum.cong) auto
  then show ?case using Cons by (simp add: sum.distrib)
qed simp

lemma balanced_sum:
  assumes "balanced pool c n chosen" "distinct pool"
  shows "sum c (set pool) = 0"
proof -
  have "sum c (set pool)
      = (\<Sum>x\<in>set pool. int n * weight_of x - total_weight pool * int (count_list chosen x))"
    using assms(1) by (intro sum.cong) (auto simp: balanced_def)
  also have "\<dots> = int n * total_weight pool
      - total_weight pool * int (\<Sum>x\<in>set pool. count_list chosen x)"
    by (simp add: sum_subtractf sum_distrib_left total_weight_sum [OF assms(2)])
  also have "(\<Sum>x\<in>set pool. count_list chosen x) = n"
    using assms(1) by (simp add: balanced_def sum_count_list)
  finally show ?thesis by simp
qed

lemma balanced_upper:
  assumes "balanced pool c n chosen" "distinct pool" "x \<in> set pool"
  shows "c x \<le> int (length pool) * total_weight pool"
proof -
  let ?W = "total_weight pool" and ?rest = "set pool - {x}"
  have "sum (\<lambda>_. - ?W) ?rest \<le> sum c ?rest"
    using assms(1) by (intro sum_mono) (auto simp: balanced_def less_imp_le)
  moreover have "sum c (set pool) = c x + sum c ?rest"
    using assms(3) by (simp add: sum.remove)
  ultimately have "c x \<le> int (card ?rest) * ?W"
    using balanced_sum [OF assms(1,2)] by simp
  also have "\<dots> \<le> int (length pool) * ?W"
    using assms(2) card_Diff_subset
    by (intro mult_right_mono)
      (auto simp: total_weight_nonneg distinct_card card_Diff_singleton_if)
  finally show ?thesis .
qed

lemma balanced_some_positive:
  assumes "balanced pool c n chosen" "distinct pool" "0 < total_weight pool"
  shows "\<exists>x \<in> set pool. 0 < c x + weight_of x"
proof (rule ccontr)
  assume "\<not> ?thesis"
  then have "(\<Sum>x\<in>set pool. c x + weight_of x) \<le> 0" by (intro sum_nonpos) auto
  then show False
    using balanced_sum [OF assms(1,2)] total_weight_sum [OF assms(2)] assms(3)
    by (simp add: sum.distrib)
qed

lemma balanced_step:
  assumes "balanced pool c n chosen" "distinct pool" "0 < total_weight pool" "r \<in> set pool"
    and "\<forall>x \<in> set pool. c x + weight_of x \<le> c r + weight_of r"
    and "\<forall>x \<in> set pool. c' x = c x + weight_of x - (if x = r then total_weight pool else 0)"
  shows "balanced pool c' (Suc n) (chosen @ [r])"
proof -
  have "0 < c r + weight_of r"
    using balanced_some_positive [OF assms(1-3)] assms(5) by force
  moreover have "- total_weight pool < c x + weight_of x" if "x \<in> set pool" for x
    using assms(1) that weight_of_nonneg [of x] by (force simp: balanced_def)
  moreover have "c' x = int (Suc n) * weight_of x
      - total_weight pool * int (count_list (chosen @ [r]) x)" if "x \<in> set pool" for x
  proof -
    have "c x = int n * weight_of x - total_weight pool * int (count_list chosen x)"
      using assms(1) that by (simp only: balanced_def)
    moreover have "c' x = c x + weight_of x - (if x = r then total_weight pool else 0)"
      using assms(6) that by blast
    ultimately show ?thesis by (cases "x = r") (simp_all add: algebra_simps)
  qed
  moreover have "- total_weight pool < c' x" if "x \<in> set pool" for x
    using calculation(1,2) assms(6) that by (cases "x = r") auto
  moreover have "length (chosen @ [r]) = Suc n" "set (chosen @ [r]) \<subseteq> set pool"
    using assms(1,4) by (auto simp: balanced_def)
  ultimately show ?thesis unfolding balanced_def by blast
qed

lemma weighted_balanced:
  assumes m: "mode e \<noteq> RoundRobin"
    and d: "distinct (map ready_capacity_key pool)" "distinct (map ready_id pool)"
    and w: "\<forall>x \<in> set pool. 0 < ready_weight x" and a: "\<not> list_all ready_recovery pool"
    and z: "\<forall>x \<in> set pool. credit_of e route_key (ready_capacity_key x) = 0"
    and b: "(int (length pool) + 1) * total_weight pool < 2 ^ 63"
  shows "balanced pool
    (\<lambda>x. credit_of (snd (rotations e route_key pool n)) route_key (ready_capacity_key x))
    n (fst (rotations e route_key pool n))"
proof (induction n)
  have dp: "distinct pool" using d(1) by (simp add: distinct_map)
  have "pool \<noteq> []" using a by auto
  then have W: "0 < total_weight pool"
    using w unfolding total_weight_sum [OF dp]
    by (intro sum_pos) (auto simp: weight_of_pos)
  {
    case 0
    then show ?case using z W by (simp add: balanced_def)
  next
    case (Suc n)
    obtain chosen e' where s: "rotations e route_key pool n = (chosen, e')" by fastforce
    let ?c = "\<lambda>x. credit_of e' route_key (ready_capacity_key x)"
    have bal: "balanced pool ?c n chosen" using Suc s by simp
    have m': "mode e' \<noteq> RoundRobin" using rotations_mode [of e route_key pool n] m s by simp
    obtain r where ch: "rotate_choose e' route_key pool = Some r"
      using rotate_choose_nonempty [OF \<open>pool \<noteq> []\<close>] by blast
    then have cw: "choose_weighted e' route_key pool = Some r" using m' by (simp add: rotate_choose_def)
    then have r: "r \<in> set pool" by (rule choose_weighted_in)
    have wle: "weight_of x \<le> total_weight pool" if "x \<in> set pool" for x
      unfolding total_weight_sum [OF dp] using that by (intro member_le_sum) (auto simp: weight_of_nonneg)
    have range: "- (2 ^ 63) \<le> ?c x + weight_of x - (if y then total_weight pool else 0) \<and>
        ?c x + weight_of x - (if y then total_weight pool else 0) \<le> 2 ^ 63 - 1"
      if "x \<in> set pool" for x y
    proof -
      have "- total_weight pool < ?c x" using bal that unfolding balanced_def by blast
      moreover have "?c x + weight_of x \<le> (int (length pool) + 1) * total_weight pool"
        using balanced_upper [OF bal dp that] wle [OF that] by (simp add: algebra_simps)
      moreover have "2 * total_weight pool \<le> (int (length pool) + 1) * total_weight pool"
        using \<open>pool \<noteq> []\<close> W by (intro mult_right_mono) (auto simp: Suc_leI)
      then have "2 * total_weight pool < 2 ^ 63" using b by linarith
      ultimately show ?thesis using b W weight_of_nonneg [of x] by (simp split: if_split)
    qed
    have clamp: "i64_clamp (?c x + weight_of x) = ?c x + weight_of x" if "x \<in> set pool" for x
      using range [OF that, of False] by (intro i64_clamp_id) auto
    have clamp': "i64_clamp (?c r + weight_of r - total_weight pool) = ?c r + weight_of r - total_weight pool"
      using range [OF r, of True] by (intro i64_clamp_id) auto
    have greatest: "\<forall>x \<in> set pool. ?c x + weight_of x \<le> ?c r + weight_of r"
      using choose_weighted_greatest [OF cw a] clamp r by simp
    have step: "\<forall>x \<in> set pool. credit_of (advance_rotation_state e' route_key pool (ready_id r) True)
        route_key (ready_capacity_key x)
      = ?c x + weight_of x - (if x = r then total_weight pool else 0)"
      using advance_credit [OF m' d r] clamp clamp' by simp
    show ?case
      using balanced_step [OF bal dp W r greatest step] s ch by simp
  }
qed

text \<open>C26: the weighted rotation is fair: starting from even credits, every member of a group is
  never ahead of its share by a full turn, and after as many selections as the weights add up to
  each member has been selected exactly as often as its weight says.\<close>

theorem weighted_rotation_fair:
  assumes "mode e \<noteq> RoundRobin"
    and "distinct (map ready_capacity_key pool)" "distinct (map ready_id pool)"
    and "\<forall>x \<in> set pool. 0 < ready_weight x" and "\<not> list_all ready_recovery pool"
    and "\<forall>x \<in> set pool. credit_of e route_key (ready_capacity_key x) = 0"
    and "(int (length pool) + 1) * total_weight pool < 2 ^ 63"
  shows "(\<forall>n. \<forall>x \<in> set pool.
      total_weight pool * int (count_list (fst (rotations e route_key pool n)) x)
        < int n * weight_of x + total_weight pool) \<and>
    (\<forall>x \<in> set pool.
      count_list (fst (rotations e route_key pool (nat (total_weight pool)))) x
        = unat (ready_weight x))"
proof -
  have dp: "distinct pool" using assms(2) by (simp add: distinct_map)
  note bal = weighted_balanced [OF assms]
  have share: "total_weight pool * int (count_list (fst (rotations e route_key pool n)) x)
      < int n * weight_of x + total_weight pool" if "x \<in> set pool" for n x
    using bal [of n] that by (force simp: balanced_def)
  let ?W = "total_weight pool" and ?rs = "fst (rotations e route_key pool (nat (total_weight pool)))"
  have W: "0 \<le> ?W" by (rule total_weight_nonneg)
  have le: "int (count_list ?rs x) \<le> weight_of x" if "x \<in> set pool" for x
  proof -
    have "?W * int (count_list ?rs x) < ?W * (weight_of x + 1)"
      using share [OF that, of "nat ?W"] W by (simp add: algebra_simps)
    then have "int (count_list ?rs x) < weight_of x + 1" using W by (simp add: mult_less_cancel_left)
    then show ?thesis by simp
  qed
  have "(\<Sum>x\<in>set pool. weight_of x - int (count_list ?rs x)) = 0"
  proof -
    have "(\<Sum>x\<in>set pool. count_list ?rs x) = nat ?W"
      using bal [of "nat ?W"] by (simp add: balanced_def sum_count_list)
    then have "(\<Sum>x\<in>set pool. int (count_list ?rs x)) = ?W"
      using W by (metis int_nat_eq of_nat_sum)
    then show ?thesis by (simp add: sum_subtractf total_weight_sum [OF dp])
  qed
  then have "weight_of x - int (count_list ?rs x) = 0" if "x \<in> set pool" for x
    using that le by (subst (asm) sum_nonneg_eq_0_iff) auto
  moreover have "count_list ?rs x = unat (ready_weight x)"
    if "weight_of x - int (count_list ?rs x) = 0" for x
    using that unfolding weight_of_def by linarith
  ultimately show ?thesis using share by blast
qed

section \<open>Round robin\<close>

text \<open>The cursor of a route stands exactly behind the member selected last.\<close>

definition cursor_at :: "rotation_engine \<Rightarrow> string \<Rightarrow> ready_candidate \<Rightarrow> bool" where
  "cursor_at e route_key r \<longleftrightarrow>
     map_option (cursor_position e) (bget (cursors e) route_key) = Some (ready_priority r, ready_id r)"

text \<open>
  The registry agrees with the group on the priority of a member: the first candidate of the
  capacity key has the priority of the entry, so a cursor is read back as it was written.
\<close>

definition stable_priority :: "rotation_engine \<Rightarrow> ready_candidate \<Rightarrow> bool" where
  "stable_priority e r \<longleftrightarrow>
     is_none_or (find (\<lambda>runtime. capacity_key (candidate runtime) = ready_capacity_key r)
         (bvalues (candidates e)))
       (\<lambda>runtime. priority (candidate runtime) = ready_priority r)"

lemma sorted_priority:
  assumes "distinct (map ready_id pool)" "i < j" "j < length pool"
  shows "priority_order (sort_by priority_order pool ! i) (sort_by priority_order pool ! j) = LessThan"
proof -
  let ?xs = "sort_by priority_order pool"
  have d: "distinct ?xs" using assms(1) by (simp add: distinct_map)
  have i: "?xs ! i \<in> set pool" "?xs ! j \<in> set pool"
    using assms(2,3) nth_mem [of _ ?xs] by simp_all
  have "priority_order (?xs ! i) (?xs ! j) \<noteq> GreaterThan"
    using by_priority.sorted_sort_by [of pool] assms(2,3) by (simp add: sorted_wrt_iff_nth_less)
  moreover have "ready_id (?xs ! i) \<noteq> ready_id (?xs ! j)"
  proof
    assume "ready_id (?xs ! i) = ready_id (?xs ! j)"
    then have "?xs ! i = ?xs ! j" using assms(1) i by (auto simp: distinct_map inj_on_def)
    then show False using d assms(2,3) by (simp add: nth_eq_iff_index_eq)
  qed
  then have "priority_order (?xs ! i) (?xs ! j) \<noteq> EqualTo"
    by (simp add: priority_order_def then_with_equal)
  ultimately show ?thesis by (cases "priority_order (?xs ! i) (?xs ! j)") auto
qed

lemma after_iff:
  "ready_priority x < ready_priority r \<or>
     (ready_priority x = ready_priority r \<and> ready_id r < ready_id x) \<longleftrightarrow>
   priority_order r x = LessThan"
  by (auto simp: priority_order_def then_with_cases split: if_splits)

lemma position_after:
  assumes "distinct (map ready_id pool)" "i < length pool"
  shows "position (\<lambda>x. priority_order (sort_by priority_order pool ! i) x = LessThan)
      (sort_by priority_order pool) = (if Suc i < length pool then Some (Suc i) else None)"
proof -
  let ?xs = "sort_by priority_order pool"
  have no: "priority_order (?xs ! i) (?xs ! j) \<noteq> LessThan" if "j \<le> i" for j
  proof (cases "j = i")
    case True
    then show ?thesis by (simp add: by_priority.refl)
  next
    case False
    then have "priority_order (?xs ! j) (?xs ! i) = LessThan"
      using sorted_priority [OF assms(1), of j i] assms(2) that by simp
    then show ?thesis using by_priority.swap [of "?xs ! j" "?xs ! i"] by simp
  qed
  show ?thesis
  proof (cases "Suc i < length pool")
    case True
    then show ?thesis
      using no sorted_priority [OF assms(1), of i "Suc i"] by (simp add: position_Some)
  next
    case False
    have "priority_order (?xs ! i) x \<noteq> LessThan" if x: "x \<in> set ?xs" for x
    proof -
      obtain j where "j < length ?xs" "x = ?xs ! j" using x by (metis in_set_conv_nth)
      then show ?thesis using no [of j] False by simp
    qed
    then show ?thesis using False by (simp add: position_None del: set_sort_by)
  qed
qed

lemma round_robin_next:
  assumes "distinct (map ready_id pool)" "i < length pool"
    and "cursor_at e route_key (sort_by priority_order pool ! i)"
  shows "choose_round_robin e route_key pool
    = Some (sort_by priority_order pool ! (Suc i mod length pool))"
proof -
  have "Suc i mod length pool = (if Suc i < length pool then Suc i else 0)"
    using assms(2) by (auto simp: mod_Suc)
  then show ?thesis
    using assms position_after [OF assms(1,2)]
    by (auto simp: choose_round_robin_def cursor_at_def Let_def after_iff)
qed

lemma advance_cursor_at:
  assumes "mode e = RoundRobin" "distinct (map ready_id pool)" "r \<in> set pool" "stable_priority e r"
  shows "cursor_at (advance_rotation_state e route_key pool (ready_id r) True) route_key r"
proof -
  have "find (\<lambda>y. ready_id y = ready_id r) pool = Some r" by (rule find_distinct [OF assms(2,3)])
  then show ?thesis
    using assms(1,4)
    by (auto simp: advance_rotation_state_def cursor_at_def cursor_position_def stable_priority_def
        is_none_or_def split: option.splits)
qed

lemma advance_candidates [simp]:
  "candidates (advance_rotation_state e route_key pool cid b) = candidates e"
  by (simp add: advance_rotation_state_def Let_def split: option.split)

lemma rotations_round_robin:
  assumes "mode e = RoundRobin" "distinct (map ready_id pool)" "pool \<noteq> []"
    and "\<forall>r \<in> set pool. stable_priority e r"
  shows "\<exists>s < length pool. \<forall>n. fst (rotations e route_key pool n) =
      map (\<lambda>k. sort_by priority_order pool ! ((s + k) mod length pool)) [0..<n]"
proof -
  let ?xs = "sort_by priority_order pool" and ?l = "length pool"
  obtain r0 where r0: "choose_round_robin e route_key pool = Some r0"
    using choose_round_robin_some [OF assms(3)] by blast
  then have "r0 \<in> set ?xs" using choose_round_robin_in by simp
  then obtain s where s: "s < ?l" "r0 = ?xs ! s" by (metis in_set_conv_nth length_sort_by)
  have inset: "?xs ! ((s + k) mod ?l) \<in> set pool" for k
    using nth_mem [of "(s + k) mod ?l" ?xs] assms(3) by simp
  have "fst (rotations e route_key pool n) = map (\<lambda>k. ?xs ! ((s + k) mod ?l)) [0..<n] \<and>
      candidates (snd (rotations e route_key pool n)) = candidates e \<and>
      (0 < n \<longrightarrow> cursor_at (snd (rotations e route_key pool n)) route_key (?xs ! ((s + (n - 1)) mod ?l)))"
    for n
  proof (induction n)
    case (Suc n)
    obtain rs e' where e': "rotations e route_key pool n = (rs, e')" by fastforce
    have m': "mode e' = RoundRobin" using rotations_mode [of e route_key pool n] assms(1) e' by simp
    let ?r = "?xs ! ((s + n) mod ?l)"
    have choice: "choose_round_robin e' route_key pool = Some ?r"
    proof (cases n)
      case 0
      then show ?thesis using e' r0 s by simp
    next
      case (Suc k)
      then have "cursor_at e' route_key (?xs ! ((s + k) mod ?l))" using Suc.IH e' by simp
      from round_robin_next [OF assms(2) _ this] show ?thesis
        using assms(3) Suc by (simp add: mod_Suc_eq)
    qed
    have "stable_priority e' ?r"
      using assms(4) inset Suc.IH e' by (simp add: stable_priority_def)
    from advance_cursor_at [OF m' assms(2) inset this]
    show ?case using Suc.IH e' choice m' by (simp add: rotate_choose_def)
  qed simp
  with s(1) show ?thesis by blast
qed

lemma mset_rotate_list: "mset (rotate n xs) = mset xs"
  by (metis append_take_drop_id mset_append rotate_drop_take union_commute)

text \<open>the round robin visits every member once a round: as many selections in a row as the group
  has members, from whatever cursor, select each member exactly once, and the next round repeats
  the order.\<close>

theorem round_robin_visits_all:
  assumes "mode e = RoundRobin" and "distinct (map ready_id pool)" and "pool \<noteq> []"
    and "\<forall>r \<in> set pool. stable_priority e r"
  shows "mset (fst (rotations e route_key pool (length pool))) = mset pool \<and>
    (\<forall>n. fst (rotations e route_key pool (n + length pool)) ! (n + length pool - 1) =
         fst (rotations e route_key pool (n + length pool)) ! (n - 1) \<or> n = 0)"
proof -
  let ?xs = "sort_by priority_order pool" and ?l = "length pool"
  obtain s where s: "s < ?l" and seq: "\<And>n. fst (rotations e route_key pool n) =
      map (\<lambda>k. ?xs ! ((s + k) mod ?l)) [0..<n]"
    using rotations_round_robin [OF assms] by blast
  have "map (\<lambda>k. ?xs ! ((s + k) mod ?l)) [0..<?l] = rotate s ?xs"
    by (rule nth_equalityI) (simp_all add: nth_rotate)
  then have "mset (fst (rotations e route_key pool ?l)) = mset pool"
    unfolding seq by (simp add: mset_rotate_list)
  moreover have "(s + (n + ?l - 1)) mod ?l = (s + (n - 1)) mod ?l" if "0 < n" for n
  proof -
    have "s + (n + ?l - 1) = s + (n - 1) + ?l" using that by simp
    then show ?thesis by (simp only: mod_add_self2)
  qed
  ultimately show ?thesis unfolding seq using s by auto
qed

section \<open>Evaluated instances\<close>

definition sample_member :: "string \<Rightarrow> u32 \<Rightarrow> ready_candidate" where
  "sample_member name w =
     (sample_ready False)\<lparr>ready_id := name, ready_capacity_key := name, ready_weight := w\<rparr>"

theorem weighted_rotation_fair_witness:
  "count_list (fst (rotations default_engine ''r'' [sample_member ''a'' 2, sample_member ''b'' 1] 3))
     (sample_member ''a'' 2) = 2"
proof -
  let ?pool = "[sample_member ''a'' 2, sample_member ''b'' 1]"
  have h: "mode default_engine \<noteq> RoundRobin" "distinct (map ready_capacity_key ?pool)"
    "distinct (map ready_id ?pool)" "\<forall>x \<in> set ?pool. 0 < ready_weight x"
    "\<not> list_all ready_recovery ?pool"
    "\<forall>x \<in> set ?pool. credit_of default_engine ''r'' (ready_capacity_key x) = 0"
    "(int (length ?pool) + 1) * total_weight ?pool < 2 ^ 63"
    by (simp_all add: default_engine_def sample_member_def sample_ready_def credit_of_def
        total_weight_def weight_of_def)
  have w: "total_weight ?pool = 3"
    by (simp add: total_weight_def weight_of_def sample_member_def)
  show ?thesis
    using weighted_rotation_fair [OF h] unfolding w by (simp add: sample_member_def)
qed

theorem round_robin_visits_all_witness:
  "mset (fst (rotations (default_engine\<lparr>mode := RoundRobin\<rparr>) ''r''
     [sample_member ''a'' 2, sample_member ''b'' 1] 2)) =
   {#sample_member ''a'' 2, sample_member ''b'' 1#}"
proof -
  let ?pool = "[sample_member ''a'' 2, sample_member ''b'' 1]"
  let ?e = "default_engine\<lparr>mode := RoundRobin\<rparr>"
  have "mode ?e = RoundRobin" "distinct (map ready_id ?pool)" "?pool \<noteq> []"
    "\<forall>r \<in> set ?pool. stable_priority ?e r"
    by (simp_all add: default_engine_def sample_member_def stable_priority_def)
  from round_robin_visits_all [OF this, of "''r''"]
  have "mset (fst (rotations ?e ''r'' ?pool (length ?pool))) = mset ?pool" by (rule conjunct1)
  moreover have "length ?pool = 2" by simp
  ultimately show ?thesis by (simp only: mset.simps)
qed

end
