(* ===== verification/Lifecycle.thy ===== *)
theory Lifecycle
  imports Selection
begin

text \<open>
  Reservation, the dispatch fence and idempotent settlement of a lease
  (\<open>scheduler/rotation/engine/lifecycle.rs\<close>).  A method on \<open>&mut self\<close> returns its result and
  the new engine; an early return inside it returns the engine as it is at that point.
\<close>

record attempt_observation =
  ao_execution :: execution_observation
  ao_health :: health_observation

record rotation_settlement =
  set_candidate_id :: string
  set_attempt_id :: "attempt_id option"
  set_retry :: retry_decision
  set_circuit :: circuit_snapshot
  observation_current :: bool

section \<open>Releasing a lease\<close>

definition release_candidate :: "lease_runtime \<Rightarrow> rotation_engine \<Rightarrow> rotation_engine" where
  "release_candidate lease e =
     (if bget (candidate_generations e) (lease_candidate_id lease) = Some (lease_generation lease)
      then e\<lparr>candidates := bmodify (lease_candidate_id lease)
               (\<lambda>runtime. runtime\<lparr>in_flight := sat_sub (in_flight runtime) 1\<rparr>) (candidates e)\<rparr>
      else e)"

definition release_physical :: "lease_runtime \<Rightarrow> rotation_engine \<Rightarrow> rotation_engine" where
  "release_physical lease e =
     (case bget (capacity_in_flight_map e) (lease_capacity_key lease) of
        None \<Rightarrow> e
      | Some held \<Rightarrow>
          let n = sat_sub held 1 in
          e\<lparr>capacity_in_flight_map :=
              (if n = 0 then bremove (lease_capacity_key lease) (capacity_in_flight_map e)
               else binsert (lease_capacity_key lease) n (capacity_in_flight_map e))\<rparr>)"

definition release_trial :: "lease_runtime \<Rightarrow> rotation_engine \<Rightarrow> rotation_engine" where
  "release_trial lease e =
     (if lease_recovery lease then
        e\<lparr>recovery_in_flight := sat_sub (recovery_in_flight e) 1,
          circuits := bmodify (lease_candidate_id lease, lease_route_key lease)
            (\<lambda>c. if half_open_lease c = Some (lease_id_of lease)
                 then c\<lparr>half_open_lease := None, circuit_state_of := Open\<rparr> else c) (circuits e)\<rparr>
      else e)"

definition release_capacity :: "lease_runtime \<Rightarrow> rotation_engine \<Rightarrow> rotation_engine" where
  "release_capacity lease e = release_trial lease (release_physical lease (release_candidate lease e))"

definition remove_lease :: "lease_id \<Rightarrow> rotation_engine \<Rightarrow> rotation_engine" where
  "remove_lease lid e = e\<lparr>leases := bremove lid (leases e)\<rparr>"

definition release_unstarted :: "rotation_engine \<Rightarrow> lease_id \<Rightarrow> bool \<times> rotation_engine" where
  "release_unstarted e lid =
     (case bget (leases e) lid of
        None \<Rightarrow> (False, e)
      | Some lease \<Rightarrow>
          if lease_attempt_id lease \<noteq> None then (False, e)
          else (True, release_capacity lease (remove_lease lid e)))"

section \<open>Reservation\<close>

definition circuit_incident_of :: "rotation_engine \<Rightarrow> route_id \<Rightarrow> u64" where
  "circuit_incident_of e key = (case bget (circuits e) key of None \<Rightarrow> 0 | Some c \<Rightarrow> incident c)"

text \<open>The single trial of a circuit: refused when another lease holds it.\<close>

definition begin_trial :: "rotation_engine \<Rightarrow> route_id \<Rightarrow> lease_id \<Rightarrow> bool \<times> rotation_engine" where
  "begin_trial e key lid =
     (let c = unwrap_or (bget (circuits e) key) default_circuit in
      if half_open_lease c \<noteq> None then (False, e\<lparr>circuits := binsert key c (circuits e)\<rparr>)
      else (True, e\<lparr>circuits := binsert key
              (c\<lparr>circuit_state_of := HalfOpen, half_open_lease := Some lid\<rparr>) (circuits e)\<rparr>))"

definition take_capacity :: "string \<Rightarrow> rotation_engine \<Rightarrow> rotation_engine" where
  "take_capacity key e =
     e\<lparr>capacity_in_flight_map := binsert key
         (case bget (capacity_in_flight_map e) key of None \<Rightarrow> 1 | Some held \<Rightarrow> sat_add held 1)
         (capacity_in_flight_map e)\<rparr>"

definition insert_lease ::
  "rotation_engine \<Rightarrow> candidate_runtime \<Rightarrow> lease_runtime \<Rightarrow> rotation_engine" where
  "insert_lease e runtime lease =
     (let e1 = e\<lparr>next_lease_id := lease_id_of lease,
                 candidates := binsert (lease_candidate_id lease)
                   (runtime\<lparr>in_flight := sat_add (in_flight runtime) 1\<rparr>) (candidates e)\<rparr>;
          e2 = take_capacity (lease_capacity_key lease) e1;
          e3 = (if lease_recovery lease
                then e2\<lparr>recovery_in_flight := sat_add (recovery_in_flight e2) 1\<rparr> else e2)
      in e3\<lparr>leases := binsert (lease_id_of lease) lease (leases e3)\<rparr>)"

definition new_lease ::
  "rotation_engine \<Rightarrow> rotation_request \<Rightarrow> ready_candidate \<Rightarrow> bool \<Rightarrow> candidate_runtime \<Rightarrow> lease_id \<Rightarrow>
   lease_runtime" where
  "new_lease e request selected ordinary_alternatives runtime lid =
     (let cid = ready_id selected; c = candidate runtime in
      \<lparr>lease_id_of = lid, lease_candidate_id = cid,
       lease_generation = unwrap_or (bget (candidate_generations e) cid) 0,
       lease_request_id = req_id request, lease_route_key = req_route_key request,
       lease_route = \<lparr>route_model = req_model request, route_operation = req_operation request\<rparr>,
       lease_capacity_key = capacity_key c, lease_recovery = ready_recovery selected,
       recovery_credit_required = ready_recovery selected \<and> ordinary_alternatives,
       lease_attempt_id = None,
       lease_circuit_epoch = snap_epoch (circuit_of e cid (req_route_key request)),
       lease_circuit_incident = circuit_incident_of e (cid, req_route_key request),
       lease_quota = quota c, lease_rate = rate c,
       lease_route_rate = bget (route_rates c) (req_route_key request)\<rparr>)"

definition lease_handle :: "lease_runtime \<Rightarrow> rotation_lease" where
  "lease_handle lease =
     \<lparr>rl_lease_id = lease_id_of lease, rl_candidate_id = lease_candidate_id lease,
      rl_request_id = lease_request_id lease, rl_route_key = lease_route_key lease,
      rl_recovery = lease_recovery lease\<rparr>"

definition is_ready :: "candidate_availability \<Rightarrow> bool" where
  "is_ready av = (case av of AvReady _ \<Rightarrow> True | _ \<Rightarrow> False)"

definition reserve ::
  "rotation_engine \<Rightarrow> rotation_request \<Rightarrow> u64 \<Rightarrow> (admission_error + rotation_lease) \<times> rotation_engine"
  where
  "reserve e request now_ms =
     (case selection_candidates e request now_ms of (ready, ordinary_alternatives) \<Rightarrow>
      let pool = selection_group e ready request now_ms in
      case choose_for_request e request pool of None \<Rightarrow> (Inl NoEligibleCandidate, e)
      | Some selected \<Rightarrow>
        if \<not> is_ready (candidate_availability e request (ready_id selected) now_ms)
        then (Inl AdmissionCandidateChanged, e)
        else
        (case bget (candidates e) (ready_id selected) of None \<Rightarrow> (Inl InvalidCandidate, e)
         | Some runtime \<Rightarrow>
           if concurrency_full runtime then (Inl AdmissionCandidateChanged, e)
           else
           (case checked_add (next_lease_id e) 1 of None \<Rightarrow> (Inl InvalidCandidate, e)
            | Some lid \<Rightarrow>
              if ready_recovery selected
                 \<and> policy_max_in_flight (recovery_policy_of e) \<le> recovery_in_flight e
              then (Inl AdmissionCandidateChanged, e)
              else
              (let lease = new_lease e request selected ordinary_alternatives runtime lid;
                   trial = (if ready_recovery selected
                            then begin_trial e (ready_id selected, req_route_key request) lid
                            else (True, e))
               in if \<not> fst trial then (Inl AdmissionCandidateChanged, snd trial)
                  else (Inr (lease_handle lease),
                    advance_rotation_state (insert_lease (snd trial) runtime lease)
                      (req_route_key request) pool (ready_id selected)
                      (req_owner request = None))))))"

section \<open>The dispatch fence\<close>

definition still_current :: "rotation_engine \<Rightarrow> lease_runtime \<Rightarrow> bool" where
  "still_current e lease =
     is_some_and (bget (candidates e) (lease_candidate_id lease)) (\<lambda>runtime.
       let c = candidate runtime in
       bget (candidate_generations e) (lease_candidate_id lease) = Some (lease_generation lease)
       \<and> enabled c \<and> \<not> draining c \<and> auth c = AuthReady
       \<and> quota c = lease_quota lease \<and> rate c = lease_rate lease
       \<and> bget (route_rates c) (lease_route_key lease) = lease_route_rate lease
       \<and> capacity_key c = lease_capacity_key lease
       \<and> is_some_and (bget (routes c) (lease_route_key lease)) (\<lambda>route.
           eq_ignore_ascii_case (route_model route) (route_model (lease_route lease))
           \<and> route_operation route = route_operation (lease_route lease)))"

definition begin_dispatch_internal ::
  "rotation_engine \<Rightarrow> lease_id \<Rightarrow> request_budget \<Rightarrow> bool \<Rightarrow> instant \<Rightarrow>
   (dispatch_start_error + attempt_id) \<times> rotation_engine \<times> request_budget" where
  "begin_dispatch_internal e lid b allow_retained_lease now =
     (case bget (leases e) lid of None \<Rightarrow> (Inl DispatchUnknownLease, e, b)
      | Some pending \<Rightarrow>
        if lease_request_id pending \<noteq> budget_request_id b
        then (Inl DispatchBudgetRequestMismatch, e, b)
        else if is_some_and (lease_attempt_id pending)
          (\<lambda>previous. \<not> allow_retained_lease \<or> ucast (dispatches b) < previous)
        then (Inl AlreadyStarted, e, b)
        else if \<not> still_current e pending then (Inl DispatchCandidateChanged, e, b)
        else
          (let circuit = circuit_of e (lease_candidate_id pending) (lease_route_key pending) in
           if snap_epoch circuit \<noteq> lease_circuit_epoch pending \<and> snap_state circuit \<noteq> Closed
           then (Inl DispatchCandidateChanged, e, b)
           else if recovery_credit_required pending \<and> recovery_credits e = 0
           then (Inl RecoveryBudgetExhausted, e, b)
           else
             (case start_dispatch b now of
                (None, b') \<Rightarrow> (Inl DispatchBudgetExhausted, e, b')
              | (Some attempt, b') \<Rightarrow>
                  (Inr attempt,
                   e\<lparr>recovery_credits :=
                       (if recovery_credit_required pending then sat_sub (recovery_credits e) 1
                        else recovery_credits e),
                     leases := bmodify lid (\<lambda>lease.
                       lease\<lparr>recovery_credit_required := False, lease_attempt_id := Some attempt\<rparr>)
                       (leases e)\<rparr>,
                   b'))))"

definition begin_dispatch ::
  "rotation_engine \<Rightarrow> lease_id \<Rightarrow> request_budget \<Rightarrow> instant \<Rightarrow>
   (dispatch_start_error + attempt_id) \<times> rotation_engine \<times> request_budget" where
  "begin_dispatch e lid b now = begin_dispatch_internal e lid b False now"

definition begin_transport_dispatch ::
  "rotation_engine \<Rightarrow> lease_id \<Rightarrow> request_budget \<Rightarrow> instant \<Rightarrow>
   (dispatch_start_error + attempt_id) \<times> rotation_engine \<times> request_budget" where
  "begin_transport_dispatch e lid b now = begin_dispatch_internal e lid b True now"

section \<open>Settlement\<close>

definition is_current :: "rotation_engine \<Rightarrow> lease_runtime \<Rightarrow> bool" where
  "is_current e lease =
     (bget (candidate_generations e) (lease_candidate_id lease) = Some (lease_generation lease)
      \<and> Option.bind (bget (candidates e) (lease_candidate_id lease))
          (\<lambda>runtime. bget (routes (candidate runtime)) (lease_route_key lease))
        = Some (lease_route lease))"

definition earn_credit :: "rotation_engine \<Rightarrow> rotation_engine" where
  "earn_credit e =
     (let n = sat_add (successful_requests_since_recovery e) 1 in
      if successful_requests_per_credit (recovery_policy_of e) \<le> n
      then e\<lparr>recovery_credits :=
               min (sat_add (recovery_credits e) 1) (initial_credits (recovery_policy_of e)),
             successful_requests_since_recovery := 0\<rparr>
      else e\<lparr>successful_requests_since_recovery := n\<rparr>)"

definition settle_retry :: "request_budget \<Rightarrow> attempt_observation \<Rightarrow> instant \<Rightarrow> retry_decision" where
  "settle_retry b observation now =
     (case ao_health observation of
        HealthSuccess \<Rightarrow> Stop StopSucceeded
      | HealthCancelled \<Rightarrow> Stop StopCancelled
      | HealthBusy \<Rightarrow> Stop StopTerminalHealthObservation
      | ClientError \<Rightarrow> Stop StopTerminalHealthObservation
      | LocalError \<Rightarrow> Stop StopTerminalHealthObservation
      | MonitoringFailure \<Rightarrow> Stop StopTerminalHealthObservation
      | CountableTransient _ \<Rightarrow> retry_decision_of b (ao_execution observation) now
      | HealthUnknown \<Rightarrow> retry_decision_of b (ao_execution observation) now)"

definition settle_health ::
  "rotation_engine \<Rightarrow> lease_runtime \<Rightarrow> health_observation \<Rightarrow> bool \<Rightarrow> u64 \<Rightarrow> u64 option \<Rightarrow>
   rotation_engine" where
  "settle_health e lease outcome counted now_ms first_output_latency =
     (let e1 = (if counted \<and> \<not> lease_recovery lease \<and> lease_attempt_id lease \<noteq> None
                   \<and> outcome = HealthSuccess then earn_credit e else e)
      in if \<not> counted then e1
         else
           (let e2 = observe_health e1 (lease_candidate_id lease) (lease_route_key lease) outcome now_ms
            in if outcome = HealthSuccess
               then observe_first_output_latency e2 (lease_candidate_id lease)
                      (lease_route_key lease) first_output_latency now_ms
               else e2))"

definition dispatched_outcome :: "health_observation \<Rightarrow> bool" where
  "dispatched_outcome outcome =
     (case outcome of HealthSuccess \<Rightarrow> True | CountableTransient _ \<Rightarrow> True | _ \<Rightarrow> False)"

definition settle_with_latency ::
  "rotation_engine \<Rightarrow> lease_id \<Rightarrow> attempt_observation \<Rightarrow> request_budget \<Rightarrow> u64 \<Rightarrow> u64 option \<Rightarrow>
   instant \<Rightarrow> (settlement_error + rotation_settlement) \<times> rotation_engine" where
  "settle_with_latency e lid observation b now_ms first_output_latency now =
     (case bget (leases e) lid of None \<Rightarrow> (Inl SettleUnknownLease, e)
      | Some lease \<Rightarrow>
        if budget_request_id b \<noteq> lease_request_id lease then (Inl SettleBudgetRequestMismatch, e)
        else if lease_attempt_id lease = None \<and> dispatched_outcome (ao_health observation)
        then (Inl NotDispatched, e)
        else
          (let e1 = remove_lease lid e;
               current = is_current e1 lease;
               e2 = release_capacity lease e1;
               outcome = ao_health observation
           in case (if current then update_circuit e2 lease outcome now_ms
                    else ((circuit_of e2 (lease_candidate_id lease) (lease_route_key lease), False),
                          e2)) of
                ((circuit, counted), e3) \<Rightarrow>
                  (Inr \<lparr>set_candidate_id = lease_candidate_id lease,
                        set_attempt_id = lease_attempt_id lease,
                        set_retry = settle_retry b observation now,
                        set_circuit = circuit, observation_current = current\<rparr>,
                   settle_health e3 lease outcome counted now_ms first_output_latency)))"

definition settle ::
  "rotation_engine \<Rightarrow> lease_id \<Rightarrow> attempt_observation \<Rightarrow> request_budget \<Rightarrow> u64 \<Rightarrow> instant \<Rightarrow>
   (settlement_error + rotation_settlement) \<times> rotation_engine" where
  "settle e lid observation b now_ms now = settle_with_latency e lid observation b now_ms None now"

definition cancel ::
  "rotation_engine \<Rightarrow> lease_id \<Rightarrow> request_budget \<Rightarrow> u64 \<Rightarrow> instant \<Rightarrow>
   (settlement_error + rotation_settlement) \<times> rotation_engine" where
  "cancel e lid b now_ms now =
     settle e lid \<lparr>ao_execution = obs_unknown, ao_health = HealthCancelled\<rparr> b now_ms now"

end
