(* ===== verification/Registry.thy ===== *)
theory Registry
  imports Lifecycle
begin

text \<open>
  The registry of candidates, their observations and the physical capacity limits
  (\<open>scheduler/rotation/engine/registry.rs\<close>).
\<close>

section \<open>Settings\<close>

definition set_mode :: "rotation_engine \<Rightarrow> rotation_mode \<Rightarrow> rotation_engine" where
  "set_mode e m = (if mode e \<noteq> m then e\<lparr>rotation_credit := bempty, mode := m\<rparr> else e)"

definition set_quota_stale_after_ms :: "rotation_engine \<Rightarrow> u64 \<Rightarrow> rotation_engine" where
  "set_quota_stale_after_ms e stale_after_ms = e\<lparr>quota_stale_after_ms := max stale_after_ms 1\<rparr>"

definition set_max_in_flight :: "rotation_engine \<Rightarrow> u32 \<Rightarrow> (string + unit) \<times> rotation_engine" where
  "set_max_in_flight e limit =
     (if limit = 0 \<or> 65536 < limit then (Inl ''rotation runtime capacity is invalid'', e)
      else (Inr (), e\<lparr>max_in_flight := limit\<rparr>))"

definition set_recovery_policy :: "rotation_engine \<Rightarrow> recovery_policy \<Rightarrow> rotation_engine" where
  "set_recovery_policy e policy =
     (let p = policy\<lparr>successful_requests_per_credit := max (successful_requests_per_credit policy) 1,
                policy_max_in_flight := max (policy_max_in_flight policy) 1\<rparr>
      in e\<lparr>recovery_policy_of := p, recovery_credits := min (recovery_credits e) (initial_credits p)\<rparr>)"

definition all_capacity_reserved :: "rotation_engine \<Rightarrow> bool" where
  "all_capacity_reserved e =
     (unat (max_in_flight e) \<le> bsize (leases e) \<or>
      list_all (\<lambda>runtime.
          (0 < capacity_limit_of e (capacity_key (candidate runtime)) \<and>
           capacity_limit_of e (capacity_key (candidate runtime))
             \<le> capacity_in_flight e (capacity_key (candidate runtime)))
          \<or> concurrency_full runtime)
        (bvalues (candidates e)))"

section \<open>Members\<close>

definition recompute_capacity_limit :: "string \<Rightarrow> rotation_engine \<Rightarrow> rotation_engine" where
  "recompute_capacity_limit key e =
     (let members = filter (\<lambda>runtime. capacity_key (candidate runtime) = key)
            (bvalues (candidates e))
      in if members = [] then e\<lparr>capacity_limits := bremove key (capacity_limits e)\<rparr>
         else
           (let limits = concat (map (\<lambda>runtime.
                  [capacity_limit (candidate runtime), max_concurrency (candidate runtime)]) members)
            in e\<lparr>capacity_limits := binsert key
                 (unwrap_or (list_min (filter (\<lambda>limit. 0 < limit) limits)) 0)
                 (capacity_limits e)\<rparr>))"

definition prune_round_robin_cursors :: "rotation_engine \<Rightarrow> rotation_engine" where
  "prune_round_robin_cursors e =
     e\<lparr>cursors := bretain (\<lambda>route _.
         list_ex (\<lambda>runtime. bcontains (routes (candidate runtime)) route) (bvalues (candidates e)))
         (cursors e)\<rparr>"

definition or_insert :: "'v \<Rightarrow> 'k::linorder \<Rightarrow> ('k, 'v) bmap \<Rightarrow> ('k, 'v) bmap" where
  "or_insert v k m = (case bget m k of None \<Rightarrow> binsert k v m | Some _ \<Rightarrow> m)"

text \<open>A configuration edit keeps what the provider reported about the candidate.\<close>

definition keep_observations :: "rotation_candidate \<Rightarrow> rotation_candidate \<Rightarrow> rotation_candidate" where
  "keep_observations old new =
     new\<lparr>auth := auth old, quota := quota old,
       quota_remaining_basis_points := quota_remaining_basis_points old,
       quota_observed_at_ms := quota_observed_at_ms old,
       provider_credits_micro_units := provider_credits_micro_units old,
       provider_credits_unlimited := provider_credits_unlimited old,
       provider_credits_observed_at_ms := provider_credits_observed_at_ms old,
       rate := rate old,
       route_rates := fold (or_insert RateReady) (bkeys (routes new))
         (bretain (\<lambda>route_key _. bcontains (routes new) route_key) (route_rates old))\<rparr>"

definition update_member ::
  "rotation_engine \<Rightarrow> candidate_runtime \<Rightarrow> rotation_candidate \<Rightarrow> rotation_engine" where
  "update_member e runtime new =
     (let old = candidate runtime; cid = rc_id new;
          same_route = (\<lambda>key. bget (routes new) key = bget (routes old) key)
      in e\<lparr>rotation_credit :=
             (if weight new \<noteq> weight old \<or> capacity_key new \<noteq> capacity_key old
                 \<or> routes old \<noteq> routes new
              then bempty else rotation_credit e),
           circuits := bretain (\<lambda>(name, key) _. name \<noteq> cid \<or> same_route key) (circuits e),
           health := bfilter_map (\<lambda>(name, key) h.
             if name \<noteq> cid then Some h
             else if bcontains (routes new) key
             then Some (if same_route key then h else h\<lparr>latency_window_of := []\<rparr>)
             else None) (health e),
           candidates := binsert cid (runtime\<lparr>candidate := keep_observations old new\<rparr>)
             (candidates e)\<rparr>)"

definition upsert ::
  "rotation_engine \<Rightarrow> rotation_candidate \<Rightarrow> (string + unit) \<times> rotation_engine" where
  "upsert e new =
     (case validate new of Inl message \<Rightarrow> (Inl message, e)
      | Inr _ \<Rightarrow>
        (let cid = rc_id new; key = capacity_key new in
         case bget (candidates e) cid of
           Some runtime \<Rightarrow>
             (let old = candidate runtime;
                  e1 = recompute_capacity_limit key (update_member e runtime new);
                  e2 = (if capacity_key old \<noteq> key
                        then recompute_capacity_limit (capacity_key old) e1 else e1)
              in (Inr (), if routes old \<noteq> routes new then prune_round_robin_cursors e2 else e2))
         | None \<Rightarrow>
             (case checked_add (next_candidate_generation e) 1 of
                None \<Rightarrow> (Inl ''rotation identity generation exhausted'', e)
              | Some generation \<Rightarrow>
                  (Inr (), recompute_capacity_limit key
                    (e\<lparr>next_candidate_generation := generation,
                       candidate_generations := binsert cid generation (candidate_generations e),
                       candidates := binsert cid \<lparr>candidate = new, in_flight = 0\<rparr>
                         (candidates e)\<rparr>)))))"

definition remove_candidate ::
  "rotation_engine \<Rightarrow> string \<Rightarrow> rotation_candidate option \<times> rotation_engine" where
  "remove_candidate e cid =
     (case bget (candidates e) cid of None \<Rightarrow> (None, e)
      | Some runtime \<Rightarrow>
          (Some (candidate runtime),
           prune_round_robin_cursors
             ((recompute_capacity_limit (capacity_key (candidate runtime))
                (e\<lparr>candidates := bremove cid (candidates e),
                   candidate_generations := bremove cid (candidate_generations e),
                   quota_revisions := bremove cid (quota_revisions e),
                   circuits := bretain (\<lambda>(name, _) _. name \<noteq> cid) (circuits e),
                   health := bretain (\<lambda>(name, _) _. name \<noteq> cid) (health e)\<rparr>))
              \<lparr>rotation_credit := bempty\<rparr>)))"

section \<open>Observations\<close>

text \<open>\<open>get_mut\<close> on the candidate: whether it was there, and the engine with it changed.\<close>

definition edit_candidate ::
  "rotation_engine \<Rightarrow> string \<Rightarrow> (rotation_candidate \<Rightarrow> rotation_candidate) \<Rightarrow> bool \<times> rotation_engine"
  where
  "edit_candidate e cid f =
     (case bget (candidates e) cid of None \<Rightarrow> (False, e)
      | Some runtime \<Rightarrow>
          (True, e\<lparr>candidates :=
             binsert cid (runtime\<lparr>candidate := f (candidate runtime)\<rparr>) (candidates e)\<rparr>))"

definition sync_candidate_state ::
  "rotation_engine \<Rightarrow> string \<Rightarrow> bool \<Rightarrow> bool \<Rightarrow> auth_state \<Rightarrow> quota_state \<Rightarrow> rate_state \<Rightarrow>
   bool \<times> rotation_engine" where
  "sync_candidate_state e cid on drain a q r =
     edit_candidate e cid
       (\<lambda>c. c\<lparr>enabled := on, draining := drain, auth := a, quota := q, rate := r\<rparr>)"

definition sync_candidate_route_rate ::
  "rotation_engine \<Rightarrow> string \<Rightarrow> string \<Rightarrow> rate_state \<Rightarrow> bool \<times> rotation_engine" where
  "sync_candidate_route_rate e cid route_key r =
     edit_candidate e cid (\<lambda>c. c\<lparr>route_rates := binsert route_key r (route_rates c)\<rparr>)"

definition set_auth :: "rotation_engine \<Rightarrow> string \<Rightarrow> auth_state \<Rightarrow> bool \<times> rotation_engine" where
  "set_auth e cid a = edit_candidate e cid (\<lambda>c. c\<lparr>auth := a\<rparr>)"

definition quota_revision :: "rotation_engine \<Rightarrow> string \<Rightarrow> u64" where
  "quota_revision e cid = unwrap_or (bget (quota_revisions e) cid) 0"

definition set_quota_if_newer ::
  "rotation_engine \<Rightarrow> string \<Rightarrow> quota_state \<Rightarrow> u64 \<Rightarrow> bool \<times> rotation_engine" where
  "set_quota_if_newer e cid q revision =
     (if revision \<le> quota_revision e cid then (False, e)
      else
        (case edit_candidate e cid (\<lambda>c.
             if q \<noteq> QAvailable
             then c\<lparr>quota := q, quota_remaining_basis_points := None, quota_observed_at_ms := None\<rparr>
             else c\<lparr>quota := q\<rparr>) of
           (False, _) \<Rightarrow> (False, e)
         | (True, e1) \<Rightarrow> (True, e1\<lparr>quota_revisions := binsert cid revision (quota_revisions e1)\<rparr>)))"

definition set_quota :: "rotation_engine \<Rightarrow> string \<Rightarrow> quota_state \<Rightarrow> bool \<times> rotation_engine" where
  "set_quota e cid q = set_quota_if_newer e cid q (sat_add (quota_revision e cid) 1)"

definition set_quota_remaining ::
  "rotation_engine \<Rightarrow> string \<Rightarrow> u64 option \<Rightarrow> u64 option \<Rightarrow> bool \<times> rotation_engine" where
  "set_quota_remaining e cid remaining_basis_points observed_ms =
     (let left = opt_filter (\<lambda>n. 0 < n) remaining_basis_points in
      edit_candidate e cid (\<lambda>c.
        c\<lparr>quota_remaining_basis_points := left,
          quota_observed_at_ms := opt_filter (\<lambda>_. left \<noteq> None) observed_ms\<rparr>))"

definition set_provider_credits ::
  "rotation_engine \<Rightarrow> string \<Rightarrow> u64 option \<Rightarrow> bool \<Rightarrow> u64 option \<Rightarrow> bool \<times> rotation_engine" where
  "set_provider_credits e cid credits unlimited observed_ms =
     edit_candidate e cid (\<lambda>c.
       c\<lparr>provider_credits_micro_units := credits, provider_credits_unlimited := unlimited,
         provider_credits_observed_at_ms := observed_ms\<rparr>)"

definition set_rate :: "rotation_engine \<Rightarrow> string \<Rightarrow> rate_state \<Rightarrow> bool \<times> rotation_engine" where
  "set_rate e cid r = edit_candidate e cid (\<lambda>c. c\<lparr>rate := r\<rparr>)"

definition set_enabled :: "rotation_engine \<Rightarrow> string \<Rightarrow> bool \<Rightarrow> bool \<times> rotation_engine" where
  "set_enabled e cid on = edit_candidate e cid (\<lambda>c. c\<lparr>enabled := on\<rparr>)"

end
