(* ===== verification/Accounting.thy ===== *)
theory Accounting
  imports Registry
begin

text \<open>
  The accounting of the rotation engine over all its operations.  The abstract state of the engine
  is its set of live leases; every counter (physical capacity, candidate, recovery) and every
  half-open circuit is a function of it.  \<open>accounted\<close> says so, each operation keeps it, and
  \<open>reachable_engine\<close> is the transition system of the operations from the default engine.
\<close>

section \<open>The invariant\<close>

definition leases_inv :: "rotation_engine \<Rightarrow> bool" where
  "leases_inv e \<longleftrightarrow>
     (\<forall>lid l. bget (leases e) lid = Some l \<longrightarrow> lease_id_of l = lid \<and> lid \<le> next_lease_id e) \<and>
     bsize (leases e) \<le> 65536 \<and> 0 < max_in_flight e \<and> unat (max_in_flight e) \<le> 65536"

definition capacity_inv :: "rotation_engine \<Rightarrow> bool" where
  "capacity_inv e \<longleftrightarrow>
     (\<forall>key. unat (capacity_in_flight e key) = bcount (\<lambda>l. lease_capacity_key l = key) (leases e))"

definition member_lease :: "string \<Rightarrow> u64 \<Rightarrow> lease_runtime \<Rightarrow> bool" where
  "member_lease cid g l \<longleftrightarrow> lease_candidate_id l = cid \<and> lease_generation l = g"

definition candidate_inv :: "rotation_engine \<Rightarrow> bool" where
  "candidate_inv e \<longleftrightarrow>
     (\<forall>cid runtime. bget (candidates e) cid = Some runtime \<longrightarrow> rc_id (candidate runtime) = cid \<and>
        bget (candidate_generations e) cid \<noteq> None \<and>
        (\<forall>g. bget (candidate_generations e) cid = Some g \<longrightarrow>
           g \<le> next_candidate_generation e \<and>
           unat (in_flight runtime) = bcount (member_lease cid g) (leases e))) \<and>
     (\<forall>lid l. bget (leases e) lid = Some l \<longrightarrow> lease_generation l \<le> next_candidate_generation e)"

definition recovery_inv :: "rotation_engine \<Rightarrow> bool" where
  "recovery_inv e \<longleftrightarrow> unat (recovery_in_flight e) = bcount lease_recovery (leases e)"

definition trial_of :: "rotation_engine \<Rightarrow> route_id \<Rightarrow> lease_id \<Rightarrow> bool" where
  "trial_of e key lid \<longleftrightarrow>
     (\<exists>l. bget (leases e) lid = Some l \<and> lease_recovery l \<and>
        lease_candidate_id l = fst key \<and> lease_route_key l = snd key)"

definition trial_inv :: "rotation_engine \<Rightarrow> bool" where
  "trial_inv e \<longleftrightarrow>
     (\<forall>key c. bget (circuits e) key = Some c \<longrightarrow>
        (circuit_state_of c = HalfOpen \<longrightarrow> half_open_lease c \<noteq> None) \<and>
        (\<forall>lid. half_open_lease c = Some lid \<longrightarrow> trial_of e key lid))"

definition accounted :: "rotation_engine \<Rightarrow> bool" where
  "accounted e \<longleftrightarrow>
     leases_inv e \<and> capacity_inv e \<and> candidate_inv e \<and> recovery_inv e \<and> trial_inv e"

lemmas accounted_parts = accounted_def leases_inv_def capacity_inv_def candidate_inv_def
  recovery_inv_def trial_inv_def trial_of_def capacity_in_flight_def

lemma accounted_keyed: "accounted e \<Longrightarrow> engine_keyed e"
  by (auto simp: accounted_def candidate_inv_def engine_keyed_def)

lemma accounted_trial:
  assumes "accounted e" and "bget (circuits e) key = Some c"
  shows "circuit_state_of c = HalfOpen \<Longrightarrow> half_open_lease c \<noteq> None"
    and "half_open_lease c = Some lid \<Longrightarrow> trial_of e key lid"
  using assms unfolding accounted_def trial_inv_def by blast+

section \<open>Operations that touch no counter\<close>

text \<open>The part of the engine the invariant reads, apart from the candidates.\<close>

definition same_books :: "rotation_engine \<Rightarrow> rotation_engine \<Rightarrow> bool" where
  "same_books e e' \<longleftrightarrow>
     leases e' = leases e \<and> next_lease_id e' = next_lease_id e \<and>
     capacity_in_flight_map e' = capacity_in_flight_map e \<and>
     recovery_in_flight e' = recovery_in_flight e \<and> max_in_flight e' = max_in_flight e"

lemma same_books_refl [simp]: "same_books e e"
  by (simp add: same_books_def)

lemma same_books_trans: "same_books e f \<Longrightarrow> same_books f g \<Longrightarrow> same_books e g"
  by (simp add: same_books_def)

lemma accounted_same_books:
  assumes "accounted e" and "same_books e e'"
    and "candidates e' = candidates e" "candidate_generations e' = candidate_generations e"
    and "next_candidate_generation e' = next_candidate_generation e" "circuits e' = circuits e"
  shows "accounted e'"
  using assms by (simp add: accounted_parts same_books_def)

lemma accounted_candidates:
  assumes "accounted e" and "same_books e e'"
    and "candidate_inv e'" and "\<And>key c. bget (circuits e') key = Some c \<Longrightarrow> bget (circuits e) key = Some c"
  shows "accounted e'"
proof -
  have "trial_of e' key lid = trial_of e key lid" for key lid
    using assms(2) by (simp add: trial_of_def same_books_def)
  then have "trial_inv e'"
    using assms(1,4) unfolding accounted_def trial_inv_def by metis
  moreover have "leases_inv e'" "capacity_inv e'" "recovery_inv e'"
    using assms(1,2) by (simp_all add: accounted_parts same_books_def)
  ultimately show ?thesis using assms(3) by (simp add: accounted_def)
qed

lemma edit_accounted:
  assumes "accounted e" and "\<And>c. rc_id (f c) = rc_id c"
  shows "accounted (snd (edit_candidate e cid f))"
proof (cases "bget (candidates e) cid")
  case (Some runtime)
  then show ?thesis
    using assms
    by (intro accounted_candidates [OF assms(1)])
      (auto simp: edit_candidate_def same_books_def candidate_inv_def accounted_def)
qed (use assms in \<open>simp add: edit_candidate_def\<close>)

lemma set_quota_if_newer_accounted:
  assumes "accounted e"
  shows "accounted (snd (set_quota_if_newer e cid q revision))"
proof -
  let ?f = "\<lambda>c. if q \<noteq> QAvailable
             then c\<lparr>quota := q, quota_remaining_basis_points := None, quota_observed_at_ms := None\<rparr>
             else c\<lparr>quota := q\<rparr>"
  have "accounted (snd (edit_candidate e cid ?f))" by (rule edit_accounted [OF assms]) simp
  then have "accounted ((snd (edit_candidate e cid ?f))\<lparr>quota_revisions := m\<rparr>)" for m
    by (rule accounted_same_books) (simp_all add: same_books_def)
  then show ?thesis
    using assms by (simp add: set_quota_if_newer_def split: prod.split bool.split)
      (metis snd_conv)
qed

lemma observation_ops_accounted:
  assumes "accounted e"
  shows "accounted (snd (sync_candidate_state e cid on drain a q r))"
    and "accounted (snd (sync_candidate_route_rate e cid route_key r))"
    and "accounted (snd (set_auth e cid a))"
    and "accounted (snd (set_quota e cid q))"
    and "accounted (snd (set_quota_remaining e cid n t))"
    and "accounted (snd (set_provider_credits e cid n unlimited t))"
    and "accounted (snd (set_rate e cid r))"
    and "accounted (snd (set_enabled e cid on))"
  unfolding sync_candidate_state_def sync_candidate_route_rate_def set_auth_def set_quota_def
    set_quota_remaining_def set_provider_credits_def set_rate_def set_enabled_def Let_def
  by (intro edit_accounted set_quota_if_newer_accounted assms, simp)+

lemma settings_accounted:
  assumes "accounted e"
  shows "accounted (set_mode e m)" and "accounted (set_quota_stale_after_ms e ms)"
    and "accounted (set_recovery_policy e p)" and "accounted (snd (set_max_in_flight e n))"
proof -
  show "accounted (set_mode e m)" "accounted (set_quota_stale_after_ms e ms)"
    "accounted (set_recovery_policy e p)"
    by (rule accounted_same_books [OF assms];
      simp add: set_mode_def set_quota_stale_after_ms_def set_recovery_policy_def same_books_def
        Let_def)+
  have "0 < n" if "n \<noteq> 0" using that by (simp add: word_neq_0_conv)
  moreover have "unat n \<le> 65536" if "\<not> 65536 < n" using that by (simp add: word_less_nat_alt)
  ultimately show "accounted (snd (set_max_in_flight e n))"
    using assms by (simp add: set_max_in_flight_def accounted_parts)
qed

section \<open>Registry\<close>

lemma recompute_same [simp]:
  "leases (recompute_capacity_limit key e) = leases e"
  "next_lease_id (recompute_capacity_limit key e) = next_lease_id e"
  "capacity_in_flight_map (recompute_capacity_limit key e) = capacity_in_flight_map e"
  "recovery_in_flight (recompute_capacity_limit key e) = recovery_in_flight e"
  "max_in_flight (recompute_capacity_limit key e) = max_in_flight e"
  "candidates (recompute_capacity_limit key e) = candidates e"
  "candidate_generations (recompute_capacity_limit key e) = candidate_generations e"
  "next_candidate_generation (recompute_capacity_limit key e) = next_candidate_generation e"
  "circuits (recompute_capacity_limit key e) = circuits e"
  by (simp_all add: recompute_capacity_limit_def Let_def)

lemma prune_same [simp]:
  "leases (prune_round_robin_cursors e) = leases e"
  "next_lease_id (prune_round_robin_cursors e) = next_lease_id e"
  "capacity_in_flight_map (prune_round_robin_cursors e) = capacity_in_flight_map e"
  "recovery_in_flight (prune_round_robin_cursors e) = recovery_in_flight e"
  "max_in_flight (prune_round_robin_cursors e) = max_in_flight e"
  "candidates (prune_round_robin_cursors e) = candidates e"
  "candidate_generations (prune_round_robin_cursors e) = candidate_generations e"
  "next_candidate_generation (prune_round_robin_cursors e) = next_candidate_generation e"
  "circuits (prune_round_robin_cursors e) = circuits e"
  by (simp_all add: prune_round_robin_cursors_def)

lemma update_member_accounted:
  assumes "accounted e" and "bget (candidates e) (rc_id new) = Some runtime"
  shows "accounted (update_member e runtime new)"
  using assms
  by (intro accounted_candidates [OF assms(1)])
    (auto simp: update_member_def same_books_def candidate_inv_def accounted_def Let_def
      keep_observations_def split: option.splits if_splits)

lemma insert_member_accounted:
  assumes "accounted e" and "bget (candidates e) (rc_id new) = None"
    and "checked_add (next_candidate_generation e) 1 = Some g"
  shows "accounted (e\<lparr>next_candidate_generation := g,
    candidate_generations := binsert (rc_id new) g (candidate_generations e),
    candidates := binsert (rc_id new) \<lparr>candidate = new, in_flight = 0\<rparr> (candidates e)\<rparr>)"
    (is "accounted ?e")
proof -
  have g: "next_candidate_generation e < g"
    using checked_add_unat [OF assms(3)] by (simp add: word_less_nat_alt)
  have old: "lease_generation l < g" if "bget (leases e) lid = Some l" for lid l
    using assms(1) that g unfolding accounted_def candidate_inv_def by (meson le_less_trans)
  then have "bcount (member_lease (rc_id new) g) (leases e) = 0"
    by (force simp: bcount_eq_0 member_lease_def)
  moreover have up: "x \<le> next_candidate_generation e \<Longrightarrow> x \<le> g" for x
    using g by simp
  ultimately have "candidate_inv ?e"
    using assms(1) unfolding accounted_def candidate_inv_def by (simp add: up)
  then show ?thesis
    by (intro accounted_candidates [OF assms(1)]) (simp_all add: same_books_def)
qed

lemma upsert_accounted:
  assumes "accounted e"
  shows "accounted (snd (upsert e new))"
proof -
  have rec: "accounted f \<Longrightarrow> accounted (recompute_capacity_limit key f)" for f key
    by (erule accounted_same_books) (simp_all add: same_books_def)
  have pr: "accounted f \<Longrightarrow> accounted (prune_round_robin_cursors f)" for f
    by (erule accounted_same_books) (simp_all add: same_books_def)
  show ?thesis
    using assms update_member_accounted [OF assms, of new] insert_member_accounted [OF assms, of new]
    by (auto simp: upsert_def Let_def intro!: rec pr split: sum.split option.split)
qed

lemma remove_accounted:
  assumes "accounted e"
  shows "accounted (snd (remove_candidate e cid))"
proof (cases "bget (candidates e) cid")
  case (Some runtime)
  then show ?thesis
    using assms
    by (intro accounted_candidates [OF assms])
      (auto simp: remove_candidate_def same_books_def candidate_inv_def accounted_def
        split: option.splits if_splits)
qed (use assms in \<open>simp add: remove_candidate_def\<close>)

section \<open>Leases\<close>

lemma release_fields [simp]:
  "leases (release_capacity l e) = leases e"
  "next_lease_id (release_capacity l e) = next_lease_id e"
  "max_in_flight (release_capacity l e) = max_in_flight e"
  "candidate_generations (release_capacity l e) = candidate_generations e"
  "next_candidate_generation (release_capacity l e) = next_candidate_generation e"
  "candidates (release_capacity l e) = candidates (release_candidate l e)"
  "capacity_in_flight (release_capacity l e) key = capacity_in_flight (release_physical l e) key"
  "recovery_in_flight (release_capacity l e) = recovery_in_flight (release_trial l e)"
  "circuits (release_capacity l e) = circuits (release_trial l e)"
  by (auto simp: release_capacity_def release_trial_def release_physical_def release_candidate_def
      capacity_in_flight_def Let_def split: option.split)

lemma remove_lease_fields [simp]:
  "leases (remove_lease lid e) = bremove lid (leases e)"
  "next_lease_id (remove_lease lid e) = next_lease_id e"
  "max_in_flight (remove_lease lid e) = max_in_flight e"
  "candidates (remove_lease lid e) = candidates e"
  "candidate_generations (remove_lease lid e) = candidate_generations e"
  "next_candidate_generation (remove_lease lid e) = next_candidate_generation e"
  "capacity_in_flight_map (remove_lease lid e) = capacity_in_flight_map e"
  "recovery_in_flight (remove_lease lid e) = recovery_in_flight e"
  "circuits (remove_lease lid e) = circuits e"
  by (simp_all add: remove_lease_def)

lemma release_physical_capacity:
  "unat (capacity_in_flight (release_physical l e) key) =
     (if key = lease_capacity_key l then unat (capacity_in_flight e key) - 1
      else unat (capacity_in_flight e key))"
proof (cases "bget (capacity_in_flight_map e) (lease_capacity_key l)")
  case None
  then show ?thesis by (simp add: release_physical_def capacity_in_flight_def)
next
  case (Some n)
  have "sat_sub n 1 = 0 \<Longrightarrow> unat n - 1 = 0" using unat_sat_sub [of n 1] by simp
  with Some show ?thesis
    by (simp add: release_physical_def capacity_in_flight_def Let_def unat_sat_sub)
qed

lemma bsize_remove_le: "bsize (bremove k m) \<le> bsize m"
  unfolding bremove_def by (rule bsize_retain_le)

lemma live_lease:
  assumes "accounted e" and "bget (leases e) lid = Some l"
  shows "lease_id_of l = lid" and "lease_generation l \<le> next_candidate_generation e"
    and "bcount P (bremove lid (leases e)) = bcount P (leases e) - (if P l then 1 else 0)"
  using assms bcount_remove_diff [OF assms(2)]
  by (auto simp: accounted_def leases_inv_def candidate_inv_def)

lemma released_capacity_inv:
  assumes "accounted e" and "bget (leases e) lid = Some l"
  shows "capacity_inv (release_capacity l (remove_lease lid e))"
  using assms(1) live_lease(3) [OF assms]
  by (auto simp: accounted_def capacity_inv_def release_physical_capacity)
    (simp_all add: capacity_in_flight_def)

lemma release_candidate_lookup:
  "bget (candidates (release_candidate l e)) cid =
     (if cid = lease_candidate_id l \<and> bget (candidate_generations e) cid = Some (lease_generation l)
      then map_option (\<lambda>runtime. runtime\<lparr>in_flight := sat_sub (in_flight runtime) 1\<rparr>)
             (bget (candidates e) cid)
      else bget (candidates e) cid)"
  by (auto simp: release_candidate_def)

lemma released_candidate_inv:
  assumes "accounted e" and "bget (leases e) lid = Some l"
  shows "candidate_inv (release_capacity l (remove_lease lid e))"
proof -
  have inv: "candidate_inv e" using assms(1) by (simp add: accounted_def)
  have "rc_id (candidate runtime) = cid \<and> bget (candidate_generations e) cid \<noteq> None \<and>
      (\<forall>g. bget (candidate_generations e) cid = Some g \<longrightarrow> g \<le> next_candidate_generation e \<and>
         unat (in_flight runtime) = bcount (member_lease cid g) (bremove lid (leases e)))"
    if "bget (candidates (release_candidate l (remove_lease lid e))) cid = Some runtime" for cid runtime
    using that inv
    by (auto simp: release_candidate_lookup live_lease(3) [OF assms] candidate_inv_def
        member_lease_def [of _ _ l] unat_sat_sub split: if_splits)
  then show ?thesis using inv unfolding candidate_inv_def by (auto split: if_splits)
qed

lemma released_recovery_inv:
  assumes "accounted e" and "bget (leases e) lid = Some l"
  shows "recovery_inv (release_capacity l (remove_lease lid e))"
  using assms(1) live_lease(3) [OF assms]
  by (auto simp: accounted_def recovery_inv_def release_trial_def unat_sat_sub)

lemma trial_key:
  assumes "accounted e" and "bget (leases e) lid = Some l"
    and "bget (circuits e) key = Some c" and "half_open_lease c = Some lid"
  shows "lease_recovery l \<and> key = (lease_candidate_id l, lease_route_key l)"
proof -
  have "trial_of e key lid" by (rule accounted_trial(2) [OF assms(1,3,4)])
  then show ?thesis using assms(2) by (auto simp: trial_of_def prod_eq_iff)
qed

lemma released_circuit:
  assumes "accounted e" and "bget (leases e) lid = Some l"
    and "bget (circuits (release_capacity l (remove_lease lid e))) key = Some c"
  shows "half_open_lease c \<noteq> Some lid \<and> (circuit_state_of c = HalfOpen \<longrightarrow> half_open_lease c \<noteq> None) \<and>
    (\<forall>t. half_open_lease c = Some t \<longrightarrow> trial_of e key t)"
proof -
  note id = live_lease(1) [OF assms(1,2)]
  obtain c0 where c0: "bget (circuits e) key = Some c0"
    using assms(3) by (auto simp: release_trial_def split: if_splits)
  have inv: "circuit_state_of c0 = HalfOpen \<longrightarrow> half_open_lease c0 \<noteq> None"
    "\<forall>t. half_open_lease c0 = Some t \<longrightarrow> trial_of e key t"
    using accounted_trial [OF assms(1) c0] by blast+
  show ?thesis
  proof (cases "half_open_lease c0 = Some lid")
    case True
    with trial_key [OF assms(1,2) c0] assms(3) c0 id
    have "c = c0\<lparr>half_open_lease := None, circuit_state_of := Open\<rparr>"
      by (auto simp: release_trial_def)
    then show ?thesis by simp
  next
    case False
    then have "c = c0" using assms(3) c0 id by (auto simp: release_trial_def split: if_splits)
    then show ?thesis using inv False by simp
  qed
qed

lemma released_trial_inv:
  assumes "accounted e" and "bget (leases e) lid = Some l"
  shows "trial_inv (release_capacity l (remove_lease lid e))"
proof -
  have "trial_of e key t \<Longrightarrow> t \<noteq> lid \<Longrightarrow> trial_of (release_capacity l (remove_lease lid e)) key t" for key t
    by (auto simp: trial_of_def)
  then show ?thesis using released_circuit [OF assms] unfolding trial_inv_def by metis
qed

lemma released_accounted:
  assumes "accounted e" and "bget (leases e) lid = Some l"
  shows "accounted (release_capacity l (remove_lease lid e))"
proof -
  have "leases_inv (release_capacity l (remove_lease lid e))"
    using assms(1) bsize_remove_le [of lid "leases e"] by (auto simp: accounted_def leases_inv_def)
  then show ?thesis
    using released_capacity_inv [OF assms] released_candidate_inv [OF assms]
      released_recovery_inv [OF assms] released_trial_inv [OF assms]
    by (simp add: accounted_def)
qed

lemma release_unstarted_accounted:
  "accounted e \<Longrightarrow> accounted (snd (release_unstarted e lid))"
  using released_accounted by (auto simp: release_unstarted_def split: option.split)

lemma accounted_circuits:
  assumes "accounted e" and "\<And>key c. bget m key = Some c \<Longrightarrow>
    (circuit_state_of c = HalfOpen \<longrightarrow> half_open_lease c \<noteq> None) \<and>
    (\<forall>lid. half_open_lease c = Some lid \<longrightarrow> trial_of e key lid)"
  shows "accounted (e\<lparr>circuits := m\<rparr>)"
proof -
  have "trial_of (e\<lparr>circuits := m\<rparr>) key lid = trial_of e key lid" for key lid
    by (simp add: trial_of_def)
  then have "trial_inv (e\<lparr>circuits := m\<rparr>)" using assms(2) unfolding trial_inv_def by simp
  moreover have "leases_inv (e\<lparr>circuits := m\<rparr>)" "capacity_inv (e\<lparr>circuits := m\<rparr>)"
    "candidate_inv (e\<lparr>circuits := m\<rparr>)" "recovery_inv (e\<lparr>circuits := m\<rparr>)"
    using assms(1) by (simp_all add: accounted_parts)
  ultimately show ?thesis by (simp add: accounted_def)
qed

lemma circuit_transition_trial:
  assumes "circuit_transition_of c l ob now_ms = (c', k)" and "half_open_lease c \<noteq> Some (lease_id_of l)"
  shows "half_open_lease c' = half_open_lease c" and "circuit_state_of c' = HalfOpen \<Longrightarrow> circuit_state_of c = HalfOpen"
  using assms
  by (cases ob; auto simp: circuit_transition_of_def close_circuit_def abort_recovery_def
      count_failure_def Let_def split: if_splits)+

lemma update_circuit_accounted:
  assumes "accounted e"
    and "\<And>c. bget (circuits e) (lease_candidate_id l, lease_route_key l) = Some c \<Longrightarrow>
      half_open_lease c \<noteq> Some (lease_id_of l)"
  shows "accounted (snd (update_circuit e l ob now_ms))"
proof -
  let ?key = "(lease_candidate_id l, lease_route_key l)"
  let ?c = "unwrap_or (bget (circuits e) ?key) default_circuit"
  obtain c' k where t: "circuit_transition_of ?c l ob now_ms = (c', k)" by fastforce
  have c: "(circuit_state_of ?c = HalfOpen \<longrightarrow> half_open_lease ?c \<noteq> None) \<and>
      (\<forall>lid. half_open_lease ?c = Some lid \<longrightarrow> trial_of e ?key lid)"
    using accounted_trial [OF assms(1), of ?key]
    by (cases "bget (circuits e) ?key") (auto simp: default_circuit_def)
  have "half_open_lease ?c \<noteq> Some (lease_id_of l)"
    using assms(2) by (cases "bget (circuits e) ?key") (auto simp: default_circuit_def)
  note tr = circuit_transition_trial [OF t this]
  have "accounted (e\<lparr>circuits := binsert ?key c' (circuits e)\<rparr>)"
  proof (rule accounted_circuits [OF assms(1)])
    fix key d
    assume d: "bget (binsert ?key c' (circuits e)) key = Some d"
    show "(circuit_state_of d = HalfOpen \<longrightarrow> half_open_lease d \<noteq> None) \<and>
        (\<forall>lid. half_open_lease d = Some lid \<longrightarrow> trial_of e key lid)"
    proof (cases "key = ?key")
      case True
      then show ?thesis using d tr c by auto
    next
      case False
      then have "bget (circuits e) key = Some d" using d by simp
      then show ?thesis using accounted_trial [OF assms(1)] by blast
    qed
  qed
  then show ?thesis by (simp add: update_circuit_def Let_def t)
qed

lemma settle_health_accounted:
  assumes "accounted e"
  shows "accounted (settle_health e l ob counted now_ms latency)"
  by (rule accounted_same_books [OF assms])
    (auto simp: same_books_def settle_health_def earn_credit_def observe_health_def
      observe_first_output_latency_def Let_def split: health_observation.split)

lemma settle_accounted:
  assumes "accounted e"
  shows "accounted (snd (settle_with_latency e lid ob b now_ms latency now))"
proof (cases "bget (leases e) lid")
  case None
  then show ?thesis using assms by (simp add: settle_with_latency_def)
next
  case (Some l)
  let ?e = "release_capacity l (remove_lease lid e)"
  have "accounted ?e" by (rule released_accounted [OF assms Some])
  moreover have "accounted (snd (update_circuit ?e l (ao_health ob) now_ms))"
    using released_circuit [OF assms Some] live_lease(1) [OF assms Some]
    by (intro update_circuit_accounted calculation) blast
  ultimately show ?thesis
    using assms Some settle_health_accounted
    by (auto simp: settle_with_latency_def Let_def split: prod.split if_splits)
qed

section \<open>Reservation\<close>

lemma admissible_not_full:
  "admissible e runtime route_key now_ms b \<Longrightarrow> \<not> concurrency_full runtime"
  by (cases "in_flight runtime = 0")
    (auto simp: admissible_def concurrency_full_def Let_def word_neq_0_conv split: if_splits)

lemma admissible_trial:
  "admissible e runtime route_key now_ms True \<Longrightarrow>
   half_open_lease (circuit_entry e (rc_id (candidate runtime)) route_key) = None"
  by (simp add: admissible_def Let_def)

definition begun :: "rotation_engine \<Rightarrow> lease_runtime \<Rightarrow> rotation_engine" where
  "begun e l =
     (if lease_recovery l
      then snd (begin_trial e (lease_candidate_id l, lease_route_key l) (lease_id_of l)) else e)"

text \<open>What a reservation does once a candidate is chosen: no later check of \<open>reserve\<close> can fail.\<close>

lemma reserve_selected:
  assumes "engine_keyed e" and "selection_candidates e request now_ms = (ready, ordinary)"
    and "choose_for_request e request (selection_group e ready request now_ms) = Some selected"
  shows "\<exists>runtime. bget (candidates e) (ready_id selected) = Some runtime \<and>
    admissible e runtime (req_route_key request) now_ms (ready_recovery selected) \<and>
    reserve e request now_ms =
      (case checked_add (next_lease_id e) 1 of
         None \<Rightarrow> (Inl InvalidCandidate, e)
       | Some lid \<Rightarrow>
           let l = new_lease e request selected ordinary runtime lid
           in (Inr (lease_handle l),
               advance_rotation_state (insert_lease (begun e l) runtime l) (req_route_key request)
                 (selection_group e ready request now_ms) (ready_id selected)
                 (req_owner request = None)))"
proof -
  have el: "selected \<in> set (fst (selection_candidates e request now_ms))"
    using choose_for_request_in [OF assms(3)] selection_group_part assms(2) by fastforce
  then have av: "candidate_availability e request (ready_id selected) now_ms
      = AvReady (ready_recovery selected)"
    by (simp add: eligible_part ready_candidates_available)
  then obtain runtime where r: "bget (candidates e) (ready_id selected) = Some runtime"
    "admissible e runtime (req_route_key request) now_ms (ready_recovery selected)"
    unfolding candidate_ready_iff by blast
  have id: "rc_id (candidate runtime) = ready_id selected"
    using assms(1) r(1) by (simp add: engine_keyed_def)
  have budget: "\<not> (ready_recovery selected \<and>
      policy_max_in_flight (recovery_policy_of e) \<le> recovery_in_flight e)"
    using el by (auto simp: eligible_part recovery_allowed_def not_le)
  have trial: "fst (begin_trial e (ready_id selected, req_route_key request) lid)"
    if "ready_recovery selected" for lid
    using admissible_trial [of e runtime "req_route_key request" now_ms] r(2) that id
    by (simp add: begin_trial_def circuit_entry_def Let_def)
  note facts = assms(2,3) av r(1) admissible_not_full [OF r(2)] budget
  have begun: "begun e (new_lease e request selected ordinary runtime lid) =
      snd (if ready_recovery selected
           then begin_trial e (ready_id selected, req_route_key request) lid else (True, e))" for lid
    by (simp add: begun_def new_lease_def Let_def)
  show ?thesis
    by (intro exI [of _ runtime] conjI r)
      (use facts trial begun in \<open>simp add: reserve_def is_ready_def Let_def split: option.split\<close>)
qed

lemma reserve_none:
  "select e request now_ms = None \<Longrightarrow> reserve e request now_ms = (Inl NoEligibleCandidate, e)"
  by (auto simp: select_def reserve_def Let_def split: prod.splits)

lemma reserve_Inr:
  assumes "engine_keyed e" and "reserve e request now_ms = (Inr handle, e')"
  obtains selected ordinary runtime lid l pool where
    "bget (candidates e) (ready_id selected) = Some runtime"
    "admissible e runtime (req_route_key request) now_ms (ready_recovery selected)"
    "checked_add (next_lease_id e) 1 = Some lid"
    "l = new_lease e request selected ordinary runtime lid" "handle = lease_handle l"
    "e' = advance_rotation_state (insert_lease (begun e l) runtime l) (req_route_key request)
       pool (ready_id selected) (req_owner request = None)"
    "choose_for_request e request pool = Some selected"
    "pool = selection_group e (fst (selection_candidates e request now_ms)) request now_ms"
    "ordinary = snd (selection_candidates e request now_ms)"
proof -
  obtain ready ordinary where sc: "selection_candidates e request now_ms = (ready, ordinary)"
    by fastforce
  let ?pool = "selection_group e ready request now_ms"
  obtain selected where ch: "choose_for_request e request ?pool = Some selected"
    using assms(2) sc by (auto simp: reserve_def Let_def split: option.splits)
  from reserve_selected [OF assms(1) sc ch] obtain runtime where
    r: "bget (candidates e) (ready_id selected) = Some runtime"
    "admissible e runtime (req_route_key request) now_ms (ready_recovery selected)"
    and res: "(Inr handle, e') =
      (case checked_add (next_lease_id e) 1 of
         None \<Rightarrow> (Inl InvalidCandidate, e)
       | Some lid \<Rightarrow>
           let l = new_lease e request selected ordinary runtime lid
           in (Inr (lease_handle l),
               advance_rotation_state (insert_lease (begun e l) runtime l) (req_route_key request)
                 ?pool (ready_id selected) (req_owner request = None)))"
    unfolding assms(2) by blast
  then obtain lid where lid: "checked_add (next_lease_id e) 1 = Some lid"
    by (cases "checked_add (next_lease_id e) 1") auto
  show ?thesis
    by (rule that [OF r lid refl _ _ ch]) (use res lid sc in \<open>simp_all add: Let_def\<close>)
qed

section \<open>Reservation keeps the accounts\<close>

lemma advance_same [simp]:
  "leases (advance_rotation_state e route_key pool cid b) = leases e"
  "next_lease_id (advance_rotation_state e route_key pool cid b) = next_lease_id e"
  "capacity_in_flight_map (advance_rotation_state e route_key pool cid b) = capacity_in_flight_map e"
  "recovery_in_flight (advance_rotation_state e route_key pool cid b) = recovery_in_flight e"
  "max_in_flight (advance_rotation_state e route_key pool cid b) = max_in_flight e"
  "candidates (advance_rotation_state e route_key pool cid b) = candidates e"
  "candidate_generations (advance_rotation_state e route_key pool cid b) = candidate_generations e"
  "next_candidate_generation (advance_rotation_state e route_key pool cid b) = next_candidate_generation e"
  "circuits (advance_rotation_state e route_key pool cid b) = circuits e"
  by (auto simp: advance_rotation_state_def Let_def split: option.split)

lemma begun_same [simp]:
  "leases (begun e l) = leases e" "next_lease_id (begun e l) = next_lease_id e"
  "capacity_in_flight_map (begun e l) = capacity_in_flight_map e"
  "recovery_in_flight (begun e l) = recovery_in_flight e"
  "max_in_flight (begun e l) = max_in_flight e" "candidates (begun e l) = candidates e"
  "candidate_generations (begun e l) = candidate_generations e"
  "next_candidate_generation (begun e l) = next_candidate_generation e"
  by (simp_all add: begun_def begin_trial_def Let_def)

lemma insert_lease_same [simp]:
  "leases (insert_lease e runtime l) = binsert (lease_id_of l) l (leases e)"
  "next_lease_id (insert_lease e runtime l) = lease_id_of l"
  "recovery_in_flight (insert_lease e runtime l) =
     (if lease_recovery l then sat_add (recovery_in_flight e) 1 else recovery_in_flight e)"
  "max_in_flight (insert_lease e runtime l) = max_in_flight e"
  "candidates (insert_lease e runtime l) = binsert (lease_candidate_id l)
     (runtime\<lparr>in_flight := sat_add (in_flight runtime) 1\<rparr>) (candidates e)"
  "candidate_generations (insert_lease e runtime l) = candidate_generations e"
  "next_candidate_generation (insert_lease e runtime l) = next_candidate_generation e"
  "circuits (insert_lease e runtime l) = circuits e"
  "capacity_in_flight (insert_lease e runtime l) key =
     (if key = lease_capacity_key l then sat_add (capacity_in_flight e key) 1
      else capacity_in_flight e key)"
  by (auto simp: insert_lease_def take_capacity_def capacity_in_flight_def Let_def sat_add_def
      split: option.split)

lemma unat_sat_add_small: "unat (x :: u32) \<le> 65536 \<Longrightarrow> unat (sat_add x 1) = Suc (unat x)"
  by (simp add: unat_sat_add)

lemma insert_lease_accounted:
  assumes acc: "accounted e" and r: "bget (candidates e) (lease_candidate_id l) = Some runtime"
    and id: "checked_add (next_lease_id e) 1 = Some (lease_id_of l)"
    and room: "bsize (leases e) < unat (max_in_flight e)"
    and gen: "bget (candidate_generations e) (lease_candidate_id l) = Some (lease_generation l)"
    and key: "lease_capacity_key l = capacity_key (candidate runtime)"
    and free: "lease_recovery l \<Longrightarrow>
      half_open_lease (circuit_entry e (lease_candidate_id l) (lease_route_key l)) = None"
  shows "accounted (insert_lease (begun e l) runtime l)"
proof -
  let ?e = "insert_lease (begun e l) runtime l"
  have inv: "leases_inv e" "capacity_inv e" "candidate_inv e" "recovery_inv e"
    using acc by (simp_all add: accounted_def)
  have later: "next_lease_id e < lease_id_of l"
    using checked_add_unat [OF id] by (simp add: word_less_nat_alt)
  have fresh: "bget (leases e) (lease_id_of l) = None"
  proof (rule ccontr)
    assume "bget (leases e) (lease_id_of l) \<noteq> None"
    then have "lease_id_of l \<le> next_lease_id e" using inv(1) by (auto simp: leases_inv_def)
    with later show False by simp
  qed
  have max: "unat (max_in_flight e) \<le> 65536" using inv(1) by (simp add: leases_inv_def)
  have small: "bcount P (leases e) \<le> 65536" for P
    using bcount_le_size [of P "leases e"] room max by linarith
  note counts = bcount_insert_fresh [OF fresh] unat_sat_add_small
  have "lid \<le> lease_id_of l" if "lid \<le> next_lease_id e" for lid using that later by simp
  then have "leases_inv ?e"
    using inv(1) room max bsize_insert_fresh [OF fresh] unfolding leases_inv_def by simp
  moreover have "capacity_inv ?e"
    using inv(2) small by (simp add: capacity_inv_def counts)
      (simp add: capacity_in_flight_def counts)
  moreover have "candidate_inv ?e"
    using inv(3) r gen small unfolding candidate_inv_def
    by (auto simp: counts member_lease_def [of _ _ l])
  moreover have "recovery_inv ?e"
    using inv(4) small by (simp add: recovery_inv_def counts)
  moreover have "trial_inv ?e"
  proof -
    have old: "trial_of e k lid \<Longrightarrow> trial_of ?e k lid" for k lid
      using fresh by (auto simp: trial_of_def)
    have new: "lease_recovery l \<Longrightarrow> trial_of ?e (lease_candidate_id l, lease_route_key l) (lease_id_of l)"
      by (simp add: trial_of_def)
    have "(circuit_state_of c = HalfOpen \<longrightarrow> half_open_lease c \<noteq> None) \<and>
        (\<forall>lid. half_open_lease c = Some lid \<longrightarrow> trial_of ?e k lid)"
      if "bget (circuits (begun e l)) k = Some c" for k c
    proof (cases "bget (circuits e) k = Some c")
      case True
      then show ?thesis using accounted_trial [OF acc True] old by blast
    next
      case False
      with that free have "lease_recovery l" "k = (lease_candidate_id l, lease_route_key l)"
        "half_open_lease c = Some (lease_id_of l)"
        by (auto simp: begun_def begin_trial_def Let_def circuit_entry_def split: if_splits)
      then show ?thesis using new by auto
    qed
    then show ?thesis unfolding trial_inv_def by simp
  qed
  ultimately show ?thesis by (simp add: accounted_def)
qed

lemma new_lease_fields [simp]:
  "lease_id_of (new_lease e request s ordinary runtime lid) = lid"
  "lease_candidate_id (new_lease e request s ordinary runtime lid) = ready_id s"
  "lease_route_key (new_lease e request s ordinary runtime lid) = req_route_key request"
  "lease_capacity_key (new_lease e request s ordinary runtime lid) = capacity_key (candidate runtime)"
  "lease_recovery (new_lease e request s ordinary runtime lid) = ready_recovery s"
  "lease_generation (new_lease e request s ordinary runtime lid)
     = unwrap_or (bget (candidate_generations e) (ready_id s)) 0"
  "lease_attempt_id (new_lease e request s ordinary runtime lid) = None"
  "lease_request_id (new_lease e request s ordinary runtime lid) = req_id request"
  by (simp_all add: new_lease_def Let_def)

lemma admissible_room:
  "admissible e runtime route_key now_ms b \<Longrightarrow>
   \<not> capacity_full e (capacity_key (candidate runtime)) \<and> bsize (leases e) < unat (max_in_flight e)"
  by (simp add: admissible_def capacity_full_def Let_def not_le)

lemma reserve_failed:
  assumes "engine_keyed e" and "reserve e request now_ms = (Inl err, e')"
  shows "e' = e"
proof (cases "select e request now_ms")
  case None
  then show ?thesis using reserve_none assms(2) by simp
next
  case (Some s)
  obtain ready ordinary where sc: "selection_candidates e request now_ms = (ready, ordinary)"
    by fastforce
  then obtain selected where
    ch: "choose_for_request e request (selection_group e ready request now_ms) = Some selected"
    using Some by (auto simp: select_def Let_def)
  from reserve_selected [OF assms(1) sc ch] assms(2) show ?thesis
    by (auto simp: Let_def split: option.splits)
qed

lemma reserve_accounted:
  assumes "accounted e"
  shows "accounted (snd (reserve e request now_ms))"
proof -
  obtain res e' where res: "reserve e request now_ms = (res, e')" by fastforce
  note keyed = accounted_keyed [OF assms]
  show ?thesis
  proof (cases res)
    case (Inl err)
    with res have "reserve e request now_ms = (Inl err, e')" by simp
    from reserve_failed [OF keyed this] show ?thesis using res assms by simp
  next
    case (Inr handle)
    with res have "reserve e request now_ms = (Inr handle, e')" by simp
    from keyed this obtain selected ordinary runtime lid l pool where
      r: "bget (candidates e) (ready_id selected) = Some runtime"
      "admissible e runtime (req_route_key request) now_ms (ready_recovery selected)"
      "checked_add (next_lease_id e) 1 = Some lid"
      "l = new_lease e request selected ordinary runtime lid"
      and e': "e' = advance_rotation_state (insert_lease (begun e l) runtime l) (req_route_key request)
         pool (ready_id selected) (req_owner request = None)"
      by (rule reserve_Inr)
    have ids: "rc_id (candidate runtime) = ready_id selected"
      using keyed r(1) by (simp add: engine_keyed_def)
    obtain g where "bget (candidate_generations e) (ready_id selected) = Some g"
      using assms r(1) by (fastforce simp: accounted_def candidate_inv_def)
    then have "accounted (insert_lease (begun e l) runtime l)"
      using r admissible_trial [of e runtime "req_route_key request" now_ms] ids
        admissible_room [OF r(2)]
      by (intro insert_lease_accounted [OF assms]) auto
    then have "accounted e'"
      unfolding e' by (rule accounted_same_books) (simp_all add: same_books_def)
    then show ?thesis using res by simp
  qed
qed

section \<open>Dispatch\<close>

lemma begin_dispatch_accounted:
  assumes "accounted e"
  shows "accounted (fst (snd (begin_dispatch_internal e lid b allow now)))"
proof -
  have "accounted (e\<lparr>recovery_credits := n, leases := bmodify lid (\<lambda>lease.
      lease\<lparr>recovery_credit_required := False, lease_attempt_id := Some attempt\<rparr>) (leases e)\<rparr>)"
    for n attempt
  proof -
    let ?f = "\<lambda>lease. lease\<lparr>recovery_credit_required := False, lease_attempt_id := Some attempt\<rparr>"
    have c: "bcount P (bmodify lid ?f (leases e)) = bcount P (leases e)"
      if "\<And>l. P (?f l) = P l" for P
      using that by (intro bcount_modify_same) auto
    have "bsize (bmodify lid ?f (leases e)) = bsize (leases e)"
      unfolding bsize_eq_count by (rule c) simp
    moreover have "trial_of (e\<lparr>recovery_credits := n, leases := bmodify lid ?f (leases e)\<rparr>) key t"
      if "trial_of e key t" for key t
      using that by (auto simp: trial_of_def)
    then have "trial_inv (e\<lparr>recovery_credits := n, leases := bmodify lid ?f (leases e)\<rparr>)"
      using assms accounted_trial [OF assms] unfolding trial_inv_def by simp
    ultimately show ?thesis
      using assms
      by (auto simp: accounted_def leases_inv_def capacity_inv_def candidate_inv_def
          recovery_inv_def c member_lease_def capacity_in_flight_def)
  qed
  note dispatched = this this [where n = "recovery_credits e", simplified]
  show ?thesis
    using assms dispatched by (simp add: begin_dispatch_internal_def Let_def split: option.split prod.split)
qed

section \<open>The transition system\<close>

text \<open>Every operation on \<open>&mut RotationEngine\<close>, with its arguments, in any order.\<close>

datatype engine_event =
    EvSetMode rotation_mode
  | EvSetQuotaStale u64
  | EvSetMaxInFlight u32
  | EvSetRecoveryPolicy recovery_policy
  | EvUpsert rotation_candidate
  | EvRemove string
  | EvSyncState string bool bool auth_state quota_state rate_state
  | EvSyncRouteRate string string rate_state
  | EvSetAuth string auth_state
  | EvSetQuota string quota_state
  | EvSetQuotaIfNewer string quota_state u64
  | EvSetQuotaRemaining string "u64 option" "u64 option"
  | EvSetProviderCredits string "u64 option" bool "u64 option"
  | EvSetRate string rate_state
  | EvSetEnabled string bool
  | EvReserve rotation_request u64
  | EvReleaseUnstarted lease_id
  | EvBeginDispatch lease_id request_budget bool instant
  | EvSettle lease_id attempt_observation request_budget u64 "u64 option" instant

fun engine_step :: "engine_event \<Rightarrow> rotation_engine \<Rightarrow> rotation_engine" where
  "engine_step (EvSetMode m) e = set_mode e m"
| "engine_step (EvSetQuotaStale ms) e = set_quota_stale_after_ms e ms"
| "engine_step (EvSetMaxInFlight n) e = snd (set_max_in_flight e n)"
| "engine_step (EvSetRecoveryPolicy p) e = set_recovery_policy e p"
| "engine_step (EvUpsert c) e = snd (upsert e c)"
| "engine_step (EvRemove cid) e = snd (remove_candidate e cid)"
| "engine_step (EvSyncState cid on drain a q r) e = snd (sync_candidate_state e cid on drain a q r)"
| "engine_step (EvSyncRouteRate cid key r) e = snd (sync_candidate_route_rate e cid key r)"
| "engine_step (EvSetAuth cid a) e = snd (set_auth e cid a)"
| "engine_step (EvSetQuota cid q) e = snd (set_quota e cid q)"
| "engine_step (EvSetQuotaIfNewer cid q revision) e = snd (set_quota_if_newer e cid q revision)"
| "engine_step (EvSetQuotaRemaining cid n t) e = snd (set_quota_remaining e cid n t)"
| "engine_step (EvSetProviderCredits cid n unlimited t) e =
     snd (set_provider_credits e cid n unlimited t)"
| "engine_step (EvSetRate cid r) e = snd (set_rate e cid r)"
| "engine_step (EvSetEnabled cid on) e = snd (set_enabled e cid on)"
| "engine_step (EvReserve request now_ms) e = snd (reserve e request now_ms)"
| "engine_step (EvReleaseUnstarted lid) e = snd (release_unstarted e lid)"
| "engine_step (EvBeginDispatch lid b allow now) e =
     fst (snd (begin_dispatch_internal e lid b allow now))"
| "engine_step (EvSettle lid ob b now_ms latency now) e =
     snd (settle_with_latency e lid ob b now_ms latency now)"

inductive reachable_engine :: "rotation_engine \<Rightarrow> bool" where
  initial: "reachable_engine default_engine"
| step: "reachable_engine e \<Longrightarrow> reachable_engine (engine_step event e)"

lemma engine_step_accounted: "accounted e \<Longrightarrow> accounted (engine_step event e)"
  using settings_accounted observation_ops_accounted upsert_accounted remove_accounted
    set_quota_if_newer_accounted reserve_accounted release_unstarted_accounted
    begin_dispatch_accounted settle_accounted
  by (cases event) simp_all

interpretation engine_runs: event_invariant engine_step accounted
  by unfold_locales (rule engine_step_accounted)

lemma default_accounted: "accounted default_engine"
  by (simp add: accounted_parts default_engine_def)

lemma reachable_accounted: "reachable_engine e \<Longrightarrow> accounted e"
  by (induction rule: reachable_engine.induct) (auto intro: default_accounted engine_step_accounted)

lemma reachable_runs: "reachable_engine e \<Longrightarrow> reachable_engine (fold engine_step events e)"
  by (induction events arbitrary: e) (auto intro: reachable_engine.step)

end
