(* ===== verification/Scenario.thy ===== *)
theory Scenario
  imports Accounting
begin

text \<open>
  One run of the engine, evaluated step by step: a member is registered, a request reserves it, is
  dispatched and fails, and after the pacing the next request becomes the recovery trial.  The
  states of this run are reachable; they are the concrete inputs of the guarantees.
\<close>

lemma bfilter_map_empty [simp]: "bfilter_map f bempty = bempty" "bretain P bempty = bempty"
  by (rule bmap_eqI; simp)+

definition member_engine :: rotation_engine where
  "member_engine = (sample_engine RateReady)\<lparr>next_candidate_generation := 1,
     candidate_generations := binsert ''a'' 1 bempty, capacity_limits := binsert ''a'' 0 bempty\<rparr>"

lemma member_engine_step:
  "engine_step (EvUpsert (new_candidate ''a'' ''r'' ''m'')) default_engine = member_engine"
  by (simp add: member_engine_def upsert_def validate_def invalid_identifier_def trim_def ws1_def
      new_candidate_def default_engine_def checked_add_def sample_engine_def
      recompute_capacity_limit_def bmap_eval Let_def)

lemmas member_eval = member_engine_def sample_engine_def new_candidate_def default_engine_def
  sample_request_def new_request_def

lemma member_ready: "ready_candidates member_engine sample_request 5 = [sample_ready False]"
proof -
  have "candidate_availability member_engine sample_request ''a'' 5 = AvReady False"
    by (simp add: candidate_ready_iff member_eval sample_engine_eval)
  then show ?thesis by (simp add: ready_eval member_eval sample_ready_def)
qed

lemma single_group:
  assumes "mode e = Automatic" "req_preferred request = None"
  shows "selection_group e [r] request now_ms = [r]"
proof -
  have least: "least_loaded_group [r] = [r]" by (simp add: least_loaded_group_def compare_load_nat)
  then have cache: "cache_aware_load_group [r] request = [r]"
    using assms by (simp add: cache_aware_load_group_def)
  have health: "soft_health_group [x] = [x]" for x
    using soft_health_nonempty [of "[x]"] unfolding soft_health_group_def list_min_def
    by (auto simp: Let_def list_min_def split: if_splits option.splits)
  have "resource_group e [r] request now_ms = [r]"
    using resource_nonempty [of "[r]" e request now_ms] unfolding resource_group_def
    by (auto split: option.splits if_splits)
  then have "mode_group e [r] request now_ms = [r]"
    using assms cache health by (simp add: mode_group_def)
  then show ?thesis by (simp add: selection_group_def split: option.split)
qed

definition served_lease :: lease_runtime where
  "served_lease = (sample_lease 1)\<lparr>lease_attempt_id := None\<rparr>"

definition served_engine :: rotation_engine where
  "served_engine = member_engine\<lparr>next_lease_id := 1,
     candidates := binsert ''a'' \<lparr>candidate = new_candidate ''a'' ''r'' ''m'', in_flight = 1\<rparr> bempty,
     capacity_in_flight_map := binsert ''a'' 1 bempty, leases := binsert 1 served_lease bempty,
     rotation_credit := binsert (''r'', ''a'') 0 bempty\<rparr>"

lemma reserve_single:
  assumes "engine_keyed e" "mode e = Automatic" "req_preferred request = None"
    and "ready_candidates e request now_ms = [r]" "bget (candidates e) (ready_id r) = Some runtime"
    and "recovery_allowed e (\<not> ready_recovery r)" "checked_add (next_lease_id e) 1 = Some lid"
  shows "reserve e request now_ms =
    (Inr (lease_handle (new_lease e request r (\<not> ready_recovery r) runtime lid)),
     advance_rotation_state
       (insert_lease (begun e (new_lease e request r (\<not> ready_recovery r) runtime lid)) runtime
         (new_lease e request r (\<not> ready_recovery r) runtime lid))
       (req_route_key request) [r] (ready_id r) (req_owner request = None))"
proof -
  have sc: "selection_candidates e request now_ms = ([r], \<not> ready_recovery r)"
    using assms(6) by (simp add: selection_candidates_def assms(4) Let_def)
  have "choose_for_request e request (selection_group e [r] request now_ms) = Some r"
    by (simp add: single_group assms choose_singleton)
  from reserve_selected [OF assms(1) sc this] show ?thesis
    using assms(5,7) by (auto simp: single_group assms Let_def)
qed

lemma served_engine_step:
  "reserve member_engine sample_request 5 = (Inr (lease_handle served_lease), served_engine)"
proof -
  have h: "engine_keyed member_engine" "mode member_engine = Automatic" "req_preferred sample_request = None"
     "bget (candidates member_engine) (ready_id (sample_ready False)) = Some \<lparr>candidate = new_candidate ''a'' ''r'' ''m'', in_flight = 0\<rparr>"
     "recovery_allowed member_engine (\<not> ready_recovery (sample_ready False))"
     "checked_add (next_lease_id member_engine) 1 = Some 1"
    by (simp_all add: member_eval engine_keyed_def sample_ready_def recovery_allowed_def checked_add_def default_recovery_policy_def)
  have "req_route_key sample_request = ''r''" "ready_id (sample_ready False) = ''a''" "req_owner sample_request = None" by (simp_all add: member_eval sample_ready_def)
  have l: "new_lease member_engine sample_request (sample_ready False) (\<not> ready_recovery (sample_ready False)) \<lparr>candidate = new_candidate ''a'' ''r'' ''m'', in_flight = 0\<rparr> 1 = served_lease"
    by (simp add: new_lease_def served_lease_def sample_lease_def member_eval sample_ready_def circuit_of_def circuit_snapshot_of_def default_circuit_def circuit_incident_of_def Let_def)
  show ?thesis unfolding reserve_single [OF h(1-3) member_ready h(4-6)] l
    by (simp add: served_engine_def begun_def served_lease_def sample_lease_def insert_lease_def take_capacity_def Let_def member_eval sat_add_def sample_ready_def 
     advance_rotation_state_def total_weight_def weight_of_def add_credit_def credit_key_def i64_clamp_def bmodify_def btree.insert_overwrites)
qed

definition sample_budget :: request_budget where
  "sample_budget = \<lparr>budget_request_id = 1, max_dispatches = 3, dispatches = 0,
     max_wire_attempts = 6, wire_attempts = 0, replay_stopped = False, admission_stopped = False,
     retry_started_at = None, retry_deadline = None, persistent_retry = False,
     budget_rate_limit_deadline = None, budget_http_headers_deadline = None,
     retry_window_ms = None\<rparr>"

definition dispatched_engine :: rotation_engine where
  "dispatched_engine = served_engine\<lparr>leases := binsert 1 (sample_lease 1) bempty\<rparr>"

lemma dispatched_engine_step:
  "begin_dispatch_internal served_engine 1 sample_budget False 0 =
     (Inr 1, dispatched_engine, sample_budget\<lparr>dispatches := 1\<rparr>)"
  by (simp add: begin_dispatch_internal_def served_engine_def dispatched_engine_def served_lease_def
      sample_lease_def sample_budget_def still_current_def member_eval circuit_of_def default_circuit_def
      circuit_snapshot_of_def start_dispatch_def can_dispatch_def retry_window_open_def bmodify_def
      sat_add_def Let_def btree.insert_overwrites)

definition sample_failure :: attempt_observation where
  "sample_failure = \<lparr>ao_execution = obs_not_sent, ao_health = CountableTransient None\<rparr>"

definition degraded_circuit :: circuit_runtime where
  "degraded_circuit = \<lparr>circuit_state_of = Degraded, failure_streak = 1, counted_requests = {1},
     not_before_ms = Some 260, epoch = 1, incident = 0, last_failure_at_ms = Some 10,
     half_open_lease = None, last_transition = TransitionFailure\<rparr>"

definition degraded_engine :: rotation_engine where
  "degraded_engine = dispatched_engine\<lparr>leases := bempty,
     candidates := binsert ''a'' \<lparr>candidate = new_candidate ''a'' ''r'' ''m'', in_flight = 0\<rparr> bempty,
     capacity_in_flight_map := bempty,
     circuits := binsert (''a'', ''r'') degraded_circuit bempty,
     health := binsert (''a'', ''r'')
       (default_health\<lparr>failure_score_milli := 250, health_observed_at_ms := Some 10\<rparr>) bempty\<rparr>"

lemma degraded_engine_step:
  "snd (settle_with_latency dispatched_engine 1 sample_failure sample_budget 10 None 0) = degraded_engine"
proof -
  have r: "release_capacity (sample_lease 1) (remove_lease 1 dispatched_engine) =
    dispatched_engine\<lparr>leases := bempty,
      candidates := binsert ''a'' \<lparr>candidate = new_candidate ''a'' ''r'' ''m'', in_flight = 0\<rparr> bempty,
      capacity_in_flight_map := bempty\<rparr>"
    by (simp add: release_capacity_def release_trial_def release_physical_def
        release_candidate_def remove_lease_def dispatched_engine_def served_engine_def member_eval
        sample_lease_def bmodify_def sat_sub_def Let_def btree.insert_overwrites btree.remove_insert)
  have c: "is_current (remove_lease 1 dispatched_engine) (sample_lease 1)"
    by (simp add: is_current_def dispatched_engine_def served_engine_def member_eval
        sample_lease_def)
  have t: "circuit_transition_of default_circuit (sample_lease 1) (CountableTransient None) 10
      = (degraded_circuit, True)"
    by (simp add: circuit_transition_of_def default_circuit_def count_failure_def sample_lease_def
        degraded_circuit_def failure_backoff_ms_def FIRST_TRANSIENT_PACING_MS_def
        CIRCUIT_FAILURE_THRESHOLD_def sat_add_def max_def word_le_nat_alt Let_def)
  have l: "bget (leases dispatched_engine) 1 = Some (sample_lease 1)"
    "circuits dispatched_engine = bempty" "health dispatched_engine = bempty"
    by (simp_all add: dispatched_engine_def served_engine_def member_eval)
  have i: "budget_request_id sample_budget = 1" "lease_request_id (sample_lease 1) = 1"
    "lease_attempt_id (sample_lease 1) = Some 1" "ao_health sample_failure = CountableTransient None"
    "lease_candidate_id (sample_lease 1) = ''a''" "lease_route_key (sample_lease 1) = ''r''"
    by (simp_all add: sample_budget_def sample_lease_def sample_failure_def)
  have h: "score_failure 0 = 250"
    by (simp add: score_failure_def HEALTH_EWMA_ALPHA_MILLI_def sat_add_def sat_mul_def)
  have d: "decay_score 0 n = 0" for n
    using decay_score_le [of 0 n] by (simp add: word_le_nat_alt unat_eq_0)
  show ?thesis
    by (simp add: settle_with_latency_def r c l i Let_def update_circuit_def t settle_health_def
        observe_health_def health_entry_def default_health_def d h degraded_engine_def)
qed

definition trial_lease :: lease_runtime where
  "trial_lease = served_lease\<lparr>lease_id_of := 2, lease_recovery := True, lease_circuit_epoch := 1\<rparr>"

definition on_trial_engine :: rotation_engine where
  "on_trial_engine = snd (reserve degraded_engine sample_request 1000)"

lemma on_trial_circuit:
  "bget (circuits on_trial_engine) (''a'', ''r'')
     = Some (degraded_circuit\<lparr>circuit_state_of := HalfOpen, half_open_lease := Some 2\<rparr>)"
proof -
  have av: "candidate_availability degraded_engine sample_request ''a'' 1000 = AvReady True"
    by (simp add: candidate_ready_iff degraded_engine_def dispatched_engine_def served_engine_def
        member_eval sample_engine_eval degraded_circuit_def) auto
  have id: "rc_id (new_candidate ''a'' ''r'' ''m'') = ''a''" "capacity_key (new_candidate ''a'' ''r'' ''m'') = ''a''"
    by (simp_all add: new_candidate_def)
  obtain r where re: "ready_entry degraded_engine sample_request 1000
      \<lparr>candidate = new_candidate ''a'' ''r'' ''m'', in_flight = 0\<rparr> = Some r"
    by (simp add: ready_entry_def id av Let_def)
  have rf: "ready_id r = ''a''" "ready_capacity_key r = ''a''" "ready_recovery r"
    using ready_entry_Some(1,2,3) [OF re] av id by simp_all
  have cands: "candidates degraded_engine
      = binsert ''a'' \<lparr>candidate = new_candidate ''a'' ''r'' ''m'', in_flight = 0\<rparr> bempty"
    by (simp add: degraded_engine_def)
  have "ready_candidates degraded_engine sample_request 1000 = [r]"
    by (simp add: ready_candidates_def cands bvalues_def re keep_first_def)
  moreover have "engine_keyed degraded_engine" by (simp add: engine_keyed_def cands id)
  moreover have "mode degraded_engine = Automatic" "req_preferred sample_request = None"
    "recovery_allowed degraded_engine False" "checked_add (next_lease_id degraded_engine) 1 = Some 2"
    "req_route_key sample_request = ''r''"
    by (simp_all add: degraded_engine_def dispatched_engine_def served_engine_def member_eval
        recovery_allowed_def default_recovery_policy_def checked_add_def)
  ultimately show ?thesis
    using reserve_single [of degraded_engine sample_request 1000 r _ 2] rf
    by (simp add: on_trial_engine_def cands begun_def begin_trial_def degraded_engine_def Let_def)
      (simp add: degraded_circuit_def)
qed

lemma scenario_reachable:
  "reachable_engine member_engine" "reachable_engine served_engine"
  "reachable_engine dispatched_engine" "reachable_engine degraded_engine"
  "reachable_engine on_trial_engine"
proof -
  show member: "reachable_engine member_engine"
    unfolding member_engine_step [symmetric] by (intro reachable_engine.intros)
  from reachable_engine.step [OF this, of "EvReserve sample_request 5"]
  show served: "reachable_engine served_engine" by (simp add: served_engine_step)
  from reachable_engine.step [OF this, of "EvBeginDispatch 1 sample_budget False 0"]
  show dispatched: "reachable_engine dispatched_engine" by (simp add: dispatched_engine_step)
  from reachable_engine.step [OF this, of "EvSettle 1 sample_failure sample_budget 10 None 0"]
  show degraded: "reachable_engine degraded_engine" by (simp add: degraded_engine_step)
  from reachable_engine.step [OF this, of "EvReserve sample_request 1000"]
  show "reachable_engine on_trial_engine" by (simp add: on_trial_engine_def)
qed

end
