(* ===== verification/Guarantees.thy ===== *)
theory Guarantees
  imports Scenario
begin

text \<open>
  What the rotation engine guarantees its callers, over its operations and over every reachable
  state: exact accounting, capacity limits, single recovery trials that end, reservations that agree
  with the selection, the dispatch fence, settlement at most once, and the fences of observations
  (quota revisions, generations, configuration edits).
\<close>

section \<open>Lemmas\<close>

lemma settle_unknown:
  "bget (leases e) lid = None \<Longrightarrow>
   settle_with_latency e lid ob b now_ms latency now = (Inl SettleUnknownLease, e)"
  by (simp add: settle_with_latency_def)

lemma update_circuit_same [simp]:
  "leases (snd (update_circuit e l ob now_ms)) = leases e"
  "capacity_in_flight_map (snd (update_circuit e l ob now_ms)) = capacity_in_flight_map e"
  "health (snd (update_circuit e l ob now_ms)) = health e"
  by (simp_all add: update_circuit_def Let_def split: prod.split)

lemma settle_health_same [simp]:
  "leases (settle_health e l ob counted now_ms latency) = leases e"
  "capacity_in_flight_map (settle_health e l ob counted now_ms latency) = capacity_in_flight_map e"
  "circuits (settle_health e l ob counted now_ms latency) = circuits e"
  "\<not> counted \<Longrightarrow> settle_health e l ob counted now_ms latency = e"
  by (auto simp: settle_health_def earn_credit_def observe_health_def
      observe_first_output_latency_def Let_def split: health_observation.split)

text \<open>A settlement that is accepted: the lease it takes, and the engine it leaves.\<close>

lemma settle_Inr:
  assumes "settle_with_latency e lid ob b now_ms latency now = (Inr s, e')"
  obtains l e3 counted where "bget (leases e) lid = Some l" "budget_request_id b = lease_request_id l"
    "lease_attempt_id l = None \<longrightarrow> \<not> dispatched_outcome (ao_health ob)"
    "set_attempt_id s = lease_attempt_id l" "set_candidate_id s = lease_candidate_id l"
    "set_retry s = settle_retry b ob now"
    "observation_current s = is_current (remove_lease lid e) l"
    "e3 = (if observation_current s
           then snd (update_circuit (release_capacity l (remove_lease lid e)) l (ao_health ob) now_ms)
           else release_capacity l (remove_lease lid e))"
    "\<not> observation_current s \<longrightarrow> \<not> counted"
    "e' = settle_health e3 l (ao_health ob) counted now_ms latency"
proof -
  from assms obtain l where l: "bget (leases e) lid = Some l"
    by (auto simp: settle_with_latency_def split: option.splits)
  let ?e2 = "release_capacity l (remove_lease lid e)"
  obtain c k e3 where u: "(if is_current (remove_lease lid e) l
      then update_circuit ?e2 l (ao_health ob) now_ms
      else ((circuit_of ?e2 (lease_candidate_id l) (lease_route_key l), False), ?e2)) = ((c, k), e3)"
    by (metis surj_pair)
  have e3: "e3 = (if is_current (remove_lease lid e) l
      then snd (update_circuit ?e2 l (ao_health ob) now_ms) else ?e2)"
    and k: "\<not> is_current (remove_lease lid e) l \<longrightarrow> \<not> k"
    using u by (auto split: if_splits)
  have ok: "budget_request_id b = lease_request_id l"
    "\<not> (lease_attempt_id l = None \<and> dispatched_outcome (ao_health ob))"
    using assms l by (auto simp: settle_with_latency_def split: if_splits)
  have "settle_with_latency e lid ob b now_ms latency now =
    (Inr \<lparr>set_candidate_id = lease_candidate_id l, set_attempt_id = lease_attempt_id l,
           set_retry = settle_retry b ob now, set_circuit = c,
           observation_current = is_current (remove_lease lid e) l\<rparr>,
     settle_health e3 l (ao_health ob) k now_ms latency)"
    unfolding settle_with_latency_def l option.case Let_def u prod.case using ok by simp
  then have "s = \<lparr>set_candidate_id = lease_candidate_id l, set_attempt_id = lease_attempt_id l,
      set_retry = settle_retry b ob now, set_circuit = c,
      observation_current = is_current (remove_lease lid e) l\<rparr>"
    "e' = settle_health e3 l (ao_health ob) k now_ms latency"
    using assms by simp_all
  then show ?thesis using that [OF l, of e3 k] ok e3 k by auto
qed

lemma settle_accepts:
  assumes "bget (leases e) lid = Some l" and "budget_request_id b = lease_request_id l"
    and "\<not> (lease_attempt_id l = None \<and> dispatched_outcome (ao_health ob))"
  shows "\<exists>s e'. settle_with_latency e lid ob b now_ms latency now = (Inr s, e')"
proof -
  let ?e2 = "release_capacity l (remove_lease lid e)"
  obtain c k e3 where u: "(if is_current (remove_lease lid e) l
      then update_circuit ?e2 l (ao_health ob) now_ms
      else ((circuit_of ?e2 (lease_candidate_id l) (lease_route_key l), False), ?e2)) = ((c, k), e3)"
    by (metis surj_pair)
  show ?thesis
    unfolding settle_with_latency_def assms(1) option.case Let_def u prod.case
    using assms(2,3) by simp
qed

lemma fresh_lease:
  assumes "accounted e" and "next_lease_id e < lid"
  shows "bget (leases e) lid = None"
proof (rule ccontr)
  assume "bget (leases e) lid \<noteq> None"
  then have "lid \<le> next_lease_id e" using assms(1) by (auto simp: accounted_def leases_inv_def)
  with assms(2) show False by simp
qed

lemma settled_leases:
  assumes "settle_with_latency e lid ob b now_ms latency now = (Inr s, e')"
  obtains l where "bget (leases e) lid = Some l" "leases e' = bremove lid (leases e)"
    "capacity_in_flight e' key = capacity_in_flight (release_physical l e) key"
proof -
  obtain l e3 counted where s: "bget (leases e) lid = Some l"
    "e3 = (if observation_current s
           then snd (update_circuit (release_capacity l (remove_lease lid e)) l (ao_health ob) now_ms)
           else release_capacity l (remove_lease lid e))"
    "e' = settle_health e3 l (ao_health ob) counted now_ms latency"
    by (rule settle_Inr [OF assms])
  have "capacity_in_flight e' key = capacity_in_flight (release_capacity l (remove_lease lid e)) key"
    using s by (simp add: capacity_in_flight_def)
  also have "\<dots> = capacity_in_flight (release_physical l e) key"
    by (simp add: word_unat_eq_iff release_physical_capacity) (simp add: capacity_in_flight_def)
  finally show ?thesis using that s by simp
qed

lemma begin_dispatch_Inr:
  assumes "begin_dispatch_internal e lid b allow now = (Inr attempt, e', b')"
  obtains l where "bget (leases e) lid = Some l" "lease_request_id l = budget_request_id b"
    "is_none_or (lease_attempt_id l) (\<lambda>previous. allow \<and> previous \<le> ucast (dispatches b))"
    "still_current e l"
    "snap_epoch (circuit_of e (lease_candidate_id l) (lease_route_key l)) = lease_circuit_epoch l \<or>
     snap_state (circuit_of e (lease_candidate_id l) (lease_route_key l)) = Closed"
    "recovery_credit_required l \<longrightarrow> 0 < recovery_credits e"
    "start_dispatch b now = (Some attempt, b')"
    "e' = e\<lparr>recovery_credits :=
              (if recovery_credit_required l then sat_sub (recovery_credits e) 1
               else recovery_credits e),
            leases := bmodify lid (\<lambda>lease.
              lease\<lparr>recovery_credit_required := False, lease_attempt_id := Some attempt\<rparr>)
              (leases e)\<rparr>"
  using assms that
  by (auto simp: begin_dispatch_internal_def Let_def is_none_or_iff is_some_and_iff not_less
      word_neq_0_conv split: option.splits if_splits prod.splits)

lemma begin_dispatch_Inl:
  "begin_dispatch_internal e lid b allow now = (Inl err, e', b') \<Longrightarrow> e' = e \<and> b' = b"
  by (auto simp: begin_dispatch_internal_def Let_def start_dispatch_def split: option.splits if_splits prod.splits)

lemma dispatch_started:
  assumes "start_dispatch b now = (Some attempt, b')"
  shows "unat attempt = Suc (unat (dispatches b))" and "unat (dispatches b') = unat attempt"
    and "can_dispatch b now" and "unat attempt \<le> unat (max_dispatches b)"
    and "b' = b\<lparr>dispatches := sat_add (dispatches b) 1\<rparr>"
proof -
  from assms have c: "can_dispatch b now" and b': "b' = b\<lparr>dispatches := sat_add (dispatches b) 1\<rparr>"
    and a: "attempt = ucast (sat_add (dispatches b) 1)"
    by (auto simp: start_dispatch_def Let_def split: if_splits)
  then have d: "unat (dispatches b) < unat (max_dispatches b)"
    by (simp add: can_dispatch_def word_less_nat_alt)
  then have n: "unat (sat_add (dispatches b) 1) = Suc (unat (dispatches b))"
    using unat_sat_add_1 [of "dispatches b" "max_dispatches b"] by (simp add: word_less_nat_alt)
  show "unat attempt = Suc (unat (dispatches b))" "unat (dispatches b') = unat attempt"
    "can_dispatch b now" "unat attempt \<le> unat (max_dispatches b)"
    "b' = b\<lparr>dispatches := sat_add (dispatches b) 1\<rparr>"
    using a b' c d n by (simp_all add: unat_ucast_up)
qed

lemma capacity_limits_same [simp]:
  "capacity_limits (advance_rotation_state e route_key pool cid b) = capacity_limits e"
  "capacity_limits (insert_lease e runtime l) = capacity_limits e"
  "capacity_limits (begun e l) = capacity_limits e"
  by (auto simp: advance_rotation_state_def insert_lease_def take_capacity_def begun_def
      begin_trial_def Let_def split: option.split)

section \<open>Accounting and limits\<close>

text \<open>C7: in every reachable state the counters are exact: the in-flight count of every physical
  capacity, of every registered candidate and of the recovery trials is the number of live leases
  that hold it, so no capacity leaks or is released twice, whatever the interleaving.\<close>

theorem counters_exact:
  assumes "reachable_engine e"
  shows "(\<forall>key. unat (capacity_in_flight e key)
        = bcount (\<lambda>l. lease_capacity_key l = key) (leases e)) \<and>
    (\<forall>cid runtime. bget (candidates e) cid = Some runtime \<longrightarrow>
       (\<exists>g. bget (candidate_generations e) cid = Some g \<and>
          unat (in_flight runtime)
            = bcount (\<lambda>l. lease_candidate_id l = cid \<and> lease_generation l = g) (leases e))) \<and>
    unat (recovery_in_flight e) = bcount lease_recovery (leases e)"
proof -
  have "member_lease cid g = (\<lambda>l. lease_candidate_id l = cid \<and> lease_generation l = g)" for cid g
    by (simp add: member_lease_def fun_eq_iff)
  then show ?thesis
    using reachable_accounted [OF assms]
    by (fastforce simp: accounted_def capacity_inv_def candidate_inv_def recovery_inv_def)
qed

text \<open>C20: a circuit never waits for a trial that nobody runs: in every reachable state a circuit that
  is half open, or holds a trial, names a live recovery lease of that candidate and route, and
  cancelling that lease frees the circuit for the next trial.\<close>

theorem trial_always_ends:
  assumes "reachable_engine e" and "bget (circuits e) key = Some c"
    and "circuit_state_of c = HalfOpen \<or> half_open_lease c \<noteq> None"
  shows "\<exists>lid l. half_open_lease c = Some lid \<and> bget (leases e) lid = Some l \<and> lease_recovery l \<and>
    key = (lease_candidate_id l, lease_route_key l) \<and>
    (\<forall>b now_ms now. budget_request_id b = lease_request_id l \<longrightarrow>
       (\<exists>s e'. cancel e lid b now_ms now = (Inr s, e') \<and>
          (\<forall>c'. bget (circuits e') key = Some c' \<longrightarrow> half_open_lease c' = None)))"
proof -
  note acc = reachable_accounted [OF assms(1)]
  obtain lid where lid: "half_open_lease c = Some lid"
    using accounted_trial(1) [OF acc assms(2)] assms(3) by blast
  then obtain l where l: "bget (leases e) lid = Some l"
    using accounted_trial(2) [OF acc assms(2)] by (auto simp: trial_of_def)
  note k = trial_key [OF acc l assms(2) lid]
  let ?e2 = "release_capacity l (remove_lease lid e)"
  have freed: "half_open_lease c' = None" if "bget (circuits ?e2) key = Some c'" for c'
    using that k assms(2) lid live_lease(1) [OF acc l] by (auto simp: release_trial_def)
  have "\<exists>s e'. cancel e lid b now_ms now = (Inr s, e') \<and>
      (\<forall>c'. bget (circuits e') key = Some c' \<longrightarrow> half_open_lease c' = None)"
    if b: "budget_request_id b = lease_request_id l" for b now_ms now
  proof -
    let ?ob = "\<lparr>ao_execution = obs_unknown, ao_health = HealthCancelled\<rparr>"
    obtain s e' where set: "settle_with_latency e lid ?ob b now_ms None now = (Inr s, e')"
      using settle_accepts [OF l b, of ?ob now_ms None now] by (auto simp: dispatched_outcome_def)
    obtain l' e3 counted where "bget (leases e) lid = Some l'"
      "e3 = (if observation_current s
             then snd (update_circuit (release_capacity l' (remove_lease lid e)) l' (ao_health ?ob) now_ms)
             else release_capacity l' (remove_lease lid e))"
      "e' = settle_health e3 l' (ao_health ?ob) counted now_ms None"
      by (rule settle_Inr [OF set])
    then have e': "circuits e' = circuits (if observation_current s
        then snd (update_circuit ?e2 l HealthCancelled now_ms) else ?e2)"
      using l by simp
    have "half_open_lease c' = None" if c': "bget (circuits e') key = Some c'" for c'
    proof (cases "observation_current s")
      case False
      then show ?thesis using c' e' freed by simp
    next
      case True
      obtain c0 where c0: "bget (circuits ?e2) key = Some c0"
        using assms(2) k by (auto simp: release_trial_def)
      obtain d n where d: "circuit_transition_of c0 l HealthCancelled now_ms = (d, n)" by fastforce
      have "half_open_lease d = half_open_lease c0"
        by (rule circuit_transition_trial(1) [OF d]) (simp add: freed [OF c0])
      moreover have "c' = d"
        using c' e' True c0 k d by (simp add: update_circuit_def Let_def)
      ultimately show ?thesis using freed [OF c0] by simp
    qed
    then show ?thesis using set by (auto simp: cancel_def settle_def)
  qed
  then show ?thesis using lid l k by blast
qed

text \<open>a reservation stays within every limit: afterwards the live leases are at most the runtime
  capacity, the physical capacity is within its limit when it has one, and the candidate within
  its concurrency.\<close>

theorem reserve_respects_limits:
  assumes "reachable_engine e" and "reserve e request now_ms = (Inr handle, e')"
    and "bget (candidates e) (rl_candidate_id handle) = Some runtime"
  shows "bsize (leases e') = Suc (bsize (leases e)) \<and>
    bsize (leases e') \<le> unat (max_in_flight e') \<and>
    (let key = capacity_key (candidate runtime) in
     0 < capacity_limit_of e' key \<longrightarrow> capacity_in_flight e' key \<le> capacity_limit_of e' key) \<and>
    (0 < max_concurrency (candidate runtime) \<longrightarrow>
       engine_in_flight e' (rl_candidate_id handle) \<le> max_concurrency (candidate runtime))"
proof -
  note acc = reachable_accounted [OF assms(1)]
  obtain selected ordinary r lid l pool where
    r: "bget (candidates e) (ready_id selected) = Some r"
      "admissible e r (req_route_key request) now_ms (ready_recovery selected)"
      "checked_add (next_lease_id e) 1 = Some lid"
      "l = new_lease e request selected ordinary r lid" "handle = lease_handle l"
    and e': "e' = advance_rotation_state (insert_lease (begun e l) r l) (req_route_key request)
       pool (ready_id selected) (req_owner request = None)"
    by (rule reserve_Inr [OF accounted_keyed [OF acc] assms(2)])
  have rt: "r = runtime" using r assms(3) by (simp add: lease_handle_def)
  note room = admissible_room [OF r(2)] and conc = admissible_not_full [OF r(2)]
  have "next_lease_id e < lid"
    using checked_add_unat [OF r(3)] by (simp add: word_less_nat_alt)
  then have fresh: "bget (leases e) lid = None" by (rule fresh_lease [OF acc])
  have cap: "capacity_in_flight e' key = (if key = capacity_key (candidate runtime)
      then sat_add (capacity_in_flight e key) 1 else capacity_in_flight e key)" for key
    using r(4) rt unfolding e' by (simp add: capacity_in_flight_def [of "advance_rotation_state _ _ _ _ _"])
      (simp add: capacity_in_flight_def [symmetric] capacity_in_flight_def [of "begun _ _"])
  have "capacity_limit_of e' key = capacity_limit_of e key" for key
    unfolding e' by (simp add: capacity_limit_of_def)
  moreover have "engine_in_flight e' (rl_candidate_id handle) = sat_add (in_flight runtime) 1"
    using r rt unfolding e' by (simp add: engine_in_flight_def lease_handle_def)
  ultimately show ?thesis
    using room conc cap bsize_insert_fresh [OF fresh] r(4) rt e'
    by (auto simp: capacity_full_def concurrency_full_def Let_def not_le intro!: sat_add_1_less)
qed

section \<open>Reservation, dispatch and settlement\<close>

text \<open>C36: the selection is what a reservation does: where the selection names nothing the reservation
  reports that no candidate is eligible; otherwise it leases exactly the selected candidate under
  the next lease number (until those run out), and a failed reservation changes nothing.\<close>

theorem reserve_agrees_with_select:
  assumes "reachable_engine e"
  shows "case select e request now_ms of
      None \<Rightarrow> reserve e request now_ms = (Inl NoEligibleCandidate, e)
    | Some s \<Rightarrow>
        (case checked_add (next_lease_id e) 1 of
           None \<Rightarrow> reserve e request now_ms = (Inl InvalidCandidate, e)
         | Some lid \<Rightarrow> \<exists>handle e'. reserve e request now_ms = (Inr handle, e') \<and>
             handle = \<lparr>rl_lease_id = lid, rl_candidate_id = sel_candidate_id s,
               rl_request_id = req_id request, rl_route_key = req_route_key request,
               rl_recovery = sel_recovery s\<rparr> \<and>
             bget (leases e') lid \<noteq> None)"
proof (cases "select e request now_ms")
  case None
  then show ?thesis by (simp add: reserve_none)
next
  case (Some s)
  obtain ready ordinary where sc: "selection_candidates e request now_ms = (ready, ordinary)"
    by fastforce
  then obtain selected where
    ch: "choose_for_request e request (selection_group e ready request now_ms) = Some selected"
    and s: "sel_candidate_id s = ready_id selected" "sel_recovery s = ready_recovery selected"
    using Some by (auto simp: select_def Let_def)
  from reserve_selected [OF accounted_keyed [OF reachable_accounted [OF assms]] sc ch] obtain runtime
    where "reserve e request now_ms =
      (case checked_add (next_lease_id e) 1 of
         None \<Rightarrow> (Inl InvalidCandidate, e)
       | Some lid \<Rightarrow>
           let l = new_lease e request selected ordinary runtime lid
           in (Inr (lease_handle l),
               advance_rotation_state (insert_lease (begun e l) runtime l) (req_route_key request)
                 (selection_group e ready request now_ms) (ready_id selected)
                 (req_owner request = None)))"
    by blast
  with Some s show ?thesis
    by (simp add: lease_handle_def Let_def split: option.split)
qed

text \<open>C30: a lease is settled at most once: an accepted settlement removes this lease and no other,
  takes one from its physical capacity and leaves the others, and settling it again is refused and
  changes nothing.\<close>

theorem settlement_at_most_once:
  assumes "reachable_engine e"
    and "settle_with_latency e lid ob b now_ms latency now = (Inr s, e')"
  shows "(\<exists>l. bget (leases e) lid = Some l \<and>
      (\<forall>other. bget (leases e') other = (if other = lid then None else bget (leases e) other)) \<and>
      (\<forall>key. unat (capacity_in_flight e' key) + (if key = lease_capacity_key l then 1 else 0)
         = unat (capacity_in_flight e key))) \<and>
    settle_with_latency e' lid ob2 b2 now_ms2 latency2 now2 = (Inl SettleUnknownLease, e')"
proof -
  note acc = reachable_accounted [OF assms(1)]
  obtain l where l: "bget (leases e) lid = Some l" "leases e' = bremove lid (leases e)"
    by (rule settled_leases [OF assms(2)])
  have "unat (capacity_in_flight e' key) + (if key = lease_capacity_key l then 1 else 0)
      = unat (capacity_in_flight e key)" for key
  proof -
    have "accounted e'"
      using settle_accounted [OF acc, of lid ob b now_ms latency now] assms(2) by simp
    then have "unat (capacity_in_flight e' key)
        = bcount (\<lambda>x. lease_capacity_key x = key) (bremove lid (leases e))"
      using l(2) by (simp add: accounted_def capacity_inv_def)
    moreover have "unat (capacity_in_flight e key) = bcount (\<lambda>x. lease_capacity_key x = key) (leases e)"
      using acc by (simp add: accounted_def capacity_inv_def)
    ultimately show ?thesis
      using bcount_remove [OF l(1), of "\<lambda>x. lease_capacity_key x = key"] by auto
  qed
  then show ?thesis using l by (auto simp: settle_unknown)
qed

text \<open>C29: the dispatch fence: a dispatch starts only while the candidate is the one that was leased
  (same registration), enabled, authorised, with the quota, rate, route and capacity of the
  reservation, its circuit not changed for the worse, and a recovery credit left when one is due;
  it charges exactly one dispatch and at most one credit.  A refused dispatch changes nothing.\<close>

theorem dispatch_fence:
  "case begin_dispatch_internal e lid b allow now of
     (Inl err, e', b') \<Rightarrow> e' = e \<and> b' = b
   | (Inr attempt, e', b') \<Rightarrow>
       (\<exists>l runtime. bget (leases e) lid = Some l \<and> lease_request_id l = budget_request_id b \<and>
          bget (candidates e) (lease_candidate_id l) = Some runtime \<and>
          bget (candidate_generations e) (lease_candidate_id l) = Some (lease_generation l) \<and>
          enabled (candidate runtime) \<and> \<not> draining (candidate runtime) \<and>
          auth (candidate runtime) = AuthReady \<and> quota (candidate runtime) = lease_quota l \<and>
          rate (candidate runtime) = lease_rate l \<and>
          bget (route_rates (candidate runtime)) (lease_route_key l) = lease_route_rate l \<and>
          capacity_key (candidate runtime) = lease_capacity_key l \<and>
          (let c = circuit_of e (lease_candidate_id l) (lease_route_key l) in
           snap_epoch c = lease_circuit_epoch l \<or> snap_state c = Closed) \<and>
          unat (recovery_credits e)
            = unat (recovery_credits e') + (if recovery_credit_required l then 1 else 0)) \<and>
       can_dispatch b now \<and> unat attempt = Suc (unat (dispatches b)) \<and>
       unat (dispatches b') = unat attempt \<and> unat attempt \<le> unat (max_dispatches b)"
proof -
  obtain res e' b' where res: "begin_dispatch_internal e lid b allow now = (res, e', b')"
    by (metis surj_pair)
  show ?thesis
  proof (cases res)
    case (Inl err)
    then show ?thesis using res begin_dispatch_Inl [of e lid b allow now err e' b'] by simp
  next
    case (Inr attempt)
    with res have ok: "begin_dispatch_internal e lid b allow now = (Inr attempt, e', b')" by simp
    from ok obtain l where l: "bget (leases e) lid = Some l"
      "lease_request_id l = budget_request_id b" "still_current e l"
      "snap_epoch (circuit_of e (lease_candidate_id l) (lease_route_key l)) = lease_circuit_epoch l \<or>
       snap_state (circuit_of e (lease_candidate_id l) (lease_route_key l)) = Closed"
      "recovery_credit_required l \<longrightarrow> 0 < recovery_credits e"
      "start_dispatch b now = (Some attempt, b')"
      and e': "recovery_credits e' = (if recovery_credit_required l then sat_sub (recovery_credits e) 1
               else recovery_credits e)"
      by (rule begin_dispatch_Inr) simp
    obtain runtime where "bget (candidates e) (lease_candidate_id l) = Some runtime"
      using l(3) by (auto simp: still_current_def is_some_and_iff)
    moreover have "unat (recovery_credits e)
        = unat (recovery_credits e') + (if recovery_credit_required l then 1 else 0)"
      using l(5) by (auto simp: e' unat_sat_sub word_less_nat_alt)
    ultimately show ?thesis
      unfolding ok prod.case sum.case using l dispatch_started [OF l(6)]
      by (intro conjI exI [of _ l] exI [of _ runtime])
        (simp_all add: still_current_def Let_def)
  qed
qed

text \<open>a lease is dispatched once: after a dispatch the plain operation refuses the lease whatever
  budget is presented, and the transport operation, which may keep a lease, starts only attempts
  with a higher number than the one before.\<close>

theorem attempts_of_a_lease_increase:
  assumes "begin_dispatch_internal e lid b allow now = (Inr attempt, e1, b1)"
    and "bget (leases e2) lid = bget (leases e1) lid"
  shows "fst (begin_dispatch e2 lid b2 now2) \<noteq> Inr later \<and>
    (fst (begin_transport_dispatch e2 lid b2 now2) = Inr later \<longrightarrow> attempt < later)"
proof -
  obtain l where l: "bget (leases e) lid = Some l"
    and e1: "e1 = e\<lparr>recovery_credits :=
              (if recovery_credit_required l then sat_sub (recovery_credits e) 1
               else recovery_credits e),
            leases := bmodify lid (\<lambda>lease.
              lease\<lparr>recovery_credit_required := False, lease_attempt_id := Some attempt\<rparr>)
              (leases e)\<rparr>"
    by (rule begin_dispatch_Inr [OF assms(1)])
  have keep: "allow2 \<and> attempt < later"
    if res: "begin_dispatch_internal e2 lid b2 allow2 now2 = (Inr later, e3, b3)" for allow2 e3 b3
  proof -
    obtain l2 where "bget (leases e2) lid = Some l2"
      "is_none_or (lease_attempt_id l2) (\<lambda>previous. allow2 \<and> previous \<le> ucast (dispatches b2))"
      "start_dispatch b2 now2 = (Some later, b3)"
      by (rule begin_dispatch_Inr [OF res])
    then have "allow2 \<and> attempt \<le> ucast (dispatches b2)"
      "unat later = Suc (unat (dispatches b2))"
      using l e1 assms(2) dispatch_started(1) by auto
    then show ?thesis by (simp add: word_le_nat_alt word_less_nat_alt unat_ucast_up)
  qed
  show ?thesis
    using keep by (auto simp: begin_dispatch_def begin_transport_dispatch_def fst_def split: prod.splits)
qed

text \<open>a late outcome is isolated: when the lease's registration or route has been replaced in the
  meantime, settling it changes no health, no credit and no circuit, except that its own trial, if
  it holds one, is released.\<close>

theorem late_outcome_isolated:
  assumes "settle_with_latency e lid ob b now_ms latency now = (Inr s, e')"
    and "\<not> observation_current s"
  shows "health e' = health e \<and> recovery_credits e' = recovery_credits e \<and>
    rotation_credit e' = rotation_credit e \<and>
    (\<forall>key c'. bget (circuits e') key = Some c' \<longrightarrow>
       (\<exists>c. bget (circuits e) key = Some c \<and>
          (c' = c \<or> (\<exists>l. bget (leases e) lid = Some l \<and> half_open_lease c = Some (lease_id_of l)))))"
proof -
  obtain l e3 counted where l: "bget (leases e) lid = Some l"
    "e3 = release_capacity l (remove_lease lid e)"
    "e' = settle_health e3 l (ao_health ob) counted now_ms latency" "\<not> counted"
    by (rule settle_Inr [OF assms(1)]) (use assms(2) in auto)
  then have e': "e' = release_capacity l (remove_lease lid e)" by simp
  have "health e' = health e" "recovery_credits e' = recovery_credits e"
    "rotation_credit e' = rotation_credit e"
    by (auto simp: e' release_capacity_def release_trial_def release_physical_def
        release_candidate_def remove_lease_def Let_def split: option.split)
  moreover have "\<exists>c. bget (circuits e) key = Some c \<and>
      (c' = c \<or> half_open_lease c = Some (lease_id_of l))" if "bget (circuits e') key = Some c'" for key c'
    using that by (auto simp: e' release_trial_def split: if_splits)
  ultimately show ?thesis using l(1) by blast
qed

section \<open>Evaluated instances\<close>

lemma dispatched_lease:
  "bget (leases dispatched_engine) 1 = Some (sample_lease 1)"
  "budget_request_id sample_budget = lease_request_id (sample_lease 1)"
  "lease_attempt_id (sample_lease 1) = Some 1"
  by (simp_all add: dispatched_engine_def sample_budget_def sample_lease_def)

theorem counters_exact_witness:
  "unat (recovery_in_flight on_trial_engine) = bcount lease_recovery (leases on_trial_engine)"
  using counters_exact [OF scenario_reachable(5)] by blast

theorem trial_always_ends_witness:
  "\<exists>l. bget (leases on_trial_engine) 2 = Some l \<and> lease_recovery l \<and>
     (''a'', ''r'') = (lease_candidate_id l, lease_route_key l)"
  using trial_always_ends [OF scenario_reachable(5) on_trial_circuit] by auto

theorem reserve_respects_limits_witness:
  "bsize (leases served_engine) = Suc (bsize (leases member_engine)) \<and>
   bsize (leases served_engine) \<le> unat (max_in_flight served_engine)"
proof -
  obtain runtime where
    "bget (candidates member_engine) (rl_candidate_id (lease_handle served_lease)) = Some runtime"
    by (simp add: member_eval lease_handle_def served_lease_def sample_lease_def)
  from reserve_respects_limits [OF scenario_reachable(1) served_engine_step this]
  show ?thesis by blast
qed

theorem reserve_agrees_with_select_witness:
  "\<exists>s. select member_engine sample_request 5 = Some s \<and> sel_candidate_id s = ''a''"
  using reserve_agrees_with_select [OF scenario_reachable(1), of sample_request 5]
  by (auto simp: served_engine_step lease_handle_def served_lease_def sample_lease_def
      split: option.splits)

theorem settlement_at_most_once_witness:
  "\<exists>s e'. settle_with_latency dispatched_engine 1 sample_failure sample_budget 10 None 0 = (Inr s, e') \<and>
     settle_with_latency e' 1 sample_failure sample_budget 11 None 0 = (Inl SettleUnknownLease, e')"
proof -
  obtain s e' where s:
    "settle_with_latency dispatched_engine 1 sample_failure sample_budget 10 None 0 = (Inr s, e')"
    using settle_accepts [OF dispatched_lease(1,2), of sample_failure 10 None 0] dispatched_lease(3)
    by auto
  from settlement_at_most_once [OF scenario_reachable(3) s] s show ?thesis by blast
qed

theorem attempts_of_a_lease_increase_witness:
  "fst (begin_dispatch dispatched_engine 1 (sample_budget\<lparr>dispatches := 1\<rparr>) 9) \<noteq> Inr 2"
  using attempts_of_a_lease_increase [OF dispatched_engine_step refl] by blast

theorem late_outcome_isolated_witness:
  "\<exists>s e'. settle_with_latency (snd (remove_candidate dispatched_engine ''a'')) 1 sample_failure
      sample_budget 10 None 0 = (Inr s, e') \<and>
    health e' = health (snd (remove_candidate dispatched_engine ''a''))"
proof -
  let ?e = "snd (remove_candidate dispatched_engine ''a'')"
  have l: "bget (leases ?e) 1 = Some (sample_lease 1)"
    by (simp add: remove_candidate_def dispatched_lease split: option.split)
  obtain s e' where s: "settle_with_latency ?e 1 sample_failure sample_budget 10 None 0 = (Inr s, e')"
    using settle_accepts [OF l dispatched_lease(2), of sample_failure 10 None 0] dispatched_lease(3)
    by auto
  have g: "bget (candidate_generations ?e) ''a'' = None"
    by (simp add: remove_candidate_def dispatched_engine_def served_engine_def member_eval)
  have "lease_candidate_id (sample_lease 1) = ''a''" by (simp add: sample_lease_def)
  then have stale: "\<not> is_current (remove_lease 1 ?e) (sample_lease 1)"
    using g by (simp add: is_current_def)
  have "\<not> observation_current s" by (rule settle_Inr [OF s]) (use l stale in simp)
  from late_outcome_isolated [OF s this] s show ?thesis by blast
qed

end
