(* ===== verification/RegistryGuarantees.thy ===== *)
theory RegistryGuarantees
  imports Guarantees
begin

text \<open>
  Guarantees of the registry (\<open>scheduler/rotation/engine/registry.rs\<close>): exact capacity limits over
  every reachable state, observations that survive configuration edits, the quota revision fence,
  and the soundness of the fast admission test.
\<close>

section \<open>Capacity limits\<close>

text \<open>The limit of a physical capacity, abstractly: the smallest positive limit of its members.\<close>

definition has_member :: "rotation_engine \<Rightarrow> string \<Rightarrow> bool" where
  "has_member e key \<longleftrightarrow>
     (\<exists>cid runtime. bget (candidates e) cid = Some runtime \<and> capacity_key (candidate runtime) = key)"

definition positive_limits :: "rotation_engine \<Rightarrow> string \<Rightarrow> u32 set" where
  "positive_limits e key =
     {n. 0 < n \<and> (\<exists>cid runtime. bget (candidates e) cid = Some runtime \<and>
        capacity_key (candidate runtime) = key \<and>
        (n = capacity_limit (candidate runtime) \<or> n = max_concurrency (candidate runtime)))}"

definition limit_exact :: "rotation_engine \<Rightarrow> string \<Rightarrow> bool" where
  "limit_exact e key \<longleftrightarrow>
     (case bget (capacity_limits e) key of
        None \<Rightarrow> \<not> has_member e key
      | Some n \<Rightarrow> has_member e key \<and>
          (if positive_limits e key = {} then n = 0
           else n \<in> positive_limits e key \<and> (\<forall>m \<in> positive_limits e key. n \<le> m)))"

lemma recompute_exact: "limit_exact (recompute_capacity_limit key e) key"
proof -
  define ms where
    "ms = filter (\<lambda>runtime. capacity_key (candidate runtime) = key) (bvalues (candidates e))"
  define ls where "ls = filter (\<lambda>limit. 0 < limit) (concat (map (\<lambda>runtime.
    [capacity_limit (candidate runtime), max_concurrency (candidate runtime)]) ms))"
  have m: "has_member e key \<longleftrightarrow> ms \<noteq> []"
    unfolding has_member_def ms_def filter_empty_conv using in_bvalues by metis
  have l: "positive_limits e key = set ls"
    by (auto simp: positive_limits_def ls_def ms_def in_bvalues)
  have same: "has_member (recompute_capacity_limit key e) key = has_member e key"
    "positive_limits (recompute_capacity_limit key e) key = positive_limits e key"
    by (simp_all add: has_member_def positive_limits_def)
  have lim: "bget (capacity_limits (recompute_capacity_limit key e)) key
      = (if ms = [] then None else Some (unwrap_or (list_min ls) 0))"
    by (simp add: recompute_capacity_limit_def Let_def ms_def [symmetric] ls_def [symmetric])
  show ?thesis
  proof (cases "list_min ls")
    case None
    then show ?thesis by (simp add: limit_exact_def lim m l same)
  next
    case (Some n)
    with list_min_Some [OF Some] show ?thesis by (auto simp: limit_exact_def lim m l same)
  qed
qed

lemma limit_exact_cong:
  assumes "limit_exact e key" and "bget (capacity_limits f) key = bget (capacity_limits e) key"
    and "\<And>cid n. (\<exists>r. bget (candidates f) cid = Some r \<and> capacity_key (candidate r) = key \<and>
             capacity_limit (candidate r) = fst n \<and> max_concurrency (candidate r) = snd n) \<longleftrightarrow>
        (\<exists>r. bget (candidates e) cid = Some r \<and> capacity_key (candidate r) = key \<and>
             capacity_limit (candidate r) = fst n \<and> max_concurrency (candidate r) = snd n)"
  shows "limit_exact f key"
proof -
  have iff: "(\<exists>cid r. bget (candidates f) cid = Some r \<and> capacity_key (candidate r) = key \<and>
        P (capacity_limit (candidate r)) (max_concurrency (candidate r))) \<longleftrightarrow>
      (\<exists>cid r. bget (candidates e) cid = Some r \<and> capacity_key (candidate r) = key \<and>
        P (capacity_limit (candidate r)) (max_concurrency (candidate r)))" for P
    using assms(3) by (metis fst_conv snd_conv)
  have "has_member f key = has_member e key"
    using iff [of "\<lambda>_ _. True"] by (simp add: has_member_def)
  moreover have "positive_limits f key = positive_limits e key"
    using iff [of "\<lambda>a b. x = a \<or> x = b" for x] by (simp add: positive_limits_def)
  ultimately show ?thesis
    using assms(1,2) unfolding limit_exact_def by (cases "bget (capacity_limits e) key") simp_all
qed

lemma limit_exact_candidates:
  assumes "limit_exact e key" and "capacity_limits f = capacity_limits e"
    and "\<And>cid. map_option (\<lambda>r. (capacity_key (candidate r), capacity_limit (candidate r),
           max_concurrency (candidate r))) (bget (candidates f) cid)
       = map_option (\<lambda>r. (capacity_key (candidate r), capacity_limit (candidate r),
           max_concurrency (candidate r))) (bget (candidates e) cid)"
  shows "limit_exact f key"
proof (rule limit_exact_cong [OF assms(1)])
  show "bget (capacity_limits f) key = bget (capacity_limits e) key" using assms(2) by simp
  fix cid and n :: "u32 \<times> u32"
  show "(\<exists>r. bget (candidates f) cid = Some r \<and> capacity_key (candidate r) = key \<and>
             capacity_limit (candidate r) = fst n \<and> max_concurrency (candidate r) = snd n) \<longleftrightarrow>
        (\<exists>r. bget (candidates e) cid = Some r \<and> capacity_key (candidate r) = key \<and>
             capacity_limit (candidate r) = fst n \<and> max_concurrency (candidate r) = snd n)"
    using assms(3) [of cid] by (cases "bget (candidates f) cid"; cases "bget (candidates e) cid") auto
qed

lemma recompute_other:
  "key' \<noteq> key \<Longrightarrow> limit_exact e key' \<Longrightarrow> limit_exact (recompute_capacity_limit key e) key'"
  by (erule limit_exact_cong) (auto simp: recompute_capacity_limit_def Let_def)

lemma prune_exact: "limit_exact e key \<Longrightarrow> limit_exact (prune_round_robin_cursors e) key"
  by (erule limit_exact_candidates) (simp_all add: prune_round_robin_cursors_def)

text \<open>A change of one member: only its old and its new capacity are touched.\<close>

lemma recompute_member:
  assumes "\<And>key. limit_exact e key" and "capacity_limits f = capacity_limits e"
    and "\<And>x. x \<noteq> cid \<Longrightarrow> bget (candidates f) x = bget (candidates e) x"
    and "\<And>r. bget (candidates f) cid = Some r \<Longrightarrow> capacity_key (candidate r) \<in> keys"
    and "\<And>r. bget (candidates e) cid = Some r \<Longrightarrow> capacity_key (candidate r) \<in> keys"
    and "key \<notin> keys"
  shows "limit_exact f key"
proof (rule limit_exact_cong [OF assms(1) [of key]])
  show "bget (capacity_limits f) key = bget (capacity_limits e) key" using assms(2) by simp
  fix x and n :: "u32 \<times> u32"
  show "(\<exists>r. bget (candidates f) x = Some r \<and> capacity_key (candidate r) = key \<and>
             capacity_limit (candidate r) = fst n \<and> max_concurrency (candidate r) = snd n) \<longleftrightarrow>
        (\<exists>r. bget (candidates e) x = Some r \<and> capacity_key (candidate r) = key \<and>
             capacity_limit (candidate r) = fst n \<and> max_concurrency (candidate r) = snd n)"
    using assms(3-6) by (cases "x = cid") auto
qed

lemma edit_exact:
  assumes "limit_exact e key"
    and "\<And>c. capacity_key (f c) = capacity_key c \<and> capacity_limit (f c) = capacity_limit c \<and>
          max_concurrency (f c) = max_concurrency c"
  shows "limit_exact (snd (edit_candidate e cid f)) key"
  by (rule limit_exact_candidates [OF assms(1)])
    (use assms(2) in \<open>auto simp: edit_candidate_def split: option.split\<close>)

lemma upsert_exact:
  assumes "\<And>key. limit_exact e key"
  shows "limit_exact (snd (upsert e new)) key"
proof -
  let ?cid = "rc_id new" and ?new = "capacity_key new"
  show ?thesis
  proof (cases "validate new")
    case (Inl m)
    then show ?thesis using assms by (simp add: upsert_def)
  next
    case (Inr u)
    show ?thesis
    proof (cases "bget (candidates e) ?cid")
      case None
      let ?f = "\<lambda>g. e\<lparr>next_candidate_generation := g,
         candidate_generations := binsert ?cid g (candidate_generations e),
         candidates := binsert ?cid \<lparr>candidate = new, in_flight = 0\<rparr> (candidates e)\<rparr>"
      have other: "limit_exact (?f g) key" if "key \<noteq> ?new" for g
        by (rule recompute_member [OF assms, of _ ?cid "{?new}"]) (use None that in auto)
      have "limit_exact (recompute_capacity_limit ?new (?f g)) key" for g
        using recompute_exact recompute_other [OF _ other] by (cases "key = ?new") auto
      then show ?thesis using Inr None assms by (simp add: upsert_def Let_def split: option.split)
    next
      case (Some runtime)
      let ?old = "capacity_key (candidate runtime)"
      let ?f = "update_member e runtime new"
      have other: "limit_exact ?f key" if "key \<noteq> ?new" "key \<noteq> ?old" for key
        by (rule recompute_member [OF assms, of _ ?cid "{?new, ?old}"])
          (use Some that in \<open>auto simp: update_member_def keep_observations_def Let_def\<close>)
      let ?g = "recompute_capacity_limit ?new ?f"
      let ?h = "if ?old \<noteq> ?new then recompute_capacity_limit ?old ?g else ?g"
      have "limit_exact ?h key"
        using recompute_exact [of ?new ?f] recompute_exact [of ?old ?g]
          recompute_other [of key ?new ?f] recompute_other [of key ?old ?g] other [of key]
        by (cases "key = ?old"; cases "key = ?new") auto
      then show ?thesis
        using Inr Some prune_exact [of ?h key] by (simp add: upsert_def Let_def)
    qed
  qed
qed

lemma remove_exact:
  assumes "\<And>key. limit_exact e key"
  shows "limit_exact (snd (remove_candidate e cid)) key"
proof (cases "bget (candidates e) cid")
  case None
  then show ?thesis using assms by (simp add: remove_candidate_def)
next
  case (Some runtime)
  let ?key = "capacity_key (candidate runtime)"
  let ?f = "e\<lparr>candidates := bremove cid (candidates e),
                   candidate_generations := bremove cid (candidate_generations e),
                   quota_revisions := bremove cid (quota_revisions e),
                   circuits := bretain (\<lambda>(name, _) _. name \<noteq> cid) (circuits e),
                   health := bretain (\<lambda>(name, _) _. name \<noteq> cid) (health e)\<rparr>"
  have other: "limit_exact ?f key" if "key \<noteq> ?key"
    by (rule recompute_member [OF assms, of _ cid "{?key}"]) (use Some that in auto)
  have "limit_exact (recompute_capacity_limit ?key ?f) key"
    using recompute_exact recompute_other [OF _ other] by (cases "key = ?key") auto
  then have "limit_exact ((recompute_capacity_limit ?key ?f)\<lparr>rotation_credit := bempty\<rparr>) key"
    by (rule limit_exact_candidates) simp_all
  then show ?thesis using Some prune_exact by (simp add: remove_candidate_def)
qed

text \<open>The operations on leases leave the limits and the configuration of every member alone.\<close>

definition same_config :: "rotation_engine \<Rightarrow> rotation_engine \<Rightarrow> bool" where
  "same_config e f \<longleftrightarrow> capacity_limits f = capacity_limits e \<and>
     (\<forall>cid. map_option candidate (bget (candidates f) cid) = map_option candidate (bget (candidates e) cid))"

lemma same_config_exact:
  assumes "same_config e f" and "limit_exact e key"
  shows "limit_exact f key"
proof (rule limit_exact_candidates [OF assms(2)])
  show "capacity_limits f = capacity_limits e" using assms(1) by (simp add: same_config_def)
  fix cid
  have "map_option candidate (bget (candidates f) cid) = map_option candidate (bget (candidates e) cid)"
    using assms(1) by (simp add: same_config_def)
  then show "map_option (\<lambda>r. (capacity_key (candidate r), capacity_limit (candidate r),
           max_concurrency (candidate r))) (bget (candidates f) cid)
       = map_option (\<lambda>r. (capacity_key (candidate r), capacity_limit (candidate r),
           max_concurrency (candidate r))) (bget (candidates e) cid)"
    by (cases "bget (candidates f) cid"; cases "bget (candidates e) cid") auto
qed

lemma same_config_refl [simp]: "same_config e e"
  by (simp add: same_config_def)

lemma released_config: "same_config e (release_capacity l (remove_lease lid e))"
  by (auto simp: same_config_def release_candidate_lookup option.map_comp comp_def)
    (auto simp: release_capacity_def release_trial_def release_physical_def release_candidate_def
      remove_lease_def Let_def split: option.split)

lemma reserve_config:
  assumes "engine_keyed e"
  shows "same_config e (snd (reserve e request now_ms))"
proof -
  obtain res e' where res: "reserve e request now_ms = (res, e')" by fastforce
  show ?thesis
  proof (cases res)
    case (Inl err)
    with res have "reserve e request now_ms = (Inl err, e')" by simp
    from reserve_failed [OF assms this] res show ?thesis by simp
  next
    case (Inr handle)
    with res have "reserve e request now_ms = (Inr handle, e')" by simp
    from assms this obtain selected ordinary runtime lid l pool where
      "bget (candidates e) (ready_id selected) = Some runtime"
      "l = new_lease e request selected ordinary runtime lid"
      "e' = advance_rotation_state (insert_lease (begun e l) runtime l) (req_route_key request)
         pool (ready_id selected) (req_owner request = None)"
      by (rule reserve_Inr)
    then show ?thesis using res by (simp add: same_config_def)
  qed
qed

lemma outcome_fields [simp]:
  "candidates (settle_health e l ob counted now_ms latency) = candidates e"
  "capacity_limits (settle_health e l ob counted now_ms latency) = capacity_limits e"
  "candidates (snd (update_circuit e l ob now_ms)) = candidates e"
  "capacity_limits (snd (update_circuit e l ob now_ms)) = capacity_limits e"
  by (auto simp: settle_health_def earn_credit_def observe_health_def update_circuit_def
      observe_first_output_latency_def Let_def split: health_observation.split prod.split)

lemma settle_refused:
  assumes "settle_with_latency e lid ob b now_ms latency now = (Inl err, e')"
  shows "e' = e"
proof (cases "bget (leases e) lid")
  case None
  then show ?thesis using assms by (simp add: settle_with_latency_def)
next
  case (Some l)
  show ?thesis
  proof (cases "budget_request_id b = lease_request_id l \<and>
      \<not> (lease_attempt_id l = None \<and> dispatched_outcome (ao_health ob))")
    case True
    then show ?thesis
      using settle_accepts [OF Some, of b ob now_ms latency now] assms by auto
  next
    case False
    then show ?thesis
      using assms Some unfolding settle_with_latency_def by (simp split: if_splits)
  qed
qed

lemma settle_config: "same_config e (snd (settle_with_latency e lid ob b now_ms latency now))"
proof -
  obtain res e' where res: "settle_with_latency e lid ob b now_ms latency now = (res, e')" by fastforce
  show ?thesis
  proof (cases res)
    case (Inl err)
    with res have "settle_with_latency e lid ob b now_ms latency now = (Inl err, e')" by simp
    then have "e' = e" by (rule settle_refused)
    then show ?thesis using res by simp
  next
    case (Inr s)
    with res have r: "settle_with_latency e lid ob b now_ms latency now = (Inr s, e')" by simp
    obtain l e3 counted where "e3 = (if observation_current s
           then snd (update_circuit (release_capacity l (remove_lease lid e)) l (ao_health ob) now_ms)
           else release_capacity l (remove_lease lid e))"
      "e' = settle_health e3 l (ao_health ob) counted now_ms latency"
      by (rule settle_Inr [OF r])
    moreover have "same_config (release_capacity l (remove_lease lid e)) e3"
      using calculation(1) by (auto simp: same_config_def)
    ultimately show ?thesis
      using released_config [of e l lid] res by (simp add: same_config_def)
  qed
qed

lemma engine_step_limits:
  assumes "accounted e" and "\<And>key. limit_exact e key"
  shows "limit_exact (engine_step event e) key"
proof (cases event)
  case (EvUpsert c)
  then show ?thesis using upsert_exact [OF assms(2)] by simp
next
  case (EvRemove cid)
  then show ?thesis using remove_exact [OF assms(2)] by simp
next
  case (EvReserve request now_ms)
  then show ?thesis
    using same_config_exact [OF reserve_config [OF accounted_keyed [OF assms(1)]] assms(2)] by simp
next
  case (EvReleaseUnstarted lid)
  then show ?thesis
    using same_config_exact [OF released_config assms(2)] assms(2)
    by (auto simp: release_unstarted_def split: option.split)
next
  case (EvSettle lid ob b now_ms latency now)
  then show ?thesis using same_config_exact [OF settle_config assms(2)] by simp
next
  case (EvBeginDispatch lid b allow now)
  have "same_config e (fst (snd (begin_dispatch_internal e lid b allow now)))"
    by (auto simp: same_config_def begin_dispatch_internal_def Let_def split: option.split prod.split)
  then show ?thesis using same_config_exact assms(2) EvBeginDispatch by simp
next
  case (EvSetQuotaIfNewer cid q revision)
  have "limit_exact (snd (set_quota_if_newer e cid q revision)) key" for q revision
    by (rule limit_exact_candidates [OF assms(2)])
      (auto simp: set_quota_if_newer_def edit_candidate_def split: option.split)
  with EvSetQuotaIfNewer show ?thesis by simp
next
  case (EvSetQuota cid q)
  have "limit_exact (snd (set_quota_if_newer e cid q revision)) key" for q revision
    by (rule limit_exact_candidates [OF assms(2)])
      (auto simp: set_quota_if_newer_def edit_candidate_def split: option.split)
  with EvSetQuota show ?thesis by (simp add: set_quota_def)
qed (simp_all add: sync_candidate_state_def sync_candidate_route_rate_def set_auth_def
    set_quota_remaining_def set_provider_credits_def set_rate_def set_enabled_def Let_def
    edit_exact assms(2),
    (rule limit_exact_candidates [OF assms(2)];
     simp add: set_mode_def set_quota_stale_after_ms_def set_max_in_flight_def
       set_recovery_policy_def Let_def)+)

text \<open>in every reachable state the limit of a physical capacity is the smallest positive limit or
  concurrency of the candidates that share it, none when they set none, and there is no entry
  for a capacity without a candidate: configuration edits and removals never leave a stale
  limit behind.\<close>

theorem capacity_limits_exact:
  assumes "reachable_engine e"
  shows "limit_exact e key"
  using assms
proof (induction arbitrary: key rule: reachable_engine.induct)
  case initial
  then show ?case by (simp add: limit_exact_def has_member_def default_engine_def)
next
  case (step e event)
  then show ?case using engine_step_limits [OF reachable_accounted] by blast
qed

section \<open>Observations\<close>

lemma fold_or_insert:
  "bget (fold (or_insert v) ks m) k =
     (case bget m k of Some x \<Rightarrow> Some x | None \<Rightarrow> if k \<in> set ks then Some v else None)"
  by (induction ks arbitrary: m) (auto simp: or_insert_def split: option.splits)

text \<open>a configuration edit is not an observation: an upsert of a known candidate takes over the
  configuration and keeps its leases, its registration and everything the provider reported:
  authorisation, quota, credits, rate, and the rate of every route that is still there (a new
  route starts ready).\<close>

theorem upsert_keeps_observations:
  assumes "upsert e new = (Inr (), e')" and "bget (candidates e) (rc_id new) = Some runtime"
  shows "\<exists>r. bget (candidates e') (rc_id new) = Some r \<and> in_flight r = in_flight runtime \<and>
    leases e' = leases e \<and>
    bget (candidate_generations e') (rc_id new) = bget (candidate_generations e) (rc_id new) \<and>
    routes (candidate r) = routes new \<and> weight (candidate r) = weight new \<and>
    priority (candidate r) = priority new \<and> capacity_key (candidate r) = capacity_key new \<and>
    enabled (candidate r) = enabled new \<and> draining (candidate r) = draining new \<and>
    auth (candidate r) = auth (candidate runtime) \<and> quota (candidate r) = quota (candidate runtime) \<and>
    quota_remaining_basis_points (candidate r) = quota_remaining_basis_points (candidate runtime) \<and>
    quota_observed_at_ms (candidate r) = quota_observed_at_ms (candidate runtime) \<and>
    provider_credits_micro_units (candidate r) = provider_credits_micro_units (candidate runtime) \<and>
    provider_credits_unlimited (candidate r) = provider_credits_unlimited (candidate runtime) \<and>
    provider_credits_observed_at_ms (candidate r)
      = provider_credits_observed_at_ms (candidate runtime) \<and>
    rate (candidate r) = rate (candidate runtime) \<and>
    (\<forall>key. bget (route_rates (candidate r)) key =
       (if bcontains (routes new) key
        then Some (unwrap_or (bget (route_rates (candidate runtime)) key) RateReady) else None))"
proof -
  let ?k = "keep_observations (candidate runtime) new"
  have v: "validate new = Inr ()" using assms(1) by (simp add: upsert_def split: sum.splits)
  have fields: "candidates e' = candidates (update_member e runtime new)" "leases e' = leases e"
    "candidate_generations e' = candidate_generations e"
    using assms v by (auto simp: upsert_def update_member_def Let_def split: if_splits)
  have "bget (route_rates ?k) key =
      (if bcontains (routes new) key
       then Some (unwrap_or (bget (route_rates (candidate runtime)) key) RateReady) else None)" for key
    by (simp add: keep_observations_def fold_or_insert in_bkeys bcontains_iff split: option.split)
  then have rates: "\<forall>key. bget (route_rates ?k) key =
      (if bcontains (routes new) key
       then Some (unwrap_or (bget (route_rates (candidate runtime)) key) RateReady) else None)"
    by blast
  have "bget (candidates e') (rc_id new) = Some (runtime\<lparr>candidate := ?k\<rparr>)"
    unfolding fields by (simp add: update_member_def Let_def)
  then show ?thesis
    using fields rates
    by (intro exI [of _ "runtime\<lparr>candidate := ?k\<rparr>"])
      (simp add: keep_observations_def del: bget_retain)
qed

lemma recompute_revisions [simp]: "quota_revisions (recompute_capacity_limit key e) = quota_revisions e"
  by (simp add: recompute_capacity_limit_def Let_def)

lemma prune_revisions [simp]: "quota_revisions (prune_round_robin_cursors e) = quota_revisions e"
  by (simp add: prune_round_robin_cursors_def)

lemma edit_revisions [simp]: "quota_revisions (snd (edit_candidate e cid f)) = quota_revisions e"
  by (simp add: edit_candidate_def split: option.split)

lemma release_revisions [simp]:
  "quota_revisions (release_capacity l (remove_lease lid e)) = quota_revisions e"
  by (auto simp: release_capacity_def release_trial_def release_physical_def release_candidate_def
      remove_lease_def Let_def split: option.split)

lemma outcome_revisions [simp]:
  "quota_revisions (settle_health e l ob counted now_ms latency) = quota_revisions e"
  "quota_revisions (snd (update_circuit e l ob now_ms)) = quota_revisions e"
  by (auto simp: settle_health_def earn_credit_def observe_health_def update_circuit_def
      observe_first_output_latency_def Let_def split: health_observation.split prod.split)

lemma upsert_revisions [simp]: "quota_revisions (snd (upsert e new)) = quota_revisions e"
  by (auto simp: upsert_def update_member_def Let_def split: sum.split option.split)

lemma settle_revisions [simp]:
  "quota_revisions (snd (settle_with_latency e lid ob b now_ms latency now)) = quota_revisions e"
proof -
  obtain res e' where res: "settle_with_latency e lid ob b now_ms latency now = (res, e')" by fastforce
  show ?thesis
  proof (cases res)
    case (Inl err)
    with res have "settle_with_latency e lid ob b now_ms latency now = (Inl err, e')" by simp
    from settle_refused [OF this] res show ?thesis by simp
  next
    case (Inr s)
    with res have r: "settle_with_latency e lid ob b now_ms latency now = (Inr s, e')" by simp
    show ?thesis by (rule settle_Inr [OF r]) (use res in simp)
  qed
qed

lemma insert_revisions [simp]:
  "quota_revisions (advance_rotation_state e route_key pool cid b) = quota_revisions e"
  "quota_revisions (insert_lease e runtime l) = quota_revisions e"
  "quota_revisions (begun e l) = quota_revisions e"
  "quota_revisions (snd (begin_trial e key lid)) = quota_revisions e"
  by (auto simp: advance_rotation_state_def insert_lease_def take_capacity_def begun_def
      begin_trial_def Let_def split: option.split)

lemma reserve_revisions [simp]: "quota_revisions (snd (reserve e request now_ms)) = quota_revisions e"
  by (simp add: reserve_def Let_def split: prod.split option.split)

lemma dispatch_revisions [simp]:
  "quota_revisions (fst (snd (begin_dispatch_internal e lid b allow now))) = quota_revisions e"
  by (auto simp: begin_dispatch_internal_def Let_def split: option.split prod.split)

lemma quota_if_newer_revision:
  "quota_revision (snd (set_quota_if_newer e x q revision)) cid =
     (if x = cid \<and> quota_revision e cid < revision \<and> bget (candidates e) cid \<noteq> None then revision
      else quota_revision e cid)"
  by (auto simp: set_quota_if_newer_def edit_candidate_def quota_revision_def not_le split: option.split)

text \<open>quota observations are fenced by their revision: no operation other than removing the
  candidate lowers its revision, an observation that is not newer is refused and changes nothing,
  and a newer one of a registered candidate is installed with its revision.\<close>

theorem quota_revision_fence:
  "(\<forall>event. event \<noteq> EvRemove cid \<longrightarrow>
      quota_revision e cid \<le> quota_revision (engine_step event e) cid) \<and>
   (revision \<le> quota_revision e cid \<longrightarrow> set_quota_if_newer e cid q revision = (False, e)) \<and>
   (quota_revision e cid < revision \<longrightarrow> bget (candidates e) cid = Some runtime \<longrightarrow>
      (\<exists>e' r. set_quota_if_newer e cid q revision = (True, e') \<and>
         bget (candidates e') cid = Some r \<and> quota (candidate r) = q \<and>
         quota_revision e' cid = revision))"
proof (intro conjI allI impI)
  fix event
  assume n: "event \<noteq> EvRemove cid"
  show "quota_revision e cid \<le> quota_revision (engine_step event e) cid"
  proof (cases event)
    case (EvSetQuotaIfNewer x p rev)
    then show ?thesis by (simp add: quota_if_newer_revision less_imp_le)
  next
    case (EvSetQuota x p)
    then show ?thesis by (simp add: set_quota_def quota_if_newer_revision sat_add_ge)
  next
    case (EvRemove x)
    then show ?thesis using n by (auto simp: quota_revision_def remove_candidate_def split: option.split)
  next
    case (EvReleaseUnstarted lid)
    then show ?thesis by (simp add: quota_revision_def release_unstarted_def split: option.split)
  qed (simp_all add: quota_revision_def set_mode_def set_quota_stale_after_ms_def
      set_max_in_flight_def set_recovery_policy_def sync_candidate_state_def
      sync_candidate_route_rate_def set_auth_def set_quota_remaining_def set_provider_credits_def
      set_rate_def set_enabled_def Let_def)
next
  assume "revision \<le> quota_revision e cid"
  then show "set_quota_if_newer e cid q revision = (False, e)" by (simp add: set_quota_if_newer_def)
next
  assume "quota_revision e cid < revision" "bget (candidates e) cid = Some runtime"
  then show "\<exists>e' r. set_quota_if_newer e cid q revision = (True, e') \<and>
      bget (candidates e') cid = Some r \<and> quota (candidate r) = q \<and> quota_revision e' cid = revision"
    by (auto simp: set_quota_if_newer_def edit_candidate_def not_le quota_revision_def)
qed

text \<open>the fast admission test is sound: while it reports that all capacity is reserved, no request
  can be admitted at any time.\<close>

theorem fast_path_sound:
  assumes "all_capacity_reserved e"
  shows "select e request now_ms = None"
proof -
  have "\<not> admissible e runtime route_key now_ms b" if "bget (candidates e) cid = Some runtime"
    for cid runtime route_key b
  proof
    assume a: "admissible e runtime route_key now_ms b"
    have "runtime \<in> set (bvalues (candidates e))" using that by (auto simp: in_bvalues)
    then show False
      using assms admissible_room [OF a] admissible_not_full [OF a]
      by (auto simp: all_capacity_reserved_def capacity_full_def list_all_iff)
  qed
  then have "candidate_availability e request cid now_ms \<noteq> AvReady b" for cid b
    by (auto simp: candidate_ready_iff)
  then have "r \<notin> set (ready_candidates e request now_ms)" for r
    using ready_candidates_available by blast
  then have "r \<notin> set (fst (selection_candidates e request now_ms))" for r
    by (simp add: eligible_part)
  then show ?thesis unfolding select_None by (metis all_not_in_conv set_empty)
qed

section \<open>Evaluated instances\<close>

theorem capacity_limits_exact_witness: "limit_exact on_trial_engine ''a''"
  by (rule capacity_limits_exact [OF scenario_reachable(5)])

theorem upsert_keeps_observations_witness:
  "\<exists>e' r. upsert served_engine ((new_candidate ''a'' ''r'' ''m'')\<lparr>weight := 7\<rparr>) = (Inr (), e') \<and>
     bget (candidates e') ''a'' = Some r \<and> weight (candidate r) = 7 \<and> in_flight r = 1"
proof -
  let ?c = "(new_candidate ''a'' ''r'' ''m'')\<lparr>weight := 7\<rparr>"
  have id: "rc_id ?c = ''a''" by (simp add: new_candidate_def)
  have c: "bget (candidates served_engine) (rc_id ?c)
      = Some \<lparr>candidate = new_candidate ''a'' ''r'' ''m'', in_flight = 1\<rparr>"
    by (simp add: served_engine_def id)
  have "validate ?c = Inr ()"
    by (simp add: validate_def invalid_identifier_def trim_def ws1_def new_candidate_def bmap_eval)
  then obtain e' where u: "upsert served_engine ?c = (Inr (), e')"
    using c by (simp add: upsert_def Let_def)
  from upsert_keeps_observations [OF u c] u show ?thesis unfolding id by auto
qed

theorem quota_revision_fence_witness:
  "fst (set_quota_if_newer member_engine ''a'' QStale 3) = True \<and>
   set_quota_if_newer member_engine ''a'' QStale 0 = (False, member_engine)"
proof -
  obtain runtime where c: "bget (candidates member_engine) ''a'' = Some runtime"
    by (simp add: member_eval)
  have r: "quota_revision member_engine ''a'' = 0"
    by (simp add: quota_revision_def member_eval)
  from quota_revision_fence [of "''a''" member_engine 3 QStale runtime]
    quota_revision_fence [of "''a''" member_engine 0 QStale runtime] c r
  show ?thesis by auto
qed

theorem fast_path_sound_witness:
  "select (served_engine\<lparr>max_in_flight := 1\<rparr>) sample_request 7 = None"
  by (rule fast_path_sound)
    (simp add: all_capacity_reserved_def served_engine_def bmap_eval)

end
