(* ===== verification/Quota.thy ===== *)
theory Quota
  imports RotationTypes
begin

text \<open>
  Provider quota: windows, their transitions and the snapshot that collects them
  (\<open>quota/windows.rs\<close>, \<open>quota/windows/normalize.rs\<close>, \<open>quota/windows/snapshot.rs\<close>), and the quota a
  candidate is scheduled with (\<open>scheduler/capacity.rs\<close>, \<open>CandidateQuotaState\<close> of
  \<open>scheduler/candidate.rs\<close>).

  Two functions are parameters: \<open>digest\<close> is the hex encoded SHA-256 of the crates \<open>sha2\<close> and
  \<open>hex\<close>, and \<open>to_basis_points\<close> is \<open>percent_to_basis_points\<close>, which is \<open>f64\<close> arithmetic; the type
  \<open>'f\<close> stands for \<open>f64\<close>.
\<close>

section \<open>Data\<close>

definition DEFAULT_FULL_THRESHOLD_BASIS_POINTS :: u16 where
  "DEFAULT_FULL_THRESHOLD_BASIS_POINTS = 9950"

datatype quota_window_kind = Primary | Secondary

datatype reset_time =
    AbsoluteUnixSeconds u64
  | AbsoluteUnixMilliseconds u64
  | RelativeSeconds u64

fun normalize_ms :: "reset_time \<Rightarrow> u64 \<Rightarrow> u64" where
  "normalize_ms (AbsoluteUnixSeconds seconds) _ = sat_mul seconds 1000"
| "normalize_ms (AbsoluteUnixMilliseconds milliseconds) _ = milliseconds"
| "normalize_ms (RelativeSeconds seconds) observed_at = sat_add observed_at (sat_mul seconds 1000)"

record 'f quota_window_input =
  in_kind :: quota_window_kind
  in_available_percent :: "'f option"
  in_explicitly_full :: "bool option"
  in_reset :: "reset_time option"
  in_window_minutes :: "u32 option"
  in_provider_cycle_id :: "string option"
  in_observed_at_ms :: u64

record quota_window =
  qw_kind :: quota_window_kind
  qw_provider_cycle_id :: "string option"
  qw_window_start_ms :: "u64 option"
  qw_available :: "u16 option"
  qw_explicitly_full :: "bool option"
  qw_reset_at_ms :: "u64 option"
  qw_window_minutes :: "u32 option"
  qw_observed_at_ms :: u64
  qw_full_fingerprint :: "string option"
  qw_exhaustion_fingerprint :: "string option"

datatype service_tier = Standard | Fast | Ultrafast

record supplemental_window =
  sup_id :: string
  sup_label :: string
  sup_service_tier :: "service_tier option"
  sup_window :: quota_window

record quota_transition =
  qt_window_kind :: quota_window_kind
  qt_fingerprint :: string
  qt_at_ms :: u64

datatype quota_normalization_error =
  InvalidPercentage | MismatchedWindowKind | InvalidSupplementalWindow

record quota_error_state =
  qe_code :: string
  qe_occurred_at_ms :: u64

record quota_snapshot =
  primary :: "quota_window option"
  secondary :: "quota_window option"
  supplemental :: "supplemental_window list"
  limit_reached :: bool
  reset_credits_available :: "u32 option"
  available_credits :: "u64 option"
  credits_available :: bool
  credits_unlimited :: bool
  credits_observed_at_ms :: "u64 option"
  direct_balance_micro_usd :: "u64 option"
  updated_at_ms :: "u64 option"
  quota_error :: "quota_error_state option"

definition default_snapshot :: quota_snapshot where
  "default_snapshot =
     \<lparr>primary = None, secondary = None, supplemental = [], limit_reached = False,
      reset_credits_available = None, available_credits = None, credits_available = False,
      credits_unlimited = False, credits_observed_at_ms = None, direct_balance_micro_usd = None,
      updated_at_ms = None, quota_error = None\<rparr>"

definition valid_error_code :: "string \<Rightarrow> bool" where
  "valid_error_code code =
     (code \<noteq> [] \<and> length code \<le> 64 \<and>
      list_all (\<lambda>c. is_ascii_alphanumeric c \<or> c \<in> {CHR ''-'', CHR ''_'', CHR ''.''}) code)"

definition safe_error_code :: "string \<Rightarrow> string" where
  "safe_error_code code = (if valid_error_code (trim code) then trim code else ''redacted'')"

definition new_quota_error :: "string \<Rightarrow> u64 \<Rightarrow> quota_error_state" where
  "new_quota_error code at = \<lparr>qe_code = safe_error_code code, qe_occurred_at_ms = at\<rparr>"

section \<open>Windows\<close>

text \<open>\<open>format!("{n}")\<close> of an unsigned integer.\<close>

fun show_dec :: "nat \<Rightarrow> string" where
  "show_dec n = (if n < 10 then [char_of (48 + n)]
     else show_dec (n div 10) @ [char_of (48 + n mod 10)])"

declare show_dec.simps [simp del]

definition cycle_identity ::
  "bool \<Rightarrow> quota_window_kind \<Rightarrow> u64 option \<Rightarrow> u32 option \<Rightarrow> string option \<Rightarrow> u64 \<Rightarrow> string" where
  "cycle_identity exhausted kind reset_at minutes cycle_id observed_at =
     (let nul = [char_of (0::nat)];
          identity = (case kind of Primary \<Rightarrow> ''Primary'' | Secondary \<Rightarrow> ''Secondary'') @ nul
            @ show_dec (unat (unwrap_or reset_at 0)) @ nul
            @ show_dec (unat (unwrap_or minutes 0)) @ nul
            @ trim (unwrap_or cycle_id []) @ nul @ show_dec (unat observed_at)
      in if exhausted then ''exhausted'' @ nul @ identity else identity)"

definition cycle_fingerprint ::
  "(string \<Rightarrow> string) \<Rightarrow> bool \<Rightarrow> quota_window_kind \<Rightarrow> u64 option \<Rightarrow> u32 option \<Rightarrow> string option \<Rightarrow>
   u64 \<Rightarrow> string" where
  "cycle_fingerprint digest exhausted kind reset_at minutes cycle_id observed_at =
     digest (cycle_identity exhausted kind reset_at minutes cycle_id observed_at)"

definition full_by :: "bool option \<Rightarrow> u16 option \<Rightarrow> bool" where
  "full_by explicitly available =
     (case explicitly of Some b \<Rightarrow> b
      | None \<Rightarrow> is_some_and available (\<lambda>n. DEFAULT_FULL_THRESHOLD_BASIS_POINTS \<le> n))"

definition is_fully_available :: "quota_window \<Rightarrow> bool" where
  "is_fully_available w = full_by (qw_explicitly_full w) (qw_available w)"

definition is_exhausted :: "quota_window \<Rightarrow> bool" where
  "is_exhausted w = (qw_available w = Some 0)"

definition is_empty_provider_placeholder :: "quota_window \<Rightarrow> bool" where
  "is_empty_provider_placeholder w =
     (qw_kind w = Secondary \<and> qw_available w = Some 10000 \<and> unwrap_or (qw_window_minutes w) 0 = 0
      \<and> is_none_or (qw_reset_at_ms w) (\<lambda>reset. reset \<le> qw_observed_at_ms w))"

definition full_cycle_changed ::
  "quota_window \<Rightarrow> 'f quota_window_input \<Rightarrow> u64 option \<Rightarrow> bool" where
  "full_cycle_changed prev input reset_at =
     ((case (qw_provider_cycle_id prev, in_provider_cycle_id input) of
         (Some previous_cycle, Some current_cycle) \<Rightarrow>
           trim previous_cycle \<noteq> [] \<and> trim current_cycle \<noteq> [] \<and> previous_cycle \<noteq> current_cycle
           \<and> qw_observed_at_ms prev \<le> in_observed_at_ms input
       | _ \<Rightarrow> False)
      \<or> (case (qw_reset_at_ms prev, reset_at) of
           (Some previous_reset, Some current_reset) \<Rightarrow>
             previous_reset \<le> in_observed_at_ms input \<and> in_observed_at_ms input < current_reset
         | _ \<Rightarrow> False))"

definition normalize_window ::
  "(string \<Rightarrow> string) \<Rightarrow> ('f \<Rightarrow> quota_normalization_error + u16) \<Rightarrow> 'f quota_window_input \<Rightarrow>
   quota_window option \<Rightarrow> quota_normalization_error + quota_window" where
  "normalize_window digest to_basis_points input previous =
     (case (case in_available_percent input of None \<Rightarrow> Inr None
            | Some p \<Rightarrow> (case to_basis_points p of Inl e \<Rightarrow> Inl e | Inr n \<Rightarrow> Inr (Some n))) of
        Inl e \<Rightarrow> Inl e
      | Inr available \<Rightarrow>
        (let reset_at = map_option (\<lambda>r. normalize_ms r (in_observed_at_ms input)) (in_reset input);
             fingerprint = (\<lambda>exhausted. cycle_fingerprint digest exhausted (in_kind input) reset_at
               (in_window_minutes input) (in_provider_cycle_id input) (in_observed_at_ms input));
             full = (if full_by (in_explicitly_full input) available
               then opt_or
                 (Option.bind (opt_filter (\<lambda>prev. is_fully_available prev
                    \<and> \<not> full_cycle_changed prev input reset_at) previous) qw_full_fingerprint)
                 (Some (fingerprint False))
               else None);
             exhaustion = (if available = Some 0
               then opt_or
                 (Option.bind (opt_filter is_exhausted previous) qw_exhaustion_fingerprint)
                 (Some (fingerprint True))
               else None)
         in Inr \<lparr>qw_kind = in_kind input, qw_provider_cycle_id = in_provider_cycle_id input,
              qw_window_start_ms = Option.bind (in_window_minutes input) (\<lambda>minutes.
                map_option (\<lambda>reset. sat_sub reset (ucast minutes * 60000)) reset_at),
              qw_available = available, qw_explicitly_full = in_explicitly_full input,
              qw_reset_at_ms = reset_at, qw_window_minutes = in_window_minutes input,
              qw_observed_at_ms = in_observed_at_ms input,
              qw_full_fingerprint = full, qw_exhaustion_fingerprint = exhaustion\<rparr>))"

definition full_transition_from ::
  "(string \<Rightarrow> string) \<Rightarrow> quota_window \<Rightarrow> quota_window option \<Rightarrow> quota_transition option" where
  "full_transition_from digest w previous =
     Option.bind previous (\<lambda>prev.
       if qw_kind prev = qw_kind w \<and> is_fully_available w
          \<and> (\<not> is_fully_available prev
             \<or> (case (qw_full_fingerprint w, qw_full_fingerprint prev) of
                  (Some a, Some b) \<Rightarrow> a \<noteq> b | _ \<Rightarrow> False))
       then Some \<lparr>qt_window_kind = qw_kind w,
         qt_fingerprint = (case qw_full_fingerprint w of Some f \<Rightarrow> f
           | None \<Rightarrow> cycle_fingerprint digest False (qw_kind w) (qw_reset_at_ms w)
               (qw_window_minutes w) None (qw_observed_at_ms w)),
         qt_at_ms = qw_observed_at_ms w\<rparr>
       else None)"

definition exhaustion_transition ::
  "(string \<Rightarrow> string) \<Rightarrow> quota_window \<Rightarrow> quota_transition option" where
  "exhaustion_transition digest w =
     (if is_exhausted w
      then Some \<lparr>qt_window_kind = qw_kind w,
        qt_fingerprint = (case qw_exhaustion_fingerprint w of Some f \<Rightarrow> f
          | None \<Rightarrow> cycle_fingerprint digest True (qw_kind w) (qw_reset_at_ms w)
              (qw_window_minutes w) (qw_provider_cycle_id w) (qw_observed_at_ms w)),
        qt_at_ms = qw_observed_at_ms w\<rparr>
      else None)"

definition exhaustion_transition_from ::
  "(string \<Rightarrow> string) \<Rightarrow> quota_window \<Rightarrow> quota_window option \<Rightarrow> quota_transition option" where
  "exhaustion_transition_from digest w previous =
     Option.bind previous (\<lambda>prev.
       if qw_kind prev = qw_kind w \<and> \<not> is_exhausted prev \<and> is_exhausted w
       then Some \<lparr>qt_window_kind = qw_kind w,
         qt_fingerprint = (case qw_exhaustion_fingerprint w of Some f \<Rightarrow> f
           | None \<Rightarrow> cycle_fingerprint digest True (qw_kind w) (qw_reset_at_ms w)
               (qw_window_minutes w) (qw_provider_cycle_id w) (qw_observed_at_ms w)),
         qt_at_ms = qw_observed_at_ms w\<rparr>
       else None)"

section \<open>Snapshots\<close>

definition has_usable_provider_credits :: "quota_snapshot \<Rightarrow> bool" where
  "has_usable_provider_credits s = credits_available s"

definition has_fresh_provider_credits :: "quota_snapshot \<Rightarrow> u64 \<Rightarrow> u64 \<Rightarrow> bool" where
  "has_fresh_provider_credits s now_ms stale_after =
     (has_usable_provider_credits s
      \<and> observation_is_fresh (credits_observed_at_ms s) now_ms stale_after)"

text \<open>\<open>primary.iter().chain(secondary.iter())\<close>\<close>

definition main_windows :: "quota_snapshot \<Rightarrow> quota_window list" where
  "main_windows s =
     (case primary s of None \<Rightarrow> [] | Some w \<Rightarrow> [w]) @ (case secondary s of None \<Rightarrow> [] | Some w \<Rightarrow> [w])"

definition snapshot_observed_at_ms :: "quota_snapshot \<Rightarrow> u64 option" where
  "snapshot_observed_at_ms s =
     opt_or (list_min (map qw_observed_at_ms (filter (\<lambda>w. qw_available w \<noteq> None) (main_windows s))))
       (updated_at_ms s)"

definition copy_provider_credits :: "quota_snapshot \<Rightarrow> quota_snapshot \<Rightarrow> quota_snapshot" where
  "copy_provider_credits s incoming =
     s\<lparr>available_credits := available_credits incoming,
       credits_available := credits_available incoming,
       credits_unlimited := credits_unlimited incoming,
       credits_observed_at_ms := credits_observed_at_ms incoming\<rparr>"

definition merge_provider_credits ::
  "quota_snapshot \<Rightarrow> quota_snapshot \<Rightarrow> bool \<times> quota_snapshot" where
  "merge_provider_credits s incoming =
     (case credits_observed_at_ms incoming of None \<Rightarrow> (False, s)
      | Some incoming_at \<Rightarrow>
          if is_some_and (credits_observed_at_ms s) (\<lambda>current_at. incoming_at \<le> current_at)
          then (False, s) else (True, copy_provider_credits s incoming))"

definition merge_window :: "bool \<Rightarrow> quota_window \<Rightarrow> quota_window \<Rightarrow> quota_window" where
  "merge_window incoming_wins current incoming =
     (if qw_observed_at_ms current < qw_observed_at_ms incoming then incoming
      else if incoming_wins \<and> qw_observed_at_ms incoming = qw_observed_at_ms current
        \<and> qw_available incoming = qw_available current
      then current\<lparr>qw_reset_at_ms := qw_reset_at_ms incoming,
                   qw_window_minutes := qw_window_minutes incoming\<rparr>
      else current)"

definition merge_slot ::
  "bool \<Rightarrow> quota_window option \<Rightarrow> quota_window option \<Rightarrow> quota_window option" where
  "merge_slot wins current incoming =
     (case (current, incoming) of (Some c, Some i) \<Rightarrow> Some (merge_window wins c i)
      | _ \<Rightarrow> if wins then incoming else current)"

definition find_supplemental :: "string \<Rightarrow> supplemental_window list \<Rightarrow> supplemental_window option" where
  "find_supplemental name ws = List.find (\<lambda>w. sup_id w = name) ws"

definition merge_supplemental ::
  "bool \<Rightarrow> supplemental_window list \<Rightarrow> supplemental_window list \<Rightarrow> supplemental_window list" where
  "merge_supplemental wins current incoming =
     map (\<lambda>target.
         case (find_supplemental (sup_id target) current, find_supplemental (sup_id target) incoming) of
           (Some c, Some i) \<Rightarrow>
             target\<lparr>sup_window := merge_window wins (sup_window c) (sup_window i)\<rparr>
         | _ \<Rightarrow> target)
       (if wins then incoming else current)"

definition merge_observation_with_preference ::
  "quota_snapshot \<Rightarrow> quota_snapshot \<Rightarrow> bool \<Rightarrow> bool \<times> quota_snapshot" where
  "merge_observation_with_preference s incoming wins =
     (let merged = (if wins then incoming else s)\<lparr>
            primary := merge_slot wins (primary s) (primary incoming),
            secondary := merge_slot wins (secondary s) (secondary incoming),
            supplemental := merge_supplemental wins (supplemental s) (supplemental incoming)\<rparr>;
          dated = (if credits_observed_at_ms s \<noteq> None then copy_provider_credits merged s else merged);
          result = snd (merge_provider_credits dated incoming)
      in (result \<noteq> s, result))"

definition merge_observation :: "quota_snapshot \<Rightarrow> quota_snapshot \<Rightarrow> quota_snapshot" where
  "merge_observation s incoming =
     snd (merge_observation_with_preference s incoming
       (unwrap_or (updated_at_ms s) 0 \<le> unwrap_or (updated_at_ms incoming) 0))"

definition snapshot_window :: "quota_snapshot \<Rightarrow> quota_window_kind \<Rightarrow> quota_window option" where
  "snapshot_window s kind = (case kind of Primary \<Rightarrow> primary s | Secondary \<Rightarrow> secondary s)"

definition limiting_reset_at_ms :: "quota_snapshot \<Rightarrow> u64 option" where
  "limiting_reset_at_ms s =
     map_option snd (min_by cmp (List.map_filter
       (\<lambda>w. case (qw_available w, qw_reset_at_ms w) of (Some n, Some t) \<Rightarrow> Some (n, t) | _ \<Rightarrow> None)
       (main_windows s)))"

definition note_reported_window_exhaustion ::
  "quota_snapshot \<Rightarrow> u64 \<Rightarrow> bool \<times> quota_snapshot" where
  "note_reported_window_exhaustion s observed_at =
     (case primary s of None \<Rightarrow> (False, s)
      | Some w \<Rightarrow>
          if observed_at < qw_observed_at_ms w \<or> is_none_or (qw_available w) (\<lambda>n. n = 0)
          then (False, s)
          else (True, s\<lparr>primary := Some (w\<lparr>qw_available := Some 0, qw_explicitly_full := Some False,
                 qw_observed_at_ms := max (qw_observed_at_ms w) observed_at\<rparr>),
               updated_at_ms := Some (max (unwrap_or (updated_at_ms s) 0) observed_at)\<rparr>))"

section \<open>The quota of a candidate\<close>

datatype candidate_quota = CqUnknown | CqAvailable u64 | CqCreditFallback | CqExhausted | CqStale

definition window_remaining :: "quota_snapshot \<Rightarrow> u64 option" where
  "window_remaining s = list_min (map ucast (List.map_filter qw_available (main_windows s)))"

definition quota_from_snapshot :: "quota_snapshot \<Rightarrow> u64 \<Rightarrow> u64 \<Rightarrow> candidate_quota" where
  "quota_from_snapshot s now_ms stale_after =
     (let fresh_credits = has_fresh_provider_credits s now_ms stale_after in
      if limit_reached s \<and> \<not> fresh_credits then CqExhausted
      else if snapshot_observed_at_ms s \<noteq> None
        \<and> \<not> observation_is_fresh (snapshot_observed_at_ms s) now_ms stale_after
      then (if fresh_credits then CqCreditFallback else CqStale)
      else (case window_remaining s of
          Some remaining \<Rightarrow>
            if remaining = 0 \<and> fresh_credits then CqCreditFallback
            else if remaining = 0 then CqExhausted
            else CqAvailable remaining
        | None \<Rightarrow> if fresh_credits then CqCreditFallback else CqUnknown))"

definition quota_is_eligible :: "candidate_quota \<Rightarrow> bool" where
  "quota_is_eligible q =
     (case q of CqUnknown \<Rightarrow> True | CqAvailable n \<Rightarrow> 1 \<le> n | CqCreditFallback \<Rightarrow> True
      | CqExhausted \<Rightarrow> False | CqStale \<Rightarrow> False)"

record candidate_quota_state =
  cqs_quota :: candidate_quota
  cqs_updated_at_ms :: "u64 option"
  cqs_reset_at_ms :: "u64 option"
  cqs_credits :: "u64 option"
  cqs_credits_unlimited :: bool
  cqs_credits_observed_at_ms :: "u64 option"

definition quota_state_from_snapshot :: "quota_snapshot \<Rightarrow> u64 \<Rightarrow> u64 \<Rightarrow> candidate_quota_state" where
  "quota_state_from_snapshot s now_ms stale_after =
     \<lparr>cqs_quota = quota_from_snapshot s now_ms stale_after,
      cqs_updated_at_ms = snapshot_observed_at_ms s,
      cqs_reset_at_ms = limiting_reset_at_ms s,
      cqs_credits = opt_filter (\<lambda>_. has_usable_provider_credits s) (available_credits s),
      cqs_credits_unlimited = (has_usable_provider_credits s \<and> credits_unlimited s),
      cqs_credits_observed_at_ms = credits_observed_at_ms s\<rparr>"

section \<open>Lemmas: merging\<close>

text \<open>The ledger: what one complete observation of the provider's credits reports.\<close>

definition ledger :: "quota_snapshot \<Rightarrow> u64 option \<times> bool \<times> bool \<times> u64 option" where
  "ledger s =
     (available_credits s, credits_available s, credits_unlimited s, credits_observed_at_ms s)"

lemma ledger_copy [simp]: "ledger (copy_provider_credits s i) = ledger i"
  by (simp add: ledger_def copy_provider_credits_def)

lemma copy_fields [simp]:
  "primary (copy_provider_credits s i) = primary s"
  "secondary (copy_provider_credits s i) = secondary s"
  "supplemental (copy_provider_credits s i) = supplemental s"
  "credits_observed_at_ms (copy_provider_credits s i) = credits_observed_at_ms i"
  by (simp_all add: copy_provider_credits_def)

lemma merge_credits_fields [simp]:
  "primary (snd (merge_provider_credits s i)) = primary s"
  "secondary (snd (merge_provider_credits s i)) = secondary s"
  "supplemental (snd (merge_provider_credits s i)) = supplemental s"
  by (simp_all add: merge_provider_credits_def split: option.split)

lemma merge_credits_ledger:
  "ledger (snd (merge_provider_credits s i)) =
     (if credits_observed_at_ms s < credits_observed_at_ms i then ledger i else ledger s)"
  by (cases "credits_observed_at_ms s"; cases "credits_observed_at_ms i")
    (auto simp: merge_provider_credits_def not_le)

lemma merge_window_clock:
  "qw_observed_at_ms (merge_window wins c i) = max (qw_observed_at_ms c) (qw_observed_at_ms i)"
  "qw_available (merge_window wins c i) =
     (if qw_observed_at_ms c < qw_observed_at_ms i then qw_available i else qw_available c)"
  by (auto simp: merge_window_def max_def)

lemma merge_window_again [simp]: "merge_window wins (merge_window wins c i) i = merge_window wins c i"
  by (simp add: merge_window_def)

lemma merge_window_same [simp]: "merge_window wins w w = w"
  by (simp add: merge_window_def)

lemma merge_slot_again [simp]: "merge_slot wins (merge_slot wins c i) i = merge_slot wins c i"
  by (simp add: merge_slot_def split: option.split)

lemma find_map_same:
  assumes "\<And>w. sup_id (f w) = sup_id w"
  shows "find_supplemental name (map f ws) = map_option f (find_supplemental name ws)"
  unfolding find_supplemental_def by (induction ws) (simp_all add: assms)

lemma find_supplemental_distinct:
  "distinct (map sup_id ws) \<Longrightarrow> w \<in> set ws \<Longrightarrow> find_supplemental (sup_id w) ws = Some w"
  unfolding find_supplemental_def by (induction ws) (auto simp: image_iff)

lemma find_present: "w \<in> set ws \<Longrightarrow> \<exists>v. find_supplemental (sup_id w) ws = Some v"
  unfolding find_supplemental_def by (induction ws) auto

lemma find_supplemental_id: "find_supplemental name ws = Some w \<Longrightarrow> sup_id w = name"
  by (auto simp: find_supplemental_def find_Some_iff)

text \<open>Redelivery merges nothing new into the supplemental windows.\<close>

lemma merge_supplemental_again:
  assumes "distinct (map sup_id i)"
  shows "merge_supplemental wins (merge_supplemental wins c i) i = merge_supplemental wins c i"
proof -
  let ?m = "merge_supplemental wins c i"
  define g where "g target = (case (find_supplemental (sup_id target) c, find_supplemental (sup_id target) i) of
      (Some c, Some i) \<Rightarrow> target\<lparr>sup_window := merge_window wins (sup_window c) (sup_window i)\<rparr>
    | _ \<Rightarrow> target)" for target :: supplemental_window
  have g_id [simp]: "sup_id (g t) = sup_id t" for t
    by (simp add: g_def split: option.split)
  have m: "?m = map g (if wins then i else c)"
    by (simp add: merge_supplemental_def g_def)
  define h where "h target = (case (find_supplemental (sup_id target) ?m, find_supplemental (sup_id target) i) of
      (Some c, Some i) \<Rightarrow> target\<lparr>sup_window := merge_window wins (sup_window c) (sup_window i)\<rparr>
    | _ \<Rightarrow> target)" for target :: supplemental_window
  have hg: "h (g t) = g t" if t: "t \<in> set (if wins then i else c)" for t
  proof (cases "find_supplemental (sup_id t) i")
    case None
    then show ?thesis by (simp add: h_def split: option.split)
  next
    case (Some u)
    have uid: "sup_id u = sup_id t" by (rule find_supplemental_id [OF Some])
    show ?thesis
    proof (cases wins)
      case True
      then have ut: "u = t" using find_supplemental_distinct [OF assms, of t] t Some by simp
      have "find_supplemental (sup_id t) ?m = Some (g t)"
        unfolding m using Some ut True by (simp add: find_map_same)
      then show ?thesis using Some ut True
        by (simp add: h_def) (simp add: g_def split: option.split)
    next
      case False
      then obtain v where v: "find_supplemental (sup_id t) c = Some v"
        using t find_present [of t c] by auto
      then have "sup_id v = sup_id t" by (rule find_supplemental_id)
      moreover have "find_supplemental (sup_id t) ?m = Some (g v)"
        unfolding m using False v by (simp add: find_map_same)
      ultimately show ?thesis using Some v
        by (simp add: h_def) (simp add: g_def)
    qed
  qed
  have "merge_supplemental wins ?m i = map h (if wins then i else ?m)"
    unfolding merge_supplemental_def [of wins ?m i] h_def by (rule refl)
  also have "\<dots> = ?m"
  proof (cases wins)
    case True
    have "h t = g t" if t: "t \<in> set i" for t
    proof -
      have "find_supplemental (sup_id t) i = Some t" by (rule find_supplemental_distinct [OF assms t])
      moreover from this have "find_supplemental (sup_id t) ?m = Some (g t)"
        unfolding m using True by (simp add: find_map_same)
      ultimately have "h t = (h (g t))\<lparr>sup_label := sup_label t, sup_service_tier := sup_service_tier t\<rparr>"
        by (simp add: h_def g_def split: option.split)
      also have "\<dots> = g t" using hg [of t] t True by (simp add: g_def split: option.split)
      finally show ?thesis .
    qed
    then show ?thesis unfolding m using True by simp
  next
    case False
    then have "map h ?m = map (\<lambda>t. h (g t)) c" unfolding m by (simp add: comp_def)
    also have "\<dots> = ?m" unfolding m using hg False by simp
    finally show ?thesis using False by simp
  qed
  finally show ?thesis .
qed

section \<open>Properties\<close>

text \<open>observations are merged by their own clocks: where both snapshots have a window the merged
  one carries the later clock and the remainder observed at it (the current one on a tie), and the
  credit ledger is the later of the two ledgers, whichever snapshot is preferred.\<close>

theorem merge_respects_clocks:
  assumes "merge_observation_with_preference s incoming wins = (changed, m)"
  shows "(\<forall>kind c i. snapshot_window s kind = Some c \<longrightarrow> snapshot_window incoming kind = Some i \<longrightarrow>
      (\<exists>w. snapshot_window m kind = Some w \<and>
        qw_observed_at_ms w = max (qw_observed_at_ms c) (qw_observed_at_ms i) \<and>
        qw_available w = (if qw_observed_at_ms c < qw_observed_at_ms i then qw_available i
          else qw_available c))) \<and>
    (credits_observed_at_ms s < credits_observed_at_ms incoming \<longrightarrow> ledger m = ledger incoming) \<and>
    (credits_observed_at_ms s \<noteq> None \<longrightarrow>
      credits_observed_at_ms incoming \<le> credits_observed_at_ms s \<longrightarrow> ledger m = ledger s) \<and>
    changed = (m \<noteq> s)"
proof -
  define merged where "merged = (if wins then incoming else s)\<lparr>
      primary := merge_slot wins (primary s) (primary incoming),
      secondary := merge_slot wins (secondary s) (secondary incoming),
      supplemental := merge_supplemental wins (supplemental s) (supplemental incoming)\<rparr>"
  define dated where
    "dated = (if credits_observed_at_ms s \<noteq> None then copy_provider_credits merged s else merged)"
  have m: "m = snd (merge_provider_credits dated incoming)" and c: "changed = (m \<noteq> s)"
    using assms by (auto simp: merge_observation_with_preference_def merged_def dated_def Let_def)
  have "snapshot_window m kind = merge_slot wins (snapshot_window s kind) (snapshot_window incoming kind)"
    for kind
    unfolding m dated_def merged_def by (cases kind) (simp_all add: snapshot_window_def)
  moreover have "ledger dated = (if credits_observed_at_ms s \<noteq> None then ledger s
      else if wins then ledger incoming else ledger s)"
    by (simp add: dated_def merged_def) (simp add: ledger_def)
  moreover have "credits_observed_at_ms dated = (if credits_observed_at_ms s \<noteq> None
      then credits_observed_at_ms s else if wins then credits_observed_at_ms incoming
      else credits_observed_at_ms s)"
    by (simp add: dated_def merged_def)
  ultimately show ?thesis
    using c unfolding m merge_credits_ledger
    by (auto simp: merge_slot_def merge_window_clock)
qed

text \<open>delivering the same observation twice is delivering it once: merging it again changes
  nothing and reports no change.\<close>

theorem merge_redelivery:
  assumes "merge_observation_with_preference s incoming wins = (changed, m)"
    and "distinct (map sup_id (supplemental incoming))"
  shows "merge_observation_with_preference m incoming wins = (False, m)"
proof -
  define merged where "merged x = (if wins then incoming else x)\<lparr>
      primary := merge_slot wins (primary x) (primary incoming),
      secondary := merge_slot wins (secondary x) (secondary incoming),
      supplemental := merge_supplemental wins (supplemental x) (supplemental incoming)\<rparr>" for x
  define dated where
    "dated x = (if credits_observed_at_ms x \<noteq> None then copy_provider_credits (merged x) x else merged x)"
    for x
  define result where "result x = snd (merge_provider_credits (dated x) incoming)" for x
  have step: "merge_observation_with_preference x incoming wins = (result x \<noteq> x, result x)" for x
    by (simp add: merge_observation_with_preference_def merged_def dated_def result_def Let_def)
  have "result (result s) = result s"
    using merge_supplemental_again [OF assms(2)]
    by (cases "credits_observed_at_ms s"; cases "credits_observed_at_ms incoming"; cases wins)
      (auto simp: result_def dated_def merged_def merge_provider_credits_def copy_provider_credits_def)
  moreover have "m = result s" using assms(1) by (simp add: step)
  ultimately show ?thesis by (simp add: step)
qed

lemma window_remaining_Some:
  assumes "window_remaining s = Some n"
  shows "\<exists>w \<in> set (main_windows s). map_option ucast (qw_available w) = Some n"
    and "w \<in> set (main_windows s) \<Longrightarrow> qw_available w = Some k \<Longrightarrow> n \<le> ucast k"
    and "snapshot_observed_at_ms s \<noteq> None"
proof -
  let ?ks = "List.map_filter qw_available (main_windows s)"
  have ks: "set ?ks = {k. \<exists>w \<in> set (main_windows s). qw_available w = Some k}"
    unfolding map_filter_def by (force intro: rev_image_eqI)
  have "n \<in> set (map ucast ?ks)" "\<forall>x \<in> set (map ucast ?ks). n \<le> x"
    using list_min_Some [of "map ucast ?ks" n] assms by (simp_all add: window_remaining_def)
  then show w: "\<exists>w \<in> set (main_windows s). map_option ucast (qw_available w) = Some n"
    and "w \<in> set (main_windows s) \<Longrightarrow> qw_available w = Some k \<Longrightarrow> n \<le> ucast k"
    by (auto simp: ks)
  from w have "filter (\<lambda>w. qw_available w \<noteq> None) (main_windows s) \<noteq> []"
    by (auto simp: filter_empty_conv)
  then show "snapshot_observed_at_ms s \<noteq> None"
    by (auto simp: snapshot_observed_at_ms_def opt_or_def split: option.split)
qed

text \<open>a candidate is scheduled with the quota the provider proved: a proven limit without fresh
  credits is exhausted whatever else the snapshot says; a reported remainder is positive, fresh and
  the least of the windows; the credit fallback needs fresh credits.\<close>

theorem candidate_quota_proven:
  "(limit_reached s \<longrightarrow> \<not> has_fresh_provider_credits s now_ms stale_after \<longrightarrow>
      quota_from_snapshot s now_ms stale_after = CqExhausted) \<and>
   (\<forall>n. quota_from_snapshot s now_ms stale_after = CqAvailable n \<longrightarrow>
      0 < n \<and> observation_is_fresh (snapshot_observed_at_ms s) now_ms stale_after \<and>
      (\<exists>w \<in> set (main_windows s). map_option ucast (qw_available w) = Some n) \<and>
      (\<forall>w \<in> set (main_windows s). \<forall>k. qw_available w = Some k \<longrightarrow> n \<le> ucast k)) \<and>
   (quota_from_snapshot s now_ms stale_after = CqCreditFallback \<longrightarrow>
      has_fresh_provider_credits s now_ms stale_after)"
proof (intro conjI allI impI)
  fix n
  assume q: "quota_from_snapshot s now_ms stale_after = CqAvailable n"
  then have n: "window_remaining s = Some n" "n \<noteq> 0"
    and fresh: "\<not> (snapshot_observed_at_ms s \<noteq> None
        \<and> \<not> observation_is_fresh (snapshot_observed_at_ms s) now_ms stale_after)"
    by (auto simp: quota_from_snapshot_def Let_def split: if_splits option.splits)
  show "0 < n" using n(2) by (simp add: word_neq_0_conv)
  show "observation_is_fresh (snapshot_observed_at_ms s) now_ms stale_after"
    using fresh window_remaining_Some(3) [OF n(1)] by blast
  show "\<exists>w \<in> set (main_windows s). map_option ucast (qw_available w) = Some n"
    "\<forall>w \<in> set (main_windows s). \<forall>k. qw_available w = Some k \<longrightarrow> n \<le> ucast k"
    using window_remaining_Some(1,2) [OF n(1)] by blast+
qed (auto simp: quota_from_snapshot_def Let_def split: if_splits option.splits)

lemma normalize_Inr:
  assumes "normalize_window digest to_bp i previous = Inr w"
  obtains f x where "qw_kind w = in_kind i"
    "qw_full_fingerprint w = (if is_fully_available w then opt_or
       (Option.bind (opt_filter (\<lambda>prev. is_fully_available prev
          \<and> \<not> full_cycle_changed prev i (qw_reset_at_ms w)) previous) qw_full_fingerprint)
       (Some f) else None)"
    "qw_exhaustion_fingerprint w = (if is_exhausted w then opt_or
       (Option.bind (opt_filter is_exhausted previous) qw_exhaustion_fingerprint) (Some x)
       else None)"
proof (rule that)
  let ?fp = "\<lambda>b. cycle_fingerprint digest b (in_kind i) (qw_reset_at_ms w) (qw_window_minutes w)
    (qw_provider_cycle_id w) (qw_observed_at_ms w)"
  show "qw_kind w = in_kind i"
    and "qw_full_fingerprint w = (if is_fully_available w then opt_or
       (Option.bind (opt_filter (\<lambda>prev. is_fully_available prev
          \<and> \<not> full_cycle_changed prev i (qw_reset_at_ms w)) previous) qw_full_fingerprint)
       (Some (?fp False)) else None)"
    and "qw_exhaustion_fingerprint w = (if is_exhausted w then opt_or
       (Option.bind (opt_filter is_exhausted previous) qw_exhaustion_fingerprint) (Some (?fp True))
       else None)"
    using assms
    by (auto simp: normalize_window_def Let_def is_fully_available_def is_exhausted_def
        split: option.splits sum.splits)
qed

lemma normalize_marks:
  assumes "normalize_window digest to_bp i previous = Inr w"
  shows "qw_kind w = in_kind i"
    and "is_fully_available w \<Longrightarrow> qw_full_fingerprint w \<noteq> None"
    and "is_exhausted w \<Longrightarrow> qw_exhaustion_fingerprint w \<noteq> None"
  by (rule normalize_Inr [OF assms]; simp add: opt_or_def split: option.split)+

text \<open>one cycle of a full quota is reported once: a window that stays full in the same cycle keeps
  the fingerprint and reports no new transition, and one that stays exhausted reports none either.\<close>

theorem one_transition_per_cycle:
  assumes "normalize_window digest to_bp input1 before = Inr first"
    and "normalize_window digest to_bp input2 (Some first) = Inr again"
    and "in_kind input1 = in_kind input2"
  shows "(is_fully_available first \<longrightarrow> is_fully_available again \<longrightarrow>
       \<not> full_cycle_changed first input2 (qw_reset_at_ms again) \<longrightarrow>
       qw_full_fingerprint again = qw_full_fingerprint first \<and>
       full_transition_from digest again (Some first) = None) \<and>
    (is_exhausted first \<longrightarrow> is_exhausted again \<longrightarrow>
       qw_exhaustion_fingerprint again = qw_exhaustion_fingerprint first \<and>
       exhaustion_transition_from digest again (Some first) = None \<and>
       map_option qt_fingerprint (exhaustion_transition digest again)
         = map_option qt_fingerprint (exhaustion_transition digest first))"
proof -
  note first = normalize_marks [OF assms(1)]
  show ?thesis
  proof (rule normalize_Inr [OF assms(2)])
    fix f2 x2
    assume again: "qw_kind again = in_kind input2"
      "qw_full_fingerprint again = (if is_fully_available again then opt_or
         (Option.bind (opt_filter (\<lambda>prev. is_fully_available prev
            \<and> \<not> full_cycle_changed prev input2 (qw_reset_at_ms again)) (Some first)) qw_full_fingerprint)
         (Some f2) else None)"
      "qw_exhaustion_fingerprint again = (if is_exhausted again then opt_or
         (Option.bind (opt_filter is_exhausted (Some first)) qw_exhaustion_fingerprint) (Some x2)
         else None)"
    show ?thesis
      using first again assms(3)
      by (auto simp: full_transition_from_def exhaustion_transition_from_def
          exhaustion_transition_def)
  qed
qed

end
