(* ===== verification/Activity.thy ===== *)
theory Activity
  imports BMap
begin

text \<open>
  The in-flight and dispatch counters of the pool scheduler, apart for text and image requests
  (\<open>scheduler/activity.rs\<close>), and the model key they are grouped by
  (\<open>model_id_key\<close> of \<open>catalog/order.rs\<close>).
\<close>

section \<open>Data\<close>

datatype in_flight_lane = TextLane | ImageLane

instantiation in_flight_lane :: linorder
begin

definition less_eq_in_flight_lane :: "in_flight_lane \<Rightarrow> in_flight_lane \<Rightarrow> bool" where
  "less_eq_in_flight_lane a b = (a = TextLane \<or> b = ImageLane)"

definition less_in_flight_lane :: "in_flight_lane \<Rightarrow> in_flight_lane \<Rightarrow> bool" where
  "less_in_flight_lane a b = (a = TextLane \<and> b = ImageLane)"

instance
proof
  fix x y z :: in_flight_lane
  show "x < y \<longleftrightarrow> x \<le> y \<and> \<not> y \<le> x"
    by (cases x; cases y) (simp_all add: less_eq_in_flight_lane_def less_in_flight_lane_def)
  show "x \<le> x" by (cases x) (simp_all add: less_eq_in_flight_lane_def)
  show "x \<le> y \<Longrightarrow> y \<le> z \<Longrightarrow> x \<le> z" by (auto simp: less_eq_in_flight_lane_def)
  show "x \<le> y \<Longrightarrow> y \<le> x \<Longrightarrow> x = y" by (auto simp: less_eq_in_flight_lane_def)
  show "x \<le> y \<or> y \<le> x" by (cases x; cases y) (simp_all add: less_eq_in_flight_lane_def)
qed

end

type_synonym counts = "(string, u32) bmap"

record scheduler_activity =
  text_in_flight :: counts
  image_in_flight :: counts
  active_models :: "(string \<times> in_flight_lane, counts) bmap"
  text_dispatches :: "(string, u64) bmap"
  image_dispatches :: "(string, u64) bmap"

definition default_activity :: scheduler_activity where
  "default_activity = \<lparr>text_in_flight = bempty, image_in_flight = bempty, active_models = bempty,
     text_dispatches = bempty, image_dispatches = bempty\<rparr>"

definition model_id_key :: "string \<Rightarrow> string" where
  "model_id_key model = to_ascii_lowercase (trim model)"

section \<open>Operations\<close>

definition in_flight_map :: "in_flight_lane \<Rightarrow> scheduler_activity \<Rightarrow> counts" where
  "in_flight_map lane a = (case lane of TextLane \<Rightarrow> text_in_flight a | ImageLane \<Rightarrow> image_in_flight a)"

definition set_in_flight_map :: "in_flight_lane \<Rightarrow> counts \<Rightarrow> scheduler_activity \<Rightarrow> scheduler_activity" where
  "set_in_flight_map lane m a =
     (case lane of TextLane \<Rightarrow> a\<lparr>text_in_flight := m\<rparr> | ImageLane \<Rightarrow> a\<lparr>image_in_flight := m\<rparr>)"

definition dispatch_map :: "in_flight_lane \<Rightarrow> scheduler_activity \<Rightarrow> (string, u64) bmap" where
  "dispatch_map lane a = (case lane of TextLane \<Rightarrow> text_dispatches a | ImageLane \<Rightarrow> image_dispatches a)"

definition set_dispatch_map ::
  "in_flight_lane \<Rightarrow> (string, u64) bmap \<Rightarrow> scheduler_activity \<Rightarrow> scheduler_activity" where
  "set_dispatch_map lane m a =
     (case lane of TextLane \<Rightarrow> a\<lparr>text_dispatches := m\<rparr> | ImageLane \<Rightarrow> a\<lparr>image_dispatches := m\<rparr>)"

text \<open>\<open>*m.entry(k).or_default() += 1\<close>, saturating.\<close>

definition count_up :: "string \<Rightarrow> (string, 'n::len word) bmap \<Rightarrow> (string, 'n word) bmap" where
  "count_up k m = binsert k (sat_add (unwrap_or (bget m k) 0) 1) m"

definition activity_remove :: "string \<Rightarrow> scheduler_activity \<Rightarrow> scheduler_activity" where
  "activity_remove cid a =
     a\<lparr>text_in_flight := bremove cid (text_in_flight a),
       image_in_flight := bremove cid (image_in_flight a),
       active_models := bretain (\<lambda>(active, _) _. active \<noteq> cid) (active_models a),
       text_dispatches := bremove cid (text_dispatches a),
       image_dispatches := bremove cid (image_dispatches a)\<rparr>"

definition activity_reserve ::
  "string \<Rightarrow> string \<Rightarrow> in_flight_lane \<Rightarrow> scheduler_activity \<Rightarrow> scheduler_activity" where
  "activity_reserve cid model lane a =
     (let a1 = set_in_flight_map lane (count_up cid (in_flight_map lane a)) a
      in a1\<lparr>active_models := binsert (cid, lane)
           (count_up (model_id_key model) (unwrap_or (bget (active_models a1) (cid, lane)) bempty))
           (active_models a1)\<rparr>)"

definition record_dispatch :: "string \<Rightarrow> in_flight_lane \<Rightarrow> scheduler_activity \<Rightarrow> scheduler_activity" where
  "record_dispatch cid lane a = set_dispatch_map lane (count_up cid (dispatch_map lane a)) a"

definition count_down :: "string \<Rightarrow> u32 \<Rightarrow> counts \<Rightarrow> counts" where
  "count_down k n m = (if n \<le> 1 then bremove k m else binsert k (n - 1) m)"

definition first_key :: "counts \<Rightarrow> string option" where
  "first_key m = (case bkeys m of [] \<Rightarrow> None | k # _ \<Rightarrow> Some k)"

definition release_active_model ::
  "string \<Rightarrow> string option \<Rightarrow> in_flight_lane \<Rightarrow> scheduler_activity \<Rightarrow> scheduler_activity" where
  "release_active_model cid model lane a =
     (case opt_or (map_option model_id_key model)
             (Option.bind (bget (active_models a) (cid, lane)) first_key) of
        None \<Rightarrow> a
      | Some model_key \<Rightarrow>
          (case bget (active_models a) (cid, lane) of None \<Rightarrow> a
           | Some models \<Rightarrow>
               (case bget models model_key of None \<Rightarrow> a
                | Some n \<Rightarrow>
                    let models' = count_down model_key n models
                    in a\<lparr>active_models :=
                         (if bsize models' = 0 then bremove (cid, lane) (active_models a)
                          else binsert (cid, lane) models' (active_models a))\<rparr>)))"

definition activity_release ::
  "string \<Rightarrow> string option \<Rightarrow> in_flight_lane \<Rightarrow> scheduler_activity \<Rightarrow> bool \<times> scheduler_activity" where
  "activity_release cid model lane a =
     (case bget (in_flight_map lane a) cid of None \<Rightarrow> (False, a)
      | Some n \<Rightarrow> (True, release_active_model cid model lane
          (set_in_flight_map lane (count_down cid n (in_flight_map lane a)) a)))"

definition in_flight_count :: "string \<Rightarrow> in_flight_lane \<Rightarrow> scheduler_activity \<Rightarrow> u32" where
  "in_flight_count cid lane a = unwrap_or (bget (in_flight_map lane a) cid) 0"

definition active_request_count :: "string \<Rightarrow> scheduler_activity \<Rightarrow> u32" where
  "active_request_count cid a =
     fold (\<lambda>n total. sat_add total n)
       (concat (map (\<lambda>(_, models). bvalues models)
          (filter (\<lambda>((active, _), _). active = cid) (bentries (active_models a))))) 0"

definition active_models_for :: "string \<Rightarrow> scheduler_activity \<Rightarrow> (string \<times> u32) list" where
  "active_models_for cid a =
     filter (\<lambda>(model, n). model \<noteq> [] \<and> 0 < n)
       (bentries (fold (\<lambda>(_, models) total.
            fold (\<lambda>(model, n) t. binsert model (sat_add (unwrap_or (bget t model) 0) n) t)
              (bentries models) total)
          (filter (\<lambda>((active, _), _). active = cid) (bentries (active_models a))) bempty))"

definition dispatch_count :: "string \<Rightarrow> in_flight_lane \<Rightarrow> scheduler_activity \<Rightarrow> u64" where
  "dispatch_count cid lane a = unwrap_or (bget (dispatch_map lane a) cid) 0"

section \<open>Invariant\<close>

text \<open>Counters that have dropped to zero are removed, and so are empty groups.\<close>

definition counts_ok :: "counts \<Rightarrow> bool" where
  "counts_ok m \<longleftrightarrow> (\<forall>k n. bget m k = Some n \<longrightarrow> 0 < n)"

definition activity_ok :: "scheduler_activity \<Rightarrow> bool" where
  "activity_ok a \<longleftrightarrow> counts_ok (text_in_flight a) \<and> counts_ok (image_in_flight a) \<and>
     (\<forall>k m. bget (active_models a) k = Some m \<longrightarrow> counts_ok m \<and> m \<noteq> bempty)"

lemma lane_simps [simp]:
  "in_flight_map l (set_in_flight_map l m a) = m"
  "active_models (set_in_flight_map l m a) = active_models a"
  "set_in_flight_map l m (set_in_flight_map l n a) = set_in_flight_map l m a"
  "set_in_flight_map l (in_flight_map l a) a = a"
  "set_in_flight_map l m (a\<lparr>active_models := x\<rparr>) = (set_in_flight_map l m a)\<lparr>active_models := x\<rparr>"
  "in_flight_map l (a\<lparr>active_models := x\<rparr>) = in_flight_map l a"
  by (cases l; simp add: in_flight_map_def set_in_flight_map_def)+

lemma other_lane [simp]:
  "l \<noteq> k \<Longrightarrow> in_flight_map k (set_in_flight_map l m a) = in_flight_map k a"
  by (cases l; cases k) (simp_all add: in_flight_map_def set_in_flight_map_def)

lemma activity_ok_lanes:
  "activity_ok a \<longleftrightarrow> (\<forall>l. counts_ok (in_flight_map l a)) \<and>
     (\<forall>k m. bget (active_models a) k = Some m \<longrightarrow> counts_ok m \<and> m \<noteq> bempty)"
proof -
  have "(\<forall>l. counts_ok (in_flight_map l a)) \<longleftrightarrow>
      counts_ok (text_in_flight a) \<and> counts_ok (image_in_flight a)"
    by (metis (full_types) in_flight_lane.exhaust in_flight_lane.simps(3,4) in_flight_map_def)
  then show ?thesis by (simp add: activity_ok_def)
qed

lemma counts_ok_up: "counts_ok m \<Longrightarrow> counts_ok (count_up k m)"
  by (auto simp: counts_ok_def count_up_def word_less_nat_alt unat_sat_add)

lemma counts_ok_down: "counts_ok m \<Longrightarrow> counts_ok (count_down k n m)"
  by (auto simp: counts_ok_def count_down_def word_less_nat_alt word_le_nat_alt unat_sub_if'
      split: if_splits)

lemma counts_ok_empty [simp]: "counts_ok bempty"
  by (simp add: counts_ok_def)

text \<open>Counting down undoes counting up, entry by entry.\<close>

lemma count_down_up:
  assumes "counts_ok m" and "unwrap_or (bget m k) 0 < - 1"
  obtains n where "bget (count_up k m) k = Some n" "count_down k n (count_up k m) = m"
proof (cases "bget m k")
  case None
  then have "count_down k 1 (count_up k m) = m"
    by (simp add: count_down_def count_up_def sat_add_def btree.remove_insert)
  with None show ?thesis by (intro that [of 1]) (simp_all add: count_up_def sat_add_def)
next
  case (Some v)
  have v: "0 < unat v" "unat v + 1 < 2 ^ 32"
    using assms Some by (auto simp: counts_ok_def word_less_nat_alt)
  then have n: "sat_add v 1 = v + 1" "\<not> v + 1 \<le> 1"
    by (simp_all add: sat_add_def word_le_nat_alt unat_word_ariths)
  then have "count_down k (v + 1) (count_up k m) = m"
    using Some by (simp add: count_down_def count_up_def btree.insert_overwrites btree.insert_lookup)
  with Some n show ?thesis by (intro that [of "v + 1"]) (simp_all add: count_up_def)
qed

lemma bsize_zero: "bsize m = 0 \<longleftrightarrow> m = bempty"
  by (auto simp: bsize_def) (metis bentries_empty bentries_inject)

lemma reserve_ok: "activity_ok a \<Longrightarrow> activity_ok (activity_reserve cid model lane a)"
proof -
  assume ok: "activity_ok a"
  have lanes: "counts_ok (in_flight_map l (activity_reserve cid model lane a))" for l
    using ok by (cases "l = lane")
      (auto simp: activity_reserve_def Let_def activity_ok_lanes intro: counts_ok_up)
  have group: "counts_ok (unwrap_or (bget (active_models a) (cid, lane)) bempty)"
    using ok by (cases "bget (active_models a) (cid, lane)") (auto simp: activity_ok_lanes)
  have "bget (count_up (model_id_key model) m) (model_id_key model) \<noteq> None" for m :: counts
    by (simp add: count_up_def)
  then have "count_up (model_id_key model) m \<noteq> bempty" for m :: counts by (metis bget_empty)
  then show ?thesis
    using ok lanes counts_ok_up [OF group]
    by (auto simp: activity_ok_lanes activity_reserve_def Let_def split: if_splits)
qed

lemma release_model_ok:
  assumes "activity_ok a"
  shows "activity_ok (release_active_model cid model lane a)"
  using assms counts_ok_down
  by (auto simp: release_active_model_def activity_ok_def Let_def bsize_zero split: option.splits if_splits)

lemma release_ok: "activity_ok a \<Longrightarrow> activity_ok (snd (activity_release cid model lane a))"
proof -
  assume ok: "activity_ok a"
  have "counts_ok (in_flight_map l (set_in_flight_map lane (count_down cid n (in_flight_map lane a)) a))"
    for l n
    using ok by (cases "l = lane") (auto simp: activity_ok_lanes intro: counts_ok_down)
  then have "activity_ok (set_in_flight_map lane (count_down cid n (in_flight_map lane a)) a)" for n
    using ok by (simp add: activity_ok_lanes)
  then show ?thesis
    using ok by (auto simp: activity_release_def intro: release_model_ok split: option.split)
qed

lemma remove_ok: "activity_ok a \<Longrightarrow> activity_ok (activity_remove cid a)"
  by (auto simp: activity_ok_def activity_remove_def counts_ok_def split: if_splits option.splits)

lemma dispatch_ok: "activity_ok a \<Longrightarrow> activity_ok (record_dispatch cid lane a)"
  by (cases lane) (simp_all add: activity_ok_def record_dispatch_def set_dispatch_map_def)

section \<open>Runs\<close>

datatype activity_event =
    EvActivityReserve string string in_flight_lane
  | EvActivityRelease string "string option" in_flight_lane
  | EvActivityDispatch string in_flight_lane
  | EvActivityRemove string

fun activity_step :: "activity_event \<Rightarrow> scheduler_activity \<Rightarrow> scheduler_activity" where
  "activity_step (EvActivityReserve cid model lane) a = activity_reserve cid model lane a"
| "activity_step (EvActivityRelease cid model lane) a = snd (activity_release cid model lane a)"
| "activity_step (EvActivityDispatch cid lane) a = record_dispatch cid lane a"
| "activity_step (EvActivityRemove cid) a = activity_remove cid a"

interpretation activity_runs: event_invariant activity_step activity_ok
proof
  show "activity_ok (activity_step e a)" if "activity_ok a" for e a
    using that reserve_ok release_ok dispatch_ok remove_ok by (cases e) simp_all
qed

lemma default_activity_ok: "activity_ok default_activity"
  by (simp add: activity_ok_def default_activity_def)

section \<open>Properties\<close>

text \<open>a release undoes its reservation: after any sequence of scheduler events, reserving a request
  and releasing it with the same candidate, model and lane is accepted and gives back the same
  counters, as long as no counter is at its maximum.  No zero counter or empty group stays
  behind.\<close>

theorem reserve_release_roundtrip:
  assumes "a = fold activity_step es default_activity"
    and "in_flight_count cid lane a < - 1"
    and "unwrap_or (Option.bind (bget (active_models a) (cid, lane))
      (\<lambda>models. bget models (model_id_key model))) 0 < - 1"
  shows "activity_release cid (Some model) lane (activity_reserve cid model lane a) = (True, a)"
proof -
  have ok: "activity_ok a"
    unfolding assms(1) by (rule activity_runs.run_inv [OF default_activity_ok])
  let ?m = "unwrap_or (bget (active_models a) (cid, lane)) bempty"
  have group: "counts_ok ?m"
    using ok by (cases "bget (active_models a) (cid, lane)") (auto simp: activity_ok_lanes)
  have small: "unwrap_or (bget ?m (model_id_key model)) 0 < - 1"
    using assms(3) by (cases "bget (active_models a) (cid, lane)") auto
  obtain n where n: "bget (count_up cid (in_flight_map lane a)) cid = Some n"
    "count_down cid n (count_up cid (in_flight_map lane a)) = in_flight_map lane a"
    using count_down_up [of "in_flight_map lane a" cid] ok assms(2)
    by (auto simp: activity_ok_lanes in_flight_count_def)
  obtain k where k: "bget (count_up (model_id_key model) ?m) (model_id_key model) = Some k"
    "count_down (model_id_key model) k (count_up (model_id_key model) ?m) = ?m"
    by (rule count_down_up [OF group small])
  let ?a1 = "a\<lparr>active_models := binsert (cid, lane) (count_up (model_id_key model) ?m) (active_models a)\<rparr>"
  have reserved: "activity_reserve cid model lane a =
      set_in_flight_map lane (count_up cid (in_flight_map lane a)) ?a1"
    by (simp add: activity_reserve_def Let_def)
  have released: "set_in_flight_map lane (in_flight_map lane a) ?a1 = ?a1"
    by (cases lane) (simp_all add: set_in_flight_map_def in_flight_map_def)
  have "release_active_model cid (Some model) lane ?a1 = a"
  proof (cases "bget (active_models a) (cid, lane)")
    case None
    then show ?thesis using k
      by (simp add: release_active_model_def Let_def btree.remove_insert bsize_zero)
  next
    case (Some m)
    then have "m \<noteq> bempty" using ok by (auto simp: activity_ok_def)
    with Some k show ?thesis
      by (simp add: release_active_model_def Let_def bsize_zero btree.insert_overwrites
          btree.insert_lookup)
  qed
  then show ?thesis
    using n released by (simp add: activity_release_def reserved)
qed

theorem reserve_release_roundtrip_witness:
  "activity_release ''c'' (Some ''gpt-5'') TextLane
     (activity_reserve ''c'' ''gpt-5'' TextLane
       (fold activity_step [EvActivityReserve ''c'' ''gpt-5'' ImageLane] default_activity)) =
   (True, fold activity_step [EvActivityReserve ''c'' ''gpt-5'' ImageLane] default_activity)"
  by (rule reserve_release_roundtrip [OF refl])
    (simp_all add: default_activity_def activity_reserve_def set_in_flight_map_def
      in_flight_map_def in_flight_count_def Let_def less_in_flight_lane_def word_less_nat_alt)

end
