(* ===== verification/ModelRules.thy ===== *)
theory ModelRules
  imports Activity
begin

text \<open>
  Which models a rule set admits (\<open>catalog/rules.rs\<close>), which model identifiers are image models
  (\<open>is_image_model_id\<close> of \<open>runtime/images.rs\<close>), and the wire protocols (\<open>sources/wire.rs\<close>).  The sets
  of rules are only searched, so they are sets.  Routing treats model identifiers without regard to
  ASCII case; the lemmas say so for each function.
\<close>

section \<open>Rules\<close>

record model_rules =
  allowed :: "string set"
  excluded :: "string set"

definition default_rules :: model_rules where
  "default_rules = \<lparr>allowed = {}, excluded = {}\<rparr>"

definition from_allow_deny :: "string list \<Rightarrow> string list \<Rightarrow> model_rules" where
  "from_allow_deny allow deny = \<lparr>allowed = set allow, excluded = set deny\<rparr>"

text \<open>\<open>model.get(..n)\<close>: nothing beyond the end or inside a UTF-8 encoded character.\<close>

definition is_char_boundary :: "string \<Rightarrow> nat \<Rightarrow> bool" where
  "is_char_boundary s n =
     (n = 0 \<or> n = length s \<or> (n < length s \<and> \<not> (0x80 \<le> byte (s ! n) \<and> byte (s ! n) \<le> 0xBF)))"

definition get_prefix :: "string \<Rightarrow> nat \<Rightarrow> string option" where
  "get_prefix s n = (if is_char_boundary s n then Some (take n s) else None)"

definition strip_star :: "string \<Rightarrow> string option" where
  "strip_star rule = (if rule \<noteq> [] \<and> last rule = CHR ''*'' then Some (butlast rule) else None)"

definition rule_matches :: "string \<Rightarrow> string \<Rightarrow> bool" where
  "rule_matches rule0 model =
     (let rule = trim rule0 in
      if rule = ''*'' then True
      else (case strip_star rule of
          None \<Rightarrow> eq_ignore_ascii_case rule model
        | Some pre \<Rightarrow> is_some_and (get_prefix model (length pre))
            (\<lambda>model_prefix. eq_ignore_ascii_case model_prefix pre)))"

text \<open>A partial exact snapshot: exclusions, and no rule with a star.\<close>

definition exact_snapshot_includes_later_models :: "model_rules \<Rightarrow> bool" where
  "exact_snapshot_includes_later_models r =
     (excluded r \<noteq> {} \<and> (\<forall>rule \<in> allowed r \<union> excluded r. CHR ''*'' \<notin> set rule))"

definition allows :: "model_rules \<Rightarrow> string \<Rightarrow> bool" where
  "allows r model =
     (if (\<exists>rule \<in> excluded r. rule_matches rule model) then False
      else allowed r = {} \<or> (\<exists>rule \<in> allowed r. rule_matches rule model)
        \<or> exact_snapshot_includes_later_models r)"

section \<open>Image models and protocols\<close>

definition starts_with :: "string \<Rightarrow> string \<Rightarrow> bool" where
  "starts_with s pre = (take (length pre) s = pre)"

definition is_image_model_id :: "string \<Rightarrow> bool" where
  "is_image_model_id model =
     (let model_id = model_id_key model
      in starts_with model_id ''gpt-image-'' \<or> starts_with model_id ''dall-e-'')"

datatype wire_api = Responses | ChatCompletions | Messages | Gemini | GeminiInteractions

definition all_apis :: "wire_api list" where
  "all_apis = [Responses, ChatCompletions, Messages, Gemini]"

definition all_native_apis :: "wire_api list" where
  "all_native_apis = [Responses, ChatCompletions, Messages, Gemini, GeminiInteractions]"

fun wire_api_name :: "wire_api \<Rightarrow> string" where
  "wire_api_name Responses = ''responses''"
| "wire_api_name ChatCompletions = ''chat_completions''"
| "wire_api_name Messages = ''messages''"
| "wire_api_name Gemini = ''gemini''"
| "wire_api_name GeminiInteractions = ''gemini_interactions''"

definition wire_api_from_storage :: "string \<Rightarrow> wire_api option" where
  "wire_api_from_storage s =
     (if s = ''responses'' then Some Responses
      else if s = ''chat_completions'' \<or> s = ''chatcompletions'' then Some ChatCompletions
      else if s = ''messages'' then Some Messages
      else if s = ''gemini'' then Some Gemini
      else if s = ''gemini_interactions'' then Some GeminiInteractions
      else None)"

text \<open>The derived order is that of the declaration.\<close>

fun wire_rank :: "wire_api \<Rightarrow> nat" where
  "wire_rank Responses = 0"
| "wire_rank ChatCompletions = 1"
| "wire_rank Messages = 2"
| "wire_rank Gemini = 3"
| "wire_rank GeminiInteractions = 4"

lemma wire_rank_inj [simp]: "wire_rank a = wire_rank b \<longleftrightarrow> a = b"
  by (cases a; cases b) simp_all

instantiation wire_api :: linorder
begin

definition less_eq_wire_api :: "wire_api \<Rightarrow> wire_api \<Rightarrow> bool" where
  "less_eq_wire_api a b = (wire_rank a \<le> wire_rank b)"

definition less_wire_api :: "wire_api \<Rightarrow> wire_api \<Rightarrow> bool" where
  "less_wire_api a b = (wire_rank a < wire_rank b)"

instance
  by standard (auto simp: less_eq_wire_api_def less_wire_api_def)

end

section \<open>ASCII case\<close>

lemma ascii_lower_byte:
  "byte (ascii_lower c) = (if 65 \<le> byte c \<and> byte c \<le> 90 then byte c + 32 else byte c)"
  by (auto simp: ascii_lower_def)

lemma ascii_lower_high [simp]: "128 \<le> byte (ascii_lower c) \<longleftrightarrow> 128 \<le> byte c"
  by (auto simp: ascii_lower_byte)

lemma ascii_lower_idem [simp]: "ascii_lower (ascii_lower c) = ascii_lower c"
  unfolding ascii_lower_def [of "ascii_lower c"] by (auto simp: ascii_lower_byte)

lemma ws_lower [simp]:
  "ws1 (ascii_lower a) = ws1 a"
  "ws2 (ascii_lower a) (ascii_lower b) = ws2 a b"
  "ws3 (ascii_lower a) (ascii_lower b) (ascii_lower c) = ws3 a b c"
  by (auto simp: ws1_def ws2_def ws3_def ascii_lower_byte)

lemma trim_start_lower: "trim_start (map ascii_lower s) = map ascii_lower (trim_start s)"
  by (induction s rule: trim_start.induct) simp_all

lemma trim_back_lower: "trim_back (map ascii_lower s) = map ascii_lower (trim_back s)"
  by (induction s rule: trim_back.induct) simp_all

lemma trim_lower: "trim (map ascii_lower s) = map ascii_lower (trim s)"
  by (simp add: trim_def trim_start_lower trim_back_lower rev_map)

lemma boundary_lower: "is_char_boundary (map ascii_lower s) n = is_char_boundary s n"
proof -
  have "(0x80 \<le> byte (ascii_lower c) \<and> byte (ascii_lower c) \<le> 0xBF) = (0x80 \<le> byte c \<and> byte c \<le> 0xBF)"
    for c by (simp add: ascii_lower_byte)
  then show ?thesis unfolding is_char_boundary_def length_map by (metis nth_map)
qed

text \<open>A function of the model that only sees its lower case does not see the case.\<close>

lemma ignores_case:
  assumes "\<And>s. f (map ascii_lower s) = f s" and "eq_ignore_ascii_case m m'"
  shows "f m = f m'"
  using assms unfolding eq_ignore_ascii_case_def by metis

lemma eq_ignore_lower [simp]:
  "eq_ignore_ascii_case a (map ascii_lower b) = eq_ignore_ascii_case a b"
  "eq_ignore_ascii_case (map ascii_lower a) b = eq_ignore_ascii_case a b"
  by (simp_all add: eq_ignore_ascii_case_def comp_def)

lemma model_id_key_ignores_case: "eq_ignore_ascii_case m m' \<Longrightarrow> model_id_key m = model_id_key m'"
  by (rule ignores_case) (simp_all add: model_id_key_def to_ascii_lowercase_def trim_lower comp_def)

lemma rule_matches_ignores_case:
  assumes "eq_ignore_ascii_case m m'"
  shows "rule_matches rule m = rule_matches rule m'"
proof (rule ignores_case [OF _ assms])
  fix s
  show "rule_matches rule (map ascii_lower s) = rule_matches rule s"
    by (auto simp: rule_matches_def get_prefix_def boundary_lower Let_def take_map split: option.split)
qed

lemma allows_ignores_case: "eq_ignore_ascii_case m m' \<Longrightarrow> allows r m = allows r m'"
  by (simp add: allows_def rule_matches_ignores_case)

lemma is_image_ignores_case:
  "eq_ignore_ascii_case m m' \<Longrightarrow> is_image_model_id m = is_image_model_id m'"
  unfolding is_image_model_id_def by (simp add: model_id_key_ignores_case)

lemma wire_api_roundtrip: "wire_api_from_storage (wire_api_name a) = Some a"
  by (cases a) (simp_all add: wire_api_from_storage_def)

end
