(* ===== verification/Candidates.thy ===== *)
theory Candidates
  imports Quota ModelRules
begin

text \<open>
  The candidates of the pool scheduler (\<open>scheduler/candidate.rs\<close>): what a candidate is, its health
  from the account state (\<open>accounts/record/auth.rs\<close>), its active cooldowns
  (\<open>scheduler/cooldown.rs\<close>), and the structural tests that decide whether it may serve a model at
  all.  A \<open>BTreeSet\<close> that is iterated is an ordered map to \<open>unit\<close>; one that is only searched is a
  set.
\<close>

section \<open>Accounts\<close>

datatype reauth_reason =
    InvalidGrant | ReusedRefreshToken | ExpiredRefreshToken | InvalidatedRefreshToken
  | AccessTokenExpired | TokenRotationRecoveryRequired

datatype account_auth_state =
    AuthUnknown | AuthActive | DegradedAccessOnly | Refreshing | AuthError
  | RequiresReauth reauth_reason

definition requires_fresh_login :: "account_auth_state \<Rightarrow> bool" where
  "requires_fresh_login a =
     (case a of RequiresReauth reason \<Rightarrow> reason \<noteq> ReusedRefreshToken | _ \<Rightarrow> False)"

datatype account_health_state =
  AccountUnknown | AccountHealthy | AccountDegraded | AccountUnhealthy | AccountBlocked

datatype subscription_status =
  SubscriptionUnknown | SubscriptionActive | SubscriptionExpired | SubscriptionForbidden

section \<open>Candidates\<close>

datatype candidate_kind = ApiSource | OAuthAccount

datatype candidate_health =
    HUnknown | HHealthy | HDegraded | HUnhealthy | HReauthRequired | HCheckpoint | HCaptcha
  | HBlocked | HExpired

definition health_is_eligible :: "candidate_health \<Rightarrow> bool" where
  "health_is_eligible h = (h \<in> {HUnknown, HHealthy, HDegraded})"

definition account_candidate_health ::
  "account_auth_state \<Rightarrow> account_health_state \<Rightarrow> subscription_status \<Rightarrow> string option \<Rightarrow>
   candidate_health" where
  "account_candidate_health auth_state account_health subscription last_error =
     (if requires_fresh_login auth_state then HReauthRequired
      else if auth_state = AuthError then HUnhealthy
      else if last_error \<in> {Some ''checkpoint'', Some ''upstream_account_verification_required''}
      then HCheckpoint
      else if last_error = Some ''captcha'' then HCaptcha
      else if subscription = SubscriptionForbidden then HBlocked
      else (case account_health of
          AccountUnknown \<Rightarrow> HUnknown | AccountHealthy \<Rightarrow> HHealthy | AccountDegraded \<Rightarrow> HDegraded
        | AccountUnhealthy \<Rightarrow> HUnhealthy | AccountBlocked \<Rightarrow> HBlocked))"

type_synonym 'a bset = "('a, unit) bmap"

definition bset_of :: "'a::linorder list \<Rightarrow> 'a bset" where
  "bset_of xs = bmap_of (map (\<lambda>x. (x, ())) xs)"

record runtime_candidate =
  cn_id :: string
  cn_kind :: candidate_kind
  cn_source_id :: string
  cn_account_id :: "string option"
  cn_protocol :: wire_api
  cn_model_protocols :: "(string, wire_api set) bmap"
  cn_enabled :: bool
  cn_draining :: bool
  cn_priority :: int
  cn_weight :: u32
  cn_models :: "string bset"
  cn_model_rules :: model_rules
  cn_health :: candidate_health
  cn_quota :: candidate_quota
  cn_credits :: "u64 option"
  cn_credits_unlimited :: bool
  cn_credits_observed_at_ms :: "u64 option"
  cn_quota_updated_at_ms :: "u64 option"
  cn_quota_reset_at_ms :: "u64 option"
  cn_cooldowns :: "(string, u64) bmap"
  cn_last_used_at :: "u64 option"
  cn_secret_available :: bool

record candidate_scope =
  source_ids :: "string set option"
  account_ids :: "string set option"
  scope_rules :: model_rules

definition default_scope :: candidate_scope where
  "default_scope = \<lparr>source_ids = None, account_ids = None, scope_rules = default_rules\<rparr>"

definition scope_includes :: "candidate_scope \<Rightarrow> runtime_candidate \<Rightarrow> bool" where
  "scope_includes scope c =
     (if source_ids scope = None \<and> account_ids scope = None then True
      else is_some_and (source_ids scope) (\<lambda>ids. cn_source_id c \<in> ids)
        \<or> is_some_and (cn_account_id c) (\<lambda>account_id.
            is_some_and (account_ids scope) (\<lambda>ids. account_id \<in> ids)))"

definition set_quota_state :: "runtime_candidate \<Rightarrow> candidate_quota_state \<Rightarrow> runtime_candidate" where
  "set_quota_state c q =
     c\<lparr>cn_quota := cqs_quota q, cn_quota_updated_at_ms := cqs_updated_at_ms q,
       cn_quota_reset_at_ms := cqs_reset_at_ms q, cn_credits := cqs_credits q,
       cn_credits_unlimited := cqs_credits_unlimited q,
       cn_credits_observed_at_ms := cqs_credits_observed_at_ms q\<rparr>"

section \<open>Cooldowns\<close>

datatype cooldown_reason = CoolTransient | CoolRateLimit | CoolMandatory

text \<open>A cooldown applies to one model, or to all of them under the scope of a star.\<close>

definition cooldown_applies :: "string \<Rightarrow> string \<Rightarrow> bool" where
  "cooldown_applies scope model = (scope = ''*'' \<or> eq_ignore_ascii_case scope model)"

definition active_retry_at :: "(string, u64) bmap \<Rightarrow> string \<Rightarrow> u64 \<Rightarrow> u64 option" where
  "active_retry_at cooldowns model now_ms =
     list_max (map snd (filter (\<lambda>(scope, retry_at).
       now_ms < retry_at \<and> cooldown_applies scope model) (bentries cooldowns)))"

section \<open>Structural eligibility\<close>

definition supports_model :: "runtime_candidate \<Rightarrow> string \<Rightarrow> bool" where
  "supports_model c model =
     (bcontains (cn_models c) model
      \<or> list_ex (\<lambda>m. eq_ignore_ascii_case m model) (bkeys (cn_models c)))"

definition supports_protocol :: "runtime_candidate \<Rightarrow> string \<Rightarrow> wire_api list \<Rightarrow> bool" where
  "supports_protocol c model allow =
     (if bsize (cn_model_protocols c) \<noteq> 0
      then is_some_and (bget (cn_model_protocols c) (model_id_key model))
        (\<lambda>protocols. list_ex (\<lambda>protocol. protocol \<in> protocols) allow)
      else cn_protocol c \<in> set allow
        \<or> (cn_kind c = OAuthAccount \<and> cn_protocol c = Responses \<and> allow \<noteq> []))"

definition is_configured ::
  "runtime_candidate \<Rightarrow> string \<Rightarrow> wire_api list \<Rightarrow> candidate_scope \<Rightarrow> bool" where
  "is_configured c model allow scope =
     (cn_enabled c \<and> \<not> cn_draining c \<and> cn_secret_available c
      \<and> supports_protocol c model allow \<and> supports_model c model
      \<and> allows (cn_model_rules c) model \<and> scope_includes scope c
      \<and> allows (scope_rules scope) model)"

definition is_discovery_visible :: "runtime_candidate \<Rightarrow> candidate_scope \<Rightarrow> bool" where
  "is_discovery_visible c scope =
     (cn_enabled c \<and> \<not> cn_draining c \<and> cn_secret_available c \<and> health_is_eligible (cn_health c)
      \<and> scope_includes scope c)"

definition is_catalog_visible ::
  "runtime_candidate \<Rightarrow> string \<Rightarrow> wire_api list \<Rightarrow> candidate_scope \<Rightarrow> bool" where
  "is_catalog_visible c model allow scope =
     (is_configured c model allow scope \<and> health_is_eligible (cn_health c))"

definition is_visible ::
  "runtime_candidate \<Rightarrow> string \<Rightarrow> wire_api list \<Rightarrow> candidate_scope \<Rightarrow> bool" where
  "is_visible c model allow scope =
     (is_catalog_visible c model allow scope
      \<and> (quota_is_eligible (cn_quota c) \<or> (cn_kind c = OAuthAccount \<and> cn_quota c = CqStale)))"

definition candidate_is_eligible ::
  "runtime_candidate \<Rightarrow> string \<Rightarrow> wire_api list \<Rightarrow> candidate_scope \<Rightarrow> u64 \<Rightarrow> bool" where
  "candidate_is_eligible c model allow scope now_ms =
     (is_visible c model allow scope \<and> active_retry_at (cn_cooldowns c) model now_ms = None)"

section \<open>Lemmas\<close>

lemma health_eligible_iff:
  "health_is_eligible (account_candidate_health a h sub err) \<longleftrightarrow>
     \<not> requires_fresh_login a \<and> a \<noteq> AuthError \<and>
     err \<notin> {Some ''checkpoint'', Some ''upstream_account_verification_required'', Some ''captcha''} \<and>
     sub \<noteq> SubscriptionForbidden \<and> h \<in> {AccountUnknown, AccountHealthy, AccountDegraded}"
  by (cases h) (auto simp: health_is_eligible_def account_candidate_health_def)

lemma cooldown_ignores_case:
  "eq_ignore_ascii_case m m' \<Longrightarrow> cooldown_applies scope m = cooldown_applies scope m'"
  by (simp add: cooldown_applies_def eq_ignore_ascii_case_def)

lemma supports_model_iff:
  "supports_model c model \<longleftrightarrow> (\<exists>m. bcontains (cn_models c) m \<and> eq_ignore_ascii_case m model)"
  by (auto simp: supports_model_def list_ex_iff in_bkeys bcontains_iff)

lemma active_retry_none:
  "active_retry_at cooldowns model now_ms = None \<longleftrightarrow>
     (\<forall>scope t. bget cooldowns scope = Some t \<longrightarrow> cooldown_applies scope model \<longrightarrow> t \<le> now_ms)"
  by (force simp: active_retry_at_def filter_empty_conv bget_in_entries not_less [symmetric])

text \<open>which candidates may serve a model does not depend on the ASCII case of its identifier: the
  structural tests, the rules of candidate and scope, the protocols and the cooldowns agree on two
  spellings that differ in case only.\<close>

theorem eligibility_ignores_case:
  assumes "eq_ignore_ascii_case m m'"
  shows "candidate_is_eligible c m allow scope now_ms = candidate_is_eligible c m' allow scope now_ms \<and>
    is_configured c m allow scope = is_configured c m' allow scope"
proof -
  have "supports_model c m = supports_model c m'"
    using assms by (auto simp: supports_model_iff eq_ignore_ascii_case_def)
  moreover have "supports_protocol c m allow = supports_protocol c m' allow"
    using model_id_key_ignores_case [OF assms] by (simp add: supports_protocol_def)
  moreover have "active_retry_at (cn_cooldowns c) m now_ms = active_retry_at (cn_cooldowns c) m' now_ms"
    by (simp add: active_retry_at_def cooldown_ignores_case [OF assms])
  ultimately show ?thesis
    by (simp add: candidate_is_eligible_def is_visible_def is_catalog_visible_def is_configured_def
        allows_ignores_case [OF assms])
qed

end
