(* ===== verification/Policy.thy ===== *)
theory Policy
  imports RotationTypes "HOL-Library.Sublist"
begin

text \<open>
  The saved routing policy of a pool (\<open>scheduler/policy.rs\<close>): validation, migration of the
  legacy formats, and the reconciliation of the saved order with the inventory of members.  The
  sets of identities of the code are only tested for membership and equality, so they are sets;
  error messages are the strings of the code.
\<close>

section \<open>Data\<close>

datatype pool_routing_mode =
  PoolSmart | PoolAutomatic | PoolInOrder | PoolRoundRobin | PoolWeightedRoundRobin | PoolFailover

datatype pool_member_kind = AccountMember | SourceMember

instantiation pool_member_kind :: linorder
begin

definition less_eq_pool_member_kind :: "pool_member_kind \<Rightarrow> pool_member_kind \<Rightarrow> bool" where
  "less_eq_pool_member_kind a b = (a = AccountMember \<or> b = SourceMember)"

definition less_pool_member_kind :: "pool_member_kind \<Rightarrow> pool_member_kind \<Rightarrow> bool" where
  "less_pool_member_kind a b = (a = AccountMember \<and> b = SourceMember)"

instance
proof
  fix x y z :: pool_member_kind
  show "x < y \<longleftrightarrow> x \<le> y \<and> \<not> y \<le> x"
    by (cases x; cases y) (simp_all add: less_eq_pool_member_kind_def less_pool_member_kind_def)
  show "x \<le> x" by (cases x) (simp_all add: less_eq_pool_member_kind_def)
  show "x \<le> y \<Longrightarrow> y \<le> z \<Longrightarrow> x \<le> z" by (auto simp: less_eq_pool_member_kind_def)
  show "x \<le> y \<Longrightarrow> y \<le> x \<Longrightarrow> x = y" by (auto simp: less_eq_pool_member_kind_def)
  show "x \<le> y \<or> y \<le> x" by (cases x; cases y) (simp_all add: less_eq_pool_member_kind_def)
qed

end

record pool_member =
  pm_kind :: pool_member_kind
  pm_id :: string
  pm_weight :: u32
  pm_max_concurrency :: u32

record pool_policy =
  pp_version :: u8
  pp_mode :: pool_routing_mode
  pp_members :: "pool_member list"

type_synonym member_key = "pool_member_kind \<times> string"

definition default_policy :: pool_policy where
  "default_policy = \<lparr>pp_version = 3, pp_mode = PoolAutomatic, pp_members = []\<rparr>"

definition member_key_of :: "pool_member \<Rightarrow> member_key" where
  "member_key_of m = (pm_kind m, pm_id m)"

section \<open>Validation\<close>

definition version_supported :: "pool_policy \<Rightarrow> bool" where
  "version_supported p =
     (\<not> (\<not> (1 \<le> pp_version p \<and> pp_version p \<le> 3)
      \<or> (pp_version p = 1 \<and> pp_mode p = PoolAutomatic)
      \<or> (2 \<le> pp_version p \<and> pp_mode p = PoolSmart)
      \<or> (pp_version p < 3 \<and> (pp_mode p = PoolWeightedRoundRobin \<or> pp_mode p = PoolFailover))))"

fun validate_members :: "member_key set \<Rightarrow> pool_member list \<Rightarrow> string + unit" where
  "validate_members seen [] = Inr ()"
| "validate_members seen (m # ms) =
     (if invalid_identifier (pm_id m) then Inl ''pool routing member id is invalid''
      else if member_key_of m \<in> seen then Inl ''pool routing members must be unique''
      else if \<not> (1 \<le> pm_weight m \<and> pm_weight m \<le> 100) \<or> 1024 < pm_max_concurrency m
      then Inl ''pool member weight or concurrency limit is invalid''
      else validate_members (insert (member_key_of m) seen) ms)"

definition validate_policy :: "pool_policy \<Rightarrow> string + unit" where
  "validate_policy p =
     (if \<not> version_supported p then Inl ''unsupported pool routing policy version''
      else if 4096 < length (pp_members p) then Inl ''pool routing policy has too many members''
      else validate_members {} (pp_members p))"

definition is_current_rotation :: "pool_policy \<Rightarrow> bool" where
  "is_current_rotation p = (pp_version p = 3 \<and> pp_mode p \<noteq> PoolSmart)"

definition validate_activation :: "pool_policy \<Rightarrow> string + unit" where
  "validate_activation p =
     (case validate_policy p of Inl e \<Rightarrow> Inl e
      | Inr _ \<Rightarrow>
          if \<not> is_current_rotation p then Inl ''unsupported runtime rotation policy version''
          else Inr ())"

definition validate_update :: "pool_policy \<Rightarrow> pool_policy \<Rightarrow> pool_policy option \<Rightarrow> string + unit" where
  "validate_update p existing expected =
     (case validate_policy p of Inl e \<Rightarrow> Inl e
      | Inr _ \<Rightarrow>
          if pp_version p \<noteq> pp_version existing
          then Inl ''unsupported pool routing policy version for this runtime''
          else if expected \<noteq> Some existing
          then Inl ''pool routing changed; reload the current policy before saving''
          else if member_key_of ` set (pp_members p) \<noteq> member_key_of ` set (pp_members existing)
          then Inl ''pool membership changed; reload the current policy before saving''
          else Inr ())"

section \<open>Changing a policy\<close>

fun remap_members ::
  "(member_key, string) bmap \<Rightarrow> pool_member list \<Rightarrow> string + pool_member list" where
  "remap_members ids [] = Inr []"
| "remap_members ids (m # ms) =
     (case bget ids (member_key_of m) of
        None \<Rightarrow> Inl ''pool routing references a member missing from the preset''
      | Some new_id \<Rightarrow>
          (case remap_members ids ms of Inl e \<Rightarrow> Inl e
           | Inr ms' \<Rightarrow> Inr (m\<lparr>pm_id := new_id\<rparr> # ms')))"

text \<open>The receiver is replaced only after the remapped copy has been validated.\<close>

definition remap_member_ids ::
  "(member_key, string) bmap \<Rightarrow> pool_policy \<Rightarrow> (string + unit) \<times> pool_policy" where
  "remap_member_ids ids p =
     (case remap_members ids (pp_members p) of Inl e \<Rightarrow> (Inl e, p)
      | Inr ms \<Rightarrow>
          (let remapped = p\<lparr>pp_members := ms\<rparr> in
           case validate_policy remapped of Inl e \<Rightarrow> (Inl e, p) | Inr _ \<Rightarrow> (Inr (), remapped)))"

definition reconcile :: "pool_policy \<Rightarrow> pool_member list \<Rightarrow> pool_policy" where
  "reconcile p members =
     (let known = member_key_of ` set members;
          kept = filter (\<lambda>m. member_key_of m \<in> known) (pp_members p);
          existing = member_key_of ` set kept
      in p\<lparr>pp_members := kept @ filter (\<lambda>m. member_key_of m \<notin> existing) members\<rparr>)"

definition upgrade_legacy_format :: "pool_policy \<Rightarrow> pool_policy" where
  "upgrade_legacy_format p =
     (if (pp_version p = 1 \<and> pp_mode p \<in> {PoolSmart, PoolInOrder, PoolRoundRobin})
         \<or> (pp_version p = 2 \<and> pp_mode p \<in> {PoolAutomatic, PoolInOrder, PoolRoundRobin})
      then p\<lparr>pp_version := 3,
              pp_mode := (if pp_mode p = PoolSmart then PoolAutomatic else pp_mode p)\<rparr>
      else p)"

type_synonym inventory_entry = "pool_member_kind \<times> string \<times> int \<times> u32"

definition tier :: "pool_member_kind \<Rightarrow> int \<Rightarrow> int" where
  "tier kind prio =
     (case kind of AccountMember \<Rightarrow> 1
      | SourceMember \<Rightarrow> if 1000000 \<le> prio then 2 else if prio \<le> - 1000000 then - 1 else 0)"

definition inventory_order :: "inventory_entry \<Rightarrow> inventory_entry \<Rightarrow> cmp_result" where
  "inventory_order a b =
     (case (a, b) of ((ka, ia, pa, _), (kb, ib, pb, _)) \<Rightarrow>
        then_with (then_with (cmp (tier kb pb) (tier ka pa)) (cmp pb pa)) (cmp ia ib))"

definition inventory_member :: "inventory_entry \<Rightarrow> pool_member" where
  "inventory_member x =
     (case x of (kind, member_id, _, w) \<Rightarrow>
        \<lparr>pm_kind = kind, pm_id = member_id, pm_weight = w, pm_max_concurrency = 0\<rparr>)"

definition resolve_pool_routing ::
  "pool_policy option \<Rightarrow> inventory_entry list \<Rightarrow> pool_policy" where
  "resolve_pool_routing saved inventory =
     reconcile (upgrade_legacy_format (unwrap_or saved default_policy))
       (map inventory_member (sort_by inventory_order inventory))"

section \<open>Lemmas\<close>

definition valid_member :: "pool_member \<Rightarrow> bool" where
  "valid_member m \<longleftrightarrow> \<not> invalid_identifier (pm_id m) \<and>
     1 \<le> pm_weight m \<and> pm_weight m \<le> 100 \<and> pm_max_concurrency m \<le> 1024"

lemma validate_members_Inr:
  "validate_members seen ms = Inr u \<longleftrightarrow>
     (\<forall>m \<in> set ms. valid_member m) \<and> distinct (map member_key_of ms) \<and>
     member_key_of ` set ms \<inter> seen = {}"
  by (induction seen ms rule: validate_members.induct) (auto simp: valid_member_def not_less)

lemma validate_policy_Inr:
  "validate_policy p = Inr u \<longleftrightarrow>
     version_supported p \<and> length (pp_members p) \<le> 4096 \<and>
     (\<forall>m \<in> set (pp_members p). valid_member m) \<and> distinct (map member_key_of (pp_members p))"
  by (auto simp: validate_policy_def validate_members_Inr not_less)

lemma version_cases:
  assumes "version_supported p"
  obtains "pp_version p = 1" | "pp_version p = 2" | "pp_version p = 3"
proof -
  have "pp_version p = of_nat (unat (pp_version p))" by simp
  moreover have "unat (pp_version p) = 1 \<or> unat (pp_version p) = 2 \<or> unat (pp_version p) = 3"
    using assms by (auto simp: version_supported_def word_le_nat_alt)
  ultimately show ?thesis using that by (elim disjE) (metis of_nat_1 of_nat_numeral)+
qed

lemma version_supported_iff:
  "version_supported p \<longleftrightarrow>
     (pp_version p = 1 \<and> pp_mode p \<in> {PoolSmart, PoolInOrder, PoolRoundRobin}) \<or>
     (pp_version p = 2 \<and> pp_mode p \<in> {PoolAutomatic, PoolInOrder, PoolRoundRobin}) \<or>
     (pp_version p = 3 \<and> pp_mode p \<noteq> PoolSmart)" (is "_ \<longleftrightarrow> ?cases")
proof
  assume v: "version_supported p"
  from version_cases [OF v] show ?cases
    by cases (use v in \<open>cases "pp_mode p"; simp add: version_supported_def word_le_nat_alt word_less_nat_alt\<close>)+
next
  assume ?cases
  then show "version_supported p"
    by (auto simp: version_supported_def word_le_nat_alt word_less_nat_alt)
qed

text \<open>Every supported format becomes the current one; members stay.\<close>

lemma upgrade_current:
  assumes "version_supported p"
  shows "is_current_rotation (upgrade_legacy_format p)"
    and "version_supported (upgrade_legacy_format p)"
  using assms
  by (auto simp: version_supported_iff upgrade_legacy_format_def is_current_rotation_def)

lemma upgrade_members [simp]: "pp_members (upgrade_legacy_format p) = pp_members p"
  by (simp add: upgrade_legacy_format_def)

lemma reconcile_fields [simp]:
  "pp_version (reconcile p ms) = pp_version p" "pp_mode (reconcile p ms) = pp_mode p"
  by (simp_all add: reconcile_def Let_def)

lemma reconcile_members:
  "pp_members (reconcile p ms) =
     filter (\<lambda>m. member_key_of m \<in> member_key_of ` set ms) (pp_members p) @
     filter (\<lambda>m. member_key_of m \<notin> member_key_of ` set (pp_members p)) ms"
proof -
  let ?known = "member_key_of ` set ms"
  have "(member_key_of m \<in> member_key_of ` set (filter (\<lambda>m. member_key_of m \<in> ?known) (pp_members p)))
      = (member_key_of m \<in> member_key_of ` set (pp_members p))" if "m \<in> set ms" for m
  proof -
    have "member_key_of m \<in> ?known" using that by (rule imageI)
    then have "x \<in> set (filter (\<lambda>m. member_key_of m \<in> ?known) (pp_members p))"
      if "x \<in> set (pp_members p)" "member_key_of x = member_key_of m" for x
      using that by simp
    then show ?thesis by (fastforce intro: rev_image_eqI)
  qed
  then show ?thesis by (simp add: reconcile_def Let_def cong: filter_cong)
qed

lemma reconcile_keys:
  "member_key_of ` set (pp_members (reconcile p ms)) = member_key_of ` set ms"
proof
  show "member_key_of ` set (pp_members (reconcile p ms)) \<subseteq> member_key_of ` set ms"
    by (auto simp: reconcile_members)
  show "member_key_of ` set ms \<subseteq> member_key_of ` set (pp_members (reconcile p ms))"
  proof (rule image_subsetI)
    fix m assume m: "m \<in> set ms"
    show "member_key_of m \<in> member_key_of ` set (pp_members (reconcile p ms))"
    proof (cases "member_key_of m \<in> member_key_of ` set (pp_members p)")
      case True
      then obtain x where "x \<in> set (pp_members p)" "member_key_of x = member_key_of m" by auto
      then have "x \<in> set (pp_members (reconcile p ms))"
        using m by (simp add: reconcile_members)
      then show ?thesis using \<open>member_key_of x = member_key_of m\<close> by (metis imageI)
    next
      case False
      then show ?thesis using m by (simp add: reconcile_members)
    qed
  qed
qed

lemma distinct_keys_filter:
  "distinct (map member_key_of xs) \<Longrightarrow> distinct (map member_key_of (filter P xs))"
  by (simp add: distinct_map_filter)

lemma reconcile_distinct:
  "\<lbrakk>distinct (map member_key_of (pp_members p)); distinct (map member_key_of ms)\<rbrakk> \<Longrightarrow>
   distinct (map member_key_of (pp_members (reconcile p ms)))"
  by (auto simp: reconcile_members distinct_keys_filter) (metis imageI)

lemma reconcile_idem: "reconcile (reconcile p ms) ms = reconcile p ms"
proof -
  have "pp_members (reconcile (reconcile p ms) ms) = pp_members (reconcile p ms)"
    unfolding reconcile_members [of "reconcile p ms"] reconcile_keys
    using reconcile_keys [of p ms] by (simp add: filter_id_conv filter_empty_conv) blast
  then show ?thesis by (simp add: reconcile_def Let_def)
qed

lemma same_keys_length:
  assumes "distinct (map f xs)" and "distinct (map f ys)" and "f ` set xs = f ` set ys"
  shows "mset (map f xs) = mset (map f ys)"
  using assms by (metis set_eq_iff_mset_eq_distinct set_map)

lemma inventory_member_key [simp]:
  "member_key_of (inventory_member x) = (fst x, fst (snd x))"
  by (cases x) (simp add: inventory_member_def member_key_of_def)

section \<open>Properties\<close>

text \<open>a saved policy that is valid in any supported format, or none at all, always resolves to a
  policy the runtime can activate, for every inventory of at most 4096 distinct members with
  valid identifiers and weights.\<close>

theorem resolved_policy_activates:
  assumes "is_none_or saved (\<lambda>p. validate_policy p = Inr ())"
    and "distinct (map (\<lambda>x. (fst x, fst (snd x))) inventory)" and "length inventory \<le> 4096"
    and "\<forall>x \<in> set inventory. valid_member (inventory_member x)"
  shows "validate_activation (resolve_pool_routing saved inventory) = Inr ()"
proof -
  let ?p = "unwrap_or saved default_policy" and ?sorted = "sort_by inventory_order inventory"
  let ?ms = "map inventory_member ?sorted"
  let ?r = "reconcile (upgrade_legacy_format ?p) ?ms"
  have "validate_policy default_policy = Inr ()"
    by (simp add: validate_policy_Inr default_policy_def version_supported_def)
  then have p: "validate_policy ?p = Inr ()" using assms(1) by (cases saved) simp_all
  note valid = p [unfolded validate_policy_Inr]
  have "distinct (map (\<lambda>x. (fst x, fst (snd x))) ?sorted)"
    using assms(2) by (simp add: distinct_map)
  then have ms: "distinct (map member_key_of ?ms)" by (simp add: comp_def)
  have d: "distinct (map member_key_of (pp_members ?r))"
    using reconcile_distinct [of "upgrade_legacy_format ?p" ?ms] valid ms by simp
  have "mset (map member_key_of (pp_members ?r)) = mset (map member_key_of ?ms)"
    using d ms reconcile_keys by (rule same_keys_length)
  then have "length (pp_members ?r) = length ?ms" by (metis length_map size_mset)
  moreover have "\<forall>m \<in> set (pp_members ?r). valid_member m"
    using valid assms(4) by (auto simp: reconcile_members)
  moreover have "version_supported ?r" "is_current_rotation ?r"
    using upgrade_current [of ?p] valid
    by (simp_all add: version_supported_def is_current_rotation_def)
  ultimately have "validate_policy ?r = Inr ()" "is_current_rotation ?r"
    using d assms(3) by (simp_all add: validate_policy_Inr)
  then show ?thesis by (simp add: validate_activation_def resolve_pool_routing_def)
qed

text \<open>reconciliation follows the inventory and forgets no setting: the result has exactly the
  members of the inventory, saved members that are still there come first, in the saved order and
  with their saved weights and limits, new members follow in inventory order, each once; doing it
  again changes nothing.\<close>

theorem reconcile_follows_inventory:
  assumes "distinct (map member_key_of (pp_members p))" and "distinct (map member_key_of members)"
  shows "mset (map member_key_of (pp_members (reconcile p members))) =
      mset (map member_key_of members) \<and>
    (\<exists>added. pp_members (reconcile p members) =
       filter (\<lambda>m. member_key_of m \<in> member_key_of ` set members) (pp_members p) @ added \<and>
       subseq added members) \<and>
    reconcile (reconcile p members) members = reconcile p members"
proof -
  have "mset (map member_key_of (pp_members (reconcile p members))) =
      mset (map member_key_of members)"
    using reconcile_distinct [OF assms] assms(2) reconcile_keys by (rule same_keys_length)
  then show ?thesis
    using reconcile_members [of p members] subseq_filter_left reconcile_idem by blast
qed

text \<open>saving a routing policy is a compare-and-swap: an accepted update is valid, was made from the
  policy that is saved now, keeps its format version, and only reorders its members and changes
  their weights and limits.\<close>

theorem update_is_compare_and_swap:
  assumes "validate_update p existing expected = Inr ()" and "validate_policy existing = Inr ()"
  shows "validate_policy p = Inr () \<and> expected = Some existing \<and>
    pp_version p = pp_version existing \<and>
    mset (map member_key_of (pp_members p)) = mset (map member_key_of (pp_members existing))"
proof -
  have p: "validate_policy p = Inr ()" "expected = Some existing" "pp_version p = pp_version existing"
    "member_key_of ` set (pp_members p) = member_key_of ` set (pp_members existing)"
    using assms(1) by (auto simp: validate_update_def split: sum.splits if_splits)
  moreover have "mset (map member_key_of (pp_members p)) = mset (map member_key_of (pp_members existing))"
    using p(1,4) assms(2) by (intro same_keys_length) (simp_all add: validate_policy_Inr)
  ultimately show ?thesis by blast
qed

section \<open>Evaluated instances\<close>

definition sample_member :: "string \<Rightarrow> u32 \<Rightarrow> pool_member" where
  "sample_member mid w = \<lparr>pm_kind = AccountMember, pm_id = mid, pm_weight = w, pm_max_concurrency = 0\<rparr>"

definition legacy_policy :: pool_policy where
  "legacy_policy = \<lparr>pp_version = 1, pp_mode = PoolSmart,
     pp_members = [sample_member ''b'' 7, sample_member ''a'' 5]\<rparr>"

lemma legacy_valid: "validate_policy legacy_policy = Inr ()"
  by (simp add: legacy_policy_def validate_policy_def version_supported_def sample_member_def
      invalid_identifier_def trim_def ws1_def ws2_def ws3_def member_key_of_def word_le_nat_alt)

theorem resolved_policy_activates_witness:
  "validate_activation (resolve_pool_routing (Some legacy_policy)
     [(AccountMember, ''a'', 0, 1), (SourceMember, ''s'', 1000000, 2)]) = Inr ()"
  by (rule resolved_policy_activates)
    (simp_all add: legacy_valid valid_member_def inventory_member_def invalid_identifier_def trim_def
      ws1_def ws2_def ws3_def word_le_nat_alt)

theorem reconcile_follows_inventory_witness:
  "reconcile (reconcile legacy_policy [sample_member ''a'' 1, sample_member ''c'' 1])
     [sample_member ''a'' 1, sample_member ''c'' 1] =
   reconcile legacy_policy [sample_member ''a'' 1, sample_member ''c'' 1] \<and>
   map pm_weight (pp_members (reconcile legacy_policy [sample_member ''a'' 1, sample_member ''c'' 1])) = [5, 1]"
proof -
  have "distinct (map member_key_of (pp_members legacy_policy))"
    "distinct (map member_key_of [sample_member ''a'' 1, sample_member ''c'' 1])"
    by (simp_all add: legacy_policy_def sample_member_def member_key_of_def)
  note kept = reconcile_follows_inventory [OF this]
  have "map pm_weight (pp_members (reconcile legacy_policy [sample_member ''a'' 1, sample_member ''c'' 1])) = [5, 1]"
    by (simp add: reconcile_def legacy_policy_def sample_member_def member_key_of_def)
  with kept show ?thesis by blast
qed

theorem update_is_compare_and_swap_witness:
  "validate_update (legacy_policy\<lparr>pp_members := rev (pp_members legacy_policy)\<rparr>) legacy_policy
     (Some legacy_policy) = Inr () \<and>
   mset (map member_key_of (rev (pp_members legacy_policy))) =
   mset (map member_key_of (pp_members legacy_policy))"
proof -
  have turned: "validate_policy (legacy_policy\<lparr>pp_members := rev (pp_members legacy_policy)\<rparr>) = Inr ()"
    using legacy_valid
    by (simp add: validate_policy_Inr version_supported_def rev_map [symmetric])
  have "validate_update (legacy_policy\<lparr>pp_members := rev (pp_members legacy_policy)\<rparr>) legacy_policy
      (Some legacy_policy) = Inr ()"
    using turned by (simp add: validate_update_def)
  with update_is_compare_and_swap [OF this legacy_valid] show ?thesis by simp
qed

end
