(* ===== verification/Affinity.thy ===== *)
theory Affinity
  imports BMap
begin

text \<open>
  The cache of prompt and response owners (\<open>scheduler/affinity.rs\<close>): which candidate served a
  thread last, until when that is worth something, and a few warm alternatives.

  The \<open>HashMap\<close> of the code is a \<open>bmap\<close>: its iteration order is not observable, since the only
  iteration is \<open>evict_oldest\<close>, which orders by time and then by key.  Keys are unique, so the
  unstable sort of the alternatives by expiry and identifier is the stable \<open>sort_by\<close>.  The
  methods that return a value beside the mutated cache return a pair; those that insert return
  \<open>None\<close> where \<open>checked_add(1).expect\<close> panics.
\<close>

section \<open>Data\<close>

definition MAX_WARM_ALTERNATIVES :: nat where
  "MAX_WARM_ALTERNATIVES = 4"

type_synonym alternative = "string \<times> u64"

record binding =
  bound_candidate :: string
  bound_revision :: u64
  bound_ttl_ms :: u64
  bound_until :: u64
  last_touched_at :: u64
  alternatives :: "alternative list"

record affinity_cache =
  bindings :: "(string, binding) bmap"
  next_revision :: u64
  max_entries :: nat
  cache_ttl_ms :: u64

definition new_cache :: "nat \<Rightarrow> u64 \<Rightarrow> affinity_cache" where
  "new_cache entries ttl =
     \<lparr>bindings = bempty, next_revision = 0, max_entries = entries, cache_ttl_ms = ttl\<rparr>"

section \<open>Operations\<close>

definition prune :: "u64 \<Rightarrow> affinity_cache \<Rightarrow> affinity_cache" where
  "prune now_ms c = c\<lparr>bindings := bretain (\<lambda>_ b. now_ms < bound_until b) (bindings c)\<rparr>"

definition oldest_order :: "string \<times> binding \<Rightarrow> string \<times> binding \<Rightarrow> cmp_result" where
  "oldest_order l r =
     then_with (cmp (last_touched_at (snd l)) (last_touched_at (snd r))) (cmp (fst l) (fst r))"

definition evict_oldest :: "affinity_cache \<Rightarrow> affinity_cache" where
  "evict_oldest c =
     (case map_option fst (min_by oldest_order (bentries (bindings c))) of
        None \<Rightarrow> c
      | Some key \<Rightarrow> c\<lparr>bindings := bremove key (bindings c)\<rparr>)"

definition make_room :: "string \<Rightarrow> affinity_cache \<Rightarrow> affinity_cache" where
  "make_room key c =
     (if \<not> bcontains (bindings c) key \<and> max_entries c \<le> bsize (bindings c)
      then evict_oldest c else c)"

definition insert_binding ::
  "string \<Rightarrow> string \<Rightarrow> u64 \<Rightarrow> u64 \<Rightarrow> u64 \<Rightarrow> affinity_cache \<Rightarrow> affinity_cache option" where
  "insert_binding key candidate_id ttl expires_at now_ms c =
     (let room = make_room key (prune now_ms c)
      in map_option (\<lambda>rev. room\<lparr>next_revision := rev,
           bindings := binsert key
             \<lparr>bound_candidate = candidate_id, bound_revision = rev, bound_ttl_ms = ttl,
              bound_until = expires_at, last_touched_at = now_ms, alternatives = []\<rparr>
             (bindings room)\<rparr>)
         (checked_add (next_revision room) 1))"

definition get_with_revision ::
  "string \<Rightarrow> u64 \<Rightarrow> affinity_cache \<Rightarrow> (string \<times> u64) option \<times> affinity_cache" where
  "get_with_revision key now_ms c =
     (let pruned = prune now_ms c in
      (map_option (\<lambda>b. (bound_candidate b, bound_revision b)) (bget (bindings pruned) key), pruned))"

definition affinity_get :: "string \<Rightarrow> u64 \<Rightarrow> affinity_cache \<Rightarrow> string option \<times> affinity_cache" where
  "affinity_get key now_ms c =
     (let (found, c') = get_with_revision key now_ms c in (map_option fst found, c'))"

definition live_binding :: "string \<Rightarrow> u64 \<Rightarrow> affinity_cache \<Rightarrow> binding option" where
  "live_binding key now_ms c = opt_filter (\<lambda>b. now_ms < bound_until b) (bget (bindings c) key)"

definition get_with_expiry :: "string \<Rightarrow> u64 \<Rightarrow> affinity_cache \<Rightarrow> (string \<times> u64) option" where
  "get_with_expiry key now_ms c =
     map_option (\<lambda>b. (bound_candidate b, bound_until b)) (live_binding key now_ms c)"

definition affinity_refresh :: "string \<Rightarrow> u64 \<Rightarrow> affinity_cache \<Rightarrow> bool \<times> affinity_cache" where
  "affinity_refresh key now_ms c =
     (let pruned = prune now_ms c in
      (bcontains (bindings pruned) key,
       pruned\<lparr>bindings := bmodify key (\<lambda>b. b\<lparr>
         bound_until := max (bound_until b) (sat_add now_ms (bound_ttl_ms b)),
         last_touched_at := max (last_touched_at b) now_ms\<rparr>) (bindings pruned)\<rparr>))"

definition bind_for ::
  "string \<Rightarrow> string \<Rightarrow> u64 \<Rightarrow> u64 \<Rightarrow> affinity_cache \<Rightarrow> affinity_cache option" where
  "bind_for key candidate_id now_ms ttl c =
     (if max_entries c = 0 \<or> ttl = 0 then Some c
      else insert_binding key candidate_id ttl (sat_add now_ms ttl) now_ms c)"

definition bind_owner ::
  "string \<Rightarrow> string \<Rightarrow> u64 \<Rightarrow> affinity_cache \<Rightarrow> affinity_cache option" where
  "bind_owner key candidate_id now_ms c = bind_for key candidate_id now_ms (cache_ttl_ms c) c"

definition bind_if_unbound_or_same ::
  "string \<Rightarrow> string \<Rightarrow> u64 \<Rightarrow> affinity_cache \<Rightarrow> (bool \<times> affinity_cache) option" where
  "bind_if_unbound_or_same key candidate_id now_ms c =
     (case affinity_get key now_ms c of
        (Some bound, c') \<Rightarrow>
          if bound = candidate_id then Some (affinity_refresh key now_ms c') else Some (False, c')
      | (None, c') \<Rightarrow> map_option (\<lambda>c''. (True, c'')) (bind_owner key candidate_id now_ms c'))"

fun raise_expiry :: "string \<Rightarrow> u64 \<Rightarrow> alternative list \<Rightarrow> alternative list option" where
  "raise_expiry candidate_id expires_at [] = None"
| "raise_expiry candidate_id expires_at ((a, t) # rest) =
     (if a = candidate_id then Some ((a, max t expires_at) # rest)
      else map_option (\<lambda>rest'. (a, t) # rest') (raise_expiry candidate_id expires_at rest))"

definition alternative_order :: "alternative \<Rightarrow> alternative \<Rightarrow> cmp_result" where
  "alternative_order l r = then_with (cmp (snd r) (snd l)) (cmp (fst l) (fst r))"

definition add_alternative :: "string \<Rightarrow> u64 \<Rightarrow> binding \<Rightarrow> binding" where
  "add_alternative candidate_id now_ms b =
     (let current = filter (\<lambda>(_, t). now_ms < t) (alternatives b);
          expires_at = sat_add now_ms (bound_ttl_ms b);
          updated = (case raise_expiry candidate_id expires_at current of
              Some raised \<Rightarrow> raised | None \<Rightarrow> current @ [(candidate_id, expires_at)])
      in b\<lparr>alternatives := take MAX_WARM_ALTERNATIVES (sort_by alternative_order updated)\<rparr>)"

definition remember_alternative :: "string \<Rightarrow> string \<Rightarrow> u64 \<Rightarrow> affinity_cache \<Rightarrow> affinity_cache" where
  "remember_alternative key candidate_id now_ms c =
     (case live_binding key now_ms c of
        None \<Rightarrow> c
      | Some b \<Rightarrow>
          if bound_candidate b = candidate_id \<or> bound_ttl_ms b = 0 then c
          else c\<lparr>bindings := bmodify key (add_alternative candidate_id now_ms) (bindings c)\<rparr>)"

definition warm_alternatives :: "string \<Rightarrow> u64 \<Rightarrow> affinity_cache \<Rightarrow> string list" where
  "warm_alternatives key now_ms c =
     (case live_binding key now_ms c of
        None \<Rightarrow> []
      | Some b \<Rightarrow> map fst (filter (\<lambda>(_, t). now_ms < t) (alternatives b)))"

definition restore ::
  "string \<Rightarrow> string \<Rightarrow> u64 \<Rightarrow> u64 \<Rightarrow> affinity_cache \<Rightarrow> affinity_cache option" where
  "restore key candidate_id expires_at now_ms c =
     (if max_entries c = 0 \<or> expires_at \<le> now_ms then Some c
      else insert_binding key candidate_id (cache_ttl_ms c) expires_at now_ms c)"

definition affinity_contains :: "string \<Rightarrow> u64 \<Rightarrow> affinity_cache \<Rightarrow> bool \<times> affinity_cache" where
  "affinity_contains key now_ms c =
     (let pruned = prune now_ms c in (bcontains (bindings pruned) key, pruned))"

definition invalidate :: "string \<Rightarrow> affinity_cache \<Rightarrow> bool \<times> affinity_cache" where
  "invalidate key c =
     (bcontains (bindings c) key, c\<lparr>bindings := bremove key (bindings c)\<rparr>)"

definition drop_alternative :: "string \<Rightarrow> binding \<Rightarrow> binding" where
  "drop_alternative candidate_id b =
     b\<lparr>alternatives := filter (\<lambda>(a, _). a \<noteq> candidate_id) (alternatives b)\<rparr>"

definition invalidate_if_owner ::
  "string \<Rightarrow> string \<Rightarrow> affinity_cache \<Rightarrow> bool \<times> affinity_cache" where
  "invalidate_if_owner key candidate_id c =
     (if is_some_and (bget (bindings c) key) (\<lambda>b. bound_candidate b = candidate_id)
      then invalidate key c
      else (False, c\<lparr>bindings := bmodify key (drop_alternative candidate_id) (bindings c)\<rparr>))"

definition invalidate_candidate :: "string \<Rightarrow> affinity_cache \<Rightarrow> nat \<times> affinity_cache" where
  "invalidate_candidate candidate_id c =
     (let kept = bfilter_map (\<lambda>_ b. if bound_candidate b \<noteq> candidate_id
            then Some (drop_alternative candidate_id b) else None) (bindings c)
      in (bsize (bindings c) - bsize kept, c\<lparr>bindings := kept\<rparr>))"

definition clear_cache :: "affinity_cache \<Rightarrow> affinity_cache" where
  "clear_cache c = c\<lparr>bindings := bempty\<rparr>"

section \<open>Runs\<close>

text \<open>One call of the cache that does not panic.\<close>

inductive cache_step :: "affinity_cache \<Rightarrow> affinity_cache \<Rightarrow> bool" where
  got: "cache_step c (snd (get_with_revision key now_ms c))"
| refreshed: "cache_step c (snd (affinity_refresh key now_ms c))"
| bound: "bind_for key cid now_ms ttl c = Some c' \<Longrightarrow> cache_step c c'"
| offered: "bind_if_unbound_or_same key cid now_ms c = Some (b, c') \<Longrightarrow> cache_step c c'"
| remembered: "cache_step c (remember_alternative key cid now_ms c)"
| restored: "restore key cid expires_at now_ms c = Some c' \<Longrightarrow> cache_step c c'"
| checked: "cache_step c (snd (affinity_contains key now_ms c))"
| invalidated: "cache_step c (snd (invalidate key c))"
| disowned: "cache_step c (snd (invalidate_if_owner key cid c))"
| dropped: "cache_step c (snd (invalidate_candidate cid c))"
| cleared: "cache_step c (clear_cache c)"

definition reachable_cache :: "affinity_cache \<Rightarrow> bool" where
  "reachable_cache c \<longleftrightarrow> (\<exists>entries ttl. cache_step\<^sup>*\<^sup>* (new_cache entries ttl) c)"

section \<open>Invariant\<close>

definition alternatives_ok :: "binding \<Rightarrow> bool" where
  "alternatives_ok b \<longleftrightarrow>
     length (alternatives b) \<le> MAX_WARM_ALTERNATIVES \<and> distinct (map fst (alternatives b)) \<and>
     bound_candidate b \<notin> fst ` set (alternatives b)"

definition bindings_ok :: "(string, binding) bmap \<Rightarrow> u64 \<Rightarrow> bool" where
  "bindings_ok m newest \<longleftrightarrow>
     (\<forall>k b. bget m k = Some b \<longrightarrow> alternatives_ok b \<and> bound_revision b \<le> newest) \<and>
     (\<forall>k b l d. bget m k = Some b \<and> bget m l = Some d \<and> bound_revision b = bound_revision d \<longrightarrow>
        k = l)"

definition cache_ok :: "affinity_cache \<Rightarrow> bool" where
  "cache_ok c \<longleftrightarrow> bsize (bindings c) \<le> max_entries c \<and> bindings_ok (bindings c) (next_revision c)"

text \<open>What a later cache says about the bindings of an earlier one.\<close>

definition cache_le :: "affinity_cache \<Rightarrow> affinity_cache \<Rightarrow> bool" where
  "cache_le c c' \<longleftrightarrow> max_entries c' = max_entries c \<and> next_revision c \<le> next_revision c' \<and>
     (\<forall>k b'. bget (bindings c') k = Some b' \<longrightarrow>
        (\<exists>b. bget (bindings c) k = Some b \<and> bound_revision b = bound_revision b' \<and>
           bound_candidate b = bound_candidate b' \<and> bound_until b \<le> bound_until b') \<or>
        next_revision c < bound_revision b')"

interpretation by_age: comparator oldest_order UNIV
  by unfold_locales
    (auto simp: oldest_order_def cmp_reverse_then_with cmp_reverse_cmp then_with_greater not_less)

interpretation by_expiry: comparator alternative_order UNIV
  by unfold_locales
    (auto simp: alternative_order_def cmp_reverse_then_with cmp_reverse_cmp then_with_greater not_less)

section \<open>Lemmas\<close>

lemma cache_le_refl: "cache_le c c"
  by (auto simp: cache_le_def)

lemma cache_le_binding:
  "\<lbrakk>cache_le c c'; bget (bindings c') k = Some b'\<rbrakk> \<Longrightarrow>
    (\<exists>b. bget (bindings c) k = Some b \<and> bound_revision b = bound_revision b' \<and>
       bound_candidate b = bound_candidate b' \<and> bound_until b \<le> bound_until b') \<or>
    next_revision c < bound_revision b'"
  by (simp add: cache_le_def)

lemma cache_le_trans:
  assumes "cache_le a b" and "cache_le b c"
  shows "cache_le a c"
  unfolding cache_le_def
proof (intro conjI allI impI)
  show "max_entries c = max_entries a" "next_revision a \<le> next_revision c"
    using assms by (auto simp: cache_le_def)
  fix k x assume "bget (bindings c) k = Some x"
  with assms(2) consider
      (kept) y where "bget (bindings b) k = Some y" "bound_revision y = bound_revision x"
        "bound_candidate y = bound_candidate x" "bound_until y \<le> bound_until x"
    | (fresh) "next_revision b < bound_revision x"
    unfolding cache_le_def by blast
  then show "(\<exists>z. bget (bindings a) k = Some z \<and> bound_revision z = bound_revision x \<and>
      bound_candidate z = bound_candidate x \<and> bound_until z \<le> bound_until x) \<or>
      next_revision a < bound_revision x"
  proof cases
    case kept
    from assms(1) kept(1) have "(\<exists>z. bget (bindings a) k = Some z \<and> bound_revision z = bound_revision y \<and>
        bound_candidate z = bound_candidate y \<and> bound_until z \<le> bound_until y) \<or>
        next_revision a < bound_revision y"
      unfolding cache_le_def by blast
    with kept show ?thesis by (auto intro: order_trans)
  next
    case fresh
    then show ?thesis using assms(1) by (auto simp: cache_le_def)
  qed
qed

text \<open>Dropping bindings, or editing them without touching owner and revision.\<close>

lemma shrink_ok:
  assumes "cache_ok c" and "bsize m \<le> bsize (bindings c)"
    and "\<And>k b'. bget m k = Some b' \<Longrightarrow> \<exists>b. bget (bindings c) k = Some b \<and>
      bound_revision b' = bound_revision b \<and> (alternatives_ok b \<longrightarrow> alternatives_ok b')"
  shows "cache_ok (c\<lparr>bindings := m\<rparr>)"
proof -
  have "bindings_ok m (next_revision c)"
    unfolding bindings_ok_def
  proof (intro conjI allI impI)
    fix k b assume "bget m k = Some b"
    then show "alternatives_ok b" "bound_revision b \<le> next_revision c"
      using assms by (auto simp: cache_ok_def bindings_ok_def) metis+
  next
    fix k b l d assume "bget m k = Some b \<and> bget m l = Some d \<and> bound_revision b = bound_revision d"
    then show "k = l" using assms(1,3) unfolding cache_ok_def bindings_ok_def by metis
  qed
  then show ?thesis using assms(1,2) by (simp add: cache_ok_def)
qed

lemma shrink_le:
  assumes "\<And>k b'. bget m k = Some b' \<Longrightarrow> \<exists>b. bget (bindings c) k = Some b \<and>
      bound_revision b' = bound_revision b \<and> bound_candidate b' = bound_candidate b \<and>
      bound_until b \<le> bound_until b'"
  shows "cache_le c (c\<lparr>bindings := m\<rparr>)"
  using assms by (fastforce simp: cache_le_def)

lemma bsize_modify [simp]: "bsize (bmodify k f m) = bsize m"
  by (auto simp: bmodify_def bsize_insert_present split: option.split)

lemma bsize_remove_bound: "bsize (bremove k m) \<le> bsize m"
  by (cases "bget m k") (auto simp: bremove_absent dest: bsize_remove)

lemma prune_ok: "cache_ok c \<Longrightarrow> cache_ok (prune now_ms c)"
  unfolding prune_def by (rule shrink_ok) (auto simp: bsize_retain_le split: option.splits if_splits)

lemma prune_le: "cache_le c (prune now_ms c)"
  unfolding prune_def by (rule shrink_le) (auto split: option.splits if_splits)

lemma prune_get:
  "bget (bindings (prune now_ms c)) k = live_binding k now_ms c"
  by (auto simp: prune_def live_binding_def opt_filter_def split: option.split)

lemma prune_fields [simp]:
  "next_revision (prune now_ms c) = next_revision c" "max_entries (prune now_ms c) = max_entries c"
  "cache_ttl_ms (prune now_ms c) = cache_ttl_ms c"
  by (simp_all add: prune_def)

text \<open>The oldest binding leaves, and only when there is none there is nothing to leave.\<close>

lemma evict_oldest_cases:
  obtains (empty) "bindings c = bempty" "evict_oldest c = c"
  | (evicted) key b where "bget (bindings c) key = Some b"
    "evict_oldest c = c\<lparr>bindings := bremove key (bindings c)\<rparr>"
    "\<forall>k d. bget (bindings c) k = Some d \<longrightarrow> last_touched_at b \<le> last_touched_at d"
proof (cases "min_by oldest_order (bentries (bindings c))")
  case None
  then have "bentries (bindings c) = bentries bempty" by simp
  then have "bindings c = bempty" by (simp only: bentries_inject)
  then show ?thesis using None empty by (simp add: evict_oldest_def)
next
  case (Some x)
  obtain key b where x: "x = (key, b)" by fastforce
  have "bget (bindings c) key = Some b"
    using min_by_in [OF Some] by (simp add: bget_in_entries x)
  moreover have "last_touched_at b \<le> last_touched_at d" if "bget (bindings c) k = Some d" for k d
    using by_age.min_by_least [OF Some, of "(k, d)"] that
    by (auto simp: bget_in_entries oldest_order_def x then_with_greater)
  ultimately show ?thesis using Some x evicted by (simp add: evict_oldest_def)
qed

lemma evict_ok: "cache_ok c \<Longrightarrow> cache_ok (evict_oldest c)"
  by (cases c rule: evict_oldest_cases)
    (auto intro!: shrink_ok simp: bsize_remove_bound split: if_splits)

lemma evict_le: "cache_le c (evict_oldest c)"
  by (cases c rule: evict_oldest_cases)
    (auto intro!: shrink_le simp: cache_le_refl split: if_splits)

lemma evict_room:
  assumes "bsize (bindings c) \<le> Suc n"
  shows "bsize (bindings (evict_oldest c)) \<le> n"
  using assms by (cases c rule: evict_oldest_cases) (auto dest: bsize_remove)

lemma evict_fields [simp]:
  "next_revision (evict_oldest c) = next_revision c" "max_entries (evict_oldest c) = max_entries c"
  "cache_ttl_ms (evict_oldest c) = cache_ttl_ms c"
  by (simp_all add: evict_oldest_def split: option.split)

lemma room_fields [simp]:
  "next_revision (make_room key c) = next_revision c" "max_entries (make_room key c) = max_entries c"
  "cache_ttl_ms (make_room key c) = cache_ttl_ms c"
  by (simp_all add: make_room_def)

lemma room_ok: "cache_ok c \<Longrightarrow> cache_ok (make_room key c)"
  by (simp add: make_room_def evict_ok)

lemma room_le: "cache_le c (make_room key c)"
  by (simp add: make_room_def evict_le cache_le_refl)

lemma insert_binding_Some:
  assumes "insert_binding key cid ttl till now_ms c = Some c'"
  obtains rev where "unat rev = Suc (unat (next_revision c))"
    "c' = (make_room key (prune now_ms c))\<lparr>next_revision := rev, bindings := binsert key
       \<lparr>bound_candidate = cid, bound_revision = rev, bound_ttl_ms = ttl, bound_until = till,
        last_touched_at = now_ms, alternatives = []\<rparr>
       (bindings (make_room key (prune now_ms c)))\<rparr>"
proof -
  obtain rev where rev: "checked_add (next_revision c) 1 = Some rev"
    using assms by (auto simp: insert_binding_def Let_def)
  then show ?thesis using assms checked_add_unat [OF rev]
    by (intro that [of rev]) (auto simp: insert_binding_def Let_def)
qed

lemma insert_binding_ok:
  assumes ok: "cache_ok c" and some: "0 < max_entries c"
    and run: "insert_binding key cid ttl till now_ms c = Some c'"
  shows "cache_ok c'"
proof -
  let ?room = "make_room key (prune now_ms c)"
  have room: "cache_ok ?room" by (intro room_ok prune_ok ok)
  obtain rev where rev: "unat rev = Suc (unat (next_revision c))"
    and c': "c' = ?room\<lparr>next_revision := rev, bindings := binsert key
       \<lparr>bound_candidate = cid, bound_revision = rev, bound_ttl_ms = ttl, bound_until = till,
        last_touched_at = now_ms, alternatives = []\<rparr> (bindings ?room)\<rparr>"
    by (rule insert_binding_Some [OF run])
  have old: "bound_revision b < rev" if "bget (bindings ?room) k = Some b" for k b
    using room that rev by (auto simp: cache_ok_def bindings_ok_def word_le_nat_alt word_less_nat_alt
        less_Suc_eq_le)
  have "bindings_ok (bindings c') rev"
    using room old
    by (auto simp: c' cache_ok_def bindings_ok_def alternatives_ok_def split: if_splits
        intro: less_imp_le)
  moreover have "bsize (bindings c') \<le> max_entries c"
  proof (cases "bget (bindings ?room) key")
    case None
    have "bsize (bindings ?room) < max_entries c"
    proof (cases "bcontains (bindings (prune now_ms c)) key \<or>
        bsize (bindings (prune now_ms c)) < max_entries c")
      case True
      then show ?thesis using None by (auto simp: make_room_def bcontains_iff)
    next
      case False
      then have "?room = evict_oldest (prune now_ms c)" by (simp add: make_room_def)
      moreover have "bsize (bindings (prune now_ms c)) \<le> max_entries c"
        using prune_ok [OF ok] by (simp add: cache_ok_def)
      ultimately show ?thesis
        using evict_room [of "prune now_ms c" "max_entries c - 1"] some by simp
    qed
    with None show ?thesis by (simp add: c' bsize_insert_fresh)
  next
    case (Some b)
    then show ?thesis using room by (simp add: c' bsize_insert_present cache_ok_def)
  qed
  ultimately show ?thesis by (simp add: cache_ok_def) (simp add: c')
qed

lemma insert_binding_le:
  assumes "insert_binding key cid ttl till now_ms c = Some c'"
  shows "cache_le c c'"
proof -
  let ?room = "make_room key (prune now_ms c)"
  obtain rev where rev: "unat rev = Suc (unat (next_revision c))"
    and c': "c' = ?room\<lparr>next_revision := rev, bindings := binsert key
       \<lparr>bound_candidate = cid, bound_revision = rev, bound_ttl_ms = ttl, bound_until = till,
        last_touched_at = now_ms, alternatives = []\<rparr> (bindings ?room)\<rparr>"
    by (rule insert_binding_Some [OF assms])
  have "next_revision c \<le> rev" "next_revision c < rev"
    using rev by (simp_all add: word_le_nat_alt word_less_nat_alt)
  then have "cache_le ?room c'" by (auto simp: c' cache_le_def)
  then show ?thesis using cache_le_trans prune_le room_le by blast
qed

lemma raise_expiry_ids: "raise_expiry cid t xs = Some ys \<Longrightarrow> map fst ys = map fst xs"
  by (induction cid t xs arbitrary: ys rule: raise_expiry.induct) (auto split: if_splits)

lemma raise_expiry_None: "raise_expiry cid t xs = None \<Longrightarrow> cid \<notin> fst ` set xs"
  by (induction cid t xs rule: raise_expiry.induct) (auto split: if_splits)

lemma distinct_filter_ids: "distinct (map fst xs) \<Longrightarrow> distinct (map fst (filter P xs))"
  by (induction xs) (auto simp: image_iff)

lemma add_alternative_fields [simp]:
  "bound_candidate (add_alternative cid now_ms b) = bound_candidate b"
  "bound_revision (add_alternative cid now_ms b) = bound_revision b"
  "bound_until (add_alternative cid now_ms b) = bound_until b"
  "bound_ttl_ms (add_alternative cid now_ms b) = bound_ttl_ms b"
  by (simp_all add: add_alternative_def Let_def)

lemma set_take_sorted: "set (take n (sort_by f xs)) \<subseteq> set xs"
  using set_take_subset [of n "sort_by f xs"] by simp

lemma add_alternative_ok:
  assumes ok: "alternatives_ok b" and other: "bound_candidate b \<noteq> cid"
  shows "alternatives_ok (add_alternative cid now_ms b)"
proof -
  let ?current = "filter (\<lambda>(_, t). now_ms < t) (alternatives b)"
  let ?until = "sat_add now_ms (bound_ttl_ms b)"
  obtain updated where u: "updated = (case raise_expiry cid ?until ?current of
      Some raised \<Rightarrow> raised | None \<Rightarrow> ?current @ [(cid, ?until)])" by blast
  have ids: "distinct (map fst ?current)" "bound_candidate b \<notin> fst ` set ?current"
    using ok distinct_filter_ids by (auto simp: alternatives_ok_def)
  have "distinct (map fst updated) \<and> bound_candidate b \<notin> fst ` set updated"
  proof (cases "raise_expiry cid ?until ?current")
    case None
    then show ?thesis using ids raise_expiry_None [OF None] other by (auto simp: u)
  next
    case (Some raised)
    then have "map fst raised = map fst ?current" by (rule raise_expiry_ids)
    then have "map fst updated = map fst ?current" using Some u by simp
    then show ?thesis using ids by (metis list.set_map)
  qed
  moreover have "distinct (map fst (sort_by alternative_order updated))"
    if "distinct (map fst updated)"
    using that by (auto simp: distinct_map)
  ultimately have "distinct (map fst (take n (sort_by alternative_order updated))) \<and>
      bound_candidate b \<notin> fst ` set (take n (sort_by alternative_order updated))" for n
    using set_take_sorted [of n alternative_order updated]
    by (simp add: take_map [symmetric]) (auto simp: subset_iff)
  then show ?thesis
    by (simp add: alternatives_ok_def add_alternative_def u [symmetric] Let_def)
qed

lemma modify_ok:
  assumes "cache_ok c"
    and "\<And>b. bget (bindings c) key = Some b \<Longrightarrow>
      bound_revision (f b) = bound_revision b \<and> (alternatives_ok b \<longrightarrow> alternatives_ok (f b))"
  shows "cache_ok (c\<lparr>bindings := bmodify key f (bindings c)\<rparr>)"
  using assms by (intro shrink_ok) (auto split: if_splits)

lemma modify_le:
  assumes "\<And>b. bget (bindings c) key = Some b \<Longrightarrow>
      bound_revision (f b) = bound_revision b \<and> bound_candidate (f b) = bound_candidate b \<and>
      bound_until b \<le> bound_until (f b)"
  shows "cache_le c (c\<lparr>bindings := bmodify key f (bindings c)\<rparr>)"
  using assms by (intro shrink_le) (auto split: if_splits)

lemma remember_ok: "cache_ok c \<Longrightarrow> cache_ok (remember_alternative key cid now_ms c)"
  by (auto simp: remember_alternative_def live_binding_def opt_filter_Some split: option.split
      intro!: modify_ok add_alternative_ok)

lemma remember_le: "cache_le c (remember_alternative key cid now_ms c)"
  by (auto simp: remember_alternative_def cache_le_refl split: option.split intro!: modify_le)

lemma refresh_ok: "cache_ok c \<Longrightarrow> cache_ok (snd (affinity_refresh key now_ms c))"
  by (auto simp: affinity_refresh_def Let_def alternatives_ok_def intro!: modify_ok prune_ok)

lemma refresh_le: "cache_le c (snd (affinity_refresh key now_ms c))"
  unfolding affinity_refresh_def Let_def snd_conv
  by (rule cache_le_trans [OF prune_le [of c now_ms] modify_le]) simp

lemma drop_alternative_fields [simp]:
  "bound_candidate (drop_alternative cid b) = bound_candidate b"
  "bound_revision (drop_alternative cid b) = bound_revision b"
  "bound_until (drop_alternative cid b) = bound_until b"
  by (simp_all add: drop_alternative_def)

lemma drop_alternative_ok: "alternatives_ok b \<Longrightarrow> alternatives_ok (drop_alternative cid b)"
  unfolding alternatives_ok_def drop_alternative_def
  by (auto intro: distinct_filter_ids order_trans [OF length_filter_le])

lemma invalidate_ok: "cache_ok c \<Longrightarrow> cache_ok (snd (invalidate key c))"
  by (auto simp: invalidate_def bsize_remove_bound split: if_splits intro!: shrink_ok)

lemma invalidate_le: "cache_le c (snd (invalidate key c))"
  by (auto simp: invalidate_def split: if_splits intro!: shrink_le)

lemma disown_ok: "cache_ok c \<Longrightarrow> cache_ok (snd (invalidate_if_owner key cid c))"
  by (auto simp: invalidate_if_owner_def invalidate_ok intro!: modify_ok drop_alternative_ok)

lemma disown_le: "cache_le c (snd (invalidate_if_owner key cid c))"
  by (auto simp: invalidate_if_owner_def invalidate_le intro!: modify_le)

lemma drop_candidate_ok: "cache_ok c \<Longrightarrow> cache_ok (snd (invalidate_candidate cid c))"
  by (auto simp: invalidate_candidate_def Let_def bsize_filter_map_le bind_eq_Some_conv
      split: if_splits intro!: shrink_ok drop_alternative_ok)

lemma drop_candidate_le: "cache_le c (snd (invalidate_candidate cid c))"
  by (auto simp: invalidate_candidate_def Let_def bind_eq_Some_conv split: if_splits intro!: shrink_le)

lemma bind_for_step:
  assumes "bind_for key cid now_ms ttl c = Some c'"
  shows "cache_ok c \<Longrightarrow> cache_ok c'" and "cache_le c c'"
  using assms insert_binding_ok insert_binding_le
  by (auto simp: bind_for_def cache_le_refl split: if_splits)

lemma restore_step:
  assumes "restore key cid till now_ms c = Some c'"
  shows "cache_ok c \<Longrightarrow> cache_ok c'" and "cache_le c c'"
  using assms insert_binding_ok insert_binding_le
  by (auto simp: restore_def cache_le_refl split: if_splits)

lemma affinity_get_prunes: "affinity_get key now_ms c =
    (map_option bound_candidate (live_binding key now_ms c), prune now_ms c)"
  by (simp add: affinity_get_def get_with_revision_def Let_def prune_get option.map_comp comp_def)

lemma offer_step:
  assumes "bind_if_unbound_or_same key cid now_ms c = Some (b, c')"
  shows "cache_ok c \<Longrightarrow> cache_ok c'" and "cache_le c c'"
proof -
  have "c' = prune now_ms c \<or> c' = snd (affinity_refresh key now_ms (prune now_ms c)) \<or>
      bind_owner key cid now_ms (prune now_ms c) = Some c'"
    using assms
    by (auto simp: bind_if_unbound_or_same_def affinity_get_prunes split: option.splits if_splits)
  then consider "c' = prune now_ms c" | "c' = snd (affinity_refresh key now_ms (prune now_ms c))"
    | "bind_for key cid now_ms (cache_ttl_ms (prune now_ms c)) (prune now_ms c) = Some c'"
    by (auto simp: bind_owner_def)
  then have "(cache_ok c \<longrightarrow> cache_ok c') \<and> cache_le c c'"
  proof cases
    case 1
    then show ?thesis by (simp add: prune_ok prune_le)
  next
    case 2
    then show ?thesis
      using cache_le_trans [OF prune_le refresh_le] by (simp add: prune_ok refresh_ok)
  next
    case 3
    then show ?thesis
      using cache_le_trans [OF prune_le bind_for_step(2) [OF 3]] bind_for_step(1) [OF 3]
      by (simp add: prune_ok)
  qed
  then show "cache_ok c \<Longrightarrow> cache_ok c'" "cache_le c c'" by blast+
qed

lemma clear_ok: "cache_ok (clear_cache c)"
  by (simp add: clear_cache_def cache_ok_def bindings_ok_def)

lemma clear_le: "cache_le c (clear_cache c)"
  by (simp add: clear_cache_def cache_le_def)

lemma read_step:
  "snd (get_with_revision key now_ms c) = prune now_ms c"
  "snd (affinity_contains key now_ms c) = prune now_ms c"
  by (simp_all add: get_with_revision_def affinity_contains_def Let_def)

lemma cache_step_ok: "cache_step c c' \<Longrightarrow> cache_ok c \<Longrightarrow> cache_ok c'"
  by (erule cache_step.cases)
    (auto simp: read_step prune_ok refresh_ok remember_ok invalidate_ok disown_ok
      drop_candidate_ok clear_ok dest: bind_for_step(1) offer_step(1) restore_step(1))

lemma cache_step_le: "cache_step c c' \<Longrightarrow> cache_le c c'"
  by (erule cache_step.cases)
    (auto simp: read_step prune_le refresh_le remember_le invalidate_le disown_le
      drop_candidate_le clear_le dest: bind_for_step(2) offer_step(2) restore_step(2))

lemma cache_steps_le: "cache_step\<^sup>*\<^sup>* c c' \<Longrightarrow> cache_le c c'"
  by (induction rule: rtranclp_induct) (auto intro: cache_le_refl cache_le_trans cache_step_le)

lemma cache_steps_ok: "cache_step\<^sup>*\<^sup>* c c' \<Longrightarrow> cache_ok c \<Longrightarrow> cache_ok c'"
  by (induction rule: rtranclp_induct) (auto intro: cache_step_ok)

lemma reachable_cache_ok: "reachable_cache c \<Longrightarrow> cache_ok c"
proof -
  have "cache_ok (new_cache entries ttl)" for entries ttl
    by (simp add: new_cache_def cache_ok_def bindings_ok_def)
  then show "reachable_cache c \<Longrightarrow> cache_ok c"
    unfolding reachable_cache_def using cache_steps_ok by blast
qed

section \<open>Properties\<close>

text \<open>the affinity cache stays bounded: in every reachable state it holds at most the configured
  number of bindings, no two of them share a revision, and each keeps at most four warm
  alternatives, all different from each other and from the owner.\<close>

theorem affinity_cache_bounded:
  assumes "reachable_cache c"
  shows "bsize (bindings c) \<le> max_entries c \<and>
    (\<forall>key b. bget (bindings c) key = Some b \<longrightarrow>
       length (alternatives b) \<le> 4 \<and> distinct (map fst (alternatives b)) \<and>
       bound_candidate b \<notin> fst ` set (alternatives b)) \<and>
    (\<forall>k b l d. bget (bindings c) k = Some b \<and> bget (bindings c) l = Some d \<and>
       bound_revision b = bound_revision d \<longrightarrow> k = l)"
proof -
  note ok = reachable_cache_ok [OF assms, unfolded cache_ok_def bindings_ok_def alternatives_ok_def
    MAX_WARM_ALTERNATIVES_def]
  then show ?thesis by blast
qed

text \<open>a spillover does not replace a live owner.  Offering a candidate for a key with a live
  binding succeeds exactly when it is the owner; then the deadline moves to at least the time to
  live from now and never backwards.  For any other candidate the binding stays as it is.  Owner
  and revision stay in both cases.\<close>

theorem offer_keeps_live_owner:
  assumes "live_binding key now_ms c = Some b"
  shows "\<exists>c' b'. bind_if_unbound_or_same key cid now_ms c = Some (bound_candidate b = cid, c') \<and>
    bget (bindings c') key = Some b' \<and>
    bound_candidate b' = bound_candidate b \<and> bound_revision b' = bound_revision b \<and>
    (if bound_candidate b = cid
     then unat (bound_until b') = max (unat (bound_until b))
       (min (unat now_ms + unat (bound_ttl_ms b)) (2 ^ 64 - 1))
     else b' = b)"
proof (cases "bound_candidate b = cid")
  case False
  then have "bind_if_unbound_or_same key cid now_ms c = Some (False, prune now_ms c)"
    using assms by (simp add: bind_if_unbound_or_same_def affinity_get_prunes)
  then show ?thesis using False assms by (simp add: prune_get)
next
  case True
  let ?b = "b\<lparr>bound_until := max (bound_until b) (sat_add now_ms (bound_ttl_ms b)),
    last_touched_at := max (last_touched_at b) now_ms\<rparr>"
  let ?c' = "snd (affinity_refresh key now_ms (prune now_ms c))"
  have live: "bget (bindings (prune now_ms (prune now_ms c))) key = Some b"
    using assms by (simp add: prune_get live_binding_def opt_filter_Some)
  then have "bind_if_unbound_or_same key cid now_ms c = Some (True, ?c')"
    "bget (bindings ?c') key = Some ?b"
    using True assms
    by (simp_all add: bind_if_unbound_or_same_def affinity_get_prunes affinity_refresh_def Let_def
        bcontains_iff)
  moreover have "unat (max x y) = max (unat x) (unat y)" for x y :: u64
    by (simp add: max_def word_le_nat_alt)
  ultimately show ?thesis using True by (simp add: unat_sat_add)
qed

text \<open>the revision of a binding identifies its owner: when two reads of a key, the second after
  any calls on the same cache, return the same revision, they return the same owner and the
  binding has not been shortened; a changed owner always shows as a larger revision.\<close>

theorem revision_identifies_owner:
  assumes "reachable_cache c" and "cache_step\<^sup>*\<^sup>* c c'"
    and "bget (bindings c) key = Some b" and "bget (bindings c') key = Some b'"
  shows "bound_revision b \<le> bound_revision b' \<and>
    (bound_revision b' = bound_revision b \<longrightarrow>
       bound_candidate b' = bound_candidate b \<and> bound_until b \<le> bound_until b')"
proof -
  have "cache_le c c'" using assms(2) by (rule cache_steps_le)
  from cache_le_binding [OF this assms(4)] have kept: "bound_revision b = bound_revision b' \<and>
      bound_candidate b = bound_candidate b' \<and> bound_until b \<le> bound_until b' \<or>
      next_revision c < bound_revision b'"
    by (simp add: assms(3))
  have "bound_revision b \<le> next_revision c"
    using reachable_cache_ok [OF assms(1)] assms(3) by (auto simp: cache_ok_def bindings_ok_def)
  then have "next_revision c < bound_revision b' \<Longrightarrow> bound_revision b < bound_revision b'"
    by (rule le_less_trans)
  with kept show ?thesis by (elim disjE) (auto simp: less_imp_le)
qed

text \<open>a new key displaces nothing that is live unless the cache is full; then it displaces one
  binding, the one touched longest ago among the live ones, and no other.\<close>

theorem insertion_evicts_oldest:
  assumes "insert_binding key cid ttl till now_ms c = Some c'" and "live_binding key now_ms c = None"
  shows "if bindings (prune now_ms c) \<noteq> bempty \<and> max_entries c \<le> bsize (bindings (prune now_ms c))
    then \<exists>gone d. live_binding gone now_ms c = Some d \<and>
      (\<forall>k x. live_binding k now_ms c = Some x \<longrightarrow> last_touched_at d \<le> last_touched_at x) \<and>
      (\<forall>k. k \<noteq> key \<longrightarrow>
         bget (bindings c') k = (if k = gone then None else live_binding k now_ms c))
    else \<forall>k. k \<noteq> key \<longrightarrow> bget (bindings c') k = live_binding k now_ms c"
proof -
  let ?p = "prune now_ms c"
  obtain rev where c': "c' = (make_room key ?p)\<lparr>next_revision := rev, bindings := binsert key
       \<lparr>bound_candidate = cid, bound_revision = rev, bound_ttl_ms = ttl, bound_until = till,
        last_touched_at = now_ms, alternatives = []\<rparr> (bindings (make_room key ?p))\<rparr>"
    by (rule insert_binding_Some [OF assms(1)])
  then have other: "bget (bindings c') k = bget (bindings (make_room key ?p)) k" if "k \<noteq> key" for k
    using that by simp
  have fresh: "\<not> bcontains (bindings ?p) key" using assms(2) by (simp add: bcontains_def prune_get)
  show ?thesis
  proof (cases "max_entries c \<le> bsize (bindings ?p)")
    case False
    then have "make_room key ?p = ?p" by (simp add: make_room_def)
    then show ?thesis using other False by (simp add: prune_get)
  next
    case True
    then have room: "make_room key ?p = evict_oldest ?p" using fresh by (simp add: make_room_def)
    show ?thesis
    proof (cases ?p rule: evict_oldest_cases)
      case empty
      have "\<forall>k. k \<noteq> key \<longrightarrow> bget (bindings c') k = live_binding k now_ms c"
        using other room empty(2) by (simp add: prune_get)
      then show ?thesis using empty(1) by (simp only: simp_thms if_False)
    next
      case (evicted gone d)
      then have "bindings ?p \<noteq> bempty" by auto
      moreover have "bget (bindings c') k = (if k = gone then None else live_binding k now_ms c)"
        if "k \<noteq> key" for k
        using other [OF that] evicted(2) room by (simp add: prune_get)
      ultimately show ?thesis using evicted(1,3) True by (auto simp: prune_get)
    qed
  qed
qed

section \<open>Evaluated instances\<close>

lemma bempty_filter: "bretain P bempty = bempty"
  by (rule bmap_eqI) simp

definition sample_cache :: affinity_cache where
  "sample_cache = \<lparr>bindings = binsert ''thread''
     \<lparr>bound_candidate = ''a'', bound_revision = 1, bound_ttl_ms = 100, bound_until = 100,
      last_touched_at = 0, alternatives = []\<rparr> bempty,
     next_revision = 1, max_entries = 1, cache_ttl_ms = 100\<rparr>"

lemma sample_cache_step: "bind_for ''thread'' ''a'' 0 100 (new_cache 1 100) = Some sample_cache"
  by (simp add: bind_for_def insert_binding_def new_cache_def prune_def make_room_def Let_def
      checked_add_def sat_add_def sample_cache_def bcontains_def bempty_filter)

lemma sample_cache_reachable: "reachable_cache sample_cache"
  unfolding reachable_cache_def using cache_step.bound [OF sample_cache_step] by blast

theorem affinity_cache_bounded_witness: "bsize (bindings sample_cache) \<le> 1"
  using affinity_cache_bounded [OF sample_cache_reachable] by (simp add: sample_cache_def)

theorem offer_keeps_live_owner_witness:
  "\<exists>c'. bind_if_unbound_or_same ''thread'' ''b'' 5 sample_cache = Some (False, c')"
proof -
  obtain b where "live_binding ''thread'' 5 sample_cache = Some b" "bound_candidate b = ''a''"
    by (simp add: live_binding_def sample_cache_def)
  from offer_keeps_live_owner [OF this(1), of "''b''"] this(2) show ?thesis by auto
qed

theorem revision_identifies_owner_witness:
  "\<exists>b b'. bget (bindings sample_cache) ''thread'' = Some b \<and>
     bget (bindings (snd (affinity_refresh ''thread'' 50 sample_cache))) ''thread'' = Some b' \<and>
     bound_candidate b' = bound_candidate b \<and> bound_until b \<le> bound_until b'"
proof -
  let ?c = "snd (affinity_refresh ''thread'' 50 sample_cache)"
  obtain b b' where b: "bget (bindings sample_cache) ''thread'' = Some b"
    "bget (bindings ?c) ''thread'' = Some b'" "bound_revision b' = bound_revision b"
    by (simp add: affinity_refresh_def Let_def sample_cache_def prune_def)
  have "cache_step\<^sup>*\<^sup>* sample_cache ?c"
    using cache_step.refreshed by (rule r_into_rtranclp)
  from revision_identifies_owner [OF sample_cache_reachable this b(1,2)] b show ?thesis by blast
qed

theorem insertion_evicts_oldest_witness:
  "\<exists>c'. insert_binding ''new'' ''b'' 100 110 10 sample_cache = Some c' \<and>
     bget (bindings c') ''thread'' = None"
proof -
  obtain c' where c': "insert_binding ''new'' ''b'' 100 110 10 sample_cache = Some c'"
    by (simp add: insert_binding_def Let_def checked_add_def sample_cache_def)
  have live: "live_binding k 10 sample_cache = (if k = ''thread'' then bget (bindings sample_cache) k else None)" for k
    by (simp add: live_binding_def sample_cache_def)
  have "prune 10 sample_cache = sample_cache"
    by (simp add: prune_def sample_cache_def) (rule bmap_eqI, simp)
  then have full: "bindings (prune 10 sample_cache) \<noteq> bempty"
    "max_entries sample_cache \<le> bsize (bindings (prune 10 sample_cache))"
    by (auto simp: sample_cache_def bsize_def dest: arg_cong [where f = bentries])
  have "live_binding ''new'' 10 sample_cache = None" by (simp add: live)
  from insertion_evicts_oldest [OF c' this] full obtain gone d where
    "live_binding gone 10 sample_cache = Some d"
    "\<forall>k. k \<noteq> ''new'' \<longrightarrow> bget (bindings c') k = (if k = gone then None else live_binding k 10 sample_cache)"
    by auto
  then have "bget (bindings c') ''thread'' = None" by (auto simp: live split: if_splits)
  with c' show ?thesis by blast
qed

end
