(* ===== verification/Pool.thy ===== *)
theory Pool
  imports Candidates Policy Affinity Registry
begin

text \<open>
  The pool scheduler (\<open>scheduler/selection.rs\<close>): its state, the physical members behind the
  candidates (\<open>selection/members.rs\<close>) and the registry of candidates with their observations,
  execution fences and capability blocks (\<open>selection/registry.rs\<close>).

  The scheduler owns the rotation engine, two affinity caches and two activity counters; this theory
  composes their models.  A method on \<open>&mut self\<close> returns its result with the new state; where an
  \<open>expect\<close> or \<open>unreachable!\<close> can panic, the result is an option and \<open>None\<close> is the panic.
\<close>

section \<open>State\<close>

record rate_limit_observation =
  rlo_bucket :: "u8 list"
  rlo_observed_at_ms :: u64
  rlo_retry_at_ms :: u64
  rlo_backoff_ms :: u64

type_synonym reservation_id = u64

record reservation =
  rsv_candidate_id :: string
  rsv_member_key :: string
  rsv_model :: string
  rsv_lane :: in_flight_lane

record reservations =
  next_id :: u64
  active :: "(reservation_id, reservation) bmap"

record pool_scheduler =
  ps_candidates :: "(string, runtime_candidate) bmap"
  ps_quota_references :: "(string, candidate_quota_reference) bmap"
  ps_cooldown_reasons :: "(string \<times> string, cooldown_reason) bmap"
  ps_shared_rate_limits :: "(string \<times> string, rate_limit_observation) bmap"
  ps_response_affinity :: affinity_cache
  ps_prompt_affinity :: affinity_cache
  ps_activity :: scheduler_activity
  ps_member_activity :: scheduler_activity
  ps_pool_routing :: "pool_policy option"
  ps_native_routes :: "string set"
  ps_reservations :: reservations
  ps_quota_stale_after_ms :: u64
  ps_protected_candidate :: "(string \<times> u64) option"
  ps_execution_fences :: "(string, u64 \<times> u32) bmap"
  ps_next_fence_epoch :: u64
  ps_capability_blocks :: "(string \<times> string) set"
  ps_permission_revisions :: "(string, u64) bmap"
  ps_retired_candidates :: "string set"
  ps_rotation :: rotation_engine
  ps_rotation_leases :: "(reservation_id, rotation_lease) bmap"
  ps_retired :: bool

definition RESPONSE_AFFINITY_MAX_ENTRIES :: nat where
  "RESPONSE_AFFINITY_MAX_ENTRIES = 16384"

definition RESPONSE_AFFINITY_TTL_MS :: u64 where
  "RESPONSE_AFFINITY_TTL_MS = 30 * 24 * 60 * 60 * 1000"

definition PROMPT_AFFINITY_MAX_ENTRIES :: nat where
  "PROMPT_AFFINITY_MAX_ENTRIES = 16384"

definition PROMPT_AFFINITY_TTL_MS :: u64 where
  "PROMPT_AFFINITY_TTL_MS = 60 * 60 * 1000"

definition MAX_OAUTH_IMAGE_IN_FLIGHT :: u32 where
  "MAX_OAUTH_IMAGE_IN_FLIGHT = 1"

definition new_pool :: pool_scheduler where
  "new_pool =
     \<lparr>ps_candidates = bempty, ps_quota_references = bempty, ps_cooldown_reasons = bempty,
      ps_shared_rate_limits = bempty,
      ps_response_affinity = new_cache RESPONSE_AFFINITY_MAX_ENTRIES RESPONSE_AFFINITY_TTL_MS,
      ps_prompt_affinity = new_cache PROMPT_AFFINITY_MAX_ENTRIES PROMPT_AFFINITY_TTL_MS,
      ps_activity = default_activity, ps_member_activity = default_activity,
      ps_pool_routing = None, ps_native_routes = {},
      ps_reservations = \<lparr>next_id = 0, active = bempty\<rparr>,
      ps_quota_stale_after_ms = QUOTA_STALE_AFTER_MS, ps_protected_candidate = None,
      ps_execution_fences = bempty, ps_next_fence_epoch = 0, ps_capability_blocks = {},
      ps_permission_revisions = bempty, ps_retired_candidates = {},
      ps_rotation = default_engine, ps_rotation_leases = bempty, ps_retired = False\<rparr>"

definition retire_for_replacement :: "pool_scheduler \<Rightarrow> pool_scheduler" where
  "retire_for_replacement p = p\<lparr>ps_retired := True\<rparr>"

section \<open>Physical members\<close>

definition account_member_key :: "string \<Rightarrow> string" where
  "account_member_key account_id = ''account:'' @ account_id"

definition source_member_key :: "string \<Rightarrow> string" where
  "source_member_key source_id = ''source:'' @ source_id"

definition identity :: "runtime_candidate \<Rightarrow> pool_member_kind \<times> string" where
  "identity c =
     (case cn_kind c of
        OAuthAccount \<Rightarrow> (AccountMember, unwrap_or (cn_account_id c) (cn_id c))
      | ApiSource \<Rightarrow> (SourceMember, cn_source_id c))"

definition member_key :: "runtime_candidate \<Rightarrow> string" where
  "member_key c =
     (case identity c of
        (AccountMember, name) \<Rightarrow> account_member_key name
      | (SourceMember, name) \<Rightarrow> source_member_key name)"

definition member_key_for :: "pool_scheduler \<Rightarrow> string \<Rightarrow> string option" where
  "member_key_for p cid = map_option member_key (bget (ps_candidates p) cid)"

definition active_member_keys :: "pool_scheduler \<Rightarrow> u64 \<Rightarrow> u64 \<Rightarrow> string set" where
  "active_member_keys p now_ms recent_ms =
     set (map member_key (filter (\<lambda>c.
       0 < in_flight_count (cn_id c) TextLane (ps_activity p)
       \<or> 0 < in_flight_count (cn_id c) ImageLane (ps_activity p)
       \<or> is_some_and (cn_last_used_at c) (\<lambda>at. at \<le> now_ms \<and> sat_sub now_ms at < recent_ms))
       (bvalues (ps_candidates p))))"

definition routes_for_members :: "pool_scheduler \<Rightarrow> string set \<Rightarrow> string set" where
  "routes_for_members p members =
     set (map cn_id (filter (\<lambda>c. member_key c \<in> members) (bvalues (ps_candidates p))))"

definition compare_member_routes ::
  "pool_scheduler \<Rightarrow> runtime_candidate \<Rightarrow> runtime_candidate \<Rightarrow> cmp_result" where
  "compare_member_routes p left right =
     (if member_key left = member_key right
      then cmp (cn_id left \<in> ps_native_routes p) (cn_id right \<in> ps_native_routes p)
      else EqualTo)"

text \<open>The runtime mode of a saved policy; the legacy mode is \<open>unreachable!\<close>.\<close>

definition rotation_mode_of :: "pool_routing_mode \<Rightarrow> rotation_mode option" where
  "rotation_mode_of m =
     (case m of
        PoolAutomatic \<Rightarrow> Some Automatic
      | PoolWeightedRoundRobin \<Rightarrow> Some WeightedRoundRobin
      | PoolFailover \<Rightarrow> Some Failover
      | PoolInOrder \<Rightarrow> Some RoundRobin
      | PoolRoundRobin \<Rightarrow> Some RoundRobin
      | PoolSmart \<Rightarrow> None)"

definition sync_rotation_mode :: "pool_scheduler \<Rightarrow> pool_scheduler option" where
  "sync_rotation_mode p =
     map_option (\<lambda>m. p\<lparr>ps_rotation := set_mode (ps_rotation p) m\<rparr>)
       (case ps_pool_routing p of None \<Rightarrow> Some Automatic | Some policy \<Rightarrow> rotation_mode_of (pp_mode policy))"

definition set_pool_routing ::
  "pool_scheduler \<Rightarrow> pool_policy \<Rightarrow> ((string + unit) \<times> pool_scheduler) option" where
  "set_pool_routing p policy =
     (case validate_activation policy of Inl message \<Rightarrow> Some (Inl message, p)
      | Inr _ \<Rightarrow>
          if ps_pool_routing p \<noteq> Some policy
          then map_option (\<lambda>p'. (Inr (), p')) (sync_rotation_mode (p\<lparr>ps_pool_routing := Some policy\<rparr>))
          else Some (Inr (), p))"

text \<open>The inventory of the candidates: the first one of each member, in the order of identifiers.\<close>

fun inventory_of ::
  "(pool_member_kind \<times> string) set \<Rightarrow> runtime_candidate list \<Rightarrow> inventory_entry list" where
  "inventory_of seen [] = []"
| "inventory_of seen (c # cs) =
     (if identity c \<in> seen then inventory_of seen cs
      else (fst (identity c), snd (identity c), cn_priority c, cn_weight c)
        # inventory_of (insert (identity c) seen) cs)"

definition migrated_pool_routing :: "pool_scheduler \<Rightarrow> pool_policy" where
  "migrated_pool_routing p =
     resolve_pool_routing (Some default_policy) (inventory_of {} (bvalues (ps_candidates p)))"

definition member_policy :: "pool_scheduler \<Rightarrow> runtime_candidate \<Rightarrow> (nat \<times> pool_member) option" where
  "member_policy p c =
     Option.bind (ps_pool_routing p) (\<lambda>policy.
       map_option (\<lambda>i. (i, pp_members policy ! i))
         (position (\<lambda>m. pm_kind m = fst (identity c) \<and> pm_id m = snd (identity c))
           (pp_members policy)))"

definition clamp :: "'a::linorder \<Rightarrow> 'a \<Rightarrow> 'a \<Rightarrow> 'a" where
  "clamp lo hi x = (if x < lo then lo else if hi < x then hi else x)"

definition member_weight :: "pool_scheduler \<Rightarrow> runtime_candidate \<Rightarrow> u32" where
  "member_weight p c =
     (case member_policy p c of None \<Rightarrow> clamp 1 100 (cn_weight c) | Some (_, m) \<Rightarrow> pm_weight m)"

definition member_capacity_allows :: "pool_scheduler \<Rightarrow> runtime_candidate \<Rightarrow> bool" where
  "member_capacity_allows p c =
     is_none_or (member_policy p c) (\<lambda>(_, m).
       pm_max_concurrency m = 0
       \<or> active_request_count (member_key c) (ps_member_activity p) < pm_max_concurrency m)"

section \<open>Registry\<close>

definition forget_shared_rate_limits :: "string \<Rightarrow> pool_scheduler \<Rightarrow> pool_scheduler" where
  "forget_shared_rate_limits cid p =
     p\<lparr>ps_shared_rate_limits := bretain (\<lambda>(member, _) _. member \<noteq> cid) (ps_shared_rate_limits p)\<rparr>"

definition invalidate_quota_reference_source :: "pool_scheduler \<Rightarrow> string \<Rightarrow> bool \<times> pool_scheduler" where
  "invalidate_quota_reference_source p account_id =
     (let kept = bretain (\<lambda>_ r. source_account_id r \<noteq> account_id) (ps_quota_references p)
      in (bsize kept \<noteq> bsize (ps_quota_references p), p\<lparr>ps_quota_references := kept\<rparr>))"

definition set_quota_references ::
  "pool_scheduler \<Rightarrow> (string, candidate_quota_reference) bmap \<Rightarrow> bool \<times> pool_scheduler" where
  "set_quota_references p references =
     (let kept = bretain (\<lambda>cid r. cid \<noteq> source_account_id r
            \<and> is_some_and (bget (ps_candidates p) cid)
                (\<lambda>c. cn_kind c = OAuthAccount \<and> cid \<notin> ps_retired_candidates p)) references
      in if ps_quota_references p = kept then (False, p)
         else (True, p\<lparr>ps_quota_references := kept\<rparr>))"

definition pool_set_quota_stale_after_ms :: "pool_scheduler \<Rightarrow> u64 \<Rightarrow> pool_scheduler" where
  "pool_set_quota_stale_after_ms p stale_after = p\<lparr>ps_quota_stale_after_ms := max stale_after 1\<rparr>"

text \<open>A structural edit of a candidate: anything but its priority, weight or observations.\<close>

definition permission_changed :: "runtime_candidate \<Rightarrow> runtime_candidate \<Rightarrow> bool" where
  "permission_changed old new =
     (cn_enabled old \<noteq> cn_enabled new \<or> cn_draining old \<noteq> cn_draining new
      \<or> cn_secret_available old \<noteq> cn_secret_available new \<or> cn_kind old \<noteq> cn_kind new
      \<or> cn_source_id old \<noteq> cn_source_id new \<or> cn_account_id old \<noteq> cn_account_id new
      \<or> cn_protocol old \<noteq> cn_protocol new \<or> cn_model_protocols old \<noteq> cn_model_protocols new
      \<or> cn_model_rules old \<noteq> cn_model_rules new
      \<or> list_ex (\<lambda>m. \<not> bcontains (cn_models new) m) (bkeys (cn_models old)))"

definition candidate_permission_revision :: "pool_scheduler \<Rightarrow> string \<Rightarrow> u64" where
  "candidate_permission_revision p cid = unwrap_or (bget (ps_permission_revisions p) cid) 0"

definition advance_permission :: "runtime_candidate \<Rightarrow> pool_scheduler \<Rightarrow> pool_scheduler option" where
  "advance_permission c p =
     (if is_some_and (bget (ps_candidates p) (cn_id c)) (\<lambda>old. permission_changed old c)
      then map_option (\<lambda>revision. (forget_shared_rate_limits (cn_id c) p)
             \<lparr>ps_permission_revisions := binsert (cn_id c) revision (ps_permission_revisions p)\<rparr>)
           (checked_add (candidate_permission_revision p (cn_id c)) 1)
      else Some p)"

definition pool_upsert :: "pool_scheduler \<Rightarrow> runtime_candidate \<Rightarrow> pool_scheduler option" where
  "pool_upsert p c =
     map_option (\<lambda>p1.
         p1\<lparr>ps_response_affinity :=
              (if bcontains (ps_candidates p1) (cn_id c) then ps_response_affinity p1
               else snd (invalidate_candidate (cn_id c) (ps_response_affinity p1))),
            ps_retired_candidates := ps_retired_candidates p1 - {cn_id c},
            ps_cooldown_reasons := bretain (\<lambda>(cid, model) _.
              cid \<noteq> cn_id c \<or> bcontains (cn_cooldowns c) model) (ps_cooldown_reasons p1),
            ps_candidates := binsert (cn_id c) c (ps_candidates p1)\<rparr>)
       (advance_permission c p)"

definition remove_now :: "string \<Rightarrow> pool_scheduler \<Rightarrow> runtime_candidate option \<times> pool_scheduler" where
  "remove_now cid p =
     (let removed = bget (ps_candidates p) cid;
          rest = bremove cid (ps_candidates p);
          p1 = p\<lparr>ps_rotation := snd (remove_candidate (ps_rotation p) cid),
            ps_retired_candidates := ps_retired_candidates p - {cid},
            ps_prompt_affinity := snd (invalidate_candidate cid (ps_prompt_affinity p)),
            ps_activity := activity_remove cid (ps_activity p),
            ps_reservations := (ps_reservations p)\<lparr>active :=
              bretain (\<lambda>_ r. rsv_candidate_id r \<noteq> cid) (active (ps_reservations p))\<rparr>,
            ps_execution_fences := bremove cid (ps_execution_fences p),
            ps_permission_revisions := bremove cid (ps_permission_revisions p),
            ps_capability_blocks := {b \<in> ps_capability_blocks p. fst b \<noteq> cid},
            ps_cooldown_reasons := bretain (\<lambda>(cooled, _) _. cooled \<noteq> cid) (ps_cooldown_reasons p),
            ps_protected_candidate := opt_filter (\<lambda>(name, _). name \<noteq> cid) (ps_protected_candidate p),
            ps_candidates := rest\<rparr>
      in (removed,
          case removed of None \<Rightarrow> p1
          | Some c \<Rightarrow>
              if list_ex (\<lambda>other. member_key other = member_key c) (bvalues rest) then p1
              else p1\<lparr>ps_member_activity := activity_remove (member_key c) (ps_member_activity p1)\<rparr>))"

definition pool_remove :: "pool_scheduler \<Rightarrow> string \<Rightarrow> runtime_candidate option \<times> pool_scheduler" where
  "pool_remove p cid =
     (let p1 = (forget_shared_rate_limits cid p)\<lparr>ps_quota_references :=
            bretain (\<lambda>name r. name \<noteq> cid \<and> source_account_id r \<noteq> cid) (ps_quota_references p)\<rparr>
      in case bget (ps_candidates p1) cid of None \<Rightarrow> (None, p1)
         | Some existing \<Rightarrow>
             (let p2 = p1\<lparr>ps_rotation := snd (remove_candidate (ps_rotation p1) cid)\<rparr>
              in if 0 < active_request_count cid (ps_activity p2)
                 then (Some existing, p2\<lparr>
                   ps_prompt_affinity := snd (invalidate_candidate cid (ps_prompt_affinity p2)),
                   ps_candidates := bmodify cid (\<lambda>c. c\<lparr>cn_enabled := False, cn_draining := True\<rparr>)
                     (ps_candidates p2),
                   ps_retired_candidates := insert cid (ps_retired_candidates p2)\<rparr>)
                 else remove_now cid p2))"

definition finalize_retired_if_idle :: "string \<Rightarrow> pool_scheduler \<Rightarrow> pool_scheduler" where
  "finalize_retired_if_idle cid p =
     (if cid \<in> ps_retired_candidates p \<and> active_request_count cid (ps_activity p) = 0
      then snd (remove_now cid p) else p)"

definition set_protected_candidate ::
  "pool_scheduler \<Rightarrow> string option \<Rightarrow> u64 \<Rightarrow> bool \<times> pool_scheduler" where
  "set_protected_candidate p cid reserve_basis_points =
     (case cid of None \<Rightarrow> (True, p\<lparr>ps_protected_candidate := None\<rparr>)
      | Some name \<Rightarrow>
          if \<not> bcontains (ps_candidates p) name then (False, p)
          else (True, p\<lparr>ps_protected_candidate := Some (name, reserve_basis_points)\<rparr>))"

text \<open>\<open>get_mut\<close> on a candidate: whether it is there, and the pool with it changed.\<close>

definition edit_pool_candidate ::
  "pool_scheduler \<Rightarrow> string \<Rightarrow> (runtime_candidate \<Rightarrow> runtime_candidate) \<Rightarrow> bool \<times> pool_scheduler" where
  "edit_pool_candidate p cid f =
     (if bcontains (ps_candidates p) cid
      then (True, p\<lparr>ps_candidates := bmodify cid f (ps_candidates p)\<rparr>) else (False, p))"

definition update_candidate_availability_at ::
  "pool_scheduler \<Rightarrow> string \<Rightarrow> bool \<Rightarrow> candidate_health \<Rightarrow> candidate_quota \<Rightarrow> u64 option \<Rightarrow>
   bool \<times> pool_scheduler" where
  "update_candidate_availability_at p cid on h q observed_at =
     edit_pool_candidate p cid (\<lambda>c.
       c\<lparr>cn_enabled := on, cn_health := h, cn_quota := q,
         cn_quota_updated_at_ms :=
           (if cn_quota c \<noteq> q \<or> (observed_at \<noteq> None \<and> cn_quota_updated_at_ms c \<noteq> observed_at)
            then observed_at else cn_quota_updated_at_ms c)\<rparr>)"

definition update_candidate_availability ::
  "pool_scheduler \<Rightarrow> string \<Rightarrow> bool \<Rightarrow> candidate_health \<Rightarrow> candidate_quota \<Rightarrow> bool \<times> pool_scheduler"
  where
  "update_candidate_availability p cid on h q = update_candidate_availability_at p cid on h q None"

definition update_candidate_availability_with_quota_at ::
  "pool_scheduler \<Rightarrow> string \<Rightarrow> bool \<Rightarrow> candidate_health \<Rightarrow> candidate_quota_state \<Rightarrow>
   bool \<times> pool_scheduler" where
  "update_candidate_availability_with_quota_at p cid on h q =
     edit_pool_candidate p cid (\<lambda>c. set_quota_state (c\<lparr>cn_enabled := on, cn_health := h\<rparr>) q)"

definition update_candidate_quota_at ::
  "pool_scheduler \<Rightarrow> string \<Rightarrow> candidate_quota_state \<Rightarrow> bool \<times> pool_scheduler" where
  "update_candidate_quota_at p cid q = edit_pool_candidate p cid (\<lambda>c. set_quota_state c q)"

definition set_candidate_health ::
  "pool_scheduler \<Rightarrow> string \<Rightarrow> candidate_health \<Rightarrow> bool \<times> pool_scheduler" where
  "set_candidate_health p cid h = edit_pool_candidate p cid (\<lambda>c. c\<lparr>cn_health := h\<rparr>)"

section \<open>Execution fences and capability blocks\<close>

definition begin_execution_fence ::
  "pool_scheduler \<Rightarrow> string \<Rightarrow> (u64 option \<times> pool_scheduler) option" where
  "begin_execution_fence p cid =
     (if \<not> bcontains (ps_candidates p) cid then Some (None, p)
      else (case bget (ps_execution_fences p) cid of
          Some (fence, held) \<Rightarrow>
            map_option (\<lambda>n. (Some fence, p\<lparr>ps_execution_fences :=
                binsert cid (fence, n) (ps_execution_fences p)\<rparr>)) (checked_add held 1)
        | None \<Rightarrow>
            map_option (\<lambda>fence. (Some fence, p\<lparr>ps_next_fence_epoch := fence,
                ps_execution_fences := binsert cid (fence, 1) (ps_execution_fences p)\<rparr>))
              (checked_add (ps_next_fence_epoch p) 1)))"

definition end_execution_fence :: "pool_scheduler \<Rightarrow> string \<Rightarrow> u64 \<Rightarrow> pool_scheduler" where
  "end_execution_fence p cid fence =
     (case bget (ps_execution_fences p) cid of None \<Rightarrow> p
      | Some (current_fence, held) \<Rightarrow>
          if current_fence \<noteq> fence then p
          else if held \<le> 1
          then p\<lparr>ps_execution_fences := bremove cid (ps_execution_fences p)\<rparr>
          else p\<lparr>ps_execution_fences :=
                   binsert cid (current_fence, held - 1) (ps_execution_fences p)\<rparr>)"

definition set_execution_fence ::
  "pool_scheduler \<Rightarrow> string \<Rightarrow> bool \<Rightarrow> (bool \<times> pool_scheduler) option" where
  "set_execution_fence p cid fenced =
     (if fenced then map_option (\<lambda>(fence, p'). (fence \<noteq> None, p')) (begin_execution_fence p cid)
      else if \<not> bcontains (ps_candidates p) cid then Some (False, p)
      else Some (True,
        case bget (ps_execution_fences p) cid of None \<Rightarrow> p
        | Some (fence, _) \<Rightarrow> end_execution_fence p cid fence))"

definition block_capability :: "pool_scheduler \<Rightarrow> string \<Rightarrow> string \<Rightarrow> bool \<times> pool_scheduler" where
  "block_capability p cid model =
     (let block = (cid, model_id_key model) in
      if bcontains (ps_candidates p) cid
      then (block \<notin> ps_capability_blocks p,
            p\<lparr>ps_capability_blocks := insert block (ps_capability_blocks p)\<rparr>)
      else (False, p))"

definition clear_capability_blocks :: "pool_scheduler \<Rightarrow> string \<Rightarrow> bool \<times> pool_scheduler" where
  "clear_capability_blocks p cid =
     (let kept = {b \<in> ps_capability_blocks p. fst b \<noteq> cid}
      in (kept \<noteq> ps_capability_blocks p, p\<lparr>ps_capability_blocks := kept\<rparr>))"

definition quota_reserve_allows :: "pool_scheduler \<Rightarrow> runtime_candidate \<Rightarrow> u64 \<Rightarrow> bool" where
  "quota_reserve_allows p c now_ms =
     (case opt_filter (\<lambda>(cid, _). cid = cn_id c) (ps_protected_candidate p) of None \<Rightarrow> True
      | Some (_, kept_back) \<Rightarrow>
          (case cn_quota c of
             CqAvailable left \<Rightarrow>
               kept_back < left
               \<and> observation_is_fresh (cn_quota_updated_at_ms c) now_ms (ps_quota_stale_after_ms p)
           | CqCreditFallback \<Rightarrow>
               kept_back = 0
               \<and> observation_is_fresh (cn_credits_observed_at_ms c) now_ms (ps_quota_stale_after_ms p)
           | CqUnknown \<Rightarrow> False | CqExhausted \<Rightarrow> False | CqStale \<Rightarrow> False))"

end
