(* ===== verification/Cooldowns.thy ===== *)
theory Cooldowns
  imports Pool
begin

text \<open>
  Cooldowns of the pool: provider and mandatory deadlines per candidate and model
  (\<open>selection/recovery.rs\<close>), the reason they are reported with (\<open>selection/availability.rs\<close>), and the
  rate limits that members of one provider bucket share (\<open>selection/rate_limits.rs\<close>).
\<close>

section \<open>Cooldowns of a candidate\<close>

definition record_success ::
  "pool_scheduler \<Rightarrow> string \<Rightarrow> string \<Rightarrow> u64 \<Rightarrow> bool \<times> pool_scheduler" where
  "record_success p cid model now_ms =
     (case bget (ps_candidates p) cid of None \<Rightarrow> (False, p)
      | Some c \<Rightarrow>
        (let left = bretain (\<lambda>scope retry_at. \<not> cooldown_applies scope model \<or> now_ms < retry_at)
               (cn_cooldowns c)
         in (\<not> list_ex (\<lambda>retry_at. now_ms < retry_at) (bvalues left),
             p\<lparr>ps_candidates := binsert cid
                 (c\<lparr>cn_cooldowns := left, cn_last_used_at := Some now_ms\<rparr>) (ps_candidates p),
               ps_cooldown_reasons := bretain (\<lambda>(cooled, scope) _.
                 cooled \<noteq> cid \<or> bcontains left scope) (ps_cooldown_reasons p)\<rparr>)))"

record cooldown_request =
  cr_scope :: string
  cr_retry_at_ms :: u64
  cr_reason :: cooldown_reason

definition cooldown_scope :: "string \<Rightarrow> string" where
  "cooldown_scope scope = (if scope = ''*'' then ''*'' else to_ascii_lowercase scope)"

definition stores_reason ::
  "u64 option \<Rightarrow> cooldown_reason option \<Rightarrow> u64 \<Rightarrow> cooldown_reason \<Rightarrow> bool" where
  "stores_reason existing previous retry_at reason =
     is_none_or existing (\<lambda>current.
       current < retry_at
       \<or> (retry_at = current \<and> reason = CoolRateLimit \<and> previous \<noteq> Some CoolMandatory)
       \<or> (reason = CoolMandatory \<and> previous \<noteq> Some CoolMandatory))"

text \<open>\<open>set_cooldown_with_reason_inner\<close>, under all the names it is called by.\<close>

definition set_cooldown_with_reason ::
  "pool_scheduler \<Rightarrow> string \<Rightarrow> cooldown_request \<Rightarrow> bool \<times> pool_scheduler" where
  "set_cooldown_with_reason p cid request =
     (if cr_reason request = CoolTransient then (False, p)
      else
        (let scope = cooldown_scope (cr_scope request) in
         case bget (ps_candidates p) cid of None \<Rightarrow> (False, p)
         | Some c \<Rightarrow>
             (let existing = bget (cn_cooldowns c) scope;
                  deadline = (case existing of None \<Rightarrow> cr_retry_at_ms request
                    | Some current \<Rightarrow> max current (cr_retry_at_ms request))
              in (True, p\<lparr>
                    ps_candidates := binsert cid
                      (c\<lparr>cn_cooldowns := binsert scope deadline (cn_cooldowns c)\<rparr>) (ps_candidates p),
                    ps_cooldown_reasons :=
                      (if stores_reason existing (bget (ps_cooldown_reasons p) (cid, scope))
                            (cr_retry_at_ms request) (cr_reason request)
                       then binsert (cid, scope) (cr_reason request) (ps_cooldown_reasons p)
                       else ps_cooldown_reasons p)\<rparr>))))"

definition set_cooldown :: "pool_scheduler \<Rightarrow> string \<Rightarrow> string \<Rightarrow> u64 \<Rightarrow> bool \<times> pool_scheduler" where
  "set_cooldown p cid model retry_at =
     set_cooldown_with_reason p cid
       \<lparr>cr_scope = model, cr_retry_at_ms = retry_at, cr_reason = CoolMandatory\<rparr>"

definition clear_cooldown :: "pool_scheduler \<Rightarrow> string \<Rightarrow> string \<Rightarrow> bool \<times> pool_scheduler" where
  "clear_cooldown p cid model =
     (case bget (ps_candidates p) cid of None \<Rightarrow> (False, p)
      | Some c \<Rightarrow>
        (let left = bretain (\<lambda>scope _. \<not> eq_ignore_ascii_case scope model) (cn_cooldowns c);
             removed = (bsize left \<noteq> bsize (cn_cooldowns c))
         in (removed,
             p\<lparr>ps_candidates := binsert cid (c\<lparr>cn_cooldowns := left\<rparr>) (ps_candidates p),
               ps_cooldown_reasons :=
                 (if removed then bretain (\<lambda>(cooled, scope) _.
                    cooled \<noteq> cid \<or> \<not> eq_ignore_ascii_case scope model) (ps_cooldown_reasons p)
                  else ps_cooldown_reasons p)\<rparr>)))"

section \<open>The reported reason\<close>

fun aggregate_cooldown_reason :: "cooldown_reason \<Rightarrow> cooldown_reason \<Rightarrow> cooldown_reason" where
  "aggregate_cooldown_reason CoolMandatory _ = CoolMandatory"
| "aggregate_cooldown_reason _ CoolMandatory = CoolMandatory"
| "aggregate_cooldown_reason CoolTransient _ = CoolTransient"
| "aggregate_cooldown_reason _ CoolTransient = CoolTransient"
| "aggregate_cooldown_reason CoolRateLimit CoolRateLimit = CoolRateLimit"

definition cooldown_reason_for ::
  "pool_scheduler \<Rightarrow> runtime_candidate \<Rightarrow> string \<Rightarrow> u64 \<Rightarrow> cooldown_reason" where
  "cooldown_reason_for p c model now_ms =
     unwrap_or (fold (\<lambda>(scope, retry_at) reason.
         if retry_at \<le> now_ms \<or> \<not> cooldown_applies scope model then reason
         else Some (aggregate_cooldown_reason (unwrap_or reason CoolRateLimit)
           (unwrap_or (bget (ps_cooldown_reasons p) (cn_id c, scope)) CoolTransient)))
       (bentries (cn_cooldowns c)) None) CoolTransient"

section \<open>Shared rate limits\<close>

definition OBSERVATION_TTL_MS :: u64 where
  "OBSERVATION_TTL_MS = 10 * 60000"

definition MAX_OBSERVATIONS :: nat where
  "MAX_OBSERVATIONS = 4096"

definition MIN_BACKOFF_MS :: u64 where
  "MIN_BACKOFF_MS = 5000"

definition MAX_BACKOFF_MS :: u64 where
  "MAX_BACKOFF_MS = 60000"

definition shares_bucket :: "string \<Rightarrow> u8 list \<Rightarrow> string \<times> string \<Rightarrow> rate_limit_observation \<Rightarrow> bool" where
  "shares_bucket model bucket key o1 = (snd key = model \<and> rlo_bucket o1 = bucket)"

definition previous_observation ::
  "(string \<times> string, rate_limit_observation) bmap \<Rightarrow> string \<Rightarrow> u8 list \<Rightarrow> rate_limit_observation option"
  where
  "previous_observation m model bucket =
     max_by (\<lambda>a b. cmp (rlo_retry_at_ms a) (rlo_retry_at_ms b))
       (map snd (filter (\<lambda>(key, o1). shares_bucket model bucket key o1) (bentries m)))"

definition next_backoff :: "rate_limit_observation option \<Rightarrow> u64 \<Rightarrow> u64" where
  "next_backoff previous now_ms =
     (case previous of None \<Rightarrow> MIN_BACKOFF_MS
      | Some o1 \<Rightarrow> clamp MIN_BACKOFF_MS MAX_BACKOFF_MS
          (if rlo_retry_at_ms o1 \<le> now_ms then sat_mul (rlo_backoff_ms o1) 2 else rlo_backoff_ms o1))"

text \<open>Room for a new entry: the oldest observation leaves a full table.\<close>

definition make_observation_room ::
  "string \<times> string \<Rightarrow> (string \<times> string, rate_limit_observation) bmap \<Rightarrow>
   (string \<times> string, rate_limit_observation) bmap" where
  "make_observation_room key m =
     (if MAX_OBSERVATIONS \<le> bsize m \<and> \<not> bcontains m key
      then (case min_by (\<lambda>a b. cmp (rlo_observed_at_ms (snd a)) (rlo_observed_at_ms (snd b))) (bentries m)
            of None \<Rightarrow> m | Some oldest \<Rightarrow> bremove (fst oldest) m)
      else m)"

definition observe_shared_rate_limit ::
  "pool_scheduler \<Rightarrow> string \<Rightarrow> u8 list \<Rightarrow> cooldown_request \<Rightarrow> u64 \<Rightarrow> pool_scheduler" where
  "observe_shared_rate_limit p cid bucket request now_ms =
     (if \<not> bcontains (ps_candidates p) cid \<or> cid \<in> ps_retired_candidates p then p
      else
        (let fresh = bretain (\<lambda>_ o1. sat_sub now_ms (rlo_observed_at_ms o1) < OBSERVATION_TTL_MS)
               (ps_shared_rate_limits p);
             model = to_ascii_lowercase (cr_scope request);
             previous = previous_observation fresh model bucket;
             backoff = next_backoff previous now_ms;
             paced = max (cr_retry_at_ms request) (sat_add now_ms backoff);
             retry_at = (case previous of None \<Rightarrow> paced | Some o1 \<Rightarrow> max paced (rlo_retry_at_ms o1));
             key = (cid, model);
             inserted = binsert key
               \<lparr>rlo_bucket = bucket, rlo_observed_at_ms = now_ms, rlo_retry_at_ms = retry_at,
                rlo_backoff_ms = backoff\<rparr> (make_observation_room key fresh);
             spread = bfilter_map (\<lambda>k o1. Some (if shares_bucket model bucket k o1
               then o1\<lparr>rlo_retry_at_ms := retry_at, rlo_backoff_ms := backoff\<rparr> else o1)) inserted;
             members = map (\<lambda>(k, _). fst k)
               (filter (\<lambda>(k, o1). shares_bucket model bucket k o1) (bentries spread))
         in fold (\<lambda>member q. snd (set_cooldown_with_reason q member
                (request\<lparr>cr_retry_at_ms := retry_at\<rparr>)))
              members (p\<lparr>ps_shared_rate_limits := spread\<rparr>)))"

definition reset_shared_rate_limit_backoff ::
  "pool_scheduler \<Rightarrow> string \<Rightarrow> string \<Rightarrow> u64 \<Rightarrow> pool_scheduler" where
  "reset_shared_rate_limit_backoff p cid model now_ms =
     (let key = (cid, to_ascii_lowercase model) in
      case opt_filter (\<lambda>o1. rlo_retry_at_ms o1 \<le> now_ms) (bget (ps_shared_rate_limits p) key) of
        None \<Rightarrow> p
      | Some found \<Rightarrow>
          p\<lparr>ps_shared_rate_limits := bfilter_map (\<lambda>k o1.
              Some (if shares_bucket (snd key) (rlo_bucket found) k o1
                    then o1\<lparr>rlo_backoff_ms := 0\<rparr> else o1)) (ps_shared_rate_limits p)\<rparr>)"

section \<open>Lemmas: cooldowns\<close>

text \<open>\<open>t\<close> is a lower bound of the deadline of a scope of a candidate.\<close>

definition cooled :: "pool_scheduler \<Rightarrow> string \<Rightarrow> string \<Rightarrow> u64 \<Rightarrow> bool" where
  "cooled p cid scope t \<longleftrightarrow>
     (\<exists>c t'. bget (ps_candidates p) cid = Some c \<and> bget (cn_cooldowns c) scope = Some t' \<and> t \<le> t')"

lemma set_cooldown_result:
  "fst (set_cooldown_with_reason p cid request)
     \<longleftrightarrow> cr_reason request \<noteq> CoolTransient \<and> bcontains (ps_candidates p) cid"
  by (simp add: set_cooldown_with_reason_def bcontains_def Let_def split: option.split)

lemma set_cooldown_keeps:
  "cooled p name scope t \<Longrightarrow> cooled (snd (set_cooldown_with_reason p cid request)) name scope t"
  unfolding cooled_def set_cooldown_with_reason_def
  by (auto simp: Let_def split: option.split intro: order.trans max.cobounded1)

lemma set_cooldown_sets:
  assumes "cr_reason request \<noteq> CoolTransient" and "bcontains (ps_candidates p) cid"
  shows "cooled (snd (set_cooldown_with_reason p cid request)) cid
    (cooldown_scope (cr_scope request)) (cr_retry_at_ms request)"
  using assms unfolding cooled_def set_cooldown_with_reason_def
  by (auto simp: Let_def bcontains_iff split: option.split)

lemma set_cooldown_candidates [simp]:
  "bcontains (ps_candidates (snd (set_cooldown_with_reason p cid request))) name
     = bcontains (ps_candidates p) name"
  by (auto simp: set_cooldown_with_reason_def bcontains_def Let_def split: option.split)

lemma set_cooldown_fields [simp]:
  "ps_shared_rate_limits (snd (set_cooldown_with_reason p cid request)) = ps_shared_rate_limits p"
  by (simp add: set_cooldown_with_reason_def Let_def split: option.split)

lemma fold_cooldown_fields [simp]:
  "ps_shared_rate_limits (fold (\<lambda>m q. snd (set_cooldown_with_reason q m request)) ms p)
     = ps_shared_rate_limits p"
  "bcontains (ps_candidates (fold (\<lambda>m q. snd (set_cooldown_with_reason q m request)) ms p)) name
     = bcontains (ps_candidates p) name"
  by (induction ms arbitrary: p) simp_all

lemma fold_cooldown_keeps:
  "cooled p name scope t \<Longrightarrow>
   cooled (fold (\<lambda>m q. snd (set_cooldown_with_reason q m request)) ms p) name scope t"
  by (induction ms arbitrary: p) (simp_all add: set_cooldown_keeps)

lemma fold_cooldown_sets:
  assumes "cr_reason request \<noteq> CoolTransient" and "name \<in> set ms" "bcontains (ps_candidates p) name"
  shows "cooled (fold (\<lambda>m q. snd (set_cooldown_with_reason q m request)) ms p) name
    (cooldown_scope (cr_scope request)) (cr_retry_at_ms request)"
  using assms(2,3)
proof (induction ms arbitrary: p)
  case (Cons m ms)
  then show ?case
    using set_cooldown_sets [OF assms(1), of p m] fold_cooldown_keeps by (cases "name = m") auto
qed simp

lemma cooldown_scope_lower [simp]: "cooldown_scope scope = to_ascii_lowercase scope"
  by (simp add: cooldown_scope_def to_ascii_lowercase_def ascii_lower_def)

section \<open>Lemmas: shared rate limits\<close>

definition rate_table_ok :: "pool_scheduler \<Rightarrow> bool" where
  "rate_table_ok p \<longleftrightarrow> bsize (ps_shared_rate_limits p) \<le> MAX_OBSERVATIONS"

lemma room_size: "bsize m \<le> MAX_OBSERVATIONS \<Longrightarrow>
  bsize (binsert key v (make_observation_room key m)) \<le> MAX_OBSERVATIONS"
proof -
  assume le: "bsize m \<le> MAX_OBSERVATIONS"
  show ?thesis
  proof (cases "MAX_OBSERVATIONS \<le> bsize m \<and> \<not> bcontains m key")
    case True
    then have "bentries m \<noteq> []" by (auto simp: bsize_def MAX_OBSERVATIONS_def)
    then obtain oldest where o: "min_by (\<lambda>a b. cmp (rlo_observed_at_ms (snd a))
        (rlo_observed_at_ms (snd b))) (bentries m) = Some oldest"
      by (metis min_by_None not_None_eq)
    then have "(fst oldest, snd oldest) \<in> set (bentries m)" using min_by_in [OF o] by simp
    then have "bget m (fst oldest) = Some (snd oldest)" by (simp add: bget_in_entries)
    then have "Suc (bsize (bremove (fst oldest) m)) \<le> MAX_OBSERVATIONS"
      using bsize_remove [of m "fst oldest"] le by simp
    with True o show ?thesis
      using bsize_insert_le [of key v "bremove (fst oldest) m"] by (simp add: make_observation_room_def)
  next
    case False
    then have "bsize m < MAX_OBSERVATIONS \<or> bcontains m key" by linarith
    then show ?thesis
    proof
      assume "bsize m < MAX_OBSERVATIONS"
      with False show ?thesis using bsize_insert_le [of key v m] by (auto simp: make_observation_room_def)
    next
      assume "bcontains m key"
      with le show ?thesis
        by (auto simp: make_observation_room_def bcontains_iff bsize_insert_present)
    qed
  qed
qed

lemma observe_table:
  assumes "rate_table_ok p"
  shows "rate_table_ok (observe_shared_rate_limit p cid bucket request now_ms)"
proof -
  have "bsize (bretain P (ps_shared_rate_limits p)) \<le> MAX_OBSERVATIONS" for P
    using bsize_retain_le [of P "ps_shared_rate_limits p"] assms by (simp add: rate_table_ok_def)
  note small = this
  have "bsize (bfilter_map f (binsert key v (make_observation_room key
      (bretain P (ps_shared_rate_limits p))))) \<le> MAX_OBSERVATIONS"
    for f :: "string \<times> string \<Rightarrow> rate_limit_observation \<Rightarrow> rate_limit_observation option" and key v P
    by (rule order.trans [OF bsize_filter_map_le room_size [OF small]])
  with assms show ?thesis
    by (simp add: observe_shared_rate_limit_def rate_table_ok_def Let_def)
qed

lemma other_rate_tables:
  "rate_table_ok p \<Longrightarrow> rate_table_ok (reset_shared_rate_limit_backoff p cid model now_ms)"
  "rate_table_ok p \<Longrightarrow> rate_table_ok (forget_shared_rate_limits cid p)"
  unfolding rate_table_ok_def reset_shared_rate_limit_backoff_def forget_shared_rate_limits_def
  by (auto simp: Let_def intro: order.trans [OF bsize_filter_map_le] order.trans [OF bsize_retain_le]
      split: option.split)

lemma next_backoff_bounds: "MIN_BACKOFF_MS \<le> next_backoff o1 now_ms \<and> next_backoff o1 now_ms \<le> MAX_BACKOFF_MS"
  by (auto simp: next_backoff_def clamp_def MIN_BACKOFF_MS_def MAX_BACKOFF_MS_def not_less
      split: option.split)

section \<open>Properties\<close>

interpretation retry_order: comparator "\<lambda>a b. cmp (rlo_retry_at_ms a) (rlo_retry_at_ms b)" UNIV
  by unfold_locales (auto simp: cmp_reverse_cmp cmp_not_greater)

text \<open>recording a cooldown never shortens one: every deadline of every candidate stays or moves
  later, and an accepted cooldown holds at least until its own deadline.\<close>

theorem cooldown_never_shortened:
  assumes "set_cooldown_with_reason p cid request = (ok, p')"
  shows "(\<forall>name scope t. cooled p name scope t \<longrightarrow> cooled p' name scope t) \<and>
    (ok \<longrightarrow> cooled p' cid (to_ascii_lowercase (cr_scope request)) (cr_retry_at_ms request)) \<and>
    (ok \<longleftrightarrow> cr_reason request \<noteq> CoolTransient \<and> bcontains (ps_candidates p) cid)"
  using assms set_cooldown_keeps [of p _ _ _ cid request] set_cooldown_sets [of request p cid]
    set_cooldown_result [of p cid request]
  by auto

text \<open>C38: a rate limit reported by one member holds for all members of its provider bucket: after the
  observation every entry of the bucket has one deadline and one backoff, the backoff is within its
  bounds, the deadline is later than now by the backoff, later than the reported one and than every
  fresh deadline of the bucket, and every candidate of the bucket cools down until then.\<close>

theorem rate_limit_shared:
  assumes "bcontains (ps_candidates p) cid" and "cid \<notin> ps_retired_candidates p"
    and "p' = observe_shared_rate_limit p cid bucket request now_ms"
    and "model = to_ascii_lowercase (cr_scope request)"
  shows "\<exists>retry_at backoff.
    (\<forall>k o1. bget (ps_shared_rate_limits p') k = Some o1 \<longrightarrow> shares_bucket model bucket k o1 \<longrightarrow>
       rlo_retry_at_ms o1 = retry_at \<and> rlo_backoff_ms o1 = backoff) \<and>
    bcontains (ps_shared_rate_limits p') (cid, model) \<and>
    MIN_BACKOFF_MS \<le> backoff \<and> backoff \<le> MAX_BACKOFF_MS \<and>
    sat_add now_ms backoff \<le> retry_at \<and> cr_retry_at_ms request \<le> retry_at \<and>
    (\<forall>k o1. bget (ps_shared_rate_limits p) k = Some o1 \<longrightarrow> shares_bucket model bucket k o1 \<longrightarrow>
       sat_sub now_ms (rlo_observed_at_ms o1) < OBSERVATION_TTL_MS \<longrightarrow> rlo_retry_at_ms o1 \<le> retry_at) \<and>
    (cr_reason request \<noteq> CoolTransient \<longrightarrow>
       (\<forall>k o1. bget (ps_shared_rate_limits p') k = Some o1 \<longrightarrow> shares_bucket model bucket k o1 \<longrightarrow>
          bcontains (ps_candidates p') (fst k) \<longrightarrow> cooled p' (fst k) model retry_at))"
proof -
  define fresh where "fresh = bretain (\<lambda>_ o1. sat_sub now_ms (rlo_observed_at_ms o1) < OBSERVATION_TTL_MS)
    (ps_shared_rate_limits p)"
  define previous where "previous = previous_observation fresh model bucket"
  define backoff where "backoff = next_backoff previous now_ms"
  define paced where "paced = max (cr_retry_at_ms request) (sat_add now_ms backoff)"
  define retry_at where
    "retry_at = (case previous of None \<Rightarrow> paced | Some o1 \<Rightarrow> max paced (rlo_retry_at_ms o1))"
  define inserted where "inserted = binsert (cid, model)
    \<lparr>rlo_bucket = bucket, rlo_observed_at_ms = now_ms, rlo_retry_at_ms = retry_at,
     rlo_backoff_ms = backoff\<rparr> (make_observation_room (cid, model) fresh)"
  define spread where "spread = bfilter_map (\<lambda>k o1. Some (if shares_bucket model bucket k o1
    then o1\<lparr>rlo_retry_at_ms := retry_at, rlo_backoff_ms := backoff\<rparr> else o1)) inserted"
  define members where "members = map (\<lambda>(k, _). fst k)
    (filter (\<lambda>(k, o1). shares_bucket model bucket k o1) (bentries spread))"
  define req where "req = request\<lparr>cr_retry_at_ms := retry_at\<rparr>"
  have p': "p' = fold (\<lambda>member q. snd (set_cooldown_with_reason q member req)) members
      (p\<lparr>ps_shared_rate_limits := spread\<rparr>)"
    unfolding req_def members_def spread_def inserted_def retry_at_def paced_def
      backoff_def previous_def fresh_def assms(3) assms(4) observe_shared_rate_limit_def Let_def
    by (rule if_not_P) (use assms(1,2) in simp)
  have table: "ps_shared_rate_limits p' = spread"
    "bcontains (ps_candidates p') = bcontains (ps_candidates p)"
    by (auto simp: p' fun_eq_iff)
  have one: "rlo_retry_at_ms o1 = retry_at \<and> rlo_backoff_ms o1 = backoff"
    if "bget spread k = Some o1" "shares_bucket model bucket k o1" for k o1
  proof -
    from that(1) obtain w where "o1 = (if shares_bucket model bucket k w
        then w\<lparr>rlo_retry_at_ms := retry_at, rlo_backoff_ms := backoff\<rparr> else w)"
      unfolding spread_def bget_filter_map bind_eq_Some_conv by blast
    with that(2) show ?thesis by (cases "shares_bucket model bucket k w") simp_all
  qed
  have present: "bcontains spread (cid, model)"
    by (simp add: bcontains_def spread_def inserted_def)
  have paced: "sat_add now_ms backoff \<le> retry_at" "cr_retry_at_ms request \<le> retry_at"
    by (auto simp: retry_at_def paced_def le_max_iff_disj split: option.split)
  have older: "rlo_retry_at_ms o1 \<le> retry_at"
    if "bget (ps_shared_rate_limits p) k = Some o1" "shares_bucket model bucket k o1"
      "sat_sub now_ms (rlo_observed_at_ms o1) < OBSERVATION_TTL_MS" for k o1
  proof -
    let ?os = "map snd (filter (\<lambda>(key, o1). shares_bucket model bucket key o1) (bentries fresh))"
    have "bget fresh k = Some o1" using that by (simp add: fresh_def)
    then have in_os: "o1 \<in> set ?os" using that(2) by (force simp: bget_in_entries)
    then have "?os \<noteq> []" by force
    then obtain top where top: "max_by (\<lambda>a b. cmp (rlo_retry_at_ms a) (rlo_retry_at_ms b)) ?os = Some top"
      by (metis max_by_None not_None_eq)
    then have "rlo_retry_at_ms o1 \<le> rlo_retry_at_ms top"
      using retry_order.max_by_greatest [OF top _ in_os] by (simp add: cmp_not_greater)
    moreover have "previous = Some top" using top by (simp add: previous_def previous_observation_def)
    ultimately show ?thesis by (simp add: retry_at_def le_max_iff_disj)
  qed
  have cool: "cooled p' (fst k) model retry_at"
    if "cr_reason request \<noteq> CoolTransient" "bget spread k = Some o1" "shares_bucket model bucket k o1"
      "bcontains (ps_candidates p) (fst k)" for k o1
  proof -
    have "fst k \<in> set members" using that by (force simp: members_def bget_in_entries)
    then show ?thesis
      using fold_cooldown_sets [of req "fst k" members "p\<lparr>ps_shared_rate_limits := spread\<rparr>"] that assms(4)
      by (simp add: p' req_def)
  qed
  show ?thesis
    using one present paced older cool next_backoff_bounds [of previous now_ms]
    unfolding table backoff_def [symmetric] by blast
qed

end
