(* ===== verification/Projection.thy ===== *)
theory Projection
  imports Cooldowns Accounting
begin

text \<open>
  The projection of the pool into the rotation engine (\<open>selection/projection.rs\<close>): every configured
  candidate becomes a rotation candidate with its routes, limits and observations, and every
  selection request becomes a rotation request over the candidates that may serve it.

  The global counter behind \<open>RotationEngine::next_request_id\<close> is the argument \<open>fresh\<close>.  Indexing
  \<open>candidates\<close> with an identifier that was read from it never panics; the model skips an absent one.
\<close>

section \<open>Candidates\<close>

fun operation_name :: "rotation_operation \<Rightarrow> string" where
  "operation_name OpText = ''Text''"
| "operation_name OpImage = ''Image''"
| "operation_name OpCompaction = ''Compaction''"
| "operation_name OpMetadata = ''Metadata''"

definition rotation_route_key :: "string \<Rightarrow> rotation_operation \<Rightarrow> string" where
  "rotation_route_key model op = model_id_key model @ '':'' @ operation_name op"

definition policy_priority :: "nat \<Rightarrow> int" where
  "policy_priority rank = - (if rank < 2 ^ 31 then int rank else 2 ^ 31 - 1)"

definition add_model_routes :: "runtime_candidate \<Rightarrow> string \<Rightarrow> rotation_candidate \<Rightarrow> rotation_candidate" where
  "add_model_routes c model rc =
     (if is_image_model_id model
      then add_route rc (rotation_route_key model OpImage) model OpImage
      else
        (let text = add_route rc (rotation_route_key model OpText) model OpText
         in if cn_kind c = OAuthAccount \<and> cn_protocol c = Responses
            then add_route text (rotation_route_key model OpCompaction) model OpCompaction
            else text))"

definition project_candidate :: "pool_scheduler \<Rightarrow> runtime_candidate \<Rightarrow> rotation_candidate option" where
  "project_candidate p c =
     (case bkeys (cn_models c) of [] \<Rightarrow> None
      | primary_model # _ \<Rightarrow>
          Some (fold (add_model_routes c) (bkeys (cn_models c))
            ((new_candidate (cn_id c) (rotation_route_key primary_model OpText) primary_model)
               \<lparr>capacity_key := member_key c,
                priority := (case member_policy p c of None \<Rightarrow> cn_priority c
                  | Some (rank, _) \<Rightarrow> policy_priority rank),
                weight := clamp 1 100 (member_weight p c),
                capacity_limit := (case member_policy p c of None \<Rightarrow> 0
                  | Some (_, m) \<Rightarrow> if 0 < pm_max_concurrency m then pm_max_concurrency m else 0),
                provider_credits_micro_units := cn_credits c,
                provider_credits_unlimited := cn_credits_unlimited c,
                provider_credits_observed_at_ms := cn_credits_observed_at_ms c,
                enabled := cn_enabled c, draining := cn_draining c,
                quota_reference := bget (ps_quota_references p) (cn_id c),
                routes := bempty, route_rates := bempty\<rparr>)))"

definition routing_quota_factor :: "pool_scheduler \<Rightarrow> runtime_candidate \<Rightarrow> u64" where
  "routing_quota_factor p c =
     (let kept_back = (case opt_filter (\<lambda>(cid, _). cid = cn_id c) (ps_protected_candidate p) of
            None \<Rightarrow> 0 | Some (_, n) \<Rightarrow> n)
      in case cn_quota c of
           CqAvailable left \<Rightarrow> sat_sub left kept_back
         | CqUnknown \<Rightarrow> if kept_back = 0 then 1 else 0
         | CqCreditFallback \<Rightarrow> 0 | CqExhausted \<Rightarrow> 0 | CqStale \<Rightarrow> 0)"

definition routing_quota :: "pool_scheduler \<Rightarrow> runtime_candidate \<Rightarrow> candidate_quota" where
  "routing_quota p c =
     (case cn_quota c of CqAvailable _ \<Rightarrow> CqAvailable (routing_quota_factor p c) | q \<Rightarrow> q)"

definition projected_quota :: "pool_scheduler \<Rightarrow> runtime_candidate \<Rightarrow> quota_state \<times> u64 option" where
  "projected_quota p c =
     (case routing_quota p c of
        CqUnknown \<Rightarrow> (QUnknown, None)
      | CqCreditFallback \<Rightarrow> (QCreditFallback (cn_quota_reset_at_ms c), None)
      | CqAvailable n \<Rightarrow> if n = 0 then (QExhausted (cn_quota_reset_at_ms c), None)
          else (QAvailable, Some n)
      | CqStale \<Rightarrow> (QStale, None)
      | CqExhausted \<Rightarrow> (QExhausted (cn_quota_reset_at_ms c), None))"

text \<open>A deadline counts unless it is recorded as a transient one.\<close>

definition lasting :: "pool_scheduler \<Rightarrow> runtime_candidate \<Rightarrow> string \<Rightarrow> bool" where
  "lasting p c scope = (bget (ps_cooldown_reasons p) (cn_id c, scope) \<noteq> Some CoolTransient)"

definition rate_of :: "u64 option \<Rightarrow> rate_state" where
  "rate_of not_before = (case not_before of None \<Rightarrow> RateReady | Some t \<Rightarrow> Limited t)"

definition global_rate :: "pool_scheduler \<Rightarrow> runtime_candidate \<Rightarrow> rate_state" where
  "global_rate p c =
     rate_of (opt_filter (\<lambda>_. lasting p c ''*'') (bget (cn_cooldowns c) ''*''))"

definition model_rate :: "pool_scheduler \<Rightarrow> runtime_candidate \<Rightarrow> string \<Rightarrow> rate_state" where
  "model_rate p c model =
     rate_of (list_max (map snd (filter (\<lambda>(scope, _).
       cooldown_applies scope model \<and> lasting p c scope) (bentries (cn_cooldowns c)))))"

definition route_rate_syncs ::
  "pool_scheduler \<Rightarrow> runtime_candidate \<Rightarrow> (string \<times> rate_state) list" where
  "route_rate_syncs p c =
     concat (map (\<lambda>model. map (\<lambda>op. (rotation_route_key model op, model_rate p c model))
       [OpText, OpCompaction, OpImage]) (bkeys (cn_models c)))"

definition sync_candidate ::
  "pool_scheduler \<Rightarrow> runtime_candidate \<Rightarrow> rotation_engine \<Rightarrow> rotation_engine" where
  "sync_candidate p c e =
     (if cn_id c \<in> ps_retired_candidates p then e
      else (case project_candidate p c of None \<Rightarrow> e
        | Some rc \<Rightarrow>
            (let cid = rc_id rc;
                 e1 = snd (upsert e rc);
                 e2 = snd (sync_candidate_state e1 cid (cn_enabled c) (cn_draining c)
                   (if health_is_eligible (cn_health c) then AuthReady else AuthStateBlocked)
                   (fst (projected_quota p c)) (global_rate p c));
                 e3 = snd (set_quota_remaining e2 cid (snd (projected_quota p c))
                   (cn_quota_updated_at_ms c));
                 e4 = snd (set_provider_credits e3 cid (cn_credits c) (cn_credits_unlimited c)
                   (cn_credits_observed_at_ms c))
             in fold (\<lambda>(key, r) e. snd (sync_candidate_route_rate e cid key r))
                  (route_rate_syncs p c) e4)))"

definition leased_candidates :: "pool_scheduler \<Rightarrow> string set" where
  "leased_candidates p = set (map rl_candidate_id (bvalues (ps_rotation_leases p)))"

definition stale_candidates :: "pool_scheduler \<Rightarrow> rotation_engine \<Rightarrow> string list" where
  "stale_candidates p e =
     filter (\<lambda>cid. \<not> bcontains (ps_candidates p) cid \<and> cid \<notin> leased_candidates p)
       (bkeys (candidates e))"

definition sync_engine :: "pool_scheduler \<Rightarrow> rotation_engine" where
  "sync_engine p =
     (let e1 = set_quota_stale_after_ms (ps_rotation p) (ps_quota_stale_after_ms p);
          e2 = fold (sync_candidate p) (bvalues (ps_candidates p)) e1
      in fold (\<lambda>cid e. snd (remove_candidate e cid)) (stale_candidates p e2) e2)"

definition sync_all_rotation_candidates :: "pool_scheduler \<Rightarrow> pool_scheduler" where
  "sync_all_rotation_candidates p = p\<lparr>ps_rotation := sync_engine p\<rparr>"

section \<open>Requests\<close>

record selection_request =
  sr_model :: string
  sr_allowed_protocols :: "wire_api list"
  sr_scope :: candidate_scope
  sr_tried :: "string set"
  sr_response_key :: "string option"
  sr_prompt_key :: "string option"
  sr_now_ms :: u64

definition rotation_request_for ::
  "request_id \<Rightarrow> string option \<Rightarrow> string \<Rightarrow> rotation_operation \<Rightarrow> string set \<Rightarrow> rotation_request" where
  "rotation_request_for request_id owner model op allow =
     (let request = with_allowed_candidates
            (request_with_operation (new_request request_id (rotation_route_key model op) model) op)
            allow
      in case owner of None \<Rightarrow> request | Some cid \<Rightarrow> request_with_owner request cid)"

definition rotation_visible ::
  "pool_scheduler \<Rightarrow> runtime_candidate \<Rightarrow> string \<Rightarrow> wire_api list \<Rightarrow> candidate_scope \<Rightarrow> u64 \<Rightarrow> bool" where
  "rotation_visible p c model protocols scope now_ms =
     (\<not> ps_retired p \<and> cn_id c \<notin> ps_retired_candidates p
      \<and> \<not> bcontains (ps_execution_fences p) (cn_id c)
      \<and> (cn_id c, model_id_key model) \<notin> ps_capability_blocks p
      \<and> quota_reserve_allows p c now_ms \<and> is_configured c model protocols scope)"

definition visible_candidates :: "pool_scheduler \<Rightarrow> selection_request \<Rightarrow> string bset" where
  "visible_candidates p r =
     bset_of (map cn_id (filter (\<lambda>c. cn_id c \<notin> sr_tried r
       \<and> rotation_visible p c (sr_model r) (sr_allowed_protocols r) (sr_scope r) (sr_now_ms r))
       (bvalues (ps_candidates p))))"

text \<open>One route for each physical member: the first one, or a native one after it.\<close>

definition add_member_route ::
  "pool_scheduler \<Rightarrow> runtime_candidate \<Rightarrow> (string, runtime_candidate) bmap \<Rightarrow>
   (string, runtime_candidate) bmap" where
  "add_member_route p c m =
     (let kept = unwrap_or (bget m (member_key c)) c
      in binsert (member_key c) (if compare_member_routes p c kept = GreaterThan then c else kept) m)"

definition member_routes ::
  "pool_scheduler \<Rightarrow> string list \<Rightarrow> (string, runtime_candidate) bmap" where
  "member_routes p ids = fold (add_member_route p) (List.map_filter (bget (ps_candidates p)) ids) bempty"

text \<open>The route that stands for the physical member of a candidate.\<close>

definition member_route_of ::
  "pool_scheduler \<Rightarrow> (string, runtime_candidate) bmap \<Rightarrow> string \<Rightarrow> string option" where
  "member_route_of p members cid =
     map_option cn_id (Option.bind (bget (ps_candidates p) cid) (\<lambda>c. bget members (member_key c)))"

definition warm_routes ::
  "pool_scheduler \<Rightarrow> (string, runtime_candidate) bmap \<Rightarrow> string option \<Rightarrow> string list \<Rightarrow> string list" where
  "warm_routes p members preferred others =
     fold (\<lambda>cid warm. case member_route_of p members cid of None \<Rightarrow> warm
       | Some route \<Rightarrow> if preferred \<noteq> Some route \<and> route \<notin> set warm then warm @ [route] else warm)
       others []"

definition lookup_owner :: "string option \<Rightarrow> u64 \<Rightarrow> affinity_cache \<Rightarrow> string option \<times> affinity_cache" where
  "lookup_owner key now_ms cache =
     (case key of None \<Rightarrow> (None, cache) | Some k \<Rightarrow> affinity_get k now_ms cache)"

definition rotation_request_from_synced_state ::
  "request_id \<Rightarrow> pool_scheduler \<Rightarrow> selection_request \<Rightarrow> rotation_operation \<Rightarrow>
   rotation_request option \<times> pool_scheduler" where
  "rotation_request_from_synced_state fresh p r op =
     (if ps_retired p then (None, p)
      else
        (let visible = visible_candidates p r in
         case lookup_owner (sr_response_key r) (sr_now_ms r) (ps_response_affinity p) of
           (owner, responses) \<Rightarrow>
             (let p1 = p\<lparr>ps_response_affinity := responses\<rparr> in
              if is_some_and owner (\<lambda>cid. \<not> bcontains visible cid) then (None, p1)
              else
                (let members = member_routes p1 (bkeys visible) in
                 case lookup_owner (sr_prompt_key r) (sr_now_ms r) (ps_prompt_affinity p1) of
                   (prompt_owner, prompts) \<Rightarrow>
                     (let preferred = Option.bind prompt_owner (member_route_of p1 members);
                          warm = warm_routes p1 members preferred
                            (case sr_prompt_key r of None \<Rightarrow> []
                             | Some key \<Rightarrow> warm_alternatives key (sr_now_ms r) prompts);
                          allow = (if owner = None then set (map cn_id (bvalues members))
                            else set (bkeys visible));
                          request = rotation_request_for fresh owner (sr_model r) op allow
                      in (Some (request\<lparr>req_preferred := preferred, warm_fallbacks := warm\<rparr>),
                          p1\<lparr>ps_prompt_affinity := prompts\<rparr>))))))"

definition prepare_rotation_request ::
  "request_id \<Rightarrow> pool_scheduler \<Rightarrow> selection_request \<Rightarrow> rotation_operation \<Rightarrow>
   rotation_request option \<times> pool_scheduler" where
  "prepare_rotation_request fresh p r op =
     (if ps_retired p then (None, p)
      else rotation_request_from_synced_state fresh (sync_all_rotation_candidates p) r op)"

section \<open>Lemmas: the engine's copy of a candidate\<close>

text \<open>What the engine holds of a candidate after a synchronisation: a function of the pool alone.\<close>

definition projected_rates :: "pool_scheduler \<Rightarrow> runtime_candidate \<Rightarrow> (string, rate_state) bmap" where
  "projected_rates p c = bmap_of (route_rate_syncs p c)"

definition engine_copy :: "pool_scheduler \<Rightarrow> runtime_candidate \<Rightarrow> rotation_candidate \<Rightarrow> rotation_candidate" where
  "engine_copy p c rc =
     rc\<lparr>enabled := cn_enabled c, draining := cn_draining c,
       auth := (if health_is_eligible (cn_health c) then AuthReady else AuthStateBlocked),
       quota := fst (projected_quota p c), rate := global_rate p c,
       quota_remaining_basis_points := opt_filter (\<lambda>n. 0 < n) (snd (projected_quota p c)),
       quota_observed_at_ms := opt_filter (\<lambda>_. opt_filter (\<lambda>n. 0 < n) (snd (projected_quota p c)) \<noteq> None)
         (cn_quota_updated_at_ms c),
       provider_credits_micro_units := cn_credits c,
       provider_credits_unlimited := cn_credits_unlimited c,
       provider_credits_observed_at_ms := cn_credits_observed_at_ms c,
       route_rates := projected_rates p c\<rparr>"

text \<open>A candidate whose projection the engine rejects keeps its copy but for the observations.\<close>

definition observed_copy :: "pool_scheduler \<Rightarrow> runtime_candidate \<Rightarrow> rotation_candidate \<Rightarrow> rotation_candidate" where
  "observed_copy p c old =
     old\<lparr>enabled := cn_enabled c, draining := cn_draining c,
       auth := (if health_is_eligible (cn_health c) then AuthReady else AuthStateBlocked),
       quota := fst (projected_quota p c), rate := global_rate p c,
       quota_remaining_basis_points := opt_filter (\<lambda>n. 0 < n) (snd (projected_quota p c)),
       quota_observed_at_ms := opt_filter (\<lambda>_. opt_filter (\<lambda>n. 0 < n) (snd (projected_quota p c)) \<noteq> None)
         (cn_quota_updated_at_ms c),
       provider_credits_micro_units := cn_credits c,
       provider_credits_unlimited := cn_credits_unlimited c,
       provider_credits_observed_at_ms := cn_credits_observed_at_ms c,
       route_rates := fold (\<lambda>(key, r) m. binsert key r m) (route_rate_syncs p c) (route_rates old)\<rparr>"

definition held :: "rotation_engine \<Rightarrow> string \<Rightarrow> rotation_candidate option" where
  "held e cid = map_option candidate (bget (candidates e) cid)"

lemma held_edit [simp]:
  "held (snd (edit_candidate e cid f)) k = (if k = cid then map_option f (held e cid) else held e k)"
  by (simp add: held_def edit_candidate_def split: option.split)

lemma held_sync_ops [simp]:
  "held (snd (sync_candidate_state e cid on drain a q r)) k =
     (if k = cid then map_option (\<lambda>c. c\<lparr>enabled := on, draining := drain, auth := a, quota := q, rate := r\<rparr>)
        (held e cid) else held e k)"
  "held (snd (set_quota_remaining e cid n t)) k =
     (if k = cid then map_option (\<lambda>c. c\<lparr>quota_remaining_basis_points := opt_filter (\<lambda>n. 0 < n) n,
          quota_observed_at_ms := opt_filter (\<lambda>_. opt_filter (\<lambda>n. 0 < n) n \<noteq> None) t\<rparr>)
        (held e cid) else held e k)"
  "held (snd (set_provider_credits e cid credits unlimited at)) k =
     (if k = cid then map_option (\<lambda>c. c\<lparr>provider_credits_micro_units := credits,
          provider_credits_unlimited := unlimited, provider_credits_observed_at_ms := at\<rparr>)
        (held e cid) else held e k)"
  "held (snd (sync_candidate_route_rate e cid key r)) k =
     (if k = cid then map_option (\<lambda>c. c\<lparr>route_rates := binsert key r (route_rates c)\<rparr>) (held e cid)
      else held e k)"
  by (simp_all add: sync_candidate_state_def set_quota_remaining_def set_provider_credits_def
      sync_candidate_route_rate_def Let_def)

lemma held_route_syncs:
  "held (fold (\<lambda>(key, r) e. snd (sync_candidate_route_rate e cid key r)) xs e) k =
     (if k = cid then map_option (\<lambda>c. c\<lparr>route_rates :=
          fold (\<lambda>(key, r) m. binsert key r m) xs (route_rates c)\<rparr>) (held e cid)
      else held e k)"
proof (induction xs arbitrary: e)
  case Nil
  show ?case by (cases "held e cid") simp_all
next
  case (Cons x xs)
  then show ?case by (cases x) (simp add: option.map_comp comp_def)
qed

text \<open>A loop of inserts forgets what it covers.\<close>

lemma bget_fold_insert:
  "bget (fold (\<lambda>(key, r) m. binsert key r m) xs base) k =
     (case map_of (rev xs) k of None \<Rightarrow> bget base k | Some r \<Rightarrow> Some r)"
proof (induction xs arbitrary: base)
  case (Cons x xs)
  then show ?case by (cases x) (auto simp: map_add_def split: option.split)
qed simp

lemma fold_insert_covers:
  assumes "\<And>k. bget base k \<noteq> None \<Longrightarrow> k \<in> fst ` set xs"
  shows "fold (\<lambda>(key, r) m. binsert key r m) xs base = bmap_of xs"
proof (rule bmap_eqI)
  fix k
  have "map_of (rev xs) k = None \<Longrightarrow> bget base k = None"
    using assms [of k] by (auto simp: map_of_eq_None_iff)
  then show "bget (fold (\<lambda>(key, r) m. binsert key r m) xs base) k = bget (bmap_of xs) k"
    by (simp add: bget_fold_insert bmap_of_def split: option.split)
qed

definition route_keys :: "runtime_candidate \<Rightarrow> string set" where
  "route_keys c = {rotation_route_key m op | m op. bcontains (cn_models c) m \<and> op \<noteq> OpMetadata}"

lemma keys_route_rate_syncs: "fst ` set (route_rate_syncs p c) = route_keys c"
proof -
  have "rotation_route_key m op \<in> fst ` set (route_rate_syncs p c)"
    if "bcontains (cn_models c) m" "op \<noteq> OpMetadata" for m op
  proof -
    have "m \<in> set (bkeys (cn_models c))" using that(1) by (simp add: in_bkeys bcontains_iff)
    moreover have "op \<in> set [OpText, OpCompaction, OpImage]" using that(2) by (cases op) simp_all
    ultimately show ?thesis by (force simp: route_rate_syncs_def)
  qed
  moreover have "k \<in> route_keys c" if "k \<in> fst ` set (route_rate_syncs p c)" for k
    using that unfolding route_keys_def route_rate_syncs_def
    by (auto simp: in_bkeys bcontains_iff) blast+
  ultimately show ?thesis unfolding route_keys_def by blast
qed

text \<open>The routes of the projection are keys of its models; nothing else of it depends on the loop.\<close>

definition routes_within :: "string set \<Rightarrow> rotation_candidate \<Rightarrow> bool" where
  "routes_within K rc \<longleftrightarrow>
     (\<forall>k. bget (routes rc) k \<noteq> None \<longrightarrow> k \<in> K) \<and> (\<forall>k. bget (route_rates rc) k \<noteq> None \<longrightarrow> k \<in> K)"

lemma add_route_within:
  "routes_within K rc \<Longrightarrow> key \<in> K \<Longrightarrow> routes_within K (add_route rc key model op)"
  by (auto simp: routes_within_def add_route_def split: option.split)

lemma add_model_routes_within:
  assumes "routes_within K rc" and "\<And>op. op \<noteq> OpMetadata \<Longrightarrow> rotation_route_key model op \<in> K"
  shows "routes_within K (add_model_routes c model rc)"
  using assms by (simp add: add_model_routes_def Let_def add_route_within)

lemma add_model_routes_id [simp]: "rc_id (add_model_routes c model rc) = rc_id rc"
  by (simp add: add_model_routes_def add_route_def Let_def)

lemma fold_model_routes_id [simp]: "rc_id (fold (add_model_routes c) ms rc) = rc_id rc"
  by (induction ms arbitrary: rc) simp_all

lemma fold_model_routes_within:
  "routes_within (route_keys c) rc \<Longrightarrow> (\<And>m. m \<in> set ms \<Longrightarrow> bcontains (cn_models c) m) \<Longrightarrow>
   routes_within (route_keys c) (fold (add_model_routes c) ms rc)"
proof (induction ms arbitrary: rc)
  case (Cons m ms)
  have "routes_within (route_keys c) (add_model_routes c m rc)"
    using Cons.prems by (intro add_model_routes_within) (auto simp: route_keys_def)
  then show ?case using Cons by simp
qed simp

lemma project_candidate_Some:
  assumes "project_candidate p c = Some rc"
  shows "rc_id rc = cn_id c" and "routes_within (route_keys c) rc"
proof -
  obtain rc0 where rc: "rc = fold (add_model_routes c) (bkeys (cn_models c)) rc0"
    "rc_id rc0 = cn_id c" "routes rc0 = bempty" "route_rates rc0 = bempty"
    using assms by (auto simp: project_candidate_def new_candidate_def split: list.splits)
  show "rc_id rc = cn_id c" using rc by simp
  have "routes_within (route_keys c) rc0" using rc by (simp add: routes_within_def)
  then show "routes_within (route_keys c) rc"
    unfolding rc(1) by (rule fold_model_routes_within) (simp add: in_bkeys bcontains_iff)
qed

lemma fold_or_insert_keys:
  "bget (fold (or_insert v) ks m) k \<noteq> None \<longleftrightarrow> k \<in> set ks \<or> bget m k \<noteq> None"
  by (induction ks arbitrary: m) (auto simp: or_insert_def split: option.splits if_splits)

lemma update_member_held:
  "bget (candidates e) (rc_id new) = Some runtime \<Longrightarrow>
   held (update_member e runtime new) k =
     (if k = rc_id new then Some (keep_observations (candidate runtime) new) else held e k)"
  by (simp add: held_def update_member_def Let_def)

lemma recompute_held [simp]:
  "held (recompute_capacity_limit key e) k = held e k"
  "held (prune_round_robin_cursors e) k = held e k"
  by (simp_all add: held_def)

lemma upsert_other: "k \<noteq> rc_id rc \<Longrightarrow> held (snd (upsert e rc)) k = held e k"
  by (auto simp: upsert_def Let_def update_member_held held_def [of "e\<lparr>next_candidate_generation := _,
      candidate_generations := _, candidates := _\<rparr>"] held_def [of e] split: sum.split option.split)

lemma upsert_held:
  assumes "validate rc = Inr ()"
    and "held e (rc_id rc) \<noteq> None \<or> checked_add (next_candidate_generation e) 1 \<noteq> None"
  shows "held (snd (upsert e rc)) (rc_id rc) =
    Some (case held e (rc_id rc) of Some old \<Rightarrow> keep_observations old rc | None \<Rightarrow> rc)"
proof (cases "bget (candidates e) (rc_id rc)")
  case (Some runtime)
  then show ?thesis
    using assms(1) by (simp add: upsert_def Let_def update_member_held held_def [of e])
next
  case None
  then obtain g where "checked_add (next_candidate_generation e) 1 = Some g"
    using assms(2) by (auto simp: held_def)
  with None assms(1) show ?thesis
    by (simp add: upsert_def Let_def held_def)
qed

lemma upsert_generation:
  "unat (next_candidate_generation (snd (upsert e rc))) \<le> Suc (unat (next_candidate_generation e))"
proof -
  have "unat g = Suc (unat (next_candidate_generation e))"
    if "checked_add (next_candidate_generation e) 1 = Some g" for g
    using checked_add_unat [OF that] by simp
  then show ?thesis
    by (auto simp: upsert_def Let_def update_member_def split: sum.split option.split)
qed

lemma edit_generation [simp]:
  "next_candidate_generation (snd (edit_candidate e cid f)) = next_candidate_generation e"
  by (simp add: edit_candidate_def split: option.split)

lemma sync_ops_generation [simp]:
  "next_candidate_generation (snd (sync_candidate_state e cid on drain a q r)) = next_candidate_generation e"
  "next_candidate_generation (snd (set_quota_remaining e cid n t)) = next_candidate_generation e"
  "next_candidate_generation (snd (set_provider_credits e cid credits unlimited at)) = next_candidate_generation e"
  "next_candidate_generation (snd (sync_candidate_route_rate e cid key r)) = next_candidate_generation e"
  by (simp_all add: sync_candidate_state_def set_quota_remaining_def set_provider_credits_def
      sync_candidate_route_rate_def Let_def)

lemma route_syncs_generation [simp]:
  "next_candidate_generation (fold (\<lambda>(key, r) e. snd (sync_candidate_route_rate e cid key r)) xs e)
     = next_candidate_generation e"
  by (induction xs arbitrary: e) auto

section \<open>Lemmas: synchronisation\<close>

lemma sync_candidate_other: "k \<noteq> cn_id c \<Longrightarrow> held (sync_candidate p c e) k = held e k"
  using project_candidate_Some(1) [of p c]
  by (simp add: sync_candidate_def Let_def held_route_syncs upsert_other split: option.split)

lemma sync_candidate_generation:
  "unat (next_candidate_generation (sync_candidate p c e)) \<le> Suc (unat (next_candidate_generation e))"
  using upsert_generation by (simp add: sync_candidate_def Let_def split: option.split)

lemma keep_observations_rates:
  assumes "routes_within K rc" and "bget (route_rates (keep_observations old rc)) k \<noteq> None"
  shows "k \<in> K"
proof -
  have "k \<in> set (bkeys (routes rc)) \<or> bcontains (routes rc) k"
    using assms(2) unfolding keep_observations_def
    by (simp add: fold_or_insert_keys del: not_None_eq split: option.splits if_splits)
  then show ?thesis using assms(1) by (auto simp: routes_within_def in_bkeys bcontains_iff)
qed

lemma engine_copy_absorbs:
  "engine_copy p c (keep_observations old rc) = engine_copy p c rc"
  by (simp add: engine_copy_def keep_observations_def)

lemma sync_candidate_held:
  assumes "project_candidate p c = Some rc" and "validate rc = Inr ()" "cn_id c \<notin> ps_retired_candidates p"
    and "held e (cn_id c) \<noteq> None \<or> checked_add (next_candidate_generation e) 1 \<noteq> None"
  shows "held (sync_candidate p c e) (cn_id c) = Some (engine_copy p c rc)"
proof -
  note rc = project_candidate_Some [OF assms(1)]
  define new where "new = (case held e (cn_id c) of Some old \<Rightarrow> keep_observations old rc | None \<Rightarrow> rc)"
  have up: "held (snd (upsert e rc)) (cn_id c) = Some new"
    using upsert_held [OF assms(2), of e] assms(4) rc(1) by (simp add: new_def)
  have "k \<in> fst ` set (route_rate_syncs p c)" if "bget (route_rates new) k \<noteq> None" for k
    using that rc(2) keep_observations_rates [OF rc(2)]
    by (auto simp: new_def keys_route_rate_syncs routes_within_def split: option.splits)
  then have rates: "fold (\<lambda>(key, r) m. binsert key r m) (route_rate_syncs p c) (route_rates new)
      = projected_rates p c"
    unfolding projected_rates_def by (rule fold_insert_covers)
  have "held (sync_candidate p c e) (cn_id c) = Some (engine_copy p c new)"
    using assms(1,3) rc(1)
    by (simp add: sync_candidate_def Let_def held_route_syncs up rates) (simp add: engine_copy_def)
  also have "engine_copy p c new = engine_copy p c rc"
    by (simp add: new_def engine_copy_absorbs split: option.split)
  finally show ?thesis .
qed

lemma sync_candidate_untouched:
  "cn_id c \<in> ps_retired_candidates p \<or> project_candidate p c = None \<Longrightarrow> sync_candidate p c e = e"
  by (auto simp: sync_candidate_def)

lemma sync_candidate_invalid:
  assumes "project_candidate p c = Some rc" and "validate rc \<noteq> Inr ()" "cn_id c \<notin> ps_retired_candidates p"
  shows "held (sync_candidate p c e) (cn_id c) = map_option (observed_copy p c) (held e (cn_id c))"
proof -
  have "snd (upsert e rc) = e" using assms(2) by (simp add: upsert_def split: sum.split)
  then show ?thesis
    using assms(1,3) project_candidate_Some(1) [OF assms(1)]
    by (cases "held e (cn_id c)") (simp_all add: sync_candidate_def Let_def held_route_syncs observed_copy_def)
qed

lemma fold_sync_other:
  "k \<notin> cn_id ` set cs \<Longrightarrow> held (fold (sync_candidate p) cs e) k = held e k"
  by (induction cs arbitrary: e) (auto simp: sync_candidate_other)

lemma fold_sync_one:
  assumes "distinct (map cn_id cs)" and "c \<in> set cs"
    and "unat (next_candidate_generation e) + length cs < 2 ^ 64"
  obtains e' where "held e' (cn_id c) = held e (cn_id c)" "checked_add (next_candidate_generation e') 1 \<noteq> None"
    "held (fold (sync_candidate p) cs e) (cn_id c) = held (sync_candidate p c e') (cn_id c)"
proof -
  have "\<exists>e'. held e' (cn_id c) = held e (cn_id c) \<and> checked_add (next_candidate_generation e') 1 \<noteq> None \<and>
    held (fold (sync_candidate p) cs e) (cn_id c) = held (sync_candidate p c e') (cn_id c)"
    using assms
  proof (induction cs arbitrary: e)
    case (Cons d ds)
    show ?case
    proof (cases "c = d")
      case True
      have "checked_add (next_candidate_generation e) 1 \<noteq> None"
        using Cons.prems(3) by (simp add: checked_add_def)
      moreover have "cn_id c \<notin> cn_id ` set ds" using Cons.prems(1) True by auto
      ultimately show ?thesis using True by (intro exI [of _ e]) (simp add: fold_sync_other)
    next
      case False
      then have "c \<in> set ds" using Cons.prems(2) by simp
      moreover from this have "cn_id c \<noteq> cn_id d" using Cons.prems(1) by (metis distinct.simps(2) imageI list.simps(9) list.set_map)
      ultimately show ?thesis
        using Cons.IH [of "sync_candidate p d e"] Cons.prems(1,3) sync_candidate_generation [of p d e]
        by (simp add: sync_candidate_other)
    qed
  qed simp
  then show ?thesis using that by blast
qed

lemma remove_held [simp]:
  "held (snd (remove_candidate e cid)) k = (if k = cid then None else held e k)"
  by (simp add: remove_candidate_def held_def split: option.split)

lemma fold_remove_held:
  "held (fold (\<lambda>cid e. snd (remove_candidate e cid)) ids e) k = (if k \<in> set ids then None else held e k)"
  by (induction ids arbitrary: e) auto

definition pool_keyed :: "pool_scheduler \<Rightarrow> bool" where
  "pool_keyed p \<longleftrightarrow> (\<forall>cid c. bget (ps_candidates p) cid = Some c \<longrightarrow> cn_id c = cid)"

lemma pool_keyed_ids: "pool_keyed p \<Longrightarrow> map cn_id (bvalues (ps_candidates p)) = bkeys (ps_candidates p)"
  by (rule map_bvalues_keys) (simp add: pool_keyed_def)

section \<open>Properties\<close>

text \<open>C34: What the engine holds of every candidate after a synchronisation.  A configured candidate
  with a valid projection is there with exactly the projected routes, limits, quota, credits, rates
  and authorisation, whatever the engine held before.  One with an invalid projection keeps the copy
  the engine had, with the observations of the pool.  A retired candidate, one without a model, and
  one that is only leased keep their copy unchanged; every other candidate is gone.  Pool and engine
  stay below \<open>2 ^ 64\<close> registrations.\<close>

theorem synchronisation_exact:
  assumes "pool_keyed p"
    and "unat (next_candidate_generation (ps_rotation p)) + bsize (ps_candidates p) < 2 ^ 64"
  shows "held (sync_engine p) cid =
    (case bget (ps_candidates p) cid of
       None \<Rightarrow> if cid \<in> leased_candidates p then held (ps_rotation p) cid else None
     | Some c \<Rightarrow>
         if cid \<in> ps_retired_candidates p then held (ps_rotation p) cid
         else (case project_candidate p c of
             None \<Rightarrow> held (ps_rotation p) cid
           | Some rc \<Rightarrow>
               if validate rc = Inr () then Some (engine_copy p c rc)
               else map_option (observed_copy p c) (held (ps_rotation p) cid)))"
proof -
  define e1 where "e1 = set_quota_stale_after_ms (ps_rotation p) (ps_quota_stale_after_ms p)"
  define e2 where "e2 = fold (sync_candidate p) (bvalues (ps_candidates p)) e1"
  have sync: "sync_engine p = fold (\<lambda>cid e. snd (remove_candidate e cid)) (stale_candidates p e2) e2"
    by (simp add: sync_engine_def e1_def e2_def Let_def)
  have gen: "unat (next_candidate_generation e1) + length (bvalues (ps_candidates p)) < 2 ^ 64"
    using assms(2) by (simp add: e1_def set_quota_stale_after_ms_def bsize_def bvalues_def)
  have start: "held e1 k = held (ps_rotation p) k" for k
    by (simp add: e1_def set_quota_stale_after_ms_def held_def)
  have ids: "map cn_id (bvalues (ps_candidates p)) = bkeys (ps_candidates p)"
    by (rule pool_keyed_ids [OF assms(1)])
  show ?thesis
  proof (cases "bget (ps_candidates p) cid")
    case None
    then have "cid \<notin> set (map cn_id (bvalues (ps_candidates p)))" by (simp only: ids in_bkeys) simp
    then have "cid \<notin> cn_id ` set (bvalues (ps_candidates p))" by simp
    then have "held e2 cid = held (ps_rotation p) cid" by (simp add: e2_def fold_sync_other start)
    moreover have "cid \<in> set (stale_candidates p e2) \<longleftrightarrow> cid \<notin> leased_candidates p \<and> held e2 cid \<noteq> None"
      using None by (auto simp: stale_candidates_def bcontains_def in_bkeys held_def)
    ultimately show ?thesis using None by (auto simp: sync fold_remove_held)
  next
    case (Some c)
    have cid: "cn_id c = cid" using assms(1) Some by (simp add: pool_keyed_def)
    have listed: "c \<in> set (bvalues (ps_candidates p))" using Some by (auto simp: in_bvalues)
    have "distinct (map cn_id (bvalues (ps_candidates p)))" by (simp add: ids)
    from fold_sync_one [OF this listed gen]
    obtain e' where e1': "held e' (cn_id c) = held e1 (cn_id c)" "checked_add (next_candidate_generation e') 1 \<noteq> None"
      "held (fold (sync_candidate p) (bvalues (ps_candidates p)) e1) (cn_id c) = held (sync_candidate p c e') (cn_id c)"
      by blast
    then have e': "held e' cid = held (ps_rotation p) cid" "held e2 cid = held (sync_candidate p c e') cid"
      by (simp_all add: cid start e2_def)
    have "cid \<notin> set (stale_candidates p e2)" using Some by (simp add: stale_candidates_def bcontains_def)
    then have "held (sync_engine p) cid = held (sync_candidate p c e') cid" by (simp add: sync fold_remove_held e'(2))
    then show ?thesis
      using Some cid e' e1'(2) sync_candidate_held [of p c _ e'] sync_candidate_invalid [of p c _ e']
        sync_candidate_untouched [of c p e']
      by (auto split: option.split)
  qed
qed

end
