(* ===== verification/PoolLifecycle.thy ===== *)
theory PoolLifecycle
  imports Projection
begin

text \<open>
  Reservations of the pool and their way through the rotation engine
  (\<open>selection/reservations.rs\<close>, \<open>selection/lifecycle.rs\<close>).  A reservation holds the activity of one
  request; the rotation lease beside it is taken away by its settlement, before the reservation is
  released.  \<open>now\<close> is the instant of the monotonic clock, \<open>wall_ms\<close> the wall clock read by
  \<open>unix_time_ms\<close>.
\<close>

section \<open>Reservations\<close>

definition reservations_reserve ::
  "reservation \<Rightarrow> reservations \<Rightarrow> reservation_id option \<times> reservations" where
  "reservations_reserve r rs =
     (case checked_add (next_id rs) 1 of None \<Rightarrow> (None, rs)
      | Some rid \<Rightarrow> (Some rid, rs\<lparr>next_id := rid, active := binsert rid r (active rs)\<rparr>))"

definition reservations_release ::
  "reservation_id \<Rightarrow> reservations \<Rightarrow> reservation option \<times> reservations" where
  "reservations_release rid rs = (bget (active rs) rid, rs\<lparr>active := bremove rid (active rs)\<rparr>)"

definition lane_allows :: "pool_scheduler \<Rightarrow> runtime_candidate \<Rightarrow> in_flight_lane \<Rightarrow> bool" where
  "lane_allows p c lane =
     (if \<not> member_capacity_allows p c then False
      else if cn_kind c \<noteq> OAuthAccount \<or> lane = TextLane then True
      else in_flight_count (cn_id c) ImageLane (ps_activity p) < MAX_OAUTH_IMAGE_IN_FLIGHT)"

definition prepared_request ::
  "request_id \<Rightarrow> request_id option \<Rightarrow> string \<Rightarrow> string \<Rightarrow> rotation_operation \<Rightarrow>
   rotation_request option \<Rightarrow> rotation_request" where
  "prepared_request fresh request_id cid model op given =
     (let request = (case given of Some r \<Rightarrow> r
            | None \<Rightarrow> rotation_request_for (unwrap_or request_id fresh) (Some cid) model op {cid})
      in case request_id of None \<Rightarrow> request | Some i \<Rightarrow> request\<lparr>req_id := i\<rparr>)"

definition hold_reservation ::
  "reservation_id \<Rightarrow> reservation \<Rightarrow> rotation_lease \<Rightarrow> pool_scheduler \<Rightarrow> pool_scheduler" where
  "hold_reservation rid r lease p =
     p\<lparr>ps_member_activity :=
         activity_reserve (rsv_member_key r) (rsv_model r) (rsv_lane r) (ps_member_activity p),
       ps_activity :=
         activity_reserve (rsv_candidate_id r) (rsv_model r) (rsv_lane r) (ps_activity p),
       ps_rotation_leases := binsert rid lease (ps_rotation_leases p)\<rparr>"

definition reserve_request_with_operation ::
  "request_id \<Rightarrow> pool_scheduler \<Rightarrow> string \<Rightarrow> string \<Rightarrow> u64 \<Rightarrow> bool \<Rightarrow> rotation_operation \<Rightarrow>
   request_id option \<Rightarrow> rotation_request option \<Rightarrow> reservation_id option \<times> pool_scheduler" where
  "reserve_request_with_operation fresh p cid model now_ms is_image op request_id given =
     (if ps_retired p then (None, p)
      else
        (let lane = (if is_image then ImageLane else TextLane) in
         case bget (ps_candidates p) cid of None \<Rightarrow> (None, p)
         | Some c \<Rightarrow>
           if \<not> lane_allows p c lane then (None, p)
           else
             (let p1 = sync_all_rotation_candidates p in
              case reserve (ps_rotation p1) (prepared_request fresh request_id cid model op given) now_ms of
                (Inl _, e) \<Rightarrow> (None, p1\<lparr>ps_rotation := e\<rparr>)
              | (Inr lease, e) \<Rightarrow>
                  if rl_candidate_id lease \<noteq> cid
                  then (None, p1\<lparr>ps_rotation := snd (release_unstarted e (rl_lease_id lease))\<rparr>)
                  else
                    (let r = \<lparr>rsv_candidate_id = cid, rsv_member_key = member_key c,
                           rsv_model = model, rsv_lane = lane\<rparr>
                     in case reservations_reserve r (ps_reservations p1) of
                          (None, _) \<Rightarrow>
                            (None, p1\<lparr>ps_rotation := snd (release_unstarted e (rl_lease_id lease))\<rparr>)
                        | (Some rid, rs) \<Rightarrow>
                            (Some rid, hold_reservation rid r lease
                               (p1\<lparr>ps_rotation := e, ps_reservations := rs\<rparr>))))))"

definition record_reservation_dispatch ::
  "reservation_id \<Rightarrow> u64 \<Rightarrow> pool_scheduler \<Rightarrow> pool_scheduler" where
  "record_reservation_dispatch rid wall_ms p =
     (case bget (active (ps_reservations p)) rid of None \<Rightarrow> p
      | Some r \<Rightarrow>
          p\<lparr>ps_activity := record_dispatch (rsv_candidate_id r) (rsv_lane r) (ps_activity p),
            ps_member_activity := record_dispatch (rsv_member_key r) (rsv_lane r) (ps_member_activity p),
            ps_candidates := bmodify (rsv_candidate_id r) (\<lambda>c. c\<lparr>cn_last_used_at := Some wall_ms\<rparr>)
              (ps_candidates p)\<rparr>)"

definition release_rotation_unstarted ::
  "pool_scheduler \<Rightarrow> reservation_id \<Rightarrow> bool \<times> pool_scheduler" where
  "release_rotation_unstarted p rid =
     (case bget (ps_rotation_leases p) rid of None \<Rightarrow> (False, p)
      | Some lease \<Rightarrow>
          (case release_unstarted (ps_rotation p) (rl_lease_id lease) of (released, e) \<Rightarrow>
             (released, p\<lparr>ps_rotation := e,
                ps_rotation_leases := (if released then bremove rid (ps_rotation_leases p)
                  else ps_rotation_leases p)\<rparr>)))"

text \<open>What a reservation that is let go gives back.\<close>

definition drop_reservation :: "reservation_id \<Rightarrow> reservation \<Rightarrow> pool_scheduler \<Rightarrow> pool_scheduler" where
  "drop_reservation rid r p =
     p\<lparr>ps_reservations := snd (reservations_release rid (ps_reservations p)),
       ps_activity :=
         snd (activity_release (rsv_candidate_id r) (Some (rsv_model r)) (rsv_lane r) (ps_activity p)),
       ps_member_activity :=
         snd (activity_release (rsv_member_key r) (Some (rsv_model r)) (rsv_lane r)
           (ps_member_activity p))\<rparr>"

definition release_reservation :: "pool_scheduler \<Rightarrow> reservation_id \<Rightarrow> bool \<times> pool_scheduler" where
  "release_reservation p rid =
     (case (if bcontains (ps_rotation_leases p) rid then release_rotation_unstarted p rid else (True, p)) of
        (False, p1) \<Rightarrow> (False, p1)
      | (True, p1) \<Rightarrow>
          (case fst (reservations_release rid (ps_reservations p1)) of
             None \<Rightarrow> (False, p1\<lparr>ps_reservations := snd (reservations_release rid (ps_reservations p1))\<rparr>)
           | Some r \<Rightarrow> (True, finalize_retired_if_idle (rsv_candidate_id r) (drop_reservation rid r p1))))"

section \<open>Reading the activity\<close>

definition pool_in_flight_count :: "pool_scheduler \<Rightarrow> string \<Rightarrow> in_flight_lane \<Rightarrow> u32" where
  "pool_in_flight_count p cid lane = in_flight_count cid lane (ps_activity p)"

definition pool_active_request_count :: "pool_scheduler \<Rightarrow> string \<Rightarrow> u32" where
  "pool_active_request_count p cid = active_request_count cid (ps_activity p)"

definition pool_active_models_for :: "pool_scheduler \<Rightarrow> string \<Rightarrow> (string \<times> u32) list" where
  "pool_active_models_for p cid = active_models_for cid (ps_activity p)"

definition runtime_activity_for :: "pool_scheduler \<Rightarrow> string \<Rightarrow> u32 \<times> u32 \<times> (string \<times> u32) list" where
  "runtime_activity_for p cid =
     (pool_in_flight_count p cid TextLane, pool_active_request_count p cid, pool_active_models_for p cid)"

definition pool_dispatch_count :: "pool_scheduler \<Rightarrow> string \<Rightarrow> in_flight_lane \<Rightarrow> u64" where
  "pool_dispatch_count p cid lane = dispatch_count cid lane (ps_activity p)"

section \<open>Dispatch and settlement\<close>

definition begin_rotation_dispatch ::
  "pool_scheduler \<Rightarrow> reservation_id \<Rightarrow> request_budget \<Rightarrow> instant \<Rightarrow> u64 \<Rightarrow>
   (dispatch_start_error + attempt_id) \<times> pool_scheduler \<times> request_budget" where
  "begin_rotation_dispatch p rid b now wall_ms =
     (if ps_retired p then (Inl DispatchCandidateChanged, p, b)
      else
        (let p1 = sync_all_rotation_candidates p in
         case bget (ps_rotation_leases p1) rid of None \<Rightarrow> (Inl DispatchUnknownLease, p1, b)
         | Some lease \<Rightarrow>
             (case begin_transport_dispatch (ps_rotation p1) (rl_lease_id lease) b now of
                (Inl err, e, b') \<Rightarrow> (Inl err, p1\<lparr>ps_rotation := e\<rparr>, b')
              | (Inr attempt, e, b') \<Rightarrow>
                  (Inr attempt, record_reservation_dispatch rid wall_ms (p1\<lparr>ps_rotation := e\<rparr>), b'))))"

definition circuit_state_for :: "pool_scheduler \<Rightarrow> string \<Rightarrow> string \<Rightarrow> u32 \<times> u64 option" where
  "circuit_state_for p cid model =
     (let states = map (\<lambda>op. circuit_of (ps_rotation p) cid (rotation_route_key model op))
            [OpText, OpImage, OpCompaction]
      in (unwrap_or (list_max (map snap_failure_streak states)) 0,
          list_max (List.map_filter snap_not_before_ms states)))"

definition settle_rotation_with_latency ::
  "pool_scheduler \<Rightarrow> reservation_id \<Rightarrow> attempt_observation \<Rightarrow> request_budget \<Rightarrow> u64 \<Rightarrow> u64 option \<Rightarrow>
   instant \<Rightarrow> (settlement_error + rotation_settlement) \<times> pool_scheduler" where
  "settle_rotation_with_latency p rid observation b now_ms latency now =
     (case bget (ps_rotation_leases p) rid of None \<Rightarrow> (Inl SettleUnknownLease, p)
      | Some lease \<Rightarrow>
          (case settle_with_latency (ps_rotation p) (rl_lease_id lease) observation b now_ms latency now of
             (Inl err, e) \<Rightarrow> (Inl err, p\<lparr>ps_rotation := e\<rparr>)
           | (Inr settlement, e) \<Rightarrow>
               (Inr settlement, p\<lparr>ps_rotation := e,
                  ps_rotation_leases := bremove rid (ps_rotation_leases p)\<rparr>)))"

definition cancel_rotation ::
  "pool_scheduler \<Rightarrow> reservation_id \<Rightarrow> request_budget \<Rightarrow> u64 \<Rightarrow> instant \<Rightarrow>
   (settlement_error + rotation_settlement) \<times> pool_scheduler" where
  "cancel_rotation p rid b now_ms now =
     (case bget (ps_rotation_leases p) rid of None \<Rightarrow> (Inl SettleUnknownLease, p)
      | Some lease \<Rightarrow>
          (case cancel (ps_rotation p) (rl_lease_id lease) b now_ms now of
             (Inl err, e) \<Rightarrow> (Inl err, p\<lparr>ps_rotation := e\<rparr>)
           | (Inr settlement, e) \<Rightarrow>
               (Inr settlement, p\<lparr>ps_rotation := e,
                  ps_rotation_leases := bremove rid (ps_rotation_leases p)\<rparr>)))"

end
