(* ===== verification/CacheAffinity.thy ===== *)
theory CacheAffinity
  imports Selection
begin

text \<open>
  The cache affinity evidence of a selection (\<open>scheduler/rotation/cache_affinity.rs\<close> and
  \<open>scheduler/rotation/engine/admission/cache_affinity.rs\<close>): why the member that holds a warm prompt
  cache was kept or left.  The diagnostics struct that the code mutates is passed through and
  returned.  The properties show that the report is sound: the reason it gives is backed by the
  figures it carries.
\<close>

section \<open>Data\<close>

datatype cache_affinity_selection = Preferred | WarmAlternative | OtherMember

datatype cache_affinity_reason =
    CacheRetained | NoBinding | RoutingPolicy | ResponseOwner | OwnerUnavailable | RecoveryProbe
  | ParallelLoad | CacheQuotaHeadroom | CacheProviderCredits | CacheHealth

record cache_affinity_member =
  cm_quota_remaining :: "u64 option"
  cm_provider_credits :: "u64 option"
  cm_credits_unlimited :: bool
  cm_in_flight :: u32
  cm_effective_capacity :: u32

record cache_affinity_diagnostics =
  ca_selection :: cache_affinity_selection
  ca_reason :: cache_affinity_reason
  owner_block_reason :: "block_reason option"
  ca_preferred :: "cache_affinity_member option"
  ca_selected :: cache_affinity_member
  best_quota_remaining :: "u64 option"
  best_provider_credits :: "u64 option"
  best_credits_unlimited :: bool
  quota_margin :: u64
  credit_margin :: u64
  load_allowance :: u32

section \<open>Operations\<close>

definition cache_affinity_member_of ::
  "rotation_engine \<Rightarrow> string \<Rightarrow> u64 \<Rightarrow> cache_affinity_member option" where
  "cache_affinity_member_of e cid now_ms =
     map_option (\<lambda>runtime.
       let credits = fresh_provider_credits e cid now_ms; key = capacity_key (candidate runtime) in
       \<lparr>cm_quota_remaining = fresh_quota_remaining e cid now_ms,
        cm_provider_credits = opt_filter (\<lambda>value. value \<noteq> - 1) credits,
        cm_credits_unlimited = (credits = Some (- 1)),
        cm_in_flight = capacity_in_flight e key,
        cm_effective_capacity = effective_capacity_of e key\<rparr>) (bget (candidates e) cid)"

definition cache_affinity_filter_reason ::
  "rotation_engine \<Rightarrow> rotation_request \<Rightarrow> string \<Rightarrow> u64 \<Rightarrow> cache_affinity_diagnostics \<Rightarrow>
   cache_affinity_reason \<times> cache_affinity_diagnostics" where
  "cache_affinity_filter_reason e request preferred now_ms d =
     (let ready = fst (selection_candidates e request now_ms);
          has = (\<lambda>pool. list_ex (\<lambda>r. ready_id r = preferred) pool) in
      if list_ex ready_recovery ready then (RecoveryProbe, d)
      else
        (let load_group = cache_aware_load_group ready request;
             best = list_max
               (List.map_filter (\<lambda>r. fresh_quota_remaining e (ready_id r) now_ms) load_group);
             credits = list_max
               (List.map_filter (\<lambda>r. fresh_provider_credits e (ready_id r) now_ms) load_group);
             d' = d\<lparr>best_quota_remaining := best,
                    best_credits_unlimited := (credits = Some (- 1)),
                    best_provider_credits := opt_filter (\<lambda>value. value \<noteq> - 1) credits\<rparr>
         in if \<not> has load_group then (ParallelLoad, d')
            else
              (let resources = resource_group e load_group request now_ms in
               if \<not> has resources then
                 (if best \<noteq> None then CacheQuotaHeadroom else CacheProviderCredits, d')
               else if \<not> has (soft_health_group resources) then (CacheHealth, d')
               else (RoutingPolicy, d'))))"

definition cache_affinity_diagnostics_of ::
  "rotation_engine \<Rightarrow> rotation_request \<Rightarrow> string option \<Rightarrow> string \<Rightarrow> u64 \<Rightarrow>
   cache_affinity_diagnostics option" where
  "cache_affinity_diagnostics_of e request preferred selected now_ms =
     Option.bind (cache_affinity_member_of e selected now_ms) (\<lambda>selected_member.
       let d = \<lparr>ca_selection =
                  (if preferred = Some selected then Preferred
                   else if list_ex (\<lambda>cid. cid = selected) (warm_fallbacks request)
                   then WarmAlternative else OtherMember),
                ca_reason = NoBinding, owner_block_reason = None,
                ca_preferred =
                  Option.bind preferred (\<lambda>cid. cache_affinity_member_of e cid now_ms),
                ca_selected = selected_member,
                best_quota_remaining = None, best_provider_credits = None,
                best_credits_unlimited = False,
                quota_margin =
                  (case preferred of None \<Rightarrow> QUOTA_SWITCH_MARGIN_BASIS_POINTS
                   | Some cid \<Rightarrow> quota_switch_margin e request cid),
                credit_margin = PROVIDER_CREDIT_SWITCH_MARGIN_MICRO_UNITS,
                load_allowance = CACHE_AFFINITY_EXTRA_REQUESTS\<rparr>
       in case preferred of None \<Rightarrow> Some d
          | Some owner \<Rightarrow>
              Some (if owner = selected then d\<lparr>ca_reason := CacheRetained\<rparr>
                else if req_owner request \<noteq> None then d\<lparr>ca_reason := ResponseOwner\<rparr>
                else if mode e \<noteq> Automatic then d\<lparr>ca_reason := RoutingPolicy\<rparr>
                else case candidate_availability e request owner now_ms of
                    AvBlocked reason \<Rightarrow>
                      d\<lparr>owner_block_reason := Some reason, ca_reason := OwnerUnavailable\<rparr>
                  | AvBusy reason \<Rightarrow>
                      d\<lparr>owner_block_reason := Some reason, ca_reason := OwnerUnavailable\<rparr>
                  | AvWaitUntil _ reason \<Rightarrow>
                      d\<lparr>owner_block_reason := Some reason, ca_reason := OwnerUnavailable\<rparr>
                  | AvReady recovering \<Rightarrow>
                      if recovering then d\<lparr>ca_reason := RecoveryProbe\<rparr>
                      else (let (reason, d') = cache_affinity_filter_reason e request owner now_ms d
                            in d'\<lparr>ca_reason := reason\<rparr>)))"

section \<open>Lemmas\<close>

lemma entry_member:
  assumes keyed: "engine_keyed e" and r: "r \<in> set (fst (selection_candidates e request now_ms))"
  obtains m where "cache_affinity_member_of e (ready_id r) now_ms = Some m"
    "cm_in_flight m = ready_in_flight r" "cm_effective_capacity m = effective_capacity r"
proof -
  obtain cid runtime where c: "bget (candidates e) cid = Some runtime"
    "ready_entry e request now_ms runtime = Some r"
    using r ready_candidate_runtime by (metis eligible_part)
  have "rc_id (candidate runtime) = cid" using keyed c(1) by (auto simp: engine_keyed_def)
  then have "bget (candidates e) (ready_id r) = Some runtime"
    using ready_entry_Some(1) [OF c(2)] c(1) by simp
  then show ?thesis using ready_entry_Some(2,6,7) [OF c(2)]
    by (intro that) (auto simp: cache_affinity_member_of_def Let_def)
qed

lemma member_reads:
  assumes "cache_affinity_member_of e cid now_ms = Some m"
  shows "cm_quota_remaining m = fresh_quota_remaining e cid now_ms"
    and "cm_provider_credits m = opt_filter (\<lambda>v. v \<noteq> - 1) (fresh_provider_credits e cid now_ms)"
    and "cm_credits_unlimited m \<longleftrightarrow> fresh_provider_credits e cid now_ms = Some (- 1)"
  using assms by (auto simp: cache_affinity_member_of_def Let_def)

lemma left_owner_outside_group:
  assumes "mode e = Automatic" and "req_owner request = None"
    and "req_preferred request = Some owner" and "select e request now_ms = Some s"
    and "sel_candidate_id s \<noteq> owner"
    and "\<forall>r \<in> set (fst (selection_candidates e request now_ms)). \<not> ready_recovery r"
  shows "owner \<notin> ready_id ` set (mode_group e (fst (selection_candidates e request now_ms))
    request now_ms)"
proof
  let ?ready = "fst (selection_candidates e request now_ms)"
  let ?pool = "mode_group e ?ready request now_ms"
  assume "owner \<in> ready_id ` set ?pool"
  moreover have "\<forall>r \<in> set ?pool. \<not> ready_recovery r" using assms(6) mode_group_part by blast
  ultimately obtain r where r: "find (\<lambda>r. \<not> ready_recovery r \<and> ready_id r = owner) ?pool = Some r"
    by (cases "find (\<lambda>r. \<not> ready_recovery r \<and> ready_id r = owner) ?pool")
      (auto simp: find_None_iff)
  have "filter ready_recovery ?ready = []" using assms(6) by (simp add: filter_empty_conv)
  then have pool: "selection_group e ?ready request now_ms = ?pool"
    by (simp add: selection_group_def)
  have "preferred_choice e request ?pool = Some r"
    using r by (simp add: preferred_choice_def assms(1-3) eq_commute [of owner])
  then have "choose_for_request e request ?pool = Some r"
    by (simp add: choose_for_request_def)
  moreover obtain r' where "choose_for_request e request ?pool = Some r'"
    "sel_candidate_id s = ready_id r'"
    using pool by (metis select_Some [OF assms(4)])
  ultimately show False using r assms(5) by (auto simp: find_Some_iff)
qed

text \<open>The owner is not in the load group: it is hidden, or it carries too much.\<close>

lemma owner_overloaded:
  assumes owner: "req_preferred request = Some owner" and x: "x \<in> set ready" "ready_id x = owner"
    and out: "owner \<notin> ready_id ` set (cache_aware_load_group ready request)"
    and ids: "distinct (map ready_id ready)" and calm: "\<forall>r \<in> set ready. \<not> ready_recovery r"
    and l: "l \<in> set (cache_aware_load_group ready request)"
    and caps: "\<forall>r \<in> set ready. 0 < effective_capacity r"
  shows "unat (ready_in_flight l) * unat (effective_capacity x)
    < (unat (ready_in_flight x) - 1) * unat (effective_capacity l)"
proof -
  have "ready \<noteq> []" using x by auto
  obtain best where best: "best \<in> set ready"
    "least_loaded_group ready = filter (\<lambda>r. compare_load r best = EqualTo) ready"
    by (rule least_loaded_least [OF caps \<open>ready \<noteq> []\<close>])
  obtain h rest where h: "least_loaded_group ready = h # rest"
    using least_loaded_nonempty [OF \<open>ready \<noteq> []\<close>] by (cases "least_loaded_group ready") auto
  have "find (\<lambda>r. \<not> ready_recovery r \<and> ready_id r = owner) ready = Some x"
  proof -
    obtain y where y: "find (\<lambda>r. \<not> ready_recovery r \<and> ready_id r = owner) ready = Some y"
      using x calm by (cases "find (\<lambda>r. \<not> ready_recovery r \<and> ready_id r = owner) ready")
        (auto simp: find_None_iff)
    then have "y \<in> set ready" "ready_id y = owner" by (auto simp: find_Some_iff)
    then have "y = x" using x ids by (auto simp: distinct_map inj_on_def)
    with y show ?thesis by simp
  qed
  then have group: "cache_aware_load_group ready request = least_loaded_group ready \<and>
      \<not> (ucast (sat_sub (ready_in_flight x) CACHE_AFFINITY_EXTRA_REQUESTS)
          * ucast (effective_capacity h) :: u64)
        \<le> ucast (ready_in_flight h) * ucast (effective_capacity x)"
    using out x owner
    by (auto simp: cache_aware_load_group_def h Let_def list_ex_iff image_iff split: if_splits)
  then have heavy: "unat (ready_in_flight h) * unat (effective_capacity x)
      < (unat (ready_in_flight x) - 1) * unat (effective_capacity h)"
    by (simp add: word_le_nat_alt unat_product unat_sat_sub CACHE_AFFINITY_EXTRA_REQUESTS_def)
  have members: "h \<in> set (least_loaded_group ready)" "l \<in> set (least_loaded_group ready)"
    using h group l by auto
  then have "compare_load l best = EqualTo" "compare_load h best = EqualTo"
    "0 < effective_capacity l" "0 < effective_capacity h"
    using best caps by auto
  then have "compare_load l h \<noteq> GreaterThan"
    using load_le_trans [of best l h] best(1) caps
    by (auto simp: compare_load_nat cmp_def split: if_splits)
  then have "unat (ready_in_flight l) * unat (effective_capacity h)
      \<le> unat (ready_in_flight h) * unat (effective_capacity l)"
    by (simp add: compare_load_nat)
  then have "(unat (ready_in_flight x) - 1) * unat (effective_capacity h)
      \<le> unat (ready_in_flight h) * unat (effective_capacity x)"
    if "(unat (ready_in_flight x) - 1) * unat (effective_capacity l)
      \<le> unat (ready_in_flight l) * unat (effective_capacity x)"
    using ratio_le_trans [OF _ that] \<open>0 < effective_capacity l\<close> by (simp add: word_less_nat_alt)
  with heavy show ?thesis by linarith
qed

text \<open>The owner loses on resources: the figures that the report keeps show it.\<close>

lemma owner_resources:
  assumes owner: "req_preferred request = Some owner" and x: "x \<in> set pool" "ready_id x = owner"
    and out: "owner \<notin> ready_id ` set (resource_group e pool request now_ms)"
    and m: "cache_affinity_member_of e owner now_ms = Some m"
    and best: "best = list_max
      (List.map_filter (\<lambda>r. fresh_quota_remaining e (ready_id r) now_ms) pool)"
    and credits: "credits = list_max
      (List.map_filter (\<lambda>r. fresh_provider_credits e (ready_id r) now_ms) pool)"
  shows "(\<exists>b. best = Some b \<and> (\<forall>q. cm_quota_remaining m = Some q \<longrightarrow>
       unat q + unat (quota_switch_margin e request owner) \<le> unat b)) \<or>
    (\<exists>c. best = None \<and> credits = Some c \<and> \<not> cm_credits_unlimited m \<and>
       (\<forall>q. cm_provider_credits m = Some q \<longrightarrow>
          unat q + unat PROVIDER_CREDIT_SWITCH_MARGIN_MICRO_UNITS \<le> unat c))"
proof -
  have dropped: "x \<notin> set (resource_group e pool request now_ms)" using out x(2) by auto
  show ?thesis
  proof (cases best)
    case (Some b)
    then have not_in: "\<not> within_quota_band e request owner b now_ms"
      using dropped x best by (simp add: resource_group_def)
    have "unat q + unat (quota_switch_margin e request owner) \<le> unat b"
      if q: "fresh_quota_remaining e owner now_ms = Some q" for q
    proof -
      have "quota_switch_margin e request owner \<le> sat_sub b q"
        using not_in q by (simp add: within_quota_band_def not_less)
      moreover have "0 < unat (quota_switch_margin e request owner)"
        using switch_margin_pos [of e request owner] by (simp add: word_less_nat_alt)
      ultimately show ?thesis by (simp add: word_le_nat_alt unat_sat_sub)
    qed
    then show ?thesis using Some member_reads(1) [OF m] by auto
  next
    case none: None
    have "credits \<noteq> None"
      using dropped x(1) best credits none by (auto simp: resource_group_def)
    then obtain c where c: "credits = Some c" by auto
    with none have not_in: "\<not> is_some_and (fresh_provider_credits e owner now_ms)
        (\<lambda>q. q = c \<or> sat_sub c q < PROVIDER_CREDIT_SWITCH_MARGIN_MICRO_UNITS)"
      using dropped x best credits owner by (simp add: resource_group_def)
    have bound: "unat q + unat PROVIDER_CREDIT_SWITCH_MARGIN_MICRO_UNITS \<le> unat c"
      if "fresh_provider_credits e owner now_ms = Some q" for q
      using not_in that
      by (simp add: not_less word_le_nat_alt unat_sat_sub
          PROVIDER_CREDIT_SWITCH_MARGIN_MICRO_UNITS_def) linarith
    have "\<not> cm_credits_unlimited m"
    proof
      assume "cm_credits_unlimited m"
      then have "unat (- 1 :: u64) + unat PROVIDER_CREDIT_SWITCH_MARGIN_MICRO_UNITS \<le> unat c"
        using bound member_reads(3) [OF m] by auto
      then show False using unat_le_bound [of c]
        by (simp add: PROVIDER_CREDIT_SWITCH_MARGIN_MICRO_UNITS_def)
    qed
    then show ?thesis
      using none c bound member_reads(2) [OF m] by (auto simp: opt_filter_Some)
  qed
qed

text \<open>The owner loses on health: another member of the group is better by the margin.\<close>

lemma owner_unhealthy:
  assumes "x \<in> set pool" and "x \<notin> set (soft_health_group pool)"
  shows "\<exists>y \<in> set pool.
    unat (ready_failure_score y) + 200 \<le> unat (ready_failure_score x) \<or>
    (\<exists>ly lx. ready_latency_ms y = Some ly \<and> ready_latency_ms x = Some lx \<and>
       unat (max ly 1) * 1250 \<le> unat (max lx 1) * 1000)"
proof -
  obtain best where best: "list_min (map ready_failure_score pool) = Some best"
    using assms(1) by (cases "list_min (map ready_failure_score pool)") auto
  then obtain b where b: "b \<in> set pool" "ready_failure_score b = best"
    using list_min_Some [OF best] by auto
  let ?healthy = "filter (\<lambda>r. sat_sub (ready_failure_score r) best
    < HEALTH_FAILURE_SWITCH_MARGIN_MILLI) pool"
  show ?thesis
  proof (cases "x \<in> set ?healthy")
    case False
    then have "unat (ready_failure_score b) + 200 \<le> unat (ready_failure_score x)"
      using assms(1) b
      by (simp add: not_less word_le_nat_alt unat_sat_sub HEALTH_FAILURE_SWITCH_MARGIN_MILLI_def)
    with b(1) show ?thesis by blast
  next
    case True
    have "list_min (map (\<lambda>l. max l 1) (List.map_filter ready_latency_ms ?healthy)) \<noteq> None"
      using assms(2) best True by (auto simp: soft_health_group_def)
    then obtain fastest where
      f: "list_min (map (\<lambda>l. max l 1) (List.map_filter ready_latency_ms ?healthy)) = Some fastest"
      by (metis not_Some_eq)
    then obtain y ly where y: "y \<in> set ?healthy" "ready_latency_ms y = Some ly"
      "fastest = max ly 1"
      by (auto simp: map_filter_set dest!: list_min_Some)
    have "\<not> is_none_or (ready_latency_ms x) (\<lambda>l. unat (max l 1) * 1000 < unat fastest * 1250)"
      using assms(2) best f True by (simp add: soft_health_group_def latency_margin_nat)
    then show ?thesis using y by (auto simp: is_none_or_iff not_less)
  qed
qed

section \<open>What a sound report is\<close>

text \<open>The evidence of each reason, read from the report and the ready candidates.\<close>

definition behind_load :: "cache_affinity_diagnostics \<Rightarrow> cache_affinity_member \<Rightarrow> bool" where
  "behind_load d m =
     (unat (cm_in_flight (ca_selected d)) * unat (cm_effective_capacity m)
      < (unat (cm_in_flight m) - unat (load_allowance d))
         * unat (cm_effective_capacity (ca_selected d)))"

definition outdone :: "ready_candidate \<Rightarrow> ready_candidate \<Rightarrow> bool" where
  "outdone x y =
     (unat (ready_failure_score y) + 200 \<le> unat (ready_failure_score x) \<or>
      (\<exists>ly lx. ready_latency_ms y = Some ly \<and> ready_latency_ms x = Some lx \<and>
         unat (max ly 1) * 1250 \<le> unat (max lx 1) * 1000))"

definition behind_quota :: "cache_affinity_diagnostics \<Rightarrow> cache_affinity_member \<Rightarrow> bool" where
  "behind_quota d m =
     (\<exists>best. best_quota_remaining d = Some best \<and>
        (\<forall>q. cm_quota_remaining m = Some q \<longrightarrow> unat q + unat (quota_margin d) \<le> unat best))"

definition behind_credits :: "cache_affinity_diagnostics \<Rightarrow> cache_affinity_member \<Rightarrow> bool" where
  "behind_credits d m =
     (best_quota_remaining d = None \<and> \<not> cm_credits_unlimited m \<and>
      (best_credits_unlimited d \<or> (\<exists>best. best_provider_credits d = Some best \<and>
         (\<forall>q. cm_provider_credits m = Some q \<longrightarrow>
            unat q + unat (credit_margin d) \<le> unat best))))"

definition reason_backed ::
  "rotation_engine \<Rightarrow> rotation_request \<Rightarrow> string \<Rightarrow> u64 \<Rightarrow> rotation_selection \<Rightarrow>
   cache_affinity_diagnostics \<Rightarrow> bool" where
  "reason_backed e request owner now_ms s d =
     (let ready = fst (selection_candidates e request now_ms) in
      case ca_reason d of
        OwnerUnavailable \<Rightarrow> owner_block_reason d \<noteq> None \<and>
          (\<forall>b. candidate_availability e request owner now_ms \<noteq> AvReady b)
      | RecoveryProbe \<Rightarrow>
          sel_recovery s \<or> candidate_availability e request owner now_ms = AvReady True
      | ParallelLoad \<Rightarrow> owner \<notin> ready_id ` set ready \<or>
          is_some_and (ca_preferred d) (behind_load d)
      | CacheQuotaHeadroom \<Rightarrow> is_some_and (ca_preferred d) (behind_quota d)
      | CacheProviderCredits \<Rightarrow> is_some_and (ca_preferred d) (behind_credits d)
      | CacheHealth \<Rightarrow> (\<exists>x \<in> set ready. \<exists>y \<in> set ready. ready_id x = owner \<and> outdone x y)
      | _ \<Rightarrow> False)"

lemma eligible_capacities:
  assumes "r \<in> set (fst (selection_candidates e request now_ms))"
  shows "0 < effective_capacity r"
proof -
  have r: "r \<in> set (ready_candidates e request now_ms)" using assms by (simp add: eligible_part)
  then obtain runtime where a: "admissible e runtime (req_route_key request) now_ms (ready_recovery r)"
    using ready_candidates_available [OF r] by (auto simp: candidate_ready_iff)
  then have "0 < max_in_flight e"
    by (auto simp: admissible_def capacity_full_def Let_def word_less_nat_alt not_le)
  moreover have "effective_capacity r = effective_capacity_of e (ready_capacity_key r)"
    using ready_entry_Some(6) by (rule ready_candidate_runtime [OF r])
  ultimately show ?thesis using effective_capacity_pos by simp
qed

lemma eligible_ids_distinct:
  "engine_keyed e \<Longrightarrow> distinct (map ready_id (fst (selection_candidates e request now_ms)))"
  using ready_candidates_ids_distinct [of e request now_ms]
  by (simp add: selection_candidates_def Let_def distinct_map_filter)

text \<open>The selected member comes from the resource group, when nothing recovers.\<close>

lemma calm_selection:
  assumes "mode e = Automatic" and "select e request now_ms = Some s"
    and "\<forall>r \<in> set (fst (selection_candidates e request now_ms)). \<not> ready_recovery r"
  obtains l where "sel_candidate_id s = ready_id l"
    "l \<in> set (fst (selection_candidates e request now_ms))"
    "l \<in> set (cache_aware_load_group (fst (selection_candidates e request now_ms)) request)"
proof -
  let ?ready = "fst (selection_candidates e request now_ms)"
  obtain l where l: "l \<in> set (selection_group e ?ready request now_ms)"
    "sel_candidate_id s = ready_id l" "l \<in> set ?ready"
    by (rule select_Some [OF assms(2)])
  have "filter ready_recovery ?ready = []" using assms(3) by (simp add: filter_empty_conv)
  then have "l \<in> set (soft_health_group
      (resource_group e (cache_aware_load_group ?ready request) request now_ms))"
    using l(1) assms(1) by (simp add: selection_group_def mode_group_def)
  then show ?thesis using that l soft_health_part resource_part by blast
qed

lemma recovering_selection:
  assumes "mode e = Automatic" and "select e request now_ms = Some s"
    and "\<exists>r \<in> set (fst (selection_candidates e request now_ms)). ready_recovery r"
  shows "sel_recovery s"
proof -
  let ?ready = "fst (selection_candidates e request now_ms)"
  obtain x where x: "min_by due_order (filter ready_recovery ?ready) = Some x"
    using assms(3) by (metis filter_empty_conv min_by_None not_Some_eq)
  then have "selection_group e ?ready request now_ms = [x]" "ready_recovery x"
    using min_by_in [OF x] assms(1) by (auto simp: selection_group_def)
  then show ?thesis by (metis select_Some [OF assms(2)] set_ConsD empty_iff list.set(1))
qed

lemma behind_reason [simp]:
  "behind_load (d\<lparr>ca_reason := r\<rparr>) m = behind_load d m"
  "behind_quota (d\<lparr>ca_reason := r\<rparr>) m = behind_quota d m"
  "behind_credits (d\<lparr>ca_reason := r\<rparr>) m = behind_credits d m"
  by (simp_all add: behind_load_def behind_quota_def behind_credits_def)

lemma pair_if: "(if b then (x, d) else (y, d)) = (if b then x else y, d)"
  by simp

lemma staged:
  "k \<notin> f ` A \<or> (\<exists>x \<in> A. f x = k) \<and> k \<notin> f ` B \<or> (\<exists>x \<in> B. f x = k)"
  by auto

lemma filter_reason_backed:
  assumes keyed: "engine_keyed e" and auto: "mode e = Automatic"
    and free: "req_owner request = None" and pref: "req_preferred request = Some owner"
    and sel: "select e request now_ms = Some s" and left: "sel_candidate_id s \<noteq> owner"
    and m: "ca_preferred d = Some m" "cache_affinity_member_of e owner now_ms = Some m"
    and sm: "cache_affinity_member_of e (sel_candidate_id s) now_ms = Some (ca_selected d)"
    and margins: "quota_margin d = quota_switch_margin e request owner"
      "credit_margin d = PROVIDER_CREDIT_SWITCH_MARGIN_MICRO_UNITS"
      "load_allowance d = CACHE_AFFINITY_EXTRA_REQUESTS"
    and run: "cache_affinity_filter_reason e request owner now_ms d = (reason, d')"
  shows "reason_backed e request owner now_ms s (d'\<lparr>ca_reason := reason\<rparr>)"
proof (cases "\<exists>r \<in> set (fst (selection_candidates e request now_ms)). ready_recovery r")
  case True
  then have "reason = RecoveryProbe"
    using run by (auto simp: cache_affinity_filter_reason_def Let_def list_ex_iff)
  then show ?thesis
    using recovering_selection [OF auto sel True] by (simp add: reason_backed_def)
next
  case False
  let ?ready = "fst (selection_candidates e request now_ms)"
  let ?load = "cache_aware_load_group ?ready request"
  let ?resources = "resource_group e ?load request now_ms"
  let ?best = "list_max (List.map_filter (\<lambda>r. fresh_quota_remaining e (ready_id r) now_ms) ?load)"
  let ?credits = "list_max
    (List.map_filter (\<lambda>r. fresh_provider_credits e (ready_id r) now_ms) ?load)"
  have calm: "\<forall>r \<in> set ?ready. \<not> ready_recovery r" using False by blast
  have out: "owner \<notin> ready_id ` set (soft_health_group ?resources)"
    using left_owner_outside_group [OF auto free pref sel left calm]
    by (simp add: mode_group_def auto)
  note ids = eligible_ids_distinct [OF keyed, of request now_ms]
  have step: "reason = (if owner \<notin> ready_id ` set ?load then ParallelLoad
      else if owner \<notin> ready_id ` set ?resources then
        (if ?best \<noteq> None then CacheQuotaHeadroom else CacheProviderCredits)
      else CacheHealth)"
    "d' = d\<lparr>best_quota_remaining := ?best, best_credits_unlimited := (?credits = Some (- 1)),
       best_provider_credits := opt_filter (\<lambda>value. value \<noteq> - 1) ?credits\<rparr>"
  proof -
    have nr: "list_ex ready_recovery ?ready = False" using calm by (simp add: list_ex_iff)
    have has: "list_ex (\<lambda>r. ready_id r = owner) pool \<longleftrightarrow> owner \<in> ready_id ` set pool" for pool
      by (auto simp: list_ex_iff)
    note run' = run [unfolded cache_affinity_filter_reason_def Let_def nr has if_False pair_if
      prod.inject]
    show "reason = (if owner \<notin> ready_id ` set ?load then ParallelLoad
      else if owner \<notin> ready_id ` set ?resources then
        (if ?best \<noteq> None then CacheQuotaHeadroom else CacheProviderCredits)
      else CacheHealth)"
      unfolding run' [THEN conjunct1, symmetric] using out by (simp only: if_True simp_thms)
    show "d' = d\<lparr>best_quota_remaining := ?best, best_credits_unlimited := (?credits = Some (- 1)),
       best_provider_credits := opt_filter (\<lambda>value. value \<noteq> - 1) ?credits\<rparr>"
      by (rule run' [THEN conjunct2, symmetric])
  qed
  have kept: "ca_preferred d' = Some m" using step(2) m(1) by simp
  from staged [of owner ready_id "set ?load" "set ?resources"] show ?thesis
  proof (elim disjE conjE bexE)
    assume load: "owner \<notin> ready_id ` set ?load"
    obtain l where l: "sel_candidate_id s = ready_id l" "l \<in> set ?ready" "l \<in> set ?load"
      by (rule calm_selection [OF auto sel calm])
    obtain lm where lm: "cache_affinity_member_of e (ready_id l) now_ms = Some lm"
      "cm_in_flight lm = ready_in_flight l" "cm_effective_capacity lm = effective_capacity l"
      by (rule entry_member [OF keyed l(2)])
    have "behind_load d' m" if x: "x \<in> set ?ready" "ready_id x = owner" for x
    proof -
      obtain xm where xm: "cache_affinity_member_of e (ready_id x) now_ms = Some xm"
        "cm_in_flight xm = ready_in_flight x" "cm_effective_capacity xm = effective_capacity x"
        by (rule entry_member [OF keyed x(1)])
      then have "xm = m" using x(2) m(2) by simp
      moreover have "lm = ca_selected d" using lm(1) sm l(1) by simp
      moreover have "unat (ready_in_flight l) * unat (effective_capacity x)
          < (unat (ready_in_flight x) - 1) * unat (effective_capacity l)"
        using owner_overloaded [OF pref x load ids calm l(3)] eligible_capacities by blast
      ultimately show ?thesis
        using lm xm step(2) margins(3) by (simp add: behind_load_def CACHE_AFFINITY_EXTRA_REQUESTS_def)
    qed
    then have "owner \<notin> ready_id ` set ?ready \<or> behind_load d' m" by auto
    moreover have "reason = ParallelLoad" using step(1) load by simp
    ultimately show ?thesis using kept by (simp add: reason_backed_def)
  next
    fix x assume resources: "x \<in> set ?load" "ready_id x = owner"
      "owner \<notin> ready_id ` set ?resources"
    have "behind_quota d' m \<and> ?best \<noteq> None \<or> behind_credits d' m \<and> ?best = None"
      using owner_resources [OF pref resources m(2) refl refl]
      by (auto simp: behind_quota_def behind_credits_def step(2) margins opt_filter_Some)
    moreover have "reason = (if ?best \<noteq> None then CacheQuotaHeadroom else CacheProviderCredits)"
      unfolding step(1) using resources(3) imageI [OF resources(1), of ready_id, unfolded resources(2)]
      by (simp only: if_False if_True not_not simp_thms)
    ultimately show ?thesis using kept by (auto simp: reason_backed_def)
  next
    fix x assume unhealthy: "x \<in> set ?resources" "ready_id x = owner"
    have "x \<notin> set (soft_health_group ?resources)" using out unhealthy(2) by auto
    then obtain y where "y \<in> set ?resources" "outdone x y"
      using owner_unhealthy [OF unhealthy(1)] by (auto simp: outdone_def)
    moreover have part: "set ?resources \<subseteq> set ?ready"
      using resource_part cache_aware_part by blast
    ultimately have beaten: "\<exists>x \<in> set ?ready. \<exists>y \<in> set ?ready. ready_id x = owner \<and> outdone x y"
      using unhealthy by blast
    have "owner \<in> ready_id ` set ?load" "owner \<in> ready_id ` set ?resources"
      using unhealthy resource_part by blast+
    then have "reason = CacheHealth" unfolding step(1) by (simp only: if_False not_not simp_thms)
    then show ?thesis using beaten by (simp add: reason_backed_def)
  qed
qed

section \<open>Properties\<close>

text \<open>the report of a selection that left the warm owner is sound.  In automatic mode, for a
  request without a response owner, the reason is never an unexplained routing policy, and every
  reason comes with its evidence: an unavailable owner with its block reason; a recovery probe;
  load, when the owner holds more than the allowance above the selected member relative to their
  capacities (or another route stands for its physical member); quota or credits, when the best
  figure of the report leads the owner's by the margin of the report; health, when an eligible
  member beats the owner by the score or latency margin.\<close>

theorem cache_reason_backed:
  assumes "engine_keyed e" and "mode e = Automatic"
    and "req_owner request = None" and "req_preferred request = Some owner"
    and "select e request now_ms = Some s" and "sel_candidate_id s \<noteq> owner"
    and "cache_affinity_diagnostics_of e request (Some owner) (sel_candidate_id s) now_ms = Some d"
  shows "reason_backed e request owner now_ms s d"
proof -
  obtain sm where sm: "cache_affinity_member_of e (sel_candidate_id s) now_ms = Some sm"
    using assms(7) by (auto simp: cache_affinity_diagnostics_of_def bind_eq_Some_conv)
  show ?thesis
  proof (cases "candidate_availability e request owner now_ms = AvReady False")
    case False
    then show ?thesis
      using assms(2,3,6,7) sm
      by (auto simp: cache_affinity_diagnostics_of_def reason_backed_def Let_def
          split: candidate_availability.splits if_splits)
  next
    case True
    then obtain runtime where "bget (candidates e) owner = Some runtime"
      by (auto simp: candidate_ready_iff)
    then obtain m where m: "cache_affinity_member_of e owner now_ms = Some m"
      by (simp add: cache_affinity_member_of_def)
    let ?d = "\<lparr>ca_selection =
        (if list_ex (\<lambda>cid. cid = sel_candidate_id s) (warm_fallbacks request)
         then WarmAlternative else OtherMember),
      ca_reason = NoBinding, owner_block_reason = None, ca_preferred = Some m, ca_selected = sm,
      best_quota_remaining = None, best_provider_credits = None, best_credits_unlimited = False,
      quota_margin = quota_switch_margin e request owner,
      credit_margin = PROVIDER_CREDIT_SWITCH_MARGIN_MICRO_UNITS,
      load_allowance = CACHE_AFFINITY_EXTRA_REQUESTS\<rparr>"
    obtain reason d' where run: "cache_affinity_filter_reason e request owner now_ms ?d = (reason, d')"
      by fastforce
    then have "d = d'\<lparr>ca_reason := reason\<rparr>"
      using assms(2,3,6,7) sm m True
      by (simp add: cache_affinity_diagnostics_of_def Let_def eq_commute [of owner])
    then show ?thesis
      using filter_reason_backed [OF assms(1-6) _ m _ _ _ _ run] sm by simp
  qed
qed

section \<open>An evaluated instance\<close>

text \<open>Two members of the same capacity; the warm one, \<open>b\<close>, carries two requests more.\<close>

definition busy_engine :: rotation_engine where
  "busy_engine = default_engine\<lparr>
     candidates :=
       binsert ''b'' \<lparr>candidate = new_candidate ''b'' ''r'' ''m'', in_flight = 2\<rparr>
        (binsert ''a'' \<lparr>candidate = new_candidate ''a'' ''r'' ''m'', in_flight = 0\<rparr> bempty),
     capacity_in_flight_map := binsert ''b'' 2 bempty\<rparr>"

definition warm_request :: rotation_request where
  "warm_request = sample_request\<lparr>req_preferred := Some ''b''\<rparr>"

definition busy_entry :: "string \<Rightarrow> u32 \<Rightarrow> ready_candidate" where
  "busy_entry cid n = (sample_ready False)\<lparr>ready_id := cid, ready_capacity_key := cid,
     ready_in_flight := n\<rparr>"

lemma busy_available:
  "candidate_availability busy_engine warm_request ''a'' 5 = AvReady False"
  "candidate_availability busy_engine warm_request ''b'' 5 = AvReady False"
  by (simp_all add: candidate_ready_iff warm_request_def sample_request_def busy_engine_def
      sample_engine_eval capacity_in_flight_def)

lemma busy_ready: "fst (selection_candidates busy_engine warm_request 5) =
    [busy_entry ''a'' 0, busy_entry ''b'' 2]"
proof -
  have "ready_candidates busy_engine warm_request 5 = [busy_entry ''a'' 0, busy_entry ''b'' 2]"
    using busy_available
    by (simp add: ready_eval busy_engine_def new_candidate_def default_engine_def
        warm_request_def sample_request_def new_request_def sample_ready_def busy_entry_def)
  then show ?thesis
    by (simp add: selection_candidates_def Let_def busy_entry_def sample_ready_def)
qed

lemma busy_load: "cache_aware_load_group [busy_entry ''a'' 0, busy_entry ''b'' 2] warm_request =
    [busy_entry ''a'' 0]"
  by (simp add: cache_aware_load_group_def least_loaded_group_def compare_load_nat
      busy_entry_def sample_ready_def warm_request_def sat_sub_def Let_def
      CACHE_AFFINITY_EXTRA_REQUESTS_def)

lemma busy_select: "\<exists>s. select busy_engine warm_request 5 = Some s \<and> sel_candidate_id s = ''a''"
proof -
  let ?ready = "[busy_entry ''a'' 0, busy_entry ''b'' 2]"
  have part: "set (soft_health_group (resource_group busy_engine [busy_entry ''a'' 0] warm_request 5))
      \<subseteq> {busy_entry ''a'' 0}"
    using soft_health_part resource_part by fastforce
  have "filter ready_recovery ?ready = []" "mode busy_engine = Automatic"
    by (simp_all add: busy_entry_def sample_ready_def busy_engine_def default_engine_def)
  then have "set (selection_group busy_engine ?ready warm_request 5) \<subseteq> {busy_entry ''a'' 0}"
    using part by (simp add: selection_group_def mode_group_def busy_load)
  moreover obtain s where s: "select busy_engine warm_request 5 = Some s"
    using select_None [of busy_engine warm_request 5] busy_ready by auto
  moreover obtain r where "r \<in> set (selection_group busy_engine ?ready warm_request 5)"
    "sel_candidate_id s = ready_id r"
    using select_Some [OF s] busy_ready by metis
  ultimately have "sel_candidate_id s = ''a''" by (auto simp: busy_entry_def)
  with s show ?thesis by blast
qed

theorem cache_reason_backed_witness:
  "\<exists>s d. select busy_engine warm_request 5 = Some s \<and>
     cache_affinity_diagnostics_of busy_engine warm_request (Some ''b'') (sel_candidate_id s) 5 = Some d \<and>
     ca_reason d = ParallelLoad \<and> is_some_and (ca_preferred d) (behind_load d)"
proof -
  obtain s where s: "select busy_engine warm_request 5 = Some s" "sel_candidate_id s = ''a''"
    using busy_select by blast
  have e: "engine_keyed busy_engine" "mode busy_engine = Automatic" "req_owner warm_request = None"
    "req_preferred warm_request = Some ''b''" "sel_candidate_id s \<noteq> ''b''"
    using s(2) by (auto simp: busy_engine_def default_engine_def new_candidate_def engine_keyed_def
        warm_request_def sample_request_def new_request_def split: if_splits)
  have m: "\<exists>x. cache_affinity_member_of busy_engine ''a'' 5 = Some x"
    by (simp add: cache_affinity_member_of_def busy_engine_def default_engine_def)
  then obtain d where d: "cache_affinity_diagnostics_of busy_engine warm_request (Some ''b'')
      (sel_candidate_id s) 5 = Some d"
    using s(2) by (auto simp: cache_affinity_diagnostics_of_def Let_def simp del: split_paired_Ex)
  have filtered: "\<exists>d'. cache_affinity_filter_reason busy_engine warm_request ''b'' 5 d0 =
      (ParallelLoad, d')" for d0
    by (simp add: cache_affinity_filter_reason_def Let_def busy_ready busy_load)
      (simp add: busy_entry_def sample_ready_def)
  obtain d0 where "d = (let (reason, d') = cache_affinity_filter_reason busy_engine warm_request
      ''b'' 5 d0 in d'\<lparr>ca_reason := reason\<rparr>)"
    using d m s(2) e(2-4) busy_available(2)
    by (auto simp: cache_affinity_diagnostics_of_def Let_def)
  then have "ca_reason d = ParallelLoad" using filtered [of d0] by auto
  moreover have "''b'' \<in> ready_id ` set (fst (selection_candidates busy_engine warm_request 5))"
    by (simp add: busy_ready busy_entry_def)
  ultimately show ?thesis
    using cache_reason_backed [OF e(1-4) s(1) e(5) d] s(1) d by (auto simp: reason_backed_def)
qed

end
