(* ===== verification/PoolSelection.thy ===== *)
theory PoolSelection
  imports PoolLifecycle CacheAffinity
begin

text \<open>
  Selection on the pool (\<open>selection.rs\<close>), its diagnostics and the preview of the next members
  (\<open>selection/snapshot.rs\<close>), the waiting and eligibility questions of the request loop
  (\<open>selection/availability.rs\<close>) and the owners of responses and prompt caches
  (\<open>selection/ownership.rs\<close>).

  \<open>RoutingDiagnostics\<close> is modelled with the fields the scheduler fills; the others
  (endpoint, upstream model, transport, cache context, outcome, timing) are \<open>None\<close> here and are set
  by the executor.
\<close>

section \<open>Selection\<close>

datatype pool_selection_reason =
    SrResponseAffinity | SrPromptCacheAffinity | SrOnlyEligible | SrRoutingTier | SrSourceRole
  | SrParallelLoad | SrSourceLoad | SrPoolPolicy | SrQuotaHeadroom | SrProviderCredits
  | SrSubscriptionExpiry | SrSubscriptionPlan | SrManualPriority | SrFairRotation
  | SrFallbackAttempt | SrStableTieBreak

record routing_diagnostics =
  rd_reason :: pool_selection_reason
  rd_eligible_candidates :: u32
  rd_quota_remaining :: "u64 option"
  rd_in_flight_before :: u32
  rd_dispatches_before :: u64
  rd_cache_affinity :: "cache_affinity_diagnostics option"
  rd_route_latency :: "route_latency_diagnostics option"

record pool_selection =
  psel_candidate_id :: string
  psel_response_affinity_hit :: bool
  psel_half_open_probe :: bool
  psel_diagnostics :: routing_diagnostics
  psel_rotation_request :: rotation_request

definition diagnostics_of ::
  "pool_scheduler \<Rightarrow> string \<Rightarrow> pool_selection_reason \<Rightarrow> u32 \<Rightarrow> in_flight_lane \<Rightarrow>
   routing_diagnostics option" where
  "diagnostics_of p cid reason eligible lane =
     map_option (\<lambda>c. \<lparr>rd_reason = reason, rd_eligible_candidates = eligible,
         rd_quota_remaining = (case cn_quota c of CqAvailable n \<Rightarrow> Some n | _ \<Rightarrow> None),
         rd_in_flight_before = pool_in_flight_count p cid lane,
         rd_dispatches_before = pool_dispatch_count p cid lane,
         rd_cache_affinity = None, rd_route_latency = None\<rparr>)
       (bget (ps_candidates p) cid)"

text \<open>The lane filter on the candidates of a request.\<close>

definition restrict_to_lane ::
  "pool_scheduler \<Rightarrow> in_flight_lane \<Rightarrow> rotation_request \<Rightarrow> rotation_request" where
  "restrict_to_lane p lane request =
     request\<lparr>allowed_candidates := map_option (\<lambda>ids. {cid \<in> ids.
       is_some_and (bget (ps_candidates p) cid) (\<lambda>c. lane_allows p c lane)})
       (allowed_candidates request)\<rparr>"

definition pool_reason ::
  "rotation_mode \<Rightarrow> rotation_request \<Rightarrow> rotation_selection \<Rightarrow> pool_selection_reason" where
  "pool_reason m request s =
     (if req_owner request = None \<and> \<not> sel_recovery s \<and> m = Automatic
         \<and> sel_reason s \<noteq> QuotaHeadroom \<and> sel_reason s \<noteq> ProviderCredits
         \<and> (req_preferred request = Some (sel_candidate_id s)
            \<or> sel_candidate_id s \<in> set (warm_fallbacks request))
      then SrPromptCacheAffinity
      else (case sel_reason s of
          HardOwner \<Rightarrow> if req_owner request \<noteq> None then SrResponseAffinity else SrOnlyEligible
        | LeastLoaded \<Rightarrow> SrParallelLoad
        | QuotaHeadroom \<Rightarrow> SrQuotaHeadroom
        | ProviderCredits \<Rightarrow> SrProviderCredits
        | ManualPriority \<Rightarrow> SrManualPriority
        | WeightedRotation \<Rightarrow> SrFairRotation
        | Recovery \<Rightarrow> SrFallbackAttempt
        | OnlyEligible \<Rightarrow> SrOnlyEligible))"

text \<open>A member that was tried is reported as tried, not as left out of the request.\<close>

definition mark_tried ::
  "string set \<Rightarrow> string option \<Rightarrow> cache_affinity_diagnostics \<Rightarrow> cache_affinity_diagnostics" where
  "mark_tried tried_ids preferred d =
     (if owner_block_reason d = Some NotAllowed \<and> is_some_and preferred (\<lambda>cid. cid \<in> tried_ids)
      then d\<lparr>owner_block_reason := Some AlreadyTried\<rparr> else d)"

definition select_for_operation ::
  "request_id \<Rightarrow> pool_scheduler \<Rightarrow> selection_request \<Rightarrow> in_flight_lane \<Rightarrow> rotation_operation \<Rightarrow>
   pool_selection option \<times> pool_scheduler" where
  "select_for_operation fresh p r lane op =
     (case prepare_rotation_request fresh p r op of (None, p1) \<Rightarrow> (None, p1)
      | (Some prepared, p1) \<Rightarrow>
        (let request = restrict_to_lane p1 lane prepared;
             e = ps_rotation p1
         in case select e request (sr_now_ms r) of None \<Rightarrow> (None, p1)
            | Some s \<Rightarrow>
              (case diagnostics_of p1 (sel_candidate_id s) (pool_reason (mode e) request s)
                      (eligible_candidates s) lane of None \<Rightarrow> (None, p1)
               | Some d \<Rightarrow>
                 (let d1 = d\<lparr>rd_route_latency :=
                        Some (latency_diagnostics e (sel_candidate_id s) (req_route_key request) (sr_now_ms r))\<rparr>;
                      cached = (case sr_prompt_key r of None \<Rightarrow> (None, ps_prompt_affinity p1)
                        | Some key \<Rightarrow>
                            (case (case req_preferred request of
                                     Some cid \<Rightarrow> (Some cid, ps_prompt_affinity p1)
                                   | None \<Rightarrow> affinity_get key (sr_now_ms r) (ps_prompt_affinity p1)) of
                               (preferred, prompts) \<Rightarrow>
                                 (map_option (mark_tried (sr_tried r) preferred)
                                    (cache_affinity_diagnostics_of e request preferred
                                       (sel_candidate_id s) (sr_now_ms r)), prompts)))
                  in (Some \<lparr>psel_candidate_id = sel_candidate_id s,
                            psel_response_affinity_hit = (req_owner request \<noteq> None),
                            psel_half_open_probe = sel_recovery s,
                            psel_diagnostics = d1\<lparr>rd_cache_affinity := fst cached\<rparr>,
                            psel_rotation_request = request\<rparr>,
                      p1\<lparr>ps_prompt_affinity := snd cached\<rparr>)))))"

definition pool_select ::
  "request_id \<Rightarrow> pool_scheduler \<Rightarrow> selection_request \<Rightarrow> pool_selection option \<times> pool_scheduler" where
  "pool_select fresh p r = select_for_operation fresh p r TextLane OpText"

definition select_image ::
  "request_id \<Rightarrow> pool_scheduler \<Rightarrow> selection_request \<Rightarrow> pool_selection option \<times> pool_scheduler" where
  "select_image fresh p r = select_for_operation fresh p r ImageLane OpImage"

definition select_compaction ::
  "request_id \<Rightarrow> pool_scheduler \<Rightarrow> selection_request \<Rightarrow> pool_selection option \<times> pool_scheduler" where
  "select_compaction fresh p r = select_for_operation fresh p r TextLane OpCompaction"

end
