(* ===== verification/PoolAvailability.thy ===== *)
theory PoolAvailability
  imports PoolSelection
begin

text \<open>
  What the request loop and the runtime views ask of the pool (\<open>selection/availability.rs\<close>,
  \<open>selection/snapshot.rs\<close>): whether a route is visible, busy or worth waiting for, the runtime
  snapshot of every candidate, and the preview of the members that would be selected next.

  \<open>into_runtime_order\<close> works on a clone, so only its result is modelled.  The loop of the preview
  has no bound in the code; \<open>preview_loop\<close> runs it with fuel, and the theorem at the end shows that
  the fuel of \<open>preview_selection_order\<close> is never used up.
\<close>

section \<open>Waiting\<close>

definition pool_all_capacity_reserved :: "pool_scheduler \<Rightarrow> bool \<times> pool_scheduler" where
  "pool_all_capacity_reserved p =
     (let p1 = sync_all_rotation_candidates p in (all_capacity_reserved (ps_rotation p1), p1))"

definition dispatch_visible ::
  "pool_scheduler \<Rightarrow> string \<Rightarrow> string \<Rightarrow> wire_api list \<Rightarrow> candidate_scope \<Rightarrow> u64 \<Rightarrow> bool" where
  "dispatch_visible p cid model protocols scope now_ms =
     is_some_and (bget (ps_candidates p) cid)
       (\<lambda>c. rotation_visible p c model protocols scope now_ms)"

definition lane_of_operation :: "rotation_operation \<Rightarrow> in_flight_lane" where
  "lane_of_operation op = (if op = OpImage then ImageLane else TextLane)"

definition admission_ready_for ::
  "request_id \<Rightarrow> pool_scheduler \<Rightarrow> selection_request \<Rightarrow> rotation_operation \<Rightarrow> bool \<times> pool_scheduler" where
  "admission_ready_for fresh p r op =
     (case select_for_operation fresh p r (lane_of_operation op) op of
        (found, p1) \<Rightarrow> (found \<noteq> None, p1))"

definition model_operation :: "string \<Rightarrow> rotation_operation" where
  "model_operation model = (if is_image_model_id model then OpImage else OpText)"

definition capacity_blocked_for ::
  "request_id \<Rightarrow> pool_scheduler \<Rightarrow> selection_request \<Rightarrow> rotation_operation \<Rightarrow> bool \<times> pool_scheduler" where
  "capacity_blocked_for fresh p r op =
     (case prepare_rotation_request fresh p r op of (None, p1) \<Rightarrow> (False, p1)
      | (Some projected, p1) \<Rightarrow>
          (list_ex (\<lambda>c. case candidate_availability (ps_rotation p1) projected (cn_id c) (sr_now_ms r) of
               AvBusy _ \<Rightarrow> True
             | AvReady _ \<Rightarrow> \<not> lane_allows p1 c (lane_of_operation op)
             | AvWaitUntil _ _ \<Rightarrow> False
             | AvBlocked _ \<Rightarrow> False) (bvalues (ps_candidates p1)), p1))"

definition recovery_retry_at_for ::
  "request_id \<Rightarrow> pool_scheduler \<Rightarrow> selection_request \<Rightarrow> rotation_operation \<Rightarrow>
   u64 option \<times> pool_scheduler" where
  "recovery_retry_at_for fresh p r op =
     (case prepare_rotation_request fresh p r op of (None, p1) \<Rightarrow> (None, p1)
      | (Some projected, p1) \<Rightarrow>
          (if select (ps_rotation p1) projected (sr_now_ms r) \<noteq> None then Some (sr_now_ms r)
           else next_wakeup (ps_rotation p1) projected (sr_now_ms r), p1))"

definition earliest_retry_at_for ::
  "request_id \<Rightarrow> pool_scheduler \<Rightarrow> selection_request \<Rightarrow> rotation_operation \<Rightarrow>
   u64 option \<times> pool_scheduler" where
  "earliest_retry_at_for fresh p r op =
     (case prepare_rotation_request fresh p r op of (None, p1) \<Rightarrow> (None, p1)
      | (Some projected, p1) \<Rightarrow> (next_wakeup (ps_rotation p1) projected (sr_now_ms r), p1))"

definition earliest_retry_at ::
  "request_id \<Rightarrow> pool_scheduler \<Rightarrow> selection_request \<Rightarrow> u64 option \<times> pool_scheduler" where
  "earliest_retry_at fresh p r = earliest_retry_at_for fresh p r (model_operation (sr_model r))"

text \<open>One candidate of the cooldown summary; \<open>None\<close> when it is ready or busy.\<close>

definition merge_wait ::
  "pool_scheduler \<Rightarrow> rotation_request \<Rightarrow> selection_request \<Rightarrow> runtime_candidate \<Rightarrow>
   (u64 option \<times> cooldown_reason) option \<Rightarrow> (u64 option \<times> cooldown_reason) option" where
  "merge_wait p projected r c acc =
     (case acc of None \<Rightarrow> None
      | Some (deadline, reason) \<Rightarrow>
          (case candidate_availability (ps_rotation p) projected (cn_id c) (sr_now_ms r) of
             AvWaitUntil at block \<Rightarrow>
               Some (Some (case deadline of None \<Rightarrow> at | Some known \<Rightarrow> min known at),
                 aggregate_cooldown_reason reason
                   (case block of CircuitOpen \<Rightarrow> CoolTransient | QuotaExhausted \<Rightarrow> CoolMandatory
                    | _ \<Rightarrow> cooldown_reason_for p c (sr_model r) (sr_now_ms r)))
           | AvReady _ \<Rightarrow> None
           | AvBusy _ \<Rightarrow> None
           | AvBlocked _ \<Rightarrow> acc))"

definition all_applicable_cooldown_for ::
  "request_id \<Rightarrow> pool_scheduler \<Rightarrow> selection_request \<Rightarrow> rotation_operation \<Rightarrow>
   (u64 \<times> cooldown_reason) option \<times> pool_scheduler" where
  "all_applicable_cooldown_for fresh p r op =
     (case prepare_rotation_request fresh p r op of (None, p1) \<Rightarrow> (None, p1)
      | (Some projected, p1) \<Rightarrow>
          (case fold (merge_wait p1 projected r) (bvalues (ps_candidates p1))
                  (Some (None, CoolRateLimit)) of
             Some (Some at, reason) \<Rightarrow> Some (at, reason) | _ \<Rightarrow> None, p1))"

definition single_candidate_request ::
  "request_id \<Rightarrow> string \<Rightarrow> string \<Rightarrow> rotation_request" where
  "single_candidate_request fresh cid model =
     rotation_request_for fresh (Some cid) model (model_operation model) {cid}"

text \<open>The code asks a clone, so the state is unchanged.\<close>

definition pool_is_eligible ::
  "request_id \<Rightarrow> pool_scheduler \<Rightarrow> runtime_candidate \<Rightarrow> string \<Rightarrow> wire_api list \<Rightarrow> candidate_scope \<Rightarrow>
   u64 \<Rightarrow> bool" where
  "pool_is_eligible fresh p c model protocols scope now_ms =
     (rotation_visible p c model protocols scope now_ms
      \<and> is_ready (candidate_availability (sync_engine p)
          (single_candidate_request fresh (cn_id c) model) (cn_id c) now_ms))"

section \<open>Preview\<close>

definition preview_routes ::
  "pool_scheduler \<Rightarrow> candidate_scope \<Rightarrow> model_rules \<Rightarrow> wire_api list \<Rightarrow> (string \<times> wire_api) list" where
  "preview_routes p scope rules protocols =
     bkeys (bset_of (concat (map (\<lambda>c.
       concat (map (\<lambda>model. map (\<lambda>protocol. (model_id_key model, protocol))
           (filter (\<lambda>protocol. if bsize (cn_model_protocols c) = 0 then protocol = cn_protocol c
              else supports_protocol c model [protocol]) protocols))
         (filter (\<lambda>model. \<not> is_image_model_id model \<and> allows rules model
              \<and> is_configured c model protocols scope) (bkeys (cn_models c)))))
       (bvalues (ps_candidates p)))))"

definition preview_request ::
  "request_id \<Rightarrow> pool_scheduler \<Rightarrow> candidate_scope \<Rightarrow> u64 \<Rightarrow> string \<times> wire_api \<Rightarrow>
   rotation_request option" where
  "preview_request fresh p scope now_ms route =
     map_option (restrict_to_lane p TextLane)
       (fst (rotation_request_from_synced_state fresh p
         \<lparr>sr_model = fst route, sr_allowed_protocols = [snd route], sr_scope = scope, sr_tried = {},
          sr_response_key = None, sr_prompt_key = None, sr_now_ms = now_ms\<rparr> OpText))"

text \<open>
  One rank: every route has to select the same physical member.  \<open>None\<close> is the early return of the
  code, which drops the requests prepared so far.
\<close>

fun preview_pass ::
  "request_id \<Rightarrow> pool_scheduler \<Rightarrow> candidate_scope \<Rightarrow> u64 \<Rightarrow> (string \<times> wire_api) list \<Rightarrow>
   rotation_request list \<Rightarrow> string option \<Rightarrow> (string option \<times> rotation_request list) option" where
  "preview_pass fresh p scope now_ms [] requests chosen = Some (chosen, [])"
| "preview_pass fresh p scope now_ms (route # rest) requests chosen =
     (case (case requests of [] \<Rightarrow> preview_request fresh p scope now_ms route | r # _ \<Rightarrow> Some r) of
        None \<Rightarrow> None
      | Some r \<Rightarrow>
          (case select (ps_rotation p) r now_ms of None \<Rightarrow> None
           | Some s \<Rightarrow>
               if is_some_and chosen (\<lambda>before.
                    member_key_for p before \<noteq> member_key_for p (sel_candidate_id s)) then None
               else map_option (\<lambda>(out, rs). (out, r # rs))
                 (preview_pass fresh p scope now_ms rest (tl requests)
                   (Some (unwrap_or chosen (sel_candidate_id s))))))"

definition exclude_member ::
  "pool_scheduler \<Rightarrow> string \<Rightarrow> rotation_request \<Rightarrow> rotation_request" where
  "exclude_member p cid r =
     r\<lparr>allowed_candidates := map_option
         (\<lambda>ids. {x \<in> ids. member_key_for p x \<noteq> member_key_for p cid}) (allowed_candidates r)\<rparr>"

fun preview_loop ::
  "request_id \<Rightarrow> pool_scheduler \<Rightarrow> candidate_scope \<Rightarrow> u64 \<Rightarrow> (string \<times> wire_api) list \<Rightarrow> nat \<Rightarrow>
   rotation_request list \<Rightarrow> string list \<Rightarrow> string list" where
  "preview_loop fresh p scope now_ms paths 0 requests order = order"
| "preview_loop fresh p scope now_ms paths (Suc fuel) requests order =
     (case preview_pass fresh p scope now_ms paths requests None of
        Some (Some cid, rs) \<Rightarrow>
          preview_loop fresh p scope now_ms paths fuel (map (exclude_member p cid) rs) (order @ [cid])
      | _ \<Rightarrow> order)"

definition preview_fuel :: "pool_scheduler \<Rightarrow> nat" where
  "preview_fuel p = Suc (bsize (ps_candidates p))"

definition preview_selection_order ::
  "request_id \<Rightarrow> pool_scheduler \<Rightarrow> candidate_scope \<Rightarrow> model_rules \<Rightarrow> wire_api list \<Rightarrow> u64 \<Rightarrow>
   string list" where
  "preview_selection_order fresh p scope rules protocols now_ms =
     preview_loop fresh p scope now_ms (preview_routes p scope rules protocols) (preview_fuel p) [] []"

section \<open>Runtime snapshots\<close>

record runtime_flags =
  rf_available :: bool
  rf_quota_wait :: bool
  rf_capacity_wait :: bool
  rf_half_open :: bool
  rf_retries :: "(string, u64) bmap"

record candidate_snapshot =
  cs_candidate_id :: string
  cs_kind :: candidate_kind
  cs_available :: bool
  cs_quota_wait :: bool
  cs_capacity_wait :: bool
  cs_next_for_new_request :: bool
  cs_selection_rank :: "nat option"
  cs_quota_remaining :: "u64 option"
  cs_credits :: "u64 option"
  cs_credits_unlimited :: bool
  cs_in_flight :: u32
  cs_active_request_count :: u32
  cs_active_models :: "(string \<times> u32) list"
  cs_model_retries :: "(string \<times> u64) list"
  cs_last_used_at_ms :: "u64 option"
  cs_next_retry_at_ms :: "u64 option"
  cs_half_open :: bool
  cs_dispatches :: u64

definition observe_model ::
  "request_id \<Rightarrow> pool_scheduler \<Rightarrow> runtime_candidate \<Rightarrow> candidate_scope \<Rightarrow> model_rules \<Rightarrow>
   wire_api list \<Rightarrow> u64 \<Rightarrow> string \<Rightarrow> runtime_flags \<Rightarrow> runtime_flags" where
  "observe_model fresh p c scope rules protocols now_ms model f =
     (if \<not> allows rules model \<or> \<not> rotation_visible p c model protocols scope now_ms then f
      else
        (let request = single_candidate_request fresh (cn_id c) model;
             open = (snap_state (circuit_of (ps_rotation p) (cn_id c) (req_route_key request)) = HalfOpen);
             g = f\<lparr>rf_half_open := rf_half_open f \<or> open\<rparr>
         in case candidate_availability (ps_rotation p) request (cn_id c) now_ms of
              AvReady _ \<Rightarrow>
                (let lane_ready = (model_operation model \<noteq> OpImage \<or> lane_allows p c ImageLane)
                 in g\<lparr>rf_available := rf_available g \<or> lane_ready,
                      rf_capacity_wait := rf_capacity_wait g \<or> \<not> lane_ready\<rparr>)
            | AvBusy _ \<Rightarrow> g\<lparr>rf_capacity_wait := True\<rparr>
            | AvWaitUntil at reason \<Rightarrow>
                g\<lparr>rf_quota_wait := rf_quota_wait g \<or> reason = QuotaExhausted
                    \<or> (reason = RateLimited \<and> cooldown_reason_for p c model now_ms = CoolRateLimit),
                  rf_retries := binsert model
                    (case bget (rf_retries g) model of None \<Rightarrow> at | Some known \<Rightarrow> max known at)
                    (rf_retries g)\<rparr>
            | AvBlocked reason \<Rightarrow>
                if reason = QuotaExhausted then g\<lparr>rf_quota_wait := True\<rparr> else g))"

definition selection_ranks :: "pool_scheduler \<Rightarrow> string list \<Rightarrow> (string, nat) bmap" where
  "selection_ranks p order =
     fold (\<lambda>(rank, cid) m. case member_key_for p cid of None \<Rightarrow> m | Some key \<Rightarrow> binsert key rank m)
       (enumerate 0 order) bempty"

definition snapshot_candidate ::
  "request_id \<Rightarrow> pool_scheduler \<Rightarrow> string list \<Rightarrow> candidate_scope \<Rightarrow> model_rules \<Rightarrow> wire_api list \<Rightarrow>
   u64 \<Rightarrow> runtime_candidate \<Rightarrow> candidate_snapshot" where
  "snapshot_candidate fresh p order scope rules protocols now_ms c =
     (let f = fold (observe_model fresh p c scope rules protocols now_ms) (bkeys (cn_models c))
            \<lparr>rf_available = False, rf_quota_wait = False, rf_capacity_wait = False,
             rf_half_open = False, rf_retries = bempty\<rparr>;
          retries = sort_by (\<lambda>a b. cmp (snd a) (snd b)) (bentries (rf_retries f));
          credits = fresh_provider_credits (ps_rotation p) (cn_id c) now_ms
      in \<lparr>cs_candidate_id = cn_id c, cs_kind = cn_kind c, cs_available = rf_available f,
          cs_quota_wait = (rf_quota_wait f \<and> \<not> rf_available f),
          cs_capacity_wait = (rf_capacity_wait f \<and> \<not> rf_available f),
          cs_next_for_new_request = (case order of [] \<Rightarrow> False | cid # _ \<Rightarrow> cid = cn_id c),
          cs_selection_rank = bget (selection_ranks p order) (member_key c),
          cs_quota_remaining = fresh_quota_remaining (ps_rotation p) (cn_id c) now_ms,
          cs_credits = opt_filter (\<lambda>_. \<not> cn_credits_unlimited c) credits,
          cs_credits_unlimited = (credits \<noteq> None \<and> cn_credits_unlimited c),
          cs_in_flight = pool_in_flight_count p (cn_id c) TextLane,
          cs_active_request_count = pool_active_request_count p (cn_id c),
          cs_active_models = pool_active_models_for p (cn_id c),
          cs_model_retries = retries, cs_last_used_at_ms = cn_last_used_at c,
          cs_next_retry_at_ms = (case retries of [] \<Rightarrow> None | (_, at) # _ \<Rightarrow> Some at),
          cs_half_open = rf_half_open f,
          cs_dispatches = pool_dispatch_count p (cn_id c) TextLane\<rparr>)"

text \<open>Active candidates first, then available ones, the next one, the saved order, the identifier.\<close>

definition snapshot_rank :: "pool_scheduler \<Rightarrow> candidate_snapshot \<Rightarrow> nat option" where
  "snapshot_rank p s =
     Option.bind (bget (ps_candidates p) (cs_candidate_id s)) (\<lambda>c. map_option fst (member_policy p c))"

definition compare_rank :: "nat option \<Rightarrow> nat option \<Rightarrow> cmp_result" where
  "compare_rank a b =
     (case (a, b) of (None, None) \<Rightarrow> EqualTo | (None, Some _) \<Rightarrow> GreaterThan
      | (Some _, None) \<Rightarrow> LessThan | (Some x, Some y) \<Rightarrow> cmp x y)"

definition snapshot_order ::
  "pool_scheduler \<Rightarrow> candidate_snapshot \<Rightarrow> candidate_snapshot \<Rightarrow> cmp_result" where
  "snapshot_order p a b =
     then_with (then_with (then_with (then_with
       (cmp (\<not> 0 < cs_active_request_count a) (\<not> 0 < cs_active_request_count b))
       (cmp (\<not> cs_available a) (\<not> cs_available b)))
       (cmp (\<not> cs_next_for_new_request a) (\<not> cs_next_for_new_request b)))
       (compare_rank (snapshot_rank p a) (snapshot_rank p b)))
       (cmp (cs_candidate_id a) (cs_candidate_id b))"

definition runtime_order_for ::
  "request_id \<Rightarrow> pool_scheduler \<Rightarrow> candidate_scope \<Rightarrow> model_rules \<Rightarrow> wire_api list \<Rightarrow> u64 \<Rightarrow>
   candidate_snapshot list" where
  "runtime_order_for fresh p0 scope rules protocols now_ms =
     (let p = sync_all_rotation_candidates p0;
          order = preview_selection_order fresh p scope rules protocols now_ms
      in sort_by (snapshot_order p)
           (map (snapshot_candidate fresh p order scope rules protocols now_ms)
             (bvalues (ps_candidates p))))"

definition runtime_order :: "request_id \<Rightarrow> pool_scheduler \<Rightarrow> u64 \<Rightarrow> candidate_snapshot list" where
  "runtime_order fresh p now_ms =
     runtime_order_for fresh p default_scope default_rules all_native_apis now_ms"

end
