(* ===== verification/Ownership.thy ===== *)
theory Ownership
  imports PoolAvailability
begin

text \<open>
  Owners of responses and of prompt caches (\<open>selection/ownership.rs\<close>): a response continues on the
  candidate that produced it, a prompt prefers the candidate whose cache is warm.  The methods that
  bind return \<open>None\<close> where the revision counter of the cache panics.
\<close>

section \<open>Binding\<close>

definition bind_response_affinity ::
  "pool_scheduler \<Rightarrow> string \<Rightarrow> string \<Rightarrow> u64 \<Rightarrow> (bool \<times> pool_scheduler) option" where
  "bind_response_affinity p key cid now_ms =
     (if \<not> bcontains (ps_candidates p) cid then Some (False, p)
      else map_option (\<lambda>cache. (True, p\<lparr>ps_response_affinity := cache\<rparr>))
        (bind_owner key cid now_ms (ps_response_affinity p)))"

definition bind_prompt_affinity ::
  "pool_scheduler \<Rightarrow> string \<Rightarrow> string \<Rightarrow> u64 \<Rightarrow> (bool \<times> pool_scheduler) option" where
  "bind_prompt_affinity p key cid now_ms =
     (if ps_retired p \<or> \<not> bcontains (ps_candidates p) cid then Some (False, p)
      else map_option (\<lambda>cache. (True, p\<lparr>ps_prompt_affinity := cache\<rparr>))
        (bind_owner key cid now_ms (ps_prompt_affinity p)))"

text \<open>
  The owner moves only to a candidate with a material resource lead; otherwise it is kept, and a
  spillover that succeeded is remembered as a warm alternative.
\<close>

definition bind_prompt_affinity_sticky ::
  "pool_scheduler \<Rightarrow> string \<Rightarrow> string \<Rightarrow> u64 \<Rightarrow> (bool \<times> pool_scheduler) option" where
  "bind_prompt_affinity_sticky p key cid now_ms =
     (if ps_retired p \<or> \<not> bcontains (ps_candidates p) cid then Some (False, p)
      else
        (case affinity_get key now_ms (ps_prompt_affinity p) of (owner, cache) \<Rightarrow>
           if is_some_and owner (\<lambda>owner_id. owner_id \<noteq> cid
                \<and> has_material_resource_lead (ps_rotation p) cid owner_id now_ms)
           then map_option (\<lambda>cache'. (True, p\<lparr>ps_prompt_affinity := cache'\<rparr>))
             (bind_owner key cid now_ms cache)
           else
             map_option (\<lambda>(bound, cache'). (bound, p\<lparr>ps_prompt_affinity :=
                 (if bound then cache' else remember_alternative key cid now_ms cache')\<rparr>))
               (bind_if_unbound_or_same key cid now_ms cache)))"

definition restore_response_affinity ::
  "pool_scheduler \<Rightarrow> string \<Rightarrow> string \<Rightarrow> u64 \<Rightarrow> u64 \<Rightarrow> (bool \<times> pool_scheduler) option" where
  "restore_response_affinity p key cid expires_at now_ms =
     (if \<not> bcontains (ps_candidates p) cid \<or> expires_at \<le> now_ms then Some (False, p)
      else map_option (\<lambda>cache. (True, p\<lparr>ps_response_affinity := cache\<rparr>))
        (restore key cid expires_at now_ms (ps_response_affinity p)))"

definition restore_prompt_affinity ::
  "pool_scheduler \<Rightarrow> string \<Rightarrow> string \<Rightarrow> u64 \<Rightarrow> u64 \<Rightarrow> (bool \<times> pool_scheduler) option" where
  "restore_prompt_affinity p key cid expires_at now_ms =
     (if ps_retired p \<or> \<not> bcontains (ps_candidates p) cid \<or> expires_at \<le> now_ms then Some (False, p)
      else
        (case affinity_contains key now_ms (ps_prompt_affinity p) of
           (True, cache) \<Rightarrow> Some (False, p\<lparr>ps_prompt_affinity := cache\<rparr>)
         | (False, cache) \<Rightarrow> map_option (\<lambda>cache'. (True, p\<lparr>ps_prompt_affinity := cache'\<rparr>))
             (restore key cid expires_at now_ms cache)))"

section \<open>Reading\<close>

definition has_response_affinity :: "pool_scheduler \<Rightarrow> string \<Rightarrow> u64 \<Rightarrow> bool \<times> pool_scheduler" where
  "has_response_affinity p key now_ms =
     (case affinity_contains key now_ms (ps_response_affinity p) of
        (found, cache) \<Rightarrow> (found, p\<lparr>ps_response_affinity := cache\<rparr>))"

definition response_affinity_candidate ::
  "pool_scheduler \<Rightarrow> string \<Rightarrow> u64 \<Rightarrow> string option \<times> pool_scheduler" where
  "response_affinity_candidate p key now_ms =
     (case affinity_get key now_ms (ps_response_affinity p) of
        (found, cache) \<Rightarrow> (found, p\<lparr>ps_response_affinity := cache\<rparr>))"

definition response_affinity_binding ::
  "pool_scheduler \<Rightarrow> string \<Rightarrow> u64 \<Rightarrow> (string \<times> u64) option \<times> pool_scheduler" where
  "response_affinity_binding p key now_ms =
     (case get_with_revision key now_ms (ps_response_affinity p) of
        (found, cache) \<Rightarrow> (found, p\<lparr>ps_response_affinity := cache\<rparr>))"

text \<open>A question about the owner of a response, answered on the pool after the expired bindings went.\<close>

definition ask_response_owner ::
  "pool_scheduler \<Rightarrow> string \<Rightarrow> u64 \<Rightarrow> (pool_scheduler \<Rightarrow> runtime_candidate \<Rightarrow> bool) \<Rightarrow>
   bool option \<times> pool_scheduler" where
  "ask_response_owner p key now_ms question =
     (case response_affinity_candidate p key now_ms of (owner, p1) \<Rightarrow>
        (map_option (question p1) (Option.bind owner (bget (ps_candidates p1))), p1))"

definition response_affinity_owner_supports_route ::
  "pool_scheduler \<Rightarrow> string \<Rightarrow> string \<Rightarrow> wire_api list \<Rightarrow> candidate_scope \<Rightarrow> u64 \<Rightarrow>
   bool option \<times> pool_scheduler" where
  "response_affinity_owner_supports_route p key model protocols scope now_ms =
     ask_response_owner p key now_ms (\<lambda>_ c. is_configured c model protocols scope)"

definition response_affinity_owner_is_eligible ::
  "request_id \<Rightarrow> pool_scheduler \<Rightarrow> string \<Rightarrow> string \<Rightarrow> wire_api list \<Rightarrow> candidate_scope \<Rightarrow> u64 \<Rightarrow>
   bool option \<times> pool_scheduler" where
  "response_affinity_owner_is_eligible fresh p key model protocols scope now_ms =
     ask_response_owner p key now_ms (\<lambda>p1 c. pool_is_eligible fresh p1 c model protocols scope now_ms)"

definition response_affinity_owner_supports_model ::
  "pool_scheduler \<Rightarrow> string \<Rightarrow> string \<Rightarrow> wire_api list \<Rightarrow> u64 \<Rightarrow> bool option \<times> pool_scheduler" where
  "response_affinity_owner_supports_model p key model protocols now_ms =
     ask_response_owner p key now_ms (\<lambda>_ c. supports_model c model \<and> allows (cn_model_rules c) model
       \<and> supports_protocol c model protocols)"

definition has_prompt_affinity :: "pool_scheduler \<Rightarrow> string \<Rightarrow> u64 \<Rightarrow> bool \<times> pool_scheduler" where
  "has_prompt_affinity p key now_ms =
     (case affinity_contains key now_ms (ps_prompt_affinity p) of
        (found, cache) \<Rightarrow> (found, p\<lparr>ps_prompt_affinity := cache\<rparr>))"

definition prompt_affinity_snapshot :: "pool_scheduler \<Rightarrow> string \<Rightarrow> u64 \<Rightarrow> (string \<times> u64) option" where
  "prompt_affinity_snapshot p key now_ms = get_with_expiry key now_ms (ps_prompt_affinity p)"

section \<open>Invalidating\<close>

definition invalidate_response_affinity :: "pool_scheduler \<Rightarrow> string \<Rightarrow> bool \<times> pool_scheduler" where
  "invalidate_response_affinity p key =
     (case invalidate key (ps_response_affinity p) of
        (found, cache) \<Rightarrow> (found, p\<lparr>ps_response_affinity := cache\<rparr>))"

definition invalidate_prompt_affinity :: "pool_scheduler \<Rightarrow> string \<Rightarrow> bool \<times> pool_scheduler" where
  "invalidate_prompt_affinity p key =
     (if ps_retired p then (False, p)
      else (case invalidate key (ps_prompt_affinity p) of
          (found, cache) \<Rightarrow> (found, p\<lparr>ps_prompt_affinity := cache\<rparr>)))"

definition invalidate_prompt_affinity_for_candidate ::
  "pool_scheduler \<Rightarrow> string \<Rightarrow> string \<Rightarrow> bool \<times> pool_scheduler" where
  "invalidate_prompt_affinity_for_candidate p key cid =
     (if ps_retired p then (False, p)
      else (case invalidate_if_owner key cid (ps_prompt_affinity p) of
          (found, cache) \<Rightarrow> (found, p\<lparr>ps_prompt_affinity := cache\<rparr>)))"

section \<open>Giving up the owner\<close>

text \<open>The admitted route of the owner's physical member, in the order of identifiers.\<close>

definition owner_route :: "pool_scheduler \<Rightarrow> string \<Rightarrow> rotation_request \<Rightarrow> string option" where
  "owner_route p owner_member request =
     Option.bind (allowed_candidates request) (\<lambda>ids.
       List.find (\<lambda>cid. member_key_for p cid = Some owner_member) (sorted_list_of_set ids))"

definition automatic_response_owner_should_yield ::
  "request_id \<Rightarrow> pool_scheduler \<Rightarrow> string \<Rightarrow> string \<Rightarrow> wire_api list \<Rightarrow> candidate_scope \<Rightarrow> string set \<Rightarrow>
   u64 \<Rightarrow> bool \<times> pool_scheduler" where
  "automatic_response_owner_should_yield fresh p key model protocols scope tried_ids now_ms =
     (if mode (ps_rotation p) \<noteq> Automatic then (False, p)
      else
        (case response_affinity_candidate p key now_ms of (None, p1) \<Rightarrow> (False, p1)
         | (Some owner_id, p1) \<Rightarrow>
           (case prepare_rotation_request fresh p1
              \<lparr>sr_model = model, sr_allowed_protocols = protocols, sr_scope = scope,
               sr_tried = tried_ids, sr_response_key = None, sr_prompt_key = None, sr_now_ms = now_ms\<rparr>
              OpText of
              (None, p2) \<Rightarrow> (False, p2)
            | (Some request, p2) \<Rightarrow>
                (case member_key_for p2 owner_id of None \<Rightarrow> (False, p2)
                 | Some owner_member \<Rightarrow>
                     (is_some_and (select (ps_rotation p2)
                          (request\<lparr>req_preferred := owner_route p2 owner_member request\<rparr>) now_ms)
                        (\<lambda>s. \<not> sel_recovery s
                           \<and> is_some_and (member_key_for p2 (sel_candidate_id s))
                               (\<lambda>member. member \<noteq> owner_member)), p2)))))"

end
