(* ===== verification/PoolChoice.thy ===== *)
theory PoolChoice
  imports Ownership
begin

text \<open>
  What a selection on the pool guarantees: it names a candidate that is configured and permitted for
  the request, it continues a response on its owner only, it counts every physical member once, and
  the preview of the next members ends.
\<close>

section \<open>Lemmas: the selected candidate\<close>

lemma selected_ready:
  assumes "select e request now_ms = Some s"
  shows "candidate_availability e request (sel_candidate_id s) now_ms = AvReady (sel_recovery s)"
    and "request_scope request (sel_candidate_id s)"
proof -
  obtain r where r: "r \<in> set (fst (selection_candidates e request now_ms))"
    "sel_candidate_id s = ready_id r" "sel_recovery s = ready_recovery r"
    by (rule select_Some [OF assms])
  then show "candidate_availability e request (sel_candidate_id s) now_ms = AvReady (sel_recovery s)"
    by (simp add: eligible_part ready_candidates_available)
  then show "request_scope request (sel_candidate_id s)" by (auto simp: candidate_ready_iff)
qed

lemma keys_fold_bset: "set (bkeys (fold (\<lambda>(k, v) m. binsert k v m) xs m)) = fst ` set xs \<union> set (bkeys m)"
proof (induction xs arbitrary: m)
  case (Cons x xs)
  have "set (bkeys (binsert k v m)) = insert k (set (bkeys m))" for k v
    by (auto simp: in_bkeys split: if_splits)
  then show ?case using Cons.IH by (cases x) auto
qed simp

lemma bset_of_keys [simp]: "set (bkeys (bset_of xs)) = set xs"
  by (force simp: bset_of_def bmap_of_def keys_fold_bset)

lemma bcontains_keys: "bcontains m k \<longleftrightarrow> k \<in> set (bkeys m)"
  by (simp add: bcontains_iff in_bkeys)

lemma visible_iff:
  assumes "pool_keyed p"
  shows "bcontains (visible_candidates p r) cid \<longleftrightarrow>
    (\<exists>c. bget (ps_candidates p) cid = Some c \<and> cid \<notin> sr_tried r \<and>
       rotation_visible p c (sr_model r) (sr_allowed_protocols r) (sr_scope r) (sr_now_ms r))"
  using assms by (auto simp: bcontains_keys visible_candidates_def in_bvalues pool_keyed_def)

section \<open>Lemmas: one route for each member\<close>

lemma add_member_route_at:
  "bget (add_member_route p c m) mk =
     (if mk = member_key c
      then Some (if compare_member_routes p c (unwrap_or (bget m mk) c) = GreaterThan then c
        else unwrap_or (bget m mk) c)
      else bget m mk)"
  by (simp add: add_member_route_def Let_def)

lemma member_routes_local:
  "bget m mk = bget m' mk \<Longrightarrow>
   bget (fold (add_member_route p) cs m) mk = bget (fold (add_member_route p) cs m') mk"
proof (induction cs arbitrary: m m')
  case (Cons c cs)
  have "bget (add_member_route p c m) mk = bget (add_member_route p c m') mk"
    using Cons.prems by (cases "mk = member_key c") (simp_all add: add_member_route_at)
  from Cons.IH [OF this] show ?case by simp
qed simp

lemma member_routes_fold:
  assumes "\<And>mk c. bget m mk = Some c \<Longrightarrow> member_key c = mk"
    and "bget (fold (add_member_route p) cs m) mk = Some c"
  shows "member_key c = mk \<and> (c \<in> set cs \<or> bget m mk = Some c)"
  using assms
proof (induction cs arbitrary: m)
  case (Cons d ds)
  have keyed: "member_key x = k" if "bget (add_member_route p d m) k = Some x" for k x
    using that Cons.prems(1)
    by (cases "bget m (member_key d)") (auto simp: add_member_route_def Let_def split: if_splits)
  have step: "x = d \<or> bget m k = Some x" if "bget (add_member_route p d m) k = Some x" for k x
    using that by (cases "bget m (member_key d)") (auto simp: add_member_route_def Let_def split: if_splits)
  have "bget (fold (add_member_route p) ds (add_member_route p d m)) mk = Some c"
    using Cons.prems(2) by simp
  from Cons.IH [OF keyed this] step show ?case by auto
qed simp

lemma member_routes_covers:
  "(\<exists>c \<in> set cs. member_key c = mk) \<or> bget m mk \<noteq> None \<Longrightarrow>
   bget (fold (add_member_route p) cs m) mk \<noteq> None"
proof (induction cs arbitrary: m)
  case (Cons d ds)
  have "bget (add_member_route p d m) mk \<noteq> None" if "member_key d = mk \<or> bget m mk \<noteq> None"
    using that by (auto simp: add_member_route_def Let_def)
  with Cons show ?case by auto
qed simp

lemma member_routes_in:
  assumes "bget (member_routes p ids) mk = Some c"
  shows "member_key c = mk" and "\<exists>cid \<in> set ids. bget (ps_candidates p) cid = Some c"
  using member_routes_fold [of bempty p "List.map_filter (bget (ps_candidates p)) ids" mk c] assms
  by (auto simp: member_routes_def map_filter_def)

lemma member_routes_present:
  assumes "cid \<in> set ids" "bget (ps_candidates p) cid = Some c"
  shows "bget (member_routes p ids) (member_key c) \<noteq> None"
proof -
  have "c \<in> set (List.map_filter (bget (ps_candidates p)) ids)"
    using assms unfolding map_filter_def by (force intro: rev_image_eqI)
  then show ?thesis unfolding member_routes_def by (intro member_routes_covers) blast
qed

text \<open>Nothing but a test ever marks a native route, so the first route of a member stays.\<close>

lemma first_member_route:
  assumes "ps_native_routes p = {}" and "bget m mk = Some c"
  shows "bget (fold (add_member_route p) cs m) mk = Some c"
  using assms(2)
proof (induction cs arbitrary: m)
  case (Cons d ds)
  have "bget (add_member_route p d m) mk = Some c"
    using Cons.prems assms(1)
    by (auto simp: add_member_route_def compare_member_routes_def cmp_def Let_def)
  then show ?case using Cons.IH by simp
qed simp

lemma member_route_least:
  assumes "ps_native_routes p = {}" and "pool_keyed p" and "sorted_wrt (<) ids"
    and "bget (member_routes p ids) mk = Some c"
    and "cid \<in> set ids" "bget (ps_candidates p) cid = Some d" "member_key d = mk"
  shows "cn_id c \<le> cid"
  using assms(3-)
proof (induction ids)
  case (Cons x xs)
  show ?case
  proof (cases "bget (ps_candidates p) x")
    case None
    then have "member_routes p (x # xs) = member_routes p xs"
      by (simp add: member_routes_def map_filter_simps)
    moreover have "cid \<noteq> x" using None Cons.prems by auto
    ultimately show ?thesis using Cons by simp
  next
    case (Some y)
    then have fold: "member_routes p (x # xs) =
        fold (add_member_route p) (List.map_filter (bget (ps_candidates p)) xs) (add_member_route p y bempty)"
      by (simp add: member_routes_def map_filter_simps)
    have y: "cn_id y = x" using assms(2) Some by (simp add: pool_keyed_def)
    have one: "bget (add_member_route p y bempty) k = (if k = member_key y then Some y else None)" for k
      by (simp add: add_member_route_def compare_member_routes_def cmp_def Let_def)
    show ?thesis
    proof (cases "member_key y = mk")
      case True
      then have "bget (member_routes p (x # xs)) mk = Some y"
        unfolding fold by (intro first_member_route assms(1)) (simp add: one)
      then show ?thesis using Cons.prems y by auto
    next
      case False
      then have "cid \<noteq> x" using Some Cons.prems by auto
      then have cid: "cid \<in> set xs" using Cons.prems by simp
      have "bget (member_routes p xs) mk = Some c"
        using Cons.prems(2) member_routes_local [of "add_member_route p y bempty" mk bempty] False
        unfolding fold by (simp add: one member_routes_def)
      with cid show ?thesis using Cons by simp
    qed
  qed
qed simp

section \<open>Lemmas: requests\<close>

lemma quota_reserve_rotation [simp]:
  "quota_reserve_allows (p\<lparr>ps_rotation := e\<rparr>) c now_ms = quota_reserve_allows p c now_ms"
  by (simp add: quota_reserve_allows_def split: option.split candidate_quota.split)

lemma member_capacity_rotation [simp]:
  "member_capacity_allows (p\<lparr>ps_rotation := e\<rparr>) c = member_capacity_allows p c"
  by (simp add: member_capacity_allows_def member_policy_def)

lemma sync_fields [simp]:
  "ps_candidates (sync_all_rotation_candidates p) = ps_candidates p"
  "ps_retired (sync_all_rotation_candidates p) = ps_retired p"
  "ps_native_routes (sync_all_rotation_candidates p) = ps_native_routes p"
  "ps_response_affinity (sync_all_rotation_candidates p) = ps_response_affinity p"
  "ps_prompt_affinity (sync_all_rotation_candidates p) = ps_prompt_affinity p"
  "pool_keyed (sync_all_rotation_candidates p) = pool_keyed p"
  "rotation_visible (sync_all_rotation_candidates p) c = rotation_visible p c"
  "lane_allows (sync_all_rotation_candidates p) c = lane_allows p c"
  by (simp_all add: sync_all_rotation_candidates_def pool_keyed_def rotation_visible_def
      lane_allows_def fun_eq_iff)

lemma visible_sync [simp]:
  "visible_candidates (sync_all_rotation_candidates p) r = visible_candidates p r"
  by (simp add: visible_candidates_def)

lemma member_routes_same:
  "ps_candidates q = ps_candidates p \<Longrightarrow> ps_native_routes q = ps_native_routes p \<Longrightarrow>
   member_routes q ids = member_routes p ids"
proof -
  assume same: "ps_candidates q = ps_candidates p" "ps_native_routes q = ps_native_routes p"
  then have "add_member_route q = add_member_route p"
    by (simp add: add_member_route_def compare_member_routes_def fun_eq_iff Let_def)
  with same show ?thesis by (simp add: member_routes_def)
qed

lemma request_for_fields [simp]:
  "req_owner (rotation_request_for fresh owner model op ids) = owner"
  "allowed_candidates (rotation_request_for fresh owner model op ids) = Some ids"
  "tried (rotation_request_for fresh owner model op ids) = {}"
  "req_model (rotation_request_for fresh owner model op ids) = model"
  "req_operation (rotation_request_for fresh owner model op ids) = op"
  "req_route_key (rotation_request_for fresh owner model op ids) = rotation_route_key model op"
  "req_id (rotation_request_for fresh owner model op ids) = fresh"
  by (simp_all add: rotation_request_for_def new_request_def with_allowed_candidates_def
      request_with_operation_def request_with_owner_def Let_def split: option.split)

lemma synced_request:
  assumes "rotation_request_from_synced_state fresh p r op = (Some request, p')"
  obtains responses prompts where
    "\<not> ps_retired p"
    "req_owner request = fst (lookup_owner (sr_response_key r) (sr_now_ms r) (ps_response_affinity p))"
    "allowed_candidates request = Some (if req_owner request = None
       then set (map cn_id (bvalues (member_routes p (bkeys (visible_candidates p r)))))
       else set (bkeys (visible_candidates p r)))"
    "is_none_or (req_owner request) (bcontains (visible_candidates p r))"
    "req_model request = sr_model r" "req_operation request = op"
    "req_route_key request = rotation_route_key (sr_model r) op" "tried request = {}"
    "p' = p\<lparr>ps_response_affinity := responses, ps_prompt_affinity := prompts\<rparr>"
proof -
  obtain owner responses where lookup:
    "lookup_owner (sr_response_key r) (sr_now_ms r) (ps_response_affinity p) = (owner, responses)"
    by fastforce
  obtain prompt_owner prompts where prompt: "lookup_owner (sr_prompt_key r) (sr_now_ms r)
      (ps_prompt_affinity (p\<lparr>ps_response_affinity := responses\<rparr>)) = (prompt_owner, prompts)"
    by fastforce
  have routes: "member_routes (p\<lparr>ps_response_affinity := responses\<rparr>) ids = member_routes p ids" for ids
    by (rule member_routes_same) simp_all
  from assms lookup prompt have
    "\<not> ps_retired p \<and> is_none_or owner (bcontains (visible_candidates p r)) \<and>
     p' = p\<lparr>ps_response_affinity := responses, ps_prompt_affinity := prompts\<rparr> \<and>
     (\<exists>preferred warm. request = (rotation_request_for fresh owner (sr_model r) op
       (if owner = None then set (map cn_id (bvalues (member_routes p (bkeys (visible_candidates p r)))))
        else set (bkeys (visible_candidates p r))))\<lparr>req_preferred := preferred, warm_fallbacks := warm\<rparr>)"
    by (auto simp: rotation_request_from_synced_state_def Let_def routes is_none_or_iff is_some_and_iff
        split: if_splits)
  with lookup show ?thesis by (intro that [where responses = responses and prompts = prompts]) auto
qed

lemma prepared_synced:
  assumes "prepare_rotation_request fresh p r op = (Some request, p')"
  shows "rotation_request_from_synced_state fresh (sync_all_rotation_candidates p) r op = (Some request, p')"
  using assms by (simp add: prepare_rotation_request_def split: if_splits)

text \<open>Every candidate a request allows is visible for it.\<close>

lemma allowed_visible:
  assumes "rotation_request_from_synced_state fresh p r op = (Some request, p')"
    and "allowed_candidates request = Some ids" "cid \<in> ids" "pool_keyed p"
  shows "bcontains (visible_candidates p r) cid"
proof (rule synced_request [OF assms(1)])
  assume ids: "allowed_candidates request = Some (if req_owner request = None
       then set (map cn_id (bvalues (member_routes p (bkeys (visible_candidates p r)))))
       else set (bkeys (visible_candidates p r)))"
  show ?thesis
  proof (cases "req_owner request = None")
    case True
    then obtain mk c where "bget (member_routes p (bkeys (visible_candidates p r))) mk = Some c" "cid = cn_id c"
      using ids assms(2,3) by (auto simp: in_bvalues)
    with member_routes_in(2) [OF this(1)] assms(4) show ?thesis
      by (auto simp: pool_keyed_def bcontains_keys)
  next
    case False
    from ids [unfolded if_not_P [OF this]] show ?thesis
      using assms(2,3) by (simp add: bcontains_keys)
  qed
qed

section \<open>Selection\<close>

lemma select_for_operation_Some:
  assumes "select_for_operation fresh p r lane op = (Some s, p')"
  obtains request p1 chosen where
    "rotation_request_from_synced_state fresh (sync_all_rotation_candidates p) r op = (Some request, p1)"
    "psel_rotation_request s = restrict_to_lane p1 lane request"
    "select (ps_rotation p1) (psel_rotation_request s) (sr_now_ms r) = Some chosen"
    "psel_candidate_id s = sel_candidate_id chosen" "psel_half_open_probe s = sel_recovery chosen"
    "psel_response_affinity_hit s = (req_owner request \<noteq> None)"
    "p' = p1\<lparr>ps_prompt_affinity := ps_prompt_affinity p'\<rparr>"
proof -
  obtain prepared p1 where prep: "prepare_rotation_request fresh p r op = (prepared, p1)" by fastforce
  with assms obtain request where request: "prepared = Some request"
    by (cases prepared) (simp_all add: select_for_operation_def)
  let ?request = "restrict_to_lane p1 lane request"
  from assms obtain chosen where chosen: "select (ps_rotation p1) ?request (sr_now_ms r) = Some chosen"
    by (auto simp: select_for_operation_def prep request Let_def split: option.splits)
  have owner: "req_owner ?request = req_owner request" by (simp add: restrict_to_lane_def)
  show ?thesis
    using assms prepared_synced [of fresh p r op request p1] prep request chosen owner
    by (intro that [of request p1 chosen])
      (auto simp: select_for_operation_def Let_def split: option.splits)
qed

text \<open>C8: a selection on the pool names a candidate that may serve the request now: it is registered,
  not tried, not retired, not fenced, not blocked for the model, outside the protected reserve,
  structurally configured for the model, protocols and scope, within the concurrency of its member
  and lane, and ready in the rotation engine.\<close>

theorem selection_permitted:
  assumes "pool_keyed p" and "select_for_operation fresh p r lane op = (Some s, p')"
  shows "\<exists>c. bget (ps_candidates p) (psel_candidate_id s) = Some c \<and>
    psel_candidate_id s \<notin> sr_tried r \<and>
    rotation_visible p c (sr_model r) (sr_allowed_protocols r) (sr_scope r) (sr_now_ms r) \<and>
    lane_allows p c lane \<and>
    candidate_availability (ps_rotation p') (psel_rotation_request s) (psel_candidate_id s) (sr_now_ms r)
      = AvReady (psel_half_open_probe s)"
proof -
  obtain request p1 chosen where s:
    "rotation_request_from_synced_state fresh (sync_all_rotation_candidates p) r op = (Some request, p1)"
    "psel_rotation_request s = restrict_to_lane p1 lane request"
    "select (ps_rotation p1) (psel_rotation_request s) (sr_now_ms r) = Some chosen"
    "psel_candidate_id s = sel_candidate_id chosen" "psel_half_open_probe s = sel_recovery chosen"
    "p' = p1\<lparr>ps_prompt_affinity := ps_prompt_affinity p'\<rparr>"
    by (rule select_for_operation_Some [OF assms(2)])
  obtain responses prompts where
    p1: "p1 = (sync_all_rotation_candidates p)\<lparr>ps_response_affinity := responses, ps_prompt_affinity := prompts\<rparr>"
    by (rule synced_request [OF s(1)])
  obtain ids where ids: "allowed_candidates request = Some ids"
    by (rule synced_request [OF s(1)]) blast
  have "request_scope (restrict_to_lane p1 lane request) (psel_candidate_id s)"
    using selected_ready(2) [OF s(3)] s(2,4) by simp
  then have cid: "psel_candidate_id s \<in> ids"
    and lane: "is_some_and (bget (ps_candidates p1) (psel_candidate_id s)) (\<lambda>c. lane_allows p1 c lane)"
    by (simp_all add: request_scope_def restrict_to_lane_def ids)
  from cid have "bcontains (visible_candidates (sync_all_rotation_candidates p) r) (psel_candidate_id s)"
    by (intro allowed_visible [OF s(1) ids]) (simp_all add: assms(1))
  then obtain c where c: "bget (ps_candidates p) (psel_candidate_id s) = Some c"
    "psel_candidate_id s \<notin> sr_tried r"
    "rotation_visible p c (sr_model r) (sr_allowed_protocols r) (sr_scope r) (sr_now_ms r)"
    by (auto simp: visible_iff [OF assms(1)])
  have "lane_allows p1 d lane = lane_allows p d lane" for d
    by (simp add: p1 sync_all_rotation_candidates_def lane_allows_def member_capacity_allows_def
        member_policy_def)
  with lane c(1) have "lane_allows p c lane" by (simp add: p1)
  moreover have "ps_rotation p' = ps_rotation p1" by (subst s(6)) simp
  ultimately show ?thesis using c selected_ready(1) [OF s(3)] s(4,5) by auto
qed

text \<open>a response continues on its owner: while the response of a request has a live owner, the
  selection is this owner or nothing, never another candidate, and it is reported as an affinity
  hit; a request without one is not.\<close>

theorem response_continues_on_owner:
  assumes "select_for_operation fresh p r lane op = (Some s, p')"
  shows "psel_response_affinity_hit s
      = (fst (lookup_owner (sr_response_key r) (sr_now_ms r) (ps_response_affinity p)) \<noteq> None) \<and>
    is_none_or (fst (lookup_owner (sr_response_key r) (sr_now_ms r) (ps_response_affinity p)))
      (\<lambda>owner. psel_candidate_id s = owner)"
proof -
  obtain request p1 chosen where s:
    "rotation_request_from_synced_state fresh (sync_all_rotation_candidates p) r op = (Some request, p1)"
    "psel_rotation_request s = restrict_to_lane p1 lane request"
    "select (ps_rotation p1) (psel_rotation_request s) (sr_now_ms r) = Some chosen"
    "psel_candidate_id s = sel_candidate_id chosen"
    "psel_response_affinity_hit s = (req_owner request \<noteq> None)"
    by (rule select_for_operation_Some [OF assms])
  have "req_owner request = fst (lookup_owner (sr_response_key r) (sr_now_ms r) (ps_response_affinity p))"
    by (rule synced_request [OF s(1)]) simp
  then show ?thesis
    using selected_ready(2) [OF s(3)] s(2,4,5)
    by (simp add: request_scope_def restrict_to_lane_def is_none_or_iff)
qed

text \<open>every physical member has one vote: a request without an owner allows for each member with
  a visible candidate exactly one route, the one with the least identifier, so protocol aliases
  change neither weight nor capacity.\<close>

theorem one_route_per_member:
  assumes "pool_keyed p" and "ps_native_routes p = {}"
    and "rotation_request_from_synced_state fresh p r op = (Some request, p')"
    and "req_owner request = None"
  shows "\<exists>ids. allowed_candidates request = Some ids \<and>
    (\<forall>a \<in> ids. \<forall>b \<in> ids. member_key_for p a = member_key_for p b \<longrightarrow> a = b) \<and>
    (\<forall>cid. bcontains (visible_candidates p r) cid \<longrightarrow>
       (\<exists>a \<in> ids. member_key_for p a = member_key_for p cid \<and> a \<le> cid \<and>
          bcontains (visible_candidates p r) a))"
proof -
  let ?vis = "bkeys (visible_candidates p r)"
  let ?m = "member_routes p ?vis"
  define ids where "ids = set (map cn_id (bvalues ?m))"
  have allow: "allowed_candidates request = Some ids"
    by (rule synced_request [OF assms(3)]) (simp add: ids_def assms(4))
  have ids: "a \<in> ids \<longleftrightarrow> (\<exists>c mk. bget ?m mk = Some c \<and> a = cn_id c)" for a
    unfolding ids_def by (force simp: in_bvalues)
  have route: "member_key_for p (cn_id c) = Some mk \<and> cn_id c \<in> set ?vis"
    if "bget ?m mk = Some c" for mk c
    using member_routes_in [OF that] assms(1) by (auto simp: member_key_for_def pool_keyed_def)
  have "a = b" if "a \<in> ids" "b \<in> ids" "member_key_for p a = member_key_for p b" for a b
    using that route by (auto simp: ids)
  moreover have "\<exists>a \<in> ids. member_key_for p a = member_key_for p cid \<and> a \<le> cid \<and>
      bcontains (visible_candidates p r) a"
    if vis: "bcontains (visible_candidates p r) cid" for cid
  proof -
    obtain d where "bget (ps_candidates p) cid = Some d"
      using vis unfolding visible_iff [OF assms(1)] by blast
    moreover have "cid \<in> set ?vis" using vis by (simp add: bcontains_keys)
    ultimately have d: "bget (ps_candidates p) cid = Some d" "cid \<in> set ?vis" by simp_all
    then obtain c where c: "bget ?m (member_key d) = Some c"
      using member_routes_present [of cid ?vis p d] by auto
    have "cn_id c \<le> cid"
      by (rule member_route_least [OF assms(2,1) bkeys_sorted c d(2,1) refl])
    moreover have "cn_id c \<in> ids" using c by (auto simp: ids)
    moreover have "member_key_for p cid = Some (member_key d)" using d(1) by (simp add: member_key_for_def)
    ultimately show ?thesis using route [OF c] by (intro bexI [of _ "cn_id c"]) (simp_all add: bcontains_keys)
  qed
  ultimately show ?thesis using allow by blast
qed

section \<open>The preview ends\<close>

lemma preview_pass_part:
  assumes "preview_pass fresh p scope now_ms paths requests chosen = Some (out, rs)"
    and "requests = [] \<or> length requests = length paths"
    and "\<And>r. r \<in> set requests \<Longrightarrow> P r"
    and "\<And>path r. requests = [] \<Longrightarrow> preview_request fresh p scope now_ms path = Some r \<Longrightarrow> P r"
  shows "length rs = length paths \<and> (\<forall>r \<in> set rs. P r) \<and>
    (chosen = None \<longrightarrow> (\<forall>cid. out = Some cid \<longrightarrow> (\<exists>r \<in> set rs. request_scope r cid))) \<and>
    (\<forall>cid. chosen = Some cid \<longrightarrow> out = Some cid)"
  using assms
proof (induction paths arbitrary: requests chosen rs)
  case (Cons path rest)
  obtain r where r: "(case requests of [] \<Rightarrow> preview_request fresh p scope now_ms path | r # _ \<Rightarrow> Some r) = Some r"
    using Cons.prems(1) by (auto split: option.splits)
  then have Pr: "P r" using Cons.prems(3,4) by (cases requests) auto
  obtain s where s: "select (ps_rotation p) r now_ms = Some s"
    using Cons.prems(1) r by (auto split: option.splits)
  obtain rs' where rs: "preview_pass fresh p scope now_ms rest (tl requests)
      (Some (unwrap_or chosen (sel_candidate_id s))) = Some (out, rs')" "rs = r # rs'"
    using Cons.prems(1) r s by (auto split: if_splits)
  have shape: "tl requests = [] \<or> length (tl requests) = length rest"
    using Cons.prems(2) by (cases requests) auto
  have old: "\<And>r. r \<in> set (tl requests) \<Longrightarrow> P r"
    using Cons.prems(3) by (cases requests) auto
  have new: "P r'" if "tl requests = []" "preview_request fresh p scope now_ms path' = Some r'"
    "rest \<noteq> []" for path' r'
    using that Cons.prems(2,4) by (cases requests) auto
  have IH: "length rs' = length rest \<and> (\<forall>r \<in> set rs'. P r) \<and>
      out = Some (unwrap_or chosen (sel_candidate_id s))"
  proof (cases "rest = []")
    case True
    then show ?thesis using rs(1) by simp
  next
    case False
    then have "length rs' = length rest \<and> (\<forall>r \<in> set rs'. P r) \<and>
        (\<forall>cid. Some (unwrap_or chosen (sel_candidate_id s)) = Some cid \<longrightarrow> out = Some cid)"
      using Cons.IH [OF rs(1) shape old] new by blast
    then show ?thesis by blast
  qed
  then show ?case using rs(2) Pr selected_ready(2) [OF s] by (cases chosen) auto
qed simp

definition preview_inv ::
  "pool_scheduler \<Rightarrow> (string \<times> wire_api) list \<Rightarrow> rotation_request list \<Rightarrow> string list \<Rightarrow> bool" where
  "preview_inv p paths requests order \<longleftrightarrow>
     distinct (map (member_key_for p) order) \<and> set order \<subseteq> set (bkeys (ps_candidates p)) \<and>
     (order = [] \<and> requests = [] \<or> length requests = length paths) \<and>
     (\<forall>r \<in> set requests. \<exists>ids. allowed_candidates r = Some ids \<and>
        ids \<subseteq> set (bkeys (ps_candidates p)) \<and>
        (\<forall>x \<in> ids. \<forall>cid \<in> set order. member_key_for p x \<noteq> member_key_for p cid))"

lemma preview_request_allowed:
  assumes "preview_request fresh p scope now_ms path = Some r" and "pool_keyed p"
  shows "\<exists>ids. allowed_candidates r = Some ids \<and> ids \<subseteq> set (bkeys (ps_candidates p))"
proof -
  obtain request q where request: "rotation_request_from_synced_state fresh p
      \<lparr>sr_model = fst path, sr_allowed_protocols = [snd path], sr_scope = scope, sr_tried = {},
       sr_response_key = None, sr_prompt_key = None, sr_now_ms = now_ms\<rparr> OpText = (Some request, q)"
    and r: "r = restrict_to_lane p TextLane request"
    using assms(1) by (auto simp: preview_request_def) (metis prod.collapse)
  obtain ids where ids: "allowed_candidates request = Some ids"
    by (rule synced_request [OF request]) blast
  have "x \<in> set (bkeys (ps_candidates p))" if "x \<in> ids" for x
    using allowed_visible [OF request ids that assms(2)]
    by (auto simp: visible_iff [OF assms(2)] in_bkeys)
  then show ?thesis using ids by (auto simp: r restrict_to_lane_def)
qed

lemma preview_inv_step:
  assumes "preview_inv p paths requests order" and "pool_keyed p"
    and "preview_pass fresh p scope now_ms paths requests None = Some (Some cid, rs)"
  shows "preview_inv p paths (map (exclude_member p cid) rs) (order @ [cid])"
proof -
  let ?P = "\<lambda>r. \<exists>ids. allowed_candidates r = Some ids \<and> ids \<subseteq> set (bkeys (ps_candidates p)) \<and>
        (\<forall>x \<in> ids. \<forall>cid \<in> set order. member_key_for p x \<noteq> member_key_for p cid)"
  have part: "length rs = length paths" "\<forall>r \<in> set rs. ?P r" "\<exists>r \<in> set rs. request_scope r cid"
  proof -
    have shape: "requests = [] \<or> length requests = length paths" and old: "\<forall>r \<in> set requests. ?P r"
      and fresh_order: "requests = [] \<longrightarrow> order = [] \<or> paths = []"
      using assms(1) by (auto simp: preview_inv_def)
    have "paths \<noteq> []" using assms(3) by (cases paths) simp_all
    then have "?P r" if "requests = []" "preview_request fresh p scope now_ms path = Some r" for path r
      using preview_request_allowed [OF that(2) assms(2)] fresh_order that(1) by auto
    then show "length rs = length paths" "\<forall>r \<in> set rs. ?P r" "\<exists>r \<in> set rs. request_scope r cid"
      using preview_pass_part [OF assms(3) shape, of ?P] old by blast+
  qed
  then obtain r ids where r: "r \<in> set rs" "allowed_candidates r = Some ids" "cid \<in> ids"
    "ids \<subseteq> set (bkeys (ps_candidates p))"
    "\<forall>x \<in> ids. \<forall>cid \<in> set order. member_key_for p x \<noteq> member_key_for p cid"
    by (fastforce simp: request_scope_def)
  have "\<exists>ids. allowed_candidates (exclude_member p cid r) = Some ids \<and>
      ids \<subseteq> set (bkeys (ps_candidates p)) \<and>
      (\<forall>x \<in> ids. \<forall>c \<in> set (order @ [cid]). member_key_for p x \<noteq> member_key_for p c)"
    if "r \<in> set rs" for r
    using part(2) that by (fastforce simp: exclude_member_def)
  moreover have "distinct (map (member_key_for p) (order @ [cid]))"
    using assms(1) r(3,5) by (auto simp: preview_inv_def)
  ultimately show ?thesis
    using assms(1) part(1) r(3,4) by (auto simp: preview_inv_def)
qed

lemma preview_loop_ends:
  assumes "preview_inv p paths requests order" and "pool_keyed p"
    and "out = preview_loop fresh p scope now_ms paths fuel requests order"
  shows "distinct (map (member_key_for p) out) \<and> set out \<subseteq> set (bkeys (ps_candidates p)) \<and>
    (length out < length order + fuel \<longrightarrow>
       preview_loop fresh p scope now_ms paths (fuel + extra) requests order = out)"
  using assms(1,3)
proof (induction fuel arbitrary: requests order)
  case 0
  then show ?case by (simp add: preview_inv_def)
next
  case (Suc fuel)
  show ?case
  proof (cases "\<exists>cid rs. preview_pass fresh p scope now_ms paths requests None = Some (Some cid, rs)")
    case True
    then obtain cid rs where pass: "preview_pass fresh p scope now_ms paths requests None = Some (Some cid, rs)"
      by blast
    from Suc.IH [OF preview_inv_step [OF Suc.prems(1) assms(2) pass]] Suc.prems(2) pass
    show ?thesis by simp
  next
    case False
    then have "(case preview_pass fresh p scope now_ms paths requests None of
        Some (Some cid, rs) \<Rightarrow> f cid rs | _ \<Rightarrow> order) = order" for f
      by (auto split: option.split)
    with Suc.prems show ?thesis by (simp add: preview_inv_def)
  qed
qed

text \<open>the preview of the next members ends: its loop, which has no bound in the code, stops within
  one round more than there are candidates, so more fuel never changes the result; it names
  registered candidates and no physical member twice.\<close>

theorem preview_ends:
  assumes "pool_keyed p"
  shows "preview_loop fresh p scope now_ms (preview_routes p scope rules protocols)
      (preview_fuel p + extra) [] [] = preview_selection_order fresh p scope rules protocols now_ms \<and>
    distinct (map (member_key_for p) (preview_selection_order fresh p scope rules protocols now_ms)) \<and>
    set (preview_selection_order fresh p scope rules protocols now_ms) \<subseteq> set (bkeys (ps_candidates p))"
proof -
  let ?out = "preview_selection_order fresh p scope rules protocols now_ms"
  have inv: "preview_inv p (preview_routes p scope rules protocols) [] []"
    by (simp add: preview_inv_def)
  note ends = preview_loop_ends [OF inv assms preview_selection_order_def, where extra = extra]
  then have "distinct ?out" "set ?out \<subseteq> set (bkeys (ps_candidates p))"
    by (auto simp: distinct_map)
  then have "length ?out \<le> bsize (ps_candidates p)"
    by (metis bkeys_distinct bsize_keys card_mono distinct_card finite_set)
  with ends show ?thesis by (simp add: preview_fuel_def)
qed

end
