(* ===== verification/PoolRuns.thy ===== *)
theory PoolRuns
  imports PoolChoice
begin

text \<open>
  The transition system of the pool: every method on \<open>&mut PoolScheduler\<close> with its arguments, in any
  order.  A step is \<open>None\<close> where the code panics.  The questions of the request loop
  (\<open>capacity_blocked_for\<close>, \<open>earliest_retry_at\<close> and so on) change the pool as the preparation of
  their request does, so they are the event \<open>PePrepare\<close>.

  A reservation is only made while fewer than \<open>2 ^ 32 - 1\<close> are alive: the counters of the code are
  \<open>u32\<close> and saturate there, and so many requests do not fit into memory.
\<close>

text \<open>Configuration and observations of the candidates.\<close>

datatype registry_event =
    PeRouting pool_policy
  | PeForgetReferences string
  | PeReferences "(string, candidate_quota_reference) bmap"
  | PeStaleAfter u64
  | PeUpsert runtime_candidate
  | PeRemove string
  | PeProtect "string option" u64
  | PeAvailability string bool candidate_health candidate_quota "u64 option"
  | PeAvailabilityQuota string bool candidate_health candidate_quota_state
  | PeQuota string candidate_quota_state
  | PeHealth string candidate_health
  | PeRetire

primrec registry_step :: "registry_event \<Rightarrow> pool_scheduler \<Rightarrow> pool_scheduler option" where
  "registry_step (PeRouting policy) p = map_option snd (set_pool_routing p policy)"
| "registry_step (PeForgetReferences name) p = Some (snd (invalidate_quota_reference_source p name))"
| "registry_step (PeReferences references) p = Some (snd (set_quota_references p references))"
| "registry_step (PeStaleAfter ms) p = Some (pool_set_quota_stale_after_ms p ms)"
| "registry_step (PeUpsert c) p = pool_upsert p c"
| "registry_step (PeRemove cid) p = Some (snd (pool_remove p cid))"
| "registry_step (PeProtect cid n) p = Some (snd (set_protected_candidate p cid n))"
| "registry_step (PeAvailability cid on h q at) p = Some (snd (update_candidate_availability_at p cid on h q at))"
| "registry_step (PeAvailabilityQuota cid on h q) p =
     Some (snd (update_candidate_availability_with_quota_at p cid on h q))"
| "registry_step (PeQuota cid q) p = Some (snd (update_candidate_quota_at p cid q))"
| "registry_step (PeHealth cid h) p = Some (snd (set_candidate_health p cid h))"
| "registry_step PeRetire p = Some (retire_for_replacement p)"

text \<open>Fences, capability blocks, cooldowns and rate limits.\<close>

datatype guard_event =
    PeFence string bool
  | PeBeginFence string
  | PeEndFence string u64
  | PeBlock string string
  | PeUnblock string
  | PeSuccess string string u64
  | PeCooldown string cooldown_request
  | PeClearCooldown string string
  | PeRateLimit string "u8 list" cooldown_request u64
  | PeResetBackoff string string u64

primrec guard_step :: "guard_event \<Rightarrow> pool_scheduler \<Rightarrow> pool_scheduler option" where
  "guard_step (PeFence cid fenced) p = map_option snd (set_execution_fence p cid fenced)"
| "guard_step (PeBeginFence cid) p = map_option snd (begin_execution_fence p cid)"
| "guard_step (PeEndFence cid fence) p = Some (end_execution_fence p cid fence)"
| "guard_step (PeBlock cid model) p = Some (snd (block_capability p cid model))"
| "guard_step (PeUnblock cid) p = Some (snd (clear_capability_blocks p cid))"
| "guard_step (PeSuccess cid model now_ms) p = Some (snd (record_success p cid model now_ms))"
| "guard_step (PeCooldown cid request) p = Some (snd (set_cooldown_with_reason p cid request))"
| "guard_step (PeClearCooldown cid model) p = Some (snd (clear_cooldown p cid model))"
| "guard_step (PeRateLimit cid bucket request now_ms) p =
     Some (observe_shared_rate_limit p cid bucket request now_ms)"
| "guard_step (PeResetBackoff cid model now_ms) p = Some (reset_shared_rate_limit_backoff p cid model now_ms)"

text \<open>Selection, reservations and their way through the engine.\<close>

datatype work_event =
    PeSync
  | PePrepare request_id selection_request rotation_operation
  | PeSelect request_id selection_request in_flight_lane rotation_operation
  | PeReserve request_id string string u64 bool rotation_operation "request_id option"
      "rotation_request option"
  | PeRelease reservation_id
  | PeReleaseUnstarted reservation_id
  | PeDispatch reservation_id request_budget instant u64
  | PeSettle reservation_id attempt_observation request_budget u64 "u64 option" instant
  | PeCancel reservation_id request_budget u64 instant

primrec work_step :: "work_event \<Rightarrow> pool_scheduler \<Rightarrow> pool_scheduler option" where
  "work_step PeSync p = Some (snd (pool_all_capacity_reserved p))"
| "work_step (PePrepare fresh r op) p = Some (snd (prepare_rotation_request fresh p r op))"
| "work_step (PeSelect fresh r lane op) p = Some (snd (select_for_operation fresh p r lane op))"
| "work_step (PeReserve fresh cid model now_ms is_image op request_id given) p =
     (if bsize (active (ps_reservations p)) < 2 ^ 32 - 1
      then Some (snd (reserve_request_with_operation fresh p cid model now_ms is_image op request_id given))
      else None)"
| "work_step (PeRelease rid) p = Some (snd (release_reservation p rid))"
| "work_step (PeReleaseUnstarted rid) p = Some (snd (release_rotation_unstarted p rid))"
| "work_step (PeDispatch rid b now wall_ms) p = Some (fst (snd (begin_rotation_dispatch p rid b now wall_ms)))"
| "work_step (PeSettle rid observation b now_ms latency now) p =
     Some (snd (settle_rotation_with_latency p rid observation b now_ms latency now))"
| "work_step (PeCancel rid b now_ms now) p = Some (snd (cancel_rotation p rid b now_ms now))"

text \<open>Owners of responses and prompts.\<close>

datatype owner_event =
    PeBindResponse string string u64
  | PeBindPrompt string string u64
  | PeBindSticky string string u64
  | PeRestoreResponse string string u64 u64
  | PeRestorePrompt string string u64 u64
  | PeAskResponse string u64
  | PeAskPrompt string u64
  | PeForgetResponse string
  | PeForgetPrompt string
  | PeForgetPromptOf string string
  | PeYield request_id string string "wire_api list" candidate_scope "string set" u64

primrec owner_step :: "owner_event \<Rightarrow> pool_scheduler \<Rightarrow> pool_scheduler option" where
  "owner_step (PeBindResponse key cid now_ms) p = map_option snd (bind_response_affinity p key cid now_ms)"
| "owner_step (PeBindPrompt key cid now_ms) p = map_option snd (bind_prompt_affinity p key cid now_ms)"
| "owner_step (PeBindSticky key cid now_ms) p = map_option snd (bind_prompt_affinity_sticky p key cid now_ms)"
| "owner_step (PeRestoreResponse key cid expires now_ms) p =
     map_option snd (restore_response_affinity p key cid expires now_ms)"
| "owner_step (PeRestorePrompt key cid expires now_ms) p =
     map_option snd (restore_prompt_affinity p key cid expires now_ms)"
| "owner_step (PeAskResponse key now_ms) p = Some (snd (response_affinity_candidate p key now_ms))"
| "owner_step (PeAskPrompt key now_ms) p = Some (snd (has_prompt_affinity p key now_ms))"
| "owner_step (PeForgetResponse key) p = Some (snd (invalidate_response_affinity p key))"
| "owner_step (PeForgetPrompt key) p = Some (snd (invalidate_prompt_affinity p key))"
| "owner_step (PeForgetPromptOf key cid) p = Some (snd (invalidate_prompt_affinity_for_candidate p key cid))"
| "owner_step (PeYield fresh key model protocols scope tried_ids now_ms) p =
     Some (snd (automatic_response_owner_should_yield fresh p key model protocols scope tried_ids now_ms))"

datatype pool_event =
  Registry registry_event | Guard guard_event | Work work_event | Owner owner_event

definition pool_step :: "pool_event \<Rightarrow> pool_scheduler \<Rightarrow> pool_scheduler option" where
  "pool_step event p =
     (case event of Registry x \<Rightarrow> registry_step x p | Guard x \<Rightarrow> guard_step x p
      | Work x \<Rightarrow> work_step x p | Owner x \<Rightarrow> owner_step x p)"

text \<open>A candidate with live reservations is linked to another physical member.\<close>

definition relinks :: "pool_event \<Rightarrow> pool_scheduler \<Rightarrow> bool" where
  "relinks event p =
     (case event of
        Registry (PeUpsert c) \<Rightarrow> list_ex (\<lambda>r. rsv_candidate_id r = cn_id c \<and> rsv_member_key r \<noteq> member_key c)
          (bvalues (active (ps_reservations p)))
      | _ \<Rightarrow> False)"

inductive reachable_pool :: "bool \<Rightarrow> pool_scheduler \<Rightarrow> bool" for relink where
  initial: "reachable_pool relink new_pool"
| step: "reachable_pool relink p \<Longrightarrow> pool_step event p = Some p' \<Longrightarrow> relink \<or> \<not> relinks event p
    \<Longrightarrow> reachable_pool relink p'"


section \<open>Steps of the engine that leave the leases alone\<close>

definition engine_quiet :: "rotation_engine \<Rightarrow> rotation_engine \<Rightarrow> bool" where
  "engine_quiet e e' \<longleftrightarrow> (reachable_engine e \<longrightarrow> reachable_engine e') \<and> leases e' = leases e"

lemma quiet_refl [simp]: "engine_quiet e e"
  by (simp add: engine_quiet_def)

lemma quiet_trans: "engine_quiet e f \<Longrightarrow> engine_quiet f g \<Longrightarrow> engine_quiet e g"
  by (simp add: engine_quiet_def)

lemma quiet_event: "engine_step event e = e' \<Longrightarrow> leases e' = leases e \<Longrightarrow> engine_quiet e e'"
  using reachable_engine.step [of e event] by (auto simp: engine_quiet_def)

lemma quiet_fold: "(\<And>x e. engine_quiet e (f x e)) \<Longrightarrow> engine_quiet e (fold f xs e)"
  by (induction xs arbitrary: e) (auto intro: quiet_trans)

lemma edit_leases [simp]: "leases (snd (edit_candidate e cid f)) = leases e"
  by (simp add: edit_candidate_def split: option.split)

lemma upsert_leases [simp]: "leases (snd (upsert e c)) = leases e"
  by (simp add: upsert_def update_member_def Let_def split: sum.split option.split)

lemma remove_candidate_leases [simp]: "leases (snd (remove_candidate e cid)) = leases e"
  by (simp add: remove_candidate_def split: option.split)

lemma quiet_ops:
  "engine_quiet e (set_mode e m)" "engine_quiet e (set_quota_stale_after_ms e ms)"
  "engine_quiet e (snd (upsert e c))" "engine_quiet e (snd (remove_candidate e cid))"
  "engine_quiet e (snd (sync_candidate_state e cid on drain a q r))"
  "engine_quiet e (snd (set_quota_remaining e cid n t))"
  "engine_quiet e (snd (set_provider_credits e cid credits unlimited t))"
  "engine_quiet e (snd (sync_candidate_route_rate e cid key r))"
  by (rule quiet_event [of "EvSetMode m"] quiet_event [of "EvSetQuotaStale ms"] quiet_event [of "EvUpsert c"]
      quiet_event [of "EvRemove cid"] quiet_event [of "EvSyncState cid on drain a q r"]
      quiet_event [of "EvSetQuotaRemaining cid n t"]
      quiet_event [of "EvSetProviderCredits cid credits unlimited t"]
      quiet_event [of "EvSyncRouteRate cid key r"];
      simp add: set_mode_def set_quota_stale_after_ms_def sync_candidate_state_def
        set_quota_remaining_def set_provider_credits_def sync_candidate_route_rate_def Let_def)+

lemma sync_candidate_quiet: "engine_quiet e (sync_candidate p c e)"
  unfolding sync_candidate_def Let_def
  by (auto intro!: quiet_fold quiet_ops split: option.split
      intro: quiet_trans [OF quiet_trans [OF quiet_trans [OF quiet_trans [OF quiet_ops(3) quiet_ops(5)]
        quiet_ops(6)] quiet_ops(7)] quiet_fold])

lemma sync_engine_quiet: "engine_quiet (ps_rotation p) (sync_engine p)"
  unfolding sync_engine_def Let_def
  by (rule quiet_trans [OF quiet_trans [OF quiet_ops(2) quiet_fold [OF sync_candidate_quiet]] quiet_fold [OF quiet_ops(4)]])

end
