(* ===== verification/PoolQuiet.thy ===== *)
theory PoolQuiet
  imports PoolRuns
begin

text \<open>
  The steps of the pool that touch neither reservations nor leases: \<open>pool_quiet\<close> relates the pools
  before and after, and every operation on observations, cooldowns, fences, requests, selections and
  owners is quiet.  The invariants of the pool are stated over what a quiet step keeps.
\<close>

section \<open>Steps that leave the reservations alone\<close>

definition holdings where
  "holdings p = (ps_reservations p, ps_rotation_leases p, ps_activity p, ps_member_activity p,
     ps_retired_candidates p, ps_native_routes p)"

definition names_of :: "pool_scheduler \<Rightarrow> string \<Rightarrow> (string \<times> string) option" where
  "names_of p cid = map_option (\<lambda>c. (cn_id c, member_key c)) (bget (ps_candidates p) cid)"

definition fences_ok :: "pool_scheduler \<Rightarrow> bool" where
  "fences_ok p \<longleftrightarrow> (\<forall>cid fence n. bget (ps_execution_fences p) cid = Some (fence, n) \<longrightarrow>
     0 < n \<and> fence \<le> ps_next_fence_epoch p)"

definition pool_quiet :: "pool_scheduler \<Rightarrow> pool_scheduler \<Rightarrow> bool" where
  "pool_quiet p p' \<longleftrightarrow> engine_quiet (ps_rotation p) (ps_rotation p') \<and> holdings p' = holdings p \<and>
     names_of p' = names_of p \<and> (fences_ok p \<longrightarrow> fences_ok p') \<and> (rate_table_ok p \<longrightarrow> rate_table_ok p') \<and>
     (ps_retired p \<longrightarrow> ps_retired p')"

lemma pool_quiet_refl [simp]: "pool_quiet p p"
  by (simp add: pool_quiet_def)

lemma pool_quiet_trans: "pool_quiet p q \<Longrightarrow> pool_quiet q r \<Longrightarrow> pool_quiet p r"
  unfolding pool_quiet_def by (auto intro: quiet_trans)

lemma pool_quiet_fold: "(\<And>x q. pool_quiet q (f x q)) \<Longrightarrow> pool_quiet q (fold f xs q)"
  by (induction xs arbitrary: q) (auto intro: pool_quiet_trans)

text \<open>What differs in caches, references, blocks and observations only is quiet.\<close>

definition same_core :: "pool_scheduler \<Rightarrow> pool_scheduler \<Rightarrow> bool" where
  "same_core p p' \<longleftrightarrow> ps_rotation p' = ps_rotation p \<and> holdings p' = holdings p \<and>
     ps_candidates p' = ps_candidates p \<and> ps_execution_fences p' = ps_execution_fences p \<and>
     ps_next_fence_epoch p' = ps_next_fence_epoch p \<and> ps_shared_rate_limits p' = ps_shared_rate_limits p \<and>
     (ps_retired p \<longrightarrow> ps_retired p')"

lemma same_core_quiet: "same_core p p' \<Longrightarrow> pool_quiet p p'"
  by (simp add: same_core_def pool_quiet_def names_of_def fun_eq_iff fences_ok_def rate_table_ok_def)

lemma member_key_edit:
  "cn_kind c' = cn_kind c \<Longrightarrow> cn_account_id c' = cn_account_id c \<Longrightarrow> cn_id c' = cn_id c \<Longrightarrow>
   cn_source_id c' = cn_source_id c \<Longrightarrow> member_key c' = member_key c"
  by (simp add: member_key_def identity_def split: candidate_kind.split pool_member_kind.split)

text \<open>Editing a candidate in place.\<close>

lemma names_insert:
  "bget (ps_candidates p) cid = Some c \<Longrightarrow> cn_id c' = cn_id c \<Longrightarrow> member_key c' = member_key c \<Longrightarrow>
   ps_candidates p' = binsert cid c' (ps_candidates p) \<Longrightarrow> names_of p' = names_of p"
  by (auto simp: names_of_def fun_eq_iff)

lemma names_modify:
  "(\<And>c. cn_id (f c) = cn_id c) \<Longrightarrow> (\<And>c. member_key (f c) = member_key c) \<Longrightarrow>
   ps_candidates p' = bmodify cid f (ps_candidates p) \<Longrightarrow> names_of p' = names_of p"
  by (auto simp: names_of_def fun_eq_iff option.map_comp comp_def)

lemma edit_pool_quiet:
  assumes "\<And>c. cn_id (f c) = cn_id c" "\<And>c. member_key (f c) = member_key c"
  shows "pool_quiet p (snd (edit_pool_candidate p cid f))"
proof -
  have "names_of (p\<lparr>ps_candidates := bmodify cid f (ps_candidates p)\<rparr>) = names_of p"
    by (rule names_modify [OF assms]) simp
  then show ?thesis
    by (simp add: edit_pool_candidate_def pool_quiet_def holdings_def fences_ok_def rate_table_ok_def)
qed

lemma set_cooldown_quiet: "pool_quiet p (snd (set_cooldown_with_reason p cid request))"
proof (cases "bget (ps_candidates p) cid")
  case (Some c)
  then have "names_of (snd (set_cooldown_with_reason p cid request)) = names_of p"
    by (intro ext) (auto simp: names_of_def set_cooldown_with_reason_def Let_def intro: member_key_edit)
  then show ?thesis
    by (simp add: pool_quiet_def set_cooldown_with_reason_def holdings_def fences_ok_def
        rate_table_ok_def Let_def split: option.split)
qed (simp add: set_cooldown_with_reason_def Let_def)

lemma record_success_quiet: "pool_quiet p (snd (record_success p cid model now_ms))"
proof (cases "bget (ps_candidates p) cid")
  case (Some c)
  then have "names_of (snd (record_success p cid model now_ms)) = names_of p"
    by (intro ext) (auto simp: names_of_def record_success_def Let_def intro: member_key_edit)
  with Some show ?thesis
    by (simp add: pool_quiet_def record_success_def holdings_def fences_ok_def rate_table_ok_def Let_def)
qed (simp add: record_success_def)

lemma clear_cooldown_quiet: "pool_quiet p (snd (clear_cooldown p cid model))"
proof (cases "bget (ps_candidates p) cid")
  case (Some c)
  then have "names_of (snd (clear_cooldown p cid model)) = names_of p"
    by (intro ext) (auto simp: names_of_def clear_cooldown_def Let_def intro: member_key_edit)
  with Some show ?thesis
    by (simp add: pool_quiet_def clear_cooldown_def holdings_def fences_ok_def rate_table_ok_def Let_def)
qed (simp add: clear_cooldown_def)

lemma observe_rate_limit_quiet: "pool_quiet p (observe_shared_rate_limit p cid bucket request now_ms)"
proof -
  define like where "like q \<longleftrightarrow> engine_quiet (ps_rotation p) (ps_rotation q) \<and> holdings q = holdings p \<and>
     names_of q = names_of p \<and> (fences_ok p \<longrightarrow> fences_ok q) \<and> (ps_retired p \<longrightarrow> ps_retired q)" for q
  have "like (fold (\<lambda>member q. snd (set_cooldown_with_reason q member r)) ms
      (p\<lparr>ps_shared_rate_limits := m\<rparr>))" for ms r m
  proof -
    have "like (p\<lparr>ps_shared_rate_limits := m\<rparr>)"
      by (simp add: like_def holdings_def names_of_def fun_eq_iff fences_ok_def)
    moreover have "pool_quiet (p\<lparr>ps_shared_rate_limits := m\<rparr>)
        (fold (\<lambda>member q. snd (set_cooldown_with_reason q member r)) ms (p\<lparr>ps_shared_rate_limits := m\<rparr>))"
      by (rule pool_quiet_fold) (rule set_cooldown_quiet)
    ultimately show ?thesis by (auto simp: like_def pool_quiet_def intro: quiet_trans)
  qed
  moreover have "like p" by (simp add: like_def)
  ultimately have "like (observe_shared_rate_limit p cid bucket request now_ms)"
    by (simp add: observe_shared_rate_limit_def Let_def)
  then show ?thesis
    using observe_table [of p cid bucket request now_ms] by (simp add: pool_quiet_def like_def)
qed

lemma forget_rates_core: "pool_quiet p (forget_shared_rate_limits cid p)"
  using other_rate_tables(2) [of p cid]
  by (simp add: pool_quiet_def holdings_def names_of_def fun_eq_iff fences_ok_def
      forget_shared_rate_limits_def)

lemma reset_backoff_quiet: "pool_quiet p (reset_shared_rate_limit_backoff p cid model now_ms)"
  using other_rate_tables(1) [of p cid model now_ms]
  by (auto simp: pool_quiet_def holdings_def names_of_def fun_eq_iff fences_ok_def
      reset_shared_rate_limit_backoff_def Let_def split: option.split)

text \<open>Fences.\<close>

lemma fence_quiet:
  assumes "fences_ok p \<Longrightarrow> fences_ok (p\<lparr>ps_execution_fences := fs, ps_next_fence_epoch := n\<rparr>)"
  shows "pool_quiet p (p\<lparr>ps_execution_fences := fs, ps_next_fence_epoch := n\<rparr>)"
  using assms by (simp add: pool_quiet_def holdings_def names_of_def fun_eq_iff rate_table_ok_def)

lemma begin_fence_quiet:
  assumes "begin_execution_fence p cid = Some (fence, p')"
  shows "pool_quiet p p'"
proof -
  have up: "n < m" if "checked_add n 1 = Some m" for n m :: "'a::len word"
    using checked_add_unat [OF that] by (simp add: word_less_nat_alt)
  have pos: "0 < m" if "checked_add n 1 = Some m" for n m :: "'a::len word"
    using up [OF that] by (meson le_less_trans word_zero_le)
  have "p' = p\<lparr>ps_execution_fences := ps_execution_fences p', ps_next_fence_epoch := ps_next_fence_epoch p'\<rparr>"
    using assms by (auto simp: begin_execution_fence_def split: if_splits option.splits)
  moreover have "fences_ok p'" if "fences_ok p"
  proof -
    have later: "fence \<le> m" if "fence \<le> n" "checked_add n 1 = Some m" for fence n m :: u64
      using up [OF that(2)] that(1) by simp
    show ?thesis
      using assms that
      by (auto simp: begin_execution_fence_def fences_ok_def split: if_splits option.splits
          intro: pos) (meson later)
  qed
  ultimately show ?thesis using fence_quiet by metis
qed

lemma end_fence_quiet: "pool_quiet p (end_execution_fence p cid fence)"
proof -
  have "\<exists>fs. end_execution_fence p cid fence = p\<lparr>ps_execution_fences := fs, ps_next_fence_epoch := ps_next_fence_epoch p\<rparr>"
    by (auto simp: end_execution_fence_def split: option.split
        intro: exI [of _ "ps_execution_fences p"])
  moreover have "fences_ok (end_execution_fence p cid fence)" if "fences_ok p"
    using that
    by (auto simp: end_execution_fence_def fences_ok_def word_less_nat_alt word_le_nat_alt unat_sub_if'
        split: option.split if_splits)
  ultimately show ?thesis using fence_quiet by metis
qed

lemma set_fence_quiet:
  assumes "set_execution_fence p cid fenced = Some (ok, p')"
  shows "pool_quiet p p'"
  using assms begin_fence_quiet [of p cid] end_fence_quiet [of p cid]
  by (auto simp: set_execution_fence_def split: if_splits option.splits)

text \<open>Synchronisation, requests and selection.\<close>

lemma sync_quiet: "pool_quiet p (sync_all_rotation_candidates p)"
  using sync_engine_quiet [of p]
  by (simp add: sync_all_rotation_candidates_def pool_quiet_def holdings_def names_of_def fun_eq_iff
      fences_ok_def rate_table_ok_def)

lemma synced_request_core: "same_core p (snd (rotation_request_from_synced_state fresh p r op))"
  by (auto simp: rotation_request_from_synced_state_def same_core_def holdings_def Let_def
      split: prod.split)

lemma prepare_quiet: "pool_quiet p (snd (prepare_rotation_request fresh p r op))"
  unfolding prepare_rotation_request_def
  using pool_quiet_trans [OF sync_quiet same_core_quiet [OF synced_request_core]] by simp

lemma select_quiet: "pool_quiet p (snd (select_for_operation fresh p r lane op))"
proof -
  obtain request q where q: "prepare_rotation_request fresh p r op = (request, q)" by fastforce
  have "same_core q (snd (select_for_operation fresh p r lane op))"
    by (auto simp: select_for_operation_def q same_core_def holdings_def Let_def split: option.split)
  with prepare_quiet [of p fresh r op] show ?thesis
    by (auto simp: q intro: pool_quiet_trans same_core_quiet)
qed

lemma ask_owner_core: "same_core p (snd (response_affinity_candidate p key now_ms))"
  by (simp add: response_affinity_candidate_def same_core_def holdings_def split: prod.split)

lemma yield_quiet:
  "pool_quiet p (snd (automatic_response_owner_should_yield fresh p key model protocols scope tried_ids now_ms))"
proof -
  obtain owner p1 where p1: "response_affinity_candidate p key now_ms = (owner, p1)" by fastforce
  have start: "pool_quiet p p1" using same_core_quiet [OF ask_owner_core] p1 by (metis snd_conv)
  show ?thesis
  proof (cases owner)
    case None
    then show ?thesis using start by (simp add: automatic_response_owner_should_yield_def p1)
  next
    case (Some owner_id)
    obtain request p2 where p2: "prepare_rotation_request fresh p1
        \<lparr>sr_model = model, sr_allowed_protocols = protocols, sr_scope = scope, sr_tried = tried_ids,
         sr_response_key = None, sr_prompt_key = None, sr_now_ms = now_ms\<rparr> OpText = (request, p2)"
      by fastforce
    then have "pool_quiet p p2" using pool_quiet_trans [OF start prepare_quiet] by (metis snd_conv)
    then show ?thesis
      using Some by (simp add: automatic_response_owner_should_yield_def p1 p2 split: option.split)
  qed
qed

lemma owner_quiet: "owner_step event p = Some p' \<Longrightarrow> pool_quiet p p'"
proof (cases event)
  case (PeYield fresh key model protocols scope tried_ids now_ms)
  then show "owner_step event p = Some p' \<Longrightarrow> pool_quiet p p'" using yield_quiet by auto
qed (rule same_core_quiet; auto simp: same_core_def holdings_def bind_response_affinity_def
    bind_prompt_affinity_def bind_prompt_affinity_sticky_def restore_response_affinity_def
    restore_prompt_affinity_def response_affinity_candidate_def has_prompt_affinity_def
    invalidate_response_affinity_def invalidate_prompt_affinity_def
    invalidate_prompt_affinity_for_candidate_def split: if_splits prod.splits bool.splits)+

lemma guard_quiet: "guard_step event p = Some p' \<Longrightarrow> pool_quiet p p'"
proof (cases event)
  case (PeBlock cid model)
  then show "guard_step event p = Some p' \<Longrightarrow> pool_quiet p p'"
    by (auto intro!: same_core_quiet simp: block_capability_def same_core_def holdings_def Let_def)
next
  case (PeUnblock cid)
  then show "guard_step event p = Some p' \<Longrightarrow> pool_quiet p p'"
    by (auto intro!: same_core_quiet simp: clear_capability_blocks_def same_core_def holdings_def Let_def)
qed (auto intro: set_fence_quiet begin_fence_quiet end_fence_quiet record_success_quiet set_cooldown_quiet
    clear_cooldown_quiet observe_rate_limit_quiet reset_backoff_quiet)

lemma set_mode_quiet: "pool_quiet p (p\<lparr>ps_rotation := set_mode (ps_rotation p) m\<rparr>)"
  using quiet_ops(1) by (simp add: pool_quiet_def holdings_def names_of_def fun_eq_iff fences_ok_def
      rate_table_ok_def)

lemma set_pool_routing_quiet:
  assumes "set_pool_routing p policy = Some (result, p')"
  shows "pool_quiet p p'"
proof -
  have "same_core p (p\<lparr>ps_pool_routing := Some policy\<rparr>)" by (simp add: same_core_def holdings_def)
  note core = same_core_quiet [OF this]
  show ?thesis
    using assms pool_quiet_trans [OF core set_mode_quiet]
    by (auto simp: set_pool_routing_def sync_rotation_mode_def split: sum.splits if_splits)
qed

lemma registry_quiet:
  assumes "registry_step event p = Some p'" and "\<And>c. event \<noteq> PeUpsert c" and "\<And>cid. event \<noteq> PeRemove cid"
  shows "pool_quiet p p'"
proof (cases event)
  case (PeRouting policy)
  then show ?thesis using assms(1) by (auto intro: set_pool_routing_quiet)
next
  case (PeAvailability cid on h q at)
  then show ?thesis using assms(1)
    by (auto simp: update_candidate_availability_at_def intro!: edit_pool_quiet member_key_edit)
next
  case (PeAvailabilityQuota cid on h q)
  then show ?thesis using assms(1)
    by (auto simp: update_candidate_availability_with_quota_at_def set_quota_state_def
        intro!: edit_pool_quiet member_key_edit)
next
  case (PeQuota cid q)
  then show ?thesis using assms(1)
    by (auto simp: update_candidate_quota_at_def set_quota_state_def intro!: edit_pool_quiet member_key_edit)
next
  case (PeHealth cid h)
  then show ?thesis using assms(1)
    by (auto simp: set_candidate_health_def intro!: edit_pool_quiet member_key_edit)
qed (use assms in \<open>auto intro!: same_core_quiet simp: same_core_def holdings_def
    invalidate_quota_reference_source_def set_quota_references_def pool_set_quota_stale_after_ms_def
    set_protected_candidate_def retire_for_replacement_def Let_def split: option.split\<close>)

end
