(* ===== verification/Tally.thy ===== *)
theory Tally
  imports Pool
begin

text \<open>
  The activity counters of the pool against its reservations.  \<open>tallies f a rs\<close> says that the
  counters \<open>a\<close> are what the reservations \<open>rs\<close> add up to, where \<open>f\<close> is the name a reservation is
  counted under: its candidate or its physical member.  The operations of the counters follow those
  of the reservations, so the counters are the reservations, counted.
\<close>

definition model_count :: "string \<Rightarrow> in_flight_lane \<Rightarrow> string \<Rightarrow> scheduler_activity \<Rightarrow> u32" where
  "model_count name lane model a =
     unwrap_or (Option.bind (bget (active_models a) (name, lane)) (\<lambda>m. bget m model)) 0"

definition counted_on :: "(reservation \<Rightarrow> string) \<Rightarrow> string \<Rightarrow> in_flight_lane \<Rightarrow> reservation \<Rightarrow> bool" where
  "counted_on f name lane r \<longleftrightarrow> f r = name \<and> rsv_lane r = lane"

definition tallies ::
  "(reservation \<Rightarrow> string) \<Rightarrow> scheduler_activity \<Rightarrow> (reservation_id, reservation) bmap \<Rightarrow> bool" where
  "tallies f a rs \<longleftrightarrow> activity_ok a \<and>
     (\<forall>name lane. unat (in_flight_count name lane a) = bcount (counted_on f name lane) rs) \<and>
     (\<forall>name lane model. unat (model_count name lane model a) =
        bcount (\<lambda>r. counted_on f name lane r \<and> model_id_key (rsv_model r) = model) rs)"

section \<open>Operations\<close>

lemma counts_lookup: "counts_ok m \<Longrightarrow> unwrap_or (bget m k) 0 = n \<Longrightarrow> 0 < n \<Longrightarrow> bget m k = Some n"
  by (cases "bget m k") auto

lemma count_up_lookup:
  "unwrap_or (bget (count_up k m) k') 0 =
     (if k' = k then sat_add (unwrap_or (bget m k) 0) 1 else unwrap_or (bget m k') 0)"
  by (simp add: count_up_def)

lemma count_down_lookup:
  "bget m k = Some n \<Longrightarrow> unat (unwrap_or (bget (count_down k n m) k') 0) =
     (if k' = k then unat n - 1 else unat (unwrap_or (bget m k') 0))"
  by (auto simp: count_down_def word_le_nat_alt unat_sub_if' split: if_splits)

lemma reserve_in_flight:
  "in_flight_count name l (activity_reserve cid model lane a) =
     (if name = cid \<and> l = lane then sat_add (in_flight_count name l a) 1 else in_flight_count name l a)"
  by (cases "l = lane") (auto simp: activity_reserve_def in_flight_count_def count_up_lookup Let_def)

lemma reserve_model_count:
  "model_count name l key (activity_reserve cid model lane a) =
     (if name = cid \<and> l = lane \<and> key = model_id_key model
      then sat_add (model_count name l key a) 1 else model_count name l key a)"
  by (cases "bget (active_models a) (cid, lane)")
    (auto simp: activity_reserve_def model_count_def count_up_lookup Let_def)

lemma release_in_flight:
  assumes "bget (in_flight_map lane a) cid = Some n"
  shows "unat (in_flight_count name l (snd (activity_release cid model lane a))) =
     (if name = cid \<and> l = lane then unat n - 1 else unat (in_flight_count name l a))"
proof -
  have lanes: "in_flight_map k (release_active_model cid model lane b) = in_flight_map k b" for k b
    by (auto simp: release_active_model_def Let_def split: option.split)
  show ?thesis
    using assms count_down_lookup [OF assms]
    by (cases "l = lane") (auto simp: activity_release_def in_flight_count_def lanes)
qed

lemma release_model_count:
  assumes "bget (in_flight_map lane a) cid = Some n"
    and "model_count cid lane (model_id_key model) a = k" and "0 < k"
  shows "unat (model_count name l key (snd (activity_release cid (Some model) lane a))) =
     (if name = cid \<and> l = lane \<and> key = model_id_key model then unat k - 1
      else unat (model_count name l key a))"
proof -
  obtain m where m: "bget (active_models a) (cid, lane) = Some m" "bget m (model_id_key model) = Some k"
    using assms(2,3)
    by (cases "bget (active_models a) (cid, lane)";
        cases "Option.bind (bget (active_models a) (cid, lane)) (\<lambda>m. bget m (model_id_key model))")
      (auto simp: model_count_def)
  define m' where "m' = count_down (model_id_key model) k m"
  have down: "unat (unwrap_or (bget m' key) 0) =
      (if key = model_id_key model then unat k - 1 else unat (unwrap_or (bget m key) 0))" for key
    unfolding m'_def by (rule count_down_lookup [OF m(2)])
  have "model_count name l key (snd (activity_release cid (Some model) lane a)) =
      (if (name, l) = (cid, lane) then unwrap_or (bget m' key) 0 else model_count name l key a)"
    using assms(1) m
    by (auto simp: activity_release_def release_active_model_def model_count_def Let_def m'_def [symmetric]
        bsize_zero)
  then show ?thesis using down m by (auto simp: model_count_def)
qed

lemma tallies_reserve:
  assumes "tallies f a rs" and "bget rs rid = None" and "bsize rs < 2 ^ 32 - 1"
  shows "tallies f (activity_reserve (f r) (rsv_model r) (rsv_lane r) a) (binsert rid r rs)"
proof -
  have small: "bcount P rs + 1 < 2 ^ 32" for P
    using bcount_le_size [of P rs] assms(3) by simp
  have up: "unat (sat_add n 1) = Suc (bcount P rs)" if "unat (n :: u32) = bcount P rs" for n P
    using that small [of P] by (simp add: unat_sat_add)
  show ?thesis
    using assms(1) up
    by (auto simp: tallies_def reserve_ok reserve_in_flight reserve_model_count
        bcount_insert_fresh [OF assms(2)] counted_on_def)
qed

lemma tallies_release:
  assumes "tallies f a rs" and "bget rs rid = Some r"
  shows "tallies f (snd (activity_release (f r) (Some (rsv_model r)) (rsv_lane r) a)) (bremove rid rs)"
proof -
  let ?held = "counted_on f (f r) (rsv_lane r)"
  have "0 < bcount ?held rs"
    and "0 < bcount (\<lambda>q. ?held q \<and> model_id_key (rsv_model q) = model_id_key (rsv_model r)) rs"
    by (rule bcount_pos [OF assms(2)]; simp add: counted_on_def)+
  with assms(1) have pos: "0 < in_flight_count (f r) (rsv_lane r) a"
    "0 < model_count (f r) (rsv_lane r) (model_id_key (rsv_model r)) a"
    by (simp_all add: tallies_def word_less_nat_alt)
  then have n: "bget (in_flight_map (rsv_lane r) a) (f r) = Some (in_flight_count (f r) (rsv_lane r) a)"
    by (cases "bget (in_flight_map (rsv_lane r) a) (f r)") (auto simp: in_flight_count_def)
  show ?thesis
    using assms(1)
    by (auto simp: tallies_def release_ok release_in_flight [OF n] release_model_count [OF n refl pos(2)]
        bcount_remove_diff [OF assms(2)] counted_on_def)
qed

lemma tallies_dispatch: "tallies f a rs \<Longrightarrow> tallies f (record_dispatch name lane a) rs"
proof -
  assume t: "tallies f a rs"
  have "in_flight_count n l (record_dispatch name lane a) = in_flight_count n l a"
    "model_count n l k (record_dispatch name lane a) = model_count n l k a" for n l k
    by (cases lane; cases l; simp add: record_dispatch_def in_flight_count_def in_flight_map_def
        model_count_def set_dispatch_map_def)+
  with t show ?thesis by (simp add: tallies_def dispatch_ok)
qed

lemma tallies_remove:
  assumes "tallies f a rs" and "\<And>rid r. bget rs rid = Some r \<Longrightarrow> f r \<noteq> name"
  shows "tallies f (activity_remove name a) rs"
proof -
  have "in_flight_count n l (activity_remove name a) = (if n = name then 0 else in_flight_count n l a)" for n l
    by (cases l) (simp_all add: in_flight_count_def in_flight_map_def activity_remove_def)
  moreover have "model_count n l k (activity_remove name a) = (if n = name then 0 else model_count n l k a)"
    for n l k
    by (auto simp: model_count_def activity_remove_def split: option.split)
  ultimately show ?thesis
    using assms by (auto simp: tallies_def remove_ok bcount_eq_0 counted_on_def)
qed

lemma tallies_empty: "tallies f default_activity bempty"
proof -
  have "in_flight_count name lane default_activity = 0" "model_count name lane model default_activity = 0"
    for name lane model
    by (cases lane; simp add: in_flight_count_def model_count_def default_activity_def in_flight_map_def)+
  then show ?thesis by (simp add: tallies_def default_activity_ok)
qed

section \<open>The number of requests\<close>

text \<open>A saturating sum of words is the sum of the numbers, capped.\<close>

lemma fold_sat_add:
  "unat (fold (\<lambda>n total. sat_add total n) ns (t :: 'a::len word)) =
     min (unat t + sum_list (map unat ns)) (2 ^ LENGTH('a) - 1)"
proof (induction ns arbitrary: t)
  case Nil
  have "unat t < 2 ^ LENGTH('a)" by (rule unsigned_less)
  then have "unat t \<le> 2 ^ LENGTH('a) - 1" by linarith
  then show ?case by (simp add: min_absorb1)
next
  case (Cons n ns)
  show ?case by (simp add: Cons unat_sat_add)
qed

lemma sum_values:
  "sum_list (map g (bvalues m)) = (\<Sum>k \<in> set (bkeys m). g (the (bget m k)))"
proof -
  have "map g (bvalues m) = map (\<lambda>k. g (the (bget m k))) (bkeys m)"
    by (auto simp: bvalues_def bkeys_def bget_in_entries [symmetric] intro!: map_cong)
  then show ?thesis by (simp add: sum_list_distinct_conv_sum_set)
qed

lemma sum_entries:
  "sum_list (map (\<lambda>(_, v). g v) (filter (\<lambda>(k, _). P k) (bentries m))) =
     (\<Sum>k \<in> {k \<in> set (bkeys m). P k}. g (the (bget m k)))"
proof -
  let ?xs = "filter (\<lambda>(k, _). P k) (bentries m)"
  have "map (\<lambda>(_, v). g v) ?xs = map (\<lambda>k. g (the (bget m k))) (map fst ?xs)"
    by (auto simp: bget_in_entries [symmetric])
  moreover have "map fst ?xs = filter P (bkeys m)"
    by (simp add: bkeys_def filter_map comp_def case_prod_unfold)
  ultimately show ?thesis by (simp add: sum_list_distinct_conv_sum_set)
qed

lemma sum_concat: "sum_list (concat xss) = sum_list (map sum_list xss)"
  by (induction xss) simp_all

text \<open>Counting by class and adding up the classes.\<close>

lemma sum_classes:
  assumes "finite S" and "\<And>k v. bget m k = Some v \<Longrightarrow> P v \<Longrightarrow> g v \<in> S"
  shows "(\<Sum>s \<in> S. bcount (\<lambda>v. P v \<and> g v = s) m) = bcount P m"
proof -
  have "(\<Sum>s \<in> S. length (filter (\<lambda>v. P v \<and> g v = s) xs)) = length (filter P xs)"
    if "\<And>v. v \<in> set xs \<Longrightarrow> P v \<Longrightarrow> g v \<in> S" for xs
    using that
  proof (induction xs)
    case (Cons x xs)
    then have IH: "(\<Sum>s \<in> S. length (filter (\<lambda>v. P v \<and> g v = s) xs)) = length (filter P xs)" by simp
    have "(\<Sum>s \<in> S. length (filter (\<lambda>v. P v \<and> g v = s) (x # xs))) =
        (\<Sum>s \<in> S. (if s = g x then (if P x then 1 else 0) else 0) + length (filter (\<lambda>v. P v \<and> g v = s) xs))"
      by (rule sum.cong) auto
    also have "\<dots> = (if P x then 1 else 0) + length (filter P xs)"
      using assms(1) Cons.prems [of x] by (simp add: sum.distrib IH)
    finally show ?case by simp
  qed simp
  from this [of "bvalues m"] assms(2) show ?thesis
    by (auto simp: bcount_def in_bvalues)
qed

lemma lanes_UNIV: "l \<in> {TextLane, ImageLane}"
  by (cases l) simp_all

lemma active_request_count_tallies:
  assumes "tallies f a rs"
  shows "unat (active_request_count name a) = min (bcount (\<lambda>r. f r = name) rs) (2 ^ 32 - 1)"
proof -
  let ?total = "\<lambda>m :: counts. sum_list (map unat (bvalues m))"
  let ?on = "\<lambda>lane. bcount (counted_on f name lane) rs"
  have group: "?total m = ?on lane" if m: "bget (active_models a) (name, lane) = Some m" for lane m
  proof -
    have count: "unat (unwrap_or (bget m k) 0) =
        bcount (\<lambda>r. counted_on f name lane r \<and> model_id_key (rsv_model r) = k) rs" for k
    proof -
      have "unat (model_count name lane k a) =
          bcount (\<lambda>r. counted_on f name lane r \<and> model_id_key (rsv_model r) = k) rs"
        using assms by (simp add: tallies_def)
      then show ?thesis using m by (simp add: model_count_def)
    qed
    have "?total m = (\<Sum>k \<in> set (bkeys m).
        bcount (\<lambda>r. counted_on f name lane r \<and> model_id_key (rsv_model r) = k) rs)"
      unfolding sum_values by (rule sum.cong) (auto simp: in_bkeys count [symmetric])
    also have "\<dots> = ?on lane"
    proof (rule sum_classes)
      fix k r
      assume "bget rs k = Some r" "counted_on f name lane r"
      then have "0 < unat (unwrap_or (bget m (model_id_key (rsv_model r))) 0)"
        unfolding count by (intro bcount_pos) simp_all
      then show "model_id_key (rsv_model r) \<in> set (bkeys m)"
        by (cases "bget m (model_id_key (rsv_model r))") (auto simp: in_bkeys)
    qed simp
    finally show ?thesis .
  qed
  have none: "?on lane = 0" if "bget (active_models a) (name, lane) = None" for lane
  proof -
    have "unat (model_count name lane k a) =
        bcount (\<lambda>r. counted_on f name lane r \<and> model_id_key (rsv_model r) = k) rs" for k
      using assms by (simp add: tallies_def)
    then have "bcount (\<lambda>r. counted_on f name lane r \<and> model_id_key (rsv_model r) = k) rs = 0" for k
      using that by (simp add: model_count_def)
    then show ?thesis unfolding bcount_eq_0 by blast
  qed
  have present: "\<exists>v. bget (active_models a) (name, lane) = Some v" if "0 < ?on lane" for lane
    using that none [of lane] by (cases "bget (active_models a) (name, lane)") simp_all
  let ?keys = "{k \<in> set (bkeys (active_models a)). fst k = name}"
  have "(\<Sum>k \<in> ?keys. ?total (the (bget (active_models a) k))) = (\<Sum>k \<in> ?keys. ?on (snd k))"
    using group by (intro sum.cong) (auto simp: in_bkeys)
  also have "\<dots> = (\<Sum>k \<in> {(name, TextLane), (name, ImageLane)}. ?on (snd k))"
  proof (rule sum.mono_neutral_left)
    show "?keys \<subseteq> {(name, TextLane), (name, ImageLane)}"
      using lanes_UNIV by force
    show "\<forall>k \<in> {(name, TextLane), (name, ImageLane)} - ?keys. ?on (snd k) = 0"
      using present by (auto simp: in_bkeys)
  qed simp
  also have "\<dots> = ?on TextLane + ?on ImageLane" by simp
  also have "\<dots> = bcount (\<lambda>r. f r = name) rs"
  proof -
    have "(\<Sum>l \<in> {TextLane, ImageLane}. bcount (\<lambda>r. f r = name \<and> rsv_lane r = l) rs) =
        bcount (\<lambda>r. f r = name) rs"
      by (rule sum_classes) (simp_all only: finite_insert finite.emptyI lanes_UNIV)
    then show ?thesis by (simp add: counted_on_def [abs_def])
  qed
  finally have sum: "(\<Sum>k \<in> ?keys. ?total (the (bget (active_models a) k))) = bcount (\<lambda>r. f r = name) rs" .
  have "sum_list (map unat (concat (map (\<lambda>(_, models). bvalues models)
      (filter (\<lambda>((active, _), _). active = name) (bentries (active_models a)))))) =
      sum_list (map (\<lambda>(_, m). ?total m)
        (filter (\<lambda>(k, _). fst k = name) (bentries (active_models a))))"
    by (simp add: map_concat sum_concat comp_def case_prod_unfold)
  then show ?thesis
    using sum_entries [of ?total "\<lambda>k. fst k = name" "active_models a"] sum
    by (simp add: active_request_count_def fold_sat_add)
qed

lemma idle_iff:
  assumes "tallies f a rs"
  shows "active_request_count name a = 0 \<longleftrightarrow> (\<forall>rid r. bget rs rid = Some r \<longrightarrow> f r \<noteq> name)"
  using active_request_count_tallies [OF assms, of name] bcount_eq_0 [of "\<lambda>r. f r = name" rs]
  by (auto simp: unat_eq_0 [symmetric] min_def split: if_splits)

end
