(* ===== verification/PoolInvariant.thy ===== *)
theory PoolInvariant
  imports PoolQuiet Tally
begin

text \<open>
  The invariant of the pool.  The abstract state is the set of live reservations: the activity
  counters, the leases of the rotation engine and the retired candidates are functions of it.
  \<open>pool_inv\<close> says so; \<open>members_exact\<close> is the same for the counters of the physical members, in runs
  that link no candidate with live reservations to another member.  This theory shows that
  registration and removal keep both.
\<close>

section \<open>The invariant\<close>

definition linked_leases :: "pool_scheduler \<Rightarrow> bool" where
  "linked_leases p \<longleftrightarrow>
     (\<forall>rid lease. bget (ps_rotation_leases p) rid = Some lease \<longrightarrow>
        (\<exists>l. bget (leases (ps_rotation p)) (rl_lease_id lease) = Some l \<and>
           lease_candidate_id l = rl_candidate_id lease) \<and>
        (\<exists>r. bget (active (ps_reservations p)) rid = Some r \<and> rsv_candidate_id r = rl_candidate_id lease)) \<and>
     (\<forall>lid l. bget (leases (ps_rotation p)) lid = Some l \<longrightarrow>
        (\<exists>rid lease. bget (ps_rotation_leases p) rid = Some lease \<and> rl_lease_id lease = lid)) \<and>
     (\<forall>a b x y. bget (ps_rotation_leases p) a = Some x \<longrightarrow> bget (ps_rotation_leases p) b = Some y \<longrightarrow>
        rl_lease_id x = rl_lease_id y \<longrightarrow> a = b)"

definition registered_reservations :: "pool_scheduler \<Rightarrow> bool" where
  "registered_reservations p \<longleftrightarrow>
     (\<forall>rid r. bget (active (ps_reservations p)) rid = Some r \<longrightarrow>
        rid \<le> next_id (ps_reservations p) \<and> names_of p (rsv_candidate_id r) \<noteq> None) \<and>
     bsize (active (ps_reservations p)) < 2 ^ 32"

definition draining_retired :: "pool_scheduler \<Rightarrow> bool" where
  "draining_retired p \<longleftrightarrow>
     (\<forall>cid \<in> ps_retired_candidates p. names_of p cid \<noteq> None \<and>
        (\<exists>rid r. bget (active (ps_reservations p)) rid = Some r \<and> rsv_candidate_id r = cid))"

definition pool_inv :: "pool_scheduler \<Rightarrow> bool" where
  "pool_inv p \<longleftrightarrow>
     (\<forall>cid name. names_of p cid = Some name \<longrightarrow> fst name = cid) \<and> ps_native_routes p = {} \<and>
     rate_table_ok p \<and> fences_ok p \<and> reachable_engine (ps_rotation p) \<and>
     tallies rsv_candidate_id (ps_activity p) (active (ps_reservations p)) \<and>
     linked_leases p \<and> registered_reservations p \<and> draining_retired p"

definition members_exact :: "pool_scheduler \<Rightarrow> bool" where
  "members_exact p \<longleftrightarrow>
     tallies rsv_member_key (ps_member_activity p) (active (ps_reservations p)) \<and>
     (\<forall>rid r. bget (active (ps_reservations p)) rid = Some r \<longrightarrow>
        map_option snd (names_of p (rsv_candidate_id r)) = Some (rsv_member_key r))"

lemmas pool_inv_parts = pool_inv_def linked_leases_def registered_reservations_def draining_retired_def

lemma pool_inv_keyed: "pool_inv p \<Longrightarrow> pool_keyed p"
  by (fastforce simp: pool_inv_def pool_keyed_def names_of_def)

lemma names_registered: "names_of p cid \<noteq> None \<longleftrightarrow> bcontains (ps_candidates p) cid"
  by (simp add: names_of_def bcontains_def)

lemma quiet_inv: "pool_quiet p p' \<Longrightarrow> pool_inv p \<Longrightarrow> pool_inv p'"
  by (simp add: pool_quiet_def engine_quiet_def holdings_def pool_inv_parts)

lemma quiet_members: "pool_quiet p p' \<Longrightarrow> members_exact p \<Longrightarrow> members_exact p'"
  by (simp add: pool_quiet_def holdings_def members_exact_def)

lemma initial_inv: "pool_inv new_pool" "members_exact new_pool"
proof -
  have "leases default_engine = bempty" by (simp add: default_engine_def)
  then show "pool_inv new_pool" "members_exact new_pool"
    by (simp_all add: pool_inv_parts members_exact_def names_of_def new_pool_def tallies_empty
        rate_table_ok_def fences_ok_def reachable_engine.initial)
qed

section \<open>Registration and removal\<close>

lemma advance_quiet:
  assumes "advance_permission c p = Some q"
  shows "pool_quiet p q"
proof -
  have "same_core (forget_shared_rate_limits cid p)
      ((forget_shared_rate_limits cid p)\<lparr>ps_permission_revisions := m\<rparr>)" for m cid
    by (simp add: same_core_def holdings_def)
  note edit = pool_quiet_trans [OF forget_rates_core same_core_quiet [OF this]]
  show ?thesis using assms edit by (auto simp: advance_permission_def split: if_splits)
qed

lemma upsert_result:
  assumes "pool_upsert p c = Some p'"
  obtains q where "pool_quiet p q" "names_of p' = (names_of q)(cn_id c \<mapsto> (cn_id c, member_key c))"
    "ps_rotation p' = ps_rotation q" "ps_reservations p' = ps_reservations q"
    "ps_rotation_leases p' = ps_rotation_leases q" "ps_activity p' = ps_activity q"
    "ps_member_activity p' = ps_member_activity q" "ps_native_routes p' = ps_native_routes q"
    "ps_retired_candidates p' = ps_retired_candidates q - {cn_id c}"
    "fences_ok p' = fences_ok q" "rate_table_ok p' = rate_table_ok q"
  using assms
  by (auto simp: pool_upsert_def names_of_def fun_eq_iff fences_ok_def rate_table_ok_def
      dest!: advance_quiet intro: that)

lemma upsert_inv:
  assumes "pool_upsert p c = Some p'" and "pool_inv p"
  shows "pool_inv p'"
  by (rule upsert_result [OF assms(1)]) (use quiet_inv [OF _ assms(2)] in \<open>auto simp: pool_inv_parts\<close>)

lemma upsert_members:
  assumes "pool_upsert p c = Some p'" and "members_exact p"
    and "\<not> relinks (Registry (PeUpsert c)) p"
  shows "members_exact p'"
proof (rule upsert_result [OF assms(1)])
  fix q
  assume q: "pool_quiet p q" "names_of p' = (names_of q)(cn_id c \<mapsto> (cn_id c, member_key c))"
    "ps_reservations p' = ps_reservations q" "ps_member_activity p' = ps_member_activity q"
  have "rsv_member_key r = member_key c"
    if "bget (active (ps_reservations p)) rid = Some r" "rsv_candidate_id r = cn_id c" for rid r
    using assms(3) that by (auto simp: relinks_def list_ex_iff in_bvalues)
  moreover have "ps_reservations q = ps_reservations p" using q(1) by (simp add: pool_quiet_def holdings_def)
  ultimately show ?thesis
    using quiet_members [OF q(1) assms(2)] q(2-4) by (auto simp: members_exact_def)
qed

text \<open>A candidate without reservations goes away without a trace.\<close>

definition idle :: "string \<Rightarrow> pool_scheduler \<Rightarrow> bool" where
  "idle cid p \<longleftrightarrow> (\<forall>rid r. bget (active (ps_reservations p)) rid = Some r \<longrightarrow> rsv_candidate_id r \<noteq> cid)"

lemma idle_count: "pool_inv p \<Longrightarrow> active_request_count cid (ps_activity p) = 0 \<longleftrightarrow> idle cid p"
  using idle_iff [of rsv_candidate_id "ps_activity p" "active (ps_reservations p)" cid]
  by (simp add: pool_inv_def idle_def)

lemma idle_reservations:
  assumes "idle cid p"
  shows "ps_reservations (snd (remove_now cid p)) = ps_reservations p"
proof -
  have "bretain (\<lambda>_ r. rsv_candidate_id r \<noteq> cid) (active (ps_reservations p)) = active (ps_reservations p)"
    using assms by (intro bmap_eqI) (auto simp: idle_def split: option.split)
  then show ?thesis by (simp add: remove_now_def Let_def split: option.split)
qed

lemma remove_now_fields:
  "names_of (snd (remove_now cid p)) = (names_of p)(cid := None)"
  "engine_quiet (ps_rotation p) (ps_rotation (snd (remove_now cid p)))"
  "ps_rotation_leases (snd (remove_now cid p)) = ps_rotation_leases p"
  "ps_activity (snd (remove_now cid p)) = activity_remove cid (ps_activity p)"
  "ps_native_routes (snd (remove_now cid p)) = ps_native_routes p"
  "ps_retired_candidates (snd (remove_now cid p)) = ps_retired_candidates p - {cid}"
  "rate_table_ok (snd (remove_now cid p)) = rate_table_ok p"
  "fences_ok p \<Longrightarrow> fences_ok (snd (remove_now cid p))"
  by (auto simp: remove_now_def names_of_def fun_eq_iff Let_def quiet_ops(4) rate_table_ok_def
      fences_ok_def split: option.split)

lemma remove_now_inv:
  assumes "pool_inv p" and "idle cid p"
  shows "pool_inv (snd (remove_now cid p))"
proof -
  have "tallies rsv_candidate_id (activity_remove cid (ps_activity p)) (active (ps_reservations p))"
    using assms by (intro tallies_remove) (auto simp: pool_inv_def idle_def)
  moreover have "leases (ps_rotation (snd (remove_now cid p))) = leases (ps_rotation p)"
    "reachable_engine (ps_rotation (snd (remove_now cid p)))"
    using remove_now_fields(2) [of p cid] assms(1) by (simp_all add: engine_quiet_def pool_inv_def)
  ultimately show ?thesis
    using assms
    by (auto simp: pool_inv_parts remove_now_fields idle_reservations idle_def split: if_splits)
qed

lemma remove_now_members:
  assumes "members_exact p" and "idle cid p"
  shows "members_exact (snd (remove_now cid p))"
proof -
  have held: "rsv_candidate_id r \<noteq> cid \<and> map_option snd (names_of p (rsv_candidate_id r)) = Some (rsv_member_key r)"
    if "bget (active (ps_reservations p)) rid = Some r" for rid r
    using assms that by (auto simp: members_exact_def idle_def)
  have "tallies rsv_member_key (ps_member_activity (snd (remove_now cid p))) (active (ps_reservations p))"
  proof (cases "bget (ps_candidates p) cid")
    case None
    then show ?thesis using assms(1) by (simp add: members_exact_def remove_now_def Let_def)
  next
    case (Some c)
    show ?thesis
    proof (cases "list_ex (\<lambda>other. member_key other = member_key c) (bvalues (bremove cid (ps_candidates p)))")
      case True
      with Some assms(1) show ?thesis by (simp add: members_exact_def remove_now_def Let_def)
    next
      case False
      then have others: "member_key other \<noteq> member_key c"
        if "bget (ps_candidates p) k = Some other" "k \<noteq> cid" for k other
        using that unfolding list_ex_iff by (metis bget_remove in_bvalues)
      have "rsv_member_key r \<noteq> member_key c" if "bget (active (ps_reservations p)) rid = Some r" for rid r
        using held [OF that] others by (auto simp: names_of_def)
      then have "tallies rsv_member_key (activity_remove (member_key c) (ps_member_activity p))
          (active (ps_reservations p))"
        using assms(1) by (intro tallies_remove) (auto simp: members_exact_def)
      with Some False show ?thesis by (simp add: remove_now_def Let_def)
    qed
  qed
  then show ?thesis
    using held by (auto simp: members_exact_def idle_reservations [OF assms(2)] remove_now_fields)
qed

lemma idle_quiet: "pool_quiet p q \<Longrightarrow> idle cid q = idle cid p"
  by (simp add: pool_quiet_def holdings_def idle_def)

lemma finalize_inv:
  assumes "pool_inv p"
  shows "pool_inv (finalize_retired_if_idle cid p)"
  using remove_now_inv [OF assms] idle_count [OF assms] assms by (simp add: finalize_retired_if_idle_def)

text \<open>A removal: at once when the candidate is idle, otherwise it is retired.\<close>

definition retired_copy :: "string \<Rightarrow> pool_scheduler \<Rightarrow> pool_scheduler" where
  "retired_copy cid q =
     q\<lparr>ps_prompt_affinity := snd (invalidate_candidate cid (ps_prompt_affinity q)),
       ps_candidates := bmodify cid (\<lambda>c. c\<lparr>cn_enabled := False, cn_draining := True\<rparr>) (ps_candidates q),
       ps_retired_candidates := insert cid (ps_retired_candidates q)\<rparr>"

lemma retired_copy_fields:
  "names_of (retired_copy cid q) = names_of q"
  "ps_rotation (retired_copy cid q) = ps_rotation q"
  "ps_reservations (retired_copy cid q) = ps_reservations q"
  "ps_rotation_leases (retired_copy cid q) = ps_rotation_leases q"
  "ps_activity (retired_copy cid q) = ps_activity q"
  "ps_member_activity (retired_copy cid q) = ps_member_activity q"
  "ps_native_routes (retired_copy cid q) = ps_native_routes q"
  "ps_retired_candidates (retired_copy cid q) = insert cid (ps_retired_candidates q)"
  "fences_ok (retired_copy cid q) = fences_ok q" "rate_table_ok (retired_copy cid q) = rate_table_ok q"
proof -
  show "names_of (retired_copy cid q) = names_of q"
    by (rule names_modify [where cid = cid and f = "\<lambda>c. c\<lparr>cn_enabled := False, cn_draining := True\<rparr>"])
      (auto simp: retired_copy_def intro: member_key_edit)
qed (simp_all add: retired_copy_def fences_ok_def rate_table_ok_def)

lemma pool_remove_result:
  assumes "pool_inv p"
  obtains q where "pool_quiet p q" "ps_candidates q = ps_candidates p"
    "bget (ps_candidates p) cid = None \<Longrightarrow> pool_remove p cid = (None, q)"
    "idle cid p \<Longrightarrow> bget (ps_candidates p) cid \<noteq> None \<Longrightarrow> pool_remove p cid = remove_now cid q"
    "\<not> idle cid p \<Longrightarrow> bget (ps_candidates p) cid \<noteq> None \<Longrightarrow> pool_remove p cid =
       (bget (ps_candidates p) cid, retired_copy cid q)"
proof -
  let ?p1 = "(forget_shared_rate_limits cid p)\<lparr>ps_quota_references :=
    bretain (\<lambda>name r. name \<noteq> cid \<and> source_account_id r \<noteq> cid) (ps_quota_references p)\<rparr>"
  let ?p2 = "?p1\<lparr>ps_rotation := snd (remove_candidate (ps_rotation ?p1) cid)\<rparr>"
  have "same_core (forget_shared_rate_limits cid p) ?p1" by (simp add: same_core_def holdings_def)
  note p1 = pool_quiet_trans [OF forget_rates_core same_core_quiet [OF this]]
  have "pool_quiet ?p1 ?p2"
    using quiet_ops(4) by (simp add: pool_quiet_def holdings_def names_of_def fun_eq_iff fences_ok_def rate_table_ok_def)
  then have p2: "pool_quiet p ?p2" by (rule pool_quiet_trans [OF p1])
  have same: "ps_candidates ?p1 = ps_candidates p" "ps_activity ?p1 = ps_activity p"
    by (simp_all add: forget_shared_rate_limits_def)
  show ?thesis
  proof (cases "bget (ps_candidates p) cid")
    case None
    show ?thesis
      by (rule that [of ?p1]) (use None p1 same in \<open>simp_all add: pool_remove_def Let_def\<close>)
  next
    case (Some c)
    have "0 < active_request_count cid (ps_activity p) \<longleftrightarrow> \<not> idle cid p"
      using idle_count [OF assms, of cid] by (simp add: word_neq_0_conv [symmetric])
    then show ?thesis
      by (intro that [of ?p2]) (use Some p2 same in \<open>simp_all add: pool_remove_def retired_copy_def Let_def\<close>)
  qed
qed

lemma pool_remove_inv:
  assumes "pool_inv p"
  shows "pool_inv (snd (pool_remove p cid))"
proof (rule pool_remove_result [OF assms, of cid])
  fix q
  assume q: "pool_quiet p q" "ps_candidates q = ps_candidates p"
    "bget (ps_candidates p) cid = None \<Longrightarrow> pool_remove p cid = (None, q)"
    "idle cid p \<Longrightarrow> bget (ps_candidates p) cid \<noteq> None \<Longrightarrow> pool_remove p cid = remove_now cid q"
    "\<not> idle cid p \<Longrightarrow> bget (ps_candidates p) cid \<noteq> None \<Longrightarrow> pool_remove p cid =
       (bget (ps_candidates p) cid, retired_copy cid q)"
  have inv: "pool_inv q" by (rule quiet_inv [OF q(1) assms])
  note idle = idle_quiet [OF q(1), of cid]
  have "pool_inv (retired_copy cid q)" if "\<not> idle cid p" "bget (ps_candidates p) cid \<noteq> None"
  proof -
    have "\<exists>rid r. bget (active (ps_reservations q)) rid = Some r \<and> rsv_candidate_id r = cid"
      using that(1) idle by (auto simp: idle_def)
    moreover have "names_of q cid \<noteq> None" using that(2) q(2) by (simp add: names_of_def)
    ultimately show ?thesis
      using inv by (simp add: pool_inv_parts retired_copy_fields)
  qed
  with q(3-5) inv idle show ?thesis
    by (cases "bget (ps_candidates p) cid = None"; cases "idle cid p") (auto intro: remove_now_inv)
qed

lemma pool_remove_members:
  assumes "pool_inv p" and "members_exact p"
  shows "members_exact (snd (pool_remove p cid))"
proof (rule pool_remove_result [OF assms(1), of cid])
  fix q
  assume q: "pool_quiet p q" "ps_candidates q = ps_candidates p"
    "bget (ps_candidates p) cid = None \<Longrightarrow> pool_remove p cid = (None, q)"
    "idle cid p \<Longrightarrow> bget (ps_candidates p) cid \<noteq> None \<Longrightarrow> pool_remove p cid = remove_now cid q"
    "\<not> idle cid p \<Longrightarrow> bget (ps_candidates p) cid \<noteq> None \<Longrightarrow> pool_remove p cid =
       (bget (ps_candidates p) cid, retired_copy cid q)"
  have exact: "members_exact q" by (rule quiet_members [OF q(1) assms(2)])
  note idle = idle_quiet [OF q(1), of cid]
  have "members_exact (retired_copy cid q)"
    using exact by (simp add: members_exact_def retired_copy_fields)
  with q(3-5) exact idle show ?thesis
    by (cases "bget (ps_candidates p) cid = None"; cases "idle cid p") (auto intro: remove_now_members)
qed

end
