(* ===== verification/PoolAccounting.thy ===== *)
theory PoolAccounting
  imports PoolInvariant Guarantees
begin

text \<open>
  The accounting of the pool over its reservations and leases: a reservation adds one entry to each
  of the books, settlement and release take them away again, a dispatch only marks the lease.  At
  the end every step of the pool keeps \<open>pool_inv\<close>.
\<close>

section \<open>Reservations and leases\<close>

lemma reserve_leases:
  assumes "reachable_engine e" and "reserve e request now_ms = (Inr lease, e')"
  obtains l where "leases e' = binsert (rl_lease_id lease) l (leases e)"
    "bget (leases e) (rl_lease_id lease) = None" "lease_candidate_id l = rl_candidate_id lease"
    "lease_attempt_id l = None" "reachable_engine e'"
proof -
  note acc = reachable_accounted [OF assms(1)]
  obtain selected ordinary runtime lid l pool where
    r: "checked_add (next_lease_id e) 1 = Some lid"
    "l = new_lease e request selected ordinary runtime lid" "lease = lease_handle l"
    "e' = advance_rotation_state (insert_lease (begun e l) runtime l) (req_route_key request)
       pool (ready_id selected) (req_owner request = None)"
    by (rule reserve_Inr [OF accounted_keyed [OF acc] assms(2)])
  have "next_lease_id e < lid" using checked_add_unat [OF r(1)] by (simp add: word_less_nat_alt)
  then have "bget (leases e) lid = None" by (rule fresh_lease [OF acc])
  moreover have "reachable_engine e'"
    using reachable_engine.step [OF assms(1), of "EvReserve request now_ms"] assms(2) by simp
  ultimately show ?thesis
    using r by (intro that [of l]) (simp_all add: lease_handle_def new_lease_def Let_def)
qed

lemma release_unstarted_leases:
  assumes "release_unstarted e lid = (released, e')"
  shows "leases e' = (if released then bremove lid (leases e) else leases e)"
    and "reachable_engine e \<Longrightarrow> reachable_engine e'"
    and "released \<longleftrightarrow> (\<exists>l. bget (leases e) lid = Some l \<and> lease_attempt_id l = None)"
proof -
  show "leases e' = (if released then bremove lid (leases e) else leases e)"
    and "released \<longleftrightarrow> (\<exists>l. bget (leases e) lid = Some l \<and> lease_attempt_id l = None)"
    using assms by (auto simp: release_unstarted_def split: option.splits if_splits)
  show "reachable_engine e \<Longrightarrow> reachable_engine e'"
    using reachable_engine.step [of e "EvReleaseUnstarted lid"] assms by simp
qed

lemma settle_leases:
  assumes "settle_with_latency e lid ob b now_ms latency now = (result, e')"
  shows "leases e' = (case result of Inl _ \<Rightarrow> leases e | Inr _ \<Rightarrow> bremove lid (leases e))"
    and "reachable_engine e \<Longrightarrow> reachable_engine e'"
    and "\<And>err. result = Inl err \<Longrightarrow> e' = e"
proof -
  show same: "e' = e" if "result = Inl err" for err
    using assms that by (auto simp: settle_with_latency_def Let_def split: option.splits if_splits prod.splits)
  show "leases e' = (case result of Inl _ \<Rightarrow> leases e | Inr _ \<Rightarrow> bremove lid (leases e))"
  proof (cases result)
    case (Inr s)
    then show ?thesis using assms by (auto elim: settled_leases)
  qed (simp add: same)
  show "reachable_engine e \<Longrightarrow> reachable_engine e'"
    using reachable_engine.step [of e "EvSettle lid ob b now_ms latency now"] assms by simp
qed

lemma dispatch_leases:
  assumes "begin_transport_dispatch e lid b now = (result, e', b')"
  shows "\<exists>f. leases e' = bmodify lid f (leases e) \<and> (\<forall>l. lease_candidate_id (f l) = lease_candidate_id l)"
    and "reachable_engine e \<Longrightarrow> reachable_engine e'"
    and "\<And>err. result = Inl err \<Longrightarrow> e' = e"
proof -
  have internal: "begin_dispatch_internal e lid b True now = (result, e', b')"
    using assms by (simp add: begin_transport_dispatch_def)
  show same: "e' = e" if "result = Inl err" for err
    using begin_dispatch_Inl internal that by blast
  show "\<exists>f. leases e' = bmodify lid f (leases e) \<and> (\<forall>l. lease_candidate_id (f l) = lease_candidate_id l)"
  proof (cases result)
    case (Inl err)
    have "bmodify lid (\<lambda>l. l) (leases e) = leases e" by (rule bmap_eqI) (simp add: option.map_ident)
    then show ?thesis using same [OF Inl] by (intro exI [of _ "\<lambda>l. l"]) simp
  next
    case (Inr attempt)
    then have started: "begin_dispatch_internal e lid b True now = (Inr attempt, e', b')"
      using internal by simp
    show ?thesis
      by (rule begin_dispatch_Inr [OF started])
        (auto intro!: exI [of _ "\<lambda>l. l\<lparr>recovery_credit_required := False, lease_attempt_id := Some attempt\<rparr>"])
  qed
  show "reachable_engine e \<Longrightarrow> reachable_engine e'"
    using reachable_engine.step [of e "EvBeginDispatch lid b True now"] internal by simp
qed

text \<open>A reservation either leaves the books alone or adds one entry to each of them.\<close>

definition new_reservation :: "string \<Rightarrow> runtime_candidate \<Rightarrow> string \<Rightarrow> bool \<Rightarrow> reservation" where
  "new_reservation cid c model is_image =
     \<lparr>rsv_candidate_id = cid, rsv_member_key = member_key c, rsv_model = model,
      rsv_lane = (if is_image then ImageLane else TextLane)\<rparr>"

lemma reserve_result:
  assumes inv: "pool_inv p"
    and res: "reserve_request_with_operation fresh p cid model now_ms is_image op request_id given = (result, p')"
  obtains (refused) "result = None" "pool_quiet p p'"
  | (held) rid c lease l q r where
      "result = Some rid" "pool_quiet p q" "bget (ps_candidates p) cid = Some c" "\<not> ps_retired p"
      "lane_allows p c (rsv_lane r)" "r = new_reservation cid c model is_image"
      "leases (ps_rotation p') = binsert (rl_lease_id lease) l (leases (ps_rotation q))"
      "bget (leases (ps_rotation q)) (rl_lease_id lease) = None"
      "lease_candidate_id l = cid" "rl_candidate_id lease = cid" "lease_attempt_id l = None"
      "reachable_engine (ps_rotation p')" "next_id (ps_reservations q) < rid"
      "p' = hold_reservation rid r lease (q\<lparr>ps_rotation := ps_rotation p',
         ps_reservations := (ps_reservations q)\<lparr>next_id := rid, active := binsert rid r (active (ps_reservations q))\<rparr>\<rparr>)"
proof -
  let ?lane = "if is_image then ImageLane else TextLane"
  show thesis
  proof (cases "ps_retired p \<or> \<not> is_some_and (bget (ps_candidates p) cid) (\<lambda>c. lane_allows p c ?lane)")
    case True
    then have "result = None \<and> p' = p"
      using res by (auto simp: reserve_request_with_operation_def Let_def is_some_and_iff split: option.splits if_splits)
    then show thesis using refused by simp
  next
    case ok: False
    then obtain c where c: "bget (ps_candidates p) cid = Some c" "lane_allows p c ?lane"
      by (auto simp: is_some_and_iff)
    define q where "q = sync_all_rotation_candidates p"
    have q: "pool_quiet p q" unfolding q_def by (rule sync_quiet)
    have reach: "reachable_engine (ps_rotation q)" using quiet_inv [OF q inv] by (simp add: pool_inv_def)
    have put: "pool_quiet p (q\<lparr>ps_rotation := e\<rparr>)" if "engine_quiet (ps_rotation q) e" for e
      using q that by (auto simp: pool_quiet_def holdings_def names_of_def fun_eq_iff fences_ok_def
          rate_table_ok_def intro: quiet_trans)
    obtain outcome e where e:
      "reserve (ps_rotation q) (prepared_request fresh request_id cid model op given) now_ms = (outcome, e)"
      by fastforce
    show thesis
    proof (cases outcome)
      case (Inl err)
      have "e = ps_rotation q"
        using reserve_failed [OF accounted_keyed [OF reachable_accounted [OF reach]]] e Inl by simp
      then have "result = None \<and> p' = q"
        using res c ok e Inl
        by (simp add: reserve_request_with_operation_def q_def [symmetric] Let_def)
      then show thesis using refused q by simp
    next
      case (Inr lease)
      obtain l where l: "leases e = binsert (rl_lease_id lease) l (leases (ps_rotation q))"
        "bget (leases (ps_rotation q)) (rl_lease_id lease) = None" "lease_candidate_id l = rl_candidate_id lease"
        "lease_attempt_id l = None" "reachable_engine e"
        using reserve_leases [OF reach e [unfolded Inr]] by blast
      let ?undone_engine = "snd (release_unstarted e (rl_lease_id lease))"
      have "leases ?undone_engine = leases (ps_rotation q)"
      proof -
        have "bremove (rl_lease_id lease) (binsert (rl_lease_id lease) l (leases (ps_rotation q))) =
            leases (ps_rotation q)"
          using l(2) by (intro bmap_eqI) simp
        then show ?thesis
          using release_unstarted_leases(1,3) [of e "rl_lease_id lease"] l by (cases "release_unstarted e (rl_lease_id lease)") auto
      qed
      moreover have "reachable_engine ?undone_engine"
        using release_unstarted_leases(2) [of e "rl_lease_id lease"] l(5) by (cases "release_unstarted e (rl_lease_id lease)") auto
      ultimately have undone: "pool_quiet p (q\<lparr>ps_rotation := ?undone_engine\<rparr>)"
        by (intro put) (simp add: engine_quiet_def)
      let ?r = "new_reservation cid c model is_image"
      show thesis
      proof (cases "rl_candidate_id lease = cid \<and> checked_add (next_id (ps_reservations q)) 1 \<noteq> None")
        case False
        then have "result = None \<and> p' = q\<lparr>ps_rotation := ?undone_engine\<rparr>"
          using res c ok e Inr
          by (auto simp: reserve_request_with_operation_def q_def [symmetric] Let_def reservations_reserve_def
              split: if_splits)
        then show thesis using refused undone by simp
      next
        case True
        then obtain rid where rid: "checked_add (next_id (ps_reservations q)) 1 = Some rid" by auto
        have p': "result = Some rid \<and> p' = hold_reservation rid ?r lease (q\<lparr>ps_rotation := e,
            ps_reservations := (ps_reservations q)\<lparr>next_id := rid,
              active := binsert rid ?r (active (ps_reservations q))\<rparr>\<rparr>)"
          using res c ok e Inr True rid
          by (auto simp: reserve_request_with_operation_def q_def [symmetric] Let_def reservations_reserve_def
              new_reservation_def)
        then have rot: "ps_rotation p' = e" by (simp add: hold_reservation_def)
        have "next_id (ps_reservations q) < rid" using checked_add_unat [OF rid] by (simp add: word_less_nat_alt)
        then show thesis
          using held [of rid q c ?r lease l] p' q c True l rot ok
          by (simp add: new_reservation_def)
      qed
    qed
  qed
qed

lemma hold_fields [simp]:
  "names_of (hold_reservation rid r lease p) = names_of p"
  "ps_rotation (hold_reservation rid r lease p) = ps_rotation p"
  "ps_reservations (hold_reservation rid r lease p) = ps_reservations p"
  "ps_rotation_leases (hold_reservation rid r lease p) = binsert rid lease (ps_rotation_leases p)"
  "ps_activity (hold_reservation rid r lease p) =
     activity_reserve (rsv_candidate_id r) (rsv_model r) (rsv_lane r) (ps_activity p)"
  "ps_member_activity (hold_reservation rid r lease p) =
     activity_reserve (rsv_member_key r) (rsv_model r) (rsv_lane r) (ps_member_activity p)"
  "ps_native_routes (hold_reservation rid r lease p) = ps_native_routes p"
  "ps_retired_candidates (hold_reservation rid r lease p) = ps_retired_candidates p"
  "fences_ok (hold_reservation rid r lease p) = fences_ok p"
  "rate_table_ok (hold_reservation rid r lease p) = rate_table_ok p"
  by (simp_all add: hold_reservation_def names_of_def fun_eq_iff fences_ok_def rate_table_ok_def)

lemma book_fields [simp]:
  "names_of (p\<lparr>ps_rotation := e\<rparr>) = names_of p" "names_of (p\<lparr>ps_reservations := rs\<rparr>) = names_of p"
  "names_of (p\<lparr>ps_rotation_leases := m\<rparr>) = names_of p"
  "names_of (p\<lparr>ps_activity := a\<rparr>) = names_of p" "names_of (p\<lparr>ps_member_activity := a\<rparr>) = names_of p"
  "fences_ok (p\<lparr>ps_rotation := e\<rparr>) = fences_ok p" "fences_ok (p\<lparr>ps_reservations := rs\<rparr>) = fences_ok p"
  "fences_ok (p\<lparr>ps_rotation_leases := m\<rparr>) = fences_ok p"
  "fences_ok (p\<lparr>ps_activity := a\<rparr>) = fences_ok p" "fences_ok (p\<lparr>ps_member_activity := a\<rparr>) = fences_ok p"
  "fences_ok (p\<lparr>ps_candidates := cs\<rparr>) = fences_ok p"
  "rate_table_ok (p\<lparr>ps_rotation := e\<rparr>) = rate_table_ok p" "rate_table_ok (p\<lparr>ps_reservations := rs\<rparr>) = rate_table_ok p"
  "rate_table_ok (p\<lparr>ps_rotation_leases := m\<rparr>) = rate_table_ok p"
  "rate_table_ok (p\<lparr>ps_activity := a\<rparr>) = rate_table_ok p"
  "rate_table_ok (p\<lparr>ps_member_activity := a\<rparr>) = rate_table_ok p"
  "rate_table_ok (p\<lparr>ps_candidates := cs\<rparr>) = rate_table_ok p"
  by (simp_all add: names_of_def fun_eq_iff fences_ok_def rate_table_ok_def)

lemma pool_inv_linked: "pool_inv p \<Longrightarrow> linked_leases p"
  by (simp add: pool_inv_def)

lemma linked_lease:
  assumes "pool_inv p" and "bget (ps_rotation_leases p) rid = Some lease"
  obtains l r where "bget (leases (ps_rotation p)) (rl_lease_id lease) = Some l"
    "lease_candidate_id l = rl_candidate_id lease"
    "bget (active (ps_reservations p)) rid = Some r" "rsv_candidate_id r = rl_candidate_id lease"
  using assms unfolding pool_inv_def linked_leases_def by blast

lemma fresh_reservation:
  assumes "registered_reservations p" and "next_id (ps_reservations p) < rid"
  shows "bget (active (ps_reservations p)) rid = None"
proof (rule ccontr)
  assume "bget (active (ps_reservations p)) rid \<noteq> None"
  then have "rid \<le> next_id (ps_reservations p)" using assms(1) by (auto simp: registered_reservations_def)
  with assms(2) show False by simp
qed

text \<open>A lease and its reservation come together; the lease goes first.\<close>

lemma link_insert:
  assumes "linked_leases q" and none: "bget (active (ps_reservations q)) rid = None"
    and free: "\<And>i x. bget (ps_rotation_leases q) i = Some x \<Longrightarrow> rl_lease_id x \<noteq> rl_lease_id lease"
    and ids: "lease_candidate_id l = rl_candidate_id lease" "rsv_candidate_id r = rl_candidate_id lease"
    and p': "leases (ps_rotation p') = binsert (rl_lease_id lease) l (leases (ps_rotation q))"
      "ps_rotation_leases p' = binsert rid lease (ps_rotation_leases q)"
      "active (ps_reservations p') = binsert rid r (active (ps_reservations q))"
  shows "linked_leases p'"
  unfolding linked_leases_def p'
proof (intro conjI allI impI)
  fix i x
  assume "bget (binsert rid lease (ps_rotation_leases q)) i = Some x"
  then show "\<exists>la. bget (binsert (rl_lease_id lease) l (leases (ps_rotation q))) (rl_lease_id x) = Some la \<and>
        lease_candidate_id la = rl_candidate_id x"
    and "\<exists>ra. bget (binsert rid r (active (ps_reservations q))) i = Some ra \<and>
        rsv_candidate_id ra = rl_candidate_id x"
    using assms(1) ids free [of i x] by (auto simp: linked_leases_def split: if_splits)
next
  fix lid k
  assume "bget (binsert (rl_lease_id lease) l (leases (ps_rotation q))) lid = Some k"
  then consider "lid = rl_lease_id lease" | "bget (leases (ps_rotation q)) lid = Some k" by (auto split: if_splits)
  then show "\<exists>i x. bget (binsert rid lease (ps_rotation_leases q)) i = Some x \<and> rl_lease_id x = lid"
  proof cases
    case 2
    then obtain i x where ix: "bget (ps_rotation_leases q) i = Some x" "rl_lease_id x = lid"
      using assms(1) by (auto simp: linked_leases_def)
    then have "i \<noteq> rid" using assms(1) none by (fastforce simp: linked_leases_def)
    with ix show ?thesis by (intro exI [of _ i] exI [of _ x]) simp
  qed auto
next
  fix a b x y
  assume "bget (binsert rid lease (ps_rotation_leases q)) a = Some x"
    "bget (binsert rid lease (ps_rotation_leases q)) b = Some y" "rl_lease_id x = rl_lease_id y"
  then show "a = b"
    using assms(1) free [of a x] free [of b y] by (auto simp: linked_leases_def split: if_splits)
qed

lemma link_remove:
  assumes "linked_leases q" and lease: "bget (ps_rotation_leases q) rid = Some lease"
    and p': "leases (ps_rotation p') = bremove (rl_lease_id lease) (leases (ps_rotation q))"
      "ps_rotation_leases p' = bremove rid (ps_rotation_leases q)"
      "ps_reservations p' = ps_reservations q"
  shows "linked_leases p'"
proof -
  have other: "rl_lease_id x \<noteq> rl_lease_id lease" if "bget (ps_rotation_leases q) i = Some x" "i \<noteq> rid" for i x
    using assms(1) lease that unfolding linked_leases_def by blast
  have holder: "\<exists>i x. i \<noteq> rid \<and> bget (ps_rotation_leases q) i = Some x \<and> rl_lease_id x = lid"
    if lid: "bget (leases (ps_rotation q)) lid = Some k" "lid \<noteq> rl_lease_id lease" for lid k
  proof -
    obtain i x where ix: "bget (ps_rotation_leases q) i = Some x" "rl_lease_id x = lid"
      using assms(1) lid(1) by (auto simp: linked_leases_def)
    with lease lid(2) have "i \<noteq> rid" by auto
    with ix show ?thesis by blast
  qed
  have "\<exists>i x. bget (bremove rid (ps_rotation_leases q)) i = Some x \<and> rl_lease_id x = lid"
    if "bget (bremove (rl_lease_id lease) (leases (ps_rotation q))) lid = Some k" for lid k
    using that holder [of lid k] by (force split: if_splits)
  then show ?thesis
    using assms(1) other unfolding linked_leases_def p' by (simp split: if_splits)
qed

lemma link_drop:
  assumes "linked_leases q" and "bget (ps_rotation_leases q) rid = None"
    and p': "leases (ps_rotation p') = leases (ps_rotation q)"
      "ps_rotation_leases p' = ps_rotation_leases q"
      "active (ps_reservations p') = bremove rid (active (ps_reservations q))"
  shows "linked_leases p'"
  using assms(1,2) unfolding linked_leases_def p' by fastforce

lemma drain_mono:
  assumes "draining_retired q" and "ps_retired_candidates p' \<subseteq> ps_retired_candidates q"
    and "names_of p' = names_of q"
    and "\<And>i x. bget (active (ps_reservations q)) i = Some x \<Longrightarrow> bget (active (ps_reservations p')) i = Some x"
  shows "draining_retired p'"
  using assms unfolding draining_retired_def by (metis subsetD)

lemma reserve_inv:
  assumes "pool_inv p" and small: "bsize (active (ps_reservations p)) < 2 ^ 32 - 1"
    and res: "reserve_request_with_operation fresh p cid model now_ms is_image op request_id given = (result, p')"
  shows "pool_inv p'" and "members_exact p \<Longrightarrow> members_exact p'"
proof -
  have "pool_inv p' \<and> (members_exact p \<longrightarrow> members_exact p')"
  using assms(1) res
  proof (rule reserve_result)
    assume "pool_quiet p p'"
    then show ?thesis using quiet_inv quiet_members assms(1) by blast
  next
    fix rid c lease l q r
    assume q: "pool_quiet p q" and c: "bget (ps_candidates p) cid = Some c"
      and r: "r = new_reservation cid c model is_image"
      and l: "leases (ps_rotation p') = binsert (rl_lease_id lease) l (leases (ps_rotation q))"
        "bget (leases (ps_rotation q)) (rl_lease_id lease) = None"
        "lease_candidate_id l = cid" "rl_candidate_id lease = cid" "reachable_engine (ps_rotation p')"
      and rid: "next_id (ps_reservations q) < rid"
      and p': "p' = hold_reservation rid r lease (q\<lparr>ps_rotation := ps_rotation p', ps_reservations :=
        (ps_reservations q)\<lparr>next_id := rid, active := binsert rid r (active (ps_reservations q))\<rparr>\<rparr>)"
    have inv: "pool_inv q" by (rule quiet_inv [OF q assms(1)])
    have none: "bget (active (ps_reservations q)) rid = None"
      using fresh_reservation rid inv by (simp add: pool_inv_def)
    have size: "bsize (active (ps_reservations q)) < 2 ^ 32 - 1"
      using q small by (simp add: pool_quiet_def holdings_def)
    have names: "names_of q cid = Some (cid, member_key c)"
      using q c pool_inv_keyed [OF assms(1)] by (simp add: pool_quiet_def names_of_def pool_keyed_def)
    define e where "e = ps_rotation p'"
    note p' = p' [folded e_def] and l = l [folded e_def]
    have fields: "rsv_candidate_id r = cid" "rsv_member_key r = member_key c"
      by (simp_all add: r new_reservation_def)
    have up: "i \<le> rid" if "i \<le> next_id (ps_reservations q)" for i using that rid by simp
    have no_lease: "bget (ps_rotation_leases q) rid = None"
      by (cases "bget (ps_rotation_leases q) rid") (auto elim: linked_lease [OF inv] simp: none)
    have free: "rl_lease_id x \<noteq> rl_lease_id lease" if "bget (ps_rotation_leases q) i = Some x" for i x
      by (rule linked_lease [OF inv that]) (use l(2) in auto)
    have "tallies rsv_candidate_id (activity_reserve cid (rsv_model r) (rsv_lane r) (ps_activity q))
        (binsert rid r (active (ps_reservations q)))"
      using tallies_reserve [OF _ none size, of rsv_candidate_id "ps_activity q" r] inv fields
      by (simp add: pool_inv_def)
    moreover have "linked_leases p'"
      using link_insert [of q rid lease l r p'] inv l none free fields
      by (simp add: p' pool_inv_def)
    moreover have "registered_reservations p'"
      using inv names size up bsize_insert_fresh [OF none] fields unfolding p'
      by (simp add: pool_inv_def registered_reservations_def)
    moreover have "draining_retired p'"
      by (rule drain_mono [of q]) (use inv none in \<open>auto simp: p' pool_inv_def\<close>)
    ultimately have "pool_inv p'"
      using inv l(5) fields unfolding pool_inv_def p' by simp
    moreover have "members_exact p'" if "members_exact p"
    proof -
      have exact: "members_exact q" by (rule quiet_members [OF q that])
      then show ?thesis
        using tallies_reserve [OF _ none size, of rsv_member_key "ps_member_activity q" r] fields names
        unfolding p' by (simp add: members_exact_def)
    qed
    ultimately show ?thesis by blast
  qed
  then show "pool_inv p'" and "members_exact p \<Longrightarrow> members_exact p'" by blast+
qed

text \<open>A lease that is settled or released unstarted leaves both books.\<close>

lemma lease_gone_inv:
  assumes inv: "pool_inv p" and lease: "bget (ps_rotation_leases p) rid = Some lease"
    and e: "leases e = bremove (rl_lease_id lease) (leases (ps_rotation p))" "reachable_engine e"
  shows "pool_inv (p\<lparr>ps_rotation := e, ps_rotation_leases := bremove rid (ps_rotation_leases p)\<rparr>)"
proof -
  let ?p = "p\<lparr>ps_rotation := e, ps_rotation_leases := bremove rid (ps_rotation_leases p)\<rparr>"
  have "linked_leases ?p"
    by (rule link_remove [OF pool_inv_linked [OF inv] lease]) (simp_all add: e(1))
  then show ?thesis
    using inv e(2) by (simp add: pool_inv_def registered_reservations_def draining_retired_def)
qed

lemma engine_only_quiet:
  "engine_quiet (ps_rotation p) e \<Longrightarrow> pool_quiet p (p\<lparr>ps_rotation := e\<rparr>)"
  by (simp add: pool_quiet_def holdings_def)

lemma release_unstarted_inv:
  assumes "pool_inv p"
  shows "pool_inv (snd (release_rotation_unstarted p rid))"
proof (cases "bget (ps_rotation_leases p) rid")
  case (Some lease)
  obtain released e where e: "release_unstarted (ps_rotation p) (rl_lease_id lease) = (released, e)" by fastforce
  note facts = release_unstarted_leases [OF e]
  have reach: "reachable_engine e" using facts(2) assms by (simp add: pool_inv_def)
  show ?thesis
  proof (cases released)
    case True
    then show ?thesis
      using lease_gone_inv [OF assms Some _ reach] facts(1) by (simp add: release_rotation_unstarted_def Some e)
  next
    case False
    then have "engine_quiet (ps_rotation p) e" using facts(1) reach by (simp add: engine_quiet_def)
    then show ?thesis
      using quiet_inv [OF engine_only_quiet assms] False by (simp add: release_rotation_unstarted_def Some e)
  qed
qed (simp add: release_rotation_unstarted_def assms)

lemma settle_inv:
  assumes "pool_inv p"
  shows "pool_inv (snd (settle_rotation_with_latency p rid observation b now_ms latency now))"
proof (cases "bget (ps_rotation_leases p) rid")
  case (Some lease)
  obtain result e where
    e: "settle_with_latency (ps_rotation p) (rl_lease_id lease) observation b now_ms latency now = (result, e)"
    by fastforce
  note facts = settle_leases [OF e]
  have reach: "reachable_engine e" using facts(2) assms by (simp add: pool_inv_def)
  show ?thesis
  proof (cases result)
    case (Inl err)
    then show ?thesis using assms facts(3) by (simp add: settle_rotation_with_latency_def Some e)
  next
    case (Inr s)
    then show ?thesis
      using lease_gone_inv [OF assms Some _ reach] facts(1) by (simp add: settle_rotation_with_latency_def Some e)
  qed
qed (simp add: settle_rotation_with_latency_def assms)

lemma cancel_as_settle:
  "snd (cancel_rotation p rid b now_ms now) = snd (settle_rotation_with_latency p rid
     \<lparr>ao_execution = obs_unknown, ao_health = HealthCancelled\<rparr> b now_ms None now)"
  by (simp add: cancel_rotation_def settle_rotation_with_latency_def cancel_def settle_def
      split: option.split prod.split sum.split)

lemma lease_ops_members:
  "members_exact p \<Longrightarrow> members_exact (snd (release_rotation_unstarted p rid))"
  "members_exact p \<Longrightarrow> members_exact (snd (settle_rotation_with_latency p rid observation b now_ms latency now))"
  by (auto simp: members_exact_def release_rotation_unstarted_def settle_rotation_with_latency_def
      split: option.split prod.split sum.split)

text \<open>A dispatch marks the lease and counts; it adds and removes nothing.\<close>

lemma record_dispatch_fields:
  "names_of (record_reservation_dispatch rid wall_ms p) = names_of p"
  "ps_rotation (record_reservation_dispatch rid wall_ms p) = ps_rotation p"
  "ps_reservations (record_reservation_dispatch rid wall_ms p) = ps_reservations p"
  "ps_rotation_leases (record_reservation_dispatch rid wall_ms p) = ps_rotation_leases p"
  "ps_native_routes (record_reservation_dispatch rid wall_ms p) = ps_native_routes p"
  "ps_retired_candidates (record_reservation_dispatch rid wall_ms p) = ps_retired_candidates p"
  "fences_ok (record_reservation_dispatch rid wall_ms p) = fences_ok p"
  "rate_table_ok (record_reservation_dispatch rid wall_ms p) = rate_table_ok p"
proof -
  have "names_of (p\<lparr>ps_activity := a, ps_member_activity := m, ps_candidates :=
      bmodify cid (\<lambda>c. c\<lparr>cn_last_used_at := Some wall_ms\<rparr>) (ps_candidates p)\<rparr>) = names_of p" for a m cid
    by (rule names_modify [where cid = cid and f = "\<lambda>c. c\<lparr>cn_last_used_at := Some wall_ms\<rparr>"])
      (auto intro: member_key_edit)
  then show "names_of (record_reservation_dispatch rid wall_ms p) = names_of p"
    by (simp add: record_reservation_dispatch_def split: option.split)
qed (simp_all add: record_reservation_dispatch_def split: option.split)

lemma record_dispatch_tallies:
  "tallies f (ps_activity p) rs \<Longrightarrow> tallies f (ps_activity (record_reservation_dispatch rid wall_ms p)) rs"
  "tallies f (ps_member_activity p) rs \<Longrightarrow>
     tallies f (ps_member_activity (record_reservation_dispatch rid wall_ms p)) rs"
  by (auto simp: record_reservation_dispatch_def tallies_dispatch split: option.split)

lemma record_dispatch_inv:
  "pool_inv p \<Longrightarrow> pool_inv (record_reservation_dispatch rid wall_ms p)"
  "members_exact p \<Longrightarrow> members_exact (record_reservation_dispatch rid wall_ms p)"
  by (simp_all add: pool_inv_parts members_exact_def record_dispatch_fields record_dispatch_tallies)

lemma marked_inv:
  assumes inv: "pool_inv p" and "reachable_engine e" and "leases e = bmodify lid f (leases (ps_rotation p))"
    and "\<And>l. lease_candidate_id (f l) = lease_candidate_id l"
  shows "pool_inv (p\<lparr>ps_rotation := e\<rparr>)"
proof -
  have "linked_leases (p\<lparr>ps_rotation := e\<rparr>)"
    using pool_inv_linked [OF inv] unfolding linked_leases_def
    by (simp add: assms(3)) (metis assms(4))
  then show ?thesis
    using inv assms(2) by (simp add: pool_inv_def registered_reservations_def draining_retired_def)
qed

lemma dispatch_inv:
  assumes "pool_inv p" and "begin_rotation_dispatch p rid b now wall_ms = (result, p', b')"
  shows "pool_inv p'" and "members_exact p \<Longrightarrow> members_exact p'"
proof -
  define q where "q = sync_all_rotation_candidates p"
  have q: "pool_quiet p q" unfolding q_def by (rule sync_quiet)
  have inv: "pool_inv q" by (rule quiet_inv [OF q assms(1)])
  have "pool_inv p' \<and> (members_exact p \<longrightarrow> members_exact p')"
  proof (cases "ps_retired p \<or> bget (ps_rotation_leases q) rid = None")
    case True
    then have "p' = p \<or> p' = q"
      using assms(2) by (auto simp: begin_rotation_dispatch_def q_def [symmetric] Let_def split: if_splits)
    then show ?thesis using inv assms(1) quiet_members [OF q] by auto
  next
    case False
    then obtain lease where lease: "bget (ps_rotation_leases q) rid = Some lease" by auto
    obtain outcome e b1 where e: "begin_transport_dispatch (ps_rotation q) (rl_lease_id lease) b now = (outcome, e, b1)"
      by (metis surj_pair)
    obtain f where "leases e = bmodify (rl_lease_id lease) f (leases (ps_rotation q))"
      "\<And>l. lease_candidate_id (f l) = lease_candidate_id l"
      using dispatch_leases(1) [OF e] by blast
    then have put: "pool_inv (q\<lparr>ps_rotation := e\<rparr>)"
      using marked_inv [OF inv] dispatch_leases(2) [OF e] inv by (simp add: pool_inv_def)
    have exact: "members_exact (q\<lparr>ps_rotation := e\<rparr>)" if "members_exact p"
      using quiet_members [OF q that] by (simp add: members_exact_def)
    have "p' = q\<lparr>ps_rotation := e\<rparr> \<or> p' = record_reservation_dispatch rid wall_ms (q\<lparr>ps_rotation := e\<rparr>)"
      using assms(2) False
      by (auto simp: begin_rotation_dispatch_def q_def [symmetric] Let_def lease e split: sum.splits)
    then show ?thesis using record_dispatch_inv put exact by auto
  qed
  then show "pool_inv p'" and "members_exact p \<Longrightarrow> members_exact p'" by blast+
qed

text \<open>Dropping a reservation, with its candidate taken off the retired ones until it is finalised.\<close>

lemma drop_fields:
  "names_of (drop_reservation rid r p) = names_of p"
  "ps_rotation (drop_reservation rid r p) = ps_rotation p"
  "next_id (ps_reservations (drop_reservation rid r p)) = next_id (ps_reservations p)"
  "active (ps_reservations (drop_reservation rid r p)) = bremove rid (active (ps_reservations p))"
  "ps_rotation_leases (drop_reservation rid r p) = ps_rotation_leases p"
  "ps_native_routes (drop_reservation rid r p) = ps_native_routes p"
  "ps_retired_candidates (drop_reservation rid r p) = ps_retired_candidates p"
  "fences_ok (drop_reservation rid r p) = fences_ok p"
  "rate_table_ok (drop_reservation rid r p) = rate_table_ok p"
  by (simp_all add: drop_reservation_def reservations_release_def names_of_def fun_eq_iff
      fences_ok_def rate_table_ok_def)

lemma retired_fields [simp]:
  "names_of (p\<lparr>ps_retired_candidates := s\<rparr>) = names_of p"
  "fences_ok (p\<lparr>ps_retired_candidates := s\<rparr>) = fences_ok p"
  "rate_table_ok (p\<lparr>ps_retired_candidates := s\<rparr>) = rate_table_ok p"
  "linked_leases (p\<lparr>ps_retired_candidates := s\<rparr>) = linked_leases p"
  "registered_reservations (p\<lparr>ps_retired_candidates := s\<rparr>) = registered_reservations p"
  by (simp_all add: names_of_def fun_eq_iff fences_ok_def rate_table_ok_def linked_leases_def
      registered_reservations_def)

lemma drop_inv:
  assumes inv: "pool_inv p" and none: "bget (ps_rotation_leases p) rid = None"
    and r: "bget (active (ps_reservations p)) rid = Some r"
  shows "pool_inv ((drop_reservation rid r p)
    \<lparr>ps_retired_candidates := ps_retired_candidates p - {rsv_candidate_id r}\<rparr>)" (is "pool_inv ?p")
proof -
  let ?rs = "bremove rid (active (ps_reservations p))"
  have "tallies rsv_candidate_id (ps_activity (drop_reservation rid r p)) ?rs"
    using tallies_release [OF _ r, of rsv_candidate_id "ps_activity p"] inv
    by (simp add: drop_reservation_def pool_inv_def)
  moreover have "linked_leases (drop_reservation rid r p)"
    by (rule link_drop [OF pool_inv_linked [OF inv] none]) (simp_all add: drop_fields)
  moreover have "registered_reservations (drop_reservation rid r p)"
    using inv bsize_remove_le [of rid "active (ps_reservations p)"]
    by (auto simp: pool_inv_def registered_reservations_def drop_fields split: if_splits)
  moreover have "draining_retired ?p"
    unfolding draining_retired_def
  proof
    fix cid
    assume cid: "cid \<in> ps_retired_candidates ?p"
    then obtain i x where "names_of p cid \<noteq> None" "bget (active (ps_reservations p)) i = Some x"
      "rsv_candidate_id x = cid"
      using inv by (auto simp: pool_inv_def draining_retired_def)
    moreover from this cid r have "i \<noteq> rid" by auto
    ultimately show "names_of ?p cid \<noteq> None \<and>
        (\<exists>i x. bget (active (ps_reservations ?p)) i = Some x \<and> rsv_candidate_id x = cid)"
      by (auto simp: drop_fields)
  qed
  ultimately show ?thesis using inv by (simp add: pool_inv_def drop_fields)
qed

lemma remove_now_exempt:
  "snd (remove_now cid (p\<lparr>ps_retired_candidates := ps_retired_candidates p - {cid}\<rparr>)) = snd (remove_now cid p)"
  by (simp add: remove_now_def Let_def split: option.split)

lemma finalize_dropped:
  assumes "pool_inv (p\<lparr>ps_retired_candidates := ps_retired_candidates p - {cid}\<rparr>)"
    and "cid \<in> ps_retired_candidates p \<Longrightarrow> names_of p cid \<noteq> None"
  shows "pool_inv (finalize_retired_if_idle cid p)"
proof -
  let ?p = "p\<lparr>ps_retired_candidates := ps_retired_candidates p - {cid}\<rparr>"
  have idle: "active_request_count cid (ps_activity p) = 0 \<longleftrightarrow> idle cid p"
    using idle_count [OF assms(1), of cid] by (simp add: idle_def)
  consider "cid \<notin> ps_retired_candidates p" | "cid \<in> ps_retired_candidates p" "idle cid p"
    | "cid \<in> ps_retired_candidates p" "\<not> idle cid p" by blast
  then show ?thesis
  proof cases
    case 1
    then show ?thesis using assms(1) by (simp add: finalize_retired_if_idle_def)
  next
    case 2
    then show ?thesis
      using remove_now_inv [OF assms(1), of cid] idle
      by (simp add: finalize_retired_if_idle_def remove_now_exempt) (simp add: idle_def)
  next
    case 3
    have others: "names_of p c \<noteq> None \<and> (\<exists>i x. bget (active (ps_reservations p)) i = Some x \<and> rsv_candidate_id x = c)"
      if "c \<in> ps_retired_candidates p - {cid}" for c
      using assms(1) that by (simp add: pool_inv_def draining_retired_def)
    have "draining_retired p"
      unfolding draining_retired_def
    proof
      fix c
      assume "c \<in> ps_retired_candidates p"
      then show "names_of p c \<noteq> None \<and> (\<exists>i x. bget (active (ps_reservations p)) i = Some x \<and> rsv_candidate_id x = c)"
        using others [of c] 3 assms(2) by (cases "c = cid") (auto simp: idle_def)
    qed
    then have "pool_inv p" using assms(1) by (simp add: pool_inv_def)
    then show ?thesis using 3 idle by (simp add: finalize_retired_if_idle_def)
  qed
qed

lemma finalize_members:
  assumes "members_exact p" and "active_request_count cid (ps_activity p) = 0 \<Longrightarrow> idle cid p"
  shows "members_exact (finalize_retired_if_idle cid p)"
  using assms remove_now_members [OF assms(1)] by (simp add: finalize_retired_if_idle_def)

text \<open>The two stages of a release.\<close>

lemma release_stages:
  assumes "pool_inv p" and "release_reservation p rid = (ok, p')"
  obtains (kept) p1 where "\<not> ok" "pool_inv p1" "members_exact p \<Longrightarrow> members_exact p1" "p' = p1"
      "ps_reservations p1 = ps_reservations p"
  | (dropped) p1 r where "ok" "pool_inv p1" "members_exact p \<Longrightarrow> members_exact p1"
      "bget (ps_rotation_leases p1) rid = None" "bget (active (ps_reservations p1)) rid = Some r"
      "ps_reservations p1 = ps_reservations p" "ps_candidates p1 = ps_candidates p"
      "ps_retired_candidates p1 = ps_retired_candidates p"
      "ps_rotation_leases p1 = bremove rid (ps_rotation_leases p)"
      "p' = finalize_retired_if_idle (rsv_candidate_id r) (drop_reservation rid r p1)"
proof -
  obtain freed p1 where p1: "(if bcontains (ps_rotation_leases p) rid then release_rotation_unstarted p rid
      else (True, p)) = (freed, p1)" by fastforce
  have inv: "pool_inv p1"
    using p1 assms(1) release_unstarted_inv [OF assms(1), of rid] by (auto split: if_splits)
  have exact: "members_exact p1" if "members_exact p"
    using p1 that lease_ops_members(1) [OF that, of rid] by (auto split: if_splits)
  have same: "ps_reservations p1 = ps_reservations p" "ps_candidates p1 = ps_candidates p"
    "ps_retired_candidates p1 = ps_retired_candidates p"
    using p1 by (auto simp: release_rotation_unstarted_def split: if_splits option.splits prod.splits)
  have gone: "freed \<Longrightarrow> ps_rotation_leases p1 = bremove rid (ps_rotation_leases p)"
    using p1 by (auto simp: release_rotation_unstarted_def bcontains_def bremove_absent
        split: if_splits option.splits prod.splits)
  show thesis
  proof (cases "freed \<and> bget (active (ps_reservations p1)) rid \<noteq> None")
    case True
    then obtain r where r: "bget (active (ps_reservations p1)) rid = Some r" by auto
    then have "ok \<and> p' = finalize_retired_if_idle (rsv_candidate_id r) (drop_reservation rid r p1)"
      using assms(2) True unfolding release_reservation_def p1 by (simp add: reservations_release_def)
    then show thesis using dropped [OF _ inv exact] same gone True r by simp
  next
    case False
    have "ps_reservations p1 = (ps_reservations p1)\<lparr>active := bremove rid (active (ps_reservations p1))\<rparr>"
      if "bget (active (ps_reservations p1)) rid = None"
      using bremove_absent [OF that] by simp
    then have "\<not> ok \<and> p' = p1"
      using assms(2) False unfolding release_reservation_def p1
      by (auto simp: reservations_release_def split: bool.splits)
    then show thesis using kept [OF _ inv exact] same by simp
  qed
qed

lemma release_inv:
  assumes "pool_inv p" and "release_reservation p rid = (ok, p')"
  shows "pool_inv p'" and "members_exact p \<Longrightarrow> members_exact p'"
proof -
  have "pool_inv p' \<and> (members_exact p \<longrightarrow> members_exact p')"
  using assms
  proof (cases rule: release_stages)
    case (kept p1)
    then show ?thesis by simp
  next
    case (dropped p1 r)
    let ?q = "drop_reservation rid r p1"
    note drop = drop_inv [OF dropped(2,4,5)]
    have names: "rsv_candidate_id r \<in> ps_retired_candidates ?q \<Longrightarrow> names_of ?q (rsv_candidate_id r) \<noteq> None"
      using dropped(2,5) by (simp add: drop_fields pool_inv_def registered_reservations_def)
    have "pool_inv p'"
      using finalize_dropped [OF _ names] drop by (simp add: drop_fields dropped(10))
    moreover have "members_exact p'" if "members_exact p"
    proof -
      have "tallies rsv_member_key (ps_member_activity ?q) (active (ps_reservations ?q))"
        using tallies_release [OF _ dropped(5), of rsv_member_key "ps_member_activity p1"] dropped(3) [OF that]
        by (simp add: drop_reservation_def reservations_release_def members_exact_def)
      then have "members_exact ?q"
        using dropped(3) [OF that] by (simp add: members_exact_def drop_fields)
      moreover have "active_request_count (rsv_candidate_id r) (ps_activity ?q) = 0 \<longleftrightarrow> idle (rsv_candidate_id r) ?q"
        using idle_count [OF drop, of "rsv_candidate_id r"] by (simp add: idle_def)
      ultimately show ?thesis unfolding dropped(10) by (intro finalize_members) simp_all
    qed
    ultimately show ?thesis by blast
  qed
  then show "pool_inv p'" and "members_exact p \<Longrightarrow> members_exact p'" by blast+
qed

section \<open>Every step keeps the invariants\<close>

lemma work_inv:
  assumes "work_step event p = Some p'" and "pool_inv p"
  shows "pool_inv p'" and "members_exact p \<Longrightarrow> members_exact p'"
proof -
  have quiet: "pool_inv q \<and> (members_exact p \<longrightarrow> members_exact q)" if "pool_quiet p q" for q
    using quiet_inv [OF that assms(2)] quiet_members [OF that] by blast
  have "pool_inv p' \<and> (members_exact p \<longrightarrow> members_exact p')"
  proof (cases event)
    case PeSync
    then show ?thesis using assms(1) quiet [OF sync_quiet] by (simp add: pool_all_capacity_reserved_def Let_def)
  next
    case (PePrepare fresh r op)
    then show ?thesis using assms(1) quiet [OF prepare_quiet] by auto
  next
    case (PeSelect fresh r lane op)
    then show ?thesis using assms(1) quiet [OF select_quiet] by auto
  next
    case (PeReserve fresh cid model now_ms is_image op request_id given)
    then obtain result where
      "reserve_request_with_operation fresh p cid model now_ms is_image op request_id given = (result, p')"
      "bsize (active (ps_reservations p)) < 2 ^ 32 - 1"
      using assms(1) by (auto split: if_splits simp: prod_eq_iff)
    then show ?thesis using reserve_inv [OF assms(2)] by blast
  next
    case (PeRelease rid)
    then obtain ok where "release_reservation p rid = (ok, p')" using assms(1) by (auto simp: prod_eq_iff)
    then show ?thesis using release_inv [OF assms(2)] by blast
  next
    case (PeReleaseUnstarted rid)
    then show ?thesis using assms(1) release_unstarted_inv [OF assms(2)] lease_ops_members(1) by auto
  next
    case (PeDispatch rid b now wall_ms)
    then obtain result b' where "begin_rotation_dispatch p rid b now wall_ms = (result, p', b')"
      using assms(1) by (auto simp: prod_eq_iff)
    then show ?thesis using dispatch_inv [OF assms(2)] by blast
  next
    case (PeSettle rid observation b now_ms latency now)
    then show ?thesis using assms(1) settle_inv [OF assms(2)] lease_ops_members(2) by auto
  next
    case (PeCancel rid b now_ms now)
    then show ?thesis
      using assms(1) settle_inv [OF assms(2)] lease_ops_members(2) by (auto simp: cancel_as_settle)
  qed
  then show "pool_inv p'" and "members_exact p \<Longrightarrow> members_exact p'" by blast+
qed

lemma step_inv:
  assumes "pool_step event p = Some p'" and "pool_inv p"
  shows "pool_inv p'" and "members_exact p \<Longrightarrow> \<not> relinks event p \<Longrightarrow> members_exact p'"
proof -
  have quiet: "pool_inv p' \<and> (members_exact p \<longrightarrow> members_exact p')" if "pool_quiet p p'"
    using quiet_inv [OF that assms(2)] quiet_members [OF that] by blast
  have "pool_inv p' \<and> (members_exact p \<longrightarrow> \<not> relinks event p \<longrightarrow> members_exact p')"
  proof (cases event)
    case (Registry x)
    show ?thesis
    proof (cases "\<exists>c. x = PeUpsert c")
      case True
      then obtain c where "x = PeUpsert c" by blast
      then show ?thesis
        using assms upsert_inv upsert_members Registry by (auto simp: pool_step_def)
    next
      case False
      show ?thesis
      proof (cases "\<exists>cid. x = PeRemove cid")
        case True
        then show ?thesis
          using assms pool_remove_inv pool_remove_members Registry by (auto simp: pool_step_def)
      next
        case not_remove: False
        then show ?thesis
          using quiet registry_quiet [of x p p'] assms(1) Registry False by (auto simp: pool_step_def)
      qed
    qed
  next
    case (Guard x)
    then show ?thesis using assms(1) quiet guard_quiet by (auto simp: pool_step_def)
  next
    case (Work x)
    then show ?thesis using assms(1) work_inv [OF _ assms(2)] by (auto simp: pool_step_def)
  next
    case (Owner x)
    then show ?thesis using assms(1) quiet owner_quiet by (auto simp: pool_step_def)
  qed
  then show "pool_inv p'" and "members_exact p \<Longrightarrow> \<not> relinks event p \<Longrightarrow> members_exact p'" by blast+
qed

lemma reachable_pool_inv: "reachable_pool relink p \<Longrightarrow> pool_inv p"
  by (induction rule: reachable_pool.induct) (auto intro: initial_inv step_inv)

lemma reachable_members_exact: "reachable_pool False p \<Longrightarrow> members_exact p"
proof (induction rule: reachable_pool.induct)
  case initial
  show ?case by (rule initial_inv)
next
  case (step p event p')
  then show ?case using step_inv(2) [OF step(2) reachable_pool_inv [OF step(1)]] by simp
qed

end
