(* ===== verification/PoolScenario.thy ===== *)
theory PoolScenario
  imports PoolAccounting "HOL-Library.Code_Target_Numeral"
begin

text \<open>
  Concrete runs of the pool, evaluated from the empty pool by its own steps: one source with one
  model, a policy that allows it two requests at a time, a reservation, its dispatch, a retirement.
  They are the inputs at which the guarantees of the pool are applied.
\<close>

text \<open>A run of steps in which no candidate is linked to another member while it holds reservations.\<close>

fun pool_run :: "pool_event list \<Rightarrow> pool_scheduler \<Rightarrow> pool_scheduler option" where
  "pool_run [] p = Some p"
| "pool_run (event # events) p =
     (if relinks event p then None else Option.bind (pool_step event p) (pool_run events))"

lemma pool_run_reachable:
  "pool_run events p = Some q \<Longrightarrow> reachable_pool False p \<Longrightarrow> reachable_pool False q"
  by (induction events arbitrary: p)
    (auto split: if_splits bind_splits intro: reachable_pool.step)

lemma reachable_relinked: "reachable_pool False p \<Longrightarrow> reachable_pool relink p"
  by (induction rule: reachable_pool.induct) (auto intro: reachable_pool.intros)

definition source_route :: "string \<Rightarrow> string \<Rightarrow> runtime_candidate" where
  "source_route cid member =
     \<lparr>cn_id = cid, cn_kind = ApiSource, cn_source_id = member, cn_account_id = None,
      cn_protocol = Responses, cn_model_protocols = bempty, cn_enabled = True, cn_draining = False,
      cn_priority = 0, cn_weight = 1, cn_models = binsert ''m'' () bempty, cn_model_rules = default_rules,
      cn_health = HHealthy, cn_quota = CqUnknown, cn_credits = None, cn_credits_unlimited = False,
      cn_credits_observed_at_ms = None, cn_quota_updated_at_ms = None, cn_quota_reset_at_ms = None,
      cn_cooldowns = bempty, cn_last_used_at = None, cn_secret_available = True\<rparr>"

definition two_at_a_time :: pool_policy where
  "two_at_a_time = default_policy\<lparr>pp_members :=
     [\<lparr>pm_kind = SourceMember, pm_id = ''s'', pm_weight = 1, pm_max_concurrency = 2\<rparr>]\<rparr>"

definition ask :: selection_request where
  "ask = \<lparr>sr_model = ''m'', sr_allowed_protocols = [Responses], sr_scope = default_scope, sr_tried = {},
     sr_response_key = None, sr_prompt_key = Some ''k'', sr_now_ms = 5\<rparr>"

definition reserve_s :: pool_event where
  "reserve_s = Work (PeReserve 7 ''s'' ''m'' 5 False OpText None None)"

definition open_events :: "pool_event list" where
  "open_events = [Registry (PeUpsert (source_route ''s'' ''s'')), Registry (PeRouting two_at_a_time)]"

definition open_pool :: pool_scheduler where
  "open_pool = the (pool_run open_events new_pool)"

definition held_pool :: pool_scheduler where
  "held_pool = the (pool_run (open_events @ [reserve_s]) new_pool)"

definition draining_pool :: pool_scheduler where
  "draining_pool = the (pool_run (open_events @ [reserve_s, Registry (PeRemove ''s'')]) new_pool)"

lemma scenario_runs:
  "pool_run open_events new_pool \<noteq> None"
  "pool_run (open_events @ [reserve_s]) new_pool \<noteq> None"
  "pool_run (open_events @ [reserve_s, Registry (PeRemove ''s'')]) new_pool \<noteq> None"
  by code_simp+

lemma scenario_pools:
  "reachable_pool False open_pool" "reachable_pool False held_pool" "reachable_pool False draining_pool"
  unfolding open_pool_def held_pool_def draining_pool_def
  using scenario_runs by (auto intro: pool_run_reachable reachable_pool.initial)

end
