(* ===== verification/PoolGuarantees.thy ===== *)
theory PoolGuarantees
  imports PoolScenario
begin

text \<open>
  What the pool guarantees in every reachable state: its books agree with the reservations, limits of
  members hold, removals drain, releases complete and a replaced pool starts nothing.
\<close>

section \<open>Books\<close>

lemma reachable_tallies:
  "reachable_pool relink p \<Longrightarrow> tallies rsv_candidate_id (ps_activity p) (active (ps_reservations p))"
  using reachable_pool_inv by (simp add: pool_inv_def)

lemma reachable_small: "reachable_pool relink p \<Longrightarrow> bsize (active (ps_reservations p)) < 2 ^ 32"
  using reachable_pool_inv by (auto simp: pool_inv_def registered_reservations_def)

lemma reachable_count:
  assumes "tallies f a (active (ps_reservations p))" and "bsize (active (ps_reservations p)) < 2 ^ 32"
  shows "unat (active_request_count name a) = bcount (\<lambda>r. f r = name) (active (ps_reservations p))"
  using active_request_count_tallies [OF assms(1), of name] assms(2)
    bcount_le_size [of "\<lambda>r. f r = name" "active (ps_reservations p)"] by simp

lemma reachable_lease_iff:
  assumes "reachable_pool relink p"
  shows "bcontains (leases (ps_rotation p)) lid \<longleftrightarrow>
    (\<exists>rid lease. bget (ps_rotation_leases p) rid = Some lease \<and> rl_lease_id lease = lid \<and>
       bcontains (active (ps_reservations p)) rid)"
proof -
  have linked: "linked_leases p" using reachable_pool_inv [OF assms] by (simp add: pool_inv_def)
  then have "\<exists>l r. bget (leases (ps_rotation p)) (rl_lease_id lease) = Some l \<and>
      bget (active (ps_reservations p)) rid = Some r" if "bget (ps_rotation_leases p) rid = Some lease" for rid lease
    using that unfolding linked_leases_def by meson
  moreover have "\<exists>rid lease. bget (ps_rotation_leases p) rid = Some lease \<and> rl_lease_id lease = lid"
    if "bget (leases (ps_rotation p)) lid = Some l" for l
    using that linked unfolding linked_leases_def by meson
  ultimately show ?thesis unfolding bcontains_def by (metis option.distinct(1) option.exhaust)
qed

text \<open>C1: In every reachable state the counters are the reservations, counted: by candidate and lane, and
  all of a candidate.  Each lease of the engine belongs to a live reservation and each reservation to
  a registered candidate.\<close>

theorem pool_books_balance:
  assumes "reachable_pool relink p"
  shows "unat (pool_in_flight_count p cid lane) =
      bcount (\<lambda>r. rsv_candidate_id r = cid \<and> rsv_lane r = lane) (active (ps_reservations p)) \<and>
    unat (pool_active_request_count p cid) =
      bcount (\<lambda>r. rsv_candidate_id r = cid) (active (ps_reservations p)) \<and>
    (bcontains (leases (ps_rotation p)) lid \<longleftrightarrow>
      (\<exists>rid lease. bget (ps_rotation_leases p) rid = Some lease \<and> rl_lease_id lease = lid \<and>
         bcontains (active (ps_reservations p)) rid)) \<and>
    list_all (\<lambda>r. bcontains (ps_candidates p) (rsv_candidate_id r)) (bvalues (active (ps_reservations p)))"
proof -
  note tally = reachable_tallies [OF assms]
  have "bcontains (ps_candidates p) (rsv_candidate_id r)"
    if "bget (active (ps_reservations p)) rid = Some r" for rid r
    using reachable_pool_inv [OF assms] that
    unfolding pool_inv_def registered_reservations_def names_registered by blast
  moreover have "unat (pool_in_flight_count p cid lane) =
      bcount (\<lambda>r. rsv_candidate_id r = cid \<and> rsv_lane r = lane) (active (ps_reservations p))"
    using tally by (simp add: tallies_def pool_in_flight_count_def counted_on_def [abs_def])
  ultimately show ?thesis
    using reachable_count [OF tally reachable_small [OF assms]] reachable_lease_iff [OF assms]
    by (auto simp: pool_active_request_count_def list_all_iff in_bvalues)
qed

text \<open>A pool with no reservation left holds nothing: no lease, no counter, no retired candidate.\<close>

theorem idle_pool_holds_nothing:
  assumes "reachable_pool relink p" and "bsize (active (ps_reservations p)) = 0"
  shows "bsize (leases (ps_rotation p)) = 0 \<and> pool_in_flight_count p cid lane = 0 \<and>
    pool_active_request_count p cid = 0 \<and> ps_retired_candidates p = {}"
proof -
  have none: "bget (active (ps_reservations p)) rid = None" for rid
    using assms(2) by (simp add: bsize_zero)
  have "bget (leases (ps_rotation p)) lid = None" for lid
    using reachable_lease_iff [OF assms(1), of lid] none by (auto simp: bcontains_def)
  moreover have "bcount P (active (ps_reservations p)) = 0" for P
    using bcount_le_size [of P "active (ps_reservations p)"] assms(2) by simp
  moreover have "ps_retired_candidates p = {}"
    using reachable_pool_inv [OF assms(1)] none by (auto simp: pool_inv_def draining_retired_def)
  ultimately show ?thesis
    using reachable_tallies [OF assms(1)] reachable_count [OF reachable_tallies reachable_small, OF assms(1,1)]
    by (simp add: bsize_zero pool_in_flight_count_def pool_active_request_count_def tallies_def
        unat_eq_0 counted_on_def bmap_eqI)
qed

section \<open>Limits of physical members\<close>

text \<open>C22: A reservation on a member with a limit leaves at most that many requests on the member, on all
  its candidates together, in every run that links no busy candidate to another member.\<close>

theorem member_concurrency_kept:
  assumes "reachable_pool False p"
    and "reserve_request_with_operation fresh p cid model now_ms is_image op request_id given = (Some rid, p')"
    and "bget (ps_candidates p) cid = Some c" and "member_policy p c = Some (rank, m)"
    and "0 < pm_max_concurrency m"
  shows "bcount (\<lambda>r. rsv_member_key r = member_key c) (active (ps_reservations p')) =
      Suc (bcount (\<lambda>r. rsv_member_key r = member_key c) (active (ps_reservations p))) \<and>
    bcount (\<lambda>r. rsv_member_key r = member_key c) (active (ps_reservations p')) \<le> unat (pm_max_concurrency m)"
proof -
  note inv = reachable_pool_inv [OF assms(1)]
  let ?on = "\<lambda>r. rsv_member_key r = member_key c"
  have tally: "tallies rsv_member_key (ps_member_activity p) (active (ps_reservations p))"
    using reachable_members_exact [OF assms(1)] by (simp add: members_exact_def)
  show ?thesis
    using inv assms(2)
  proof (cases rule: reserve_result)
    case (held rid' c' lease l q r)
    then have same: "rid' = rid" "c' = c" "ps_reservations q = ps_reservations p"
      using assms(3) by (simp_all add: pool_quiet_def holdings_def)
    have "pm_max_concurrency m \<noteq> 0" using assms(5) by auto
    then have "active_request_count (member_key c) (ps_member_activity p) < pm_max_concurrency m"
      using held(5) same(2) assms(4) by (simp add: lane_allows_def member_capacity_allows_def split: if_splits)
    then have room: "bcount ?on (active (ps_reservations p)) < unat (pm_max_concurrency m)"
      using reachable_count [OF tally reachable_small [OF assms(1)], of "member_key c"]
      by (simp add: word_less_nat_alt)
    have "active (ps_reservations p') = binsert rid r (active (ps_reservations p))"
      by (subst held(14)) (simp add: same hold_reservation_def)
    moreover have "bget (active (ps_reservations p)) rid = None"
      using fresh_reservation [of p rid] held(13) inv same by (simp add: pool_inv_def)
    moreover have "?on r" using held(6) same(2) by (simp add: new_reservation_def)
    ultimately show ?thesis using room by (simp add: bcount_insert_fresh)
  qed simp
qed

section \<open>Removal and release\<close>

text \<open>Removing a candidate that holds no reservation unregisters it at once.  One that holds some is
  retired: its reservations and counters stay, it is registered until they end, no selection sees it,
  and the engine forgets its copy.\<close>

theorem removal_drains:
  assumes "reachable_pool relink p" and "bget (ps_candidates p) cid = Some c"
    and "pool_remove p cid = (result, p')"
  shows "result = Some c \<and> ps_reservations p' = ps_reservations p \<and>
    (if idle cid p then bget (ps_candidates p') cid = None \<and> cid \<notin> ps_retired_candidates p'
     else cid \<in> ps_retired_candidates p' \<and>
       bget (ps_candidates p') cid = Some (c\<lparr>cn_enabled := False, cn_draining := True\<rparr>) \<and>
       ps_activity p' = ps_activity p \<and>
       \<not> rotation_visible p' (c\<lparr>cn_enabled := False, cn_draining := True\<rparr>) model protocols scope now_ms)"
proof -
  note inv = reachable_pool_inv [OF assms(1)]
  have keyed: "cn_id c = cid" using pool_inv_keyed [OF inv] assms(2) by (simp add: pool_keyed_def)
  show ?thesis
    using inv
  proof (rule pool_remove_result [of p cid])
    fix q
    assume q: "pool_quiet p q" "ps_candidates q = ps_candidates p"
      "idle cid p \<Longrightarrow> bget (ps_candidates p) cid \<noteq> None \<Longrightarrow> pool_remove p cid = remove_now cid q"
      "\<not> idle cid p \<Longrightarrow> bget (ps_candidates p) cid \<noteq> None \<Longrightarrow> pool_remove p cid =
         (bget (ps_candidates p) cid, retired_copy cid q)"
    have held: "ps_reservations q = ps_reservations p" "ps_activity q = ps_activity p"
      using q(1) by (simp_all add: pool_quiet_def holdings_def)
    show ?thesis
    proof (cases "idle cid p")
      case True
      then have "idle cid q" using idle_quiet [OF q(1)] by simp
      moreover have "bget (ps_candidates (snd (remove_now cid q))) cid = None" "fst (remove_now cid q) = Some c"
        using q(2) assms(2) by (simp_all add: remove_now_def Let_def)
      ultimately show ?thesis
        using True q(3) assms(2,3) idle_reservations [of cid q] held remove_now_fields(6) [of cid q]
        by (auto simp: prod_eq_iff)
    next
      case False
      then show ?thesis
        using q(2,4) assms(2,3) held keyed
        by (auto simp: retired_copy_fields retired_copy_def rotation_visible_def)
    qed
  qed
qed

text \<open>A reservation that may be let go: live, and its lease is gone or not started.\<close>

definition releasable :: "pool_scheduler \<Rightarrow> reservation_id \<Rightarrow> bool" where
  "releasable p rid \<longleftrightarrow> bcontains (active (ps_reservations p)) rid \<and>
     (\<forall>lease l. bget (ps_rotation_leases p) rid = Some lease \<longrightarrow>
        bget (leases (ps_rotation p)) (rl_lease_id lease) = Some l \<longrightarrow> lease_attempt_id l = None)"

lemma release_result_iff:
  assumes "pool_inv p"
  shows "fst (release_reservation p rid) \<longleftrightarrow> releasable p rid"
proof (cases "bget (ps_rotation_leases p) rid")
  case None
  then show ?thesis
    by (auto simp: release_reservation_def releasable_def bcontains_def reservations_release_def split: option.split)
next
  case (Some lease)
  obtain l r where l: "bget (leases (ps_rotation p)) (rl_lease_id lease) = Some l"
    "bget (active (ps_reservations p)) rid = Some r"
    by (rule linked_lease [OF assms Some])
  with Some show ?thesis
    by (auto simp: release_reservation_def releasable_def bcontains_def reservations_release_def
        release_rotation_unstarted_def release_unstarted_def split: option.split)
qed

text \<open>C23: A release succeeds exactly for a live reservation whose lease is gone or not started; it then
  takes that reservation away and nothing else, and the last one of a retired candidate unregisters
  the candidate.  Otherwise every reservation stays.\<close>

theorem release_completes:
  assumes "reachable_pool relink p"
  shows "case release_reservation p rid of (ok, p') \<Rightarrow>
    ok = releasable p rid \<and>
    active (ps_reservations p') =
      (if ok then bremove rid (active (ps_reservations p)) else active (ps_reservations p)) \<and>
    (\<forall>r. ok \<and> bget (active (ps_reservations p)) rid = Some r \<and> idle (rsv_candidate_id r) p' \<and>
       rsv_candidate_id r \<in> ps_retired_candidates p \<longrightarrow>
       \<not> bcontains (ps_candidates p') (rsv_candidate_id r) \<and>
       rsv_candidate_id r \<notin> ps_retired_candidates p')"
proof -
  note inv = reachable_pool_inv [OF assms]
  obtain ok p' where res: "release_reservation p rid = (ok, p')" by fastforce
  have ok: "ok = releasable p rid" using release_result_iff [OF inv, of rid] res by simp
  show ?thesis
    using inv res
  proof (cases rule: release_stages)
    case (kept p1)
    then show ?thesis using res ok by simp
  next
    case (dropped p1 r)
    let ?cid = "rsv_candidate_id r"
    let ?q = "drop_reservation rid r p1"
    have q: "active (ps_reservations ?q) = bremove rid (active (ps_reservations p))"
      "ps_retired_candidates ?q = ps_retired_candidates p"
      using dropped by (simp_all add: drop_fields)
    have count: "active_request_count ?cid (ps_activity ?q) = 0 \<longleftrightarrow> idle ?cid ?q"
      using idle_count [OF drop_inv [OF dropped(2,4,5)], of ?cid] by (simp add: idle_def)
    have last: "ps_reservations (snd (remove_now ?cid ?q)) = ps_reservations ?q" if "idle ?cid ?q"
      by (rule idle_reservations [OF that])
    have left: "active (ps_reservations p') = bremove rid (active (ps_reservations p))"
      unfolding dropped(10) finalize_retired_if_idle_def using count last q by auto
    have gone: "\<not> bcontains (ps_candidates p') ?cid \<and> ?cid \<notin> ps_retired_candidates p'"
      if "idle ?cid p'" "?cid \<in> ps_retired_candidates p"
    proof -
      have "idle ?cid ?q" using that(1) left q(1) by (simp add: idle_def)
      then have "p' = snd (remove_now ?cid ?q)"
        unfolding dropped(10) finalize_retired_if_idle_def using count that(2) q(2) by simp
      then show ?thesis
        using remove_now_fields(1,6) [of ?cid ?q] names_registered [of p' ?cid] by auto
    qed
    show ?thesis using res ok dropped(1,5,6) left gone by auto
  qed
qed

end
