(* ===== verification/PoolSafety.thy ===== *)
theory PoolSafety
  imports PoolGuarantees
begin

text \<open>
  Guarantees of single operations of the pool: a replaced pool starts nothing, an execution fence is
  lifted by its own token only, a routing policy is stored whole or not at all, and the owner of a
  prompt key moves only on a material lead.
\<close>

section \<open>Replacement\<close>

text \<open>Nothing is added: no reservation, no lease, no started attempt, and no change to a lease.\<close>

definition only_drains :: "pool_scheduler \<Rightarrow> pool_scheduler \<Rightarrow> bool" where
  "only_drains p p' \<longleftrightarrow> (ps_retired p \<longrightarrow> ps_retired p') \<and>
     (\<forall>rid r. bget (active (ps_reservations p')) rid = Some r \<longrightarrow> bget (active (ps_reservations p)) rid = Some r) \<and>
     (\<forall>lid l. bget (leases (ps_rotation p')) lid = Some l \<longrightarrow> bget (leases (ps_rotation p)) lid = Some l)"

lemma drains_trans: "only_drains p q \<Longrightarrow> only_drains q r \<Longrightarrow> only_drains p r"
  by (simp add: only_drains_def)

lemma quiet_drains: "pool_quiet p p' \<Longrightarrow> only_drains p p'"
  by (simp add: only_drains_def pool_quiet_def holdings_def engine_quiet_def)

lemma upsert_drains:
  assumes "pool_upsert p c = Some p'"
  shows "only_drains p p'"
proof -
  obtain q where q: "advance_permission c p = Some q" "ps_retired p' = ps_retired q"
    "ps_reservations p' = ps_reservations q" "ps_rotation p' = ps_rotation q"
    using assms by (auto simp: pool_upsert_def)
  then show ?thesis using quiet_drains [OF advance_quiet [OF q(1)]] by (simp add: only_drains_def)
qed

lemma remove_now_drains: "only_drains p (snd (remove_now cid p))"
  using remove_now_fields(2) [of p cid]
  by (auto simp: only_drains_def engine_quiet_def remove_now_def Let_def split: option.splits if_splits)

lemma pool_remove_drains:
  assumes "pool_inv p"
  shows "only_drains p (snd (pool_remove p cid))"
proof (rule pool_remove_result [OF assms, of cid])
  fix q
  assume q: "pool_quiet p q"
    "bget (ps_candidates p) cid = None \<Longrightarrow> pool_remove p cid = (None, q)"
    "idle cid p \<Longrightarrow> bget (ps_candidates p) cid \<noteq> None \<Longrightarrow> pool_remove p cid = remove_now cid q"
    "\<not> idle cid p \<Longrightarrow> bget (ps_candidates p) cid \<noteq> None \<Longrightarrow> pool_remove p cid =
       (bget (ps_candidates p) cid, retired_copy cid q)"
  have "only_drains q (retired_copy cid q)"
    by (simp add: only_drains_def retired_copy_fields) (simp add: retired_copy_def)
  then show ?thesis
    using q(2-4) quiet_drains [OF q(1)] drains_trans [OF quiet_drains [OF q(1)]] remove_now_drains
    by (cases "bget (ps_candidates p) cid = None"; cases "idle cid p") auto
qed

lemma release_unstarted_drains: "only_drains p (snd (release_rotation_unstarted p rid))"
proof (cases "bget (ps_rotation_leases p) rid")
  case (Some lease)
  obtain released e where e: "release_unstarted (ps_rotation p) (rl_lease_id lease) = (released, e)" by fastforce
  show ?thesis
    using release_unstarted_leases(1) [OF e]
    by (auto simp: only_drains_def release_rotation_unstarted_def Some e split: if_splits)
qed (simp add: release_rotation_unstarted_def only_drains_def)

lemma settle_drains: "only_drains p (snd (settle_rotation_with_latency p rid observation b now_ms latency now))"
proof (cases "bget (ps_rotation_leases p) rid")
  case (Some lease)
  obtain result e where
    e: "settle_with_latency (ps_rotation p) (rl_lease_id lease) observation b now_ms latency now = (result, e)"
    by fastforce
  show ?thesis
    using settle_leases(1) [OF e]
    by (auto simp: only_drains_def settle_rotation_with_latency_def Some e split: sum.splits if_splits)
qed (simp add: settle_rotation_with_latency_def only_drains_def)

lemma drop_drains: "only_drains p (finalize_retired_if_idle cid (drop_reservation rid r p))"
proof -
  have "only_drains p (drop_reservation rid r p)"
    by (auto simp: only_drains_def drop_reservation_def reservations_release_def split: if_splits)
  then show ?thesis
    using drains_trans [OF _ remove_now_drains] by (simp add: finalize_retired_if_idle_def)
qed

lemma release_drains: "only_drains p (snd (release_reservation p rid))"
proof -
  obtain freed q where q: "(if bcontains (ps_rotation_leases p) rid then release_rotation_unstarted p rid
      else (True, p)) = (freed, q)" by fastforce
  have first: "only_drains p q"
    using q release_unstarted_drains [of p rid] by (auto simp: only_drains_def split: if_splits)
  have "only_drains q (q\<lparr>ps_reservations := snd (reservations_release rid (ps_reservations q))\<rparr>)"
    by (auto simp: only_drains_def reservations_release_def split: if_splits)
  then show ?thesis
    using drains_trans [OF first] first drop_drains [of q]
    unfolding release_reservation_def q by (auto split: bool.split option.split)
qed

lemma work_drains:
  assumes "work_step event p = Some p'" and "ps_retired p"
  shows "only_drains p p'"
proof (cases event)
  case PeSync
  then show ?thesis using assms(1) quiet_drains [OF sync_quiet] by (auto simp: pool_all_capacity_reserved_def Let_def)
next
  case (PePrepare fresh r op)
  then show ?thesis using assms(1) quiet_drains [OF prepare_quiet] by auto
next
  case (PeSelect fresh r lane op)
  then show ?thesis using assms(1) quiet_drains [OF select_quiet] by auto
next
  case PeReserve
  then show ?thesis
    using assms quiet_drains [OF pool_quiet_refl]
    by (simp add: reserve_request_with_operation_def split: if_splits)
next
  case PeDispatch
  then show ?thesis
    using assms quiet_drains [OF pool_quiet_refl] by (simp add: begin_rotation_dispatch_def)
next
  case PeRelease
  then show ?thesis using assms(1) release_drains by auto
next
  case PeReleaseUnstarted
  then show ?thesis using assms(1) release_unstarted_drains by auto
next
  case PeSettle
  then show ?thesis using assms(1) settle_drains by auto
next
  case PeCancel
  then show ?thesis using assms(1) settle_drains by (auto simp: cancel_as_settle)
qed

text \<open>C14: A pool retired for replacement stays retired whatever is called on it, and no call adds a
  reservation, a lease or an attempt: what is alive can only be settled and released.\<close>

theorem retired_pool_starts_nothing:
  assumes "reachable_pool relink p" and "ps_retired p" and "pool_step event p = Some p'"
  shows "ps_retired p' \<and>
    (bget (active (ps_reservations p')) rid = Some r \<longrightarrow> bget (active (ps_reservations p)) rid = Some r) \<and>
    (bget (leases (ps_rotation p')) lid = Some l \<longrightarrow> bget (leases (ps_rotation p)) lid = Some l)"
proof -
  have "only_drains p p'"
  proof (cases event)
    case (Registry x)
    then consider c where "x = PeUpsert c" | cid where "x = PeRemove cid" | "pool_quiet p p'"
      using assms(3) registry_quiet [of x p p'] by (auto simp: pool_step_def)
    then show ?thesis
      using assms(3) Registry upsert_drains pool_remove_drains [OF reachable_pool_inv [OF assms(1)]] quiet_drains
      by cases (auto simp: pool_step_def)
  next
    case (Guard x)
    then show ?thesis using assms(3) quiet_drains [OF guard_quiet] by (auto simp: pool_step_def)
  next
    case (Work x)
    then show ?thesis using assms(2,3) work_drains by (auto simp: pool_step_def)
  next
    case (Owner x)
    then show ?thesis using assms(3) quiet_drains [OF owner_quiet] by (auto simp: pool_step_def)
  qed
  then show ?thesis using assms(2) by (simp add: only_drains_def)
qed

section \<open>Execution fences\<close>

text \<open>While a fence is held its candidate is not visible to any selection.  Its own token restores the
  fences as they were; another token changes nothing, and a first fence has a token no earlier fence
  had.\<close>

theorem fence_roundtrip:
  assumes "reachable_pool relink p" and "bget (ps_candidates p) cid = Some c"
    and "begin_execution_fence p cid = Some (token, p1)"
  shows "\<exists>fence. token = Some fence \<and>
    \<not> rotation_visible p1 c model protocols scope now_ms \<and>
    ps_execution_fences (end_execution_fence p1 cid fence) = ps_execution_fences p \<and>
    (other \<noteq> fence \<longrightarrow> end_execution_fence p1 cid other = p1) \<and>
    (bget (ps_execution_fences p) cid = None \<longrightarrow> unat fence = Suc (unat (ps_next_fence_epoch p)))"
proof -
  note inv = reachable_pool_inv [OF assms(1)]
  have id: "cn_id c = cid" using pool_inv_keyed [OF inv] assms(2) by (simp add: pool_keyed_def)
  have there: "bcontains (ps_candidates p) cid" using assms(2) by (simp add: bcontains_def)
  show ?thesis
  proof (cases "bget (ps_execution_fences p) cid")
    case None
    then obtain fence where fence: "checked_add (ps_next_fence_epoch p) 1 = Some fence" "token = Some fence"
      "p1 = p\<lparr>ps_next_fence_epoch := fence, ps_execution_fences := binsert cid (fence, 1) (ps_execution_fences p)\<rparr>"
      using assms(3) there by (auto simp: begin_execution_fence_def)
    have "bremove cid (binsert cid (fence, 1) (ps_execution_fences p)) = ps_execution_fences p"
      by (rule btree.remove_insert [OF None])
    with fence id show ?thesis
      using checked_add_unat [OF fence(1)]
      by (auto simp: rotation_visible_def end_execution_fence_def bcontains_def)
  next
    case (Some f)
    obtain fence n where f: "f = (fence, n)" by fastforce
    have n: "0 < n" using inv Some f by (auto simp: pool_inv_def fences_ok_def)
    obtain k where k: "checked_add n 1 = Some k" "token = Some fence"
      "p1 = p\<lparr>ps_execution_fences := binsert cid (fence, k) (ps_execution_fences p)\<rparr>"
      using assms(3) there Some f by (auto simp: begin_execution_fence_def)
    have up: "unat k = Suc (unat n)" using checked_add_unat [OF k(1)] by simp
    have "\<not> k \<le> 1" "k - 1 = n"
      using up n by (auto simp: word_le_nat_alt word_less_nat_alt unat_sub_if' word_unat_eq_iff)
    moreover have "binsert cid (fence, n) (binsert cid (fence, k) (ps_execution_fences p)) = ps_execution_fences p"
      using Some f by (simp add: btree.insert_overwrites btree.insert_lookup)
    ultimately show ?thesis
      using k id Some f by (auto simp: rotation_visible_def end_execution_fence_def bcontains_def)
  qed
qed

section \<open>Routing policies\<close>

lemma valid_members:
  "validate_members seen ms = Inr () \<Longrightarrow> m \<in> set ms \<Longrightarrow>
     1 \<le> pm_weight m \<and> pm_weight m \<le> 100 \<and> pm_max_concurrency m \<le> 1024"
  by (induction ms arbitrary: seen) (auto split: if_splits)

text \<open>Setting a policy never reaches the unreachable legacy mode.  A policy that does not pass the
  activation rules changes nothing; one that passes is stored as it is, the engine runs in its mode,
  and every member of it has a weight between 1 and 100 and at most 1024 requests at a time.\<close>

theorem set_pool_routing_total:
  "\<exists>result p'. set_pool_routing p policy = Some (result, p') \<and>
     (case result of
        Inl message \<Rightarrow> validate_activation policy = Inl message \<and> p' = p
      | Inr _ \<Rightarrow> ps_pool_routing p' = Some policy \<and> ps_candidates p' = ps_candidates p \<and>
          ps_reservations p' = ps_reservations p \<and>
          (ps_pool_routing p = Some policy \<or> rotation_mode_of (pp_mode policy) = Some (mode (ps_rotation p'))) \<and>
          list_all (\<lambda>m. 1 \<le> pm_weight m \<and> pm_weight m \<le> 100 \<and> pm_max_concurrency m \<le> 1024) (pp_members policy))"
proof (cases "validate_activation policy")
  case (Inl message)
  then show ?thesis by (simp add: set_pool_routing_def)
next
  case (Inr u)
  then have current: "is_current_rotation policy" and valid: "validate_members {} (pp_members policy) = Inr ()"
    by (auto simp: validate_activation_def validate_policy_def split: if_splits sum.splits)
  obtain rotation where "rotation_mode_of (pp_mode policy) = Some rotation"
    using current by (cases "pp_mode policy") (auto simp: is_current_rotation_def rotation_mode_of_def)
  then show ?thesis
    using Inr valid_members [OF valid]
    by (auto simp: set_pool_routing_def sync_rotation_mode_def list_all_iff set_mode_def)
qed

section \<open>The owner of a prompt key\<close>

lemma retain_twice [simp]: "bretain P (bretain P m) = bretain P m"
  by (rule bmap_eqI) (auto split: option.split)

text \<open>A success on another candidate moves the owner of a live prompt key exactly when that candidate
  has a material resource lead over the owner; otherwise the binding keeps owner, revision and
  deadline.\<close>

theorem sticky_owner_moves_on_lead:
  assumes "\<not> ps_retired p" and "bcontains (ps_candidates p) cid"
    and "live_binding key now_ms (ps_prompt_affinity p) = Some b" and "bound_candidate b \<noteq> cid"
    and "0 < max_entries (ps_prompt_affinity p)" and "0 < cache_ttl_ms (ps_prompt_affinity p)"
    and "bind_prompt_affinity_sticky p key cid now_ms = Some (moved, p')"
  shows "moved = has_material_resource_lead (ps_rotation p) cid (bound_candidate b) now_ms \<and>
    (\<exists>b'. bget (bindings (ps_prompt_affinity p')) key = Some b' \<and>
       (if moved then bound_candidate b' = cid \<and> bound_revision b' = next_revision (ps_prompt_affinity p')
        else bound_candidate b' = bound_candidate b \<and> bound_revision b' = bound_revision b \<and>
          bound_until b' = bound_until b))"
proof -
  let ?c = "prune now_ms (ps_prompt_affinity p)"
  let ?lead = "has_material_resource_lead (ps_rotation p) cid (bound_candidate b) now_ms"
  have get: "affinity_get key now_ms (ps_prompt_affinity p) = (Some (bound_candidate b), ?c)"
    using assms(3) by (simp add: affinity_get_prunes)
  have live: "bget (bindings ?c) key = Some b" "live_binding key now_ms ?c = Some b"
    using assms(3) by (auto simp: prune_get live_binding_def opt_filter_Some)
  show ?thesis
  proof (cases ?lead)
    case True
    have bound: "bind_owner key cid now_ms ?c =
        insert_binding key cid (cache_ttl_ms ?c) (sat_add now_ms (cache_ttl_ms ?c)) now_ms ?c"
      using assms(5,6) by (auto simp: bind_owner_def bind_for_def)
    from True obtain c' where c': "insert_binding key cid (cache_ttl_ms ?c) (sat_add now_ms (cache_ttl_ms ?c)) now_ms ?c
        = Some c'" "moved" "p' = p\<lparr>ps_prompt_affinity := c'\<rparr>"
      using assms(1,2,4,7) get bound by (auto simp: bind_prompt_affinity_sticky_def)
    show ?thesis by (rule insert_binding_Some [OF c'(1)]) (use True c' in auto)
  next
    case False
    have offer: "bind_if_unbound_or_same key cid now_ms ?c = Some (False, prune now_ms ?c)"
      using live(2) assms(4) by (simp add: bind_if_unbound_or_same_def affinity_get_prunes)
    have twice: "prune now_ms ?c = ?c"
      by (simp add: prune_def retain_twice)
    have "\<not> moved \<and> p' = p\<lparr>ps_prompt_affinity := remember_alternative key cid now_ms ?c\<rparr>"
      using assms(1,2,4,7) get False offer twice by (auto simp: bind_prompt_affinity_sticky_def)
    then show ?thesis using False live by (auto simp: remember_alternative_def)
  qed
qed

end
