(* ===== verification/PoolWitnesses.thy ===== *)
theory PoolWitnesses
  imports PoolSafety
begin

text \<open>
  Concrete inputs of the guarantees of quota, candidates, cooldowns, projection and pool: the
  hypotheses hold there, by evaluation, and the guarantee is applied.
\<close>

section \<open>Quota\<close>

definition full_window :: "u64 \<Rightarrow> u16 \<Rightarrow> quota_window" where
  "full_window at left = \<lparr>qw_kind = Primary, qw_provider_cycle_id = None, qw_window_start_ms = None,
     qw_available = Some left, qw_explicitly_full = None, qw_reset_at_ms = None, qw_window_minutes = None,
     qw_observed_at_ms = at, qw_full_fingerprint = None, qw_exhaustion_fingerprint = None\<rparr>"

definition seen_at :: "u64 \<Rightarrow> u16 \<Rightarrow> quota_snapshot" where
  "seen_at at left = default_snapshot\<lparr>primary := Some (full_window at left)\<rparr>"

definition percent_input :: "u64 \<Rightarrow> u16 quota_window_input" where
  "percent_input at = \<lparr>in_kind = Primary, in_available_percent = Some 10000, in_explicitly_full = None,
     in_reset = None, in_window_minutes = None, in_provider_cycle_id = None, in_observed_at_ms = at\<rparr>"

theorem merge_respects_clocks_witness:
  "\<exists>w. snapshot_window (snd (merge_observation_with_preference (seen_at 1 40) (seen_at 2 30) False)) Primary
     = Some w \<and> qw_observed_at_ms w = 2 \<and> qw_available w = Some 30"
proof -
  have s: "snapshot_window (seen_at 1 40) Primary = Some (full_window 1 40)"
    "snapshot_window (seen_at 2 30) Primary = Some (full_window 2 30)" by code_simp+
  have "max (qw_observed_at_ms (full_window 1 40)) (qw_observed_at_ms (full_window 2 30)) = 2"
    "qw_observed_at_ms (full_window 1 40) < qw_observed_at_ms (full_window 2 30)"
    "qw_available (full_window 2 30) = Some 30" by code_simp+
  with merge_respects_clocks [OF prod.collapse [symmetric], of "seen_at 1 40" "seen_at 2 30" False] s
  show ?thesis by metis
qed

theorem merge_redelivery_witness:
  "merge_observation_with_preference
     (snd (merge_observation_with_preference (seen_at 1 40) (seen_at 2 30) False)) (seen_at 2 30) False =
   (False, snd (merge_observation_with_preference (seen_at 1 40) (seen_at 2 30) False))"
  by (rule merge_redelivery [OF prod.collapse [symmetric]]) code_simp

theorem candidate_quota_proven_witness:
  "quota_from_snapshot ((seen_at 5 40)\<lparr>limit_reached := True\<rparr>) 6 1000 = CqExhausted"
proof -
  have "limit_reached ((seen_at 5 40)\<lparr>limit_reached := True\<rparr>)"
    "\<not> has_fresh_provider_credits ((seen_at 5 40)\<lparr>limit_reached := True\<rparr>) 6 1000" by code_simp+
  with candidate_quota_proven [of "(seen_at 5 40)\<lparr>limit_reached := True\<rparr>" 6 1000] show ?thesis by blast
qed

theorem one_transition_per_cycle_witness:
  "\<exists>first again. normalize_window id Inr (percent_input 1) None = Inr first \<and>
     normalize_window id Inr (percent_input 2) (Some first) = Inr again \<and>
     full_transition_from id again (Some first) = None"
proof -
  define first where "first = (case normalize_window id Inr (percent_input 1) None of Inr w \<Rightarrow> w | Inl _ \<Rightarrow> undefined)"
  define again where "again = (case normalize_window id Inr (percent_input 2) (Some first) of Inr w \<Rightarrow> w | Inl _ \<Rightarrow> undefined)"
  have run: "normalize_window id Inr (percent_input 1) None = Inr first"
    "normalize_window id Inr (percent_input 2) (Some first) = Inr again"
    by (simp_all add: first_def again_def normalize_window_def percent_input_def Let_def)
  have "is_fully_available first" "is_fully_available again"
    "\<not> full_cycle_changed first (percent_input 2) (qw_reset_at_ms again)"
    unfolding first_def again_def by code_simp+
  with one_transition_per_cycle [OF run] run show ?thesis by (auto simp: percent_input_def)
qed

section \<open>Candidates, cooldowns and projection\<close>

theorem eligibility_ignores_case_witness:
  "candidate_is_eligible (source_route ''s'' ''s'') ''M'' [Responses] default_scope 5 =
   candidate_is_eligible (source_route ''s'' ''s'') ''m'' [Responses] default_scope 5"
proof -
  have "eq_ignore_ascii_case ''M'' ''m''" by code_simp
  from eligibility_ignores_case [OF this] show ?thesis by blast
qed

definition limited :: cooldown_request where
  "limited = \<lparr>cr_scope = ''m'', cr_retry_at_ms = 900, cr_reason = CoolRateLimit\<rparr>"

lemma limited_facts: "cr_reason limited \<noteq> CoolTransient" "cr_retry_at_ms limited = 900" "to_ascii_lowercase (cr_scope limited) = ''m''"
  "bcontains (ps_candidates open_pool) ''s''" "''s'' \<notin> ps_retired_candidates open_pool"
  "bget (ps_candidates open_pool) ''s'' = Some (source_route ''s'' ''s'')"
  by code_simp+

theorem cooldown_never_shortened_witness:
  "cooled (snd (set_cooldown_with_reason open_pool ''s'' limited)) ''s'' ''m'' 900"
  using cooldown_never_shortened [OF prod.collapse [symmetric], of open_pool "''s''" limited] limited_facts by simp

theorem rate_limit_shared_witness:
  "\<exists>retry_at (backoff :: u64). bcontains (ps_shared_rate_limits
      (observe_shared_rate_limit open_pool ''s'' [1] limited 5)) (''s'', ''m'') \<and>
    MIN_BACKOFF_MS \<le> backoff \<and> (900 :: u64) \<le> retry_at"
  using rate_limit_shared [OF limited_facts(4,5) refl refl, of "[1]" limited 5] limited_facts by auto

theorem synchronisation_exact_witness:
  "\<exists>rc. held (sync_engine open_pool) ''s'' = Some (engine_copy open_pool (source_route ''s'' ''s'') rc)"
proof -
  have keyed: "pool_keyed open_pool" using pool_inv_keyed [OF reachable_pool_inv [OF scenario_pools(1)]] .
  have few: "unat (next_candidate_generation (ps_rotation open_pool)) + bsize (ps_candidates open_pool) < 2 ^ 64"
    by code_simp
  have "project_candidate open_pool (source_route ''s'' ''s'') \<noteq> None"
    "map_option validate (project_candidate open_pool (source_route ''s'' ''s'')) = Some (Inr ())" by code_simp+
  then obtain rc where "project_candidate open_pool (source_route ''s'' ''s'') = Some rc" "validate rc = Inr ()" by auto
  with synchronisation_exact [OF keyed few, of "''s''"] limited_facts(5,6)
  have "held (sync_engine open_pool) ''s'' = Some (engine_copy open_pool (source_route ''s'' ''s'') rc)" by simp
  then show ?thesis by blast
qed

section \<open>Selection\<close>

definition chosen :: "pool_selection option \<times> pool_scheduler" where
  "chosen = select_for_operation 7 open_pool ask TextLane OpText"

lemma open_keyed: "pool_keyed open_pool"
  by (rule pool_inv_keyed [OF reachable_pool_inv [OF scenario_pools(1)]])

lemma chosen_route: "map_option psel_candidate_id (fst chosen) = Some ''s''"
  by code_simp

theorem selection_permitted_witness:
  "\<exists>s. fst chosen = Some s \<and> lane_allows open_pool (source_route ''s'' ''s'') TextLane \<and>
     rotation_visible open_pool (source_route ''s'' ''s'') ''m'' [Responses] default_scope 5"
proof -
  obtain s where s: "fst chosen = Some s" "psel_candidate_id s = ''s''" using chosen_route by auto
  then have "select_for_operation 7 open_pool ask TextLane OpText = (Some s, snd chosen)"
    by (simp add: chosen_def prod_eq_iff)
  from selection_permitted [OF open_keyed this] s limited_facts(6) show ?thesis by (auto simp: ask_def)
qed

theorem response_continues_on_owner_witness:
  "\<exists>s. fst chosen = Some s \<and> \<not> psel_response_affinity_hit s"
proof -
  obtain s where s: "fst chosen = Some s" using chosen_route by auto
  then have "select_for_operation 7 open_pool ask TextLane OpText = (Some s, snd chosen)"
    by (simp add: chosen_def prod_eq_iff)
  moreover have "fst (lookup_owner (sr_response_key ask) (sr_now_ms ask) (ps_response_affinity open_pool)) = None"
    by (simp add: ask_def lookup_owner_def)
  ultimately show ?thesis using response_continues_on_owner s by fastforce
qed

theorem one_route_per_member_witness:
  "\<exists>request ids. fst (rotation_request_from_synced_state 7 open_pool ask OpText) = Some request \<and>
     allowed_candidates request = Some ids \<and> (\<exists>a \<in> ids. member_key_for open_pool a = member_key_for open_pool ''s'')"
proof -
  have "map_option req_owner (fst (rotation_request_from_synced_state 7 open_pool ask OpText)) = Some None"
    by code_simp
  then obtain request where r: "fst (rotation_request_from_synced_state 7 open_pool ask OpText) = Some request"
    "req_owner request = None" by auto
  then have run: "rotation_request_from_synced_state 7 open_pool ask OpText =
      (Some request, snd (rotation_request_from_synced_state 7 open_pool ask OpText))"
    by (simp add: prod_eq_iff)
  have "ps_native_routes open_pool = {}" "bcontains (visible_candidates open_pool ask) ''s''" by code_simp+
  with one_route_per_member [OF open_keyed _ run r(2)] r(1) show ?thesis by blast
qed

theorem preview_ends_witness:
  "distinct (map (member_key_for open_pool)
     (preview_selection_order 7 open_pool default_scope default_rules [Responses] 5))"
  using preview_ends [OF open_keyed] by blast

section \<open>Pool\<close>

lemma held_pool_facts:
  "(\<lambda>p. (bget (ps_candidates p) ''s'', unat (pool_active_request_count p ''s''))) held_pool
     = (Some (source_route ''s'' ''s''), 1)"
  by code_simp

lemma held_facts:
  "bget (ps_candidates held_pool) ''s'' = Some (source_route ''s'' ''s'')"
  "unat (pool_active_request_count held_pool ''s'') = 1"
  using held_pool_facts by simp_all

lemma reserve_facts:
  "fst (reserve_request_with_operation 7 open_pool ''s'' ''m'' 5 False OpText None None) = Some 1"
  by code_simp

lemma open_facts:
  "map_option (\<lambda>(rank, m). pm_max_concurrency m) (member_policy open_pool (source_route ''s'' ''s'')) = Some 2"
  "bsize (active (ps_reservations open_pool)) = 0"
  by code_simp+

theorem pool_books_balance_witness:
  "bcount (\<lambda>r. rsv_candidate_id r = ''s'') (active (ps_reservations held_pool)) = 1"
  using pool_books_balance [OF scenario_pools(2), of "''s''"] held_facts(2) by simp

theorem idle_pool_holds_nothing_witness:
  "bsize (leases (ps_rotation open_pool)) = 0 \<and> ps_retired_candidates open_pool = {}"
  using idle_pool_holds_nothing [OF scenario_pools(1) open_facts(2)] by blast

theorem member_concurrency_kept_witness:
  "bcount (\<lambda>r. rsv_member_key r = ''source:s'') (active (ps_reservations
     (snd (reserve_request_with_operation 7 open_pool ''s'' ''m'' 5 False OpText None None)))) \<le> 2"
proof -
  let ?run = "reserve_request_with_operation 7 open_pool ''s'' ''m'' 5 False OpText None None"
  obtain rank m where m: "member_policy open_pool (source_route ''s'' ''s'') = Some (rank, m)"
    "pm_max_concurrency m = 2" using open_facts(1) by auto
  have key: "member_key (source_route ''s'' ''s'') = ''source:s''" by code_simp
  have "?run = (Some 1, snd ?run)" using reserve_facts by (simp add: prod_eq_iff)
  from member_concurrency_kept [OF scenario_pools(1) this limited_facts(6) m(1)] m(2) key
  show ?thesis by simp
qed

theorem removal_drains_witness:
  "''s'' \<in> ps_retired_candidates (snd (pool_remove held_pool ''s'')) \<and>
   ps_reservations (snd (pool_remove held_pool ''s'')) = ps_reservations held_pool"
proof -
  have "\<not> idle ''s'' held_pool"
    using held_facts(2) idle_count [OF reachable_pool_inv [OF scenario_pools(2)], of "''s''"]
    by (auto simp: pool_active_request_count_def)
  with removal_drains [OF scenario_pools(2) held_facts(1) prod.collapse [symmetric]] show ?thesis by simp
qed

theorem release_completes_witness:
  "fst (release_reservation draining_pool 1) \<and> \<not> bcontains (ps_candidates (snd (release_reservation draining_pool 1))) ''s''"
proof -
  let ?run = "release_reservation draining_pool 1"
  have "(\<lambda>p. (''s'' \<in> ps_retired_candidates p,
      map_option rsv_candidate_id (bget (active (ps_reservations p)) 1),
      (\<lambda>(ok, p'). (ok, bsize (active (ps_reservations p')))) (release_reservation p 1))) draining_pool
    = (True, Some ''s'', True, 0)" by code_simp
  then have facts: "fst ?run" "''s'' \<in> ps_retired_candidates draining_pool"
    "map_option rsv_candidate_id (bget (active (ps_reservations draining_pool)) 1) = Some ''s''"
    "bsize (active (ps_reservations (snd ?run))) = 0" by (simp_all add: case_prod_beta)
  from facts(3) obtain r where "bget (active (ps_reservations draining_pool)) 1 = Some r" "rsv_candidate_id r = ''s''" by auto
  moreover have "idle ''s'' (snd ?run)" using facts(4) by (simp add: idle_def bsize_zero)
  ultimately show ?thesis
    using release_completes [OF scenario_pools(3), of 1] facts(1,2) by (auto simp: case_prod_beta)
qed

definition retired_pool :: pool_scheduler where
  "retired_pool = the (pool_run (open_events @ [reserve_s, Registry PeRetire]) new_pool)"

theorem retired_pool_starts_nothing_witness:
  "ps_retired (the (pool_step reserve_s retired_pool)) \<and>
   bget (active (ps_reservations (the (pool_step reserve_s retired_pool)))) 2 = None"
proof -
  have "(\<lambda>run. (run \<noteq> None, (\<lambda>p. (ps_retired p, bget (active (ps_reservations p)) 2 = None, pool_step reserve_s p \<noteq> None)) (the run)))
      (pool_run (open_events @ [reserve_s, Registry PeRetire]) new_pool) = (True, True, True, True)" by code_simp
  then have facts: "pool_run (open_events @ [reserve_s, Registry PeRetire]) new_pool \<noteq> None"
    "ps_retired retired_pool" "bget (active (ps_reservations retired_pool)) 2 = None"
    "pool_step reserve_s retired_pool \<noteq> None" by (simp_all add: retired_pool_def)
  have reach: "reachable_pool False retired_pool"
    using facts(1) unfolding retired_pool_def by (auto intro: pool_run_reachable reachable_pool.initial)
  have run: "pool_step reserve_s retired_pool = Some (the (pool_step reserve_s retired_pool))"
    using facts(4) by simp
  have "bget (active (ps_reservations (the (pool_step reserve_s retired_pool)))) 2 = None"
    using retired_pool_starts_nothing [OF reach facts(2) run, of 2] facts(3) by force
  then show ?thesis using retired_pool_starts_nothing [OF reach facts(2) run] by blast
qed

theorem fence_roundtrip_witness:
  "\<exists>fence p1. begin_execution_fence open_pool ''s'' = Some (Some fence, p1) \<and>
     \<not> rotation_visible p1 (source_route ''s'' ''s'') ''m'' [Responses] default_scope 5 \<and>
     ps_execution_fences (end_execution_fence p1 ''s'' fence) = ps_execution_fences open_pool"
proof -
  have "map_option fst (begin_execution_fence open_pool ''s'') = Some (Some 1)" by code_simp
  then obtain token p1 where run: "begin_execution_fence open_pool ''s'' = Some (token, p1)" by auto
  from fence_roundtrip [OF scenario_pools(1) limited_facts(6) run, of "''m''" "[Responses]" default_scope 5 0] run
  show ?thesis by auto
qed

text \<open>Two sources; the prompt key belongs to the first, the second succeeds without a lead.\<close>

definition pair_pool :: pool_scheduler where
  "pair_pool = the (pool_run [Registry (PeUpsert (source_route ''s'' ''s'')), Registry (PeUpsert (source_route ''t'' ''t'')),
     Owner (PeBindPrompt ''k'' ''s'' 1)] new_pool)"

theorem sticky_owner_moves_on_lead_witness:
  "\<exists>p' b'. bind_prompt_affinity_sticky pair_pool ''k'' ''t'' 5 = Some (False, p') \<and>
     bget (bindings (ps_prompt_affinity p')) ''k'' = Some b' \<and> bound_candidate b' = ''s''"
proof -
  have "(\<lambda>p. (ps_retired p, bcontains (ps_candidates p) ''t'',
      map_option bound_candidate (live_binding ''k'' 5 (ps_prompt_affinity p)),
      (0 < max_entries (ps_prompt_affinity p), 0 < cache_ttl_ms (ps_prompt_affinity p)),
      map_option fst (bind_prompt_affinity_sticky p ''k'' ''t'' 5))) pair_pool
    = (False, True, Some ''s'', (True, True), Some False)" by code_simp
  then have facts: "\<not> ps_retired pair_pool" "bcontains (ps_candidates pair_pool) ''t''"
    "map_option bound_candidate (live_binding ''k'' 5 (ps_prompt_affinity pair_pool)) = Some ''s''"
    "0 < max_entries (ps_prompt_affinity pair_pool)" "0 < cache_ttl_ms (ps_prompt_affinity pair_pool)"
    "map_option fst (bind_prompt_affinity_sticky pair_pool ''k'' ''t'' 5) = Some False" by simp_all
  then obtain b p' where b: "live_binding ''k'' 5 (ps_prompt_affinity pair_pool) = Some b" "bound_candidate b = ''s''"
    and run: "bind_prompt_affinity_sticky pair_pool ''k'' ''t'' 5 = Some (False, p')" by auto
  have "bound_candidate b \<noteq> ''t''" using b(2) by simp
  from sticky_owner_moves_on_lead [OF facts(1,2) b(1) this facts(4,5) run] run b(2) show ?thesis by auto
qed

end
