(* ===== verification/Sse.thy ===== *)
theory Sse
  imports Prelude
begin

text \<open>
  The incremental reader of server-sent events (\<open>protocol/sse.rs\<close>): where an event ends, the lines
  and the data of an event, and the delivery of complete events from a stream that arrives in
  arbitrary fragments, with and without a bound on the memory of one event.

  A byte is a character.  \<open>memchr2\<close> of the \<open>memchr\<close> package is the parameter \<open>find2\<close>; the hypothesis
  \<open>finds_first\<close> is its documentation: the first position of either byte.  A delivered event is handed
  to \<open>handle\<close>, which returns the new state of the caller; the buffer \<open>pending\<close> is returned beside it.
\<close>

section \<open>Lines and events\<close>

type_synonym byte_search = "char \<Rightarrow> char \<Rightarrow> string \<Rightarrow> nat option"

definition CR :: char where "CR = CHR 0x0D"

definition LF :: char where "LF = CHR 0x0A"

definition line_end :: "byte_search \<Rightarrow> string \<Rightarrow> (nat \<times> nat) option" where
  "line_end find2 bytes =
     (case bytes of [] \<Rightarrow> None
      | first # _ \<Rightarrow>
          map_option (\<lambda>pos. (pos, pos + 1 +
              (if bytes ! pos = CR \<and> pos + 1 < length bytes \<and> bytes ! (pos + 1) = LF then 1 else 0)))
            (if first = CR \<or> first = LF then Some 0 else find2 CR LF bytes))"

lemma line_end_moves: "line_end find2 bytes = Some (len, to) \<Longrightarrow> bytes \<noteq> [] \<and> 0 < to"
  by (auto simp: line_end_def split: list.splits if_splits)

function event_end_from :: "byte_search \<Rightarrow> string \<Rightarrow> nat \<Rightarrow> nat option" where
  "event_end_from find2 bytes offset =
     (case line_end find2 (drop offset bytes) of None \<Rightarrow> None
      | Some (len, to) \<Rightarrow>
          (let pos = offset + len in
           if pos = 0 \<or> bytes ! (pos - 1) = LF \<or> (bytes ! (pos - 1) = CR \<and> bytes ! pos \<noteq> LF)
           then Some (offset + to)
           else event_end_from find2 bytes (offset + to)))"
  by pat_completeness auto
termination
  by (relation "measure (\<lambda>(_, bytes, offset). length bytes - offset)") (auto dest: line_end_moves)

declare event_end_from.simps [simp del]

definition event_end :: "byte_search \<Rightarrow> string \<Rightarrow> nat option" where
  "event_end find2 bytes = event_end_from find2 bytes 0"

function lines :: "byte_search \<Rightarrow> string \<Rightarrow> string list" where
  "lines find2 bytes =
     (if bytes = [] then []
      else (case line_end find2 bytes of
          None \<Rightarrow> [bytes]
        | Some (len, to) \<Rightarrow> take len bytes # lines find2 (drop to bytes)))"
  by pat_completeness auto
termination
  by (relation "measure (\<lambda>(_, bytes). length bytes)") (auto dest: line_end_moves)

declare lines.simps [simp del]

definition strip_prefix :: "string \<Rightarrow> string \<Rightarrow> string option" where
  "strip_prefix p s = (if take (length p) s = p then Some (drop (length p) s) else None)"

definition payloads :: "byte_search \<Rightarrow> string \<Rightarrow> string list" where
  "payloads find2 event =
     map (\<lambda>payload. unwrap_or (strip_prefix '' '' payload) payload)
       (List.map_filter (strip_prefix ''data:'') (lines find2 event))"

definition event_data :: "byte_search \<Rightarrow> string \<Rightarrow> string" where
  "event_data find2 event =
     (case payloads find2 event of [] \<Rightarrow> []
      | first # rest \<Rightarrow> fold (\<lambda>payload data. data @ LF # payload) rest first)"

section \<open>Delivery\<close>

text \<open>What remains of the frames and the state of the caller, after every complete event up to the
  one that stops.\<close>

lemma event_end_moves: "event_end_from find2 bytes offset = Some to \<Longrightarrow> bytes \<noteq> [] \<and> offset < to"
proof (induction find2 bytes offset rule: event_end_from.induct)
  case (1 find2 bytes offset)
  obtain len step where step: "line_end find2 (drop offset bytes) = Some (len, step)"
    using "1.prems" by (subst (asm) event_end_from.simps) (auto split: option.splits)
  from line_end_moves [OF step] have "drop offset bytes \<noteq> []" "0 < step" by auto
  then show ?case
    using "1.prems" "1.IH" [OF step refl refl] step
    by (subst (asm) event_end_from.simps) (auto simp: Let_def split: if_splits)
qed

function deliver ::
  "byte_search \<Rightarrow> ('s \<Rightarrow> bool) \<Rightarrow> ('s \<Rightarrow> string \<Rightarrow> 's) \<Rightarrow> string \<Rightarrow> nat \<Rightarrow> 's \<Rightarrow> string \<times> 's" where
  "deliver find2 stop handle frames scan_from s =
     (case event_end_from find2 frames scan_from of
        None \<Rightarrow> (frames, s)
      | Some to \<Rightarrow>
          (let s' = handle s (take to frames) in
           if stop s' then ([], s') else deliver find2 stop handle (drop to frames) 0 s'))"
  by pat_completeness auto
termination
  by (relation "measure (\<lambda>(_, _, _, frames, _, _). length frames)") (auto dest: event_end_moves)

declare deliver.simps [simp del]

definition consume_frames ::
  "byte_search \<Rightarrow> ('s \<Rightarrow> bool) \<Rightarrow> ('s \<Rightarrow> string \<Rightarrow> 's) \<Rightarrow> string \<Rightarrow> string \<Rightarrow> 's \<Rightarrow> string \<times> 's" where
  "consume_frames find2 stop handle pending bytes s =
     (if stop s then (pending, s)
      else deliver find2 stop handle (pending @ bytes) (length pending - 1) s)"

text \<open>Whether it went well, the buffer and the state: an event longer than the limit is refused.\<close>

function consume_bounded_frames ::
  "byte_search \<Rightarrow> ('s \<Rightarrow> bool) \<Rightarrow> ('s \<Rightarrow> string \<Rightarrow> 's) \<Rightarrow> nat \<Rightarrow> string \<Rightarrow> string \<Rightarrow> 's \<Rightarrow>
   bool \<times> string \<times> 's" where
  "consume_bounded_frames find2 stop handle limit pending bytes s =
     (if bytes = [] \<or> stop s then (True, pending, s)
      else
        (let available = limit - length pending in
         if available = 0 then (False, [], s)
         else
           (let n = min available (length bytes);
                (pending', s') = consume_frames find2 stop handle pending (take n bytes) s
            in consume_bounded_frames find2 stop handle limit pending' (drop n bytes) s')))"
  by pat_completeness auto
termination
  by (relation "measure (\<lambda>(_, _, _, _, _, bytes, _). length bytes)") auto

declare consume_bounded_frames.simps [simp del]

definition MAX_EVENT_BYTES :: nat where
  "MAX_EVENT_BYTES = 64 * 1024 * 1024"

definition push_pending_frames ::
  "byte_search \<Rightarrow> ('s \<Rightarrow> bool) \<Rightarrow> ('s \<Rightarrow> string \<Rightarrow> 's) \<Rightarrow> string \<Rightarrow> string \<Rightarrow> 's \<Rightarrow> (unit + string) \<times> 's" where
  "push_pending_frames find2 stop handle pending bytes s =
     (case consume_bounded_frames find2 stop handle MAX_EVENT_BYTES pending bytes s of
        (ok, pending', s') \<Rightarrow> (if ok then Inr pending' else Inl (), s'))"

section \<open>Where an event ends\<close>

definition first_of :: byte_search where
  "first_of a b = position (\<lambda>x. x = a \<or> x = b)"

definition finds_first :: "byte_search \<Rightarrow> bool" where
  "finds_first find2 \<longleftrightarrow> (\<forall>a b bytes. find2 a b bytes = first_of a b bytes)"

lemma finds_first_eq: "finds_first find2 \<Longrightarrow> find2 = first_of"
  by (simp add: finds_first_def fun_eq_iff)

definition terminator :: "char \<Rightarrow> bool" where
  "terminator c \<longleftrightarrow> c = CR \<or> c = LF"

text \<open>An event ends with the terminator of an empty line: one that follows another terminator, or
  comes first.  The line feed of a CR LF pair is no terminator of its own.\<close>

definition blank_at :: "string \<Rightarrow> nat \<Rightarrow> bool" where
  "blank_at b i \<longleftrightarrow> i < length b \<and> terminator (b ! i) \<and>
     (i = 0 \<or> b ! (i - 1) = LF \<or> (b ! (i - 1) = CR \<and> b ! i \<noteq> LF))"

definition after :: "string \<Rightarrow> nat \<Rightarrow> nat" where
  "after b i = i + 1 + (if b ! i = CR \<and> i + 1 < length b \<and> b ! (i + 1) = LF then 1 else 0)"

definition next_blank :: "string \<Rightarrow> nat \<Rightarrow> nat option" where
  "next_blank b offset = find (blank_at b) [offset..<length b]"

lemma CR_LF [simp]: "CR \<noteq> LF" "LF \<noteq> CR" "terminator CR" "terminator LF"
  by (simp_all add: CR_def LF_def terminator_def)

lemma next_blank_Some:
  "next_blank b offset = Some i \<longleftrightarrow> blank_at b i \<and> offset \<le> i \<and> (\<forall>j. offset \<le> j \<longrightarrow> j < i \<longrightarrow> \<not> blank_at b j)"
  (is "_ \<longleftrightarrow> ?r")
proof
  assume "next_blank b offset = Some i"
  then obtain k where k: "k < length b - offset" "blank_at b (offset + k)" "i = offset + k"
    "\<And>j. j < k \<Longrightarrow> \<not> blank_at b (offset + j)"
    by (auto simp: next_blank_def find_Some_iff)
  then show ?r by (auto dest: k(4) [of "j - offset" for j] simp: le_less_Suc_eq)
      (metis add_less_cancel_left k(4) le_add_diff_inverse)
next
  assume ?r
  then show "next_blank b offset = Some i"
    unfolding next_blank_def find_Some_iff
    by (intro exI [of _ "i - offset"]) (auto simp: blank_at_def)
qed

lemma next_blank_None:
  "next_blank b offset = None \<longleftrightarrow> (\<forall>j. offset \<le> j \<longrightarrow> \<not> blank_at b j)"
  by (auto simp: next_blank_def find_None_iff blank_at_def)

lemma position_first_of: "position P xs = Some n \<longleftrightarrow> n < length xs \<and> P (xs ! n) \<and> (\<forall>j < n. \<not> P (xs ! j))"
proof (induction xs arbitrary: n)
  case (Cons x xs)
  then show ?case by (cases n) (auto simp: less_Suc_eq_0_disj)
qed simp

lemma position_None_nth: "position P xs = None \<longleftrightarrow> (\<forall>j < length xs. \<not> P (xs ! j))"
  by (induction xs) (auto simp: less_Suc_eq_0_disj)

lemma line_end_first_of:
  "line_end first_of b = map_option (\<lambda>i. (i, after b i)) (position terminator b)"
proof (cases b)
  case (Cons c cs)
  show ?thesis
    by (simp add: Cons line_end_def after_def first_of_def terminator_def [abs_def])
qed (simp add: line_end_def)

text \<open>The scan finds exactly the first such terminator, from any offset.\<close>

lemma event_end_from_next_blank:
  "event_end_from first_of b offset = map_option (after b) (next_blank b offset)"
proof (induction "length b - offset" arbitrary: offset rule: less_induct)
  case less
  show ?case
  proof (cases "position terminator (drop offset b)")
    case None
    then have "\<not> terminator (b ! (offset + j))" if "offset + j < length b" for j
      using that by (auto simp: position_None_nth)
    then have "\<not> blank_at b j" if "offset \<le> j" for j
      using that by (auto simp: blank_at_def dest!: le_Suc_ex)
    then have "next_blank b offset = None" by (simp add: next_blank_None)
    then show ?thesis by (subst event_end_from.simps) (simp add: line_end_first_of None)
  next
    case (Some k)
    let ?i = "offset + k"
    have k: "?i < length b" "terminator (b ! ?i)" "\<And>j. j < k \<Longrightarrow> \<not> terminator (b ! (offset + j))"
      using Some by (auto simp: position_first_of)
    have before: "\<not> blank_at b j" if "offset \<le> j" "j < ?i" for j
      using k(3) [of "j - offset"] that by (auto simp: blank_at_def)
    have to: "offset + after (drop offset b) k = after b ?i"
      using k(1) by (auto simp: after_def add.assoc)
    have unfold: "event_end_from first_of b offset =
        (if blank_at b ?i then Some (after b ?i) else event_end_from first_of b (after b ?i))"
      using k(1,2) to by (subst event_end_from.simps) (simp add: line_end_first_of Some Let_def blank_at_def)
    show ?thesis
    proof (cases "blank_at b ?i")
      case True
      then have "next_blank b offset = Some ?i" using before by (simp add: next_blank_Some)
      then show ?thesis using unfold True by simp
    next
      case False
      have pair: "\<not> blank_at b (Suc ?i)" if "Suc ?i < after b ?i"
        using that by (auto simp: after_def blank_at_def split: if_splits)
      have skipped: "\<not> blank_at b j" if "offset \<le> j" "j < after b ?i" for j
      proof -
        have "j \<le> Suc ?i" using that(2) by (simp add: after_def split: if_splits)
        then consider "j < ?i" | "j = ?i" | "j = Suc ?i" by linarith
        then show ?thesis using before [OF that(1)] False pair that(2) by cases auto
      qed
      have far: "offset < after b ?i" by (simp add: after_def)
      have "next_blank b (after b ?i) = next_blank b offset"
      proof (cases "next_blank b offset")
        case None
        then have "next_blank b (after b ?i) = None" using far by (simp add: next_blank_None)
        then show ?thesis using None by simp
      next
        case (Some j)
        then have "after b ?i \<le> j" using skipped by (meson next_blank_Some not_le)
        then have "next_blank b (after b ?i) = Some j" using Some far by (auto simp: next_blank_Some)
        then show ?thesis using Some by simp
      qed
      then show ?thesis using less.hyps [of "after b ?i"] unfold False far k(1) by simp
    qed
  qed
qed

section \<open>Resuming a scan\<close>

text \<open>Whether a byte ends an event depends on it and the byte before it only.\<close>

lemma blank_at_append: "i < length p \<Longrightarrow> blank_at (p @ b) i = blank_at p i"
  by (auto simp: blank_at_def nth_append)

lemma next_blank_resume:
  assumes "next_blank p 0 = None"
  shows "next_blank (p @ b) (length p - 1) = next_blank (p @ b) 0"
proof -
  have none: "\<not> blank_at (p @ b) j" if "j < length p - 1" for j
    using assms that by (simp add: next_blank_None blank_at_append)
  show ?thesis
  proof (cases "next_blank (p @ b) 0")
    case None
    then have "next_blank (p @ b) (length p - 1) = None" by (simp add: next_blank_None)
    then show ?thesis using None by simp
  next
    case (Some i)
    then have "length p - 1 \<le> i" using none by (meson next_blank_Some not_le)
    then have "next_blank (p @ b) (length p - 1) = Some i" using Some by (auto simp: next_blank_Some)
    then show ?thesis using Some by simp
  qed
qed

lemma deliver_resume:
  assumes "next_blank p 0 = None"
  shows "deliver first_of stop handle (p @ b) (length p - 1) s = deliver first_of stop handle (p @ b) 0 s"
  using next_blank_resume [OF assms, of b]
  by (subst (1 2) deliver.simps) (simp only: event_end_from_next_blank)

text \<open>The tail that is kept has no complete event.\<close>

lemma next_blank_Nil [simp]: "next_blank [] k = None"
  by (simp add: next_blank_def)

lemma deliver_tail: "next_blank (fst (deliver first_of stop handle b 0 s)) 0 = None"
proof (induction "length b" arbitrary: b s rule: less_induct)
  case less
  show ?case
  proof (cases "next_blank b 0")
    case None
    then show ?thesis by (subst deliver.simps) (simp add: event_end_from_next_blank)
  next
    case (Some i)
    then have "b \<noteq> []" "0 < after b i" by (auto simp: after_def)
    then show ?thesis
      using less by (subst deliver.simps) (simp add: event_end_from_next_blank Some Let_def)
  qed
qed

section \<open>Fragments\<close>

text \<open>What a caller may use of an event: its lines, and nothing when all of them are empty.\<close>

locale frame_handler =
  fixes handle :: "'s \<Rightarrow> string \<Rightarrow> 's"
  assumes by_lines: "lines first_of a = lines first_of b \<Longrightarrow> handle s a = handle s b"
    and blank_ignored: "list_all (\<lambda>line. line = []) (lines first_of a) \<Longrightarrow> handle s a = s"

lemma lines_Nil [simp]: "lines find2 [] = []"
  by (subst lines.simps) simp

lemma lines_terminated: "position terminator b = Some i \<Longrightarrow> lines first_of b = take i b # lines first_of (drop (after b i) b)"
  by (subst lines.simps) (auto simp: line_end_first_of)

lemma lines_LF: "lines first_of [LF] = [[]]"
  by (subst lines_terminated [where i = 0]) (simp_all add: after_def)

text \<open>A line feed after a final carriage return adds no line.\<close>

lemma position_append: "position P xs = Some i \<Longrightarrow> position P (xs @ ys) = Some i"
  by (induction xs arbitrary: i) (auto split: if_splits)

lemma lines_CR_LF: "b \<noteq> [] \<Longrightarrow> last b = CR \<Longrightarrow> lines first_of (b @ [LF]) = lines first_of b"
proof (induction "length b" arbitrary: b rule: less_induct)
  case less
  have "terminator (b ! (length b - 1))" using less.prems by (simp add: last_conv_nth)
  moreover have "length b - 1 < length b" using less.prems(1) by simp
  ultimately have "position terminator b \<noteq> None" unfolding position_None_nth by blast
  then obtain i where i: "position terminator b = Some i" by blast
  then have lt: "i < length b" by (simp add: position_first_of)
  note both = lines_terminated [OF i] lines_terminated [OF position_append [OF i]]
  show ?case
  proof (cases "after b i < length b")
    case True
    then have same: "after (b @ [LF]) i = after b i" by (auto simp: after_def nth_append)
    have "lines first_of (drop (after b i) b @ [LF]) = lines first_of (drop (after b i) b)"
    proof (rule less.hyps)
      show "length (drop (after b i) b) < length b" using lt by (simp add: after_def)
      show "drop (after b i) b \<noteq> []" "last (drop (after b i) b) = CR" using True less.prems by (simp_all add: last_drop)
    qed
    then show ?thesis using both True lt same by simp
  next
    case False
    have "\<not> Suc i < length b"
    proof
      assume more: "Suc i < length b"
      then have "b ! Suc i = LF" "Suc i = length b - 1" using False by (auto simp: after_def split: if_splits)
      then show False using less.prems by (simp add: last_conv_nth)
    qed
    then have last: "i = length b - 1" using lt by simp
    moreover from this have "b ! i = CR" using less.prems by (simp add: last_conv_nth)
    ultimately have last: "i = length b - 1" "b ! i = CR" by simp_all
    then have "after b i = length b" "after (b @ [LF]) i = Suc (length b)"
      using lt by (auto simp: after_def nth_append)
    then show ?thesis using both lt by simp
  qed
qed

lemma after_append: "i < length z \<Longrightarrow> after (z @ y) i =
    (if i + 1 = length z \<and> z ! i = CR \<and> y \<noteq> [] \<and> hd y = LF then after z i + 1 else after z i)"
  by (cases y) (auto simp: after_def nth_append)

context frame_handler begin

text \<open>One fragment or two: the same events, the same tail.\<close>

lemma deliver_append:
  assumes "\<not> stop s"
  shows "deliver first_of stop handle (z @ y) 0 s =
    (let (t, s1) = deliver first_of stop handle z 0 s in
     if stop s1 then (t, s1) else deliver first_of stop handle (t @ y) 0 s1)"
  using assms
proof (induction "length z" arbitrary: z s rule: less_induct)
  case less
  let ?D = "\<lambda>b. deliver first_of stop handle b 0"
  have step: "?D b s = (case next_blank b 0 of None \<Rightarrow> (b, s) | Some i \<Rightarrow>
      let s' = handle s (take (after b i) b) in if stop s' then ([], s') else ?D (drop (after b i) b) s')" for b s
    by (subst deliver.simps) (simp add: event_end_from_next_blank split: option.split)
  show ?case
  proof (cases "next_blank z 0")
    case None
    then show ?thesis using less.prems by (simp add: step [of z])
  next
    case (Some i)
    then have i: "i < length z" "blank_at z i" by (auto simp: next_blank_Some blank_at_def)
    have some: "next_blank (z @ y) 0 = Some i"
      using Some i(1) by (auto simp: next_blank_Some blank_at_append)
    show ?thesis
    proof (cases "i + 1 = length z \<and> z ! i = CR \<and> y \<noteq> [] \<and> hd y = LF")
      case False
      then have same: "after (z @ y) i = after z i" using after_append [OF i(1), of y] by simp
      have "after z i \<le> length z" using i(1) by (auto simp: after_def)
      moreover have "length (drop (after z i) z) < length z" using i(1) by (auto simp: after_def)
      ultimately show ?thesis
        using less.hyps [of "drop (after z i) z"] by (simp add: step [of z] step [of "z @ y"] Some some same Let_def)
    next
      case True
      then obtain y' where y: "y = LF # y'" by (cases y) auto
      have z: "after z i = length z" "after (z @ y) i = Suc (length z)"
        using True after_append [OF i(1), of y] by (auto simp: after_def)
      have final: "length z - 1 = i" "z \<noteq> []" using True by auto
      then have "z \<noteq> []" "last z = CR" using True by (simp_all add: last_conv_nth [of z])
      then have frame: "handle s (z @ [LF]) = handle s z" by (intro by_lines lines_CR_LF)
      have cut: "take (after (z @ y) i) (z @ y) = z @ [LF]" "drop (after (z @ y) i) (z @ y) = y'"
        unfolding z(2) by (simp_all add: y)
      have alone: "next_blank y 0 = Some 0" "after y 0 = 1"
        by (auto simp: next_blank_Some blank_at_def after_def y)
      have piece: "take 1 y = [LF]" "drop 1 y = y'" by (simp_all add: y)
      have quiet: "handle t [LF] = t" for t by (rule blank_ignored) (simp add: lines_LF)
      let ?s = "handle s z"
      have "?D z s = (if stop ?s then ([], ?s) else ([], ?s))"
        by (simp add: step [of z] Some z(1) Let_def) (simp add: step [of "[]"])
      moreover have "?D (z @ y) s = (if stop ?s then ([], ?s) else ?D y' ?s)"
        by (simp only: step [of "z @ y"] some cut frame Let_def option.case)
      moreover have "?D y ?s = (if stop ?s then ([], ?s) else ?D y' ?s)"
        by (simp only: step [of y] alone Let_def option.case piece quiet)
      ultimately show ?thesis by simp
    qed
  qed
qed

lemma consume_append:
  assumes "next_blank p 0 = None"
  shows "(case consume_frames first_of stop handle p x s of
      (t, s1) \<Rightarrow> consume_frames first_of stop handle t y s1) = consume_frames first_of stop handle p (x @ y) s"
proof (cases "stop s")
  case False
  obtain t s1 where first: "deliver first_of stop handle (p @ x) 0 s = (t, s1)" by fastforce
  have "next_blank t 0 = None" using deliver_tail [of stop handle "p @ x" s] first by simp
  then show ?thesis
    using False deliver_append [of stop s "p @ x" y] first
    by (simp add: consume_frames_def deliver_resume [OF assms, simplified] deliver_resume [simplified])
qed (simp add: consume_frames_def)

lemma consume_tail:
  "next_blank p 0 = None \<Longrightarrow> next_blank (fst (consume_frames first_of stop handle p x s)) 0 = None"
  by (simp add: consume_frames_def deliver_resume [simplified] deliver_tail)

lemma consume_fragments:
  "next_blank p 0 = None \<Longrightarrow>
   fold (\<lambda>chunk (t, s). consume_frames first_of stop handle t chunk s) chunks (p, s) =
     (if chunks = [] then (p, s) else consume_frames first_of stop handle p (concat chunks) s)"
proof (induction chunks arbitrary: p s)
  case (Cons x chunks p st)
  obtain t s1 where first: "consume_frames first_of stop handle p x st = (t, s1)" by fastforce
  have "next_blank t 0 = None" using consume_tail [OF Cons.prems, where stop = stop and x = x and s = st] first by simp
  then show ?case
    using Cons.IH [of t s1] consume_append [OF Cons.prems, where stop = stop and x = x and s = st and y = "concat chunks"] first
    by (cases chunks) (auto simp: first)
qed simp

end

section \<open>Bounded memory\<close>

context frame_handler begin

lemma bounded_step:
  "consume_bounded_frames first_of stop handle limit p bytes s =
     (if bytes = [] \<or> stop s then (True, p, s)
      else if limit - length p = 0 then (False, [], s)
      else (case consume_frames first_of stop handle p (take (limit - length p) bytes) s of
        (p', s') \<Rightarrow> consume_bounded_frames first_of stop handle limit p' (drop (limit - length p) bytes) s'))"
  by (subst consume_bounded_frames.simps) (simp add: Let_def min_def)

lemma consume_length: "length (fst (consume_frames first_of stop handle p x s)) \<le> length p + length x"
proof -
  have "length (fst (deliver first_of stop handle b k s)) \<le> length b" for b k s
  proof (induction "length b" arbitrary: b k s rule: less_induct)
    case less
    show ?case
    proof (cases "event_end_from first_of b k")
      case None
      then show ?thesis by (subst deliver.simps) simp
    next
      case (Some to)
      from event_end_moves [OF Some] have "length (drop to b) < length b" by simp
      from less [OF this, of 0 "handle s (take to b)"]
      have "length (fst (deliver first_of stop handle (drop to b) 0 (handle s (take to b)))) \<le> length b" by simp
      then show ?thesis by (subst deliver.simps) (simp add: Some Let_def)
    qed
  qed
  from this [of "p @ x"] show ?thesis by (simp add: consume_frames_def)
qed

text \<open>Reading under a bound either is reading without one, with a buffer within the bound, or it
  stops at a point where the buffer is full, has no complete event and more bytes follow.\<close>

lemma bounded_result:
  assumes "next_blank p 0 = None" and "length p \<le> limit"
    and "consume_bounded_frames first_of stop handle limit p bytes s = (ok, p', s')"
  shows "if ok then (p', s') = consume_frames first_of stop handle p bytes s \<and> length p' \<le> limit
     else p' = [] \<and> \<not> stop s' \<and> (\<exists>n t. n < length bytes \<and> length t = limit \<and> next_blank t 0 = None \<and>
       consume_frames first_of stop handle p (take n bytes) s = (t, s'))"
  using assms
proof (induction "length bytes" arbitrary: bytes p s rule: less_induct)
  case less
  have idle: "consume_frames first_of stop handle p [] s = (p, s)"
    by (simp add: consume_frames_def deliver.simps event_end_from_next_blank
        next_blank_resume [OF less.prems(1), of "[]", simplified] less.prems(1))
  show ?case
  proof (cases "bytes = [] \<or> stop s")
    case True
    then have "consume_frames first_of stop handle p bytes s = (p, s)"
      using idle by (auto simp: consume_frames_def)
    then show ?thesis using less.prems True by (subst (asm) bounded_step) auto
  next
    case more: False
    show ?thesis
    proof (cases "limit - length p = 0")
      case True
      then have "\<not> ok \<and> p' = [] \<and> s' = s \<and> length p = limit"
        using less.prems(2,3) more by (subst (asm) bounded_step) auto
      then show ?thesis using more idle less.prems(1) by (auto intro!: exI [of _ 0])
    next
      case False
      let ?n = "limit - length p"
      obtain t s1 where first: "consume_frames first_of stop handle p (take ?n bytes) s = (t, s1)" by fastforce
      have tail: "next_blank t 0 = None"
        using consume_tail [OF less.prems(1), where stop = stop and x = "take ?n bytes" and s = s] first by simp
      have fits: "length t \<le> limit"
        using consume_length [of stop p "take ?n bytes" s] first less.prems(2) by simp
      have rest: "consume_bounded_frames first_of stop handle limit t (drop ?n bytes) s1 = (ok, p', s')"
        using less.prems(3) more False first by (subst (asm) bounded_step) simp
      have join: "consume_frames first_of stop handle t (take m (drop ?n bytes)) s1 =
          consume_frames first_of stop handle p (take (?n + m) bytes) s" for m
        using consume_append [OF less.prems(1), where stop = stop and x = "take ?n bytes" and s = s
            and y = "take m (drop ?n bytes)"] first by (simp add: take_add)
      have "length (drop ?n bytes) < length bytes" using more False by (cases bytes) auto
      note IH = less.hyps [OF this tail fits rest]
      show ?thesis
      proof (cases ok)
        case True
        then show ?thesis
          using IH join [of "length bytes"] by simp
      next
        case failed: False
        then obtain n t' where n: "p' = []" "\<not> stop s'" "n < length bytes - ?n" "length t' = limit" "next_blank t' 0 = None"
          "consume_frames first_of stop handle t (take n (drop ?n bytes)) s1 = (t', s')"
          using IH by auto
        then have "?n + n < length bytes" by simp
        then show ?thesis using failed n join [of n] by auto
      qed
    qed
  qed
qed

end

section \<open>Properties\<close>

text \<open>A caller that reads the data of events, as the readers of the gateway do.\<close>

definition collect_data :: "byte_search \<Rightarrow> string list \<Rightarrow> string \<Rightarrow> string list" where
  "collect_data find2 events frame =
     (if payloads find2 frame = [] then events else events @ [event_data find2 frame])"

lemma no_payloads: "list_all (\<lambda>line. line = []) (lines find2 frame) \<Longrightarrow> payloads find2 frame = []"
proof -
  have none: "List.map_filter (strip_prefix ''data:'') ls = []" if "list_all (\<lambda>line. line = []) ls" for ls
    using that by (induction ls) (auto simp: map_filter_simps strip_prefix_def)
  show "list_all (\<lambda>line. line = []) (lines find2 frame) \<Longrightarrow> payloads find2 frame = []"
    unfolding payloads_def by (simp add: none)
qed

interpretation data_reader: frame_handler "collect_data first_of"
proof
  show "collect_data first_of s a = collect_data first_of s b" if "lines first_of a = lines first_of b" for a b s
    using that by (simp add: collect_data_def event_data_def payloads_def)
  show "collect_data first_of s a = s" if "list_all (\<lambda>line. line = []) (lines first_of a)" for a s
    by (simp add: collect_data_def no_payloads [OF that])
qed

definition lines_handler :: "byte_search \<Rightarrow> ('s \<Rightarrow> string \<Rightarrow> 's) \<Rightarrow> bool" where
  "lines_handler find2 handle \<longleftrightarrow>
     (\<forall>s a b. lines find2 a = lines find2 b \<longrightarrow> handle s a = handle s b) \<and>
     (\<forall>s a. list_all (\<lambda>line. line = []) (lines find2 a) \<longrightarrow> handle s a = s)"

lemma lines_handler_frames: "lines_handler first_of handle \<Longrightarrow> frame_handler handle"
  unfolding lines_handler_def by unfold_locales blast+

text \<open>C3: However a stream is cut into fragments, in the middle of a CR LF pair as well, a caller that reads
  events by their lines sees the same events and stops at the same one, and the buffer is the same.\<close>

theorem fragmentation_invariant:
  assumes "finds_first find2" and "lines_handler find2 handle" and "chunks \<noteq> []"
  shows "fold (\<lambda>chunk (t, s). consume_frames find2 stop handle t chunk s) chunks ([], s) =
    consume_frames find2 stop handle [] (concat chunks) s"
proof -
  note find2 = finds_first_eq [OF assms(1)]
  have "frame_handler handle" using assms(2) unfolding find2 by (rule lines_handler_frames)
  from frame_handler.consume_fragments [OF this next_blank_Nil, of stop chunks s] assms(3)
  show ?thesis by (simp add: find2)
qed

text \<open>C28: Reading under a memory bound, fragment by fragment from a buffer without a complete event, is
  reading without the bound, and the buffer stays within it; it fails only where the buffer holds as
  many bytes as the bound allows of one unfinished event and more bytes follow.\<close>

theorem bounded_reading:
  assumes "finds_first find2" and "lines_handler find2 handle"
    and "event_end find2 p = None" and "length p \<le> limit"
    and "consume_bounded_frames find2 stop handle limit p bytes s = (ok, p', s')"
  shows "if ok then (p', s') = consume_frames find2 stop handle p bytes s \<and> length p' \<le> limit
     else p' = [] \<and> \<not> stop s' \<and> (\<exists>n t. n < length bytes \<and> length t = limit \<and> event_end find2 t = None \<and>
       consume_frames find2 stop handle p (take n bytes) s = (t, s'))"
proof -
  note find2 = finds_first_eq [OF assms(1)]
  have handler: "frame_handler handle" using assms(2) unfolding find2 by (rule lines_handler_frames)
  have ends: "event_end first_of b = None \<longleftrightarrow> next_blank b 0 = None" for b
    by (simp add: event_end_def event_end_from_next_blank)
  show ?thesis
    using assms(3-5) unfolding find2 ends by (rule frame_handler.bounded_result [OF handler])
qed

text \<open>Nothing is lost and nothing merged: the delivered frames and the buffer are the stream, each frame
  is exactly one event, and the buffer holds no complete one.\<close>

lemma deliver_partition:
  "deliver first_of (\<lambda>_. False) (\<lambda>frames frame. frames @ [frame]) b 0 fs = (t, gs) \<Longrightarrow>
   \<exists>new. gs = fs @ new \<and> concat new @ t = b \<and> next_blank t 0 = None \<and>
     list_all (\<lambda>frame. \<exists>i. next_blank frame 0 = Some i \<and> after frame i = length frame) new"
proof (induction "length b" arbitrary: b fs rule: less_induct)
  case less
  let ?D = "deliver first_of (\<lambda>_. False) (\<lambda>frames frame. frames @ [frame])"
  show ?case
  proof (cases "next_blank b 0")
    case None
    then have "t = b \<and> gs = fs"
      using less.prems by (subst (asm) deliver.simps) (simp add: event_end_from_next_blank)
    then show ?thesis using None by simp
  next
    case (Some i)
    let ?n = "after b i"
    have i: "i < length b" "blank_at b i" using Some by (auto simp: next_blank_Some blank_at_def)
    have n: "i < ?n" "?n \<le> length b" using i(1) by (auto simp: after_def)
    have run: "?D (drop ?n b) 0 (fs @ [take ?n b]) = (t, gs)"
      using less.prems by (subst (asm) deliver.simps) (simp add: event_end_from_next_blank Some Let_def)
    have "length (drop ?n b) < length b" using n i(1) by simp
    from less.hyps [OF this run] obtain new where new: "gs = (fs @ [take ?n b]) @ new"
      "concat new @ t = drop ?n b" "next_blank t 0 = None"
      "list_all (\<lambda>frame. \<exists>i. next_blank frame 0 = Some i \<and> after frame i = length frame) new" by blast
    have same: "blank_at (take ?n b) j = blank_at b j" if "j < ?n" for j
      using that n(2) blank_at_append [of j "take ?n b" "drop ?n b"] by simp
    have "next_blank (take ?n b) 0 = Some i"
      using Some n same by (auto simp: next_blank_Some)
    moreover have "after (take ?n b) i = length (take ?n b)"
      using n by (auto simp: after_def split: if_splits)
    ultimately show ?thesis
      using new by (intro exI [of _ "take ?n b # new"]) auto
  qed
qed

text \<open>The delivered events and the tail are the stream cut at the ends of its events: no byte is lost,
  duplicated or reordered, each event is complete at its last byte, and the tail has no complete event.\<close>

theorem frames_partition_stream:
  assumes "finds_first find2"
    and "consume_frames find2 (\<lambda>_. False) (\<lambda>frames frame. frames @ [frame]) [] bytes [] = (t, frames)"
  shows "concat frames @ t = bytes \<and> event_end find2 t = None \<and>
    list_all (\<lambda>frame. event_end find2 frame = Some (length frame)) frames"
proof -
  note find2 = finds_first_eq [OF assms(1)]
  have "deliver first_of (\<lambda>_. False) (\<lambda>frames frame. frames @ [frame]) bytes 0 [] = (t, frames)"
    using assms(2) by (simp add: consume_frames_def find2)
  from deliver_partition [OF this] show ?thesis
    by (fastforce simp: find2 event_end_def event_end_from_next_blank list_all_iff)
qed

section \<open>Examples\<close>

lemma first_of_finds: "finds_first first_of"
  by (simp add: finds_first_def)

lemma collect_data_handler: "lines_handler first_of (collect_data first_of)"
  unfolding lines_handler_def using data_reader.by_lines data_reader.blank_ignored by blast

text \<open>A stream cut in its last CR LF pair.\<close>

definition cut_stream :: "string list" where
  "cut_stream = [''data: a'' @ [CR, LF, CR], LF # ''data: b'' @ [LF, LF]]"

theorem fragmentation_invariant_witness:
  "fold (\<lambda>chunk (t, s). consume_frames first_of (\<lambda>_. False) (collect_data first_of) t chunk s) cut_stream ([], [])
     = ([], [''a'', ''b''])"
proof -
  have "consume_frames first_of (\<lambda>_. False) (collect_data first_of) [] (concat cut_stream) [] = ([], [''a'', ''b''])"
    by code_simp
  moreover have "cut_stream \<noteq> []" by (simp add: cut_stream_def)
  ultimately show ?thesis using fragmentation_invariant [OF first_of_finds collect_data_handler] by metis
qed

theorem bounded_reading_witness:
  "([], [''a'', ''b'']) = consume_frames first_of (\<lambda>_. False) (collect_data first_of) [] (concat cut_stream) []"
proof -
  have run: "consume_bounded_frames first_of (\<lambda>_. False) (collect_data first_of) 20 [] (concat cut_stream) []
      = (True, [], [''a'', ''b''])" by code_simp
  have none: "event_end first_of [] = None" by (simp add: event_end_def event_end_from_next_blank)
  have "length ([] :: string) \<le> 20" by simp
  from bounded_reading [OF first_of_finds collect_data_handler none this run]
  show ?thesis unfolding if_True by (rule conjunct1)
qed

theorem frames_partition_stream_witness:
  "concat (snd (consume_frames first_of (\<lambda>_. False) (\<lambda>frames frame. frames @ [frame]) [] (concat cut_stream) [])) = concat cut_stream"
proof -
  let ?run = "consume_frames first_of (\<lambda>_. False) (\<lambda>frames frame. frames @ [frame]) [] (concat cut_stream) []"
  have "fst ?run = []" by code_simp
  with frames_partition_stream [OF first_of_finds prod.collapse [symmetric], of "concat cut_stream"] show ?thesis by simp
qed

end
