(* ===== verification/Decimal.thy ===== *)
theory Decimal
  imports Complex_Main Prelude "HOL-Library.Code_Target_Numeral"
begin

text \<open>
  Exact decimal amounts (\<open>pricing/decimal.rs\<close>): the text of a price, with optional fraction and
  exponent, becomes an integer at a scale that is a power of ten.  \<open>u128\<close> values are natural numbers
  below \<open>2 ^ 128\<close>, \<open>i64\<close> values integers, both with their checks written out.

  A JSON value is given by its variants; the number type of \<open>serde_json\<close> and its \<open>to_string\<close> are the
  parameter \<open>show_number\<close>.
\<close>

section \<open>Data\<close>

datatype pricing_error =
    InvalidAmount | Overflow | InvalidRecord | InvalidCatalog | InvalidCache | CacheTooLarge
  | PricingIo | PricingNetwork | HttpStatus u16

datatype 'n json =
    JNull | JBool bool | JNumber 'n | JString string | JArray "'n json list"
  | JObject "(string \<times> 'n json) list"

text \<open>The operator \<open>?\<close> on a result.\<close>

definition and_then :: "'e + 'a \<Rightarrow> ('a \<Rightarrow> 'e + 'b) \<Rightarrow> 'e + 'b" where
  "and_then r f = (case r of Inl e \<Rightarrow> Inl e | Inr a \<Rightarrow> f a)"

lemma and_then_simps [simp]: "and_then (Inl e) f = Inl e" "and_then (Inr a) f = f a"
  by (simp_all add: and_then_def)

lemma and_then_Inr: "and_then r f = Inr b \<longleftrightarrow> (\<exists>a. r = Inr a \<and> f a = Inr b)"
  by (cases r) auto

section \<open>Digits and integers\<close>

definition digit :: "char \<Rightarrow> nat" where
  "digit c = byte c - 48"

definition push_digit :: "char \<Rightarrow> nat \<Rightarrow> nat" where
  "push_digit c n = 10 * n + digit c"

definition digits_value :: "string \<Rightarrow> nat" where
  "digits_value ds = fold push_digit ds 0"

text \<open>\<open>str::parse::<i32>\<close>: an optional sign, then at least one digit, within the range of the type.\<close>

definition parse_i32 :: "string \<Rightarrow> int option" where
  "parse_i32 s =
     (let (negative, ds) = (case s of [] \<Rightarrow> (False, [])
            | c # cs \<Rightarrow> if c = CHR ''-'' then (True, cs) else if c = CHR ''+'' then (False, cs) else (False, s));
          n = (if negative then - int (digits_value ds) else int (digits_value ds))
      in if ds \<noteq> [] \<and> list_all is_ascii_digit ds \<and> - (2 ^ 31) \<le> n \<and> n < 2 ^ 31 then Some n else None)"

text \<open>\<open>str::split_once\<close> at the first of the given characters.\<close>

definition split_once :: "(char \<Rightarrow> bool) \<Rightarrow> string \<Rightarrow> (string \<times> string) option" where
  "split_once sep s = map_option (\<lambda>i. (take i s, drop (i + 1) s)) (position sep s)"

function decimal_digits :: "nat \<Rightarrow> int option" where
  "decimal_digits n =
     (if n = 0 then None
      else if 10 dvd n then map_option (\<lambda>d. d + 1) (decimal_digits (n div 10))
      else if n = 1 then Some 0 else None)"
  by pat_completeness auto
termination by (relation "measure id") auto

declare decimal_digits.simps [simp del]

definition i64_checked :: "int \<Rightarrow> int option" where
  "i64_checked x = (if - (2 ^ 63) \<le> x \<and> x < 2 ^ 63 then Some x else None)"

section \<open>Amounts\<close>

text \<open>The digits of the amount times a power of ten, as a \<open>u128\<close>.\<close>

definition scale_amount :: "nat \<Rightarrow> int \<Rightarrow> pricing_error + nat" where
  "scale_amount amount shift =
     (if 0 \<le> shift then
        (if 2 ^ 32 \<le> shift \<or> 38 < shift then Inl Overflow
         else if 2 ^ 128 \<le> amount * 10 ^ nat shift then Inl Overflow
         else Inr (amount * 10 ^ nat shift))
      else
        (let divisor = 10 ^ nat (- shift);
             rounded = amount div divisor + (if (divisor + 1) div 2 \<le> amount mod divisor then 1 else 0)
         in if 2 ^ 128 \<le> rounded then Inl Overflow else Inr rounded))"

definition scaled_result :: "nat \<Rightarrow> int \<Rightarrow> bool \<Rightarrow> pricing_error + u64" where
  "scaled_result amount shift allow_zero =
     (if shift < -38 then Inr 0
      else
        (case scale_amount amount shift of Inl e \<Rightarrow> Inl e
         | Inr scaled \<Rightarrow>
             if 2 ^ 64 \<le> scaled then Inl Overflow
             else if 0 < scaled \<or> allow_zero then Inr (of_nat scaled)
             else Inl InvalidAmount))"

definition parse_decimal_to_scaled :: "string \<Rightarrow> nat \<Rightarrow> bool \<Rightarrow> pricing_error + u64" where
  "parse_decimal_to_scaled untrimmed scale allow_zero =
     (let text = trim untrimmed in
      if text = [] \<or> hd text = CHR ''-'' \<or> hd text = CHR ''+'' then Inl InvalidAmount
      else
        (case (case split_once (\<lambda>c. c = CHR ''e'' \<or> c = CHR ''E'') text of
                 Some (mantissa, exponent) \<Rightarrow> map_option (Pair mantissa) (parse_i32 exponent)
               | None \<Rightarrow> Some (text, 0)) of
           None \<Rightarrow> Inl InvalidAmount
         | Some (mantissa, exponent) \<Rightarrow>
             if 1 < length (filter (\<lambda>c. c = CHR ''.'') mantissa) then Inl InvalidAmount
             else
               (let (whole, fractional) = unwrap_or (split_once (\<lambda>c. c = CHR ''.'') mantissa) (mantissa, []) in
                if (whole = [] \<and> fractional = []) \<or> \<not> list_all is_ascii_digit whole
                   \<or> \<not> list_all is_ascii_digit fractional then Inl InvalidAmount
                else
                  (let digits = dropWhile (\<lambda>c. c = CHR ''0'') (whole @ fractional) in
                   if digits = [] then (if allow_zero then Inr 0 else Inl InvalidAmount)
                   else if 38 < length digits \<or> 38 < length fractional then Inl InvalidAmount
                   else
                     (case decimal_digits scale of None \<Rightarrow> Inl InvalidAmount
                      | Some scale_digits \<Rightarrow>
                          (case Option.bind (i64_checked (exponent + scale_digits))
                                  (\<lambda>shift. i64_checked (shift - int (length fractional))) of
                             None \<Rightarrow> Inl Overflow
                           | Some shift \<Rightarrow> scaled_result (digits_value digits) shift allow_zero))))))"

definition decimal_to_scaled_allow_zero :: "string \<Rightarrow> nat \<Rightarrow> pricing_error + u64" where
  "decimal_to_scaled_allow_zero text scale = parse_decimal_to_scaled text scale True"

definition price_text :: "('n \<Rightarrow> string) \<Rightarrow> 'n json \<Rightarrow> string option" where
  "price_text show_number value =
     (case value of JString s \<Rightarrow> Some s | JNumber n \<Rightarrow> Some (show_number n) | _ \<Rightarrow> None)"

definition parse_decimal_value :: "('n \<Rightarrow> string) \<Rightarrow> 'n json \<Rightarrow> nat \<Rightarrow> bool \<Rightarrow> pricing_error + u64" where
  "parse_decimal_value show_number value scale allow_zero =
     (case price_text show_number value of None \<Rightarrow> Inl InvalidAmount
      | Some text \<Rightarrow> parse_decimal_to_scaled text scale allow_zero)"

definition usd_to_micro :: "('n \<Rightarrow> string) \<Rightarrow> 'n json \<Rightarrow> nat \<Rightarrow> pricing_error + u64" where
  "usd_to_micro show_number value scale =
     (if decimal_digits scale = None then Inl InvalidAmount
      else parse_decimal_value show_number value scale False)"

definition usd_per_token_to_micro_usd_per_million :: "('n \<Rightarrow> string) \<Rightarrow> 'n json \<Rightarrow> pricing_error + u64" where
  "usd_per_token_to_micro_usd_per_million show_number value =
     parse_decimal_value show_number value (10 ^ 12) True"

definition usd_per_request_to_micro_usd :: "('n \<Rightarrow> string) \<Rightarrow> 'n json \<Rightarrow> pricing_error + u64" where
  "usd_per_request_to_micro_usd show_number value = parse_decimal_value show_number value (10 ^ 6) False"

section \<open>The exact amount\<close>

lemma fold_digits: "fold push_digit b m = m * 10 ^ length b + fold push_digit b 0"
proof (induction b arbitrary: m)
  case (Cons c b)
  show ?case
    using Cons.IH [of "push_digit c m"] Cons.IH [of "push_digit c 0"] by (simp add: push_digit_def distrib_right)
qed simp

lemma digits_value_append: "digits_value (a @ b) = digits_value a * 10 ^ length b + digits_value b"
  using fold_digits [of b "fold push_digit a 0"] by (simp add: digits_value_def)

lemma digits_value_simps [simp]: "digits_value [] = 0" "digits_value [c] = digit c"
  by (simp_all add: digits_value_def push_digit_def)

lemma digits_value_zeros: "digits_value (dropWhile (\<lambda>c. c = CHR ''0'') ds) = digits_value ds"
proof (induction ds)
  case (Cons c ds)
  have "digits_value (CHR ''0'' # ds) = digits_value ds"
    using digits_value_append [of "[CHR ''0'']" ds] by (simp add: digit_def)
  with Cons show ?case by simp
qed simp

lemma digits_value_bound: "list_all is_ascii_digit ds \<Longrightarrow> digits_value ds < 10 ^ length ds"
proof (induction ds rule: rev_induct)
  case (snoc c ds)
  then have "digit c < 10" "digits_value ds < 10 ^ length ds" by (auto simp: digit_def is_ascii_digit_def)
  then show ?case by (simp add: digits_value_append)
qed simp

lemma digits_value_pos: "digits_value ds \<noteq> 0 \<Longrightarrow> dropWhile (\<lambda>c. c = CHR ''0'') ds \<noteq> []"
  by (metis digits_value_zeros digits_value_simps(1))

lemma decimal_digits_power: "decimal_digits (10 ^ k) = Some (int k)"
proof (induction k)
  case (Suc k)
  then show ?case by (subst decimal_digits.simps) simp
qed (simp add: decimal_digits.simps)

lemma position_skip:
  "list_all (\<lambda>c. \<not> sep c) a \<Longrightarrow> position sep (a @ b) = map_option (\<lambda>i. length a + i) (position sep b)"
  by (cases "position sep b"; induction a; simp)

lemma split_once_at: "list_all (\<lambda>c. \<not> sep c) a \<Longrightarrow> sep c \<Longrightarrow> split_once sep (a @ c # b) = Some (a, b)"
  by (simp add: split_once_def position_skip)

lemma split_once_none: "list_all (\<lambda>c. \<not> sep c) a \<Longrightarrow> split_once sep a = None"
  using position_skip [of sep a "[]"] by (simp add: split_once_def)

text \<open>The nearest integer, halves up.\<close>

definition nearest :: "rat \<Rightarrow> nat" where
  "nearest v = nat \<lfloor>v + 1 / 2\<rfloor>"

lemma nearest_nat [simp]: "nearest (of_nat n) = n"
  by (simp add: nearest_def) linarith

lemma nearest_div:
  assumes "0 < d" and "even (d :: nat)"
  shows "nearest (of_nat a / of_nat d) = a div d + (if (d + 1) div 2 \<le> a mod d then 1 else 0)"
proof -
  obtain h where d: "d = 2 * h" "0 < h" using assms by (auto elim: evenE)
  have "rat_of_nat a / of_nat d + 1 / 2 = of_int (int (a + h)) / of_int (int d)"
    using d by (simp add: field_simps)
  then have "nearest (of_nat a / of_nat d) = nat (int (a + h) div int d)"
    by (simp only: nearest_def floor_divide_of_int_eq)
  also have "\<dots> = (a + h) div d" by (metis nat_int zdiv_int)
  also have "\<dots> = a div d + (if h \<le> a mod d then 1 else 0)"
  proof -
    have "a + h = a div d * d + (a mod d + h)" by simp
    then have "(a + h) div d = a div d + (a mod d + h) div d"
      using assms(1) by (metis div_mult_self3 neq0_conv)
    moreover have "(a mod d + h) div d = (if h \<le> a mod d then 1 else 0)"
      using d mod_less_divisor [OF assms(1), of a] by (simp add: div_nat_eqI)
    ultimately show ?thesis by simp
  qed
  finally show ?thesis using d by simp
qed

lemma scale_amount_exact:
  assumes "amount < 10 ^ 38" and "0 < amount" and "-38 \<le> shift"
  shows "(case scale_amount amount shift of Inl e \<Rightarrow> e = Overflow \<and> 2 ^ 64 \<le> nearest (of_nat amount * 10 powi shift)
    | Inr n \<Rightarrow> n = nearest (of_nat amount * 10 powi shift))"
proof (cases "0 \<le> shift")
  case True
  then obtain s where s: "shift = int s" by (metis nonneg_int_cases)
  have v: "(of_nat amount * 10 powi shift :: rat) = of_nat (amount * 10 ^ s)" by (simp add: s power_int_def)
  have "2 ^ 64 \<le> amount * 10 ^ s" if "38 < s"
  proof -
    have "(10::nat) ^ 39 \<le> 10 ^ s" using that by (intro power_increasing) auto
    also have "10 ^ s \<le> amount * 10 ^ s" using assms(2) by simp
    finally have "10 ^ 39 \<le> amount * 10 ^ s" .
    moreover have "(2::nat) ^ 64 \<le> 10 ^ 39" by simp
    ultimately show ?thesis by (rule order_trans [rotated])
  qed
  then show ?thesis
    using s unfolding v by (auto simp: scale_amount_def simp del: of_nat_mult of_nat_power)
next
  case False
  define p where "p = nat (- shift)"
  have p: "0 < p" "p \<le> 38" "shift = - int p" using False assms(3) by (auto simp: p_def)
  have v: "(of_nat amount * 10 powi shift :: rat) = of_nat amount / of_nat (10 ^ p)"
    by (simp add: p(3) power_int_minus divide_inverse)
  have "even ((10::nat) ^ p)" using p(1) by simp
  then have near: "nearest (of_nat amount * 10 powi shift) =
      amount div 10 ^ p + (if (10 ^ p + 1) div 2 \<le> amount mod 10 ^ p then 1 else 0)"
    unfolding v by (intro nearest_div) simp_all
  have "amount div 10 ^ p + 1 < 10 ^ 38 + 1" using div_le_dividend [of amount "10 ^ p"] assms(1) by linarith
  also have "(10::nat) ^ 38 + 1 < 2 ^ 128" by simp
  finally have "amount div 10 ^ p + 1 < 2 ^ 128" .
  then show ?thesis using False near unfolding p_def by (auto simp: scale_amount_def Let_def)
qed

section \<open>Properties\<close>

text \<open>A decimal number as it is written: whole digits, a point with more digits, an exponent.\<close>

definition spell :: "string \<Rightarrow> string option \<Rightarrow> (char \<times> string) option \<Rightarrow> string" where
  "spell whole fraction exponent =
     whole @ (case fraction of None \<Rightarrow> [] | Some ds \<Rightarrow> CHR ''.'' # ds) @
     (case exponent of None \<Rightarrow> [] | Some (e, ds) \<Rightarrow> e # ds)"

definition exponent_of :: "(char \<times> string) option \<Rightarrow> int option" where
  "exponent_of exponent =
     (case exponent of None \<Rightarrow> Some 0
      | Some (e, ds) \<Rightarrow> if e = CHR ''e'' \<or> e = CHR ''E'' then parse_i32 ds else None)"

lemma digits_plain:
  assumes "list_all is_ascii_digit ds"
  shows "list_all (\<lambda>c. \<not> (c = CHR ''e'' \<or> c = CHR ''E'')) ds" "list_all (\<lambda>c. c \<noteq> CHR ''.'') ds"
    "filter (\<lambda>c. c = CHR ''.'') ds = []"
proof -
  have "\<not> is_ascii_digit CHR ''e''" "\<not> is_ascii_digit CHR ''E''" "\<not> is_ascii_digit CHR ''.''"
    by (simp_all add: is_ascii_digit_def)
  then show "list_all (\<lambda>c. \<not> (c = CHR ''e'' \<or> c = CHR ''E'')) ds" "list_all (\<lambda>c. c \<noteq> CHR ''.'') ds"
    using assms by (auto simp: list_all_iff)
  then show "filter (\<lambda>c. c = CHR ''.'') ds = []" by (auto simp: list_all_iff filter_empty_conv)
qed

lemma split_spelled:
  assumes "list_all is_ascii_digit whole" "list_all is_ascii_digit (unwrap_or fraction [])"
    and "exponent_of exponent = Some e"
  shows "(case split_once (\<lambda>c. c = CHR ''e'' \<or> c = CHR ''E'') (spell whole fraction exponent) of
      Some (mantissa, exponent) \<Rightarrow> map_option (Pair mantissa) (parse_i32 exponent)
    | None \<Rightarrow> Some (spell whole fraction exponent, 0)) = Some (spell whole fraction None, e)"
proof -
  let ?p = "\<lambda>c. c = CHR ''e'' \<or> c = CHR ''E''"
  let ?m = "spell whole fraction None"
  have plain: "list_all (\<lambda>c. \<not> ?p c) ?m"
  proof (cases fraction)
    case None
    then show ?thesis using digits_plain(1) [OF assms(1)] by (simp add: spell_def)
  next
    case (Some ds)
    then show ?thesis using digits_plain(1) [OF assms(1)] digits_plain(1) [of ds] assms(2) by (simp add: spell_def)
  qed
  show ?thesis
  proof (cases exponent)
    case None
    then show ?thesis using split_once_none [OF plain] assms(3) by (simp add: exponent_of_def)
  next
    case (Some x)
    obtain c ds where x: "x = (c, ds)" by fastforce
    have spelled: "spell whole fraction exponent = ?m @ c # ds" by (simp add: spell_def Some x)
    have c: "c = CHR ''e'' \<or> c = CHR ''E''" "parse_i32 ds = Some e"
      using assms(3) by (auto simp: exponent_of_def Some x split: if_splits)
    show ?thesis unfolding spelled using split_once_at [OF plain, of c ds] c by simp
  qed
qed

lemma point_spelled:
  assumes "list_all is_ascii_digit whole" "list_all is_ascii_digit (unwrap_or fraction [])"
  shows "\<not> 1 < length (filter (\<lambda>c. c = CHR ''.'') (spell whole fraction None))"
    and "unwrap_or (split_once (\<lambda>c. c = CHR ''.'') (spell whole fraction None)) (spell whole fraction None, []) =
      (whole, unwrap_or fraction [])"
proof -
  let ?p = "\<lambda>c. c = CHR ''.''"
  note whole = digits_plain(2,3) [OF assms(1)] and part = digits_plain(3) [OF assms(2)]
  have "\<not> 1 < length (filter ?p (spell whole fraction None)) \<and>
      unwrap_or (split_once ?p (spell whole fraction None)) (spell whole fraction None, []) =
        (whole, unwrap_or fraction [])"
  proof (cases fraction)
    case None
    then have "spell whole fraction None = whole" by (simp add: spell_def)
    then show ?thesis using split_once_none [OF whole(1)] whole(2) None by simp
  next
    case (Some ds)
    then have "spell whole fraction None = whole @ CHR ''.'' # ds" by (simp add: spell_def)
    then show ?thesis using split_once_at [OF whole(1), of "CHR ''.''" ds] whole(2) part Some by simp
  qed
  then show "\<not> 1 < length (filter ?p (spell whole fraction None))"
    and "unwrap_or (split_once ?p (spell whole fraction None)) (spell whole fraction None, []) =
      (whole, unwrap_or fraction [])" by blast+
qed

text \<open>C19: A price in decimal notation becomes the nearest integer at its scale, halves rounded up, without
  any error of floating point; what does not fit into 64 bits is an overflow, and a positive amount
  that rounds to zero is refused where zero is, unless it is below ten to the minus 38 at scale.\<close>

theorem decimal_exact:
  assumes "trim text = spell whole fraction exponent"
    and "list_all is_ascii_digit whole" and "list_all is_ascii_digit (unwrap_or fraction [])"
    and "exponent_of exponent = Some e" and "k \<le> 38"
    and "digits = whole @ unwrap_or fraction []" and "digits_value digits \<noteq> 0"
    and "length (dropWhile (\<lambda>c. c = CHR ''0'') digits) \<le> 38" and "length (unwrap_or fraction []) \<le> 38"
    and "shift = e + int k - int (length (unwrap_or fraction []))"
    and "n = nearest (of_nat (digits_value digits) * 10 powi shift)"
  shows "parse_decimal_to_scaled text (10 ^ k) allow_zero =
    (if 2 ^ 64 \<le> n then Inl Overflow
     else if n = 0 \<and> \<not> allow_zero \<and> -38 \<le> shift then Inl InvalidAmount
     else Inr (of_nat n))"
proof -
  let ?f = "unwrap_or fraction []"
  let ?ds = "dropWhile (\<lambda>c. c = CHR ''0'') digits"
  have some: "digits \<noteq> []" "?ds \<noteq> []" using assms(7) digits_value_pos by auto
  have same: "digits_value ?ds = digits_value digits" by (rule digits_value_zeros)
  have "list_all is_ascii_digit ?ds"
    using assms(2,3,6) set_dropWhileD by (fastforce simp: list_all_iff)
  then have "digits_value digits < 10 ^ length ?ds" using digits_value_bound same by metis
  also have "(10::nat) ^ length ?ds \<le> 10 ^ 38" using assms(8) by (intro power_increasing) auto
  finally have small: "digits_value digits < 10 ^ 38" .
  have e: "- (2 ^ 31) \<le> e" "e < 2 ^ 31"
    using assms(4) by (auto simp: exponent_of_def parse_i32_def Let_def split: option.splits prod.splits if_splits)
  then have shift: "Option.bind (i64_checked (e + int k)) (\<lambda>s. i64_checked (s - int (length ?f))) = Some shift"
    using assms(5,9,10) by (simp add: i64_checked_def)
  have signs: "\<not> is_ascii_digit CHR ''-''" "\<not> is_ascii_digit CHR ''+''" by (simp_all add: is_ascii_digit_def)
  have head: "spell whole fraction exponent \<noteq> [] \<and> hd (spell whole fraction exponent) \<noteq> CHR ''-'' \<and>
      hd (spell whole fraction exponent) \<noteq> CHR ''+''"
    using assms(2,6) some(1) signs by (cases whole; cases fraction) (auto simp: spell_def)
  have tail: "scaled_result (digits_value ?ds) shift allow_zero =
    (if 2 ^ 64 \<le> n then Inl Overflow
     else if n = 0 \<and> \<not> allow_zero \<and> -38 \<le> shift then Inl InvalidAmount
     else Inr (of_nat n))"
  proof (cases "shift < -38")
    case True
    have "(10 :: rat) powi shift \<le> 10 powi (- 39)" using True by (intro power_int_increasing) auto
    moreover have "rat_of_nat (digits_value digits) \<le> of_nat (10 ^ 38)"
      using small by (simp only: of_nat_le_iff)
    ultimately have "(of_nat (digits_value digits) * 10 powi shift :: rat) \<le> of_nat (10 ^ 38) * 10 powi (- 39)"
      by (intro mult_mono) auto
    also have "\<dots> < 1 / 2" by (simp add: power_int_def power_one_over)
    finally have "of_nat (digits_value digits) * 10 powi shift + 1 / 2 < (1 :: rat)" by simp
    moreover have "0 \<le> (of_nat (digits_value digits) * 10 powi shift :: rat)" by simp
    ultimately have "\<lfloor>of_nat (digits_value digits) * 10 powi shift + 1 / 2 :: rat\<rfloor> = 0"
      by (simp add: floor_eq_iff)
    then have "n = 0" by (simp add: assms(11) nearest_def)
    then show ?thesis using True by (simp add: scaled_result_def)
  next
    case False
    then show ?thesis
      using scale_amount_exact [OF small, of shift] assms(7,11) same
      by (auto simp: scaled_result_def split: sum.splits)
  qed
  have parts: "\<not> (whole = [] \<and> ?f = [])" "dropWhile (\<lambda>c. c = CHR ''0'') (whole @ ?f) = ?ds"
    using some(1) assms(6) by auto
  have "parse_decimal_to_scaled text (10 ^ k) allow_zero = scaled_result (digits_value ?ds) shift allow_zero"
    unfolding parse_decimal_to_scaled_def assms(1) Let_def split_spelled [OF assms(2-4)] option.case prod.case
      point_spelled(2) [OF assms(2,3)] parts(2) decimal_digits_power shift
    using head point_spelled(1) [OF assms(2,3)] parts(1) assms(2,3,8,9) some(2) by auto
  then show ?thesis unfolding tail .
qed

text \<open>The code refuses a positive amount that rounds to zero where zero is not allowed, but returns zero
  for a still smaller one.\<close>

lemma tiny_amount_accepted:
  "parse_decimal_to_scaled ''1e-7'' (10 ^ 6) False = Inl InvalidAmount"
  "parse_decimal_to_scaled ''1e-45'' (10 ^ 6) False = Inr 0"
  by code_simp+

theorem decimal_exact_witness:
  "parse_decimal_to_scaled '' 2.5e-6 '' (10 ^ 12) True = Inr 2500000"
proof -
  have n: "nearest (of_nat (digits_value ''25'') * 10 powi 5) = 2500000"
  proof -
    have "(of_nat (digits_value ''25'') * 10 powi 5 :: rat) = of_nat 2500000"
      by (simp add: digits_value_def push_digit_def digit_def power_int_def)
    then show ?thesis by (simp only: nearest_nat)
  qed
  have facts: "trim '' 2.5e-6 '' = spell ''2'' (Some ''5'') (Some (CHR ''e'', ''-6''))"
    "list_all is_ascii_digit ''2''" "list_all is_ascii_digit (unwrap_or (Some ''5'') [])"
    "exponent_of (Some (CHR ''e'', ''-6'')) = Some (-6)" "''25'' = ''2'' @ unwrap_or (Some ''5'') []"
    "digits_value ''25'' \<noteq> 0" "length (dropWhile (\<lambda>c. c = CHR ''0'') ''25'') \<le> 38"
    "length (unwrap_or (Some ''5'') []) \<le> 38" "5 = -6 + int 12 - int (length (unwrap_or (Some ''5'') []))"
    by code_simp+
  from decimal_exact [OF facts(1-4) _ facts(5-9) n [symmetric], of True] show ?thesis by simp
qed

end
