(* ===== verification/ModelOrder.thy ===== *)
theory ModelOrder
  imports ModelRules BMap "HOL-Library.Sublist"
begin

text \<open>
  Model identifiers and the order they are shown in (\<open>catalog/order.rs\<close>): the persisted form of an
  identifier, the reasoning levels of a model and the key of its policy, and the merge of a saved
  display order with the models discovered since.

  A \<open>HashSet\<close> that is only searched is a set.  The merge works on positions of the discovered
  catalog, as the code does.
\<close>

section \<open>Identifiers\<close>

definition MAX_MODEL_ID_BYTES :: nat where "MAX_MODEL_ID_BYTES = 256"

definition MAX_MODEL_LIST_LEN :: nat where "MAX_MODEL_LIST_LEN = 4096"

datatype model_id_list_error = ListTooLarge | InvalidModelId

definition is_valid_model_id :: "string \<Rightarrow> bool" where
  "is_valid_model_id model_id =
     (model_id \<noteq> [] \<and> length model_id \<le> MAX_MODEL_ID_BYTES \<and> \<not> has_control model_id)"

text \<open>The segments between the bytes with the property.\<close>

fun split_on :: "(char \<Rightarrow> bool) \<Rightarrow> string \<Rightarrow> string list" where
  "split_on sep [] = [[]]"
| "split_on sep (c # s) =
     (if sep c then [] # split_on sep s
      else (case split_on sep s of [] \<Rightarrow> [[c]] | seg # segs \<Rightarrow> (c # seg) # segs))"

definition is_degrade_level_segment :: "string \<Rightarrow> bool" where
  "is_degrade_level_segment segment =
     (length ''degrade'' < length segment
      \<and> eq_ignore_ascii_case (take (length ''degrade'') segment) ''degrade''
      \<and> list_all is_ascii_digit (drop (length ''degrade'') segment))"

definition is_degraded_route_model :: "string \<Rightarrow> bool" where
  "is_degraded_route_model model_id =
     list_ex is_degrade_level_segment (split_on (\<lambda>c. \<not> is_ascii_alphanumeric c) model_id)"

fun has_whitespace :: "string \<Rightarrow> bool" where
  "has_whitespace [] = False"
| "has_whitespace (a # s) =
     (ws1 a \<or> (case s of [] \<Rightarrow> False | b # t \<Rightarrow> ws2 a b \<or> (case t of [] \<Rightarrow> False | c # _ \<Rightarrow> ws3 a b c))
      \<or> has_whitespace s)"

definition is_valid_model_token :: "string \<Rightarrow> bool" where
  "is_valid_model_token model_id = (is_valid_model_id model_id \<and> \<not> has_whitespace model_id)"

text \<open>The part after the last slash.\<close>

definition after_last :: "char \<Rightarrow> string \<Rightarrow> string" where
  "after_last c s = rev (takeWhile (\<lambda>x. x \<noteq> c) (rev s))"

definition model_leaf :: "string \<Rightarrow> string" where
  "model_leaf model = trim (after_last (CHR ''/'') model)"

section \<open>Reasoning levels\<close>

datatype known_model_family = OpenAiFamily | AnthropicFamily | GeminiFamily | GrokFamily | ZaiFamily

definition is_openai_model :: "string \<Rightarrow> bool" where
  "is_openai_model model =
     (let is_reasoning = starts_with model ''o'' \<and> 1 < length model \<and> is_ascii_digit (model ! 1)
      in starts_with model ''gpt-'' \<or> starts_with model ''codex-'' \<or> is_reasoning
         \<or> starts_with model ''text-'' \<or> starts_with model ''dall-e'')"

definition known_model_family_of :: "string \<Rightarrow> known_model_family option" where
  "known_model_family_of model =
     (if is_openai_model model then Some OpenAiFamily
      else if starts_with model ''claude-'' then Some AnthropicFamily
      else if starts_with model ''gemini-'' then Some GeminiFamily
      else if starts_with model ''grok-'' then Some GrokFamily
      else if starts_with model ''glm-'' then Some ZaiFamily
      else None)"

definition reasoning_policy_key :: "string \<Rightarrow> string" where
  "reasoning_policy_key model =
     (case known_model_family_of (to_ascii_lowercase (model_leaf model)) of
        Some OpenAiFamily \<Rightarrow> ''group:openai''
      | Some AnthropicFamily \<Rightarrow> ''group:anthropic''
      | Some GeminiFamily \<Rightarrow> ''group:gemini''
      | Some GrokFamily \<Rightarrow> ''group:grok''
      | Some ZaiFamily \<Rightarrow> ''group:zai''
      | None \<Rightarrow> model_id_key model)"

definition reasoning_policy_levels :: "(string, string list) bmap \<Rightarrow> string \<Rightarrow> string list option" where
  "reasoning_policy_levels policies model =
     opt_or (bget policies (reasoning_policy_key model)) (bget policies (model_id_key model))"

definition canonical_reasoning_level :: "string \<Rightarrow> string" where
  "canonical_reasoning_level level0 =
     (let level = to_ascii_lowercase (trim level0);
          dashed = map (\<lambda>c. if c = CHR ''-'' \<or> c = CHR '' '' then CHR ''_'' else c) level
      in if dashed \<in> {''x_high'', ''very_high'', ''extra_high'', ''veryhigh'', ''extrahigh''}
         then ''xhigh'' else level)"

definition reasoning_level_rank :: "string \<Rightarrow> nat" where
  "reasoning_level_rank level0 =
     (let level = canonical_reasoning_level level0 in
      if level = ''none'' then 0 else if level = ''minimal'' then 1 else if level = ''low'' then 2
      else if level = ''medium'' then 3 else if level = ''high'' then 4 else if level = ''xhigh'' then 5
      else if level = ''max'' then 6 else if level = ''ultra'' then 7 else 8)"

text \<open>The entries not seen before, with what has been seen.\<close>

definition keep_new :: "('b \<Rightarrow> 'k) \<Rightarrow> 'b \<Rightarrow> 'k set \<times> 'b list \<Rightarrow> 'k set \<times> 'b list" where
  "keep_new key x acc =
     (case acc of (seen, kept) \<Rightarrow>
        if key x \<in> seen then (seen, kept) else (insert (key x) seen, kept @ [x]))"

definition first_by :: "('b \<Rightarrow> 'k) \<Rightarrow> 'b list \<Rightarrow> 'b list" where
  "first_by key xs = snd (fold (keep_new key) xs ({}, []))"

definition reasoning_level_order :: "nat \<times> string \<Rightarrow> nat \<times> string \<Rightarrow> cmp_result" where
  "reasoning_level_order left right =
     then_with (cmp (reasoning_level_rank (snd left)) (reasoning_level_rank (snd right)))
       (cmp (fst left) (fst right))"

definition canonicalize_reasoning_levels :: "string list \<Rightarrow> string list" where
  "canonicalize_reasoning_levels levels =
     map snd (sort_by reasoning_level_order
       (first_by snd (filter (\<lambda>(_, level). level \<noteq> [])
         (enumerate 0 (map canonical_reasoning_level levels)))))"

section \<open>Lists of identifiers\<close>

definition normalize_model_ids :: "string list \<Rightarrow> string list" where
  "normalize_model_ids models = first_by model_id_key (filter (\<lambda>model. model \<noteq> []) (map trim models))"

text \<open>The loop of \<open>normalize_bounded_model_ids\<close>: stops at the first identifier that is not valid.\<close>

fun normalize_checked :: "string list \<Rightarrow> string set \<times> string list \<Rightarrow> model_id_list_error + string list" where
  "normalize_checked [] acc = Inr (snd acc)"
| "normalize_checked (m # ms) acc =
     (let model_id = trim m in
      if model_id = [] then normalize_checked ms acc
      else if \<not> is_valid_model_id model_id then Inl InvalidModelId
      else normalize_checked ms (keep_new model_id_key model_id acc))"

definition normalize_bounded_model_ids :: "string list \<Rightarrow> nat \<Rightarrow> model_id_list_error + string list" where
  "normalize_bounded_model_ids models limit =
     (if limit < length models then Inl ListTooLarge else normalize_checked models ({}, []))"

section \<open>Display order\<close>

definition catalog_positions :: "string list \<Rightarrow> (string, nat) bmap" where
  "catalog_positions catalog =
     fold (\<lambda>(position, model). binsert (model_id_key model) position) (enumerate 0 catalog) bempty"

text \<open>The positions of the saved models, each once, with the flags of the catalog.\<close>

definition take_saved :: "(string, nat) bmap \<Rightarrow> string \<Rightarrow> bool list \<times> nat list \<Rightarrow> bool list \<times> nat list" where
  "take_saved positions model acc =
     (case acc of (saved, ordered) \<Rightarrow>
        (case bget positions (model_id_key model) of
           None \<Rightarrow> (saved, ordered)
         | Some p \<Rightarrow> if saved ! p then (saved, ordered) else (saved[p := True], ordered @ [p])))"

fun insert_in_group :: "(nat \<Rightarrow> 'g option) \<Rightarrow> 'g \<Rightarrow> nat \<Rightarrow> nat list \<Rightarrow> nat \<Rightarrow> nat option \<Rightarrow> nat option" where
  "insert_in_group group_of g m [] pos after_group = after_group"
| "insert_in_group group_of g m (existing # rest) pos after_group =
     (if group_of existing \<noteq> Some g then insert_in_group group_of g m rest (pos + 1) after_group
      else if m < existing then Some pos
      else insert_in_group group_of g m rest (pos + 1) (Some (pos + 1)))"

definition insert_position :: "(nat \<Rightarrow> 'g option) \<Rightarrow> nat \<Rightarrow> nat list \<Rightarrow> nat option" where
  "insert_position group_of m ordered =
     opt_or (Option.bind (group_of m) (\<lambda>g. insert_in_group group_of g m ordered 0 None))
       (position (\<lambda>existing. m < existing) ordered)"

definition insert_new :: "(nat \<Rightarrow> 'g option) \<Rightarrow> bool list \<Rightarrow> nat \<Rightarrow> nat list \<Rightarrow> nat list" where
  "insert_new group_of saved m ordered =
     (if saved ! m then ordered
      else (case insert_position group_of m ordered of
          None \<Rightarrow> ordered @ [m]
        | Some at_ \<Rightarrow> take at_ ordered @ m # drop at_ ordered))"

definition merge_model_display_order_with_groups ::
  "string list \<Rightarrow> string list \<Rightarrow> (string, string) bmap \<Rightarrow> string list" where
  "merge_model_display_order_with_groups models saved_order groups =
     (let catalog = normalize_model_ids models in
      if saved_order = [] then catalog
      else
        (let (saved, ordered) = fold (take_saved (catalog_positions catalog)) saved_order
               (replicate (length catalog) False, [])
         in if ordered = [] then catalog
            else map (nth catalog)
              (fold (insert_new (\<lambda>p. bget groups (model_id_key (catalog ! p))) saved)
                [0..<length catalog] ordered)))"

definition merge_model_display_order :: "string list \<Rightarrow> string list \<Rightarrow> string list" where
  "merge_model_display_order models saved_order =
     merge_model_display_order_with_groups models saved_order bempty"

section \<open>First occurrences\<close>

fun fresh :: "('b \<Rightarrow> 'k) \<Rightarrow> 'k set \<Rightarrow> 'b list \<Rightarrow> 'b list" where
  "fresh key S [] = []"
| "fresh key S (x # xs) =
     (if key x \<in> S then fresh key S xs else x # fresh key (insert (key x) S) xs)"

lemma fold_keep_new:
  "fold (keep_new key) xs (S, ks) = (S \<union> key ` set xs, ks @ fresh key S xs)"
  by (induction xs arbitrary: S ks) (auto simp: keep_new_def)

lemma first_by_fresh: "first_by key xs = fresh key {} xs"
  by (simp add: first_by_def fold_keep_new)

lemma fresh_keys: "key ` set (fresh key S xs) = key ` set xs - S"
  by (induction xs arbitrary: S) (auto simp: insert_Diff_if)

lemma distinct_fresh: "distinct (map key (fresh key S xs))"
proof (induction xs arbitrary: S)
  case (Cons x xs)
  then show ?case using fresh_keys [of key "insert (key x) S" xs] by auto
qed simp

lemma fresh_subset: "set (fresh key S xs) \<subseteq> set xs"
  by (induction xs arbitrary: S) auto

lemma fresh_subseq: "subseq (fresh key S xs) xs"
  by (induction xs arbitrary: S) auto

lemma fresh_id: "distinct (map key xs) \<Longrightarrow> key ` set xs \<inter> S = {} \<Longrightarrow> fresh key S xs = xs"
  by (induction xs arbitrary: S) auto

lemma first_by_keys: "key ` set (first_by key xs) = key ` set xs"
  by (simp add: first_by_fresh fresh_keys)

lemma set_first_by [simp]: "set (first_by (\<lambda>k. k) xs) = set xs"
  using first_by_keys [of "\<lambda>k. k" xs] by simp

lemma distinct_first_by: "distinct (map key (first_by key xs))"
  by (simp add: first_by_fresh distinct_fresh)

lemma first_by_subseq: "subseq (first_by key xs) xs"
  by (simp add: first_by_fresh fresh_subseq)

lemma first_by_id: "distinct (map key xs) \<Longrightarrow> first_by key xs = xs"
  by (simp add: first_by_fresh fresh_id)

lemma first_by_Nil [simp]: "first_by key xs = [] \<longleftrightarrow> xs = []"
  using first_by_keys [of key xs] by (auto simp: first_by_fresh)

section \<open>Normalised lists\<close>

lemma trim_start_idem [simp]: "trim_start (trim_start s) = trim_start s"
  by (induction s rule: trim_start.induct) auto

lemma trim_back_idem [simp]: "trim_back (trim_back s) = trim_back s"
  by (induction s rule: trim_back.induct) auto

lemma normalize_model_ids_distinct: "distinct (map model_id_key (normalize_model_ids models))"
  by (simp add: normalize_model_ids_def distinct_first_by)

lemma normalize_model_ids_keys:
  "model_id_key ` set (normalize_model_ids models) = model_id_key ` (trim ` set models - {[]})"
  by (auto simp: normalize_model_ids_def first_by_keys)

lemma normalize_checked_ok:
  "normalize_checked ms acc = Inr out \<Longrightarrow>
   out = snd (fold (keep_new model_id_key) (filter (\<lambda>m. m \<noteq> []) (map trim ms)) acc) \<and>
   list_all (\<lambda>m. trim m = [] \<or> is_valid_model_id (trim m)) ms"
  by (induction ms arbitrary: acc) (auto simp: Let_def split: if_splits)

lemma normalize_checked_valid:
  "list_all (\<lambda>m. trim m = [] \<or> is_valid_model_id (trim m)) ms \<Longrightarrow>
   normalize_checked ms acc =
     Inr (snd (fold (keep_new model_id_key) (filter (\<lambda>m. m \<noteq> []) (map trim ms)) acc))"
  by (induction ms arbitrary: acc) (auto simp: Let_def)

lemma normalize_checked_error:
  "normalize_checked ms acc = Inl e \<Longrightarrow> e = InvalidModelId \<and>
   \<not> list_all (\<lambda>m. trim m = [] \<or> is_valid_model_id (trim m)) ms"
  by (induction ms arbitrary: acc) (auto simp: Let_def split: if_splits)

text \<open>The bounded normalisation is the plain one, restricted to short lists of valid identifiers.\<close>

lemma normalize_bounded_exact:
  "normalize_bounded_model_ids models limit =
     (if limit < length models then Inl ListTooLarge
      else if list_all (\<lambda>m. trim m = [] \<or> is_valid_model_id (trim m)) models
      then Inr (normalize_model_ids models) else Inl InvalidModelId)"
proof (cases "normalize_checked models ({}, [])")
  case (Inl e)
  then show ?thesis
    using normalize_checked_error [OF Inl] by (simp add: normalize_bounded_model_ids_def)
next
  case (Inr out)
  then show ?thesis
    using normalize_checked_ok [OF Inr]
    by (simp add: normalize_bounded_model_ids_def normalize_model_ids_def first_by_def)
qed

section \<open>The merge of a saved order\<close>

abbreviation key_at :: "string list \<Rightarrow> nat \<Rightarrow> string" where
  "key_at catalog p \<equiv> model_id_key (catalog ! p)"

lemma catalog_positions_get:
  assumes "distinct (map model_id_key catalog)"
  shows "bget (catalog_positions catalog) k = Some p \<longleftrightarrow> p < length catalog \<and> key_at catalog p = k"
  using assms
proof (induction catalog rule: rev_induct)
  case (snoc x xs)
  have "catalog_positions (xs @ [x]) = binsert (model_id_key x) (length xs) (catalog_positions xs)"
    by (simp add: catalog_positions_def enumerate_append_eq)
  moreover have "model_id_key x \<notin> model_id_key ` set xs" using snoc.prems by auto
  then have "key_at xs q \<noteq> model_id_key x" if "q < length xs" for q
    using that by (metis image_eqI nth_mem)
  ultimately show ?case
    using snoc by (auto simp: nth_append less_Suc_eq)
qed (simp add: catalog_positions_def)

definition marked :: "bool list \<Rightarrow> nat list \<Rightarrow> bool" where
  "marked saved ordered \<longleftrightarrow>
     distinct ordered \<and> set ordered = {p. p < length saved \<and> saved ! p}"

lemma take_saved_marked:
  assumes catalog: "distinct (map model_id_key catalog)"
    and saved: "length saved = length catalog" "marked saved ordered"
    and result: "fold (take_saved (catalog_positions catalog)) models (saved, ordered) = (saved', ordered')"
  shows "length saved' = length catalog \<and> marked saved' ordered' \<and>
    (key_at catalog ` {p. p < length catalog \<and> saved' ! p}, map (key_at catalog) ordered') =
      fold (keep_new (\<lambda>k. k)) (filter (\<lambda>k. k \<in> model_id_key ` set catalog) (map model_id_key models))
        (key_at catalog ` {p. p < length catalog \<and> saved ! p}, map (key_at catalog) ordered)"
  using saved result
proof (induction models arbitrary: saved ordered)
  case (Cons m ms)
  let ?pos = "catalog_positions catalog"
  let ?k = "model_id_key m"
  obtain saved1 ordered1 where step: "take_saved ?pos m (saved, ordered) = (saved1, ordered1)"
    by (cases "take_saved ?pos m (saved, ordered)")
  have inj: "inj_on (key_at catalog) {p. p < length catalog}"
    using catalog by (auto simp: distinct_conv_nth inj_on_def)
  have known: "?k \<in> model_id_key ` set catalog \<longleftrightarrow> bget ?pos ?k \<noteq> None"
    by (simp only: not_None_eq catalog_positions_get [OF catalog])
      (metis (no_types, lifting) image_iff in_set_conv_nth)
  have "length saved1 = length catalog \<and> marked saved1 ordered1 \<and>
    (key_at catalog ` {p. p < length catalog \<and> saved1 ! p}, map (key_at catalog) ordered1) =
      (if ?k \<in> model_id_key ` set catalog
       then keep_new (\<lambda>k. k) ?k (key_at catalog ` {p. p < length catalog \<and> saved ! p}, map (key_at catalog) ordered)
       else (key_at catalog ` {p. p < length catalog \<and> saved ! p}, map (key_at catalog) ordered))"
  proof (cases "bget ?pos ?k")
    case None
    then show ?thesis using step Cons.prems known by (simp add: take_saved_def)
  next
    case (Some p)
    then have p: "p < length catalog" "key_at catalog p = ?k"
      using catalog_positions_get [OF catalog] by auto
    have seen: "?k \<in> key_at catalog ` {p. p < length catalog \<and> saved ! p} \<longleftrightarrow> saved ! p"
    proof
      assume "?k \<in> key_at catalog ` {p. p < length catalog \<and> saved ! p}"
      then obtain q where "q < length catalog" "saved ! q" "key_at catalog q = key_at catalog p"
        using p(2) by auto
      with inj_onD [OF inj, of q p] p(1) show "saved ! p" by simp
    next
      assume "saved ! p"
      with p show "?k \<in> key_at catalog ` {p. p < length catalog \<and> saved ! p}" by force
    qed
    show ?thesis
    proof (cases "saved ! p")
      case True
      then show ?thesis using step Some seen known Cons.prems by (simp add: take_saved_def keep_new_def)
    next
      case False
      then have new: "saved1 = saved[p := True]" "ordered1 = ordered @ [p]"
        using step Some by (simp_all add: take_saved_def)
      have set_eq: "{q. q < length catalog \<and> saved1 ! q} = insert p {q. q < length catalog \<and> saved ! q}"
        using p Cons.prems(1) by (auto simp: new nth_list_update)
      then show ?thesis
        using p False new seen known Some Cons.prems
        by (simp add: marked_def keep_new_def)
    qed
  qed
  moreover from this Cons.IH [of saved1 ordered1] step Cons.prems(3) have "length saved' = length catalog \<and> marked saved' ordered' \<and>
    (key_at catalog ` {p. p < length catalog \<and> saved' ! p}, map (key_at catalog) ordered') =
      fold (keep_new (\<lambda>k. k)) (filter (\<lambda>k. k \<in> model_id_key ` set catalog) (map model_id_key ms))
        (key_at catalog ` {p. p < length catalog \<and> saved1 ! p}, map (key_at catalog) ordered1)"
    by simp
  ultimately show ?case by simp
qed simp

text \<open>The anchors: the saved models that the catalog has, each once, in saved order.\<close>

definition anchors :: "string list \<Rightarrow> string list \<Rightarrow> string list" where
  "anchors catalog saved_order =
     first_by (\<lambda>k. k) (filter (\<lambda>k. k \<in> model_id_key ` set catalog) (map model_id_key saved_order))"

lemma take_saved_anchors:
  assumes "distinct (map model_id_key catalog)"
    and "fold (take_saved (catalog_positions catalog)) models (replicate (length catalog) False, []) = (saved, ordered)"
  shows "length saved = length catalog" and "marked saved ordered"
    and "map (key_at catalog) ordered = anchors catalog models"
    and "key_at catalog ` {p. p < length catalog \<and> saved ! p} = set (anchors catalog models)"
proof -
  have start: "{p. p < length catalog \<and> replicate (length catalog) False ! p} = {}" by auto
  have "marked (replicate (length catalog) False) []" by (auto simp: marked_def)
  from take_saved_marked [OF assms(1) _ this assms(2)]
  show "length saved = length catalog" "marked saved ordered"
    "map (key_at catalog) ordered = anchors catalog models"
    "key_at catalog ` {p. p < length catalog \<and> saved ! p} = set (anchors catalog models)"
    by (simp_all add: start fold_keep_new anchors_def first_by_def fresh_keys [of "\<lambda>k. k", simplified])
qed

lemma insert_in_group_bound:
  "insert_in_group group_of g m es pos a = Some i \<Longrightarrow> a = Some i \<or> (pos \<le> i \<and> i \<le> pos + length es)"
  by (induction group_of g m es pos a rule: insert_in_group.induct) (auto split: if_splits)

lemma insert_new_shape:
  assumes "\<not> saved ! m"
  shows "\<exists>a b. ordered = a @ b \<and> insert_new group_of saved m ordered = a @ m # b"
proof (cases "insert_position group_of m ordered")
  case None
  then show ?thesis using assms by (intro exI [of _ ordered] exI [of _ "[]"]) (simp add: insert_new_def)
next
  case (Some i)
  then show ?thesis
    using assms by (intro exI [of _ "take i ordered"] exI [of _ "drop i ordered"]) (simp add: insert_new_def)
qed

lemma insert_new_saved [simp]: "saved ! m \<Longrightarrow> insert_new group_of saved m ordered = ordered"
  by (simp add: insert_new_def)

lemma insert_new_mset:
  "\<not> saved ! m \<Longrightarrow> mset (insert_new group_of saved m ordered) = add_mset m (mset ordered)"
  using insert_new_shape [of saved m ordered group_of] by force

lemma insert_new_filter:
  "filter (nth saved) (insert_new group_of saved m ordered) = filter (nth saved) ordered"
proof (cases "saved ! m")
  case False
  then show ?thesis using insert_new_shape [of saved m ordered group_of] by force
qed simp

lemma fold_insert_new:
  "mset (fold (insert_new group_of saved) ms ordered) = mset (filter (\<lambda>m. \<not> saved ! m) ms) + mset ordered"
  "filter (nth saved) (fold (insert_new group_of saved) ms ordered) = filter (nth saved) ordered"
  by (induction ms arbitrary: ordered) (auto simp: insert_new_mset insert_new_filter)

lemma mset_split: "mset (filter (\<lambda>x. \<not> P x) xs) + mset (filter P xs) = mset xs"
  by (induction xs) auto

lemma marked_mset:
  assumes "marked saved ordered"
  shows "mset (filter (\<lambda>m. \<not> saved ! m) [0..<length saved]) + mset ordered = mset [0..<length saved]"
proof -
  have "mset ordered = mset (filter (nth saved) [0..<length saved])"
    using assms by (intro set_eq_iff_mset_eq_distinct [THEN iffD1]) (auto simp: marked_def)
  then show ?thesis by (metis mset_split)
qed

text \<open>The cases of the merge: nothing saved is known, or the anchors and the new models.\<close>

lemma merge_cases:
  fixes models saved_order groups
  defines "catalog \<equiv> normalize_model_ids models"
  obtains (unsaved) "anchors catalog saved_order = []"
      "merge_model_display_order_with_groups models saved_order groups = catalog"
  | (merged) saved ordered final where
      "length saved = length catalog" "marked saved ordered"
      "map (key_at catalog) ordered = anchors catalog saved_order"
      "key_at catalog ` {p. p < length catalog \<and> saved ! p} = set (anchors catalog saved_order)"
      "final = fold (insert_new (\<lambda>p. bget groups (key_at catalog p)) saved) [0..<length catalog] ordered"
      "merge_model_display_order_with_groups models saved_order groups = map (nth catalog) final"
proof -
  have distinct: "distinct (map model_id_key catalog)"
    by (simp add: catalog_def normalize_model_ids_distinct)
  obtain saved ordered where run: "fold (take_saved (catalog_positions catalog)) saved_order
      (replicate (length catalog) False, []) = (saved, ordered)"
    by (cases "fold (take_saved (catalog_positions catalog)) saved_order (replicate (length catalog) False, [])")
  note facts = take_saved_anchors [OF distinct run]
  show thesis
  proof (cases "ordered = []")
    case True
    then show thesis
      using facts(3) run by (intro unsaved) (auto simp: merge_model_display_order_with_groups_def Let_def catalog_def)
  next
    case False
    then have "saved_order \<noteq> []" using run by auto
    with False run show thesis
      by (intro merged [OF facts refl]) (simp add: merge_model_display_order_with_groups_def Let_def catalog_def)
  qed
qed

lemma final_positions:
  assumes "length saved = length catalog" and "marked saved ordered"
    and "final = fold (insert_new group_of saved) [0..<length catalog] ordered"
  shows "mset final = mset [0..<length catalog]" and "filter (nth saved) final = ordered"
proof -
  show "mset final = mset [0..<length catalog]"
    using marked_mset [OF assms(2)] assms(1,3) by (simp add: fold_insert_new)
  have "filter (nth saved) ordered = ordered"
    using assms(2) by (simp add: marked_def filter_id_conv)
  then show "filter (nth saved) final = ordered" by (simp add: assms(3) fold_insert_new)
qed

lemma merge_exact:
  "mset (merge_model_display_order_with_groups models saved_order groups) = mset (normalize_model_ids models) \<and>
   map model_id_key (filter (\<lambda>m. model_id_key m \<in> model_id_key ` set saved_order)
       (merge_model_display_order_with_groups models saved_order groups)) =
     anchors (normalize_model_ids models) saved_order"
proof -
  let ?catalog = "normalize_model_ids models"
  let ?out = "merge_model_display_order_with_groups models saved_order groups"
  have anchor: "set (anchors ?catalog saved_order) = model_id_key ` set ?catalog \<inter> model_id_key ` set saved_order"
    by (auto simp: anchors_def)
  have known: "filter (\<lambda>m. model_id_key m \<in> model_id_key ` set saved_order) ?out =
      filter (\<lambda>m. model_id_key m \<in> set (anchors ?catalog saved_order)) ?out"
    if "set ?out = set ?catalog"
    using that by (intro filter_cong refl) (simp add: anchor)
  show ?thesis
  proof (cases rule: merge_cases [of models saved_order groups])
    case unsaved
    then show ?thesis using known by simp
  next
    case (merged saved ordered final)
    note final = final_positions [OF merged(1,2,5)]
    have out: "?out = map (nth ?catalog) final" by (rule merged(6))
    have perm: "mset ?out = mset ?catalog"
      by (metis final(1) map_nth mset_map out)
    have bound: "p < length ?catalog" if "p \<in> set final" for p
      using that final(1) by (metis atLeastLessThan_iff mset_eq_setD set_upt)
    have inj: "inj_on (key_at ?catalog) {p. p < length ?catalog}"
      using normalize_model_ids_distinct [of models] by (auto simp: distinct_conv_nth inj_on_def)
    have "filter (\<lambda>p. key_at ?catalog p \<in> set (anchors ?catalog saved_order)) final = filter (nth saved) final"
    proof (rule filter_cong [OF refl])
      fix p assume "p \<in> set final"
      with bound inj show "key_at ?catalog p \<in> set (anchors ?catalog saved_order) \<longleftrightarrow> saved ! p"
        unfolding merged(4) [symmetric] inj_on_def by blast
    qed
    then have "map model_id_key (filter (\<lambda>m. model_id_key m \<in> set (anchors ?catalog saved_order)) ?out) =
        anchors ?catalog saved_order"
      by (simp add: out filter_map comp_def final(2) merged(3))
    with perm known show ?thesis by (metis mset_eq_setD)
  qed
qed

section \<open>New models\<close>

text \<open>Without groups a new model comes before everything discovered later.\<close>

definition new_in_order :: "bool list \<Rightarrow> nat list \<Rightarrow> bool" where
  "new_in_order saved ordered \<longleftrightarrow>
     sorted_wrt (\<lambda>p m. \<not> saved ! m \<longrightarrow> p < m) ordered"

lemma marked_new_in_order:
  assumes "marked saved ordered" shows "new_in_order saved ordered"
proof -
  have "\<forall>m \<in> set ordered. saved ! m" using assms by (simp add: marked_def)
  then show ?thesis unfolding new_in_order_def by (induction ordered) auto
qed

lemma insert_position_ungrouped:
  "group_of m = None \<Longrightarrow> insert_position group_of m ordered = position (\<lambda>existing. m < existing) ordered"
  by (simp add: insert_position_def)

lemma insert_new_ungrouped:
  assumes "group_of m = None" and "\<not> saved ! m" and "m \<notin> set ordered"
  obtains a b where "ordered = a @ b" "insert_new group_of saved m ordered = a @ m # b"
    "\<forall>p \<in> set a. p < m" "b = [] \<or> m < hd b"
proof (cases "position (\<lambda>existing. m < existing) ordered")
  case None
  then have "\<forall>p \<in> set ordered. p < m"
    using assms(3) by (auto simp: position_None not_less le_less)
  with None assms show thesis
    by (intro that [of ordered "[]"]) (auto simp: insert_new_def insert_position_ungrouped)
next
  case (Some i)
  then have i: "i < length ordered" "m < ordered ! i" "\<forall>j < i. \<not> m < ordered ! j"
    by (auto simp: position_Some)
  have "p < m" if p: "p \<in> set (take i ordered)" for p
  proof -
    obtain j where "j < i" "p = ordered ! j"
      using p i(1) by (auto simp: in_set_conv_nth)
    with i have "\<not> m < p" "p \<in> set ordered" by auto
    with assms(3) show ?thesis by (cases "p = m") auto
  qed
  with Some i assms show thesis
    by (intro that [of "take i ordered" "drop i ordered"])
      (auto simp: insert_new_def insert_position_ungrouped hd_drop_conv_nth)
qed

lemma insert_new_in_order:
  assumes "group_of m = None" and "\<not> saved ! m" and "m \<notin> set ordered" and "new_in_order saved ordered"
    and "\<forall>p \<in> set ordered. \<not> saved ! p \<longrightarrow> p < m"
  shows "new_in_order saved (insert_new group_of saved m ordered)"
proof -
  obtain a b where 1: "ordered = a @ b" "insert_new group_of saved m ordered = a @ m # b"
    "\<forall>p \<in> set a. p < m" "b = [] \<or> m < hd b"
    by (rule insert_new_ungrouped [where group_of = group_of and saved = saved and m = m and ordered = ordered])
      (use assms(1-3) in auto)
  have "\<forall>q \<in> set b. saved ! q"
  proof (cases b)
    case (Cons e es)
    then have "m < e" using 1 by simp
    then have "saved ! e" using assms(5) 1(1) Cons by fastforce
    moreover have "saved ! q" if "q \<in> set es" for q
    proof (rule ccontr)
      assume "\<not> saved ! q"
      with that assms(4,5) 1(1) Cons have "e < q" "q < m"
        by (auto simp: new_in_order_def sorted_wrt_append)
      with \<open>m < e\<close> show False by simp
    qed
    ultimately show ?thesis using Cons by simp
  qed simp
  with 1 assms(4) show ?thesis
    by (auto simp: new_in_order_def sorted_wrt_append)
qed

lemma fold_insert_new_in_order:
  assumes "\<And>p. group_of p = None" and "new_in_order saved ordered" and "distinct ordered"
    and "\<forall>p \<in> set ordered. saved ! p \<or> p < k"
  shows "new_in_order saved (fold (insert_new group_of saved) [k..<k + n] ordered)"
  using assms(2-)
proof (induction n arbitrary: k ordered)
  case (Suc n)
  let ?step = "insert_new group_of saved k ordered"
  have set_step: "set ?step = (if saved ! k then set ordered else insert k (set ordered))"
    using arg_cong [OF insert_new_mset [of saved k group_of ordered], of set_mset] by simp
  have "new_in_order saved ?step \<and> distinct ?step"
  proof (cases "saved ! k")
    case False
    then have fresh_k: "k \<notin> set ordered" using Suc.prems by auto
    then have "distinct ?step"
      using insert_new_shape [OF False, of ordered group_of] Suc.prems(2) by force
    moreover have "new_in_order saved ?step"
      by (rule insert_new_in_order) (use assms(1) False fresh_k Suc.prems in auto)
    ultimately show ?thesis by simp
  qed (use Suc.prems in simp)
  then have "new_in_order saved (fold (insert_new group_of saved) [Suc k..<Suc k + n] ?step)"
    using Suc.prems by (intro Suc.IH) (auto simp: set_step less_Suc_eq)
  then show ?case by (simp add: upt_rec)
qed simp

text \<open>What a trimmed text begins and ends with.\<close>

definition begins_trimmed :: "string \<Rightarrow> bool" where
  "begins_trimmed s =
     (case s of [] \<Rightarrow> True
      | a # t \<Rightarrow> \<not> ws1 a \<and>
          (case t of [] \<Rightarrow> True
           | b # u \<Rightarrow> \<not> ws2 a b \<and> (case u of [] \<Rightarrow> True | c # _ \<Rightarrow> \<not> ws3 a b c)))"

lemma trim_start_begins [simp]: "begins_trimmed (trim_start s)"
  by (induction s rule: trim_start.induct) (auto simp: begins_trimmed_def)

lemma begins_trimmed_fix: "begins_trimmed s \<Longrightarrow> trim_start s = s"
  by (cases s rule: trim_start.cases) (auto simp: begins_trimmed_def)

lemma begins_trimmed_prefix: "begins_trimmed (a @ b) \<Longrightarrow> begins_trimmed a"
  by (auto simp: begins_trimmed_def split: list.splits)

lemma trim_back_suffix: "suffix (trim_back s) s"
  by (induction s rule: trim_back.induct) (auto simp: suffix_Cons)

lemma trim_idem [simp]: "trim (trim s) = trim s"
proof -
  obtain t where "rev (trim_start s) = t @ trim_back (rev (trim_start s))"
    using trim_back_suffix by (auto simp: suffix_def)
  then have "trim_start s = trim s @ rev t" by (metis rev_append rev_rev_ident trim_def)
  then have "begins_trimmed (trim s)" by (metis begins_trimmed_prefix trim_start_begins)
  then show ?thesis by (simp add: trim_def [of "trim s"] begins_trimmed_fix) (simp add: trim_def)
qed

lemma model_id_key_trim [simp]: "model_id_key (trim s) = model_id_key s"
  by (simp add: model_id_key_def)

lemma normalized_trimmed: "m \<in> set (normalize_model_ids models) \<Longrightarrow> trim m = m \<and> m \<noteq> []"
proof -
  assume "m \<in> set (normalize_model_ids models)"
  moreover have "set (normalize_model_ids models) \<subseteq> trim ` set models - {[]}"
    using fresh_subset [of model_id_key "{}" "filter (\<lambda>m. m \<noteq> []) (map trim models)"]
    by (auto simp: normalize_model_ids_def first_by_fresh)
  ultimately show ?thesis by auto
qed

lemma normalize_id:
  assumes "distinct (map model_id_key ms)" and "\<forall>m \<in> set ms. trim m = m \<and> m \<noteq> []"
  shows "normalize_model_ids ms = ms"
proof -
  have "map trim ms = ms" "filter (\<lambda>m. m \<noteq> []) ms = ms"
    using assms(2) by (auto simp: map_idI filter_id_conv)
  then show ?thesis using assms(1) by (simp add: normalize_model_ids_def first_by_id)
qed

lemma normalize_idem [simp]: "normalize_model_ids (normalize_model_ids models) = normalize_model_ids models"
  by (rule normalize_id) (use normalized_trimmed normalize_model_ids_distinct in auto)

lemma fold_insert_new_all_saved:
  "\<forall>m \<in> set ms. saved ! m \<Longrightarrow> fold (insert_new group_of saved) ms ordered = ordered"
  by (induction ms) auto

text \<open>The order that is shown is a fixed point: saved as it is and merged again with the same models
  it does not change, whatever the groups.\<close>

lemma merge_complete_order:
  assumes "mset order = mset (normalize_model_ids models)"
  shows "merge_model_display_order_with_groups models order groups = order"
proof -
  let ?catalog = "normalize_model_ids models"
  have keys: "mset (map model_id_key order) = mset (map model_id_key ?catalog)"
    using assms by simp
  then have distinct: "distinct (map model_id_key order)"
    using normalize_model_ids_distinct mset_eq_imp_distinct_iff by blast
  have same: "set order = set ?catalog" using assms mset_eq_setD by blast
  have anchors: "anchors ?catalog order = map model_id_key order"
    using distinct same by (simp add: anchors_def first_by_id filter_id_conv)
  have all: "filter (\<lambda>m. model_id_key m \<in> model_id_key ` set order) out = out"
    if "mset out = mset ?catalog" for out
    using mset_eq_setD [OF that] same by (auto simp: filter_id_conv)
  let ?out = "merge_model_display_order_with_groups models order groups"
  have out: "mset ?out = mset ?catalog" "map model_id_key ?out = map model_id_key order"
    using merge_exact [of models order groups] all anchors by auto
  have "inj_on model_id_key (set ?catalog)"
    using normalize_model_ids_distinct [of models] by (simp add: distinct_map)
  with out same show ?thesis
    by (metis map_inj_on mset_eq_setD sup.idem)
qed

text \<open>The merged order shows every model of the catalog once, and the saved models among them in their
  saved order.\<close>

theorem display_order_merge:
  "mset (merge_model_display_order_with_groups models saved_order groups) = mset (normalize_model_ids models) \<and>
   map model_id_key (filter (\<lambda>m. model_id_key m \<in> model_id_key ` set saved_order)
       (merge_model_display_order_with_groups models saved_order groups)) =
     anchors (normalize_model_ids models) saved_order"
  by (rule merge_exact)

text \<open>Showing the models, saving the order as shown and merging it again, with any groups, shows the
  same order.\<close>

theorem display_order_roundtrip:
  "merge_model_display_order_with_groups models
     (merge_model_display_order_with_groups models saved_order groups) groups' =
   merge_model_display_order_with_groups models saved_order groups"
  by (rule merge_complete_order) (simp add: merge_exact)

text \<open>Without groups a model that was not saved is shown after models discovered before it only, so
  new models keep their order of discovery among themselves and towards the saved ones.\<close>

theorem new_models_in_discovery_order:
  assumes "i < j" and "j < length out" and "out = merge_model_display_order models saved_order"
    and "model_id_key (out ! j) \<notin> model_id_key ` set saved_order"
    and "normalize_model_ids models ! p = out ! i" and "p < length out"
    and "normalize_model_ids models ! q = out ! j" and "q < length out"
  shows "p < q"
proof -
  let ?catalog = "normalize_model_ids models"
  have len: "length out = length ?catalog"
    using merge_exact [of models saved_order bempty] assms(3)
    by (metis merge_model_display_order_def size_mset)
  have distinct: "distinct ?catalog"
    using normalize_model_ids_distinct distinct_map by blast
  have anchor: "set (anchors ?catalog saved_order) \<subseteq> model_id_key ` set saved_order"
    by (auto simp: anchors_def)
  show ?thesis
  proof (cases rule: merge_cases [of models saved_order bempty])
    case unsaved
    then have "out = ?catalog" using assms(3) by (simp add: merge_model_display_order_def)
    then have "p = i" "q = j"
      using assms(1,2,5-8) distinct by (auto simp: nth_eq_iff_index_eq)
    with assms(1) show ?thesis by simp
  next
    case (merged saved ordered final)
    note final = final_positions [OF merged(1,2,5)]
    have out: "out = map (nth ?catalog) final"
      using merged(6) assms(3) by (simp add: merge_model_display_order_def)
    have "new_in_order saved ordered"
      by (rule marked_new_in_order [OF merged(2)])
    then have start: "new_in_order saved ordered" .
    have "new_in_order saved (fold (insert_new (\<lambda>p. bget bempty (key_at ?catalog p)) saved) [0..<0 + length ?catalog] ordered)"
      by (rule fold_insert_new_in_order) (use start merged(2) in \<open>simp_all add: marked_def\<close>)
    then have order: "new_in_order saved final" by (simp add: merged(5))
    have in_range: "final ! n < length ?catalog" if "n < length final" for n
      using that final(1) by (metis atLeastLessThan_iff mset_eq_setD nth_mem set_upt)
    have lf: "length final = length out" by (simp add: out)
    have at_out: "?catalog ! (final ! n) = out ! n" if "n < length out" for n
      using that by (simp add: out)
    have i: "i < length out" using assms(1,2) by simp
    have same: "final ! n = r" if "n < length out" "r < length out" "?catalog ! r = out ! n" for n r
      using nth_eq_iff_index_eq [OF distinct, of "final ! n" r] in_range [of n] that at_out [OF that(1)] len lf
      by simp
    have "final ! i = p" "final ! j = q"
      using same [OF i assms(6,5)] same [OF assms(2,8,7)] by simp_all
    moreover have "\<not> saved ! (final ! j)"
    proof
      assume "saved ! (final ! j)"
      then have "key_at ?catalog (final ! j) \<in> set (anchors ?catalog saved_order)"
        unfolding merged(4) [symmetric] using in_range [of j] assms(2) lf by simp
      with anchor at_out [OF assms(2)] have "model_id_key (out ! j) \<in> model_id_key ` set saved_order"
        by (metis subsetD)
      with assms(4) show False by contradiction
    qed
    moreover have "\<not> saved ! (final ! j) \<longrightarrow> final ! i < final ! j"
      using sorted_wrt_nth_less [OF order [unfolded new_in_order_def] assms(1)] assms(2) lf by simp
    ultimately show ?thesis by simp
  qed
qed

theorem new_models_in_discovery_order_witness:
  "merge_model_display_order [''a'', ''b'', ''c'', ''d''] [''c'', ''a''] = [''b'', ''c'', ''a'', ''d''] \<and> (2 :: nat) < 3"
proof -
  have run: "merge_model_display_order [''a'', ''b'', ''c'', ''d''] [''c'', ''a''] = [''b'', ''c'', ''a'', ''d'']"
    "normalize_model_ids [''a'', ''b'', ''c'', ''d''] = [''a'', ''b'', ''c'', ''d'']"
    "model_id_key ''d'' \<notin> model_id_key ` set [''c'', ''a'']"
    by code_simp+
  have "(2 :: nat) < 3"
    by (rule new_models_in_discovery_order [of 1 3 _ _ "[''c'', ''a'']", OF _ _ run(1) [symmetric]])
      (use run(2,3) in \<open>simp_all add: numeral_eq_Suc\<close>)
  with run(1) show ?thesis by simp
qed

section \<open>The order of reasoning levels\<close>

lemma reasoning_level_order_cmp:
  "reasoning_level_order a b = cmp (reasoning_level_rank (snd a), fst a) (reasoning_level_rank (snd b), fst b)"
  by (auto simp: reasoning_level_order_def cmp_def)

interpretation reasoning_levels: comparator reasoning_level_order UNIV
  by unfold_locales (auto simp: reasoning_level_order_cmp cmp_reverse_cmp cmp_not_greater intro: order.trans)

lemma canonicalize_reasoning_levels_spec:
  shows "set (canonicalize_reasoning_levels levels) = canonical_reasoning_level ` set levels - {[]}"
    and "distinct (canonicalize_reasoning_levels levels)"
    and "sorted (map reasoning_level_rank (canonicalize_reasoning_levels levels))"
proof -
  let ?es = "first_by snd (filter (\<lambda>(_, level). level \<noteq> []) (enumerate 0 (map canonical_reasoning_level levels)))"
  have "snd ` set ?es = canonical_reasoning_level ` set levels - {[]}"
    unfolding first_by_keys by (force simp: enumerate_eq_zip set_zip in_set_conv_nth image_iff)
  then show "set (canonicalize_reasoning_levels levels) = canonical_reasoning_level ` set levels - {[]}"
    by (simp add: canonicalize_reasoning_levels_def)
  have "mset (map snd (sort_by reasoning_level_order ?es)) = mset (map snd ?es)" by simp
  then show "distinct (canonicalize_reasoning_levels levels)"
    using distinct_first_by mset_eq_imp_distinct_iff unfolding canonicalize_reasoning_levels_def by blast
  have "sorted_wrt (\<lambda>a b. reasoning_level_order a b \<noteq> GreaterThan) (sort_by reasoning_level_order ?es)"
    by (rule reasoning_levels.sorted_sort_by) simp
  then have "sorted_wrt (\<lambda>a b. reasoning_level_rank (snd a) \<le> reasoning_level_rank (snd b)) (sort_by reasoning_level_order ?es)"
    by (rule sorted_wrt_mono_rel [rotated]) (auto simp: reasoning_level_order_cmp cmp_not_greater)
  then show "sorted (map reasoning_level_rank (canonicalize_reasoning_levels levels))"
    by (simp add: canonicalize_reasoning_levels_def sorted_wrt_map)
qed

end
