(* ===== verification/PriceQuote.thy ===== *)
theory PriceQuote
  imports Decimal ModelOrder
begin

text \<open>
  Price quotes (\<open>pricing/quote.rs\<close>, \<open>pricing.rs\<close>) and the operator's prices
  (\<open>usage/api_equivalent/estimate.rs\<close>): token rates, their long-context schedules, the validity of a
  quote, the normal form of identifiers, and the conversion between a quote and a stored override.
  All amounts are micro-dollars per million tokens.
\<close>

section \<open>Rates\<close>

definition MAX_MODEL_PRICE_MICRO_USD_PER_MILLION :: u64 where
  "MAX_MODEL_PRICE_MICRO_USD_PER_MILLION = 1000000000000"

record token_rate_set =
  rate_input :: "u64 option"
  rate_cache_read :: "u64 option"
  rate_cache_write_5m :: "u64 option"
  rate_cache_write_1h :: "u64 option"
  rate_cache_write :: "u64 option"
  rate_output :: "u64 option"

definition EMPTY_RATES :: token_rate_set where
  "EMPTY_RATES = \<lparr>rate_input = None, rate_cache_read = None, rate_cache_write_5m = None,
     rate_cache_write_1h = None, rate_cache_write = None, rate_output = None\<rparr>"

definition rates_is_empty :: "token_rate_set \<Rightarrow> bool" where
  "rates_is_empty r =
     (rate_input r = None \<and> rate_cache_read r = None \<and> rate_cache_write_5m r = None
      \<and> rate_cache_write_1h r = None \<and> rate_cache_write r = None \<and> rate_output r = None)"

definition option_is_valid :: "u64 option \<Rightarrow> bool" where
  "option_is_valid rate_value = is_none_or rate_value (\<lambda>r. r \<le> MAX_MODEL_PRICE_MICRO_USD_PER_MILLION)"

definition rates_is_valid :: "token_rate_set \<Rightarrow> bool" where
  "rates_is_valid r =
     (option_is_valid (rate_input r) \<and> option_is_valid (rate_cache_read r)
      \<and> option_is_valid (rate_cache_write_5m r) \<and> option_is_valid (rate_cache_write_1h r)
      \<and> option_is_valid (rate_cache_write r) \<and> option_is_valid (rate_output r))"

definition overlay :: "token_rate_set \<Rightarrow> token_rate_set \<Rightarrow> token_rate_set" where
  "overlay r upper =
     \<lparr>rate_input = opt_or (rate_input upper) (rate_input r),
      rate_cache_read = opt_or (rate_cache_read upper) (rate_cache_read r),
      rate_cache_write_5m = opt_or (rate_cache_write_5m upper) (rate_cache_write_5m r),
      rate_cache_write_1h = opt_or (rate_cache_write_1h upper) (rate_cache_write_1h r),
      rate_cache_write = opt_or (rate_cache_write upper) (rate_cache_write r),
      rate_output = opt_or (rate_output upper) (rate_output r)\<rparr>"

definition rates_clear_cache_writes :: "token_rate_set \<Rightarrow> token_rate_set" where
  "rates_clear_cache_writes r = r\<lparr>rate_cache_write_5m := None, rate_cache_write_1h := None\<rparr>"

record long_context_rates =
  lc_standard :: token_rate_set
  lc_flex :: token_rate_set
  lc_priority :: token_rate_set
  lc_ultrafast :: token_rate_set

definition EMPTY_LONG_CONTEXT :: long_context_rates where
  "EMPTY_LONG_CONTEXT = \<lparr>lc_standard = EMPTY_RATES, lc_flex = EMPTY_RATES,
     lc_priority = EMPTY_RATES, lc_ultrafast = EMPTY_RATES\<rparr>"

definition long_is_empty :: "long_context_rates \<Rightarrow> bool" where
  "long_is_empty l =
     (rates_is_empty (lc_standard l) \<and> rates_is_empty (lc_flex l)
      \<and> rates_is_empty (lc_priority l) \<and> rates_is_empty (lc_ultrafast l))"

definition long_is_valid :: "long_context_rates \<Rightarrow> bool" where
  "long_is_valid l =
     (rates_is_valid (lc_standard l) \<and> rates_is_valid (lc_flex l)
      \<and> rates_is_valid (lc_priority l) \<and> rates_is_valid (lc_ultrafast l))"

definition long_clear_cache_writes :: "long_context_rates \<Rightarrow> long_context_rates" where
  "long_clear_cache_writes l =
     \<lparr>lc_standard = rates_clear_cache_writes (lc_standard l),
      lc_flex = rates_clear_cache_writes (lc_flex l),
      lc_priority = rates_clear_cache_writes (lc_priority l),
      lc_ultrafast = rates_clear_cache_writes (lc_ultrafast l)\<rparr>"

section \<open>Quotes\<close>

record token_price =
  price_input :: u64
  price_cache_read :: "u64 option"
  price_cache_write_5m :: "u64 option"
  price_cache_write_1h :: "u64 option"
  price_cache_write :: "u64 option"
  price_output :: u64
  price_flex :: token_rate_set
  price_priority :: token_rate_set
  price_ultrafast :: token_rate_set
  above_100k :: long_context_rates
  above_128k :: long_context_rates
  above_200k :: long_context_rates
  above_272k :: long_context_rates
  above_512k :: long_context_rates

definition price_context_rates :: "token_price \<Rightarrow> (u64 \<times> long_context_rates) list" where
  "price_context_rates p =
     [(100000, above_100k p), (128000, above_128k p), (200000, above_200k p),
      (272000, above_272k p), (512000, above_512k p)]"

definition price_is_valid :: "token_price \<Rightarrow> bool" where
  "price_is_valid p =
     (price_input p \<le> MAX_MODEL_PRICE_MICRO_USD_PER_MILLION
      \<and> price_output p \<le> MAX_MODEL_PRICE_MICRO_USD_PER_MILLION
      \<and> option_is_valid (price_cache_read p) \<and> option_is_valid (price_cache_write_5m p)
      \<and> option_is_valid (price_cache_write_1h p) \<and> option_is_valid (price_cache_write p)
      \<and> rates_is_valid (price_flex p) \<and> rates_is_valid (price_priority p)
      \<and> rates_is_valid (price_ultrafast p)
      \<and> long_is_valid (above_100k p) \<and> long_is_valid (above_128k p) \<and> long_is_valid (above_200k p)
      \<and> long_is_valid (above_272k p) \<and> long_is_valid (above_512k p))"

definition clear_messages_cache_writes :: "token_price \<Rightarrow> token_price" where
  "clear_messages_cache_writes p =
     p\<lparr>price_cache_write_5m := None, price_cache_write_1h := None,
       price_flex := rates_clear_cache_writes (price_flex p),
       price_priority := rates_clear_cache_writes (price_priority p),
       price_ultrafast := rates_clear_cache_writes (price_ultrafast p),
       above_100k := long_clear_cache_writes (above_100k p),
       above_128k := long_clear_cache_writes (above_128k p),
       above_200k := long_clear_cache_writes (above_200k p),
       above_272k := long_clear_cache_writes (above_272k p),
       above_512k := long_clear_cache_writes (above_512k p)\<rparr>"

record image_model_price =
  input_micro_usd_per_image :: "u64 option"
  output_micro_usd_per_image :: "u64 option"
  input_micro_usd_per_image_token :: "u64 option"

record image_request_price =
  image_price_operation :: string
  image_price_quality :: string
  image_price_size :: string
  image_price_micro_usd :: u64

section \<open>Provenance\<close>

datatype price_source = SourceProvider | LiteLlmExact | LiteLlmCanonical | SourceManual | Unpriced

datatype pricing_source_summary =
    SummaryProvider | SummaryExact | SummaryCanonical | SummaryManual | SummaryMixed | SummaryUnpriced

fun summary_of :: "price_source option \<Rightarrow> pricing_source_summary" where
  "summary_of (Some SourceProvider) = SummaryProvider"
| "summary_of (Some LiteLlmExact) = SummaryExact"
| "summary_of (Some LiteLlmCanonical) = SummaryCanonical"
| "summary_of (Some SourceManual) = SummaryManual"
| "summary_of (Some Unpriced) = SummaryUnpriced"
| "summary_of None = SummaryUnpriced"

text \<open>The loop of \<open>from_sources\<close>: the source of all priced rows, or an early \<open>Mixed\<close>.\<close>

fun from_sources_loop :: "price_source option \<Rightarrow> price_source list \<Rightarrow> pricing_source_summary" where
  "from_sources_loop resolved [] = summary_of resolved"
| "from_sources_loop resolved (s # ss) =
     (if s = Unpriced then from_sources_loop resolved ss
      else (case resolved of
          None \<Rightarrow> from_sources_loop (Some s) ss
        | Some previous \<Rightarrow>
            if previous = s then from_sources_loop (Some previous) ss else SummaryMixed))"

definition from_sources :: "price_source list \<Rightarrow> pricing_source_summary" where
  "from_sources sources = from_sources_loop None sources"

record resolved_price =
  resolved_quote :: "token_price option"
  resolved_source :: price_source
  resolved_revision :: "string option"
  resolved_fetched_at_ms :: "u64 option"
  resolved_stale :: bool

definition unpriced :: "string option \<times> u64 option \<times> bool \<Rightarrow> resolved_price" where
  "unpriced metadata =
     (case metadata of (revision, fetched, stale) \<Rightarrow>
        \<lparr>resolved_quote = None, resolved_source = Unpriced, resolved_revision = revision,
         resolved_fetched_at_ms = fetched, resolved_stale = stale\<rparr>)"

record price_evidence =
  evidence_provider :: "token_price option"
  evidence_manual :: "token_price option"

record source_pricing_metadata =
  pricing_provider :: "string option"
  official_provider_family :: "string option"
  cache_write_models :: "string set"

section \<open>Identifiers\<close>

definition normalize :: "string \<Rightarrow> string" where
  "normalize text = to_ascii_lowercase (trim text)"

text \<open>An absent identity stays absent; \<open>None\<close> outside is \<open>InvalidPricingIdentity\<close>.\<close>

definition normalize_pricing_identity :: "string option \<Rightarrow> string option option" where
  "normalize_pricing_identity identity0 =
     (case identity0 of None \<Rightarrow> Some None
      | Some text \<Rightarrow>
          (let identity = normalize text in
           if identity = [] \<or> 128 < length identity
              \<or> \<not> list_all (\<lambda>c. is_ascii_alphanumeric c \<or> c = CHR ''.'' \<or> c = CHR ''-'' \<or> c = CHR ''_'') identity
           then None else Some (Some identity)))"

definition unqualified :: "string \<Rightarrow> string" where
  "unqualified model_id = normalize (after_last (CHR ''/'') model_id)"

section \<open>Stored overrides\<close>

record api_model_price_override =
  input_micro_usd_per_million :: u64
  cached_input_micro_usd_per_million :: "u64 option"
  cache_write_5m_micro_usd_per_million :: "u64 option"
  cache_write_1h_micro_usd_per_million :: "u64 option"
  cache_write_micro_usd_per_million :: "u64 option"
  output_micro_usd_per_million :: u64
  override_flex :: token_rate_set
  override_priority :: token_rate_set
  override_ultrafast :: token_rate_set
  override_100k :: long_context_rates
  override_128k :: long_context_rates
  override_200k :: long_context_rates
  override_272k :: long_context_rates
  override_512k :: long_context_rates

definition token_price_of :: "api_model_price_override \<Rightarrow> token_price" where
  "token_price_of p =
     \<lparr>price_input = input_micro_usd_per_million p,
      price_cache_read = cached_input_micro_usd_per_million p,
      price_cache_write_5m = cache_write_5m_micro_usd_per_million p,
      price_cache_write_1h = cache_write_1h_micro_usd_per_million p,
      price_cache_write = cache_write_micro_usd_per_million p,
      price_output = output_micro_usd_per_million p,
      price_flex = override_flex p, price_priority = override_priority p,
      price_ultrafast = override_ultrafast p,
      above_100k = override_100k p, above_128k = override_128k p, above_200k = override_200k p,
      above_272k = override_272k p, above_512k = override_512k p\<rparr>"

definition override_of :: "token_price \<Rightarrow> api_model_price_override" where
  "override_of p =
     \<lparr>input_micro_usd_per_million = price_input p,
      cached_input_micro_usd_per_million = price_cache_read p,
      cache_write_5m_micro_usd_per_million = price_cache_write_5m p,
      cache_write_1h_micro_usd_per_million = price_cache_write_1h p,
      cache_write_micro_usd_per_million = price_cache_write p,
      output_micro_usd_per_million = price_output p,
      override_flex = price_flex p, override_priority = price_priority p,
      override_ultrafast = price_ultrafast p,
      override_100k = above_100k p, override_128k = above_128k p, override_200k = above_200k p,
      override_272k = above_272k p, override_512k = above_512k p\<rparr>"

definition override_is_valid :: "api_model_price_override \<Rightarrow> bool" where
  "override_is_valid p = price_is_valid (token_price_of p)"

definition plain_override :: "u64 \<Rightarrow> u64 option \<Rightarrow> u64 option \<Rightarrow> u64 option \<Rightarrow> u64 \<Rightarrow> api_model_price_override" where
  "plain_override input read short_write long_write output =
     \<lparr>input_micro_usd_per_million = input, cached_input_micro_usd_per_million = read,
      cache_write_5m_micro_usd_per_million = short_write,
      cache_write_1h_micro_usd_per_million = long_write,
      cache_write_micro_usd_per_million = None, output_micro_usd_per_million = output,
      override_flex = EMPTY_RATES, override_priority = EMPTY_RATES, override_ultrafast = EMPTY_RATES,
      override_100k = EMPTY_LONG_CONTEXT, override_128k = EMPTY_LONG_CONTEXT,
      override_200k = EMPTY_LONG_CONTEXT, override_272k = EMPTY_LONG_CONTEXT,
      override_512k = EMPTY_LONG_CONTEXT\<rparr>"

text \<open>\<open>None\<close> outside is the error \<open>model prices must be valid\<close>.\<close>

fun from_optional_fields ::
  "u64 option \<Rightarrow> u64 option \<Rightarrow> u64 option \<Rightarrow> u64 option \<Rightarrow> u64 option \<Rightarrow> api_model_price_override option option" where
  "from_optional_fields (Some input) read short_write long_write (Some output) =
     (let price = plain_override input read short_write long_write output in
      if override_is_valid price then Some (Some price) else None)"
| "from_optional_fields None None None None None = Some None"
| "from_optional_fields _ _ _ _ _ = None"

text \<open>The loop over the stored prices, in the order of their keys.\<close>

fun normalize_prices ::
  "(string \<times> api_model_price_override) list \<Rightarrow> (string, api_model_price_override) bmap \<Rightarrow>
   (string, api_model_price_override) bmap option" where
  "normalize_prices [] normalized = Some normalized"
| "normalize_prices ((model_id0, price) # rest) normalized =
     (let model_id = trim model_id0 in
      if \<not> is_valid_model_id model_id \<or> \<not> override_is_valid price then None
      else normalize_prices rest (binsert (model_id_key model_id) price normalized))"

definition normalize_model_price_overrides ::
  "(string, api_model_price_override) bmap \<Rightarrow> (string, api_model_price_override) bmap option" where
  "normalize_model_price_overrides prices = normalize_prices (bentries prices) bempty"

section \<open>Lemmas\<close>

lemma override_roundtrip [simp]:
  "token_price_of (override_of p) = p" "override_of (token_price_of q) = q"
  by (simp_all add: token_price_of_def override_of_def)

lemma normalize_key: "normalize = model_id_key"
  by (simp add: fun_eq_iff normalize_def model_id_key_def)

lemma option_is_valid_simps [simp]:
  "option_is_valid None" "option_is_valid (Some r) = (r \<le> MAX_MODEL_PRICE_MICRO_USD_PER_MILLION)"
  by (simp_all add: option_is_valid_def)

lemma empty_is_valid [simp]: "rates_is_valid EMPTY_RATES" "long_is_valid EMPTY_LONG_CONTEXT"
  by (simp_all add: rates_is_valid_def long_is_valid_def EMPTY_RATES_def EMPTY_LONG_CONTEXT_def)

lemma overlay_valid: "rates_is_valid r \<Longrightarrow> rates_is_valid upper \<Longrightarrow> rates_is_valid (overlay r upper)"
  by (auto simp: rates_is_valid_def overlay_def opt_or_def split: option.split)

lemma clear_rates_valid: "rates_is_valid r \<Longrightarrow> rates_is_valid (rates_clear_cache_writes r)"
  by (simp add: rates_is_valid_def rates_clear_cache_writes_def)

lemma clear_long_valid: "long_is_valid l \<Longrightarrow> long_is_valid (long_clear_cache_writes l)"
  by (simp add: long_is_valid_def long_clear_cache_writes_def clear_rates_valid)

lemma clear_price_valid: "price_is_valid p \<Longrightarrow> price_is_valid (clear_messages_cache_writes p)"
  by (simp add: price_is_valid_def clear_messages_cache_writes_def clear_rates_valid clear_long_valid)

text \<open>The summary names the source all priced rows share.\<close>

lemma from_sources_loop_spec:
  "from_sources_loop (Some s) ss =
     (if \<forall>x \<in> set ss. x = Unpriced \<or> x = s then summary_of (Some s) else SummaryMixed)"
  by (induction ss) auto

lemma from_sources_spec:
  "from_sources ss =
     (let priced = filter (\<lambda>x. x \<noteq> Unpriced) ss in
      if priced = [] then SummaryUnpriced
      else if \<forall>x \<in> set priced. x = hd priced then summary_of (Some (hd priced)) else SummaryMixed)"
  unfolding from_sources_def
  by (induction ss) (auto simp: from_sources_loop_spec Let_def split: if_splits)

end
