(* ===== verification/PriceEstimate.thy ===== *)
theory PriceEstimate
  imports PriceQuote
begin

text \<open>
  The API-equivalent value of measured token usage (\<open>usage/api_equivalent.rs\<close>,
  \<open>usage/api_equivalent/estimate.rs\<close>, \<open>UsageValue\<close> and the SQL integers of \<open>usage.rs\<close>): the price class
  and the context band of a request, the sums of an aggregate, and the estimate of one usage from one
  quote, itemised.

  The readers of a SQL row are functions from a column to a result; an \<open>i64\<close> is an integer of its
  range.  The SQL texts themselves are not modelled.
\<close>

section \<open>Usage\<close>

record usage_value =
  micro_usd :: u64
  priced_tokens :: u64
  unpriced_tokens :: u64

definition zero_value :: usage_value where
  "zero_value = \<lparr>micro_usd = 0, priced_tokens = 0, unpriced_tokens = 0\<rparr>"

definition value_merge :: "usage_value \<Rightarrow> usage_value \<Rightarrow> usage_value" where
  "value_merge a b =
     \<lparr>micro_usd = sat_add (micro_usd a) (micro_usd b),
      priced_tokens = sat_add (priced_tokens a) (priced_tokens b),
      unpriced_tokens = sat_add (unpriced_tokens a) (unpriced_tokens b)\<rparr>"

definition sql_u64 :: "u64 \<Rightarrow> int" where
  "sql_u64 n = (if uint n < 2 ^ 63 then uint n else 2 ^ 63 - 1)"

definition sql_count_u64 :: "int \<Rightarrow> u64" where
  "sql_count_u64 n = (if 0 \<le> n then word_of_int n else 0)"

definition sql_optional_u64 :: "int option \<Rightarrow> u64 option" where
  "sql_optional_u64 stored = Option.bind stored (\<lambda>n. if 0 \<le> n then Some (word_of_int n) else None)"

datatype usage_price_class = ClassStandard | ClassFlex | ClassPriority | ClassUltrafast | ClassUnknown

definition observed_text :: "string option \<Rightarrow> string" where
  "observed_text observed_tier = to_ascii_lowercase (trim (unwrap_or observed_tier []))"

definition class_from_observed :: "string option \<Rightarrow> usage_price_class" where
  "class_from_observed observed_tier =
     (let tier = observed_text observed_tier in
      if tier = ''flex'' then ClassFlex
      else if tier = ''priority'' \<or> tier = ''fast'' then ClassPriority
      else if tier = ''ultrafast'' then ClassUltrafast
      else if tier = [] \<or> tier = ''standard'' \<or> tier = ''default'' then ClassStandard
      else ClassUnknown)"

definition class_from_label :: "string \<Rightarrow> usage_price_class" where
  "class_from_label label =
     (if label = ''flex'' then ClassFlex
      else if label = ''priority'' then ClassPriority
      else if label = ''ultrafast'' then ClassUltrafast
      else if label = [] \<or> label = ''standard'' then ClassStandard
      else ClassUnknown)"

fun class_as_label :: "usage_price_class \<Rightarrow> string" where
  "class_as_label ClassStandard = ''standard''"
| "class_as_label ClassFlex = ''flex''"
| "class_as_label ClassPriority = ''priority''"
| "class_as_label ClassUltrafast = ''ultrafast''"
| "class_as_label ClassUnknown = ''unknown''"

definition observed_label :: "string option \<Rightarrow> string" where
  "observed_label observed_tier =
     (let c = class_from_observed observed_tier in
      if c = ClassUnknown then observed_text observed_tier else class_as_label c)"

datatype usage_context_band = Base | Above100k | Above128k | Above200k | Above272k | Above512k

fun band_threshold :: "usage_context_band \<Rightarrow> u64" where
  "band_threshold Base = 0"
| "band_threshold Above100k = 100000"
| "band_threshold Above128k = 128000"
| "band_threshold Above200k = 200000"
| "band_threshold Above272k = 272000"
| "band_threshold Above512k = 512000"

definition band_from_input_tokens :: "u64 option \<Rightarrow> usage_context_band" where
  "band_from_input_tokens input_tokens =
     unwrap_or (find (\<lambda>band. band_threshold band < unwrap_or input_tokens 0)
       [Above512k, Above272k, Above200k, Above128k, Above100k]) Base"

definition band_from_label :: "string \<Rightarrow> usage_context_band" where
  "band_from_label label =
     (if label = ''above_100k'' then Above100k
      else if label = ''above_128k'' then Above128k
      else if label = ''above_200k'' then Above200k
      else if label = ''above_272k'' then Above272k
      else if label = ''above_512k'' then Above512k
      else Base)"

fun band_as_label :: "usage_context_band \<Rightarrow> string" where
  "band_as_label Base = ''base''"
| "band_as_label Above100k = ''above_100k''"
| "band_as_label Above128k = ''above_128k''"
| "band_as_label Above200k = ''above_200k''"
| "band_as_label Above272k = ''above_272k''"
| "band_as_label Above512k = ''above_512k''"

record api_equivalent_usage =
  input_tokens :: "u64 option"
  cached_input_tokens :: "u64 option"
  cache_write_5m_tokens :: "u64 option"
  cache_write_1h_tokens :: "u64 option"
  unknown_cache_write_tokens :: "u64 option"
  output_tokens :: "u64 option"
  total_tokens :: "u64 option"
  price_class :: usage_price_class
  context_band :: usage_context_band

record observed_usage_sums =
  sum_input_tokens :: "u64 option"
  sum_cached_input_tokens :: "u64 option"
  sum_cache_write_5m_tokens :: "u64 option"
  sum_cache_write_1h_tokens :: "u64 option"
  sum_unknown_cache_write_tokens :: "u64 option"
  sum_output_tokens :: "u64 option"
  sum_total_tokens :: "u64 option"
  input_samples :: u64
  cached_samples :: u64
  cache_write_samples :: u64
  output_samples :: u64
  total_samples :: u64
  gate_measured_buckets :: bool

definition from_aggregate ::
  "(nat \<Rightarrow> 'e + int option) \<Rightarrow> (nat \<Rightarrow> 'e + int) \<Rightarrow> bool \<Rightarrow> 'e + observed_usage_sums" where
  "from_aggregate token sample gate =
     and_then (if gate then map_sum id sql_count_u64 (sample 11) else Inr 0) (\<lambda>out_samples.
     and_then (if gate then map_sum id sql_count_u64 (sample 12) else Inr 0) (\<lambda>all_samples.
     and_then (token 0) (\<lambda>input. and_then (token 1) (\<lambda>cached.
     and_then (token 3) (\<lambda>write_5m. and_then (token 4) (\<lambda>write_1h.
     and_then (token 5) (\<lambda>write_unknown. and_then (token 6) (\<lambda>output. and_then (token 7) (\<lambda>total.
     and_then (sample 8) (\<lambda>in_samples. and_then (sample 9) (\<lambda>read_samples.
     and_then (sample 10) (\<lambda>write_samples.
       Inr \<lparr>sum_input_tokens = sql_optional_u64 input,
            sum_cached_input_tokens = sql_optional_u64 cached,
            sum_cache_write_5m_tokens = sql_optional_u64 write_5m,
            sum_cache_write_1h_tokens = sql_optional_u64 write_1h,
            sum_unknown_cache_write_tokens = sql_optional_u64 write_unknown,
            sum_output_tokens = sql_optional_u64 output,
            sum_total_tokens = sql_optional_u64 total,
            input_samples = sql_count_u64 in_samples,
            cached_samples = sql_count_u64 read_samples,
            cache_write_samples = sql_count_u64 write_samples,
            output_samples = out_samples, total_samples = all_samples,
            gate_measured_buckets = gate\<rparr>))))))))))))"

definition from_priced_aggregate ::
  "(nat \<Rightarrow> 'e + int option) \<Rightarrow> (nat \<Rightarrow> 'e + int) \<Rightarrow> 'e + observed_usage_sums" where
  "from_priced_aggregate token sample = from_aggregate token sample True"

definition from_rollup_aggregate ::
  "(nat \<Rightarrow> 'e + int option) \<Rightarrow> (nat \<Rightarrow> 'e + int) \<Rightarrow> 'e + observed_usage_sums" where
  "from_rollup_aggregate token sample = from_aggregate token sample False"

definition measured :: "observed_usage_sums \<Rightarrow> u64 \<Rightarrow> u64 option \<Rightarrow> u64 option" where
  "measured observed samples tokens =
     (if gate_measured_buckets observed then (if 0 < samples then tokens else None) else tokens)"

definition observed_write :: "observed_usage_sums \<Rightarrow> u64 option \<Rightarrow> u64 option" where
  "observed_write observed tokens =
     (if 0 < cache_write_samples observed then Some (unwrap_or tokens 0) else None)"

definition from_observed_sums :: "observed_usage_sums \<Rightarrow> api_equivalent_usage" where
  "from_observed_sums observed =
     \<lparr>input_tokens = measured observed (input_samples observed) (sum_input_tokens observed),
      cached_input_tokens =
        (if 0 < input_samples observed \<and> cached_samples observed = input_samples observed
         then sum_cached_input_tokens observed else None),
      cache_write_5m_tokens = observed_write observed (sum_cache_write_5m_tokens observed),
      cache_write_1h_tokens = observed_write observed (sum_cache_write_1h_tokens observed),
      unknown_cache_write_tokens = observed_write observed (sum_unknown_cache_write_tokens observed),
      output_tokens = measured observed (output_samples observed) (sum_output_tokens observed),
      total_tokens = measured observed (total_samples observed) (sum_total_tokens observed),
      price_class = ClassStandard, context_band = Base\<rparr>"

definition write_buckets_of :: "u64 option \<Rightarrow> string option \<Rightarrow> u64 option \<times> u64 option \<times> u64 option" where
  "write_buckets_of tokens ttl =
     (if ttl = Some ''5m'' then (tokens, Some 0, Some 0)
      else if ttl = Some ''1h'' then (Some 0, tokens, Some 0)
      else (Some 0, Some 0, tokens))"

definition from_reported_tokens ::
  "u64 option \<Rightarrow> u64 option \<Rightarrow> u64 option \<Rightarrow> string option \<Rightarrow> u64 option \<Rightarrow> u64 option \<Rightarrow> api_equivalent_usage" where
  "from_reported_tokens input cached writes ttl output reported =
     (case write_buckets_of writes ttl of (short_writes, long_writes, unknown_writes) \<Rightarrow>
       \<lparr>input_tokens = input, cached_input_tokens = cached,
        cache_write_5m_tokens = short_writes, cache_write_1h_tokens = long_writes,
        unknown_cache_write_tokens = unknown_writes,
        output_tokens = output, total_tokens = reported,
        price_class = ClassStandard, context_band = Base\<rparr>)"

definition with_observed_rates :: "api_equivalent_usage \<Rightarrow> string option \<Rightarrow> u64 option \<Rightarrow> api_equivalent_usage" where
  "with_observed_rates u tier input =
     u\<lparr>price_class := class_from_observed tier, context_band := band_from_input_tokens input\<rparr>"

definition with_aggregate_rates :: "api_equivalent_usage \<Rightarrow> string \<Rightarrow> string \<Rightarrow> api_equivalent_usage" where
  "with_aggregate_rates u class_label band_label =
     u\<lparr>price_class := class_from_label class_label, context_band := band_from_label band_label\<rparr>"

section \<open>Rates of a usage\<close>

fun find_map :: "('a \<Rightarrow> 'b option) \<Rightarrow> 'a list \<Rightarrow> 'b option" where
  "find_map f [] = None"
| "find_map f (x # xs) = (case f x of Some y \<Rightarrow> Some y | None \<Rightarrow> find_map f xs)"

fun class_schedule :: "usage_price_class \<Rightarrow> long_context_rates \<Rightarrow> token_rate_set option" where
  "class_schedule ClassStandard l = Some (lc_standard l)"
| "class_schedule ClassFlex l = Some (lc_flex l)"
| "class_schedule ClassPriority l = Some (lc_priority l)"
| "class_schedule ClassUltrafast l = Some (lc_ultrafast l)"
| "class_schedule ClassUnknown l = None"

definition band_rates :: "long_context_rates \<Rightarrow> usage_price_class \<Rightarrow> token_rate_set option" where
  "band_rates l c = opt_filter (\<lambda>r. \<not> rates_is_empty r) (class_schedule c l)"

definition context_rates :: "token_price \<Rightarrow> usage_context_band \<Rightarrow> usage_price_class \<Rightarrow> token_rate_set option" where
  "context_rates quote band c =
     find_map (\<lambda>(_, rates). band_rates rates c)
       (filter (\<lambda>(threshold, _). threshold \<le> band_threshold band) (rev (price_context_rates quote)))"

fun class_base :: "token_price \<Rightarrow> usage_price_class \<Rightarrow> token_rate_set option" where
  "class_base quote ClassStandard =
     Some \<lparr>rate_input = Some (price_input quote), rate_cache_read = price_cache_read quote,
       rate_cache_write_5m = price_cache_write_5m quote, rate_cache_write_1h = price_cache_write_1h quote,
       rate_cache_write = price_cache_write quote, rate_output = Some (price_output quote)\<rparr>"
| "class_base quote ClassFlex = Some (price_flex quote)"
| "class_base quote ClassPriority = Some (price_priority quote)"
| "class_base quote ClassUltrafast = Some (price_ultrafast quote)"
| "class_base quote ClassUnknown = None"

definition rates_for :: "token_price \<Rightarrow> usage_price_class \<Rightarrow> usage_context_band \<Rightarrow> token_rate_set option" where
  "rates_for quote c band =
     (case class_base quote c of None \<Rightarrow> None
      | Some base \<Rightarrow>
          (let rates = (case context_rates quote band c of
                 Some upper \<Rightarrow> overlay base upper | None \<Rightarrow> base)
           in if rates_is_empty rates then None else Some rates))"

section \<open>Estimates\<close>

definition token_cost :: "u64 \<Rightarrow> u64 \<Rightarrow> u64" where
  "token_cost tokens rate =
     (let numerator = min (unat tokens * unat rate + 500000) (2 ^ 128 - 1)
      in sat_of_nat (numerator div 1000000))"

definition component_value :: "u64 option \<Rightarrow> u64 option \<Rightarrow> usage_value option" where
  "component_value tokens rate =
     map_option (\<lambda>n. case rate of
         Some r \<Rightarrow> \<lparr>micro_usd = token_cost n r, priced_tokens = n, unpriced_tokens = 0\<rparr>
       | None \<Rightarrow> \<lparr>micro_usd = 0, priced_tokens = 0, unpriced_tokens = n\<rparr>) tokens"

definition sum_component_values :: "usage_value option list \<Rightarrow> usage_value option" where
  "sum_component_values values =
     (case List.map_filter id values of [] \<Rightarrow> None | v # vs \<Rightarrow> Some (fold (\<lambda>x sum. value_merge sum x) vs v))"

text \<open>One bucket of cache writes takes its tokens from the input that remains.\<close>

definition take_write :: "u64 option \<Rightarrow> u64 option \<Rightarrow> u64 \<times> u64 option" where
  "take_write tokens uncached =
     (let n = unwrap_or tokens 0;
          c = min n (unwrap_or uncached n)
      in (c, map_option (\<lambda>r. r - c) uncached))"

record api_equivalent_breakdown =
  part_input :: "usage_value option"
  part_uncached_input :: "usage_value option"
  part_cache_read :: "usage_value option"
  part_cache_write :: "usage_value option"
  part_output :: "usage_value option"

text \<open>The rate of writes whose window is not known: the generic one, unless a window has another.\<close>

definition unsplit_write_rate :: "token_rate_set \<Rightarrow> u64 option" where
  "unsplit_write_rate rates =
     opt_filter (\<lambda>generic.
         list_all (\<lambda>rate. rate = generic)
           (List.map_filter id [rate_cache_write_5m rates, rate_cache_write_1h rates]))
       (rate_cache_write rates)"

definition estimate_breakdown ::
  "api_equivalent_usage \<Rightarrow> token_price option \<Rightarrow> usage_value \<times> api_equivalent_breakdown" where
  "estimate_breakdown usage quote =
     (let cache_read_tokens = unwrap_or (map_option (\<lambda>cached. min cached (unwrap_or (input_tokens usage) cached))
            (cached_input_tokens usage)) 0;
          uncached0 = map_option (\<lambda>i. sat_sub i cache_read_tokens) (input_tokens usage);
          (write_5m, uncached1) = take_write (cache_write_5m_tokens usage) uncached0;
          (write_1h, uncached2) = take_write (cache_write_1h_tokens usage) uncached1;
          (write_unknown, uncached) = take_write (unknown_cache_write_tokens usage) uncached2;
          measured_input = (case input_tokens usage of Some i \<Rightarrow> i
            | None \<Rightarrow> sat_add (sat_add (sat_add cache_read_tokens write_5m) write_1h) write_unknown);
          measured_tokens = sat_add measured_input (unwrap_or (output_tokens usage) 0);
          total = max (unwrap_or (total_tokens usage) measured_tokens) measured_tokens;
          rates = unwrap_or (Option.bind quote (\<lambda>q. rates_for q (price_class usage) (context_band usage)))
            EMPTY_RATES;
          uncached_input = component_value uncached (rate_input rates);
          cache_read = component_value (map_option (\<lambda>_. cache_read_tokens) (cached_input_tokens usage))
            (rate_cache_read rates);
          cache_write = sum_component_values
            [component_value (map_option (\<lambda>_. write_5m) (cache_write_5m_tokens usage))
               (opt_or (rate_cache_write_5m rates) (rate_cache_write rates)),
             component_value (map_option (\<lambda>_. write_1h) (cache_write_1h_tokens usage))
               (opt_or (rate_cache_write_1h rates) (rate_cache_write rates)),
             component_value (map_option (\<lambda>_. write_unknown) (unknown_cache_write_tokens usage))
               (unsplit_write_rate rates)];
          input = sum_component_values [uncached_input, cache_read, cache_write];
          output = component_value (output_tokens usage) (rate_output rates);
          summary = unwrap_or (sum_component_values [input, output]) zero_value
      in (summary\<lparr>unpriced_tokens := sat_sub total (priced_tokens summary)\<rparr>,
          \<lparr>part_input = input, part_uncached_input = uncached_input, part_cache_read = cache_read,
           part_cache_write = cache_write, part_output = output\<rparr>))"

definition estimate :: "api_equivalent_usage \<Rightarrow> token_price option \<Rightarrow> usage_value" where
  "estimate usage quote = fst (estimate_breakdown usage quote)"

section \<open>Every token is accounted for\<close>

definition value_tokens :: "usage_value option \<Rightarrow> nat" where
  "value_tokens v = (case v of None \<Rightarrow> 0 | Some x \<Rightarrow> unat (priced_tokens x) + unat (unpriced_tokens x))"

definition value_priced :: "usage_value option \<Rightarrow> nat" where
  "value_priced v = (case v of None \<Rightarrow> 0 | Some x \<Rightarrow> unat (priced_tokens x))"

definition value_cost :: "usage_value option \<Rightarrow> nat" where
  "value_cost v = (case v of None \<Rightarrow> 0 | Some x \<Rightarrow> unat (micro_usd x))"

definition sat64 :: "nat \<Rightarrow> nat" where
  "sat64 n = min n (2 ^ 64 - 1)"

lemma sat64_simps [simp]: "sat64 (sat64 a + b) = sat64 (a + b)" "sat64 (a + sat64 b) = sat64 (a + b)"
  "sat64 (sat64 a) = sat64 a"
  by (auto simp: sat64_def min_def)

lemma sat64_word [simp]: "sat64 (unat (w :: u64)) = unat w"
  using unat_lt_bound [of w] by (simp add: sat64_def)

lemma unat_sat_add_64: "unat (sat_add a (b :: u64)) = sat64 (unat a + unat b)"
  by (simp add: sat64_def unat_sat_add)

lemma fold_merge:
  "value_cost (Some (fold (\<lambda>x acc. value_merge acc x) vs v)) = sat64 (sum_list (map (\<lambda>x. unat (micro_usd x)) (v # vs)))"
  "value_priced (Some (fold (\<lambda>x acc. value_merge acc x) vs v)) = sat64 (sum_list (map (\<lambda>x. unat (priced_tokens x)) (v # vs)))"
  "unat (unpriced_tokens (fold (\<lambda>x acc. value_merge acc x) vs v)) = sat64 (sum_list (map (\<lambda>x. unat (unpriced_tokens x)) (v # vs)))"
  by (induction vs arbitrary: v)
    (simp_all add: value_cost_def value_priced_def value_merge_def unat_sat_add_64 add.assoc)

lemma sum_list_options:
  "sum_list (map f (List.map_filter id vs)) = sum_list (map (\<lambda>v. case v of None \<Rightarrow> 0 | Some x \<Rightarrow> f x) vs)"
  for f :: "'a \<Rightarrow> nat"
  by (induction vs) (auto simp: map_filter_simps split: option.splits)

lemma sum_components:
  "value_cost (sum_component_values vs) = sat64 (sum_list (map value_cost vs))"
  "value_priced (sum_component_values vs) = sat64 (sum_list (map value_priced vs))"
proof -
  have 1: "value_cost = (\<lambda>v. case v of None \<Rightarrow> 0 | Some x \<Rightarrow> unat (micro_usd x))"
    "value_priced = (\<lambda>v. case v of None \<Rightarrow> 0 | Some x \<Rightarrow> unat (priced_tokens x))"
    by (simp_all add: fun_eq_iff value_cost_def value_priced_def)
  show "value_cost (sum_component_values vs) = sat64 (sum_list (map value_cost vs))"
    "value_priced (sum_component_values vs) = sat64 (sum_list (map value_priced vs))"
    unfolding 1(1) [THEN arg_cong, of "\<lambda>f. sum_list (map f vs)"] 1(2) [THEN arg_cong, of "\<lambda>f. sum_list (map f vs)"]
      sum_list_options [symmetric]
    by (auto simp: sum_component_values_def fold_merge value_cost_def [of None] value_priced_def [of None] sat64_def
        split: list.split)
qed

abbreviation tokens_of :: "u64 option \<Rightarrow> nat" where
  "tokens_of t \<equiv> unat (unwrap_or t 0)"

lemma component_tokens [simp]:
  "value_tokens (component_value t r) = tokens_of t"
  "value_priced (component_value t r) = (case r of None \<Rightarrow> 0 | Some _ \<Rightarrow> tokens_of t)"
  by (cases t; cases r; simp add: component_value_def value_tokens_def value_priced_def)+

lemma component_priced_le: "value_priced (component_value t r) \<le> tokens_of t"
  by (simp split: option.split)

lemma take_write_known:
  assumes "take_write t (Some r) = (c, rest)"
  obtains r' where "rest = Some r'" "unat c + unat r' = unat r" "c \<le> unwrap_or t 0"
proof -
  have "c \<le> r" and r': "rest = Some (r - c)" and c: "c \<le> unwrap_or t 0"
    using assms by (auto simp: take_write_def Let_def)
  then have "unat c + unat (r - c) = unat r" by (simp add: unat_sub word_le_nat_alt)
  with r' c show thesis by (intro that)
qed

lemma take_write_unknown: "take_write t None = (unwrap_or t 0, None)"
  by (simp add: take_write_def)

lemma sum_components_tokens:
  assumes "sum_list (map value_tokens vs) < 2 ^ 64"
  shows "value_tokens (sum_component_values vs) = sum_list (map value_tokens vs)"
proof -
  have vt: "value_tokens = (\<lambda>v. case v of None \<Rightarrow> 0 | Some x \<Rightarrow> unat (priced_tokens x) + unat (unpriced_tokens x))"
    by (simp add: fun_eq_iff value_tokens_def)
  have sum: "sum_list (map value_tokens vs) =
      sum_list (map (\<lambda>x. unat (priced_tokens x)) (List.map_filter id vs)) +
      sum_list (map (\<lambda>x. unat (unpriced_tokens x)) (List.map_filter id vs))"
    unfolding vt sum_list_options [symmetric] by (simp add: sum_list_addf)
  show ?thesis
  proof (cases "List.map_filter id vs")
    case Nil
    then show ?thesis using sum by (simp add: sum_component_values_def value_tokens_def)
  next
    case (Cons v ws)
    then have "value_tokens (sum_component_values vs) =
        value_priced (Some (fold (\<lambda>x acc. value_merge acc x) ws v)) +
        unat (unpriced_tokens (fold (\<lambda>x acc. value_merge acc x) ws v))"
      by (simp add: sum_component_values_def value_tokens_def value_priced_def)
    also have "\<dots> = sum_list (map value_tokens vs)"
      using assms unfolding fold_merge sum Cons sat64_def by simp
    finally show ?thesis .
  qed
qed

text \<open>The measured tokens of a usage: the input when it was reported, else its cache parts, and the
  output.\<close>

definition measured_tokens :: "api_equivalent_usage \<Rightarrow> nat" where
  "measured_tokens usage =
     sat64 ((case input_tokens usage of Some i \<Rightarrow> unat i
             | None \<Rightarrow> tokens_of (cached_input_tokens usage) + tokens_of (cache_write_5m_tokens usage)
                 + tokens_of (cache_write_1h_tokens usage) + tokens_of (unknown_cache_write_tokens usage))
       + tokens_of (output_tokens usage))"

lemma unat_max: "unat (max (a :: 'a::len word) b) = max (unat a) (unat b)"
  by (simp add: max_def word_le_nat_alt)

lemma split_input:
  assumes "cache_read = unwrap_or (map_option (\<lambda>cached. min cached (unwrap_or input cached)) cached_tokens) 0"
    and "take_write t5 (map_option (\<lambda>i. sat_sub i cache_read) input) = (w5, u1)"
    and "take_write t1 u1 = (w1, u2)" and "take_write tu u2 = (wu, uncached)"
  shows "tokens_of uncached + unat cache_read + unat w5 + unat w1 + unat wu =
      (case input of Some i \<Rightarrow> unat i
       | None \<Rightarrow> tokens_of cached_tokens + tokens_of t5 + tokens_of t1 + tokens_of tu)"
    and "w5 \<le> unwrap_or t5 0" and "w1 \<le> unwrap_or t1 0" and "wu \<le> unwrap_or tu 0"
    and "cache_read \<le> unwrap_or cached_tokens 0"
proof -
  have "tokens_of uncached + unat cache_read + unat w5 + unat w1 + unat wu =
      (case input of Some i \<Rightarrow> unat i
       | None \<Rightarrow> tokens_of cached_tokens + tokens_of t5 + tokens_of t1 + tokens_of tu)
    \<and> w5 \<le> unwrap_or t5 0 \<and> w1 \<le> unwrap_or t1 0 \<and> wu \<le> unwrap_or tu 0
    \<and> cache_read \<le> unwrap_or cached_tokens 0"
  proof (cases input)
    case None
    then show ?thesis
      using assms by (cases cached_tokens) (auto simp: take_write_unknown)
  next
    case (Some i)
    then have read: "cache_read \<le> i" "cache_read \<le> unwrap_or cached_tokens 0"
      using assms(1) by (cases cached_tokens; simp)+
    then have "unat (sat_sub i cache_read) + unat cache_read = unat i"
      by (simp add: unat_sat_sub word_le_nat_alt)
    moreover from assms(2) Some obtain r_long where r_long: "u1 = Some r_long" "unat w5 + unat r_long = unat (sat_sub i cache_read)"
      "w5 \<le> unwrap_or t5 0" by (auto elim: take_write_known)
    moreover from assms(3) r_long(1) obtain r2 where r2: "u2 = Some r2" "unat w1 + unat r2 = unat r_long"
      "w1 \<le> unwrap_or t1 0" by (auto elim: take_write_known)
    moreover from assms(4) r2(1) obtain r3 where "uncached = Some r3" "unat wu + unat r3 = unat r2"
      "wu \<le> unwrap_or tu 0" by (auto elim: take_write_known)
    ultimately show ?thesis using Some read by simp
  qed
  then show "tokens_of uncached + unat cache_read + unat w5 + unat w1 + unat wu =
      (case input of Some i \<Rightarrow> unat i
       | None \<Rightarrow> tokens_of cached_tokens + tokens_of t5 + tokens_of t1 + tokens_of tu)"
    "w5 \<le> unwrap_or t5 0" "w1 \<le> unwrap_or t1 0" "wu \<le> unwrap_or tu 0"
    "cache_read \<le> unwrap_or cached_tokens 0" by simp_all
qed

lemma estimate_parts:
  assumes "estimate_breakdown usage quote = (summary, parts)"
  obtains uncached cache_read w5 w1 wu all_tokens r_short r_long r_any and rates :: token_rate_set where
    "tokens_of uncached + unat cache_read + unat w5 + unat w1 + unat wu =
      (case input_tokens usage of Some i \<Rightarrow> unat i
       | None \<Rightarrow> tokens_of (cached_input_tokens usage) + tokens_of (cache_write_5m_tokens usage)
           + tokens_of (cache_write_1h_tokens usage) + tokens_of (unknown_cache_write_tokens usage))"
    and "tokens_of (map_option (\<lambda>_. cache_read) (cached_input_tokens usage)) = unat cache_read"
    and "tokens_of (map_option (\<lambda>_. w5) (cache_write_5m_tokens usage)) = unat w5"
    and "tokens_of (map_option (\<lambda>_. w1) (cache_write_1h_tokens usage)) = unat w1"
    and "tokens_of (map_option (\<lambda>_. wu) (unknown_cache_write_tokens usage)) = unat wu"
    and "part_uncached_input parts = component_value uncached (rate_input rates)"
    and "part_cache_read parts =
      component_value (map_option (\<lambda>_. cache_read) (cached_input_tokens usage)) (rate_cache_read rates)"
    and "part_cache_write parts = sum_component_values
      [component_value (map_option (\<lambda>_. w5) (cache_write_5m_tokens usage)) r_short,
       component_value (map_option (\<lambda>_. w1) (cache_write_1h_tokens usage)) r_long,
       component_value (map_option (\<lambda>_. wu) (unknown_cache_write_tokens usage)) r_any]"
    and "part_output parts = component_value (output_tokens usage) (rate_output rates)"
    and "part_input parts =
      sum_component_values [part_uncached_input parts, part_cache_read parts, part_cache_write parts]"
    and "summary = unwrap_or (sum_component_values [part_input parts, part_output parts]) zero_value
      \<lparr>unpriced_tokens := sat_sub all_tokens
         (priced_tokens (unwrap_or (sum_component_values [part_input parts, part_output parts]) zero_value))\<rparr>"
    and "unat all_tokens = max (measured_tokens usage) (tokens_of (total_tokens usage))"
proof -
  define cache_read where "cache_read = unwrap_or (map_option (\<lambda>cached. min cached (unwrap_or (input_tokens usage) cached))
    (cached_input_tokens usage)) 0"
  obtain w5 u1 where w5: "take_write (cache_write_5m_tokens usage)
      (map_option (\<lambda>i. sat_sub i cache_read) (input_tokens usage)) = (w5, u1)" by force
  obtain w1 u2 where w1: "take_write (cache_write_1h_tokens usage) u1 = (w1, u2)" by force
  obtain wu uncached where wu: "take_write (unknown_cache_write_tokens usage) u2 = (wu, uncached)" by force
  note parts = split_input [OF cache_read_def w5 w1 wu]
  have zero: "tokens_of (map_option (\<lambda>_. w) t) = unat w" if "w \<le> unwrap_or t 0" for w :: u64 and t :: "u64 option"
    using that by (cases t) auto
  define measured_input where "measured_input = (case input_tokens usage of Some i \<Rightarrow> i
      | None \<Rightarrow> sat_add (sat_add (sat_add cache_read w5) w1) wu)"
  have "unat (sat_add measured_input (unwrap_or (output_tokens usage) 0)) = measured_tokens usage"
  proof (cases "input_tokens usage")
    case None
    then have "uncached = None" using w5 w1 wu by (auto simp: take_write_unknown)
    with None parts(1) show ?thesis
      by (simp add: measured_input_def measured_tokens_def unat_sat_add_64 flip: add.assoc)
  next
    case (Some i)
    then show ?thesis by (simp add: measured_input_def measured_tokens_def unat_sat_add_64)
  qed
  then have all_tokens: "unat (max (unwrap_or (total_tokens usage) (sat_add measured_input (unwrap_or (output_tokens usage) 0)))
      (sat_add measured_input (unwrap_or (output_tokens usage) 0))) =
    max (measured_tokens usage) (tokens_of (total_tokens usage))"
    by (cases "total_tokens usage") (auto simp: unat_max)
  define rates where "rates = unwrap_or (Option.bind quote (\<lambda>q. rates_for q (price_class usage) (context_band usage)))
    EMPTY_RATES"
  show thesis
    by (rule that [where rates = rates and r_short = "opt_or (rate_cache_write_5m rates) (rate_cache_write rates)"
          and r_long = "opt_or (rate_cache_write_1h rates) (rate_cache_write rates)" and r_any = "unsplit_write_rate rates",
        OF parts(1) zero [OF parts(5)] zero [OF parts(2)] zero [OF parts(3)] zero [OF parts(4)] _ _ _ _ _ _ all_tokens])
      (use assms in \<open>auto simp: estimate_breakdown_def Let_def w5 w1 wu measured_input_def rates_def [symmetric]
        simp flip: cache_read_def\<close>)
qed

lemma value_priced_unwrap: "unat (priced_tokens (unwrap_or v zero_value)) = value_priced v"
  by (cases v) (simp_all add: value_priced_def zero_value_def)

lemma value_cost_unwrap: "unat (micro_usd (unwrap_or v zero_value)) = value_cost v"
  by (cases v) (simp_all add: value_cost_def zero_value_def)

lemma sat64_le: "sat64 n \<le> n"
  by (simp add: sat64_def)

lemma sat64_mono: "a \<le> b \<Longrightarrow> sat64 a \<le> sat64 b"
  by (simp add: sat64_def)

text \<open>C10: No token is lost or counted twice: the priced and the unpriced tokens of an estimate are all the
  tokens of the usage, at least the measured ones; the parts of a known input are exactly the input;
  and the parts sum to the estimate in tokens and in cost.\<close>

theorem tokens_accounted:
  "case estimate_breakdown usage quote of (summary, parts) \<Rightarrow>
     unat (priced_tokens summary) + unat (unpriced_tokens summary) =
       max (measured_tokens usage) (tokens_of (total_tokens usage)) \<and>
     (case input_tokens usage of None \<Rightarrow> True
      | Some i \<Rightarrow> value_tokens (part_uncached_input parts) + value_tokens (part_cache_read parts)
          + value_tokens (part_cache_write parts) = unat i) \<and>
     unat (priced_tokens summary) = sat64 (value_priced (part_uncached_input parts)
       + value_priced (part_cache_read parts) + value_priced (part_cache_write parts)
       + value_priced (part_output parts)) \<and>
     unat (micro_usd summary) = sat64 (value_cost (part_uncached_input parts)
       + value_cost (part_cache_read parts) + value_cost (part_cache_write parts)
       + value_cost (part_output parts))"
proof -
  obtain summary parts where run: "estimate_breakdown usage quote = (summary, parts)" by force
  from run obtain uncached cache_read w5 w1 wu all_tokens r_short r_long r_any and rates :: token_rate_set where
    sum: "tokens_of uncached + unat cache_read + unat w5 + unat w1 + unat wu =
      (case input_tokens usage of Some i \<Rightarrow> unat i
       | None \<Rightarrow> tokens_of (cached_input_tokens usage) + tokens_of (cache_write_5m_tokens usage)
           + tokens_of (cache_write_1h_tokens usage) + tokens_of (unknown_cache_write_tokens usage))"
    and w: "tokens_of (map_option (\<lambda>_. cache_read) (cached_input_tokens usage)) = unat cache_read"
      "tokens_of (map_option (\<lambda>_. w5) (cache_write_5m_tokens usage)) = unat w5"
      "tokens_of (map_option (\<lambda>_. w1) (cache_write_1h_tokens usage)) = unat w1"
      "tokens_of (map_option (\<lambda>_. wu) (unknown_cache_write_tokens usage)) = unat wu"
    and p: "part_uncached_input parts = component_value uncached (rate_input rates)"
      "part_cache_read parts =
        component_value (map_option (\<lambda>_. cache_read) (cached_input_tokens usage)) (rate_cache_read rates)"
      "part_cache_write parts = sum_component_values
        [component_value (map_option (\<lambda>_. w5) (cache_write_5m_tokens usage)) r_short,
         component_value (map_option (\<lambda>_. w1) (cache_write_1h_tokens usage)) r_long,
         component_value (map_option (\<lambda>_. wu) (unknown_cache_write_tokens usage)) r_any]"
      "part_output parts = component_value (output_tokens usage) (rate_output rates)"
      "part_input parts =
        sum_component_values [part_uncached_input parts, part_cache_read parts, part_cache_write parts]"
    and s: "summary = unwrap_or (sum_component_values [part_input parts, part_output parts]) zero_value
      \<lparr>unpriced_tokens := sat_sub all_tokens
         (priced_tokens (unwrap_or (sum_component_values [part_input parts, part_output parts]) zero_value))\<rparr>"
    and t: "unat all_tokens = max (measured_tokens usage) (tokens_of (total_tokens usage))"
    by (rule estimate_parts)
  have priced: "unat (priced_tokens summary) = sat64 (value_priced (part_uncached_input parts)
       + value_priced (part_cache_read parts) + value_priced (part_cache_write parts)
       + value_priced (part_output parts))"
    by (simp add: s value_priced_unwrap sum_components p(5) add.assoc)
  have cost: "unat (micro_usd summary) = sat64 (value_cost (part_uncached_input parts)
       + value_cost (part_cache_read parts) + value_cost (part_cache_write parts)
       + value_cost (part_output parts))"
    by (simp add: s value_cost_unwrap sum_components p(5) add.assoc)
  have writes: "value_priced (part_cache_write parts) \<le> unat w5 + unat w1 + unat wu"
    unfolding p(3) sum_components using w by (auto intro!: order.trans [OF sat64_le] split: option.split)
  have "value_priced (part_uncached_input parts) \<le> tokens_of uncached"
    "value_priced (part_cache_read parts) \<le> unat cache_read"
    "value_priced (part_output parts) \<le> tokens_of (output_tokens usage)"
    using component_priced_le w(1) unfolding p by (metis)+
  with writes have "unat (priced_tokens summary) \<le> measured_tokens usage"
    unfolding priced measured_tokens_def sum [symmetric] by (intro sat64_mono) simp
  then have "unat (priced_tokens summary) + unat (unpriced_tokens summary) =
      max (measured_tokens usage) (tokens_of (total_tokens usage))"
    using t by (simp add: s unat_sat_sub)
  moreover have "case input_tokens usage of None \<Rightarrow> True
      | Some i \<Rightarrow> value_tokens (part_uncached_input parts) + value_tokens (part_cache_read parts)
          + value_tokens (part_cache_write parts) = unat i"
  proof (cases "input_tokens usage")
    case (Some i)
    then have i: "tokens_of uncached + unat cache_read + unat w5 + unat w1 + unat wu = unat i"
      using sum by simp
    moreover from this have "unat w5 + unat w1 + unat wu < 2 ^ 64"
      using unat_lt_bound [of i] by simp
    ultimately show ?thesis
      using Some w unfolding p by (simp add: sum_components_tokens)
  qed simp
  ultimately show ?thesis using run priced cost by simp
qed

section \<open>Costs and schedules\<close>

text \<open>A cost is the exact product rounded to the nearest micro-dollar, halves up.\<close>

lemma token_cost_nearest:
  "unat (token_cost tokens rate) = sat64 (nearest (of_nat (unat tokens * unat rate) / of_nat 1000000))"
proof -
  let ?a = "unat tokens * unat rate"
  have "?a \<le> (2 ^ 64 - 1) * (2 ^ 64 - 1)"
    using unat_le_bound [of tokens] unat_le_bound [of rate] by (intro mult_le_mono) simp_all
  then have "min (?a + 500000) (2 ^ 128 - 1) = ?a + 500000" by simp
  moreover have "(?a + 500000) div 1000000 = ?a div 1000000 + (if (1000000 + 1) div 2 \<le> ?a mod 1000000 then 1 else 0)"
  proof -
    have "(m + 500000) div 1000000 = (if 500000 \<le> m then 1 else 0)" if "m < 1000000" for m :: nat
      using that by (auto intro!: div_nat_eqI)
    then show ?thesis by (simp add: div_add1_eq [of ?a 500000 1000000])
  qed
  moreover have "nearest (of_nat ?a / of_nat 1000000) =
      ?a div 1000000 + (if (1000000 + 1) div 2 \<le> ?a mod 1000000 then 1 else 0)"
    by (rule nearest_div) simp_all
  ultimately show ?thesis
    unfolding token_cost_def Let_def unat_sat_of_nat sat64_def by (simp only: len_of_numeral_defs word_size) simp
qed

lemma find_map_highest:
  assumes "sorted_wrt (\<lambda>a b. fst b < fst a) xs"
  shows "find_map (\<lambda>(_, v). g v) (filter (\<lambda>(t, _). P t) xs) = Some y \<longleftrightarrow>
    (\<exists>t v. (t, v) \<in> set xs \<and> P t \<and> g v = Some y \<and>
      (\<forall>(t', v') \<in> set xs. P t' \<and> g v' \<noteq> None \<longrightarrow> t' \<le> (t :: 'a::linorder)))"
  using assms
proof (induction xs)
  case (Cons x xs)
  obtain t v where x: "x = (t, v)" by force
  have below: "t' < t" if "(t', v') \<in> set xs" for t' v'
    using Cons.prems that x by auto
  show ?case
  proof (cases "P t \<and> g v \<noteq> None")
    case True
    then obtain y' where y': "g v = Some y'" by blast
    have lhs: "find_map (\<lambda>(_, v). g v) (filter (\<lambda>(t, _). P t) (x # xs)) = Some y'"
      using True x y' by simp
    have top: "\<forall>(u, w) \<in> set (x # xs). P u \<and> g w \<noteq> None \<longrightarrow> u \<le> t"
      using below x by (auto intro: less_imp_le)
    have unique: "v' = v" if "(t', v') \<in> set (x # xs)" and "\<forall>(u, w) \<in> set (x # xs). P u \<and> g w \<noteq> None \<longrightarrow> u \<le> t'" for t' v'
    proof -
      have "t \<le> t'" using that(2) True x by auto
      with that(1) below [of t' v'] x show ?thesis by auto
    qed
    show ?thesis
    proof
      assume "find_map (\<lambda>(_, v). g v) (filter (\<lambda>(t, _). P t) (x # xs)) = Some y"
      with lhs y' True top x show "\<exists>t v. (t, v) \<in> set (x # xs) \<and> P t \<and> g v = Some y \<and>
          (\<forall>(t', v') \<in> set (x # xs). P t' \<and> g v' \<noteq> None \<longrightarrow> t' \<le> t)"
        by (intro exI [of _ t] exI [of _ v]) simp
    next
      assume "\<exists>t v. (t, v) \<in> set (x # xs) \<and> P t \<and> g v = Some y \<and>
          (\<forall>(t', v') \<in> set (x # xs). P t' \<and> g v' \<noteq> None \<longrightarrow> t' \<le> t)"
      then obtain t' v' where "(t', v') \<in> set (x # xs)" "g v' = Some y"
        "\<forall>(u, w) \<in> set (x # xs). P u \<and> g w \<noteq> None \<longrightarrow> u \<le> t'" by blast
      with unique have "g v = Some y" by blast
      with lhs y' show "find_map (\<lambda>(_, v). g v) (filter (\<lambda>(t, _). P t) (x # xs)) = Some y" by simp
    qed
  next
    case False
    then show ?thesis
      using Cons x by (auto split: option.split)
  qed
qed simp

text \<open>A request is priced by the schedule of the highest published threshold its input exceeds, among
  those that have rates for its class.\<close>

theorem long_context_schedule:
  "context_rates quote (band_from_input_tokens (Some n)) c = Some rates \<longleftrightarrow>
   (\<exists>t l. (t, l) \<in> set (price_context_rates quote) \<and> t < n \<and> band_rates l c = Some rates \<and>
     (\<forall>(t', l') \<in> set (price_context_rates quote). t' < n \<and> band_rates l' c \<noteq> None \<longrightarrow> t' \<le> t))"
proof -
  have desc: "sorted_wrt (\<lambda>a b. fst b < fst a) (rev (price_context_rates quote))"
    by (simp add: price_context_rates_def)
  have exceeded: "filter (\<lambda>(t, _). t \<le> band_threshold (band_from_input_tokens (Some n))) (rev (price_context_rates quote)) =
      filter (\<lambda>(t, _). t < n) (rev (price_context_rates quote))"
    by (intro filter_cong refl)
      (auto simp: price_context_rates_def band_from_input_tokens_def word_nat)
  show ?thesis
    unfolding context_rates_def exceeded find_map_highest [OF desc] by simp
qed

text \<open>What the schedule of a class publishes replaces the base rates of the class, rate by rate.\<close>

lemma rates_for_fields:
  assumes "rates_for quote c band = Some rates" and "class_base quote c = Some base"
    and "f \<in> {rate_input, rate_cache_read, rate_cache_write_5m, rate_cache_write_1h, rate_cache_write, rate_output}"
  shows "f rates = opt_or (Option.bind (context_rates quote band c) f) (f base)"
  using assms by (auto simp: rates_for_def overlay_def Let_def split: option.splits if_splits)

text \<open>Grouping by the stored labels selects the rates the request was observed with.\<close>

theorem stored_labels_roundtrip:
  "with_aggregate_rates usage (observed_label tier) (band_as_label (band_from_input_tokens input)) =
   with_observed_rates usage tier input"
proof -
  have "class_from_label (observed_label tier) = class_from_observed tier"
    by (simp add: observed_label_def class_from_observed_def class_from_label_def Let_def)
  moreover have "band_from_label (band_as_label band) = band" for band
    by (cases band) (simp_all add: band_from_label_def)
  ultimately show ?thesis by (simp add: with_aggregate_rates_def with_observed_rates_def)
qed

section \<open>A concrete quote\<close>

definition dear_rates :: token_rate_set where
  "dear_rates = EMPTY_RATES\<lparr>rate_input := Some 6000000, rate_output := Some 22500000\<rparr>"

definition long_quote :: token_price where
  "long_quote = (token_price_of (plain_override 3000000 (Some 300000) (Some 3750000) (Some 6000000) 15000000))
     \<lparr>above_200k := EMPTY_LONG_CONTEXT\<lparr>lc_standard := dear_rates\<rparr>\<rparr>"

theorem long_context_schedule_witness:
  "context_rates long_quote (band_from_input_tokens (Some 300000)) ClassStandard = Some dear_rates"
proof -
  let ?l = "EMPTY_LONG_CONTEXT\<lparr>lc_standard := dear_rates\<rparr>"
  have "(200000, ?l) \<in> set (price_context_rates long_quote)"
    by (simp add: long_quote_def price_context_rates_def)
  moreover have "band_rates ?l ClassStandard = Some dear_rates"
    by (simp add: band_rates_def rates_is_empty_def dear_rates_def)
  moreover have "\<forall>(t', l') \<in> set (price_context_rates long_quote).
      t' < 300000 \<and> band_rates l' ClassStandard \<noteq> None \<longrightarrow> t' \<le> 200000"
    by (simp add: long_quote_def price_context_rates_def token_price_of_def plain_override_def band_rates_def
        rates_is_empty_def EMPTY_LONG_CONTEXT_def EMPTY_RATES_def)
  moreover have "(200000 :: u64) < 300000" by simp
  ultimately show ?thesis unfolding long_context_schedule by blast
qed

end
