(* ===== verification/PriceCatalog.thy ===== *)
theory PriceCatalog
  imports PriceQuote
begin

text \<open>
  The price catalog: the records of the LiteLLM document (\<open>pricing/litellm_parser.rs\<close>,
  \<open>pricing/catalog.rs\<close>), the immutable snapshot with its index of unambiguous identifiers
  (\<open>pricing/snapshot.rs\<close>), the index by official family (\<open>pricing/lookup.rs\<close>), and the resolution of a
  price for a source or an account (\<open>pricing/resolver.rs\<close>).

  A JSON object is the list of its entries in document order, with distinct keys.  The conflicts are
  only searched, so they are a set.
\<close>

section \<open>Records of the document\<close>

type_synonym 'n json_map = "(string \<times> 'n json) list"

fun as_str :: "'n json \<Rightarrow> string option" where
  "as_str (JString s) = Some s"
| "as_str _ = None"

fun as_object :: "'n json \<Rightarrow> 'n json_map option" where
  "as_object (JObject m) = Some m"
| "as_object _ = None"

definition non_null :: "'n json_map \<Rightarrow> string \<Rightarrow> 'n json option" where
  "non_null entry_of key = opt_filter (\<lambda>v. v \<noteq> JNull) (map_of entry_of key)"

definition bounded :: "u64 \<Rightarrow> pricing_error + u64 option" where
  "bounded price = (if price \<le> MAX_MODEL_PRICE_MICRO_USD_PER_MILLION then Inr (Some price) else Inl Overflow)"

definition optional_token :: "('n \<Rightarrow> string) \<Rightarrow> 'n json_map \<Rightarrow> string \<Rightarrow> pricing_error + u64 option" where
  "optional_token show_number entry_of key =
     (case non_null entry_of key of None \<Rightarrow> Inr None
      | Some raw \<Rightarrow> and_then (usd_per_token_to_micro_usd_per_million show_number raw) bounded)"

definition optional_request :: "('n \<Rightarrow> string) \<Rightarrow> 'n json_map \<Rightarrow> string \<Rightarrow> pricing_error + u64 option" where
  "optional_request show_number entry_of key =
     (case non_null entry_of key of None \<Rightarrow> Inr None
      | Some raw \<Rightarrow> and_then (usd_per_request_to_micro_usd show_number raw) bounded)"

text \<open>The first of the request keys the record has, whatever its value.\<close>

definition request_keys :: "string list" where
  "request_keys = [''input_cost_per_request'', ''output_cost_per_request'', ''cost_per_request'',
     ''request_cost_per_request'']"

definition optional_micro_request :: "('n \<Rightarrow> string) \<Rightarrow> 'n json_map \<Rightarrow> pricing_error + u64 option" where
  "optional_micro_request show_number entry_of =
     (case opt_filter (\<lambda>v. v \<noteq> JNull)
         (case List.map_filter (map_of entry_of) request_keys of [] \<Rightarrow> None | v # _ \<Rightarrow> Some v) of
        None \<Rightarrow> Inr None
      | Some raw \<Rightarrow> and_then (usd_per_request_to_micro_usd show_number raw) bounded)"

definition provider_text :: "'n json_map \<Rightarrow> string option" where
  "provider_text entry_of = map_option trim (Option.bind (map_of entry_of ''litellm_provider'') as_str)"

text \<open>Only Anthropic's own records price a five-minute window; elsewhere the field is the generic tariff.\<close>

definition apply_provider_cache_contract :: "'n json_map \<Rightarrow> token_rate_set \<Rightarrow> token_rate_set" where
  "apply_provider_cache_contract entry_of rates =
     (if map_option to_ascii_lowercase (provider_text entry_of)
           \<in> {Some ''anthropic'', Some ''vertex_ai-anthropic_models''}
      then rates
      else rates\<lparr>rate_cache_write := rate_cache_write_5m rates, rate_cache_write_5m := None\<rparr>)"

definition read_rates ::
  "('n \<Rightarrow> string) \<Rightarrow> 'n json_map \<Rightarrow> string \<Rightarrow> string \<Rightarrow> string \<Rightarrow> string \<Rightarrow> string \<Rightarrow> pricing_error + token_rate_set" where
  "read_rates show_number entry_of input_key read_key short_key long_key output_key =
     and_then (optional_token show_number entry_of input_key) (\<lambda>input.
     and_then (optional_token show_number entry_of read_key) (\<lambda>cache_read.
     and_then (optional_token show_number entry_of short_key) (\<lambda>short_write.
     and_then (optional_token show_number entry_of long_key) (\<lambda>long_write.
     and_then (optional_token show_number entry_of output_key) (\<lambda>output.
       Inr (apply_provider_cache_contract entry_of
         \<lparr>rate_input = input, rate_cache_read = cache_read, rate_cache_write_5m = short_write,
          rate_cache_write_1h = long_write, rate_cache_write = None, rate_output = output\<rparr>))))))"

definition rate_set :: "('n \<Rightarrow> string) \<Rightarrow> 'n json_map \<Rightarrow> string \<Rightarrow> pricing_error + token_rate_set" where
  "rate_set show_number entry_of tier =
     read_rates show_number entry_of (''input_cost_per_token'' @ tier)
       (''cache_read_input_token_cost'' @ tier)
       (''cache_creation_input_token_cost'' @ tier)
       (''cache_creation_input_token_cost_above_1hr'' @ tier)
       (''output_cost_per_token'' @ tier)"

definition long_context_set ::
  "('n \<Rightarrow> string) \<Rightarrow> 'n json_map \<Rightarrow> string \<Rightarrow> string \<Rightarrow> pricing_error + token_rate_set" where
  "long_context_set show_number entry_of threshold tier =
     (let upper = ''_above_'' @ threshold @ ''_tokens'' @ tier in
      read_rates show_number entry_of (''input_cost_per_token'' @ upper)
        (''cache_read_input_token_cost'' @ upper)
        (''cache_creation_input_token_cost'' @ upper)
        (''cache_creation_input_token_cost_above_1hr_above_'' @ threshold @ ''_tokens'' @ tier)
        (''output_cost_per_token'' @ upper))"

definition long_context_rates_of ::
  "('n \<Rightarrow> string) \<Rightarrow> 'n json_map \<Rightarrow> string \<Rightarrow> pricing_error + long_context_rates" where
  "long_context_rates_of show_number entry_of threshold =
     and_then (long_context_set show_number entry_of threshold []) (\<lambda>standard.
     and_then (long_context_set show_number entry_of threshold ''_flex'') (\<lambda>flex.
     and_then (long_context_set show_number entry_of threshold ''_priority'') (\<lambda>priority.
     and_then (long_context_set show_number entry_of threshold ''_ultrafast'') (\<lambda>ultrafast.
       Inr \<lparr>lc_standard = standard, lc_flex = flex, lc_priority = priority, lc_ultrafast = ultrafast\<rparr>))))"

definition parse_token_price ::
  "('n \<Rightarrow> string) \<Rightarrow> 'n json_map \<Rightarrow> pricing_error + token_price option" where
  "parse_token_price show_number entry_of =
     and_then (optional_token show_number entry_of ''input_cost_per_token'') (\<lambda>input_price.
     and_then (optional_token show_number entry_of ''output_cost_per_token'') (\<lambda>output_price.
       (case (input_price, output_price) of
          (Some input, Some output) \<Rightarrow>
            and_then (optional_token show_number entry_of ''cache_read_input_token_cost'') (\<lambda>cache_read.
            and_then (rate_set show_number entry_of []) (\<lambda>standard.
            and_then (rate_set show_number entry_of ''_flex'') (\<lambda>flex.
            and_then (rate_set show_number entry_of ''_priority'') (\<lambda>priority.
            and_then (rate_set show_number entry_of ''_ultrafast'') (\<lambda>ultrafast.
            and_then (long_context_rates_of show_number entry_of ''100k'') (\<lambda>l100.
            and_then (long_context_rates_of show_number entry_of ''128k'') (\<lambda>l128.
            and_then (long_context_rates_of show_number entry_of ''200k'') (\<lambda>l200.
            and_then (long_context_rates_of show_number entry_of ''272k'') (\<lambda>l272.
            and_then (long_context_rates_of show_number entry_of ''512k'') (\<lambda>l512.
              Inr (Some \<lparr>price_input = input, price_cache_read = cache_read,
                price_cache_write_5m = rate_cache_write_5m standard,
                price_cache_write_1h = rate_cache_write_1h standard,
                price_cache_write = rate_cache_write standard, price_output = output,
                price_flex = flex, price_priority = priority, price_ultrafast = ultrafast,
                above_100k = l100, above_128k = l128, above_200k = l200, above_272k = l272,
                above_512k = l512\<rparr>)))))))))))
        | _ \<Rightarrow> Inr None)))"

definition parse_image_price ::
  "('n \<Rightarrow> string) \<Rightarrow> 'n json_map \<Rightarrow> pricing_error + image_model_price option" where
  "parse_image_price show_number entry_of =
     and_then (optional_request show_number entry_of ''output_cost_per_image'') (\<lambda>output.
     and_then (optional_request show_number entry_of ''input_cost_per_image'') (\<lambda>input.
     and_then (optional_token show_number entry_of ''input_cost_per_image_token'') (\<lambda>input_token.
       Inr (if output = None \<and> input = None \<and> input_token = None then None
            else Some \<lparr>input_micro_usd_per_image = input, output_micro_usd_per_image = output,
              input_micro_usd_per_image_token = input_token\<rparr>))))"

record catalog_entry =
  entry_model_id :: string
  entry_provider :: "string option"
  entry_token :: "token_price option"
  entry_image :: "image_model_price option"
  entry_request_micro_usd :: "u64 option"

definition request_priced :: "string \<Rightarrow> string option \<Rightarrow> u64 \<Rightarrow> catalog_entry" where
  "request_priced model_id provider price =
     \<lparr>entry_model_id = model_id, entry_provider = provider, entry_token = None, entry_image = None,
      entry_request_micro_usd = Some price\<rparr>"

definition equivalent_pricing :: "catalog_entry \<Rightarrow> catalog_entry \<Rightarrow> bool" where
  "equivalent_pricing a b =
     (entry_provider a = entry_provider b \<and> entry_token a = entry_token b
      \<and> entry_image a = entry_image b \<and> entry_request_micro_usd a = entry_request_micro_usd b)"

definition parse_entry ::
  "('n \<Rightarrow> string) \<Rightarrow> string \<Rightarrow> 'n json \<Rightarrow> pricing_error + catalog_entry option" where
  "parse_entry show_number model_id pricing_value =
     (case as_object pricing_value of None \<Rightarrow> Inl InvalidRecord
      | Some entry_of \<Rightarrow>
          (let provider = map_option to_ascii_lowercase
                 (opt_filter (\<lambda>name. name \<noteq> []) (provider_text entry_of))
           in and_then (parse_token_price show_number entry_of) (\<lambda>token0.
              and_then (parse_image_price show_number entry_of) (\<lambda>image.
              and_then (optional_micro_request show_number entry_of) (\<lambda>request.
                (let token = opt_filter (\<lambda>quote. price_input quote \<noteq> 0 \<or> price_output quote \<noteq> 0
                       \<or> (image = None \<and> request = None)) token0
                 in if token = None \<and> image = None \<and> request = None then Inr None
                    else if request \<noteq> None \<and> token = None \<and> image = None
                    then Inr (Some (request_priced model_id provider (the request)))
                    else Inr (Some \<lparr>entry_model_id = model_id, entry_provider = provider,
                      entry_token = token, entry_image = image, entry_request_micro_usd = request\<rparr>)))))))"

section \<open>The snapshot\<close>

definition MAX_CACHE_RECORDS :: nat where "MAX_CACHE_RECORDS = 100000"

definition MAX_CACHE_STRING_LENGTH :: nat where "MAX_CACHE_STRING_LENGTH = 1024"

definition bad_key :: "string \<Rightarrow> bool" where
  "bad_key key = (key = [] \<or> MAX_CACHE_STRING_LENGTH < length key)"

definition validate_litellm_payload :: "'n json \<Rightarrow> pricing_error + 'n json_map" where
  "validate_litellm_payload payload =
     (case as_object payload of None \<Rightarrow> Inl InvalidCatalog
      | Some records \<Rightarrow>
          if MAX_CACHE_RECORDS < length records then Inl CacheTooLarge
          else if list_ex (\<lambda>(key, _). bad_key key) records then Inl InvalidCatalog
          else Inr records)"

record catalog_lookup =
  canonical :: "(string, (string, string option) bmap) bmap"
  images :: "(string, image_model_price) bmap"

text \<open>\<open>BTreeMap::entry(key).or_insert(value)\<close>.\<close>

definition or_insert :: "'k::linorder \<Rightarrow> 'v \<Rightarrow> ('k, 'v) bmap \<Rightarrow> ('k, 'v) bmap" where
  "or_insert k v m = (if bcontains m k then m else binsert k v m)"

text \<open>The key of an entry is a key of \<open>entries\<close>, so the index of the code does not panic.\<close>

definition add_canonical ::
  "(string, catalog_entry) bmap \<Rightarrow> string \<Rightarrow> catalog_entry \<Rightarrow> string \<Rightarrow> (string, string option) bmap \<Rightarrow>
   (string, string option) bmap" where
  "add_canonical entries entry_key entry leaf family =
     (case bget family leaf of
        None \<Rightarrow> binsert leaf (Some entry_key) family
      | Some slot \<Rightarrow>
          if is_some_and slot (\<lambda>first. is_some_and (bget entries first) (\<lambda>e. \<not> equivalent_pricing e entry))
          then binsert leaf None family else family)"

definition index_entry ::
  "(string, catalog_entry) bmap \<Rightarrow> string set \<Rightarrow> string \<times> catalog_entry \<Rightarrow> catalog_lookup \<Rightarrow> catalog_lookup" where
  "index_entry entries conflicts keyed lookup0 =
     (case keyed of (entry_key, entry) \<Rightarrow>
       (let normalized = normalize (entry_model_id entry) in
        if normalized \<in> conflicts then lookup0
        else
          (let leaf = unqualified (entry_model_id entry);
               lookup1 = (case entry_provider entry of None \<Rightarrow> lookup0
                 | Some provider \<Rightarrow>
                     lookup0\<lparr>canonical := binsert provider
                       (add_canonical entries entry_key entry leaf
                         (unwrap_or (bget (canonical lookup0) provider) bempty)) (canonical lookup0)\<rparr>)
           in (case entry_image entry of None \<Rightarrow> lookup1
               | Some price \<Rightarrow>
                   lookup1\<lparr>images := or_insert leaf price (or_insert normalized price (images lookup1))\<rparr>))))"

definition build_lookup :: "(string, catalog_entry) bmap \<Rightarrow> string set \<Rightarrow> catalog_lookup" where
  "build_lookup entries conflicts =
     fold (index_entry entries conflicts) (bentries entries) \<lparr>canonical = bempty, images = bempty\<rparr>"

definition canonical_entry_key :: "catalog_lookup \<Rightarrow> string \<Rightarrow> string \<Rightarrow> string option" where
  "canonical_entry_key lookup0 model family =
     Option.bind (bget (canonical lookup0) (normalize family)) (\<lambda>aliases.
     Option.bind (bget aliases (unqualified model)) (\<lambda>slot. slot))"

definition lookup_image :: "catalog_lookup \<Rightarrow> string \<Rightarrow> image_model_price option" where
  "lookup_image lookup0 model = bget (images lookup0) (normalize model)"

record pricing_catalog =
  revision :: "string option"
  fetched_at_ms :: "u64 option"
  stale :: bool
  entries :: "(string, catalog_entry) bmap"
  conflicts :: "string set"
  unique :: "(string, string) bmap"
  lookup :: catalog_lookup

definition empty_catalog :: pricing_catalog where
  "empty_catalog = \<lparr>revision = None, fetched_at_ms = None, stale = False, entries = bempty,
     conflicts = {}, unique = bempty, lookup = \<lparr>canonical = bempty, images = bempty\<rparr>\<rparr>"

text \<open>The loop over the records: the entries so far, the position of each unambiguous key, the conflicts.
  Records that do not parse or have no price are skipped.\<close>

type_synonym catalog_scan = "(string \<times> catalog_entry) list \<times> (string, nat) bmap \<times> string set"

definition add_entry :: "string \<Rightarrow> catalog_entry \<Rightarrow> catalog_scan \<Rightarrow> catalog_scan" where
  "add_entry model_id entry scan =
     (case scan of (catalog_entries, uniques, clashes) \<Rightarrow>
       (let key = normalize model_id in
        (case bget uniques key of
           Some index \<Rightarrow>
             if \<not> equivalent_pricing (snd (catalog_entries ! index)) entry
             then (catalog_entries @ [(model_id, entry)], bremove key uniques, insert key clashes)
             else (catalog_entries @ [(model_id, entry)], uniques, clashes)
         | None \<Rightarrow>
             if key \<notin> clashes
             then (catalog_entries @ [(model_id, entry)], binsert key (length catalog_entries) uniques, clashes)
             else (catalog_entries @ [(model_id, entry)], uniques, clashes))))"

definition scan_record :: "('n \<Rightarrow> string) \<Rightarrow> string \<times> 'n json \<Rightarrow> catalog_scan \<Rightarrow> catalog_scan" where
  "scan_record show_number keyed scan =
     (case keyed of (model_id, pricing_value) \<Rightarrow>
        if MAX_CACHE_STRING_LENGTH < length model_id then scan
        else (case parse_entry show_number model_id pricing_value of
            Inl _ \<Rightarrow> scan
          | Inr None \<Rightarrow> scan
          | Inr (Some entry) \<Rightarrow> add_entry model_id entry scan))"

definition from_litellm_payload ::
  "('n \<Rightarrow> string) \<Rightarrow> 'n json \<Rightarrow> string option \<Rightarrow> u64 option \<Rightarrow> bool \<Rightarrow> pricing_error + pricing_catalog" where
  "from_litellm_payload show_number payload revision0 fetched stale0 =
     and_then (validate_litellm_payload payload) (\<lambda>records.
       (case fold (scan_record show_number) records ([], bempty, {}) of (catalog_entries, uniques, clashes) \<Rightarrow>
          (let entry_map = fold (\<lambda>(model_id, entry). binsert model_id entry) catalog_entries bempty
           in Inr \<lparr>revision = revision0, fetched_at_ms = fetched, stale = stale0, entries = entry_map,
                conflicts = clashes,
                unique = bfilter_map (\<lambda>_ index. Some (fst (catalog_entries ! index))) uniques,
                lookup = build_lookup entry_map clashes\<rparr>)))"

definition image_request_prices :: "pricing_catalog \<Rightarrow> string \<Rightarrow> image_request_price list" where
  "image_request_prices catalog model =
     (case lookup_image (lookup catalog) model of None \<Rightarrow> []
      | Some price \<Rightarrow>
          (case output_micro_usd_per_image price of None \<Rightarrow> []
           | Some p \<Rightarrow> [\<lparr>image_price_operation = ''generation'', image_price_quality = ''default'',
               image_price_size = ''default'', image_price_micro_usd = p\<rparr>]) @
          (case input_micro_usd_per_image price of None \<Rightarrow> []
           | Some p \<Rightarrow> [\<lparr>image_price_operation = ''edit'', image_price_quality = ''default'',
               image_price_size = ''default'', image_price_micro_usd = p\<rparr>]))"

section \<open>Resolution\<close>

definition metadata :: "pricing_catalog \<Rightarrow> string option \<times> u64 option \<times> bool" where
  "metadata catalog = (revision catalog, fetched_at_ms catalog, stale catalog)"

definition resolved :: "pricing_catalog \<Rightarrow> token_price \<Rightarrow> price_source \<Rightarrow> resolved_price" where
  "resolved catalog quote source =
     \<lparr>resolved_quote = Some quote, resolved_source = source, resolved_revision = revision catalog,
      resolved_fetched_at_ms = fetched_at_ms catalog, resolved_stale = stale catalog\<rparr>"

definition official_model_family :: "string \<Rightarrow> string option" where
  "official_model_family model =
     (let model_id = unqualified model in
      if starts_with model_id ''gpt-'' \<or> starts_with model_id ''chatgpt-'' \<or> starts_with model_id ''codex-''
      then Some ''openai''
      else if starts_with model_id ''claude-'' then Some ''anthropic''
      else if starts_with model_id ''gemini-'' then Some ''gemini''
      else if starts_with model_id ''grok-'' then Some ''xai''
      else None)"

definition unique_entry :: "pricing_catalog \<Rightarrow> string \<Rightarrow> catalog_entry option" where
  "unique_entry catalog normalized = Option.bind (bget (unique catalog) normalized) (bget (entries catalog))"

definition canonical_entry :: "pricing_catalog \<Rightarrow> string \<Rightarrow> string \<Rightarrow> catalog_entry option" where
  "canonical_entry catalog model family =
     Option.bind (canonical_entry_key (lookup catalog) model family) (bget (entries catalog))"

definition of_provider :: "string \<Rightarrow> catalog_entry option \<Rightarrow> catalog_entry option" where
  "of_provider provider = opt_filter (\<lambda>e. entry_provider e = Some provider)"

definition exact_entry :: "pricing_catalog \<Rightarrow> string \<Rightarrow> string option \<Rightarrow> catalog_entry option" where
  "exact_entry catalog model provider0 =
     (let normalized = normalize model in
      (case map_option normalize provider0 of
         Some provider \<Rightarrow>
           opt_or (of_provider provider (unique_entry catalog (provider @ ''/'' @ unqualified normalized)))
             (opt_or (of_provider provider (unique_entry catalog normalized))
               (of_provider provider (unique_entry catalog (unqualified normalized))))
       | None \<Rightarrow> unique_entry catalog normalized))"

definition resolve_source ::
  "pricing_catalog \<Rightarrow> string \<Rightarrow> string option \<Rightarrow> string option \<Rightarrow> token_price option \<Rightarrow> token_price option \<Rightarrow>
   resolved_price" where
  "resolve_source catalog model provider declared_family provider_price manual_price =
     (case provider_price of Some price \<Rightarrow> resolved catalog price SourceProvider
      | None \<Rightarrow>
     (case Option.bind (exact_entry catalog model provider) entry_token of
        Some price \<Rightarrow> resolved catalog price LiteLlmExact
      | None \<Rightarrow>
     (case Option.bind (opt_or (official_model_family model) declared_family)
             (\<lambda>family. Option.bind (canonical_entry catalog model family) entry_token) of
        Some price \<Rightarrow> resolved catalog price LiteLlmCanonical
      | None \<Rightarrow>
     (case manual_price of
        None \<Rightarrow> unpriced (metadata catalog)
      | Some price \<Rightarrow> resolved catalog price SourceManual))))"

definition resolve_account :: "pricing_catalog \<Rightarrow> string \<Rightarrow> string option \<Rightarrow> resolved_price" where
  "resolve_account catalog model provider_family =
     (case Option.bind (Option.bind provider_family (canonical_entry catalog model)) entry_token of
        None \<Rightarrow> unpriced (metadata catalog)
      | Some price \<Rightarrow> resolved catalog price LiteLlmCanonical)"

definition official_token_price :: "pricing_catalog \<Rightarrow> string \<Rightarrow> string \<Rightarrow> token_price option" where
  "official_token_price catalog model provider_family =
     resolved_quote (resolve_account catalog model (Some provider_family))"

section \<open>Parsed prices are bounded\<close>

lemma bounded_valid: "bounded p = Inr r \<Longrightarrow> option_is_valid r"
  by (auto simp: bounded_def split: if_splits)

lemma optional_token_valid: "optional_token show_number entry_of key = Inr r \<Longrightarrow> option_is_valid r"
  by (auto simp: optional_token_def and_then_Inr bounded_valid split: option.splits)

lemma contract_valid: "rates_is_valid r \<Longrightarrow> rates_is_valid (apply_provider_cache_contract entry_of r)"
  by (simp add: apply_provider_cache_contract_def rates_is_valid_def)

lemma read_rates_valid:
  "read_rates show_number entry_of a b c d e = Inr r \<Longrightarrow> rates_is_valid r"
  by (auto simp: read_rates_def and_then_Inr intro!: contract_valid)
    (simp add: rates_is_valid_def optional_token_valid)

lemma rate_set_valid: "rate_set show_number entry_of tier = Inr r \<Longrightarrow> rates_is_valid r"
  unfolding rate_set_def by (rule read_rates_valid)

lemma long_context_rates_valid: "long_context_rates_of show_number entry_of threshold = Inr l \<Longrightarrow> long_is_valid l"
  by (auto simp: long_context_rates_of_def long_context_set_def and_then_Inr long_is_valid_def Let_def
      dest: read_rates_valid)

lemma parse_token_price_valid:
  assumes "parse_token_price show_number entry_of = Inr (Some p)"
  shows "price_is_valid p"
proof -
  obtain input_price output_price where
    fields: "optional_token show_number entry_of ''input_cost_per_token'' = Inr input_price"
      "optional_token show_number entry_of ''output_cost_per_token'' = Inr output_price"
    using assms by (auto simp: parse_token_price_def and_then_Inr)
  obtain input out where some: "input_price = Some input" "output_price = Some out"
    using assms fields by (auto simp: parse_token_price_def split: option.splits)
  have "option_is_valid input_price" "option_is_valid output_price"
    using fields optional_token_valid by blast+
  then show ?thesis
    using assms fields some
    by (auto simp: parse_token_price_def and_then_Inr price_is_valid_def
        dest!: rate_set_valid long_context_rates_valid optional_token_valid)
      (auto simp: rates_is_valid_def)
qed

lemma parse_entry_valid:
  assumes "parse_entry show_number model_id v = Inr (Some e)" and "entry_token e = Some p"
  shows "price_is_valid p"
  using assms parse_token_price_valid
  by (auto simp: parse_entry_def and_then_Inr Let_def request_priced_def opt_filter_Some
      split: option.splits if_splits)

lemma parse_entry_id: "parse_entry show_number model_id v = Inr (Some e) \<Longrightarrow> entry_model_id e = model_id"
  by (auto simp: parse_entry_def and_then_Inr Let_def request_priced_def split: option.splits if_splits)

section \<open>The index of unambiguous identifiers\<close>

text \<open>The records of a document that have a price, in document order.\<close>

definition parsed :: "('n \<Rightarrow> string) \<Rightarrow> string \<times> 'n json \<Rightarrow> (string \<times> catalog_entry) option" where
  "parsed show_number keyed =
     (case keyed of (model_id, v) \<Rightarrow>
        if MAX_CACHE_STRING_LENGTH < length model_id then None
        else (case parse_entry show_number model_id v of Inr (Some e) \<Rightarrow> Some (model_id, e) | _ \<Rightarrow> None))"

definition priced_records :: "('n \<Rightarrow> string) \<Rightarrow> 'n json_map \<Rightarrow> (string \<times> catalog_entry) list" where
  "priced_records show_number records = List.map_filter (parsed show_number) records"

lemma scan_priced:
  "fold (scan_record show_number) records scan =
     fold (\<lambda>(model_id, e). add_entry model_id e) (priced_records show_number records) scan"
  by (induction records arbitrary: scan)
    (auto simp: priced_records_def map_filter_simps parsed_def scan_record_def split: sum.splits option.splits)

text \<open>Among keyed values, the first with a property, when all others with the property agree with it.\<close>

definition agreed :: "('b \<Rightarrow> bool) \<Rightarrow> ('b \<Rightarrow> 'b \<Rightarrow> bool) \<Rightarrow> 'b list \<Rightarrow> 'b option" where
  "agreed P same xs =
     (case find P xs of None \<Rightarrow> None
      | Some x \<Rightarrow> if (\<forall>y \<in> set xs. P y \<longrightarrow> same x y) then Some x else None)"

definition disagreed :: "('b \<Rightarrow> bool) \<Rightarrow> ('b \<Rightarrow> 'b \<Rightarrow> bool) \<Rightarrow> 'b list \<Rightarrow> bool" where
  "disagreed P same xs \<longleftrightarrow> find P xs \<noteq> None \<and> agreed P same xs = None"

lemma find_append: "find P (xs @ ys) = (case find P xs of Some x \<Rightarrow> Some x | None \<Rightarrow> find P ys)"
  by (induction xs) auto

lemma find_is: "find P xs = Some x \<Longrightarrow> x \<in> set xs \<and> P x"
  by (induction xs) (auto split: if_splits)

lemma agreed_snoc:
  assumes "\<And>x. same x x"
  shows "agreed P same (xs @ [y]) =
      (if \<not> P y then agreed P same xs
       else (case find P xs of None \<Rightarrow> Some y
             | Some x \<Rightarrow> if same x y then agreed P same xs else None))"
    and "disagreed P same (xs @ [y]) \<longleftrightarrow>
      disagreed P same xs \<or> (P y \<and> (\<exists>x. agreed P same xs = Some x \<and> \<not> same x y))"
  using assms find_None_iff [of P xs]
  by (auto simp: agreed_def disagreed_def find_append split: option.splits if_splits)

lemma agreed_find: "agreed P same xs = Some x \<Longrightarrow> find P xs = Some x"
  by (auto simp: agreed_def split: option.splits if_splits)

lemma agreed_cases: "find P xs = None \<or> disagreed P same xs \<or> (\<exists>x. agreed P same xs = Some x)"
  by (auto simp: disagreed_def)

abbreviation same_price :: "string \<times> catalog_entry \<Rightarrow> string \<times> catalog_entry \<Rightarrow> bool" where
  "same_price a b \<equiv> equivalent_pricing (snd a) (snd b)"

abbreviation keyed_as :: "string \<Rightarrow> string \<times> catalog_entry \<Rightarrow> bool" where
  "keyed_as k r \<equiv> normalize (fst r) = k"

lemma same_price_refl [simp]: "equivalent_pricing a a"
  by (simp add: equivalent_pricing_def)

text \<open>The state of the scan after the records \<open>rs\<close>.\<close>

definition scan_exact :: "(string \<times> catalog_entry) list \<Rightarrow> catalog_scan \<Rightarrow> bool" where
  "scan_exact rs scan \<longleftrightarrow>
     (case scan of (catalog_entries, uniques, clashes) \<Rightarrow>
        catalog_entries = rs \<and>
        (\<forall>k. map_option (nth rs) (bget uniques k) = agreed (keyed_as k) same_price rs) \<and>
        (\<forall>k i. bget uniques k = Some i \<longrightarrow> i < length rs) \<and>
        clashes = {k. disagreed (keyed_as k) same_price rs})"

lemma add_entry_exact:
  assumes "scan_exact rs scan"
  shows "scan_exact (rs @ [(model_id, e)]) (add_entry model_id e scan)"
proof -
  obtain uniques clashes where scan: "scan = (rs, uniques, clashes)"
    and u: "\<And>k. map_option (nth rs) (bget uniques k) = agreed (keyed_as k) same_price rs"
    and i: "\<And>k i. bget uniques k = Some i \<Longrightarrow> i < length rs"
    and c: "clashes = {k. disagreed (keyed_as k) same_price rs}"
    using assms by (cases scan) (auto simp: scan_exact_def)
  let ?k = "normalize model_id" and ?rs = "rs @ [(model_id, e)]"
  note snoc = agreed_snoc [of same_price, OF same_price_refl]
  have old: "map_option (nth ?rs) (bget uniques k) = map_option (nth rs) (bget uniques k)" for k
    using i by (cases "bget uniques k") (auto simp: nth_append)
  consider (fresh) "find (keyed_as ?k) rs = None" | (clash) "disagreed (keyed_as ?k) same_price rs"
    | (known) first where "agreed (keyed_as ?k) same_price rs = Some first"
    using agreed_cases [of "keyed_as ?k" rs same_price] by auto
  then show ?thesis
  proof cases
    case fresh
    then have none: "agreed (keyed_as ?k) same_price rs = None" "\<not> disagreed (keyed_as ?k) same_price rs"
      by (simp_all add: agreed_def disagreed_def)
    then have "bget uniques ?k = None" "?k \<notin> clashes" using u [of ?k] c by auto
    then have "add_entry model_id e scan = (?rs, binsert ?k (length rs) uniques, clashes)"
      by (simp add: add_entry_def scan Let_def)
    then show ?thesis
      using fresh none u i by (auto simp: scan_exact_def snoc old c less_Suc_eq)
  next
    case clash
    then have none: "agreed (keyed_as ?k) same_price rs = None" by (simp add: disagreed_def)
    then have "bget uniques ?k = None" "?k \<in> clashes" using u [of ?k] c clash by auto
    then have "add_entry model_id e scan = (?rs, uniques, clashes)"
      by (simp add: add_entry_def scan Let_def)
    moreover have "agreed (keyed_as k) same_price ?rs = agreed (keyed_as k) same_price rs" for k
      using none clash by (cases "k = ?k") (auto simp: snoc disagreed_def)
    moreover have "disagreed (keyed_as k) same_price ?rs \<longleftrightarrow> disagreed (keyed_as k) same_price rs" for k
      using none by (cases "k = ?k") (auto simp: snoc)
    ultimately show ?thesis
      using u i by (auto simp: scan_exact_def old c less_Suc_eq)
  next
    case known
    then obtain j where j: "bget uniques ?k = Some j" "rs ! j = first" using u [of ?k] by auto
    have found: "find (keyed_as ?k) rs = Some first" using agreed_find [OF known] .
    show ?thesis
    proof (cases "equivalent_pricing (snd first) e")
      case True
      then have "add_entry model_id e scan = (?rs, uniques, clashes)"
        using j by (simp add: add_entry_def scan Let_def)
      with True known found u i show ?thesis
        by (auto simp: scan_exact_def snoc old c less_Suc_eq)
    next
      case False
      then have "add_entry model_id e scan = (?rs, bremove ?k uniques, insert ?k clashes)"
        using j by (simp add: add_entry_def scan Let_def)
      with False known found u i show ?thesis
        by (cases first) (auto simp: scan_exact_def snoc old c less_Suc_eq)
    qed
  qed
qed

lemma scan_exact_run:
  "scan_exact rs (fold (\<lambda>(model_id, e). add_entry model_id e) rs ([], bempty, {}))"
proof (induction rs rule: rev_induct)
  case Nil
  show ?case by (simp add: scan_exact_def agreed_def disagreed_def)
next
  case (snoc r rs)
  then show ?case by (cases r) (simp add: add_entry_exact)
qed

text \<open>The parts of a snapshot.\<close>

lemma from_payload_parts:
  assumes "from_litellm_payload show_number (JObject records) rev0 fetched stale0 = Inr catalog"
    and "rs = priced_records show_number records"
  obtains uniques where "scan_exact rs (rs, uniques, conflicts catalog)"
    and "entries catalog = fold (\<lambda>(model_id, e). binsert model_id e) rs bempty"
    and "unique catalog = bfilter_map (\<lambda>_ index. Some (fst (rs ! index))) uniques"
    and "lookup catalog = build_lookup (entries catalog) (conflicts catalog)"
proof -
  obtain uniques clashes where run: "fold (\<lambda>(model_id, e). add_entry model_id e) rs ([], bempty, {}) = (rs, uniques, clashes)"
    and exact: "scan_exact rs (rs, uniques, clashes)"
    using scan_exact_run [of rs]
    by (cases "fold (\<lambda>(model_id, e). add_entry model_id e) rs ([], bempty, {})") (auto simp: scan_exact_def)
  from assms run have "catalog = \<lparr>revision = rev0, fetched_at_ms = fetched, stale = stale0,
      entries = fold (\<lambda>(model_id, e). binsert model_id e) rs bempty, conflicts = clashes,
      unique = bfilter_map (\<lambda>_ index. Some (fst (rs ! index))) uniques,
      lookup = build_lookup (fold (\<lambda>(model_id, e). binsert model_id e) rs bempty) clashes\<rparr>"
    by (auto simp: from_litellm_payload_def and_then_Inr validate_litellm_payload_def scan_priced Let_def
        split: if_splits)
  with exact show thesis by (intro that) simp_all
qed

lemma parsed_key: "parsed show_number r = Some x \<Longrightarrow> fst x = fst r"
  by (cases r) (auto simp: parsed_def split: if_splits sum.splits option.splits)

lemma priced_records_distinct:
  "distinct (map fst records) \<Longrightarrow> distinct (map fst (priced_records show_number records))"
proof (induction records)
  case (Cons r records)
  have "fst ` set (priced_records show_number records) \<subseteq> fst ` set records"
    by (force simp: priced_records_def List.map_filter_def dest: parsed_key)
  with Cons.prems have "fst r \<notin> fst ` set (priced_records show_number records)" by auto
  with Cons parsed_key [of show_number r] show ?case
    by (cases "parsed show_number r") (simp_all add: priced_records_def map_filter_simps)
qed (simp add: priced_records_def map_filter_simps)

lemma fold_binsert_get:
  "bget (fold (\<lambda>(k, v). binsert k v) rs m) k = (case map_of (rev rs) k of Some v \<Rightarrow> Some v | None \<Rightarrow> bget m k)"
  by (induction rs arbitrary: m) (auto simp: map_add_def split: option.splits)

lemma entries_get:
  assumes "distinct (map fst rs)"
  shows "bget (fold (\<lambda>(k, v). binsert k v) rs bempty) k = Some v \<longleftrightarrow> (k, v) \<in> set rs"
proof -
  have "distinct (map fst (rev rs))" using assms distinct_rev [of "map fst rs"] by (simp only: rev_map)
  then show ?thesis by (auto simp: fold_binsert_get split: option.splits)
      (metis map_of_SomeD set_rev map_of_is_SomeI option.distinct(1) option.inject)+
qed

text \<open>C21: An identifier finds an entry exactly when the document prices it and all spellings of it agree; the
  entry is the first of them.\<close>

theorem unambiguous_index:
  assumes "from_litellm_payload show_number (JObject records) rev0 fetched stale0 = Inr catalog"
    and "distinct (map fst records)"
  shows "unique_entry catalog k =
    map_option snd (agreed (keyed_as k) same_price (priced_records show_number records))"
proof -
  define rs where "rs = priced_records show_number records"
  from from_payload_parts [OF assms(1) rs_def] obtain uniques where
    exact: "scan_exact rs (rs, uniques, conflicts catalog)"
    and entries: "entries catalog = fold (\<lambda>(model_id, e). binsert model_id e) rs bempty"
    and unique: "unique catalog = bfilter_map (\<lambda>_ index. Some (fst (rs ! index))) uniques"
    by blast
  have distinct: "distinct (map fst rs)" using assms(2) priced_records_distinct rs_def by blast
  have known: "map_option (nth rs) (bget uniques k) = agreed (keyed_as k) same_price rs"
    and range: "\<And>i. bget uniques k = Some i \<Longrightarrow> i < length rs"
    using exact by (auto simp: scan_exact_def)
  show ?thesis
  proof (cases "bget uniques k")
    case None
    then show ?thesis using known by (simp add: unique_entry_def unique rs_def)
  next
    case (Some i)
    then have "(fst (rs ! i), snd (rs ! i)) \<in> set rs" using range by simp
    then have "bget (entries catalog) (fst (rs ! i)) = Some (snd (rs ! i))"
      unfolding entries entries_get [OF distinct] .
    with Some show ?thesis
      by (simp add: unique_entry_def unique rs_def [symmetric] known [symmetric])
  qed
qed

section \<open>The index by official family\<close>

definition alias_slot :: "catalog_lookup \<Rightarrow> string \<Rightarrow> string \<Rightarrow> string option option" where
  "alias_slot lookup0 provider leaf =
     Option.bind (bget (canonical lookup0) provider) (\<lambda>aliases. bget aliases leaf)"

text \<open>An entry that stands for a model of a provider, and is not in conflict.\<close>

definition stands_for :: "string set \<Rightarrow> string \<Rightarrow> string \<Rightarrow> string \<times> catalog_entry \<Rightarrow> bool" where
  "stands_for clashes provider leaf r \<longleftrightarrow>
     normalize (entry_model_id (snd r)) \<notin> clashes \<and> entry_provider (snd r) = Some provider
     \<and> unqualified (entry_model_id (snd r)) = leaf"

lemma alias_slot_alt:
  "alias_slot lookup0 provider leaf = bget (unwrap_or (bget (canonical lookup0) provider) bempty) leaf"
  by (cases "bget (canonical lookup0) provider") (simp_all add: alias_slot_def)

lemma alias_slot_images [simp]: "alias_slot (lookup0\<lparr>images := i\<rparr>) = alias_slot lookup0"
  by (simp add: alias_slot_def fun_eq_iff)

lemma alias_slot_index:
  "alias_slot (index_entry entries0 clashes (key, e) lookup0) provider leaf =
     (if stands_for clashes provider leaf (key, e)
      then (case alias_slot lookup0 provider leaf of None \<Rightarrow> Some (Some key)
            | Some slot \<Rightarrow>
                if is_some_and slot (\<lambda>first. is_some_and (bget entries0 first) (\<lambda>f. \<not> equivalent_pricing f e))
                then Some None else Some slot)
      else alias_slot lookup0 provider leaf)"
proof (cases "normalize (entry_model_id e) \<in> clashes")
  case True
  then show ?thesis by (simp add: index_entry_def stands_for_def)
next
  case False
  then show ?thesis
    by (cases "entry_provider e")
      (simp_all add: index_entry_def stands_for_def alias_slot_alt add_canonical_def Let_def alias_slot_images
        split: option.split)
qed

definition slot_exact ::
  "(string, catalog_entry) bmap \<Rightarrow> string set \<Rightarrow> (string \<times> catalog_entry) list \<Rightarrow> catalog_lookup \<Rightarrow> bool" where
  "slot_exact entries0 clashes rs lookup0 \<longleftrightarrow>
     (\<forall>provider leaf. alias_slot lookup0 provider leaf =
        (if find (stands_for clashes provider leaf) rs = None then None
         else Some (map_option fst (agreed (stands_for clashes provider leaf) same_price rs))))"

lemma slot_exact_run:
  assumes "\<forall>(k, e) \<in> set rs. bget entries0 k = Some e"
  shows "slot_exact entries0 clashes rs
    (fold (index_entry entries0 clashes) rs \<lparr>canonical = bempty, images = bempty\<rparr>)"
  using assms
proof (induction rs rule: rev_induct)
  case Nil
  show ?case by (simp add: slot_exact_def alias_slot_def)
next
  case (snoc r rs)
  obtain key e where r: "r = (key, e)" by force
  define lookup0 where "lookup0 = fold (index_entry entries0 clashes) rs \<lparr>canonical = bempty, images = bempty\<rparr>"
  have IH: "slot_exact entries0 clashes rs lookup0" using snoc unfolding lookup0_def by simp
  have snoc_agreed: "agreed P same_price (rs @ [r]) =
      (if \<not> P r then agreed P same_price rs
       else (case find P rs of None \<Rightarrow> Some r
             | Some x \<Rightarrow> if same_price x r then agreed P same_price rs else None))" for P
    by (rule agreed_snoc) simp
  have stored: "bget entries0 (fst x) = Some (snd x)" if "find P rs = Some x" for P x
    using find_is [OF that] snoc.prems by (cases x) auto
  have "alias_slot (index_entry entries0 clashes r lookup0) provider leaf =
      (if find (stands_for clashes provider leaf) (rs @ [r]) = None then None
       else Some (map_option fst (agreed (stands_for clashes provider leaf) same_price (rs @ [r]))))" for provider leaf
  proof -
    let ?P = "stands_for clashes provider leaf"
    have slot: "alias_slot lookup0 provider leaf =
        (if find ?P rs = None then None else Some (map_option fst (agreed ?P same_price rs)))"
      using IH by (simp add: slot_exact_def)
    show ?thesis
    proof (cases "?P r")
      case False
      then show ?thesis
        using slot unfolding r alias_slot_index by (auto simp: snoc_agreed [unfolded r] find_append split: option.split)
    next
      case True
      show ?thesis
      proof (cases "find ?P rs")
        case None
        then show ?thesis
          using True slot unfolding r alias_slot_index by (simp add: snoc_agreed [unfolded r] find_append)
      next
        case (Some x)
        note entry = stored [OF Some]
        show ?thesis
        proof (cases "agreed ?P same_price rs")
          case None
          then show ?thesis
            using True slot Some unfolding r alias_slot_index by (simp add: snoc_agreed [unfolded r] find_append)
        next
          case agree: (Some y)
          then have "y = x" using agreed_find [OF agree] Some by simp
          then show ?thesis
            using True slot Some agree entry unfolding r alias_slot_index
            by (simp add: snoc_agreed [unfolded r] find_append)
        qed
      qed
    qed
  qed
  then show ?case by (simp add: slot_exact_def lookup0_def)
qed

lemma canonical_entry_exact:
  assumes "lookup catalog = build_lookup (entries catalog) (conflicts catalog)"
  shows "canonical_entry catalog model family =
    map_option snd (agreed (stands_for (conflicts catalog) (normalize family) (unqualified model)) same_price
      (bentries (entries catalog)))"
proof -
  let ?P = "stands_for (conflicts catalog) (normalize family) (unqualified model)"
  have "slot_exact (entries catalog) (conflicts catalog) (bentries (entries catalog)) (lookup catalog)"
    unfolding assms build_lookup_def by (rule slot_exact_run) (auto simp: bget_in_entries [symmetric])
  then have slot: "alias_slot (lookup catalog) (normalize family) (unqualified model) =
      (if find ?P (bentries (entries catalog)) = None then None
       else Some (map_option fst (agreed ?P same_price (bentries (entries catalog)))))"
    by (simp add: slot_exact_def)
  have key: "canonical_entry_key (lookup catalog) model family =
      Option.bind (alias_slot (lookup catalog) (normalize family) (unqualified model)) (\<lambda>slot. slot)"
    by (simp add: canonical_entry_key_def alias_slot_def split: Option.bind_splits)
  show ?thesis
  proof (cases "agreed ?P same_price (bentries (entries catalog))")
    case None
    then show ?thesis using slot by (simp add: canonical_entry_def key)
  next
    case (Some x)
    then have found: "find ?P (bentries (entries catalog)) = Some x" by (rule agreed_find)
    then have "(fst x, snd x) \<in> set (bentries (entries catalog))" using find_is [OF found] by simp
    then have "bget (entries catalog) (fst x) = Some (snd x)" unfolding bget_in_entries [symmetric] .
    with Some found slot show ?thesis by (simp add: canonical_entry_def key)
  qed
qed

lemma account_price_exact:
  assumes "from_litellm_payload show_number (JObject records) rev0 fetched stale0 = Inr catalog"
    and "distinct (map fst records)"
  shows "resolved_quote (resolve_account catalog model (Some family)) =
      Option.bind (agreed (stands_for (conflicts catalog) (normalize family) (unqualified model)) same_price
        (bentries (entries catalog))) (\<lambda>r. entry_token (snd r)) \<and>
    conflicts catalog = {k. disagreed (keyed_as k) same_price (priced_records show_number records)} \<and>
    set (bentries (entries catalog)) = set (priced_records show_number records)"
proof -
  define rs where "rs = priced_records show_number records"
  from from_payload_parts [OF assms(1) rs_def] obtain uniques where
    exact: "scan_exact rs (rs, uniques, conflicts catalog)"
    and entries: "entries catalog = fold (\<lambda>(model_id, e). binsert model_id e) rs bempty"
    and index: "lookup catalog = build_lookup (entries catalog) (conflicts catalog)"
    by blast
  have distinct: "distinct (map fst rs)" using assms(2) priced_records_distinct rs_def by blast
  have "set (bentries (entries catalog)) = set rs"
    using entries_get [OF distinct] by (auto simp: entries bget_in_entries [symmetric])
  moreover have "conflicts catalog = {k. disagreed (keyed_as k) same_price rs}"
    using exact by (simp add: scan_exact_def)
  moreover have "resolved_quote (resolve_account catalog model (Some family)) =
      Option.bind (canonical_entry catalog model family) entry_token"
    by (auto simp: resolve_account_def unpriced_def metadata_def resolved_def split: option.split)
  ultimately show ?thesis
    by (auto simp: canonical_entry_exact [OF index] rs_def Option.bind_map_option comp_def split: option.split)
qed

text \<open>C27: An account is priced by the records of its official family alone: the entry of the model that
  comes first there, when all entries of the model agree, and not at all otherwise; identifiers whose
  spellings disagree in the document take no part.\<close>

theorem account_price_official:
  assumes "from_litellm_payload show_number (JObject records) rev0 fetched stale0 = Inr catalog"
    and "distinct (map fst records)"
  shows "resolved_quote (resolve_account catalog model (Some family)) =
      Option.bind (agreed (stands_for (conflicts catalog) (normalize family) (unqualified model)) same_price
        (bentries (entries catalog))) (\<lambda>r. entry_token (snd r)) \<and>
    conflicts catalog = {k. disagreed (keyed_as k) same_price (priced_records show_number records)} \<and>
    set (bentries (entries catalog)) = set (priced_records show_number records)"
  by (rule account_price_exact [OF assms])

lemma entries_priced:
  assumes "from_litellm_payload show_number (JObject records) rev0 fetched stale0 = Inr catalog"
    and "bget (entries catalog) k = Some e"
  shows "(k, e) \<in> set (priced_records show_number records)"
proof -
  from from_payload_parts [OF assms(1) refl]
  have "entries catalog = fold (\<lambda>(model_id, e). binsert model_id e) (priced_records show_number records) bempty"
    by blast
  with assms(2) show ?thesis by (auto simp: fold_binsert_get dest: map_of_SomeD split: option.splits)
qed

lemma entry_token_valid:
  assumes "from_litellm_payload show_number (JObject records) rev0 fetched stale0 = Inr catalog"
    and "bget (entries catalog) k = Some e" and "entry_token e = Some p"
  shows "price_is_valid p"
proof -
  obtain v where "parse_entry show_number k v = Inr (Some e)"
    using entries_priced [OF assms(1,2)]
    by (auto simp: priced_records_def List.map_filter_def parsed_def split: if_splits sum.splits option.splits)
  then show ?thesis using assms(3) by (rule parse_entry_valid)
qed

text \<open>C40: Every quote that is resolved is within the bound on prices, whatever the document says, when the
  operator's and the provider's own prices are.\<close>

theorem resolved_quotes_valid:
  assumes "from_litellm_payload show_number (JObject records) rev0 fetched stale0 = Inr catalog"
    and "is_none_or provider_price price_is_valid" and "is_none_or manual_price price_is_valid"
    and "r = resolve_source catalog model provider family provider_price manual_price
      \<or> r = resolve_account catalog model family"
    and "resolved_quote r = Some quote"
  shows "price_is_valid quote"
proof -
  have unique: "price_is_valid p" if "unique_entry catalog k = Some e" "entry_token e = Some p" for k e p
    using that entry_token_valid [OF assms(1)] by (auto simp: unique_entry_def Option.bind_eq_Some_conv)
  have exact: "price_is_valid p" if "exact_entry catalog model prov = Some e" "entry_token e = Some p" for prov e p
    using that unique
    by (auto simp: exact_entry_def of_provider_def opt_or_def opt_filter_Some Let_def split: option.splits)
  have canonical: "price_is_valid p" if "canonical_entry catalog model f = Some e" "entry_token e = Some p" for f e p
    using that entry_token_valid [OF assms(1)] by (auto simp: canonical_entry_def Option.bind_eq_Some_conv)
  have "price_is_valid quote" if "r = resolve_source catalog model provider family provider_price manual_price"
    using that assms(2,3,5)
    by (auto simp: resolve_source_def resolved_def unpriced_def metadata_def Option.bind_eq_Some_conv
        split: option.splits dest: exact canonical)
  moreover have "price_is_valid quote" if "r = resolve_account catalog model family"
    using that assms(5)
    by (auto simp: resolve_account_def resolved_def unpriced_def metadata_def Option.bind_eq_Some_conv
        split: option.splits dest: canonical)
  ultimately show ?thesis using assms(4) by blast
qed

section \<open>A small document\<close>

definition fields_of :: "string \<Rightarrow> string \<Rightarrow> string json_map" where
  "fields_of provider input = [(''litellm_provider'', JString provider), (''input_cost_per_token'', JString input),
       (''output_cost_per_token'', JNumber ''1e-5'')]"

lemma priced_fields:
  assumes "optional_token (\<lambda>n. n) (fields_of provider input) ''input_cost_per_token'' = Inr (Some p)"
  shows "key \<noteq> ''litellm_provider'' \<Longrightarrow> optional_token (\<lambda>n. n) (fields_of provider input) key =
     Inr (if key = ''input_cost_per_token'' then Some p
      else if key = ''output_cost_per_token'' then Some 10000000 else None)"
proof -
  have "usd_per_token_to_micro_usd_per_million (\<lambda>n. n) (JNumber ''1e-5'') = Inr 10000000" by code_simp
  moreover assume "key \<noteq> ''litellm_provider''"
  ultimately show ?thesis
    using assms
    by (cases "key = ''input_cost_per_token''")
      (simp_all add: optional_token_def non_null_def fields_of_def bounded_def MAX_MODEL_PRICE_MICRO_USD_PER_MILLION_def word_le_nat_alt)
qed

definition plain_price :: "u64 \<Rightarrow> token_price" where
  "plain_price input = token_price_of (plain_override input None None None 10000000)"

lemma priced_fields_price:
  assumes "optional_token (\<lambda>n. n) (fields_of provider input) ''input_cost_per_token'' = Inr (Some p)"
  shows "parse_token_price (\<lambda>n. n) (fields_of provider input) = Inr (Some (plain_price p))"
proof -
  have empty: "apply_provider_cache_contract e (EMPTY_RATES\<lparr>rate_input := a, rate_output := b\<rparr>) =
      EMPTY_RATES\<lparr>rate_input := a, rate_output := b\<rparr>" for e :: "string json_map" and a b
    by (simp add: apply_provider_cache_contract_def EMPTY_RATES_def)
  have read: "read_rates (\<lambda>n. n) (fields_of provider input) k1 k2 k3 k4 k5 =
      Inr (EMPTY_RATES\<lparr>rate_input := a, rate_output := b\<rparr>)"
    if "optional_token (\<lambda>n. n) (fields_of provider input) k1 = Inr a" "optional_token (\<lambda>n. n) (fields_of provider input) k5 = Inr b"
      "optional_token (\<lambda>n. n) (fields_of provider input) k2 = Inr None"
      "optional_token (\<lambda>n. n) (fields_of provider input) k3 = Inr None"
      "optional_token (\<lambda>n. n) (fields_of provider input) k4 = Inr None" for k1 k2 k3 k4 k5 a b
    using that by (simp add: read_rates_def empty [unfolded EMPTY_RATES_def, simplified] EMPTY_RATES_def)
  note field = priced_fields [OF assms]
  have std: "rate_set (\<lambda>n. n) (fields_of provider input) [] = Inr (EMPTY_RATES\<lparr>rate_input := Some p, rate_output := Some 10000000\<rparr>)"
    unfolding rate_set_def by (rule read) (simp_all add: field assms)
  have tiers: "rate_set (\<lambda>n. n) (fields_of provider input) tier = Inr EMPTY_RATES"
    if "tier \<in> {''_flex'', ''_priority'', ''_ultrafast''}" for tier
    unfolding rate_set_def using that by (subst read [of _ None _ None]) (auto simp: field EMPTY_RATES_def)
  have longs: "long_context_rates_of (\<lambda>n. n) (fields_of provider input) threshold = Inr EMPTY_LONG_CONTEXT" for threshold
  proof -
    have "long_context_set (\<lambda>n. n) (fields_of provider input) threshold tier = Inr EMPTY_RATES" for tier
      unfolding long_context_set_def Let_def by (subst read [of _ None _ None]) (auto simp: field EMPTY_RATES_def)
    then show ?thesis by (simp add: long_context_rates_of_def EMPTY_LONG_CONTEXT_def)
  qed
  show ?thesis
    by (simp add: parse_token_price_def std tiers longs field assms plain_price_def plain_override_def token_price_of_def EMPTY_RATES_def)
qed
definition priced_model :: "string \<Rightarrow> string \<Rightarrow> string json" where
  "priced_model provider input = JObject (fields_of provider input)"

lemma priced_model_entry:
  assumes "optional_token (\<lambda>n. n) (fields_of provider input) ''input_cost_per_token'' = Inr (Some p)"
    and "trim provider \<noteq> []"
  shows "parse_entry (\<lambda>n. n) model_id (priced_model provider input) =
    Inr (Some \<lparr>entry_model_id = model_id, entry_provider = Some (to_ascii_lowercase (trim provider)),
      entry_token = Some (plain_price p), entry_image = None, entry_request_micro_usd = None\<rparr>)"
proof -
  have absent: "map_of (fields_of provider input) key = None"
    if "key \<notin> {''litellm_provider'', ''input_cost_per_token'', ''output_cost_per_token''}" for key
    using that by (simp add: fields_of_def)
  have "provider_text (fields_of provider input) = Some (trim provider)"
    by (simp add: provider_text_def fields_of_def)
  moreover have "parse_image_price (\<lambda>n. n) (fields_of provider input) = Inr None"
    by (simp add: parse_image_price_def optional_request_def optional_token_def non_null_def absent)
  moreover have "optional_micro_request (\<lambda>n. n) (fields_of provider input) = Inr None"
    by (simp add: optional_micro_request_def request_keys_def map_filter_simps absent)
  moreover have "price_output (plain_price p) \<noteq> 0"
    by (simp add: plain_price_def plain_override_def token_price_of_def)
  ultimately show ?thesis
    using assms(2) by (simp add: parse_entry_def priced_model_def priced_fields_price [OF assms(1)] Let_def)
qed

definition small_document :: "string json_map" where
  "small_document =
     [(''gpt-x'', priced_model ''openai'' ''2e-6''), (''GPT-X'', priced_model ''OpenAI'' ''0.000002''),
      (''mixed'', priced_model ''openai'' ''2e-6''), (''Mixed'', priced_model ''openai'' ''3e-6''),
      (''vendor/gpt-x'', priced_model ''vendor'' ''9e-6'')]"

lemma small_document_loads:
  "\<exists>catalog. from_litellm_payload (\<lambda>n. n) (JObject small_document) None None False = Inr catalog"
proof -
  have "validate_litellm_payload (JObject small_document) = Inr small_document" by code_simp
  then show ?thesis by (simp add: from_litellm_payload_def Let_def split: prod.split)
qed

lemma small_document_distinct: "distinct (map fst small_document)"
  by (simp add: small_document_def)

definition small_entry :: "string \<Rightarrow> string \<Rightarrow> u64 \<Rightarrow> string \<times> catalog_entry" where
  "small_entry model_id provider p =
     (model_id, \<lparr>entry_model_id = model_id, entry_provider = Some provider, entry_token = Some (plain_price p),
        entry_image = None, entry_request_micro_usd = None\<rparr>)"

definition small_entries :: "(string \<times> catalog_entry) list" where
  "small_entries = [small_entry ''gpt-x'' ''openai'' 2000000, small_entry ''GPT-X'' ''openai'' 2000000,
     small_entry ''mixed'' ''openai'' 2000000, small_entry ''Mixed'' ''openai'' 3000000,
     small_entry ''vendor/gpt-x'' ''vendor'' 9000000]"

lemma small_document_priced: "priced_records (\<lambda>n. n) small_document = small_entries"
proof -
  have input: "optional_token (\<lambda>n. n) (fields_of ''openai'' ''2e-6'') ''input_cost_per_token'' = Inr (Some 2000000)"
    "optional_token (\<lambda>n. n) (fields_of ''OpenAI'' ''0.000002'') ''input_cost_per_token'' = Inr (Some 2000000)"
    "optional_token (\<lambda>n. n) (fields_of ''openai'' ''3e-6'') ''input_cost_per_token'' = Inr (Some 3000000)"
    "optional_token (\<lambda>n. n) (fields_of ''vendor'' ''9e-6'') ''input_cost_per_token'' = Inr (Some 9000000)"
    by code_simp+
  have names: "trim ''openai'' = ''openai''" "trim ''OpenAI'' = ''OpenAI''" "trim ''vendor'' = ''vendor''"
    "to_ascii_lowercase ''openai'' = ''openai''" "to_ascii_lowercase ''OpenAI'' = ''openai''"
    "to_ascii_lowercase ''vendor'' = ''vendor''"
    by code_simp+
  show ?thesis
    by (simp add: priced_records_def small_document_def small_entries_def small_entry_def map_filter_simps parsed_def
        MAX_CACHE_STRING_LENGTH_def input [THEN priced_model_entry] names)
qed

lemma small_entries_agree:
  "map_option (\<lambda>r. entry_model_id (snd r)) (agreed (keyed_as ''gpt-x'') same_price small_entries) = Some ''gpt-x''"
  "agreed (keyed_as ''mixed'') same_price small_entries = None"
  "disagreed (keyed_as ''mixed'') same_price small_entries"
  "\<not> disagreed (keyed_as ''gpt-x'') same_price small_entries"
  by code_simp+

theorem unambiguous_index_witness:
  "\<exists>catalog. from_litellm_payload (\<lambda>n. n) (JObject small_document) None None False = Inr catalog \<and>
     map_option entry_model_id (unique_entry catalog ''gpt-x'') = Some ''gpt-x'' \<and>
     unique_entry catalog ''mixed'' = None"
proof -
  obtain catalog where load: "from_litellm_payload (\<lambda>n. n) (JObject small_document) None None False = Inr catalog"
    using small_document_loads by blast
  show ?thesis
    using load unambiguous_index [OF load small_document_distinct] small_entries_agree(1,2)
    by (auto simp: small_document_priced option.map_comp comp_def)
qed

text \<open>The entries in the order of their keys, and what stands for the models there.\<close>

lemma small_catalog:
  assumes "from_litellm_payload (\<lambda>n. n) (JObject small_document) None None False = Inr catalog"
  shows "bentries (entries catalog) =
      [small_entry ''GPT-X'' ''openai'' 2000000, small_entry ''Mixed'' ''openai'' 3000000,
       small_entry ''gpt-x'' ''openai'' 2000000, small_entry ''mixed'' ''openai'' 2000000,
       small_entry ''vendor/gpt-x'' ''vendor'' 9000000]"
    and "stands_for {k. disagreed (keyed_as k) same_price small_entries} ''openai'' leaf (small_entry model_id provider p)
      \<longleftrightarrow> \<not> disagreed (keyed_as (normalize model_id)) same_price small_entries \<and> provider = ''openai''
        \<and> unqualified model_id = leaf"
proof -
  from from_payload_parts [OF assms refl]
  have "entries catalog = fold (\<lambda>(model_id, e). binsert model_id e) small_entries bempty"
    unfolding small_document_priced by blast
  then show "bentries (entries catalog) =
      [small_entry ''GPT-X'' ''openai'' 2000000, small_entry ''Mixed'' ''openai'' 3000000,
       small_entry ''gpt-x'' ''openai'' 2000000, small_entry ''mixed'' ''openai'' 2000000,
       small_entry ''vendor/gpt-x'' ''vendor'' 9000000]"
    by (simp add: small_entries_def small_entry_def list_less_def)
  show "stands_for {k. disagreed (keyed_as k) same_price small_entries} ''openai'' leaf (small_entry model_id provider p)
      \<longleftrightarrow> \<not> disagreed (keyed_as (normalize model_id)) same_price small_entries \<and> provider = ''openai''
        \<and> unqualified model_id = leaf"
    by (simp add: stands_for_def small_entry_def)
qed

lemma small_names:
  "normalize ''GPT-X'' = ''gpt-x''" "normalize ''Mixed'' = ''mixed''" "normalize ''gpt-x'' = ''gpt-x''"
  "normalize ''mixed'' = ''mixed''" "normalize ''OpenAI'' = ''openai''"
  "unqualified ''GPT-X'' = ''gpt-x''" "unqualified ''gpt-x'' = ''gpt-x''" "unqualified ''mixed'' = ''mixed''"
  "unqualified ''Mixed'' = ''mixed''"
  by code_simp+

lemma small_stand_for:
  assumes "from_litellm_payload (\<lambda>n. n) (JObject small_document) None None False = Inr catalog"
  shows "agreed (stands_for {k. disagreed (keyed_as k) same_price small_entries} ''openai'' ''gpt-x'') same_price
      (bentries (entries catalog)) = Some (small_entry ''GPT-X'' ''openai'' 2000000)"
    and "agreed (stands_for {k. disagreed (keyed_as k) same_price small_entries} ''openai'' ''mixed'') same_price
      (bentries (entries catalog)) = None"
  using small_entries_agree(3,4)
  by (simp_all add: agreed_def small_catalog [OF assms] small_names) (simp add: small_entry_def equivalent_pricing_def)

theorem account_price_official_witness:
  "\<exists>catalog. from_litellm_payload (\<lambda>n. n) (JObject small_document) None None False = Inr catalog \<and>
     resolved_quote (resolve_account catalog ''gpt-x'' (Some ''OpenAI'')) = Some (plain_price 2000000) \<and>
     resolved_quote (resolve_account catalog ''mixed'' (Some ''OpenAI'')) = None"
proof -
  obtain catalog where load: "from_litellm_payload (\<lambda>n. n) (JObject small_document) None None False = Inr catalog"
    using small_document_loads by blast
  note quote = account_price_official [OF load small_document_distinct, of _ "''OpenAI''", unfolded small_document_priced]
  show ?thesis
    using load quote [of "''gpt-x''"] quote [of "''mixed''"] small_stand_for [OF load]
    by (auto simp: small_names small_entry_def)
qed

theorem resolved_quotes_valid_witness: "price_is_valid (plain_price 2000000)"
proof -
  obtain catalog where load: "from_litellm_payload (\<lambda>n. n) (JObject small_document) None None False = Inr catalog"
    using small_document_loads by blast
  have "resolved_quote (resolve_account catalog ''gpt-x'' (Some ''OpenAI'')) = Some (plain_price 2000000)"
    using account_price_exact [OF load small_document_distinct, of "''gpt-x''" "''OpenAI''", unfolded small_document_priced]
      small_stand_for(1) [OF load] by (simp add: small_names small_entry_def)
  then show ?thesis
    by (intro resolved_quotes_valid [OF load, of None None _ "''gpt-x''" None "Some ''OpenAI''"]) simp_all
qed

end
