(* ===== verification/PriceLoader.thy ===== *)
theory PriceLoader
  imports PriceCatalog
begin

text \<open>
  The loader of the price catalog: the cache envelope (\<open>pricing/catalog.rs\<close>), the loader and its
  retries (\<open>pricing/loader.rs\<close>), a refresh (\<open>pricing/loader/refresh.rs\<close>), the cache file
  (\<open>pricing/loader/store.rs\<close>) and the schedule (\<open>pricing/schedule.rs\<close>).

  Parameters stand for code outside the repository: \<open>show_number\<close> prints a JSON number, \<open>serialize\<close>
  prints a JSON value, \<open>sha256\<close> is the hexadecimal digest.  What the environment does in a refresh (the
  clock, the response, the outcome of writing the file) is an argument of the step.  A refresh holds
  the lock of the loader, so it is one step; the file holds the last envelope written.
\<close>

section \<open>Envelopes\<close>

definition LITELLM_SOURCE_URL :: string where
  "LITELLM_SOURCE_URL =
     ''https://raw.githubusercontent.com/BerriAI/litellm/main/model_prices_and_context_window.json''"

definition CACHE_FORMAT :: string where "CACHE_FORMAT = ''zenith-relay-litellm-cache''"

definition CACHE_SCHEMA_VERSION :: u32 where "CACHE_SCHEMA_VERSION = 1"

definition MAX_CACHE_BYTES :: nat where "MAX_CACHE_BYTES = 16 * 1024 * 1024"

record 'p pricing_cache_envelope =
  env_format :: string
  env_schema_version :: u32
  env_source_url :: string
  env_revision :: string
  env_etag :: "string option"
  env_last_modified :: "string option"
  env_fetched_at_ms :: u64
  env_payload_sha256 :: string
  env_stale :: bool
  env_payload :: 'p

type_synonym retained = "string pricing_cache_envelope"

definition header_is_valid :: "'p pricing_cache_envelope \<Rightarrow> bool" where
  "header_is_valid env =
     (\<not> (env_format env \<noteq> CACHE_FORMAT \<or> env_schema_version env \<noteq> CACHE_SCHEMA_VERSION
         \<or> env_source_url env \<noteq> LITELLM_SOURCE_URL \<or> trim (env_revision env) = []
         \<or> env_fetched_at_ms env = 0
         \<or> MAX_CACHE_STRING_LENGTH < length (env_revision env)
         \<or> MAX_CACHE_STRING_LENGTH < length (env_source_url env)
         \<or> is_some_and (env_etag env) (\<lambda>t. MAX_CACHE_STRING_LENGTH < length t)
         \<or> is_some_and (env_last_modified env) (\<lambda>t. MAX_CACHE_STRING_LENGTH < length t)))"

definition validate_header :: "'p pricing_cache_envelope \<Rightarrow> pricing_error + unit" where
  "validate_header env = (if header_is_valid env then Inr () else Inl InvalidCache)"

definition json_fingerprint :: "('n json \<Rightarrow> string option) \<Rightarrow> (string \<Rightarrow> string) \<Rightarrow> 'n json \<Rightarrow> (string \<times> nat) option" where
  "json_fingerprint serialize sha256 v =
     map_option (\<lambda>text. (''sha256:'' @ sha256 text, length text)) (serialize v)"

definition payload_hash :: "('n json \<Rightarrow> string option) \<Rightarrow> (string \<Rightarrow> string) \<Rightarrow> 'n json \<Rightarrow> pricing_error + string" where
  "payload_hash serialize sha256 v =
     (case json_fingerprint serialize sha256 v of None \<Rightarrow> Inl InvalidCache | Some (hash, _) \<Rightarrow> Inr hash)"

definition validate_envelope ::
  "('n json \<Rightarrow> string option) \<Rightarrow> (string \<Rightarrow> string) \<Rightarrow> 'n json pricing_cache_envelope \<Rightarrow> pricing_error + unit" where
  "validate_envelope serialize sha256 env =
     and_then (validate_header env) (\<lambda>_.
       (case json_fingerprint serialize sha256 (env_payload env) of None \<Rightarrow> Inl InvalidCache
        | Some (hash, bytes) \<Rightarrow>
            if MAX_CACHE_BYTES < bytes then Inl CacheTooLarge
            else (case as_object (env_payload env) of None \<Rightarrow> Inl InvalidCache
              | Some records \<Rightarrow>
                  if MAX_CACHE_RECORDS < length records then Inl CacheTooLarge
                  else if list_ex (\<lambda>(key, _). bad_key key) records then Inl InvalidCache
                  else if hash \<noteq> env_payload_sha256 env then Inl InvalidCache
                  else Inr ())))"

definition new_envelope ::
  "('n json \<Rightarrow> string option) \<Rightarrow> (string \<Rightarrow> string) \<Rightarrow> 'n json \<Rightarrow> string \<Rightarrow> u64 \<Rightarrow>
   pricing_error + 'n json pricing_cache_envelope" where
  "new_envelope serialize sha256 payload rev0 fetched =
     and_then (payload_hash serialize sha256 payload) (\<lambda>hash.
       (let env = \<lparr>env_format = CACHE_FORMAT, env_schema_version = CACHE_SCHEMA_VERSION,
              env_source_url = LITELLM_SOURCE_URL, env_revision = rev0, env_etag = None,
              env_last_modified = None, env_fetched_at_ms = fetched, env_payload_sha256 = hash,
              env_stale = False, env_payload = payload\<rparr>
        in and_then (validate_envelope serialize sha256 env) (\<lambda>_. Inr env)))"

definition envelope_catalog ::
  "('n \<Rightarrow> string) \<Rightarrow> ('n json \<Rightarrow> string option) \<Rightarrow> (string \<Rightarrow> string) \<Rightarrow> 'n json pricing_cache_envelope \<Rightarrow>
   pricing_error + pricing_catalog" where
  "envelope_catalog show_number serialize sha256 env =
     and_then (validate_envelope serialize sha256 env) (\<lambda>_.
       from_litellm_payload show_number (env_payload env) (Some (env_revision env))
         (Some (env_fetched_at_ms env)) (env_stale env))"

definition into_compact :: "('n json \<Rightarrow> string option) \<Rightarrow> 'n json pricing_cache_envelope \<Rightarrow> pricing_error + retained" where
  "into_compact serialize env =
     (case serialize (env_payload env) of None \<Rightarrow> Inl InvalidCache
      | Some text \<Rightarrow>
          Inr \<lparr>env_format = env_format env, env_schema_version = env_schema_version env,
            env_source_url = env_source_url env, env_revision = env_revision env,
            env_etag = env_etag env, env_last_modified = env_last_modified env,
            env_fetched_at_ms = env_fetched_at_ms env, env_payload_sha256 = env_payload_sha256 env,
            env_stale = env_stale env, env_payload = text\<rparr>)"

section \<open>Schedule\<close>

definition PRICING_REFRESH_INTERVAL_SECONDS :: u64 where "PRICING_REFRESH_INTERVAL_SECONDS = 24 * 60 * 60"

definition PRICING_REFRESH_JITTER_MAX_SECONDS :: u64 where "PRICING_REFRESH_JITTER_MAX_SECONDS = 60"

datatype catalog_refresh_kind = StartupRefresh | RetryRefresh | ScheduledRefresh

record catalog_refresh_deadline =
  at_ms :: u64
  refresh_kind :: catalog_refresh_kind

text \<open>\<open>digest\<close> is the SHA-256 digest as bytes.\<close>

definition pricing_refresh_jitter_seconds :: "(string \<Rightarrow> nat list) \<Rightarrow> string \<Rightarrow> u64" where
  "pricing_refresh_jitter_seconds digest instance_id =
     from_le_bytes (take 8 (digest instance_id)) mod (PRICING_REFRESH_JITTER_MAX_SECONDS + 1)"

definition pricing_refresh_delay :: "(string \<Rightarrow> nat list) \<Rightarrow> string \<Rightarrow> catalog_refresh_deadline \<Rightarrow> u64 \<Rightarrow> duration" where
  "pricing_refresh_delay digest instance_id deadline now_ms =
     (let jitter_ms = (case refresh_kind deadline of
            ScheduledRefresh \<Rightarrow> sat_mul (pricing_refresh_jitter_seconds digest instance_id) 1000
          | StartupRefresh \<Rightarrow> 0 | RetryRefresh \<Rightarrow> 0);
          wake_at_ms = sat_add (at_ms deadline) jitter_ms
      in from_millis (sat_sub wake_at_ms now_ms))"

section \<open>The loader\<close>

definition DEFAULT_CATALOG_MAX_AGE_MS :: u64 where
  "DEFAULT_CATALOG_MAX_AGE_MS = PRICING_REFRESH_INTERVAL_SECONDS * 1000"

datatype catalog_status = StatusCurrent | StatusStale | StatusUpdating | StatusUnloaded | StatusError

datatype catalog_refresh_outcome = Updated string | NotModified string | Skipped

datatype catalog_io_error = IoTooLarge | IoFailed | IoNetwork | IoInvalidJson

fun map_catalog_io_error :: "catalog_io_error \<Rightarrow> bool \<Rightarrow> pricing_error" where
  "map_catalog_io_error IoTooLarge cache = CacheTooLarge"
| "map_catalog_io_error IoFailed cache = PricingIo"
| "map_catalog_io_error IoNetwork cache = PricingNetwork"
| "map_catalog_io_error IoInvalidJson cache = (if cache then InvalidCache else InvalidCatalog)"

record refresh_retry_state =
  consecutive_failures :: u32
  next_retry_at_ms :: "u64 option"

definition default_retry :: refresh_retry_state where
  "default_retry = \<lparr>consecutive_failures = 0, next_retry_at_ms = None\<rparr>"

definition retry_delay_ms :: "u32 \<Rightarrow> u64" where
  "retry_delay_ms failures =
     (if failures = 0 then 0
      else if failures = 1 then 5 * 60 * 1000
      else if failures = 2 then 30 * 60 * 1000
      else 2 * 60 * 60 * 1000)"

definition allows_attempt :: "refresh_retry_state \<Rightarrow> u64 \<Rightarrow> bool" where
  "allows_attempt r now_ms = is_none_or (next_retry_at_ms r) (\<lambda>retry_at. retry_at \<le> now_ms)"

definition record_failure :: "u64 \<Rightarrow> refresh_retry_state \<Rightarrow> refresh_retry_state" where
  "record_failure now_ms r =
     (let failures = sat_add (consecutive_failures r) 1
      in \<lparr>consecutive_failures = failures,
          next_retry_at_ms = Some (sat_add now_ms (retry_delay_ms failures))\<rparr>)"

definition is_stale :: "u64 \<Rightarrow> u64 \<Rightarrow> u64 \<Rightarrow> bool" where
  "is_stale fetched now_ms max_age = (fetched = 0 \<or> max_age \<le> sat_sub now_ms fetched)"

definition envelope_is_stale :: "'p pricing_cache_envelope \<Rightarrow> u64 \<Rightarrow> u64 \<Rightarrow> bool" where
  "envelope_is_stale env now_ms max_age =
     (env_stale env \<or> is_stale (env_fetched_at_ms env) now_ms max_age)"

record loader =
  cache_file :: "retained option"
  handle :: pricing_catalog
  envelope :: "retained option"
  status :: catalog_status
  last_error :: "pricing_error option"
  retry_state :: refresh_retry_state
  startup_refresh_pending :: bool
  max_age_ms :: u64

text \<open>What reading the cache file gives: the envelope that is there, as parsed, or an error.\<close>

definition read_catalog ::
  "('n \<Rightarrow> string) \<Rightarrow> ('n json \<Rightarrow> string option) \<Rightarrow> (string \<Rightarrow> string) \<Rightarrow>
   catalog_io_error + 'n json pricing_cache_envelope option \<Rightarrow>
   pricing_error + ('n json pricing_cache_envelope \<times> pricing_catalog) option" where
  "read_catalog show_number serialize sha256 read_result =
     (case read_result of Inl e \<Rightarrow> Inl (map_catalog_io_error e True)
      | Inr None \<Rightarrow> Inr None
      | Inr (Some env) \<Rightarrow>
          and_then (envelope_catalog show_number serialize sha256 env) (\<lambda>catalog. Inr (Some (env, catalog))))"

definition open_with_max_age ::
  "('n \<Rightarrow> string) \<Rightarrow> ('n json \<Rightarrow> string option) \<Rightarrow> (string \<Rightarrow> string) \<Rightarrow>
   catalog_io_error + 'n json pricing_cache_envelope option \<Rightarrow> retained option \<Rightarrow> bool \<Rightarrow> u64 \<Rightarrow> u64 \<Rightarrow>
   pricing_error + loader" where
  "open_with_max_age show_number serialize sha256 read_result file client_builds now_ms max_age =
     and_then
       (case read_catalog show_number serialize sha256 read_result of
          Inr (Some (env, catalog)) \<Rightarrow>
            and_then (into_compact serialize env) (\<lambda>kept.
              Inr (catalog, Some kept, None,
                if envelope_is_stale env now_ms max_age then StatusStale else StatusCurrent))
        | Inr None \<Rightarrow> Inr (empty_catalog, None, None, StatusUnloaded)
        | Inl e \<Rightarrow> Inr (empty_catalog, None, Some e, StatusError))
       (\<lambda>(catalog, env, initial_error, state).
         if \<not> client_builds then Inl PricingNetwork
         else Inr \<lparr>cache_file = file, handle = catalog, envelope = env, status = state,
           last_error = initial_error, retry_state = default_retry, startup_refresh_pending = True,
           max_age_ms = max_age\<rparr>)"

definition retry_allows_attempt :: "loader \<Rightarrow> u64 \<Rightarrow> bool" where
  "retry_allows_attempt l now_ms = allows_attempt (retry_state l) now_ms"

definition refresh_due :: "loader \<Rightarrow> u64 \<Rightarrow> bool" where
  "refresh_due l now_ms =
     (let catalog_due = is_none_or (envelope l) (\<lambda>env. envelope_is_stale env now_ms (max_age_ms l))
      in (startup_refresh_pending l \<or> catalog_due) \<and> retry_allows_attempt l now_ms)"

definition next_refresh_deadline :: "loader \<Rightarrow> u64 \<Rightarrow> catalog_refresh_deadline" where
  "next_refresh_deadline l now_ms =
     (case next_retry_at_ms (retry_state l) of
        Some retry_at \<Rightarrow> \<lparr>at_ms = retry_at, refresh_kind = RetryRefresh\<rparr>
      | None \<Rightarrow>
          if startup_refresh_pending l then \<lparr>at_ms = now_ms, refresh_kind = StartupRefresh\<rparr>
          else (case envelope l of
              None \<Rightarrow> \<lparr>at_ms = now_ms, refresh_kind = ScheduledRefresh\<rparr>
            | Some env \<Rightarrow>
                if envelope_is_stale env now_ms (max_age_ms l)
                then \<lparr>at_ms = now_ms, refresh_kind = ScheduledRefresh\<rparr>
                else \<lparr>at_ms = sat_add (env_fetched_at_ms env) (max_age_ms l), refresh_kind = ScheduledRefresh\<rparr>))"

definition set_status :: "catalog_status \<Rightarrow> pricing_error option \<Rightarrow> loader \<Rightarrow> loader" where
  "set_status state e l = l\<lparr>status := state, last_error := e\<rparr>"

definition record_refresh_failure :: "u64 \<Rightarrow> loader \<Rightarrow> loader" where
  "record_refresh_failure now_ms l =
     l\<lparr>startup_refresh_pending := False, retry_state := record_failure now_ms (retry_state l)\<rparr>"

definition record_refresh_success :: "loader \<Rightarrow> loader" where
  "record_refresh_success l = l\<lparr>startup_refresh_pending := False, retry_state := default_retry\<rparr>"

text \<open>Writing the file: refused by the header, or the outcome the environment gives.\<close>

definition write_retained :: "retained \<Rightarrow> catalog_io_error option \<Rightarrow> loader \<Rightarrow> pricing_error option \<times> loader" where
  "write_retained env io l =
     (if \<not> header_is_valid env then (Some InvalidCache, l)
      else (case io of Some e \<Rightarrow> (Some (map_catalog_io_error e True), l)
        | None \<Rightarrow> (None, l\<lparr>cache_file := Some env\<rparr>)))"

section \<open>A refresh\<close>

record 'n refresh_response =
  response_status :: nat
  response_etag :: "string option"
  response_last_modified :: "string option"
  response_body :: "catalog_io_error + 'n json"

record 'n refresh_input =
  now_locked :: u64
  response :: "'n refresh_response option"
  now_fetched :: u64
  now_failed :: u64
  write_outcome :: "catalog_io_error option"
  stale_write_outcome :: "catalog_io_error option"

type_synonym 'a refreshing = "(pricing_error + 'a) \<times> loader"

definition refresh_failed :: "'n refresh_input \<Rightarrow> pricing_error \<Rightarrow> loader \<Rightarrow> catalog_refresh_outcome refreshing" where
  "refresh_failed i e l0 =
     (let l = record_refresh_failure (now_failed i) l0 in
      (Inl e,
       case envelope l of
         None \<Rightarrow> set_status StatusError (Some e) l
       | Some env \<Rightarrow>
           (let stale_env = env\<lparr>env_stale := True\<rparr>;
                l1 = l\<lparr>handle := (handle l)\<lparr>stale := True\<rparr>\<rparr>;
                l2 = snd (write_retained stale_env (stale_write_outcome i) l1)
            in set_status StatusStale (Some e) (l2\<lparr>envelope := Some stale_env\<rparr>))))"

definition accept_catalog ::
  "'n refresh_input \<Rightarrow> retained \<Rightarrow> pricing_catalog \<Rightarrow> catalog_refresh_outcome \<Rightarrow> loader \<Rightarrow>
   catalog_refresh_outcome refreshing" where
  "accept_catalog i env catalog outcome l =
     (case write_retained env (write_outcome i) l of
        (Some e, _) \<Rightarrow> refresh_failed i e l
      | (None, l1) \<Rightarrow>
          (Inr outcome,
           record_refresh_success (set_status StatusCurrent None
             (l1\<lparr>handle := catalog, envelope := Some env\<rparr>))))"

definition accept_not_modified ::
  "'n refresh_input \<Rightarrow> 'n refresh_response \<Rightarrow> loader \<Rightarrow> catalog_refresh_outcome refreshing" where
  "accept_not_modified i reply l =
     (case envelope l of None \<Rightarrow> refresh_failed i InvalidCache l
      | Some env \<Rightarrow>
          (let refreshed = env\<lparr>env_etag := opt_or (response_etag reply) (env_etag env),
                 env_last_modified := opt_or (response_last_modified reply) (env_last_modified env),
                 env_fetched_at_ms := now_fetched i, env_stale := False\<rparr>
           in accept_catalog i refreshed
                ((handle l)\<lparr>fetched_at_ms := Some (now_fetched i), stale := False\<rparr>)
                (NotModified (env_revision refreshed)) l))"

definition catalog_for_envelope ::
  "('n \<Rightarrow> string) \<Rightarrow> 'n json pricing_cache_envelope \<Rightarrow> loader \<Rightarrow> pricing_error + pricing_catalog" where
  "catalog_for_envelope show_number env l =
     (if is_some_and (envelope l) (\<lambda>current. env_payload_sha256 current = env_payload_sha256 env)
      then Inr ((handle l)\<lparr>revision := Some (env_revision env),
             fetched_at_ms := Some (env_fetched_at_ms env), stale := env_stale env\<rparr>)
      else from_litellm_payload show_number (env_payload env) (Some (env_revision env))
             (Some (env_fetched_at_ms env)) (env_stale env))"

text \<open>A new document: hash, envelope, catalog, compact form, file; the first error fails the refresh.\<close>

definition accept_document ::
  "('n \<Rightarrow> string) \<Rightarrow> ('n json \<Rightarrow> string option) \<Rightarrow> (string \<Rightarrow> string) \<Rightarrow> 'n refresh_input \<Rightarrow>
   'n refresh_response \<Rightarrow> 'n json \<Rightarrow> loader \<Rightarrow> catalog_refresh_outcome refreshing" where
  "accept_document show_number serialize sha256 i reply payload l =
     (case and_then (payload_hash serialize sha256 payload) (\<lambda>hash.
           and_then (new_envelope serialize sha256 payload hash (now_fetched i)) (\<lambda>env0.
             (let env = env0\<lparr>env_etag := response_etag reply,
                    env_last_modified := response_last_modified reply, env_stale := False\<rparr>
              in and_then (catalog_for_envelope show_number env l) (\<lambda>catalog.
                 and_then (into_compact serialize env) (\<lambda>kept. Inr (kept, catalog)))))) of
        Inl e \<Rightarrow> refresh_failed i e l
      | Inr (kept, catalog) \<Rightarrow> accept_catalog i kept catalog (Updated (env_revision kept)) l)"

definition refresh_locked ::
  "('n \<Rightarrow> string) \<Rightarrow> ('n json \<Rightarrow> string option) \<Rightarrow> (string \<Rightarrow> string) \<Rightarrow> bool \<Rightarrow> 'n refresh_input \<Rightarrow>
   loader \<Rightarrow> catalog_refresh_outcome refreshing" where
  "refresh_locked show_number serialize sha256 force i l0 =
     (if \<not> force \<and> \<not> refresh_due l0 (now_locked i) then (Inr Skipped, l0)
      else
        (let l = set_status StatusUpdating None l0 in
         case response i of None \<Rightarrow> refresh_failed i PricingNetwork l
         | Some reply \<Rightarrow>
             if response_status reply = 304 then accept_not_modified i reply l
             else if response_status reply \<noteq> 200
             then refresh_failed i (HttpStatus (of_nat (response_status reply))) l
             else (case response_body reply of
                 Inl e \<Rightarrow> refresh_failed i (map_catalog_io_error e False) l
               | Inr payload \<Rightarrow> accept_document show_number serialize sha256 i reply payload l)))"

definition refresh ::
  "('n \<Rightarrow> string) \<Rightarrow> ('n json \<Rightarrow> string option) \<Rightarrow> (string \<Rightarrow> string) \<Rightarrow> bool \<Rightarrow> u64 \<Rightarrow> 'n refresh_input \<Rightarrow>
   loader \<Rightarrow> catalog_refresh_outcome refreshing" where
  "refresh show_number serialize sha256 force now_ms i l =
     (if \<not> force \<and> \<not> refresh_due l now_ms then (Inr Skipped, l)
      else refresh_locked show_number serialize sha256 force i l)"

section \<open>Envelopes and the catalogs they hold\<close>

text \<open>A retained envelope read back with the document \<open>v\<close> as its payload.\<close>

definition read_back :: "'n json \<Rightarrow> retained \<Rightarrow> 'n json pricing_cache_envelope" where
  "read_back v env =
     \<lparr>env_format = env_format env, env_schema_version = env_schema_version env,
      env_source_url = env_source_url env, env_revision = env_revision env, env_etag = env_etag env,
      env_last_modified = env_last_modified env, env_fetched_at_ms = env_fetched_at_ms env,
      env_payload_sha256 = env_payload_sha256 env, env_stale = env_stale env, env_payload = v\<rparr>"

text \<open>The part of the validation that reads the payload and its hash only.\<close>

definition payload_accepted ::
  "('n json \<Rightarrow> string option) \<Rightarrow> (string \<Rightarrow> string) \<Rightarrow> 'n json \<Rightarrow> string \<Rightarrow> bool" where
  "payload_accepted serialize sha256 v hash \<longleftrightarrow>
     (\<exists>text records. serialize v = Some text \<and> hash = ''sha256:'' @ sha256 text
        \<and> length text \<le> MAX_CACHE_BYTES \<and> as_object v = Some records
        \<and> length records \<le> MAX_CACHE_RECORDS \<and> \<not> list_ex (\<lambda>(key, _). bad_key key) records)"

lemma validate_envelope_iff:
  "validate_envelope serialize sha256 env = Inr () \<longleftrightarrow>
     header_is_valid env \<and> payload_accepted serialize sha256 (env_payload env) (env_payload_sha256 env)"
  by (auto simp: validate_envelope_def validate_header_def payload_accepted_def json_fingerprint_def
      split: option.splits if_splits)

lemma envelope_catalog_iff:
  "envelope_catalog show_number serialize sha256 env = Inr c \<longleftrightarrow>
     header_is_valid env \<and> payload_accepted serialize sha256 (env_payload env) (env_payload_sha256 env)
     \<and> from_litellm_payload show_number (env_payload env) (Some (env_revision env))
         (Some (env_fetched_at_ms env)) (env_stale env) = Inr c"
  by (auto simp: envelope_catalog_def and_then_Inr validate_envelope_iff)

lemma payload_accepted_hash:
  "payload_accepted serialize sha256 v hash \<Longrightarrow> payload_hash serialize sha256 v = Inr hash"
  by (auto simp: payload_accepted_def payload_hash_def json_fingerprint_def)

lemma into_compact_iff:
  "into_compact serialize env = Inr kept \<longleftrightarrow>
     serialize (env_payload env) = Some (env_payload kept) \<and> env = read_back (env_payload env) kept"
  by (cases env; cases kept) (auto simp: into_compact_def read_back_def split: option.splits)

lemma read_back_simps [simp]:
  "env_payload (read_back v env) = v" "env_revision (read_back v env) = env_revision env"
  "env_fetched_at_ms (read_back v env) = env_fetched_at_ms env" "env_stale (read_back v env) = env_stale env"
  "env_payload_sha256 (read_back v env) = env_payload_sha256 env"
  "header_is_valid (read_back v env) = header_is_valid env"
  by (simp_all add: read_back_def header_is_valid_def)

lemma header_is_valid_stale [simp]:
  "header_is_valid (env\<lparr>env_stale := b\<rparr>) = header_is_valid env"
  by (simp add: header_is_valid_def)

text \<open>The metadata of a catalog do not influence its prices.\<close>

lemma from_litellm_payload_eq:
  "from_litellm_payload show_number v r f s =
     map_sum id (\<lambda>c. c\<lparr>revision := r, fetched_at_ms := f, stale := s\<rparr>) (from_litellm_payload show_number v None None False)"
  by (cases "validate_litellm_payload v") (simp_all add: from_litellm_payload_def case_prod_unfold Let_def)

lemma from_litellm_payload_metadata:
  "from_litellm_payload show_number v r f s = Inr c \<Longrightarrow>
   from_litellm_payload show_number v r' f' s' = Inr (c\<lparr>revision := r', fetched_at_ms := f', stale := s'\<rparr>)"
  by (subst (asm) from_litellm_payload_eq, subst from_litellm_payload_eq)
    (cases "from_litellm_payload show_number v None None False", auto)

lemma from_litellm_payload_fields:
  assumes "from_litellm_payload show_number v r f s = Inr c"
  shows "revision c = r" "fetched_at_ms c = f" "stale c = s"
  using assms by (subst (asm) from_litellm_payload_eq, cases "from_litellm_payload show_number v None None False", auto)+

section \<open>The loader's states\<close>

text \<open>The documents a step of the environment brings in.\<close>

definition read_documents :: "catalog_io_error + 'n json pricing_cache_envelope option \<Rightarrow> 'n json set" where
  "read_documents r = (case r of Inr (Some env) \<Rightarrow> {env_payload env} | _ \<Rightarrow> {})"

definition response_documents :: "'n refresh_input \<Rightarrow> 'n json set" where
  "response_documents i =
     (case response i of None \<Rightarrow> {}
      | Some reply \<Rightarrow> (case response_body reply of Inl _ \<Rightarrow> {} | Inr payload \<Rightarrow> {payload}))"

text \<open>The states of a loader that has seen the documents of \<open>docs\<close> only.\<close>

inductive loader_reachable ::
  "('n \<Rightarrow> string) \<Rightarrow> ('n json \<Rightarrow> string option) \<Rightarrow> (string \<Rightarrow> string) \<Rightarrow> 'n json set \<Rightarrow> loader \<Rightarrow> bool"
  for show_number serialize sha256 docs where
  opened: "open_with_max_age show_number serialize sha256 r file client_builds now_ms max_age = Inr l \<Longrightarrow>
     read_documents r \<subseteq> docs \<Longrightarrow> loader_reachable show_number serialize sha256 docs l"
| refreshed: "loader_reachable show_number serialize sha256 docs l \<Longrightarrow> response_documents i \<subseteq> docs \<Longrightarrow>
     loader_reachable show_number serialize sha256 docs
       (snd (refresh show_number serialize sha256 force now_ms i l))"

definition hash_identifies :: "('n json \<Rightarrow> string option) \<Rightarrow> (string \<Rightarrow> string) \<Rightarrow> 'n json set \<Rightarrow> bool" where
  "hash_identifies serialize sha256 docs \<longleftrightarrow>
     (\<forall>v\<in>docs. \<forall>w\<in>docs. \<forall>h. payload_hash serialize sha256 v = Inr h \<longrightarrow>
        payload_hash serialize sha256 w = Inr h \<longrightarrow> v = w)"

text \<open>The retained envelope, read back, is valid and gives the catalog in use.\<close>

definition retained_gives ::
  "('n \<Rightarrow> string) \<Rightarrow> ('n json \<Rightarrow> string option) \<Rightarrow> (string \<Rightarrow> string) \<Rightarrow> 'n json \<Rightarrow> retained \<Rightarrow>
   pricing_catalog \<Rightarrow> bool" where
  "retained_gives show_number serialize sha256 v env c \<longleftrightarrow>
     serialize v = Some (env_payload env)
     \<and> envelope_catalog show_number serialize sha256 (read_back v env) = Inr c"

definition snapshot_matches ::
  "('n \<Rightarrow> string) \<Rightarrow> ('n json \<Rightarrow> string option) \<Rightarrow> (string \<Rightarrow> string) \<Rightarrow> 'n json set \<Rightarrow> loader \<Rightarrow> bool" where
  "snapshot_matches show_number serialize sha256 docs l \<longleftrightarrow>
     (case envelope l of None \<Rightarrow> handle l = empty_catalog
      | Some env \<Rightarrow> \<exists>v\<in>docs. retained_gives show_number serialize sha256 v env (handle l))"

text \<open>A retry is only pending without an envelope or with a stale one.\<close>

definition retry_means_stale :: "loader \<Rightarrow> bool" where
  "retry_means_stale l \<longleftrightarrow>
     (next_retry_at_ms (retry_state l) \<noteq> None \<longrightarrow> is_none_or (envelope l) env_stale)"

lemmas step_defs = refresh_failed_def record_refresh_failure_def record_refresh_success_def
  set_status_def write_retained_def record_failure_def default_retry_def

lemma snapshot_matches_cong:
  "handle l = handle l' \<Longrightarrow> envelope l = envelope l' \<Longrightarrow>
   snapshot_matches show_number serialize sha256 docs l = snapshot_matches show_number serialize sha256 docs l'"
  by (simp add: snapshot_matches_def split: option.splits)

lemma retained_gives_stale:
  "retained_gives show_number serialize sha256 v env c \<Longrightarrow>
   retained_gives show_number serialize sha256 v (env\<lparr>env_stale := b\<rparr>) (c\<lparr>stale := b\<rparr>)"
  using from_litellm_payload_metadata [of show_number v _ _ _ c "Some (env_revision env)"
      "Some (env_fetched_at_ms env)" b] from_litellm_payload_fields [of show_number v _ _ _ c]
  by (cases c) (fastforce simp: retained_gives_def envelope_catalog_iff)

lemma refresh_failed_matches:
  assumes "snapshot_matches show_number serialize sha256 docs l"
  shows "snapshot_matches show_number serialize sha256 docs (snd (refresh_failed i e l))"
proof (cases "envelope l")
  case None
  then show ?thesis using assms by (simp add: snapshot_matches_def step_defs)
next
  case (Some env)
  have "envelope (snd (refresh_failed i e l)) = Some (env\<lparr>env_stale := True\<rparr>)"
       "handle (snd (refresh_failed i e l)) = (handle l)\<lparr>stale := True\<rparr>"
    using Some by (simp_all add: step_defs Let_def split: option.splits)
  then show ?thesis
    using assms Some by (auto simp: snapshot_matches_def intro: retained_gives_stale)
qed

lemma accept_catalog_matches:
  assumes "snapshot_matches show_number serialize sha256 docs l" "v \<in> docs"
    and gives: "header_is_valid env \<Longrightarrow> retained_gives show_number serialize sha256 v env c"
  shows "snapshot_matches show_number serialize sha256 docs (snd (accept_catalog i env c outcome l))"
proof (cases "fst (write_retained env (write_outcome i) l)")
  case None
  then have "header_is_valid env" by (auto simp: write_retained_def split: if_splits option.splits)
  moreover have "envelope (snd (accept_catalog i env c outcome l)) = Some env"
       "handle (snd (accept_catalog i env c outcome l)) = c"
    using None by (auto simp: accept_catalog_def record_refresh_success_def set_status_def split: prod.splits option.splits)
  ultimately show ?thesis using gives assms(2) by (auto simp: snapshot_matches_def)
next
  case (Some e)
  then have "accept_catalog i env c outcome l = refresh_failed i e l"
    by (auto simp: accept_catalog_def split: prod.splits)
  then show ?thesis using refresh_failed_matches [OF assms(1)] by simp
qed

lemma accept_not_modified_matches:
  assumes "snapshot_matches show_number serialize sha256 docs l"
  shows "snapshot_matches show_number serialize sha256 docs (snd (accept_not_modified i reply l))"
proof (cases "envelope l")
  case None
  then show ?thesis using refresh_failed_matches [OF assms] by (simp add: accept_not_modified_def)
next
  case (Some env)
  then obtain v where v: "v \<in> docs" "retained_gives show_number serialize sha256 v env (handle l)"
    using assms by (auto simp: snapshot_matches_def)
  define refreshed where "refreshed = env\<lparr>env_etag := opt_or (response_etag reply) (env_etag env),
    env_last_modified := opt_or (response_last_modified reply) (env_last_modified env),
    env_fetched_at_ms := now_fetched i, env_stale := False\<rparr>"
  have litellm: "from_litellm_payload show_number v (Some (env_revision env)) (Some (env_fetched_at_ms env))
      (env_stale env) = Inr (handle l)"
    using v(2) by (simp add: retained_gives_def envelope_catalog_iff)
  have gives: "retained_gives show_number serialize sha256 v refreshed
      ((handle l)\<lparr>fetched_at_ms := Some (now_fetched i), stale := False\<rparr>)" if "header_is_valid refreshed"
    using that v(2) from_litellm_payload_metadata [OF litellm, of "Some (env_revision env)"
        "Some (now_fetched i)" False] from_litellm_payload_fields [OF litellm]
    by (cases "handle l") (simp add: retained_gives_def envelope_catalog_iff refreshed_def)
  have "accept_not_modified i reply l =
      accept_catalog i refreshed ((handle l)\<lparr>fetched_at_ms := Some (now_fetched i), stale := False\<rparr>)
        (NotModified (env_revision refreshed)) l"
    by (simp only: accept_not_modified_def Some option.case Let_def refreshed_def)
  then show ?thesis using accept_catalog_matches [OF assms v(1) gives] by simp
qed

lemma catalog_for_envelope_matches:
  assumes "snapshot_matches show_number serialize sha256 docs l" "hash_identifies serialize sha256 docs"
    and payload: "env_payload env \<in> docs"
    and accepted: "payload_accepted serialize sha256 (env_payload env) (env_payload_sha256 env)"
    and "catalog_for_envelope show_number env l = Inr c"
  shows "from_litellm_payload show_number (env_payload env) (Some (env_revision env))
           (Some (env_fetched_at_ms env)) (env_stale env) = Inr c"
proof (cases "is_some_and (envelope l) (\<lambda>current. env_payload_sha256 current = env_payload_sha256 env)")
  case True
  then obtain current where current: "envelope l = Some current"
      "env_payload_sha256 current = env_payload_sha256 env" by (auto simp: is_some_and_iff)
  then obtain v where v: "v \<in> docs" "retained_gives show_number serialize sha256 v current (handle l)"
    using assms(1) by (auto simp: snapshot_matches_def)
  then have "payload_accepted serialize sha256 v (env_payload_sha256 env)"
    using current(2) by (simp add: retained_gives_def envelope_catalog_iff)
  then have "v = env_payload env"
    using assms(2) v(1) payload accepted by (meson hash_identifies_def payload_accepted_hash)
  then show ?thesis
    using v(2) assms(5) True
    by (auto simp: retained_gives_def envelope_catalog_iff catalog_for_envelope_def
        elim!: from_litellm_payload_metadata)
next
  case False
  then show ?thesis using assms(5) by (simp add: catalog_for_envelope_def)
qed

lemma new_envelope_payload:
  "new_envelope serialize sha256 payload rev0 fetched = Inr env \<Longrightarrow>
   env_payload env = payload \<and> payload_accepted serialize sha256 payload (env_payload_sha256 env)"
  by (auto simp: new_envelope_def and_then_Inr Let_def validate_envelope_iff)

lemma accept_document_matches:
  assumes "snapshot_matches show_number serialize sha256 docs l" "hash_identifies serialize sha256 docs"
    and "payload \<in> docs"
  shows "snapshot_matches show_number serialize sha256 docs
           (snd (accept_document show_number serialize sha256 i reply payload l))"
proof -
  define made where "made =
    and_then (payload_hash serialize sha256 payload) (\<lambda>hash.
      and_then (new_envelope serialize sha256 payload hash (now_fetched i)) (\<lambda>env0.
        (let env = env0\<lparr>env_etag := response_etag reply,
               env_last_modified := response_last_modified reply, env_stale := False\<rparr>
         in and_then (catalog_for_envelope show_number env l) (\<lambda>catalog.
            and_then (into_compact serialize env) (\<lambda>kept. Inr (kept, catalog))))))"
  show ?thesis
  proof (cases made)
    case (Inl e)
    then show ?thesis
      using refresh_failed_matches [OF assms(1)] by (simp add: accept_document_def made_def [symmetric])
  next
    case (Inr made_pair)
    obtain kept catalog where made: "made = Inr (kept, catalog)" using Inr by (cases made_pair) simp
    then obtain hash env0 where env0: "new_envelope serialize sha256 payload hash (now_fetched i) = Inr env0"
        "catalog_for_envelope show_number (env0\<lparr>env_etag := response_etag reply,
           env_last_modified := response_last_modified reply, env_stale := False\<rparr>) l = Inr catalog"
        "into_compact serialize (env0\<lparr>env_etag := response_etag reply,
           env_last_modified := response_last_modified reply, env_stale := False\<rparr>) = Inr kept"
      by (auto simp: made_def and_then_Inr Let_def)
    define env where "env = env0\<lparr>env_etag := response_etag reply,
      env_last_modified := response_last_modified reply, env_stale := False\<rparr>"
    have env: "env_payload env = payload"
        "payload_accepted serialize sha256 payload (env_payload_sha256 env)"
        "catalog_for_envelope show_number env l = Inr catalog" "into_compact serialize env = Inr kept"
      using env0 new_envelope_payload [OF env0(1)] by (simp_all add: env_def)
    have litellm: "from_litellm_payload show_number payload (Some (env_revision env))
        (Some (env_fetched_at_ms env)) (env_stale env) = Inr catalog"
      using catalog_for_envelope_matches [OF assms(1,2) _ _ env(3)] env(1,2) assms(3) by simp
    have kept: "serialize payload = Some (env_payload kept)" "env = read_back payload kept"
      using env(1,4) by (simp_all add: into_compact_iff)
    have gives: "retained_gives show_number serialize sha256 payload kept catalog" if "header_is_valid kept"
      using that kept litellm env(1,2) by (simp add: retained_gives_def envelope_catalog_iff)
    show ?thesis
      using accept_catalog_matches [OF assms(1,3) gives] made
      by (simp add: accept_document_def made_def [symmetric])
  qed
qed

lemma refresh_matches:
  assumes "snapshot_matches show_number serialize sha256 docs l" "hash_identifies serialize sha256 docs"
    and "response_documents i \<subseteq> docs"
  shows "snapshot_matches show_number serialize sha256 docs
           (snd (refresh show_number serialize sha256 force now_ms i l))"
proof -
  have updating: "snapshot_matches show_number serialize sha256 docs (set_status StatusUpdating None l)"
    using assms(1) by (simp add: snapshot_matches_def set_status_def split: option.splits)
  have "snapshot_matches show_number serialize sha256 docs
           (snd (refresh_locked show_number serialize sha256 force i l))"
    using assms updating
    by (auto simp: refresh_locked_def Let_def response_documents_def
        intro!: refresh_failed_matches accept_not_modified_matches accept_document_matches
        split: option.splits sum.splits)
  then show ?thesis using assms(1) by (simp add: refresh_def)
qed

lemma open_matches:
  assumes "open_with_max_age show_number serialize sha256 r file client_builds now_ms max_age = Inr l"
    and "read_documents r \<subseteq> docs"
  shows "snapshot_matches show_number serialize sha256 docs l"
  using assms
  by (auto simp: open_with_max_age_def and_then_Inr read_catalog_def read_documents_def snapshot_matches_def
      retained_gives_def into_compact_iff split: sum.splits option.splits if_splits)

lemma reachable_matches:
  assumes "loader_reachable show_number serialize sha256 docs l" "hash_identifies serialize sha256 docs"
  shows "snapshot_matches show_number serialize sha256 docs l"
  using assms by (induction rule: loader_reachable.induct) (auto intro: open_matches refresh_matches)

section \<open>Retries and deadlines\<close>

lemma refresh_failed_retry: "retry_means_stale (snd (refresh_failed i e l))"
  by (cases "envelope l") (simp_all add: retry_means_stale_def step_defs Let_def split: option.splits)

lemma accept_catalog_retry: "retry_means_stale (snd (accept_catalog i env c outcome l))"
  by (auto simp: accept_catalog_def refresh_failed_retry split: prod.splits option.splits)
    (simp add: retry_means_stale_def record_refresh_success_def default_retry_def)

lemma refresh_retry:
  assumes "retry_means_stale l"
  shows "retry_means_stale (snd (refresh show_number serialize sha256 force now_ms i l))"
proof -
  have "retry_means_stale (snd (accept_not_modified i reply l'))" for reply l'
    by (simp add: accept_not_modified_def Let_def refresh_failed_retry accept_catalog_retry split: option.splits)
  moreover have "retry_means_stale (snd (accept_document show_number serialize sha256 i reply v l'))" for reply v l'
    by (auto simp: accept_document_def refresh_failed_retry accept_catalog_retry split: sum.splits)
  ultimately show ?thesis
    using assms by (simp add: refresh_def refresh_locked_def Let_def refresh_failed_retry split: option.splits sum.splits)
qed

lemma reachable_retry:
  assumes "loader_reachable show_number serialize sha256 docs l"
  shows "retry_means_stale l"
  using assms
proof (induction rule: loader_reachable.induct)
  case (opened r f builds now max_age l)
  then show ?case
    by (auto simp: open_with_max_age_def and_then_Inr retry_means_stale_def default_retry_def
        split: sum.splits option.splits if_splits)
qed (rule refresh_retry)

lemma not_stale_before_deadline:
  assumes "\<not> is_stale fetched now_ms max_age" "now_ms < - 1"
  shows "now_ms < sat_add fetched max_age"
proof -
  have "unat now_ms < 2 ^ 64 - 1"
    using assms(2) by (simp add: word_less_nat_alt unsigned_minus_1_eq_mask mask_eq_exp_minus_1)
  then show ?thesis
    using assms(1) by (auto simp: is_stale_def word_less_nat_alt word_le_nat_alt word_nat)
qed

text \<open>A refresh that is neither skipped nor refused has written and installed one envelope.\<close>

lemma accept_catalog_accepts:
  "accept_catalog i env c outcome0 l = (Inr outcome, l') \<Longrightarrow> cache_file l' = Some env \<and> envelope l' = Some env"
  by (auto simp: accept_catalog_def refresh_failed_def write_retained_def record_refresh_success_def set_status_def
      Let_def split: option.splits prod.splits if_splits)

lemma refresh_accepts:
  assumes "refresh show_number serialize sha256 force now_ms i l = (Inr outcome, l')" "outcome \<noteq> Skipped"
  shows "\<exists>env. cache_file l' = Some env \<and> envelope l' = Some env \<and> \<not> env_stale env"
proof -
  define l0 where "l0 = set_status StatusUpdating None l"
  consider reply where "accept_not_modified i reply l0 = (Inr outcome, l')"
    | reply v where "accept_document show_number serialize sha256 i reply v l0 = (Inr outcome, l')"
    using assms by (auto simp: refresh_def refresh_locked_def l0_def Let_def refresh_failed_def
        split: if_splits option.splits sum.splits)
  then show ?thesis
  proof cases
    case 1
    then show ?thesis
      by (auto simp: accept_not_modified_def Let_def refresh_failed_def split: option.splits dest!: accept_catalog_accepts)
  next
    case 2
    then show ?thesis
      by (auto simp: accept_document_def refresh_failed_def and_then_Inr Let_def into_compact_iff
          split: sum.splits dest!: accept_catalog_accepts)
        (metis pricing_cache_envelope.select_convs(9) pricing_cache_envelope.surjective
          pricing_cache_envelope.update_convs(9) read_back_simps(4))
  qed
qed

section \<open>The properties\<close>

text \<open>C6: The prices in use are always those of the envelope that is kept: in every state a loader reaches,
  without an envelope the catalog is empty; otherwise the envelope read back with the document it
  serializes validates and its catalog is the one in use, so that a restart gives the same prices.
  In particular the shortcut that keeps the parsed catalog when the hash of the payload is unchanged,
  and the updates of the metadata after a 304 and after a failure, agree with a parse of the payload.
  The hypothesis is that the digest tells apart the documents the loader has seen.\<close>
theorem loader_serves_its_envelope:
  assumes "loader_reachable show_number serialize sha256 docs l" "hash_identifies serialize sha256 docs"
  shows "case envelope l of None \<Rightarrow> handle l = empty_catalog
         | Some env \<Rightarrow> \<exists>v\<in>docs. serialize v = Some (env_payload env)
             \<and> envelope_catalog show_number serialize sha256 (read_back v env) = Inr (handle l)"
  using reachable_matches [OF assms] by (simp add: snapshot_matches_def retained_gives_def split: option.splits)

text \<open>C33: A failed refresh never loses the prices in use: the catalog keeps its entries, its conflicts and its
  indexes and is only marked stale when there is an envelope, which keeps everything but its mark; the
  error is the reported one, the status is stale or, without an envelope, an error, the startup check
  is over, and one more failure is counted with the next attempt refused before the delay of that failure.\<close>
theorem failed_refresh_keeps_prices:
  assumes "refresh show_number serialize sha256 force now_ms i l = (Inl e, l')"
  shows "entries (handle l') = entries (handle l) \<and> conflicts (handle l') = conflicts (handle l)
    \<and> unique (handle l') = unique (handle l) \<and> lookup (handle l') = lookup (handle l)
    \<and> revision (handle l') = revision (handle l)
    \<and> envelope l' = map_option (\<lambda>env. env\<lparr>env_stale := True\<rparr>) (envelope l)
    \<and> stale (handle l') = (envelope l \<noteq> None \<or> stale (handle l))
    \<and> status l' = (if envelope l = None then StatusError else StatusStale) \<and> last_error l' = Some e
    \<and> \<not> startup_refresh_pending l'
    \<and> consecutive_failures (retry_state l') = sat_add (consecutive_failures (retry_state l)) 1
    \<and> (\<forall>t < sat_add (now_failed i) (retry_delay_ms (consecutive_failures (retry_state l'))). \<not> refresh_due l' t)"
proof -
  have failed: "l' = snd (refresh_failed i e (set_status StatusUpdating None l))"
    using assms
    by (auto simp: refresh_def refresh_locked_def Let_def accept_not_modified_def accept_document_def
        accept_catalog_def refresh_failed_def split: if_splits option.splits sum.splits prod.splits)
  show ?thesis
    unfolding failed
    by (cases "envelope l")
      (auto simp: step_defs Let_def refresh_due_def retry_allows_attempt_def allows_attempt_def split: option.splits)
qed

text \<open>The deadline the background task sleeps on and the test a refresh makes agree: in every state a
  loader reaches and at every time before the end of the clock, a refresh is due exactly when the
  next deadline has come.\<close>
theorem due_when_deadline_passed:
  assumes "loader_reachable show_number serialize sha256 docs l" "now_ms < - 1"
  shows "refresh_due l now_ms \<longleftrightarrow> at_ms (next_refresh_deadline l now_ms) \<le> now_ms"
proof (cases "next_retry_at_ms (retry_state l)")
  case (Some at)
  then have "is_none_or (envelope l) (\<lambda>env. envelope_is_stale env now_ms (max_age_ms l))"
    using reachable_retry [OF assms(1)] by (auto simp: retry_means_stale_def is_none_or_iff envelope_is_stale_def)
  then show ?thesis
    using Some by (simp add: refresh_due_def next_refresh_deadline_def retry_allows_attempt_def allows_attempt_def)
next
  case None
  then show ?thesis
    using not_stale_before_deadline [OF _ assms(2), of _ "max_age_ms l"]
    by (auto simp: refresh_due_def next_refresh_deadline_def retry_allows_attempt_def allows_attempt_def
        envelope_is_stale_def Let_def not_le split: option.splits)
qed

text \<open>C37: A refresh that succeeds is on disk: the file holds the envelope in use, not marked stale, and opening
  it again, when reading gives the document it serializes, starts with the same catalog and envelope,
  no error, and the status current as long as the envelope is young enough.\<close>
theorem restart_after_refresh:
  assumes "loader_reachable show_number serialize sha256 docs l" "hash_identifies serialize sha256 docs"
    and "response_documents i \<subseteq> docs"
    and "refresh show_number serialize sha256 force now_ms i l = (Inr outcome, l')" "outcome \<noteq> Skipped"
  shows "\<exists>env. \<exists>v\<in>docs. cache_file l' = Some env \<and> envelope l' = Some env \<and> \<not> env_stale env
    \<and> serialize v = Some (env_payload env)
    \<and> (\<exists>l''. open_with_max_age show_number serialize sha256 (Inr (Some (read_back v env)))
              (cache_file l') True now'_ms (max_age_ms l') = Inr l''
         \<and> handle l'' = handle l' \<and> envelope l'' = envelope l' \<and> last_error l'' = None
         \<and> status l'' = (if is_stale (env_fetched_at_ms env) now'_ms (max_age_ms l') then StatusStale else StatusCurrent))"
proof -
  obtain env where env: "cache_file l' = Some env" "envelope l' = Some env" "\<not> env_stale env"
    using refresh_accepts [OF assms(4,5)] by blast
  have "snapshot_matches show_number serialize sha256 docs l'"
    using refresh_matches [OF reachable_matches [OF assms(1,2)] assms(2,3), where force = force and now_ms = now_ms]
      assms(4) by simp
  then obtain v where v: "v \<in> docs" "retained_gives show_number serialize sha256 v env (handle l')"
    using env(2) by (auto simp: snapshot_matches_def)
  have "into_compact serialize (read_back v env) = Inr env"
    using v(2) by (simp add: into_compact_iff retained_gives_def)
  then show ?thesis
    using v env by (intro exI [of _ env] bexI [of _ v])
      (auto simp: retained_gives_def open_with_max_age_def read_catalog_def envelope_is_stale_def)
qed

text \<open>The wait until a deadline is exact at startup and for a retry, and at most a minute longer for the
  daily check, whatever the identity of the instance; nothing wraps.\<close>
theorem refresh_delay_bounds:
  "(refresh_kind d \<noteq> ScheduledRefresh \<longrightarrow>
      pricing_refresh_delay digest instance_id d now_ms = from_millis (sat_sub (at_ms d) now_ms))
   \<and> from_millis (sat_sub (at_ms d) now_ms) \<le> pricing_refresh_delay digest instance_id d now_ms
   \<and> pricing_refresh_delay digest instance_id d now_ms
       \<le> from_millis (sat_sub (at_ms d) now_ms) + 60 * 1000 * nanos_per_milli"
proof -
  have "unat (pricing_refresh_jitter_seconds digest instance_id) \<le> 60"
    by (simp add: pricing_refresh_jitter_seconds_def PRICING_REFRESH_JITTER_MAX_SECONDS_def unat_mod)
  then have "unat (sat_mul (pricing_refresh_jitter_seconds digest instance_id) 1000) \<le> 60 * 1000"
    by (simp add: word_nat)
  then have late: "unat (sat_add (at_ms d) (sat_mul (pricing_refresh_jitter_seconds digest instance_id) 1000)) - unat now_ms
      \<le> unat (at_ms d) - unat now_ms + 60 * 1000"
    by (simp only: unat_sat_add)
  have grows: "unat (at_ms d) \<le> unat (sat_add (at_ms d) j)" for j
    using sat_add_ge [of "at_ms d" j] by (simp add: word_le_nat_alt)
  have exact: "sat_add (at_ms d) 0 = at_ms d"
    using unsigned_less [of "at_ms d", where 'a = nat] by (simp add: sat_add_def)
  show ?thesis
  proof (cases "refresh_kind d")
    case ScheduledRefresh
    then show ?thesis
      using mult_le_mono1 [OF late, of nanos_per_milli]
        mult_le_mono1 [OF diff_le_mono [OF grows], of "unat now_ms" nanos_per_milli]
      by (simp add: pricing_refresh_delay_def from_millis_def unat_sat_sub add_mult_distrib)
  qed (simp_all add: pricing_refresh_delay_def exact)
qed

section \<open>Witnesses\<close>

text \<open>A loader that starts without a file and reads one small document.\<close>

definition small_text :: "string json \<Rightarrow> string option" where "small_text v = Some ''{..}''"

definition small_input :: "nat \<Rightarrow> string refresh_input" where
  "small_input code = \<lparr>now_locked = 7, response = Some \<lparr>response_status = code, response_etag = Some ''e'',
     response_last_modified = None, response_body = Inr (JObject small_document)\<rparr>, now_fetched = 9,
     now_failed = 9, write_outcome = None, stale_write_outcome = None\<rparr>"

definition first_loader :: loader where
  "first_loader = \<lparr>cache_file = None, handle = empty_catalog, envelope = None, status = StatusUnloaded,
     last_error = None, retry_state = default_retry, startup_refresh_pending = True,
     max_age_ms = DEFAULT_CATALOG_MAX_AGE_MS\<rparr>"

abbreviation small_refresh :: "nat \<Rightarrow> catalog_refresh_outcome refreshing" where
  "small_refresh code \<equiv> refresh (\<lambda>n. n) small_text (\<lambda>t. t) False 7 (small_input code) first_loader"

lemma first_loader_reachable: "loader_reachable (\<lambda>n. n) small_text (\<lambda>t. t) {JObject small_document} first_loader"
  by (rule loader_reachable.opened [of _ _ _ "Inr None" None True 7 DEFAULT_CATALOG_MAX_AGE_MS])
    (simp_all add: open_with_max_age_def read_catalog_def first_loader_def read_documents_def)

lemma small_documents: "response_documents (small_input code) \<subseteq> {JObject small_document}"
  by (simp add: response_documents_def small_input_def)

lemma small_identifies: "hash_identifies small_text (\<lambda>t. t) {JObject small_document}"
  by (simp add: hash_identifies_def)

definition small_envelope :: "string option \<Rightarrow> 'p \<Rightarrow> 'p pricing_cache_envelope" where
  "small_envelope e p = \<lparr>env_format = CACHE_FORMAT, env_schema_version = CACHE_SCHEMA_VERSION,
     env_source_url = LITELLM_SOURCE_URL, env_revision = ''sha256:{..}'', env_etag = e,
     env_last_modified = None, env_fetched_at_ms = 9, env_payload_sha256 = ''sha256:{..}'',
     env_stale = False, env_payload = p\<rparr>"

lemma small_header: "header_is_valid (small_envelope None p)" "header_is_valid (small_envelope (Some ''e'') p)"
  unfolding header_is_valid_def small_envelope_def pricing_cache_envelope.select_convs by code_simp+

lemma small_accepted:
  "payload_accepted small_text (\<lambda>t. t) (JObject small_document) ''sha256:{..}''"
  unfolding payload_accepted_def small_text_def by (simp add: MAX_CACHE_BYTES_def) (code_simp)

lemma small_refresh_accepted: "\<exists>l'. small_refresh 200 = (Inr (Updated ''sha256:{..}''), l') \<and> status l' = StatusCurrent"
proof -
  obtain c where c: "from_litellm_payload (\<lambda>n. n) (JObject small_document) (Some ''sha256:{..}'') (Some 9) False = Inr c"
    using small_document_loads from_litellm_payload_metadata by blast
  define l0 where "l0 = set_status StatusUpdating None first_loader"
  have l0: "envelope l0 = None" by (simp add: l0_def set_status_def first_loader_def)
  have "validate_envelope small_text (\<lambda>t. t) (small_envelope None (JObject small_document)) = Inr ()"
    using small_accepted by (simp add: validate_envelope_iff small_header) (simp add: small_envelope_def)
  then have "new_envelope small_text (\<lambda>t. t) (JObject small_document) ''sha256:{..}'' 9 =
      Inr (small_envelope None (JObject small_document))"
    by (simp add: new_envelope_def payload_hash_def json_fingerprint_def small_text_def small_envelope_def)
  moreover have "catalog_for_envelope (\<lambda>n. n) (small_envelope (Some ''e'') (JObject small_document)) l0 = Inr c"
    using c l0 by (simp add: catalog_for_envelope_def small_envelope_def)
  moreover have "into_compact small_text (small_envelope (Some ''e'') (JObject small_document)) =
      Inr (small_envelope (Some ''e'') ''{..}'')"
    by (simp add: into_compact_def small_text_def small_envelope_def)
  moreover have "small_envelope None (JObject small_document) \<lparr>env_etag := Some ''e'', env_last_modified := None,
      env_stale := False\<rparr> = small_envelope (Some ''e'') (JObject small_document)"
    by (simp add: small_envelope_def)
  moreover have "payload_hash small_text (\<lambda>t. t) (JObject small_document) = Inr ''sha256:{..}''"
    by (simp add: payload_hash_def json_fingerprint_def small_text_def)
  moreover have "write_retained (small_envelope (Some ''e'') ''{..}'') None l0 =
      (None, l0\<lparr>cache_file := Some (small_envelope (Some ''e'') ''{..}'')\<rparr>)"
    by (simp add: write_retained_def small_header)
  moreover have "env_revision (small_envelope (Some ''e'') ''{..}'') = ''sha256:{..}''"
    by (simp add: small_envelope_def)
  moreover have "small_refresh 200 = accept_document (\<lambda>n. n) small_text (\<lambda>t. t) (small_input 200)
      (the (response (small_input 200))) (JObject small_document) l0"
    by (simp add: refresh_def refresh_locked_def first_loader_def refresh_due_def retry_allows_attempt_def
        allows_attempt_def default_retry_def l0_def set_status_def small_input_def)
  ultimately show ?thesis
    by (simp add: accept_document_def small_input_def accept_catalog_def record_refresh_success_def set_status_def)
qed

theorem loader_serves_its_envelope_witness:
  "\<exists>l env. loader_reachable (\<lambda>n. n) small_text (\<lambda>t. t) {JObject small_document} l \<and> envelope l = Some env
     \<and> envelope_catalog (\<lambda>n. n) small_text (\<lambda>t. t) (read_back (JObject small_document) env) = Inr (handle l)"
proof -
  obtain l' where l': "small_refresh 200 = (Inr (Updated ''sha256:{..}''), l')"
    using small_refresh_accepted by blast
  have reachable: "loader_reachable (\<lambda>n. n) small_text (\<lambda>t. t) {JObject small_document} l'"
    using loader_reachable.refreshed [OF first_loader_reachable small_documents, of False 7 200] l' by simp
  then show ?thesis
    using loader_serves_its_envelope [OF reachable small_identifies] refresh_accepts [OF l']
    by (auto intro!: exI [of _ l'])
qed

theorem failed_refresh_keeps_prices_witness:
  "\<exists>l'. small_refresh 500 = (Inl (HttpStatus 500), l') \<and> status l' = StatusError \<and> \<not> refresh_due l' 300008"
proof -
  have "fst (small_refresh 500) = Inl (HttpStatus 500)"
    by (simp add: refresh_def refresh_locked_def first_loader_def refresh_due_def retry_allows_attempt_def
        allows_attempt_def default_retry_def small_input_def refresh_failed_def Let_def)
  then obtain l' where l': "small_refresh 500 = (Inl (HttpStatus 500), l')"
    by (metis prod.collapse)
  have "consecutive_failures (retry_state first_loader) = 0" "envelope first_loader = None"
    by (simp_all add: first_loader_def default_retry_def)
  then show ?thesis
    using failed_refresh_keeps_prices [OF l'] l'
    by (simp add: retry_delay_ms_def sat_add_def small_input_def)
qed

theorem due_when_deadline_passed_witness:
  "refresh_due first_loader 7 \<and> at_ms (next_refresh_deadline first_loader 7) = 7"
  using due_when_deadline_passed [OF first_loader_reachable, of 7]
  by (simp add: first_loader_def next_refresh_deadline_def default_retry_def)

theorem restart_after_refresh_witness:
  "\<exists>l' env. small_refresh 200 = (Inr (Updated ''sha256:{..}''), l') \<and> cache_file l' = Some env
     \<and> (\<exists>l''. open_with_max_age (\<lambda>n. n) small_text (\<lambda>t. t)
              (Inr (Some (read_back (JObject small_document) env))) (Some env) True 12 (max_age_ms l') = Inr l''
         \<and> handle l'' = handle l')"
proof -
  obtain l' where l': "small_refresh 200 = (Inr (Updated ''sha256:{..}''), l')"
    using small_refresh_accepted by blast
  then show ?thesis
    using restart_after_refresh [OF first_loader_reachable small_identifies small_documents l', where now'_ms = 12]
    by auto
qed

end
