(* ===== verification/Refresh.thy ===== *)
theory Refresh
  imports BMap
begin

text \<open>
  The refresh coordinator (\<open>scheduler/refresh.rs\<close>, \<open>refresh/limits.rs\<close>, \<open>refresh/coordinator.rs\<close>,
  \<open>refresh/coordinator/run.rs\<close>): when which observation of an account or source is read again.

  Its entries are keyed by member, revisions and kind; a claimed entry is in flight under a job
  number, and the jobs charge the concurrency limits until they are completed.  Every operation takes
  the time as an argument, as in the code.
\<close>

section \<open>Kinds and keys\<close>

datatype refresh_kind = RefreshAuth | RefreshQuota | RefreshModels | RefreshBalance | RefreshMetadata
  | RefreshPrices

fun kind_rank :: "refresh_kind \<Rightarrow> nat" where
  "kind_rank RefreshAuth = 0" | "kind_rank RefreshQuota = 1" | "kind_rank RefreshModels = 2"
| "kind_rank RefreshBalance = 3" | "kind_rank RefreshMetadata = 4" | "kind_rank RefreshPrices = 5"

lemma kind_rank_inject [simp]: "kind_rank a = kind_rank b \<longleftrightarrow> a = b"
  by (cases a; cases b) simp_all

instantiation refresh_kind :: linorder
begin

definition less_eq_refresh_kind :: "refresh_kind \<Rightarrow> refresh_kind \<Rightarrow> bool" where
  "less_eq_refresh_kind a b = (kind_rank a \<le> kind_rank b)"

definition less_refresh_kind :: "refresh_kind \<Rightarrow> refresh_kind \<Rightarrow> bool" where
  "less_refresh_kind a b = (kind_rank a < kind_rank b)"

instance
  by standard (auto simp: less_eq_refresh_kind_def less_refresh_kind_def)

end

datatype refresh_identity = RefreshIdentity (ri_member_id: string) (ri_auth_revision: u64) (ri_config_revision: u64)

fun identity_fields :: "refresh_identity \<Rightarrow> string \<times> u64 \<times> u64" where
  "identity_fields (RefreshIdentity m a c) = (m, a, c)"

lemma identity_fields_inject [simp]: "identity_fields a = identity_fields b \<longleftrightarrow> a = b"
  by (cases a; cases b) simp

instantiation refresh_identity :: linorder
begin

definition less_eq_refresh_identity :: "refresh_identity \<Rightarrow> refresh_identity \<Rightarrow> bool" where
  "less_eq_refresh_identity a b = (identity_fields a \<le> identity_fields b)"

definition less_refresh_identity :: "refresh_identity \<Rightarrow> refresh_identity \<Rightarrow> bool" where
  "less_refresh_identity a b = (identity_fields a < identity_fields b)"

instance
  by standard (auto simp: less_eq_refresh_identity_def less_refresh_identity_def less_le_not_le intro: order_trans)

end

datatype refresh_key = RefreshKey (rk_identity: refresh_identity) (rk_kind: refresh_kind)

fun key_fields :: "refresh_key \<Rightarrow> refresh_identity \<times> refresh_kind" where
  "key_fields (RefreshKey i k) = (i, k)"

lemma key_fields_inject [simp]: "key_fields a = key_fields b \<longleftrightarrow> a = b"
  by (cases a; cases b) simp

instantiation refresh_key :: linorder
begin

definition less_eq_refresh_key :: "refresh_key \<Rightarrow> refresh_key \<Rightarrow> bool" where
  "less_eq_refresh_key a b = (key_fields a \<le> key_fields b)"

definition less_refresh_key :: "refresh_key \<Rightarrow> refresh_key \<Rightarrow> bool" where
  "less_refresh_key a b = (key_fields a < key_fields b)"

instance
  by standard (auto simp: less_eq_refresh_key_def less_refresh_key_def less_le_not_le intro: order_trans)

end

definition ACTIVE_QUOTA_INTERVAL_MS :: u64 where "ACTIVE_QUOTA_INTERVAL_MS = 5 * 60 * 1000"
definition IDLE_QUOTA_INTERVAL_MS :: u64 where "IDLE_QUOTA_INTERVAL_MS = 15 * 60 * 1000"
definition ACTIVE_MODELS_INTERVAL_MS :: u64 where "ACTIVE_MODELS_INTERVAL_MS = 8 * 60 * 60 * 1000"
definition IDLE_MODELS_INTERVAL_MS :: u64 where "IDLE_MODELS_INTERVAL_MS = 24 * 60 * 60 * 1000"
definition ACTIVE_BALANCE_INTERVAL_MS :: u64 where "ACTIVE_BALANCE_INTERVAL_MS = 5 * 60 * 1000"
definition IDLE_BALANCE_INTERVAL_MS :: u64 where "IDLE_BALANCE_INTERVAL_MS = 30 * 60 * 1000"
definition ACTIVE_METADATA_INTERVAL_MS :: u64 where "ACTIVE_METADATA_INTERVAL_MS = 60 * 60 * 1000"
definition IDLE_METADATA_INTERVAL_MS :: u64 where "IDLE_METADATA_INTERVAL_MS = 24 * 60 * 60 * 1000"
definition PRICES_INTERVAL_MS :: u64 where "PRICES_INTERVAL_MS = 24 * 60 * 60 * 1000"

lemmas interval_constants = ACTIVE_QUOTA_INTERVAL_MS_def IDLE_QUOTA_INTERVAL_MS_def
  ACTIVE_MODELS_INTERVAL_MS_def IDLE_MODELS_INTERVAL_MS_def ACTIVE_BALANCE_INTERVAL_MS_def
  IDLE_BALANCE_INTERVAL_MS_def ACTIVE_METADATA_INTERVAL_MS_def IDLE_METADATA_INTERVAL_MS_def
  PRICES_INTERVAL_MS_def

fun interval_ms :: "refresh_kind \<Rightarrow> bool \<Rightarrow> u64 option" where
  "interval_ms RefreshAuth a = None"
| "interval_ms RefreshQuota a = Some (if a then ACTIVE_QUOTA_INTERVAL_MS else IDLE_QUOTA_INTERVAL_MS)"
| "interval_ms RefreshModels a = Some (if a then ACTIVE_MODELS_INTERVAL_MS else IDLE_MODELS_INTERVAL_MS)"
| "interval_ms RefreshBalance a = Some (if a then ACTIVE_BALANCE_INTERVAL_MS else IDLE_BALANCE_INTERVAL_MS)"
| "interval_ms RefreshMetadata a = Some (if a then ACTIVE_METADATA_INTERVAL_MS else IDLE_METADATA_INTERVAL_MS)"
| "interval_ms RefreshPrices a = Some PRICES_INTERVAL_MS"

definition RECENT_ACTIVITY_WINDOW_MS :: u64 where "RECENT_ACTIVITY_WINDOW_MS = 10 * 60 * 1000"

definition recently_active :: "u64 option \<Rightarrow> u64 \<Rightarrow> bool" where
  "recently_active last_used now_ms =
     is_some_and last_used (\<lambda>at. at \<le> now_ms \<and> sat_sub now_ms at < RECENT_ACTIVITY_WINDOW_MS)"

section \<open>State\<close>

record refresh_job =
  job_id :: u64
  job_identity :: refresh_identity
  job_kind :: refresh_kind
  job_due_at_ms :: u64
  job_manual :: bool

datatype refresh_outcome = RefreshSuccess | FailedRetryAt u64 | NoProgress | RefreshUnsupported

definition REFRESH_FAILURE_RETRY_MS :: u64 where "REFRESH_FAILURE_RETRY_MS = 60000"

definition retry_after :: "u64 \<Rightarrow> u64 option \<Rightarrow> refresh_outcome" where
  "retry_after now_ms delay_ms =
     FailedRetryAt (sat_add now_ms (max (unwrap_or delay_ms 0) REFRESH_FAILURE_RETRY_MS))"

datatype refresh_freshness = FreshnessUnknown | Fresh u64 | Stale u64 | FreshnessUnsupported

datatype refresh_completion = Applied "u64 option" | StaleCompletion | UnknownJob

record refresh_entry =
  re_origin :: string
  re_next_due :: "u64 option"
  re_not_before :: u64
  re_reschedule_due :: "u64 option"
  re_event_due :: "u64 option"
  re_active :: bool
  re_automatic :: bool
  re_manual :: bool
  re_dirty :: bool
  re_in_flight :: "u64 option"
  re_last_success :: "u64 option"
  re_passive_observation_wall :: "u64 option"
  re_passive_age_at_receive :: "(u64 \<times> u64) option"
  re_passive_fresh_until :: "u64 option"
  re_passive_during_job_due :: "u64 option"
  re_failed :: bool
  re_unsupported :: bool
  re_no_progress_count :: u32

definition new_refresh_entry :: "string \<Rightarrow> bool \<Rightarrow> refresh_entry" where
  "new_refresh_entry origin a =
     \<lparr>re_origin = origin, re_next_due = None, re_not_before = 0, re_reschedule_due = None,
      re_event_due = None, re_active = a, re_automatic = True, re_manual = False, re_dirty = False,
      re_in_flight = None, re_last_success = None, re_passive_observation_wall = None,
      re_passive_age_at_receive = None, re_passive_fresh_until = None, re_passive_during_job_due = None,
      re_failed = False, re_unsupported = False, re_no_progress_count = 0\<rparr>"

fun earliest :: "u64 option \<Rightarrow> u64 option \<Rightarrow> u64 option" where
  "earliest (Some a) (Some b) = Some (min a b)"
| "earliest (Some a) None = Some a"
| "earliest None b = b"

definition entry_schedule :: "u64 option \<Rightarrow> refresh_entry \<Rightarrow> refresh_entry" where
  "entry_schedule due e =
     (if re_unsupported e then e
      else if re_in_flight e \<noteq> None then e\<lparr>re_reschedule_due := earliest (re_reschedule_due e) due\<rparr>
      else e\<lparr>re_next_due := earliest (re_next_due e) due\<rparr>)"

record running_job =
  rj_key :: refresh_key
  rj_origin :: string

record refresh_limits =
  max_entries :: nat
  concurrent :: nat
  per_origin :: nat
  reserved_auth :: nat
  start_spacing_ms :: u64
  origin_spacing_ms :: u64
  minimum_interval_ms :: u64

definition default_refresh_limits :: refresh_limits where
  "default_refresh_limits = \<lparr>max_entries = 8192, concurrent = 8, per_origin = 3, reserved_auth = 1,
     start_spacing_ms = 50, origin_spacing_ms = 250, minimum_interval_ms = 1000\<rparr>"

record refresh_coordinator =
  rc_entries :: "(refresh_key, refresh_entry) bmap"
  rc_jobs :: "(u64, running_job) bmap"
  rc_next_job_id :: u64
  rc_limits :: refresh_limits
  rc_next_start :: u64
  rc_origin_next_start :: "(string, u64) bmap"
  rc_class_cursor :: nat

definition new_coordinator :: "refresh_limits \<Rightarrow> refresh_coordinator option" where
  "new_coordinator limits =
     (if max_entries limits = 0 \<or> concurrent limits = 0 \<or> per_origin limits = 0
         \<or> concurrent limits \<le> reserved_auth limits \<or> per_origin limits \<le> reserved_auth limits
      then None
      else Some \<lparr>rc_entries = bempty, rc_jobs = bempty, rc_next_job_id = 0, rc_limits = limits,
        rc_next_start = 0, rc_origin_next_start = bempty, rc_class_cursor = 0\<rparr>)"

section \<open>Limits\<close>

definition CLASS_ORDER :: "refresh_kind list" where
  "CLASS_ORDER = [RefreshAuth, RefreshQuota, RefreshAuth, RefreshModels, RefreshQuota, RefreshBalance,
     RefreshMetadata, RefreshPrices]"

definition class_distance :: "refresh_coordinator \<Rightarrow> refresh_kind \<Rightarrow> nat" where
  "class_distance c kind =
     unwrap_or
       (find (\<lambda>offset. CLASS_ORDER ! ((rc_class_cursor c + offset) mod length CLASS_ORDER) = kind)
         [0..<length CLASS_ORDER])
       (length CLASS_ORDER)"

definition advance_class :: "refresh_kind \<Rightarrow> refresh_coordinator \<Rightarrow> refresh_coordinator" where
  "advance_class kind c =
     c\<lparr>rc_class_cursor := (rc_class_cursor c + class_distance c kind + 1) mod length CLASS_ORDER\<rparr>"

definition capacity_available :: "refresh_coordinator \<Rightarrow> refresh_entry \<Rightarrow> refresh_kind \<Rightarrow> bool" where
  "capacity_available c e kind =
     (let all_jobs = bsize (rc_jobs c);
          origin_total = bcount (\<lambda>j. rj_origin j = re_origin e) (rc_jobs c) in
      if concurrent (rc_limits c) \<le> all_jobs \<or> per_origin (rc_limits c) \<le> origin_total then False
      else if kind = RefreshAuth then True
      else
        (let ordinary = bcount (\<lambda>j. rk_kind (rj_key j) \<noteq> RefreshAuth) (rc_jobs c);
             origin_ordinary =
               bcount (\<lambda>j. rj_origin j = re_origin e \<and> rk_kind (rj_key j) \<noteq> RefreshAuth) (rc_jobs c)
         in ordinary < concurrent (rc_limits c) - reserved_auth (rc_limits c)
            \<and> origin_ordinary < per_origin (rc_limits c) - reserved_auth (rc_limits c)))"

definition eligible_at :: "refresh_coordinator \<Rightarrow> refresh_entry \<Rightarrow> u64 option" where
  "eligible_at c e =
     map_option (\<lambda>due. max (max (max due (re_not_before e)) (rc_next_start c))
         (unwrap_or (bget (rc_origin_next_start c) (re_origin e)) 0))
       (re_next_due e)"

section \<open>Registration and events\<close>

definition update_entry ::
  "refresh_key \<Rightarrow> (refresh_entry \<Rightarrow> refresh_entry) \<Rightarrow> refresh_coordinator \<Rightarrow> refresh_coordinator" where
  "update_entry key f c = c\<lparr>rc_entries := bmodify key f (rc_entries c)\<rparr>"

definition register_origin ::
  "refresh_identity \<Rightarrow> refresh_kind \<Rightarrow> string \<Rightarrow> u64 \<Rightarrow> bool \<Rightarrow> bool \<Rightarrow> refresh_coordinator \<Rightarrow>
   bool \<times> refresh_coordinator" where
  "register_origin identity kind origin now_ms a due_now c =
     (let key = RefreshKey identity kind in
      if \<not> bcontains (rc_entries c) key \<and> max_entries (rc_limits c) \<le> bsize (rc_entries c) then (False, c)
      else
        (let e0 = unwrap_or (bget (rc_entries c) key) (new_refresh_entry origin a);
             e = e0\<lparr>re_active := a\<rparr>;
             due = (if due_now then Some now_ms else map_option (sat_add now_ms) (interval_ms kind a))
         in (True, c\<lparr>rc_entries :=
               binsert key (if re_in_flight e = None then entry_schedule due e else e) (rc_entries c)\<rparr>)))"

definition register_refresh ::
  "refresh_identity \<Rightarrow> refresh_kind \<Rightarrow> u64 \<Rightarrow> bool \<Rightarrow> bool \<Rightarrow> refresh_coordinator \<Rightarrow> bool \<times> refresh_coordinator" where
  "register_refresh identity kind now_ms a due_now c =
     register_origin identity kind (ri_member_id identity) now_ms a due_now c"

definition schedule_at ::
  "refresh_identity \<Rightarrow> refresh_kind \<Rightarrow> u64 \<Rightarrow> bool \<Rightarrow> refresh_coordinator \<Rightarrow> bool \<times> refresh_coordinator" where
  "schedule_at identity kind due_at_ms a c =
     (let key = RefreshKey identity kind;
          (registered, c1) = (if bcontains (rc_entries c) key then (True, c)
            else register_refresh identity kind due_at_ms a False c)
      in if \<not> registered then (False, c1)
         else (True, update_entry key (\<lambda>e. entry_schedule (Some due_at_ms) (e\<lparr>re_active := a\<rparr>)) c1))"

definition member_range :: "string \<Rightarrow> refresh_key \<Rightarrow> bool" where
  "member_range member_id key =
     (RefreshKey (RefreshIdentity member_id 0 0) RefreshAuth \<le> key
      \<and> key \<le> RefreshKey (RefreshIdentity member_id (- 1) (- 1)) RefreshPrices)"

definition activate_entry :: "refresh_kind \<Rightarrow> bool \<Rightarrow> u64 \<Rightarrow> refresh_entry \<Rightarrow> refresh_entry" where
  "activate_entry kind a now_ms e =
     (if re_active e = a then e
      else
        (case (if kind = RefreshQuota \<and> re_automatic e \<and> \<not> re_unsupported e
               then re_passive_age_at_receive e else None) of
          Some (received_ms, age0) \<Rightarrow>
            (let age_ms = sat_add age0 (sat_sub now_ms received_ms);
                 due_ms = sat_add now_ms (sat_sub (the (interval_ms RefreshQuota a)) age_ms);
                 e1 = e\<lparr>re_passive_fresh_until := Some due_ms\<rparr>;
                 e2 = (if re_in_flight e1 \<noteq> None then e1\<lparr>re_passive_during_job_due := Some due_ms\<rparr>
                   else if \<not> re_manual e1 then e1\<lparr>re_next_due := earliest (re_event_due e1) (Some due_ms)\<rparr>
                   else e1)
             in e2\<lparr>re_active := a\<rparr>)
        | None \<Rightarrow>
            (let e1 = (if a \<and> \<not> re_active e \<and> re_automatic e
                 then entry_schedule
                   (map_option (\<lambda>i. max (sat_add (unwrap_or (re_last_success e) now_ms) i) now_ms)
                     (interval_ms kind True)) e
                 else e)
             in e1\<lparr>re_active := a\<rparr>)))"

definition set_active :: "refresh_identity \<Rightarrow> bool \<Rightarrow> u64 \<Rightarrow> refresh_coordinator \<Rightarrow> bool \<times> refresh_coordinator" where
  "set_active identity a now_ms c =
     (let touched = (\<lambda>key e. member_range (ri_member_id identity) key
            \<and> \<not> (rk_identity key \<noteq> identity \<or> re_active e = a))
      in (list_ex (\<lambda>(key, e). touched key e) (bentries (rc_entries c)),
          c\<lparr>rc_entries := bfilter_map (\<lambda>key e. Some (if touched key e then activate_entry (rk_kind key) a now_ms e else e))
             (rc_entries c)\<rparr>))"

definition mark_dirty :: "refresh_identity \<Rightarrow> refresh_kind \<Rightarrow> u64 \<Rightarrow> refresh_coordinator \<Rightarrow> bool \<times> refresh_coordinator" where
  "mark_dirty identity kind now_ms c =
     (let key = RefreshKey identity kind in
      case bget (rc_entries c) key of None \<Rightarrow> (False, c)
      | Some e \<Rightarrow>
          if re_unsupported e \<or> \<not> re_automatic e then (False, c)
          else (True, update_entry key (\<lambda>e.
             if re_in_flight e \<noteq> None then e\<lparr>re_dirty := True\<rparr>
             else entry_schedule (Some now_ms) (e\<lparr>re_event_due := earliest (re_event_due e) (Some now_ms)\<rparr>)) c))"

definition observe_passive_quota ::
  "refresh_identity \<Rightarrow> u64 \<Rightarrow> u64 \<Rightarrow> u64 \<Rightarrow> refresh_coordinator \<Rightarrow> bool \<times> refresh_coordinator" where
  "observe_passive_quota identity now_ms age_ms observed_at_wall_ms c =
     (let key = RefreshKey identity RefreshQuota in
      case bget (rc_entries c) key of None \<Rightarrow> (False, c)
      | Some e \<Rightarrow>
          (let interval = the (interval_ms RefreshQuota (re_active e)) in
           if \<not> re_automatic e \<or> re_unsupported e \<or> interval \<le> age_ms then (False, c)
           else if is_some_and (re_passive_observation_wall e) (\<lambda>previous. observed_at_wall_ms \<le> previous)
           then (False, c)
           else
             (let due_ms = sat_add now_ms (sat_sub interval age_ms) in
              (True, update_entry key (\<lambda>e.
                 (let e1 = e\<lparr>re_passive_observation_wall := Some observed_at_wall_ms,
                        re_passive_age_at_receive := Some (now_ms, age_ms),
                        re_passive_fresh_until := Some due_ms,
                        re_last_success := Some (sat_sub now_ms age_ms), re_failed := False\<rparr>
                  in if re_in_flight e1 \<noteq> None then e1\<lparr>re_passive_during_job_due := Some due_ms\<rparr>
                     else if \<not> re_manual e1 then e1\<lparr>re_next_due := earliest (re_event_due e1) (Some due_ms)\<rparr>
                     else e1)) c))))"

definition request_now :: "refresh_identity \<Rightarrow> refresh_kind \<Rightarrow> u64 \<Rightarrow> refresh_coordinator \<Rightarrow> bool \<times> refresh_coordinator" where
  "request_now identity kind now_ms c =
     (let key = RefreshKey identity kind in
      if \<not> bcontains (rc_entries c) key then (False, c)
      else (True, update_entry key (\<lambda>e.
         (let e1 = e\<lparr>re_unsupported := False\<rparr>
          in if re_in_flight e1 = None then entry_schedule (Some now_ms) (e1\<lparr>re_manual := True\<rparr>) else e1)) c))"

definition defer_until :: "refresh_identity \<Rightarrow> refresh_kind \<Rightarrow> u64 \<Rightarrow> refresh_coordinator \<Rightarrow> refresh_coordinator" where
  "defer_until identity kind until_ms c =
     update_entry (RefreshKey identity kind) (\<lambda>e. e\<lparr>re_not_before := max (re_not_before e) until_ms\<rparr>) c"

section \<open>Running\<close>

definition claimable :: "refresh_coordinator \<Rightarrow> refresh_key \<Rightarrow> refresh_entry \<Rightarrow> bool" where
  "claimable c key e =
     (re_in_flight e = None \<and> \<not> re_unsupported e \<and> capacity_available c e (rk_kind key))"

definition claim_rank :: "refresh_coordinator \<Rightarrow> refresh_key \<times> refresh_entry \<Rightarrow> nat \<times> u64 option \<times> refresh_key" where
  "claim_rank c item = (class_distance c (rk_kind (fst item)), re_next_due (snd item), fst item)"

definition claim_choice :: "u64 \<Rightarrow> refresh_coordinator \<Rightarrow> (refresh_key \<times> refresh_entry) option" where
  "claim_choice now_ms c =
     min_by (\<lambda>a b. cmp (claim_rank c a) (claim_rank c b))
       (filter (\<lambda>(key, e). claimable c key e \<and> is_some_and (eligible_at c e) (\<lambda>at. at \<le> now_ms))
         (bentries (rc_entries c)))"

definition claim_entry :: "u64 \<Rightarrow> u64 \<Rightarrow> refresh_entry \<Rightarrow> refresh_entry" where
  "claim_entry now_ms jid e =
     (let e1 = e\<lparr>re_next_due := None\<rparr>;
          e2 = (if is_some_and (re_event_due e1) (\<lambda>at. at \<le> now_ms) then e1\<lparr>re_event_due := None\<rparr>
            else e1\<lparr>re_reschedule_due := earliest (re_reschedule_due e1) (re_event_due e1)\<rparr>)
      in e2\<lparr>re_dirty := False, re_in_flight := Some jid, re_manual := False\<rparr>)"

definition claim_due :: "u64 \<Rightarrow> refresh_coordinator \<Rightarrow> refresh_job option \<times> refresh_coordinator" where
  "claim_due now_ms c =
     (case claim_choice now_ms c of None \<Rightarrow> (None, c)
      | Some (key, e) \<Rightarrow>
          (case checked_add (rc_next_job_id c) 1 of None \<Rightarrow> (None, c)
           | Some jid \<Rightarrow>
               (Some \<lparr>job_id = jid, job_identity = rk_identity key, job_kind = rk_kind key,
                  job_due_at_ms = max (unwrap_or (re_next_due e) now_ms) (re_not_before e),
                  job_manual = re_manual e\<rparr>,
                (update_entry key (claim_entry now_ms jid)
                   (advance_class (rk_kind key) (c\<lparr>rc_next_job_id := jid\<rparr>)))
                 \<lparr>rc_next_start := sat_add now_ms (start_spacing_ms (rc_limits c)),
                  rc_origin_next_start := binsert (re_origin e)
                    (sat_add now_ms (origin_spacing_ms (rc_limits c))) (rc_origin_next_start c),
                  rc_jobs := binsert jid \<lparr>rj_key = key, rj_origin = re_origin e\<rparr> (rc_jobs c)\<rparr>)))"

definition prune_origins :: "u64 \<Rightarrow> refresh_coordinator \<Rightarrow> refresh_coordinator" where
  "prune_origins now_ms c =
     (let retained = map re_origin (bvalues (rc_entries c)) @ map rj_origin (bvalues (rc_jobs c))
      in c\<lparr>rc_origin_next_start :=
           bretain (\<lambda>origin at. now_ms < at \<or> origin \<in> set retained) (rc_origin_next_start c)\<rparr>)"

text \<open>The entry after its job: when it is due again, before the floor and the automatic flag.\<close>

definition no_progress_delay :: "u32 \<Rightarrow> u64" where
  "no_progress_delay n = min (push_bit (min (unat (sat_sub n 1)) 6) 5000) 300000"

definition settle_outcome ::
  "refresh_kind \<Rightarrow> refresh_outcome \<Rightarrow> u64 \<Rightarrow> u64 option \<Rightarrow> u64 option \<Rightarrow> bool \<Rightarrow> refresh_entry \<Rightarrow>
   u64 option \<times> refresh_entry" where
  "settle_outcome kind outcome now_ms rescheduled passive_due replaced e =
     (case outcome of
        RefreshSuccess \<Rightarrow>
          (let e1 = e\<lparr>re_no_progress_count := 0\<rparr>;
               (periodic0, e2) = (case passive_due of Some due \<Rightarrow> (Some due, e1)
                 | None \<Rightarrow> (map_option (sat_add now_ms) (interval_ms kind (re_active e1)),
                     e1\<lparr>re_last_success := Some now_ms, re_passive_age_at_receive := None,
                       re_passive_fresh_until := None\<rparr>));
               periodic = (if re_automatic e2 then periodic0 else None);
               scheduled = earliest periodic rescheduled
           in (if re_dirty e2 then earliest scheduled (Some now_ms) else scheduled, e2))
      | FailedRetryAt at \<Rightarrow>
          (let e1 = e\<lparr>re_not_before := max (re_not_before e) at\<rparr>
           in if replaced then (earliest passive_due rescheduled, e1\<lparr>re_no_progress_count := 0\<rparr>)
              else (Some (re_not_before e1), e1))
      | NoProgress \<Rightarrow>
          if replaced then (earliest passive_due rescheduled, e\<lparr>re_no_progress_count := 0\<rparr>)
          else
            (let n = sat_add (re_no_progress_count e) 1;
                 e1 = e\<lparr>re_no_progress_count := n,
                   re_not_before := max (re_not_before e) (sat_add now_ms (no_progress_delay n))\<rparr>
             in (Some (re_not_before e1), e1))
      | RefreshUnsupported \<Rightarrow> (None, e\<lparr>re_unsupported := True, re_event_due := None\<rparr>))"

definition settle_entry :: "refresh_kind \<Rightarrow> refresh_outcome \<Rightarrow> u64 \<Rightarrow> u64 \<Rightarrow> refresh_entry \<Rightarrow> refresh_entry" where
  "settle_entry kind outcome minimum now_ms e0 =
     (let rescheduled = re_reschedule_due e0;
          passive_due = re_passive_during_job_due e0;
          e = e0\<lparr>re_in_flight := None, re_reschedule_due := None, re_passive_during_job_due := None\<rparr>;
          replaced = (passive_due \<noteq> None \<and> \<not> re_dirty e
            \<and> outcome \<noteq> RefreshSuccess \<and> outcome \<noteq> RefreshUnsupported);
          e1 = e\<lparr>re_not_before := max (re_not_before e) (sat_add now_ms minimum),
                 re_failed := (outcome \<noteq> RefreshSuccess \<and> \<not> replaced)\<rparr>;
          (next_due, e2) = settle_outcome kind outcome now_ms rescheduled passive_due replaced e1
      in e2\<lparr>re_dirty := False,
           re_next_due := (if re_automatic e2 then map_option (\<lambda>at. max at (re_not_before e2)) next_due else None)\<rparr>)"

definition complete ::
  "refresh_job \<Rightarrow> refresh_outcome \<Rightarrow> u64 \<Rightarrow> refresh_coordinator \<Rightarrow> refresh_completion \<times> refresh_coordinator" where
  "complete job outcome now_ms c =
     (case bget (rc_jobs c) (job_id job) of None \<Rightarrow> (UnknownJob, c)
      | Some running \<Rightarrow>
          if rk_identity (rj_key running) \<noteq> job_identity job \<or> rk_kind (rj_key running) \<noteq> job_kind job
          then (StaleCompletion, c)
          else
            (let key = rj_key running;
                 c1 = prune_origins now_ms (c\<lparr>rc_jobs := bremove (job_id job) (rc_jobs c)\<rparr>)
             in case bget (rc_entries c1) key of None \<Rightarrow> (StaleCompletion, c1)
                | Some e \<Rightarrow>
                    if re_in_flight e \<noteq> Some (job_id job) then (StaleCompletion, c1)
                    else
                      (let e' = settle_entry (rk_kind key) outcome (minimum_interval_ms (rc_limits c1)) now_ms e
                       in (Applied (re_next_due e'), update_entry key (\<lambda>_. e') c1))))"

definition invalidate_identity :: "refresh_identity \<Rightarrow> refresh_coordinator \<Rightarrow> nat \<times> refresh_coordinator" where
  "invalidate_identity identity c =
     (let kept = bretain (\<lambda>key _. rk_identity key \<noteq> identity) (rc_entries c)
      in (bsize (rc_entries c) - bsize kept, c\<lparr>rc_entries := kept\<rparr>))"

definition remove_kind :: "refresh_identity \<Rightarrow> refresh_kind \<Rightarrow> refresh_coordinator \<Rightarrow> bool \<times> refresh_coordinator" where
  "remove_kind identity kind c =
     (bcontains (rc_entries c) (RefreshKey identity kind),
      c\<lparr>rc_entries := bremove (RefreshKey identity kind) (rc_entries c)\<rparr>)"

definition set_automatic ::
  "refresh_identity \<Rightarrow> refresh_kind \<Rightarrow> bool \<Rightarrow> refresh_coordinator \<Rightarrow> bool \<times> refresh_coordinator" where
  "set_automatic identity kind automatic c =
     (case bget (rc_entries c) (RefreshKey identity kind) of None \<Rightarrow> (False, c)
      | Some e \<Rightarrow>
          (\<not> re_automatic e \<and> automatic,
           update_entry (RefreshKey identity kind) (\<lambda>e.
             (let e1 = e\<lparr>re_automatic := automatic\<rparr>
              in if automatic then e1
                 else if re_in_flight e1 = None then e1\<lparr>re_event_due := None, re_next_due := None\<rparr>
                 else e1\<lparr>re_event_due := None\<rparr>)) c))"

definition refresh_in_flight :: "refresh_identity \<Rightarrow> refresh_kind \<Rightarrow> refresh_coordinator \<Rightarrow> bool" where
  "refresh_in_flight identity kind c =
     is_some_and (bget (rc_entries c) (RefreshKey identity kind)) (\<lambda>e. re_in_flight e \<noteq> None)"

definition schedule_event :: "refresh_identity \<Rightarrow> refresh_kind \<Rightarrow> u64 \<Rightarrow> refresh_coordinator \<Rightarrow> bool \<times> refresh_coordinator" where
  "schedule_event identity kind at_ms c =
     (case bget (rc_entries c) (RefreshKey identity kind) of None \<Rightarrow> (False, c)
      | Some e \<Rightarrow>
          if \<not> re_automatic e \<or> re_unsupported e then (False, c)
          else (True, update_entry (RefreshKey identity kind) (\<lambda>e.
             entry_schedule (Some at_ms) (e\<lparr>re_event_due := earliest (re_event_due e) (Some at_ms)\<rparr>)) c))"

definition pending_jobs :: "refresh_coordinator \<Rightarrow> nat" where
  "pending_jobs c = bsize (rc_jobs c)"

definition next_due :: "refresh_identity \<Rightarrow> refresh_kind \<Rightarrow> refresh_coordinator \<Rightarrow> u64 option" where
  "next_due identity kind c =
     Option.bind (bget (rc_entries c) (RefreshKey identity kind))
       (\<lambda>e. map_option (\<lambda>due. max due (re_not_before e)) (re_next_due e))"

definition next_wake :: "refresh_coordinator \<Rightarrow> u64 option" where
  "next_wake c =
     list_min (List.map_filter (\<lambda>(key, e). eligible_at c e)
       (filter (\<lambda>(key, e). claimable c key e) (bentries (rc_entries c))))"

definition freshness :: "refresh_identity \<Rightarrow> refresh_kind \<Rightarrow> u64 \<Rightarrow> refresh_coordinator \<Rightarrow> refresh_freshness" where
  "freshness identity kind now_ms c =
     (case bget (rc_entries c) (RefreshKey identity kind) of None \<Rightarrow> FreshnessUnknown
      | Some e \<Rightarrow>
          if re_unsupported e then FreshnessUnsupported
          else (case re_last_success e of None \<Rightarrow> FreshnessUnknown
            | Some as_of \<Rightarrow>
                if re_failed e \<or> is_some_and (re_passive_fresh_until e) (\<lambda>until. until \<le> now_ms)
                   \<or> is_some_and (interval_ms kind (re_active e)) (\<lambda>i. sat_add as_of i \<le> now_ms)
                then Stale as_of else Fresh as_of))"

end
