(* ===== verification/RefreshRules.thy ===== *)
theory RefreshRules
  imports Refresh
begin

text \<open>
  The rules of the refresh coordinator: the calls as a datatype, the states they reach, the bounds
  on running reads, single flight, the floors of providers, the wake-up time, and the share of each
  class of reads.
\<close>

section \<open>Calls and reachable states\<close>

datatype refresh_call =
    RegisterOrigin refresh_identity refresh_kind string u64 bool bool
  | Register refresh_identity refresh_kind u64 bool bool
  | ScheduleAt refresh_identity refresh_kind u64 bool
  | SetActive refresh_identity bool u64
  | MarkDirty refresh_identity refresh_kind u64
  | ObservePassiveQuota refresh_identity u64 u64 u64
  | RequestNow refresh_identity refresh_kind u64
  | DeferUntil refresh_identity refresh_kind u64
  | SetAutomatic refresh_identity refresh_kind bool
  | ScheduleEvent refresh_identity refresh_kind u64
  | Invalidate refresh_identity
  | RemoveKind refresh_identity refresh_kind
  | ClaimDue u64
  | Complete refresh_job refresh_outcome u64

fun refresh_call_step :: "refresh_call \<Rightarrow> refresh_coordinator \<Rightarrow> refresh_coordinator" where
  "refresh_call_step (RegisterOrigin i k origin now a due) c = snd (register_origin i k origin now a due c)"
| "refresh_call_step (Register i k now a due) c = snd (register_refresh i k now a due c)"
| "refresh_call_step (ScheduleAt i k at a) c = snd (schedule_at i k at a c)"
| "refresh_call_step (SetActive i a now) c = snd (set_active i a now c)"
| "refresh_call_step (MarkDirty i k now) c = snd (mark_dirty i k now c)"
| "refresh_call_step (ObservePassiveQuota i now age wall) c = snd (observe_passive_quota i now age wall c)"
| "refresh_call_step (RequestNow i k now) c = snd (request_now i k now c)"
| "refresh_call_step (DeferUntil i k until) c = defer_until i k until c"
| "refresh_call_step (SetAutomatic i k a) c = snd (set_automatic i k a c)"
| "refresh_call_step (ScheduleEvent i k at) c = snd (schedule_event i k at c)"
| "refresh_call_step (Invalidate i) c = snd (invalidate_identity i c)"
| "refresh_call_step (RemoveKind i k) c = snd (remove_kind i k c)"
| "refresh_call_step (ClaimDue now) c = snd (claim_due now c)"
| "refresh_call_step (Complete job outcome now) c = snd (complete job outcome now c)"

definition refresh_calls :: "refresh_call list \<Rightarrow> refresh_coordinator \<Rightarrow> refresh_coordinator" where
  "refresh_calls = fold refresh_call_step"

lemma refresh_calls_simps [simp]:
  "refresh_calls [] c = c" "refresh_calls (call # calls) c = refresh_calls calls (refresh_call_step call c)"
  "refresh_calls (calls @ calls') c = refresh_calls calls' (refresh_calls calls c)"
  by (simp_all add: refresh_calls_def)

definition coordinator_reachable :: "refresh_coordinator \<Rightarrow> bool" where
  "coordinator_reachable c \<longleftrightarrow> (\<exists>limits c0 calls. new_coordinator limits = Some c0 \<and> c = refresh_calls calls c0)"

lemma coordinator_reachable_calls: "coordinator_reachable c \<Longrightarrow> coordinator_reachable (refresh_calls calls c)"
  unfolding coordinator_reachable_def by (metis refresh_calls_simps(3))

section \<open>Calls that start and end no read\<close>

text \<open>Such a call leaves the jobs, the pacing and the class cursor alone, and every entry it keeps in
  flight as it was, with the floor of its provider at least as late.\<close>

definition entry_kept :: "refresh_entry \<Rightarrow> refresh_entry \<Rightarrow> bool" where
  "entry_kept e e' \<longleftrightarrow> re_in_flight e' = re_in_flight e \<and> re_origin e' = re_origin e
     \<and> re_not_before e \<le> re_not_before e'"

definition entries_kept :: "(refresh_key, refresh_entry) bmap \<Rightarrow> (refresh_key, refresh_entry) bmap \<Rightarrow> bool" where
  "entries_kept m m' \<longleftrightarrow>
     (\<forall>key e'. bget m' key = Some e' \<longrightarrow>
        (case bget m key of None \<Rightarrow> re_in_flight e' = None | Some e \<Rightarrow> entry_kept e e'))"

definition quiet :: "refresh_coordinator \<Rightarrow> refresh_coordinator \<Rightarrow> bool" where
  "quiet c c' \<longleftrightarrow>
     c' = c\<lparr>rc_entries := rc_entries c'\<rparr> \<and> entries_kept (rc_entries c) (rc_entries c')
     \<and> bsize (rc_entries c') \<le> max (bsize (rc_entries c)) (max_entries (rc_limits c))"

lemma entry_kept_refl [simp]: "entry_kept e e"
  by (simp add: entry_kept_def)

lemma entry_kept_trans: "entry_kept a b \<Longrightarrow> entry_kept b c \<Longrightarrow> entry_kept a c"
  by (auto simp: entry_kept_def)

lemma entry_schedule_kept [simp]: "entry_kept e (entry_schedule due e)"
  by (simp add: entry_schedule_def entry_kept_def)

lemma activate_entry_kept [simp]: "entry_kept e (activate_entry kind a now e)"
  by (auto simp: activate_entry_def entry_kept_def entry_schedule_def Let_def split: option.splits prod.splits)

lemma entries_kept_modify:
  "(\<And>e. entry_kept e (f e)) \<Longrightarrow> entries_kept m (bmodify key f m)"
  by (auto simp: entries_kept_def split: option.splits)

lemma bsize_bmodify [simp]: "bsize (bmodify key f m) = bsize m"
  by (auto simp: bmodify_def bsize_insert_present split: option.split)

lemma quiet_self [simp]: "quiet c c"
  by (auto simp: quiet_def entries_kept_def split: option.splits)

lemma quiet_update:
  "(\<And>e. entry_kept e (f e)) \<Longrightarrow> quiet c (update_entry key f c)"
  by (simp add: quiet_def update_entry_def entries_kept_modify)

lemma quiet_then_update:
  assumes "quiet a b" "\<And>e. entry_kept e (f e)"
  shows "quiet a (update_entry key f b)"
proof -
  have "update_entry key f b = a\<lparr>rc_entries := rc_entries (update_entry key f b)\<rparr>"
    using assms(1) by (cases a; cases b) (simp add: quiet_def update_entry_def)
  moreover have "entries_kept (rc_entries a) (bmodify key f (rc_entries b))"
    unfolding entries_kept_def
  proof (intro allI impI)
    fix k e'
    assume e': "bget (bmodify key f (rc_entries b)) k = Some e'"
    then obtain e where e: "bget (rc_entries b) k = Some e" "entry_kept e e'"
      using assms(2) by (auto split: if_splits)
    with assms(1) show "case bget (rc_entries a) k of None \<Rightarrow> re_in_flight e' = None | Some e \<Rightarrow> entry_kept e e'"
      by (force simp: quiet_def entries_kept_def entry_kept_def split: option.splits)
  qed
  ultimately show ?thesis
    using assms(1) by (simp add: quiet_def update_entry_def)
qed

lemma quiet_register: "quiet c (snd (register_origin i k origin now a due c))"
proof (cases "bget (rc_entries c) (RefreshKey i k)")
  case None
  then show ?thesis
    by (auto simp: register_origin_def Let_def bcontains_def quiet_def entries_kept_def bsize_insert_fresh
        new_refresh_entry_def entry_schedule_def split: option.splits)
next
  case (Some e)
  then show ?thesis
    by (auto simp: register_origin_def Let_def bcontains_def quiet_def entries_kept_def bsize_insert_present
        entry_kept_def entry_schedule_def split: option.splits)
qed

lemma quiet_filter:
  "quiet c (c\<lparr>rc_entries := bretain P (rc_entries c)\<rparr>)"
  using bsize_retain_le [of P "rc_entries c"]
  by (auto simp: quiet_def entries_kept_def split: option.splits if_splits)

lemma quiet_set_active: "quiet c (snd (set_active i a now c))"
  using bsize_filter_map_le
  by (auto simp: set_active_def Let_def quiet_def entries_kept_def bind_eq_Some_conv le_max_iff_disj
      split: option.splits if_splits)

fun starts_or_ends :: "refresh_call \<Rightarrow> bool" where
  "starts_or_ends (ClaimDue now) = True"
| "starts_or_ends (Complete job outcome now) = True"
| "starts_or_ends call = False"

lemma quiet_call: "\<not> starts_or_ends call \<Longrightarrow> quiet c (refresh_call_step call c)"
proof (cases call)
  case (ScheduleAt i k at a)
  have "quiet c (snd (register_refresh i k at a False c))"
    by (simp add: register_refresh_def quiet_register)
  then show ?thesis
    unfolding ScheduleAt
    by (auto simp: schedule_at_def Let_def entry_kept_def entry_schedule_def
        intro!: quiet_then_update quiet_update split: prod.splits if_splits)
next
  case (Invalidate i)
  then show ?thesis by (simp add: invalidate_identity_def Let_def quiet_filter)
next
  case (RemoveKind i k)
  then show ?thesis by (simp add: remove_kind_def bremove_def quiet_filter)
qed (auto simp: quiet_register register_refresh_def quiet_set_active mark_dirty_def observe_passive_quota_def
    request_now_def defer_until_def set_automatic_def schedule_event_def Let_def entry_kept_def entry_schedule_def
    intro!: quiet_update split: option.splits)

section \<open>Claims and completions\<close>

lemma claim_choice_Some:
  assumes "claim_choice now c = Some (key, e)"
  shows "bget (rc_entries c) key = Some e" "claimable c key e"
    "is_some_and (eligible_at c e) (\<lambda>at. at \<le> now)"
proof -
  have "(key, e) \<in> set (filter (\<lambda>(key, e). claimable c key e \<and> is_some_and (eligible_at c e) (\<lambda>at. at \<le> now))
      (bentries (rc_entries c)))"
    using assms unfolding claim_choice_def by (rule min_by_in)
  then show "bget (rc_entries c) key = Some e" "claimable c key e"
    "is_some_and (eligible_at c e) (\<lambda>at. at \<le> now)"
    by (auto simp: bget_in_entries)
qed

lemma claim_due_Some:
  assumes "claim_due now c = (Some job, c')"
  obtains key e where "claim_choice now c = Some (key, e)" "bget (rc_entries c) key = Some e" "claimable c key e"
    "is_some_and (eligible_at c e) (\<lambda>at. at \<le> now)"
    "key = RefreshKey (job_identity job) (job_kind job)"
    "checked_add (rc_next_job_id c) 1 = Some (job_id job)"
    "c' = (update_entry key (claim_entry now (job_id job)) (advance_class (rk_kind key) (c\<lparr>rc_next_job_id := job_id job\<rparr>)))
       \<lparr>rc_next_start := sat_add now (start_spacing_ms (rc_limits c)),
        rc_origin_next_start := binsert (re_origin e)
          (sat_add now (origin_spacing_ms (rc_limits c))) (rc_origin_next_start c),
        rc_jobs := binsert (job_id job) \<lparr>rj_key = key, rj_origin = re_origin e\<rparr> (rc_jobs c)\<rparr>"
proof -
  obtain key e where choice: "claim_choice now c = Some (key, e)"
    using assms by (auto simp: claim_due_def split: option.splits prod.splits)
  show ?thesis
    using assms choice claim_choice_Some [OF choice]
    by (intro that [of key e]) (auto simp: claim_due_def split: option.splits)
qed

lemma claim_due_None: "fst (claim_due now c) = None \<Longrightarrow> snd (claim_due now c) = c"
  by (auto simp: claim_due_def split: option.splits prod.splits)

definition within_limits :: "refresh_coordinator \<Rightarrow> bool" where
  "within_limits c \<longleftrightarrow>
     bsize (rc_jobs c) \<le> concurrent (rc_limits c)
     \<and> bcount (\<lambda>j. rk_kind (rj_key j) \<noteq> RefreshAuth) (rc_jobs c)
         \<le> concurrent (rc_limits c) - reserved_auth (rc_limits c)
     \<and> (\<forall>origin. bcount (\<lambda>j. rj_origin j = origin) (rc_jobs c) \<le> per_origin (rc_limits c)
         \<and> bcount (\<lambda>j. rj_origin j = origin \<and> rk_kind (rj_key j) \<noteq> RefreshAuth) (rc_jobs c)
             \<le> per_origin (rc_limits c) - reserved_auth (rc_limits c))"

definition coordinator_ok :: "refresh_coordinator \<Rightarrow> bool" where
  "coordinator_ok c \<longleftrightarrow>
     reserved_auth (rc_limits c) < concurrent (rc_limits c)
     \<and> reserved_auth (rc_limits c) < per_origin (rc_limits c)
     \<and> rc_class_cursor c < length CLASS_ORDER
     \<and> bsize (rc_entries c) \<le> max_entries (rc_limits c)
     \<and> (\<forall>jid j. bget (rc_jobs c) jid = Some j \<longrightarrow> jid \<le> rc_next_job_id c)
     \<and> (\<forall>key e jid. bget (rc_entries c) key = Some e \<longrightarrow> re_in_flight e = Some jid \<longrightarrow>
          bget (rc_jobs c) jid = Some \<lparr>rj_key = key, rj_origin = re_origin e\<rparr>)
     \<and> within_limits c"

lemma claim_entry_simps [simp]:
  "re_in_flight (claim_entry now jid e) = Some jid" "re_origin (claim_entry now jid e) = re_origin e"
  "re_not_before (claim_entry now jid e) = re_not_before e"
  by (simp_all add: claim_entry_def Let_def)

lemma settle_entry_in_flight [simp]:
  "re_in_flight (settle_entry kind outcome minimum now e) = None"
  "re_origin (settle_entry kind outcome minimum now e) = re_origin e"
  by (auto simp: settle_entry_def settle_outcome_def Let_def split: refresh_outcome.splits option.splits prod.splits)

lemma settle_entry_floor:
  "re_not_before e \<le> re_not_before (settle_entry kind outcome minimum now e)"
  "sat_add now minimum \<le> re_not_before (settle_entry kind outcome minimum now e)"
  "outcome = FailedRetryAt at \<Longrightarrow> at \<le> re_not_before (settle_entry kind outcome minimum now e)"
  by (auto simp: settle_entry_def settle_outcome_def Let_def le_max_iff_disj
      split: refresh_outcome.splits option.splits prod.splits)

lemma checked_add_1_greater: "checked_add a 1 = Some b \<Longrightarrow> a < (b :: u64)"
  by (drule checked_add_unat) (simp add: word_less_nat_alt)

lemma within_limits_insert:
  assumes "within_limits c" "claimable c key e" "bget (rc_jobs c) jid = None"
  shows "within_limits (c\<lparr>rc_jobs := binsert jid \<lparr>rj_key = key, rj_origin = re_origin e\<rparr> (rc_jobs c)\<rparr>)"
  using assms
  by (auto simp: within_limits_def claimable_def capacity_available_def Let_def bcount_insert_fresh
      bsize_insert_fresh Suc_le_eq split: if_splits)

lemma bcount_remove_le: "bcount P (bremove k m) \<le> bcount P m"
  by (cases "bget m k") (simp_all add: bremove_absent bcount_remove_diff)

lemma within_limits_remove:
  assumes "within_limits c"
  shows "within_limits (c\<lparr>rc_jobs := bremove jid (rc_jobs c)\<rparr>)"
  using assms bcount_remove_le [of _ jid "rc_jobs c"]
  by (auto simp: within_limits_def bsize_eq_count intro: order_trans)

lemma within_limits_cong:
  "rc_jobs c' = rc_jobs c \<Longrightarrow> rc_limits c' = rc_limits c \<Longrightarrow> within_limits c' = within_limits c"
  by (simp add: within_limits_def)

lemma quiet_fields:
  assumes "quiet c c'"
  shows "rc_jobs c' = rc_jobs c" "rc_limits c' = rc_limits c" "rc_next_job_id c' = rc_next_job_id c"
    "rc_class_cursor c' = rc_class_cursor c" "rc_next_start c' = rc_next_start c"
    "rc_origin_next_start c' = rc_origin_next_start c"
  using assms by (cases c; cases c'; simp add: quiet_def)+

lemma quiet_entry:
  assumes "quiet c c'" "bget (rc_entries c') key = Some e'"
  shows "(bget (rc_entries c) key = None \<and> re_in_flight e' = None) \<or>
    (\<exists>e. bget (rc_entries c) key = Some e \<and> entry_kept e e')"
  using assms by (force simp: quiet_def entries_kept_def split: option.splits)

lemma quiet_ok:
  assumes "quiet c c'" "coordinator_ok c"
  shows "coordinator_ok c'"
proof -
  note same = quiet_fields [OF assms(1)]
  have "bsize (rc_entries c') \<le> max_entries (rc_limits c)"
    using assms by (auto simp: quiet_def coordinator_ok_def)
  moreover have "bget (rc_jobs c) jid = Some \<lparr>rj_key = key, rj_origin = re_origin e'\<rparr>"
    if "bget (rc_entries c') key = Some e'" "re_in_flight e' = Some jid" for key e' jid
    using quiet_entry [OF assms(1) that(1)] that(2) assms(2) by (auto simp: coordinator_ok_def entry_kept_def)
  ultimately show ?thesis
    using assms(2) within_limits_cong [OF same(1,2)] by (auto simp: coordinator_ok_def same)
qed

lemma claim_ok:
  assumes "coordinator_ok c"
  shows "coordinator_ok (snd (claim_due now c))"
proof (cases "claim_due now c")
  case (Pair result c')
  show ?thesis
  proof (cases result)
    case None
    then show ?thesis using claim_due_None [of now c] Pair assms by simp
  next
    case (Some job)
    from claim_due_Some [OF Pair [unfolded Some]] obtain key e where claim:
      "bget (rc_entries c) key = Some e" "claimable c key e"
      "checked_add (rc_next_job_id c) 1 = Some (job_id job)"
      and c': "c' = (update_entry key (claim_entry now (job_id job)) (advance_class (rk_kind key) (c\<lparr>rc_next_job_id := job_id job\<rparr>)))
       \<lparr>rc_next_start := sat_add now (start_spacing_ms (rc_limits c)),
        rc_origin_next_start := binsert (re_origin e)
          (sat_add now (origin_spacing_ms (rc_limits c))) (rc_origin_next_start c),
        rc_jobs := binsert (job_id job) \<lparr>rj_key = key, rj_origin = re_origin e\<rparr> (rc_jobs c)\<rparr>"
      by blast
    note larger = checked_add_1_greater [OF claim(3)]
    have fresh: "bget (rc_jobs c) (job_id job) = None"
      using assms larger by (cases "bget (rc_jobs c) (job_id job)") (auto simp: coordinator_ok_def)
    have jobs: "rc_jobs c' = binsert (job_id job) \<lparr>rj_key = key, rj_origin = re_origin e\<rparr> (rc_jobs c)"
      and same: "rc_limits c' = rc_limits c" "rc_next_job_id c' = job_id job"
      and entries: "rc_entries c' = bmodify key (claim_entry now (job_id job)) (rc_entries c)"
      and cursor: "rc_class_cursor c' < length CLASS_ORDER"
      by (simp_all add: c' update_entry_def advance_class_def CLASS_ORDER_def)
    have within: "within_limits c'"
      using within_limits_insert [OF _ claim(2) fresh] assms jobs same
      by (simp add: within_limits_def coordinator_ok_def)
    have in_flight: "bget (rc_jobs c') jid = Some \<lparr>rj_key = k, rj_origin = re_origin e'\<rparr>"
      if "bget (rc_entries c') k = Some e'" "re_in_flight e' = Some jid" for k e' jid
    proof (cases "k = key")
      case True
      with that claim(1) show ?thesis by (auto simp: entries jobs)
    next
      case False
      then have "bget (rc_jobs c) jid = Some \<lparr>rj_key = k, rj_origin = re_origin e'\<rparr>"
        using that assms by (auto simp: entries coordinator_ok_def)
      with fresh show ?thesis by (auto simp: jobs)
    qed
    have "jid \<le> job_id job" if "bget (rc_jobs c') jid = Some j" for jid j
      using that assms larger by (auto simp: jobs coordinator_ok_def split: if_splits intro: less_imp_le order.strict_trans1)
    then show ?thesis
      using assms within in_flight cursor by (auto simp: coordinator_ok_def Pair same entries)
  qed
qed

lemma pruned_fields [simp]:
  "rc_jobs (prune_origins now c) = rc_jobs c" "rc_limits (prune_origins now c) = rc_limits c"
  "rc_entries (prune_origins now c) = rc_entries c" "rc_next_job_id (prune_origins now c) = rc_next_job_id c"
  "rc_class_cursor (prune_origins now c) = rc_class_cursor c" "rc_next_start (prune_origins now c) = rc_next_start c"
  by (simp_all add: prune_origins_def Let_def)

text \<open>What a completion does: nothing, or it frees the job, and then perhaps settles the entry.\<close>

lemma complete_cases:
  assumes "complete job outcome now c = (result, c')"
  obtains (refused) "c' = c" "result \<in> {UnknownJob, StaleCompletion}"
  | (freed) j where "bget (rc_jobs c) (job_id job) = Some j" "rj_key j = RefreshKey (job_identity job) (job_kind job)"
      "c' = prune_origins now (c\<lparr>rc_jobs := bremove (job_id job) (rc_jobs c)\<rparr>)" "result = StaleCompletion"
      "\<And>e. bget (rc_entries c) (rj_key j) = Some e \<Longrightarrow> re_in_flight e \<noteq> Some (job_id job)"
  | (settled) e where "bget (rc_entries c) (RefreshKey (job_identity job) (job_kind job)) = Some e"
      "re_in_flight e = Some (job_id job)"
      "c' = update_entry (RefreshKey (job_identity job) (job_kind job))
         (\<lambda>_. settle_entry (job_kind job) outcome (minimum_interval_ms (rc_limits c)) now e)
         (prune_origins now (c\<lparr>rc_jobs := bremove (job_id job) (rc_jobs c)\<rparr>))"
      "result = Applied (re_next_due (settle_entry (job_kind job) outcome (minimum_interval_ms (rc_limits c)) now e))"
proof (cases "bget (rc_jobs c) (job_id job)")
  case None
  then show ?thesis using assms by (intro refused) (auto simp: complete_def)
next
  case (Some j)
  show ?thesis
  proof (cases "rk_identity (rj_key j) = job_identity job \<and> rk_kind (rj_key j) = job_kind job")
    case False
    then show ?thesis using assms Some by (intro refused) (auto simp: complete_def)
  next
    case True
    then have key: "rj_key j = RefreshKey (job_identity job) (job_kind job)" by (cases "rj_key j") simp
    show ?thesis
    proof (cases "\<exists>e. bget (rc_entries c) (rj_key j) = Some e \<and> re_in_flight e = Some (job_id job)")
      case True
      then show ?thesis using assms Some key
        by (elim exE, intro settled) (auto simp: complete_def Let_def)
    next
      case False
      then show ?thesis using assms Some key
        by (intro freed [of j]) (auto simp: complete_def Let_def split: option.splits if_splits)
    qed
  qed
qed

lemma complete_ok:
  assumes "coordinator_ok c"
  shows "coordinator_ok (snd (complete job outcome now c))"
proof (cases "complete job outcome now c")
  case (Pair result c')
  define cleared where "cleared = prune_origins now (c\<lparr>rc_jobs := bremove (job_id job) (rc_jobs c)\<rparr>)"
  have within: "within_limits cleared"
    using within_limits_remove [of c "job_id job"] assms
    by (simp add: coordinator_ok_def within_limits_def cleared_def)
  have unflown: "jid \<noteq> job_id job"
    if "bget (rc_jobs c) (job_id job) = Some j" "bget (rc_entries c) k = Some e" "re_in_flight e = Some jid"
      "k = rj_key j \<Longrightarrow> re_in_flight e \<noteq> Some (job_id job)" for j k e jid
    using that assms by (auto simp: coordinator_ok_def)
  from Pair show ?thesis
  proof (cases rule: complete_cases)
    case refused
    then show ?thesis using assms Pair by simp
  next
    case (freed j)
    then have "coordinator_ok cleared"
      using assms within unflown [OF freed(1)] by (auto simp: coordinator_ok_def cleared_def)
    then show ?thesis using freed(3) Pair by (simp add: cleared_def)
  next
    case (settled e)
    have j: "bget (rc_jobs c) (job_id job) =
        Some \<lparr>rj_key = RefreshKey (job_identity job) (job_kind job), rj_origin = re_origin e\<rparr>"
      using assms settled(1,2) by (auto simp: coordinator_ok_def)
    have "coordinator_ok c'"
      using assms within_limits_cong [of c' cleared] within j
      by (auto simp: coordinator_ok_def settled(3) cleared_def update_entry_def)
    then show ?thesis using Pair by simp
  qed
qed

lemma call_ok: "coordinator_ok c \<Longrightarrow> coordinator_ok (refresh_call_step call c)"
  by (cases "starts_or_ends call") (auto elim!: starts_or_ends.elims intro: claim_ok complete_ok quiet_ok quiet_call)

lemma calls_ok: "coordinator_ok c \<Longrightarrow> coordinator_ok (refresh_calls calls c)"
  by (induction calls arbitrary: c) (auto intro: call_ok)

lemma new_coordinator_ok: "new_coordinator limits = Some c \<Longrightarrow> coordinator_ok c"
  by (auto simp: new_coordinator_def coordinator_ok_def within_limits_def CLASS_ORDER_def split: if_splits)

lemma reachable_ok: "coordinator_reachable c \<Longrightarrow> coordinator_ok c"
  by (auto simp: coordinator_reachable_def intro: calls_ok new_coordinator_ok)

section \<open>The share of a class\<close>

abbreviation class_at :: "nat \<Rightarrow> refresh_kind" where
  "class_at n \<equiv> CLASS_ORDER ! (n mod length CLASS_ORDER)"

lemma find_upt: "find P [0..<n] = Some d \<longleftrightarrow> d < n \<and> P d \<and> (\<forall>j < d. \<not> P j)"
  by (auto simp: find_Some_iff)

lemma class_distance_cases:
  "(class_distance c kind = length CLASS_ORDER \<and> (\<forall>k < length CLASS_ORDER. class_at (rc_class_cursor c + k) \<noteq> kind))
   \<or> (class_distance c kind < length CLASS_ORDER \<and> class_at (rc_class_cursor c + class_distance c kind) = kind
      \<and> (\<forall>k < class_distance c kind. class_at (rc_class_cursor c + k) \<noteq> kind))"
proof (cases "find (\<lambda>offset. class_at (rc_class_cursor c + offset) = kind) [0..<length CLASS_ORDER]")
  case None
  then have "class_distance c kind = length CLASS_ORDER" by (simp add: class_distance_def)
  with None show ?thesis by (simp add: find_None_iff)
next
  case (Some d)
  then have "class_distance c kind = d" by (simp add: class_distance_def)
  with Some show ?thesis by (simp add: find_upt)
qed

lemma class_distance_le: "class_at (rc_class_cursor c + k) = kind \<Longrightarrow> class_distance c kind \<le> k"
  using class_distance_cases [of c kind] by (metis le_trans not_less)

lemma class_distance_hit:
  "class_distance c kind < length CLASS_ORDER \<Longrightarrow> class_at (rc_class_cursor c + class_distance c kind) = kind"
  using class_distance_cases [of c kind] by auto

lemma every_class_listed: "\<exists>k < length CLASS_ORDER. CLASS_ORDER ! k = kind"
proof -
  have "kind \<in> set CLASS_ORDER" by (cases kind) (simp_all add: CLASS_ORDER_def)
  then show ?thesis by (simp add: in_set_conv_nth)
qed

lemma class_distance_bound: "class_distance c kind < length CLASS_ORDER"
proof -
  obtain k where k: "k < length CLASS_ORDER" "CLASS_ORDER ! k = kind" using every_class_listed by blast
  define n where "n = length CLASS_ORDER"
  define d where "d = (k + (n - rc_class_cursor c mod n)) mod n"
  have "0 < n" using k(1) unfolding n_def by linarith
  then have small: "rc_class_cursor c mod n \<le> n" by (simp add: less_imp_le)
  have "(rc_class_cursor c + d) mod n = (rc_class_cursor c mod n + (k + (n - rc_class_cursor c mod n))) mod n"
    unfolding d_def by (simp add: mod_add_left_eq mod_add_right_eq)
  also have "\<dots> = (k + n) mod n"
    using small by (simp add: add.commute add.left_commute)
  finally have "class_at (rc_class_cursor c + d) = kind" using k by (simp add: n_def)
  then have "class_distance c kind \<le> d" by (rule class_distance_le)
  moreover have "d < n" using \<open>0 < n\<close> by (simp add: d_def)
  ultimately show ?thesis by (simp add: n_def)
qed

text \<open>A claim of a class nearer to the cursor brings every farther class closer.\<close>

lemma class_distance_decreases:
  assumes "class_distance c other < class_distance c kind"
  shows "class_distance (advance_class other c) kind < class_distance c kind"
proof -
  define n where "n = length CLASS_ORDER"
  define skip where "skip = class_distance c other + 1"
  have hit: "class_at (rc_class_cursor c + class_distance c kind) = kind"
    by (rule class_distance_hit [OF class_distance_bound])
  have "(rc_class_cursor (advance_class other c) + (class_distance c kind - skip)) mod n =
      (rc_class_cursor c + skip + (class_distance c kind - skip)) mod n"
    by (simp add: advance_class_def n_def skip_def mod_add_left_eq del: add_diff_assoc)
  also have "\<dots> = (rc_class_cursor c + class_distance c kind) mod n"
    using assms by (simp add: skip_def)
  finally have "(rc_class_cursor (advance_class other c) + (class_distance c kind - skip)) mod n =
      (rc_class_cursor c + class_distance c kind) mod n" .
  then have "class_distance (advance_class other c) kind \<le> class_distance c kind - skip"
    using hit by (intro class_distance_le) (simp add: n_def)
  then show ?thesis using assms by (simp add: skip_def)
qed

text \<open>The reads a sequence of calls starts, and a class that is passed over by all of them although it
  is ready at every claim.\<close>

fun claims :: "refresh_call list \<Rightarrow> refresh_coordinator \<Rightarrow> refresh_job list" where
  "claims [] c = []"
| "claims (call # calls) c =
     (case call of ClaimDue now \<Rightarrow> (case fst (claim_due now c) of None \<Rightarrow> [] | Some job \<Rightarrow> [job]) | _ \<Rightarrow> [])
     @ claims calls (refresh_call_step call c)"

definition class_ready :: "refresh_kind \<Rightarrow> u64 \<Rightarrow> refresh_coordinator \<Rightarrow> bool" where
  "class_ready kind now c \<longleftrightarrow>
     (\<exists>key e. bget (rc_entries c) key = Some e \<and> rk_kind key = kind \<and> claimable c key e
        \<and> is_some_and (eligible_at c e) (\<lambda>at. at \<le> now))"

fun always_ready :: "refresh_kind \<Rightarrow> refresh_call list \<Rightarrow> refresh_coordinator \<Rightarrow> bool" where
  "always_ready kind [] c = True"
| "always_ready kind (call # calls) c =
     ((case call of ClaimDue now \<Rightarrow> class_ready kind now c | _ \<Rightarrow> True)
      \<and> always_ready kind calls (refresh_call_step call c))"

lemma claim_rank_comparator: "comparator (\<lambda>a b. cmp (claim_rank c a) (claim_rank c b)) S"
  by unfold_locales (auto simp: cmp_reverse_cmp)

lemma claim_choice_least:
  assumes "claim_choice now c = Some (key, e)" "bget (rc_entries c) k = Some e'" "claimable c k e'"
    "is_some_and (eligible_at c e') (\<lambda>at. at \<le> now)"
  shows "claim_rank c (key, e) \<le> claim_rank c (k, e')"
proof -
  define xs where "xs = filter (\<lambda>(key, e). claimable c key e \<and> is_some_and (eligible_at c e) (\<lambda>at. at \<le> now))
      (bentries (rc_entries c))"
  have "(k, e') \<in> set xs" using assms by (auto simp: xs_def bget_in_entries)
  moreover have "min_by (\<lambda>a b. cmp (claim_rank c a) (claim_rank c b)) xs = Some (key, e)"
    using assms(1) by (simp add: claim_choice_def xs_def)
  ultimately have "cmp (claim_rank c (key, e)) (claim_rank c (k, e')) \<noteq> GreaterThan"
    using comparator.min_by_least [OF claim_rank_comparator [of c "set xs"]] by blast
  then show ?thesis by (simp add: cmp_not_greater)
qed

lemma claim_class_nearest:
  assumes "claim_due now c = (Some job, c')" "class_ready kind now c"
  shows "class_distance c (job_kind job) \<le> class_distance c kind"
proof -
  obtain key e where key: "claim_choice now c = Some (key, e)" "key = RefreshKey (job_identity job) (job_kind job)"
    using claim_due_Some [OF assms(1)] by metis
  obtain k e' where ready: "bget (rc_entries c) k = Some e'" "rk_kind k = kind" "claimable c k e'"
      "is_some_and (eligible_at c e') (\<lambda>at. at \<le> now)"
    using assms(2) by (auto simp: class_ready_def)
  have "claim_rank c (key, e) \<le> claim_rank c (k, e')"
    by (rule claim_choice_least [OF key(1) ready(1,3,4)])
  then show ?thesis
    using key(2) ready(2) by (auto simp: claim_rank_def less_eq_prod_def)
qed

lemma claim_class_cursor:
  assumes "claim_due now c = (Some job, c')"
  shows "class_distance c' kind = class_distance (advance_class (job_kind job) c) kind"
proof -
  have "rc_class_cursor c' = rc_class_cursor (advance_class (job_kind job) c)"
    by (rule claim_due_Some [OF assms]) (simp add: update_entry_def advance_class_def class_distance_def)
  then show ?thesis by (simp add: class_distance_def)
qed

lemma claim_class_closer:
  assumes "claim_due now c = (Some job, c')" "class_ready kind now c" "job_kind job \<noteq> kind"
  shows "class_distance c' kind < class_distance c kind"
proof -
  have "class_distance c (job_kind job) \<noteq> class_distance c kind"
    using class_distance_hit [OF class_distance_bound, of c "job_kind job"]
      class_distance_hit [OF class_distance_bound, of c kind] assms(3) by metis
  then show ?thesis
    using claim_class_nearest [OF assms(1,2)] class_distance_decreases [of c "job_kind job" kind]
      claim_class_cursor [OF assms(1)] by simp
qed

lemma complete_cursor [simp]: "rc_class_cursor (snd (complete job outcome now c)) = rc_class_cursor c"
  by (cases "complete job outcome now c"; cases rule: complete_cases) (auto simp: update_entry_def)

lemma call_cursor:
  "(\<And>now. call \<noteq> ClaimDue now) \<Longrightarrow> class_distance (refresh_call_step call c) kind = class_distance c kind"
  using quiet_fields(4) [OF quiet_call, of call c]
  by (cases "starts_or_ends call") (auto simp: class_distance_def elim!: starts_or_ends.elims)

lemma claims_passing_over:
  "always_ready kind calls c \<Longrightarrow> kind \<notin> job_kind ` set (claims calls c) \<Longrightarrow>
   length (claims calls c) \<le> class_distance c kind"
proof (induction calls arbitrary: c)
  case (Cons call calls)
  show ?case
  proof (cases "\<exists>now. call = ClaimDue now")
    case True
    then obtain now where call: "call = ClaimDue now" by blast
    show ?thesis
    proof (cases "claim_due now c")
      case (Pair result c')
      then show ?thesis
        using Cons.IH [of c'] Cons.prems claim_class_closer [of now c _ c' kind] claim_due_None [of now c]
        by (cases result) (fastforce simp: call)+
    qed
  next
    case False
    then have "claims (call # calls) c = claims calls (refresh_call_step call c)"
        "always_ready kind calls (refresh_call_step call c)"
      using Cons.prems(1) by (cases call, simp_all)+
    moreover have "class_distance (refresh_call_step call c) kind = class_distance c kind"
      using False by (intro call_cursor) blast
    ultimately show ?thesis using Cons.IH [of "refresh_call_step call c"] Cons.prems(2) by simp
  qed
qed simp

section \<open>Floors and wake-ups\<close>

fun drops :: "refresh_key \<Rightarrow> refresh_call \<Rightarrow> bool" where
  "drops key (Invalidate i) = (rk_identity key = i)"
| "drops key (RemoveKind i k) = (key = RefreshKey i k)"
| "drops key call = False"

lemma kept_entries:
  assumes "\<not> drops key call" "bget (rc_entries c) key = Some e"
  shows "bget (rc_entries (refresh_call_step call c)) key \<noteq> None"
  using assms
  by (cases call)
    (auto simp: register_origin_def register_refresh_def schedule_at_def set_active_def mark_dirty_def
      observe_passive_quota_def request_now_def defer_until_def set_automatic_def schedule_event_def
      invalidate_identity_def remove_kind_def claim_due_def complete_def update_entry_def advance_class_def Let_def
      split: option.splits prod.splits)

lemma floor_call:
  assumes "bget (rc_entries c) key = Some e" "at \<le> re_not_before e" "\<not> drops key call"
  shows "\<exists>e'. bget (rc_entries (refresh_call_step call c)) key = Some e' \<and> at \<le> re_not_before e'"
proof -
  obtain e' where e': "bget (rc_entries (refresh_call_step call c)) key = Some e'"
    using kept_entries [OF assms(3,1)] by blast
  have "re_not_before e \<le> re_not_before e'"
  proof (cases "starts_or_ends call")
    case False
    then show ?thesis
      using quiet_entry [OF quiet_call [OF False] e'] assms(1) by (auto simp: entry_kept_def)
  next
    case True
    then consider now where "call = ClaimDue now" | job outcome now where "call = Complete job outcome now"
      by (cases call) auto
    then show ?thesis
    proof cases
      case 1
      show ?thesis
      proof (cases "claim_due now c")
        case (Pair result c')
        then show ?thesis
          using e' assms(1) claim_due_None [of now c]
          by (cases result) (auto simp: 1 update_entry_def advance_class_def elim!: claim_due_Some split: if_splits)
      qed
    next
      case 2
      obtain result c' where completed: "complete job outcome now c = (result, c')" by fastforce
      then have "bget (rc_entries c') key = Some e'" using e' 2 by simp
      with completed show ?thesis
        using assms(1)
        by (cases rule: complete_cases) (auto simp: update_entry_def settle_entry_floor(1) split: if_splits)
    qed
  qed
  then show ?thesis using e' assms(2) by (meson order_trans)
qed

lemma floor_calls:
  "bget (rc_entries c) key = Some e \<Longrightarrow> at \<le> re_not_before e \<Longrightarrow> \<forall>call \<in> set calls. \<not> drops key call \<Longrightarrow>
   \<exists>e'. bget (rc_entries (refresh_calls calls c)) key = Some e' \<and> at \<le> re_not_before e'"
proof (induction calls arbitrary: c e)
  case (Cons call calls)
  obtain e1 where "bget (rc_entries (refresh_call_step call c)) key = Some e1" "at \<le> re_not_before e1"
    using floor_call [OF Cons.prems(1,2)] Cons.prems(3) by auto
  then show ?case using Cons.IH Cons.prems(3) by simp
qed auto

lemma claim_after_floor:
  assumes "claim_due t c = (Some job, c')" "bget (rc_entries c) (RefreshKey (job_identity job) (job_kind job)) = Some e"
    "at \<le> re_not_before e"
  shows "at \<le> t"
proof -
  have "re_not_before e \<le> t"
    by (rule claim_due_Some [OF assms(1)])
      (use assms(2) in \<open>auto simp: eligible_at_def is_some_and_iff\<close>)
  with assms(3) show ?thesis by (rule order_trans)
qed

lemma claim_choice_exists:
  "claim_choice now c \<noteq> None \<longleftrightarrow>
     (\<exists>key e. bget (rc_entries c) key = Some e \<and> claimable c key e \<and> is_some_and (eligible_at c e) (\<lambda>at. at \<le> now))"
  by (auto simp: claim_choice_def filter_empty_conv bget_in_entries)

lemma list_min_le: "is_some_and (list_min xs) (\<lambda>m. m \<le> b) \<longleftrightarrow> (\<exists>x \<in> set xs. x \<le> b)"
proof (cases "list_min xs")
  case None
  then show ?thesis by (simp add: list_min_def)
next
  case (Some m)
  then show ?thesis
    using list_min_Some [OF Some] by (auto intro: order_trans)
qed

section \<open>The properties\<close>

text \<open>C4: In every state the coordinator reaches: the running reads respect the concurrency, in total and for
  each origin, and reads other than of credentials leave the reserved places free; every entry in
  flight belongs to a running read of its own (single flight, no read is charged twice), and the
  entries are bounded.\<close>
theorem refresh_limits_kept:
  assumes "coordinator_reachable c"
  shows "bsize (rc_entries c) \<le> max_entries (rc_limits c)
    \<and> bsize (rc_jobs c) \<le> concurrent (rc_limits c)
    \<and> bcount (\<lambda>j. rk_kind (rj_key j) \<noteq> RefreshAuth) (rc_jobs c) + reserved_auth (rc_limits c) \<le> concurrent (rc_limits c)
    \<and> (\<forall>origin. bcount (\<lambda>j. rj_origin j = origin) (rc_jobs c) \<le> per_origin (rc_limits c)
         \<and> bcount (\<lambda>j. rj_origin j = origin \<and> rk_kind (rj_key j) \<noteq> RefreshAuth) (rc_jobs c)
             + reserved_auth (rc_limits c) \<le> per_origin (rc_limits c))
    \<and> (\<forall>key e jid. bget (rc_entries c) key = Some e \<and> re_in_flight e = Some jid \<longrightarrow>
         (\<exists>j. bget (rc_jobs c) jid = Some j \<and> rj_key j = key \<and> rj_origin j = re_origin e))"
proof -
  note ok = reachable_ok [OF assms]
  have small: "reserved_auth (rc_limits c) \<le> concurrent (rc_limits c)" "reserved_auth (rc_limits c) \<le> per_origin (rc_limits c)"
    and within: "within_limits c" and entries: "bsize (rc_entries c) \<le> max_entries (rc_limits c)"
    using ok by (simp_all add: coordinator_ok_def)
  have "\<exists>j. bget (rc_jobs c) jid = Some j \<and> rj_key j = key \<and> rj_origin j = re_origin e"
    if "bget (rc_entries c) key = Some e" "re_in_flight e = Some jid" for key e jid
    using that ok by (simp add: coordinator_ok_def)
  then show ?thesis
    using within entries small by (simp add: within_limits_def le_diff_conv2)
qed

text \<open>C18: No class of reads is starved: over any sequence of calls in which the class has a ready read at every
  claim, at most seven other reads are started before one of the class.\<close>
theorem no_class_starves:
  assumes "always_ready kind calls c" "kind \<notin> job_kind ` set (claims calls c)"
  shows "length (claims calls c) \<le> 7"
  using claims_passing_over [OF assms] class_distance_bound [of c kind] by (simp add: CLASS_ORDER_def)

text \<open>C12: A provider that asked to wait is not asked before: after a failure that names a time, or a recorded
  delay, whatever happens in between, no read of that entry starts earlier, as long as the entry is not removed.\<close>
theorem provider_delay_respected:
  assumes "(complete job (FailedRetryAt at) now c = (Applied due, c1) \<and> key = RefreshKey (job_identity job) (job_kind job))
    \<or> (c1 = defer_until i k at c \<and> key = RefreshKey i k \<and> bcontains (rc_entries c) key)"
    and "\<forall>call \<in> set calls. \<not> drops key call"
    and "claim_due t (refresh_calls calls c1) = (Some next, c2)"
    and "key = RefreshKey (job_identity next) (job_kind next)"
  shows "at \<le> t"
proof -
  have "\<exists>e. bget (rc_entries c1) key = Some e \<and> at \<le> re_not_before e"
    using assms(1)
  proof (elim disjE conjE)
    assume completed: "complete job (FailedRetryAt at) now c = (Applied due, c1)"
      and key: "key = RefreshKey (job_identity job) (job_kind job)"
    from completed show ?thesis
      by (cases rule: complete_cases) (auto simp: key update_entry_def settle_entry_floor(3))
  qed (auto simp: defer_until_def update_entry_def bcontains_iff)
  then obtain e where "bget (rc_entries (refresh_calls calls c1)) key = Some e" "at \<le> re_not_before e"
    using floor_calls assms(2) by blast
  then show ?thesis using claim_after_floor assms(3,4) by blast
qed

text \<open>C35: The scheduler never sleeps through a due read and never spins: while job numbers last, a read can be
  claimed now exactly when the wake-up time has come.\<close>
theorem claim_when_awake:
  assumes "rc_next_job_id c < - 1"
  shows "fst (claim_due now c) \<noteq> None \<longleftrightarrow> is_some_and (next_wake c) (\<lambda>at. at \<le> now)"
proof -
  have "unat (rc_next_job_id c) < 2 ^ 64 - 1"
    using assms by (simp add: word_less_nat_alt)
  then have "checked_add (rc_next_job_id c) 1 \<noteq> None" by (simp add: checked_add_def)
  then have "fst (claim_due now c) \<noteq> None \<longleftrightarrow> claim_choice now c \<noteq> None"
    by (auto simp: claim_due_def split: option.splits prod.splits)
  also have "\<dots> \<longleftrightarrow> is_some_and (next_wake c) (\<lambda>at. at \<le> now)"
    unfolding claim_choice_exists next_wake_def list_min_le
    by (force simp: List.map_filter_def bget_in_entries is_some_and_iff)
  finally show ?thesis .
qed

section \<open>Witnesses\<close>

text \<open>A coordinator with the default limits and two reads of one account that are due.\<close>

definition demo_key :: "refresh_kind \<Rightarrow> refresh_key" where
  "demo_key kind = RefreshKey (RefreshIdentity ''acct'' 1 1) kind"

definition demo_entry :: refresh_entry where
  "demo_entry = (new_refresh_entry ''acct'' True)\<lparr>re_next_due := Some 0\<rparr>"

definition demo_coordinator :: refresh_coordinator where
  "demo_coordinator = \<lparr>rc_entries = binsert (demo_key RefreshPrices) demo_entry (binsert (demo_key RefreshAuth) demo_entry bempty),
     rc_jobs = bempty, rc_next_job_id = 0, rc_limits = default_refresh_limits, rc_next_start = 0,
     rc_origin_next_start = bempty, rc_class_cursor = 0\<rparr>"

definition demo_job :: refresh_job where
  "demo_job = \<lparr>job_id = 1, job_identity = RefreshIdentity ''acct'' 1 1, job_kind = RefreshAuth, job_due_at_ms = 0, job_manual = False\<rparr>"

definition demo_claimed :: refresh_coordinator where
  "demo_claimed = demo_coordinator
     \<lparr>rc_entries := binsert (demo_key RefreshAuth) (claim_entry 0 1 demo_entry) (rc_entries demo_coordinator),
      rc_jobs := binsert 1 \<lparr>rj_key = demo_key RefreshAuth, rj_origin = ''acct''\<rparr> bempty, rc_next_job_id := 1,
      rc_next_start := 50, rc_origin_next_start := binsert ''acct'' 250 bempty, rc_class_cursor := 1\<rparr>"

lemmas demo_eval = demo_coordinator_def demo_entry_def demo_key_def new_refresh_entry_def default_refresh_limits_def

lemma demo_reachable: "coordinator_reachable demo_coordinator"
proof -
  have "new_coordinator default_refresh_limits = Some (demo_coordinator\<lparr>rc_entries := bempty\<rparr>)"
    by (simp add: new_coordinator_def demo_eval)
  moreover have "demo_coordinator = refresh_calls
      [Register (RefreshIdentity ''acct'' 1 1) RefreshAuth 0 True True,
       Register (RefreshIdentity ''acct'' 1 1) RefreshPrices 0 True True] (demo_coordinator\<lparr>rc_entries := bempty\<rparr>)"
    by (simp add: register_refresh_def register_origin_def demo_eval entry_schedule_def bcontains_def bsize_insert_fresh Let_def)
  ultimately show ?thesis unfolding coordinator_reachable_def by blast
qed

lemma demo_distances:
  "class_distance demo_coordinator RefreshAuth = 0" "class_distance demo_coordinator RefreshPrices = 7"
  by (simp_all add: class_distance_def demo_coordinator_def CLASS_ORDER_def upt_rec)

lemma demo_claimable: "claimable demo_coordinator key demo_entry"
  by (simp add: claimable_def capacity_available_def demo_eval)

lemma demo_claim: "claim_due 0 demo_coordinator = (Some demo_job, demo_claimed)"
proof -
  have "bentries (rc_entries demo_coordinator) =
      [(demo_key RefreshAuth, demo_entry), (demo_key RefreshPrices, demo_entry)]"
    by (simp add: demo_coordinator_def demo_key_def less_refresh_key_def less_eq_refresh_key_def less_refresh_kind_def less_prod_def)
  moreover have "eligible_at demo_coordinator demo_entry = Some 0" by (simp add: eligible_at_def demo_eval)
  moreover have "rk_kind (demo_key kind) = kind" for kind by (simp add: demo_key_def)
  ultimately have "claim_choice 0 demo_coordinator = Some (demo_key RefreshAuth, demo_entry)"
    by (simp add: claim_choice_def demo_claimable claim_rank_def demo_distances cmp_def less_prod_def)
  moreover have "class_distance (demo_coordinator\<lparr>rc_next_job_id := 1\<rparr>) RefreshAuth = 0"
    using demo_distances(1) by (simp add: class_distance_def)
  ultimately show ?thesis
    by (simp add: claim_due_def demo_job_def demo_claimed_def checked_add_def update_entry_def bmodify_def advance_class_def
        demo_distances CLASS_ORDER_def sat_add_def) (simp add: demo_eval)
qed

theorem refresh_limits_kept_witness:
  "\<exists>j. bget (rc_jobs demo_claimed) 1 = Some j \<and> rj_key j = demo_key RefreshAuth"
proof -
  have "coordinator_reachable demo_claimed"
    using coordinator_reachable_calls [OF demo_reachable, of "[ClaimDue 0]"] demo_claim by simp
  moreover have "bget (rc_entries demo_claimed) (demo_key RefreshAuth) = Some (claim_entry 0 1 demo_entry)"
    by (simp add: demo_claimed_def)
  ultimately show ?thesis
    using refresh_limits_kept by (metis claim_entry_simps(1))
qed

theorem no_class_starves_witness:
  "claims [ClaimDue 0] demo_coordinator = [demo_job] \<and> length (claims [ClaimDue 0] demo_coordinator) \<le> 7"
proof -
  have "class_ready RefreshPrices 0 demo_coordinator"
    unfolding class_ready_def
    by (rule exI [of _ "demo_key RefreshPrices"], rule exI [of _ demo_entry])
      (simp add: demo_claimable eligible_at_def, simp add: demo_eval)
  then have "always_ready RefreshPrices [ClaimDue 0] demo_coordinator" by simp
  moreover have "RefreshPrices \<notin> job_kind ` set (claims [ClaimDue 0] demo_coordinator)"
    by (simp add: demo_claim demo_job_def)
  ultimately show ?thesis using no_class_starves by (simp add: demo_claim)
qed

definition demo_deferred :: refresh_coordinator where
  "demo_deferred = defer_until (RefreshIdentity ''acct'' 1 1) RefreshAuth 60000 demo_coordinator"

lemma demo_deferred_claim:
  "\<exists>job c. claim_due 70000 demo_deferred = (Some job, c) \<and> RefreshKey (job_identity job) (job_kind job) = demo_key RefreshAuth"
proof -
  let ?late = "demo_entry\<lparr>re_not_before := 60000\<rparr>"
  have state: "demo_deferred = demo_coordinator\<lparr>rc_entries := binsert (demo_key RefreshAuth) ?late (rc_entries demo_coordinator)\<rparr>"
    by (simp add: demo_deferred_def defer_until_def update_entry_def bmodify_def demo_eval)
  have "bentries (rc_entries demo_deferred) = [(demo_key RefreshAuth, ?late), (demo_key RefreshPrices, demo_entry)]"
    by (simp add: state demo_coordinator_def demo_key_def less_refresh_key_def less_eq_refresh_key_def less_refresh_kind_def less_prod_def)
  moreover have "eligible_at demo_deferred ?late = Some 60000" "eligible_at demo_deferred demo_entry = Some 0"
    by (simp_all add: state eligible_at_def demo_eval)
  moreover have "claimable demo_deferred key ?late" "claimable demo_deferred key demo_entry" for key
    by (simp_all add: state claimable_def capacity_available_def demo_eval)
  moreover have "class_distance demo_deferred RefreshAuth = 0" "class_distance demo_deferred RefreshPrices = 7"
    using demo_distances by (simp_all add: state class_distance_def)
  moreover have "rk_kind (demo_key kind) = kind" for kind by (simp add: demo_key_def)
  ultimately have "claim_choice 70000 demo_deferred = Some (demo_key RefreshAuth, ?late)"
    by (simp add: claim_choice_def claim_rank_def cmp_def less_prod_def)
  then show ?thesis
    by (simp add: claim_due_def checked_add_def state) (simp add: demo_eval)
qed

theorem provider_delay_respected_witness:
  "\<exists>job c. claim_due 70000 demo_deferred = (Some job, c)
     \<and> RefreshKey (job_identity job) (job_kind job) = demo_key RefreshAuth \<and> (60000 :: u64) \<le> 70000"
proof -
  obtain job c where claim: "claim_due 70000 demo_deferred = (Some job, c)"
    and key: "RefreshKey (job_identity job) (job_kind job) = demo_key RefreshAuth"
    using demo_deferred_claim by blast
  have present: "bcontains (rc_entries demo_coordinator) (demo_key RefreshAuth)"
    by (simp add: demo_coordinator_def bcontains_def)
  have "(60000 :: u64) \<le> 70000"
    by (rule provider_delay_respected [OF disjI2, where calls = "[]" and key = "demo_key RefreshAuth" and ?c1.0 = demo_deferred])
      (use claim key present in \<open>auto simp: demo_deferred_def demo_key_def\<close>)
  with claim key show ?thesis by blast
qed

theorem claim_when_awake_witness:
  "is_some_and (next_wake demo_coordinator) (\<lambda>at. at \<le> 0) \<and> rc_next_job_id demo_coordinator < - 1"
proof -
  have "rc_next_job_id demo_coordinator < - 1" by (simp add: demo_coordinator_def word_less_nat_alt)
  then show ?thesis using claim_when_awake [of demo_coordinator 0] demo_claim by simp
qed

end
