(* ===== verification/RefreshService.thy ===== *)
theory RefreshService
  imports RefreshRules
begin

text \<open>
  The refresh service (\<open>scheduler/refresh/service.rs\<close>, \<open>service/register.rs\<close>, \<open>service/membership.rs\<close>,
  \<open>service/drive.rs\<close>): the coordinator together with the callers that wait for its reads.

  A step is one critical section of the service's mutex.  The result channel of an entry is the set of
  the callers subscribed to it; \<open>sv_answers\<close> records the value each caller was sent and \<open>sv_asked\<close>
  the callers that were accepted (a caller is a number of its own).  The asynchronous work itself, its
  result, the clock and the signals that wake the driver are outside: the result and the times are
  arguments, and the driver may run at any time.
\<close>

section \<open>State\<close>

datatype refresh_wait_error = WaitFull | WaitStale | WaitStopped | WaitInterrupted

record refresh_registration =
  reg_identity :: refresh_identity
  reg_kind :: refresh_kind
  reg_origin :: string
  reg_active :: bool
  reg_automatic :: bool
  reg_due_now :: bool

record 'v service_entry =
  se_waiters :: "nat set option"
  se_cached :: "'v option"

type_synonym 'v answer = "refresh_wait_error + 'v"

record 'v refresh_service =
  sv_coordinator :: refresh_coordinator
  sv_entries :: "(refresh_key, 'v service_entry) bmap"
  sv_stopped :: bool
  sv_asked :: "nat set"
  sv_answers :: "nat \<rightharpoonup> 'v answer"

definition new_service :: "refresh_limits \<Rightarrow> 'v refresh_service option" where
  "new_service limits =
     map_option (\<lambda>c. \<lparr>sv_coordinator = c, sv_entries = bempty, sv_stopped = False, sv_asked = {},
         sv_answers = Map.empty\<rparr>)
       (new_coordinator limits)"

definition send_answer :: "nat set option \<Rightarrow> 'v answer \<Rightarrow> 'v refresh_service \<Rightarrow> 'v refresh_service" where
  "send_answer waiters answer s =
     s\<lparr>sv_answers := (\<lambda>w. if w \<in> unwrap_or waiters {} then Some answer else sv_answers s w)\<rparr>"

section \<open>Operations\<close>

definition service_request ::
  "nat \<Rightarrow> refresh_identity \<Rightarrow> refresh_kind \<Rightarrow> u64 \<Rightarrow> 'v refresh_service \<Rightarrow>
   (refresh_wait_error + unit) \<times> 'v refresh_service" where
  "service_request caller identity kind now_ms s =
     (if sv_stopped s then (Inl WaitStopped, s)
      else (case request_now identity kind now_ms (sv_coordinator s) of
          (False, _) \<Rightarrow> (Inl WaitStale, s)
        | (True, c) \<Rightarrow>
            (let s1 = s\<lparr>sv_coordinator := c\<rparr>; key = RefreshKey identity kind in
             case bget (sv_entries s1) key of None \<Rightarrow> (Inl WaitStale, s1)
             | Some en \<Rightarrow>
                 (Inr (), s1\<lparr>sv_asked := insert caller (sv_asked s1),
                    sv_entries := binsert key
                      (en\<lparr>se_waiters := Some (insert caller (unwrap_or (se_waiters en) {}))\<rparr>) (sv_entries s1)\<rparr>))))"

definition remove_service_entry :: "refresh_key \<Rightarrow> 'v refresh_service \<Rightarrow> 'v refresh_service" where
  "remove_service_entry key s =
     (let s1 = s\<lparr>sv_coordinator := snd (remove_kind (rk_identity key) (rk_kind key) (sv_coordinator s))\<rparr> in
      case bget (sv_entries s1) key of None \<Rightarrow> s1
      | Some en \<Rightarrow> send_answer (se_waiters en) (Inl WaitStale) (s1\<lparr>sv_entries := bremove key (sv_entries s1)\<rparr>))"

definition same_resource :: "refresh_key \<Rightarrow> refresh_key \<Rightarrow> bool" where
  "same_resource a key =
     (member_range (ri_member_id (rk_identity key)) a \<and> rk_kind a = rk_kind key
      \<and> ri_member_id (rk_identity a) = ri_member_id (rk_identity key))"

definition service_register ::
  "refresh_registration \<Rightarrow> u64 \<Rightarrow> u64 \<Rightarrow> u64 \<Rightarrow> u64 \<Rightarrow> 'v refresh_service \<Rightarrow>
   (refresh_wait_error + unit) \<times> 'v refresh_service" where
  "service_register r now1 now2 now3 now4 s0 =
     (if sv_stopped s0 then (Inl WaitStopped, s0)
      else
        (let key = RefreshKey (reg_identity r) (reg_kind r) in
         if list_ex (\<lambda>a. same_resource a key
              \<and> (ri_auth_revision (rk_identity key) < ri_auth_revision (rk_identity a)
                 \<or> ri_config_revision (rk_identity key) < ri_config_revision (rk_identity a)))
              (bkeys (sv_entries s0))
         then (Inl WaitStale, s0)
         else
           (let s = fold remove_service_entry
                  (filter (\<lambda>a. same_resource a key \<and> a \<noteq> key) (bkeys (sv_entries s0))) s0;
                is_new = (\<not> bcontains (sv_entries s) key);
                c1 = snd (set_active (reg_identity r) (reg_active r) now1 (sv_coordinator s));
                (registered, c2) = register_origin (reg_identity r) (reg_kind r) (reg_origin r) now2
                  (reg_active r) (is_new \<and> reg_due_now r \<and> reg_automatic r) c1
            in if \<not> registered then (Inl WaitFull, s\<lparr>sv_coordinator := c2\<rparr>)
               else
                 (let pending = is_some_and (bget (sv_entries s) key) (\<lambda>en. se_waiters en \<noteq> None);
                      (activated, c3) = set_automatic (reg_identity r) (reg_kind r) (reg_automatic r) c2;
                      c4 = (if activated \<and> reg_due_now r
                        then snd (schedule_event (reg_identity r) (reg_kind r) now3 c3) else c3);
                      c5 = (if pending then snd (request_now (reg_identity r) (reg_kind r) now4 c4) else c4)
                  in (Inr (), s\<lparr>sv_coordinator := c5,
                       sv_entries := (if is_new
                         then binsert key \<lparr>se_waiters = None, se_cached = None\<rparr> (sv_entries s)
                         else sv_entries s)\<rparr>)))))"

definition service_remove_member :: "string \<Rightarrow> 'v refresh_service \<Rightarrow> bool \<times> 'v refresh_service" where
  "service_remove_member member_id s =
     (let keys = filter (member_range member_id) (bkeys (sv_entries s))
      in (keys \<noteq> [], fold remove_service_entry keys s))"

definition service_remove_kind ::
  "refresh_identity \<Rightarrow> refresh_kind \<Rightarrow> 'v refresh_service \<Rightarrow> bool \<times> 'v refresh_service" where
  "service_remove_kind identity kind s =
     (let key = RefreshKey identity kind
      in if \<not> bcontains (sv_entries s) key then (False, s) else (True, remove_service_entry key s))"

definition service_retain :: "(refresh_identity \<Rightarrow> refresh_kind \<Rightarrow> bool) \<Rightarrow> 'v refresh_service \<Rightarrow> 'v refresh_service" where
  "service_retain keep s =
     fold remove_service_entry (filter (\<lambda>key. \<not> keep (rk_identity key) (rk_kind key)) (bkeys (sv_entries s))) s"

definition service_set_member_active :: "string \<Rightarrow> u64 \<Rightarrow> 'v refresh_service \<Rightarrow> 'v refresh_service" where
  "service_set_member_active member_id now_ms s =
     s\<lparr>sv_coordinator :=
        fold (\<lambda>identity c. snd (set_active identity True now_ms c))
          (remdups (map rk_identity (filter (member_range member_id) (bkeys (sv_entries s))))) (sv_coordinator s)\<rparr>"

text \<open>The calls that go straight to the coordinator.\<close>

definition service_mark_dirty ::
  "refresh_identity \<Rightarrow> refresh_kind \<Rightarrow> u64 \<Rightarrow> 'v refresh_service \<Rightarrow> bool \<times> 'v refresh_service" where
  "service_mark_dirty identity kind now_ms s =
     (case mark_dirty identity kind now_ms (sv_coordinator s) of (b, c) \<Rightarrow> (b, s\<lparr>sv_coordinator := c\<rparr>))"

definition service_observe_passive_quota ::
  "refresh_identity \<Rightarrow> u64 \<Rightarrow> u64 \<Rightarrow> u64 \<Rightarrow> 'v refresh_service \<Rightarrow> bool \<times> 'v refresh_service" where
  "service_observe_passive_quota identity now_ms age_ms observed_at_wall_ms s =
     (case observe_passive_quota identity now_ms age_ms observed_at_wall_ms (sv_coordinator s) of
        (b, c) \<Rightarrow> (b, s\<lparr>sv_coordinator := c\<rparr>))"

definition service_set_active :: "refresh_identity \<Rightarrow> bool \<Rightarrow> u64 \<Rightarrow> 'v refresh_service \<Rightarrow> 'v refresh_service" where
  "service_set_active identity a now_ms s =
     s\<lparr>sv_coordinator := snd (set_active identity a now_ms (sv_coordinator s))\<rparr>"

definition service_schedule_after ::
  "refresh_identity \<Rightarrow> refresh_kind \<Rightarrow> u64 \<Rightarrow> u64 \<Rightarrow> 'v refresh_service \<Rightarrow> bool \<times> 'v refresh_service" where
  "service_schedule_after identity kind delay_ms now_ms s =
     (case schedule_event identity kind (sat_add now_ms delay_ms) (sv_coordinator s) of
        (b, c) \<Rightarrow> (b, s\<lparr>sv_coordinator := c\<rparr>))"

definition respect_retry_after ::
  "refresh_identity \<Rightarrow> refresh_kind \<Rightarrow> u64 \<Rightarrow> u64 \<Rightarrow> 'v refresh_service \<Rightarrow> 'v refresh_service" where
  "respect_retry_after identity kind delay_ms now_ms s =
     s\<lparr>sv_coordinator := defer_until identity kind (sat_add now_ms delay_ms) (sv_coordinator s)\<rparr>"

definition service_shutdown :: "'v refresh_service \<Rightarrow> 'v refresh_service" where
  "service_shutdown s =
     fold (\<lambda>(key, en) s. send_answer (se_waiters en) (Inl WaitStopped) s) (bentries (sv_entries s))
       (s\<lparr>sv_stopped := True, sv_entries := bempty\<rparr>)"

definition cached_observation ::
  "refresh_identity \<Rightarrow> refresh_kind \<Rightarrow> u64 \<Rightarrow> 'v refresh_service \<Rightarrow> ('v \<times> refresh_freshness) option" where
  "cached_observation identity kind now_ms s =
     map_option (\<lambda>v. (v, freshness identity kind now_ms (sv_coordinator s)))
       (Option.bind (bget (sv_entries s) (RefreshKey identity kind)) se_cached)"

section \<open>The driver\<close>

text \<open>The claims of one round; \<open>None\<close> is the panic of a claimed entry without registered work.\<close>

definition idle_entries :: "'v refresh_service \<Rightarrow> nat" where
  "idle_entries s = bcount (\<lambda>e. re_in_flight e = None) (rc_entries (sv_coordinator s))"

lemma claim_due_busier:
  assumes "claim_due now c = (Some job, c')"
  shows "bcount (\<lambda>e. re_in_flight e = None) (rc_entries c') < bcount (\<lambda>e. re_in_flight e = None) (rc_entries c)"
proof (rule claim_due_Some [OF assms])
  fix key e
  assume e: "bget (rc_entries c) key = Some e" "claimable c key e"
    and c': "c' = (update_entry key (claim_entry now (job_id job)) (advance_class (rk_kind key) (c\<lparr>rc_next_job_id := job_id job\<rparr>)))
       \<lparr>rc_next_start := sat_add now (start_spacing_ms (rc_limits c)),
        rc_origin_next_start := binsert (re_origin e)
          (sat_add now (origin_spacing_ms (rc_limits c))) (rc_origin_next_start c),
        rc_jobs := binsert (job_id job) \<lparr>rj_key = key, rj_origin = re_origin e\<rparr> (rc_jobs c)\<rparr>"
  have "rc_entries c' = binsert key (claim_entry now (job_id job) e) (rc_entries c)"
    using e(1) by (simp add: c' update_entry_def advance_class_def bmodify_def)
  then show ?thesis
    using bcount_update [OF e(1), of "\<lambda>e. re_in_flight e = None" "claim_entry now (job_id job) e"] e(2)
    by (simp add: claimable_def)
qed

function drive_claims :: "u64 \<Rightarrow> 'v refresh_service \<Rightarrow> (refresh_job list \<times> 'v refresh_service) option" where
  "drive_claims now_ms s =
     (case claim_due now_ms (sv_coordinator s) of
        (None, _) \<Rightarrow> Some ([], s)
      | (Some job, c) \<Rightarrow>
          (let key = RefreshKey (job_identity job) (job_kind job) in
           case bget (sv_entries s) key of None \<Rightarrow> None
           | Some en \<Rightarrow>
               map_option (\<lambda>(jobs, s'). (job # jobs, s'))
                 (drive_claims now_ms (s\<lparr>sv_coordinator := c, sv_entries := binsert key
                    (en\<lparr>se_waiters := Some (unwrap_or (se_waiters en) {})\<rparr>) (sv_entries s)\<rparr>))))"
  by pat_completeness auto
termination
  by (relation "measure (\<lambda>(_, s). idle_entries s)") (auto simp: idle_entries_def dest: claim_due_busier sym)

declare drive_claims.simps [simp del]

definition service_complete ::
  "('v \<Rightarrow> bool) \<Rightarrow> refresh_job \<Rightarrow> refresh_wait_error + ('v \<times> refresh_outcome) \<Rightarrow> u64 \<Rightarrow> 'v refresh_service \<Rightarrow>
   'v refresh_service" where
  "service_complete is_cacheable job job_result now_ms s =
     (let outcome = (case job_result of Inl _ \<Rightarrow> retry_after now_ms None | Inr (_, outcome) \<Rightarrow> outcome) in
      case complete job outcome now_ms (sv_coordinator s) of
        (Applied _, c) \<Rightarrow>
          (let s1 = s\<lparr>sv_coordinator := c\<rparr>; key = RefreshKey (job_identity job) (job_kind job) in
           case bget (sv_entries s1) key of None \<Rightarrow> s1
           | Some en \<Rightarrow>
               (let observation = map_sum id fst job_result;
                    en1 = (case observation of Inr v \<Rightarrow> if is_cacheable v then en\<lparr>se_cached := Some v\<rparr> else en
                      | Inl _ \<Rightarrow> en)
                in send_answer (se_waiters en) observation
                     (s1\<lparr>sv_entries := binsert key (en1\<lparr>se_waiters := None\<rparr>) (sv_entries s1)\<rparr>)))
      | (_, c) \<Rightarrow> s\<lparr>sv_coordinator := c\<rparr>)"

section \<open>Callers and their answers\<close>

definition waiting :: "'v refresh_service \<Rightarrow> nat \<Rightarrow> refresh_key \<Rightarrow> bool" where
  "waiting s w key \<longleftrightarrow> (\<exists>en. bget (sv_entries s) key = Some en \<and> w \<in> unwrap_or (se_waiters en) {})"

text \<open>Whoever waits was accepted and has no answer; whoever was accepted has an answer or waits for one read.\<close>

definition waiters_ok :: "'v refresh_service \<Rightarrow> bool" where
  "waiters_ok s \<longleftrightarrow>
     (\<forall>w key. waiting s w key \<longrightarrow> w \<in> sv_asked s \<and> sv_answers s w = None)
     \<and> (\<forall>w key key'. waiting s w key \<longrightarrow> waiting s w key' \<longrightarrow> key = key')
     \<and> (\<forall>w \<in> sv_asked s. sv_answers s w \<noteq> None \<or> (\<exists>key. waiting s w key))
     \<and> (\<forall>w. sv_answers s w \<noteq> None \<longrightarrow> w \<in> sv_asked s)"

lemma waiters_ok_cong:
  assumes "waiters_ok s" "sv_asked s' = sv_asked s" "sv_answers s' = sv_answers s" "\<And>w key. waiting s' w key = waiting s w key"
  shows "waiters_ok s'"
  using assms by (simp add: waiters_ok_def)

lemma waiters_ok_answered:
  assumes "waiters_ok s" "sv_asked s' = sv_asked s"
    and "\<And>w k. waiting s' w k \<longleftrightarrow> waiting s w k \<and> k \<noteq> key"
    and "\<And>w. sv_answers s' w = (if waiting s w key then Some answer else sv_answers s w)"
  shows "waiters_ok s'"
  using assms unfolding waiters_ok_def by (metis option.simps(3))

lemma waiters_ok_asked:
  assumes "waiters_ok s" "caller \<notin> sv_asked s" "sv_asked s' = insert caller (sv_asked s)"
    and "\<And>w k. waiting s' w k \<longleftrightarrow> waiting s w k \<or> (w = caller \<and> k = key)" "sv_answers s' = sv_answers s"
  shows "waiters_ok s'"
  using assms unfolding waiters_ok_def by (metis insert_iff)

lemma send_answer_simps [simp]:
  "sv_entries (send_answer ws a s) = sv_entries s" "sv_asked (send_answer ws a s) = sv_asked s"
  "sv_coordinator (send_answer ws a s) = sv_coordinator s" "sv_stopped (send_answer ws a s) = sv_stopped s"
  "sv_answers (send_answer ws a s) w = (if w \<in> unwrap_or ws {} then Some a else sv_answers s w)"
  "waiting (send_answer ws a s) w key = waiting s w key"
  by (simp_all add: send_answer_def waiting_def)

lemma waiting_cong: "sv_entries s' = sv_entries s \<Longrightarrow> waiting s' w key = waiting s w key"
  by (simp add: waiting_def)

lemma remove_service_entry_waiters:
  assumes "waiters_ok s"
  shows "waiters_ok (remove_service_entry key s)"
proof (cases "bget (sv_entries s) key")
  case None
  then show ?thesis
    by (intro waiters_ok_cong [OF assms]) (simp_all add: remove_service_entry_def Let_def waiting_def)
next
  case (Some en)
  then show ?thesis
    by (intro waiters_ok_answered [OF assms, of _ key "Inl WaitStale"])
      (auto simp: remove_service_entry_def Let_def waiting_def)
qed

section \<open>The invariant\<close>

definition entry_pending :: "refresh_entry \<Rightarrow> bool" where
  "entry_pending e \<longleftrightarrow> re_in_flight e \<noteq> None \<or> (\<not> re_unsupported e \<and> re_next_due e \<noteq> None)"

definition resources_ok :: "'v refresh_service \<Rightarrow> bool" where
  "resources_ok s \<longleftrightarrow>
     (\<forall>a b. bcontains (sv_entries s) a \<longrightarrow> bcontains (sv_entries s) b \<longrightarrow> rk_kind a = rk_kind b \<longrightarrow>
        ri_member_id (rk_identity a) = ri_member_id (rk_identity b) \<longrightarrow> a = b)"

definition registered_ok :: "'v refresh_service \<Rightarrow> bool" where
  "registered_ok s \<longleftrightarrow>
     (\<forall>key. bcontains (rc_entries (sv_coordinator s)) key = bcontains (sv_entries s) key)
     \<and> (\<forall>key en e. bget (sv_entries s) key = Some en \<longrightarrow> se_waiters en \<noteq> None \<longrightarrow>
          bget (rc_entries (sv_coordinator s)) key = Some e \<longrightarrow> entry_pending e)"

definition service_ok :: "'v refresh_service \<Rightarrow> bool" where
  "service_ok s \<longleftrightarrow>
     coordinator_ok (sv_coordinator s) \<and> waiters_ok s \<and> resources_ok s
     \<and> (if sv_stopped s then sv_entries s = bempty else registered_ok s)"

lemma earliest_None [simp]: "earliest a b = None \<longleftrightarrow> a = None \<and> b = None"
  by (cases a; cases b) simp_all

lemma earliest_Some_ex [simp]: "(\<exists>y. earliest a b = Some y) \<longleftrightarrow> a \<noteq> None \<or> b \<noteq> None"
  by (cases a; cases b) simp_all

lemma entry_schedule_pending: "entry_pending e \<Longrightarrow> entry_pending (entry_schedule due e)"
  by (auto simp: entry_pending_def entry_schedule_def)

lemma activate_entry_pending: "entry_pending e \<Longrightarrow> entry_pending (activate_entry kind a now e)"
  by (auto simp: activate_entry_def entry_pending_def entry_schedule_def Let_def split: option.splits prod.splits if_splits)

text \<open>Calls of the coordinator that keep its keys and what is pending.\<close>

definition steady :: "refresh_coordinator \<Rightarrow> refresh_coordinator \<Rightarrow> bool" where
  "steady c c' \<longleftrightarrow>
     (\<forall>key. bcontains (rc_entries c') key = bcontains (rc_entries c) key)
     \<and> (\<forall>key e e'. bget (rc_entries c) key = Some e \<longrightarrow> bget (rc_entries c') key = Some e' \<longrightarrow>
          entry_pending e \<longrightarrow> entry_pending e')"

lemma steady_refl [simp]: "steady c c"
  by (simp add: steady_def)

lemma steady_trans:
  assumes "steady a b" "steady b c"
  shows "steady a c"
proof -
  have "entry_pending e''" if "bget (rc_entries a) key = Some e" "bget (rc_entries c) key = Some e''" "entry_pending e"
    for key e e''
  proof -
    have "bcontains (rc_entries b) key" using assms(1) that(1) by (simp add: steady_def bcontains_def)
    then obtain e' where "bget (rc_entries b) key = Some e'" by (auto simp: bcontains_def)
    then show ?thesis using assms that unfolding steady_def by blast
  qed
  then show ?thesis using assms unfolding steady_def by blast
qed

lemma steady_update: "(\<And>e. entry_pending e \<Longrightarrow> entry_pending (f e)) \<Longrightarrow> steady c (update_entry key f c)"
  by (auto simp: steady_def update_entry_def bcontains_def)

lemma steady_set_active: "steady c (snd (set_active i a now c))"
  by (auto simp: set_active_def Let_def steady_def bcontains_def activate_entry_pending bind_eq_Some_conv
      split: if_splits)

lemma steady_calls:
  "steady c (snd (mark_dirty i k now c))" "steady c (snd (observe_passive_quota i now' age wall c))"
  "steady c (snd (schedule_event i k at c))" "steady c (defer_until i k until c)" "steady c (snd (request_now i k now c))"
  by (auto simp: mark_dirty_def observe_passive_quota_def schedule_event_def defer_until_def request_now_def Let_def
    entry_pending_def entry_schedule_def split: option.splits intro!: steady_update)

lemma request_now_pending:
  "bget (rc_entries (snd (request_now i k now c))) (RefreshKey i k) = Some e \<Longrightarrow> entry_pending e"
  by (auto simp: request_now_def Let_def update_entry_def bcontains_def entry_pending_def entry_schedule_def
      split: if_splits)

lemma coordinator_ok_calls:
  assumes "coordinator_ok c"
  shows "coordinator_ok (snd (request_now i k now c))" "coordinator_ok (snd (mark_dirty i k now c))"
    "coordinator_ok (snd (observe_passive_quota i now age wall c))" "coordinator_ok (snd (set_active i a now c))"
    "coordinator_ok (snd (schedule_event i k now c))" "coordinator_ok (defer_until i k now c)"
    "coordinator_ok (snd (set_automatic i k a c))" "coordinator_ok (snd (register_origin i k origin now a due c))"
    "coordinator_ok (snd (remove_kind i k c))"
  using call_ok [OF assms, of "RequestNow i k now"] call_ok [OF assms, of "MarkDirty i k now"]
    call_ok [OF assms, of "ObservePassiveQuota i now age wall"] call_ok [OF assms, of "SetActive i a now"]
    call_ok [OF assms, of "ScheduleEvent i k now"] call_ok [OF assms, of "DeferUntil i k now"]
    call_ok [OF assms, of "SetAutomatic i k a"] call_ok [OF assms, of "RegisterOrigin i k origin now a due"]
    call_ok [OF assms, of "RemoveKind i k"]
  by simp_all

lemma service_ok_steady:
  assumes "service_ok s" "steady (sv_coordinator s) c'" "coordinator_ok c'"
  shows "service_ok (s\<lparr>sv_coordinator := c'\<rparr>)"
proof -
  have "waiters_ok (s\<lparr>sv_coordinator := c'\<rparr>)"
    by (rule waiters_ok_cong [of s]) (use assms(1) in \<open>simp_all add: service_ok_def waiting_def\<close>)
  moreover have "registered_ok (s\<lparr>sv_coordinator := c'\<rparr>)" if "\<not> sv_stopped s"
  proof -
    have reg: "registered_ok s" using assms(1) that by (simp add: service_ok_def)
    have keys: "bcontains (rc_entries c') key = bcontains (sv_entries s) key" for key
      using assms(2) reg by (simp add: steady_def registered_ok_def)
    have "entry_pending e'" if en: "bget (sv_entries s) key = Some en" "se_waiters en \<noteq> None"
        and e': "bget (rc_entries c') key = Some e'" for key en e'
    proof -
      have "bcontains (rc_entries (sv_coordinator s)) key"
        using assms(2) e' unfolding steady_def by (metis bcontains_iff)
      then obtain e where e: "bget (rc_entries (sv_coordinator s)) key = Some e" by (auto simp: bcontains_def)
      then have "entry_pending e" using reg en unfolding registered_ok_def by blast
      then show ?thesis using assms(2) e e' unfolding steady_def by blast
    qed
    then show ?thesis unfolding registered_ok_def by (simp add: keys)
  qed
  ultimately show ?thesis
    using assms(1,3) by (cases "sv_stopped s") (simp_all add: service_ok_def resources_ok_def)
qed

lemma remove_service_entry_fields [simp]:
  "sv_entries (remove_service_entry key s) = bremove key (sv_entries s)"
  "rc_entries (sv_coordinator (remove_service_entry key s)) = bremove key (rc_entries (sv_coordinator s))"
  "sv_stopped (remove_service_entry key s) = sv_stopped s" "sv_asked (remove_service_entry key s) = sv_asked s"
  by (cases "bget (sv_entries s) key"; cases key; simp add: remove_service_entry_def Let_def remove_kind_def bremove_absent)+

lemma remove_service_entry_ok:
  assumes "service_ok s"
  shows "service_ok (remove_service_entry key s)"
proof -
  have "sv_coordinator (remove_service_entry key s) =
      snd (remove_kind (rk_identity key) (rk_kind key) (sv_coordinator s))"
    by (simp add: remove_service_entry_def Let_def split: option.split)
  then have "coordinator_ok (sv_coordinator (remove_service_entry key s))"
    using assms by (simp add: service_ok_def coordinator_ok_calls(9))
  then show ?thesis
    using assms remove_service_entry_waiters [of s key]
    by (auto simp: service_ok_def resources_ok_def registered_ok_def bcontains_def bremove_absent split: if_splits)
qed

lemma fold_remove_fields [simp]:
  "sv_stopped (fold remove_service_entry keys s) = sv_stopped s"
  "bget (sv_entries (fold remove_service_entry keys s)) key = (if key \<in> set keys then None else bget (sv_entries s) key)"
  by (induction keys arbitrary: s) auto

lemma fold_remove_ok: "service_ok s \<Longrightarrow> service_ok (fold remove_service_entry keys s)"
  by (induction keys arbitrary: s) (auto intro: remove_service_entry_ok)

lemma new_service_ok: "new_service limits = Some s \<Longrightarrow> service_ok s"
proof -
  assume new: "new_service limits = Some s"
  then obtain c where c: "new_coordinator limits = Some c"
    and s: "s = \<lparr>sv_coordinator = c, sv_entries = bempty, sv_stopped = False, sv_asked = {}, sv_answers = Map.empty\<rparr>"
    by (auto simp: new_service_def)
  have "rc_entries c = bempty" using c by (auto simp: new_coordinator_def split: if_splits)
  then show ?thesis
    using new_coordinator_ok [OF c]
    by (simp add: service_ok_def waiters_ok_def waiting_def resources_ok_def registered_ok_def bcontains_def s)
qed

lemma request_ok:
  assumes "service_ok s" "caller \<notin> sv_asked s"
  shows "service_ok (snd (service_request caller identity kind now s))"
proof (cases "\<not> sv_stopped s \<and> (\<exists>en. bget (sv_entries s) (RefreshKey identity kind) = Some en)
    \<and> fst (request_now identity kind now (sv_coordinator s))")
  case False
  have ok: "service_ok (s\<lparr>sv_coordinator := snd (request_now identity kind now (sv_coordinator s))\<rparr>)"
    using assms(1) by (intro service_ok_steady steady_calls coordinator_ok_calls) (simp_all add: service_ok_def)
  with False assms(1) show ?thesis
    by (auto simp: service_request_def Let_def split: prod.splits bool.splits option.splits)
next
  case True
  define key where "key = RefreshKey identity kind"
  define c where "c = snd (request_now identity kind now (sv_coordinator s))"
  obtain en where en: "bget (sv_entries s) key = Some en" using True by (auto simp: key_def)
  have s': "snd (service_request caller identity kind now s) =
      s\<lparr>sv_coordinator := c, sv_asked := insert caller (sv_asked s), sv_entries := binsert key
        (en\<lparr>se_waiters := Some (insert caller (unwrap_or (se_waiters en) {}))\<rparr>) (sv_entries s)\<rparr>"
    using True en by (auto simp: service_request_def key_def c_def Let_def split: prod.splits bool.splits)
  have steady: "steady (sv_coordinator s) c" unfolding c_def by (rule steady_calls)
  have reg: "registered_ok s" "waiters_ok s" "coordinator_ok (sv_coordinator s)" "resources_ok s"
    using assms(1) True by (simp_all add: service_ok_def)
  have keys: "bcontains (rc_entries c) k = bcontains (sv_entries s) k" for k
    using steady reg(1) by (simp add: steady_def registered_ok_def)
  have "registered_ok (s\<lparr>sv_coordinator := c\<rparr>)"
    using service_ok_steady [OF assms(1) steady] True coordinator_ok_calls(1) reg(3)
    by (simp add: service_ok_def c_def)
  then have "registered_ok (snd (service_request caller identity kind now s))"
    using en keys request_now_pending [of identity kind now "sv_coordinator s"]
    by (auto simp: registered_ok_def s' key_def c_def bcontains_def)
  moreover have "waiters_ok (snd (service_request caller identity kind now s))"
    by (rule waiters_ok_asked [OF reg(2) assms(2), of _ key]) (use en in \<open>auto simp: waiting_def s'\<close>)
  moreover have "resources_ok (snd (service_request caller identity kind now s))"
    using reg(4) en by (auto simp: resources_ok_def s' bcontains_def split: if_splits)
  ultimately show ?thesis
    using True reg(3) coordinator_ok_calls(1) by (simp add: service_ok_def s' c_def)
qed

lemma claim_due_keys:
  assumes "claim_due now c = (result, c')"
  shows "steady c c'" "coordinator_ok c \<Longrightarrow> coordinator_ok c'"
    "result = Some job \<Longrightarrow> bcontains (rc_entries c) (RefreshKey (job_identity job) (job_kind job))"
proof -
  show "coordinator_ok c \<Longrightarrow> coordinator_ok c'" using claim_ok [of c now] assms by simp
  have "steady c c' \<and> (\<forall>job. result = Some job \<longrightarrow> bcontains (rc_entries c) (RefreshKey (job_identity job) (job_kind job)))"
  proof (cases result)
    case None
    then show ?thesis using claim_due_None [of now c] assms by simp
  next
    case (Some job)
    show ?thesis
      by (rule claim_due_Some [OF assms [unfolded Some]])
        (auto simp: Some steady_def update_entry_def advance_class_def bcontains_def entry_pending_def)
  qed
  then show "steady c c'" "result = Some job \<Longrightarrow> bcontains (rc_entries c) (RefreshKey (job_identity job) (job_kind job))"
    by blast+
qed

text \<open>The claimed entry is pending under its job, so that its channel may be created.\<close>

lemma claimed_pending:
  assumes "claim_due now c = (Some job, c')" "bget (rc_entries c') (RefreshKey (job_identity job) (job_kind job)) = Some e"
  shows "entry_pending e"
  by (rule claim_due_Some [OF assms(1)])
    (use assms(2) in \<open>auto simp: update_entry_def advance_class_def entry_pending_def\<close>)

lemma drive_step_ok:
  assumes "service_ok s" "\<not> sv_stopped s" "claim_due now (sv_coordinator s) = (Some job, c)"
    and "bget (sv_entries s) (RefreshKey (job_identity job) (job_kind job)) = Some en"
  shows "service_ok (s\<lparr>sv_coordinator := c, sv_entries := binsert (RefreshKey (job_identity job) (job_kind job))
           (en\<lparr>se_waiters := Some (unwrap_or (se_waiters en) {})\<rparr>) (sv_entries s)\<rparr>)" (is "service_ok ?s")
proof -
  have ok: "service_ok (s\<lparr>sv_coordinator := c\<rparr>)"
    using assms(1) claim_due_keys(1,2) [OF assms(3)] by (intro service_ok_steady) (simp_all add: service_ok_def)
  then have "registered_ok ?s"
    using assms(2,4) claimed_pending [OF assms(3)] by (auto simp: service_ok_def registered_ok_def bcontains_def)
  moreover have "waiters_ok ?s"
    by (rule waiters_ok_cong [of s]) (use assms(1,4) in \<open>auto simp: service_ok_def waiting_def split: if_splits\<close>)
  moreover have "resources_ok ?s"
    using assms(1,4) by (auto simp: service_ok_def resources_ok_def bcontains_def split: if_splits)
  ultimately show ?thesis using ok assms(2) by (simp add: service_ok_def)
qed

lemma drive_ok:
  assumes "service_ok s" "\<not> sv_stopped s"
  shows "\<exists>jobs s'. drive_claims now s = Some (jobs, s') \<and> service_ok s'"
  using assms
proof (induction now s rule: drive_claims.induct)
  case (1 now s)
  obtain result c where claim: "claim_due now (sv_coordinator s) = (result, c)" by fastforce
  show ?case
  proof (cases result)
    case None
    then show ?thesis using "1.prems" claim by (simp add: drive_claims.simps [of now s])
  next
    case (Some job)
    note claim = claim [unfolded Some]
    have "bcontains (sv_entries s) (RefreshKey (job_identity job) (job_kind job))"
      using claim_due_keys(3) [OF claim refl] "1.prems" by (simp add: service_ok_def registered_ok_def)
    then obtain en where en: "bget (sv_entries s) (RefreshKey (job_identity job) (job_kind job)) = Some en"
      by (auto simp: bcontains_def)
    obtain jobs s' where "drive_claims now (s\<lparr>sv_coordinator := c, sv_entries := binsert (RefreshKey (job_identity job) (job_kind job))
           (en\<lparr>se_waiters := Some (unwrap_or (se_waiters en) {})\<rparr>) (sv_entries s)\<rparr>) = Some (jobs, s')" "service_ok s'"
      using "1.IH" [OF claim [symmetric] refl refl en drive_step_ok [OF "1.prems" claim en]] "1.prems"(2) by auto
    then show ?thesis by (subst drive_claims.simps) (simp add: claim en Let_def)
  qed
qed

lemma complete_keys:
  assumes "complete job outcome now c = (result, c')"
  shows "bcontains (rc_entries c') k = bcontains (rc_entries c) k"
    "k \<noteq> RefreshKey (job_identity job) (job_kind job) \<or> (\<forall>d. result \<noteq> Applied d) \<Longrightarrow>
       bget (rc_entries c') k = bget (rc_entries c) k"
  using assms by (cases rule: complete_cases; auto simp: update_entry_def bcontains_def)+

lemma service_complete_ok:
  assumes "service_ok s"
  shows "service_ok (service_complete is_cacheable job job_result now s)"
proof -
  define outcome where "outcome = (case job_result of Inl _ \<Rightarrow> retry_after now None | Inr (_, outcome) \<Rightarrow> outcome)"
  define key where "key = RefreshKey (job_identity job) (job_kind job)"
  obtain result c where completed: "complete job outcome now (sv_coordinator s) = (result, c)" by fastforce
  have c: "coordinator_ok c"
    using complete_ok [of "sv_coordinator s" job outcome now] assms completed by (simp add: service_ok_def)
  note keys = complete_keys [OF completed]
  show ?thesis
  proof (cases "(\<exists>d. result = Applied d) \<and> (\<exists>en. bget (sv_entries s) key = Some en)")
    case False
    have same: "steady (sv_coordinator s) c" if "\<forall>d. result \<noteq> Applied d"
      using keys(2) that by (simp add: steady_def bcontains_def)
    have "service_complete is_cacheable job job_result now s = s\<lparr>sv_coordinator := c\<rparr>"
      using False completed by (auto simp: service_complete_def outcome_def key_def Let_def split: refresh_completion.splits option.splits)
    moreover have "service_ok (s\<lparr>sv_coordinator := c\<rparr>)"
    proof (cases "\<exists>d. result = Applied d")
      case True
      then have none: "bget (sv_entries s) key = None" using False by simp
      have "registered_ok (s\<lparr>sv_coordinator := c\<rparr>)" if "registered_ok s"
      proof -
        have "entry_pending e" if "bget (sv_entries s) k = Some en" "se_waiters en \<noteq> None" "bget (rc_entries c) k = Some e"
          for k en e
        proof -
          have "k \<noteq> key" using none that(1) by auto
          then have "bget (rc_entries (sv_coordinator s)) k = Some e"
            using keys(2) that(3) unfolding key_def by auto
          then show ?thesis using \<open>registered_ok s\<close> that(1,2) unfolding registered_ok_def by blast
        qed
        then show ?thesis using that keys(1) by (simp add: registered_ok_def)
      qed
      moreover have "waiters_ok (s\<lparr>sv_coordinator := c\<rparr>)"
        by (rule waiters_ok_cong [of s]) (use assms in \<open>simp_all add: service_ok_def waiting_def\<close>)
      ultimately show ?thesis using assms c by (simp add: service_ok_def resources_ok_def)
    qed (use service_ok_steady [OF assms same c] in blast)
    ultimately show ?thesis by simp
  next
    case True
    then obtain en where en: "bget (sv_entries s) key = Some en" by blast
    define s' where "s' = service_complete is_cacheable job job_result now s"
    define en' where "en' = (case map_sum id fst job_result of
        Inr v \<Rightarrow> if is_cacheable v then en\<lparr>se_cached := Some v\<rparr> else en | Inl _ \<Rightarrow> en)\<lparr>se_waiters := None\<rparr>"
    have en': "se_waiters en' = None" by (simp add: en'_def)
    have s': "s' = send_answer (se_waiters en) (map_sum id fst job_result)
          (s\<lparr>sv_coordinator := c, sv_entries := binsert key en' (sv_entries s)\<rparr>)"
      using True en completed
      by (auto simp: s'_def service_complete_def outcome_def key_def en'_def Let_def split: refresh_completion.splits)
    have "waiters_ok s'"
      using assms en en'
      by (intro waiters_ok_answered [of s s' key "map_sum id fst job_result"])
        (auto simp: service_ok_def s' waiting_def)
    moreover have "registered_ok s'" if "\<not> sv_stopped s"
      using that assms en en' keys unfolding registered_ok_def s' key_def
      by (auto simp: service_ok_def registered_ok_def bcontains_def)
    moreover have "resources_ok s'"
      using assms en by (auto simp: service_ok_def resources_ok_def s' bcontains_def split: if_splits)
    moreover have "\<not> sv_stopped s" using assms en by (auto simp: service_ok_def)
    ultimately show ?thesis using c by (simp add: service_ok_def s'_def [symmetric]) (simp add: s')
  qed
qed

lemma shutdown_fields:
  "sv_entries (fold (\<lambda>(key, en) s. send_answer (se_waiters en) (Inl WaitStopped) s) xs s) = sv_entries s"
  "sv_coordinator (fold (\<lambda>(key, en) s. send_answer (se_waiters en) (Inl WaitStopped) s) xs s) = sv_coordinator s"
  "sv_stopped (fold (\<lambda>(key, en) s. send_answer (se_waiters en) (Inl WaitStopped) s) xs s) = sv_stopped s"
  "sv_asked (fold (\<lambda>(key, en) s. send_answer (se_waiters en) (Inl WaitStopped) s) xs s) = sv_asked s"
  "sv_answers (fold (\<lambda>(key, en) s. send_answer (se_waiters en) (Inl WaitStopped) s) xs s) w =
     (if \<exists>(key, en) \<in> set xs. w \<in> unwrap_or (se_waiters en) {} then Some (Inl WaitStopped) else sv_answers s w)"
  by (induction xs arbitrary: s) auto

lemma shutdown_ok:
  assumes "service_ok s"
  shows "service_ok (service_shutdown s)"
proof -
  have w: "waiters_ok s" using assms by (simp add: service_ok_def)
  have answers: "sv_answers (service_shutdown s) w =
      (if \<exists>key. waiting s w key then Some (Inl WaitStopped) else sv_answers s w)" for w
    by (auto simp: service_shutdown_def shutdown_fields waiting_def bget_in_entries)
  have none: "\<not> waiting (service_shutdown s) w key" for w key
    by (simp add: service_shutdown_def shutdown_fields waiting_def)
  have "waiters_ok (service_shutdown s)"
    using w unfolding waiters_ok_def
    by (simp add: none answers) (auto simp: service_shutdown_def shutdown_fields)
  then show ?thesis
    using assms by (simp add: service_ok_def service_shutdown_def shutdown_fields resources_ok_def bcontains_def)
qed

text \<open>The range of keys that a member's entries are looked up in is exact.\<close>

lemma refresh_key_le:
  "RefreshKey i k \<le> RefreshKey i' k' \<longleftrightarrow> i < i' \<or> (i = i' \<and> k \<le> k')"
  by (auto simp: less_eq_refresh_key_def less_eq_prod_def)

lemma refresh_identity_less:
  "RefreshIdentity m a c < RefreshIdentity m' a' c' \<longleftrightarrow> m < m' \<or> (m = m' \<and> (a < a' \<or> (a = a' \<and> c < c')))"
  by (auto simp: less_refresh_identity_def less_prod_def)

lemma kind_bounds: "RefreshAuth \<le> kind" "kind \<le> RefreshPrices"
  by (cases kind; simp add: less_eq_refresh_kind_def)+

lemma member_range_iff: "member_range m key \<longleftrightarrow> ri_member_id (rk_identity key) = m"
proof (cases key)
  case (RefreshKey i kind)
  obtain m' a c where i: "i = RefreshIdentity m' a c" by (cases i)
  have "0 \<le> a" "0 \<le> c" "a \<le> - 1" "c \<le> - 1"
    by (rule word_zero_le word_n1_ge)+
  then have "0 < a \<or> a = 0" "0 < c \<or> c = 0" "a < - 1 \<or> a = - 1" "c < - 1 \<or> c = - 1"
    unfolding le_less by auto
  then show ?thesis
    unfolding member_range_def RefreshKey i refresh_key_le refresh_identity_less
    using kind_bounds by auto
qed

definition touched :: "refresh_key \<Rightarrow> refresh_coordinator \<Rightarrow> refresh_coordinator \<Rightarrow> bool" where
  "touched key c c' \<longleftrightarrow>
     (\<forall>k. k \<noteq> key \<longrightarrow> bget (rc_entries c') k = bget (rc_entries c) k)
     \<and> (bcontains (rc_entries c) key \<longrightarrow> bcontains (rc_entries c') key)"

lemma touched_refl [simp]: "touched key c c"
  by (simp add: touched_def)

lemma touched_trans: "touched key a b \<Longrightarrow> touched key b c \<Longrightarrow> touched key a c"
  by (simp add: touched_def)

lemma touched_update: "touched key c (update_entry key f c)"
  by (auto simp: touched_def update_entry_def bcontains_def)

lemma touched_calls:
  "touched (RefreshKey i k) c (snd (set_automatic i k a c))"
  "touched (RefreshKey i k) c (snd (schedule_event i k now c))"
  "touched (RefreshKey i k) c (snd (request_now i k now c))"
  "register_origin i k origin now a due c = (True, c') \<Longrightarrow>
     touched (RefreshKey i k) c c' \<and> bcontains (rc_entries c') (RefreshKey i k)"
  "register_origin i k origin now a due c = (False, c') \<Longrightarrow> c' = c"
  by (auto simp: set_automatic_def schedule_event_def request_now_def register_origin_def Let_def touched_update
      touched_def bcontains_def update_entry_def split: option.splits if_splits)

text \<open>The coordinator's part of a registration that is accepted.\<close>

lemma registered_coordinator:
  assumes "c3 = snd (set_automatic i k automatic c2)" "c4 = (if b then snd (schedule_event i k now3 c3) else c3)"
    and "c5 = (if pending then snd (request_now i k now4 c4) else c4)"
    and "register_origin i k origin now a due c1 = (True, c2)" "coordinator_ok c1"
  shows "touched (RefreshKey i k) c1 c5" "bcontains (rc_entries c5) (RefreshKey i k)" "coordinator_ok c5"
    "pending \<Longrightarrow> bget (rc_entries c5) (RefreshKey i k) = Some e \<Longrightarrow> entry_pending e"
proof -
  have t2: "touched (RefreshKey i k) c1 c2" "bcontains (rc_entries c2) (RefreshKey i k)"
    using touched_calls(4) [OF assms(4)] by auto
  have "touched (RefreshKey i k) c2 c3" "touched (RefreshKey i k) c3 c4" "touched (RefreshKey i k) c4 c5"
    using touched_calls by (simp_all add: assms(1-3))
  then have t5: "touched (RefreshKey i k) c2 c5" by (blast intro: touched_trans)
  show "touched (RefreshKey i k) c1 c5" by (rule touched_trans [OF t2(1) t5])
  show "bcontains (rc_entries c5) (RefreshKey i k)" using t2(2) t5 by (simp add: touched_def)
  have "coordinator_ok c2" using coordinator_ok_calls(8) [OF assms(5)] assms(4) by (metis snd_conv)
  then show "coordinator_ok c5" unfolding assms(1-3) by (auto intro: coordinator_ok_calls)
  show "pending \<Longrightarrow> bget (rc_entries c5) (RefreshKey i k) = Some e \<Longrightarrow> entry_pending e"
    using request_now_pending by (simp add: assms(3))
qed

lemma register_ok:
  assumes "service_ok s0"
  shows "service_ok (snd (service_register r now1 now2 now3 now4 s0))"
proof -
  define key where "key = RefreshKey (reg_identity r) (reg_kind r)"
  define s where "s = fold remove_service_entry
      (filter (\<lambda>a. same_resource a key \<and> a \<noteq> key) (bkeys (sv_entries s0))) s0"
  define c1 where "c1 = snd (set_active (reg_identity r) (reg_active r) now1 (sv_coordinator s))"
  have s: "service_ok s" unfolding s_def by (rule fold_remove_ok [OF assms])
  have c1: "coordinator_ok c1" using s by (simp add: c1_def service_ok_def coordinator_ok_calls(4))
  have s1: "service_ok (s\<lparr>sv_coordinator := c1\<rparr>)"
    unfolding c1_def by (rule service_ok_steady [OF s steady_set_active]) (use c1 in \<open>simp add: c1_def\<close>)
  define is_new where "is_new = (\<not> bcontains (sv_entries s) key)"
  obtain registered c2 where reg: "register_origin (reg_identity r) (reg_kind r) (reg_origin r) now2
      (reg_active r) (is_new \<and> reg_due_now r \<and> reg_automatic r) c1 = (registered, c2)" by fastforce
  define pending where "pending = is_some_and (bget (sv_entries s) key) (\<lambda>en. se_waiters en \<noteq> None)"
  obtain activated c3 where c3: "set_automatic (reg_identity r) (reg_kind r) (reg_automatic r) c2 = (activated, c3)" by fastforce
  define c4 where "c4 = (if activated \<and> reg_due_now r
      then snd (schedule_event (reg_identity r) (reg_kind r) now3 c3) else c3)"
  define c5 where "c5 = (if pending then snd (request_now (reg_identity r) (reg_kind r) now4 c4) else c4)"
  define s' where "s' = s\<lparr>sv_coordinator := c5,
      sv_entries := (if is_new then binsert key \<lparr>se_waiters = None, se_cached = None\<rparr> (sv_entries s) else sv_entries s)\<rparr>"
  have result: "snd (service_register r now1 now2 now3 now4 s0) =
      (if sv_stopped s0 then s0
       else if list_ex (\<lambda>a. same_resource a key
              \<and> (ri_auth_revision (rk_identity key) < ri_auth_revision (rk_identity a)
                 \<or> ri_config_revision (rk_identity key) < ri_config_revision (rk_identity a)))
              (bkeys (sv_entries s0)) then s0
       else if \<not> registered then s\<lparr>sv_coordinator := c2\<rparr> else s')"
    using reg [unfolded is_new_def c1_def s_def key_def] c3
    by (simp add: service_register_def Let_def s'_def c5_def c4_def pending_def is_new_def s_def key_def)
  have failed: "service_ok (s\<lparr>sv_coordinator := c2\<rparr>)" if "\<not> registered"
    using touched_calls(5) reg that s1 by (metis (full_types))
  have accepted: "service_ok s'" if "registered" "\<not> sv_stopped s"
  proof -
    note coord = registered_coordinator [of c3 "reg_identity r" "reg_kind r" "reg_automatic r" c2 c4
        "activated \<and> reg_due_now r" now3 c5 pending now4, OF _ c4_def c5_def _ c1, folded key_def]
    have c5: "touched key c1 c5" "bcontains (rc_entries c5) key" "coordinator_ok c5"
      "\<And>e. pending \<Longrightarrow> bget (rc_entries c5) key = Some e \<Longrightarrow> entry_pending e"
      using coord [OF _ reg [unfolded eqTrueI [OF that(1)]]] c3 by (metis snd_conv)+
    have reg1: "registered_ok (s\<lparr>sv_coordinator := c1\<rparr>)" and parts: "waiters_ok s" "resources_ok s"
      using s1 s that(2) by (simp_all add: service_ok_def)
    have keys: "bcontains (rc_entries c5) k = bcontains (sv_entries s') k" for k
      using c5(1,2) reg1 by (cases "k = key") (auto simp: s'_def is_new_def registered_ok_def touched_def bcontains_def)
    have "entry_pending e" if en: "bget (sv_entries s') k = Some en" "se_waiters en \<noteq> None" "bget (rc_entries c5) k = Some e" for k en e
    proof (cases "k = key")
      case True
      have "\<not> is_new" using en(1,2) True by (auto simp: s'_def)
      then have pending using en(1,2) True by (simp add: pending_def s'_def)
      then show ?thesis using c5(4) en(3) True by blast
    next
      case False
      then have "bget (sv_entries s) k = Some en" "bget (rc_entries c1) k = Some e"
        using en c5(1) by (auto simp: s'_def touched_def split: if_splits)
      then show ?thesis using reg1 en(2) unfolding registered_ok_def by auto
    qed
    then have "registered_ok s'" using keys by (simp add: registered_ok_def s'_def)
    moreover have "waiters_ok s'"
      by (rule waiters_ok_cong [OF parts(1)]) (auto simp: s'_def is_new_def waiting_def bcontains_def)
    moreover have "resources_ok s'"
    proof -
      have unique: "a = key" if "bcontains (sv_entries s) a" "rk_kind a = rk_kind key"
          "ri_member_id (rk_identity a) = ri_member_id (rk_identity key)" for a
        using that by (auto simp: s_def bcontains_def same_resource_def member_range_iff in_bkeys split: if_splits)
      show ?thesis
        unfolding resources_ok_def
      proof (intro allI impI)
        fix a b
        assume ab: "bcontains (sv_entries s') a" "bcontains (sv_entries s') b" "rk_kind a = rk_kind b"
          "ri_member_id (rk_identity a) = ri_member_id (rk_identity b)"
        then have "a = key \<or> bcontains (sv_entries s) a" "b = key \<or> bcontains (sv_entries s) b"
          by (auto simp: s'_def bcontains_def split: if_splits)
        then show "a = b"
          using ab(3,4) unique parts(2) unfolding resources_ok_def by metis
      qed
    qed
    ultimately show ?thesis using c5(3) that(2) by (simp add: service_ok_def s'_def)
  qed
  show ?thesis
    unfolding result using assms failed accepted by (simp add: s_def)
qed

section \<open>Steps and reachable states\<close>

inductive service_step :: "('v \<Rightarrow> bool) \<Rightarrow> 'v refresh_service \<Rightarrow> 'v refresh_service \<Rightarrow> bool" for is_cacheable where
  step_request: "caller \<notin> sv_asked s \<Longrightarrow> service_step is_cacheable s (snd (service_request caller i k now s))"
| step_register: "service_step is_cacheable s (snd (service_register r now1 now2 now3 now4 s))"
| step_remove_member: "service_step is_cacheable s (snd (service_remove_member m s))"
| step_remove_kind: "service_step is_cacheable s (snd (service_remove_kind i k s))"
| step_retain: "service_step is_cacheable s (service_retain keep s)"
| step_set_member_active: "service_step is_cacheable s (service_set_member_active m now s)"
| step_mark_dirty: "service_step is_cacheable s (snd (service_mark_dirty i k now s))"
| step_observe: "service_step is_cacheable s (snd (service_observe_passive_quota i now age wall s))"
| step_set_active: "service_step is_cacheable s (service_set_active i a now s)"
| step_schedule: "service_step is_cacheable s (snd (service_schedule_after i k delay now s))"
| step_respect: "service_step is_cacheable s (respect_retry_after i k delay now s)"
| step_drive: "\<not> sv_stopped s \<Longrightarrow> drive_claims now s = Some (jobs, s') \<Longrightarrow> service_step is_cacheable s s'"
| step_complete: "service_step is_cacheable s (service_complete is_cacheable job result now s)"
| step_shutdown: "service_step is_cacheable s (service_shutdown s)"

inductive service_reachable :: "('v \<Rightarrow> bool) \<Rightarrow> 'v refresh_service \<Rightarrow> bool" for is_cacheable where
  service_created: "new_service limits = Some s \<Longrightarrow> service_reachable is_cacheable s"
| service_stepped: "service_reachable is_cacheable s \<Longrightarrow> service_step is_cacheable s s' \<Longrightarrow> service_reachable is_cacheable s'"

lemma fold_set_active_ok:
  "coordinator_ok c \<Longrightarrow> coordinator_ok (fold (\<lambda>i c. snd (set_active i True now c)) is c)
     \<and> steady c (fold (\<lambda>i c. snd (set_active i True now c)) is c)"
proof (induction "is" arbitrary: c)
  case (Cons i "is")
  then show ?case
    using coordinator_ok_calls(4) [OF Cons.prems, of i True now] steady_set_active [of c i True now]
    by (auto intro: steady_trans)
qed simp

lemma service_ok_calls:
  assumes "service_ok s"
  shows "service_ok (s\<lparr>sv_coordinator := snd (mark_dirty i k now (sv_coordinator s))\<rparr>)"
    "service_ok (s\<lparr>sv_coordinator := snd (observe_passive_quota i now age wall (sv_coordinator s))\<rparr>)"
    "service_ok (s\<lparr>sv_coordinator := snd (set_active i a now (sv_coordinator s))\<rparr>)"
    "service_ok (s\<lparr>sv_coordinator := snd (schedule_event i k now (sv_coordinator s))\<rparr>)"
    "service_ok (s\<lparr>sv_coordinator := defer_until i k now (sv_coordinator s)\<rparr>)"
proof -
  have "coordinator_ok (sv_coordinator s)" using assms by (simp add: service_ok_def)
  note ok = coordinator_ok_calls [OF this]
  show "service_ok (s\<lparr>sv_coordinator := snd (mark_dirty i k now (sv_coordinator s))\<rparr>)"
    "service_ok (s\<lparr>sv_coordinator := snd (observe_passive_quota i now age wall (sv_coordinator s))\<rparr>)"
    "service_ok (s\<lparr>sv_coordinator := snd (set_active i a now (sv_coordinator s))\<rparr>)"
    "service_ok (s\<lparr>sv_coordinator := snd (schedule_event i k now (sv_coordinator s))\<rparr>)"
    "service_ok (s\<lparr>sv_coordinator := defer_until i k now (sv_coordinator s)\<rparr>)"
    by (rule service_ok_steady [OF assms]; simp add: steady_calls steady_set_active ok)+
qed

lemma step_ok:
  assumes "service_step is_cacheable s s'" "service_ok s"
  shows "service_ok s'"
  using assms(1)
proof (cases rule: service_step.cases)
  case (step_set_member_active m now)
  have ok: "coordinator_ok (sv_coordinator s)" using assms(2) by (simp add: service_ok_def)
  show ?thesis
    unfolding step_set_member_active service_set_member_active_def
    by (rule service_ok_steady [OF assms(2)]) (simp_all add: fold_set_active_ok [OF ok])
next
  case (step_drive now jobs)
  then show ?thesis using drive_ok [OF assms(2), of now] by auto
next
  case (step_request caller i k now)
  then show ?thesis using request_ok [OF assms(2)] by simp
next
  case (step_register r now1 now2 now3 now4)
  then show ?thesis using register_ok [OF assms(2)] by simp
next
  case (step_remove_member m)
  then show ?thesis using fold_remove_ok [OF assms(2)] by (simp add: service_remove_member_def Let_def)
next
  case (step_remove_kind i k)
  then show ?thesis using remove_service_entry_ok [OF assms(2)] assms(2) by (simp add: service_remove_kind_def Let_def)
next
  case (step_retain keep)
  then show ?thesis using fold_remove_ok [OF assms(2)] by (simp add: service_retain_def)
next
  case (step_complete job result now)
  then show ?thesis using service_complete_ok [OF assms(2)] by simp
next
  case step_shutdown
  then show ?thesis using shutdown_ok [OF assms(2)] by simp
qed (simp_all add: service_mark_dirty_def service_observe_passive_quota_def service_set_active_def
    service_schedule_after_def respect_retry_after_def case_prod_beta service_ok_calls [OF assms(2)])

lemma service_reachable_ok: "service_reachable is_cacheable s \<Longrightarrow> service_ok s"
  by (induction rule: service_reachable.induct) (auto intro: new_service_ok step_ok)

text \<open>Answers are final: nobody who waits has one.\<close>

lemma remove_keeps_answers:
  assumes "waiters_ok s" "sv_answers s w = Some a"
  shows "sv_answers (remove_service_entry key s) w = Some a"
proof -
  have "\<not> waiting s w key" using assms by (auto simp: waiters_ok_def)
  then show ?thesis using assms(2) by (auto simp: remove_service_entry_def Let_def waiting_def split: option.split)
qed

lemma fold_remove_keeps_answers:
  "waiters_ok s \<Longrightarrow> sv_answers s w = Some a \<Longrightarrow> sv_answers (fold remove_service_entry keys s) w = Some a"
  by (induction keys arbitrary: s) (auto intro: remove_service_entry_waiters remove_keeps_answers)

lemma drive_keeps_answers: "drive_claims now s = Some (jobs, s') \<Longrightarrow> sv_answers s' = sv_answers s"
proof (induction now s arbitrary: jobs s' rule: drive_claims.induct)
  case (1 now s)
  then show ?case
    by (subst (asm) (2) drive_claims.simps) (auto simp: Let_def split: prod.splits option.splits)
qed

lemma register_keeps_answers:
  assumes "waiters_ok s" "sv_answers s w = Some a"
  shows "sv_answers (snd (service_register r now1 now2 now3 now4 s)) w = Some a"
  using fold_remove_keeps_answers [OF assms] assms(2)
  unfolding service_register_def Let_def case_prod_beta by (simp only: if_distrib [of snd] snd_conv) simp

lemma step_keeps_answers:
  assumes "service_step is_cacheable s s'" "waiters_ok s" "sv_answers s w = Some a"
  shows "sv_answers s' w = Some a"
proof -
  have nowhere: "\<not> waiting s w key" for key using assms(2,3) by (auto simp: waiters_ok_def)
  from assms(1) show ?thesis
  proof (cases rule: service_step.cases)
    case (step_register r now1 now2 now3 now4)
    then show ?thesis using register_keeps_answers [OF assms(2,3)] by simp
  next
    case (step_drive now jobs)
    then show ?thesis using drive_keeps_answers assms(3) by metis
  next
    case (step_complete job result now)
    then show ?thesis
      using nowhere [of "RefreshKey (job_identity job) (job_kind job)"] assms(3)
      by (auto simp: service_complete_def Let_def waiting_def split: prod.splits refresh_completion.splits option.splits)
  next
    case step_shutdown
    then show ?thesis
      using nowhere assms(3) by (auto simp: service_shutdown_def shutdown_fields waiting_def bget_in_entries)
  qed (use assms(3) fold_remove_keeps_answers [OF assms(2,3)] remove_keeps_answers [OF assms(2,3)] in
      \<open>auto simp: service_request_def service_remove_member_def service_remove_kind_def service_retain_def
        service_set_member_active_def service_mark_dirty_def service_observe_passive_quota_def service_set_active_def
        service_schedule_after_def respect_retry_after_def case_prod_beta Let_def split: prod.splits bool.splits option.splits\<close>)
qed

section \<open>The properties\<close>

text \<open>C2: Nobody waits for nothing and nobody is answered twice: in every state the service reaches, a caller
  whose request was accepted either has its answer and waits for nothing, or waits at exactly one entry,
  which is registered and whose read is running as one of the charged jobs or has a due time; once the
  service is stopped every caller has its answer.\<close>
theorem callers_not_forgotten:
  assumes "service_reachable is_cacheable s" "w \<in> sv_asked s"
  shows "(sv_answers s w \<noteq> None \<and> (\<forall>key. \<not> waiting s w key))
    \<or> (sv_answers s w = None \<and> \<not> sv_stopped s \<and> (\<exists>key e. bget (rc_entries (sv_coordinator s)) key = Some e
         \<and> (\<forall>k. waiting s w k \<longleftrightarrow> k = key)
         \<and> (case re_in_flight e of Some jid \<Rightarrow> bcontains (rc_jobs (sv_coordinator s)) jid
            | None \<Rightarrow> \<not> re_unsupported e \<and> re_next_due e \<noteq> None)))"
proof (cases "\<exists>key. waiting s w key")
  case False
  then show ?thesis
    using service_reachable_ok [OF assms(1)] assms(2) by (auto simp: service_ok_def waiters_ok_def)
next
  case True
  then obtain key where key: "waiting s w key" by blast
  note ok = service_reachable_ok [OF assms(1)]
  from key obtain en where en: "bget (sv_entries s) key = Some en" "w \<in> unwrap_or (se_waiters en) {}"
    by (auto simp: waiting_def)
  then have running: "\<not> sv_stopped s" "registered_ok s" "se_waiters en \<noteq> None"
    using ok by (cases "se_waiters en"; auto simp: service_ok_def split: if_splits)+
  then obtain e where e: "bget (rc_entries (sv_coordinator s)) key = Some e"
    using en(1) unfolding registered_ok_def by (metis bcontains_iff)
  then have "entry_pending e" using running(2,3) en(1) unfolding registered_ok_def by blast
  moreover have "bcontains (rc_jobs (sv_coordinator s)) jid" if "re_in_flight e = Some jid" for jid
    using ok e that by (auto simp: service_ok_def coordinator_ok_def bcontains_def)
  ultimately have "case re_in_flight e of Some jid \<Rightarrow> bcontains (rc_jobs (sv_coordinator s)) jid
      | None \<Rightarrow> \<not> re_unsupported e \<and> re_next_due e \<noteq> None"
    by (auto simp: entry_pending_def split: option.split)
  moreover have "waiting s w k \<longleftrightarrow> k = key" for k
    using ok key by (auto simp: service_ok_def waiters_ok_def)
  moreover have "sv_answers s w = None" using ok key by (auto simp: service_ok_def waiters_ok_def)
  ultimately show ?thesis using e running(1) by blast
qed

text \<open>C31: A round of the driver ends without a panic in every state: each entry it claims has its work
  registered, and after the round no further read can be claimed at that time.\<close>
theorem driver_round_ends:
  assumes "service_reachable is_cacheable s" "\<not> sv_stopped s"
  shows "\<exists>jobs s'. drive_claims now s = Some (jobs, s') \<and> fst (claim_due now (sv_coordinator s')) = None"
proof -
  have "drive_claims now s = Some (jobs, s') \<Longrightarrow> fst (claim_due now (sv_coordinator s')) = None" for jobs s'
  proof (induction now s arbitrary: jobs s' rule: drive_claims.induct)
    case (1 now s)
    then show ?case
      by (subst (asm) (2) drive_claims.simps)
        (auto simp: Let_def split: prod.splits option.splits)
  qed
  then show ?thesis using drive_ok [OF service_reachable_ok [OF assms(1)] assms(2)] by blast
qed

text \<open>C24: What a caller was told is never taken back or changed by anything that happens later.\<close>
theorem answers_are_final:
  assumes "service_reachable is_cacheable s" "(service_step is_cacheable)\<^sup>*\<^sup>* s s'"
  shows "sv_answers s \<subseteq>\<^sub>m sv_answers s'"
proof -
  from assms(2) have "service_reachable is_cacheable s' \<and> sv_answers s \<subseteq>\<^sub>m sv_answers s'"
  proof (induction rule: rtranclp_induct)
    case (step s1 s2)
    then have ok: "waiters_ok s1" using service_reachable_ok [of is_cacheable s1] by (simp add: service_ok_def)
    have "sv_answers s1 \<subseteq>\<^sub>m sv_answers s2"
      using step_keeps_answers [OF step.hyps(2) ok] by (auto simp: map_le_def dom_def)
    then show ?case using step by (blast intro: service_stepped map_le_trans)
  qed (use assms(1) in \<open>simp add: map_le_refl\<close>)
  then show ?thesis by blast
qed

text \<open>C39: A registration never brings back an older revision: it is refused, changing nothing, when a larger
  revision of its resource is registered; when it is accepted its entry is the only one of the resource.\<close>
theorem registration_supersedes:
  assumes "service_reachable is_cacheable s" "service_register r now1 now2 now3 now4 s = (result, s')"
  shows "((\<exists>a. bcontains (sv_entries s) a \<and> rk_kind a = reg_kind r \<and> ri_member_id (rk_identity a) = ri_member_id (reg_identity r)
            \<and> (ri_auth_revision (reg_identity r) < ri_auth_revision (rk_identity a)
               \<or> ri_config_revision (reg_identity r) < ri_config_revision (rk_identity a)))
          \<longrightarrow> result \<noteq> Inr () \<and> s' = s)
    \<and> (result = Inr () \<longrightarrow> (\<forall>a. bcontains (sv_entries s') a \<and> rk_kind a = reg_kind r
          \<and> ri_member_id (rk_identity a) = ri_member_id (reg_identity r) \<longleftrightarrow> a = RefreshKey (reg_identity r) (reg_kind r)))"
proof -
  have "service_ok s'" using register_ok [OF service_reachable_ok [OF assms(1)]] assms(2) by (metis snd_conv)
  then have unique: "resources_ok s'" by (simp add: service_ok_def)
  have present: "bcontains (sv_entries s') (RefreshKey (reg_identity r) (reg_kind r))" if "result = Inr ()"
    using assms(2) that by (auto simp: service_register_def Let_def bcontains_def split: if_splits prod.splits)
  have stale: "result \<noteq> Inr () \<and> s' = s" if "bcontains (sv_entries s) a" "rk_kind a = reg_kind r"
      "ri_member_id (rk_identity a) = ri_member_id (reg_identity r)"
      "ri_auth_revision (reg_identity r) < ri_auth_revision (rk_identity a)
       \<or> ri_config_revision (reg_identity r) < ri_config_revision (rk_identity a)" for a
  proof -
    have "list_ex (\<lambda>a. same_resource a (RefreshKey (reg_identity r) (reg_kind r))
          \<and> (ri_auth_revision (reg_identity r) < ri_auth_revision (rk_identity a)
             \<or> ri_config_revision (reg_identity r) < ri_config_revision (rk_identity a))) (bkeys (sv_entries s))"
      using that by (auto simp: list_ex_iff in_bkeys bcontains_iff same_resource_def member_range_iff intro!: bexI [of _ a])
    then show ?thesis using assms(2) by (auto simp: service_register_def Let_def split: if_splits)
  qed
  show ?thesis
    using stale present unique unfolding resources_ok_def by (metis refresh_key.sel)
qed

section \<open>Witnesses\<close>

text \<open>A service with one registered account whose caller 5 waits, and a stale registration.\<close>

definition empty_demo :: refresh_coordinator where
  "empty_demo = \<lparr>rc_entries = bempty, rc_jobs = bempty, rc_next_job_id = 0, rc_limits = default_refresh_limits,
     rc_next_start = 0, rc_origin_next_start = bempty, rc_class_cursor = 0\<rparr>"

definition demo_service :: "nat refresh_service" where
  "demo_service = \<lparr>sv_coordinator = empty_demo, sv_entries = bempty, sv_stopped = False, sv_asked = {}, sv_answers = Map.empty\<rparr>"

definition demo_registration :: "u64 \<Rightarrow> refresh_registration" where
  "demo_registration rev1 = \<lparr>reg_identity = RefreshIdentity ''acct'' rev1 1, reg_kind = RefreshQuota, reg_origin = ''acct'',
     reg_active = True, reg_automatic = True, reg_due_now = True\<rparr>"

definition registered_demo :: "nat refresh_service" where
  "registered_demo = snd (service_register (demo_registration 2) 0 0 0 0 demo_service)"

lemma demo_service_reachable: "service_reachable c demo_service"
  by (rule service_created [of default_refresh_limits])
    (simp add: new_service_def new_coordinator_def demo_service_def empty_demo_def default_refresh_limits_def)

lemma registered_demo_reachable: "service_reachable c registered_demo"
  unfolding registered_demo_def by (rule service_stepped [OF demo_service_reachable step_register])

lemma empty_demo_fields:
  "rc_entries empty_demo = bempty" "max_entries (rc_limits empty_demo) = 8192"
  "snd (set_active i a now empty_demo) = empty_demo"
proof -
  have "bfilter_map f (bempty :: (refresh_key, refresh_entry) bmap) = (bempty :: (refresh_key, refresh_entry) bmap)" for f
    by (rule bmap_eqI) simp
  then show "snd (set_active i a now empty_demo) = empty_demo" by (simp add: set_active_def empty_demo_def)
qed (simp_all add: empty_demo_def default_refresh_limits_def)

lemma demo_registered:
  "fst (service_register (demo_registration 2) 0 0 0 0 demo_service) = Inr ()"
  "bget (sv_entries registered_demo) (RefreshKey (RefreshIdentity ''acct'' 2 1) RefreshQuota) = Some \<lparr>se_waiters = None, se_cached = None\<rparr>"
  "sv_stopped registered_demo = False" "sv_asked registered_demo = {}"
  by (simp_all add: registered_demo_def service_register_def demo_registration_def demo_service_def Let_def bcontains_def
      register_origin_def empty_demo_fields case_prod_beta)

lemma demo_known:
  "bcontains (rc_entries (sv_coordinator registered_demo)) (RefreshKey (RefreshIdentity ''acct'' 2 1) RefreshQuota)"
  using service_reachable_ok [OF registered_demo_reachable] demo_registered(2,3)
  by (auto simp: service_ok_def registered_ok_def bcontains_def)

definition waiting_demo :: "nat refresh_service" where
  "waiting_demo = snd (service_request 5 (RefreshIdentity ''acct'' 2 1) RefreshQuota 0 registered_demo)"

lemma demo_waiting:
  "5 \<in> sv_asked waiting_demo" "sv_answers waiting_demo 5 = None" "service_reachable c waiting_demo"
  "waiting waiting_demo 5 (RefreshKey (RefreshIdentity ''acct'' 2 1) RefreshQuota)"
proof -
  show reach: "service_reachable c waiting_demo" for c
    unfolding waiting_demo_def
    by (rule service_stepped [OF registered_demo_reachable step_request]) (simp add: demo_registered)
  show asked: "5 \<in> sv_asked waiting_demo"
    and waits: "waiting waiting_demo 5 (RefreshKey (RefreshIdentity ''acct'' 2 1) RefreshQuota)"
    using demo_known
    by (auto simp: waiting_demo_def service_request_def demo_registered request_now_def Let_def waiting_def)
  show "sv_answers waiting_demo 5 = None"
    using service_reachable_ok [OF reach] waits by (auto simp: service_ok_def waiters_ok_def)
qed

theorem callers_not_forgotten_witness:
  "\<exists>key e. bget (rc_entries (sv_coordinator waiting_demo)) key = Some e \<and> waiting waiting_demo 5 key"
  using callers_not_forgotten [OF demo_waiting(3,1)] demo_waiting(2) by auto

theorem driver_round_ends_witness:
  "\<exists>jobs s'. drive_claims 9 registered_demo = Some (jobs, s') \<and> fst (claim_due 9 (sv_coordinator s')) = None"
  using demo_registered(3) by (intro driver_round_ends [OF registered_demo_reachable [of "\<lambda>_. True"]]) simp

theorem answers_are_final_witness:
  "sv_answers waiting_demo \<subseteq>\<^sub>m sv_answers (service_shutdown waiting_demo)
   \<and> sv_answers (service_shutdown waiting_demo) 5 = Some (Inl WaitStopped)"
proof -
  have "(service_step (\<lambda>_. True))\<^sup>*\<^sup>* waiting_demo (service_shutdown waiting_demo)"
    by (intro r_into_rtranclp step_shutdown)
  then have "sv_answers waiting_demo \<subseteq>\<^sub>m sv_answers (service_shutdown waiting_demo)"
    by (rule answers_are_final [OF demo_waiting(3)])
  then show ?thesis
    using demo_waiting(4) by (auto simp: service_shutdown_def shutdown_fields waiting_def bget_in_entries)
qed

theorem registration_supersedes_witness:
  "fst (service_register (demo_registration 1) 0 0 0 0 registered_demo) \<noteq> Inr ()
   \<and> snd (service_register (demo_registration 1) 0 0 0 0 registered_demo) = registered_demo"
proof -
  have "bcontains (sv_entries registered_demo) (RefreshKey (RefreshIdentity ''acct'' 2 1) RefreshQuota)"
    by (simp add: demo_registered(2) bcontains_def)
  then show ?thesis
    using registration_supersedes [OF registered_demo_reachable, of "demo_registration 1" 0 0 0 0]
    by (cases "service_register (demo_registration 1) 0 0 0 0 registered_demo")
      (force simp: demo_registration_def word_less_nat_alt)
qed

end
