(* ===== verification/Wake.thy ===== *)
theory Wake
  imports Candidates
begin

text \<open>
  Waking quota windows (\<open>automations/quota_wake.rs\<close>, \<open>quota_wake/policy.rs\<close>, \<open>quota_wake/coordinator.rs\<close>
  and its modules \<open>claim\<close>, \<open>completion\<close>, \<open>history\<close>): tasks, the cycles scheduled when a window has become
  full again, the permits handed out for them, and their history.

  \<open>sha_hex\<close> (the hexadecimal SHA-256 digest) and \<open>digest\<close> (the digest as bytes) are parameters.  Of the
  account record only the fields read here are kept.
\<close>

section \<open>Tasks\<close>

definition MAX_WAKE_ATTEMPTS :: u8 where "MAX_WAKE_ATTEMPTS = 2"
definition MAX_WAKE_JITTER_SECONDS :: u32 where "MAX_WAKE_JITTER_SECONDS = 3600"
definition MAX_VERIFICATION_DELAY_MS :: u64 where "MAX_VERIFICATION_DELAY_MS = 10 * 60000"
definition MAX_OUTPUT_TOKEN_CAP :: u16 where "MAX_OUTPUT_TOKEN_CAP = 256"
definition MODEL_RANK_STRIDE :: u32 where "MODEL_RANK_STRIDE = 4096"

text \<open>\<open>str::contains\<close>\<close>

definition contains_text :: "string \<Rightarrow> string \<Rightarrow> bool" where
  "contains_text s pattern = list_ex (\<lambda>i. take (length pattern) (drop i s) = pattern) [0..<Suc (length s)]"

definition model_lightness_rank :: "string \<Rightarrow> nat \<Rightarrow> u32" where
  "model_lightness_rank model index =
     (let model_id = model_id_key model;
          tier = (if contains_text model_id ''nano'' then 0 else if contains_text model_id ''mini'' then 1 else 2)
      in tier * MODEL_RANK_STRIDE + min (sat_of_nat index) (MODEL_RANK_STRIDE - 1))"

datatype account_auth_mode = AuthModeOAuth | AuthModeApiKey | AuthModeImportedToken

record wake_account =
  wa_id :: string
  wa_auth_mode :: account_auth_mode
  wa_auth_state :: account_auth_state
  wa_health :: account_health_state
  wa_quota :: quota_snapshot
  wa_tags :: "string set"
  wa_enabled :: bool
  wa_in_pool :: bool
  wa_draining :: bool

definition is_wake_eligible :: "wake_account \<Rightarrow> bool" where
  "is_wake_eligible a = (wa_enabled a \<and> wa_in_pool a \<and> \<not> wa_draining a
     \<and> wa_auth_state a = AuthActive \<and> wa_health a = AccountHealthy)"

datatype account_selector = AllEligible | AccountIds "string set" | AccountTags "string set"

fun selector_matches :: "account_selector \<Rightarrow> wake_account \<Rightarrow> bool" where
  "selector_matches AllEligible a = True"
| "selector_matches (AccountIds ids) a = (wa_id a \<in> ids)"
| "selector_matches (AccountTags tags) a = (tags \<inter> wa_tags a \<noteq> {})"

fun selector_is_valid :: "account_selector \<Rightarrow> bool" where
  "selector_is_valid AllEligible = True"
| "selector_is_valid (AccountIds ids) = (ids \<noteq> {})"
| "selector_is_valid (AccountTags ids) = (ids \<noteq> {})"

datatype wake_model_policy = LightestSupported | ExplicitModel string

datatype wake_trigger = WakeQuotaFull | WakeDaily | WakeWeekly | WakeInterval u64

datatype wake_execution_policy = WakeAutomatic | RequireConfirmation

record wake_task =
  wt_id :: string
  wt_name :: string
  wt_enabled :: bool
  wt_account_selector :: account_selector
  wt_window_kinds :: "quota_window_kind set"
  wt_model_policy :: wake_model_policy
  wt_trigger :: wake_trigger
  wt_fallback_schedule :: "wake_trigger option"
  wt_execution_policy :: wake_execution_policy
  wt_jitter_seconds :: u32
  wt_max_attempts_per_cycle :: u8
  wt_created_at_ms :: u64
  wt_updated_at_ms :: u64

datatype wake_task_validation_error = WakeInvalidId | WakeInvalidName | WakeUnsupportedSchedule
  | WakeInvalidAccountSelector | WakeInvalidWindowSelection | WakeInvalidModelPolicy
  | WakeInvalidAttemptLimit | WakeInvalidJitter | WakeInvalidAdapterPolicy

definition is_ascii_token :: "string \<Rightarrow> nat \<Rightarrow> bool" where
  "is_ascii_token token max_len =
     (token \<noteq> [] \<and> length token \<le> max_len
      \<and> list_all (\<lambda>c. is_ascii_alphanumeric c \<or> c = CHR ''-'' \<or> c = CHR ''_'') token)"

definition is_safe_id :: "string \<Rightarrow> bool" where
  "is_safe_id identifier = is_ascii_token (trim identifier) 64"

definition validate_wake_task :: "wake_task \<Rightarrow> wake_task_validation_error option" where
  "validate_wake_task t =
     (if \<not> is_safe_id (wt_id t) then Some WakeInvalidId
      else if trim (wt_name t) = [] then Some WakeInvalidName
      else if wt_fallback_schedule t \<noteq> None \<or> wt_trigger t \<notin> {WakeQuotaFull, WakeWeekly}
      then Some WakeUnsupportedSchedule
      else if \<not> selector_is_valid (wt_account_selector t) then Some WakeInvalidAccountSelector
      else if wt_window_kinds t = {} then Some WakeInvalidWindowSelection
      else if wt_trigger t = WakeWeekly
              \<and> (wt_window_kinds t \<noteq> {Secondary} \<or> wt_execution_policy t \<noteq> WakeAutomatic)
      then Some WakeUnsupportedSchedule
      else if (case wt_model_policy t of ExplicitModel m \<Rightarrow> trim m = [] | _ \<Rightarrow> False)
      then Some WakeInvalidModelPolicy
      else if \<not> (1 \<le> wt_max_attempts_per_cycle t \<and> wt_max_attempts_per_cycle t \<le> MAX_WAKE_ATTEMPTS)
      then Some WakeInvalidAttemptLimit
      else if MAX_WAKE_JITTER_SECONDS < wt_jitter_seconds t then Some WakeInvalidJitter
      else None)"

record wake_model =
  wm_id :: string
  wm_lightness_rank :: u32
  wm_wake_capable :: bool

record wake_adapter_policy =
  wp_windows_requiring_activity :: "quota_window_kind set"
  wp_models :: "wake_model list"
  wp_verification_delay_ms :: u64
  wp_output_token_cap :: u16

definition adapter_policy_is_valid :: "wake_adapter_policy \<Rightarrow> bool" where
  "adapter_policy_is_valid p =
     (wp_verification_delay_ms p \<le> MAX_VERIFICATION_DELAY_MS
      \<and> 1 \<le> wp_output_token_cap p \<and> wp_output_token_cap p \<le> MAX_OUTPUT_TOKEN_CAP)"

definition select_model :: "wake_model_policy \<Rightarrow> wake_model list \<Rightarrow> string option" where
  "select_model policy models =
     (case policy of
        LightestSupported \<Rightarrow>
          map_option wm_id (min_by (\<lambda>a b. then_with (cmp (wm_lightness_rank a) (wm_lightness_rank b)) (cmp (wm_id a) (wm_id b)))
            (filter (\<lambda>m. wm_wake_capable m \<and> trim (wm_id m) \<noteq> []) models))
      | ExplicitModel m0 \<Rightarrow>
          map_option wm_id (find (\<lambda>m. wm_wake_capable m \<and> eq_ignore_ascii_case (wm_id m) (trim m0)) models))"

section \<open>Cycles\<close>

datatype wake_outcome = WakeConfirmed | WakeUnconfirmed | WakeSkippedAlreadyStarted | WakeSkippedDuplicate
  | WakeSkippedIneligible | WakeSkippedCapacity | WakeFailed

record wake_history =
  wh_task_id :: string
  wh_account_id :: string
  wh_window_kind :: quota_window_kind
  wh_fingerprint :: string
  wh_model_id :: "string option"
  wh_trigger :: wake_trigger
  wh_attempt :: u8
  wh_outcome :: wake_outcome
  wh_started_at_ms :: u64
  wh_completed_at_ms :: u64
  wh_latency_ms :: "u64 option"
  wh_input_tokens :: "u64 option"
  wh_output_tokens :: "u64 option"
  wh_error_code :: "string option"

record wake_request =
  wr_account_id :: string
  wr_model_id :: string
  wr_window_kind :: quota_window_kind
  wr_output_token_cap :: u16

record wake_verification =
  wv_window_kind :: quota_window_kind
  wv_baseline_window :: "quota_window option"
  wv_verify_after_ms :: u64

datatype wake_verification_outcome = ConfirmedQuotaConsumed | ConfirmedCountdownAdvanced | WakeNotConfirmed

definition known_full_state :: "quota_window \<Rightarrow> bool" where
  "known_full_state w = (qw_explicitly_full w \<noteq> None \<or> qw_available w \<noteq> None)"

definition verify_wake_countdown :: "quota_window option \<Rightarrow> quota_window option \<Rightarrow> wake_verification_outcome" where
  "verify_wake_countdown before0 after0 =
     (case (before0, after0) of
        (Some before, Some now) \<Rightarrow>
          if qw_kind before \<noteq> qw_kind now \<or> qw_observed_at_ms now \<le> qw_observed_at_ms before
             \<or> \<not> known_full_state before \<or> \<not> known_full_state now \<or> \<not> is_fully_available before
          then WakeNotConfirmed
          else if \<not> is_fully_available now then ConfirmedQuotaConsumed
          else if (case (qw_reset_at_ms before, qw_reset_at_ms now) of
              (Some before_reset, Some after_reset) \<Rightarrow> before_reset < after_reset \<and> qw_observed_at_ms now < after_reset
            | _ \<Rightarrow> False)
          then ConfirmedCountdownAdvanced
          else WakeNotConfirmed
      | _ \<Rightarrow> WakeNotConfirmed)"

datatype wake_cycle_status = CyclePending | CycleInFlight | CycleCompleted

record wake_cycle =
  wc_key :: string
  wc_status :: wake_cycle_status
  wc_task_id :: string
  wc_account_id :: string
  wc_window_kind :: quota_window_kind
  wc_fingerprint :: string
  wc_trigger :: wake_trigger
  wc_requires_confirmation :: bool
  wc_request :: "wake_request option"
  wc_verification :: "wake_verification option"
  wc_jitter_seconds :: u32
  wc_max_attempts :: u8
  wc_attempts_started :: u8
  wc_due_at_ms :: u64
  wc_recorded_at_ms :: u64

record wake_schedule =
  ws_cycle_key :: string
  ws_due_at_ms :: u64
  ws_attempts_started :: u8
  ws_max_attempts :: u8
  ws_request :: wake_request

definition cycle_schedule :: "wake_cycle \<Rightarrow> wake_schedule option" where
  "cycle_schedule c =
     (if wc_status c \<noteq> CyclePending then None
      else map_option (\<lambda>request. \<lparr>ws_cycle_key = wc_key c, ws_due_at_ms = wc_due_at_ms c,
             ws_attempts_started = wc_attempts_started c, ws_max_attempts = wc_max_attempts c,
             ws_request = request\<rparr>) (wc_request c))"

definition finish_cycle :: "u64 \<Rightarrow> wake_cycle \<Rightarrow> wake_cycle" where
  "finish_cycle now_ms c =
     c\<lparr>wc_status := CycleCompleted, wc_request := None, wc_verification := None, wc_recorded_at_ms := now_ms\<rparr>"

record wake_state =
  wk_max_cycles :: nat
  wk_max_history :: nat
  wk_cycles :: "wake_cycle list"
  wk_history :: "wake_history list"

definition new_wake_state :: "nat \<Rightarrow> nat \<Rightarrow> wake_state option" where
  "new_wake_state max_cycles max_history =
     (if max_cycles = 0 \<or> max_history = 0 then None
      else Some \<lparr>wk_max_cycles = max_cycles, wk_max_history = max_history, wk_cycles = [], wk_history = []\<rparr>)"

definition clear_task_confirmation_requirement :: "string \<Rightarrow> wake_state \<Rightarrow> wake_state" where
  "clear_task_confirmation_requirement task_id s =
     s\<lparr>wk_cycles := map (\<lambda>c. if wc_task_id c = task_id \<and> wc_status c \<noteq> CycleCompleted
          then c\<lparr>wc_requires_confirmation := False\<rparr> else c) (wk_cycles s)\<rparr>"

datatype wake_decision = Scheduled wake_schedule | WakeSkipped wake_outcome | WakeRejected wake_task_validation_error

record wake_permit =
  pm_cycle_key :: string
  pm_task_id :: string
  pm_account_id :: string
  pm_window_kind :: quota_window_kind
  pm_fingerprint :: string
  pm_model_id :: string
  pm_trigger :: wake_trigger
  pm_requires_confirmation :: bool
  pm_verification_delay_ms :: u64
  pm_output_token_cap :: u16
  pm_attempt :: u8
  pm_due_at_ms :: u64
  pm_reserved_at_ms :: u64
  pm_request :: wake_request
  pm_verification :: wake_verification

datatype wake_completion_outcome = CompletionConfirmed | CompletionUnconfirmed | CompletionFailed

record wake_completion =
  wn_outcome :: wake_completion_outcome
  wn_completed_at_ms :: u64
  wn_latency_ms :: "u64 option"
  wn_input_tokens :: "u64 option"
  wn_output_tokens :: "u64 option"
  wn_error_code :: "string option"


section \<open>The coordinator\<close>

definition nul :: string where
  "nul = [char_of (0 :: nat)]"

definition kind_debug :: "quota_window_kind \<Rightarrow> string" where
  "kind_debug kind = (case kind of Primary \<Rightarrow> ''Primary'' | Secondary \<Rightarrow> ''Secondary'')"

definition wake_cycle_key :: "(string \<Rightarrow> string) \<Rightarrow> wake_account \<Rightarrow> quota_transition \<Rightarrow> string" where
  "wake_cycle_key sha_hex account transition =
     sha_hex (wa_id account @ nul @ kind_debug (qt_window_kind transition) @ nul @ qt_fingerprint transition)"

definition same_cycle :: "wake_cycle \<Rightarrow> string \<Rightarrow> quota_window_kind \<Rightarrow> string \<Rightarrow> bool" where
  "same_cycle c account_id kind fingerprint =
     (wc_account_id c = account_id \<and> wc_window_kind c = kind \<and> wc_fingerprint c = fingerprint)"

definition deterministic_jitter_ms :: "(string \<Rightarrow> nat list) \<Rightarrow> string \<Rightarrow> u8 \<Rightarrow> u32 \<Rightarrow> u64" where
  "deterministic_jitter_ms digest key attempt jitter_seconds =
     (if jitter_seconds = 0 then 0
      else let seconds = from_le_bytes (take 8 (digest (key @ nul @ show_dec (unat attempt)))) mod (ucast jitter_seconds + 1)
        in sat_mul seconds 1000)"

definition valid_cycle :: "wake_cycle \<Rightarrow> bool" where
  "valid_cycle c =
     (wc_key c \<noteq> [] \<and> is_safe_id (wc_task_id c) \<and> trim (wc_account_id c) \<noteq> [] \<and> trim (wc_fingerprint c) \<noteq> []
      \<and> 1 \<le> wc_max_attempts c \<and> wc_max_attempts c \<le> MAX_WAKE_ATTEMPTS
      \<and> wc_attempts_started c \<le> wc_max_attempts c \<and> wc_jitter_seconds c \<le> MAX_WAKE_JITTER_SECONDS
      \<and> (wc_status c = CycleCompleted \<or> (wc_request c \<noteq> None \<and> wc_verification c \<noteq> None)))"

definition cycle_history :: "wake_cycle \<Rightarrow> wake_outcome \<Rightarrow> u64 \<Rightarrow> u64 \<Rightarrow> string option \<Rightarrow> wake_history" where
  "cycle_history c result started completed code =
     \<lparr>wh_task_id = wc_task_id c, wh_account_id = wc_account_id c, wh_window_kind = wc_window_kind c,
      wh_fingerprint = wc_fingerprint c, wh_model_id = None, wh_trigger = wc_trigger c,
      wh_attempt = wc_attempts_started c, wh_outcome = result, wh_started_at_ms = started,
      wh_completed_at_ms = completed, wh_latency_ms = None, wh_input_tokens = None, wh_output_tokens = None,
      wh_error_code = code\<rparr>"

definition natural_use_history :: "wake_cycle \<Rightarrow> u64 \<Rightarrow> wake_history" where
  "natural_use_history c used_at = cycle_history c WakeSkippedAlreadyStarted used_at used_at None"

definition canceled_history :: "wake_cycle \<Rightarrow> u64 \<Rightarrow> string \<Rightarrow> wake_history" where
  "canceled_history c completed_at code =
     cycle_history c WakeSkippedIneligible (wc_recorded_at_ms c) (max completed_at (wc_recorded_at_ms c))
       (Some (safe_error_code code))"

definition reserve_cycle :: "wake_cycle \<Rightarrow> wake_state \<Rightarrow> wake_state option" where
  "reserve_cycle c s =
     (if wk_max_cycles s \<le> length (wk_cycles s)
      then (case position (\<lambda>d. wc_status d = CycleCompleted) (wk_cycles s) of
              Some i \<Rightarrow> Some (s\<lparr>wk_cycles := take i (wk_cycles s) @ drop (Suc i) (wk_cycles s) @ [c]\<rparr>)
            | None \<Rightarrow> None)
      else Some (s\<lparr>wk_cycles := wk_cycles s @ [c]\<rparr>))"

definition push_history :: "wake_history \<Rightarrow> wake_state \<Rightarrow> wake_state" where
  "push_history h s =
     s\<lparr>wk_history := (if wk_max_history s \<le> length (wk_history s) then tl (wk_history s) else wk_history s) @ [h]\<rparr>"

definition cancel_matching :: "(wake_cycle \<Rightarrow> bool) \<Rightarrow> u64 \<Rightarrow> string \<Rightarrow> wake_state \<Rightarrow> nat \<times> wake_state" where
  "cancel_matching matching completed_at code s =
     (let hit = (\<lambda>c. wc_status c \<noteq> CycleCompleted \<and> matching c);
          records = map (\<lambda>c. canceled_history c completed_at code) (filter hit (wk_cycles s));
          kept = List.map_filter (\<lambda>c. if \<not> hit c then Some c
                   else if wc_attempts_started c \<noteq> 0 then Some (finish_cycle completed_at c) else None) (wk_cycles s)
      in (length records, fold push_history records (s\<lparr>wk_cycles := kept\<rparr>)))"

definition remove_pending_for_task :: "string \<Rightarrow> u64 \<Rightarrow> wake_state \<Rightarrow> nat \<times> wake_state" where
  "remove_pending_for_task task_id completed_at s =
     cancel_matching (\<lambda>c. wc_task_id c = task_id) completed_at ''wake_task_canceled'' s"

definition remove_pending_for_account :: "string \<Rightarrow> u64 \<Rightarrow> wake_state \<Rightarrow> nat \<times> wake_state" where
  "remove_pending_for_account account_id completed_at s =
     cancel_matching (\<lambda>c. wc_account_id c = account_id) completed_at ''wake_account_canceled'' s"

definition mark_natural_use_for_account :: "string \<Rightarrow> u64 \<Rightarrow> wake_state \<Rightarrow> nat \<times> wake_state" where
  "mark_natural_use_for_account account_id used_at s =
     (let hit = (\<lambda>c. wc_status c \<noteq> CycleCompleted \<and> wc_account_id c = account_id);
          records = map (\<lambda>c. natural_use_history c used_at) (filter hit (wk_cycles s))
      in (length records, fold push_history records
            (s\<lparr>wk_cycles := map (\<lambda>c. if hit c then finish_cycle used_at c else c) (wk_cycles s)\<rparr>)))"

definition requeue_cycle :: "(string \<Rightarrow> nat list) \<Rightarrow> wake_cycle \<Rightarrow> wake_cycle" where
  "requeue_cycle digest c =
     (if wc_status c \<noteq> CycleInFlight then c
      else if wc_attempts_started c < wc_max_attempts c
      then c\<lparr>wc_status := CyclePending, wc_due_at_ms := sat_add (wc_recorded_at_ms c)
               (deterministic_jitter_ms digest (wc_key c) (sat_add (wc_attempts_started c) 1) (wc_jitter_seconds c))\<rparr>
      else finish_cycle (wc_recorded_at_ms c) c)"

definition coordinator_from_state :: "(string \<Rightarrow> nat list) \<Rightarrow> wake_state \<Rightarrow> wake_state option" where
  "coordinator_from_state digest s =
     (if wk_max_cycles s = 0 \<or> wk_max_history s = 0 \<or> wk_max_cycles s < length (wk_cycles s)
         \<or> wk_max_history s < length (wk_history s) \<or> \<not> list_all valid_cycle (wk_cycles s)
      then None
      else Some (snd (cancel_matching (\<lambda>c. wc_window_kind c \<noteq> Primary) 0 ''wake_window_redundant''
             (s\<lparr>wk_cycles := map (requeue_cycle digest) (wk_cycles s),
                wk_history := map (\<lambda>h. h\<lparr>wh_error_code := map_option safe_error_code (wh_error_code h)\<rparr>)
                  (wk_history s)\<rparr>))))"

definition pending_schedules :: "wake_state \<Rightarrow> wake_schedule list" where
  "pending_schedules s = List.map_filter cycle_schedule (wk_cycles s)"

definition next_automatic_due :: "wake_state \<Rightarrow> u64 option" where
  "next_automatic_due s =
     list_min (map wc_due_at_ms (filter (\<lambda>c. wc_status c = CyclePending \<and> \<not> wc_requires_confirmation c
       \<and> wc_attempts_started c < wc_max_attempts c) (wk_cycles s)))"

definition is_permit_active :: "wake_permit \<Rightarrow> wake_state \<Rightarrow> bool" where
  "is_permit_active permit s =
     list_ex (\<lambda>c. wc_key c = pm_cycle_key permit \<and> wc_status c = CycleInFlight
       \<and> wc_attempts_started c = pm_attempt permit \<and> wc_task_id c = pm_task_id permit
       \<and> wc_account_id c = pm_account_id permit \<and> wc_window_kind c = pm_window_kind permit
       \<and> wc_fingerprint c = pm_fingerprint permit) (wk_cycles s)"

definition complete_by_natural_use ::
    "wake_task \<Rightarrow> wake_account \<Rightarrow> quota_transition \<Rightarrow> string \<Rightarrow> u64 \<Rightarrow> wake_state \<Rightarrow> wake_decision \<times> wake_state" where
  "complete_by_natural_use task account transition key now_ms s =
     (case position (\<lambda>c. same_cycle c (wa_id account) (qt_window_kind transition) (qt_fingerprint transition))
             (wk_cycles s) of
        Some i \<Rightarrow>
          if wc_status (wk_cycles s ! i) = CycleCompleted then (WakeSkipped WakeSkippedDuplicate, s)
          else (WakeSkipped WakeSkippedAlreadyStarted,
                push_history (natural_use_history (wk_cycles s ! i) now_ms)
                  (s\<lparr>wk_cycles := (wk_cycles s)[i := finish_cycle now_ms (wk_cycles s ! i)]\<rparr>))
      | None \<Rightarrow>
          let c = \<lparr>wc_key = key, wc_status = CycleCompleted, wc_task_id = wt_id task, wc_account_id = wa_id account,
                   wc_window_kind = qt_window_kind transition, wc_fingerprint = qt_fingerprint transition,
                   wc_trigger = wt_trigger task, wc_requires_confirmation = False, wc_request = None,
                   wc_verification = None, wc_jitter_seconds = wt_jitter_seconds task,
                   wc_max_attempts = wt_max_attempts_per_cycle task, wc_attempts_started = 0,
                   wc_due_at_ms = now_ms, wc_recorded_at_ms = now_ms\<rparr>
          in case reserve_cycle c s of
               None \<Rightarrow> (WakeSkipped WakeSkippedCapacity, s)
             | Some s' \<Rightarrow> (WakeSkipped WakeSkippedAlreadyStarted, push_history (natural_use_history c now_ms) s'))"

definition new_cycle ::
    "(string \<Rightarrow> nat list) \<Rightarrow> wake_task \<Rightarrow> wake_account \<Rightarrow> quota_transition \<Rightarrow> wake_adapter_policy \<Rightarrow> string \<Rightarrow>
     string \<Rightarrow> u64 \<Rightarrow> wake_cycle" where
  "new_cycle digest task account transition policy key model_id now_ms =
     \<lparr>wc_key = key, wc_status = CyclePending, wc_task_id = wt_id task, wc_account_id = wa_id account,
      wc_window_kind = qt_window_kind transition, wc_fingerprint = qt_fingerprint transition,
      wc_trigger = wt_trigger task,
      wc_requires_confirmation = (wt_execution_policy task = RequireConfirmation),
      wc_request = Some \<lparr>wr_account_id = wa_id account, wr_model_id = model_id,
        wr_window_kind = qt_window_kind transition, wr_output_token_cap = wp_output_token_cap policy\<rparr>,
      wc_verification = Some \<lparr>wv_window_kind = qt_window_kind transition,
        wv_baseline_window = snapshot_window (wa_quota account) (qt_window_kind transition),
        wv_verify_after_ms = wp_verification_delay_ms policy\<rparr>,
      wc_jitter_seconds = wt_jitter_seconds task, wc_max_attempts = wt_max_attempts_per_cycle task,
      wc_attempts_started = 0,
      wc_due_at_ms = sat_add now_ms (deterministic_jitter_ms digest key 1 (wt_jitter_seconds task)),
      wc_recorded_at_ms = now_ms\<rparr>"

definition wake_applies :: "wake_task \<Rightarrow> wake_account \<Rightarrow> quota_transition \<Rightarrow> wake_adapter_policy \<Rightarrow> bool" where
  "wake_applies task account transition policy =
     (wt_enabled task \<and> wa_auth_mode account = AuthModeOAuth
      \<and> selector_matches (wt_account_selector task) account \<and> wt_trigger task = WakeQuotaFull
      \<and> qt_window_kind transition = Primary \<and> Primary \<in> wt_window_kinds task
      \<and> trim (qt_fingerprint transition) \<noteq> [] \<and> is_wake_eligible account
      \<and> qt_window_kind transition \<in> wp_windows_requiring_activity policy)"

definition wake_evaluate ::
    "(string \<Rightarrow> nat list) \<Rightarrow> (string \<Rightarrow> string) \<Rightarrow> wake_task \<Rightarrow> wake_account \<Rightarrow> quota_transition \<Rightarrow> u64 option \<Rightarrow>
     wake_adapter_policy \<Rightarrow> u64 \<Rightarrow> wake_state \<Rightarrow> wake_decision \<times> wake_state" where
  "wake_evaluate digest sha_hex task account transition last_natural_use policy now_ms s =
     (case validate_wake_task task of Some e \<Rightarrow> (WakeRejected e, s)
      | None \<Rightarrow>
        if \<not> adapter_policy_is_valid policy then (WakeRejected WakeInvalidAdapterPolicy, s)
        else if \<not> wake_applies task account transition policy then (WakeSkipped WakeSkippedIneligible, s)
        else
          let key = wake_cycle_key sha_hex account transition
          in if is_some_and last_natural_use (\<lambda>last_used. qt_at_ms transition \<le> last_used)
             then complete_by_natural_use task account transition key now_ms s
             else if list_ex (\<lambda>c. same_cycle c (wa_id account) (qt_window_kind transition) (qt_fingerprint transition))
                    (wk_cycles s)
             then (WakeSkipped WakeSkippedDuplicate, s)
             else (case select_model (wt_model_policy task) (wp_models policy) of
                 None \<Rightarrow> (WakeSkipped WakeSkippedIneligible, s)
               | Some model_id \<Rightarrow>
                   let c = new_cycle digest task account transition policy key model_id now_ms
                   in case reserve_cycle c s of
                        None \<Rightarrow> (WakeSkipped WakeSkippedCapacity, s)
                      | Some s' \<Rightarrow> (Scheduled (the (cycle_schedule c)), s')))"

datatype wake_claim_mode = ClaimAny | ClaimAutomatic | ClaimConfirmation

fun mode_matches :: "wake_claim_mode \<Rightarrow> wake_cycle \<Rightarrow> bool" where
  "mode_matches ClaimAny c = True"
| "mode_matches ClaimAutomatic c = (\<not> wc_requires_confirmation c)"
| "mode_matches ClaimConfirmation c = wc_requires_confirmation c"

definition permit_of :: "u64 \<Rightarrow> wake_request \<Rightarrow> wake_verification \<Rightarrow> wake_cycle \<Rightarrow> wake_permit" where
  "permit_of now_ms request verification c =
     \<lparr>pm_cycle_key = wc_key c, pm_task_id = wc_task_id c, pm_account_id = wc_account_id c,
      pm_window_kind = wc_window_kind c, pm_fingerprint = wc_fingerprint c, pm_model_id = wr_model_id request,
      pm_trigger = wc_trigger c, pm_requires_confirmation = wc_requires_confirmation c,
      pm_verification_delay_ms = wv_verify_after_ms verification,
      pm_output_token_cap = wr_output_token_cap request, pm_attempt = wc_attempts_started c,
      pm_due_at_ms = wc_due_at_ms c, pm_reserved_at_ms = now_ms, pm_request = request,
      pm_verification = verification\<rparr>"

definition claim_cycle :: "u64 \<Rightarrow> wake_claim_mode \<Rightarrow> wake_cycle \<Rightarrow> (wake_cycle \<times> wake_permit) option" where
  "claim_cycle now_ms mode c =
     (if wc_status c \<noteq> CyclePending \<or> now_ms < wc_due_at_ms c \<or> wc_max_attempts c \<le> wc_attempts_started c
         \<or> \<not> mode_matches mode c
      then None
      else case (wc_request c, wc_verification c) of
          (Some request, Some verification) \<Rightarrow>
            let c' = c\<lparr>wc_status := CycleInFlight, wc_attempts_started := sat_add (wc_attempts_started c) 1,
                      wc_recorded_at_ms := now_ms\<rparr>
            in Some (c', permit_of now_ms request verification c')
        | _ \<Rightarrow> None)"

text \<open>The loop over the cycles; \<open>k\<close> is how many claims are left.\<close>

fun claim_cycles :: "u64 \<Rightarrow> wake_claim_mode \<Rightarrow> nat \<Rightarrow> wake_cycle list \<Rightarrow> wake_permit list \<times> wake_cycle list" where
  "claim_cycles now_ms mode k [] = ([], [])"
| "claim_cycles now_ms mode k (c # cs) =
     (if k = 0 then ([], c # cs)
      else case claim_cycle now_ms mode c of
          None \<Rightarrow> let (ps, cs') = claim_cycles now_ms mode k cs in (ps, c # cs')
        | Some (c', p) \<Rightarrow> let (ps, cs') = claim_cycles now_ms mode (k - 1) cs in (p # ps, c' # cs'))"

definition claim_due_matching :: "u64 \<Rightarrow> nat \<Rightarrow> wake_claim_mode \<Rightarrow> wake_state \<Rightarrow> wake_permit list \<times> wake_state" where
  "claim_due_matching now_ms max_claims mode s =
     (if max_claims = 0 then ([], s)
      else let (ps, cs) = claim_cycles now_ms mode max_claims (wk_cycles s) in (ps, s\<lparr>wk_cycles := cs\<rparr>))"

definition claim_due :: "u64 \<Rightarrow> nat \<Rightarrow> wake_state \<Rightarrow> wake_permit list \<times> wake_state" where
  "claim_due now_ms max_claims = claim_due_matching now_ms max_claims ClaimAny"

definition claim_due_automatic :: "u64 \<Rightarrow> nat \<Rightarrow> wake_state \<Rightarrow> wake_permit list \<times> wake_state" where
  "claim_due_automatic now_ms max_claims = claim_due_matching now_ms max_claims ClaimAutomatic"

definition claim_due_confirmations :: "u64 \<Rightarrow> nat \<Rightarrow> wake_state \<Rightarrow> wake_permit list \<times> wake_state" where
  "claim_due_confirmations now_ms max_claims = claim_due_matching now_ms max_claims ClaimConfirmation"

definition completion_outcome :: "wake_completion_outcome \<Rightarrow> wake_outcome" where
  "completion_outcome r = (case r of CompletionConfirmed \<Rightarrow> WakeConfirmed
     | CompletionUnconfirmed \<Rightarrow> WakeUnconfirmed | CompletionFailed \<Rightarrow> WakeFailed)"

definition completed_cycle :: "(string \<Rightarrow> nat list) \<Rightarrow> wake_completion_outcome \<Rightarrow> u64 \<Rightarrow> wake_cycle \<Rightarrow> wake_cycle" where
  "completed_cycle digest result completed_at c =
     (if result = CompletionConfirmed \<or> wc_max_attempts c \<le> wc_attempts_started c then finish_cycle completed_at c
      else c\<lparr>wc_status := CyclePending, wc_due_at_ms := sat_add completed_at
               (deterministic_jitter_ms digest (wc_key c) (sat_add (wc_attempts_started c) 1) (wc_jitter_seconds c)),
             wc_recorded_at_ms := completed_at\<rparr>)"

definition wake_complete :: "(string \<Rightarrow> nat list) \<Rightarrow> wake_permit \<Rightarrow> wake_completion \<Rightarrow> wake_state \<Rightarrow> bool \<times> wake_state" where
  "wake_complete digest permit completion s =
     (case position (\<lambda>c. wc_key c = pm_cycle_key permit \<and> wc_status c = CycleInFlight
              \<and> wc_attempts_started c = pm_attempt permit) (wk_cycles s) of
        None \<Rightarrow> (False, s)
      | Some i \<Rightarrow>
          let c = wk_cycles s ! i;
              completed_at = max (wn_completed_at_ms completion) (pm_reserved_at_ms permit);
              h = \<lparr>wh_task_id = wc_task_id c, wh_account_id = wc_account_id c, wh_window_kind = wc_window_kind c,
                   wh_fingerprint = wc_fingerprint c, wh_model_id = map_option wr_model_id (wc_request c),
                   wh_trigger = wc_trigger c, wh_attempt = pm_attempt permit,
                   wh_outcome = completion_outcome (wn_outcome completion),
                   wh_started_at_ms = pm_reserved_at_ms permit, wh_completed_at_ms = completed_at,
                   wh_latency_ms = wn_latency_ms completion, wh_input_tokens = wn_input_tokens completion,
                   wh_output_tokens = wn_output_tokens completion,
                   wh_error_code = map_option safe_error_code (wn_error_code completion)\<rparr>
          in (True, push_history h
                (s\<lparr>wk_cycles := (wk_cycles s)[i := completed_cycle digest (wn_outcome completion) completed_at c]\<rparr>)))"

end
