(* ===== verification/WakeRules.thy ===== *)
theory WakeRules
  imports Wake ModelOrder
begin

text \<open>
  What the wake coordinator keeps: \<open>wake_sound\<close> holds in every state a run reaches (bounds, at most one
  cycle per account, window and transition, attempts within the limit), permits are handed out for pending due
  cycles only, no operation returns an attempt, and a stored state loads again.
\<close>

named_theorems wake_rules \<open>what the operations keep\<close>

section \<open>Invariant\<close>

type_synonym cycle_identity = "string \<times> quota_window_kind \<times> string"

definition cycle_identity_of :: "wake_cycle \<Rightarrow> cycle_identity" where
  "cycle_identity_of c = (wc_account_id c, wc_window_kind c, wc_fingerprint c)"

definition permit_identity :: "wake_permit \<Rightarrow> cycle_identity" where
  "permit_identity p = (pm_account_id p, pm_window_kind p, pm_fingerprint p)"

definition cycle_ok :: "wake_cycle \<Rightarrow> bool" where
  "cycle_ok c =
     (valid_cycle c \<and> wc_window_kind c = Primary
      \<and> (wc_status c = CyclePending \<longrightarrow> wc_attempts_started c < wc_max_attempts c)
      \<and> (wc_status c = CycleInFlight \<longrightarrow> 0 < wc_attempts_started c)
      \<and> (wc_status c = CycleCompleted \<longrightarrow> wc_request c = None \<and> wc_verification c = None))"

definition history_ok :: "wake_history \<Rightarrow> bool" where
  "history_ok h = (map_option safe_error_code (wh_error_code h) = wh_error_code h)"

definition wake_sound :: "wake_state \<Rightarrow> bool" where
  "wake_sound s =
     (0 < wk_max_cycles s \<and> 0 < wk_max_history s \<and> length (wk_cycles s) \<le> wk_max_cycles s
      \<and> length (wk_history s) \<le> wk_max_history s \<and> list_all cycle_ok (wk_cycles s)
      \<and> list_all history_ok (wk_history s) \<and> distinct (map cycle_identity_of (wk_cycles s)))"

lemma valid_redacted: "valid_error_code ''redacted''"
  by (simp add: valid_error_code_def is_ascii_alphanumeric_def is_ascii_digit_def)

lemma trim_redacted: "trim ''redacted'' = ''redacted''"
  by (simp add: trim_def ws1_def ws2_def ws3_def)


lemma safe_error_code_idem [simp]: "safe_error_code (safe_error_code code) = safe_error_code code"
  by (simp add: safe_error_code_def valid_redacted trim_redacted)

lemma history_ok_simps [simp]:
  "history_ok (natural_use_history c t)"
  "history_ok (canceled_history c t code)"
  by (simp_all add: history_ok_def natural_use_history_def canceled_history_def cycle_history_def)

lemma push_history_fields [simp]:
  "wk_cycles (push_history h s) = wk_cycles s"
  "wk_max_cycles (push_history h s) = wk_max_cycles s"
  "wk_max_history (push_history h s) = wk_max_history s"
  by (simp_all add: push_history_def)

lemma fold_push_fields [simp]:
  "wk_cycles (fold push_history hs s) = wk_cycles s"
  "wk_max_cycles (fold push_history hs s) = wk_max_cycles s"
  "wk_max_history (fold push_history hs s) = wk_max_history s"
  by (induction hs arbitrary: s) simp_all

lemma push_history_sound:
  assumes "wake_sound s" "history_ok h"
  shows "wake_sound (push_history h s)"
proof -
  have "set (tl (wk_history s)) \<subseteq> set (wk_history s)" by (cases "wk_history s") auto
  with assms show ?thesis
    by (auto simp: wake_sound_def push_history_def list_all_iff)
qed

lemma fold_push_sound:
  assumes "wake_sound s" "list_all history_ok hs"
  shows "wake_sound (fold push_history hs s)"
  using assms by (induction hs arbitrary: s) (simp_all add: push_history_sound)

lemma with_cycles_sound:
  assumes "wake_sound s" "list_all cycle_ok cs" "length cs \<le> wk_max_cycles s"
    "distinct (map cycle_identity_of cs)"
  shows "wake_sound (s\<lparr>wk_cycles := cs\<rparr>)"
  using assms by (simp add: wake_sound_def)

lemma map_cycles_sound:
  assumes "wake_sound s" "\<And>c. cycle_ok c \<Longrightarrow> cycle_ok (f c)" "\<And>c. cycle_identity_of (f c) = cycle_identity_of c"
  shows "wake_sound (s\<lparr>wk_cycles := map f (wk_cycles s)\<rparr>)"
proof (rule with_cycles_sound [OF assms(1)])
  have "map cycle_identity_of (map f (wk_cycles s)) = map cycle_identity_of (wk_cycles s)"
    using assms(3) by simp
  then show "distinct (map cycle_identity_of (map f (wk_cycles s)))"
    using assms(1) by (simp only: wake_sound_def)
qed (use assms in \<open>auto simp: wake_sound_def list_all_iff\<close>)

lemma finish_cycle_simps [simp]:
  "cycle_identity_of (finish_cycle t c) = cycle_identity_of c"
  "wc_status (finish_cycle t c) = CycleCompleted"
  "wc_attempts_started (finish_cycle t c) = wc_attempts_started c"
  "wc_max_attempts (finish_cycle t c) = wc_max_attempts c"
  "wc_key (finish_cycle t c) = wc_key c"
  "wc_account_id (finish_cycle t c) = wc_account_id c"
  "wc_window_kind (finish_cycle t c) = wc_window_kind c"
  "wc_fingerprint (finish_cycle t c) = wc_fingerprint c"
  by (simp_all add: finish_cycle_def cycle_identity_of_def)

lemma finish_cycle_ok: "cycle_ok c \<Longrightarrow> cycle_ok (finish_cycle t c)"
  by (simp add: cycle_ok_def finish_cycle_def valid_cycle_def)

lemma map_filter_identities:
  assumes "distinct (map cycle_identity_of cs)" "\<And>c d. f c = Some d \<Longrightarrow> cycle_identity_of d = cycle_identity_of c"
  shows "distinct (map cycle_identity_of (List.map_filter f cs))"
proof -
  have sub: "set (map cycle_identity_of (List.map_filter f cs)) \<subseteq> set (map cycle_identity_of cs)" for cs
    using assms(2) by (induction cs) (auto simp: List.map_filter_simps split: option.splits)
  show ?thesis using assms(1)
  proof (induction cs)
    case (Cons c cs)
    then show ?case using assms(2) [of c] sub [of cs]
      by (auto simp: List.map_filter_simps split: option.splits)
  qed (simp add: List.map_filter_simps)
qed

lemma length_map_filter: "length (List.map_filter f xs) \<le> length xs"
  by (induction xs) (auto simp: List.map_filter_simps split: option.splits)

lemma set_map_filter: "set (List.map_filter f xs) = {y. \<exists>x \<in> set xs. f x = Some y}"
  by (induction xs) (auto simp: List.map_filter_simps split: option.splits)

text \<open>What becomes of a cycle when matching ones are cancelled.\<close>

definition cancelled :: "(wake_cycle \<Rightarrow> bool) \<Rightarrow> u64 \<Rightarrow> wake_cycle \<Rightarrow> wake_cycle option" where
  "cancelled matching t c =
     (if wc_status c = CycleCompleted \<or> \<not> matching c then Some c
      else if wc_attempts_started c \<noteq> 0 then Some (finish_cycle t c) else None)"

lemma cancel_matching_run:
  "snd (cancel_matching p t code s) =
     fold push_history (map (\<lambda>c. canceled_history c t code) (filter (\<lambda>c. wc_status c \<noteq> CycleCompleted \<and> p c) (wk_cycles s)))
       (s\<lparr>wk_cycles := List.map_filter (cancelled p t) (wk_cycles s)\<rparr>)"
proof -
  have "(\<lambda>c. if wc_status c = CycleCompleted \<or> \<not> p c then Some c
           else if wc_attempts_started c \<noteq> 0 then Some (finish_cycle t c) else None) = cancelled p t"
    by (simp add: cancelled_def fun_eq_iff)
  then show ?thesis by (simp add: cancel_matching_def Let_def)
qed

lemma cancel_matching_cycles:
  "wk_cycles (snd (cancel_matching p t code s)) = List.map_filter (cancelled p t) (wk_cycles s)"
  by (simp add: cancel_matching_run)

lemma cancelled_identity: "cancelled p t c = Some d \<Longrightarrow> cycle_identity_of d = cycle_identity_of c"
  by (auto simp: cancelled_def split: if_splits)

lemma cancelled_ok: "cancelled p t c = Some d \<Longrightarrow> cycle_ok c \<Longrightarrow> cycle_ok d"
  by (auto simp: cancelled_def finish_cycle_ok split: if_splits)

lemma cancel_matching_sound:
  assumes "wake_sound s"
  shows "wake_sound (snd (cancel_matching p t code s))"
proof -
  have "wake_sound (s\<lparr>wk_cycles := List.map_filter (cancelled p t) (wk_cycles s)\<rparr>)"
  proof (rule with_cycles_sound [OF assms])
    show "length (List.map_filter (cancelled p t) (wk_cycles s)) \<le> wk_max_cycles s"
      using assms length_map_filter [of "cancelled p t" "wk_cycles s"] by (simp add: wake_sound_def)
    show "distinct (map cycle_identity_of (List.map_filter (cancelled p t) (wk_cycles s)))"
      using assms by (intro map_filter_identities) (auto simp: wake_sound_def dest: cancelled_identity)
  qed (use assms in \<open>auto simp: wake_sound_def list_all_iff set_map_filter dest: cancelled_ok\<close>)
  then show ?thesis
    unfolding cancel_matching_run by (rule fold_push_sound) (simp add: list_all_iff)
qed

lemma mark_natural_use_sound:
  assumes "wake_sound s"
  shows "wake_sound (snd (mark_natural_use_for_account account_id t s))"
  by (simp add: mark_natural_use_for_account_def Let_def)
     (intro fold_push_sound map_cycles_sound assms, auto simp: list_all_iff finish_cycle_ok)

lemma clear_confirmation_sound:
  assumes "wake_sound s"
  shows "wake_sound (clear_task_confirmation_requirement task_id s)"
  unfolding clear_task_confirmation_requirement_def
  by (rule map_cycles_sound [OF assms]) (auto simp: cycle_ok_def valid_cycle_def cycle_identity_of_def)

lemma reserve_cycle_cases:
  assumes "reserve_cycle c s = Some s'"
  obtains cs where "s' = s\<lparr>wk_cycles := cs @ [c]\<rparr>" "set cs \<subseteq> set (wk_cycles s)"
    "length cs < wk_max_cycles s \<or> wk_max_cycles s < length (wk_cycles s) \<or> wk_max_cycles s = 0"
    "\<And>d. d \<in> set (wk_cycles s) \<Longrightarrow> wc_status d \<noteq> CycleCompleted \<Longrightarrow> d \<in> set cs"
    "distinct (map cycle_identity_of (wk_cycles s)) \<Longrightarrow> distinct (map cycle_identity_of cs)"
proof (cases "wk_max_cycles s \<le> length (wk_cycles s)")
  case True
  with assms obtain i where i: "position (\<lambda>d. wc_status d = CycleCompleted) (wk_cycles s) = Some i"
    and s': "s' = s\<lparr>wk_cycles := (take i (wk_cycles s) @ drop (Suc i) (wk_cycles s)) @ [c]\<rparr>"
    by (auto simp: reserve_cycle_def split: option.splits)
  from i have i: "i < length (wk_cycles s)" "wc_status (wk_cycles s ! i) = CycleCompleted"
    by (simp_all add: position_Some)
  note split = id_take_nth_drop [OF i(1)]
  show thesis
  proof (rule that [OF s'])
    show "set (take i (wk_cycles s) @ drop (Suc i) (wk_cycles s)) \<subseteq> set (wk_cycles s)"
      by (auto dest: in_set_takeD in_set_dropD)
    show "d \<in> set (take i (wk_cycles s) @ drop (Suc i) (wk_cycles s))"
      if "d \<in> set (wk_cycles s)" "wc_status d \<noteq> CycleCompleted" for d
    proof -
      from that(1) have "d \<in> set (take i (wk_cycles s) @ wk_cycles s ! i # drop (Suc i) (wk_cycles s))"
        by (simp only: split [symmetric])
      with that(2) i(2) show ?thesis by auto
    qed
    show "distinct (map cycle_identity_of (take i (wk_cycles s) @ drop (Suc i) (wk_cycles s)))"
      if "distinct (map cycle_identity_of (wk_cycles s))"
    proof -
      from that have "distinct (map cycle_identity_of (take i (wk_cycles s) @ wk_cycles s ! i # drop (Suc i) (wk_cycles s)))"
        by (simp only: split [symmetric])
      then show ?thesis by simp
    qed
  qed (use True i in auto)
next
  case False
  with assms have "s' = s\<lparr>wk_cycles := wk_cycles s @ [c]\<rparr>" by (simp add: reserve_cycle_def)
  with False show thesis by (intro that) auto
qed

lemma reserve_cycle_sound:
  assumes "reserve_cycle c s = Some s'" "wake_sound s" "cycle_ok c"
    "cycle_identity_of c \<notin> cycle_identity_of ` set (wk_cycles s)"
  shows "wake_sound s'"
proof -
  obtain cs where cs: "s' = s\<lparr>wk_cycles := cs @ [c]\<rparr>" "set cs \<subseteq> set (wk_cycles s)"
    "length cs < wk_max_cycles s \<or> wk_max_cycles s < length (wk_cycles s) \<or> wk_max_cycles s = 0"
    "distinct (map cycle_identity_of (wk_cycles s)) \<Longrightarrow> distinct (map cycle_identity_of cs)"
    using reserve_cycle_cases [OF assms(1)] by metis
  show ?thesis unfolding cs(1)
    by (rule with_cycles_sound [OF assms(2)]) (use cs assms in \<open>auto simp: wake_sound_def list_all_iff\<close>)
qed

lemma update_identities:
  assumes "i < length cs" "cycle_identity_of d = cycle_identity_of (cs ! i)"
  shows "map cycle_identity_of (cs[i := d]) = map cycle_identity_of cs"
  using assms by (simp add: map_update list_update_same_conv)

lemma update_cycle_sound:
  assumes "wake_sound s" "i < length (wk_cycles s)" "cycle_ok d"
    "cycle_identity_of d = cycle_identity_of (wk_cycles s ! i)"
  shows "wake_sound (s\<lparr>wk_cycles := (wk_cycles s)[i := d]\<rparr>)"
proof (rule with_cycles_sound [OF assms(1)])
  show "distinct (map cycle_identity_of ((wk_cycles s)[i := d]))"
    using assms by (simp only: update_identities wake_sound_def)
qed (use assms in \<open>auto simp: wake_sound_def list_all_iff dest: in_set_conv_nth [THEN iffD1] subsetD [OF set_update_subset_insert]\<close>)


section \<open>Operations keep the invariant\<close>

lemma requeue_cycle_simps [simp]:
  "cycle_identity_of (requeue_cycle digest c) = cycle_identity_of c"
  "wc_status (requeue_cycle digest c) \<noteq> CycleInFlight"
  "wc_attempts_started (requeue_cycle digest c) = wc_attempts_started c"
  "wc_max_attempts (requeue_cycle digest c) = wc_max_attempts c"
  by (auto simp: requeue_cycle_def cycle_identity_of_def)

lemma requeue_cycle_ok: "cycle_ok c \<Longrightarrow> cycle_ok (requeue_cycle digest c)"
  by (auto simp: requeue_cycle_def cycle_ok_def valid_cycle_def finish_cycle_def)

lemma claim_cycle_Some:
  assumes "claim_cycle now mode c = Some (d, p)"
  obtains request verification where
    "wc_status c = CyclePending" "wc_due_at_ms c \<le> now" "wc_attempts_started c < wc_max_attempts c"
    "mode_matches mode c" "wc_request c = Some request" "wc_verification c = Some verification"
    "d = c\<lparr>wc_status := CycleInFlight, wc_attempts_started := sat_add (wc_attempts_started c) 1, wc_recorded_at_ms := now\<rparr>"
    "p = permit_of now request verification d"
  using assms by (auto simp: claim_cycle_def Let_def not_le not_less split: if_splits option.splits)

lemma claim_cycle_ok: "claim_cycle now mode c = Some (d, p) \<Longrightarrow> cycle_ok c \<Longrightarrow> cycle_ok d"
  by (erule claim_cycle_Some)
     (auto simp: cycle_ok_def valid_cycle_def unat_sat_add_1 sat_add_1_less word_less_nat_alt)

lemma claim_cycle_identity:
  "claim_cycle now mode c = Some (d, p) \<Longrightarrow> cycle_identity_of d = cycle_identity_of c"
  by (erule claim_cycle_Some) (simp add: cycle_identity_of_def)

lemma claim_cycles_keep:
  "map cycle_identity_of (snd (claim_cycles now mode k cs)) = map cycle_identity_of cs"
  "list_all cycle_ok cs \<Longrightarrow> list_all cycle_ok (snd (claim_cycles now mode k cs))"
  by (induction cs arbitrary: k)
     (auto simp: claim_cycle_identity claim_cycle_ok case_prod_beta Let_def split: option.splits)

lemma claim_due_sound:
  assumes "wake_sound s"
  shows "wake_sound (snd (claim_due_matching now k mode s))"
proof -
  let ?cs = "snd (claim_cycles now mode k (wk_cycles s))"
  have ids: "map cycle_identity_of ?cs = map cycle_identity_of (wk_cycles s)"
    by (rule claim_cycles_keep)
  then have len: "length ?cs = length (wk_cycles s)" by (rule map_eq_imp_length_eq)
  have "wake_sound (s\<lparr>wk_cycles := ?cs\<rparr>)"
    by (rule with_cycles_sound) (use assms ids len in \<open>auto simp: wake_sound_def claim_cycles_keep\<close>)
  with assms show ?thesis by (simp add: claim_due_matching_def case_prod_beta)
qed

lemma completed_cycle_identity [simp]:
  "cycle_identity_of (completed_cycle digest result t c) = cycle_identity_of c"
  by (simp add: completed_cycle_def) (simp add: cycle_identity_of_def)

lemma completed_cycle_ok: "cycle_ok c \<Longrightarrow> wc_status c = CycleInFlight \<Longrightarrow> cycle_ok (completed_cycle digest result t c)"
  by (auto simp: completed_cycle_def finish_cycle_ok) (auto simp: cycle_ok_def valid_cycle_def not_le)

lemma wake_complete_cases:
  assumes "wake_complete digest permit completion s = (True, s')"
  obtains i h where "i < length (wk_cycles s)"
    "wc_key (wk_cycles s ! i) = pm_cycle_key permit" "wc_status (wk_cycles s ! i) = CycleInFlight"
    "wc_attempts_started (wk_cycles s ! i) = pm_attempt permit"
    "s' = push_history h (s\<lparr>wk_cycles := (wk_cycles s)[i := completed_cycle digest (wn_outcome completion)
       (max (wn_completed_at_ms completion) (pm_reserved_at_ms permit)) (wk_cycles s ! i)]\<rparr>)"
    "history_ok h" "wh_attempt h = pm_attempt permit"
    "wh_outcome h = completion_outcome (wn_outcome completion)"
    "wh_account_id h = wc_account_id (wk_cycles s ! i)"
  using assms
  by (auto simp: wake_complete_def Let_def position_Some history_ok_def option.map_comp o_def split: option.splits)

lemma wake_complete_False: "\<not> fst (wake_complete digest permit completion s) \<Longrightarrow> snd (wake_complete digest permit completion s) = s"
  by (auto simp: wake_complete_def Let_def split: option.splits)

lemma wake_complete_sound:
  assumes "wake_sound s"
  shows "wake_sound (snd (wake_complete digest permit completion s))"
proof (cases "fst (wake_complete digest permit completion s)")
  case True
  then have "wake_complete digest permit completion s = (True, snd (wake_complete digest permit completion s))"
    by (cases "wake_complete digest permit completion s") simp
  then show ?thesis
  proof (rule wake_complete_cases)
    fix i h
    assume i: "i < length (wk_cycles s)" and st: "wc_status (wk_cycles s ! i) = CycleInFlight"
      and s': "snd (wake_complete digest permit completion s) = push_history h (s\<lparr>wk_cycles := (wk_cycles s)[i :=
        completed_cycle digest (wn_outcome completion) (max (wn_completed_at_ms completion) (pm_reserved_at_ms permit)) (wk_cycles s ! i)]\<rparr>)"
      and h: "history_ok h"
    from assms i have "cycle_ok (wk_cycles s ! i)" by (simp add: wake_sound_def list_all_length)
    then show ?thesis unfolding s'
      by (intro push_history_sound update_cycle_sound assms i h completed_cycle_ok st) simp_all
  qed
qed (use assms wake_complete_False in simp)

lemma same_cycle_identity: "same_cycle c a k f \<longleftrightarrow> cycle_identity_of c = (a, k, f)"
  by (simp add: same_cycle_def cycle_identity_of_def)

lemma validate_wake_task_None:
  "validate_wake_task t = None \<Longrightarrow> is_safe_id (wt_id t) \<and> 1 \<le> wt_max_attempts_per_cycle t
     \<and> wt_max_attempts_per_cycle t \<le> MAX_WAKE_ATTEMPTS \<and> wt_jitter_seconds t \<le> MAX_WAKE_JITTER_SECONDS"
  by (auto simp: validate_wake_task_def not_less split: if_splits)

lemma new_cycle_ok:
  assumes "validate_wake_task task = None" "wake_applies task account transition policy"
    "trim (wa_id account) \<noteq> []" "key \<noteq> []"
  shows "cycle_ok (new_cycle digest task account transition policy key model_id now_ms)"
  using assms validate_wake_task_None [OF assms(1)]
  by (auto simp: cycle_ok_def valid_cycle_def new_cycle_def wake_applies_def word_less_nat_alt word_le_nat_alt)

lemma natural_use_sound:
  assumes "wake_sound s" "validate_wake_task task = None" "wake_applies task account transition policy"
    "trim (wa_id account) \<noteq> []" "key \<noteq> []"
  shows "wake_sound (snd (complete_by_natural_use task account transition key now_ms s))"
proof (cases "position (\<lambda>c. same_cycle c (wa_id account) (qt_window_kind transition) (qt_fingerprint transition)) (wk_cycles s)")
  case None
  let ?c = "\<lparr>wc_key = key, wc_status = CycleCompleted, wc_task_id = wt_id task, wc_account_id = wa_id account,
     wc_window_kind = qt_window_kind transition, wc_fingerprint = qt_fingerprint transition,
     wc_trigger = wt_trigger task, wc_requires_confirmation = False, wc_request = None,
     wc_verification = None, wc_jitter_seconds = wt_jitter_seconds task,
     wc_max_attempts = wt_max_attempts_per_cycle task, wc_attempts_started = 0,
     wc_due_at_ms = now_ms, wc_recorded_at_ms = now_ms\<rparr>"
  have ok: "cycle_ok ?c"
    using assms validate_wake_task_None [OF assms(2)]
    by (auto simp: cycle_ok_def valid_cycle_def wake_applies_def)
  have new: "cycle_identity_of ?c \<notin> cycle_identity_of ` set (wk_cycles s)"
  proof
    assume "cycle_identity_of ?c \<in> cycle_identity_of ` set (wk_cycles s)"
    with None show False
      by (auto simp: position_None same_cycle_identity) (metis cycle_identity_of_def wake_cycle.select_convs(4-6))
  qed
  show ?thesis
  proof (cases "reserve_cycle ?c s")
    case (Some s')
    have "wake_sound (push_history (natural_use_history ?c now_ms) s')"
      by (rule push_history_sound [OF reserve_cycle_sound [OF Some assms(1) ok new]]) simp
    with None Some show ?thesis by (simp add: complete_by_natural_use_def)
  qed (use None assms(1) in \<open>simp add: complete_by_natural_use_def\<close>)
next
  case (Some i)
  then have i: "i < length (wk_cycles s)" by (simp add: position_Some)
  with assms(1) have "cycle_ok (wk_cycles s ! i)" by (simp add: wake_sound_def list_all_length)
  then have "wake_sound (push_history (natural_use_history (wk_cycles s ! i) now_ms)
      (s\<lparr>wk_cycles := (wk_cycles s)[i := finish_cycle now_ms (wk_cycles s ! i)]\<rparr>))"
    by (intro push_history_sound update_cycle_sound assms i finish_cycle_ok) simp_all
  with Some assms(1) show ?thesis by (simp add: complete_by_natural_use_def)
qed

lemma wake_evaluate_sound:
  assumes "wake_sound s" "trim (wa_id account) \<noteq> []" "\<And>x. sha_hex x \<noteq> []"
  shows "wake_sound (snd (wake_evaluate digest sha_hex task account transition last_use policy now_ms s))"
proof -
  have ?thesis if c: "validate_wake_task task = None" "wake_applies task account transition policy"
  proof -
    have key: "wake_cycle_key sha_hex account transition \<noteq> []" by (simp add: wake_cycle_key_def assms(3))
    show ?thesis
      using assms(1) natural_use_sound [OF assms(1) c assms(2) key, of now_ms]
      by (auto simp: wake_evaluate_def c Let_def list_ex_iff same_cycle_identity split: option.splits
          intro!: reserve_cycle_sound [OF _ assms(1) new_cycle_ok [OF c assms(2) key]])
        (metis cycle_identity_of_def new_cycle_def wake_cycle.select_convs(4-6))+
  qed
  then show ?thesis using assms(1)
    by (cases "validate_wake_task task = None"; cases "wake_applies task account transition policy")
       (auto simp: wake_evaluate_def)
qed


section \<open>Runs\<close>

lemma reload_state:
  assumes "wake_sound s"
  shows "coordinator_from_state digest s = Some (s\<lparr>wk_cycles := map (requeue_cycle digest) (wk_cycles s)\<rparr>)"
proof -
  have hist: "map (\<lambda>h. h\<lparr>wh_error_code := map_option safe_error_code (wh_error_code h)\<rparr>) (wk_history s) = wk_history s"
    using assms by (intro map_idI) (auto simp: wake_sound_def list_all_iff history_ok_def)
  let ?cs = "map (requeue_cycle digest) (wk_cycles s)"
  have prim: "wc_window_kind c = Primary" if "c \<in> set ?cs" for c
    using that assms requeue_cycle_ok [of _ digest] by (auto simp: wake_sound_def list_all_iff cycle_ok_def)
  have none: "filter (\<lambda>c. wc_status c \<noteq> CycleCompleted \<and> wc_window_kind c \<noteq> Primary) ?cs = []"
    unfolding filter_empty_conv using prim by blast
  have "List.map_filter (cancelled (\<lambda>c. wc_window_kind c \<noteq> Primary) 0) cs = cs"
    if "\<And>c. c \<in> set cs \<Longrightarrow> wc_window_kind c = Primary" for cs
    using that by (induction cs) (auto simp: List.map_filter_simps cancelled_def)
  from this [of ?cs] prim have keep: "List.map_filter (cancelled (\<lambda>c. wc_window_kind c \<noteq> Primary) 0) ?cs = ?cs" by blast
  have valid: "list_all valid_cycle (wk_cycles s)"
    using assms by (auto simp: wake_sound_def list_all_iff cycle_ok_def)
  show ?thesis
    using assms valid
    by (simp add: coordinator_from_state_def cancel_matching_run hist none keep wake_sound_def del: set_map list.set_map)
qed

lemma reload_sound:
  assumes "wake_sound s"
  shows "wake_sound (s\<lparr>wk_cycles := map (requeue_cycle digest) (wk_cycles s)\<rparr>)"
  by (rule map_cycles_sound [OF assms]) (simp_all add: requeue_cycle_ok)

datatype wake_event =
    EvaluateTransition wake_task wake_account quota_transition "u64 option" wake_adapter_policy u64
  | ClaimDue u64 nat wake_claim_mode
  | CompletePermit wake_permit wake_completion
  | TaskRemoved string u64
  | AccountRemoved string u64
  | NaturalUse string u64
  | RetireConfirmation string
  | Reload

fun wake_step :: "(string \<Rightarrow> nat list) \<Rightarrow> (string \<Rightarrow> string) \<Rightarrow> wake_event \<Rightarrow> wake_state \<Rightarrow> wake_permit list \<times> wake_state" where
  "wake_step digest sha_hex (EvaluateTransition task account transition last_use policy now_ms) s =
     ([], snd (wake_evaluate digest sha_hex task account transition last_use policy now_ms s))"
| "wake_step digest sha_hex (ClaimDue now_ms k mode) s = claim_due_matching now_ms k mode s"
| "wake_step digest sha_hex (CompletePermit permit completion) s = ([], snd (wake_complete digest permit completion s))"
| "wake_step digest sha_hex (TaskRemoved task_id t) s = ([], snd (remove_pending_for_task task_id t s))"
| "wake_step digest sha_hex (AccountRemoved account_id t) s = ([], snd (remove_pending_for_account account_id t s))"
| "wake_step digest sha_hex (NaturalUse account_id t) s = ([], snd (mark_natural_use_for_account account_id t s))"
| "wake_step digest sha_hex (RetireConfirmation task_id) s = ([], clear_task_confirmation_requirement task_id s)"
| "wake_step digest sha_hex Reload s =
     ([], case coordinator_from_state digest s of None \<Rightarrow> s | Some s' \<Rightarrow> s')"

fun wake_run :: "(string \<Rightarrow> nat list) \<Rightarrow> (string \<Rightarrow> string) \<Rightarrow> wake_event list \<Rightarrow> wake_state \<Rightarrow> wake_permit list \<times> wake_state" where
  "wake_run digest sha_hex [] s = ([], s)"
| "wake_run digest sha_hex (e # es) s =
     (let (ps, s') = wake_step digest sha_hex e s; (qs, t) = wake_run digest sha_hex es s' in (ps @ qs, t))"

text \<open>Account identifiers are checked where accounts are stored, not here.\<close>

fun wake_event_ok :: "wake_event \<Rightarrow> bool" where
  "wake_event_ok (EvaluateTransition task account transition last_use policy now_ms) = (trim (wa_id account) \<noteq> [])"
| "wake_event_ok _ = True"

lemma wake_step_sound:
  assumes "wake_sound s" "wake_event_ok e" "\<And>x. sha_hex x \<noteq> []"
  shows "wake_sound (snd (wake_step digest sha_hex e s))"
  using assms
  by (cases e) (simp_all add: wake_evaluate_sound claim_due_sound wake_complete_sound remove_pending_for_task_def
      remove_pending_for_account_def cancel_matching_sound mark_natural_use_sound clear_confirmation_sound
      reload_state reload_sound)

lemma wake_run_Cons:
  "fst (wake_run digest sha_hex (e # es) s) = fst (wake_step digest sha_hex e s)
     @ fst (wake_run digest sha_hex es (snd (wake_step digest sha_hex e s)))"
  "snd (wake_run digest sha_hex (e # es) s) = snd (wake_run digest sha_hex es (snd (wake_step digest sha_hex e s)))"
  by (simp_all add: case_prod_beta Let_def)

lemma wake_run_sound:
  assumes "wake_sound s" "list_all wake_event_ok es" "\<And>x. sha_hex x \<noteq> []"
  shows "wake_sound (snd (wake_run digest sha_hex es s))"
  using assms(1,2)
  by (induction es arbitrary: s) (simp_all add: wake_run_Cons wake_step_sound assms(3) del: wake_run.simps(2))

lemma new_wake_state_sound: "new_wake_state n m = Some s \<Longrightarrow> wake_sound s"
  by (auto simp: new_wake_state_def wake_sound_def split: if_splits)

section \<open>Attempts\<close>

text \<open>The attempts on record for a transition.  At most one cycle has the identity.\<close>

definition attempts_of :: "cycle_identity \<Rightarrow> wake_cycle list \<Rightarrow> nat" where
  "attempts_of x cs = sum_list (map (\<lambda>c. if cycle_identity_of c = x then unat (wc_attempts_started c) else 0) cs)"

lemma attempts_of_simps [simp]:
  "attempts_of x [] = 0"
  "attempts_of x (c # cs) = (if cycle_identity_of c = x then unat (wc_attempts_started c) else 0) + attempts_of x cs"
  "attempts_of x (cs @ ds) = attempts_of x cs + attempts_of x ds"
  by (simp_all add: attempts_of_def)

lemma attempts_of_absent: "x \<notin> cycle_identity_of ` set cs \<Longrightarrow> attempts_of x cs = 0"
  by (induction cs) auto

lemma attempts_of_le:
  assumes "list_all cycle_ok cs" "distinct (map cycle_identity_of cs)"
  shows "attempts_of x cs \<le> 2"
  using assms
proof (induction cs)
  case (Cons c cs)
  then have "unat (wc_attempts_started c) \<le> 2"
    by (auto simp: cycle_ok_def valid_cycle_def MAX_WAKE_ATTEMPTS_def word_le_nat_alt)
  with Cons show ?case by (cases "cycle_identity_of c = x") (auto simp: attempts_of_absent)
qed simp

lemma attempts_of_map:
  assumes "\<And>c. c \<in> set cs \<Longrightarrow> cycle_identity_of (f c) = cycle_identity_of c \<and> wc_attempts_started (f c) = wc_attempts_started c"
  shows "attempts_of x (map f cs) = attempts_of x cs"
  using assms by (induction cs) auto

lemma attempts_of_update:
  assumes "i < length cs" "cycle_identity_of d = cycle_identity_of (cs ! i)"
    "wc_attempts_started d = wc_attempts_started (cs ! i)"
  shows "attempts_of x (cs[i := d]) = attempts_of x cs"
  using assms
proof (induction cs arbitrary: i)
  case (Cons c cs)
  then show ?case by (cases i) auto
qed simp

lemma attempts_of_cancelled: "attempts_of x (List.map_filter (cancelled p t) cs) = attempts_of x cs"
  by (induction cs) (auto simp: List.map_filter_simps cancelled_def)

lemma attempts_of_claim:
  "length (filter (\<lambda>p. permit_identity p = x) (fst (claim_cycles now mode k cs))) + attempts_of x cs =
     attempts_of x (snd (claim_cycles now mode k cs))"
proof (induction cs arbitrary: k)
  case (Cons c cs)
  show ?case
  proof (cases "claim_cycle now mode c")
    case (Some a)
    obtain d p where a: "a = (d, p)" by (cases a)
    from Some [unfolded a] have d: "permit_identity p = cycle_identity_of c" "cycle_identity_of d = cycle_identity_of c"
      "unat (wc_attempts_started d) = Suc (unat (wc_attempts_started c))"
      by (auto elim!: claim_cycle_Some simp: permit_identity_def permit_of_def cycle_identity_of_def unat_sat_add_1)
    show ?thesis
      using Cons [of "k - 1"] d by (simp add: Some a case_prod_beta Let_def)
  qed (use Cons [of k] in \<open>simp add: case_prod_beta Let_def\<close>)
qed simp

lemma completed_cycle_attempts [simp]: "wc_attempts_started (completed_cycle digest r t c) = wc_attempts_started c"
  by (simp add: completed_cycle_def)

lemma attempts_of_complete:
  "attempts_of x (wk_cycles (snd (wake_complete digest permit completion s))) = attempts_of x (wk_cycles s)"
proof (cases "fst (wake_complete digest permit completion s)")
  case True
  then have "wake_complete digest permit completion s = (True, snd (wake_complete digest permit completion s))"
    by (cases "wake_complete digest permit completion s") simp
  then show ?thesis by (rule wake_complete_cases) (simp add: attempts_of_update)
qed (simp add: wake_complete_False)


text \<open>No finished record of the transition is evicted to make room.\<close>

definition record_kept :: "cycle_identity \<Rightarrow> wake_state \<Rightarrow> wake_state \<Rightarrow> bool" where
  "record_kept x s s' =
     (list_ex (\<lambda>c. cycle_identity_of c = x \<and> wc_status c = CycleCompleted) (wk_cycles s)
        \<longrightarrow> list_ex (\<lambda>c. cycle_identity_of c = x) (wk_cycles s'))"

fun records_kept :: "(string \<Rightarrow> nat list) \<Rightarrow> (string \<Rightarrow> string) \<Rightarrow> cycle_identity \<Rightarrow> wake_event list \<Rightarrow> wake_state \<Rightarrow> bool" where
  "records_kept digest sha_hex x [] s = True"
| "records_kept digest sha_hex x (e # es) s =
     (record_kept x s (snd (wake_step digest sha_hex e s))
      \<and> records_kept digest sha_hex x es (snd (wake_step digest sha_hex e s)))"

lemma attempts_of_reserve:
  assumes "reserve_cycle c s = Some s'" "wc_attempts_started c = 0" "wake_sound s"
    "cycle_identity_of c \<notin> cycle_identity_of ` set (wk_cycles s)" "record_kept x s s'"
  shows "attempts_of x (wk_cycles s') = attempts_of x (wk_cycles s)"
proof (cases "wk_max_cycles s \<le> length (wk_cycles s)")
  case True
  with assms(1) obtain i where i: "position (\<lambda>d. wc_status d = CycleCompleted) (wk_cycles s) = Some i"
    and s': "wk_cycles s' = take i (wk_cycles s) @ drop (Suc i) (wk_cycles s) @ [c]"
    by (auto simp: reserve_cycle_def split: option.splits)
  let ?e = "wk_cycles s ! i"
  from i have i: "i < length (wk_cycles s)" "wc_status ?e = CycleCompleted" by (simp_all add: position_Some)
  note split = id_take_nth_drop [OF i(1)]
  have dist: "distinct (map cycle_identity_of (take i (wk_cycles s) @ ?e # drop (Suc i) (wk_cycles s)))"
    using assms(3) by (simp only: split [symmetric] wake_sound_def)
  have e: "?e \<in> set (wk_cycles s)" using i(1) by simp
  have "cycle_identity_of ?e \<noteq> x"
  proof
    assume x: "cycle_identity_of ?e = x"
    with assms(5) e i(2) obtain d where "d \<in> set (wk_cycles s')" "cycle_identity_of d = x"
      unfolding record_kept_def list_ex_iff by blast
    then have "x \<in> cycle_identity_of ` set (wk_cycles s')" by blast
    with dist x s' have "x = cycle_identity_of c" by auto
    with x e assms(4) show False by (metis image_eqI)
  qed
  then have "attempts_of x (take i (wk_cycles s) @ ?e # drop (Suc i) (wk_cycles s)) = attempts_of x (wk_cycles s')"
    using assms(2) by (simp add: s')
  then show ?thesis by (simp only: split [symmetric])
next
  case False
  with assms(1,2) show ?thesis by (auto simp: reserve_cycle_def)
qed

lemma attempts_of_natural_use:
  assumes "wake_sound s" "record_kept x s (snd (complete_by_natural_use task account transition key now_ms s))"
  shows "attempts_of x (wk_cycles (snd (complete_by_natural_use task account transition key now_ms s)))
           = attempts_of x (wk_cycles s)"
proof (cases "position (\<lambda>c. same_cycle c (wa_id account) (qt_window_kind transition) (qt_fingerprint transition)) (wk_cycles s)")
  case None
  let ?c = "\<lparr>wc_key = key, wc_status = CycleCompleted, wc_task_id = wt_id task, wc_account_id = wa_id account,
     wc_window_kind = qt_window_kind transition, wc_fingerprint = qt_fingerprint transition,
     wc_trigger = wt_trigger task, wc_requires_confirmation = False, wc_request = None,
     wc_verification = None, wc_jitter_seconds = wt_jitter_seconds task,
     wc_max_attempts = wt_max_attempts_per_cycle task, wc_attempts_started = 0,
     wc_due_at_ms = now_ms, wc_recorded_at_ms = now_ms\<rparr>"
  have new: "cycle_identity_of ?c \<notin> cycle_identity_of ` set (wk_cycles s)"
    using None by (auto simp: position_None same_cycle_identity) (metis cycle_identity_of_def wake_cycle.select_convs(4-6))
  show ?thesis
  proof (cases "reserve_cycle ?c s")
    case (Some s')
    then have run: "snd (complete_by_natural_use task account transition key now_ms s) = push_history (natural_use_history ?c now_ms) s'"
      by (simp add: complete_by_natural_use_def None)
    show ?thesis
      using attempts_of_reserve [OF Some _ assms(1) new, of x] assms(2) by (simp add: run record_kept_def)
  qed (simp add: complete_by_natural_use_def None)
next
  case (Some i)
  then have "i < length (wk_cycles s)" by (simp add: position_Some)
  with Some show ?thesis by (simp add: complete_by_natural_use_def attempts_of_update)
qed

lemma attempts_of_evaluate:
  assumes "wake_sound s"
    "record_kept x s (snd (wake_evaluate digest sha_hex task account transition last_use policy now_ms s))"
  shows "attempts_of x (wk_cycles (snd (wake_evaluate digest sha_hex task account transition last_use policy now_ms s)))
           = attempts_of x (wk_cycles s)"
  using assms(2)
  by (auto simp: wake_evaluate_def Let_def attempts_of_natural_use [OF assms(1)] list_ex_iff same_cycle_identity
      split: option.splits if_splits)
    (rule attempts_of_reserve [OF _ _ assms(1)], assumption, simp add: new_cycle_def,
      force simp: new_cycle_def cycle_identity_of_def, assumption)+

lemma attempts_of_step:
  assumes "wake_sound s" "record_kept x s (snd (wake_step digest sha_hex e s))"
  shows "length (filter (\<lambda>p. permit_identity p = x) (fst (wake_step digest sha_hex e s))) + attempts_of x (wk_cycles s)
           = attempts_of x (wk_cycles (snd (wake_step digest sha_hex e s)))"
proof (cases e)
  case (EvaluateTransition task account transition last_use policy now_ms)
  with assms show ?thesis by (simp add: attempts_of_evaluate)
next
  case (ClaimDue now_ms k mode)
  then show ?thesis
    using attempts_of_claim [of x now_ms mode k "wk_cycles s"] by (simp add: claim_due_matching_def case_prod_beta)
next
  case (CompletePermit permit completion)
  then show ?thesis by (simp add: attempts_of_complete)
next
  case (NaturalUse account_id t)
  then show ?thesis
    by (simp add: mark_natural_use_for_account_def Let_def attempts_of_map)
next
  case Reload
  then show ?thesis using assms(1) by (simp add: reload_state attempts_of_map)
qed (simp_all add: remove_pending_for_task_def remove_pending_for_account_def cancel_matching_cycles attempts_of_cancelled
    clear_task_confirmation_requirement_def attempts_of_map cycle_identity_of_def)

lemma attempts_of_run:
  assumes "wake_sound s" "list_all wake_event_ok es" "\<And>x. sha_hex x \<noteq> []" "records_kept digest sha_hex x es s"
  shows "length (filter (\<lambda>p. permit_identity p = x) (fst (wake_run digest sha_hex es s))) + attempts_of x (wk_cycles s)
           = attempts_of x (wk_cycles (snd (wake_run digest sha_hex es s)))"
  using assms(1,2,4)
proof (induction es arbitrary: s)
  case (Cons e es)
  let ?t = "snd (wake_step digest sha_hex e s)"
  have "wake_sound ?t" using Cons.prems by (simp add: wake_step_sound assms(3))
  with Cons have "length (filter (\<lambda>p. permit_identity p = x) (fst (wake_run digest sha_hex es ?t))) + attempts_of x (wk_cycles ?t)
      = attempts_of x (wk_cycles (snd (wake_run digest sha_hex es ?t)))" by simp
  moreover have "length (filter (\<lambda>p. permit_identity p = x) (fst (wake_step digest sha_hex e s))) + attempts_of x (wk_cycles s)
      = attempts_of x (wk_cycles ?t)"
    using Cons.prems by (intro attempts_of_step) simp_all
  ultimately show ?case
    unfolding wake_run_Cons filter_append length_append by linarith
qed simp


section \<open>Guarantees\<close>

lemma claim_cycles_length:
  "length (fst (claim_cycles now mode k cs)) = min k (length (filter (\<lambda>c. claim_cycle now mode c \<noteq> None) cs))"
  by (induction cs arbitrary: k) (auto simp: case_prod_beta Let_def min_def split: option.splits)

lemma claim_cycles_permits:
  "p \<in> set (fst (claim_cycles now mode k cs)) \<Longrightarrow>
     \<exists>c \<in> set cs. \<exists>d \<in> set (snd (claim_cycles now mode k cs)). claim_cycle now mode c = Some (d, p)"
  by (induction cs arbitrary: k) (auto simp: case_prod_beta Let_def split: option.splits if_splits, blast+)

lemma claim_cycles_identities:
  "distinct (map cycle_identity_of cs) \<Longrightarrow> distinct (map permit_identity (fst (claim_cycles now mode k cs)))
     \<and> set (map permit_identity (fst (claim_cycles now mode k cs))) \<subseteq> set (map cycle_identity_of cs)"
proof (induction cs arbitrary: k)
  case (Cons c cs)
  have p: "permit_identity p = cycle_identity_of c" if "claim_cycle now mode c = Some (d, p)" for d p
    using that by (auto elim!: claim_cycle_Some simp: permit_identity_def permit_of_def cycle_identity_of_def)
  show ?case using Cons.prems Cons.IH [of k] Cons.IH [of "k - 1"] p
    by (auto simp: case_prod_beta Let_def split: option.splits)
qed simp

lemma ok_claimable:
  assumes "cycle_ok c"
  shows "claim_cycle now mode c \<noteq> None \<longleftrightarrow>
    wc_status c = CyclePending \<and> wc_due_at_ms c \<le> now \<and> mode_matches mode c"
  using assms by (auto simp: claim_cycle_def Let_def cycle_ok_def valid_cycle_def not_le split: option.splits)

text \<open>C25: The coordinator's state stays within its bounds, with at most one cycle for a transition of an account's window.\<close>

theorem wake_state_sound:
  assumes "new_wake_state max_cycles max_history = Some s" "\<And>x. sha_hex x \<noteq> []" "list_all wake_event_ok es"
  shows "wake_sound (snd (wake_run digest sha_hex es s))"
  by (rule wake_run_sound [OF new_wake_state_sound [OF assms(1)] assms(3,2)])

text \<open>C13: A transition is answered by at most two wake requests, whatever fails, is retried or reloaded.\<close>

theorem woken_at_most_twice:
  assumes "new_wake_state max_cycles max_history = Some s" "\<And>x. sha_hex x \<noteq> []" "list_all wake_event_ok es"
    "records_kept digest sha_hex x es s"
  shows "length (filter (\<lambda>p. permit_identity p = x) (fst (wake_run digest sha_hex es s))) \<le> 2"
proof -
  have sound: "wake_sound s" by (rule new_wake_state_sound [OF assms(1)])
  have "wake_sound (snd (wake_run digest sha_hex es s))" by (rule wake_run_sound [OF sound assms(3,2)])
  then have "attempts_of x (wk_cycles (snd (wake_run digest sha_hex es s))) \<le> 2"
    by (simp add: attempts_of_le wake_sound_def)
  with attempts_of_run [OF sound assms(3,2,4)] show ?thesis by linarith
qed

lemma permits_due:
  assumes "wake_sound s"
  shows "length (fst (claim_due_matching now k mode s)) =
      min k (length (filter (\<lambda>c. wc_status c = CyclePending \<and> wc_due_at_ms c \<le> now \<and> mode_matches mode c) (wk_cycles s)))
    \<and> distinct (map permit_identity (fst (claim_due_matching now k mode s)))
    \<and> (\<forall>p \<in> set (fst (claim_due_matching now k mode s)).
         \<exists>c \<in> set (wk_cycles s). permit_identity p = cycle_identity_of c \<and> pm_cycle_key p = wc_key c
           \<and> wc_status c = CyclePending \<and> wc_due_at_ms c \<le> now \<and> mode_matches mode c
           \<and> Some (pm_request p) = wc_request c \<and> Some (pm_verification p) = wc_verification c
           \<and> unat (pm_attempt p) = Suc (unat (wc_attempts_started c)) \<and> pm_attempt p \<le> wc_max_attempts c
           \<and> is_permit_active p (snd (claim_due_matching now k mode s)))"
proof (intro conjI ballI)
  let ?ps = "fst (claim_cycles now mode k (wk_cycles s))"
  have ps: "fst (claim_due_matching now k mode s) = ?ps"
    using claim_cycles_length [of now mode k "wk_cycles s"] by (auto simp: claim_due_matching_def case_prod_beta)
  have "filter (\<lambda>c. claim_cycle now mode c \<noteq> None) (wk_cycles s)
      = filter (\<lambda>c. wc_status c = CyclePending \<and> wc_due_at_ms c \<le> now \<and> mode_matches mode c) (wk_cycles s)"
    using assms ok_claimable by (intro filter_cong) (auto simp: wake_sound_def list_all_iff)
  then show "length (fst (claim_due_matching now k mode s)) = min k (length (filter (\<lambda>c. wc_status c = CyclePending
      \<and> wc_due_at_ms c \<le> now \<and> mode_matches mode c) (wk_cycles s)))"
    by (simp only: ps claim_cycles_length)
  show "distinct (map permit_identity (fst (claim_due_matching now k mode s)))"
    using claim_cycles_identities assms by (simp add: ps wake_sound_def)
  fix p assume "p \<in> set (fst (claim_due_matching now k mode s))"
  then have p: "p \<in> set ?ps" by (simp only: ps)
  then have k: "k \<noteq> 0" using claim_cycles_length [of now mode k "wk_cycles s"] by (cases k) auto
  then obtain c d where c: "c \<in> set (wk_cycles s)" and d: "d \<in> set (snd (claim_cycles now mode k (wk_cycles s)))"
    and cd: "claim_cycle now mode c = Some (d, p)" using claim_cycles_permits [OF p] by blast
  have act: "is_permit_active p (snd (claim_due_matching now k mode s))"
    using d cd k by (auto elim!: claim_cycle_Some simp: is_permit_active_def list_ex_iff claim_due_matching_def
        case_prod_beta permit_of_def intro!: bexI [of _ d])
  show "\<exists>c \<in> set (wk_cycles s). permit_identity p = cycle_identity_of c \<and> pm_cycle_key p = wc_key c
           \<and> wc_status c = CyclePending \<and> wc_due_at_ms c \<le> now \<and> mode_matches mode c
           \<and> Some (pm_request p) = wc_request c \<and> Some (pm_verification p) = wc_verification c
           \<and> unat (pm_attempt p) = Suc (unat (wc_attempts_started c)) \<and> pm_attempt p \<le> wc_max_attempts c
           \<and> is_permit_active p (snd (claim_due_matching now k mode s))"
    using c cd act by (intro bexI [of _ c]) (auto elim!: claim_cycle_Some
        simp: permit_identity_def permit_of_def cycle_identity_of_def unat_sat_add_1 sat_add_1_less)
qed

text \<open>Permits are for pending cycles whose time has come, one attempt each.\<close>

theorem permits_for_due_cycles:
  assumes "wake_sound s"
  shows "length (fst (claim_due_matching now k mode s)) =
      min k (length (filter (\<lambda>c. wc_status c = CyclePending \<and> wc_due_at_ms c \<le> now \<and> mode_matches mode c) (wk_cycles s)))
    \<and> distinct (map permit_identity (fst (claim_due_matching now k mode s)))
    \<and> (\<forall>p \<in> set (fst (claim_due_matching now k mode s)).
         \<exists>c \<in> set (wk_cycles s). permit_identity p = cycle_identity_of c \<and> pm_cycle_key p = wc_key c
           \<and> wc_status c = CyclePending \<and> wc_due_at_ms c \<le> now \<and> mode_matches mode c
           \<and> Some (pm_request p) = wc_request c \<and> Some (pm_verification p) = wc_verification c
           \<and> unat (pm_attempt p) = Suc (unat (wc_attempts_started c)) \<and> pm_attempt p \<le> wc_max_attempts c
           \<and> is_permit_active p (snd (claim_due_matching now k mode s)))"
  using assms by (rule permits_due)

text \<open>The time reported for the next automatic wake is exact: earlier nothing can be claimed, from then on something can.\<close>

theorem next_due_exact:
  assumes "wake_sound s"
  shows "fst (claim_due_automatic now k s) \<noteq> [] \<longleftrightarrow>
    k \<noteq> 0 \<and> (\<exists>due. next_automatic_due s = Some due \<and> due \<le> now)"
proof -
  let ?wait = "filter (\<lambda>c. wc_status c = CyclePending \<and> \<not> wc_requires_confirmation c
       \<and> wc_attempts_started c < wc_max_attempts c) (wk_cycles s)"
  have ok: "cycle_ok c" if "c \<in> set (wk_cycles s)" for c
    using that assms by (auto simp: wake_sound_def list_all_iff)
  have "fst (claim_due_automatic now k s) \<noteq> [] \<longleftrightarrow> k \<noteq> 0 \<and> length (fst (claim_cycles now ClaimAutomatic k (wk_cycles s))) \<noteq> 0"
    by (simp add: claim_due_automatic_def claim_due_matching_def case_prod_beta)
  also have "\<dots> \<longleftrightarrow> k \<noteq> 0 \<and> (\<exists>c \<in> set (wk_cycles s). claim_cycle now ClaimAutomatic c \<noteq> None)"
    by (auto simp: claim_cycles_length filter_empty_conv)
  also have "(\<exists>c \<in> set (wk_cycles s). claim_cycle now ClaimAutomatic c \<noteq> None) \<longleftrightarrow> (\<exists>c \<in> set ?wait. wc_due_at_ms c \<le> now)"
  proof -
    have "claim_cycle now ClaimAutomatic c \<noteq> None \<longleftrightarrow> wc_status c = CyclePending \<and> \<not> wc_requires_confirmation c
       \<and> wc_attempts_started c < wc_max_attempts c \<and> wc_due_at_ms c \<le> now" if "c \<in> set (wk_cycles s)" for c
      using ok_claimable [OF ok [OF that], of now ClaimAutomatic] ok [OF that] by (auto simp: cycle_ok_def)
    then show ?thesis by auto
  qed
  also have "\<dots> \<longleftrightarrow> (\<exists>due. next_automatic_due s = Some due \<and> due \<le> now)"
  proof (cases "next_automatic_due s")
    case None
    then have "?wait = []" by (simp add: next_automatic_due_def)
    with None show ?thesis by (simp only: list.set) simp
  next
    case (Some due)
    then have "due \<in> wc_due_at_ms ` set ?wait" "\<forall>c \<in> set ?wait. due \<le> wc_due_at_ms c"
      using list_min_Some [of "map wc_due_at_ms ?wait" due] unfolding next_automatic_due_def by auto
    with Some show ?thesis by (metis (no_types, lifting) image_iff option.inject order_trans)
  qed
  finally show ?thesis .
qed


lemma jitter_bound: "unat (deterministic_jitter_ms digest key attempt j) \<le> 1000 * unat j"
proof -
  have j: "unat (ucast j + 1 :: u64) = Suc (unat j)"
    using unat_lt_bound [of j] by (simp add: unat_word_ariths unat_ucast_up)
  have "unat ((w :: u64) mod (ucast j + 1)) \<le> unat j" for w
    by (simp add: unat_mod_distrib j)
  then show ?thesis
    by (auto simp: deterministic_jitter_ms_def Let_def unat_sat_mul intro!: min.coboundedI1)
qed

text \<open>When a wake is scheduled, and for when.\<close>

theorem scheduled_when_due:
  assumes "wake_evaluate digest sha_hex task account transition last_use policy now s = (Scheduled sch, s')"
  shows "validate_wake_task task = None \<and> adapter_policy_is_valid policy \<and> wake_applies task account transition policy
    \<and> is_none_or last_use (\<lambda>used. used < qt_at_ms transition)
    \<and> (\<forall>c \<in> set (wk_cycles s). cycle_identity_of c \<noteq> (wa_id account, Primary, qt_fingerprint transition))
    \<and> select_model (wt_model_policy task) (wp_models policy) = Some (wr_model_id (ws_request sch))
    \<and> now \<le> ws_due_at_ms sch \<and> unat (ws_due_at_ms sch) \<le> unat now + 1000 * unat (wt_jitter_seconds task)
    \<and> ws_attempts_started sch = 0
    \<and> (\<exists>c \<in> set (wk_cycles s'). cycle_schedule c = Some sch
         \<and> cycle_identity_of c = (wa_id account, Primary, qt_fingerprint transition))"
proof -
  from assms have v: "validate_wake_task task = None" "adapter_policy_is_valid policy"
    "wake_applies task account transition policy"
    by (auto simp: wake_evaluate_def split: option.splits if_splits)
  then have prim: "qt_window_kind transition = Primary" by (simp add: wake_applies_def)
  let ?key = "wake_cycle_key sha_hex account transition"
  have natural: "\<not> is_some_and last_use (\<lambda>used. qt_at_ms transition \<le> used)"
    using assms by (auto simp: wake_evaluate_def v complete_by_natural_use_def Let_def split: option.splits if_splits)
  with assms v obtain model_id where new: "\<forall>c \<in> set (wk_cycles s). cycle_identity_of c \<noteq> (wa_id account, Primary, qt_fingerprint transition)"
    and model: "select_model (wt_model_policy task) (wp_models policy) = Some model_id"
    and res: "reserve_cycle (new_cycle digest task account transition policy ?key model_id now) s = Some s'"
    and sch: "sch = the (cycle_schedule (new_cycle digest task account transition policy ?key model_id now))"
    by (auto simp: wake_evaluate_def Let_def list_ex_iff same_cycle_identity prim split: option.splits if_splits)
  let ?c = "new_cycle digest task account transition policy ?key model_id now"
  have c: "cycle_schedule ?c = Some sch" "cycle_identity_of ?c = (wa_id account, Primary, qt_fingerprint transition)"
    by (simp_all add: sch cycle_schedule_def new_cycle_def cycle_identity_of_def prim)
  have "?c \<in> set (wk_cycles s')" using res by (rule reserve_cycle_cases) simp
  moreover have "wr_model_id (ws_request sch) = model_id" "ws_attempts_started sch = 0"
    "ws_due_at_ms sch = sat_add now (deterministic_jitter_ms digest ?key 1 (wt_jitter_seconds task))"
    by (simp_all add: sch cycle_schedule_def new_cycle_def)
  ultimately show ?thesis
    using v natural new model c jitter_bound [of digest ?key 1 "wt_jitter_seconds task"]
    by (auto simp: sat_add_ge unat_sat_add is_none_or_def is_some_and_def not_le intro!: min.coboundedI1 split: option.splits)
qed

text \<open>A permit is completed at most once.\<close>

theorem permit_completed_once:
  assumes "wake_sound s" "distinct (map wc_key (wk_cycles s))" "wake_complete digest permit completion s = (True, s')"
  shows "\<not> is_permit_active permit s' \<and> wake_complete digest permit again s' = (False, s')"
proof -
  from assms(3) show ?thesis
  proof (rule wake_complete_cases)
    fix i h
    assume i: "i < length (wk_cycles s)" and key: "wc_key (wk_cycles s ! i) = pm_cycle_key permit"
      and s': "s' = push_history h (s\<lparr>wk_cycles := (wk_cycles s)[i := completed_cycle digest (wn_outcome completion)
         (max (wn_completed_at_ms completion) (pm_reserved_at_ms permit)) (wk_cycles s ! i)]\<rparr>)"
    have status: "wc_status (completed_cycle digest r t c) \<noteq> CycleInFlight" for r t c
      by (simp add: completed_cycle_def)
    have idle: "wc_status c \<noteq> CycleInFlight" if "c \<in> set (wk_cycles s')" "wc_key c = pm_cycle_key permit" for c
    proof -
      from that(1) obtain j where j: "j < length (wk_cycles s)" "c = (wk_cycles s)[i := completed_cycle digest (wn_outcome completion)
         (max (wn_completed_at_ms completion) (pm_reserved_at_ms permit)) (wk_cycles s ! i)] ! j"
        by (auto simp: s' in_set_conv_nth)
      show ?thesis
      proof (cases "j = i")
        case False
        with j that(2) key have "map wc_key (wk_cycles s) ! j = map wc_key (wk_cycles s) ! i" by (simp add: i)
        with False assms(2) i j(1) show ?thesis by (simp add: nth_eq_iff_index_eq del: nth_map)
      qed (use j i in \<open>simp add: status\<close>)
    qed
    then have "position (\<lambda>c. wc_key c = pm_cycle_key permit \<and> wc_status c = CycleInFlight
              \<and> wc_attempts_started c = pm_attempt permit) (wk_cycles s') = None"
      by (auto simp: position_None)
    with idle show ?thesis by (auto simp: is_permit_active_def list_ex_iff wake_complete_def)
  qed
qed

text \<open>A stored state loads: every transition keeps its attempts, and what was in flight waits again or is finished.\<close>

theorem stored_state_loads:
  assumes "wake_sound s"
  shows "\<exists>s'. coordinator_from_state digest s = Some s' \<and> wake_sound s'
    \<and> map (\<lambda>c. (cycle_identity_of c, wc_attempts_started c, wc_max_attempts c)) (wk_cycles s')
        = map (\<lambda>c. (cycle_identity_of c, wc_attempts_started c, wc_max_attempts c)) (wk_cycles s)
    \<and> wk_history s' = wk_history s \<and> (\<forall>c \<in> set (wk_cycles s'). wc_status c \<noteq> CycleInFlight)
    \<and> coordinator_from_state digest s' = Some s'"
proof -
  let ?s' = "s\<lparr>wk_cycles := map (requeue_cycle digest) (wk_cycles s)\<rparr>"
  have sound: "wake_sound ?s'" by (rule reload_sound [OF assms])
  have "map (requeue_cycle digest) (map (requeue_cycle digest) (wk_cycles s)) = map (requeue_cycle digest) (wk_cycles s)"
    by (rule map_idI) (auto simp: requeue_cycle_def [of _ "requeue_cycle _ _"])
  with reload_state [OF sound, of digest] have "coordinator_from_state digest ?s' = Some ?s'" by simp
  with sound reload_state [OF assms, of digest] show ?thesis by auto
qed


section \<open>A concrete run\<close>

definition demo_digest :: "string \<Rightarrow> nat list" where "demo_digest text = [5]"
definition demo_hex :: "string \<Rightarrow> string" where "demo_hex text = ''key''"

definition demo_account :: wake_account where
  "demo_account = \<lparr>wa_id = ''a'', wa_auth_mode = AuthModeOAuth, wa_auth_state = AuthActive, wa_health = AccountHealthy,
     wa_quota = default_snapshot, wa_tags = {}, wa_enabled = True, wa_in_pool = True, wa_draining = False\<rparr>"

definition demo_task :: wake_task where
  "demo_task = \<lparr>wt_id = ''t'', wt_name = ''wake'', wt_enabled = True, wt_account_selector = AllEligible,
     wt_window_kinds = {Primary}, wt_model_policy = LightestSupported, wt_trigger = WakeQuotaFull,
     wt_fallback_schedule = None, wt_execution_policy = WakeAutomatic, wt_jitter_seconds = 60,
     wt_max_attempts_per_cycle = 2, wt_created_at_ms = 0, wt_updated_at_ms = 0\<rparr>"

definition demo_policy :: wake_adapter_policy where
  "demo_policy = \<lparr>wp_windows_requiring_activity = {Primary},
     wp_models = [\<lparr>wm_id = ''m'', wm_lightness_rank = 1, wm_wake_capable = True\<rparr>],
     wp_verification_delay_ms = 1000, wp_output_token_cap = 16\<rparr>"

definition demo_transition :: quota_transition where
  "demo_transition = \<lparr>qt_window_kind = Primary, qt_fingerprint = ''f'', qt_at_ms = 900\<rparr>"

definition demo_cycle :: wake_cycle where
  "demo_cycle = new_cycle demo_digest demo_task demo_account demo_transition demo_policy ''key'' ''m'' 1000"

definition demo_state :: wake_state where
  "demo_state = \<lparr>wk_max_cycles = 2, wk_max_history = 2, wk_cycles = [demo_cycle], wk_history = []\<rparr>"

definition demo_flight :: wake_state where
  "demo_flight = snd (claim_due_matching 9000 1 ClaimAny demo_state)"

lemma demo_validated: "validate_wake_task demo_task = None" "adapter_policy_is_valid demo_policy"
    "wake_applies demo_task demo_account demo_transition demo_policy"
  by (simp_all add: validate_wake_task_def demo_task_def is_safe_id_def is_ascii_token_def trim_def
      ws1_def ws2_def ws3_def is_ascii_alphanumeric_def is_ascii_digit_def MAX_WAKE_ATTEMPTS_def
      MAX_WAKE_JITTER_SECONDS_def adapter_policy_is_valid_def demo_policy_def MAX_VERIFICATION_DELAY_MS_def
      MAX_OUTPUT_TOKEN_CAP_def wake_applies_def demo_account_def demo_transition_def is_wake_eligible_def)

lemma demo_account_id: "trim (wa_id demo_account) \<noteq> []"
  by (simp add: demo_account_def trim_def ws1_def)

lemma demo_evaluated:
  "wake_evaluate demo_digest demo_hex demo_task demo_account demo_transition None demo_policy 1000
     \<lparr>wk_max_cycles = 2, wk_max_history = 2, wk_cycles = [], wk_history = []\<rparr>
   = (Scheduled (the (cycle_schedule demo_cycle)), demo_state)"
proof -
  have "select_model (wt_model_policy demo_task) (wp_models demo_policy) = Some ''m''"
    by (simp add: select_model_def demo_task_def demo_policy_def trim_def ws1_def)
  then show ?thesis
    by (simp add: wake_evaluate_def demo_validated demo_state_def demo_cycle_def reserve_cycle_def
        wake_cycle_key_def demo_hex_def Let_def)
qed

lemma demo_sound: "wake_sound demo_state"
  using wake_evaluate_sound [of "\<lparr>wk_max_cycles = 2, wk_max_history = 2, wk_cycles = [], wk_history = []\<rparr>"
      demo_account demo_hex demo_digest demo_task demo_transition None demo_policy 1000]
  by (simp add: demo_evaluated demo_account_id demo_hex_def) (simp add: wake_sound_def)

lemma demo_due: "wc_due_at_ms demo_cycle = 6000"
  by (simp add: demo_cycle_def new_cycle_def deterministic_jitter_ms_def demo_task_def demo_digest_def
      from_le_bytes_def sat_mul_def sat_add_def Let_def)

lemma demo_cycle_fields [simp]:
  "wc_status demo_cycle = CyclePending" "wc_attempts_started demo_cycle = 0" "wc_max_attempts demo_cycle = 2"
  "cycle_identity_of demo_cycle = (''a'', Primary, ''f'')" "wc_key demo_cycle = ''key''"
  "\<not> wc_requires_confirmation demo_cycle"
  by (simp_all add: demo_cycle_def new_cycle_def demo_task_def demo_account_def demo_transition_def cycle_identity_of_def)

abbreviation demo_events :: "wake_event list" where
  "demo_events \<equiv> [EvaluateTransition demo_task demo_account demo_transition None demo_policy 1000,
     ClaimDue 9000 1 ClaimAny, Reload, ClaimDue 100000 1 ClaimAny]"

lemma demo_started: "new_wake_state 2 2 = Some \<lparr>wk_max_cycles = 2, wk_max_history = 2, wk_cycles = [], wk_history = []\<rparr>"
  by (simp add: new_wake_state_def)

theorem wake_state_sound_witness: "wake_sound (snd (wake_run demo_digest demo_hex demo_events
    \<lparr>wk_max_cycles = 2, wk_max_history = 2, wk_cycles = [], wk_history = []\<rparr>))"
  by (rule wake_state_sound [OF demo_started]) (simp_all add: demo_hex_def demo_account_id)

lemma demo_kept: "records_kept demo_digest demo_hex (''a'', Primary, ''f'') demo_events
    \<lparr>wk_max_cycles = 2, wk_max_history = 2, wk_cycles = [], wk_history = []\<rparr>"
proof -
  let ?x = "(''a'', Primary, ''f'')"
  let ?s2 = "snd (claim_due_matching 9000 1 ClaimAny demo_state)"
  let ?s3 = "?s2\<lparr>wk_cycles := map (requeue_cycle demo_digest) (wk_cycles ?s2)\<rparr>"
  have s2: "wake_sound ?s2" by (rule claim_due_sound [OF demo_sound])
  have ids: "map cycle_identity_of (wk_cycles ?s2) = [?x]"
    using claim_cycles_keep(1) [of 9000 ClaimAny 1 "wk_cycles demo_state"]
    by (simp add: claim_due_matching_def case_prod_beta demo_state_def)
  have ids3: "map cycle_identity_of (wk_cycles ?s3) = [?x]" using ids by (simp add: o_def)
  have ids4: "map cycle_identity_of (wk_cycles (snd (claim_due_matching 100000 1 ClaimAny ?s3))) = [?x]"
    using claim_cycles_keep(1) [of 100000 ClaimAny 1 "wk_cycles ?s3"] ids3
    by (simp add: claim_due_matching_def case_prod_beta)
  have kept: "record_kept ?x s t" if "map cycle_identity_of (wk_cycles t) = [?x]" for s t
    using that by (auto simp: record_kept_def)
  have "record_kept ?x \<lparr>wk_max_cycles = 2, wk_max_history = 2, wk_cycles = [], wk_history = []\<rparr> demo_state"
    by (simp add: record_kept_def)
  with kept [OF ids] kept [OF ids3] kept [OF ids4] show ?thesis
    by (simp add: demo_evaluated reload_state [OF s2] del: One_nat_def)
qed

theorem woken_at_most_twice_witness:
  "length (filter (\<lambda>p. permit_identity p = (''a'', Primary, ''f'')) (fst (wake_run demo_digest demo_hex demo_events
    \<lparr>wk_max_cycles = 2, wk_max_history = 2, wk_cycles = [], wk_history = []\<rparr>))) \<le> 2"
  by (rule woken_at_most_twice [OF demo_started _ _ demo_kept]) (simp_all add: demo_hex_def demo_account_id)

theorem permits_for_due_cycles_witness:
  "length (fst (claim_due_matching 9000 1 ClaimAny demo_state)) = 1"
  using permits_for_due_cycles [OF demo_sound, of 9000 1 ClaimAny] by (simp add: demo_state_def demo_due)

theorem next_due_exact_witness:
  "fst (claim_due_automatic 6000 1 demo_state) \<noteq> [] \<and> fst (claim_due_automatic 5999 1 demo_state) = []"
proof -
  have "next_automatic_due demo_state = Some 6000"
    by (simp add: next_automatic_due_def demo_state_def demo_due list_min_def)
  then show ?thesis
    using next_due_exact [OF demo_sound, of 6000 1] next_due_exact [OF demo_sound, of 5999 1] by simp
qed

theorem scheduled_when_due_witness:
  "wr_model_id (ws_request (the (cycle_schedule demo_cycle))) = ''m'' \<and> ws_due_at_ms (the (cycle_schedule demo_cycle)) \<le> 61000"
  using scheduled_when_due [OF demo_evaluated]
  by (simp add: demo_task_def demo_policy_def select_model_def trim_def ws1_def word_le_nat_alt)

lemma active_permit_completes: "is_permit_active permit s \<Longrightarrow> fst (wake_complete digest permit completion s)"
  by (auto simp: wake_complete_def is_permit_active_def list_ex_iff position_None Let_def split: option.splits)

theorem permit_completed_once_witness:
  "\<exists>permit completion s'. wake_complete demo_digest permit completion demo_flight = (True, s')
     \<and> wake_complete demo_digest permit completion s' = (False, s')"
proof -
  let ?n = "\<lparr>wn_outcome = CompletionFailed, wn_completed_at_ms = 9500, wn_latency_ms = None, wn_input_tokens = None,
    wn_output_tokens = None, wn_error_code = None\<rparr>"
  have "fst (claim_due_matching 9000 1 ClaimAny demo_state) \<noteq> []"
    using permits_due [OF demo_sound, of 9000 1 ClaimAny] by (auto simp: demo_state_def demo_due)
  then obtain p where "p \<in> set (fst (claim_due_matching 9000 1 ClaimAny demo_state))" by (meson list.set_sel(1))
  then have "is_permit_active p demo_flight"
    using permits_due [OF demo_sound, of 9000 1 ClaimAny] unfolding demo_flight_def by blast
  then have "fst (wake_complete demo_digest p ?n demo_flight)" by (rule active_permit_completes)
  then obtain s' where s': "wake_complete demo_digest p ?n demo_flight = (True, s')"
    by (cases "wake_complete demo_digest p ?n demo_flight") auto
  have sound: "wake_sound demo_flight" unfolding demo_flight_def by (rule claim_due_sound [OF demo_sound])
  have "length (wk_cycles demo_flight) = 1" unfolding demo_flight_def
    using arg_cong [OF claim_cycles_keep(1) [of 9000 ClaimAny 1 "wk_cycles demo_state"], of length]
    by (simp add: claim_due_matching_def case_prod_beta demo_state_def)
  then have "distinct (map wc_key (wk_cycles demo_flight))" by (auto simp: length_Suc_conv)
  from permit_completed_once [OF sound this s'] s' show ?thesis by blast
qed

theorem stored_state_loads_witness:
  "\<exists>s'. coordinator_from_state demo_digest demo_flight = Some s' \<and> wake_sound s'"
proof -
  have "wake_sound demo_flight" unfolding demo_flight_def by (rule claim_due_sound [OF demo_sound])
  from stored_state_loads [OF this] show ?thesis by blast
qed

end
