(* ===== verification/AdmissionQueue.thy ===== *)
theory AdmissionQueue
  imports PoolChoice SharedBudget
begin

text \<open>
  Admission of gateway requests (\<open>runtime/admission.rs\<close>, \<open>runtime/admission/waiting.rs\<close>,
  \<open>runtime/selection/capacity.rs\<close>): the bounded queue of waiting requests, whose turn it is, the section of
  \<open>admit\<close> that runs under the queue's lock, and the waits for recovery.

  The budget of a request is shared by everyone who holds it (an \<open>Arc\<close>), so budgets live in a store
  indexed by the request identifier.  The capacities of the request's strings are allocator facts and part of
  the request.  \<open>scope_of\<close> reads the scope behind the key of a request, \<open>fresh\<close> gives the request
  identifiers drawn by the selections of one section, \<open>now\<close> is the monotonic clock and \<open>now_ms\<close> the
  wall clock of the section.  The revision counters of the principal and of the image bridge, which a lease
  copies, are not modelled.
\<close>

section \<open>Requests and budgets\<close>

record admission_request =
  ar_request_id :: request_id
  ar_principal :: string
  ar_model :: string
  ar_protocols :: "wire_api list"
  ar_tried :: "string set"
  ar_response_key :: "string option"
  ar_prompt_key :: "string option"
  ar_operation :: rotation_operation
  ar_tried_capacities :: "u64 list"
  ar_model_capacity :: u64
  ar_response_capacity :: u64
  ar_prompt_capacity :: u64

type_synonym budget_store = "request_id \<Rightarrow> shared_budget"

definition selection_of :: "candidate_scope \<Rightarrow> u64 \<Rightarrow> admission_request \<Rightarrow> selection_request" where
  "selection_of scope now_ms r =
     \<lparr>sr_model = ar_model r, sr_allowed_protocols = ar_protocols r, sr_scope = scope, sr_tried = ar_tried r,
      sr_response_key = ar_response_key r, sr_prompt_key = ar_prompt_key r, sr_now_ms = now_ms\<rparr>"

definition request_bytes :: "shared_budget \<Rightarrow> admission_request \<Rightarrow> u64" where
  "request_bytes b r =
     (let metadata = fold (\<lambda>capacity total_bytes. sat_add total_bytes capacity) (ar_tried_capacities r) 4096;
          metadata = sat_add metadata (ar_model_capacity r);
          metadata = sat_add metadata (ar_response_capacity r);
          metadata = sat_add metadata (ar_prompt_capacity r)
      in sat_add (retained_bytes (waiting b)) metadata)"

section \<open>The queue\<close>

record admission_limits =
  al_requests :: nat
  al_principal_requests :: nat
  al_bytes :: u64
  al_principal_bytes :: u64

definition default_limits :: admission_limits where
  "default_limits = \<lparr>al_requests = 1024, al_principal_requests = 256, al_bytes = - 1, al_principal_bytes = - 1\<rparr>"

record waiter =
  wtr_request :: admission_request
  wtr_bytes :: u64
  wtr_selecting :: bool

record admission_queue =
  aq_limits :: admission_limits
  aq_waiters :: "waiter list"
  aq_principals :: "string list"
  aq_retained :: u64

definition empty_queue :: "admission_limits \<Rightarrow> admission_queue" where
  "empty_queue limits = \<lparr>aq_limits = limits, aq_waiters = [], aq_principals = [], aq_retained = 0\<rparr>"

abbreviation waiter_id :: "waiter \<Rightarrow> request_id" where
  "waiter_id w \<equiv> ar_request_id (wtr_request w)"

abbreviation waiter_principal :: "waiter \<Rightarrow> string" where
  "waiter_principal w \<equiv> ar_principal (wtr_request w)"

definition queue_insert ::
  "admission_request \<Rightarrow> request_wait_kind \<Rightarrow> instant \<Rightarrow> budget_store \<Rightarrow> admission_queue \<Rightarrow>
   bool \<times> budget_store \<times> admission_queue" where
  "queue_insert r kind now budgets q =
     (let rid = ar_request_id r;
          bytes = request_bytes (budgets rid) r;
          mine = filter (\<lambda>w. waiter_principal w = ar_principal r) (aq_waiters q);
          mine_bytes = fold (\<lambda>w total_bytes. sat_add total_bytes (wtr_bytes w)) mine 0
      in if list_ex (\<lambda>w. waiter_id w = rid) (aq_waiters q) then (False, budgets, q)
         else if al_requests (aq_limits q) \<le> length (aq_waiters q)
              \<or> al_principal_requests (aq_limits q) \<le> length mine
              \<or> sat_sub (al_bytes (aq_limits q)) (aq_retained q) < bytes
              \<or> sat_sub (al_principal_bytes (aq_limits q)) mine_bytes < bytes
         then (False, budgets, q)
         else (case begin_queue_wait (budgets rid) kind now of
             (False, b) \<Rightarrow> (False, budgets(rid := b), q)
           | (True, b) \<Rightarrow> (True, budgets(rid := b),
               q\<lparr>aq_principals := (if ar_principal r \<in> set (aq_principals q) then aq_principals q
                     else aq_principals q @ [ar_principal r]),
                 aq_retained := sat_add (aq_retained q) bytes,
                 aq_waiters := aq_waiters q @ [\<lparr>wtr_request = r, wtr_bytes = bytes,
                     wtr_selecting = (kind = WaitCapacity)\<rparr>]\<rparr>)))"

definition queue_served :: "string \<Rightarrow> admission_queue \<Rightarrow> admission_queue" where
  "queue_served key_id q =
     (case position (\<lambda>p. p = key_id) (aq_principals q) of
        None \<Rightarrow> q
      | Some i \<Rightarrow> q\<lparr>aq_principals := take i (aq_principals q) @ drop (Suc i) (aq_principals q) @ [aq_principals q ! i]\<rparr>)"

definition queue_remove ::
  "request_id \<Rightarrow> instant \<Rightarrow> budget_store \<Rightarrow> admission_queue \<Rightarrow> budget_store \<times> admission_queue" where
  "queue_remove rid now budgets q =
     (case position (\<lambda>w. waiter_id w = rid) (aq_waiters q) of
        None \<Rightarrow> (budgets, q)
      | Some i \<Rightarrow>
          (let w = aq_waiters q ! i;
               others = take i (aq_waiters q) @ drop (Suc i) (aq_waiters q)
           in (budgets(rid := finish_queue_wait (budgets rid) now),
               q\<lparr>aq_waiters := others, aq_retained := aq_retained q - wtr_bytes w,
                 aq_principals := (if list_ex (\<lambda>v. waiter_principal v = waiter_principal w) others
                   then aq_principals q else filter (\<lambda>p. p \<noteq> waiter_principal w) (aq_principals q))\<rparr>)))"

section \<open>The gateway's part of the state\<close>

record gateway_admission =
  gw_queue :: admission_queue
  gw_budgets :: budget_store
  gw_pool :: pool_scheduler
  gw_hidden_models :: "string set"
  gw_recovery_enabled :: bool

datatype identifier_draw = DrawTurn request_id | DrawSaturated | DrawSelect | DrawBlocked

definition model_enabled :: "gateway_admission \<Rightarrow> string \<Rightarrow> bool" where
  "model_enabled g model = (model_id_key model \<notin> gw_hidden_models g)"

definition admission_ready ::
  "request_id \<Rightarrow> candidate_scope \<Rightarrow> u64 \<Rightarrow> admission_request \<Rightarrow> gateway_admission \<Rightarrow> bool \<times> gateway_admission" where
  "admission_ready drawn scope now_ms r g =
     (if \<not> model_enabled g (ar_model r) then (False, g)
      else (case admission_ready_for drawn (gw_pool g) (selection_of scope now_ms r) (ar_operation r) of
          (found, p) \<Rightarrow> (found, g\<lparr>gw_pool := p\<rparr>)))"

definition may_dispatch :: "instant \<Rightarrow> gateway_admission \<Rightarrow> admission_request \<Rightarrow> bool" where
  "may_dispatch now g r =
     (let b = gw_budgets g (ar_request_id r)
      in can_dispatch (sb_budget b) now
         \<and> is_none_or (queue_deadline b (gw_recovery_enabled g) now) (\<lambda>deadline. now < deadline))"

fun find_ready ::
  "(identifier_draw \<Rightarrow> request_id) \<Rightarrow> (admission_request \<Rightarrow> candidate_scope) \<Rightarrow> instant \<Rightarrow> u64 \<Rightarrow> waiter list \<Rightarrow>
   gateway_admission \<Rightarrow> request_id option \<times> gateway_admission" where
  "find_ready fresh scope_of now now_ms [] g = (None, g)"
| "find_ready fresh scope_of now now_ms (w # ws) g =
     (if may_dispatch now g (wtr_request w)
      then (case admission_ready (fresh (DrawTurn (waiter_id w))) (scope_of (wtr_request w)) now_ms (wtr_request w) g of
          (True, g1) \<Rightarrow> (Some (waiter_id w), g1)
        | (False, g1) \<Rightarrow> find_ready fresh scope_of now now_ms ws g1)
      else find_ready fresh scope_of now now_ms ws g)"

fun turn_among ::
  "(identifier_draw \<Rightarrow> request_id) \<Rightarrow> (admission_request \<Rightarrow> candidate_scope) \<Rightarrow> instant \<Rightarrow> u64 \<Rightarrow> string list \<Rightarrow>
   gateway_admission \<Rightarrow> request_id option \<times> gateway_admission" where
  "turn_among fresh scope_of now now_ms [] g = (None, g)"
| "turn_among fresh scope_of now now_ms (key_id # ps) g =
     (case find_ready fresh scope_of now now_ms
             (filter (\<lambda>w. wtr_selecting w \<and> waiter_principal w = key_id) (aq_waiters (gw_queue g))) g of
        (Some rid, g1) \<Rightarrow> (Some rid, g1)
      | (None, g1) \<Rightarrow> turn_among fresh scope_of now now_ms ps g1)"

definition queue_turn ::
  "(identifier_draw \<Rightarrow> request_id) \<Rightarrow> (admission_request \<Rightarrow> candidate_scope) \<Rightarrow> instant \<Rightarrow> u64 \<Rightarrow>
   gateway_admission \<Rightarrow> request_id option \<times> gateway_admission" where
  "queue_turn fresh scope_of now now_ms g =
     turn_among fresh scope_of now now_ms (aq_principals (gw_queue g)) g"

definition stop_request :: "request_id \<Rightarrow> admission_stop_reason \<Rightarrow> gateway_admission \<Rightarrow> gateway_admission" where
  "stop_request rid reason g =
     g\<lparr>gw_budgets := (gw_budgets g)(rid := stop_admission (gw_budgets g rid) reason)\<rparr>"

definition register_waiter ::
  "admission_request \<Rightarrow> request_wait_kind \<Rightarrow> instant \<Rightarrow> gateway_admission \<Rightarrow> bool \<times> gateway_admission" where
  "register_waiter r kind now g =
     (case queue_insert r kind now (gw_budgets g) (gw_queue g) of
        (inserted, budgets, q) \<Rightarrow>
          (let g1 = g\<lparr>gw_budgets := budgets, gw_queue := q\<rparr>
           in (inserted, if inserted then g1 else stop_request (ar_request_id r) QueueFull g1)))"

definition drop_guard :: "request_id \<Rightarrow> instant \<Rightarrow> gateway_admission \<Rightarrow> gateway_admission" where
  "drop_guard rid now g =
     (case queue_remove rid now (gw_budgets g) (gw_queue g) of
        (budgets, q) \<Rightarrow> g\<lparr>gw_budgets := budgets, gw_queue := q\<rparr>)"

definition admission_deadline ::
  "request_id \<Rightarrow> instant \<Rightarrow> gateway_admission \<Rightarrow> (unit + instant option) \<times> gateway_admission" where
  "admission_deadline rid now g =
     (let deadline = queue_deadline (gw_budgets g rid) (gw_recovery_enabled g) now
      in if is_some_and deadline (\<lambda>d. d \<le> now) then (Inl (), stop_request rid WaitExpired g)
         else (Inr deadline, g))"

section \<open>Reserving\<close>

record candidate_lease =
  cl_candidate_id :: string
  cl_permission_revision :: u64
  cl_member_key :: string
  cl_reservation_id :: reservation_id
  cl_model :: string
  cl_protocols :: "wire_api list"
  cl_response_owner :: "(string \<times> u64) option"
  cl_request_id :: request_id

text \<open>\<open>None\<close> is a panic of one of the two \<open>expect\<close>s.\<close>

definition issue_lease ::
  "admission_request \<Rightarrow> u64 \<Rightarrow> pool_selection \<Rightarrow> reservation_id \<Rightarrow> pool_scheduler \<Rightarrow>
   candidate_lease option \<times> pool_scheduler" where
  "issue_lease r now_ms s rid p =
     (case member_key_for p (psel_candidate_id s) of
        None \<Rightarrow> (None, p)
      | Some member \<Rightarrow>
          (let lease = \<lparr>cl_candidate_id = psel_candidate_id s,
                 cl_permission_revision = candidate_permission_revision p (psel_candidate_id s),
                 cl_member_key = member, cl_reservation_id = rid, cl_model = ar_model r,
                 cl_protocols = ar_protocols r, cl_response_owner = None, cl_request_id = ar_request_id r\<rparr>
           in case opt_filter (\<lambda>_. req_owner (psel_rotation_request s) \<noteq> None) (ar_response_key r) of
                None \<Rightarrow> (Some lease, p)
              | Some key \<Rightarrow>
                  (case response_affinity_binding p key now_ms of
                     (None, p1) \<Rightarrow> (None, p1)
                   | (Some (owner, revision), p1) \<Rightarrow> (Some (lease\<lparr>cl_response_owner := Some (key, revision)\<rparr>), p1))))"

definition admission_select ::
  "request_id \<Rightarrow> pool_scheduler \<Rightarrow> selection_request \<Rightarrow> rotation_operation \<Rightarrow> pool_selection option \<times> pool_scheduler" where
  "admission_select drawn p sr op =
     (case op of OpImage \<Rightarrow> select_image drawn p sr | OpCompaction \<Rightarrow> select_compaction drawn p sr
      | _ \<Rightarrow> pool_select drawn p sr)"

text \<open>The outer option is \<open>None\<close> for a panic; otherwise the reservation and whether capacity is what is missing.\<close>

definition try_reserve_admission ::
  "(identifier_draw \<Rightarrow> request_id) \<Rightarrow> candidate_scope \<Rightarrow> admission_request \<Rightarrow> instant \<Rightarrow> u64 \<Rightarrow> gateway_admission \<Rightarrow>
   ((pool_selection \<times> candidate_lease) option \<times> bool) option \<times> gateway_admission" where
  "try_reserve_admission fresh scope r now now_ms g =
     (if \<not> can_dispatch (sb_budget (gw_budgets g (ar_request_id r))) now \<or> \<not> model_enabled g (ar_model r)
      then (Some (None, False), g)
      else
        (let op = ar_operation r; sr = selection_of scope now_ms r;
             without = (\<lambda>p. case capacity_blocked_for (fresh DrawBlocked) p sr op of
               (blocked, p') \<Rightarrow> (Some (None, blocked), g\<lparr>gw_pool := p'\<rparr>))
         in case admission_select (fresh DrawSelect) (gw_pool g) sr op of
              (None, p1) \<Rightarrow> without p1
            | (Some s, p1) \<Rightarrow>
                (case reserve_request_with_operation (fresh DrawSelect) p1 (psel_candidate_id s) (ar_model r) now_ms
                        (op = OpImage) op (Some (ar_request_id r)) (Some (psel_rotation_request s)) of
                   (None, p2) \<Rightarrow> without p2
                 | (Some rid, p2) \<Rightarrow>
                     (case issue_lease r now_ms s rid p2 of
                        (None, p3) \<Rightarrow> (None, g\<lparr>gw_pool := p3\<rparr>)
                      | (Some lease, p3) \<Rightarrow> (Some (Some (s, lease), False), g\<lparr>gw_pool := p3\<rparr>)))))"

section \<open>The section of admit under the queue's lock\<close>

datatype admit_result = AdmitPanic | AdmitRefused | AdmitGranted pool_selection candidate_lease | AdmitWaits

definition saturated_busy ::
  "request_id \<Rightarrow> candidate_scope \<Rightarrow> admission_request \<Rightarrow> u64 \<Rightarrow> gateway_admission \<Rightarrow> bool option \<times> gateway_admission" where
  "saturated_busy drawn scope r now_ms g =
     (if aq_waiters (gw_queue g) = [] then (None, g)
      else case pool_all_capacity_reserved (gw_pool g) of
          (False, p1) \<Rightarrow> (None, g\<lparr>gw_pool := p1\<rparr>)
        | (True, p1) \<Rightarrow>
            (case capacity_blocked_for drawn p1 (selection_of scope now_ms r) (ar_operation r) of
               (blocked, p2) \<Rightarrow> (Some blocked, g\<lparr>gw_pool := p2\<rparr>)))"

text \<open>Somebody else's turn: no reservation, only whether waiting makes sense.\<close>

definition busy_elsewhere ::
  "(identifier_draw \<Rightarrow> request_id) \<Rightarrow> candidate_scope \<Rightarrow> admission_request \<Rightarrow> u64 \<Rightarrow> gateway_admission \<Rightarrow>
   bool \<times> gateway_admission" where
  "busy_elsewhere fresh scope r now_ms g =
     (let sr = selection_of scope now_ms r
      in case admission_ready_for (fresh DrawSelect) (gw_pool g) sr (ar_operation r) of
           (True, p1) \<Rightarrow> (True, g\<lparr>gw_pool := p1\<rparr>)
         | (False, p1) \<Rightarrow>
             (case capacity_blocked_for (fresh DrawBlocked) p1 sr (ar_operation r) of
                (blocked, p2) \<Rightarrow> (blocked, g\<lparr>gw_pool := p2\<rparr>)))"

definition reserve_in_turn ::
  "(identifier_draw \<Rightarrow> request_id) \<Rightarrow> (admission_request \<Rightarrow> candidate_scope) \<Rightarrow> admission_request \<Rightarrow> instant \<Rightarrow> u64 \<Rightarrow>
   gateway_admission \<Rightarrow> ((pool_selection \<times> candidate_lease) option \<times> bool) option \<times> gateway_admission" where
  "reserve_in_turn fresh scope_of r now now_ms g =
     (case saturated_busy (fresh DrawSaturated) (scope_of r) r now_ms g of
        (Some busy, g1) \<Rightarrow> (Some (None, busy), g1)
      | (None, g1) \<Rightarrow>
          (case queue_turn fresh scope_of now now_ms g1 of (turn, g2) \<Rightarrow>
             if is_none_or turn (\<lambda>rid. rid = ar_request_id r)
             then try_reserve_admission fresh (scope_of r) r now now_ms g2
             else (case busy_elsewhere fresh (scope_of r) r now_ms g2 of (busy, g3) \<Rightarrow> (Some (None, busy), g3))))"

definition admit_section ::
  "(identifier_draw \<Rightarrow> request_id) \<Rightarrow> (admission_request \<Rightarrow> candidate_scope) \<Rightarrow> bool \<Rightarrow> admission_request \<Rightarrow> instant \<Rightarrow>
   u64 \<Rightarrow> gateway_admission \<Rightarrow> admit_result \<times> gateway_admission" where
  "admit_section fresh scope_of registered r now now_ms g0 =
     (case admission_deadline (ar_request_id r) now g0 of
        (Inl _, g) \<Rightarrow> (AdmitRefused, g)
      | (Inr _, g) \<Rightarrow>
          if \<not> can_dispatch (sb_budget (gw_budgets g (ar_request_id r))) now then (AdmitRefused, g)
          else if \<not> model_enabled g (ar_model r) then (AdmitRefused, g)
          else (case reserve_in_turn fresh scope_of r now now_ms g of
              (None, g1) \<Rightarrow> (AdmitPanic, g1)
            | (Some (Some (s, lease), _), g1) \<Rightarrow>
                (AdmitGranted s lease, g1\<lparr>gw_queue := queue_served (ar_principal r) (gw_queue g1)\<rparr>)
            | (Some (None, busy), g1) \<Rightarrow>
                if \<not> busy then (AdmitRefused, g1)
                else if registered then (AdmitWaits, g1)
                else (case register_waiter r WaitCapacity now g1 of
                    (True, g2) \<Rightarrow> (AdmitWaits, g2)
                  | (False, g2) \<Rightarrow> (AdmitRefused, g2))))"

section \<open>Waiting for recovery\<close>

datatype recovery_start = RecoveryReady | RecoveryRefused | RecoveryWaits

definition earliest_instant :: "instant option \<Rightarrow> instant option \<Rightarrow> instant option" where
  "earliest_instant a b = (case (a, b) of (Some x, Some y) \<Rightarrow> Some (min x y) | _ \<Rightarrow> opt_or a b)"

definition recovery_wait_kind :: "u64 option \<Rightarrow> u64 \<Rightarrow> request_wait_kind" where
  "recovery_wait_kind retry_at now_ms =
     (case retry_at of Some at \<Rightarrow> WaitRecovery (sat_sub at now_ms) | None \<Rightarrow> WaitPoolEvent)"

definition recovery_wait_begin ::
  "request_id \<Rightarrow> candidate_scope \<Rightarrow> admission_request \<Rightarrow> instant option \<Rightarrow> bool \<Rightarrow> instant \<Rightarrow> u64 \<Rightarrow> gateway_admission \<Rightarrow>
   recovery_start \<times> gateway_admission" where
  "recovery_wait_begin drawn scope r retry_by persistent now now_ms g0 =
     (let b = gw_budgets g0 (ar_request_id r)
      in if \<not> can_dispatch (sb_budget b) now \<or> \<not> model_enabled g0 (ar_model r) \<or> ps_retired (gw_pool g0)
         then (RecoveryRefused, g0)
         else case admission_deadline (ar_request_id r) now g0 of
             (Inl _, g) \<Rightarrow> (RecoveryRefused, g)
           | (Inr queue_by, g) \<Rightarrow>
               (let by = earliest_instant queue_by (earliest_instant retry_by (rate_limit_deadline b))
                in case recovery_retry_at_for drawn (gw_pool g) ((selection_of scope now_ms r)\<lparr>sr_prompt_key := None\<rparr>)
                          (ar_operation r) of
                     (retry_at, p) \<Rightarrow>
                       (let g1 = g\<lparr>gw_pool := p\<rparr>;
                            due = map_option (\<lambda>at. now + from_millis (at - now_ms)) retry_at
                        in if is_some_and retry_at (\<lambda>at. at \<le> now_ms) then (RecoveryReady, g1)
                           else if retry_at = None \<and> \<not> persistent then (RecoveryRefused, g1)
                           else if \<not> persistent \<and> is_some_and due (\<lambda>d. is_some_and by (\<lambda>limit. limit < d))
                           then (RecoveryRefused, g1)
                           else case register_waiter (r\<lparr>ar_prompt_key := None, ar_prompt_capacity := 0\<rparr>)
                                       (recovery_wait_kind retry_at now_ms) now g1 of
                               (True, g2) \<Rightarrow> (RecoveryWaits, g2)
                             | (False, g2) \<Rightarrow> (RecoveryRefused, g2))))"

definition recovery_wait_end ::
  "admission_request \<Rightarrow> instant option \<Rightarrow> instant \<Rightarrow> gateway_admission \<Rightarrow> bool \<times> gateway_admission" where
  "recovery_wait_end r retry_by now g =
     (if ps_retired (gw_pool g) \<or> \<not> model_enabled g (ar_model r) then (False, g)
      else case admission_deadline (ar_request_id r) now g of
          (Inl _, g1) \<Rightarrow> (False, g1)
        | (Inr _, g1) \<Rightarrow>
            (is_none_or retry_by (\<lambda>deadline. now < deadline)
               \<and> can_dispatch (sb_budget (gw_budgets g1 (ar_request_id r))) now, g1))"

end
