(* ===== verification/AdmissionRules.thy ===== *)
theory AdmissionRules
  imports AdmissionQueue PoolScenario
begin

text \<open>
  What admission keeps: the queue stays within its limits and its books are exact, the wait clock of a request
  runs exactly while it is queued, nobody overtakes the request whose turn it is, a principal with a startable
  request is passed over at most once by each principal before it, and no section panics.
\<close>

section \<open>The books of the queue\<close>

definition waiting_bytes :: "waiter list \<Rightarrow> nat" where
  "waiting_bytes ws = sum_list (map (\<lambda>w. unat (wtr_bytes w)) ws)"

definition waiters_of :: "string \<Rightarrow> waiter list \<Rightarrow> waiter list" where
  "waiters_of key_id ws = filter (\<lambda>w. waiter_principal w = key_id) ws"

definition queue_ok :: "admission_queue \<Rightarrow> bool" where
  "queue_ok q =
     (length (aq_waiters q) \<le> al_requests (aq_limits q)
      \<and> unat (aq_retained q) = waiting_bytes (aq_waiters q) \<and> aq_retained q \<le> al_bytes (aq_limits q)
      \<and> list_all (\<lambda>p. length (waiters_of p (aq_waiters q)) \<le> al_principal_requests (aq_limits q)
           \<and> waiting_bytes (waiters_of p (aq_waiters q)) \<le> unat (al_principal_bytes (aq_limits q))) (aq_principals q)
      \<and> distinct (map waiter_id (aq_waiters q)) \<and> distinct (aq_principals q)
      \<and> set (aq_principals q) = waiter_principal ` set (aq_waiters q))"

definition clocks_ok :: "budget_store \<Rightarrow> admission_queue \<Rightarrow> bool" where
  "clocks_ok budgets q \<longleftrightarrow>
     (\<forall>rid. wait_started (waiting (budgets rid)) \<noteq> None \<longleftrightarrow> rid \<in> waiter_id ` set (aq_waiters q))"

lemma waiting_bytes_simps [simp]:
  "waiting_bytes [] = 0" "waiting_bytes (w # ws) = unat (wtr_bytes w) + waiting_bytes ws"
  "waiting_bytes (vs @ ws) = waiting_bytes vs + waiting_bytes ws"
  by (simp_all add: waiting_bytes_def)

lemma waiters_of_simps [simp]:
  "waiters_of p [] = []" "waiters_of p (w # ws) = (if waiter_principal w = p then w # waiters_of p ws else waiters_of p ws)"
  "waiters_of p (vs @ ws) = waiters_of p vs @ waiters_of p ws"
  by (simp_all add: waiters_of_def)

lemma waiters_of_none: "p \<notin> waiter_principal ` set ws \<Longrightarrow> waiters_of p ws = []"
  by (auto simp: waiters_of_def filter_empty_conv)

lemma waiters_of_bytes: "waiting_bytes (waiters_of p ws) \<le> waiting_bytes ws"
  by (induction ws) auto

lemma fold_sat_add_bytes:
  "unat (fold (\<lambda>w total_bytes. sat_add total_bytes (wtr_bytes w)) ws n) = min (unat n + waiting_bytes ws) (2 ^ 64 - 1)"
proof (induction ws arbitrary: n)
  case Nil
  then show ?case using unat_le_bound [of n] by simp
next
  case (Cons w ws)
  then show ?case by (simp add: unat_sat_add min_def)
qed

lemma begin_queue_wait_started:
  "begin_queue_wait b kind now = (True, b') \<Longrightarrow> wait_started (waiting b) = None \<and> wait_started (waiting b') = Some now"
  by (auto simp: begin_queue_wait_def Let_def split: if_splits request_wait_kind.splits)

lemma begin_queue_wait_refused: "begin_queue_wait b kind now = (False, b') \<Longrightarrow> b' = b"
  by (auto simp: begin_queue_wait_def Let_def split: if_splits)

lemma finish_queue_wait_stopped: "wait_started (waiting (finish_queue_wait b now)) = None"
  by (auto simp: finish_queue_wait_def Let_def split: option.splits)

lemma queue_insert_refused: "queue_insert r kind now budgets q = (False, budgets', q') \<Longrightarrow> budgets' = budgets \<and> q' = q"
  by (auto simp: queue_insert_def Let_def split: if_splits prod.splits bool.splits dest: begin_queue_wait_refused)

lemma queue_insert_done:
  assumes "queue_insert r kind now budgets q = (True, budgets', q')"
  obtains b bytes where "bytes = request_bytes (budgets (ar_request_id r)) r"
    "ar_request_id r \<notin> waiter_id ` set (aq_waiters q)"
    "length (aq_waiters q) < al_requests (aq_limits q)"
    "length (waiters_of (ar_principal r) (aq_waiters q)) < al_principal_requests (aq_limits q)"
    "unat bytes \<le> unat (al_bytes (aq_limits q)) - unat (aq_retained q)"
    "unat bytes \<le> unat (al_principal_bytes (aq_limits q)) - min (waiting_bytes (waiters_of (ar_principal r) (aq_waiters q))) (2 ^ 64 - 1)"
    "begin_queue_wait (budgets (ar_request_id r)) kind now = (True, b)" "budgets' = budgets(ar_request_id r := b)"
    "q' = q\<lparr>aq_principals := (if ar_principal r \<in> set (aq_principals q) then aq_principals q
                     else aq_principals q @ [ar_principal r]),
            aq_retained := sat_add (aq_retained q) bytes,
            aq_waiters := aq_waiters q @ [\<lparr>wtr_request = r, wtr_bytes = bytes, wtr_selecting = (kind = WaitCapacity)\<rparr>]\<rparr>"
proof -
  let ?mine = "filter (\<lambda>w. waiter_principal w = ar_principal r) (aq_waiters q)"
  have mine: "unat (fold (\<lambda>w total_bytes. sat_add total_bytes (wtr_bytes w)) ?mine 0) = min (waiting_bytes ?mine) 18446744073709551615"
    using fold_sat_add_bytes [of ?mine 0] by simp
  from assms show thesis
    by (intro that [of "request_bytes (budgets (ar_request_id r)) r" "snd (begin_queue_wait (budgets (ar_request_id r)) kind now)"])
       (auto simp: queue_insert_def Let_def list_ex_iff mine waiters_of_def word_le_nat_alt word_less_nat_alt
          not_le not_less unat_sat_sub split: if_splits prod.splits bool.splits)
qed

lemma queue_insert_ok:
  assumes "queue_insert r kind now budgets q = (True, budgets', q')" "queue_ok q" "clocks_ok budgets q"
  shows "queue_ok q' \<and> clocks_ok budgets' q'"
proof -
  obtain b bytes where ins: "ar_request_id r \<notin> waiter_id ` set (aq_waiters q)"
    "length (aq_waiters q) < al_requests (aq_limits q)"
    "length (waiters_of (ar_principal r) (aq_waiters q)) < al_principal_requests (aq_limits q)"
    "unat bytes \<le> unat (al_bytes (aq_limits q)) - unat (aq_retained q)"
    "unat bytes \<le> unat (al_principal_bytes (aq_limits q)) - min (waiting_bytes (waiters_of (ar_principal r) (aq_waiters q))) (2 ^ 64 - 1)"
    "begin_queue_wait (budgets (ar_request_id r)) kind now = (True, b)" "budgets' = budgets(ar_request_id r := b)"
    "q' = q\<lparr>aq_principals := (if ar_principal r \<in> set (aq_principals q) then aq_principals q
                     else aq_principals q @ [ar_principal r]),
            aq_retained := sat_add (aq_retained q) bytes,
            aq_waiters := aq_waiters q @ [\<lparr>wtr_request = r, wtr_bytes = bytes, wtr_selecting = (kind = WaitCapacity)\<rparr>]\<rparr>"
    by (rule queue_insert_done [OF assms(1)]) blast
  let ?p = "ar_principal r"
  have ret: "unat (aq_retained q) \<le> unat (al_bytes (aq_limits q))"
    using assms(2) by (simp add: queue_ok_def word_le_nat_alt)
  then have sum: "unat (aq_retained q) + unat bytes \<le> unat (al_bytes (aq_limits q))" using ins(4) by linarith
  then have exact: "unat (sat_add (aq_retained q) bytes) = unat (aq_retained q) + unat bytes"
    using unat_le_bound [of "al_bytes (aq_limits q)"] by (simp add: unat_sat_add)
  have known: "waiting_bytes (waiters_of ?p (aq_waiters q)) \<le> 2 ^ 64 - 1"
    using waiters_of_bytes [of ?p "aq_waiters q"] assms(2) unat_le_bound [of "aq_retained q"] by (simp add: queue_ok_def)
  have mine: "waiting_bytes (waiters_of ?p (aq_waiters q)) \<le> unat (al_principal_bytes (aq_limits q))"
  proof (cases "?p \<in> set (aq_principals q)")
    case True
    with assms(2) show ?thesis by (auto simp: queue_ok_def list_all_iff)
  next
    case False
    with assms(2) show ?thesis by (simp add: queue_ok_def waiters_of_none)
  qed
  have "waiting_bytes (waiters_of ?p (aq_waiters q)) + unat bytes \<le> unat (al_principal_bytes (aq_limits q))"
    using ins(5) known mine by simp
  moreover have "list_all (\<lambda>p. length (waiters_of p (aq_waiters q)) \<le> al_principal_requests (aq_limits q)
           \<and> waiting_bytes (waiters_of p (aq_waiters q)) \<le> unat (al_principal_bytes (aq_limits q))) (aq_principals q)"
    using assms(2) by (simp add: queue_ok_def)
  ultimately have "queue_ok q'"
    using assms(2) ins(1,2,3) sum
    by (auto simp: queue_ok_def ins(8) exact list_all_iff word_le_nat_alt waiters_of_none)
  moreover have "clocks_ok budgets' q'"
    using assms(3) begin_queue_wait_started [OF ins(6)] by (auto simp: clocks_ok_def ins(7,8))
  ultimately show ?thesis ..
qed

lemma queue_remove_cases:
  assumes "queue_remove rid now budgets q = (budgets', q')"
  obtains (absent) "rid \<notin> waiter_id ` set (aq_waiters q)" "budgets' = budgets" "q' = q"
  | (present) vs w ws where "aq_waiters q = vs @ w # ws" "waiter_id w = rid"
      "budgets' = budgets(rid := finish_queue_wait (budgets rid) now)"
      "q' = q\<lparr>aq_waiters := vs @ ws, aq_retained := aq_retained q - wtr_bytes w,
         aq_principals := (if waiter_principal w \<in> waiter_principal ` set (vs @ ws) then aq_principals q
           else filter (\<lambda>p. p \<noteq> waiter_principal w) (aq_principals q))\<rparr>"
proof (cases "position (\<lambda>w. waiter_id w = rid) (aq_waiters q)")
  case None
  with assms show thesis by (intro absent) (auto simp: queue_remove_def position_None)
next
  case (Some i)
  then have i: "i < length (aq_waiters q)" "waiter_id (aq_waiters q ! i) = rid" by (simp_all add: position_Some)
  have "list_ex (\<lambda>v. waiter_principal v = p) vs \<longleftrightarrow> p \<in> waiter_principal ` set vs" for p vs
    by (auto simp: list_ex_iff)
  with assms Some i show thesis
    by (intro present [OF id_take_nth_drop [OF i(1)] i(2)]) (auto simp: queue_remove_def Let_def)
qed

lemma queue_remove_ok:
  assumes "queue_remove rid now budgets q = (budgets', q')" "queue_ok q" "clocks_ok budgets q"
  shows "queue_ok q' \<and> clocks_ok budgets' q'"
  using assms(1)
proof (cases rule: queue_remove_cases)
  case absent
  with assms show ?thesis by simp
next
  case (present vs w ws)
  have le: "wtr_bytes w \<le> aq_retained q" using assms(2) present(1) by (simp add: queue_ok_def word_le_nat_alt)
  then have bytes: "unat (aq_retained q - wtr_bytes w) = waiting_bytes (vs @ ws)"
    using assms(2) present(1) by (simp add: queue_ok_def unat_sub)
  have "aq_retained q - wtr_bytes w \<le> al_bytes (aq_limits q)"
    using assms(2) le by (auto simp: queue_ok_def word_le_nat_alt unat_sub)
  moreover have "length (waiters_of p (vs @ ws)) \<le> al_principal_requests (aq_limits q)
      \<and> waiting_bytes (waiters_of p (vs @ ws)) \<le> unat (al_principal_bytes (aq_limits q))"
    if "p \<in> set (aq_principals q)" for p
  proof -
    have "length (waiters_of p (vs @ ws)) \<le> length (waiters_of p (aq_waiters q))"
      "waiting_bytes (waiters_of p (vs @ ws)) \<le> waiting_bytes (waiters_of p (aq_waiters q))"
      by (simp_all add: present(1))
    moreover have "length (waiters_of p (aq_waiters q)) \<le> al_principal_requests (aq_limits q)"
      "waiting_bytes (waiters_of p (aq_waiters q)) \<le> unat (al_principal_bytes (aq_limits q))"
      using assms(2) that by (auto simp: queue_ok_def list_all_iff)
    ultimately show ?thesis by linarith
  qed
  moreover have "set (aq_principals q') = waiter_principal ` set (aq_waiters q')" "distinct (aq_principals q')"
    "set (aq_principals q') \<subseteq> set (aq_principals q)"
    using assms(2) by (auto simp: queue_ok_def present(1,4)) (metis UnCI image_eqI)+
  ultimately have "queue_ok q'"
    using assms(2) bytes unfolding queue_ok_def
    by (simp add: present(1,4) list_all_iff)
  moreover have "clocks_ok budgets' q'"
    using assms present(1,2) finish_queue_wait_stopped [of "budgets rid" now]
    by (auto simp: clocks_ok_def queue_ok_def present(3,4))
  ultimately show ?thesis ..
qed

lemma queue_served_fields [simp]:
  "aq_waiters (queue_served p q) = aq_waiters q" "aq_limits (queue_served p q) = aq_limits q"
  "aq_retained (queue_served p q) = aq_retained q"
  by (simp_all add: queue_served_def split: option.split)

lemma queue_served_principals:
  "aq_principals (queue_served p q) =
     (if p \<in> set (aq_principals q) then takeWhile (\<lambda>x. x \<noteq> p) (aq_principals q)
        @ tl (dropWhile (\<lambda>x. x \<noteq> p) (aq_principals q)) @ [p] else aq_principals q)"
proof (cases "position (\<lambda>x. x = p) (aq_principals q)")
  case None
  then have "p \<notin> set (aq_principals q)" by (auto simp: position_None)
  with None show ?thesis by (simp add: queue_served_def)
next
  case (Some i)
  then have i: "i < length (aq_principals q)" "aq_principals q ! i = p" "\<forall>j < i. aq_principals q ! j \<noteq> p"
    by (simp_all add: position_Some)
  have t: "takeWhile (\<lambda>x. x \<noteq> p) (aq_principals q) = take i (aq_principals q)"
    using i by (intro takeWhile_eq_take_P_nth) auto
  have "dropWhile (\<lambda>x. x \<noteq> p) (aq_principals q) = drop i (aq_principals q)"
    using t takeWhile_dropWhile_id [of "\<lambda>x. x \<noteq> p" "aq_principals q"] append_take_drop_id [of i "aq_principals q"]
    by (metis same_append_eq)
  with t Some i show ?thesis
    by (auto simp: queue_served_def tl_drop drop_Suc simp flip: drop_Suc_Cons intro: nth_mem)
qed

lemma queue_served_ok: "queue_ok q \<Longrightarrow> queue_ok (queue_served p q)"
proof -
  assume ok: "queue_ok q"
  have "distinct (aq_principals (queue_served p q)) \<and> set (aq_principals (queue_served p q)) = set (aq_principals q)"
  proof (cases "p \<in> set (aq_principals q)")
    case True
    then obtain xs ys where xs: "aq_principals q = xs @ p # ys" "p \<notin> set xs" by (meson split_list_first)
    then have "takeWhile (\<lambda>x. x \<noteq> p) (aq_principals q) = xs" "dropWhile (\<lambda>x. x \<noteq> p) (aq_principals q) = p # ys"
      by (auto simp: takeWhile_append dropWhile_append)
    with True xs ok show ?thesis by (auto simp: queue_served_principals queue_ok_def)
  qed (use ok in \<open>simp add: queue_served_principals queue_ok_def\<close>)
  with ok show ?thesis by (simp add: queue_ok_def list_all_iff)
qed


section \<open>Sections keep the books\<close>

definition admission_ok :: "gateway_admission \<Rightarrow> bool" where
  "admission_ok g = (queue_ok (gw_queue g) \<and> clocks_ok (gw_budgets g) (gw_queue g))"

text \<open>Sections that only ask change nothing but the pool.\<close>

definition same_queue :: "gateway_admission \<Rightarrow> gateway_admission \<Rightarrow> bool" where
  "same_queue g g' \<longleftrightarrow> gw_queue g' = gw_queue g \<and> gw_budgets g' = gw_budgets g
     \<and> gw_hidden_models g' = gw_hidden_models g \<and> gw_recovery_enabled g' = gw_recovery_enabled g"

lemma same_queue_refl [simp]: "same_queue g g" by (simp add: same_queue_def)

lemma same_queue_pool [simp]: "same_queue g (g\<lparr>gw_pool := p\<rparr>)" by (simp add: same_queue_def)

lemma same_queue_trans: "same_queue g h \<Longrightarrow> same_queue h k \<Longrightarrow> same_queue g k" by (simp add: same_queue_def)

lemma admission_ready_same: "same_queue g (snd (admission_ready drawn scope now_ms r g))"
  by (simp add: admission_ready_def split: prod.split)

lemma find_ready_same: "same_queue g (snd (find_ready fresh scope_of now now_ms ws g))"
proof (induction ws arbitrary: g)
  case (Cons w ws)
  show ?case
    using admission_ready_same [of g "fresh (DrawTurn (waiter_id w))" "scope_of (wtr_request w)" now_ms "wtr_request w"] Cons
    by (auto split: prod.splits bool.splits intro: same_queue_trans)
qed simp

lemma turn_among_same: "same_queue g (snd (turn_among fresh scope_of now now_ms ps g))"
proof (induction ps arbitrary: g)
  case (Cons p ps)
  let ?ws = "filter (\<lambda>w. wtr_selecting w \<and> waiter_principal w = p) (aq_waiters (gw_queue g))"
  show ?case
    using find_ready_same [of g fresh scope_of now now_ms ?ws] Cons
    by (auto split: prod.splits option.splits intro: same_queue_trans)
qed simp

lemma saturated_busy_same: "same_queue g (snd (saturated_busy drawn scope r now_ms g))"
  by (simp add: saturated_busy_def split: prod.split bool.split)

lemma busy_elsewhere_same: "same_queue g (snd (busy_elsewhere fresh scope r now_ms g))"
  by (simp add: busy_elsewhere_def Let_def split: prod.split bool.split)

lemma try_reserve_same: "same_queue g (snd (try_reserve_admission fresh scope r now now_ms g))"
  by (simp add: try_reserve_admission_def Let_def split: prod.split option.split)

lemma reserve_in_turn_same: "same_queue g (snd (reserve_in_turn fresh scope_of r now now_ms g))"
proof -
  obtain busy g1 where s: "saturated_busy (fresh DrawSaturated) (scope_of r) r now_ms g = (busy, g1)" by fastforce
  obtain turn g2 where t: "queue_turn fresh scope_of now now_ms g1 = (turn, g2)" by fastforce
  have g1: "same_queue g g1" using saturated_busy_same [of g "fresh DrawSaturated" "scope_of r" r now_ms] by (simp add: s)
  have g2: "same_queue g g2"
    using turn_among_same [of g1 fresh scope_of now now_ms "aq_principals (gw_queue g1)"] t same_queue_trans [OF g1]
    by (simp add: queue_turn_def)
  show ?thesis
    using g1 same_queue_trans [OF g2 busy_elsewhere_same [of g2 fresh "scope_of r" r now_ms]]
      same_queue_trans [OF g2 try_reserve_same [of g2 fresh "scope_of r" r now now_ms]]
    by (auto simp: reserve_in_turn_def s t split: option.splits prod.splits)
qed

lemma same_queue_ok: "same_queue g g' \<Longrightarrow> admission_ok g \<Longrightarrow> admission_ok g'"
  by (simp add: same_queue_def admission_ok_def)

lemma stop_request_clocks: "wait_started (waiting (gw_budgets (stop_request rid reason g) i)) = wait_started (waiting (gw_budgets g i))"
  by (simp add: stop_request_def stop_admission_def)

lemma stop_request_ok: "admission_ok g \<Longrightarrow> admission_ok (stop_request rid reason g)"
proof -
  assume "admission_ok g"
  moreover have "gw_queue (stop_request rid reason g) = gw_queue g" by (simp add: stop_request_def)
  ultimately show ?thesis by (simp add: admission_ok_def clocks_ok_def stop_request_clocks)
qed

lemma register_waiter_ok: "admission_ok g \<Longrightarrow> admission_ok (snd (register_waiter r kind now g))"
proof -
  assume ok: "admission_ok g"
  obtain inserted budgets q where ins: "queue_insert r kind now (gw_budgets g) (gw_queue g) = (inserted, budgets, q)"
    by (metis prod_cases3)
  have "admission_ok (g\<lparr>gw_budgets := budgets, gw_queue := q\<rparr>)"
  proof (cases inserted)
    case True
    with ok ins show ?thesis using queue_insert_ok [of r kind now "gw_budgets g" "gw_queue g" budgets q]
      by (simp add: admission_ok_def)
  next
    case False
    with ok ins queue_insert_refused [of r kind now "gw_budgets g" "gw_queue g" budgets q] show ?thesis
      by (simp add: admission_ok_def)
  qed
  then show ?thesis by (simp add: register_waiter_def ins Let_def stop_request_ok)
qed

lemma drop_guard_ok: "admission_ok g \<Longrightarrow> admission_ok (drop_guard rid now g)"
  using queue_remove_ok [of rid now "gw_budgets g" "gw_queue g"]
  by (auto simp: drop_guard_def admission_ok_def split: prod.split)

lemma admission_deadline_ok: "admission_ok g \<Longrightarrow> admission_ok (snd (admission_deadline rid now g))"
  by (simp add: admission_deadline_def Let_def stop_request_ok)

lemma admit_section_ok:
  assumes "admission_ok g"
  shows "admission_ok (snd (admit_section fresh scope_of registered r now now_ms g))"
proof -
  let ?g = "snd (admission_deadline (ar_request_id r) now g)"
  let ?h = "snd (reserve_in_turn fresh scope_of r now now_ms ?g)"
  have g: "admission_ok ?g" by (rule admission_deadline_ok [OF assms])
  have h: "admission_ok ?h" by (rule same_queue_ok [OF reserve_in_turn_same g])
  have served: "admission_ok (?h\<lparr>gw_queue := queue_served (ar_principal r) (gw_queue ?h)\<rparr>)"
    using h queue_served_ok by (simp add: admission_ok_def clocks_ok_def)
  show ?thesis
    using g h served register_waiter_ok [OF h, of r WaitCapacity now]
    by (auto simp: admit_section_def split: prod.splits sum.splits option.splits bool.splits)
qed

lemma recovery_wait_begin_ok:
  assumes "admission_ok g"
  shows "admission_ok (snd (recovery_wait_begin drawn scope r retry_by persistent now now_ms g))"
proof -
  let ?g = "snd (admission_deadline (ar_request_id r) now g)"
  have g: "admission_ok ?g" by (rule admission_deadline_ok [OF assms])
  then have "admission_ok (?g\<lparr>gw_pool := p\<rparr>)" for p by (rule same_queue_ok [OF same_queue_pool])
  then show ?thesis
    using assms g register_waiter_ok
    by (auto simp: recovery_wait_begin_def Let_def split: prod.splits sum.splits bool.splits) (metis snd_conv)+
qed

lemma recovery_wait_end_ok: "admission_ok g \<Longrightarrow> admission_ok (snd (recovery_wait_end r retry_by now g))"
  using admission_deadline_ok [of g "ar_request_id r" now]
  by (auto simp: recovery_wait_end_def split: prod.splits sum.splits)

section \<open>Runs\<close>

text \<open>
  Sections of this file, and what others do between them: any use of a request's budget except its wait clock,
  which only the queue drives, any change of the pool, of the hidden models and of the recovery setting.
\<close>

datatype admission_event =
    AdmitSection "identifier_draw \<Rightarrow> request_id" "admission_request \<Rightarrow> candidate_scope" bool admission_request instant u64
  | RecoveryBegins request_id candidate_scope admission_request "instant option" bool instant u64
  | RecoveryEnds admission_request "instant option" instant
  | GuardDropped request_id instant
  | BudgetUsed request_id shared_budget
  | PoolChanged pool_scheduler
  | SettingsChanged "string set" bool

fun admission_step :: "admission_event \<Rightarrow> gateway_admission \<Rightarrow> gateway_admission" where
  "admission_step (AdmitSection fresh scope_of registered r now now_ms) g =
     snd (admit_section fresh scope_of registered r now now_ms g)"
| "admission_step (RecoveryBegins drawn scope r retry_by persistent now now_ms) g =
     snd (recovery_wait_begin drawn scope r retry_by persistent now now_ms g)"
| "admission_step (RecoveryEnds r retry_by now) g = snd (recovery_wait_end r retry_by now g)"
| "admission_step (GuardDropped rid now) g = drop_guard rid now g"
| "admission_step (BudgetUsed rid b) g =
     (if wait_started (waiting b) = wait_started (waiting (gw_budgets g rid))
      then g\<lparr>gw_budgets := (gw_budgets g)(rid := b)\<rparr> else g)"
| "admission_step (PoolChanged p) g = g\<lparr>gw_pool := p\<rparr>"
| "admission_step (SettingsChanged hidden recovery) g = g\<lparr>gw_hidden_models := hidden, gw_recovery_enabled := recovery\<rparr>"

lemma admission_step_ok: "admission_ok g \<Longrightarrow> admission_ok (admission_step e g)"
  by (cases e) (simp_all add: admit_section_ok recovery_wait_begin_ok recovery_wait_end_ok drop_guard_ok,
      auto simp: admission_ok_def clocks_ok_def)

interpretation admission_runs: event_invariant admission_step admission_ok
  by unfold_locales (rule admission_step_ok)

lemma started_ok:
  assumes "gw_queue g = empty_queue limits" "\<And>rid. wait_started (waiting (gw_budgets g rid)) = None"
  shows "admission_ok g"
  using assms by (simp add: admission_ok_def queue_ok_def clocks_ok_def empty_queue_def)


section \<open>Turns\<close>

text \<open>The waiters in the order in which they are asked.\<close>

definition asking_order :: "string list \<Rightarrow> waiter list \<Rightarrow> waiter list" where
  "asking_order ps ws = concat (map (\<lambda>p. filter (\<lambda>w. wtr_selecting w \<and> waiter_principal w = p) ws) ps)"

lemma find_ready_append:
  "find_ready fresh scope_of now now_ms (vs @ ws) g =
     (case find_ready fresh scope_of now now_ms vs g of (Some rid, h) \<Rightarrow> (Some rid, h)
      | (None, h) \<Rightarrow> find_ready fresh scope_of now now_ms ws h)"
  by (induction vs arbitrary: g) (auto split: prod.splits bool.splits option.splits)

lemma turn_among_asks:
  "turn_among fresh scope_of now now_ms ps g = find_ready fresh scope_of now now_ms (asking_order ps (aq_waiters (gw_queue g))) g"
proof (induction ps arbitrary: g)
  case (Cons p ps)
  let ?ws = "filter (\<lambda>w. wtr_selecting w \<and> waiter_principal w = p) (aq_waiters (gw_queue g))"
  obtain found h where h: "find_ready fresh scope_of now now_ms ?ws g = (found, h)" by fastforce
  have "gw_queue h = gw_queue g"
    using find_ready_same [of g fresh scope_of now now_ms ?ws] by (simp add: h same_queue_def)
  then show ?case using Cons [of h] by (simp add: asking_order_def find_ready_append h split: option.split)
qed (simp add: asking_order_def)

lemma find_ready_Some:
  "find_ready fresh scope_of now now_ms ws g = (Some rid, g') \<Longrightarrow>
     \<exists>vs w us h. ws = vs @ w # us \<and> waiter_id w = rid \<and> find_ready fresh scope_of now now_ms vs g = (None, h)
       \<and> may_dispatch now h (wtr_request w)
       \<and> admission_ready (fresh (DrawTurn rid)) (scope_of (wtr_request w)) now_ms (wtr_request w) h = (True, g')"
proof (induction ws arbitrary: g)
  case (Cons w ws)
  obtain ready h where h: "admission_ready (fresh (DrawTurn (waiter_id w))) (scope_of (wtr_request w)) now_ms (wtr_request w) g = (ready, h)"
    by fastforce
  show ?case
  proof (cases "may_dispatch now g (wtr_request w) \<and> ready")
    case True
    with Cons.prems h show ?thesis by (intro exI [of _ "[]"] exI [of _ w] exI [of _ ws] exI [of _ g]) auto
  next
    case False
    define k where "k = (if may_dispatch now g (wtr_request w) then h else g)"
    from False Cons.prems h have "find_ready fresh scope_of now now_ms ws k = (Some rid, g')"
      by (auto simp: k_def split: if_splits)
    from Cons.IH [OF this] obtain vs x us j where x: "ws = vs @ x # us" "waiter_id x = rid"
      "find_ready fresh scope_of now now_ms vs k = (None, j)" "may_dispatch now j (wtr_request x)"
      "admission_ready (fresh (DrawTurn rid)) (scope_of (wtr_request x)) now_ms (wtr_request x) j = (True, g')" by blast
    have "find_ready fresh scope_of now now_ms (w # vs) g = (None, j)"
      using x(3) False h by (auto simp: k_def)
    with x show ?thesis by (intro exI [of _ "w # vs"]) auto
  qed
qed simp

lemma turn_prefix:
  assumes "turn_among fresh scope_of now now_ms ps g = (Some rid, h)"
  shows "turn_among fresh scope_of now now_ms (ps @ qs) g = (Some rid, h)"
  using assms by (simp add: turn_among_asks asking_order_def find_ready_append)

lemma turn_waiter:
  assumes "turn_among fresh scope_of now now_ms ps g = (Some rid, h)"
  obtains w where "w \<in> set (aq_waiters (gw_queue g))" "waiter_id w = rid" "waiter_principal w \<in> set ps" "wtr_selecting w"
proof -
  from find_ready_Some [OF assms [unfolded turn_among_asks]] obtain vs w us where
    w: "asking_order ps (aq_waiters (gw_queue g)) = vs @ w # us" "waiter_id w = rid" by blast
  then have "w \<in> set (asking_order ps (aq_waiters (gw_queue g)))" by simp
  then show thesis using w(2) that by (auto simp: asking_order_def)
qed

lemma admit_granted:
  assumes "admit_section fresh scope_of registered r now now_ms g = (AdmitGranted s lease, g')"
  obtains g1 turn g2 where "saturated_busy (fresh DrawSaturated) (scope_of r) r now_ms g = (None, g1)"
    "queue_turn fresh scope_of now now_ms g1 = (turn, g2)" "is_none_or turn (\<lambda>rid. rid = ar_request_id r)"
    "try_reserve_admission fresh (scope_of r) r now now_ms g2 = (Some (Some (s, lease), False), g'\<lparr>gw_queue := gw_queue g\<rparr>)"
    "gw_queue g' = queue_served (ar_principal r) (gw_queue g)" "same_queue g g2"
proof -
  obtain u h where d: "admission_deadline (ar_request_id r) now g = (u, h)" by fastforce
  from assms d obtain v where v: "u = Inr v" by (cases u) (simp_all add: admit_section_def)
  with d have h: "h = g" by (auto simp: admission_deadline_def Let_def split: if_splits)
  obtain res k where res: "reserve_in_turn fresh scope_of r now now_ms g = (res, k)" by fastforce
  obtain busy where k: "res = Some (Some (s, lease), busy)"
      "g' = k\<lparr>gw_queue := queue_served (ar_principal r) (gw_queue k)\<rparr>"
    using assms by (auto simp: admit_section_def d v h res split: if_splits option.splits prod.splits bool.splits)
  have "gw_queue k = gw_queue g"
    using reserve_in_turn_same [of g fresh scope_of r now now_ms] by (simp add: res same_queue_def)
  obtain sat g1 where sat: "saturated_busy (fresh DrawSaturated) (scope_of r) r now_ms g = (sat, g1)" by fastforce
  obtain turn g2 where turn: "queue_turn fresh scope_of now now_ms g1 = (turn, g2)" by fastforce
  have same: "same_queue g g2"
    using saturated_busy_same [of g "fresh DrawSaturated" "scope_of r" r now_ms]
      turn_among_same [of g1 fresh scope_of now now_ms "aq_principals (gw_queue g1)"] turn
    by (auto simp: sat queue_turn_def intro: same_queue_trans)
  have none: "sat = None" "is_none_or turn (\<lambda>rid. rid = ar_request_id r)"
      "try_reserve_admission fresh (scope_of r) r now now_ms g2 = (Some (Some (s, lease), busy), k)"
    using res k by (auto simp: reserve_in_turn_def sat turn split: option.splits if_splits prod.splits)
  moreover have "\<not> busy"
    using none(3) by (auto simp: try_reserve_admission_def Let_def split: if_splits option.splits prod.splits)
  ultimately show thesis
    using that [of g1 turn g2] sat turn k(2) same \<open>gw_queue k = gw_queue g\<close> by simp
qed

section \<open>Places of principals\<close>

definition place :: "string \<Rightarrow> string list \<Rightarrow> nat" where
  "place p ps = length (takeWhile (\<lambda>q. q \<noteq> p) ps)"

lemma place_append: "p \<in> set ps \<Longrightarrow> place p (ps @ qs) = place p ps"
  by (induction ps) (auto simp: place_def)

lemma place_filter: "Q p \<Longrightarrow> place p (filter Q ps) \<le> place p ps"
  by (induction ps) (auto simp: place_def)

lemma place_served:
  assumes "distinct (aq_principals q)" "x \<in> set (takeWhile (\<lambda>y. y \<noteq> p) (aq_principals q))" "p \<in> set (aq_principals q)"
  shows "Suc (place p (aq_principals (queue_served x q))) = place p (aq_principals q)"
proof -
  from assms(3) obtain xs ys where p: "aq_principals q = xs @ p # ys" "p \<notin> set xs" by (meson split_list_first)
  then have xs: "takeWhile (\<lambda>y. y \<noteq> p) (aq_principals q) = xs" by (auto simp: takeWhile_append)
  with assms(2) obtain us vs where x: "xs = us @ x # vs" "x \<notin> set us" by (metis split_list_first)
  then have "aq_principals (queue_served x q) = us @ vs @ p # ys @ [x]"
    using p by (auto simp: queue_served_principals takeWhile_append dropWhile_append)
  moreover have "p \<notin> set us" "p \<notin> set vs" using p x by auto
  ultimately show ?thesis
    using p x by (simp add: place_def takeWhile_append)
qed


section \<open>Passing over\<close>

fun granted_to :: "admission_event \<Rightarrow> gateway_admission \<Rightarrow> string option" where
  "granted_to (AdmitSection fresh scope_of registered r now now_ms) g =
     (case fst (admit_section fresh scope_of registered r now now_ms g) of
        AdmitGranted s lease \<Rightarrow> Some (ar_principal r) | _ \<Rightarrow> None)"
| "granted_to _ g = None"

text \<open>The principal, or one before it, has a waiting request that can start.\<close>

fun startable :: "string \<Rightarrow> admission_event \<Rightarrow> gateway_admission \<Rightarrow> bool" where
  "startable p (AdmitSection fresh scope_of registered r now now_ms) g =
     (fst (turn_among fresh scope_of now now_ms (takeWhile (\<lambda>q. q \<noteq> p) (aq_principals (gw_queue g)) @ [p])
        (snd (saturated_busy (fresh DrawSaturated) (scope_of r) r now_ms g))) \<noteq> None)"
| "startable p _ g = True"

text \<open>A budget belongs to one authenticated key.\<close>

fun keys_agree :: "admission_event \<Rightarrow> gateway_admission \<Rightarrow> bool" where
  "keys_agree (AdmitSection fresh scope_of registered r now now_ms) g =
     list_all (\<lambda>w. waiter_id w = ar_request_id r \<longrightarrow> waiter_principal w = ar_principal r) (aq_waiters (gw_queue g))"
| "keys_agree _ g = True"

fun passed_over :: "string \<Rightarrow> admission_event list \<Rightarrow> gateway_admission \<Rightarrow> nat" where
  "passed_over p [] g = 0"
| "passed_over p (e # es) g =
     (case granted_to e g of
        None \<Rightarrow> passed_over p es (admission_step e g)
      | Some q \<Rightarrow> if q = p then 0 else Suc (passed_over p es (admission_step e g)))"

text \<open>The principal waits, and can start at every section, until it is granted a candidate or the run ends.\<close>

fun waits_startable :: "string \<Rightarrow> admission_event list \<Rightarrow> gateway_admission \<Rightarrow> bool" where
  "waits_startable p [] g = (p \<in> set (aq_principals (gw_queue g)))"
| "waits_startable p (e # es) g =
     (p \<in> set (aq_principals (gw_queue g)) \<and> startable p e g \<and> keys_agree e g
      \<and> (granted_to e g = Some p \<or> waits_startable p es (admission_step e g)))"

lemma waits_startable_waiting: "waits_startable p es g \<Longrightarrow> p \<in> set (aq_principals (gw_queue g))"
  by (cases es) auto

lemma register_place:
  "p \<in> set (aq_principals (gw_queue g)) \<Longrightarrow>
     place p (aq_principals (gw_queue (snd (register_waiter r kind now g)))) = place p (aq_principals (gw_queue g))"
  by (auto simp: register_waiter_def queue_insert_def Let_def stop_request_def place_append split: prod.splits bool.splits)

lemma drop_guard_place:
  assumes "p \<in> set (aq_principals (gw_queue (drop_guard rid now g)))"
  shows "place p (aq_principals (gw_queue (drop_guard rid now g))) \<le> place p (aq_principals (gw_queue g))"
proof -
  obtain budgets q where q: "queue_remove rid now (gw_budgets g) (gw_queue g) = (budgets, q)" by fastforce
  from q assms show ?thesis
    by (cases rule: queue_remove_cases) (auto simp: drop_guard_def q intro!: place_filter split: if_splits)
qed

lemma admission_deadline_queue [simp]: "gw_queue (snd (admission_deadline rid now g)) = gw_queue g"
  by (simp add: admission_deadline_def Let_def stop_request_def)

lemma admit_not_granted_place:
  assumes "p \<in> set (aq_principals (gw_queue g))"
    "granted_to (AdmitSection fresh scope_of registered r now now_ms) g = None"
  shows "place p (aq_principals (gw_queue (snd (admit_section fresh scope_of registered r now now_ms g)))) = place p (aq_principals (gw_queue g))"
proof -
  obtain u h where d: "admission_deadline (ar_request_id r) now g = (u, h)" by fastforce
  obtain res k where res: "reserve_in_turn fresh scope_of r now now_ms h = (res, k)" by fastforce
  obtain done2 m where reg: "register_waiter r WaitCapacity now k = (done2, m)" by fastforce
  have h: "gw_queue h = gw_queue g" using admission_deadline_queue [of "ar_request_id r" now g] by (simp add: d)
  then have k: "gw_queue k = gw_queue g"
    using reserve_in_turn_same [of h fresh scope_of r now now_ms] by (simp add: res same_queue_def)
  then have "place p (aq_principals (gw_queue m)) = place p (aq_principals (gw_queue g))"
    using register_place [of p k r WaitCapacity now] assms(1) by (simp add: reg)
  then show ?thesis
    using assms(2) h k by (auto simp: admit_section_def d res reg split: sum.splits option.splits prod.splits bool.splits)
qed

lemma recovery_begin_place:
  assumes "p \<in> set (aq_principals (gw_queue g))"
  shows "place p (aq_principals (gw_queue (snd (recovery_wait_begin drawn scope r retry_by persistent now now_ms g)))) = place p (aq_principals (gw_queue g))"
proof -
  obtain u h where d: "admission_deadline (ar_request_id r) now g = (u, h)" by fastforce
  obtain at q where at: "recovery_retry_at_for drawn (gw_pool h) ((selection_of scope now_ms r)\<lparr>sr_prompt_key := None\<rparr>) (ar_operation r) = (at, q)"
    by fastforce
  obtain done2 m where reg: "register_waiter (r\<lparr>ar_prompt_key := None, ar_prompt_capacity := 0\<rparr>) (recovery_wait_kind at now_ms) now
      (h\<lparr>gw_pool := q\<rparr>) = (done2, m)" by fastforce
  have h: "gw_queue h = gw_queue g" using admission_deadline_queue [of "ar_request_id r" now g] by (simp add: d)
  then have "place p (aq_principals (gw_queue m)) = place p (aq_principals (gw_queue g))"
    using register_place [of p "h\<lparr>gw_pool := q\<rparr>"] assms(1) reg by (metis snd_conv gateway_admission.select_convs(1)
      gateway_admission.surjective gateway_admission.update_convs(3))
  with h show ?thesis
    by (simp add: recovery_wait_begin_def Let_def d at reg split: sum.splits bool.splits)
qed

lemma step_place:
  assumes "p \<in> set (aq_principals (gw_queue g))" "p \<in> set (aq_principals (gw_queue (admission_step e g)))"
    "granted_to e g = None"
  shows "place p (aq_principals (gw_queue (admission_step e g))) \<le> place p (aq_principals (gw_queue g))"
proof (cases e)
  case (AdmitSection fresh scope_of registered r now now_ms)
  with assms show ?thesis by (simp add: admit_not_granted_place del: granted_to.simps(1))
next
  case (RecoveryEnds r retry_by now)
  obtain u h where d: "admission_deadline (ar_request_id r) now g = (u, h)" by fastforce
  have "gw_queue h = gw_queue g" using admission_deadline_queue [of "ar_request_id r" now g] by (simp add: d)
  then have "gw_queue (snd (recovery_wait_end r retry_by now g)) = gw_queue g"
    by (simp add: recovery_wait_end_def d split: sum.splits)
  with RecoveryEnds show ?thesis by simp
qed (use assms in \<open>simp_all add: recovery_begin_place drop_guard_place\<close>)

lemma granted_place:
  assumes "admission_ok g" "granted_to e g = Some q" "startable p e g" "keys_agree e g" "p \<noteq> q"
    "p \<in> set (aq_principals (gw_queue g))"
  shows "Suc (place p (aq_principals (gw_queue (admission_step e g)))) = place p (aq_principals (gw_queue g))"
proof -
  from assms(2) obtain fresh scope_of registered r now now_ms s lease g' where
    e: "e = AdmitSection fresh scope_of registered r now now_ms"
    and sec: "admit_section fresh scope_of registered r now now_ms g = (AdmitGranted s lease, g')" and q: "q = ar_principal r"
  proof (cases e)
    case (AdmitSection fresh scope_of registered r now now_ms)
    obtain result g' where sec: "admit_section fresh scope_of registered r now now_ms g = (result, g')" by fastforce
    with assms(2) AdmitSection obtain s lease where "result = AdmitGranted s lease" "q = ar_principal r"
      by (auto split: admit_result.splits)
    with AdmitSection sec show ?thesis by (intro that) simp_all
  qed (use assms(2) in simp_all)
  from sec obtain g1 turn g2 where g1: "saturated_busy (fresh DrawSaturated) (scope_of r) r now_ms g = (None, g1)"
    and turn: "queue_turn fresh scope_of now now_ms g1 = (turn, g2)" "is_none_or turn (\<lambda>rid. rid = ar_request_id r)"
    and served: "gw_queue g' = queue_served (ar_principal r) (gw_queue g)"
    by (rule admit_granted) blast
  let ?front = "takeWhile (\<lambda>x. x \<noteq> p) (aq_principals (gw_queue g))"
  have queue: "gw_queue g1 = gw_queue g"
    using saturated_busy_same [of g "fresh DrawSaturated" "scope_of r" r now_ms] by (simp add: g1 same_queue_def)
  from assms(3) obtain rid h where first: "turn_among fresh scope_of now now_ms (?front @ [p]) g1 = (Some rid, h)"
    by (auto simp: e g1) (metis prod.collapse)
  from assms(6) obtain rest where "aq_principals (gw_queue g) = ?front @ p # rest"
  proof -
    obtain xs ys where xs: "aq_principals (gw_queue g) = xs @ p # ys" "p \<notin> set xs"
      using assms(6) by (meson split_list_first)
    then have "?front = xs" by (auto simp: takeWhile_append)
    with xs(1) show ?thesis using that by simp
  qed
  then have "queue_turn fresh scope_of now now_ms g1 = (Some rid, h)"
    using turn_prefix [OF first, of rest] by (simp add: queue_turn_def queue)
  with turn(1) have "turn = Some rid" by simp
  with turn(2) have rid: "rid = ar_request_id r" by simp
  from first obtain w where w: "w \<in> set (aq_waiters (gw_queue g1))" "waiter_id w = rid" "waiter_principal w \<in> set (?front @ [p])"
    by (rule turn_waiter)
  with assms(4) have "waiter_principal w = q" by (simp add: e q queue rid list_all_iff)
  with w(3) assms(5) have "q \<in> set ?front" by auto
  with assms(1,6) have "Suc (place p (aq_principals (queue_served q (gw_queue g)))) = place p (aq_principals (gw_queue g))"
    by (intro place_served) (simp_all add: admission_ok_def queue_ok_def)
  then show ?thesis by (simp add: e sec served q)
qed

text \<open>C5: A principal that can start is passed over at most once by each principal that stood before it.\<close>

theorem passed_over_bounded:
  assumes "admission_ok g" "waits_startable p es g"
  shows "passed_over p es g \<le> place p (aq_principals (gw_queue g))"
  using assms
proof (induction es arbitrary: g)
  case (Cons e es)
  let ?h = "admission_step e g"
  have ok: "admission_ok ?h" by (rule admission_step_ok [OF Cons.prems(1)])
  have p: "p \<in> set (aq_principals (gw_queue g))" using Cons.prems(2) by simp
  show ?case
  proof (cases "granted_to e g")
    case None
    then have later: "waits_startable p es ?h" using Cons.prems(2) by simp
    with None show ?thesis
      using Cons.IH [OF ok later] step_place [OF p waits_startable_waiting [OF later] None] by simp
  next
    case (Some q)
    show ?thesis
    proof (cases "q = p")
      case False
      then have later: "waits_startable p es ?h" using Some Cons.prems(2) by simp
      with False Some Cons.prems show ?thesis
        using Cons.IH [OF ok later] granted_place [OF Cons.prems(1) Some, of p] p by simp
    qed (simp add: Some)
  qed
qed simp

lemma register_keeps_principals:
  "p \<in> set (aq_principals (gw_queue g)) \<Longrightarrow> p \<in> set (aq_principals (gw_queue (snd (register_waiter r kind now g))))"
  by (auto simp: register_waiter_def queue_insert_def Let_def stop_request_def split: prod.splits bool.splits)

lemma admit_keeps_principals:
  assumes "p \<in> set (aq_principals (gw_queue g))"
  shows "p \<in> set (aq_principals (gw_queue (snd (admit_section fresh scope_of registered r now now_ms g))))"
proof -
  obtain u h where d: "admission_deadline (ar_request_id r) now g = (u, h)" by fastforce
  obtain res k where res: "reserve_in_turn fresh scope_of r now now_ms h = (res, k)" by fastforce
  obtain done2 m where reg: "register_waiter r WaitCapacity now k = (done2, m)" by fastforce
  have h: "gw_queue h = gw_queue g" using admission_deadline_queue [of "ar_request_id r" now g] by (simp add: d)
  then have k: "gw_queue k = gw_queue g"
    using reserve_in_turn_same [of h fresh scope_of r now now_ms] by (simp add: res same_queue_def)
  have m: "p \<in> set (aq_principals (gw_queue m))"
    using register_keeps_principals [of p k r WaitCapacity now] assms by (simp add: reg k)
  have "set (aq_principals (queue_served x q)) = set (aq_principals q)" for x q
  proof (cases "x \<in> set (aq_principals q)")
    case True
    then obtain xs ys where "aq_principals q = xs @ x # ys" "x \<notin> set xs" by (meson split_list_first)
    then show ?thesis by (auto simp: queue_served_principals takeWhile_append dropWhile_append)
  qed (simp add: queue_served_principals)
  with assms h k m show ?thesis
    by (auto simp: admit_section_def d res reg split: sum.splits option.splits prod.splits bool.splits)
qed

section \<open>No panic\<close>

lemma sync_keeps_affinity [simp]:
  "ps_response_affinity (sync_all_rotation_candidates p) = ps_response_affinity p"
  "ps_candidates (sync_all_rotation_candidates p) = ps_candidates p"
  by (simp_all add: sync_all_rotation_candidates_def)

lemma reserve_request_fields:
  assumes "reserve_request_with_operation fresh p cid model now_ms is_image op request_id given = (Some rid, p')"
  shows "ps_response_affinity p' = ps_response_affinity p" "ps_candidates p' = ps_candidates p"
    "bget (ps_candidates p) cid \<noteq> None"
  using assms
  by (auto simp: reserve_request_with_operation_def hold_reservation_def Let_def
      split: if_splits option.splits prod.splits sum.splits)

lemma selected_owner_bound:
  assumes "select_for_operation fresh p r lane op = (Some s, p')" "req_owner (psel_rotation_request s) \<noteq> None"
    "sr_response_key r = Some key"
  shows "fst (get_with_revision key (sr_now_ms r) (ps_response_affinity p')) \<noteq> None"
proof -
  from assms(1) obtain request p1 where
    req: "rotation_request_from_synced_state fresh (sync_all_rotation_candidates p) r op = (Some request, p1)"
    and s: "psel_rotation_request s = restrict_to_lane p1 lane request"
    and p': "p' = p1\<lparr>ps_prompt_affinity := ps_prompt_affinity p'\<rparr>"
    by (rule select_for_operation_Some)
  have "req_owner request \<noteq> None" using assms(2) s by (simp add: restrict_to_lane_def)
  moreover have "req_owner request = fst (lookup_owner (sr_response_key r) (sr_now_ms r) (ps_response_affinity p))"
    by (rule synced_request [OF req]) simp
  ultimately have "live_binding key (sr_now_ms r) (ps_response_affinity p) \<noteq> None"
    by (simp add: assms(3) lookup_owner_def affinity_get_prunes)
  moreover have "ps_response_affinity p1 = prune (sr_now_ms r) (ps_response_affinity p)"
    using req assms(3)
    by (auto simp: rotation_request_from_synced_state_def lookup_owner_def affinity_get_prunes Let_def
        split: if_splits prod.splits)
  moreover have "ps_response_affinity p' = ps_response_affinity p1" by (subst p') simp
  ultimately show ?thesis
    by (auto simp: get_with_revision_def Let_def prune_get live_binding_def opt_filter_Some)
qed


lemma issue_lease_total:
  assumes "bget (ps_candidates p) (psel_candidate_id s) \<noteq> None"
    "\<And>key. ar_response_key r = Some key \<Longrightarrow> req_owner (psel_rotation_request s) \<noteq> None
       \<Longrightarrow> fst (get_with_revision key now_ms (ps_response_affinity p)) \<noteq> None"
  shows "fst (issue_lease r now_ms s rid p) \<noteq> None"
proof (cases "opt_filter (\<lambda>_. req_owner (psel_rotation_request s) \<noteq> None) (ar_response_key r)")
  case None
  with assms(1) show ?thesis by (auto simp: issue_lease_def member_key_for_def Let_def)
next
  case (Some key)
  then have "fst (get_with_revision key now_ms (ps_response_affinity p)) \<noteq> None"
    using assms(2) by (simp add: opt_filter_Some)
  with assms(1) Some show ?thesis
    by (auto simp: issue_lease_def member_key_for_def response_affinity_binding_def Let_def split: prod.splits option.splits)
qed

lemma admission_select_lane:
  "\<exists>lane op'. admission_select drawn p sr op = select_for_operation drawn p sr lane op'"
  unfolding admission_select_def pool_select_def select_image_def select_compaction_def
  by (cases op) auto

lemma try_reserve_total: "fst (try_reserve_admission fresh scope r now now_ms g) \<noteq> None"
proof -
  have "fst (issue_lease r now_ms s rid p2) \<noteq> None"
    if sel: "admission_select (fresh DrawSelect) (gw_pool g) (selection_of scope now_ms r) (ar_operation r) = (Some s, p1)"
      and res: "reserve_request_with_operation (fresh DrawSelect) p1 (psel_candidate_id s) (ar_model r) now_ms
         (ar_operation r = OpImage) (ar_operation r) (Some (ar_request_id r)) (Some (psel_rotation_request s)) = (Some rid, p2)"
    for s p1 rid p2
  proof (rule issue_lease_total)
    show "bget (ps_candidates p2) (psel_candidate_id s) \<noteq> None" using reserve_request_fields [OF res] by simp
    fix key assume "ar_response_key r = Some key" "req_owner (psel_rotation_request s) \<noteq> None"
    then show "fst (get_with_revision key now_ms (ps_response_affinity p2)) \<noteq> None"
      using admission_select_lane [of "fresh DrawSelect" "gw_pool g" "selection_of scope now_ms r" "ar_operation r"] sel
        selected_owner_bound [of "fresh DrawSelect" "gw_pool g" "selection_of scope now_ms r" _ _ s p1 key]
        reserve_request_fields(1) [OF res]
      by (auto simp: selection_of_def)
  qed
  then show ?thesis
    by (auto simp: try_reserve_admission_def Let_def split: prod.split option.split) (metis fst_conv option.distinct(1))
qed

lemma reserve_in_turn_total: "fst (reserve_in_turn fresh scope_of r now now_ms g) \<noteq> None"
  using try_reserve_total by (auto simp: reserve_in_turn_def split: prod.split option.split)

text \<open>C32: No section panics: a reserved candidate is registered and the owner of its response is still bound.\<close>

theorem admission_never_panics: "fst (admit_section fresh scope_of registered r now now_ms g) \<noteq> AdmitPanic"
proof -
  obtain u h where d: "admission_deadline (ar_request_id r) now g = (u, h)" by fastforce
  obtain res k where res: "reserve_in_turn fresh scope_of r now now_ms h = (res, k)" by fastforce
  then have "res \<noteq> None" using reserve_in_turn_total by (metis fst_conv)
  then show ?thesis
    by (auto simp: admit_section_def d res split: sum.split option.split prod.split bool.split)
qed

section \<open>Guarantees\<close>

definition same_limits :: "gateway_admission \<Rightarrow> gateway_admission \<Rightarrow> bool" where
  "same_limits g g' = (aq_limits (gw_queue g') = aq_limits (gw_queue g))"

lemma queue_insert_limits: "aq_limits (snd (snd (queue_insert r kind now budgets q))) = aq_limits q"
  by (simp add: queue_insert_def Let_def split: prod.split bool.split)

lemma register_waiter_limits: "same_limits g (snd (register_waiter r kind now g))"
  using queue_insert_limits [of r kind now "gw_budgets g" "gw_queue g"]
  by (auto simp: register_waiter_def same_limits_def stop_request_def Let_def split: prod.split)

lemma queue_remove_limits: "aq_limits (snd (queue_remove rid now budgets q)) = aq_limits q"
  by (simp add: queue_remove_def Let_def split: option.split)

lemma admit_section_limits: "same_limits g (snd (admit_section fresh scope_of registered r now now_ms g))"
proof -
  obtain u h where d: "admission_deadline (ar_request_id r) now g = (u, h)" by fastforce
  obtain res k where res: "reserve_in_turn fresh scope_of r now now_ms h = (res, k)" by fastforce
  obtain done2 m where reg: "register_waiter r WaitCapacity now k = (done2, m)" by fastforce
  have h: "gw_queue h = gw_queue g" using admission_deadline_queue [of "ar_request_id r" now g] by (simp add: d)
  then have k: "gw_queue k = gw_queue g"
    using reserve_in_turn_same [of h fresh scope_of r now now_ms] by (simp add: res same_queue_def)
  then have "aq_limits (gw_queue m) = aq_limits (gw_queue g)"
    using register_waiter_limits [of k r WaitCapacity now] by (simp add: reg same_limits_def)
  with h k show ?thesis
    by (auto simp: same_limits_def admit_section_def d res reg split: sum.splits option.splits prod.splits bool.splits)
qed

lemma recovery_begin_limits: "same_limits g (snd (recovery_wait_begin drawn scope r retry_by persistent now now_ms g))"
proof -
  obtain u h where d: "admission_deadline (ar_request_id r) now g = (u, h)" by fastforce
  obtain at q where at: "recovery_retry_at_for drawn (gw_pool h) ((selection_of scope now_ms r)\<lparr>sr_prompt_key := None\<rparr>) (ar_operation r) = (at, q)"
    by fastforce
  obtain done2 m where reg: "register_waiter (r\<lparr>ar_prompt_key := None, ar_prompt_capacity := 0\<rparr>) (recovery_wait_kind at now_ms) now
      (h\<lparr>gw_pool := q\<rparr>) = (done2, m)" by fastforce
  have h: "gw_queue h = gw_queue g" using admission_deadline_queue [of "ar_request_id r" now g] by (simp add: d)
  have "same_limits (h\<lparr>gw_pool := q\<rparr>) m" using register_waiter_limits reg by (metis snd_conv)
  with h show ?thesis
    by (simp add: same_limits_def recovery_wait_begin_def Let_def d at reg split: sum.splits bool.splits)
qed

lemma admission_step_limits: "same_limits g (admission_step e g)"
proof (cases e)
  case (RecoveryEnds r retry_by now)
  obtain u h where d: "admission_deadline (ar_request_id r) now g = (u, h)" by fastforce
  have "gw_queue h = gw_queue g" using admission_deadline_queue [of "ar_request_id r" now g] by (simp add: d)
  then show ?thesis by (simp add: RecoveryEnds same_limits_def recovery_wait_end_def d split: sum.splits)
next
  case (GuardDropped rid now)
  then show ?thesis
    using queue_remove_limits [of rid now "gw_budgets g" "gw_queue g"]
    by (simp add: same_limits_def drop_guard_def case_prod_beta)
qed (simp_all add: admit_section_limits recovery_begin_limits, simp_all add: same_limits_def)

interpretation admission_limits_kept: event_order admission_step same_limits
  by unfold_locales (simp add: same_limits_def, simp add: same_limits_def, rule admission_step_limits)

text \<open>C11: In every run the queue stays within its limits, its byte count is exact, every principal of a waiter has one
  place, and the wait clock of a request runs exactly while the request is queued.\<close>

theorem admission_books_exact:
  assumes "gw_queue g = empty_queue limits" "\<And>rid. wait_started (waiting (gw_budgets g rid)) = None"
    "t = fold admission_step es g"
  shows "length (aq_waiters (gw_queue t)) \<le> al_requests limits
    \<and> unat (aq_retained (gw_queue t)) = waiting_bytes (aq_waiters (gw_queue t)) \<and> aq_retained (gw_queue t) \<le> al_bytes limits
    \<and> length (waiters_of p (aq_waiters (gw_queue t))) \<le> al_principal_requests limits
    \<and> waiting_bytes (waiters_of p (aq_waiters (gw_queue t))) \<le> unat (al_principal_bytes limits)
    \<and> distinct (aq_principals (gw_queue t)) \<and> set (aq_principals (gw_queue t)) = waiter_principal ` set (aq_waiters (gw_queue t))
    \<and> distinct (map waiter_id (aq_waiters (gw_queue t)))
    \<and> (wait_started (waiting (gw_budgets t rid)) \<noteq> None \<longleftrightarrow> rid \<in> waiter_id ` set (aq_waiters (gw_queue t)))"
proof -
  have ok: "admission_ok t" unfolding assms(3) by (rule admission_runs.run_inv [OF started_ok [OF assms(1,2)]])
  have limits: "aq_limits (gw_queue t) = limits"
    using admission_limits_kept.run_R [of g es] by (simp add: assms(1,3) same_limits_def empty_queue_def)
  have "length (waiters_of p (aq_waiters (gw_queue t))) \<le> al_principal_requests limits
    \<and> waiting_bytes (waiters_of p (aq_waiters (gw_queue t))) \<le> unat (al_principal_bytes limits)"
  proof (cases "p \<in> set (aq_principals (gw_queue t))")
    case True
    with ok limits show ?thesis by (auto simp: admission_ok_def queue_ok_def list_all_iff)
  next
    case False
    with ok show ?thesis by (simp add: admission_ok_def queue_ok_def waiters_of_none)
  qed
  with ok limits show ?thesis by (auto simp: admission_ok_def queue_ok_def clocks_ok_def)
qed

text \<open>C16: Nobody overtakes: a request is granted a candidate only when no waiting request that can start stands before
  it in the asking order.\<close>

theorem nobody_overtakes:
  assumes "admit_section fresh scope_of registered r now now_ms g = (AdmitGranted s lease, g')"
  shows "\<exists>g1 turn h. saturated_busy (fresh DrawSaturated) (scope_of r) r now_ms g = (None, g1)
    \<and> find_ready fresh scope_of now now_ms (asking_order (aq_principals (gw_queue g)) (aq_waiters (gw_queue g))) g1 = (turn, h)
    \<and> is_none_or turn (\<lambda>rid. rid = ar_request_id r)
    \<and> can_dispatch (sb_budget (gw_budgets g (ar_request_id r))) now \<and> model_enabled g (ar_model r)
    \<and> cl_request_id lease = ar_request_id r \<and> cl_candidate_id lease = psel_candidate_id s"
proof -
  from assms obtain g1 turn g2 where g1: "saturated_busy (fresh DrawSaturated) (scope_of r) r now_ms g = (None, g1)"
    and turn: "queue_turn fresh scope_of now now_ms g1 = (turn, g2)" "is_none_or turn (\<lambda>rid. rid = ar_request_id r)"
    and res: "try_reserve_admission fresh (scope_of r) r now now_ms g2 = (Some (Some (s, lease), False), g'\<lparr>gw_queue := gw_queue g\<rparr>)"
    and same: "same_queue g g2" by (rule admit_granted) blast
  have queue: "gw_queue g1 = gw_queue g"
    using saturated_busy_same [of g "fresh DrawSaturated" "scope_of r" r now_ms] by (simp add: g1 same_queue_def)
  have "can_dispatch (sb_budget (gw_budgets g2 (ar_request_id r))) now \<and> model_enabled g2 (ar_model r)"
    using res by (auto simp: try_reserve_admission_def split: if_splits)
  moreover have "cl_request_id lease = ar_request_id r \<and> cl_candidate_id lease = psel_candidate_id s"
    using res by (auto simp: try_reserve_admission_def issue_lease_def Let_def split: if_splits option.splits prod.splits)
  ultimately show ?thesis
    using g1 turn same by (auto simp: queue_turn_def turn_among_asks queue same_queue_def model_enabled_def)
qed


section \<open>Concrete sections\<close>

definition demo_request :: "request_id \<Rightarrow> string \<Rightarrow> admission_request" where
  "demo_request rid who = \<lparr>ar_request_id = rid, ar_principal = who, ar_model = ''m'', ar_protocols = [Responses], ar_tried = {},
     ar_response_key = None, ar_prompt_key = Some ''k'', ar_operation = OpText, ar_tried_capacities = [],
     ar_model_capacity = 1, ar_response_capacity = 0, ar_prompt_capacity = 1\<rparr>"

definition demo_gateway :: gateway_admission where
  "demo_gateway = \<lparr>gw_queue = empty_queue default_limits, gw_budgets = (\<lambda>rid. the (fst (shared_for_incoming_request rid 4))),
     gw_pool = open_pool, gw_hidden_models = {}, gw_recovery_enabled = False\<rparr>"

definition demo_waiting :: gateway_admission where
  "demo_waiting = snd (register_waiter (demo_request 2 ''b'') WaitCapacity 0
     (snd (register_waiter (demo_request 1 ''a'') WaitCapacity 0 demo_gateway)))"

definition demo_section :: "request_id \<Rightarrow> string \<Rightarrow> admission_event" where
  "demo_section rid who = AdmitSection (\<lambda>_. 7) (\<lambda>_. default_scope) True (demo_request rid who) 100 5"

lemma demo_gateway_started: "gw_queue demo_gateway = empty_queue default_limits"
    "wait_started (waiting (gw_budgets demo_gateway rid)) = None"
  by (simp_all add: demo_gateway_def shared_for_incoming_request_def for_incoming_request_def with_limits_def default_queue_wait_budget_def
      Let_def sat_of_nat_def)

lemma demo_waiting_ok: "admission_ok demo_waiting"
  unfolding demo_waiting_def by (intro register_waiter_ok started_ok [OF demo_gateway_started])


theorem admission_books_exact_witness:
  "length (aq_waiters (gw_queue (fold admission_step
      [demo_section 1 ''a'', demo_section 2 ''b'', PoolChanged open_pool, demo_section 1 ''a'', GuardDropped 1 200] demo_gateway))) \<le> 1024"
  using admission_books_exact [OF demo_gateway_started refl, of "[demo_section 1 ''a'', demo_section 2 ''b'', PoolChanged open_pool,
      demo_section 1 ''a'', GuardDropped 1 200]"] by (simp add: default_limits_def)

lemma demo_first: "case fst (admit_section (\<lambda>_. 7) (\<lambda>_. default_scope) False (demo_request 1 ''a'') 100 5 demo_gateway) of
    AdmitGranted s lease \<Rightarrow> True | _ \<Rightarrow> False"
  by code_simp

theorem nobody_overtakes_witness:
  "\<exists>s lease g'. admit_section (\<lambda>_. 7) (\<lambda>_. default_scope) False (demo_request 1 ''a'') 100 5 demo_gateway = (AdmitGranted s lease, g')
     \<and> cl_request_id lease = 1 \<and> model_enabled demo_gateway ''m''"
proof -
  obtain s lease g' where "admit_section (\<lambda>_. 7) (\<lambda>_. default_scope) False (demo_request 1 ''a'') 100 5 demo_gateway = (AdmitGranted s lease, g')"
    using demo_first by (auto split: admit_result.splits) (metis prod.collapse)
  from nobody_overtakes [OF this] this show ?thesis by (auto simp: demo_request_def)
qed

lemma demo_startable: "startable ''b'' (demo_section 1 ''a'') demo_waiting"
  by code_simp

lemma demo_places: "aq_principals (gw_queue demo_waiting) = [''a'', ''b'']" "keys_agree (demo_section 1 ''a'') demo_waiting"
  by code_simp+

theorem passed_over_bounded_witness: "passed_over ''b'' [demo_section 1 ''a''] demo_waiting \<le> 1"
proof -
  have "waits_startable ''b'' [demo_section 1 ''a''] demo_waiting"
    using demo_startable demo_places admit_keeps_principals [of "''b''" demo_waiting "\<lambda>_. 7" "\<lambda>_. default_scope" True "demo_request 1 ''a''" 100 5]
    by (simp add: demo_section_def del: startable.simps keys_agree.simps granted_to.simps)
  from passed_over_bounded [OF demo_waiting_ok this] show ?thesis by (simp add: demo_places place_def)
qed

end
