(* ===== verification/AttemptLease.thy ===== *)
theory AttemptLease
  imports AdmissionQueue Cooldowns
begin

text \<open>
  The lease of a candidate from its reservation to its release (\<open>runtime/attempt.rs\<close>,
  \<open>runtime/attempt/lease.rs\<close>).  A \<open>held_lease\<close> is the \<open>candidate_lease\<close> that admission issued with
  the revisions it captured and its three flags; an \<open>attempt_world\<close> is what the lease shares with
  the rest of the gateway: the scheduler, the budget of its request, the hidden models, the scope of
  the principal and the revision counters.

  The code holds the budget's lock around the scheduler's lock, so a dispatch, a settlement and a
  release are each one step of the world.  The clock is read several times within a step and may move
  between two readings; \<open>dispatch_clock\<close> and \<open>close_clock\<close> hold the readings in their order.  The
  guard of the prepared authorization is an argument: whether it was granted.
\<close>

section \<open>State\<close>

record held_lease =
  hl_lease :: candidate_lease
  hl_scope_revision :: u64
  hl_image_revision :: "u64 option"
  hl_runtime_id :: u64
  hl_started :: bool
  hl_settled :: bool
  hl_released :: bool

record attempt_world =
  aw_pool :: pool_scheduler
  aw_budget :: shared_budget
  aw_hidden_models :: "string set"
  aw_scope :: candidate_scope
  aw_scope_revision :: u64
  aw_image_revision :: u64
  aw_activity_revision :: u64

record dispatch_clock =
  dk_wire_check :: instant
  dk_owner_ms :: u64
  dk_visible_ms :: u64
  dk_start :: instant
  dk_wall_ms :: u64
  dk_wire :: instant

record close_clock =
  ck_observe :: instant
  ck_wall_ms :: u64
  ck_retry :: instant

abbreviation lease_rid :: "held_lease \<Rightarrow> reservation_id" where
  "lease_rid h \<equiv> cl_reservation_id (hl_lease h)"

abbreviation lease_cid :: "held_lease \<Rightarrow> string" where
  "lease_cid h \<equiv> cl_candidate_id (hl_lease h)"

abbreviation set_budget :: "request_budget \<Rightarrow> attempt_world \<Rightarrow> attempt_world" where
  "set_budget b w \<equiv> w\<lparr>aw_budget := (aw_budget w)\<lparr>sb_budget := b\<rparr>\<rparr>"

text \<open>The lease as admission hands it out.\<close>

definition hold_lease :: "candidate_lease \<Rightarrow> u64 option \<Rightarrow> u64 \<Rightarrow> attempt_world \<Rightarrow> held_lease" where
  "hold_lease lease captured runtime_id w =
     \<lparr>hl_lease = lease, hl_scope_revision = aw_scope_revision w, hl_image_revision = captured,
      hl_runtime_id = runtime_id, hl_started = False, hl_settled = False, hl_released = False\<rparr>"

section \<open>Dispatch\<close>

text \<open>A continuation must still belong to the candidate; asking prunes the expired bindings.\<close>

definition owner_moved :: "held_lease \<Rightarrow> u64 \<Rightarrow> pool_scheduler \<Rightarrow> bool \<times> pool_scheduler" where
  "owner_moved h now_ms p =
     (case cl_response_owner (hl_lease h) of None \<Rightarrow> (False, p)
      | Some (key, revision) \<Rightarrow>
          (case response_affinity_binding p key now_ms of (binding, p1) \<Rightarrow>
             (is_none_or binding (\<lambda>(owner, observed). owner \<noteq> lease_cid h \<or> observed \<noteq> revision), p1)))"

definition dispatch_gate ::
  "bool \<Rightarrow> dispatch_clock \<Rightarrow> held_lease \<Rightarrow> attempt_world \<Rightarrow> bool \<times> pool_scheduler" where
  "dispatch_gate authorized k h w =
     (if aw_scope_revision w \<noteq> hl_scope_revision h then (False, aw_pool w)
      else if \<not> authorized then (False, aw_pool w)
      else if model_id_key (cl_model (hl_lease h)) \<in> aw_hidden_models w then (False, aw_pool w)
      else if is_some_and (hl_image_revision h) (\<lambda>captured. aw_image_revision w \<noteq> captured)
      then (False, aw_pool w)
      else
        (case owner_moved h (dk_owner_ms k) (aw_pool w) of
           (True, p) \<Rightarrow> (False, p)
         | (False, p) \<Rightarrow>
             (candidate_permission_revision p (lease_cid h) = cl_permission_revision (hl_lease h)
              \<and> dispatch_visible p (lease_cid h) (cl_model (hl_lease h)) (cl_protocols (hl_lease h))
                  (aw_scope w) (dk_visible_ms k), p)))"

text \<open>The outer option of the result is \<open>None\<close> for a panic of the \<open>expect\<close>.\<close>

definition begin_dispatch_with_wire ::
  "bool \<Rightarrow> bool \<Rightarrow> dispatch_clock \<Rightarrow> held_lease \<Rightarrow> attempt_world \<Rightarrow>
   (dispatch_start_error + attempt_id) option \<times> held_lease \<times> attempt_world" where
  "begin_dispatch_with_wire charge_wire authorized k h w =
     (let b = sb_budget (aw_budget w) in
      if charge_wire \<and> \<not> can_start_wire b (dk_wire_check k)
      then (Some (Inl DispatchBudgetExhausted), h, w)
      else
        (case dispatch_gate authorized k h w of
           (False, p) \<Rightarrow> (Some (Inl DispatchCandidateChanged), h, w\<lparr>aw_pool := p\<rparr>)
         | (True, p) \<Rightarrow>
             (case begin_rotation_dispatch p (lease_rid h) b (dk_start k) (dk_wall_ms k) of
                (Inl err, p1, b1) \<Rightarrow> (Some (Inl err), h, set_budget b1 (w\<lparr>aw_pool := p1\<rparr>))
              | (Inr attempt, p1, b1) \<Rightarrow>
                  (case (if charge_wire
                         then (case start_wire_attempt b1 (dk_wire k) of (n, b2) \<Rightarrow> (n \<noteq> None, b2))
                         else (True, b1)) of
                     (False, b2) \<Rightarrow> (None, h, set_budget b2 (w\<lparr>aw_pool := p1\<rparr>))
                   | (True, b2) \<Rightarrow>
                       (let w2 = set_budget b2 (w\<lparr>aw_pool := p1\<rparr>)
                        in (Some (Inr attempt), h\<lparr>hl_started := True\<rparr>,
                            w2\<lparr>aw_budget :=
                              record_member_attempt (aw_budget w2) (cl_member_key (hl_lease h))\<rparr>))))))"

section \<open>Release\<close>

record activity_notice =
  an_runtime_id :: u64
  an_revision :: u64
  an_candidate_id :: string
  an_member_key :: string
  an_in_flight :: u32
  an_active_requests :: u32
  an_active_models :: "(string \<times> u32) list"

text \<open>A lease without an explicit result is cancelled when it was started, given back otherwise.\<close>

definition abandon_attempt :: "close_clock \<Rightarrow> held_lease \<Rightarrow> attempt_world \<Rightarrow> attempt_world" where
  "abandon_attempt k h w =
     (if hl_started h then
        (let b = observe_execution (sb_budget (aw_budget w)) obs_unknown (ck_observe k)
         in set_budget b
              (w\<lparr>aw_pool := snd (cancel_rotation (aw_pool w) (lease_rid h) b (ck_wall_ms k) (ck_retry k))\<rparr>))
      else w\<lparr>aw_pool := snd (release_rotation_unstarted (aw_pool w) (lease_rid h))\<rparr>)"

text \<open>The reservation goes back to the pool; the listener hears of it when it was still there.\<close>

definition return_reservation ::
  "held_lease \<Rightarrow> attempt_world \<Rightarrow> activity_notice option \<times> attempt_world" where
  "return_reservation h w =
     (case release_reservation (aw_pool w) (lease_rid h) of
        (False, p) \<Rightarrow> (None, w\<lparr>aw_pool := p\<rparr>)
      | (True, p) \<Rightarrow>
          (let revision = aw_activity_revision w + 1 in
           case runtime_activity_for p (lease_cid h) of (flying, requests, models) \<Rightarrow>
             (Some \<lparr>an_runtime_id = hl_runtime_id h, an_revision = revision,
                an_candidate_id = lease_cid h, an_member_key = cl_member_key (hl_lease h),
                an_in_flight = flying, an_active_requests = requests, an_active_models = models\<rparr>,
              w\<lparr>aw_pool := p, aw_activity_revision := revision\<rparr>)))"

definition release_lease ::
  "close_clock \<Rightarrow> held_lease \<Rightarrow> attempt_world \<Rightarrow> activity_notice option \<times> held_lease \<times> attempt_world" where
  "release_lease k h w =
     (if hl_released h then (None, h, w)
      else
        (case return_reservation h (if hl_settled h then w else abandon_attempt k h w) of
           (notice, w1) \<Rightarrow> (notice, h\<lparr>hl_released := True, hl_settled := True\<rparr>, w1)))"

section \<open>Settlement\<close>

text \<open>\<open>settle_rotation_with_latency\<close>: the callback runs under the scheduler's lock, for a current
  observation only.  The result is the settlement with the callback's value, \<open>None\<close> for a duplicate.\<close>

definition settle_lease ::
  "(pool_scheduler \<Rightarrow> 'r \<times> pool_scheduler) \<Rightarrow> attempt_observation \<Rightarrow> u64 \<Rightarrow> u64 option \<Rightarrow> close_clock \<Rightarrow>
   held_lease \<Rightarrow> attempt_world \<Rightarrow>
   (settlement_error + (rotation_settlement \<times> 'r option) option) \<times> activity_notice option
   \<times> held_lease \<times> attempt_world" where
  "settle_lease apply_to observation now_ms latency k h w =
     (if hl_settled h then (Inr None, None, h, w)
      else
        (let b = observe_execution (sb_budget (aw_budget w)) (ao_execution observation) (ck_observe k);
             w1 = set_budget b w
         in case settle_rotation_with_latency (aw_pool w1) (lease_rid h) observation b now_ms latency
                   (ck_retry k) of
              (Inl err, p) \<Rightarrow> (Inl err, None, h, w1\<lparr>aw_pool := p\<rparr>)
            | (Inr settlement, p) \<Rightarrow>
                (let applied = (if observation_current settlement
                       then map_prod Some id (apply_to p) else (None, p))
                 in case release_lease k (h\<lparr>hl_settled := True\<rparr>) (w1\<lparr>aw_pool := snd applied\<rparr>) of
                      (notice, h2, w2) \<Rightarrow> (Inr (Some (settlement, fst applied)), notice, h2, w2))))"

type_synonym settled = "activity_notice option \<times> held_lease \<times> attempt_world"

definition settle_success ::
  "u64 \<Rightarrow> u64 option \<Rightarrow> close_clock \<Rightarrow> held_lease \<Rightarrow> attempt_world \<Rightarrow> bool \<times> settled" where
  "settle_success now_ms latency k h w =
     (case settle_lease
             (\<lambda>p. record_success (reset_shared_rate_limit_backoff p (lease_cid h) (cl_model (hl_lease h)) now_ms)
                    (lease_cid h) (cl_model (hl_lease h)) now_ms)
             \<lparr>ao_execution = obs_committed, ao_health = HealthSuccess\<rparr> now_ms latency k h w of
        (result, rest) \<Rightarrow>
          (case result of Inr (Some (_, Some recovered)) \<Rightarrow> recovered | _ \<Rightarrow> False, rest))"

definition no_effect :: "pool_scheduler \<Rightarrow> unit \<times> pool_scheduler" where
  "no_effect p = ((), p)"

definition settle_terminal :: "u64 \<Rightarrow> close_clock \<Rightarrow> held_lease \<Rightarrow> attempt_world \<Rightarrow> settled" where
  "settle_terminal now_ms k h w =
     snd (settle_lease no_effect \<lparr>ao_execution = obs_accepted, ao_health = ClientError\<rparr> now_ms None k h w)"

definition allow_rotation_repair :: "held_lease \<Rightarrow> attempt_world \<Rightarrow> attempt_world" where
  "allow_rotation_repair h w =
     w\<lparr>aw_budget := allow_member_repair (aw_budget w) (cl_member_key (hl_lease h))\<rparr>"

definition settle_repair :: "u64 \<Rightarrow> close_clock \<Rightarrow> held_lease \<Rightarrow> attempt_world \<Rightarrow> settled" where
  "settle_repair now_ms k h w =
     (case snd (settle_lease no_effect \<lparr>ao_execution = obs_not_sent, ao_health = ClientError\<rparr> now_ms None k h w) of
        (notice, h1, w1) \<Rightarrow> (notice, h1, allow_rotation_repair h w1))"

definition settle_unknown :: "u64 \<Rightarrow> close_clock \<Rightarrow> held_lease \<Rightarrow> attempt_world \<Rightarrow> settled" where
  "settle_unknown now_ms k h w =
     snd (settle_lease no_effect \<lparr>ao_execution = obs_unknown, ao_health = HealthUnknown\<rparr> now_ms None k h w)"

text \<open>A failure with the cooldown it carries.  A rate limit of one model of a basis-points account is
  shared by its bucket, named by a digest of the account's address and the bucket; \<open>address_of\<close> is
  that address for such accounts and \<open>sha256\<close> the digest.\<close>

definition bytes_of :: "string \<Rightarrow> u8 list" where
  "bytes_of s = map of_char s"

definition failure_effect ::
  "(u8 list \<Rightarrow> u8 list) \<Rightarrow> (string \<Rightarrow> string option) \<Rightarrow> string \<Rightarrow> cooldown_request option \<Rightarrow>
   u8 list option \<Rightarrow> u64 \<Rightarrow> pool_scheduler \<Rightarrow> unit \<times> pool_scheduler" where
  "failure_effect sha256 address_of cid cooldown shared_bucket now_ms p =
     (case cooldown of None \<Rightarrow> ((), p)
      | Some request \<Rightarrow>
          (case (shared_bucket, address_of cid) of
             (Some bucket, Some address) \<Rightarrow>
               if cr_reason request = CoolRateLimit \<and> cr_scope request \<noteq> ''*''
               then ((), observe_shared_rate_limit p cid (sha256 (bytes_of address @ [0] @ bucket)) request now_ms)
               else ((), snd (set_cooldown_with_reason p cid request))
           | _ \<Rightarrow> ((), snd (set_cooldown_with_reason p cid request))))"

definition settle_rotation_failure ::
  "(u8 list \<Rightarrow> u8 list) \<Rightarrow> (string \<Rightarrow> string option) \<Rightarrow> attempt_observation \<Rightarrow> cooldown_request option \<Rightarrow>
   u8 list option \<Rightarrow> u64 \<Rightarrow> close_clock \<Rightarrow> held_lease \<Rightarrow> attempt_world \<Rightarrow> settled" where
  "settle_rotation_failure sha256 address_of observation cooldown shared_bucket now_ms k h w =
     snd (settle_lease (failure_effect sha256 address_of (lease_cid h) cooldown shared_bucket now_ms)
            observation now_ms None k h w)"

section \<open>What is reported of a failing candidate\<close>

text \<open>The deadline that blocks a candidate for a model: of equal deadlines the one of the whole member,
  of equal entries the last.\<close>

definition later_block :: "string \<times> u64 \<Rightarrow> string \<times> u64 \<Rightarrow> cmp_result" where
  "later_block a b = cmp (snd a, fst a = ''*'') (snd b, fst b = ''*'')"

definition failure_state_for ::
  "pool_scheduler \<Rightarrow> string \<Rightarrow> string \<Rightarrow> u64 \<Rightarrow> u32 \<times> (string \<times> u64) option" where
  "failure_state_for p cid model now_ms =
     (case circuit_state_for p cid model of (streak, circuit_deadline) \<Rightarrow>
        (streak,
         max_by later_block
           (filter (\<lambda>(scope, deadline). (scope = ''*'' \<or> eq_ignore_ascii_case scope model) \<and> now_ms < deadline)
              (case bget (ps_candidates p) cid of None \<Rightarrow> [] | Some c \<Rightarrow> bentries (cn_cooldowns c))
            @ (case opt_filter (\<lambda>at. now_ms < at) circuit_deadline of None \<Rightarrow> [] | Some at \<Rightarrow> [(model, at)]))))"

section \<open>Execution fences\<close>

record execution_fence =
  ef_candidate_id :: string
  ef_epoch :: u64
  ef_released :: bool

definition drop_fence :: "execution_fence \<Rightarrow> pool_scheduler \<Rightarrow> execution_fence \<times> pool_scheduler" where
  "drop_fence f p =
     (if ef_released f then (f, p)
      else (f\<lparr>ef_released := True\<rparr>, end_execution_fence p (ef_candidate_id f) (ef_epoch f)))"

end
