(* ===== verification/AttemptRules.thy ===== *)
theory AttemptRules
  imports AttemptLease PoolGuarantees PoolScenario
begin

text \<open>
  What the lease of a candidate guarantees.  \<open>attempt_run\<close> runs the events of one lease among
  those of the rest of the gateway: other calls of the pool, other transports of the request,
  changes of the configuration.  A lease that is dropped has given its reservation back exactly once,
  a refused dispatch costs nothing, and a request that may have been executed is never dispatched
  again.
\<close>

section \<open>What a reservation holds\<close>

definition entry_of ::
  "pool_scheduler \<Rightarrow> reservation_id \<Rightarrow> reservation \<Rightarrow> rotation_lease \<Rightarrow> lease_runtime \<Rightarrow> bool" where
  "entry_of p rid r x l \<longleftrightarrow> bget (active (ps_reservations p)) rid = Some r \<and>
     bget (ps_rotation_leases p) rid = Some x \<and> bget (leases (ps_rotation p)) (rl_lease_id x) = Some l"

definition given_back :: "pool_scheduler \<Rightarrow> reservation_id \<Rightarrow> bool" where
  "given_back p rid \<longleftrightarrow> bget (active (ps_reservations p)) rid = None \<and>
     bget (ps_rotation_leases p) rid = None \<and> rid \<le> next_id (ps_reservations p)"


text \<open>What a step keeps of a reservation.\<close>

definition keeps :: "reservation_id \<Rightarrow> pool_scheduler \<Rightarrow> pool_scheduler \<Rightarrow> bool" where
  "keeps rid p q \<longleftrightarrow> (\<forall>r x l. entry_of p rid r x l \<longrightarrow> entry_of q rid r x l) \<and>
     (given_back p rid \<longrightarrow> given_back q rid)"

lemma keeps_refl [simp]: "keeps rid p p"
  by (simp add: keeps_def)


lemma keeps_same:
  "ps_reservations q = ps_reservations p \<Longrightarrow> ps_rotation_leases q = ps_rotation_leases p \<Longrightarrow>
   leases (ps_rotation q) = leases (ps_rotation p) \<Longrightarrow> keeps rid p q"
  by (simp add: keeps_def entry_of_def given_back_def)

lemma quiet_keeps: "pool_quiet p q \<Longrightarrow> keeps rid p q"
  by (rule keeps_same) (simp_all add: pool_quiet_def holdings_def engine_quiet_def)

lemma no_reservation_no_lease:
  "pool_inv p \<Longrightarrow> bget (active (ps_reservations p)) rid = None \<Longrightarrow> bget (ps_rotation_leases p) rid = None"
  by (cases "bget (ps_rotation_leases p) rid") (auto elim: linked_lease)














section \<open>The life of a lease\<close>




section \<open>The invariant of a lease\<close>

definition lease_ok :: "held_lease \<Rightarrow> attempt_world \<Rightarrow> bool" where
  "lease_ok h w \<longleftrightarrow> pool_inv (aw_pool w) \<and> hl_settled h = hl_released h \<and>
     (if hl_released h then given_back (aw_pool w) (lease_rid h)
      else \<exists>r x l. entry_of (aw_pool w) (lease_rid h) r x l \<and>
        lease_request_id l = budget_request_id (sb_budget (aw_budget w)) \<and>
        (lease_attempt_id l \<noteq> None) = hl_started h)"

lemma observe_request [simp]:
  "budget_request_id (observe_execution b observation now) = budget_request_id b"
  by (simp add: observe_execution_def Let_def)

lemma start_request:
  "start_wire_attempt b now = (n, b') \<Longrightarrow> budget_request_id b' = budget_request_id b"
  "start_dispatch b now = (a, b') \<Longrightarrow> budget_request_id b' = budget_request_id b"
  by (auto simp: start_wire_attempt_def start_dispatch_def Let_def split: if_splits)

lemma configure_request [simp]:
  "budget_request_id (configure_retry_window b ms persistent) = budget_request_id b"
  by (simp add: configure_retry_window_def)

lemma shared_step_request [simp]:
  "budget_request_id (sb_budget (shared_step event s)) = budget_request_id (sb_budget s)"
  by (cases event)
    (auto simp: shared_start_dispatch_def shared_start_wire_attempt_def with_budget_def start_request
      observe_rejection_def shared_configure_retry_window_def limit_rate_limit_recovery_def
      http_headers_deadline_def retry_wait_deadline_def record_member_attempt_def allow_member_repair_def
      begin_recovery_pass_def retain_input_bytes_def stop_admission_def begin_queue_wait_def
      finish_queue_wait_def Let_def
      split: prod.split option.split request_wait_kind.split dest: start_request)

lemma lease_ok_inv: "lease_ok h w \<Longrightarrow> pool_inv (aw_pool w)"
  by (simp add: lease_ok_def)

lemma lease_ok_open:
  assumes "lease_ok h w" and "\<not> hl_released h"
  obtains r x l where "pool_inv (aw_pool w)" "entry_of (aw_pool w) (lease_rid h) r x l"
    "lease_request_id l = budget_request_id (sb_budget (aw_budget w))"
    "(lease_attempt_id l \<noteq> None) = hl_started h" "\<not> hl_settled h"
  using assms by (auto simp: lease_ok_def)









section \<open>Every call on the lease keeps the invariant\<close>







section \<open>Dispatch\<close>

lemma owner_moved_pool: "\<exists>c. snd (owner_moved h now_ms p) = p\<lparr>ps_response_affinity := c\<rparr>"
  by (auto simp: owner_moved_def response_affinity_binding_def split: option.split prod.split
      intro: exI [of _ "ps_response_affinity p"])

lemma dispatch_gate_pool: "\<exists>c. snd (dispatch_gate authorized k h w) = (aw_pool w)\<lparr>ps_response_affinity := c\<rparr>"
proof -
  obtain moved p where p: "owner_moved h (dk_owner_ms k) (aw_pool w) = (moved, p)" by fastforce
  have "\<exists>c. aw_pool w = (aw_pool w)\<lparr>ps_response_affinity := c\<rparr>"
    by (rule exI [of _ "ps_response_affinity (aw_pool w)"]) simp
  then show ?thesis
    using owner_moved_pool [of h "dk_owner_ms k" "aw_pool w"]
    by (cases moved) (auto simp: dispatch_gate_def p)
qed

lemma affinity_only:
  "dispatch_visible (p\<lparr>ps_response_affinity := c\<rparr>) cid model protocols scope now_ms =
     dispatch_visible p cid model protocols scope now_ms"
  "candidate_permission_revision (p\<lparr>ps_response_affinity := c\<rparr>) cid = candidate_permission_revision p cid"
  "pool_quiet p (p\<lparr>ps_response_affinity := c\<rparr>)"
  by (simp_all add: dispatch_visible_def rotation_visible_def quota_reserve_allows_def
      candidate_permission_revision_def same_core_quiet same_core_def holdings_def cong: option.case_cong candidate_quota.case_cong)

text \<open>What the gate lets pass.\<close>

lemma gate_passed:
  assumes "fst (dispatch_gate authorized k h w)"
  shows "authorized" and "aw_scope_revision w = hl_scope_revision h"
    and "model_id_key (cl_model (hl_lease h)) \<notin> aw_hidden_models w"
    and "case hl_image_revision h of None \<Rightarrow> True | Some captured \<Rightarrow> aw_image_revision w = captured"
    and "case cl_response_owner (hl_lease h) of None \<Rightarrow> True | Some (key, revision) \<Rightarrow>
      fst (response_affinity_binding (aw_pool w) key (dk_owner_ms k)) = Some (lease_cid h, revision)"
    and "candidate_permission_revision (aw_pool w) (lease_cid h) = cl_permission_revision (hl_lease h)"
    and "dispatch_visible (aw_pool w) (lease_cid h) (cl_model (hl_lease h)) (cl_protocols (hl_lease h))
      (aw_scope w) (dk_visible_ms k)"
proof -
  obtain moved p where p: "owner_moved h (dk_owner_ms k) (aw_pool w) = (moved, p)" by fastforce
  have kept: "\<not> moved" "candidate_permission_revision p (lease_cid h) = cl_permission_revision (hl_lease h)"
    "dispatch_visible p (lease_cid h) (cl_model (hl_lease h)) (cl_protocols (hl_lease h)) (aw_scope w) (dk_visible_ms k)"
    using assms by (auto simp: dispatch_gate_def p split: if_splits bool.splits)
  show "authorized" "aw_scope_revision w = hl_scope_revision h"
    "model_id_key (cl_model (hl_lease h)) \<notin> aw_hidden_models w"
    "case hl_image_revision h of None \<Rightarrow> True | Some captured \<Rightarrow> aw_image_revision w = captured"
    using assms by (auto simp: dispatch_gate_def is_some_and_iff split: if_splits option.split)
  show "case cl_response_owner (hl_lease h) of None \<Rightarrow> True | Some (key, revision) \<Rightarrow>
      fst (response_affinity_binding (aw_pool w) key (dk_owner_ms k)) = Some (lease_cid h, revision)"
    using p kept(1) by (auto simp: owner_moved_def is_none_or_iff split: option.splits prod.splits)
  obtain c where "p = (aw_pool w)\<lparr>ps_response_affinity := c\<rparr>"
    using owner_moved_pool [of h "dk_owner_ms k" "aw_pool w"] by (auto simp: p)
  then show "candidate_permission_revision (aw_pool w) (lease_cid h) = cl_permission_revision (hl_lease h)"
    "dispatch_visible (aw_pool w) (lease_cid h) (cl_model (hl_lease h)) (cl_protocols (hl_lease h))
      (aw_scope w) (dk_visible_ms k)"
    using kept(2,3) by (simp_all add: affinity_only)
qed

lemma rotation_dispatch_Inl:
  assumes "begin_rotation_dispatch p rid b now wall_ms = (Inl err, q, b')"
  shows "b' = b" and "pool_quiet p q"
proof -
  define s where "s = sync_all_rotation_candidates p"
  have s: "pool_quiet p s" unfolding s_def by (rule sync_quiet)
  have "b' = b \<and> (q = p \<or> q = s)"
    using assms
    by (auto simp: begin_rotation_dispatch_def s_def [symmetric] Let_def begin_transport_dispatch_def
        dest: begin_dispatch_Inl split: if_splits option.splits prod.splits sum.splits)
  then show "b' = b" "pool_quiet p q" using s by auto
qed

lemma rotation_dispatch_Inr:
  assumes "begin_rotation_dispatch p rid b now wall_ms = (Inr attempt, q, b')"
  obtains x where "start_dispatch b now = (Some attempt, b')" "bget (ps_rotation_leases p) rid = Some x"
    "\<And>r l. entry_of p rid r x l \<Longrightarrow>
       \<exists>l'. entry_of q rid r x l' \<and> lease_request_id l' = lease_request_id l \<and> lease_attempt_id l' \<noteq> None"
proof -
  define s where "s = sync_all_rotation_candidates p"
  have s: "pool_quiet p s" unfolding s_def by (rule sync_quiet)
  obtain x e where x: "bget (ps_rotation_leases s) rid = Some x"
    "begin_dispatch_internal (ps_rotation s) (rl_lease_id x) b True now = (Inr attempt, e, b')"
    "q = record_reservation_dispatch rid wall_ms (s\<lparr>ps_rotation := e\<rparr>)"
    using assms
    by (auto simp: begin_rotation_dispatch_def s_def [symmetric] Let_def begin_transport_dispatch_def
        split: if_splits option.splits prod.splits sum.splits)
  from x(2) show ?thesis
  proof (rule begin_dispatch_Inr)
    fix k
    assume k: "start_dispatch b now = (Some attempt, b')"
      "e = (ps_rotation s)\<lparr>recovery_credits := (if recovery_credit_required k
               then sat_sub (recovery_credits (ps_rotation s)) 1 else recovery_credits (ps_rotation s)),
            leases := bmodify (rl_lease_id x) (\<lambda>lease.
              lease\<lparr>recovery_credit_required := False, lease_attempt_id := Some attempt\<rparr>)
              (leases (ps_rotation s))\<rparr>"
    have "\<exists>l'. entry_of q rid r x l' \<and> lease_request_id l' = lease_request_id l \<and> lease_attempt_id l' \<noteq> None"
      if "entry_of p rid r x l" for r l
    proof -
      have "entry_of s rid r x l" using that quiet_keeps [OF s] by (simp add: keeps_def)
      then show ?thesis
        by (intro exI [of _ "l\<lparr>recovery_credit_required := False, lease_attempt_id := Some attempt\<rparr>"])
          (simp add: entry_of_def x(3) record_dispatch_fields k(2))
    qed
    then show ?thesis using that k(1) x(1) s by (simp add: pool_quiet_def holdings_def)
  qed
qed

text \<open>The three outcomes of a dispatch.\<close>

lemma dispatch_outcomes:
  assumes "begin_dispatch_with_wire charge authorized k h w = (result, h', w')"
  obtains (refused) err where "result = Some (Inl err)" "h' = h" "aw_budget w' = aw_budget w"
      "pool_quiet (aw_pool w) (aw_pool w')"
  | (begun) p p1 attempt b1 where "fst (dispatch_gate authorized k h w)" "p = snd (dispatch_gate authorized k h w)"
      "begin_rotation_dispatch p (lease_rid h) (sb_budget (aw_budget w)) (dk_start k) (dk_wall_ms k) = (Inr attempt, p1, b1)"
      "charge \<longrightarrow> can_start_wire (sb_budget (aw_budget w)) (dk_wire_check k)"
      "aw_pool w' = p1"
      "if charge \<and> \<not> can_start_wire b1 (dk_wire k) then result = None \<and> h' = h \<and> aw_budget w' = (aw_budget w)\<lparr>sb_budget := b1\<rparr>
       else result = Some (Inr attempt) \<and> h' = h\<lparr>hl_started := True\<rparr> \<and>
         aw_budget w' = record_member_attempt ((aw_budget w)\<lparr>sb_budget :=
           b1\<lparr>wire_attempts := (if charge then sat_add (wire_attempts b1) 1 else wire_attempts b1)\<rparr>\<rparr>)
           (cl_member_key (hl_lease h))"
proof (cases "charge \<and> \<not> can_start_wire (sb_budget (aw_budget w)) (dk_wire_check k)")
  case True
  then show ?thesis using assms refused by (auto simp: begin_dispatch_with_wire_def)
next
  case False
  obtain passed p where gate: "dispatch_gate authorized k h w = (passed, p)" by fastforce
  have p: "pool_quiet (aw_pool w) p"
    using dispatch_gate_pool [of authorized k h w] affinity_only(3) by (auto simp: gate)
  show ?thesis
  proof (cases passed)
    case no: False
    then show ?thesis
      using assms False p refused by (auto simp: begin_dispatch_with_wire_def gate)
  next
    case True
    obtain outcome p1 b1 where d: "begin_rotation_dispatch p (lease_rid h) (sb_budget (aw_budget w)) (dk_start k) (dk_wall_ms k)
        = (outcome, p1, b1)" by (metis surj_pair)
    show ?thesis
    proof (cases outcome)
      case (Inl err)
      then show ?thesis
        using assms False True d rotation_dispatch_Inl [of p] pool_quiet_trans [OF p] refused
        by (auto simp: begin_dispatch_with_wire_def gate)
    next
      case (Inr attempt)
      show ?thesis
        by (rule begun [of p attempt p1 b1])
          (use assms False True d Inr in \<open>auto simp: begin_dispatch_with_wire_def gate start_wire_attempt_def
             record_member_attempt_def Let_def split: if_splits\<close>)
    qed
  qed
qed



section \<open>Runs\<close>










section \<open>Guarantees\<close>


text \<open>A dispatch happens as a whole or not at all.  A refusal leaves the lease, the budget of the request
  and every reservation and lease of the pool as they were.  A success is one dispatch and, where it
  is charged, one wire attempt of the budget, and every gate held: the authorization, the scope and
  image revisions, the visible model, the permission revision, the owner of the continuation and the
  visibility of the candidate.  The \<open>expect\<close> panics only when the window for retries closed between
  the two readings of the clock.\<close>

theorem dispatch_all_or_nothing:
  "case begin_dispatch_with_wire charge authorized k h w of
     (None, _, _) \<Rightarrow> charge \<and> can_start_wire (sb_budget (aw_budget w)) (dk_wire_check k) \<and>
       \<not> retry_window_open (sb_budget (aw_budget w)) (dk_wire k)
   | (Some (Inl _), h', w') \<Rightarrow> h' = h \<and> aw_budget w' = aw_budget w \<and>
       ps_reservations (aw_pool w') = ps_reservations (aw_pool w) \<and>
       ps_rotation_leases (aw_pool w') = ps_rotation_leases (aw_pool w) \<and>
       leases (ps_rotation (aw_pool w')) = leases (ps_rotation (aw_pool w))
   | (Some (Inr attempt), h', w') \<Rightarrow> h' = h\<lparr>hl_started := True\<rparr> \<and>
       unat attempt = Suc (unat (dispatches (sb_budget (aw_budget w)))) \<and>
       unat (dispatches (sb_budget (aw_budget w'))) = unat attempt \<and>
       unat (wire_attempts (sb_budget (aw_budget w'))) =
         unat (wire_attempts (sb_budget (aw_budget w))) + (if charge then 1 else 0) \<and>
       attempted_members (aw_budget w') = insert (cl_member_key (hl_lease h)) (attempted_members (aw_budget w)) \<and>
       authorized \<and> aw_scope_revision w = hl_scope_revision h \<and>
       model_id_key (cl_model (hl_lease h)) \<notin> aw_hidden_models w \<and>
       (case hl_image_revision h of None \<Rightarrow> True | Some captured \<Rightarrow> aw_image_revision w = captured) \<and>
       (case cl_response_owner (hl_lease h) of None \<Rightarrow> True | Some (key, revision) \<Rightarrow>
          fst (response_affinity_binding (aw_pool w) key (dk_owner_ms k)) = Some (lease_cid h, revision)) \<and>
       candidate_permission_revision (aw_pool w) (lease_cid h) = cl_permission_revision (hl_lease h) \<and>
       dispatch_visible (aw_pool w) (lease_cid h) (cl_model (hl_lease h)) (cl_protocols (hl_lease h))
         (aw_scope w) (dk_visible_ms k)"
proof -
  obtain result h' w' where d: "begin_dispatch_with_wire charge authorized k h w = (result, h', w')" by (metis surj_pair)
  let ?b = "sb_budget (aw_budget w)"
  from d show ?thesis
  proof (cases rule: dispatch_outcomes)
    case (refused err)
    then show ?thesis by (simp add: d pool_quiet_def holdings_def engine_quiet_def)
  next
    case (begun p p1 attempt b1)
    have start: "start_dispatch ?b (dk_start k) = (Some attempt, b1)"
      using rotation_dispatch_Inr [OF begun(3)] by metis
    note started = dispatch_started [OF start]
    have wire: "can_start_wire b1 t = can_start_wire ?b t" for t
      by (simp add: started(5) can_start_wire_def retry_window_open_def)
    show ?thesis
    proof (cases "charge \<and> \<not> can_start_wire b1 (dk_wire k)")
      case True
      then have "result = None" using begun(6) by simp
      moreover have "\<not> retry_window_open ?b (dk_wire k)"
        using True begun(4) unfolding wire by (auto simp: can_start_wire_def)
      ultimately show ?thesis unfolding d using True begun(4) by simp
    next
      case False
      then have r: "result = Some (Inr attempt)" "h' = h\<lparr>hl_started := True\<rparr>"
        "aw_budget w' = record_member_attempt ((aw_budget w)\<lparr>sb_budget :=
           b1\<lparr>wire_attempts := (if charge then sat_add (wire_attempts b1) 1 else wire_attempts b1)\<rparr>\<rparr>)
           (cl_member_key (hl_lease h))"
        using begun(6) by auto
      have "unat (sat_add (wire_attempts b1) 1) = Suc (unat (wire_attempts ?b))" if charge
        using False that unat_sat_add_1 [of "wire_attempts ?b" "max_wire_attempts ?b"]
        by (simp add: started(5) can_start_wire_def)
      then have debit: "unat (wire_attempts (sb_budget (aw_budget w'))) = unat (wire_attempts ?b) + (if charge then 1 else 0)"
        by (simp add: r(3) record_member_attempt_def started(5))
      have books: "attempted_members (aw_budget w') = insert (cl_member_key (hl_lease h)) (attempted_members (aw_budget w))"
        "unat (dispatches (sb_budget (aw_budget w'))) = unat attempt"
        by (simp_all add: r(3) record_member_attempt_def started(2))
      show ?thesis
        unfolding d r(1,2) prod.case option.case sum.case
        by (intro conjI refl started(1) debit books gate_passed [OF begun(1)])
    qed
  qed
qed


text \<open>A request that may have been executed is never dispatched again: not after a started lease was
  dropped without a result, and not after a settlement that saw it accepted, unknown or committed,
  through whatever lease, gates and clock readings, and whatever else happens to the budget.\<close>

lemma return_budget: "aw_budget (snd (return_reservation h w)) = aw_budget w"
  by (simp add: return_reservation_def Let_def split: prod.split bool.split)

lemma release_budget:
  "aw_budget (snd (snd (release_lease k h w))) =
     (if hl_released h \<or> hl_settled h then aw_budget w else aw_budget (abandon_attempt k h w))"
  by (simp add: release_lease_def case_prod_beta return_budget)

lemma settle_budget:
  "\<not> hl_settled h \<Longrightarrow> sb_budget (aw_budget (snd (snd (snd (settle_lease apply_to observation now_ms latency k h w))))) =
     observe_execution (sb_budget (aw_budget w)) (ao_execution observation) (ck_observe k)"
  by (simp add: settle_lease_def Let_def case_prod_beta release_budget split: sum.split)

lemma stopped_refuses:
  assumes "replay_stopped (sb_budget (aw_budget w))"
  shows "\<exists>err. fst (begin_dispatch_with_wire charge authorized k h w) = Some (Inl err)"
proof -
  obtain result h' w' where d: "begin_dispatch_with_wire charge authorized k h w = (result, h', w')" by (metis surj_pair)
  from d show ?thesis
  proof (cases rule: dispatch_outcomes)
    case (begun p p1 attempt b1)
    have "start_dispatch (sb_budget (aw_budget w)) (dk_start k) = (Some attempt, b1)"
      using rotation_dispatch_Inr [OF begun(3)] by metis
    then show ?thesis using stopped_no_start(1) assms by simp
  qed (simp add: d)
qed

theorem executed_never_redispatched:
  assumes "\<not> hl_settled h" and "\<not> hl_released h"
    and "hl_started h \<and> w1 = snd (snd (release_lease k1 h w)) \<or>
      (certainty (ao_execution observation) \<noteq> CertNotSent \<or>
       commit_stage_of (ao_execution observation) = ResponseCommitted) \<and>
      w1 = snd (snd (snd (settle_lease apply_to observation now_ms latency k1 h w)))"
    and "aw_budget w2 = shared_run events (aw_budget w1)"
  shows "\<exists>err. fst (begin_dispatch_with_wire charge authorized k2 h2 w2) = Some (Inl err)"
proof -
  have "\<exists>observed. (certainty observed \<noteq> CertNotSent \<or> commit_stage_of observed = ResponseCommitted) \<and>
      sb_budget (aw_budget w1) = observe_execution (sb_budget (aw_budget w)) observed (ck_observe k1)"
  proof -
    consider (dropped) "hl_started h" "w1 = snd (snd (release_lease k1 h w))"
      | (settled) "certainty (ao_execution observation) \<noteq> CertNotSent \<or>
          commit_stage_of (ao_execution observation) = ResponseCommitted"
        "w1 = snd (snd (snd (settle_lease apply_to observation now_ms latency k1 h w)))"
      using assms(3) by blast
    then show ?thesis
    proof cases
      case dropped
      then have "aw_budget w1 = aw_budget (abandon_attempt k1 h w)"
        using assms(1,2) by (simp add: release_budget)
      then show ?thesis
        using dropped(1) by (intro exI [of _ obs_unknown]) (simp add: abandon_attempt_def Let_def obs_unknown_def)
    next
      case settled
      then show ?thesis using settle_budget [OF assms(1)] by blast
    qed
  qed
  then have "replay_stopped (sb_budget (aw_budget w1))" using observe_execution_stops by metis
  moreover have "shared_le (aw_budget w1) (aw_budget w2)" unfolding assms(4) by (rule shared_run_le)
  ultimately show ?thesis using stopped_refuses by (simp add: shared_le_def budget_le_def)
qed

text \<open>When the \<open>expect\<close> panics the dispatch is already debited, and the attempt is recorded in the
  engine but not on the lease.  The unwinding drops the lease, which takes it for one that was never
  started: neither its rotation lease nor its reservation is returned, and no notice is sent.\<close>

lemma panicked_dispatch_leaks:
  assumes ok: "lease_ok h w" and "\<not> hl_released h" and "\<not> hl_started h"
    and panic: "begin_dispatch_with_wire charge authorized k h w = (None, h1, w1)"
    and drop: "release_lease k1 h1 w1 = (notice, h2, w2)"
  shows "notice = None \<and> hl_released h2 \<and> bcontains (active (ps_reservations (aw_pool w2))) (lease_rid h) \<and>
    bcontains (ps_rotation_leases (aw_pool w2)) (lease_rid h) \<and>
    unat (dispatches (sb_budget (aw_budget w2))) = Suc (unat (dispatches (sb_budget (aw_budget w))))"
  using panic
proof (cases rule: dispatch_outcomes)
  case (begun p p1 attempt b1)
  have p: "pool_quiet (aw_pool w) p"
    using dispatch_gate_pool [of authorized k h w] affinity_only(3) begun(2) by auto
  obtain r x0 l where held: "entry_of (aw_pool w) (lease_rid h) r x0 l"
    by (rule lease_ok_open [OF ok assms(2)])
  obtain x where x: "start_dispatch (sb_budget (aw_budget w)) (dk_start k) = (Some attempt, b1)"
    "bget (ps_rotation_leases p) (lease_rid h) = Some x"
    "\<And>r l. entry_of p (lease_rid h) r x l \<Longrightarrow> \<exists>l'. entry_of p1 (lease_rid h) r x l' \<and>
       lease_request_id l' = lease_request_id l \<and> lease_attempt_id l' \<noteq> None"
    using rotation_dispatch_Inr [OF begun(3)] by metis
  have entry: "entry_of p (lease_rid h) r x0 l" using held quiet_keeps [OF p] by (simp add: keeps_def)
  then have "x0 = x" using x(2) by (simp add: entry_of_def)
  then obtain l' where l': "entry_of p1 (lease_rid h) r x l'" "lease_attempt_id l' \<noteq> None" using x(3) entry by blast
  have inv: "pool_inv p1" by (rule dispatch_inv(1) [OF quiet_inv [OF p lease_ok_inv [OF ok]] begun(3)])
  have same: "h1 = h" "aw_pool w1 = p1" "aw_budget w1 = (aw_budget w)\<lparr>sb_budget := b1\<rparr>"
    using begun(5,6) by (auto split: if_splits)
  define q where "q = snd (release_rotation_unstarted p1 (lease_rid h))"
  obtain released e where e: "release_unstarted (ps_rotation p1) (rl_lease_id x) = (released, e)" by fastforce
  have "\<not> released" using release_unstarted_leases(3) [OF e] l' by (auto simp: entry_of_def)
  then have q: "q = p1\<lparr>ps_rotation := e\<rparr>" "leases e = leases (ps_rotation p1)" "pool_inv q"
    using l'(1) e release_unstarted_leases(1) [OF e] release_unstarted_inv [OF inv, of "lease_rid h"]
    by (simp_all add: q_def release_rotation_unstarted_def entry_of_def)
  then have "\<not> releasable q (lease_rid h)" using l' by (simp add: releasable_def entry_of_def)
  then obtain q' where q': "release_reservation q (lease_rid h) = (False, q')"
    using release_result_iff [OF q(3), of "lease_rid h"] by (metis (full_types) prod.collapse)
  have "bget (ps_rotation_leases q') (lease_rid h) = Some x"
    using q' q(1) l'(1) e \<open>\<not> released\<close> q(2) release_unstarted_leases(3)
    by (auto simp: release_reservation_def release_rotation_unstarted_def entry_of_def bcontains_def
        reservations_release_def split: if_splits option.splits prod.splits)
  moreover have "ps_reservations q' = ps_reservations q"
    using q(3) q' by (cases rule: release_stages) simp_all
  moreover have "notice = None \<and> hl_released h2 \<and> aw_pool w2 = q' \<and> aw_budget w2 = aw_budget w1"
  proof -
    have "\<not> hl_settled h" using ok assms(2) by (simp add: lease_ok_def)
    moreover have "abandon_attempt k1 h w1 = w1\<lparr>aw_pool := q\<rparr>"
      by (simp add: abandon_attempt_def assms(3) same(2) q_def)
    moreover have "return_reservation h (w1\<lparr>aw_pool := q\<rparr>) = (None, w1\<lparr>aw_pool := q'\<rparr>)"
      by (simp add: return_reservation_def q')
    ultimately show ?thesis using drop assms(2) unfolding same(1) by (auto simp: release_lease_def)
  qed
  ultimately show ?thesis
    using l'(1) q(1) same(3) dispatch_started(1,2) [OF x(1)] by (simp add: entry_of_def bcontains_def)
qed simp


section \<open>A concrete lease\<close>

text \<open>Request 1 with four dispatches, in a retry window of one millisecond that a rejection opened at
  time 0; a lease of the one candidate of \<open>open_pool\<close>.\<close>

definition demo_budget :: shared_budget where
  "demo_budget = shared_run [EvConfigure 1 False, EvObserveRejection 0] (the (fst (shared_for_incoming_request 1 4)))"

definition demo_reserved :: "reservation_id option \<times> pool_scheduler" where
  "demo_reserved = reserve_request_with_operation 7 open_pool ''s'' ''m'' 5 False OpText (Some 1) None"

definition demo_lease :: candidate_lease where
  "demo_lease = \<lparr>cl_candidate_id = ''s'', cl_permission_revision = 0,
     cl_member_key = source_member_key ''s'', cl_reservation_id = 1, cl_model = ''m'', cl_protocols = [Responses],
     cl_response_owner = None, cl_request_id = 1\<rparr>"

definition demo_world :: attempt_world where
  "demo_world = \<lparr>aw_pool = snd demo_reserved, aw_budget = demo_budget, aw_hidden_models = {}, aw_scope = default_scope,
     aw_scope_revision = 0, aw_image_revision = 0, aw_activity_revision = 0\<rparr>"

definition demo_held :: held_lease where
  "demo_held = hold_lease demo_lease None 0 demo_world"

definition demo_clock :: "instant \<Rightarrow> dispatch_clock" where
  "demo_clock wire = \<lparr>dk_wire_check = 10, dk_owner_ms = 6, dk_visible_ms = 6, dk_start = 20, dk_wall_ms = 7, dk_wire = wire\<rparr>"

definition demo_close :: close_clock where
  "demo_close = \<lparr>ck_observe = 900, ck_wall_ms = 8, ck_retry = 901\<rparr>"


text \<open>One evaluation of the whole scenario.  In the second dispatch the clock passes the end of the
  retry window between the dispatch and the wire attempt.\<close>

lemma lease_scenario:
  "(\<lambda>p. (bsize (active (ps_reservations p)),
     (\<lambda>reserved. (fst reserved,
        (\<lambda>w. (\<lambda>h. ((\<lambda>(r, h, _). (r, hl_started h, hl_settled h, hl_released h))
             (begin_dispatch_with_wire True True (demo_clock 30) h w),
           fst (begin_dispatch_with_wire True True (demo_clock 1000000) h w))) (hold_lease demo_lease None 0 w))
        \<lparr>aw_pool = snd reserved, aw_budget = demo_budget, aw_hidden_models = {}, aw_scope = default_scope,
         aw_scope_revision = 0, aw_image_revision = 0, aw_activity_revision = 0\<rparr>))
     (reserve_request_with_operation 7 p ''s'' ''m'' 5 False OpText (Some 1) None))) open_pool =
   (0, Some 1, (Some (Inr 1), True, False, False), None)"
  by code_simp

lemma lease_demo_facts:
  "bsize (active (ps_reservations open_pool)) = 0" "fst demo_reserved = Some 1"
  "(\<lambda>(r, h, _). (r, hl_started h, hl_settled h, hl_released h))
     (begin_dispatch_with_wire True True (demo_clock 30) demo_held demo_world) = (Some (Inr 1), True, False, False)"
  "fst (begin_dispatch_with_wire True True (demo_clock 1000000) demo_held demo_world) = None"
  using lease_scenario by (simp_all add: demo_held_def demo_world_def demo_reserved_def)


lemma lease_demo_started:
  obtains h w where "begin_dispatch_with_wire True True (demo_clock 30) demo_held demo_world = (Some (Inr 1), h, w)"
    "hl_started h" "\<not> hl_settled h" "\<not> hl_released h"
  using lease_demo_facts(3) that by (auto split: prod.splits)



theorem executed_never_redispatched_witness:
  "\<exists>h w err. hl_started h \<and> begin_dispatch_with_wire True True (demo_clock 30) demo_held demo_world = (Some (Inr 1), h, w) \<and>
     fst (begin_dispatch_with_wire False True (demo_clock 40) demo_held
       (w\<lparr>aw_budget := shared_run [EvRecoveryPass] (aw_budget (snd (snd (release_lease demo_close h w))))\<rparr>)) = Some (Inl err)"
proof -
  obtain h w where d: "begin_dispatch_with_wire True True (demo_clock 30) demo_held demo_world = (Some (Inr 1), h, w)"
    "hl_started h" "\<not> hl_settled h" "\<not> hl_released h"
    by (rule lease_demo_started)
  have "\<exists>err. fst (begin_dispatch_with_wire False True (demo_clock 40) demo_held
       (w\<lparr>aw_budget := shared_run [EvRecoveryPass] (aw_budget (snd (snd (release_lease demo_close h w))))\<rparr>)) = Some (Inl err)"
    by (rule executed_never_redispatched [OF d(3,4) disjI1 [OF conjI [OF d(2) refl]]]) simp
  with d(1,2) show ?thesis by blast
qed

end
