(* ===== verification/Spec2Isabelle.thy ===== *)
theory Spec2Isabelle
  imports SharedBudget Fairness RegistryGuarantees PoolWitnesses Sse PriceEstimate PriceLoader RefreshService WakeRules
    AdmissionRules AttemptRules
begin

text \<open>
  Zenith Relay, the core of the gateway (\<open>src/crates/relay-core/src\<close>; all paths below are relative to it).

  The program sends client requests to one of many provider accounts and sources.  A request carries a
  budget (\<open>scheduler/rotation/budget\<close>) and waits its turn in the admission queue (\<open>runtime/admission\<close>).
  In its turn it asks the pool scheduler (\<open>scheduler/selection\<close>) for a candidate and holds it by a lease
  (\<open>runtime/attempt\<close>) until the attempt is settled.  The pool projects its
  candidates, their quota (\<open>quota/windows\<close>), cooldowns and saved policy into the rotation engine
  (\<open>scheduler/rotation\<close>), which decides who is ready, chooses one, counts a lease for it and settles the lease
  with what was observed.  The streamed answer is cut into events by \<open>protocol/sse.rs\<close>, its tokens are priced by
  \<open>usage/api_equivalent\<close> with quotes from \<open>pricing\<close>.  In the background \<open>scheduler/refresh\<close> reads quota,
  credentials and model lists of the members, \<open>pricing/loader\<close> renews the price catalog, and
  \<open>automations/quota_wake\<close> touches quota windows that have become full again.

  \<^bold>\<open>Conventions.\<close>  One record or datatype for each struct or enum, one definition for each operation; a method
  on \<open>&mut self\<close> returns its result and the new state.  Unsigned integers are words of their width, with
  the saturating and checked operations of \<open>Prelude\<close>; \<open>usize\<close> counters are \<open>nat\<close> where they count the
  elements of a collection; \<open>i64\<close> is an \<open>int\<close> clamped to its range; strings are lists of UTF-8 bytes.  \<open>BTreeMap\<close>
  and \<open>BTreeSet\<close> are the ordered finite maps of \<open>BMap\<close>; a hash set that is only asked for membership is a set.
  Errors are \<open>error + 'a\<close> or options, and a panic (\<open>expect\<close>, \<open>unreachable!\<close>) is a \<open>None\<close> of its own that a theorem
  excludes where the code relies on it.  Clocks, random numbers and process-wide counters are arguments.
  A critical section (the code between taking and releasing a lock) is one step; what other tasks do in
  between are other steps of a run, so theorems over runs cover every interleaving of sections.

  \<^bold>\<open>Theories.\<close>
  \<^item> \<open>Prelude\<close>, \<open>BMap\<close>, \<open>Tally\<close>: words, comparators (locale \<open>comparator\<close>), strings, ordered maps, counters as
    tallies of a set of holders.
  \<^item> \<open>RotationTypes\<close>, \<open>Engine\<close>, \<open>Latency\<close>, \<open>Health\<close>, \<open>Availability\<close>, \<open>Selection\<close>, \<open>CacheAffinity\<close>,
    \<open>Lifecycle\<close>, \<open>Registry\<close>: the rotation engine, one theory for each file of \<open>scheduler/rotation\<close> and its
    \<open>engine\<close>.  \<open>Accounting\<close> has the invariant of its counters over all operations, \<open>Guarantees\<close>,
    \<open>RegistryGuarantees\<close> and \<open>Fairness\<close> what follows: exact counters, limits, recovery trials that end,
    reservation agrees with selection, fences on dispatch, settlement and observations, shares of the weighted
    rotation.  \<open>Scenario\<close> has concrete engines.
  \<^item> \<open>Budget\<close>, \<open>SharedBudget\<close> (\<open>rotation/budget\<close>): dispatches, wire attempts, replay evidence, accumulated waits.
    No attempt starts after the upstream has executed a request.
  \<^item> \<open>Affinity\<close>, \<open>Activity\<close>, \<open>Policy\<close>, \<open>ModelRules\<close>, \<open>ModelOrder\<close>, \<open>Quota\<close>, \<open>Candidates\<close>: prompt and response
    owners, in-flight counters, the saved routing policy, model rules, identifiers and display order, quota
    windows and their merging, candidates.
  \<^item> \<open>Pool\<close>, \<open>Cooldowns\<close>, \<open>Ownership\<close>, \<open>Projection\<close>, \<open>PoolSelection\<close>, \<open>PoolAvailability\<close>, \<open>PoolLifecycle\<close>: the pool
    scheduler, one theory for each group of files of \<open>scheduler/selection\<close>.  \<open>PoolInvariant\<close>, \<open>PoolQuiet\<close>,
    \<open>PoolRuns\<close>, \<open>PoolAccounting\<close> carry an invariant over all its operations: the books of the pool and of the
    engine are functions of the live reservations.  \<open>PoolGuarantees\<close>, \<open>PoolSafety\<close>, \<open>PoolChoice\<close> state what
    follows, \<open>PoolScenario\<close> and \<open>PoolWitnesses\<close> have concrete pools and the instances of theorems with hypotheses.
  \<^item> \<open>AdmissionQueue\<close>, \<open>AdmissionRules\<close> (\<open>runtime/admission.rs\<close>, \<open>runtime/admission/waiting.rs\<close>,
    \<open>runtime/selection/capacity.rs\<close>): the queue of waiting requests over the pool and the budgets.  Its books are
    exact, nobody overtakes the request whose turn it is, a principal is passed over at most once by each one
    before it, and a section does not panic.
  \<^item> \<open>AttemptLease\<close>, \<open>AttemptRules\<close> (\<open>runtime/attempt.rs\<close>, \<open>runtime/attempt/lease.rs\<close>): the lease of a candidate
    from reservation to release, with the budget and the pool it shares.  A reservation is returned exactly
    once in every interleaving, a refused dispatch costs nothing, a request that may have been executed is not
    dispatched again; a panic of the wire debit loses the reservation.
  \<^item> \<open>Decimal\<close>, \<open>PriceQuote\<close>, \<open>PriceEstimate\<close>, \<open>PriceCatalog\<close>, \<open>PriceLoader\<close> (\<open>pricing\<close>, \<open>usage/api_equivalent\<close>):
    exact decimal arithmetic, quotes, the itemised estimate, the catalog with its unambiguous index, and the
    loader with its cache file, retries and deadlines.
  \<^item> \<open>Sse\<close> (\<open>protocol/sse.rs\<close>): the incremental reader gives the same events however the stream is cut.
  \<^item> \<open>Refresh\<close>, \<open>RefreshRules\<close>, \<open>RefreshService\<close> (\<open>scheduler/refresh\<close>): the coordinator of background reads
    (limits, class rotation, delays) and the service that answers its callers.
  \<^item> \<open>Wake\<close>, \<open>WakeRules\<close> (\<open>automations/quota_wake\<close>): tasks, cycles, permits; at most two attempts for a transition.

  \<^bold>\<open>Interfaces.\<close>  What several parts rely on is a locale, interpreted where the model provides it: \<open>comparator\<close>
  (a closure passed to a sort or a minimum is a total preorder; interpreted for every such closure of the engine,
  the caches and the display order), \<open>finite_map\<close> (the ordered map), \<open>event_invariant\<close> and \<open>event_order\<close> (what one
  step keeps, a run keeps; engine, activity, budget, admission), \<open>frame_handler\<close> (a consumer of stream events).

  \<^bold>\<open>Bounds and fuel.\<close>  All recursions are structural or carry a termination proof, except the preview of
  the selection order: \<open>preview_fuel\<close> is the number of candidates plus one, and \<open>PoolChoice.preview_ends\<close> shows
  that it is never used up, since each rank removes a member.  The driver of the refresh service recurses
  over the reads it claims; \<open>RefreshService.driver_round_ends\<close> bounds the round.  Theorems that need a bound on
  the size of a collection (such as counts below \<open>2 ^ 32\<close>) state it.

  \<^bold>\<open>Parameters.\<close>  Code outside the repository is an argument: the search of \<open>memchr\<close> (hypothesis: it finds the
  first of two bytes), printing and parsing of numbers and values by \<open>serde_json\<close> (hypothesis: a value that
  was printed is read back), SHA-256 and hexadecimal output (hypotheses: not empty, and for the loader no
  collision between the payloads compared).  The network, the file system and result channels are arguments of
  the steps that use them.

  \<^bold>\<open>Not modelled.\<close>
  \<^item> \<open>gateway\<close>, \<open>providers\<close>, the rest of \<open>runtime\<close>: asynchronous drivers over tokio, hyper and reqwest whose
    behaviour is mostly that of those libraries; what they call of the scheduler is modelled.  Rules that classify
    upstream errors read provider texts and headers.
  \<^item> \<open>protocol/adapter\<close> and the usage readers of \<open>gateway/streaming\<close>: translation between wire formats over
    \<open>serde_json::Value\<close>.
  \<^item> \<open>accounts\<close>, \<open>sources\<close>, \<open>model_metadata\<close>, \<open>storage\<close>: OAuth, secrets, files, SQL.
  \<^item> the delays of \<open>scheduler/refresh.rs\<close> computed from quota snapshots, \<open>quota/refresh.rs\<close>,
    \<open>quota/windows/subscription.rs\<close> (dates of a third-party crate), daily automations (time zones).
  \<^item> the desktop application (\<open>src/src-tauri\<close>) and the web interface: commands, windows, views, another language.
\<close>

end
